(* ===== verification/Vif_Prelude.thy ===== *)
theory Vif_Prelude
  imports Main "HOL-Library.Word"
begin

text \<open>
  Shared vocabulary of the development: the machine types of the Rust sources, the
  outcome of a Rust call that may panic, the comparison results of \<^verbatim>\<open>core::cmp\<close>,
  the few operations of the Rust standard library that several components call
  (slice search, slice comparison, bit counting, rounding up), and the generic lemmas on
  lists and words that carry the component proofs.

  Machine integers on which the code computes (limbs of a big integer, table flags,
  packed indices, bit masks) are words of their width. Counters and positions
  (\<^verbatim>\<open>usize\<close> offsets into a buffer that exists in memory) are natural numbers; wherever
  the code subtracts from one, the model states or proves that it does not go below zero.
\<close>

unbundle bit_operations_syntax

named_theorems word_split \<open>the low and the high half of a double-width word\<close>
named_theorems limb_arith \<open>values of limb vectors\<close>

section \<open>Machine types\<close>

type_synonym u8 = "8 word"
type_synonym u16 = "16 word"
type_synonym u32 = "32 word"
type_synonym u64 = "64 word"
type_synonym u128 = "128 word"

text \<open>A byte of source text: \<^typ>\<open>char\<close> has exactly the 256 values of \<^verbatim>\<open>u8\<close>.\<close>

type_synonym byte = char

section \<open>Calls that may panic\<close>

text \<open>
  A Rust call either returns a value or panics (a failed \<^verbatim>\<open>assert!\<close>, an index out of
  range, \<^verbatim>\<open>unreachable!\<close>).
\<close>

datatype 'a outcome = Panics | Returns 'a

fun bind_outcome :: "'a outcome \<Rightarrow> ('a \<Rightarrow> 'b outcome) \<Rightarrow> 'b outcome" where
  "bind_outcome Panics f = Panics"
| "bind_outcome (Returns x) f = f x"

lemma bind_outcome_Returns_iff:
  "bind_outcome m f = Returns y \<longleftrightarrow> (\<exists>x. m = Returns x \<and> f x = Returns y)"
  by (cases m) auto

section \<open>Comparison\<close>

text \<open>\<^verbatim>\<open>core::cmp::Ordering\<close>, and the comparison of two values of a totally ordered type.\<close>

datatype ordering = Less | Equal | Greater

definition cmp :: "'a::linorder \<Rightarrow> 'a \<Rightarrow> ordering" where
  "cmp x y = (if x < y then Less else if x = y then Equal else Greater)"

lemma cmp_simps [simp]:
  "cmp x y = Less \<longleftrightarrow> x < y"
  "cmp x y = Equal \<longleftrightarrow> x = y"
  "cmp x y = Greater \<longleftrightarrow> y < x"
  by (auto simp: cmp_def)

lemma cmp_refl [simp]: "cmp x x = Equal"
  by simp

text \<open>\<^verbatim>\<open>Iterator::cmp\<close>: lexicographic.\<close>

fun iter_cmp :: "'a::linorder list \<Rightarrow> 'a list \<Rightarrow> ordering" where
  "iter_cmp [] [] = Equal"
| "iter_cmp [] (y # ys) = Less"
| "iter_cmp (x # xs) [] = Greater"
| "iter_cmp (x # xs) (y # ys) =
     (case cmp x y of Equal \<Rightarrow> iter_cmp xs ys | ord \<Rightarrow> ord)"

section \<open>Searching a slice\<close>

text \<open>
  The position of the first element that satisfies a predicate
  (\<^verbatim>\<open>Iterator::position\<close>).
\<close>

fun find_index :: "('a \<Rightarrow> bool) \<Rightarrow> 'a list \<Rightarrow> nat option" where
  "find_index P [] = None"
| "find_index P (x # xs) = (if P x then Some 0 else map_option Suc (find_index P xs))"

lemma find_index_None_iff: "find_index P xs = None \<longleftrightarrow> (\<forall>x \<in> set xs. \<not> P x)"
  by (induction xs) auto

lemma find_index_SomeD:
  "find_index P xs = Some i \<Longrightarrow> i < length xs \<and> P (xs ! i) \<and> (\<forall>j < i. \<not> P (xs ! j))"
proof (induction xs arbitrary: i)
  case Nil
  then show ?case by simp
next
  case (Cons x xs)
  show ?case
  proof (cases "P x")
    case True
    with Cons.prems show ?thesis by auto
  next
    case False
    with Cons.prems obtain k where k: "find_index P xs = Some k" "i = Suc k" by auto
    with Cons.IH [OF k(1)] False show ?thesis
      by (auto simp: nth_Cons split: nat.splits)
  qed
qed

lemma find_index_exists: "i < length xs \<Longrightarrow> P (xs ! i) \<Longrightarrow> \<exists>j \<le> i. find_index P xs = Some j"
proof (induction xs arbitrary: i)
  case Nil
  then show ?case by simp
next
  case (Cons x xs)
  then show ?case by (cases i) fastforce+
qed

lemma find_index_drop_exists:
  assumes "k < length xs" and "P (xs ! k)" and "n \<le> k"
  shows "\<exists>j. find_index P (drop n xs) = Some j \<and> n + j \<le> k"
proof -
  from assms have "k - n < length (drop n xs)" and "P (drop n xs ! (k - n))"
    by (auto simp: nth_drop)
  then obtain j where "j \<le> k - n" and "find_index P (drop n xs) = Some j"
    using find_index_exists [of "k - n" "drop n xs" P] by blast
  with assms(3) show ?thesis by auto
qed

lemma find_index_dropD:
  assumes "find_index P (drop n xs) = Some j" and "n \<le> length xs"
  shows "n + j < length xs \<and> P (xs ! (n + j)) \<and> (\<forall>k. n \<le> k \<and> k < n + j \<longrightarrow> \<not> P (xs ! k))"
proof -
  from find_index_SomeD [OF assms(1)]
  have d: "j < length (drop n xs)" "P (drop n xs ! j)" "\<And>i. i < j \<Longrightarrow> \<not> P (drop n xs ! i)"
    by auto
  have "\<not> P (xs ! k)" if "n \<le> k" "k < n + j" for k
    using d(3) [of "k - n"] that assms(2) by (auto simp: nth_drop)
  with d(1,2) assms(2) show ?thesis by (auto simp: nth_drop)
qed

section \<open>Rounding\<close>

text \<open>\<^verbatim>\<open>u64::div_ceil\<close> for a divisor that is not zero.\<close>

definition div_ceil :: "nat \<Rightarrow> nat \<Rightarrow> nat" where
  "div_ceil x y = (if x mod y = 0 then x div y else x div y + 1)"

lemma div_ceil_mult_ge: "0 < y \<Longrightarrow> x \<le> y * div_ceil x y"
proof -
  assume "0 < y"
  then have "x mod y < y" by simp
  then have "x \<le> y * (x div y) + y" using mult_div_mod_eq [of y x] by linarith
  then show ?thesis
    using mult_div_mod_eq [of y x] by (auto simp: div_ceil_def algebra_simps)
qed

section \<open>Decimal notation\<close>

text \<open>The digits of a number, without any for zero, and \<^verbatim>\<open>Display\<close> of an unsigned machine integer.\<close>

fun dec_digits :: "nat \<Rightarrow> char list" where
  "dec_digits n = (if n = 0 then [] else dec_digits (n div 10) @ [char_of (48 + n mod 10)])"

declare dec_digits.simps [simp del]

definition show_nat :: "nat \<Rightarrow> char list" where
  "show_nat n = (if n = 0 then CHR ''0'' # [] else dec_digits n)"

section \<open>Words\<close>

lemma unat_lo [word_split]: "unat (ucast (w :: u128) :: u64) = unat w mod 2 ^ 64"
  by (simp only: unsigned_ucast_eq take_bit_eq_mod) simp

lemma unat_hi [word_split]: "unat (drop_bit 64 (w :: u128)) = unat w div 2 ^ 64"
  by (simp add: drop_bit_eq_div unat_div_distrib)

lemma unat_widen [word_split]: "unat (ucast (x :: u64) :: u128) = unat x"
proof -
  have "unat x < 2 ^ 64" using unsigned_less [of x] by simp
  then show ?thesis by (simp add: unsigned_ucast_eq take_bit_nat_eq_self_iff)
qed

text \<open>The magnitude of a two's-complement value, the most negative one included.\<close>

lemma unat_abs_sint: "int (unat (if sint (v :: 'a::len word) < 0 then - v else v)) = \<bar>sint v\<bar>"
proof -
  let ?m = "2 ^ LENGTH('a) :: int"
  have u: "uint v = sint v mod ?m" using uint_sint [of v] by (simp add: take_bit_eq_mod)
  have lo: "- (2 ^ (LENGTH('a) - 1)) \<le> sint v" and hi: "sint v < 2 ^ (LENGTH('a) - 1)"
    using sint_ge [of v] sint_lt [of v] by simp_all
  have half: "2 ^ (LENGTH('a) - 1) < ?m" by (rule power_strict_increasing) simp_all
  show ?thesis
  proof (cases "sint v < 0")
    case True
    have "uint (- v) = (- sint v) mod ?m"
      by (simp add: uint_word_ariths u mod_minus_eq)
    also have "\<dots> = - sint v" using True lo half by (intro mod_pos_pos_trivial) linarith+
    finally show ?thesis using True by simp
  next
    case False
    then have "uint v = sint v" unfolding u using hi half by (intro mod_pos_pos_trivial) linarith+
    with False show ?thesis by simp
  qed
qed

end
