(* ===== verification/Vif_Limbs.thy ===== *)
theory Vif_Limbs
  imports Vif_Prelude
begin

text \<open>
  Vectors of 64-bit limbs, least significant first: the magnitude of an
  \<^verbatim>\<open>Anyint\<close> (\<^verbatim>\<open>src/int.rs\<close>). This theory gives their value as a natural number and
  the laws by which the carry loops of \<^verbatim>\<open>int.rs\<close> are verified: reading a limb past the
  end as zero, overwriting a limb, splitting a double-width sum or product into the limb
  that is stored and the carry, stripping the high zero limbs, and comparing.
\<close>

section \<open>Value of a limb vector\<close>

definition base :: nat where
  "base = 2 ^ 64"

lemma base_pos [simp]: "0 < base" "base \<noteq> 0" "Suc 0 < base" "1 < base"
  by (simp_all add: base_def)

lemma unat_less_base [simp]: "unat (x :: u64) < base"
  using unsigned_less [of x] by (simp add: base_def)

lemma unat_le_base: "unat (x :: u64) \<le> base - 1"
  using unat_less_base [of x] by linarith

fun limbs_val :: "u64 list \<Rightarrow> nat" where
  "limbs_val [] = 0"
| "limbs_val (x # xs) = unat x + base * limbs_val xs"

text \<open>\<^verbatim>\<open>limbs.get(i).copied().unwrap_or(0)\<close>.\<close>

definition limb_at :: "u64 list \<Rightarrow> nat \<Rightarrow> u64" where
  "limb_at xs i = (if i < length xs then xs ! i else 0)"

lemma limbs_val_drop: "limbs_val (drop k xs) = unat (limb_at xs k) + base * limbs_val (drop (Suc k) xs)"
proof (cases "k < length xs")
  case True
  then show ?thesis by (simp add: limb_at_def Cons_nth_drop_Suc [symmetric])
next
  case False
  then show ?thesis by (simp add: limb_at_def)
qed

lemma limbs_val_append: "limbs_val (xs @ ys) = limbs_val xs + base ^ length xs * limbs_val ys"
  by (induction xs) (simp_all add: algebra_simps)

lemma limbs_val_take_Suc:
  "i < length xs \<Longrightarrow> limbs_val (take (Suc i) xs) = limbs_val (take i xs) + base ^ i * unat (xs ! i)"
  by (simp add: take_Suc_conv_app_nth limbs_val_append)

lemma limbs_val_replicate [simp]: "limbs_val (replicate n 0) = 0"
  by (induction n) simp_all

lemma limbs_val_bound: "limbs_val xs < base ^ length xs"
proof (induction xs)
  case Nil
  then show ?case by simp
next
  case (Cons x xs)
  have "unat x + base * limbs_val xs < base + base * limbs_val xs" by simp
  also have "\<dots> = base * (limbs_val xs + 1)" by simp
  also have "\<dots> \<le> base * base ^ length xs" using Cons.IH by (intro mult_le_mono2) simp
  finally show ?case by simp
qed

lemma limbs_val_update:
  "i < length xs \<Longrightarrow> limbs_val (xs[i := v]) + base ^ i * unat (xs ! i) = limbs_val xs + base ^ i * unat v"
proof (induction xs arbitrary: i)
  case Nil
  then show ?case by simp
next
  case (Cons x xs)
  show ?case
  proof (cases i)
    case 0
    then show ?thesis by simp
  next
    case (Suc k)
    with Cons.prems have "k < length xs" by simp
    from Cons.IH [OF this]
    have "base * (limbs_val (xs[k := v]) + base ^ k * unat (xs ! k))
        = base * (limbs_val xs + base ^ k * unat v)" by simp
    with Suc show ?thesis by (simp add: algebra_simps)
  qed
qed

lemma limbs_val_eq_0_iff: "limbs_val xs = 0 \<longleftrightarrow> (\<forall>x \<in> set xs. x = 0)"
  by (induction xs) (auto simp: unat_eq_zero)

lemma limbs_val_inj:
  "length xs = length ys \<Longrightarrow> limbs_val xs = limbs_val ys \<Longrightarrow> xs = ys"
proof (induction xs ys rule: list_induct2)
  case Nil
  then show ?case by simp
next
  case (Cons x xs y ys)
  have "(unat x + base * limbs_val xs) mod base = (unat y + base * limbs_val ys) mod base"
    and "(unat x + base * limbs_val xs) div base = (unat y + base * limbs_val ys) div base"
    using Cons.prems by simp_all
  then have "unat x = unat y" and "limbs_val xs = limbs_val ys" by simp_all
  with Cons.IH show ?case by (simp add: word_unat_eq_iff)
qed

section \<open>Carries\<close>

text \<open>
  Every carry loop of \<^verbatim>\<open>int.rs\<close> computes a double-width word \<open>w\<close>, stores
  \<^verbatim>\<open>w as u64\<close> and carries \<^verbatim>\<open>w >> 64\<close>; together they are \<open>w\<close> again.
\<close>

definition lo :: "u128 \<Rightarrow> u64" where
  "lo w = ucast w"

definition hi :: "u128 \<Rightarrow> u128" where
  "hi w = drop_bit 64 w"

definition wide :: "u64 \<Rightarrow> u128" where
  "wide x = ucast x"

lemma unat_lo_base [limb_arith]: "unat (lo w) = unat w mod base"
  by (simp add: lo_def base_def unat_lo)

lemma unat_hi_base [limb_arith]: "unat (hi w) = unat w div base"
  unfolding hi_def base_def by (rule unat_hi)

lemma unat_wide [limb_arith, simp]: "unat (wide x) = unat x"
  by (simp add: wide_def unat_widen)

lemma lo_hi: "unat (lo w) + base * unat (hi w) = unat w"
  by (simp add: limb_arith)

lemma wide_0 [simp]: "wide 0 = 0"
  by (simp add: wide_def)

lemma hi_wide [simp]: "hi (wide x) = 0"
  by (simp add: word_unat_eq_iff limb_arith)

lemma lo_wide [simp]: "lo (wide x) = x"
  by (simp add: word_unat_eq_iff limb_arith)

lemma base_square: "base * base = 2 ^ 128"
  by (simp add: base_def power_add [symmetric])

lemma unat_add_128: "unat (a :: u128) + unat b < base * base \<Longrightarrow> unat (a + b) = unat a + unat b"
  by (simp add: base_square unat_add_lem [THEN iffD1])

lemma unat_mult_128: "unat (a :: u128) * unat b < base * base \<Longrightarrow> unat (a * b) = unat a * unat b"
  by (simp add: base_square unat_mult_lem [THEN iffD1])

lemma base_le_square: "k \<le> base \<Longrightarrow> k * base \<le> base * base"
  by simp

text \<open>A sum of two limbs and a carry of at most one fits the double-width word.\<close>

lemma unat_add3:
  assumes "unat (c :: u128) \<le> 1"
  shows "unat (wide a + wide b + c) = unat a + unat b + unat c"
proof -
  have "unat a + unat b + unat c < 2 * base"
    using unat_less_base [of a] unat_less_base [of b] assms by linarith
  moreover have "2 * base \<le> base * base" by (rule base_le_square) (simp add: base_def)
  ultimately have bnd: "unat a + unat b + unat c < base * base" by linarith
  then have "unat (wide a + wide b) = unat a + unat b" by (simp add: unat_add_128)
  with bnd show ?thesis by (simp add: unat_add_128)
qed

text \<open>The product step \<^verbatim>\<open>out + a * b + carry\<close> never overflows 128 bits.\<close>

lemma mul_step_bound:
  assumes "x < n" and "y < n" and "z < n" and "c < (n :: nat)"
  shows "x + y * z + c < n * n"
proof -
  obtain m where n: "n = Suc m" using assms(1) by (cases n) auto
  have "y * z \<le> m * m" using assms(2,3) n by (intro mult_le_mono) auto
  then have "x + y * z + c \<le> m + m * m + m" using assms(1,4) n by linarith
  also have "\<dots> < n * n" by (simp add: n)
  finally show ?thesis .
qed

lemma unat_mul_step:
  assumes "unat (c :: u128) < base"
  shows "unat (wide x + wide a * wide b + c) = unat x + unat a * unat b + unat c"
proof -
  have bnd: "unat x + unat a * unat b + unat c < base * base"
    using assms by (intro mul_step_bound) simp_all
  then have m: "unat (wide a * wide b) = unat a * unat b" by (simp add: unat_mult_128)
  with bnd have "unat (wide x + wide a * wide b) = unat x + unat a * unat b"
    by (simp add: unat_add_128)
  with bnd show ?thesis by (simp add: unat_add_128)
qed

lemma hi_less_base: "unat w < base * base \<Longrightarrow> unat (hi w) < base"
  by (simp add: limb_arith div_less_iff_less_mult)

lemma unat_128_less: "unat (w :: u128) < base * base"
  using unsigned_less [of w] by (simp add: base_square)

lemma hi_less [simp]: "unat (hi w) < base"
  by (rule hi_less_base) (rule unat_128_less)

section \<open>Stripping high zero limbs\<close>

text \<open>\<^verbatim>\<open>while self.limbs.last() == Some(&0) { self.limbs.pop(); }\<close>\<close>

function pop_zeros :: "u64 list \<Rightarrow> u64 list" where
  "pop_zeros xs = (if xs \<noteq> [] \<and> last xs = 0 then pop_zeros (butlast xs) else xs)"
  by pat_completeness auto
termination
  by (relation "measure length") (auto simp: length_butlast)

declare pop_zeros.simps [simp del]

definition no_high_zero :: "u64 list \<Rightarrow> bool" where
  "no_high_zero xs \<longleftrightarrow> xs = [] \<or> last xs \<noteq> 0"

lemma pop_zeros_val [simp]: "limbs_val (pop_zeros xs) = limbs_val xs"
proof (induction xs rule: pop_zeros.induct)
  case (1 xs)
  show ?case
  proof (cases "xs \<noteq> [] \<and> last xs = 0")
    case True
    then have "limbs_val xs = limbs_val (butlast xs @ [0])" by (metis append_butlast_last_id)
    with 1 True show ?thesis by (simp add: pop_zeros.simps [of xs] limbs_val_append)
  next
    case False
    then show ?thesis by (subst pop_zeros.simps) auto
  qed
qed

lemma pop_zeros_no_high_zero [simp]: "no_high_zero (pop_zeros xs)"
proof (induction xs rule: pop_zeros.induct)
  case (1 xs)
  then show ?case
    by (cases "xs \<noteq> [] \<and> last xs = 0") (auto simp: pop_zeros.simps [of xs] no_high_zero_def)
qed

lemma pop_zeros_id: "no_high_zero xs \<Longrightarrow> pop_zeros xs = xs"
  by (subst pop_zeros.simps) (auto simp: no_high_zero_def)

lemma no_high_zero_lower:
  assumes "no_high_zero xs" and "xs \<noteq> []"
  shows "base ^ (length xs - 1) \<le> limbs_val xs"
proof -
  obtain ys y where xs: "xs = ys @ [y]" and "y \<noteq> 0"
    using assms by (auto simp: no_high_zero_def) (metis append_butlast_last_id)
  then have "1 \<le> unat y" by (simp add: Suc_leI unat_gt_0)
  then have "base ^ length ys * 1 \<le> base ^ length ys * unat y" by (intro mult_le_mono2)
  with xs show ?thesis by (simp add: limbs_val_append trans_le_add2)
qed

lemma no_high_zero_iff:
  assumes "xs \<noteq> []"
  shows "no_high_zero xs \<longleftrightarrow> base ^ (length xs - 1) \<le> limbs_val xs"
proof
  assume "no_high_zero xs"
  then show "base ^ (length xs - 1) \<le> limbs_val xs" using assms by (rule no_high_zero_lower)
next
  assume le: "base ^ (length xs - 1) \<le> limbs_val xs"
  obtain ys y where xs: "xs = ys @ [y]" using assms by (metis append_butlast_last_id)
  have "y \<noteq> 0"
  proof
    assume "y = 0"
    with xs le limbs_val_bound [of ys] show False by (simp add: limbs_val_append)
  qed
  with xs show "no_high_zero xs" by (simp add: no_high_zero_def)
qed

lemma no_high_zero_val_0: "no_high_zero xs \<Longrightarrow> limbs_val xs = 0 \<longleftrightarrow> xs = []"
  using no_high_zero_lower [of xs] by fastforce

lemma no_high_zero_length_less:
  assumes "no_high_zero ys" and "length xs < length ys"
  shows "limbs_val xs < limbs_val ys"
proof -
  have "limbs_val xs < base ^ length xs" by (rule limbs_val_bound)
  also have "\<dots> \<le> base ^ (length ys - 1)" using assms(2) base_pos by (intro power_increasing) (auto simp: Suc_leI)
  also have "\<dots> \<le> limbs_val ys" using assms by (intro no_high_zero_lower) auto
  finally show ?thesis .
qed

lemma no_high_zero_inj:
  assumes "no_high_zero xs" and "no_high_zero ys" and "limbs_val xs = limbs_val ys"
  shows "xs = ys"
  using assms no_high_zero_length_less [of xs ys] no_high_zero_length_less [of ys xs]
  by (metis limbs_val_inj linorder_neqE_nat nat_neq_iff)

section \<open>Comparing\<close>

lemma iter_cmp_rev:
  "length xs = length ys \<Longrightarrow> iter_cmp (rev xs) (rev ys) = cmp (limbs_val xs) (limbs_val ys)"
proof (induction "length xs" arbitrary: xs ys)
  case 0
  then show ?case by (simp add: cmp_def)
next
  case (Suc n)
  obtain xs' x where xs: "xs = xs' @ [x]" using Suc.hyps(2) by (metis Zero_not_Suc list.size(3) rev_exhaust)
  obtain ys' y where ys: "ys = ys' @ [y]" using Suc by (metis Zero_not_Suc list.size(3) rev_exhaust)
  have len: "length xs' = length ys'" and IH: "iter_cmp (rev xs') (rev ys') = cmp (limbs_val xs') (limbs_val ys')"
    using Suc xs ys by auto
  have bx: "limbs_val xs' < base ^ length xs'" and byy: "limbs_val ys' < base ^ length xs'"
    using limbs_val_bound [of xs'] limbs_val_bound [of ys'] len by simp_all
  have less: "p + q * a < r + q * b" if "p < q" "a < b" for p q r a b :: nat
  proof -
    have "p + q * a < q * (a + 1)" using that(1) by simp
    also have "\<dots> \<le> q * b" using that(2) by (intro mult_le_mono2) simp
    finally show ?thesis by simp
  qed
  show ?case
  proof (cases "cmp x y")
    case Less
    then have "unat x < unat y" by (simp add: word_less_nat_alt)
    with less [OF bx this, of "limbs_val ys'"] Less xs ys len show ?thesis
      by (simp add: limbs_val_append cmp_def)
  next
    case Equal
    then have "x = y" by simp
    then show ?thesis using xs ys len IH by (simp add: limbs_val_append cmp_def)
  next
    case Greater
    then have "unat y < unat x" by (simp add: word_less_nat_alt)
    with less [OF byy this, of "limbs_val xs'"] Greater xs ys len show ?thesis
      by (simp add: limbs_val_append cmp_def)
  qed
qed

end
