(* ===== verification/Vif_Anyint.thy ===== *)
theory Vif_Anyint
  imports Vif_Limbs
begin

text \<open>
  The arbitrary-precision integers of the compiler, \<^verbatim>\<open>src/int.rs\<close>: a sign and a vector
  of 64-bit limbs. One definition per method, in the order of the file, with the loops as
  recursive functions over the limbs. The abstraction is \<open>to_int\<close>; the invariant
  \<open>wf_anyint\<close> (no high zero limb, no negative zero) is what \<^verbatim>\<open>normalize\<close> establishes and
  what the derived \<^verbatim>\<open>PartialEq\<close>/\<^verbatim>\<open>Hash\<close> rely on. This theory holds the definitions and the
  laws of the operations that are not shifts, divisions or bitwise operations.
\<close>

section \<open>Representation\<close>

record anyint =
  negative :: bool
  limbs :: "u64 list"

definition ZERO :: anyint where
  "ZERO = \<lparr>negative = False, limbs = []\<rparr>"

definition to_int :: "anyint \<Rightarrow> int" where
  "to_int a = (if negative a then - int (limbs_val (limbs a)) else int (limbs_val (limbs a)))"

definition wf_anyint :: "anyint \<Rightarrow> bool" where
  "wf_anyint a \<longleftrightarrow> no_high_zero (limbs a) \<and> (limbs a = [] \<longrightarrow> \<not> negative a)"

definition is_negative :: "anyint \<Rightarrow> bool" where
  "is_negative a = negative a"

definition is_zero :: "anyint \<Rightarrow> bool" where
  "is_zero a \<longleftrightarrow> limbs a = []"

definition normalize :: "anyint \<Rightarrow> anyint" where
  "normalize a =
     (let ls = pop_zeros (limbs a)
      in \<lparr>negative = (if ls = [] then False else negative a), limbs = ls\<rparr>)"

section \<open>Queries\<close>

definition to_u64 :: "anyint \<Rightarrow> u64 option" where
  "to_u64 a =
     (if negative a \<or> length (limbs a) > 1 then None
      else Some (case limbs a of [] \<Rightarrow> 0 | l # _ \<Rightarrow> l))"

text \<open>\<^verbatim>\<open>u64::leading_zeros\<close>: how many bits from the top down to the highest set bit.\<close>

definition leading_zeros :: "u64 \<Rightarrow> nat" where
  "leading_zeros w = length (takeWhile Not (map (bit w) (rev [0..<64])))"

definition significant_bits :: "anyint \<Rightarrow> nat" where
  "significant_bits a =
     (if limbs a = [] then 0
      else (length (limbs a) - 1) * 64 + (64 - leading_zeros (last (limbs a))))"

definition fits_unsigned_bits :: "anyint \<Rightarrow> u16 \<Rightarrow> bool" where
  "fits_unsigned_bits a bits \<longleftrightarrow> \<not> negative a \<and> significant_bits a \<le> unat bits"

definition abs_cmp :: "anyint \<Rightarrow> anyint \<Rightarrow> ordering" where
  "abs_cmp a b =
     (case cmp (length (limbs a)) (length (limbs b)) of
        Equal \<Rightarrow> iter_cmp (rev (limbs a)) (rev (limbs b))
      | ord \<Rightarrow> ord)"

definition abs_cmp_pow2 :: "anyint \<Rightarrow> nat \<Rightarrow> ordering" where
  "abs_cmp_pow2 a bit_pos =
     (let limb = bit_pos div 64; bit_in_limb = bit_pos mod 64; needed_len = limb + 1
      in case cmp (length (limbs a)) needed_len of
           Less \<Rightarrow> Less
         | Greater \<Rightarrow> Greater
         | Equal \<Rightarrow>
             (let top = push_bit bit_in_limb 1
              in case cmp (limbs a ! limb) top of
                   Equal \<Rightarrow>
                     (if list_ex (\<lambda>x. x \<noteq> 0) (take limb (limbs a)) then Greater else Equal)
                 | ord \<Rightarrow> ord))"

text \<open>\<^verbatim>\<open>assert!(bits > 0)\<close> panics on a width of zero.\<close>

definition fits_signed_bits :: "anyint \<Rightarrow> u16 \<Rightarrow> bool outcome" where
  "fits_signed_bits a bits =
     (if \<not> (0 < bits) then Panics
      else if negative a then Returns (abs_cmp_pow2 a (unat (bits - 1)) \<noteq> Greater)
      else Returns (significant_bits a < unat bits))"

section \<open>Magnitudes\<close>

text \<open>
  \<^verbatim>\<open>for i in 0..len\<close>: the limbs pushed to \<^verbatim>\<open>out\<close> and the carry after the loop.
\<close>

fun add_abs_loop :: "u64 list \<Rightarrow> u64 list \<Rightarrow> nat list \<Rightarrow> u128 \<Rightarrow> u64 list \<times> u128" where
  "add_abs_loop lhs rhs [] carry = ([], carry)"
| "add_abs_loop lhs rhs (i # is) carry =
     (let a = wide (limb_at lhs i); b = wide (limb_at rhs i);
          sum = a + b + carry;
          (out, carry') = add_abs_loop lhs rhs is (hi sum)
      in (lo sum # out, carry'))"

definition add_abs :: "u64 list \<Rightarrow> u64 list \<Rightarrow> u64 list" where
  "add_abs lhs rhs =
     (let len = max (length lhs) (length rhs);
          (out, carry) = add_abs_loop lhs rhs [0..<len] 0
      in if carry \<noteq> 0 then out @ [lo carry] else out)"

text \<open>\<^verbatim>\<open>1u128 << 64\<close>\<close>

definition two64 :: u128 where
  "two64 = push_bit 64 1"

text \<open>\<^verbatim>\<open>for (i, &a) in lhs.iter().enumerate()\<close>: the borrow is 0 or 1.\<close>

fun sub_abs_loop :: "u64 list \<Rightarrow> nat \<Rightarrow> u64 list \<Rightarrow> u128 \<Rightarrow> u64 list" where
  "sub_abs_loop rhs i [] borrow = []"
| "sub_abs_loop rhs i (a # as) borrow =
     (let b = wide (limb_at rhs i); sub = b + borrow
      in if wide a \<ge> sub
         then lo (wide a - sub) # sub_abs_loop rhs (i + 1) as 0
         else lo (two64 + wide a - sub) # sub_abs_loop rhs (i + 1) as 1)"

definition sub_abs :: "u64 list \<Rightarrow> u64 list \<Rightarrow> u64 list" where
  "sub_abs lhs rhs = sub_abs_loop rhs 0 lhs 0"

text \<open>
  \<^verbatim>\<open>while carry != 0\<close> over the limbs from \<^verbatim>\<open>i\<close> on; at the end of the vector a zero limb is
  pushed first.
\<close>

function add_small_loop :: "u64 list \<Rightarrow> u128 \<Rightarrow> u64 list" where
  "add_small_loop ls carry =
     (if carry = 0 then ls
      else case ls of
             [] \<Rightarrow> (let sum = wide 0 + carry in lo sum # add_small_loop [] (hi sum))
           | l # ls' \<Rightarrow> (let sum = wide l + carry in lo sum # add_small_loop ls' (hi sum)))"
  by pat_completeness auto
termination
proof (relation "measures [\<lambda>(ls, carry). length ls, \<lambda>(ls, carry). unat carry]", goal_cases)
  case 1
  show ?case by simp
next
  case (2 ls carry sum)
  then have "0 < unat carry" by (simp add: unat_gt_0)
  then have "unat carry div base < unat carry" by (simp add: div_less_dividend)
  with 2 show ?case by (simp add: unat_hi_base)
next
  case (3 ls carry l ls' sum)
  then show ?case by simp
qed

declare add_small_loop.simps [simp del]

definition add_small_assign :: "anyint \<Rightarrow> u64 \<Rightarrow> anyint" where
  "add_small_assign a rhs =
     (if rhs = 0 then a else a\<lparr>limbs := add_small_loop (limbs a) (wide rhs)\<rparr>)"

fun mul_small_loop :: "u64 \<Rightarrow> u64 list \<Rightarrow> u128 \<Rightarrow> u64 list \<times> u128" where
  "mul_small_loop rhs [] carry = ([], carry)"
| "mul_small_loop rhs (l # ls) carry =
     (let prod = wide l * wide rhs + carry;
          (out, carry') = mul_small_loop rhs ls (hi prod)
      in (lo prod # out, carry'))"

definition mul_small_assign :: "anyint \<Rightarrow> u64 \<Rightarrow> anyint" where
  "mul_small_assign a rhs =
     (if rhs = 0 \<or> is_zero a then ZERO
      else let (out, carry) = mul_small_loop rhs (limbs a) 0
           in a\<lparr>limbs := (if carry \<noteq> 0 then out @ [lo carry] else out)\<rparr>)"

text \<open>
  \<^verbatim>\<open>for i in (0..len).rev()\<close>: the higher limbs are divided first, and their remainder is
  the high half of the next dividend.
\<close>

fun div_rem_small_loop :: "u64 \<Rightarrow> u64 list \<Rightarrow> u64 list \<times> u128" where
  "div_rem_small_loop rhs [] = ([], 0)"
| "div_rem_small_loop rhs (l # ls) =
     (let (out, rem) = div_rem_small_loop rhs ls;
          cur = push_bit 64 rem OR wide l
      in (lo (cur div wide rhs) # out, cur mod wide rhs))"

definition div_rem_small :: "anyint \<Rightarrow> u64 \<Rightarrow> (anyint \<times> u64) outcome" where
  "div_rem_small a rhs =
     (if rhs = 0 then Panics
      else let (out, rem) = div_rem_small_loop rhs (limbs a)
           in Returns (normalize \<lparr>negative = False, limbs = out\<rparr>, lo rem))"

section \<open>Parsing and printing\<close>

text \<open>The value of a digit byte, \<^verbatim>\<open>None\<close> for a byte that is not a digit.\<close>

definition digit_of :: "byte \<Rightarrow> nat option" where
  "digit_of b =
     (let c = (of_char b :: nat)
      in if 48 \<le> c \<and> c \<le> 57 then Some (c - 48)
         else if 97 \<le> c \<and> c \<le> 122 then Some (c - 97 + 10)
         else if 65 \<le> c \<and> c \<le> 90 then Some (c - 65 + 10)
         else None)"

fun parse_digits :: "nat \<Rightarrow> byte list \<Rightarrow> anyint \<Rightarrow> anyint option" where
  "parse_digits radix [] result = Some result"
| "parse_digits radix (b # bs) result =
     (if b = CHR ''_'' then parse_digits radix bs result
      else case digit_of b of
             None \<Rightarrow> None
           | Some digit \<Rightarrow>
               (if digit \<ge> radix then None
                else parse_digits radix bs
                       (add_small_assign (mul_small_assign result (of_nat radix)) (of_nat digit))))"

definition parse_radix :: "nat \<Rightarrow> byte list \<Rightarrow> anyint option outcome" where
  "parse_radix radix digits =
     (if \<not> (2 \<le> radix \<and> radix \<le> 36) then Panics else Returns (parse_digits radix digits ZERO))"

section \<open>Operators\<close>

definition neg :: "anyint \<Rightarrow> anyint" where
  "neg a = (if \<not> is_zero a then a\<lparr>negative := \<not> negative a\<rparr> else a)"

definition add :: "anyint \<Rightarrow> anyint \<Rightarrow> anyint" where
  "add a b =
     normalize
       (if negative a = negative b
        then \<lparr>negative = negative a, limbs = add_abs (limbs a) (limbs b)\<rparr>
        else case abs_cmp a b of
               Less \<Rightarrow> \<lparr>negative = negative b, limbs = sub_abs (limbs b) (limbs a)\<rparr>
             | _ \<Rightarrow> \<lparr>negative = negative a, limbs = sub_abs (limbs a) (limbs b)\<rparr>)"

definition sub :: "anyint \<Rightarrow> anyint \<Rightarrow> anyint" where
  "sub a b = add a (neg b)"

text \<open>
  \<^verbatim>\<open>Mul\<close>: the inner loop adds one partial product into \<^verbatim>\<open>out\<close> from index \<^verbatim>\<open>i\<close> on; the
  \<^verbatim>\<open>while\<close> loop propagates its carry. Indexing past the end of \<^verbatim>\<open>out\<close> would panic.
\<close>

fun mul_inner :: "u64 \<Rightarrow> u64 list \<Rightarrow> nat \<Rightarrow> u64 list \<Rightarrow> u128 \<Rightarrow> u64 list \<times> u128" where
  "mul_inner a [] idx out carry = (out, carry)"
| "mul_inner a (b # bs) idx out carry =
     (let cur = wide (out ! idx) + wide a * wide b + carry
      in mul_inner a bs (idx + 1) (out[idx := lo cur]) (hi cur))"

function mul_carry :: "nat \<Rightarrow> u64 list \<Rightarrow> u128 \<Rightarrow> u64 list outcome" where
  "mul_carry idx out carry =
     (if carry = 0 then Returns out
      else if idx < length out
      then let cur = wide (out ! idx) + carry
           in mul_carry (idx + 1) (out[idx := lo cur]) (hi cur)
      else Panics)"
  by pat_completeness auto
termination
  by (relation "measure (\<lambda>(idx, out, carry). length out - idx)") auto

declare mul_carry.simps [simp del]

fun mul_outer :: "u64 list \<Rightarrow> u64 list \<Rightarrow> nat \<Rightarrow> u64 list \<Rightarrow> u64 list outcome" where
  "mul_outer [] rhs i out = Returns out"
| "mul_outer (a # as) rhs i out =
     (let (out1, carry) = mul_inner a rhs i out 0
      in bind_outcome (mul_carry (i + length rhs) out1 carry) (mul_outer as rhs (i + 1)))"

definition mul :: "anyint \<Rightarrow> anyint \<Rightarrow> anyint outcome" where
  "mul a b =
     (if is_zero a \<or> is_zero b then Returns ZERO
      else bind_outcome
             (mul_outer (limbs a) (limbs b) 0 (replicate (length (limbs a) + length (limbs b)) 0))
             (\<lambda>out. Returns (normalize \<lparr>negative = (negative a \<noteq> negative b), limbs = out\<rparr>)))"

text \<open>\<^verbatim>\<open>Ord::cmp\<close> and the derived equality.\<close>

definition anyint_cmp :: "anyint \<Rightarrow> anyint \<Rightarrow> ordering" where
  "anyint_cmp a b =
     (case (negative a, negative b) of
        (True, False) \<Rightarrow> Less
      | (False, True) \<Rightarrow> Greater
      | (False, False) \<Rightarrow> abs_cmp a b
      | (True, True) \<Rightarrow> abs_cmp b a)"

definition anyint_eq :: "anyint \<Rightarrow> anyint \<Rightarrow> bool" where
  "anyint_eq a b \<longleftrightarrow> negative a = negative b \<and> limbs a = limbs b"

text \<open>
  \<^verbatim>\<open>From\<close>: the unsigned types up to 64 bits (the branch for wider types is dead in the macro),
  \<^verbatim>\<open>u128\<close>, and the signed types, whose value reaches the code as an \<^verbatim>\<open>i128\<close> (its
  two's-complement bits are a 128-bit word; \<^verbatim>\<open>wrapping_neg\<close> is word negation).
\<close>

definition from_u64 :: "u64 \<Rightarrow> anyint" where
  "from_u64 v = normalize \<lparr>negative = False, limbs = [v]\<rparr>"

definition from_u128 :: "u128 \<Rightarrow> anyint" where
  "from_u128 v = normalize \<lparr>negative = False, limbs = [lo v, lo (hi v)]\<rparr>"

definition from_i128 :: "u128 \<Rightarrow> anyint" where
  "from_i128 v =
     (let neg_v = sint v < 0;
          abs_v = (if neg_v then - v else v);
          high = lo (hi abs_v);
          ls = (if high \<noteq> 0 then [lo abs_v, high] else [lo abs_v])
      in normalize \<lparr>negative = neg_v, limbs = ls\<rparr>)"


section \<open>Representation invariant\<close>

named_theorems wf_intros \<open>operations establish the representation invariant\<close>
named_theorems to_int_simps \<open>operations compute on the represented integers\<close>

lemma wf_ZERO [simp, wf_intros]: "wf_anyint ZERO"
  by (simp add: ZERO_def wf_anyint_def no_high_zero_def)

lemma to_int_ZERO [simp]: "to_int ZERO = 0"
  by (simp add: ZERO_def to_int_def)

lemma wf_normalize [simp, wf_intros]: "wf_anyint (normalize a)"
  by (simp add: normalize_def wf_anyint_def Let_def)

lemma to_int_normalize [to_int_simps]: "to_int (normalize a) = to_int a"
proof (cases "pop_zeros (limbs a) = []")
  case True
  then have "limbs_val (limbs a) = 0" by (metis pop_zeros_val limbs_val.simps(1))
  with True show ?thesis by (simp add: normalize_def to_int_def)
next
  case False
  then show ?thesis by (simp add: normalize_def to_int_def Let_def)
qed

lemma normalize_id: "wf_anyint a \<Longrightarrow> normalize a = a"
  by (simp add: normalize_def wf_anyint_def pop_zeros_id Let_def)

lemma is_zero_iff: "wf_anyint a \<Longrightarrow> is_zero a \<longleftrightarrow> to_int a = 0"
  by (auto simp: is_zero_def wf_anyint_def to_int_def no_high_zero_val_0)

lemma to_int_neg_iff: "wf_anyint a \<Longrightarrow> to_int a < 0 \<longleftrightarrow> negative a"
  using no_high_zero_val_0 [of "limbs a"] by (auto simp: wf_anyint_def to_int_def)

lemma to_int_inj:
  assumes "wf_anyint a" and "wf_anyint b" and "to_int a = to_int b"
  shows "a = b"
proof -
  have n: "negative a = negative b" using assms to_int_neg_iff by metis
  then have "limbs_val (limbs a) = limbs_val (limbs b)" using assms(3) by (auto simp: to_int_def split: if_splits)
  then have "limbs a = limbs b" using assms(1,2) by (auto simp: wf_anyint_def intro: no_high_zero_inj)
  with n show ?thesis by simp
qed

section \<open>Addition and subtraction\<close>

lemma add_abs_loop_val:
  assumes "unat carry \<le> 1" and "k \<le> n" and "add_abs_loop l r [k..<n] carry = (out, c)"
  shows "length out = n - k \<and> unat c \<le> 1 \<and>
    limbs_val out + base ^ (n - k) * (unat c + limbs_val (drop n l) + limbs_val (drop n r))
    = limbs_val (drop k l) + limbs_val (drop k r) + unat carry"
  using assms
proof (induction "n - k" arbitrary: k carry out)
  case 0
  then have "[k..<n] = []" by simp
  with 0 show ?case by simp
next
  case (Suc m)
  then have up: "[k..<n] = k # [Suc k..<n]" by (simp add: upt_conv_Cons)
  let ?s = "wide (limb_at l k) + wide (limb_at r k) + carry"
  obtain out' where rec: "add_abs_loop l r [Suc k..<n] (hi ?s) = (out', c)" and out: "out = lo ?s # out'"
    using Suc.prems(3) by (auto simp: up Let_def split: prod.splits)
  have s: "unat ?s = unat (limb_at l k) + unat (limb_at r k) + unat carry"
    using Suc.prems(1) by (rule unat_add3)
  then have "unat ?s < base * 2"
    using unat_less_base [of "limb_at l k"] unat_less_base [of "limb_at r k"] Suc.prems(1) by linarith
  then have h: "unat (hi ?s) \<le> 1"
    unfolding unat_hi_base by (metis Suc_1 Suc_eq_plus1 less_Suc_eq_le less_mult_imp_div_less mult.commute)
  from Suc have "m = n - Suc k" "Suc k \<le> n" by auto
  from Suc.hyps(1) [OF this(1) h this(2) rec]
  have IH: "length out' = n - Suc k" "unat c \<le> 1"
    "limbs_val out' + base ^ (n - Suc k) * (unat c + limbs_val (drop n l) + limbs_val (drop n r))
     = limbs_val (drop (Suc k) l) + limbs_val (drop (Suc k) r) + unat (hi ?s)" by auto
  have e: "n - k = Suc (n - Suc k)" using Suc by simp
  have "limbs_val out + base ^ (n - k) * (unat c + limbs_val (drop n l) + limbs_val (drop n r))
    = unat (lo ?s) + base * (limbs_val out' + base ^ (n - Suc k) * (unat c + limbs_val (drop n l) + limbs_val (drop n r)))"
    by (simp add: out e algebra_simps)
  also have "\<dots> = (unat (lo ?s) + base * unat (hi ?s)) + base * limbs_val (drop (Suc k) l) + base * limbs_val (drop (Suc k) r)"
    unfolding IH(3) by (simp add: algebra_simps)
  also have "\<dots> = limbs_val (drop k l) + limbs_val (drop k r) + unat carry"
    unfolding lo_hi s limbs_val_drop [of k l] limbs_val_drop [of k r] by simp
  finally show ?case using IH out e by simp
qed

lemma add_abs_val [limb_arith]: "limbs_val (add_abs l r) = limbs_val l + limbs_val r"
proof -
  let ?n = "max (length l) (length r)"
  obtain out c where loop: "add_abs_loop l r [0..<?n] 0 = (out, c)" by fastforce
  from add_abs_loop_val [OF _ _ loop]
  have f: "length out = ?n" "unat c \<le> 1" "limbs_val out + base ^ ?n * unat c = limbs_val l + limbs_val r"
    by auto
  have "unat (lo c) = unat c" using f(2) by (simp add: unat_lo_base order_le_less_trans)
  with f loop show ?thesis by (auto simp: add_abs_def limbs_val_append)
qed

lemma borrow_split:
  fixes x y u v n b :: nat
  assumes "y + n * v + b \<le> x + n * u" and "x < n" and "y < n" and "b \<le> 1"
  shows "y + b \<le> x \<Longrightarrow> v \<le> u" and "\<not> y + b \<le> x \<Longrightarrow> v + 1 \<le> u"
proof -
  show "v \<le> u" if "y + b \<le> x"
  proof (rule ccontr)
    assume "\<not> v \<le> u"
    then have "n * (u + 1) \<le> n * v" by (intro mult_le_mono2) simp
    with assms show False by (simp add: algebra_simps)
  qed
  show "v + 1 \<le> u" if "\<not> y + b \<le> x"
  proof (rule ccontr)
    assume "\<not> v + 1 \<le> u"
    then have "n * u \<le> n * v" by (intro mult_le_mono2) simp
    with assms that show False by linarith
  qed
qed

lemma unat_two64: "unat two64 = base"
  by (simp add: base_def two64_def)

lemma sub_step:
  assumes "unat b \<le> 1"
  shows "wide x \<ge> wide y + b \<longleftrightarrow> unat y + unat b \<le> unat x"
    and "unat y + unat b \<le> unat x \<Longrightarrow> unat (lo (wide x - (wide y + b))) = unat x - (unat y + unat b)"
    and "\<not> unat y + unat b \<le> unat x \<Longrightarrow>
      unat (lo (two64 + wide x - (wide y + b))) = base + unat x - (unat y + unat b)"
proof -
  have bb: "2 * base \<le> base * base" by (rule base_le_square) (simp add: base_def)
  have yb: "unat (wide y + b) = unat y + unat b"
    using unat_add3 [of b 0 y] assms by simp
  show le: "wide x \<ge> wide y + b \<longleftrightarrow> unat y + unat b \<le> unat x"
    by (simp add: word_le_nat_alt yb)
  show "unat (lo (wide x - (wide y + b))) = unat x - (unat y + unat b)" if "unat y + unat b \<le> unat x"
  proof -
    have "unat (wide x - (wide y + b)) = unat x - (unat y + unat b)"
      using that le by (simp add: unat_sub yb)
    moreover have "unat x - (unat y + unat b) < base" using unat_less_base [of x] by linarith
    ultimately show ?thesis by (simp add: unat_lo_base)
  qed
  show "unat (lo (two64 + wide x - (wide y + b))) = base + unat x - (unat y + unat b)"
    if nle: "\<not> unat y + unat b \<le> unat x"
  proof -
    have "base + unat x < base * base" using unat_less_base [of x] bb by linarith
    then have px: "unat (two64 + wide x) = base + unat x"
      by (simp add: unat_add_128 unat_two64)
    have "unat y + unat b \<le> base + unat x" using unat_less_base [of y] assms by linarith
    then have "unat (two64 + wide x - (wide y + b)) = base + unat x - (unat y + unat b)"
      using px yb by (simp add: unat_sub word_le_nat_alt)
    moreover have "base + unat x - (unat y + unat b) < base" using nle base_pos(1) by linarith
    ultimately show ?thesis by (simp add: unat_lo_base)
  qed
qed

lemma sub_abs_loop_val:
  assumes "unat b \<le> 1" and "limbs_val (drop i r) + unat b \<le> limbs_val l"
  shows "limbs_val (sub_abs_loop r i l b) + limbs_val (drop i r) + unat b = limbs_val l"
  using assms
proof (induction l arbitrary: i b)
  case Nil
  then show ?case by simp
next
  case (Cons x xs)
  let ?y = "limb_at r i"
  note d = limbs_val_drop [of i r]
  have pre: "unat ?y + base * limbs_val (drop (Suc i) r) + unat b \<le> unat x + base * limbs_val xs"
    using Cons.prems(2) d by simp
  note bs = borrow_split [OF pre unat_less_base unat_less_base Cons.prems(1)]
  note st = sub_step [OF Cons.prems(1), of ?y x]
  show ?case
  proof (cases "unat ?y + unat b \<le> unat x")
    case True
    with bs(1) have "limbs_val (sub_abs_loop r (Suc i) xs 0) + limbs_val (drop (Suc i) r) = limbs_val xs"
      using Cons.IH [of 0 "Suc i"] by simp
    moreover have "limbs_val (sub_abs_loop r i (x # xs) b)
      = (unat x - (unat ?y + unat b)) + base * limbs_val (sub_abs_loop r (Suc i) xs 0)"
      using True st by (simp add: Let_def)
    ultimately show ?thesis using True d by (simp add: add_mult_distrib2 flip: \<open>_ = limbs_val xs\<close>)
  next
    case False
    with bs(2) have "limbs_val (sub_abs_loop r (Suc i) xs 1) + limbs_val (drop (Suc i) r) + 1 = limbs_val xs"
      using Cons.IH [of 1 "Suc i"] by simp
    moreover have "limbs_val (sub_abs_loop r i (x # xs) b)
      = (base + unat x - (unat ?y + unat b)) + base * limbs_val (sub_abs_loop r (Suc i) xs 1)"
      using False st by (simp add: Let_def)
    moreover have "unat ?y + unat b \<le> base + unat x" using unat_less_base [of ?y] Cons.prems(1) by linarith
    ultimately show ?thesis using d by (simp add: add_mult_distrib2 flip: \<open>_ = limbs_val xs\<close>)
  qed
qed

lemma sub_abs_val [limb_arith]:
  "limbs_val r \<le> limbs_val l \<Longrightarrow> limbs_val (sub_abs l r) = limbs_val l - limbs_val r"
  using sub_abs_loop_val [of 0 0 r l] by (simp add: sub_abs_def)

lemma abs_cmp_eq:
  assumes "wf_anyint a" and "wf_anyint b"
  shows "abs_cmp a b = cmp (limbs_val (limbs a)) (limbs_val (limbs b))"
proof (cases "length (limbs a) = length (limbs b)")
  case True
  then show ?thesis by (simp add: abs_cmp_def iter_cmp_rev)
next
  case False
  then show ?thesis
    using assms no_high_zero_length_less [of "limbs a" "limbs b"] no_high_zero_length_less [of "limbs b" "limbs a"]
    by (auto simp: abs_cmp_def wf_anyint_def cmp_def)
qed

lemma to_int_neg [to_int_simps]: "to_int (neg a) = - to_int a"
  by (simp add: neg_def to_int_def is_zero_def)

lemma wf_neg [wf_intros]: "wf_anyint a \<Longrightarrow> wf_anyint (neg a)"
  by (auto simp: neg_def wf_anyint_def is_zero_def no_high_zero_def)

lemma wf_add [wf_intros]: "wf_anyint (add a b)"
  by (simp add: add_def)

lemma to_int_add [to_int_simps]:
  assumes "wf_anyint a" and "wf_anyint b"
  shows "to_int (add a b) = to_int a + to_int b"
proof (cases "negative a = negative b")
  case True
  then show ?thesis by (simp add: add_def to_int_normalize) (simp add: to_int_def limb_arith)
next
  case False
  let ?x = "limbs_val (limbs a)" and ?y = "limbs_val (limbs b)"
  have c: "abs_cmp a b = cmp ?x ?y" using assms by (rule abs_cmp_eq)
  show ?thesis
  proof (cases "?x < ?y")
    case True
    with False c show ?thesis
      by (simp add: add_def to_int_normalize cmp_def) (auto simp: to_int_def limb_arith of_nat_diff)
  next
    case nless: False
    then have "abs_cmp a b = Equal \<or> abs_cmp a b = Greater" using c by (auto simp: cmp_def)
    then have "to_int (add a b) = to_int \<lparr>negative = negative a, limbs = sub_abs (limbs a) (limbs b)\<rparr>"
      using False by (auto simp: add_def to_int_normalize)
    with False nless show ?thesis by (auto simp: to_int_def limb_arith of_nat_diff)
  qed
qed

lemma wf_sub [wf_intros]: "wf_anyint (sub a b)"
  by (simp add: sub_def wf_add)

lemma to_int_sub [to_int_simps]:
  "wf_anyint a \<Longrightarrow> wf_anyint b \<Longrightarrow> to_int (sub a b) = to_int a - to_int b"
  by (simp add: sub_def to_int_simps wf_intros)

section \<open>Small operands\<close>

lemma add_small_step:
  assumes "unat c < base"
  shows "unat (wide l + c) = unat l + unat c" and "unat (hi (wide l + c)) < base"
proof -
  have "unat l + unat c < 2 * base" using assms unat_less_base [of l] by linarith
  moreover have "2 * base \<le> base * base" by (rule base_le_square) (simp add: base_def)
  ultimately have "unat l + unat c < base * base" by linarith
  then show "unat (wide l + c) = unat l + unat c" by (simp add: unat_add_128)
qed simp

lemma add_small_loop_Nil:
  "unat c < base \<Longrightarrow> add_small_loop [] c = (if c = 0 then [] else [lo c])"
  using add_small_step(1) [of c 0]
  by (simp add: add_small_loop.simps [of "[]"] Let_def word_unat_eq_iff [of "hi c"] unat_hi_base)

lemma add_small_loop_Cons:
  "add_small_loop (l # ls) c = (if c = 0 then l # ls else lo (wide l + c) # add_small_loop ls (hi (wide l + c)))"
  by (simp add: add_small_loop.simps [of "l # ls"] Let_def)

lemma add_small_loop_val: "unat c < base \<Longrightarrow> limbs_val (add_small_loop ls c) = limbs_val ls + unat c"
proof (induction ls arbitrary: c)
  case Nil
  then show ?case by (simp add: add_small_loop_Nil unat_lo_base)
next
  case (Cons l ls)
  note st = add_small_step [OF Cons.prems, of l]
  from Cons.IH [OF st(2)] st(1) lo_hi [of "wide l + c"] show ?case
    by (simp add: add_small_loop_Cons add_mult_distrib2)
qed

lemma no_high_zero_Cons: "no_high_zero (x # xs) \<longleftrightarrow> (if xs = [] then x \<noteq> 0 else no_high_zero xs)"
  by (simp add: no_high_zero_def)

lemma lo_eq_0_iff: "lo w = 0 \<and> hi w = 0 \<longleftrightarrow> w = 0"
  using lo_hi [of w] by (auto simp: word_unat_eq_iff unat_lo_base unat_hi_base)

lemma add_small_loop_eq_Nil: "unat c < base \<Longrightarrow> add_small_loop ls c = [] \<longleftrightarrow> ls = [] \<and> c = 0"
  by (cases ls) (auto simp: add_small_loop_Nil add_small_loop_Cons)

lemma add_small_loop_no_high_zero:
  "unat c < base \<Longrightarrow> no_high_zero ls \<Longrightarrow> no_high_zero (add_small_loop ls c)"
proof (induction ls arbitrary: c)
  case Nil
  then show ?case using lo_eq_0_iff [of c]
    by (auto simp: add_small_loop_Nil no_high_zero_def word_unat_eq_iff [of c] word_unat_eq_iff [of "lo c"] unat_lo_base)
next
  case (Cons l ls)
  let ?s = "wide l + c"
  note st = add_small_step [OF Cons.prems(1), of l]
  have tl: "no_high_zero ls" using Cons.prems(2) by (auto simp: no_high_zero_Cons no_high_zero_def split: if_splits)
  have s: "c \<noteq> 0 \<Longrightarrow> ?s \<noteq> 0" using st(1) by (auto simp: word_unat_eq_iff)
  show ?case
    using Cons.IH [OF st(2) tl] Cons.prems(2) s lo_eq_0_iff [of ?s]
    by (auto simp: add_small_loop_Cons no_high_zero_Cons add_small_loop_eq_Nil [OF st(2)])
qed

lemma unat_wide_less [simp]: "unat (wide x) < base"
  by simp

lemma wf_add_small_assign [wf_intros]:
  assumes "wf_anyint a" and "\<not> negative a"
  shows "wf_anyint (add_small_assign a d) \<and> \<not> negative (add_small_assign a d)"
  using assms by (auto simp: add_small_assign_def wf_anyint_def add_small_loop_no_high_zero)

lemma to_int_add_small_assign [to_int_simps]:
  "\<not> negative a \<Longrightarrow> to_int (add_small_assign a d) = to_int a + int (unat d)"
  by (auto simp: add_small_assign_def to_int_def add_small_loop_val)

lemma mul_small_loop_val:
  assumes "unat c < base" and "mul_small_loop r ls c = (out, c')"
  shows "length out = length ls \<and> unat c' < base \<and>
    limbs_val out + base ^ length ls * unat c' = limbs_val ls * unat r + unat c"
  using assms
proof (induction ls arbitrary: c out)
  case Nil
  then show ?case by simp
next
  case (Cons l ls)
  let ?p = "wide l * wide r + c"
  obtain out' where rec: "mul_small_loop r ls (hi ?p) = (out', c')" and out: "out = lo ?p # out'"
    using Cons.prems(2) by (auto simp: Let_def split: prod.splits)
  have p: "unat ?p = unat l * unat r + unat c" using unat_mul_step [OF Cons.prems(1), of 0 l r] by simp
  from Cons.IH [OF hi_less rec] have IH: "length out' = length ls" "unat c' < base"
    "limbs_val out' + base ^ length ls * unat c' = limbs_val ls * unat r + unat (hi ?p)" by auto
  have "limbs_val out + base ^ length (l # ls) * unat c'
     = unat (lo ?p) + base * (limbs_val out' + base ^ length ls * unat c')"
    by (simp add: out algebra_simps)
  also have "\<dots> = (unat (lo ?p) + base * unat (hi ?p)) + base * limbs_val ls * unat r"
    unfolding IH(3) by (simp add: algebra_simps)
  also have "\<dots> = limbs_val (l # ls) * unat r + unat c"
    unfolding lo_hi p by (simp add: algebra_simps)
  finally show ?case using IH out by simp
qed

lemma mul_small_assign_val:
  fixes a r
  defines "res \<equiv> mul_small_assign a r"
  assumes "wf_anyint a"
  shows "wf_anyint res" and "limbs_val (limbs res) = limbs_val (limbs a) * unat r"
    and "\<not> negative a \<Longrightarrow> \<not> negative res"
proof -
  have "wf_anyint res \<and> limbs_val (limbs res) = limbs_val (limbs a) * unat r \<and> (\<not> negative a \<longrightarrow> \<not> negative res)"
  proof (cases "r = 0 \<or> limbs a = []")
    case True
    then show ?thesis by (auto simp: res_def mul_small_assign_def is_zero_def ZERO_def wf_anyint_def no_high_zero_def)
  next
    case False
    obtain out c where loop: "mul_small_loop r (limbs a) 0 = (out, c)" by fastforce
    from mul_small_loop_val [OF _ loop]
    have v: "length out = length (limbs a)" "unat c < base"
      "limbs_val out + base ^ length (limbs a) * unat c = limbs_val (limbs a) * unat r" by auto
    have res: "res = a\<lparr>limbs := (if c \<noteq> 0 then out @ [lo c] else out)\<rparr>"
      using False loop by (simp add: res_def mul_small_assign_def is_zero_def)
    have lc: "unat (lo c) = unat c" using v(2) by (simp add: unat_lo_base)
    have low: "base ^ (length (limbs a) - 1) \<le> limbs_val (limbs a)"
      using assms(2) False by (simp add: wf_anyint_def no_high_zero_iff)
    have "1 \<le> unat r" using False by (simp add: Suc_leI unat_gt_0)
    then have "limbs_val (limbs a) \<le> limbs_val (limbs a) * unat r" by (cases "unat r") auto
    with low have low': "base ^ (length (limbs a) - 1) \<le> limbs_val (limbs a) * unat r" by (rule le_trans)
    have "no_high_zero (if c \<noteq> 0 then out @ [lo c] else out)"
    proof (cases "c = 0")
      case True
      have "out \<noteq> []" using False v(1) by auto
      with True low' v show ?thesis by (simp add: no_high_zero_iff)
    next
      case cnz: False
      then show ?thesis using lc by (auto simp: no_high_zero_def word_unat_eq_iff)
    qed
    moreover have "out \<noteq> []" using False v(1) by auto
    ultimately show ?thesis using v lc
      by (auto simp: res wf_anyint_def limbs_val_append)
  qed
  then show "wf_anyint res" and "limbs_val (limbs res) = limbs_val (limbs a) * unat r"
    and "\<not> negative a \<Longrightarrow> \<not> negative res" by blast+
qed

section \<open>Parsing\<close>

text \<open>What a digit string means: underscores are skipped, every other byte is a digit of the radix.\<close>

fun digits_meaning :: "nat \<Rightarrow> byte list \<Rightarrow> nat \<Rightarrow> nat option" where
  "digits_meaning radix [] v = Some v"
| "digits_meaning radix (b # bs) v =
     (if b = CHR ''_'' then digits_meaning radix bs v
      else case digit_of b of
             None \<Rightarrow> None
           | Some d \<Rightarrow> if d < radix then digits_meaning radix bs (v * radix + d) else None)"

lemma digit_of_bound: "digit_of b = Some d \<Longrightarrow> d < 36"
  by (auto simp: digit_of_def Let_def split: if_splits)

lemma parse_digits_step:
  assumes "wf_anyint a" and "\<not> negative a" and "radix \<le> 36" and "d < 36"
  shows "wf_anyint (add_small_assign (mul_small_assign a (of_nat radix)) (of_nat d))"
    and "\<not> negative (add_small_assign (mul_small_assign a (of_nat radix)) (of_nat d))"
    and "to_int (add_small_assign (mul_small_assign a (of_nat radix)) (of_nat d)) = to_int a * int radix + int d"
proof -
  have u: "unat (of_nat radix :: u64) = radix" "unat (of_nat d :: u64) = d"
    using assms(3,4) by (simp_all add: unat_of_nat)
  note m = mul_small_assign_val [OF assms(1), of "of_nat radix"]
  show "wf_anyint (add_small_assign (mul_small_assign a (of_nat radix)) (of_nat d))"
    and "\<not> negative (add_small_assign (mul_small_assign a (of_nat radix)) (of_nat d))"
    using wf_add_small_assign [OF m(1) m(3) [OF assms(2)]] by blast+
  show "to_int (add_small_assign (mul_small_assign a (of_nat radix)) (of_nat d)) = to_int a * int radix + int d"
    unfolding to_int_add_small_assign [OF m(3) [OF assms(2)]]
    using m(2) m(3) [OF assms(2)] assms(2) by (simp add: to_int_def u)
qed

lemma parse_digits_correct:
  assumes "wf_anyint a" and "\<not> negative a" and "radix \<le> 36" and "to_int a = int v"
  shows "rel_option (\<lambda>r n. wf_anyint r \<and> to_int r = int n) (parse_digits radix bs a) (digits_meaning radix bs v)"
  using assms
proof (induction bs arbitrary: a v)
  case Nil
  then show ?case by simp
next
  case (Cons b bs)
  show ?case
  proof (cases "b = CHR ''_'' \<or> digit_of b = None")
    case True
    with Cons show ?thesis by auto
  next
    case False
    then obtain d where d: "digit_of b = Some d" by auto
    then have "d < 36" by (rule digit_of_bound)
    note st = parse_digits_step [OF Cons.prems(1-3) this]
    from Cons.IH [OF st(1,2) Cons.prems(3), of "v * radix + d"] st(3) Cons.prems(4) False d
    show ?thesis by auto
  qed
qed

lemma parse_radix_meaning:
  assumes "2 \<le> radix" and "radix \<le> 36"
  obtains r where "parse_radix radix s = Returns r"
    and "rel_option (\<lambda>a n. wf_anyint a \<and> to_int a = int n) r (digits_meaning radix s 0)"
  using assms parse_digits_correct [of ZERO radix 0 s]
  by (auto simp: parse_radix_def) (simp add: ZERO_def)

section \<open>Multiplication\<close>

lemma mul_inner_val:
  assumes "unat c < base" and "idx + length bs \<le> length out" and "mul_inner a bs idx out c = (out', c')"
  shows "length out' = length out \<and> unat c' < base \<and>
    (\<forall>k. idx + length bs \<le> k \<longrightarrow> k < length out \<longrightarrow> out' ! k = out ! k) \<and>
    limbs_val out' + base ^ (idx + length bs) * unat c'
    = limbs_val out + base ^ idx * (unat a * limbs_val bs + unat c)"
  using assms
proof (induction bs arbitrary: idx out c)
  case Nil
  then show ?case by simp
next
  case (Cons b bs)
  let ?w = "wide (out ! idx) + wide a * wide b + c"
  have idx: "idx < length out" using Cons.prems(2) by simp
  have w: "unat ?w = unat (out ! idx) + unat a * unat b + unat c"
    using Cons.prems(1) by (rule unat_mul_step)
  have rec: "mul_inner a bs (idx + 1) (out[idx := lo ?w]) (hi ?w) = (out', c')"
    using Cons.prems(3) by (simp add: Let_def)
  from Cons.IH [OF hi_less _ rec] Cons.prems(2)
  have IH: "length out' = length out" "unat c' < base"
    "\<forall>k. idx + 1 + length bs \<le> k \<longrightarrow> k < length out \<longrightarrow> out' ! k = out ! k"
    "limbs_val out' + base ^ (idx + 1 + length bs) * unat c'
     = limbs_val (out[idx := lo ?w]) + base ^ (idx + 1) * (unat a * limbs_val bs + unat (hi ?w))"
    by auto
  have "limbs_val out' + base ^ (idx + length (b # bs)) * unat c' + base ^ idx * unat (out ! idx)
    = (limbs_val (out[idx := lo ?w]) + base ^ idx * unat (out ! idx))
      + base ^ idx * base * (unat a * limbs_val bs + unat (hi ?w))"
    using IH(4) by (simp add: algebra_simps)
  also have "\<dots> = limbs_val out + base ^ idx * (unat (lo ?w) + base * unat (hi ?w))
      + base ^ idx * base * unat a * limbs_val bs"
    unfolding limbs_val_update [OF idx] by (simp add: algebra_simps)
  also have "\<dots> = limbs_val out + base ^ idx * (unat a * limbs_val (b # bs) + unat c) + base ^ idx * unat (out ! idx)"
    unfolding lo_hi w by (simp add: algebra_simps)
  finally show ?case using IH by simp
qed

lemma mul_carry_val:
  assumes "unat c < base" and "idx < length out" and "out ! idx = 0"
  shows "\<exists>out'. mul_carry idx out c = Returns out' \<and> length out' = length out \<and>
    (\<forall>k. idx < k \<longrightarrow> k < length out \<longrightarrow> out' ! k = out ! k) \<and>
    limbs_val out' = limbs_val out + base ^ idx * unat c"
proof (cases "c = 0")
  case True
  then show ?thesis by (subst mul_carry.simps) simp
next
  case False
  have h: "hi c = 0" using assms(1) by (simp add: word_unat_eq_iff unat_hi_base)
  have l: "unat (lo c) = unat c" using assms(1) by (simp add: unat_lo_base)
  have "mul_carry idx out c = Returns (out[idx := lo c])"
    using False assms h by (simp add: mul_carry.simps [of idx] mul_carry.simps [of "Suc idx"] Let_def)
  moreover have "limbs_val (out[idx := lo c]) = limbs_val out + base ^ idx * unat c"
    using limbs_val_update [OF assms(2), of "lo c"] assms(3) l by simp
  ultimately show ?thesis by simp
qed

lemma mul_outer_val:
  assumes "rhs \<noteq> []" and "length out = i + length as + length rhs"
    and "\<forall>k. i + length rhs \<le> k \<longrightarrow> k < length out \<longrightarrow> out ! k = 0"
  shows "\<exists>out'. mul_outer as rhs i out = Returns out' \<and>
    limbs_val out' = limbs_val out + base ^ i * (limbs_val as * limbs_val rhs)"
  using assms
proof (induction as arbitrary: i out)
  case Nil
  then show ?case by simp
next
  case (Cons a as)
  obtain out1 c where inner: "mul_inner a rhs i out 0 = (out1, c)" by fastforce
  from mul_inner_val [OF _ _ inner] Cons.prems(2)
  have m: "length out1 = length out" "unat c < base"
    "\<forall>k. i + length rhs \<le> k \<longrightarrow> k < length out \<longrightarrow> out1 ! k = out ! k"
    "limbs_val out1 + base ^ (i + length rhs) * unat c = limbs_val out + base ^ i * (unat a * limbs_val rhs)"
    by auto
  have "i + length rhs < length out1" "out1 ! (i + length rhs) = 0" using m Cons.prems by auto
  from mul_carry_val [OF m(2) this] obtain out2 where
    c: "mul_carry (i + length rhs) out1 c = Returns out2" "length out2 = length out1"
      "\<forall>k. i + length rhs < k \<longrightarrow> k < length out1 \<longrightarrow> out2 ! k = out1 ! k"
      "limbs_val out2 = limbs_val out1 + base ^ (i + length rhs) * unat c" by blast
  have "length out2 = (i + 1) + length as + length rhs"
    "\<forall>k. (i + 1) + length rhs \<le> k \<longrightarrow> k < length out2 \<longrightarrow> out2 ! k = 0"
    using c m Cons.prems by auto
  from Cons.IH [OF Cons.prems(1) this] obtain out' where
    r: "mul_outer as rhs (i + 1) out2 = Returns out'"
      "limbs_val out' = limbs_val out2 + base ^ (i + 1) * (limbs_val as * limbs_val rhs)" by blast
  have "limbs_val out' = limbs_val out + base ^ i * (limbs_val (a # as) * limbs_val rhs)"
    using r(2) c(4) m(4) by (simp add: algebra_simps)
  with inner c r show ?case by simp
qed

lemma mul_correct:
  assumes "wf_anyint a" and "wf_anyint b"
  shows "\<exists>r. mul a b = Returns r \<and> wf_anyint r \<and> to_int r = to_int a * to_int b"
proof (cases "is_zero a \<or> is_zero b")
  case True
  then have "to_int a * to_int b = 0" using assms is_zero_iff by auto
  with True show ?thesis by (auto simp: mul_def)
next
  case False
  let ?z = "replicate (length (limbs a) + length (limbs b)) (0 :: u64)"
  have "limbs b \<noteq> []" using False by (simp add: is_zero_def)
  from mul_outer_val [OF this, of ?z 0 "limbs a"] obtain out where
    o: "mul_outer (limbs a) (limbs b) 0 ?z = Returns out"
      "limbs_val out = limbs_val (limbs a) * limbs_val (limbs b)" by auto
  let ?r = "\<lparr>negative = (negative a \<noteq> negative b), limbs = out\<rparr>"
  have "mul a b = Returns (normalize ?r)" using False o by (simp add: mul_def)
  moreover have "to_int ?r = to_int a * to_int b" by (simp add: to_int_def o)
  ultimately show ?thesis by (simp add: to_int_normalize)
qed

section \<open>Comparison and conversion\<close>

lemma anyint_cmp_correct:
  assumes "wf_anyint a" and "wf_anyint b"
  shows "anyint_cmp a b = cmp (to_int a) (to_int b)"
proof -
  have "limbs_val (limbs a) \<noteq> 0 \<or> \<not> negative a" "limbs_val (limbs b) \<noteq> 0 \<or> \<not> negative b"
    using assms no_high_zero_val_0 by (auto simp: wf_anyint_def)
  then show ?thesis
    using abs_cmp_eq [OF assms] abs_cmp_eq [OF assms(2,1)]
    by (auto simp: anyint_cmp_def to_int_def cmp_def split: bool.splits)
qed

lemma anyint_eq_correct:
  "wf_anyint a \<Longrightarrow> wf_anyint b \<Longrightarrow> anyint_eq a b \<longleftrightarrow> to_int a = to_int b"
  by (auto simp: anyint_eq_def to_int_def dest: to_int_inj)

lemma from_u64_correct [to_int_simps]: "to_int (from_u64 v) = int (unat v)"
  by (simp add: from_u64_def to_int_normalize) (simp add: to_int_def)

lemma wf_from_u64 [wf_intros]: "wf_anyint (from_u64 v)"
  by (simp add: from_u64_def)

lemma two_limbs_val: "limbs_val [lo v, lo (hi v)] = unat v"
  using lo_hi [of v] hi_less [of v] by (simp add: unat_lo_base [of "hi v"])

lemma from_u128_correct: "wf_anyint (from_u128 v) \<and> to_int (from_u128 v) = int (unat v)"
  unfolding from_u128_def using two_limbs_val [of v] by (simp add: to_int_normalize) (simp add: to_int_def)

lemma from_i128_correct: "wf_anyint (from_i128 v) \<and> to_int (from_i128 v) = sint v"
proof -
  define w where "w = (if sint v < 0 then - v else v)"
  have w: "int (unat w) = \<bar>sint v\<bar>"
    unfolding w_def by (rule unat_abs_sint)
  have "limbs_val (if lo (hi w) \<noteq> 0 then [lo w, lo (hi w)] else [lo w]) = unat w"
    using two_limbs_val [of w] by auto
  with w show ?thesis
    by (auto simp: from_i128_def Let_def w_def [symmetric] to_int_normalize) (auto simp: to_int_def)
qed

end
