(* ===== verification/Vif_Anyint_Div.thy ===== *)
theory Vif_Anyint_Div
  imports Vif_Anyint "HOL-Library.Signed_Division"
begin

text \<open>
  Widths, shifts, division and printing of \<^verbatim>\<open>Anyint\<close> (\<^verbatim>\<open>src/int.rs\<close>): the bit-by-bit
  long division, the one-limb fast path it takes for short divisors, the limb-wise shifts,
  and the decimal printer built on the one-limb division.
\<close>

section \<open>Shifts\<close>

definition anyint_set_bit :: "anyint \<Rightarrow> nat \<Rightarrow> anyint" where
  "anyint_set_bit a bit_pos =
     (let limb = bit_pos div 64; b = bit_pos mod 64;
          ls = (if length (limbs a) \<le> limb
                then limbs a @ replicate (limb + 1 - length (limbs a)) 0 else limbs a)
      in a\<lparr>limbs := ls[limb := ls ! limb OR push_bit b 1]\<rparr>)"

fun shl_loop :: "nat \<Rightarrow> nat \<Rightarrow> nat \<Rightarrow> u64 list \<Rightarrow> u64 list \<Rightarrow> u64 list" where
  "shl_loop limb_shift bit_shift i [] out = out"
| "shl_loop limb_shift bit_shift i (limb # ls) out =
     (let idx = i + limb_shift;
          out1 = out[idx := out ! idx OR push_bit bit_shift limb];
          out2 = (if bit_shift \<noteq> 0
                  then out1[idx + 1 := out1 ! (idx + 1) OR drop_bit (64 - bit_shift) limb]
                  else out1)
      in shl_loop limb_shift bit_shift (i + 1) ls out2)"

definition abs_shl :: "anyint \<Rightarrow> nat \<Rightarrow> anyint" where
  "abs_shl a shift =
     (if is_zero a then ZERO
      else let limb_shift = shift div 64; bit_shift = shift mod 64;
               out = replicate (limb_shift + length (limbs a) + 1) 0
           in normalize \<lparr>negative = negative a, limbs = shl_loop limb_shift bit_shift 0 (limbs a) out\<rparr>)"

text \<open>Each limb of \<^verbatim>\<open>out\<close> is zero before the loop sets it, so \<^verbatim>\<open>|=\<close> stores the value.\<close>

definition shr_limb :: "u64 list \<Rightarrow> nat \<Rightarrow> nat \<Rightarrow> u64" where
  "shr_limb ls bit_shift i =
     (let x = 0 OR drop_bit bit_shift (ls ! i)
      in if bit_shift \<noteq> 0 \<and> i + 1 < length ls
         then x OR push_bit (64 - bit_shift) (ls ! (i + 1)) else x)"

definition abs_shr :: "anyint \<Rightarrow> nat \<Rightarrow> anyint" where
  "abs_shr a shift =
     (let limb_shift = shift div 64; bit_shift = shift mod 64
      in if limb_shift \<ge> length (limbs a) then ZERO
         else normalize \<lparr>negative = False,
                limbs = map (shr_limb (limbs a) bit_shift) [limb_shift..<length (limbs a)]\<rparr>)"

definition shl :: "anyint \<Rightarrow> nat \<Rightarrow> anyint" where
  "shl a n = abs_shl a n"

text \<open>
  The recursive call of \<^verbatim>\<open>Shr\<close> is on a value that is not negative
  (lemma \<open>shr_abs_nonneg\<close>), so it is \<^verbatim>\<open>abs_shr\<close>.
\<close>

definition shr_abs :: "anyint \<Rightarrow> nat \<Rightarrow> anyint" where
  "shr_abs a n =
     (let abs = neg a
      in if n > 0
         then let one = from_u64 1; mask = sub (shl one n) one in add abs mask
         else abs)"

definition shr :: "anyint \<Rightarrow> nat \<Rightarrow> anyint" where
  "shr a n = (if \<not> negative a then abs_shr a n else neg (abs_shr (shr_abs a n) n))"

section \<open>Division\<close>

fun div_rem_loop :: "anyint \<Rightarrow> anyint \<Rightarrow> nat list \<Rightarrow> anyint \<Rightarrow> anyint \<Rightarrow> anyint \<times> anyint" where
  "div_rem_loop lhs rhs [] quot remd = (quot, remd)"
| "div_rem_loop lhs rhs (b # bs) quot remd =
     (let r1 = abs_shl remd 1;
          limb = b div 64; bit_in_limb = b mod 64;
          r2 = (if drop_bit bit_in_limb (limbs lhs ! limb) AND 1 \<noteq> 0 then add_small_assign r1 1 else r1)
      in if abs_cmp r2 rhs \<noteq> Less
         then div_rem_loop lhs rhs bs (anyint_set_bit quot b) (sub r2 rhs)
         else div_rem_loop lhs rhs bs quot r2)"

definition div_rem_abs :: "anyint \<Rightarrow> anyint \<Rightarrow> (anyint \<times> anyint) outcome" where
  "div_rem_abs lhs rhs =
     (if is_zero rhs then Panics
      else if abs_cmp lhs rhs = Less then Returns (ZERO, lhs)
      else if length (limbs rhs) = 1
      then bind_outcome (div_rem_small lhs (limbs rhs ! 0)) (\<lambda>(q, r). Returns (q, from_u64 r))
      else Returns (div_rem_loop lhs rhs (rev [0..<significant_bits lhs]) ZERO ZERO))"

definition anyint_div :: "anyint \<Rightarrow> anyint \<Rightarrow> anyint outcome" where
  "anyint_div a b =
     (if is_zero b then Panics
      else bind_outcome (div_rem_abs (a\<lparr>negative := False\<rparr>) (b\<lparr>negative := False\<rparr>))
             (\<lambda>(q, _). Returns (q\<lparr>negative := \<not> is_zero q \<and> negative a \<noteq> negative b\<rparr>)))"

definition anyint_rem :: "anyint \<Rightarrow> anyint \<Rightarrow> anyint outcome" where
  "anyint_rem a b =
     (if is_zero b then Panics
      else bind_outcome (div_rem_abs (a\<lparr>negative := False\<rparr>) (b\<lparr>negative := False\<rparr>))
             (\<lambda>(_, r). Returns (r\<lparr>negative := \<not> is_zero r \<and> negative a\<rparr>)))"

section \<open>Bits of a limb vector\<close>

lemma bit_nat_add_shift:
  assumes "x < (2 :: nat) ^ m"
  shows "bit (x + 2 ^ m * y) n \<longleftrightarrow> (if n < m then bit x n else bit y (n - m))"
proof -
  have hi: "\<not> bit x k" if "m \<le> k" for k
    using assms that by (metis bit_take_bit_iff linorder_not_less take_bit_nat_eq_self_iff)
  have "x + push_bit m y = x OR push_bit m y"
    by (rule disjunctive_add) (auto simp: bit_push_bit_iff hi)
  then have "x + 2 ^ m * y = x OR push_bit m y" by (simp add: push_bit_eq_mult mult.commute)
  then show ?thesis by (auto simp: bit_or_iff bit_push_bit_iff hi)
qed

lemma bit_base:
  "x < base \<Longrightarrow> bit (x + base * y) n \<longleftrightarrow> (if n < 64 then bit x n else bit y (n - 64))"
  unfolding base_def by (rule bit_nat_add_shift)

lemma bit_unat_64: "bit (unat (x :: u64)) n \<longleftrightarrow> bit x n"
  by (simp add: bit_unsigned_iff)

lemma bit_limbs_val: "bit (limbs_val xs) n \<longleftrightarrow> bit (limb_at xs (n div 64)) (n mod 64)"
proof (induction xs arbitrary: n)
  case Nil
  then show ?case by (simp add: limb_at_def)
next
  case (Cons x xs)
  show ?case
  proof (cases "n < 64")
    case True
    then show ?thesis by (simp add: bit_base limb_at_def bit_unat_64)
  next
    case False
    then obtain k where n: "n = 64 + k" using le_Suc_ex not_less by blast
    have "bit (limbs_val (x # xs)) n \<longleftrightarrow> bit (limbs_val xs) k"
      using False n by (simp add: bit_base)
    also have "\<dots> \<longleftrightarrow> bit (limb_at (x # xs) (Suc (k div 64))) (k mod 64)"
      by (simp add: Cons.IH limb_at_def)
    moreover have "n div 64 = Suc (k div 64)" and "n mod 64 = k mod 64" using n by simp_all
    ultimately show ?thesis by simp
  qed
qed

lemma nat_less_exp_bits: "(\<And>k. m \<le> k \<Longrightarrow> \<not> bit (x :: nat) k) \<Longrightarrow> x < 2 ^ m"
  by (metis bit_eqI bit_take_bit_iff linorder_not_less take_bit_nat_less_exp)

lemma bit_nat_ge: "bit (x :: nat) k \<Longrightarrow> 2 ^ k \<le> x"
  by (metis bit_iff_odd div_less even_zero linorder_not_less)

lemma nat_bits_less: "x < (2 :: nat) ^ m \<Longrightarrow> m \<le> k \<Longrightarrow> \<not> bit x k"
  using bit_nat_ge [of x k] power_increasing [of m k "2 :: nat"] by fastforce

lemma exp_less_base: "b < 64 \<Longrightarrow> (2 :: nat) ^ b < base"
  unfolding base_def by (intro power_strict_increasing) simp_all

lemma unat_push_bit_64: "unat (push_bit b (x :: u64)) = (unat x * 2 ^ b) mod base"
  unfolding base_def by (subst unsigned_push_bit_eq) (simp add: take_bit_eq_mod push_bit_eq_mult)

lemma unat_drop_bit_64: "unat (drop_bit b (x :: u64)) = unat x div 2 ^ b"
proof -
  have "take_bit 64 (unat x) = unat x"
    using unat_less_base [of x] by (simp add: take_bit_nat_eq_self_iff base_def)
  then show ?thesis by (subst unsigned_drop_bit_eq) (simp add: drop_bit_eq_div)
qed

lemma unat_push_bit_1: "b < 64 \<Longrightarrow> unat (push_bit b 1 :: u64) = 2 ^ b"
  using exp_less_base [of b] unat_push_bit_64 [of b 1] by simp

section \<open>Widths\<close>

lemma leading_zeros_spec:
  assumes "w \<noteq> 0"
  shows "leading_zeros w < 64" and "bit w (63 - leading_zeros w)"
    and "\<And>k. 64 - leading_zeros w \<le> k \<Longrightarrow> \<not> bit w k"
proof -
  let ?bs = "map (bit w) (rev [0..<64])"
  define n where "n = length (takeWhile Not ?bs)"
  have nth: "?bs ! i \<longleftrightarrow> bit w (63 - i)" if "i < 64" for i using that by (simp add: rev_nth)
  have "takeWhile Not ?bs \<noteq> ?bs"
  proof
    assume "takeWhile Not ?bs = ?bs"
    then have "\<forall>k < 64. \<not> bit w k" by (auto simp: takeWhile_eq_all_conv)
    then have "\<not> bit w k" for k using bit_imp_le_length [of w k] by auto
    then show False using assms by (auto intro: bit_word_eqI)
  qed
  then have n: "n < length ?bs"
    unfolding n_def by (metis length_takeWhile_le nless_le takeWhile_eq_take take_all)
  show l: "leading_zeros w < 64" using n by (simp add: leading_zeros_def n_def)
  have lz: "leading_zeros w = n" by (simp add: leading_zeros_def n_def)
  have "\<not> Not (?bs ! n)" using nth_length_takeWhile [of Not ?bs] n by (simp add: n_def)
  then show "bit w (63 - leading_zeros w)" using nth [of n] l lz by simp
  show "\<not> bit w k" if "64 - leading_zeros w \<le> k" for k
  proof (cases "k < 64")
    case True
    have "63 - k < n" using that lz True by linarith
    then have "Not (takeWhile Not ?bs ! (63 - k))" using nth_mem [of "63 - k" "takeWhile Not ?bs"] by (metis n_def set_takeWhileD)
    then have "\<not> ?bs ! (63 - k)" using \<open>63 - k < n\<close> by (simp add: n_def takeWhile_nth)
    with True nth [of "63 - k"] show ?thesis by simp
  next
    case False
    then show ?thesis by (auto dest: bit_imp_le_length)
  qed
qed

lemma significant_bits_bounds:
  assumes "wf_anyint a"
  shows "limbs_val (limbs a) < 2 ^ significant_bits a"
    and "significant_bits a \<noteq> 0 \<Longrightarrow> 2 ^ (significant_bits a - 1) \<le> limbs_val (limbs a)"
proof -
  have "limbs_val (limbs a) < 2 ^ significant_bits a \<and>
    (significant_bits a \<noteq> 0 \<longrightarrow> 2 ^ (significant_bits a - 1) \<le> limbs_val (limbs a))"
  proof (cases "limbs a = []")
    case True
    then show ?thesis by (simp add: significant_bits_def)
  next
    case False
    define n where "n = length (limbs a) - 1"
    define w where "w = last (limbs a)"
    define z where "z = leading_zeros w"
    have wnz: "w \<noteq> 0" using assms False by (simp add: wf_anyint_def no_high_zero_def w_def)
    note lz = leading_zeros_spec [OF wnz, folded z_def]
    have sig: "significant_bits a = n * 64 + (64 - z)"
      using False by (simp add: significant_bits_def n_def w_def z_def)
    have top: "limb_at (limbs a) n = w"
      using False by (simp add: limb_at_def n_def w_def last_conv_nth)
    have beyond: "limb_at (limbs a) k = 0" if "n < k" for k using that by (auto simp: limb_at_def n_def)
    have "\<not> bit (limbs_val (limbs a)) k" if "significant_bits a \<le> k" for k
    proof (cases "k div 64 = n")
      case True
      then have "64 - z \<le> k mod 64" using that sig div_mult_mod_eq [of k 64] by linarith
      with True lz(3) top show ?thesis by (simp add: bit_limbs_val)
    next
      case False
      moreover have "n * 64 \<le> k" using that sig by linarith
      then have "n \<le> k div 64" by (simp add: less_eq_div_iff_mult_less_eq)
      ultimately have "n < k div 64" by simp
      then show ?thesis by (simp add: bit_limbs_val beyond)
    qed
    then have up: "limbs_val (limbs a) < 2 ^ significant_bits a" by (rule nat_less_exp_bits)
    have s1: "significant_bits a - 1 = n * 64 + (63 - z)" using lz(1) sig by linarith
    have "(n * 64 + (63 - z)) div 64 = n" "(n * 64 + (63 - z)) mod 64 = 63 - z" by simp_all
    then have "bit (limbs_val (limbs a)) (significant_bits a - 1)"
      unfolding s1 bit_limbs_val using lz(2) top by simp
    with up show ?thesis by (auto dest: bit_nat_ge)
  qed
  then show "limbs_val (limbs a) < 2 ^ significant_bits a"
    and "significant_bits a \<noteq> 0 \<Longrightarrow> 2 ^ (significant_bits a - 1) \<le> limbs_val (limbs a)" by blast+
qed

lemma significant_bits_le_iff:
  "wf_anyint a \<Longrightarrow> significant_bits a \<le> n \<longleftrightarrow> limbs_val (limbs a) < 2 ^ n"
proof
  assume a: "wf_anyint a"
  show "limbs_val (limbs a) < 2 ^ n" if "significant_bits a \<le> n"
    using significant_bits_bounds(1) [OF a] power_increasing [OF that, of "2 :: nat"] by linarith
  show "significant_bits a \<le> n" if "limbs_val (limbs a) < 2 ^ n"
  proof (rule ccontr)
    assume "\<not> significant_bits a \<le> n"
    then have "2 ^ n \<le> (2 :: nat) ^ (significant_bits a - 1)" and "significant_bits a \<noteq> 0"
      by (auto intro: power_increasing)
    with significant_bits_bounds(2) [OF a] that show False by linarith
  qed
qed

lemma limbs_take_zero: "\<not> list_ex (\<lambda>x. x \<noteq> 0) xs \<longleftrightarrow> limbs_val xs = 0"
  by (auto simp: limbs_val_eq_0_iff list_ex_iff)

lemma abs_cmp_pow2_correct:
  assumes "wf_anyint a"
  shows "abs_cmp_pow2 a n = cmp (limbs_val (limbs a)) (2 ^ n)"
proof -
  define q where "q = n div 64"
  define b where "b = n mod 64"
  have n: "2 ^ n = base ^ q * 2 ^ b"
    unfolding q_def b_def base_def power_mult [symmetric] power_add [symmetric] by simp
  have b64: "b < 64" by (simp add: b_def)
  have two: "(2 :: nat) ^ b < base" using b64 by (rule exp_less_base)
  have top: "unat (push_bit b 1 :: u64) = 2 ^ b"
    using b64 by (rule unat_push_bit_1)
  consider "length (limbs a) < q + 1" | "length (limbs a) = q + 1" | "length (limbs a) > q + 1" by linarith
  then show ?thesis
  proof cases
    case 1
    have "limbs_val (limbs a) < base ^ length (limbs a)" by (rule limbs_val_bound)
    also have "\<dots> \<le> base ^ q" using 1 by (intro power_increasing) (auto simp: Suc_leI)
    also have "\<dots> \<le> 2 ^ n" unfolding n by simp
    finally show ?thesis using 1 by (simp add: abs_cmp_pow2_def cmp_def q_def)
  next
    case 2
    have q: "q < length (limbs a)" using 2 by simp
    have v: "limbs_val (limbs a) = limbs_val (take q (limbs a)) + base ^ q * unat (limbs a ! q)"
      using limbs_val_take_Suc [OF q] 2 by simp
    have lo: "limbs_val (take q (limbs a)) < base ^ q"
      using limbs_val_bound [of "take q (limbs a)"] q by simp
    let ?x = "unat (limbs a ! q)"
    have less: "limbs_val (limbs a) < 2 ^ n" if "?x < 2 ^ b"
    proof -
      have "limbs_val (limbs a) < base ^ q * (?x + 1)" using v lo by simp
      also have "\<dots> \<le> base ^ q * 2 ^ b" using that by (intro mult_le_mono2) simp
      finally show ?thesis by (simp add: n)
    qed
    have greater: "2 ^ n < limbs_val (limbs a)" if "2 ^ b < ?x"
    proof -
      have "base ^ q * 2 ^ b < base ^ q * ?x" using that by simp
      then show ?thesis using v unfolding n by linarith
    qed
    have c: "cmp (limbs a ! q) (push_bit b 1) = cmp ?x (2 ^ b)"
      unfolding cmp_def word_less_nat_alt word_unat_eq_iff top ..
    have r: "abs_cmp_pow2 a n = (case cmp ?x (2 ^ b) of
         Equal \<Rightarrow> (if limbs_val (take q (limbs a)) \<noteq> 0 then Greater else Equal) | ord \<Rightarrow> ord)"
      using 2 c by (simp add: abs_cmp_pow2_def q_def [symmetric] b_def [symmetric] limbs_take_zero [symmetric])
    show ?thesis
      unfolding r using less greater v n by (auto simp: cmp_def)
  next
    case 3
    have "2 ^ n = base ^ q * 2 ^ b" by (rule n)
    also have "\<dots> < base ^ q * base" using two by simp
    also have "\<dots> \<le> base ^ (length (limbs a) - 1)"
      using 3 power_increasing [of "Suc q" "length (limbs a) - 1" base] by (simp add: mult.commute Suc_leI)
    also have "\<dots> \<le> limbs_val (limbs a)" using assms 3 by (intro no_high_zero_lower) (auto simp: wf_anyint_def)
    finally show ?thesis using 3 by (simp add: abs_cmp_pow2_def cmp_def q_def)
  qed
qed

lemma fits_unsigned_bits_correct:
  "wf_anyint a \<Longrightarrow> fits_unsigned_bits a bits \<longleftrightarrow> 0 \<le> to_int a \<and> to_int a < 2 ^ unat bits"
  using to_int_neg_iff [of a] significant_bits_le_iff [of a "unat bits"]
  by (auto simp: fits_unsigned_bits_def to_int_def simp flip: of_nat_power of_nat_less_iff)

lemma fits_signed_bits_correct:
  assumes "wf_anyint a" and "0 < bits"
  shows "fits_signed_bits a bits = Returns (- (2 ^ (unat bits - 1)) \<le> to_int a \<and> to_int a < 2 ^ (unat bits - 1))"
proof -
  have b: "unat (bits - 1) = unat bits - 1" "0 < unat bits"
    using assms(2) by (simp_all add: unat_minus_one unat_gt_0 word_gt_0)
  let ?v = "limbs_val (limbs a)" and ?p = "2 ^ (unat bits - 1) :: nat"
  have "significant_bits a < unat bits \<longleftrightarrow> significant_bits a \<le> unat bits - 1" using b(2) by linarith
  then have s: "significant_bits a < unat bits \<longleftrightarrow> ?v < ?p"
    using significant_bits_le_iff [OF assms(1), of "unat bits - 1"] by simp
  have p: "(2 ^ (unat bits - 1) :: int) = int ?p" by simp
  show ?thesis
  proof (cases "negative a")
    case True
    then show ?thesis
      using assms(2) unfolding p
      by (simp add: fits_signed_bits_def abs_cmp_pow2_correct [OF assms(1)] b to_int_def cmp_def not_less del: of_nat_power)
  next
    case False
    then show ?thesis
      using assms(2) unfolding p by (simp add: fits_signed_bits_def s to_int_def del: of_nat_power)
  qed
qed

section \<open>Shifts\<close>

lemma or_eq_add_disjoint:
  assumes "unat (x :: u64) < 2 ^ b"
  shows "unat (x OR push_bit b y) = unat x + unat (push_bit b y)"
proof -
  have "unat (x OR push_bit b y) = unat x OR unat (push_bit b y)" by (rule unsigned_or_eq)
  also have "\<dots> = unat x + unat (push_bit b y)"
    using nat_bits_less [OF assms]
    by (intro disjunctive_add [symmetric]) (auto simp: bit_unat_64 bit_push_bit_iff not_less)
  finally show ?thesis .
qed

lemma shl_split:
  assumes "b < 64"
  shows "(x * 2 ^ b) div base = x div 2 ^ (64 - b)" and "base = 2 ^ b * 2 ^ (64 - b)"
proof -
  show e: "base = 2 ^ b * 2 ^ (64 - b)" using assms by (simp add: base_def flip: power_add)
  show "(x * 2 ^ b) div base = x div 2 ^ (64 - b)" unfolding e by (simp add: mult.commute [of x])
qed

lemma shl_loop_val:
  assumes "bs < 64" and "length out = i + s + length ls + 1"
    and "unat (out ! (i + s)) < 2 ^ bs" and "\<forall>k. i + s < k \<longrightarrow> k < length out \<longrightarrow> out ! k = 0"
  shows "limbs_val (shl_loop s bs i ls out) = limbs_val out + base ^ (i + s) * 2 ^ bs * limbs_val ls"
  using assms
proof (induction ls arbitrary: i out)
  case Nil
  then show ?case by simp
next
  case (Cons l ls)
  let ?idx = "i + s"
  let ?lo = "push_bit bs l" and ?hi = "drop_bit (64 - bs) l"
  let ?out1 = "out[?idx := out ! ?idx OR ?lo]"
  let ?out2 = "if bs \<noteq> 0 then ?out1[?idx + 1 := ?out1 ! (?idx + 1) OR ?hi] else ?out1"
  have idx: "?idx < length out" "?idx + 1 < length out" using Cons.prems(2) by simp_all
  have z: "out ! (?idx + 1) = 0" using Cons.prems(4) idx by simp
  have lo: "unat (out ! ?idx OR ?lo) = unat (out ! ?idx) + unat ?lo"
    using Cons.prems(3) by (rule or_eq_add_disjoint)
  have v1: "limbs_val ?out1 = limbs_val out + base ^ ?idx * unat ?lo"
    using limbs_val_update [OF idx(1), of "out ! ?idx OR ?lo"] lo by (simp add: algebra_simps)
  have hi0: "unat ?hi = 0" if "bs = 0"
    using that unat_less_base [of l] by (simp add: unat_drop_bit_64 base_def)
  have v2: "limbs_val ?out2 = limbs_val ?out1 + base ^ (?idx + 1) * unat ?hi"
    using limbs_val_update [of "?idx + 1" ?out1 "?out1 ! (?idx + 1) OR ?hi"] idx z hi0 by simp
  have spl: "unat ?lo + base * unat ?hi = unat l * 2 ^ bs"
    unfolding unat_push_bit_64 unat_drop_bit_64 shl_split(1) [OF Cons.prems(1), symmetric] by simp
  have hib: "unat ?hi < 2 ^ bs"
    unfolding unat_drop_bit_64
    using unat_less_base [of l] shl_split(2) [OF Cons.prems(1)] by (simp add: less_mult_imp_div_less)
  have n2: "?out2 ! (?idx + 1) = (if bs = 0 then 0 else ?hi)" using idx z by simp
  have p: "unat (?out2 ! ((i + 1) + s)) < 2 ^ bs" using n2 hib by (simp add: add.commute add.left_commute)
  have "limbs_val (shl_loop s bs (i + 1) ls ?out2) = limbs_val ?out2 + base ^ ((i + 1) + s) * 2 ^ bs * limbs_val ls"
    using Cons.prems(1,2,4) by (intro Cons.IH p) auto
  also have "\<dots> = limbs_val out + base ^ ?idx * (unat ?lo + base * unat ?hi) + base ^ ((i + 1) + s) * 2 ^ bs * limbs_val ls"
    unfolding v2 v1 by (simp add: algebra_simps)
  also have "\<dots> = limbs_val out + base ^ (i + s) * 2 ^ bs * limbs_val (l # ls)"
    unfolding spl by (simp add: algebra_simps)
  finally show ?case by (simp add: Let_def)
qed

lemma exp_split: "base ^ (n div 64) * 2 ^ (n mod 64) = 2 ^ n"
  unfolding base_def power_mult [symmetric] power_add [symmetric] by simp

lemma wf_abs_shl [wf_intros]: "wf_anyint (abs_shl a n)"
  by (simp add: abs_shl_def Let_def)

lemma to_int_abs_shl [to_int_simps]: "wf_anyint a \<Longrightarrow> to_int (abs_shl a n) = to_int a * 2 ^ n"
proof (cases "is_zero a")
  case True
  assume "wf_anyint a"
  with True show ?thesis using is_zero_iff [of a] by (simp add: abs_shl_def)
next
  case False
  let ?out = "replicate (n div 64 + length (limbs a) + 1) (0 :: u64)"
  have "limbs_val (shl_loop (n div 64) (n mod 64) 0 (limbs a) ?out)
    = limbs_val ?out + base ^ (0 + n div 64) * 2 ^ (n mod 64) * limbs_val (limbs a)"
    by (rule shl_loop_val) (simp_all del: replicate_Suc)
  then have v: "limbs_val (shl_loop (n div 64) (n mod 64) 0 (limbs a) ?out) = 2 ^ n * limbs_val (limbs a)"
    using exp_split [of n] by simp
  show ?thesis
    using False unfolding abs_shl_def Let_def
    by (simp add: to_int_normalize del: replicate_Suc) (use v in \<open>simp add: to_int_def\<close>)
qed

lemma limbs_val_div_base: "limbs_val xs div base ^ k = limbs_val (drop k xs)"
proof (cases "k \<le> length xs")
  case True
  have "limbs_val xs = limbs_val (take k xs) + base ^ k * limbs_val (drop k xs)"
    using limbs_val_append [of "take k xs" "drop k xs"] True by simp
  moreover have "limbs_val (take k xs) < base ^ k" using limbs_val_bound [of "take k xs"] True by simp
  ultimately show ?thesis by simp
next
  case False
  have "limbs_val xs < base ^ length xs" by (rule limbs_val_bound)
  also have "\<dots> \<le> base ^ k" using False by (intro power_increasing) (auto simp: Suc_leI)
  finally show ?thesis using False by simp
qed

lemma shr_step:
  assumes "b < 64" and "x < base"
  shows "(x + base * v) div 2 ^ b = x div 2 ^ b + 2 ^ (64 - b) * (v mod 2 ^ b) + base * (v div 2 ^ b)"
proof -
  note e = shl_split(2) [OF assms(1)]
  have "(x + base * v) div 2 ^ b = (x + 2 ^ b * (2 ^ (64 - b) * v)) div 2 ^ b" by (simp add: e mult.assoc)
  also have "\<dots> = x div 2 ^ b + 2 ^ (64 - b) * v" by simp
  also have "2 ^ (64 - b) * v = 2 ^ (64 - b) * (v mod 2 ^ b + 2 ^ b * (v div 2 ^ b))" by simp
  also have "\<dots> = 2 ^ (64 - b) * (v mod 2 ^ b) + base * (v div 2 ^ b)"     by (simp only: e distrib_left mult.assoc mult.commute mult.left_commute)
  finally show ?thesis by simp
qed

lemma shr_limb_val:
  assumes "b < 64" and "k < length ls"
  shows "unat (shr_limb ls b k) = unat (ls ! k) div 2 ^ b + 2 ^ (64 - b) * (limbs_val (drop (Suc k) ls) mod 2 ^ b)"
proof -
  let ?x = "drop_bit b (ls ! k)" and ?n = "limb_at ls (Suc k)"
  note e = shl_split(2) [OF assms(1)]
  have m: "limbs_val (drop (Suc k) ls) mod 2 ^ b = unat ?n mod 2 ^ b"
    unfolding limbs_val_drop [of "Suc k"] e by (simp add: mult.assoc)
  show ?thesis
  proof (cases "b \<noteq> 0 \<and> Suc k < length ls")
    case True
    then have "unat ?x < 2 ^ (64 - b)"
      unfolding unat_drop_bit_64 using unat_less_base [of "ls ! k"] e by (simp add: less_mult_imp_div_less mult.commute)
    then have "unat (?x OR push_bit (64 - b) ?n) = unat ?x + unat (push_bit (64 - b) ?n)" by (rule or_eq_add_disjoint)
    moreover have "unat (push_bit (64 - b) ?n) = 2 ^ (64 - b) * (unat ?n mod 2 ^ b)"
      using mult_mod_right [of "2 ^ (64 - b)" "unat ?n" "2 ^ b"] by (simp add: unat_push_bit_64 e mult.commute)
    ultimately show ?thesis using True m by (simp add: shr_limb_def limb_at_def unat_drop_bit_64)
  next
    case False
    then have "unat ?n mod 2 ^ b = 0" by (auto simp: limb_at_def)
    with False m show ?thesis by (auto simp: shr_limb_def unat_drop_bit_64)
  qed
qed

lemma shr_limbs_val:
  assumes "b < 64" and "k \<le> length ls"
  shows "limbs_val (map (shr_limb ls b) [k..<length ls]) = limbs_val (drop k ls) div 2 ^ b"
  using assms(2)
proof (induction "length ls - k" arbitrary: k)
  case 0
  then show ?case by simp
next
  case (Suc m)
  then have k: "k < length ls" by simp
  have IH: "limbs_val (map (shr_limb ls b) [Suc k..<length ls]) = limbs_val (drop (Suc k) ls) div 2 ^ b"
    using Suc by simp
  have d: "limbs_val (drop k ls) = unat (ls ! k) + base * limbs_val (drop (Suc k) ls)"
    using limbs_val_drop [of k ls] k by (simp add: limb_at_def)
  show ?case unfolding d shr_step [OF assms(1) unat_less_base] upt_conv_Cons [OF k]
    by (simp add: IH shr_limb_val [OF assms(1) k])
qed

lemma wf_abs_shr [wf_intros]: "wf_anyint (abs_shr a n)"
  by (simp add: abs_shr_def Let_def)

lemma to_int_abs_shr: "to_int (abs_shr a n) = int (limbs_val (limbs a) div 2 ^ n)"
proof (cases "n div 64 \<ge> length (limbs a)")
  case True
  then have "limbs_val (limbs a) div base ^ (n div 64) = 0" by (simp add: limbs_val_div_base)
  then have "limbs_val (limbs a) div 2 ^ n = 0" unfolding exp_split [of n, symmetric] by (simp add: div_mult2_eq)
  with True show ?thesis by (simp add: abs_shr_def)
next
  case False
  have "limbs_val (map (shr_limb (limbs a) (n mod 64)) [n div 64..<length (limbs a)]) = limbs_val (limbs a) div 2 ^ n"
    using False by (simp add: shr_limbs_val flip: limbs_val_div_base div_mult2_eq) (simp add: exp_split)
  with False show ?thesis by (simp add: abs_shr_def to_int_normalize Let_def) (simp add: to_int_def)
qed

lemma abs_shr_nonneg: "\<not> negative (abs_shr a n)"
  using to_int_neg_iff [OF wf_abs_shr, of a n] by (simp add: to_int_abs_shr)

lemma to_int_shl: "wf_anyint a \<Longrightarrow> to_int (shl a n) = to_int a * 2 ^ n"
  by (simp add: shl_def to_int_simps)

lemma wf_shl [wf_intros]: "wf_anyint (shl a n)"
  by (simp add: shl_def wf_intros)

lemma to_int_shr_abs:
  "wf_anyint a \<Longrightarrow> to_int (shr_abs a n) = (if n > 0 then - to_int a + 2 ^ n - 1 else - to_int a)"
  by (simp add: shr_abs_def Let_def to_int_simps wf_intros to_int_shl)

lemma shr_abs_nonneg:
  assumes "wf_anyint a" and "negative a"
  shows "wf_anyint (shr_abs a n)" and "\<not> negative (shr_abs a n)"
proof -
  show wf: "wf_anyint (shr_abs a n)" using assms(1) by (simp add: shr_abs_def Let_def wf_intros)
  have "to_int a < 0" using assms to_int_neg_iff by blast
  moreover have "(1 :: int) \<le> 2 ^ n" by simp
  ultimately have "0 \<le> - to_int a + 2 ^ n - 1" and "0 \<le> - to_int a" by linarith+
  then have "0 \<le> to_int (shr_abs a n)" by (simp only: to_int_shr_abs [OF assms(1)] split: if_splits) simp
  then show "\<not> negative (shr_abs a n)" using to_int_neg_iff [OF wf] by linarith
qed

lemma to_int_nonneg: "\<not> negative a \<Longrightarrow> to_int a = int (limbs_val (limbs a))"
  by (simp add: to_int_def)

lemma neg_ceil_shift: "- ((- x + 2 ^ n - 1) div 2 ^ n) = (x :: int) div 2 ^ n"
proof -
  let ?p = "2 ^ n :: int"
  define q where "q = x div ?p"
  define r where "r = x mod ?p"
  have x: "x = ?p * q + r" and r: "0 \<le> r" "r < ?p" by (simp_all add: q_def r_def)
  have "- x + ?p - 1 = ?p * (- q) + (?p - 1 - r)" by (simp add: x)
  also have "\<dots> div ?p = - q + (?p - 1 - r) div ?p"
    using div_mult_self2 [of ?p "?p - 1 - r" "- q"] by (simp add: add.commute)
  also have "(?p - 1 - r) div ?p = 0" using r by (intro div_pos_pos_trivial) linarith+
  finally show ?thesis by (simp add: q_def)
qed

lemma shr_correct:
  assumes "wf_anyint a"
  shows "wf_anyint (shr a n) \<and> to_int (shr a n) = to_int a div 2 ^ n"
proof (cases "negative a")
  case False
  then show ?thesis by (simp add: shr_def wf_intros to_int_abs_shr to_int_nonneg zdiv_int)
next
  case True
  note nn = shr_abs_nonneg [OF assms True]
  have "to_int (shr a n) = - (to_int (shr_abs a n) div 2 ^ n)"
    using True by (simp add: shr_def to_int_neg to_int_abs_shr to_int_nonneg [OF nn(2)] zdiv_int)
  also have "\<dots> = to_int a div 2 ^ n"
    using neg_ceil_shift [of "to_int a" n]
    by (cases "n > 0") (simp_all only: to_int_shr_abs [OF assms] if_True if_False, simp)
  finally show ?thesis using True by (simp add: shr_def wf_intros)
qed

section \<open>Division\<close>

lemma unat_join:
  assumes "unat (r :: u128) < base"
  shows "unat (push_bit 64 r OR wide l) = unat l + base * unat r"
proof -
  have "base * unat r < base * base" using assms by simp
  then have p: "unat (push_bit 64 r) = base * unat r"
    by (subst unsigned_push_bit_eq)
      (simp add: take_bit_eq_mod push_bit_eq_mult mult.commute base_square [symmetric, simplified] base_def)
  have "unat (push_bit 64 r OR wide l) = unat (push_bit 64 r) OR unat l"
    by (simp only: unsigned_or_eq unat_wide)
  also have "\<dots> = push_bit 64 (unat r) OR unat l"
    unfolding p by (simp add: base_def push_bit_eq_mult mult.commute)
  also have "\<dots> = push_bit 64 (unat r) + unat l"
    by (rule disjunctive_add [symmetric]) (auto simp: bit_push_bit_iff bit_unat_64 dest: bit_imp_le_length)
  finally show ?thesis by (simp add: base_def push_bit_eq_mult mult.commute)
qed

lemma div_rem_small_loop_val:
  assumes "r \<noteq> 0" and "div_rem_small_loop r ls = (out, m)"
  shows "length out = length ls \<and> limbs_val out = limbs_val ls div unat r \<and> unat m = limbs_val ls mod unat r"
  using assms(2)
proof (induction ls arbitrary: out m)
  case Nil
  then show ?case by simp
next
  case (Cons l ls)
  have r: "0 < unat r" using assms(1) by (simp add: unat_gt_0)
  obtain out' m' where rec: "div_rem_small_loop r ls = (out', m')" by fastforce
  let ?c = "push_bit 64 m' OR wide l" and ?V = "limbs_val ls"
  have IH: "length out' = length ls" "limbs_val out' = ?V div unat r" "unat m' = ?V mod unat r"
    using Cons.IH [OF rec] by auto
  have "unat m' < unat r" using IH(3) r by simp
  then have "unat m' < base" and mr: "Suc (unat m') \<le> unat r" using unat_less_base [of r] by linarith+
  then have c: "unat ?c = unat l + base * unat m'" by (intro unat_join)
  have "unat l + base * unat m' < base * unat r"
    using mult_le_mono2 [OF mr, of base] unat_less_base [of l] unfolding mult_Suc_right by linarith
  then have "unat ?c < unat r * base" unfolding c by (simp add: mult.commute)
  then have cb: "unat ?c div unat r < base" by (simp add: less_mult_imp_div_less mult.commute)
  have e: "unat l + base * ?V = unat ?c + unat r * (base * (?V div unat r))"
  proof -
    have "base * ?V = base * (unat r * (?V div unat r) + ?V mod unat r)" by simp
    then show ?thesis unfolding c IH(3) distrib_left by (simp add: ac_simps)
  qed
  have q: "(unat l + base * ?V) div unat r = unat ?c div unat r + base * (?V div unat r)"
    unfolding e using r by simp
  have m: "(unat l + base * ?V) mod unat r = unat ?c mod unat r" unfolding e by simp
  have o: "out = lo (?c div wide r) # out'" "m = ?c mod wide r"
    using Cons.prems rec by (auto simp: Let_def)
  have "unat (lo (?c div wide r)) = unat ?c div unat r"
    using cb by (simp only: unat_lo_base unat_div unat_wide) simp
  moreover have "unat (?c mod wide r) = unat ?c mod unat r" by (simp only: unat_mod unat_wide)
  ultimately show ?case using o q m IH by simp
qed

lemma div_rem_small_correct:
  assumes "r \<noteq> 0"
  obtains q m where "div_rem_small a r = Returns (q, m)" and "wf_anyint q" and "\<not> negative q"
    and "limbs_val (limbs q) = limbs_val (limbs a) div unat r" and "unat m = limbs_val (limbs a) mod unat r"
proof -
  obtain out m where loop: "div_rem_small_loop r (limbs a) = (out, m)" by fastforce
  note v = div_rem_small_loop_val [OF assms loop]
  let ?q = "normalize \<lparr>negative = False, limbs = out\<rparr>"
  have nn: "\<not> negative ?q" by (simp add: normalize_def Let_def)
  have "to_int ?q = int (limbs_val out)" by (simp add: to_int_normalize) (simp add: to_int_def)
  then have vq: "limbs_val (limbs ?q) = limbs_val out" using to_int_nonneg [OF nn] by simp
  have "unat m < unat r" using v assms by (simp add: unat_gt_0)
  then have "unat m < base" using unat_less_base [of r] by linarith
  then have "unat (lo m) = unat m" by (simp add: unat_lo_base)
  with v vq nn show ?thesis using that [of ?q "lo m"] assms loop by (simp add: div_rem_small_def)
qed

lemma set_bit_val:
  assumes "no_high_zero (limbs a)" and "\<not> bit (limbs_val (limbs a)) n"
  shows "limbs_val (limbs (anyint_set_bit a n)) = limbs_val (limbs a) + 2 ^ n"
    and "no_high_zero (limbs (anyint_set_bit a n))" and "limbs (anyint_set_bit a n) \<noteq> []"
    and "negative (anyint_set_bit a n) = negative a"
proof -
  define q where "q = n div 64"
  define b where "b = n mod 64"
  define ls where "ls = (if length (limbs a) \<le> q then limbs a @ replicate (q + 1 - length (limbs a)) 0 else limbs a)"
  have s: "anyint_set_bit a n = a\<lparr>limbs := ls[q := ls ! q OR push_bit b 1]\<rparr>"
    by (simp add: anyint_set_bit_def Let_def q_def b_def ls_def)
  have q: "q < length ls" by (auto simp: ls_def)
  have v: "limbs_val ls = limbs_val (limbs a)" by (simp add: ls_def limbs_val_append)
  have at: "ls ! q = limb_at (limbs a) q" by (auto simp: ls_def limb_at_def nth_append)
  have nb: "\<not> bit (ls ! q) b" using assms(2) unfolding bit_limbs_val at by (simp add: q_def b_def)
  have b64: "b < 64" by (simp add: b_def)
  have "unat (ls ! q OR push_bit b 1) = unat (ls ! q) OR unat (push_bit b 1 :: u64)" by (rule unsigned_or_eq)
  also have "\<dots> = unat (ls ! q) + unat (push_bit b 1 :: u64)"
    using nb by (intro disjunctive_add [symmetric]) (auto simp: bit_unat_64 bit_exp_iff)
  finally have o: "unat (ls ! q OR push_bit b 1) = unat (ls ! q) + 2 ^ b" using unat_push_bit_1 [OF b64] by simp
  have "limbs_val (ls[q := ls ! q OR push_bit b 1]) = limbs_val ls + base ^ q * 2 ^ b"
    using limbs_val_update [OF q, of "ls ! q OR push_bit b 1"] unfolding o by (simp add: distrib_left)
  then show "limbs_val (limbs (anyint_set_bit a n)) = limbs_val (limbs a) + 2 ^ n"
    using exp_split [of n] v by (simp add: s q_def b_def)
  show ne: "limbs (anyint_set_bit a n) \<noteq> []" using q by (auto simp: s)
  have nz: "ls ! q OR push_bit b 1 \<noteq> 0" using o by (metis add_is_0 power_not_zero unsigned_0 zero_neq_numeral)
  have "last (ls[q := v]) = (if q = length ls - 1 then v else last ls)" for v
    using q by (intro last_list_update) auto
  moreover have "last ls \<noteq> 0" if "q \<noteq> length ls - 1"
    using that q assms(1) by (auto simp: ls_def no_high_zero_def split: if_splits)
  ultimately have "last (ls[q := ls ! q OR push_bit b 1]) \<noteq> 0" using nz by auto
  then show "no_high_zero (limbs (anyint_set_bit a n))" by (simp add: s no_high_zero_def)
  show "negative (anyint_set_bit a n) = negative a" by (simp add: s)
qed

lemma long_division_step:
  fixes x R c m :: nat
  assumes "0 < R" and "c \<le> 1" and "m = x mod R"
  shows "(2 * x + c) mod R = (if R \<le> 2 * m + c then 2 * m + c - R else 2 * m + c)"
    and "(2 * x + c) div R = 2 * (x div R) + (if R \<le> 2 * m + c then 1 else 0)"
proof -
  have m: "m < R" using assms by simp
  have x: "2 * x + c = (2 * m + c) + R * (2 * (x div R))"
  proof -
    have "2 * x = 2 * (R * (x div R) + x mod R)" by simp
    then show ?thesis unfolding assms(3) distrib_left by (simp add: ac_simps)
  qed
  have q: "(2 * m + c) div R = (if R \<le> 2 * m + c then 1 else 0)"
  proof (cases "R \<le> 2 * m + c")
    case True
    then obtain k where k: "2 * m + c = R + k" by (rule le_Suc_ex [THEN exE])
    then have "k < R" using m assms(2) by linarith
    then have "(R + k) div R = 1" using assms(1) by (simp add: div_add_self1)
    with k True show ?thesis by simp
  qed simp
  show "(2 * x + c) div R = 2 * (x div R) + (if R \<le> 2 * m + c then 1 else 0)"
    unfolding x using assms(1) q by simp
  show "(2 * x + c) mod R = (if R \<le> 2 * m + c then 2 * m + c - R else 2 * m + c)"
    unfolding x using q mult_div_mod_eq [of R "2 * m + c"] by (auto split: if_splits)
qed

definition div_state :: "nat \<Rightarrow> nat \<Rightarrow> nat \<Rightarrow> anyint \<Rightarrow> anyint \<Rightarrow> bool" where
  "div_state L R b q r \<longleftrightarrow> wf_anyint q \<and> wf_anyint r \<and> \<not> negative q \<and> \<not> negative r \<and>
     limbs_val (limbs q) = (L div 2 ^ b div R) * 2 ^ b \<and> limbs_val (limbs r) = (L div 2 ^ b) mod R"

lemma significant_bits_length: "significant_bits a \<le> 64 * length (limbs a)"
  by (cases "limbs a" rule: rev_cases) (simp_all add: significant_bits_def)

lemma to_int_eq_nat: "to_int a = int n \<longleftrightarrow> limbs_val (limbs a) = n" if "\<not> negative a"
  using that by (simp add: to_int_def)

lemma nonneg_of_to_int: "wf_anyint a \<Longrightarrow> 0 \<le> to_int a \<Longrightarrow> \<not> negative a"
  using to_int_neg_iff by force

lemma shift_in_bit:
  assumes "wf_anyint r" and "\<not> negative r" and "r2 = (if c then add_small_assign (abs_shl r 1) 1 else abs_shl r 1)"
  shows "wf_anyint r2 \<and> \<not> negative r2 \<and> limbs_val (limbs r2) = 2 * limbs_val (limbs r) + (if c then 1 else 0)"
proof -
  let ?s = "abs_shl r 1"
  have v: "to_int ?s = int (2 * limbs_val (limbs r))"
    using assms(1,2) by (simp add: to_int_abs_shl to_int_nonneg)
  then have nn: "\<not> negative ?s" by (intro nonneg_of_to_int) (simp_all add: wf_intros)
  have vs: "limbs_val (limbs ?s) = 2 * limbs_val (limbs r)" using v unfolding to_int_eq_nat [OF nn] .
  have "to_int (add_small_assign ?s 1) = int (2 * limbs_val (limbs r) + 1)"
    using v nn by (simp add: to_int_add_small_assign)
  moreover from this have na: "\<not> negative (add_small_assign ?s 1)"
    using wf_add_small_assign [OF wf_abs_shl nn, of 1] by (intro nonneg_of_to_int) simp_all
  ultimately have va: "limbs_val (limbs (add_small_assign ?s 1)) = 2 * limbs_val (limbs r) + 1"
    unfolding to_int_eq_nat [OF na] by simp
  show ?thesis using wf_add_small_assign [OF wf_abs_shl nn, of 1] nn na vs va
    by (auto simp: assms(3) wf_intros)
qed

lemma div_loop_bit_test:
  assumes "b < significant_bits a"
  shows "drop_bit (b mod 64) (limbs a ! (b div 64)) AND 1 \<noteq> 0 \<longleftrightarrow> odd (limbs_val (limbs a) div 2 ^ b)"
proof -
  have "b div 64 < length (limbs a)" using assms significant_bits_length [of a] by (simp add: div_less_iff_less_mult)
  then have "bit (limbs_val (limbs a)) b \<longleftrightarrow> bit (limbs a ! (b div 64)) (b mod 64)"
    by (simp add: bit_limbs_val limb_at_def)
  then show ?thesis by (simp add: bit_iff_odd_drop_bit and_one_eq mod_2_eq_odd drop_bit_eq_div [of _ "limbs_val _"])
qed

lemma div_rem_loop_step:
  assumes st: "div_state L R (Suc b) q r" and R: "wf_anyint rhs" "\<not> negative rhs" "limbs_val (limbs rhs) = R" "0 < R"
    and c: "c \<longleftrightarrow> odd (L div 2 ^ b)"
    and r2: "r2 = (if c then add_small_assign (abs_shl r 1) 1 else abs_shl r 1)"
  shows "if abs_cmp r2 rhs \<noteq> Less then div_state L R b (anyint_set_bit q b) (sub r2 rhs) else div_state L R b q r2"
proof -
  define x where "x = L div 2 ^ Suc b"
  define ci where "ci = (if c then 1 else 0 :: nat)"
  have Lb: "L div 2 ^ b = 2 * x + ci"
    using div_mult_mod_eq [of "L div 2 ^ b" 2] c by (simp add: x_def ci_def div_mult2_eq [symmetric] mult.commute odd_iff_mod_2_eq_one split: if_splits)
  note s = st [unfolded div_state_def, folded x_def]
  have r2v: "wf_anyint r2" "\<not> negative r2" "limbs_val (limbs r2) = 2 * (x mod R) + ci"
    using shift_in_bit [OF _ _ r2] s by (auto simp: ci_def)
  note ld = long_division_step [OF R(4) _ refl, of ci x, folded Lb]
  have ci1: "ci \<le> 1" by (simp add: ci_def)
  have cmp: "abs_cmp r2 rhs \<noteq> Less \<longleftrightarrow> R \<le> 2 * (x mod R) + ci"
    using abs_cmp_eq [OF r2v(1) R(1)] r2v(3) R(3) by (simp add: not_less)
  show ?thesis
  proof (cases "R \<le> 2 * (x mod R) + ci")
    case True
    have "to_int (sub r2 rhs) = int (2 * (x mod R) + ci - R)"
      using True r2v R by (simp add: to_int_sub to_int_nonneg of_nat_diff)
    then have sub: "wf_anyint (sub r2 rhs)" "\<not> negative (sub r2 rhs)" "limbs_val (limbs (sub r2 rhs)) = 2 * (x mod R) + ci - R"
      using nonneg_of_to_int [OF wf_sub, of r2 rhs] by (auto simp: wf_intros to_int_eq_nat)
    have nb: "\<not> bit (limbs_val (limbs q)) b"
      using s by (simp add: bit_iff_odd mult.left_commute [of _ 2])
    have "no_high_zero (limbs q)" using s by (simp add: wf_anyint_def)
    note sb = set_bit_val [OF this nb]
    have "limbs_val (limbs (anyint_set_bit q b)) = (2 * (x div R) + 1) * 2 ^ b"
      unfolding sb(1) using s by (simp add: algebra_simps)
    with sb sub s True ld [OF ci1] cmp show ?thesis by (simp add: div_state_def wf_anyint_def Lb)
  next
    case False
    with s r2v ld [OF ci1] cmp show ?thesis by (simp add: div_state_def Lb)
  qed
qed

lemma div_rem_loop_correct:
  assumes "div_state (limbs_val (limbs lhs)) R b q r" and "b \<le> significant_bits lhs"
    and R: "wf_anyint rhs" "\<not> negative rhs" "limbs_val (limbs rhs) = R" "0 < R"
    and "div_rem_loop lhs rhs (rev [0..<b]) q r = (q', r')"
  shows "div_state (limbs_val (limbs lhs)) R 0 q' r'"
  using assms(1,2,7)
proof (induction b arbitrary: q r)
  case 0
  then show ?case by simp
next
  case (Suc b)
  let ?c = "drop_bit (b mod 64) (limbs lhs ! (b div 64)) AND 1 \<noteq> 0"
  define r2 where "r2 = (if ?c then add_small_assign (abs_shl r 1) 1 else abs_shl r 1)"
  have "?c \<longleftrightarrow> odd (limbs_val (limbs lhs) div 2 ^ b)" using Suc.prems(2) by (intro div_loop_bit_test) simp
  note st = div_rem_loop_step [OF Suc.prems(1) R this r2_def]
  have "div_rem_loop lhs rhs (rev [0..<b]) (if abs_cmp r2 rhs \<noteq> Less then anyint_set_bit q b else q)
      (if abs_cmp r2 rhs \<noteq> Less then sub r2 rhs else r2) = (q', r')"
    using Suc.prems(3) by (simp add: Let_def r2_def split: if_splits)
  with st Suc show ?case by (auto split: if_splits)
qed

lemma abs_to_int: "\<bar>to_int a\<bar> = int (limbs_val (limbs a))"
  by (simp add: to_int_def)

lemma div_rem_abs_correct:
  assumes "wf_anyint a" and "\<not> negative a" and "wf_anyint b" and "\<not> negative b" and "\<not> is_zero b"
  obtains q r where "div_rem_abs a b = Returns (q, r)" and "wf_anyint q" and "wf_anyint r"
    and "limbs_val (limbs q) = limbs_val (limbs a) div limbs_val (limbs b)"
    and "limbs_val (limbs r) = limbs_val (limbs a) mod limbs_val (limbs b)"
proof -
  let ?L = "limbs_val (limbs a)" and ?R = "limbs_val (limbs b)"
  have R: "0 < ?R" using assms(3,5) by (auto simp: is_zero_def wf_anyint_def no_high_zero_val_0 intro: ccontr)
  have c: "abs_cmp a b = Less \<longleftrightarrow> ?L < ?R" using abs_cmp_eq [OF assms(1,3)] by simp
  show ?thesis
  proof (cases "?L < ?R")
    case True
    then show ?thesis using that [of ZERO a] assms(1,5) c by (simp add: div_rem_abs_def) (simp add: ZERO_def)
  next
    case ge: False
    show ?thesis
    proof (cases "length (limbs b) = 1")
      case True
      then obtain l where l: "limbs b = [l]" by (auto simp: length_Suc_conv)
      then have "l \<noteq> 0" using R by auto
      from div_rem_small_correct [OF this, of a] obtain q m where
        d: "div_rem_small a l = Returns (q, m)" "wf_anyint q" "limbs_val (limbs q) = ?L div unat l" "unat m = ?L mod unat l"
        by blast
      have "limbs_val (limbs (from_u64 m)) = unat m"
        using abs_to_int [of "from_u64 m"] unfolding from_u64_correct by (metis abs_of_nat of_nat_eq_iff)
      with d l ge c assms(5) show ?thesis using that [of q "from_u64 m"] by (simp add: div_rem_abs_def wf_intros)
    next
      case False
      obtain q r where loop: "div_rem_loop a b (rev [0..<significant_bits a]) ZERO ZERO = (q, r)" by fastforce
      have "?L < 2 ^ significant_bits a"
        using significant_bits_le_iff [of a "significant_bits a"] assms(1) by (simp add: wf_anyint_def)
      then have "div_state ?L ?R (significant_bits a) ZERO ZERO"
        by (simp add: div_state_def) (simp add: ZERO_def)
      from div_rem_loop_correct [OF this le_refl assms(3,4) refl R loop] have "div_state ?L ?R 0 q r" .
      with loop False ge c assms(5) show ?thesis using that [of q r] by (simp add: div_rem_abs_def div_state_def)
    qed
  qed
qed

lemma wf_abs: "wf_anyint a \<Longrightarrow> wf_anyint (a\<lparr>negative := False\<rparr>)"
  by (simp add: wf_anyint_def)

lemma signed_result:
  assumes "wf_anyint q"
  shows "wf_anyint (q\<lparr>negative := \<not> is_zero q \<and> s\<rparr>)"
    and "to_int (q\<lparr>negative := \<not> is_zero q \<and> s\<rparr>) = (if s then - 1 else 1) * int (limbs_val (limbs q))"
  using assms by (auto simp: wf_anyint_def to_int_def is_zero_def)

lemma sgn_of_negative: "wf_anyint a \<Longrightarrow> sgn (to_int a) = (if is_zero a then 0 else if negative a then - 1 else 1)"
  using to_int_neg_iff [of a] is_zero_iff [of a] by (auto simp: sgn_if)


lemma anyint_div_correct:
  assumes "wf_anyint a" and "wf_anyint b"
  shows "if to_int b = 0 then anyint_div a b = Panics
         else \<exists>q. anyint_div a b = Returns q \<and> wf_anyint q \<and> to_int q = to_int a sdiv to_int b"
proof (cases "is_zero b")
  case True
  then show ?thesis using is_zero_iff [OF assms(2)] by (simp add: anyint_div_def)
next
  case False
  then have nz: "to_int b \<noteq> 0" using is_zero_iff [OF assms(2)] by simp
  obtain q r where d: "div_rem_abs (a\<lparr>negative := False\<rparr>) (b\<lparr>negative := False\<rparr>) = Returns (q, r)" "wf_anyint q"
    "limbs_val (limbs q) = limbs_val (limbs a) div limbs_val (limbs b)"
    using False by (auto intro: div_rem_abs_correct [OF wf_abs [OF assms(1)] _ wf_abs [OF assms(2)]] simp: is_zero_def)
  let ?q = "q\<lparr>negative := \<not> is_zero q \<and> negative a \<noteq> negative b\<rparr>"
  have "to_int ?q = to_int a sdiv to_int b"
    unfolding signed_result(2) [OF d(2)] d(3) signed_divide_int_def sgn_of_negative [OF assms(1)] sgn_of_negative [OF assms(2)]
      abs_to_int zdiv_int using False by (auto simp: is_zero_def)
  with d nz False signed_result(1) [OF d(2)] show ?thesis by (simp add: anyint_div_def)
qed

lemma anyint_rem_correct:
  assumes "wf_anyint a" and "wf_anyint b"
  shows "if to_int b = 0 then anyint_rem a b = Panics
         else \<exists>r. anyint_rem a b = Returns r \<and> wf_anyint r \<and> to_int r = to_int a smod to_int b"
proof (cases "is_zero b")
  case True
  then show ?thesis using is_zero_iff [OF assms(2)] by (simp add: anyint_rem_def)
next
  case False
  then have nz: "to_int b \<noteq> 0" using is_zero_iff [OF assms(2)] by simp
  obtain q r where d: "div_rem_abs (a\<lparr>negative := False\<rparr>) (b\<lparr>negative := False\<rparr>) = Returns (q, r)" "wf_anyint r"
    "limbs_val (limbs r) = limbs_val (limbs a) mod limbs_val (limbs b)"
    using False by (auto intro: div_rem_abs_correct [OF wf_abs [OF assms(1)] _ wf_abs [OF assms(2)]] simp: is_zero_def)
  let ?r = "r\<lparr>negative := \<not> is_zero r \<and> negative a\<rparr>"
  have "to_int ?r = sgn (to_int a) * (\<bar>to_int a\<bar> mod \<bar>to_int b\<bar>)"
    unfolding signed_result(2) [OF d(2)] d(3) sgn_of_negative [OF assms(1)] abs_to_int zmod_int by (auto simp: is_zero_def)
  also have "\<dots> = to_int a smod to_int b" by (simp add: smod_int_alt_def)
  finally show ?thesis using d nz False signed_result(1) [OF d(2)] by (simp add: anyint_rem_def)
qed

section \<open>Printing\<close>

definition digit_char :: "u64 \<Rightarrow> char" where
  "digit_char r = char_of (unat (48 + ucast r :: u8))"

lemma unat_numeral_10: "unat (10 :: u64) = 10"
  by simp

function display_loop :: "anyint \<Rightarrow> char list \<Rightarrow> char list outcome" where
  "display_loop n digits =
     (if is_zero n then Returns digits
      else case div_rem_small n 10 of
             Panics \<Rightarrow> Panics
           | Returns (q, r) \<Rightarrow> display_loop q (digits @ [digit_char r]))"
  by pat_completeness auto
termination
proof (relation "measures [\<lambda>(n, _). limbs_val (limbs n), \<lambda>(n, _). length (limbs n)]", goal_cases)
  case 1
  show ?case by simp
next
  case (2 n digits x q r)
  have "(10 :: u64) \<noteq> 0" by simp
  from div_rem_small_correct [OF this, of n] 2
  have q: "wf_anyint q" "limbs_val (limbs q) = limbs_val (limbs n) div 10" by auto
  show ?case
  proof (cases "limbs_val (limbs n) = 0")
    case True
    with q have "limbs q = []" by (auto simp: wf_anyint_def no_high_zero_val_0)
    with True q 2 show ?thesis by (simp add: is_zero_def)
  qed (simp add: q)
qed

declare display_loop.simps [simp del]

definition anyint_display :: "anyint \<Rightarrow> char list outcome" where
  "anyint_display a =
     (if is_zero a then Returns ''0''
      else bind_outcome (display_loop (a\<lparr>negative := False\<rparr>) [])
             (\<lambda>digits. Returns ((if negative a then ''-'' else '''') @ rev digits)))"

text \<open>Decimal notation, as the specification of the printer.\<close>

definition decimal :: "int \<Rightarrow> char list" where
  "decimal i = (if i = 0 then ''0'' else (if i < 0 then ''-'' else '''') @ dec_digits (nat \<bar>i\<bar>))"

lemma digit_char_eq: "unat r < 10 \<Longrightarrow> digit_char r = char_of (48 + unat r)"
  by (simp add: digit_char_def unsigned_ucast_eq unat_word_ariths take_bit_eq_mod)

lemma display_loop_correct:
  "wf_anyint n \<Longrightarrow> display_loop n acc = Returns (acc @ rev (dec_digits (limbs_val (limbs n))))"
proof (induction n acc rule: display_loop.induct)
  case (1 n digits)
  show ?case
  proof (cases "is_zero n")
    case True
    then show ?thesis by (simp add: display_loop.simps is_zero_def dec_digits.simps)
  next
    case False
    have "(10 :: u64) \<noteq> 0" by simp
    from div_rem_small_correct [OF this, of n] obtain q m where
      d: "div_rem_small n 10 = Returns (q, m)" "wf_anyint q" "limbs_val (limbs q) = limbs_val (limbs n) div 10"
        "unat m = limbs_val (limbs n) mod 10" by (metis unat_numeral_10)
    have "limbs_val (limbs n) \<noteq> 0" using False 1(2) by (auto simp: is_zero_def wf_anyint_def no_high_zero_val_0)
    moreover have "digit_char m = char_of (48 + limbs_val (limbs n) mod 10)" using digit_char_eq [of m] d(4) by simp
    ultimately show ?thesis
      using 1(1) [OF False d(1) refl d(2)] False d(1,3)
      by (simp add: display_loop.simps [of n] dec_digits.simps [of "limbs_val (limbs n)"])
  qed
qed

lemma anyint_display_decimal: "wf_anyint a \<Longrightarrow> anyint_display a = Returns (decimal (to_int a))"
  using display_loop_correct [OF wf_abs, of a "[]"] is_zero_iff [of a] to_int_neg_iff [of a]
  by (auto simp: anyint_display_def decimal_def abs_to_int)

lemma digit_of_dec: "d < 10 \<Longrightarrow> digit_of (char_of (48 + d)) = Some d \<and> char_of (48 + d) \<noteq> CHR ''_''"
proof -
  assume d: "d < (10 :: nat)"
  then have c: "of_char (char_of (48 + d) :: char) = 48 + d" by (simp add: of_char_of)
  have "of_char (char_of (48 + d) :: char) \<noteq> (of_char CHR ''_'' :: nat)" unfolding c using d by simp
  then have "char_of (48 + d) \<noteq> CHR ''_''" by metis
  with c d show ?thesis by (simp add: digit_of_def Let_def)
qed

lemma digits_meaning_append:
  "digits_meaning radix (xs @ ys) v = Option.bind (digits_meaning radix xs v) (digits_meaning radix ys)"
  by (induction xs arbitrary: v) (auto split: option.splits)

lemma digits_meaning_dec: "digits_meaning 10 (dec_digits n) 0 = Some n"
proof (induction n rule: dec_digits.induct)
  case (1 n)
  show ?case
  proof (cases "n = 0")
    case False
    then show ?thesis
      using 1 digit_of_dec [of "n mod 10"] by (simp add: dec_digits.simps [of n] digits_meaning_append)
  qed (simp add: dec_digits.simps)
qed

lemma parse_display:
  assumes "wf_anyint a" and "\<not> negative a"
  obtains s where "anyint_display a = Returns s" and "parse_radix 10 s = Returns (Some a)"
proof -
  have "digits_meaning 10 (decimal (to_int a)) 0 = Some (limbs_val (limbs a))"
    using digits_meaning_dec [of "limbs_val (limbs a)"] assms(2) by (auto simp: decimal_def to_int_def digit_of_def)
  moreover obtain r where "parse_radix 10 (decimal (to_int a)) = Returns r"
    and "rel_option (\<lambda>a n. wf_anyint a \<and> to_int a = int n) r (digits_meaning 10 (decimal (to_int a)) 0)"
    using parse_radix_meaning [of 10 "decimal (to_int a)"] by auto
  ultimately show ?thesis using that [OF anyint_display_decimal [OF assms(1)]] to_int_inj [OF _ assms(1)] assms(2)
    by (auto simp: option_rel_Some2 to_int_nonneg)
qed

end
