(* ===== verification/Vif_Anyint_Bitwise.thy ===== *)
theory Vif_Anyint_Bitwise
  imports Vif_Anyint_Div
begin

text \<open>
  The bitwise operators of \<^verbatim>\<open>Anyint\<close> (\<^verbatim>\<open>src/int.rs\<close>): both operands are written out in
  two's complement on enough limbs, the operator is applied limb by limb, and the result
  is read back as a sign and a magnitude. They are shown to be the operators of the
  two's-complement view of unbounded integers, negative ones included.
\<close>

section \<open>Definitions\<close>

text \<open>The carry loop of both conversions; it stops at the first limb that does not carry.\<close>

fun increment_limbs :: "u64 list \<Rightarrow> u128 \<Rightarrow> u64 list" where
  "increment_limbs [] carry = []"
| "increment_limbs (l # ls) carry =
     (let sum = wide l + carry; carry' = hi sum
      in lo sum # (if carry' = 0 then ls else increment_limbs ls carry'))"

definition negate_limbs :: "u64 list \<Rightarrow> u64 list" where
  "negate_limbs ls = increment_limbs (map not ls) 1"

definition twos_complement_limbs :: "anyint \<Rightarrow> nat \<Rightarrow> u64 list" where
  "twos_complement_limbs a len =
     (let out = take len (limbs a) @ replicate (len - length (limbs a)) 0
      in if negative a then negate_limbs out else out)"

definition from_twos_complement_limbs :: "u64 list \<Rightarrow> anyint" where
  "from_twos_complement_limbs ls =
     (let neg = (ls \<noteq> [] \<and> drop_bit 63 (last ls) \<noteq> 0)
      in normalize \<lparr>negative = neg, limbs = (if neg then negate_limbs ls else ls)\<rparr>)"

definition bitwise :: "anyint \<Rightarrow> anyint \<Rightarrow> (u64 \<Rightarrow> u64 \<Rightarrow> u64) \<Rightarrow> anyint" where
  "bitwise lhs rhs op =
     (let bits = max (significant_bits lhs) (significant_bits rhs) + 2;
          len = max (div_ceil bits 64) 1
      in from_twos_complement_limbs
           (map2 op (twos_complement_limbs lhs len) (twos_complement_limbs rhs len)))"

definition bitand :: "anyint \<Rightarrow> anyint \<Rightarrow> anyint" where
  "bitand a b = bitwise a b (\<lambda>l r. l AND r)"

definition bitor :: "anyint \<Rightarrow> anyint \<Rightarrow> anyint" where
  "bitor a b = bitwise a b (\<lambda>l r. l OR r)"

definition bitxor :: "anyint \<Rightarrow> anyint \<Rightarrow> anyint" where
  "bitxor a b = bitwise a b (\<lambda>l r. l XOR r)"

definition anyint_not :: "anyint \<Rightarrow> anyint" where
  "anyint_not a = neg (add a (from_u64 1))"

section \<open>Two's complement of limb vectors\<close>

lemma length_increment_limbs [simp]: "length (increment_limbs ls c) = length ls"
  by (induction ls arbitrary: c) (auto simp: Let_def)

lemma length_negate_limbs [simp]: "length (negate_limbs ls) = length ls"
  by (simp add: negate_limbs_def)

lemma increment_limbs_val:
  "unat c < base \<Longrightarrow> limbs_val (increment_limbs ls c) = (limbs_val ls + unat c) mod base ^ length ls"
proof (induction ls arbitrary: c)
  case Nil
  then show ?case by simp
next
  case (Cons l ls)
  let ?w = "wide l + c"
  have w: "unat ?w = unat l + unat c" using add_small_step [of c l] Cons.prems by simp
  have split: "unat l + unat c = unat (lo ?w) + base * unat (hi ?w)" using lo_hi [of ?w] w by simp
  have step: "limbs_val (if hi ?w = 0 then ls else increment_limbs ls (hi ?w))
      = (limbs_val ls + unat (hi ?w)) mod base ^ length ls"
    using Cons.IH [of "hi ?w"] limbs_val_bound [of ls] by simp
  have "(x + base * y) mod (base * m) = x + base * (y mod m)" if "x < base" for x y m :: nat
    using that mod_mult2_eq [of "x + base * y" base m] by simp
  then have "(unat (lo ?w) + base * (limbs_val ls + unat (hi ?w))) mod base ^ length (l # ls)
      = unat (lo ?w) + base * ((limbs_val ls + unat (hi ?w)) mod base ^ length ls)" by simp
  moreover have "limbs_val (l # ls) + unat c = unat (lo ?w) + base * (limbs_val ls + unat (hi ?w))"
    using split by (simp add: algebra_simps)
  ultimately show ?case using step by (simp add: Let_def)
qed

lemma unat_not_64: "unat (not (l :: u64)) + unat l + 1 = base"
proof -
  have "take_bit 64 (uint l) = uint l" by (rule bintr_uint) simp
  then have "uint (not l) = 2 ^ 64 - 1 - uint l"
    by (simp add: unsigned_not_eq take_bit_not_eq_mask_diff mask_eq_exp_minus_1)
  then have "int (unat (not l) + unat l + 1) = int base" by (simp add: base_def)
  then show ?thesis by (simp only: of_nat_eq_iff)
qed

lemma limbs_val_not: "limbs_val (map not ls) + limbs_val ls + 1 = base ^ length ls"
proof (induction ls)
  case Nil
  then show ?case by simp
next
  case (Cons l ls)
  note unat_not_64 [of l]
  moreover have "base * limbs_val (map not ls) + base * limbs_val ls + base = base * base ^ length ls"
    unfolding Cons.IH [symmetric] by (simp add: algebra_simps)
  ultimately show ?case by simp
qed

lemma negate_limbs_val: "int (limbs_val (negate_limbs ls)) = (- int (limbs_val ls)) mod int base ^ length ls"
proof -
  have one: "unat (1 :: u128) = 1" by simp
  have "int (limbs_val (negate_limbs ls)) = (int (limbs_val (map not ls)) + 1) mod int base ^ length ls"
    using increment_limbs_val [of 1 "map not ls"] by (simp add: negate_limbs_def one zmod_int add.commute)
  also have "int (limbs_val (map not ls)) + 1 = - int (limbs_val ls) + int base ^ length ls"
    using arg_cong [OF limbs_val_not [of ls], of int] by simp
  finally show ?thesis by simp
qed

lemma limbs_val_take_mod: "limbs_val (take n xs) = limbs_val xs mod base ^ n"
proof (cases "n \<le> length xs")
  case True
  have "limbs_val xs = limbs_val (take n xs) + base ^ n * limbs_val (drop n xs)"
    using limbs_val_append [of "take n xs" "drop n xs"] True by simp
  moreover have "limbs_val (take n xs) < base ^ n" using limbs_val_bound [of "take n xs"] True by simp
  ultimately show ?thesis by simp
next
  case False
  then have "limbs_val xs < base ^ n"
    using limbs_val_bound [of xs] power_increasing [of "length xs" n base] by (simp add: order_less_le_trans)
  with False show ?thesis by simp
qed

lemma twos_complement_limbs_val:
  "int (limbs_val (twos_complement_limbs a len)) = to_int a mod int base ^ len"
proof -
  have "min (length (limbs a)) len + (len - length (limbs a)) = len" by simp
  then show ?thesis
    by (simp add: twos_complement_limbs_def Let_def negate_limbs_val limbs_val_append limbs_val_take_mod
        to_int_def zmod_int mod_minus_eq)
qed

lemma length_twos_complement_limbs [simp]: "length (twos_complement_limbs a len) = len"
  by (simp add: twos_complement_limbs_def Let_def)

lemma int_base_power: "int base ^ n = 2 ^ (64 * n)"
  by (simp add: base_def power_mult)

lemma base_power: "base ^ n = 2 ^ (64 * n)"
  by (simp add: base_def power_mult)

lemma top_bit_iff:
  assumes "ls \<noteq> []"
  shows "drop_bit 63 (last ls) \<noteq> 0 \<longleftrightarrow> bit (limbs_val ls) (64 * length ls - 1)"
proof -
  have n: "64 * length ls - 1 = 64 * (length ls - 1) + 63" using assms by (cases ls) simp_all
  have "bit (limbs_val ls) (64 * length ls - 1) \<longleftrightarrow> bit (last ls) 63"
    unfolding bit_limbs_val n using assms by (simp add: limb_at_def last_conv_nth)
  moreover have "drop_bit 63 w \<noteq> 0 \<longleftrightarrow> bit w 63" for w :: u64
  proof
    assume "bit w 63"
    then have "bit (drop_bit 63 w) 0" by (simp add: bit_drop_bit_eq)
    then show "drop_bit 63 w \<noteq> 0" by auto
  next
    assume "drop_bit 63 w \<noteq> 0"
    then obtain k where "bit w (63 + k)" by (auto simp: bit_eq_iff bit_drop_bit_eq)
    moreover from this have "63 + k < 64" using bit_imp_le_length by fastforce
    ultimately show "bit w 63" by simp
  qed
  ultimately show ?thesis by simp
qed

lemma from_twos_complement_limbs_correct:
  assumes "ls \<noteq> []"
  shows "wf_anyint (from_twos_complement_limbs ls)"
    and "to_int (from_twos_complement_limbs ls) = signed_take_bit (64 * length ls - 1) (int (limbs_val ls))"
proof -
  define N where "N = 64 * length ls"
  define v where "v = limbs_val ls"
  have N: "0 < N" "N - 1 < N" using assms by (simp_all add: N_def)
  have v: "v < 2 ^ N" using limbs_val_bound [of ls] by (simp add: base_power N_def v_def)
  have top: "drop_bit 63 (last ls) \<noteq> 0 \<longleftrightarrow> bit v (N - 1)"
    using top_bit_iff [OF assms] by (simp add: N_def v_def)
  show "wf_anyint (from_twos_complement_limbs ls)" by (simp add: from_twos_complement_limbs_def Let_def)
  have tb: "take_bit (N - 1) (int v) = (if bit v (N - 1) then int v - 2 ^ (N - 1) else int v)"
  proof -
    have "take_bit (Suc (N - 1)) (int v) = int v" using v N by (simp add: take_bit_int_eq_self_iff)
    then show ?thesis using N unfolding take_bit_Suc_from_most [of "N - 1" "int v"] by (auto simp: bit_of_nat_iff)
  qed
  show "to_int (from_twos_complement_limbs ls) = signed_take_bit (64 * length ls - 1) (int (limbs_val ls))"
  proof (cases "bit v (N - 1)")
    case True
    then have pos: "0 < v" by (intro Nat.gr0I) auto
    have two: "(2 :: int) ^ N = 2 * 2 ^ (N - 1)" using N(1) by (simp flip: power_Suc)
    have "(- int v) mod 2 ^ N = 2 ^ N - int v"
    proof -
      have "(- int v) mod 2 ^ N = (2 ^ N - int v) mod 2 ^ N" by (simp add: mod_diff_left_eq [symmetric])
      also have "\<dots> = 2 ^ N - int v" using v pos by (intro mod_pos_pos_trivial) (simp_all add: le_less)
      finally show ?thesis .
    qed
    then have "to_int (from_twos_complement_limbs ls) = int v - 2 ^ N"
      using True top assms by (simp add: from_twos_complement_limbs_def to_int_normalize)
        (simp add: to_int_def negate_limbs_val int_base_power N_def v_def)
    also have "\<dots> = take_bit (N - 1) (int v) - 2 ^ (N - 1)" using tb True two by simp
    also have "\<dots> = signed_take_bit (N - 1) (int v)"
      using True signed_take_bit_eq_take_bit_add [of "N - 1" "int v"] by (simp add: signed_take_bit_eq_take_bit_minus take_bit_Suc_from_most bit_of_nat_iff)
    finally show ?thesis by (simp add: N_def v_def)
  next
    case False
    then have "to_int (from_twos_complement_limbs ls) = int v"
      using top by (simp add: from_twos_complement_limbs_def to_int_normalize) (simp add: to_int_def v_def)
    also have "\<dots> = signed_take_bit (N - 1) (int v)"
      using False tb by (simp add: signed_take_bit_eq_if_positive bit_of_nat_iff)
    finally show ?thesis by (simp add: N_def v_def)
  qed
qed

section \<open>Bitwise operators\<close>

lemma twos_complement_bit:
  "bit (limbs_val (twos_complement_limbs a len)) n \<longleftrightarrow> n < 64 * len \<and> bit (to_int a) n"
proof -
  have "bit (limbs_val (twos_complement_limbs a len)) n \<longleftrightarrow> bit (int (limbs_val (twos_complement_limbs a len))) n"
    by (simp add: bit_of_nat_iff)
  also have "\<dots> \<longleftrightarrow> bit (take_bit (64 * len) (to_int a)) n"
    by (simp add: twos_complement_limbs_val int_base_power take_bit_eq_mod)
  finally show ?thesis by (simp add: bit_take_bit_iff)
qed

lemma map2_bit:
  assumes "length xs = length ys" and "\<And>x y k. k < 64 \<Longrightarrow> bit (op x y) k \<longleftrightarrow> f (bit x k) (bit y k)"
    and "n < 64 * length xs"
  shows "bit (limbs_val (map2 op xs ys)) n \<longleftrightarrow> f (bit (limbs_val xs) n) (bit (limbs_val ys) n)"
proof -
  have "n div 64 < length xs" using assms(3) by (simp add: div_less_iff_less_mult mult.commute)
  with assms(1,2) show ?thesis unfolding bit_limbs_val by (simp add: limb_at_def)
qed

lemma signed_range_bit:
  assumes "wf_anyint a" and "significant_bits a < m" and "m - 1 \<le> n"
  shows "bit (to_int a) n \<longleftrightarrow> bit (to_int a) (m - 1)"
proof -
  have "significant_bits a \<le> m - 1" using assms(2) by linarith
  then have "limbs_val (limbs a) < 2 ^ (m - 1)" using significant_bits_le_iff [OF assms(1)] by blast
  then have b: "\<bar>to_int a\<bar> < 2 ^ (m - 1)" unfolding abs_to_int by (metis of_nat_less_iff of_nat_numeral of_nat_power)
  then have "signed_take_bit (m - 1) (to_int a) = to_int a"
    by (intro signed_take_bit_int_eq_self; linarith)
  then have "bit (to_int a) n \<longleftrightarrow> bit (signed_take_bit (m - 1) (to_int a)) n" by simp
  also have "\<dots> \<longleftrightarrow> bit (to_int a) (m - 1)" using assms(3) by (simp add: bit_signed_take_bit_iff min_absorb1)
  finally show ?thesis .
qed

lemma bitwise_correct:
  assumes "wf_anyint a" and "wf_anyint b"
    and op: "\<And>x y k. k < 64 \<Longrightarrow> bit (op x y) k \<longleftrightarrow> f (bit x k) (bit y k)"
    and F: "\<And>n. bit F n \<longleftrightarrow> f (bit (to_int a) n) (bit (to_int b) n)"
  shows "wf_anyint (bitwise a b op)" and "to_int (bitwise a b op) = F"
proof -
  define bits where "bits = max (significant_bits a) (significant_bits b) + 2"
  define len where "len = max (div_ceil bits 64) 1"
  define ls where "ls = map2 op (twos_complement_limbs a len) (twos_complement_limbs b len)"
  have res: "bitwise a b op = from_twos_complement_limbs ls"
    by (simp add: bitwise_def Let_def bits_def len_def ls_def)
  have len: "length ls = len" "0 < len" by (simp_all add: ls_def len_def)
  then have ne: "ls \<noteq> []" by auto
  have "bits \<le> 64 * len" using div_ceil_mult_ge [of 64 bits] by (simp add: len_def max_def)
  then have sig: "significant_bits a < 64 * len" "significant_bits b < 64 * len" by (simp_all add: bits_def)
  note r = from_twos_complement_limbs_correct [OF ne, folded res, unfolded len(1)]
  show "wf_anyint (bitwise a b op)" by (rule r(1))
  have low: "bit (limbs_val ls) n \<longleftrightarrow> bit F n" if "n < 64 * len" for n
    using map2_bit [of "twos_complement_limbs a len" "twos_complement_limbs b len" op f n] op that
    by (simp add: ls_def F twos_complement_bit)
  have high: "bit F n \<longleftrightarrow> bit F (64 * len - 1)" if "64 * len - 1 \<le> n" for n
    unfolding F using signed_range_bit [OF assms(1) sig(1) that] signed_range_bit [OF assms(2) sig(2) that] by simp
  show "to_int (bitwise a b op) = F"
  proof (rule bit_eqI)
    fix n
    have "bit (to_int (bitwise a b op)) n \<longleftrightarrow> bit (limbs_val ls) (min (64 * len - 1) n)"
      unfolding r(2) by (simp add: bit_signed_take_bit_iff bit_of_nat_iff)
    also have "\<dots> \<longleftrightarrow> bit F (min (64 * len - 1) n)" using len(2) by (intro low) linarith
    also have "\<dots> \<longleftrightarrow> bit F n"
      using high [of n] by (cases "64 * len - 1 \<le> n") (simp_all add: min_absorb1 min_absorb2)
    finally show "bit (to_int (bitwise a b op)) n \<longleftrightarrow> bit F n" .
  qed
qed

lemma bitand_correct:
  assumes "wf_anyint a" and "wf_anyint b"
  shows "wf_anyint (bitand a b)" and "to_int (bitand a b) = to_int a AND to_int b"
  using bitwise_correct [OF assms, of "\<lambda>l r. l AND r" "(\<and>)" "to_int a AND to_int b"]
  by (simp_all add: bitand_def bit_and_iff)

lemma bitor_correct:
  assumes "wf_anyint a" and "wf_anyint b"
  shows "wf_anyint (bitor a b)" and "to_int (bitor a b) = to_int a OR to_int b"
  using bitwise_correct [OF assms, of "\<lambda>l r. l OR r" "(\<or>)" "to_int a OR to_int b"]
  by (simp_all add: bitor_def bit_or_iff)

lemma bitxor_correct:
  assumes "wf_anyint a" and "wf_anyint b"
  shows "wf_anyint (bitxor a b)" and "to_int (bitxor a b) = to_int a XOR to_int b"
  using bitwise_correct [OF assms, of "\<lambda>l r. l XOR r" "(\<noteq>)" "to_int a XOR to_int b"]
  by (simp_all add: bitxor_def bit_xor_iff)

lemma anyint_not_correct:
  assumes "wf_anyint a"
  shows "wf_anyint (anyint_not a)" and "to_int (anyint_not a) = not (to_int a)"
  using assms by (simp_all add: anyint_not_def wf_intros to_int_simps not_eq_complement)

end
