(* ===== verification/Vif_Int.thy ===== *)
theory Vif_Int
  imports Vif_Anyint_Bitwise
begin

text \<open>
  The interface through which the rest of the compiler uses \<^verbatim>\<open>Anyint\<close>: an exact ring
  (\<open>exact_ring\<close>), and on top of it truncating division, shifts and a total order
  (\<open>exact_integers\<close>). The algebraic laws are proved once from the interface; the
  interpretations discharge its assumptions for the limb-vector operations of
  \<^verbatim>\<open>src/int.rs\<close>. The properties of the component follow.
\<close>

section \<open>Interfaces\<close>

lemma bit_nat_half_range:
  assumes "0 \<le> (x :: int)" and "x < 2 ^ Suc k"
  shows "bit x k \<longleftrightarrow> 2 ^ k \<le> x"
proof -
  have "take_bit (Suc k) x = x" using assms by (simp add: take_bit_int_eq_self)
  then have x: "x = 2 ^ k * of_bool (bit x k) + take_bit k x" using take_bit_Suc_from_most [of k x] by (simp only:)
  have "0 \<le> take_bit k x" and "take_bit k x < 2 ^ k" by simp_all
  moreover from x have "if bit x k then x = 2 ^ k + take_bit k x else x = take_bit k x" by (cases "bit x k") simp_all
  ultimately have "if bit x k then 2 ^ k \<le> x else x < 2 ^ k" by (simp split: if_splits; linarith)
  then show ?thesis by (simp add: not_le split: if_splits)
qed

locale exact_ring =
  fixes wf :: "'a \<Rightarrow> bool" and val :: "'a \<Rightarrow> int"
    and plus minus :: "'a \<Rightarrow> 'a \<Rightarrow> 'a" and negate :: "'a \<Rightarrow> 'a"
    and times :: "'a \<Rightarrow> 'a \<Rightarrow> 'a outcome"
  assumes canonical: "wf a \<Longrightarrow> wf b \<Longrightarrow> val a = val b \<Longrightarrow> a = b"
    and plus_law: "wf a \<Longrightarrow> wf b \<Longrightarrow> wf (plus a b) \<and> val (plus a b) = val a + val b"
    and minus_law: "wf a \<Longrightarrow> wf b \<Longrightarrow> wf (minus a b) \<and> val (minus a b) = val a - val b"
    and negate_law: "wf a \<Longrightarrow> wf (negate a) \<and> val (negate a) = - val a"
    and times_law: "wf a \<Longrightarrow> wf b \<Longrightarrow> \<exists>p. times a b = Returns p \<and> wf p \<and> val p = val a * val b"
begin

lemma plus_commute: "wf a \<Longrightarrow> wf b \<Longrightarrow> plus a b = plus b a"
  by (rule canonical) (simp_all add: plus_law)

lemma plus_assoc: "wf a \<Longrightarrow> wf b \<Longrightarrow> wf c \<Longrightarrow> plus (plus a b) c = plus a (plus b c)"
  by (rule canonical) (simp_all add: plus_law)

lemma minus_plus: "wf a \<Longrightarrow> wf b \<Longrightarrow> minus (plus a b) b = a"
  by (rule canonical) (simp_all add: plus_law minus_law)

lemma minus_negate: "wf a \<Longrightarrow> wf b \<Longrightarrow> minus a b = plus a (negate b)"
  by (rule canonical) (simp_all add: plus_law minus_law negate_law)

lemma times_commute: "wf a \<Longrightarrow> wf b \<Longrightarrow> times a b = times b a"
  using times_law [of a b] times_law [of b a] by (metis canonical mult.commute)

lemma times_plus:
  assumes "wf a" and "wf b" and "wf c"
  shows "times a (plus b c) = bind_outcome (times a b) (\<lambda>x. bind_outcome (times a c) (\<lambda>y. Returns (plus x y)))"
proof -
  obtain x y z where x: "times a b = Returns x" "wf x" "val x = val a * val b"
    and y: "times a c = Returns y" "wf y" "val y = val a * val c"
    and z: "times a (plus b c) = Returns z" "wf z" "val z = val a * (val b + val c)"
    using times_law assms plus_law by metis
  have "z = plus x y" using x y z plus_law by (intro canonical) (auto simp: distrib_left)
  with x y z show ?thesis by simp
qed

end

locale exact_integers = exact_ring +
  fixes quo rm :: "'a \<Rightarrow> 'a \<Rightarrow> 'a outcome" and shift_left shift_right :: "'a \<Rightarrow> nat \<Rightarrow> 'a"
    and compare :: "'a \<Rightarrow> 'a \<Rightarrow> ordering" and one :: 'a
  assumes quo_law: "wf a \<Longrightarrow> wf b \<Longrightarrow> val b \<noteq> 0 \<Longrightarrow> \<exists>q. quo a b = Returns q \<and> wf q \<and> val q = val a sdiv val b"
    and rm_law: "wf a \<Longrightarrow> wf b \<Longrightarrow> val b \<noteq> 0 \<Longrightarrow> \<exists>r. rm a b = Returns r \<and> wf r \<and> val r = val a smod val b"
    and div_zero: "wf a \<Longrightarrow> wf b \<Longrightarrow> val b = 0 \<Longrightarrow> quo a b = Panics \<and> rm a b = Panics"
    and shift_left_law: "wf a \<Longrightarrow> wf (shift_left a n) \<and> val (shift_left a n) = val a * 2 ^ n"
    and shift_right_law: "wf a \<Longrightarrow> wf (shift_right a n) \<and> val (shift_right a n) = val a div 2 ^ n"
    and compare_law: "wf a \<Longrightarrow> wf b \<Longrightarrow> compare a b = cmp (val a) (val b)"
    and one_law: "wf one \<and> val one = 1"
begin

text \<open>The quotient and the remainder recompose the dividend.\<close>

lemma quo_rm:
  assumes "wf a" and "wf b" and "val b \<noteq> 0"
  obtains q r p where "quo a b = Returns q" and "rm a b = Returns r" and "times q b = Returns p" and "plus p r = a"
    and "\<bar>val r\<bar> < \<bar>val b\<bar>" and "val r = 0 \<or> sgn (val r) = sgn (val a)"
proof -
  obtain q r where q: "quo a b = Returns q" "wf q" "val q = val a sdiv val b"
    and r: "rm a b = Returns r" "wf r" "val r = val a smod val b"
    using quo_law [OF assms] rm_law [OF assms] by blast
  obtain p where p: "times q b = Returns p" "wf p" "val p = val q * val b" using times_law [OF q(2) assms(2)] by blast
  have "plus p r = a"
    using plus_law [OF p(2) r(2)] p q r assms(1) by (intro canonical) (auto simp: sdiv_mult_smod_eq)
  moreover have "\<bar>val r\<bar> < \<bar>val b\<bar>" using assms(3) by (simp add: r(3) smod_int_alt_def abs_mult sgn_if)
  moreover have "val r = 0 \<or> sgn (val r) = sgn (val a)"
  proof -
    have "0 \<le> \<bar>val a\<bar> mod \<bar>val b\<bar>" using assms(3) by simp
    then show ?thesis by (auto simp: r(3) smod_int_alt_def sgn_mult sgn_if)
  qed
  ultimately show ?thesis using that q(1) r(1) p(1) by blast
qed

lemma shift_right_left: "wf a \<Longrightarrow> shift_right (shift_left a n) n = a"
  by (rule canonical) (simp_all add: shift_left_law shift_right_law)

lemma compare_Equal: "wf a \<Longrightarrow> wf b \<Longrightarrow> compare a b = Equal \<longleftrightarrow> a = b"
  using compare_law canonical by auto

text \<open>
  Reducing an integer to a width: the remainder by \<open>2 ^ n\<close> is moved into \<open>[0, 2 ^ n)\<close>, and for a
  signed type the upper half of that range stands for the negative numbers.
\<close>

lemma unsigned_wrap:
  assumes "wf a" and "rm a (shift_left one n) = Returns w"
  shows "wf (if val w < 0 then plus w (shift_left one n) else w)"
    and "val (if val w < 0 then plus w (shift_left one n) else w) = val a mod 2 ^ n"
proof -
  let ?m = "shift_left one n"
  have m: "wf ?m" "val ?m = 2 ^ n" using shift_left_law one_law by simp_all
  have w: "wf w" "val w = val a smod 2 ^ n" using rm_law [OF assms(1) m(1)] assms(2) m(2) by auto
  have "val w + (if val w < 0 then 2 ^ n else 0) = val a mod 2 ^ n"
  proof (cases "val a < 0")
    case True
    then have v: "val w = - ((- val a) mod 2 ^ n)" by (simp add: w(2) smod_int_alt_def)
    moreover have "0 \<le> (- val a) mod 2 ^ n" by simp
    ultimately show ?thesis by (auto simp: zmod_zminus1_eq_if)
  next
    case False
    moreover have "0 \<le> val a mod 2 ^ n" by simp
    ultimately show ?thesis by (auto simp: w(2) smod_int_alt_def sgn_if not_less)
  qed
  then show "val (if val w < 0 then plus w ?m else w) = val a mod 2 ^ n"
    using plus_law [OF w(1) m(1)] m(2) by auto
  show "wf (if val w < 0 then plus w ?m else w)" using plus_law w(1) m(1) by simp
qed

lemma signed_wrap:
  assumes "wf u" and "val u = v mod 2 ^ n" and "0 < n"
  shows "wf (if compare u (shift_left one (n - 1)) \<noteq> Less then minus u (shift_left one n) else u)"
    and "val (if compare u (shift_left one (n - 1)) \<noteq> Less then minus u (shift_left one n) else u)
      = signed_take_bit (n - 1) v"
proof -
  have m: "wf (shift_left one k)" "val (shift_left one k) = 2 ^ k" for k using shift_left_law one_law by simp_all
  have n: "Suc (n - 1) = n" using assms(3) by simp
  have "(2 :: int) ^ n = 2 * 2 ^ (n - 1)" using assms(3) by (simp flip: power_Suc)
  moreover have "signed_take_bit (n - 1) v = take_bit n v - (if 2 ^ (n - 1) \<le> take_bit n v then 2 ^ n else 0)"
  proof -
    have b: "bit v (n - 1) \<longleftrightarrow> 2 ^ (n - 1) \<le> take_bit n v"
      using assms(3) bit_take_bit_iff [of n v "n - 1"] bit_nat_half_range [of "take_bit n v" "n - 1"] n by simp
    then show ?thesis unfolding signed_take_bit_eq_take_bit_minus n by simp
  qed
  ultimately show "val (if compare u (shift_left one (n - 1)) \<noteq> Less then minus u (shift_left one n) else u)
      = signed_take_bit (n - 1) v"
    using compare_law [OF assms(1) m(1)] minus_law [OF assms(1) m(1)] assms(2) m(2) by (simp add: take_bit_eq_mod not_less)
  show "wf (if compare u (shift_left one (n - 1)) \<noteq> Less then minus u (shift_left one n) else u)"
    using minus_law assms(1) m(1) by simp
qed

end

section \<open>The interfaces on \<^verbatim>\<open>Anyint\<close>\<close>

interpretation ring: exact_ring wf_anyint to_int add sub neg mul
  by unfold_locales (auto simp: wf_intros to_int_simps intro: to_int_inj mul_correct)

interpretation ints: exact_integers wf_anyint to_int add sub neg mul anyint_div anyint_rem shl shr anyint_cmp "from_u64 1"
proof unfold_locales
  fix a b assume "wf_anyint a" and "wf_anyint b"
  note d = anyint_div_correct [OF this] anyint_rem_correct [OF this]
  show "\<exists>q. anyint_div a b = Returns q \<and> wf_anyint q \<and> to_int q = to_int a sdiv to_int b" if "to_int b \<noteq> 0"
    using d that by simp
  show "\<exists>r. anyint_rem a b = Returns r \<and> wf_anyint r \<and> to_int r = to_int a smod to_int b" if "to_int b \<noteq> 0"
    using d that by simp
  show "anyint_div a b = Panics \<and> anyint_rem a b = Panics" if "to_int b = 0" using d that by simp
qed (simp_all add: to_int_shl shr_correct anyint_cmp_correct wf_intros to_int_simps)

lemma to_u64_from_u64: "to_u64 (from_u64 x) = Some x"
  by (simp add: from_u64_def normalize_def to_u64_def Let_def pop_zeros.simps [of "[x]"] pop_zeros.simps [of "[]"])

text \<open>Evaluation of well-formedness and value on literal limb vectors.\<close>

lemma anyint_literal:
  "wf_anyint \<lparr>negative = s, limbs = ls\<rparr> \<longleftrightarrow> (ls = [] \<or> last ls \<noteq> 0) \<and> (ls = [] \<longrightarrow> \<not> s)"
  "to_int \<lparr>negative = s, limbs = ls\<rparr> = (if s then - int (limbs_val ls) else int (limbs_val ls))"
  "base = 18446744073709551616"
  by (simp_all add: wf_anyint_def no_high_zero_def to_int_def base_def)

section \<open>Properties\<close>
text \<open>
  C20: Addition, subtraction, multiplication and negation of \<^verbatim>\<open>Anyint\<close> are exact on well-formed values: no
  call panics (the carry loop of \<^verbatim>\<open>Mul\<close> stays inside its buffer), the limb vectors compute the ring
  operations of the integers, and every result is in normal form.
\<close>

theorem anyint_ring_exact:
  assumes "wf_anyint a" and "wf_anyint b"
  shows "wf_anyint (add a b) \<and> to_int (add a b) = to_int a + to_int b
    \<and> wf_anyint (sub a b) \<and> to_int (sub a b) = to_int a - to_int b
    \<and> wf_anyint (neg a) \<and> to_int (neg a) = - to_int a
    \<and> (\<exists>p. mul a b = Returns p \<and> wf_anyint p \<and> to_int p = to_int a * to_int b)"
  using ring.plus_law [OF assms] ring.minus_law [OF assms] ring.negate_law [OF assms(1)] ring.times_law [OF assms] by simp

theorem anyint_ring_exact_witness:
  "\<exists>p. mul \<lparr>negative = True, limbs = [0, 1]\<rparr> \<lparr>negative = False, limbs = [0, 1]\<rparr> = Returns p \<and> to_int p = - (2 ^ 128)"
  using anyint_ring_exact [of "\<lparr>negative = True, limbs = [0, 1]\<rparr>" "\<lparr>negative = False, limbs = [0, 1]\<rparr>"]
  by (auto simp: anyint_literal)

text \<open>
  C21: Division and remainder panic exactly for a zero divisor, as their \<^verbatim>\<open>assert!\<close> says; otherwise both
  return, the quotient is the one truncated towards zero, the remainder takes the sign of the
  dividend and is smaller than the divisor, and quotient times divisor plus remainder, computed
  with the operators of \<^verbatim>\<open>Anyint\<close>, is the dividend again.
\<close>

theorem anyint_division:
  assumes "wf_anyint a" and "wf_anyint b"
  shows "if to_int b = 0 then anyint_div a b = Panics \<and> anyint_rem a b = Panics
    else \<exists>q r p. anyint_div a b = Returns q \<and> anyint_rem a b = Returns r \<and> mul q b = Returns p \<and> add p r = a
      \<and> to_int q = to_int a sdiv to_int b \<and> \<bar>to_int r\<bar> < \<bar>to_int b\<bar>
      \<and> (to_int r = 0 \<or> sgn (to_int r) = sgn (to_int a))"
proof (cases "to_int b = 0")
  case True
  then show ?thesis using ints.div_zero [OF assms] by simp
next
  case False
  show ?thesis using ints.quo_law [OF assms False] by (rule_tac ints.quo_rm [OF assms False]) (auto simp: False)
qed

theorem anyint_division_witness:
  "\<exists>q r p. anyint_div \<lparr>negative = True, limbs = [7]\<rparr> \<lparr>negative = False, limbs = [0, 3]\<rparr> = Returns q
     \<and> anyint_rem \<lparr>negative = True, limbs = [7]\<rparr> \<lparr>negative = False, limbs = [0, 3]\<rparr> = Returns r
     \<and> mul q \<lparr>negative = False, limbs = [0, 3]\<rparr> = Returns p \<and> add p r = \<lparr>negative = True, limbs = [7]\<rparr>"
  using anyint_division [of "\<lparr>negative = True, limbs = [7]\<rparr>" "\<lparr>negative = False, limbs = [0, 3]\<rparr>"]
  by (auto simp: anyint_literal)

text \<open>
  C22: The bitwise operators are those of the infinite two's-complement view of the integers, for
  every combination of signs: the limb count the code computes from the significant bits of both
  operands is large enough for the conversion there and back.
\<close>

theorem anyint_bitwise_twos_complement:
  assumes "wf_anyint a" and "wf_anyint b"
  shows "wf_anyint (bitand a b) \<and> to_int (bitand a b) = to_int a AND to_int b
    \<and> wf_anyint (bitor a b) \<and> to_int (bitor a b) = to_int a OR to_int b
    \<and> wf_anyint (bitxor a b) \<and> to_int (bitxor a b) = to_int a XOR to_int b
    \<and> wf_anyint (anyint_not a) \<and> to_int (anyint_not a) = not (to_int a)"
  using bitand_correct [OF assms] bitor_correct [OF assms] bitxor_correct [OF assms] anyint_not_correct [OF assms(1)] by simp

theorem anyint_bitwise_twos_complement_witness:
  "to_int (bitand \<lparr>negative = True, limbs = [1]\<rparr> \<lparr>negative = False, limbs = [5, 9]\<rparr>) = 5 + 9 * 2 ^ 64"
  using anyint_bitwise_twos_complement [of "\<lparr>negative = True, limbs = [1]\<rparr>" "\<lparr>negative = False, limbs = [5, 9]\<rparr>"]
  by (simp add: anyint_literal)

text \<open>
  A left shift multiplies by a power of two and a right shift is the arithmetic one (it rounds
  towards minus infinity, also for negative numbers); shifting left and back is the identity.
\<close>

theorem anyint_shifts:
  assumes "wf_anyint a"
  shows "wf_anyint (shl a n) \<and> to_int (shl a n) = to_int a * 2 ^ n
    \<and> wf_anyint (shr a n) \<and> to_int (shr a n) = to_int a div 2 ^ n \<and> shr (shl a n) n = a"
  using ints.shift_left_law ints.shift_right_law ints.shift_right_left assms by blast

theorem anyint_shifts_witness: "to_int (shr \<lparr>negative = True, limbs = [5]\<rparr> 1) = - 3"
  using anyint_shifts [of "\<lparr>negative = True, limbs = [5]\<rparr>" 1]
  by (simp add: anyint_literal)

text \<open>
  On well-formed values \<^verbatim>\<open>Ord::cmp\<close> is the order of the integers and the structural
  \<^verbatim>\<open>PartialEq\<close> is equality of the numbers, so a value has one representation only.
\<close>

theorem anyint_order:
  assumes "wf_anyint a" and "wf_anyint b"
  shows "anyint_cmp a b = cmp (to_int a) (to_int b)
    \<and> (anyint_eq a b \<longleftrightarrow> to_int a = to_int b) \<and> (anyint_cmp a b = Equal \<longleftrightarrow> a = b)"
  using ints.compare_law [OF assms] ints.compare_Equal [OF assms] anyint_eq_correct [OF assms] by simp

theorem anyint_order_witness:
  "anyint_cmp \<lparr>negative = True, limbs = [1, 1]\<rparr> \<lparr>negative = True, limbs = [9]\<rparr> = Less"
  using anyint_order [of "\<lparr>negative = True, limbs = [1, 1]\<rparr>" "\<lparr>negative = True, limbs = [9]\<rparr>"]
  by (simp add: anyint_literal cmp_def)

text \<open>
  \<^verbatim>\<open>fits_unsigned_bits\<close> and \<^verbatim>\<open>fits_signed_bits\<close> decide membership in the range of the
  unsigned and of the two's-complement type of that width, the most negative value included.
\<close>

theorem anyint_fits_bits:
  assumes "wf_anyint a" and "0 < bits"
  shows "(fits_unsigned_bits a bits \<longleftrightarrow> to_int a \<in> {0 ..< 2 ^ unat bits})
    \<and> fits_signed_bits a bits = Returns (to_int a \<in> {- (2 ^ (unat bits - 1)) ..< 2 ^ (unat bits - 1)})"
  using fits_unsigned_bits_correct [OF assms(1)] fits_signed_bits_correct [OF assms] by simp

theorem anyint_fits_bits_witness: "fits_signed_bits \<lparr>negative = True, limbs = [128]\<rparr> 8 = Returns True"
  using anyint_fits_bits [of "\<lparr>negative = True, limbs = [128]\<rparr>" 8]
  by (simp add: anyint_literal)

text \<open>
  Parsing the digits of an integer literal in a radix from 2 to 36 returns the number the digits
  denote (underscores ignored), and rejects exactly the strings with a byte that is not a digit of
  the radix.
\<close>

theorem parse_radix_correct:
  assumes "2 \<le> radix" and "radix \<le> 36"
  shows "\<exists>r. parse_radix radix s = Returns r \<and> map_option to_int r = map_option int (digits_meaning radix s 0)
    \<and> (\<forall>a. r = Some a \<longrightarrow> wf_anyint a)"
proof -
  obtain r where r: "parse_radix radix s = Returns r"
    and rel: "rel_option (\<lambda>a n. wf_anyint a \<and> to_int a = int n) r (digits_meaning radix s 0)"
    using parse_radix_meaning [OF assms] by blast
  from rel have "map_option to_int r = map_option int (digits_meaning radix s 0) \<and> (\<forall>a. r = Some a \<longrightarrow> wf_anyint a)"
    by cases simp_all
  with r show ?thesis by blast
qed

theorem parse_radix_correct_witness:
  "\<exists>r. parse_radix 16 ''ff_FF'' = Returns r \<and> map_option to_int r = Some 65535"
  using parse_radix_correct [of 16 "''ff_FF''"] by (auto simp: digit_of_def)



text \<open>
  The conversions from machine integers are exact and in normal form for every input, the most
  negative \<^verbatim>\<open>i128\<close> included, and \<^verbatim>\<open>to_u64\<close> inverts the one from \<^verbatim>\<open>u64\<close>.
\<close>

theorem anyint_conversions:
  "wf_anyint (from_u64 x) \<and> to_int (from_u64 x) = uint x \<and> to_u64 (from_u64 x) = Some x
   \<and> wf_anyint (from_u128 y) \<and> to_int (from_u128 y) = uint y
   \<and> wf_anyint (from_i128 z) \<and> to_int (from_i128 z) = sint z"
  using from_u128_correct [of y] from_i128_correct [of z] from_u64_correct [of x] wf_from_u64 [of x] to_u64_from_u64 [of x]
  by simp

end
