(* ===== verification/Vif_Span.thy ===== *)
theory Vif_Span
  imports Vif_Prelude
begin

text \<open>
  Positions in the source text: \<^verbatim>\<open>NonMaxU32\<close> (\<^verbatim>\<open>src/common/non_max_u32.rs\<close>), \<^verbatim>\<open>Span\<close>
  (\<^verbatim>\<open>src/common/span.rs\<close>) with joining, ordering, slicing and the computation of line and column,
  and the byte-search functions of the \<^verbatim>\<open>memx\<close> crate that the span and the lexer call.
\<close>

section \<open>The byte-search crate\<close>

text \<open>
  \<^verbatim>\<open>memx\<close> is a dependency whose code is not part of the repository: its functions are the fields of
  a record that the definitions take as an argument, and \<open>memx_ok\<close> is their documented behaviour,
  the position of the first byte that is one of the needles (or, for \<^verbatim>\<open>memnechr_qpl\<close>, none of them).
\<close>

record memx =
  memchr :: "byte list \<Rightarrow> byte \<Rightarrow> nat option"
  memchr_dbl :: "byte list \<Rightarrow> byte \<Rightarrow> byte \<Rightarrow> nat option"
  memchr_tpl :: "byte list \<Rightarrow> byte \<Rightarrow> byte \<Rightarrow> byte \<Rightarrow> nat option"
  memnechr_qpl :: "byte list \<Rightarrow> byte \<Rightarrow> byte \<Rightarrow> byte \<Rightarrow> byte \<Rightarrow> nat option"

definition memx_ok :: "memx \<Rightarrow> bool" where
  "memx_ok M \<longleftrightarrow>
     (\<forall>bs a. memchr M bs a = find_index (\<lambda>x. x = a) bs) \<and>
     (\<forall>bs a b. memchr_dbl M bs a b = find_index (\<lambda>x. x = a \<or> x = b) bs) \<and>
     (\<forall>bs a b c. memchr_tpl M bs a b c = find_index (\<lambda>x. x = a \<or> x = b \<or> x = c) bs) \<and>
     (\<forall>bs a b c d. memnechr_qpl M bs a b c d = find_index (\<lambda>x. \<not> (x = a \<or> x = b \<or> x = c \<or> x = d)) bs)"

definition memx_scan :: memx where
  "memx_scan = \<lparr>memchr = (\<lambda>bs a. find_index (\<lambda>x. x = a) bs),
     memchr_dbl = (\<lambda>bs a b. find_index (\<lambda>x. x = a \<or> x = b) bs),
     memchr_tpl = (\<lambda>bs a b c. find_index (\<lambda>x. x = a \<or> x = b \<or> x = c) bs),
     memnechr_qpl = (\<lambda>bs a b c d. find_index (\<lambda>x. \<not> (x = a \<or> x = b \<or> x = c \<or> x = d)) bs)\<rparr>"

lemma memx_scan_ok [simp]: "memx_ok memx_scan"
  by (simp add: memx_ok_def memx_scan_def)

section \<open>\<^verbatim>\<open>NonMaxU32\<close>\<close>

text \<open>
  A 32-bit number other than the greatest one. \<^verbatim>\<open>assume!\<close> panics in a debug build and is undefined
  behaviour in a release build; both are the outcome \<open>Panics\<close>.
\<close>

type_synonym non_max_u32 = u32

definition from_u32 :: "u32 \<Rightarrow> non_max_u32 outcome" where
  "from_u32 index = (if index \<le> 0xfffffffe then Returns index else Panics)"

definition as_usize :: "non_max_u32 \<Rightarrow> nat" where
  "as_usize x = unat x"

definition from_usize :: "nat \<Rightarrow> non_max_u32 outcome" where
  "from_usize value = from_u32 (of_nat value)"

definition non_max_add_assign :: "non_max_u32 \<Rightarrow> u32 \<Rightarrow> non_max_u32 outcome" where
  "non_max_add_assign x rhs = (if unat x + unat rhs < 2 ^ 32 - 1 then Returns (x + rhs) else Panics)"

definition non_max_sub :: "non_max_u32 \<Rightarrow> non_max_u32 \<Rightarrow> non_max_u32 outcome" where
  "non_max_sub x rhs = (if rhs \<le> x then from_u32 (x - rhs) else Panics)"

section \<open>\<^verbatim>\<open>Span\<close>\<close>

record span =
  span_start_at :: non_max_u32
  span_end_at :: non_max_u32

definition span_new :: "nat \<Rightarrow> nat \<Rightarrow> span outcome" where
  "span_new s e =
     bind_outcome (from_usize s) (\<lambda>s'. bind_outcome (from_usize e) (\<lambda>e'.
       Returns \<lparr>span_start_at = s', span_end_at = e'\<rparr>))"

definition span_start :: "span \<Rightarrow> nat" where
  "span_start s = as_usize (span_start_at s)"

definition span_end :: "span \<Rightarrow> nat" where
  "span_end s = as_usize (span_end_at s)"

definition span_len :: "span \<Rightarrow> nat outcome" where
  "span_len s = (if span_start s \<le> span_end s then Returns (span_end s - span_start s) else Panics)"

definition span_default :: span where
  "span_default = \<lparr>span_start_at = 0, span_end_at = 0\<rparr>"

text \<open>The derived order compares the start first.\<close>

definition span_cmp :: "span \<Rightarrow> span \<Rightarrow> ordering" where
  "span_cmp a b =
     (case cmp (span_start_at a) (span_start_at b) of
        Equal \<Rightarrow> cmp (span_end_at a) (span_end_at b)
      | ord \<Rightarrow> ord)"

text \<open>\<^verbatim>\<open>From<(Span, Span)>\<close>.\<close>

definition span_join :: "span \<Rightarrow> span \<Rightarrow> span" where
  "span_join lhs rhs =
     \<lparr>span_start_at = (if span_start_at rhs < span_start_at lhs then span_start_at rhs else span_start_at lhs),
      span_end_at = (if span_end_at lhs > span_end_at rhs then span_end_at lhs else span_end_at rhs)\<rparr>"

text \<open>\<^verbatim>\<open>&bytes[a..b]\<close> panics unless \<^verbatim>\<open>a <= b <= bytes.len()\<close>.\<close>

definition slice :: "'a list \<Rightarrow> nat \<Rightarrow> nat \<Rightarrow> 'a list outcome" where
  "slice xs a b = (if a \<le> b \<and> b \<le> length xs then Returns (drop a (take b xs)) else Panics)"

definition span_index :: "byte list \<Rightarrow> span \<Rightarrow> byte list outcome" where
  "span_index bytes s = slice bytes (span_start s) (span_end s)"

text \<open>
  The loop of \<^verbatim>\<open>line_col\<close>. It ends for every \<^verbatim>\<open>memchr\<close>: a position that is returned moves
  \<^verbatim>\<open>slice_offset\<close> forward, and past \<^verbatim>\<open>offset\<close> the slice panics.
\<close>

function line_col_loop :: "memx \<Rightarrow> byte list \<Rightarrow> nat \<Rightarrow> nat \<Rightarrow> nat \<Rightarrow> (nat \<times> nat) outcome" where
  "line_col_loop M bytes offset slice_offset line =
     (if slice_offset \<le> offset \<and> offset \<le> length bytes
      then case memchr M (drop slice_offset (take offset bytes)) (CHR 0x0A) of
             Some pos \<Rightarrow> line_col_loop M bytes offset (slice_offset + pos + 1) (line + 1)
           | None \<Rightarrow> Returns (line, offset - slice_offset)
      else Panics)"
  by pat_completeness auto
termination
  by (relation "measure (\<lambda>(_, _, offset, slice_offset, _). Suc offset - slice_offset)") auto

declare line_col_loop.simps [simp del]

definition line_col :: "memx \<Rightarrow> byte list \<Rightarrow> nat \<Rightarrow> (nat \<times> nat) outcome" where
  "line_col M str offset = line_col_loop M str offset 0 1"

definition start_line_col :: "memx \<Rightarrow> span \<Rightarrow> byte list \<Rightarrow> (nat \<times> nat) outcome" where
  "start_line_col M s str = line_col M str (span_start s)"

definition end_line_col :: "memx \<Rightarrow> span \<Rightarrow> byte list \<Rightarrow> (nat \<times> nat) outcome" where
  "end_line_col M s str = line_col M str (span_end s)"

section \<open>Laws\<close>

lemma from_usize_exact: "n < 2 ^ 32 - 1 \<Longrightarrow> \<exists>x. from_usize n = Returns x \<and> as_usize x = n"
proof -
  assume n: "n < 2 ^ 32 - 1"
  then have u: "unat (of_nat n :: u32) = n" by (simp add: unat_of_nat)
  with n have "(of_nat n :: u32) \<le> 0xfffffffe" by (simp add: word_le_nat_alt)
  with u show ?thesis by (simp add: from_usize_def from_u32_def as_usize_def)
qed

lemma span_new_exact:
  assumes "s < 2 ^ 32 - 1" and "e < 2 ^ 32 - 1"
  obtains x where "span_new s e = Returns x" and "span_start x = s" and "span_end x = e"
  using from_usize_exact [OF assms(1)] from_usize_exact [OF assms(2)]
  by (auto simp: span_new_def span_start_def span_end_def)

lemma span_join_bounds:
  "span_start (span_join a b) = min (span_start a) (span_start b)"
  "span_end (span_join a b) = max (span_end a) (span_end b)"
  by (auto simp: span_join_def span_start_def span_end_def as_usize_def min_def max_def word_le_nat_alt word_less_nat_alt)

lemma span_join_commute: "span_join a b = span_join b a"
  by (auto simp: span_join_def)

lemma span_join_assoc: "span_join (span_join a b) c = span_join a (span_join b c)"
  by (auto simp: span_join_def)

lemma span_cmp_Equal_iff: "span_cmp a b = Equal \<longleftrightarrow> a = b"
  by (auto simp: span_cmp_def split: ordering.splits)

text \<open>Lines and columns, as their specification: the newlines before the offset, and the bytes since the last one.\<close>

definition line_of :: "byte list \<Rightarrow> nat \<Rightarrow> nat" where
  "line_of bytes offset = 1 + count_list (take offset bytes) (CHR 0x0A)"

definition col_of :: "byte list \<Rightarrow> nat \<Rightarrow> nat" where
  "col_of bytes offset = length (takeWhile (\<lambda>x. x \<noteq> CHR 0x0A) (rev (take offset bytes)))"

lemma takeWhile_rev_append:
  "P x \<Longrightarrow> \<forall>y \<in> set ys. \<not> P y \<Longrightarrow> takeWhile (\<lambda>y. \<not> P y) (rev (xs @ x # ys)) = rev ys"
  by (simp add: takeWhile_append)

lemma count_list_take_find:
  assumes "find_index (\<lambda>x. x = a) xs = Some p"
  shows "count_list (take p xs) a = 0" and "xs = take p xs @ a # drop (Suc p) xs"
proof -
  from find_index_SomeD [OF assms] have p: "p < length xs" "xs ! p = a" "\<forall>j < p. xs ! j \<noteq> a" by auto
  then show "xs = take p xs @ a # drop (Suc p) xs" by (metis id_take_nth_drop)
  from p have "a \<notin> set (take p xs)" by (auto simp: in_set_conv_nth)
  then show "count_list (take p xs) a = 0" by (simp add: count_list_0_iff)
qed

lemma line_col_loop_correct:
  assumes "memx_ok M" and "offset \<le> length bytes"
  shows "so \<le> offset \<Longrightarrow> so = 0 \<or> bytes ! (so - 1) = CHR 0x0A \<Longrightarrow>
    line = 1 + count_list (take so bytes) (CHR 0x0A) \<Longrightarrow>
    line_col_loop M bytes offset so line = Returns (line_of bytes offset, col_of bytes offset)"
proof (induction "offset - so" arbitrary: so line rule: less_induct)
  case less
  let ?nl = "CHR 0x0A"
  let ?rest = "drop so (take offset bytes)"
  have mc: "memchr M xs ?nl = find_index (\<lambda>x. x = ?nl) xs" for xs using assms(1) by (simp add: memx_ok_def)
  have split: "take offset bytes = take so bytes @ ?rest"
    using less.prems(1) by (metis append_take_drop_id min.absorb1 take_take)
  show ?case
  proof (cases "find_index (\<lambda>x. x = ?nl) ?rest")
    case None
    then have no: "?nl \<notin> set ?rest" by (auto simp: find_index_None_iff)
    have len: "length ?rest = offset - so" using assms(2) by simp
    have "takeWhile (\<lambda>x. x \<noteq> ?nl) (rev (take offset bytes)) = rev ?rest"
    proof (cases "so = 0")
      case True
      then show ?thesis using no split by (auto simp: takeWhile_eq_all_conv)
    next
      case False
      then have "take so bytes = take (so - 1) bytes @ [?nl]"
        using less.prems(1,2) assms(2) by (metis (no_types, lifting) One_nat_def Suc_pred bot_nat_0.not_eq_extremum diff_less le_trans less_le_trans not_less take_Suc_conv_app_nth zero_less_one)
      with split have "take offset bytes = take (so - 1) bytes @ ?nl # ?rest" by simp
      moreover have "\<forall>y \<in> set ?rest. y \<noteq> ?nl" using no by auto
      ultimately show ?thesis using takeWhile_rev_append [of "\<lambda>x. x = ?nl" ?nl ?rest "take (so - 1) bytes"] by metis
    qed
    then have c: "col_of bytes offset = offset - so" unfolding col_of_def using len by simp
    have "count_list (take offset bytes) ?nl = count_list (take so bytes) ?nl + count_list ?rest ?nl"
      using arg_cong [OF split, of "\<lambda>xs. count_list xs ?nl"] by simp
    moreover have "count_list ?rest ?nl = 0" using no by (simp add: count_list_0_iff)
    ultimately have "line = line_of bytes offset" using less.prems(3) by (simp add: line_of_def)
    with None c less.prems(1) assms(2) show ?thesis by (simp add: line_col_loop.simps mc)
  next
    case (Some p)
    have p: "so + p < offset" "bytes ! (so + p) = ?nl"
      using find_index_SomeD [OF Some] assms(2) by (auto simp: nth_drop)
    have "take (so + p + 1) bytes = take so bytes @ take (Suc p) ?rest"
    proof -
      have "take (Suc p) ?rest = take (Suc p) (drop so bytes)" using p(1) by (simp add: drop_take)
      then show ?thesis using take_add [of so "Suc p" bytes] by simp
    qed
    moreover have "take (Suc p) ?rest = take p ?rest @ [?nl]"
      using p assms(2) by (simp add: take_Suc_conv_app_nth nth_drop)
    ultimately have "line + 1 = 1 + count_list (take (so + p + 1) bytes) ?nl"
      using less.prems(3) count_list_take_find(1) [OF Some] by simp
    from less.hyps [OF _ _ _ this] p less.prems(1) have
      "line_col_loop M bytes offset (so + p + 1) (line + 1) = Returns (line_of bytes offset, col_of bytes offset)" by simp
    with Some less.prems(1) assms(2) show ?thesis by (simp add: line_col_loop.simps [of M bytes offset so] mc)
  qed
qed

section \<open>Properties\<close>

text \<open>
  C31: For every offset into the text, \<^verbatim>\<open>line_col\<close> returns (no slice panics, the search loop ends) the
  one-based line, which is one more than the number of newlines before the offset, and the column,
  which is the number of bytes since the last newline; an offset past the end of the text panics.
\<close>

theorem line_col_correct:
  assumes "memx_ok M"
  shows "line_col M str offset =
    (if offset \<le> length str then Returns (line_of str offset, col_of str offset) else Panics)"
  using line_col_loop_correct [OF assms, of offset str 0 1]
  by (simp add: line_col_def line_col_loop.simps)

theorem line_col_correct_witness: "line_col memx_scan [CHR ''a'', CHR 0x0A, CHR ''b'', CHR ''c''] 3 = Returns (2, 1)"
  using line_col_correct [OF memx_scan_ok, of "[CHR ''a'', CHR 0x0A, CHR ''b'', CHR ''c'']" 3]
  by (simp add: line_of_def col_of_def eval_nat_numeral)

text \<open>
  A span built from two offsets below \<open>2 ^ 32 - 1\<close> reads back exactly these offsets, and joining
  two spans is the smallest interval that covers both: its start is the smaller start, its end the
  larger end, whatever the order of the two.
\<close>

theorem span_roundtrip_join:
  assumes "s < 2 ^ 32 - 1" and "e < 2 ^ 32 - 1"
  shows "\<exists>x. span_new s e = Returns x \<and> span_start x = s \<and> span_end x = e
    \<and> (\<forall>y. span_start (span_join x y) = min s (span_start y) \<and> span_end (span_join x y) = max e (span_end y)
          \<and> span_join x y = span_join y x)"
proof -
  obtain x where "span_new s e = Returns x" "span_start x = s" "span_end x = e"
    using span_new_exact [OF assms] .
  then show ?thesis using span_join_bounds [of x] span_join_commute [of x] by auto
qed

theorem span_roundtrip_join_witness: "\<exists>x. span_new 3 9 = Returns x \<and> span_start x = 3 \<and> span_end x = 9"
  using span_roundtrip_join [of 3 9] by auto

text \<open>
  The conversion of an offset is a truncation to 32 bits: past 4 GiB a span silently refers to
  the offset modulo \<open>2 ^ 32\<close>.
\<close>

theorem span_offset_truncates:
  assumes "n mod 2 ^ 32 \<noteq> 2 ^ 32 - 1"
  shows "\<exists>x. from_usize n = Returns x \<and> as_usize x = n mod 2 ^ 32"
proof -
  have u: "unat (of_nat n :: u32) = n mod 2 ^ 32" by (simp add: unat_of_nat)
  have "n mod 2 ^ 32 < 2 ^ 32" by simp
  with assms have "n mod 2 ^ 32 \<le> 0xfffffffe" by simp
  then have "(of_nat n :: u32) \<le> 0xfffffffe" using u by (simp add: word_le_nat_alt)
  with u show ?thesis by (simp add: from_usize_def from_u32_def as_usize_def)
qed

theorem span_offset_truncates_witness: "\<exists>x. from_usize (2 ^ 32 + 5) = Returns x \<and> as_usize x = 5"
  using span_offset_truncates [of "2 ^ 32 + 5"] by simp

end
