(* ===== verification/Vif_Token.thy ===== *)
theory Vif_Token
  imports Vif_Span
begin

text \<open>
  Tokens: the enumeration produced by the macro \<^verbatim>\<open>tokens!\<close> of \<^verbatim>\<open>src/frontend/lexer.rs\<close>, its \<^verbatim>\<open>Display\<close>
  strings, the keyword table of the identifier state, the character classes, and the small enums of
  \<^verbatim>\<open>src/frontend.rs\<close>. The macro declares one flat enum; here its variants are grouped as the
  source groups them (one, two, three and four character operators, type names, keywords,
  directives), one datatype per group, and \<open>token_kind\<close> is their disjoint union with the variants
  that carry data. An \<^verbatim>\<open>Intern<T>\<close> is represented by its contents.
\<close>

section \<open>Radix and kinds of identifiers\<close>

datatype radix = Binary | Octal | Decimal | Hexadecimal

fun radix_base :: "radix \<Rightarrow> nat" where
  "radix_base Binary = 2"
| "radix_base Octal = 8"
| "radix_base Decimal = 10"
| "radix_base Hexadecimal = 16"

datatype ident_kind = User | UserEscaped | UserComptime | Builtin

definition is_user :: "ident_kind \<Rightarrow> bool" where
  "is_user k \<longleftrightarrow> k = User \<or> k = UserEscaped"

definition is_builtin :: "ident_kind \<Rightarrow> bool" where
  "is_builtin k \<longleftrightarrow> k = Builtin"

definition is_generic :: "ident_kind \<Rightarrow> bool" where
  "is_generic k \<longleftrightarrow> k = UserComptime"

section \<open>Token kinds and tags\<close>

datatype op1 =
    Minus | Plus | Star | Slash | Backslash | Percent | Caret | Amp | Pipe | Bang | Tilde | Eq
   | QuestionMark | Lt | Gt | Comma | Semicolon | Colon | LParen | RParen | LBrace | RBrace
   | LBracket | RBracket | Hash | Dot | Underscore

datatype op2 =
    MinusEq | MinusPipe | PlusEq | PlusPipe | StarStar | StarEq | StarPipe | SlashEq | PercentEq
   | LtEq | LtLt | GtGt | GtEq | CaretEq | AmpEq | PipeEq | AmpAmp | PipePipe | EqEq | BangEq
   | TildeEq | FatArrow | DotDot | DotStar | DotQuestionMark

datatype op3 =
    MinusPipeEq | PlusPipeEq | LtLtEq | GtGtEq | LtLtPipe | GtGtPipe | LtLtPercent | GtGtPercent
   | StarPipeEq | AmpAmpEq | PipePipeEq | DotDotEq | Ellipsis

datatype op4 =
    LtLtPipeEq | LtLtPercentEq | GtGtPipeEq | GtGtPercentEq

datatype ty_name =
    TyUsize | TyIsize | TyF16 | TyF32 | TyF64 | TyF128 | TyBool | TyVoid | TyNever | TyAnyptr
   | TyAnyint | TyAnyfloat | TyType

datatype keyword =
    KwFn | KwIf | KwIn | KwOr | KwAnd | KwPub | KwVar | KwFor | KwTry | KwElse | KwLoop | KwEnum
   | KwTest | KwConst | KwComptime | KwWhile | KwBreak | KwDefer | KwCatch | KwUnion | KwSwitch
   | KwReturn | KwStruct | KwExtern | KwContinue | KwErrdefer | KwUndefined

datatype directive =
    DirInline | DirPacked | DirLinear | DirCallconv | DirNoinline | DirVolatile | DirAddrspace

datatype token_kind =
    Op1 op1 | Op2 op2 | Op3 op3 | Op4 op4
  | Ident string ident_kind | DirectiveIdent string
  | LitInt string radix | LitFloat string | LitBool bool | LitStr "byte list"
  | LitMultiLineStr "byte list" | LitChar byte | LitNull
  | DocComment | ModComment
  | Ty ty_name | TyU u16 | TyI u16
  | Kw keyword | Dir directive
  | Invalid | Eof

datatype token_tag =
    Tag_Op1 op1 | Tag_Op2 op2 | Tag_Op3 op3 | Tag_Op4 op4
  | Tag_Ident | Tag_DirectiveIdent
  | Tag_LitInt | Tag_LitFloat | Tag_LitBool | Tag_LitStr | Tag_LitMultiLineStr | Tag_LitChar | Tag_LitNull
  | Tag_DocComment | Tag_ModComment
  | Tag_Ty ty_name | Tag_TyU | Tag_TyI
  | Tag_Kw keyword | Tag_Dir directive
  | Tag_Invalid | Tag_Eof

text \<open>\<^verbatim>\<open>TokenKind::tag\<close>: the tag of the same variant.\<close>

primrec tag :: "token_kind \<Rightarrow> token_tag" where
  "tag (Op1 x) = Tag_Op1 x"
| "tag (Op2 x) = Tag_Op2 x"
| "tag (Op3 x) = Tag_Op3 x"
| "tag (Op4 x) = Tag_Op4 x"
| "tag (Ident s k) = Tag_Ident"
| "tag (DirectiveIdent s) = Tag_DirectiveIdent"
| "tag (LitInt s r) = Tag_LitInt"
| "tag (LitFloat s) = Tag_LitFloat"
| "tag (LitBool b) = Tag_LitBool"
| "tag (LitStr s) = Tag_LitStr"
| "tag (LitMultiLineStr s) = Tag_LitMultiLineStr"
| "tag (LitChar c) = Tag_LitChar"
| "tag LitNull = Tag_LitNull"
| "tag DocComment = Tag_DocComment"
| "tag ModComment = Tag_ModComment"
| "tag (Ty t) = Tag_Ty t"
| "tag (TyU n) = Tag_TyU"
| "tag (TyI n) = Tag_TyI"
| "tag (Kw k) = Tag_Kw k"
| "tag (Dir d) = Tag_Dir d"
| "tag Invalid = Tag_Invalid"
| "tag Eof = Tag_Eof"

text \<open>\<^verbatim>\<open>PartialEq\<close> of \<^verbatim>\<open>TokenKind\<close> compares the discriminants only.\<close>

definition kind_eq :: "token_kind \<Rightarrow> token_kind \<Rightarrow> bool" where
  "kind_eq a b \<longleftrightarrow> tag a = tag b"

section \<open>Display\<close>

primrec op1_display :: "op1 \<Rightarrow> string" where
    "op1_display Minus = ''-''"
  | "op1_display Plus = ''+''"
  | "op1_display Star = ''*''"
  | "op1_display Slash = ''/''"
  | "op1_display Backslash = CHR 0x5C # []"
  | "op1_display Percent = ''%''"
  | "op1_display Caret = ''^''"
  | "op1_display Amp = ''&''"
  | "op1_display Pipe = ''|''"
  | "op1_display Bang = ''!''"
  | "op1_display Tilde = ''~''"
  | "op1_display Eq = ''=''"
  | "op1_display QuestionMark = ''?''"
  | "op1_display Lt = ''<''"
  | "op1_display Gt = ''>''"
  | "op1_display Comma = '',''"
  | "op1_display Semicolon = '';''"
  | "op1_display Colon = '':''"
  | "op1_display LParen = ''(''"
  | "op1_display RParen = '')''"
  | "op1_display LBrace = ''{''"
  | "op1_display RBrace = ''}''"
  | "op1_display LBracket = ''[''"
  | "op1_display RBracket = '']''"
  | "op1_display Hash = ''#''"
  | "op1_display Dot = ''.''"
  | "op1_display Underscore = ''_''"

primrec op2_display :: "op2 \<Rightarrow> string" where
    "op2_display MinusEq = ''-=''"
  | "op2_display MinusPipe = ''-|''"
  | "op2_display PlusEq = ''+=''"
  | "op2_display PlusPipe = ''+|''"
  | "op2_display StarStar = ''**''"
  | "op2_display StarEq = ''*=''"
  | "op2_display StarPipe = ''*|''"
  | "op2_display SlashEq = ''/=''"
  | "op2_display PercentEq = ''%=''"
  | "op2_display LtEq = ''<=''"
  | "op2_display LtLt = ''<<''"
  | "op2_display GtGt = ''>>''"
  | "op2_display GtEq = ''>=''"
  | "op2_display CaretEq = ''^=''"
  | "op2_display AmpEq = ''&=''"
  | "op2_display PipeEq = ''|=''"
  | "op2_display AmpAmp = ''&&''"
  | "op2_display PipePipe = ''||''"
  | "op2_display EqEq = ''==''"
  | "op2_display BangEq = ''!=''"
  | "op2_display TildeEq = ''~=''"
  | "op2_display FatArrow = ''=>''"
  | "op2_display DotDot = ''..''"
  | "op2_display DotStar = ''.*''"
  | "op2_display DotQuestionMark = ''.?''"

primrec op3_display :: "op3 \<Rightarrow> string" where
    "op3_display MinusPipeEq = ''-|=''"
  | "op3_display PlusPipeEq = ''+|=''"
  | "op3_display LtLtEq = ''<<=''"
  | "op3_display GtGtEq = ''>>=''"
  | "op3_display LtLtPipe = ''<<|''"
  | "op3_display GtGtPipe = ''>>|''"
  | "op3_display LtLtPercent = ''<<%''"
  | "op3_display GtGtPercent = ''>>%''"
  | "op3_display StarPipeEq = ''*|=''"
  | "op3_display AmpAmpEq = ''&&=''"
  | "op3_display PipePipeEq = ''||=''"
  | "op3_display DotDotEq = ''..=''"
  | "op3_display Ellipsis = ''...''"

primrec op4_display :: "op4 \<Rightarrow> string" where
    "op4_display LtLtPipeEq = ''<<|=''"
  | "op4_display LtLtPercentEq = ''<<%=''"
  | "op4_display GtGtPipeEq = ''>>|=''"
  | "op4_display GtGtPercentEq = ''>>%=''"

primrec ty_display :: "ty_name \<Rightarrow> string" where
    "ty_display TyUsize = ''usize''"
  | "ty_display TyIsize = ''isize''"
  | "ty_display TyF16 = ''f16''"
  | "ty_display TyF32 = ''f32''"
  | "ty_display TyF64 = ''f64''"
  | "ty_display TyF128 = ''f128''"
  | "ty_display TyBool = ''bool''"
  | "ty_display TyVoid = ''void''"
  | "ty_display TyNever = ''never''"
  | "ty_display TyAnyptr = ''anyptr''"
  | "ty_display TyAnyint = ''anyint''"
  | "ty_display TyAnyfloat = ''anyfloat''"
  | "ty_display TyType = ''type''"

primrec keyword_display :: "keyword \<Rightarrow> string" where
    "keyword_display KwFn = ''fn''"
  | "keyword_display KwIf = ''if''"
  | "keyword_display KwIn = ''in''"
  | "keyword_display KwOr = ''or''"
  | "keyword_display KwAnd = ''and''"
  | "keyword_display KwPub = ''pub''"
  | "keyword_display KwVar = ''var''"
  | "keyword_display KwFor = ''for''"
  | "keyword_display KwTry = ''try''"
  | "keyword_display KwElse = ''else''"
  | "keyword_display KwLoop = ''loop''"
  | "keyword_display KwEnum = ''enum''"
  | "keyword_display KwTest = ''test''"
  | "keyword_display KwConst = ''const''"
  | "keyword_display KwComptime = ''comptime''"
  | "keyword_display KwWhile = ''while''"
  | "keyword_display KwBreak = ''break''"
  | "keyword_display KwDefer = ''defer''"
  | "keyword_display KwCatch = ''catch''"
  | "keyword_display KwUnion = ''union''"
  | "keyword_display KwSwitch = ''switch''"
  | "keyword_display KwReturn = ''return''"
  | "keyword_display KwStruct = ''struct''"
  | "keyword_display KwExtern = ''extern''"
  | "keyword_display KwContinue = ''continue''"
  | "keyword_display KwErrdefer = ''errdefer''"
  | "keyword_display KwUndefined = ''undefined''"

primrec directive_display :: "directive \<Rightarrow> string" where
    "directive_display DirInline = ''#inline''"
  | "directive_display DirPacked = ''#packed''"
  | "directive_display DirLinear = ''#linear''"
  | "directive_display DirCallconv = ''#callconv''"
  | "directive_display DirNoinline = ''#noinline''"
  | "directive_display DirVolatile = ''#volatile''"
  | "directive_display DirAddrspace = ''#addrspace''"

primrec tag_display :: "token_tag \<Rightarrow> string" where
  "tag_display (Tag_Op1 x) = op1_display x"
| "tag_display (Tag_Op2 x) = op2_display x"
| "tag_display (Tag_Op3 x) = op3_display x"
| "tag_display (Tag_Op4 x) = op4_display x"
| "tag_display Tag_Ident = ''identifier''"
| "tag_display Tag_DirectiveIdent = ''directive''"
| "tag_display Tag_LitInt = ''int literal''"
| "tag_display Tag_LitFloat = ''float literal''"
| "tag_display Tag_LitBool = ''bool literal''"
| "tag_display Tag_LitStr = ''string literal''"
| "tag_display Tag_LitMultiLineStr = ''multi-line string literal''"
| "tag_display Tag_LitChar = ''char literal''"
| "tag_display Tag_LitNull = ''null literal''"
| "tag_display Tag_DocComment = ''doc comment''"
| "tag_display Tag_ModComment = ''mod comment''"
| "tag_display (Tag_Ty t) = ty_display t"
| "tag_display Tag_TyU = ''uint''"
| "tag_display Tag_TyI = ''int''"
| "tag_display (Tag_Kw k) = keyword_display k"
| "tag_display (Tag_Dir d) = directive_display d"
| "tag_display Tag_Invalid = ''invalid token''"
| "tag_display Tag_Eof = ''EOF''"

definition kind_display :: "token_kind \<Rightarrow> string" where
  "kind_display k = tag_display (tag k)"

record token =
  tok_kind :: token_kind
  tok_span :: span

definition is_eof_token :: "token \<Rightarrow> bool" where
  "is_eof_token t \<longleftrightarrow> tok_kind t = Eof"

definition is_invalid_token :: "token \<Rightarrow> bool" where
  "is_invalid_token t \<longleftrightarrow> tok_kind t = Invalid"

definition token_eq :: "token \<Rightarrow> token \<Rightarrow> bool" where
  "token_eq a b \<longleftrightarrow> tag (tok_kind a) = tag (tok_kind b) \<and> tok_span a = tok_span b"

definition token_display :: "token \<Rightarrow> string" where
  "token_display t =
     ''<'' @ kind_display (tok_kind t) @ ''@'' @ show_nat (span_start (tok_span t)) @ ''..'' @
     show_nat (span_end (tok_span t)) @ ''>''"

section \<open>Character classes\<close>

definition IDENT_START :: u8 where "IDENT_START = push_bit 0 1"
definition DIGIT :: u8 where "DIGIT = push_bit 1 1"
definition IDENT_CONT :: u8 where "IDENT_CONT = IDENT_START OR DIGIT"
definition BIN_DIGIT :: u8 where "BIN_DIGIT = push_bit 2 1"
definition OCT_DIGIT :: u8 where "OCT_DIGIT = push_bit 3 1"
definition HEX_DIGIT :: u8 where "HEX_DIGIT = push_bit 4 1"
definition WHITESPACE :: u8 where "WHITESPACE = push_bit 5 1"
definition UNDERSCORE :: u8 where "UNDERSCORE = push_bit 6 1"
definition SIGN :: u8 where "SIGN = push_bit 7 1"

definition in_range :: "byte \<Rightarrow> byte \<Rightarrow> byte \<Rightarrow> bool" where
  "in_range lo b hi \<longleftrightarrow> (of_char lo :: nat) \<le> of_char b \<and> (of_char b :: nat) \<le> of_char hi"

definition is_ascii_digit :: "byte \<Rightarrow> bool" where
  "is_ascii_digit b \<longleftrightarrow> in_range (CHR ''0'') b (CHR ''9'')"

definition is_ascii_hexdigit :: "byte \<Rightarrow> bool" where
  "is_ascii_hexdigit b \<longleftrightarrow>
     in_range (CHR ''0'') b (CHR ''9'') \<or> in_range (CHR ''a'') b (CHR ''f'') \<or> in_range (CHR ''A'') b (CHR ''F'')"

text \<open>One entry of \<^verbatim>\<open>CHAR_TABLE\<close>; the flags are or-ed together as the initialiser does.\<close>

definition char_flags :: "byte \<Rightarrow> u8" where
  "char_flags b =
     (if in_range (CHR ''a'') b (CHR ''z'') \<or> in_range (CHR ''A'') b (CHR ''Z'') \<or> b = CHR ''_'' then IDENT_START else 0) OR
     (if is_ascii_digit b then DIGIT else 0) OR
     (if in_range (CHR ''0'') b (CHR ''1'') then BIN_DIGIT else 0) OR
     (if in_range (CHR ''0'') b (CHR ''7'') then OCT_DIGIT else 0) OR
     (if is_ascii_hexdigit b then HEX_DIGIT else 0) OR
     (if b = CHR '' '' \<or> b = CHR 0x09 \<or> b = CHR 0x0A \<or> b = CHR 0x0D then WHITESPACE else 0) OR
     (if b = CHR ''_'' then UNDERSCORE else 0) OR
     (if b = CHR ''+'' \<or> b = CHR ''-'' then SIGN else 0)"

definition CHAR_TABLE :: "u8 list" where
  "CHAR_TABLE = map (\<lambda>i. char_flags (char_of (i :: nat))) [0..<256]"

definition has_class :: "byte \<Rightarrow> u8 \<Rightarrow> bool" where
  "has_class b flags \<longleftrightarrow> CHAR_TABLE ! of_char b AND flags \<noteq> 0"

definition is_ident_start :: "byte \<Rightarrow> bool" where "is_ident_start b \<longleftrightarrow> has_class b IDENT_START"
definition is_ident_cont :: "byte \<Rightarrow> bool" where "is_ident_cont b \<longleftrightarrow> has_class b IDENT_CONT"
definition is_digit :: "byte \<Rightarrow> bool" where "is_digit b \<longleftrightarrow> has_class b DIGIT"
definition is_digit_or_sign :: "byte \<Rightarrow> bool" where "is_digit_or_sign b \<longleftrightarrow> has_class b (DIGIT OR SIGN)"
definition is_digit_or_uscore :: "byte \<Rightarrow> bool" where "is_digit_or_uscore b \<longleftrightarrow> has_class b (DIGIT OR UNDERSCORE)"
definition is_bin_digit_or_uscore :: "byte \<Rightarrow> bool" where "is_bin_digit_or_uscore b \<longleftrightarrow> has_class b (BIN_DIGIT OR UNDERSCORE)"
definition is_oct_digit_or_uscore :: "byte \<Rightarrow> bool" where "is_oct_digit_or_uscore b \<longleftrightarrow> has_class b (OCT_DIGIT OR UNDERSCORE)"
definition is_hex_digit_or_uscore :: "byte \<Rightarrow> bool" where "is_hex_digit_or_uscore b \<longleftrightarrow> has_class b (HEX_DIGIT OR UNDERSCORE)"
definition is_whitespace :: "byte \<Rightarrow> bool" where "is_whitespace b \<longleftrightarrow> has_class b WHITESPACE"

section \<open>Keywords\<close>

text \<open>The entries of the \<^verbatim>\<open>hashify::tiny_map!\<close> of the identifier state, in their order.\<close>

definition keyword_table :: "(string \<times> token_kind) list" where
  "keyword_table =
    [(''fn'', Kw KwFn), (''if'', Kw KwIf), (''in'', Kw KwIn), (''or'', Kw KwOr), (''i1'', TyI 1),
     (''i2'', TyI 2), (''i3'', TyI 3), (''i4'', TyI 4), (''i5'', TyI 5), (''i6'', TyI 6),
     (''i7'', TyI 7), (''i8'', TyI 8), (''i9'', TyI 9), (''u1'', TyU 1), (''u2'', TyU 2),
     (''u3'', TyU 3), (''u4'', TyU 4), (''u5'', TyU 5), (''u6'', TyU 6), (''u7'', TyU 7),
     (''u8'', TyU 8), (''u9'', TyU 9), (''and'', Kw KwAnd), (''pub'', Kw KwPub), (''var'', Kw KwVar),
     (''for'', Kw KwFor), (''try'', Kw KwTry), (''anyptr'', Ty TyAnyptr), (''f16'', Ty TyF16),
     (''f32'', Ty TyF32), (''f64'', Ty TyF64), (''i16'', TyI 16), (''i32'', TyI 32),
     (''i64'', TyI 64), (''u16'', TyU 16), (''u32'', TyU 32), (''u64'', TyU 64),
     (''self'', Ident ''self'' User), (''Self'', Ident ''Self'' User), (''else'', Kw KwElse),
     (''loop'', Kw KwLoop), (''enum'', Kw KwEnum), (''test'', Kw KwTest), (''null'', LitNull),
     (''true'', LitBool True), (''void'', Ty TyVoid), (''never'', Ty TyNever), (''bool'', Ty TyBool),
     (''type'', Ty TyType), (''f128'', Ty TyF128), (''i128'', TyI 128), (''u128'', TyU 128),
     (''const'', Kw KwConst), (''while'', Kw KwWhile), (''break'', Kw KwBreak),
     (''defer'', Kw KwDefer), (''catch'', Kw KwCatch), (''union'', Kw KwUnion),
     (''false'', LitBool False), (''usize'', Ty TyUsize), (''isize'', Ty TyIsize),
     (''switch'', Kw KwSwitch), (''return'', Kw KwReturn), (''struct'', Kw KwStruct),
     (''extern'', Kw KwExtern), (''anyint'', Ty TyAnyint), (''comptime'', Kw KwComptime),
     (''continue'', Kw KwContinue), (''errdefer'', Kw KwErrdefer), (''anyfloat'', Ty TyAnyfloat),
     (''undefined'', Kw KwUndefined)]"

definition keyword_lengths :: "nat list" where
  "keyword_lengths = map (length \<circ> keyword_display)
     [KwFn, KwIf, KwIn, KwOr, KwAnd, KwPub, KwVar, KwFor, KwTry, KwElse, KwLoop, KwEnum, 
      KwTest, KwConst, KwComptime, KwWhile, KwBreak, KwDefer, KwCatch, KwUnion, KwSwitch, 
      KwReturn, KwStruct, KwExtern, KwContinue, KwErrdefer, KwUndefined]"

definition MIN_KEYWORD_LEN :: nat where
  "MIN_KEYWORD_LEN = fold min (tl keyword_lengths) (hd keyword_lengths)"

definition MAX_KEYWORD_LEN :: nat where
  "MAX_KEYWORD_LEN = fold max keyword_lengths 0"

section \<open>The table decides the classes\<close>

lemma CHAR_TABLE_nth: "CHAR_TABLE ! of_char b = char_flags b"
proof -
  have "(of_char b :: nat) < 256" by simp
  then show ?thesis unfolding CHAR_TABLE_def by (simp add: nth_map)
qed

lemma and_flag: "k < 8 \<Longrightarrow> (x :: u8) AND push_bit k 1 \<noteq> 0 \<longleftrightarrow> bit x k"
proof -
  assume k: "k < 8"
  have b: "bit (x AND push_bit k 1) n \<longleftrightarrow> n = k \<and> bit x k" for n
    using k by (auto simp: bit_and_iff bit_exp_iff)
  show ?thesis
  proof
    assume "bit x k"
    then have "bit (x AND push_bit k 1) k" using b [of k] by simp
    then show "x AND push_bit k 1 \<noteq> 0" by auto
  next
    assume "x AND push_bit k 1 \<noteq> 0"
    then obtain n where "bit (x AND push_bit k 1) n" by (auto simp only: bit_eq_iff bit_0_eq)
    then show "bit x k" using b [of n] by simp
  qed
qed

lemma and_flags: "(x :: u8) AND (m OR n) \<noteq> 0 \<longleftrightarrow> x AND m \<noteq> 0 \<or> x AND n \<noteq> 0"
  by (auto simp: bit_eq_iff bit_and_iff bit_or_iff)

lemmas flag_defs = IDENT_START_def DIGIT_def BIN_DIGIT_def OCT_DIGIT_def HEX_DIGIT_def WHITESPACE_def UNDERSCORE_def SIGN_def

lemma bit_flag: "bit (if P then push_bit k 1 else (0 :: u8)) n \<longleftrightarrow> P \<and> n = k \<and> k < 8"
  by (auto simp: bit_exp_iff)

lemma char_class_spec:
  "is_ident_start b \<longleftrightarrow> in_range (CHR ''a'') b (CHR ''z'') \<or> in_range (CHR ''A'') b (CHR ''Z'') \<or> b = CHR ''_''"
  "is_digit b \<longleftrightarrow> is_ascii_digit b"
  "is_ident_cont b \<longleftrightarrow> is_ident_start b \<or> is_digit b"
  "is_digit_or_sign b \<longleftrightarrow> is_digit b \<or> b = CHR ''+'' \<or> b = CHR ''-''"
  "is_digit_or_uscore b \<longleftrightarrow> is_digit b \<or> b = CHR ''_''"
  "is_bin_digit_or_uscore b \<longleftrightarrow> in_range (CHR ''0'') b (CHR ''1'') \<or> b = CHR ''_''"
  "is_oct_digit_or_uscore b \<longleftrightarrow> in_range (CHR ''0'') b (CHR ''7'') \<or> b = CHR ''_''"
  "is_hex_digit_or_uscore b \<longleftrightarrow> is_ascii_hexdigit b \<or> b = CHR ''_''"
  "is_whitespace b \<longleftrightarrow> b = CHR '' '' \<or> b = CHR 0x09 \<or> b = CHR 0x0A \<or> b = CHR 0x0D"
  unfolding is_ident_start_def is_digit_def is_ident_cont_def is_digit_or_sign_def is_digit_or_uscore_def
    is_bin_digit_or_uscore_def is_oct_digit_or_uscore_def is_hex_digit_or_uscore_def is_whitespace_def
    has_class_def CHAR_TABLE_nth IDENT_CONT_def and_flags
  unfolding flag_defs
  by (simp_all only: and_flag, simp_all only: char_flags_def flag_defs bit_or_iff bit_flag, simp_all)

text \<open>The class of the terminating zero byte is empty.\<close>

lemma NUL_class [simp]:
  "\<not> is_ident_start (CHR 0x00)" "\<not> is_ident_cont (CHR 0x00)" "\<not> is_digit (CHR 0x00)" "\<not> is_whitespace (CHR 0x00)"
  "\<not> is_digit_or_uscore (CHR 0x00)" "\<not> is_bin_digit_or_uscore (CHR 0x00)"
  "\<not> is_oct_digit_or_uscore (CHR 0x00)" "\<not> is_hex_digit_or_uscore (CHR 0x00)"
  by (simp_all add: char_class_spec in_range_def is_ascii_digit_def is_ascii_hexdigit_def)

lemma keyword_len_bounds: "MIN_KEYWORD_LEN = 2" "MAX_KEYWORD_LEN = 9"
  by (simp_all add: MIN_KEYWORD_LEN_def MAX_KEYWORD_LEN_def keyword_lengths_def)

lemma keyword_table_distinct: "distinct (map fst keyword_table)"
  by code_simp

lemma keyword_in_table: "(keyword_display k, Kw k) \<in> set keyword_table"
  by (cases k; simp add: keyword_table_def)

lemma ty_in_table: "(ty_display t, Ty t) \<in> set keyword_table"
  by (cases t; simp add: keyword_table_def)

section \<open>Properties\<close>

text \<open>
  The keyword map and the \<^verbatim>\<open>Display\<close> strings agree: looking up the spelling of a keyword or of a
  plain type name gives that keyword or type, no key occurs twice, and no key is longer or shorter than
  the length window that guards the lookup, or of the excluded length 10.
\<close>

theorem keyword_table_matches_display:
  "map_of keyword_table (keyword_display k) = Some (Kw k)
   \<and> map_of keyword_table (ty_display t) = Some (Ty t)
   \<and> distinct (map fst keyword_table)
   \<and> list_all (\<lambda>(s, _). MIN_KEYWORD_LEN \<le> length s \<and> length s \<le> MAX_KEYWORD_LEN \<and> length s \<noteq> 10) keyword_table"
  using map_of_is_SomeI [OF keyword_table_distinct keyword_in_table] map_of_is_SomeI [OF keyword_table_distinct ty_in_table]
    keyword_table_distinct
  unfolding keyword_len_bounds by (simp add: keyword_table_def)

end
