(* ===== verification/Vif_Diagnostic.thy ===== *)
theory Vif_Diagnostic
  imports Vif_Span "HOL-Library.Product_Lexorder"
begin

text \<open>
  Diagnostics, \<^verbatim>\<open>src/common/diagnostic.rs\<close>: the builder, the order in which labels are rendered, and
  the renderer \<^verbatim>\<open>DiagnosticWriter::write\<close> as a function to the text it writes. Writing to the
  \<^verbatim>\<open>dyn Write\<close> is appending to that text (an I/O error ends the rendering and is not modelled); the
  escape sequences of the \<^verbatim>\<open>owo_colors\<close> crate are the argument \<^verbatim>\<open>paint\<close>. The trailer that names the
  compiler source location exists in debug builds only and is left out.
\<close>

section \<open>Diagnostics\<close>

type_synonym module_id = nat

record diag_span =
  ds_module :: module_id
  ds_span :: span

datatype severity = Error | Warning | Note

fun severity_display :: "severity \<Rightarrow> string" where
  "severity_display Error = ''error''"
| "severity_display Warning = ''warning''"
| "severity_display Note = ''note''"

datatype label_type = Primary | Secondary

record label =
  label_ty :: label_type
  label_message :: string
  label_span :: "diag_span option"

definition label_new :: "label_type \<Rightarrow> label" where
  "label_new ty = \<lparr>label_ty = ty, label_message = '''', label_span = None\<rparr>"

definition label_primary :: label where
  "label_primary = label_new Primary"

definition label_secondary :: label where
  "label_secondary = label_new Secondary"

definition label_with_message :: "label \<Rightarrow> string \<Rightarrow> label" where
  "label_with_message l m = l\<lparr>label_message := m\<rparr>"

definition label_with_span :: "label \<Rightarrow> diag_span \<Rightarrow> label" where
  "label_with_span l s = l\<lparr>label_span := Some s\<rparr>"

record diagnostic =
  severity_of :: severity
  diag_message :: string
  diag_code :: "string option"
  diag_labels :: "label list"
  diag_notes :: "string list"

definition diag_new :: "severity \<Rightarrow> diagnostic" where
  "diag_new s = \<lparr>severity_of = s, diag_message = '''', diag_code = None, diag_labels = [], diag_notes = []\<rparr>"

definition diag_error :: diagnostic where
  "diag_error = diag_new Error"

definition diag_warning :: diagnostic where
  "diag_warning = diag_new Warning"

definition with_code :: "diagnostic \<Rightarrow> string \<Rightarrow> diagnostic" where
  "with_code d c = d\<lparr>diag_code := Some c\<rparr>"

definition with_message :: "diagnostic \<Rightarrow> string \<Rightarrow> diagnostic" where
  "with_message d m = d\<lparr>diag_message := m\<rparr>"

definition with_note :: "diagnostic \<Rightarrow> string \<Rightarrow> diagnostic" where
  "with_note d n = d\<lparr>diag_notes := diag_notes d @ [n]\<rparr>"

text \<open>The derived orders of \<^verbatim>\<open>DiagSpan\<close> and of \<^verbatim>\<open>Option<DiagSpan>\<close>.\<close>

definition diag_span_cmp :: "diag_span \<Rightarrow> diag_span \<Rightarrow> ordering" where
  "diag_span_cmp a b =
     (case cmp (ds_module a) (ds_module b) of Equal \<Rightarrow> span_cmp (ds_span a) (ds_span b) | ord \<Rightarrow> ord)"

fun opt_span_le :: "diag_span option \<Rightarrow> diag_span option \<Rightarrow> bool" where
  "opt_span_le None _ = True"
| "opt_span_le (Some a) None = False"
| "opt_span_le (Some a) (Some b) = (diag_span_cmp a b \<noteq> Greater)"

text \<open>\<^verbatim>\<open>with_label\<close> inserts with the \<^verbatim>\<open>sorted_insert\<close> crate, whose function is the first argument.\<close>

type_synonym sorted_insert = "label list \<Rightarrow> label \<Rightarrow> (label \<Rightarrow> label \<Rightarrow> bool) \<Rightarrow> label list"

definition with_label :: "sorted_insert \<Rightarrow> diagnostic \<Rightarrow> label \<Rightarrow> diagnostic" where
  "with_label sorted_insert_by d l =
     d\<lparr>diag_labels := sorted_insert_by (diag_labels d) l (\<lambda>a b. opt_span_le (label_span a) (label_span b))\<rparr>"

section \<open>Rendering order\<close>

definition cmp_labels_for_render :: "label \<Rightarrow> label \<Rightarrow> ordering outcome" where
  "cmp_labels_for_render a b =
     (case (label_span a, label_span b) of
        (Some a_span, Some b_span) \<Rightarrow>
          Returns (case (label_ty a = Secondary, label_ty b = Secondary) of
              (True, True) \<Rightarrow> diag_span_cmp a_span b_span
            | (False, False) \<Rightarrow> diag_span_cmp a_span b_span
            | (False, True) \<Rightarrow> if diag_span_cmp a_span b_span \<noteq> Greater then Less else Greater
            | (True, False) \<Rightarrow> if diag_span_cmp a_span b_span = Less then Less else Greater)
      | _ \<Rightarrow> Panics)"

text \<open>\<^verbatim>\<open>slice::sort_by\<close>: stable, on a comparison that may panic.\<close>

fun insert_by :: "('a \<Rightarrow> 'a \<Rightarrow> ordering outcome) \<Rightarrow> 'a \<Rightarrow> 'a list \<Rightarrow> 'a list outcome" where
  "insert_by c x [] = Returns [x]"
| "insert_by c x (y # ys) =
     bind_outcome (c x y) (\<lambda>r. if r \<noteq> Greater then Returns (x # y # ys)
                               else bind_outcome (insert_by c x ys) (\<lambda>zs. Returns (y # zs)))"

fun sort_by :: "('a \<Rightarrow> 'a \<Rightarrow> ordering outcome) \<Rightarrow> 'a list \<Rightarrow> 'a list outcome" where
  "sort_by c [] = Returns []"
| "sort_by c (x # xs) = bind_outcome (sort_by c xs) (insert_by c x)"

section \<open>The writer\<close>

text \<open>A module as far as the renderer reads it: its path, and its source once it is loaded.\<close>

record diag_module =
  path :: string
  source :: "byte list option"

datatype style =
    HeaderError | HeaderWarning | HeaderNote | HeaderMessage | PrimaryLabel | SecondaryLabel | Border

record writer =
  diagnostic :: diagnostic
  modules :: "diag_module list"
  use_color :: bool
  paint :: "style \<Rightarrow> string \<Rightarrow> string"
  search :: memx

fun header_style :: "severity \<Rightarrow> style" where
  "header_style Error = HeaderError"
| "header_style Warning = HeaderWarning"
| "header_style Note = HeaderNote"

fun ilog10 :: "nat \<Rightarrow> nat" where
  "ilog10 n = (if n < 10 then 0 else Suc (ilog10 (n div 10)))"

declare ilog10.simps [simp del]

definition line_number_width :: "nat \<Rightarrow> nat" where
  "line_number_width value = ilog10 value + 1"

definition write_styled :: "writer \<Rightarrow> string \<Rightarrow> style \<Rightarrow> string" where
  "write_styled W text style = (if use_color W then paint W style text else text)"

definition write_line_number :: "writer \<Rightarrow> nat \<Rightarrow> string" where
  "write_line_number W line = write_styled W (show_nat line) Border"

definition write_gutter :: "writer \<Rightarrow> string" where
  "write_gutter W = write_styled W '' | '' Border"

definition write_padding :: "nat \<Rightarrow> string" where
  "write_padding len = replicate len (CHR '' '')"

abbreviation newline :: string where
  "newline \<equiv> [CHR 0x0A]"

definition caret_of :: "label_type \<Rightarrow> char" where
  "caret_of ty = (case ty of Primary \<Rightarrow> CHR ''^'' | Secondary \<Rightarrow> CHR ''-'')"

definition label_style :: "label_type \<Rightarrow> style" where
  "label_style ty = (case ty of Primary \<Rightarrow> PrimaryLabel | Secondary \<Rightarrow> SecondaryLabel)"

definition write_label :: "writer \<Rightarrow> label \<Rightarrow> nat \<Rightarrow> nat \<Rightarrow> string" where
  "write_label W l from_col len_col =
     (if label_message l = ''''
      then write_padding from_col @ write_styled W (replicate len_col (caret_of (label_ty l))) (label_style (label_ty l)) @ newline
      else write_padding from_col @ write_styled W (replicate len_col (caret_of (label_ty l))) (label_style (label_ty l))
             @ '' '' @ label_message l @ newline)"

definition write_break :: "writer \<Rightarrow> string" where
  "write_break W = write_styled W ''...'' Border @ newline"

definition write_empty_gutter :: "writer \<Rightarrow> nat \<Rightarrow> string" where
  "write_empty_gutter W padding = write_padding padding @ write_styled W '' |'' Border @ newline"

definition write_location_line :: "writer \<Rightarrow> nat \<Rightarrow> nat \<Rightarrow> nat \<Rightarrow> string \<Rightarrow> string" where
  "write_location_line W line col padding filename =
     write_padding padding @
     write_styled W ('' --> '' @ filename @ '':'' @ show_nat line @ '':'' @ show_nat col) Border @ newline"

definition write_header :: "writer \<Rightarrow> string" where
  "write_header W =
     (let d = diagnostic W; st = header_style (severity_of d)
      in (case diag_code d of
            None \<Rightarrow> write_styled W (severity_display (severity_of d)) st
          | Some c \<Rightarrow> write_styled W (severity_display (severity_of d) @ ''['' @ c @ '']'') st) @
         write_styled W ('': '' @ diag_message d) HeaderMessage @ newline)"

record render_label =
  rl_label :: label
  rl_span :: diag_span
  start_line :: nat
  start_col :: nat
  end_line :: nat
  end_col :: nat

text \<open>\<^verbatim>\<open>DiagSpan::module_content\<close>: panics for an unknown module and for one that is not loaded.\<close>

definition module_content :: "writer \<Rightarrow> diag_span \<Rightarrow> byte list outcome" where
  "module_content W s =
     (if ds_module s < length (modules W)
      then case source (modules W ! ds_module s) of Some src \<Rightarrow> Returns src | None \<Rightarrow> Panics
      else Panics)"

definition module_path :: "writer \<Rightarrow> module_id \<Rightarrow> string outcome" where
  "module_path W m = (if m < length (modules W) then Returns (path (modules W ! m)) else Panics)"

definition render_label_of :: "writer \<Rightarrow> label \<Rightarrow> render_label outcome" where
  "render_label_of W l =
     (case label_span l of
        None \<Rightarrow> Panics
      | Some s \<Rightarrow>
          bind_outcome (module_content W s) (\<lambda>content.
          bind_outcome (start_line_col (search W) (ds_span s) content) (\<lambda>(sl, sc).
          bind_outcome (end_line_col (search W) (ds_span s) content) (\<lambda>(el, ec).
            Returns \<lparr>rl_label = l, rl_span = s, start_line = sl, start_col = sc, end_line = el, end_col = ec\<rparr>))))"

fun render_labels :: "writer \<Rightarrow> label list \<Rightarrow> render_label list outcome" where
  "render_labels W [] = Returns []"
| "render_labels W (l # ls) =
     bind_outcome (render_label_of W l) (\<lambda>r. bind_outcome (render_labels W ls) (\<lambda>rs. Returns (r # rs)))"

definition max_line_number :: "render_label list \<Rightarrow> nat" where
  "max_line_number rls = foldl (\<lambda>m r. max m (max (start_line r) (end_line r))) 1 rls"

text \<open>
  \<^verbatim>\<open>str::lines\<close>: split at newlines, without the line terminators \<^verbatim>\<open>\n\<close> and \<^verbatim>\<open>\r\n\<close>, and without a
  last empty line.
\<close>

definition strip_cr :: "byte list \<Rightarrow> byte list" where
  "strip_cr l = (if l \<noteq> [] \<and> last l = CHR 0x0D then butlast l else l)"

fun str_lines_from :: "byte list \<Rightarrow> byte list \<Rightarrow> byte list list" where
  "str_lines_from acc [] = (if acc = [] then [] else [rev acc])"
| "str_lines_from acc (b # bs) =
     (if b = CHR 0x0A then strip_cr (rev acc) # str_lines_from [] bs else str_lines_from (b # acc) bs)"

definition str_lines :: "byte list \<Rightarrow> byte list list" where
  "str_lines bs = str_lines_from [] bs"

definition line_text :: "byte list list \<Rightarrow> nat \<Rightarrow> byte list" where
  "line_text lines line = (if line - 1 < length lines then lines ! (line - 1) else [])"

text \<open>
  The source line with its number, written unless it is the current one; \<^verbatim>\<open>None\<close> stands for the
  sentinel \<^verbatim>\<open>usize::MAX\<close> of \<^verbatim>\<open>current_line\<close>. The subtraction from \<^verbatim>\<open>padding\<close> would underflow for a line
  number wider than the padding.
\<close>

definition write_source_line :: "writer \<Rightarrow> nat \<Rightarrow> byte list list \<Rightarrow> nat \<Rightarrow> nat option \<Rightarrow> string outcome" where
  "write_source_line W padding lines line current_line =
     (let brk = (case current_line of Some c \<Rightarrow> if line - c > 5 then write_break W else [] | None \<Rightarrow> [])
      in if current_line = Some line then Returns brk
         else if line_number_width line \<le> padding
         then Returns (brk @ write_line_number W line @ write_padding (padding - line_number_width line) @
                       write_gutter W @ line_text lines line @ newline)
         else Panics)"

fun write_underlines :: "writer \<Rightarrow> nat \<Rightarrow> render_label list \<Rightarrow> string" where
  "write_underlines W cur_col [] = []"
| "write_underlines W cur_col (r # rs) =
     (let from_col = start_col r; len = max (end_col r - start_col r) 1
      in (if from_col > cur_col then write_padding (from_col - cur_col) else []) @
         write_styled W (replicate len (caret_of (label_ty (rl_label r)))) (label_style (label_ty (rl_label r))) @
         (if rs = [] \<and> label_message (rl_label r) \<noteq> '''' then '' '' @ label_message (rl_label r) else []) @
         write_underlines W (from_col + len) rs)"

definition write_group_messages :: "writer \<Rightarrow> nat \<Rightarrow> render_label list \<Rightarrow> string" where
  "write_group_messages W padding grp =
     concat (map (\<lambda>r. if label_message (rl_label r) = '''' then []
                      else write_padding padding @ write_gutter W @ write_padding (start_col r) @
                           write_styled W (label_message (rl_label r)) (label_style (label_ty (rl_label r))) @ newline)
                 (butlast grp))"

definition write_group :: "writer \<Rightarrow> nat \<Rightarrow> byte list list \<Rightarrow> nat option \<Rightarrow> render_label list \<Rightarrow> (string \<times> nat option) outcome" where
  "write_group W padding lines current_line grp =
     (let line = start_line (hd grp)
      in bind_outcome (write_source_line W padding lines line current_line) (\<lambda>src.
           Returns (src @ write_padding padding @ write_gutter W @ write_underlines W 0 grp @ newline @
                    write_group_messages W padding grp, Some line)))"

definition label_columns :: "render_label \<Rightarrow> nat \<Rightarrow> nat \<Rightarrow> nat \<times> nat" where
  "label_columns r line line_len =
     (if start_line r = end_line r then (start_col r, end_col r - start_col r)
      else if line = start_line r then (start_col r, line_len - start_col r)
      else if line = end_line r then (0, min (end_col r) line_len)
      else (0, line_len))"

fun write_single :: "writer \<Rightarrow> nat \<Rightarrow> byte list list \<Rightarrow> nat option \<Rightarrow> render_label \<Rightarrow> nat list \<Rightarrow> (string \<times> nat option) outcome" where
  "write_single W padding lines current_line r [] = Returns ([], current_line)"
| "write_single W padding lines current_line r (line # rest) =
     bind_outcome (write_source_line W padding lines line current_line) (\<lambda>src.
       let (from_col, len) = label_columns r line (length (line_text lines line))
       in bind_outcome (write_single W padding lines (Some line) r rest) (\<lambda>(out, cl).
            Returns (src @ write_padding padding @ write_gutter W @ write_label W (rl_label r) from_col len @ out, cl)))"

text \<open>How many of the following labels sit on the same single source line of the same module.\<close>

definition group_size :: "render_label \<Rightarrow> render_label list \<Rightarrow> nat" where
  "group_size r rs =
     (if start_line r = end_line r
      then 1 + length (takeWhile (\<lambda>n. ds_module (rl_span n) = ds_module (rl_span r) \<and>
                                       start_line n = start_line r \<and> end_line n = start_line r) rs)
      else 1)"

text \<open>
  The loop over the rendered labels. \<^verbatim>\<open>module_lines\<close> caches \<^verbatim>\<open>content.lines()\<close> per module; the source of a
  module is set once, so the cached lines are those of its content.
\<close>

function write_labels :: "writer \<Rightarrow> nat \<Rightarrow> module_id option \<Rightarrow> nat option \<Rightarrow> render_label list \<Rightarrow> string outcome" where
  "write_labels W padding current_module current_line [] = Returns []"
| "write_labels W padding current_module current_line (r # rs) =
     bind_outcome (module_content W (rl_span r)) (\<lambda>content.
     bind_outcome (module_path W (ds_module (rl_span r))) (\<lambda>filename.
       let m = ds_module (rl_span r);
           changed = (Some m \<noteq> current_module);
           head = (if changed \<and> current_module \<noteq> None
                   then write_empty_gutter W padding @
                        write_location_line W (start_line r) (start_col r + 1) padding filename @
                        write_empty_gutter W padding
                   else []);
           cl = (if changed then None else current_line);
           n = group_size r rs;
           lines = str_lines content
       in bind_outcome
            (if n > 1 then write_group W padding lines cl (take n (r # rs))
             else write_single W padding lines cl r [start_line r..<Suc (end_line r)])
            (\<lambda>(out, cl'). bind_outcome (write_labels W padding (Some m) cl' (drop (n - 1) rs)) (\<lambda>rest.
               Returns (head @ out @ rest)))))"
  by pat_completeness auto
termination
  by (relation "measure (\<lambda>(_, _, _, _, rs). length rs)") auto

definition write_notes :: "writer \<Rightarrow> nat \<Rightarrow> string" where
  "write_notes W padding =
     (if diag_notes (diagnostic W) = [] then []
      else write_empty_gutter W padding @
           concat (map (\<lambda>n. write_padding padding @ write_styled W '' = '' Border @
                            write_styled W ''note'' HeaderMessage @ '': '' @ n @ newline)
                       (diag_notes (diagnostic W))))"

definition diag_write :: "writer \<Rightarrow> string outcome" where
  "diag_write W =
     bind_outcome (sort_by cmp_labels_for_render
         (filter (\<lambda>l. label_span l \<noteq> None) (diag_labels (diagnostic W)))) (\<lambda>sorted_labels.
       if sorted_labels = [] then Returns (write_header W)
       else bind_outcome (render_labels W sorted_labels) (\<lambda>rendered.
         let padding = line_number_width (max_line_number rendered);
             loc = (case find (\<lambda>r. label_ty (rl_label r) = Primary) rendered of
                      Some r \<Rightarrow> r | None \<Rightarrow> hd rendered)
         in bind_outcome (module_path W (ds_module (rl_span loc))) (\<lambda>loc_filename.
            bind_outcome (write_labels W padding None None rendered) (\<lambda>body.
              Returns (write_header W @
                write_location_line W (start_line loc) (start_col loc + 1) padding loc_filename @
                write_empty_gutter W padding @ body @ write_notes W padding)))))"

section \<open>Sorting with a comparison function\<close>

text \<open>
  The contract \<^verbatim>\<open>sort_by\<close> asks of its comparison: on the elements it is used for it returns, and it is
  the comparison of a key in a linear order.
\<close>

locale comparison =
  fixes c :: "'a \<Rightarrow> 'a \<Rightarrow> ordering outcome" and dom :: "'a \<Rightarrow> bool" and key :: "'a \<Rightarrow> 'k::linorder"
  assumes by_key: "dom a \<Longrightarrow> dom b \<Longrightarrow> c a b = Returns (cmp (key a) (key b))"
begin

lemma insert_by_key: "dom x \<Longrightarrow> \<forall>y \<in> set ys. dom y \<Longrightarrow> insert_by c x ys = Returns (insort_key key x ys)"
  by (induction ys) (auto simp: by_key not_less)

lemma sort_by_key: "\<forall>x \<in> set xs. dom x \<Longrightarrow> sort_by c xs = Returns (sort_key key xs)"
proof (induction xs)
  case Nil
  then show ?case by simp
next
  case (Cons x xs)
  then show ?case using insert_by_key [of x "sort_key key xs"] by simp
qed

end

definition span_key :: "diag_span \<Rightarrow> nat \<times> nat \<times> nat" where
  "span_key s = (ds_module s, span_start (ds_span s), span_end (ds_span s))"

definition label_key :: "label \<Rightarrow> (nat \<times> nat \<times> nat) \<times> bool" where
  "label_key l = (span_key (the (label_span l)), label_ty l = Secondary)"

lemma diag_span_cmp_key: "diag_span_cmp a b = cmp (span_key a) (span_key b)"
  by (auto simp: diag_span_cmp_def span_cmp_def cmp_def span_key_def span_start_def span_end_def as_usize_def
      word_less_nat_alt word_unat_eq_iff split: ordering.splits)

lemma cmp_pair: "cmp (x, y) (x', y') = (case cmp x x' of Equal \<Rightarrow> cmp y y' | ord \<Rightarrow> ord)"
  by (auto simp: cmp_def)

lemma cmp_bool: "cmp False True = Less" "cmp True False = Greater"
  by (simp_all add: cmp_def)

interpretation render_order: comparison cmp_labels_for_render "\<lambda>l. label_span l \<noteq> None" label_key
proof unfold_locales
  fix a b :: label assume "label_span a \<noteq> None" and "label_span b \<noteq> None"
  then obtain s t where "label_span a = Some s" "label_span b = Some t" by auto
  then show "cmp_labels_for_render a b = Returns (cmp (label_key a) (label_key b))"
    by (cases "label_ty a"; cases "label_ty b")
      (auto simp: cmp_labels_for_render_def label_key_def diag_span_cmp_key cmp_pair cmp_bool split: ordering.splits)
qed

section \<open>The renderer does not panic\<close>

lemma ilog10_mono: "m \<le> n \<Longrightarrow> ilog10 m \<le> ilog10 n"
proof (induction n arbitrary: m rule: ilog10.induct)
  case (1 n)
  show ?case
  proof (cases "m < 10")
    case True
    then show ?thesis by (simp add: ilog10.simps)
  next
    case False
    then have n: "\<not> n < 10" using 1(2) by simp
    have "ilog10 (m div 10) \<le> ilog10 (n div 10)" by (rule 1(1) [OF n]) (simp add: 1(2) div_le_mono)
    with False n show ?thesis by (simp add: ilog10.simps [of m] ilog10.simps [of n])
  qed
qed

lemma line_number_width_mono: "m \<le> n \<Longrightarrow> line_number_width m \<le> line_number_width n"
  by (simp add: line_number_width_def ilog10_mono)

lemma max_line_number_ge:
  assumes "r \<in> set rs"
  shows "start_line r \<le> max_line_number rs" and "end_line r \<le> max_line_number rs"
proof -
  have "m \<le> foldl (\<lambda>m r. max m (max (start_line r) (end_line r))) m rs \<and>
    (\<forall>r \<in> set rs. max (start_line r) (end_line r) \<le> foldl (\<lambda>m r. max m (max (start_line r) (end_line r))) m rs)" for m
    by (induction rs arbitrary: m) (auto, (meson max.bounded_iff order_trans)+)
  with assms show "start_line r \<le> max_line_number rs" and "end_line r \<le> max_line_number rs"
    by (auto simp: max_line_number_def)
qed

definition label_ok :: "writer \<Rightarrow> diag_span \<Rightarrow> bool" where
  "label_ok W s \<longleftrightarrow> (\<exists>src. ds_module s < length (modules W) \<and> source (modules W ! ds_module s) = Some src \<and>
     span_start (ds_span s) \<le> length src \<and> span_end (ds_span s) \<le> length src)"

lemma line_col_returns:
  assumes "memx_ok M" and "offset \<le> length str"
  shows "line_col M str offset = Returns (line_of str offset, col_of str offset)"
  using line_col_loop_correct [OF assms, of 0 1] by (simp add: line_col_def)

lemma render_labels_returns:
  assumes "memx_ok (search W)" and "\<forall>l \<in> set ls. \<exists>s. label_span l = Some s \<and> label_ok W s"
  shows "\<exists>rs. render_labels W ls = Returns rs \<and> map rl_label rs = ls \<and> (\<forall>r \<in> set rs. label_ok W (rl_span r))"
  using assms(2)
proof (induction ls)
  case Nil
  then show ?case by simp
next
  case (Cons l ls)
  then obtain s src where s: "label_span l = Some s" "label_ok W s" and
    src: "ds_module s < length (modules W)" "source (modules W ! ds_module s) = Some src"
      "span_start (ds_span s) \<le> length src" "span_end (ds_span s) \<le> length src" by (auto simp: label_ok_def)
  obtain r where "render_label_of W l = Returns r" "rl_label r = l" "rl_span r = s"
    using s src line_col_returns [OF assms(1)]
    by (simp add: render_label_of_def module_content_def start_line_col_def end_line_col_def)
  with Cons s show ?case by (auto simp: bind_outcome_Returns_iff)
qed

lemma write_source_line_returns:
  "line_number_width line \<le> padding \<Longrightarrow> \<exists>t. write_source_line W padding lines line cl = Returns t"
  by (auto simp: write_source_line_def Let_def)

lemma write_single_returns:
  "\<forall>line \<in> set ls. line_number_width line \<le> padding \<Longrightarrow> \<exists>t. write_single W padding lines cl r ls = Returns t"
proof (induction ls arbitrary: cl)
  case Nil
  then show ?case by simp
next
  case (Cons line ls)
  obtain src where "write_source_line W padding lines line cl = Returns src"
    using write_source_line_returns Cons.prems by fastforce
  moreover obtain out cl' where "write_single W padding lines (Some line) r ls = Returns (out, cl')"
    using Cons by fastforce
  ultimately show ?case by (simp split: prod.splits)
qed

lemma write_labels_returns:
  assumes "\<forall>r \<in> set rs. label_ok W (rl_span r) \<and> line_number_width (start_line r) \<le> padding \<and>
      line_number_width (end_line r) \<le> padding"
  shows "\<exists>t. write_labels W padding cm cl rs = Returns t"
  using assms
proof (induction "length rs" arbitrary: rs cm cl rule: less_induct)
  case less
  show ?case
  proof (cases rs)
    case Nil
    then show ?thesis by simp
  next
    case (Cons r rest)
    define n where "n = group_size r rest"
    from less.prems Cons obtain src where
      src: "module_content W (rl_span r) = Returns src" "module_path W (ds_module (rl_span r)) = Returns (path (modules W ! ds_module (rl_span r)))"
      by (auto simp: label_ok_def module_content_def module_path_def)
    have lines: "\<forall>line \<in> set [start_line r..<Suc (end_line r)]. line_number_width line \<le> padding"
    proof
      fix line assume "line \<in> set [start_line r..<Suc (end_line r)]"
      then have "line_number_width line \<le> line_number_width (end_line r)" by (intro line_number_width_mono) auto
      also have "\<dots> \<le> padding" using less.prems Cons by simp
      finally show "line_number_width line \<le> padding" .
    qed
    have gh: "\<exists>t. write_group W padding ls c (take n (r # rest)) = Returns t" if "n > 1" for ls c
    proof -
      have "hd (take n (r # rest)) = r" using that by (cases n) auto
      moreover obtain t where "write_source_line W padding ls (start_line r) c = Returns t"
        using write_source_line_returns less.prems Cons by fastforce
      ultimately show ?thesis by (simp add: write_group_def)
    qed
    have sg: "\<exists>t. write_single W padding ls c r [start_line r..<Suc (end_line r)] = Returns t" for ls c
      using write_single_returns [OF lines] .
    define c where "c = (if Some (ds_module (rl_span r)) \<noteq> cm then None else cl)"
    obtain out cl' where body: "(if n > 1 then write_group W padding (str_lines src) c (take n (r # rest))
      else write_single W padding (str_lines src) c r [start_line r..<Suc (end_line r)]) = Returns (out, cl')"
      using gh [of "str_lines src" c] sg [of "str_lines src" c] by (cases "n > 1") auto
    obtain t where "write_labels W padding (Some (ds_module (rl_span r))) cl' (drop (n - 1) rest) = Returns t"
      using less.hyps [of "drop (n - 1) rest"] less.prems Cons by (force dest: in_set_dropD)
    with body [unfolded c_def n_def] src show ?thesis unfolding Cons
      by (simp add: Let_def n_def del: upt_Suc split del: if_split)
  qed
qed

section \<open>The underline row\<close>

text \<open>Labels of one line, from left to right, none empty and none overlapping the one before.\<close>

fun apart_from :: "nat \<Rightarrow> render_label list \<Rightarrow> bool" where
  "apart_from col [] = True"
| "apart_from col (r # rs) = (col \<le> start_col r \<and> start_col r < end_col r \<and> apart_from (end_col r) rs)"

text \<open>The character the row has in a column.\<close>

definition underline_at :: "render_label list \<Rightarrow> nat \<Rightarrow> char" where
  "underline_at rs col =
     (case find (\<lambda>r. start_col r \<le> col \<and> col < end_col r) rs of
        Some r \<Rightarrow> caret_of (label_ty (rl_label r)) | None \<Rightarrow> CHR '' '')"

lemma apart_from_le: "apart_from col rs \<Longrightarrow> r \<in> set rs \<Longrightarrow> col \<le> start_col r"
  by (induction rs arbitrary: col) (auto, fastforce)

lemma underline_at_left: "apart_from col rs \<Longrightarrow> c < col \<Longrightarrow> underline_at rs c = CHR '' ''"
proof -
  assume a: "apart_from col rs" and c: "c < col"
  have "\<not> (start_col r \<le> c \<and> c < end_col r)" if "r \<in> set rs" for r
    using apart_from_le [OF a that] c by simp
  then have "find (\<lambda>r. start_col r \<le> c \<and> c < end_col r) rs = None" by (auto simp: find_None_iff)
  then show ?thesis by (simp add: underline_at_def)
qed

lemma write_underlines_row:
  assumes "\<not> use_color W" and "apart_from cur rs"
  shows "\<exists>row msg. write_underlines W cur rs = row @ msg \<and>
    cur + length row = (if rs = [] then cur else end_col (last rs)) \<and>
    (\<forall>i < length row. row ! i = underline_at rs (cur + i))"
  using assms(2)
proof (induction rs arbitrary: cur)
  case Nil
  then show ?case by simp
next
  case (Cons r rs)
  let ?ch = "caret_of (label_ty (rl_label r))"
  define own where "own = replicate (start_col r - cur) (CHR '' '') @ replicate (end_col r - start_col r) ?ch"
  have len: "cur + length own = end_col r" using Cons.prems by (simp add: own_def)
  have at: "own ! i = underline_at (r # rs) (cur + i)" if "i < length own" for i
  proof (cases "i < start_col r - cur")
    case True
    then have "own ! i = CHR '' ''" by (simp add: own_def nth_append)
    moreover have "underline_at (r # rs) (cur + i) = underline_at rs (cur + i)"
      using True by (auto simp: underline_at_def)
    moreover have "underline_at rs (cur + i) = CHR '' ''"
      using True Cons.prems by (intro underline_at_left [of "end_col r"]) auto
    ultimately show ?thesis by simp
  next
    case False
    then have "start_col r \<le> cur + i" "cur + i < end_col r" using that len by linarith+
    then show ?thesis using False that Cons.prems by (simp add: own_def nth_append underline_at_def)
  qed
  have max1: "max (end_col r - start_col r) 1 = end_col r - start_col r" using Cons.prems by (auto simp: max_def)
  have step: "write_underlines W cur (r # rs) = own @
      (if rs = [] \<and> label_message (rl_label r) \<noteq> '''' then '' '' @ label_message (rl_label r) else []) @
      write_underlines W (end_col r) rs"
    using assms(1) Cons.prems max1 by (simp add: Let_def own_def write_styled_def write_padding_def)
  show ?case
  proof (cases "rs = []")
    case True
    with step len at show ?thesis by (intro exI [of _ own] exI) auto
  next
    case False
    obtain row msg where ih: "write_underlines W (end_col r) rs = row @ msg"
      "end_col r + length row = end_col (last rs)" "\<forall>i < length row. row ! i = underline_at rs (end_col r + i)"
      using Cons.IH [of "end_col r"] Cons.prems False by auto
    have "(own @ row) ! i = underline_at (r # rs) (cur + i)" if "i < length (own @ row)" for i
    proof (cases "i < length own")
      case True
      then show ?thesis using at by (simp add: nth_append)
    next
      case off: False
      have "end_col r + (i - length own) = cur + i" using off len by linarith
      moreover have "i - length own < length row" using off that by simp
      ultimately have "row ! (i - length own) = underline_at rs (cur + i)" using ih(3) by metis
      moreover have "\<not> cur + i < end_col r" using off len by simp
      ultimately show ?thesis using off by (simp add: nth_append underline_at_def)
    qed
    with step False ih len show ?thesis by (intro exI [of _ "own @ row"] exI [of _ msg]) auto
  qed
qed

section \<open>Properties\<close>

text \<open>
  The comparison handed to \<^verbatim>\<open>sort_by\<close> is a total order on the labels that are rendered, so the sort
  does not panic and is the stable sort by module, start, end, and primary before secondary.
\<close>

theorem label_render_order:
  "sort_by cmp_labels_for_render (filter (\<lambda>l. label_span l \<noteq> None) ls)
     = Returns (sort_key label_key (filter (\<lambda>l. label_span l \<noteq> None) ls))"
  by (rule render_order.sort_by_key) simp

text \<open>
  C32: Rendering a diagnostic whose label spans lie inside loaded modules never panics, whatever the
  number, order, nesting and length of the labels (no slice out of range, no unloaded source, no
  underflow in the padding of line numbers), and the text starts with the header line.
\<close>

theorem diag_write_safe:
  assumes "memx_ok (search W)"
    and "\<forall>l \<in> set (diag_labels (diagnostic W)). \<forall>s. label_span l = Some s \<longrightarrow> label_ok W s"
  shows "\<exists>t. diag_write W = Returns (write_header W @ t)"
proof -
  let ?ls = "sort_key label_key (filter (\<lambda>l. label_span l \<noteq> None) (diag_labels (diagnostic W)))"
  have s: "sort_by cmp_labels_for_render (filter (\<lambda>l. label_span l \<noteq> None) (diag_labels (diagnostic W))) = Returns ?ls"
    by (rule render_order.sort_by_key) simp
  show ?thesis
  proof (cases "?ls = []")
    case True
    then show ?thesis using s by (simp add: diag_write_def)
  next
    case False
    obtain rs where rs: "render_labels W ?ls = Returns rs" "map rl_label rs = ?ls" "\<forall>r \<in> set rs. label_ok W (rl_span r)"
      using render_labels_returns [OF assms(1), of ?ls] assms(2) by auto
    then have ne: "rs \<noteq> []" using False by auto
    let ?p = "line_number_width (max_line_number rs)"
    obtain body where body: "write_labels W ?p None None rs = Returns body"
      using write_labels_returns [of rs W ?p None None] rs(3) max_line_number_ge line_number_width_mono by blast
    define loc where "loc = (case find (\<lambda>r. label_ty (rl_label r) = Primary) rs of Some r \<Rightarrow> r | None \<Rightarrow> hd rs)"
    have "loc \<in> set rs" using ne by (auto simp: loc_def find_Some_iff split: option.splits)
    then have "ds_module (rl_span loc) < length (modules W)" using rs(3) by (auto simp: label_ok_def)
    with s False rs(1) body show ?thesis
      by (simp add: diag_write_def Let_def loc_def [symmetric] module_path_def)
  qed
qed

definition sample_writer :: "string list \<Rightarrow> label list \<Rightarrow> writer" where
  "sample_writer ns ls = \<lparr>diagnostic = (diag_new Error)\<lparr>diag_labels := ls, diag_notes := ns\<rparr>,
     modules = [\<lparr>path = ''m.vif'', source = Some ''var x''\<rparr>],
     use_color = False, paint = (\<lambda>_ t. t), search = memx_scan\<rparr>"

definition sample_label :: "u32 \<Rightarrow> u32 \<Rightarrow> label" where
  "sample_label s e = label_with_span label_primary \<lparr>ds_module = 0, ds_span = \<lparr>span_start_at = s, span_end_at = e\<rparr>\<rparr>"

theorem diag_write_safe_witness:
  "\<exists>t. diag_write (sample_writer [] [sample_label 4 5, sample_label 0 3]) = Returns (''error: '' @ [CHR 0x0A] @ t)"
  using diag_write_safe [of "sample_writer [] [sample_label 4 5, sample_label 0 3]"]
  by (simp add: sample_writer_def sample_label_def label_with_span_def label_primary_def label_new_def label_ok_def
      diag_new_def span_start_def span_end_def as_usize_def write_header_def write_styled_def)

text \<open>
  A diagnostic none of whose labels has a span is rendered as its header only: its notes are not
  written.
\<close>

theorem notes_need_a_label:
  assumes "\<forall>l \<in> set (diag_labels (diagnostic W)). label_span l = None"
  shows "diag_write W = Returns (write_header W)"
  using assms by (simp add: diag_write_def filter_False)

theorem notes_need_a_label_witness: "diag_write (sample_writer [''a note''] []) = Returns (''error: '' @ [CHR 0x0A])"
  using notes_need_a_label [of "sample_writer [''a note''] []"]
  by (simp add: sample_writer_def diag_new_def write_header_def write_styled_def)

text \<open>
  Without colours, the combined underline row of labels that follow each other on one line has in
  every column the caret of the label that covers it and a blank where none does, and it ends with the
  last label.
\<close>

theorem underline_row_columns:
  assumes "\<not> use_color W" and "apart_from 0 (r # rs)"
  shows "\<exists>row msg. write_underlines W 0 (r # rs) = row @ msg \<and> length row = end_col (last (r # rs)) \<and>
    (\<forall>i < length row. row ! i = underline_at (r # rs) i)"
  using write_underlines_row [OF assms] by auto

theorem underline_row_columns_witness:
  "\<exists>row msg. write_underlines (sample_writer [] []) 0
     [\<lparr>rl_label = sample_label 4 5, rl_span = \<lparr>ds_module = 0, ds_span = span_default\<rparr>,
       start_line = 1, start_col = 4, end_line = 1, end_col = 5\<rparr>] = row @ msg \<and> length row = 5 \<and> row ! 4 = CHR ''^''"
  using underline_row_columns [of "sample_writer [] []" "\<lparr>rl_label = sample_label 4 5, rl_span = \<lparr>ds_module = 0, ds_span = span_default\<rparr>,
       start_line = 1, start_col = 4, end_line = 1, end_col = 5\<rparr>" "[]"]
  by (auto simp: sample_writer_def sample_label_def underline_at_def label_with_span_def label_primary_def label_new_def caret_of_def)

end
