(* ===== verification/Vif_Lexer.thy ===== *)
theory Vif_Lexer
  imports Vif_Token Vif_Diagnostic
begin

text \<open>
  The lexer, \<^verbatim>\<open>src/frontend/lexer.rs\<close>: the record \<open>lexer\<close> is \<^verbatim>\<open>struct Lexer\<close>, \<open>lex_ctx\<close> adds the local
  variables of \<^verbatim>\<open>Lexer::next\<close>, and every arm of its state machine is one definition named after the
  state. Reads through \<^verbatim>\<open>get_unchecked\<close>, slice indexing, offsets that would go below zero,
  \<^verbatim>\<open>unreachable_unchecked\<close> and failed \<^verbatim>\<open>assume!\<close>s are faults, values of \<open>lex_fault\<close>. The two loops that may
  run forever, \<^verbatim>\<open>eat_until_newline\<close> and the state machine itself, are partial functions in the option
  monad, where \<^verbatim>\<open>None\<close> means that the call does not return.
\<close>

section \<open>State\<close>

datatype lex_fault = OutOfBounds | SlicePanic | Underflow | Unreachable | AssumeFailed | SpanRange

text \<open>
  The crates the lexer calls: \<^verbatim>\<open>memx\<close>, \<^verbatim>\<open>sorted_insert\<close>, and the perfect hash map that \<^verbatim>\<open>hashify\<close>
  generates from the keyword entries.
\<close>

record crates =
  mx :: memx
  sorted_insert_by :: sorted_insert
  tiny_map :: "(string \<times> token_kind) list \<Rightarrow> byte list \<Rightarrow> token_kind option"

definition crates_ok :: "crates \<Rightarrow> bool" where
  "crates_ok X \<longleftrightarrow> memx_ok (mx X) \<and> (\<forall>l le. sorted_insert_by X [] l le = [l]) \<and>
     (\<forall>t s. tiny_map X t s = map_of t s)"

record lexer =
  bytes :: "byte list"
  len :: nat
  offset :: nat
  tok_start :: nat
  lex_module :: module_id
  errors :: "diagnostic list"
  scratch_pad :: "byte list"

record lex_ctx = lexer +
  kind :: token_kind
  seen_digit :: bool

datatype lex_state =
    S0 | S_Minus | S_MinusPipe | S_Plus | S_PlusPipe | S_Star | S_StarPipe | S_StarStar
  | S_Slash | S_Percent | S_Caret | S_Amp | S_Pipe | S_Bang | S_Tilde | S_Eq | S_Hash | S_At | S_Dollar
  | S_Lt | S_LtLt | S_LtLtPipe | S_LtLtPercent | S_Gt | S_GtGt | S_GtGtPipe | S_GtGtPercent
  | S_AmpAmp | S_PipePipe | S_Dot | S_DotDot | S_Underscore | S_Backslash | S_LineComment
  | S_Ident | S_Str | S_EscapeStr | S_IntZero | S_IntBin | S_IntOct | S_IntHex | S_IntDec
  | S_FloatDot1 | S_FloatDot2 | S_FloatExp1 | S_FloatExp2

text \<open>How an arm ends: \<^verbatim>\<open>break 'state st\<close> or \<^verbatim>\<open>break 'lexer\<close>.\<close>

datatype control = Goto lex_state lex_ctx | Done lex_ctx

fun bindr :: "'e + 'a \<Rightarrow> ('a \<Rightarrow> 'e + 'b) \<Rightarrow> 'e + 'b" where
  "bindr (Inl e) f = Inl e"
| "bindr (Inr x) f = f x"

lemma bindr_Inr_iff: "bindr m f = Inr y \<longleftrightarrow> (\<exists>x. m = Inr x \<and> f x = Inr y)"
  by (cases m) auto

abbreviation EOF :: byte where "EOF \<equiv> CHR 0x00"
abbreviation QUOTE :: byte where "QUOTE \<equiv> CHR 0x22"
abbreviation BACKSLASH :: byte where "BACKSLASH \<equiv> CHR 0x5C"
abbreviation LF :: byte where "LF \<equiv> CHR 0x0A"
abbreviation CR :: byte where "CR \<equiv> CHR 0x0D"

definition lexer_new :: "byte list \<Rightarrow> module_id \<Rightarrow> lexer outcome" where
  "lexer_new src m =
     (if src = [] then Panics
      else Returns \<lparr>bytes = src, len = length src - 1, offset = 0, tok_start = 0, lex_module = m,
                    errors = [], scratch_pad = []\<rparr>)"

definition take_errors :: "lexer \<Rightarrow> diagnostic list \<times> lexer" where
  "take_errors lx = (errors lx, lx\<lparr>errors := []\<rparr>)"

section \<open>Reading\<close>

definition peek :: "'a lexer_scheme \<Rightarrow> lex_fault + byte" where
  "peek lx = (if offset lx < length (bytes lx) then Inr (bytes lx ! offset lx) else Inl OutOfBounds)"

definition bump :: "'a lexer_scheme \<Rightarrow> lex_fault + byte \<times> 'a lexer_scheme" where
  "bump lx = bindr (peek lx) (\<lambda>b. Inr (b, lx\<lparr>offset := offset lx + 1\<rparr>))"

definition is_eof :: "'a lexer_scheme \<Rightarrow> bool" where
  "is_eof lx \<longleftrightarrow> offset lx \<ge> len lx"

text \<open>\<^verbatim>\<open>self.offset -= n\<close>\<close>

definition unread :: "nat \<Rightarrow> 'a lexer_scheme \<Rightarrow> lex_fault + 'a lexer_scheme" where
  "unread n lx = (if n \<le> offset lx then Inr (lx\<lparr>offset := offset lx - n\<rparr>) else Inl Underflow)"

text \<open>\<^verbatim>\<open>self.bytes[i]\<close> and \<^verbatim>\<open>&self.bytes[a..b]\<close>, which panic out of range.\<close>

definition byte_at :: "'a lexer_scheme \<Rightarrow> nat \<Rightarrow> lex_fault + byte" where
  "byte_at lx i = (if i < length (bytes lx) then Inr (bytes lx ! i) else Inl SlicePanic)"

definition slice_of :: "'a lexer_scheme \<Rightarrow> nat \<Rightarrow> nat \<Rightarrow> lex_fault + byte list" where
  "slice_of lx a b = (case slice (bytes lx) a b of Returns s \<Rightarrow> Inr s | Panics \<Rightarrow> Inl SlicePanic)"

definition rest_of :: "'a lexer_scheme \<Rightarrow> lex_fault + byte list" where
  "rest_of lx = slice_of lx (offset lx) (length (bytes lx))"

text \<open>The text of the token so far.\<close>

definition lexeme :: "'a lexer_scheme \<Rightarrow> lex_fault + byte list" where
  "lexeme lx = slice_of lx (tok_start lx) (offset lx)"

text \<open>\<^verbatim>\<open>while likely(P(self.peek())) { self.offset += 1; }\<close>\<close>

function eat_while :: "(byte \<Rightarrow> bool) \<Rightarrow> 'a lexer_scheme \<Rightarrow> lex_fault + 'a lexer_scheme" where
  "eat_while P lx =
     (if offset lx < length (bytes lx)
      then if P (bytes lx ! offset lx) then eat_while P (lx\<lparr>offset := offset lx + 1\<rparr>) else Inr lx
      else Inl OutOfBounds)"
  by pat_completeness auto
termination
  by (relation "measure (\<lambda>(_, lx). length (bytes lx) - offset lx)") auto

text \<open>The same loop in the number states, which also notes a digit that is not an underscore.\<close>

function eat_digits :: "(byte \<Rightarrow> bool) \<Rightarrow> lex_ctx \<Rightarrow> lex_fault + lex_ctx" where
  "eat_digits P c =
     (if offset c < length (bytes c)
      then if P (bytes c ! offset c)
           then eat_digits P (c\<lparr>seen_digit := seen_digit c \<or> bytes c ! offset c \<noteq> CHR ''_'', offset := offset c + 1\<rparr>)
           else Inr c
      else Inl OutOfBounds)"
  by pat_completeness auto
termination
  by (relation "measure (\<lambda>(_, c). length (bytes c) - offset c)") auto

declare eat_while.simps [simp del] eat_digits.simps [simp del]

partial_function (option) eat_until_newline :: "crates \<Rightarrow> lex_ctx \<Rightarrow> (lex_fault + lex_ctx) option" where
  "eat_until_newline X lx =
     (case rest_of lx of
        Inl e \<Rightarrow> Some (Inl e)
      | Inr rest \<Rightarrow>
          (case memchr_dbl (mx X) rest LF CR of
             None \<Rightarrow> Some (Inr lx)
           | Some off \<Rightarrow>
               (case byte_at lx (offset lx + off) of
                  Inl e \<Rightarrow> Some (Inl e)
                | Inr b \<Rightarrow>
                    if b = LF then Some (Inr (lx\<lparr>offset := offset lx + off\<rparr>))
                    else if offset lx + off + 1 < len lx \<and> byte_at lx (offset lx + off + 1) = Inr LF
                    then eat_until_newline X (lx\<lparr>offset := offset lx + off + 1\<rparr>)
                    else eat_until_newline X (lx\<lparr>offset := offset lx + off\<rparr>))))"

definition eat_until :: "crates \<Rightarrow> byte \<Rightarrow> 'a lexer_scheme \<Rightarrow> lex_fault + 'a lexer_scheme" where
  "eat_until X needle lx =
     bindr (rest_of lx) (\<lambda>rest.
       Inr (case memchr (mx X) rest needle of
              Some off \<Rightarrow> lx\<lparr>offset := offset lx + off\<rparr>
            | None \<Rightarrow> lx\<lparr>offset := len lx\<rparr>))"

definition eat_until3 :: "crates \<Rightarrow> byte \<Rightarrow> byte \<Rightarrow> byte \<Rightarrow> 'a lexer_scheme \<Rightarrow> lex_fault + 'a lexer_scheme" where
  "eat_until3 X n1 n2 n3 lx =
     bindr (rest_of lx) (\<lambda>rest.
       Inr (case memchr_tpl (mx X) rest n1 n2 n3 of
              Some off \<Rightarrow> lx\<lparr>offset := offset lx + off\<rparr>
            | None \<Rightarrow> lx\<lparr>offset := len lx\<rparr>))"

definition recover_invalid_string :: "crates \<Rightarrow> 'a lexer_scheme \<Rightarrow> lex_fault + 'a lexer_scheme" where
  "recover_invalid_string X lx0 =
     (let lx = lx0\<lparr>scratch_pad := []\<rparr>
      in if offset lx \<ge> len lx then Inr (lx\<lparr>offset := len lx\<rparr>)
         else bindr (rest_of lx) (\<lambda>rest.
           case memchr_tpl (mx X) rest QUOTE LF CR of
             Some off \<Rightarrow>
               (let lx = lx\<lparr>offset := offset lx + off\<rparr>
                in bindr (byte_at lx (offset lx)) (\<lambda>b.
                     Inr (if b = QUOTE then lx\<lparr>offset := offset lx + 1\<rparr> else lx)))
           | None \<Rightarrow> Inr (lx\<lparr>offset := len lx\<rparr>)))"

section \<open>Diagnostics\<close>

definition lexer_span :: "'a lexer_scheme \<Rightarrow> lex_fault + span" where
  "lexer_span lx = (case span_new (tok_start lx) (offset lx) of Returns s \<Rightarrow> Inr s | Panics \<Rightarrow> Inl SpanRange)"

definition lexer_diag_span :: "'a lexer_scheme \<Rightarrow> span \<Rightarrow> diag_span" where
  "lexer_diag_span lx s = \<lparr>ds_module = lex_module lx, ds_span = s\<rparr>"

definition push_error :: "crates \<Rightarrow> string \<Rightarrow> 'a lexer_scheme \<Rightarrow> lex_fault + 'a lexer_scheme" where
  "push_error X msg lx =
     bindr (lexer_span lx) (\<lambda>s.
       Inr (lx\<lparr>errors := errors lx @
         [with_label (sorted_insert_by X) (with_message diag_error msg)
            (label_with_span label_primary (lexer_diag_span lx s))]\<rparr>))"

definition diag_unexpected_eof :: "crates \<Rightarrow> 'a lexer_scheme \<Rightarrow> lex_fault + 'a lexer_scheme" where
  "diag_unexpected_eof X = push_error X ''unexpected end of file''"

definition diag_unexpected_character :: "crates \<Rightarrow> byte \<Rightarrow> 'a lexer_scheme \<Rightarrow> lex_fault + 'a lexer_scheme" where
  "diag_unexpected_character X chr = push_error X (''unexpected character '' @ [CHR 0x27, chr, CHR 0x27])"

definition diag_invalid_escape_sequence :: "crates \<Rightarrow> 'a lexer_scheme \<Rightarrow> lex_fault + 'a lexer_scheme" where
  "diag_invalid_escape_sequence X = push_error X ''invalid escape sequence''"

definition diag_invalid_unicode_escape :: "crates \<Rightarrow> 'a lexer_scheme \<Rightarrow> lex_fault + 'a lexer_scheme" where
  "diag_invalid_unicode_escape X = push_error X ''invalid unicode escape''"

definition diag_invalid_float_literal :: "crates \<Rightarrow> 'a lexer_scheme \<Rightarrow> lex_fault + 'a lexer_scheme" where
  "diag_invalid_float_literal X = push_error X ''invalid float literal''"

definition diag_invalid_integer_literal :: "crates \<Rightarrow> 'a lexer_scheme \<Rightarrow> lex_fault + 'a lexer_scheme" where
  "diag_invalid_integer_literal X = push_error X ''invalid integer literal''"

definition diag_invalid_integer_bit_width :: "crates \<Rightarrow> 'a lexer_scheme \<Rightarrow> lex_fault + 'a lexer_scheme" where
  "diag_invalid_integer_bit_width X = push_error X ''invalid integer bit width''"

text \<open>\<^verbatim>\<open>kind = TokenKind::Invalid; break 'lexer;\<close>\<close>

definition done_invalid :: "lex_ctx \<Rightarrow> lex_fault + control" where
  "done_invalid c = Inr (Done (c\<lparr>kind := Invalid\<rparr>))"

end
