(* ===== verification/Vif_Lexer_States.thy ===== *)
theory Vif_Lexer_States
  imports Vif_Lexer
begin

text \<open>
  The arms of the state machine in \<^verbatim>\<open>Lexer::next\<close> (\<^verbatim>\<open>src/frontend/lexer.rs\<close>), one definition per state, and
  the loop that runs them.
\<close>

section \<open>Operators\<close>

text \<open>
  The common shape of the operator states: a byte with an arm of its own sets the kind and either ends
  the token or goes on to another state; every other byte is put back and ends the token.
\<close>

definition match_op :: "(byte \<times> token_kind \<times> lex_state option) list \<Rightarrow> lex_ctx \<Rightarrow> lex_fault + control" where
  "match_op arms c0 =
     bindr (bump c0) (\<lambda>(b, c).
       case map_of arms b of
         Some (k, None) \<Rightarrow> Inr (Done (c\<lparr>kind := k\<rparr>))
       | Some (k, Some st) \<Rightarrow> Inr (Goto st (c\<lparr>kind := k\<rparr>))
       | None \<Rightarrow> bindr (unread 1 c) (\<lambda>c. Inr (Done c)))"

definition on_Minus :: "lex_ctx \<Rightarrow> lex_fault + control" where
  "on_Minus = match_op [(CHR ''='', Op2 MinusEq, None), (CHR ''|'', Op2 MinusPipe, Some S_MinusPipe)]"

definition on_MinusPipe :: "lex_ctx \<Rightarrow> lex_fault + control" where
  "on_MinusPipe = match_op [(CHR ''='', Op3 MinusPipeEq, None)]"

definition on_Plus :: "lex_ctx \<Rightarrow> lex_fault + control" where
  "on_Plus = match_op [(CHR ''='', Op2 PlusEq, None), (CHR ''|'', Op2 PlusPipe, Some S_PlusPipe)]"

definition on_PlusPipe :: "lex_ctx \<Rightarrow> lex_fault + control" where
  "on_PlusPipe = match_op [(CHR ''='', Op3 PlusPipeEq, None)]"

definition on_Star :: "lex_ctx \<Rightarrow> lex_fault + control" where
  "on_Star = match_op [(CHR ''*'', Op2 StarStar, Some S_StarStar), (CHR ''|'', Op2 StarPipe, Some S_StarPipe)]"

definition on_StarPipe :: "lex_ctx \<Rightarrow> lex_fault + control" where
  "on_StarPipe = match_op [(CHR ''='', Op3 StarPipeEq, None)]"

definition on_StarStar :: "lex_ctx \<Rightarrow> lex_fault + control" where
  "on_StarStar c0 = bindr (bump c0) (\<lambda>(_, c). bindr (unread 1 c) (\<lambda>c. Inr (Done c)))"

definition on_Slash :: "lex_ctx \<Rightarrow> lex_fault + control" where
  "on_Slash c0 =
     bindr (bump c0) (\<lambda>(b, c).
       if b = CHR ''='' then Inr (Done (c\<lparr>kind := Op2 SlashEq\<rparr>))
       else if b = CHR ''/'' then Inr (Goto S_LineComment c)
       else bindr (unread 1 c) (\<lambda>c. Inr (Done c)))"

definition on_Percent :: "lex_ctx \<Rightarrow> lex_fault + control" where
  "on_Percent = match_op [(CHR ''='', Op2 PercentEq, None)]"

definition on_Caret :: "lex_ctx \<Rightarrow> lex_fault + control" where
  "on_Caret = match_op [(CHR ''='', Op2 CaretEq, None)]"

definition on_Amp :: "lex_ctx \<Rightarrow> lex_fault + control" where
  "on_Amp = match_op [(CHR ''='', Op2 AmpEq, None), (CHR ''&'', Op2 AmpAmp, Some S_AmpAmp)]"

definition on_AmpAmp :: "lex_ctx \<Rightarrow> lex_fault + control" where
  "on_AmpAmp = match_op [(CHR ''='', Op3 AmpAmpEq, None)]"

definition on_Pipe :: "lex_ctx \<Rightarrow> lex_fault + control" where
  "on_Pipe = match_op [(CHR ''='', Op2 PipeEq, None), (CHR ''|'', Op2 PipePipe, Some S_PipePipe)]"

definition on_PipePipe :: "lex_ctx \<Rightarrow> lex_fault + control" where
  "on_PipePipe = match_op [(CHR ''='', Op3 PipePipeEq, None)]"

definition on_Bang :: "lex_ctx \<Rightarrow> lex_fault + control" where
  "on_Bang = match_op [(CHR ''='', Op2 BangEq, None)]"

definition on_Tilde :: "lex_ctx \<Rightarrow> lex_fault + control" where
  "on_Tilde = match_op [(CHR ''='', Op2 TildeEq, None)]"

definition on_Eq :: "lex_ctx \<Rightarrow> lex_fault + control" where
  "on_Eq = match_op [(CHR ''='', Op2 EqEq, None), (CHR ''>'', Op2 FatArrow, None)]"

definition on_Lt :: "lex_ctx \<Rightarrow> lex_fault + control" where
  "on_Lt = match_op [(CHR ''='', Op2 LtEq, None), (CHR ''<'', Op2 LtLt, Some S_LtLt)]"

definition on_LtLt :: "lex_ctx \<Rightarrow> lex_fault + control" where
  "on_LtLt = match_op [(CHR ''='', Op3 LtLtEq, None), (CHR ''|'', Op3 LtLtPipe, Some S_LtLtPipe),
     (CHR ''%'', Op3 LtLtPercent, Some S_LtLtPercent)]"

definition on_LtLtPipe :: "lex_ctx \<Rightarrow> lex_fault + control" where
  "on_LtLtPipe = match_op [(CHR ''='', Op4 LtLtPipeEq, None)]"

definition on_LtLtPercent :: "lex_ctx \<Rightarrow> lex_fault + control" where
  "on_LtLtPercent = match_op [(CHR ''='', Op4 LtLtPercentEq, None)]"

definition on_Gt :: "lex_ctx \<Rightarrow> lex_fault + control" where
  "on_Gt = match_op [(CHR ''='', Op2 GtEq, None), (CHR ''>'', Op2 GtGt, Some S_GtGt)]"

definition on_GtGt :: "lex_ctx \<Rightarrow> lex_fault + control" where
  "on_GtGt = match_op [(CHR ''='', Op3 GtGtEq, None), (CHR ''|'', Op3 GtGtPipe, Some S_GtGtPipe),
     (CHR ''%'', Op3 GtGtPercent, Some S_GtGtPercent)]"

definition on_GtGtPipe :: "lex_ctx \<Rightarrow> lex_fault + control" where
  "on_GtGtPipe = match_op [(CHR ''='', Op4 GtGtPipeEq, None)]"

definition on_GtGtPercent :: "lex_ctx \<Rightarrow> lex_fault + control" where
  "on_GtGtPercent = match_op [(CHR ''='', Op4 GtGtPercentEq, None)]"

definition on_Dot :: "lex_ctx \<Rightarrow> lex_fault + control" where
  "on_Dot c0 =
     bindr (bump c0) (\<lambda>(b, c).
       if b = CHR ''.'' then Inr (Goto S_DotDot (c\<lparr>kind := Op2 DotDot\<rparr>))
       else if b = CHR ''*'' then Inr (Done (c\<lparr>kind := Op2 DotStar\<rparr>))
       else if b = CHR ''?'' then Inr (Done (c\<lparr>kind := Op2 DotQuestionMark\<rparr>))
       else if is_digit b then Inr (Goto S_FloatDot2 (c\<lparr>seen_digit := True\<rparr>))
       else bindr (unread 1 c) (\<lambda>c. Inr (Done c)))"

definition on_DotDot :: "lex_ctx \<Rightarrow> lex_fault + control" where
  "on_DotDot = match_op [(CHR ''='', Op3 DotDotEq, None), (CHR ''.'', Op3 Ellipsis, None)]"

definition on_Underscore :: "lex_ctx \<Rightarrow> lex_fault + control" where
  "on_Underscore c0 =
     bindr (bump c0) (\<lambda>(b, c).
       if is_ident_start b then Inr (Goto S_Ident (c\<lparr>kind := Ident '''' User\<rparr>))
       else bindr (unread 1 c) (\<lambda>c. Inr (Done c)))"

section \<open>Directives, sigils, comments\<close>

definition directive_table :: "(byte list \<times> token_kind) list" where
  "directive_table =
     [(''inline'', Dir DirInline), (''packed'', Dir DirPacked), (''linear'', Dir DirLinear),
      (''callconv'', Dir DirCallconv), (''noinline'', Dir DirNoinline), (''volatile'', Dir DirVolatile),
      (''addrspace'', Dir DirAddrspace)]"

definition on_Hash :: "lex_ctx \<Rightarrow> lex_fault + control" where
  "on_Hash c0 =
     bindr (bump c0) (\<lambda>(b, c).
       if is_ident_start b
       then bindr (eat_while is_ident_cont c) (\<lambda>c.
              bindr (slice_of c (tok_start c + 1) (offset c)) (\<lambda>str.
                Inr (Done (c\<lparr>kind := (case map_of directive_table str of Some k \<Rightarrow> k | None \<Rightarrow> DirectiveIdent str)\<rparr>))))
       else bindr (unread 1 c) (\<lambda>c. Inr (Done c)))"

text \<open>The arm for every other byte after \<^verbatim>\<open>@\<close> and \<^verbatim>\<open>$\<close>.\<close>

definition reject_char :: "crates \<Rightarrow> byte \<Rightarrow> lex_ctx \<Rightarrow> lex_fault + control" where
  "reject_char X chr c0 =
     bindr (diag_unexpected_character X chr c0) (\<lambda>c.
       done_invalid (if chr = EOF then c\<lparr>offset := len c\<rparr> else c))"

definition on_At :: "crates \<Rightarrow> lex_ctx \<Rightarrow> lex_fault + control" where
  "on_At X c0 =
     bindr (bump c0) (\<lambda>(b, c).
       if is_ident_start b then Inr (Goto S_Ident (c\<lparr>kind := Ident '''' Builtin\<rparr>))
       else if b = QUOTE then Inr (Goto S_Str (c\<lparr>kind := Ident '''' UserEscaped\<rparr>))
       else reject_char X b c)"

definition on_Dollar :: "crates \<Rightarrow> lex_ctx \<Rightarrow> lex_fault + control" where
  "on_Dollar X c0 =
     bindr (bump c0) (\<lambda>(b, c).
       if is_ident_start b then Inr (Goto S_Ident (c\<lparr>kind := Ident '''' UserComptime\<rparr>))
       else reject_char X b c)"

text \<open>The two arms that call \<^verbatim>\<open>eat_until_newline\<close>, which may not return.\<close>

definition on_Backslash :: "crates \<Rightarrow> lex_ctx \<Rightarrow> (lex_fault + control) option" where
  "on_Backslash X c0 =
     (case bump c0 of
        Inl e \<Rightarrow> Some (Inl e)
      | Inr (b, c) \<Rightarrow>
          if b = BACKSLASH
          then map_option (\<lambda>r. bindr r (\<lambda>c. bindr (slice_of c (tok_start c + 2) (offset c)) (\<lambda>s.
                 Inr (Done (c\<lparr>kind := LitMultiLineStr s\<rparr>))))) (eat_until_newline X c)
          else Some (bindr (unread 1 c) (\<lambda>c. Inr (Done (c\<lparr>kind := Op1 Backslash\<rparr>)))))"

definition on_LineComment :: "crates \<Rightarrow> lex_ctx \<Rightarrow> (lex_fault + control) option" where
  "on_LineComment X c = map_option (\<lambda>r. bindr r (\<lambda>c. Inr (Goto S0 c))) (eat_until_newline X c)"

section \<open>Identifiers\<close>

text \<open>\<^verbatim>\<open>u64::from_ascii_radix(_, 10)\<close> on a string of digits: \<^verbatim>\<open>None\<close> when it does not fit.\<close>

definition decimal_value :: "byte list \<Rightarrow> nat" where
  "decimal_value s = foldl (\<lambda>v b. v * 10 + (of_char b - 48)) 0 s"

definition u64_from_ascii :: "byte list \<Rightarrow> nat option" where
  "u64_from_ascii s = (if s \<noteq> [] \<and> decimal_value s < 2 ^ 64 then Some (decimal_value s) else None)"

definition keyword_candidate :: "crates \<Rightarrow> byte list \<Rightarrow> token_kind option" where
  "keyword_candidate X str =
     (if \<not> (MIN_KEYWORD_LEN \<le> length str \<and> length str \<le> MAX_KEYWORD_LEN) \<or> length str = 10 then None
      else tiny_map X keyword_table str)"

definition is_int_type_name :: "byte list \<Rightarrow> bool" where
  "is_int_type_name str \<longleftrightarrow>
     (str ! 0 = CHR ''u'' \<or> str ! 0 = CHR ''i'') \<and> length str \<ge> 2 \<and> list_all is_digit (tl str)"

definition plain_ident :: "crates \<Rightarrow> byte list \<Rightarrow> lex_ctx \<Rightarrow> lex_fault + control" where
  "plain_ident X str c =
     (case keyword_candidate X str of
        Some k \<Rightarrow> Inr (Done (c\<lparr>kind := k\<rparr>))
      | None \<Rightarrow>
          if str = [] then Inl SlicePanic
          else if is_int_type_name str
          then let bits = (case u64_from_ascii (tl str) of Some n \<Rightarrow> n | None \<Rightarrow> 0)
               in if bits = 0 \<or> bits > 65535
                  then bindr (diag_invalid_integer_bit_width X c) done_invalid
                  else Inr (Done (c\<lparr>kind := (if str ! 0 = CHR ''u'' then TyU (of_nat bits) else TyI (of_nat bits))\<rparr>))
          else Inr (Done (c\<lparr>kind := Ident str User\<rparr>)))"

definition on_Ident :: "crates \<Rightarrow> lex_ctx \<Rightarrow> lex_fault + control" where
  "on_Ident X c0 =
     bindr (eat_while is_ident_cont c0) (\<lambda>c.
       case kind c of
         Ident _ ik \<Rightarrow>
           (case ik of
              UserEscaped \<Rightarrow>
                if offset c = 0 then Inl Underflow
                else bindr (slice_of c (tok_start c + 2) (offset c - 1)) (\<lambda>s. Inr (Done (c\<lparr>kind := Ident s UserEscaped\<rparr>)))
            | Builtin \<Rightarrow> bindr (lexeme c) (\<lambda>s. Inr (Done (c\<lparr>kind := Ident s Builtin\<rparr>)))
            | UserComptime \<Rightarrow> bindr (lexeme c) (\<lambda>s. Inr (Done (c\<lparr>kind := Ident s UserComptime\<rparr>)))
            | User \<Rightarrow> bindr (lexeme c) (\<lambda>str. plain_ident X str c))
       | _ \<Rightarrow> Inl Unreachable)"

section \<open>Strings\<close>

definition hex_value :: "byte \<Rightarrow> lex_fault + nat" where
  "hex_value chr =
     (if \<not> is_ascii_hexdigit chr then Inl AssumeFailed
      else if in_range (CHR ''0'') chr (CHR ''9'') then Inr (of_char chr - 48)
      else if in_range (CHR ''a'') chr (CHR ''f'') then Inr (of_char chr - 97 + 10)
      else Inr (of_char chr - 65 + 10))"

text \<open>\<^verbatim>\<open>char::from_u32\<close> (a Unicode scalar value) and \<^verbatim>\<open>char::encode_utf8\<close>.\<close>

definition char_from_u32 :: "u32 \<Rightarrow> nat option" where
  "char_from_u32 cp =
     (let n = unat cp in if n > 0x10FFFF \<or> (0xD800 \<le> n \<and> n \<le> 0xDFFF) then None else Some n)"

definition encode_utf8 :: "nat \<Rightarrow> byte list" where
  "encode_utf8 n =
     (if n < 0x80 then [char_of n]
      else if n < 0x800 then [char_of (0xC0 + n div 64), char_of (0x80 + n mod 64)]
      else if n < 0x10000 then [char_of (0xE0 + n div 4096), char_of (0x80 + n div 64 mod 64), char_of (0x80 + n mod 64)]
      else [char_of (0xF0 + n div 262144), char_of (0x80 + n div 4096 mod 64), char_of (0x80 + n div 64 mod 64),
            char_of (0x80 + n mod 64)])"

definition invalid_string :: "crates \<Rightarrow> lex_ctx \<Rightarrow> lex_fault + control" where
  "invalid_string X c = bindr (recover_invalid_string X c) done_invalid"

definition on_Str :: "crates \<Rightarrow> lex_ctx \<Rightarrow> lex_fault + control" where
  "on_Str X c0 =
     bindr (bump c0) (\<lambda>(b, c).
       if b = EOF
       then bindr (diag_unexpected_eof X c) (\<lambda>c. invalid_string X (c\<lparr>offset := len c\<rparr>))
       else if b = LF
       then bindr (diag_unexpected_character X LF c) (\<lambda>c. done_invalid (c\<lparr>scratch_pad := []\<rparr>))
       else if b = QUOTE
       then (case kind c of
               LitStr _ \<Rightarrow> Inr (Done (c\<lparr>kind := LitStr (scratch_pad c), scratch_pad := []\<rparr>))
             | Ident _ ik \<Rightarrow> Inr (Done (c\<lparr>kind := Ident (scratch_pad c) ik, scratch_pad := []\<rparr>))
             | _ \<Rightarrow> Inl Unreachable)
       else if b = BACKSLASH then Inr (Goto S_EscapeStr c)
       else let start = offset c - 1
            in bindr (eat_until3 X QUOTE BACKSLASH LF c) (\<lambda>c.
                 bindr (slice_of c start (offset c)) (\<lambda>s.
                   Inr (Goto S_Str (c\<lparr>scratch_pad := scratch_pad c @ s\<rparr>)))))"

definition push_scratch :: "byte list \<Rightarrow> lex_ctx \<Rightarrow> lex_fault + control" where
  "push_scratch s c = Inr (Goto S_Str (c\<lparr>scratch_pad := scratch_pad c @ s\<rparr>))"

abbreviation is_line_end :: "byte \<Rightarrow> bool" where
  "is_line_end b \<equiv> b = LF \<or> b = CR"

definition escape_hex :: "crates \<Rightarrow> lex_ctx \<Rightarrow> lex_fault + control" where
  "escape_hex X c0 =
     bindr (bump c0) (\<lambda>(hi, c).
       if hi = EOF
       then bindr (diag_invalid_escape_sequence X c) (\<lambda>c. invalid_string X (c\<lparr>offset := len c\<rparr>))
       else bindr (bump c) (\<lambda>(lo, c).
         if is_ascii_hexdigit hi \<and> is_ascii_hexdigit lo
         then bindr (hex_value hi) (\<lambda>h. bindr (hex_value lo) (\<lambda>l. push_scratch [char_of (h * 16 + l)] c))
         else bindr (diag_invalid_escape_sequence X c) (\<lambda>c.
                bindr (if lo = EOF then Inr (c\<lparr>offset := len c\<rparr>)
                       else if is_line_end hi then unread 2 c
                       else if is_line_end lo then unread 1 c
                       else Inr c) (invalid_string X))))"

text \<open>
  The digits of \<^verbatim>\<open>\u{...}\<close> up to the closing brace. \<open>Inl\<close> in the result is the context of an early
  \<^verbatim>\<open>break 'lexer\<close>; the shift of the 32-bit code point drops bits that leave the word.
\<close>

function unicode_digits :: "crates \<Rightarrow> u32 \<Rightarrow> lex_ctx \<Rightarrow> lex_fault + control + u32 \<times> lex_ctx" where
  "unicode_digits X codepoint c =
     (if \<not> offset c < length (bytes c) then Inl OutOfBounds
      else if bytes c ! offset c = CHR ''}'' then Inr (Inr (codepoint, c))
      else if is_eof c then bindr (diag_unexpected_eof X c) (\<lambda>c. bindr (invalid_string X c) (\<lambda>r. Inr (Inl r)))
      else let digit = bytes c ! offset c; c1 = c\<lparr>offset := offset c + 1\<rparr>
           in if is_ascii_hexdigit digit
              then case hex_value digit of
                     Inl e \<Rightarrow> Inl e
                   | Inr d \<Rightarrow> unicode_digits X (push_bit 4 codepoint OR of_nat d) c1
              else bindr (diag_invalid_unicode_escape X c1) (\<lambda>c2.
                     bindr (if is_line_end digit then unread 1 c2 else Inr c2) (\<lambda>c3.
                       bindr (invalid_string X c3) (\<lambda>r. Inr (Inl r)))))"
  by pat_completeness auto
termination
  by (relation "measure (\<lambda>(_, _, c). length (bytes c) - offset c)") auto

declare unicode_digits.simps [simp del]

definition escape_unicode :: "crates \<Rightarrow> lex_ctx \<Rightarrow> lex_fault + control" where
  "escape_unicode X c0 =
     bindr (bump c0) (\<lambda>(b, c).
       if b \<noteq> CHR ''{''
       then bindr (diag_invalid_unicode_escape X c) (\<lambda>c.
              bindr (if offset c > len c then Inr (c\<lparr>offset := len c\<rparr>)
                     else bindr (byte_at c (offset c - 1)) (\<lambda>b. if is_line_end b then unread 1 c else Inr c))
                (invalid_string X))
       else let start_offset = offset c
            in bindr (unicode_digits X 0 c) (\<lambda>r.
                 case r of
                   Inl ctl \<Rightarrow> Inr ctl
                 | Inr (codepoint, c) \<Rightarrow>
                     let digit_count = offset c - start_offset; c = c\<lparr>offset := offset c + 1\<rparr>
                     in if digit_count > 6
                        then bindr (diag_invalid_unicode_escape X c) (invalid_string X)
                        else (case char_from_u32 codepoint of
                                Some chr \<Rightarrow> push_scratch (encode_utf8 chr) c
                              | None \<Rightarrow> bindr (diag_invalid_unicode_escape X c) (invalid_string X))))"

definition simple_escapes :: "(byte \<times> byte) list" where
  "simple_escapes =
     [(CHR ''n'', LF), (CHR ''r'', CR), (CHR ''t'', CHR 0x09), (QUOTE, QUOTE), (BACKSLASH, BACKSLASH), (CHR ''0'', CHR 0x00)]"

definition on_EscapeStr :: "crates \<Rightarrow> lex_ctx \<Rightarrow> lex_fault + control" where
  "on_EscapeStr X c0 =
     bindr (bump c0) (\<lambda>(b, c).
       if b = EOF then bindr (diag_unexpected_eof X c) (\<lambda>c. invalid_string X (c\<lparr>offset := len c\<rparr>))
       else case map_of simple_escapes b of
              Some e \<Rightarrow> push_scratch [e] c
            | None \<Rightarrow>
                if b = CHR ''x'' then escape_hex X c
                else if b = CHR ''u'' then escape_unicode X c
                else bindr (diag_invalid_escape_sequence X c) (\<lambda>c.
                       bindr (byte_at c (offset c - 1)) (\<lambda>b.
                         bindr (if is_line_end b then unread 1 c else Inr c) (invalid_string X))))"

section \<open>Numbers\<close>

abbreviation is_exp_mark :: "byte \<Rightarrow> bool" where
  "is_exp_mark b \<equiv> b = CHR ''e'' \<or> b = CHR ''E''"

definition on_IntZero :: "lex_ctx \<Rightarrow> lex_fault + control" where
  "on_IntZero c0 =
     bindr (bump c0) (\<lambda>(b, c).
       if b = CHR ''b'' then Inr (Goto S_IntBin (c\<lparr>seen_digit := False\<rparr>))
       else if b = CHR ''o'' then Inr (Goto S_IntOct (c\<lparr>seen_digit := False\<rparr>))
       else if b = CHR ''x'' then Inr (Goto S_IntHex (c\<lparr>seen_digit := False\<rparr>))
       else if b = CHR ''.'' then Inr (Goto S_FloatDot1 (c\<lparr>seen_digit := False\<rparr>))
       else if is_exp_mark b then Inr (Goto S_FloatExp1 (c\<lparr>seen_digit := False\<rparr>))
       else if is_bin_digit_or_uscore b then Inr (Goto S_IntDec c)
       else bindr (unread 1 (c\<lparr>kind := LitInt ''0'' Decimal\<rparr>)) (\<lambda>c. Inr (Done c)))"

text \<open>The states \<^verbatim>\<open>IntBin\<close>, \<^verbatim>\<open>IntOct\<close> and \<^verbatim>\<open>IntHex\<close> differ in the digit class and the radix.\<close>

definition radix_literal :: "crates \<Rightarrow> (byte \<Rightarrow> bool) \<Rightarrow> radix \<Rightarrow> lex_ctx \<Rightarrow> lex_fault + control" where
  "radix_literal X P r c0 =
     bindr (eat_digits P c0) (\<lambda>c.
       if \<not> seen_digit c then bindr (diag_invalid_integer_literal X c) done_invalid
       else bindr (lexeme c) (\<lambda>s. Inr (Done (c\<lparr>kind := LitInt s r\<rparr>))))"

definition on_IntBin :: "crates \<Rightarrow> lex_ctx \<Rightarrow> lex_fault + control" where
  "on_IntBin X = radix_literal X is_bin_digit_or_uscore Binary"

definition on_IntOct :: "crates \<Rightarrow> lex_ctx \<Rightarrow> lex_fault + control" where
  "on_IntOct X = radix_literal X is_oct_digit_or_uscore Octal"

definition on_IntHex :: "crates \<Rightarrow> lex_ctx \<Rightarrow> lex_fault + control" where
  "on_IntHex X = radix_literal X is_hex_digit_or_uscore Hexadecimal"

definition int_digits :: "string list" where
  "int_digits = [''0'', ''1'', ''2'', ''3'', ''4'', ''5'', ''6'', ''7'', ''8'', ''9'']"

definition on_IntDec :: "lex_ctx \<Rightarrow> lex_fault + control" where
  "on_IntDec c0 =
     bindr (eat_digits is_digit_or_uscore c0) (\<lambda>c.
       bindr (peek c) (\<lambda>b.
         if b = CHR ''.'' then Inr (Goto S_FloatDot1 (c\<lparr>offset := offset c + 1, seen_digit := False\<rparr>))
         else if is_exp_mark b then Inr (Goto S_FloatExp1 (c\<lparr>offset := offset c + 1, seen_digit := False\<rparr>))
         else if offset c < tok_start c then Inl Underflow
         else if offset c - tok_start c = 1
         then bindr (byte_at c (tok_start c)) (\<lambda>d.
                if \<not> is_ascii_digit d then Inl AssumeFailed
                else Inr (Done (c\<lparr>kind := LitInt (int_digits ! (of_char d - 48)) Decimal\<rparr>)))
         else bindr (lexeme c) (\<lambda>s. Inr (Done (c\<lparr>kind := LitInt s Decimal\<rparr>)))))"

definition on_FloatDot1 :: "crates \<Rightarrow> lex_ctx \<Rightarrow> lex_fault + control" where
  "on_FloatDot1 X c0 =
     bindr (bump c0) (\<lambda>(b, c).
       if is_exp_mark b then bindr (diag_invalid_float_literal X c) done_invalid
       else if is_digit b then Inr (Goto S_FloatDot2 c)
       else if b = CHR ''.''
       then bindr (unread 2 c) (\<lambda>c. bindr (lexeme c) (\<lambda>s. Inr (Done (c\<lparr>kind := LitInt s Decimal\<rparr>))))
       else bindr (unread 1 c) (\<lambda>c. bindr (lexeme c) (\<lambda>s. Inr (Done (c\<lparr>kind := LitFloat s\<rparr>)))))"

definition on_FloatDot2 :: "lex_ctx \<Rightarrow> lex_fault + control" where
  "on_FloatDot2 c0 =
     bindr (eat_digits is_digit_or_uscore c0) (\<lambda>c.
       bindr (peek c) (\<lambda>b.
         if is_exp_mark b
         then Inr (Goto S_FloatExp1 (c\<lparr>offset := offset c + 1, seen_digit := False, kind := LitFloat ''''\<rparr>))
         else bindr (lexeme c) (\<lambda>s. Inr (Done (c\<lparr>kind := LitFloat s\<rparr>)))))"

definition on_FloatExp1 :: "crates \<Rightarrow> lex_ctx \<Rightarrow> lex_fault + control" where
  "on_FloatExp1 X c =
     bindr (peek c) (\<lambda>b.
       if b = CHR ''+'' \<or> b = CHR ''-'' then Inr (Goto S_FloatExp2 (c\<lparr>offset := offset c + 1\<rparr>))
       else if is_digit b then Inr (Goto S_FloatExp2 (c\<lparr>offset := offset c + 1, seen_digit := True\<rparr>))
       else if b = CHR ''_'' then Inr (Goto S_FloatExp2 c)
       else bindr (diag_invalid_float_literal X c) done_invalid)"

definition on_FloatExp2 :: "crates \<Rightarrow> lex_ctx \<Rightarrow> lex_fault + control" where
  "on_FloatExp2 X c0 =
     bindr (eat_digits is_digit_or_uscore c0) (\<lambda>c.
       if \<not> seen_digit c then bindr (diag_invalid_float_literal X c) done_invalid
       else bindr (lexeme c) (\<lambda>s. Inr (Done (c\<lparr>kind := LitFloat s\<rparr>))))"

section \<open>The start state\<close>

definition single_chars :: "(byte \<times> token_kind) list" where
  "single_chars =
     [(EOF, Eof), (CHR ''?'', Op1 QuestionMark), (CHR '','', Op1 Comma), (CHR '';'', Op1 Semicolon),
      (CHR '':'', Op1 Colon), (CHR ''('', Op1 LParen), (CHR '')'', Op1 RParen), (CHR ''{'', Op1 LBrace),
      (CHR ''}'', Op1 RBrace), (CHR ''['', Op1 LBracket), (CHR '']'', Op1 RBracket)]"

definition op_starts :: "(byte \<times> token_kind \<times> lex_state) list" where
  "op_starts =
     [(CHR ''#'', Op1 Hash, S_Hash), (CHR ''-'', Op1 Minus, S_Minus), (CHR ''+'', Op1 Plus, S_Plus),
      (CHR ''*'', Op1 Star, S_Star), (CHR ''/'', Op1 Slash, S_Slash), (CHR ''%'', Op1 Percent, S_Percent),
      (CHR ''^'', Op1 Caret, S_Caret), (CHR ''&'', Op1 Amp, S_Amp), (CHR ''|'', Op1 Pipe, S_Pipe),
      (CHR ''!'', Op1 Bang, S_Bang), (CHR ''~'', Op1 Tilde, S_Tilde), (CHR ''='', Op1 Eq, S_Eq),
      (CHR ''<'', Op1 Lt, S_Lt), (CHR ''>'', Op1 Gt, S_Gt), (CHR ''.'', Op1 Dot, S_Dot),
      (CHR ''_'', Op1 Underscore, S_Underscore), (QUOTE, LitStr [], S_Str)]"

text \<open>
  The skipping of white space, then the dispatch on the first byte. In the last arm the name \<^verbatim>\<open>chr\<close> is
  bound to the class of the character, not to the character.
\<close>

definition skip_whitespace :: "crates \<Rightarrow> lex_ctx \<Rightarrow> lex_fault + lex_ctx" where
  "skip_whitespace X c =
     bindr (peek c) (\<lambda>b.
       if is_whitespace b
       then bindr (rest_of c) (\<lambda>rest.
              Inr (case memnechr_qpl (mx X) rest (CHR '' '') (CHR 0x09) LF CR of
                     Some off \<Rightarrow> c\<lparr>offset := offset c + off\<rparr>
                   | None \<Rightarrow> c))
       else Inr c)"

definition on_S0 :: "crates \<Rightarrow> lex_ctx \<Rightarrow> lex_fault + control" where
  "on_S0 X c0 =
     bindr (skip_whitespace X c0) (\<lambda>c.
       bindr (bump (c\<lparr>tok_start := offset c\<rparr>)) (\<lambda>(b, c).
         case map_of single_chars b of
           Some k \<Rightarrow> Inr (Done (c\<lparr>kind := k\<rparr>))
         | None \<Rightarrow>
             (case map_of op_starts b of
                Some (k, st) \<Rightarrow> Inr (Goto st (c\<lparr>kind := k\<rparr>))
              | None \<Rightarrow>
                  if b = CHR ''@'' then Inr (Goto S_At c)
                  else if b = CHR ''$'' then Inr (Goto S_Dollar c)
                  else if b = BACKSLASH then Inr (Goto S_Backslash c)
                  else if b = CHR ''0'' then Inr (Goto S_IntZero (c\<lparr>seen_digit := True\<rparr>))
                  else if has_class b IDENT_START then Inr (Goto S_Ident (c\<lparr>kind := Ident '''' User\<rparr>))
                  else if has_class b DIGIT then Inr (Goto S_IntDec (c\<lparr>seen_digit := True\<rparr>))
                  else bindr (diag_unexpected_character X (char_of (unat (CHAR_TABLE ! of_char b))) c) done_invalid)))"

section \<open>The machine\<close>

primrec lex_step :: "crates \<Rightarrow> lex_state \<Rightarrow> lex_ctx \<Rightarrow> (lex_fault + control) option" where
  "lex_step X S0 c = Some (on_S0 X c)"
| "lex_step X S_Minus c = Some (on_Minus c)"
| "lex_step X S_MinusPipe c = Some (on_MinusPipe c)"
| "lex_step X S_Plus c = Some (on_Plus c)"
| "lex_step X S_PlusPipe c = Some (on_PlusPipe c)"
| "lex_step X S_Star c = Some (on_Star c)"
| "lex_step X S_StarPipe c = Some (on_StarPipe c)"
| "lex_step X S_StarStar c = Some (on_StarStar c)"
| "lex_step X S_Slash c = Some (on_Slash c)"
| "lex_step X S_Percent c = Some (on_Percent c)"
| "lex_step X S_Caret c = Some (on_Caret c)"
| "lex_step X S_Amp c = Some (on_Amp c)"
| "lex_step X S_Pipe c = Some (on_Pipe c)"
| "lex_step X S_Bang c = Some (on_Bang c)"
| "lex_step X S_Tilde c = Some (on_Tilde c)"
| "lex_step X S_Eq c = Some (on_Eq c)"
| "lex_step X S_Hash c = Some (on_Hash c)"
| "lex_step X S_At c = Some (on_At X c)"
| "lex_step X S_Dollar c = Some (on_Dollar X c)"
| "lex_step X S_Lt c = Some (on_Lt c)"
| "lex_step X S_LtLt c = Some (on_LtLt c)"
| "lex_step X S_LtLtPipe c = Some (on_LtLtPipe c)"
| "lex_step X S_LtLtPercent c = Some (on_LtLtPercent c)"
| "lex_step X S_Gt c = Some (on_Gt c)"
| "lex_step X S_GtGt c = Some (on_GtGt c)"
| "lex_step X S_GtGtPipe c = Some (on_GtGtPipe c)"
| "lex_step X S_GtGtPercent c = Some (on_GtGtPercent c)"
| "lex_step X S_AmpAmp c = Some (on_AmpAmp c)"
| "lex_step X S_PipePipe c = Some (on_PipePipe c)"
| "lex_step X S_Dot c = Some (on_Dot c)"
| "lex_step X S_DotDot c = Some (on_DotDot c)"
| "lex_step X S_Underscore c = Some (on_Underscore c)"
| "lex_step X S_Backslash c = on_Backslash X c"
| "lex_step X S_LineComment c = on_LineComment X c"
| "lex_step X S_Ident c = Some (on_Ident X c)"
| "lex_step X S_Str c = Some (on_Str X c)"
| "lex_step X S_EscapeStr c = Some (on_EscapeStr X c)"
| "lex_step X S_IntZero c = Some (on_IntZero c)"
| "lex_step X S_IntBin c = Some (on_IntBin X c)"
| "lex_step X S_IntOct c = Some (on_IntOct X c)"
| "lex_step X S_IntHex c = Some (on_IntHex X c)"
| "lex_step X S_IntDec c = Some (on_IntDec c)"
| "lex_step X S_FloatDot1 c = Some (on_FloatDot1 X c)"
| "lex_step X S_FloatDot2 c = Some (on_FloatDot2 c)"
| "lex_step X S_FloatExp1 c = Some (on_FloatExp1 X c)"
| "lex_step X S_FloatExp2 c = Some (on_FloatExp2 X c)"

partial_function (option) lex_loop :: "crates \<Rightarrow> lex_state \<Rightarrow> lex_ctx \<Rightarrow> (lex_fault + lex_ctx) option" where
  "lex_loop X st c =
     Option.bind (lex_step X st c) (\<lambda>r.
       case r of
         Inl e \<Rightarrow> Some (Inl e)
       | Inr (Done c') \<Rightarrow> Some (Inr c')
       | Inr (Goto st' c') \<Rightarrow> lex_loop X st' c')"

definition lex_enter :: "lexer \<Rightarrow> lex_ctx" where
  "lex_enter lx = lexer.extend lx (lex_ctx.fields Eof False)"

definition lex_token :: "lex_ctx \<Rightarrow> lex_fault + token \<times> lexer" where
  "lex_token c = bindr (lexer_span c) (\<lambda>s. Inr (\<lparr>tok_kind = kind c, tok_span = s\<rparr>, lexer.truncate c))"

definition lex_next :: "crates \<Rightarrow> lexer \<Rightarrow> (lex_fault + token \<times> lexer) option" where
  "lex_next X lx = map_option (\<lambda>r. bindr r lex_token) (lex_loop X S0 (lex_enter lx))"

end
