(* ===== verification/Vif_Lexer_Safety.thy ===== *)
theory Vif_Lexer_Safety
  imports Vif_Lexer_States
begin

text \<open>
  Memory safety and progress of the lexer: an invariant per state of the machine, one lemma per arm
  that it neither faults nor loses the invariant, and the consequences for the machine and for
  \<^verbatim>\<open>Lexer::next\<close>.
\<close>

section \<open>Invariant\<close>

text \<open>A source text is terminated by a zero byte and its offsets fit a span.\<close>

definition src_ok :: "byte list \<Rightarrow> bool" where
  "src_ok bs \<longleftrightarrow> bs \<noteq> [] \<and> last bs = EOF \<and> length bs < 2 ^ 32 - 1"

definition lex_base :: "'a lexer_scheme \<Rightarrow> bool" where
  "lex_base c \<longleftrightarrow> src_ok (bytes c) \<and> len c = length (bytes c) - 1"

text \<open>The states with an arm that ends the token without setting its kind.\<close>

definition op_states :: "lex_state list" where
  "op_states = [S_Minus, S_MinusPipe, S_Plus, S_PlusPipe, S_Star, S_StarPipe, S_StarStar, S_Slash, S_Percent,
     S_Caret, S_Amp, S_Pipe, S_Bang, S_Tilde, S_Eq, S_Hash, S_Lt, S_LtLt, S_LtLtPipe, S_LtLtPercent,
     S_Gt, S_GtGt, S_GtGtPipe, S_GtGtPercent, S_AmpAmp, S_PipePipe, S_Dot, S_DotDot, S_Underscore]"

definition state_inv :: "lex_state \<Rightarrow> lex_ctx \<Rightarrow> bool" where
  "state_inv st c \<longleftrightarrow>
     (st \<in> set op_states \<longrightarrow> kind c \<noteq> Eof) \<and>
     (st = S_Ident \<longrightarrow> (\<exists>s ik. kind c = Ident s ik \<and> ik \<noteq> UserEscaped)) \<and>
     (st = S_Str \<or> st = S_EscapeStr \<longrightarrow> (\<exists>s. kind c = LitStr s) \<or> (\<exists>s ik. kind c = Ident s ik)) \<and>
     (st = S_FloatDot1 \<longrightarrow> tok_start c + 2 \<le> offset c) \<and>
     (st = S_IntZero \<or> st = S_IntDec \<longrightarrow> is_ascii_digit (bytes c ! tok_start c))"

definition lex_inv :: "nat \<Rightarrow> lex_state \<Rightarrow> lex_ctx \<Rightarrow> bool" where
  "lex_inv lo st c \<longleftrightarrow> lex_base c \<and> lo \<le> offset c \<and> offset c \<le> len c \<and>
     (st \<noteq> S0 \<longrightarrow> lo \<le> tok_start c \<and> tok_start c < offset c) \<and> state_inv st c"

text \<open>What holds when a token is complete; only the end of the text is read past.\<close>

definition lex_post :: "nat \<Rightarrow> lex_ctx \<Rightarrow> bool" where
  "lex_post lo c \<longleftrightarrow> lex_base c \<and> lo \<le> tok_start c \<and> tok_start c < offset c \<and>
     (if kind c = Eof then tok_start c \<le> len c \<and> bytes c ! tok_start c = EOF \<and> offset c = tok_start c + 1
      else offset c \<le> len c)"

text \<open>Two arms change the state without reading: the comment, and an underscore after the exponent mark.\<close>

definition lex_measure :: "lex_state \<Rightarrow> lex_ctx \<Rightarrow> nat" where
  "lex_measure st c = 2 * (len c + 1 - offset c) + (if st = S_LineComment \<or> st = S_FloatExp1 then 1 else 0)"

fun ctl_ok :: "nat \<Rightarrow> byte list \<Rightarrow> nat \<Rightarrow> lex_fault + control \<Rightarrow> bool" where
  "ctl_ok lo bs m (Inl e) \<longleftrightarrow> False"
| "ctl_ok lo bs m (Inr (Done c)) \<longleftrightarrow> bytes c = bs \<and> lex_post lo c"
| "ctl_ok lo bs m (Inr (Goto st c)) \<longleftrightarrow> bytes c = bs \<and> lex_inv lo st c \<and> lex_measure st c < m"

lemmas inv_defs = lex_inv_def lex_post_def lex_measure_def state_inv_def op_states_def

lemma lex_base_update [simp]:
  "lex_base (c\<lparr>offset := n\<rparr>) = lex_base c" "lex_base (c\<lparr>tok_start := n\<rparr>) = lex_base c"
  "lex_base (c\<lparr>errors := e\<rparr>) = lex_base c" "lex_base (c\<lparr>scratch_pad := s\<rparr>) = lex_base c"
  "lex_base (d\<lparr>kind := k\<rparr>) = lex_base d" "lex_base (d\<lparr>seen_digit := b\<rparr>) = lex_base d"
  by (simp_all add: lex_base_def)

section \<open>Reading\<close>

lemma base_len:
  assumes "lex_base c"
  shows "len c < length (bytes c)" and "bytes c ! len c = EOF" and "Suc (len c) = length (bytes c)"
proof -
  have ne: "bytes c \<noteq> []" and l: "last (bytes c) = EOF" and e: "len c = length (bytes c) - 1"
    using assms by (auto simp: lex_base_def src_ok_def)
  then show "len c < length (bytes c)" and "Suc (len c) = length (bytes c)" by (simp_all add: length_greater_0_conv)
  show "bytes c ! len c = EOF" using l ne e by (simp add: last_conv_nth)
qed

lemma peek_ok: "lex_base c \<Longrightarrow> offset c \<le> len c \<Longrightarrow> peek c = Inr (bytes c ! offset c)"
  using base_len(1) by (fastforce simp: peek_def)

lemma bump_ok:
  "lex_base c \<Longrightarrow> offset c \<le> len c \<Longrightarrow> bump c = Inr (bytes c ! offset c, c\<lparr>offset := Suc (offset c)\<rparr>)"
  by (simp add: bump_def peek_ok)

lemma not_eof_less: "lex_base c \<Longrightarrow> n \<le> len c \<Longrightarrow> bytes c ! n \<noteq> EOF \<Longrightarrow> n < len c"
  using base_len(2) le_neq_implies_less by metis

lemma not_eof_less': "lex_base c \<Longrightarrow> n < length (bytes c) \<Longrightarrow> bytes c ! n \<noteq> EOF \<Longrightarrow> n < len c"
  using not_eof_less [of c n] base_len(3) [of c] by simp

lemma unread_ok: "n \<le> offset c \<Longrightarrow> unread n c = Inr (c\<lparr>offset := offset c - n\<rparr>)"
  by (simp add: unread_def)

lemma byte_at_ok: "lex_base c \<Longrightarrow> i \<le> len c \<Longrightarrow> byte_at c i = Inr (bytes c ! i)"
  using base_len(1) by (fastforce simp: byte_at_def)

lemma slice_of_ok: "lex_base c \<Longrightarrow> a \<le> b \<Longrightarrow> b \<le> len c \<Longrightarrow> slice_of c a b = Inr (drop a (take b (bytes c)))"
  using base_len(1) [of c] by (simp add: slice_of_def slice_def)

lemma lexeme_ok:
  "lex_base c \<Longrightarrow> tok_start c \<le> offset c \<Longrightarrow> offset c \<le> len c \<Longrightarrow> lexeme c = Inr (drop (tok_start c) (take (offset c) (bytes c)))"
  by (simp add: lexeme_def slice_of_ok)

lemma rest_of_ok: "lex_base c \<Longrightarrow> offset c \<le> len c \<Longrightarrow> rest_of c = Inr (drop (offset c) (bytes c))"
  using base_len(1) [of c] by (simp add: rest_of_def slice_of_def slice_def)

lemma eat_while_ok:
  fixes c :: "'a lexer_scheme"
  assumes "lex_base c" and "offset c \<le> len c" and "\<not> P EOF"
  shows "\<exists>n. eat_while P c = Inr (c\<lparr>offset := n\<rparr>) \<and> offset c \<le> n \<and> n \<le> len c \<and> \<not> P (bytes c ! n) \<and>
    (\<forall>i. offset c \<le> i \<and> i < n \<longrightarrow> P (bytes c ! i))"
  using assms(1,2)
proof (induction "len c - offset c" arbitrary: c rule: less_induct)
  case less
  note bl = base_len [OF less.prems(1)]
  show ?case
  proof (cases "P (bytes c ! offset c)")
    case False
    then show ?thesis using less.prems bl(1) by (intro exI [of _ "offset c"]) (auto simp: eat_while.simps [of P c])
  next
    case True
    then have lt: "offset c < len c" using not_eof_less [OF less.prems] assms(3) by metis
    let ?c = "c\<lparr>offset := offset c + 1\<rparr>"
    have d: "len ?c - offset ?c < len c - offset c" using lt by simp
    obtain n where n: "eat_while P ?c = Inr (?c\<lparr>offset := n\<rparr>)" "offset ?c \<le> n" "n \<le> len ?c" "\<not> P (bytes ?c ! n)"
      "\<forall>i. offset ?c \<le> i \<and> i < n \<longrightarrow> P (bytes ?c ! i)"
      using less.hyps [OF d] less.prems(1) lt by auto
    have "P (bytes c ! i)" if "offset c \<le> i" "i < n" for i using n(5) True that by (cases "i = offset c") auto
    with n lt bl(1) True show ?thesis by (intro exI [of _ n]) (simp add: eat_while.simps [of P c])
  qed
qed

lemma eat_digits_ok:
  assumes "lex_base c" and "offset c \<le> len c" and "\<not> P EOF"
  shows "\<exists>n b. eat_digits P c = Inr (c\<lparr>offset := n, seen_digit := b\<rparr>) \<and> offset c \<le> n \<and> n \<le> len c \<and> \<not> P (bytes c ! n) \<and>
    (\<forall>i. offset c \<le> i \<and> i < n \<longrightarrow> P (bytes c ! i)) \<and>
    (b \<longleftrightarrow> seen_digit c \<or> (\<exists>i. offset c \<le> i \<and> i < n \<and> bytes c ! i \<noteq> CHR ''_''))"
  using assms(1,2)
proof (induction "len c - offset c" arbitrary: c rule: less_induct)
  case less
  note bl = base_len [OF less.prems(1)]
  show ?case
  proof (cases "P (bytes c ! offset c)")
    case False
    then show ?thesis using less.prems bl(1)
      by (intro exI [of _ "offset c"] exI [of _ "seen_digit c"]) (auto simp: eat_digits.simps [of P c])
  next
    case True
    then have lt: "offset c < len c" using not_eof_less [OF less.prems] assms(3) by metis
    let ?s = "seen_digit c \<or> bytes c ! offset c \<noteq> CHR ''_''"
    let ?c = "c\<lparr>seen_digit := ?s, offset := offset c + 1\<rparr>"
    have d: "len ?c - offset ?c < len c - offset c" using lt by simp
    obtain n b where n: "eat_digits P ?c = Inr (?c\<lparr>offset := n, seen_digit := b\<rparr>)" "Suc (offset c) \<le> n" "n \<le> len c"
      "\<not> P (bytes c ! n)" "\<forall>i. Suc (offset c) \<le> i \<and> i < n \<longrightarrow> P (bytes c ! i)"
      "b \<longleftrightarrow> ?s \<or> (\<exists>i. Suc (offset c) \<le> i \<and> i < n \<and> bytes c ! i \<noteq> CHR ''_'')"
      using less.hyps [OF d] less.prems(1) lt by (auto simp del: disj_not1)
    have "P (bytes c ! i)" if "offset c \<le> i" "i < n" for i using n(5) True that by (cases "i = offset c") auto
    moreover have "b \<longleftrightarrow> seen_digit c \<or> (\<exists>i. offset c \<le> i \<and> i < n \<and> bytes c ! i \<noteq> CHR ''_'')"
      using n(2,6) by (metis Suc_leD Suc_le_eq le_neq_implies_less le_refl)
    ultimately show ?thesis using n lt bl(1) True
      by (intro exI [of _ n] exI [of _ b]) (simp add: eat_digits.simps [of P c])
  qed
qed

lemma push_error_ok:
  assumes "lex_base c" and "tok_start c \<le> offset c" and "offset c \<le> Suc (len c)"
  shows "\<exists>e. push_error X msg c = Inr (c\<lparr>errors := e\<rparr>)"
proof -
  have "offset c < 2 ^ 32 - 1" using assms base_len(3) [OF assms(1)] by (auto simp: lex_base_def src_ok_def)
  moreover from this have "tok_start c < 2 ^ 32 - 1" using assms(2) by linarith
  ultimately obtain s where "span_new (tok_start c) (offset c) = Returns s"
    using span_new_exact [of "tok_start c" "offset c" thesis] by blast
  then show ?thesis by (simp add: push_error_def lexer_span_def) (rule exI, rule refl)
qed

lemma class_not_NUL:
  "is_ident_start b \<Longrightarrow> b \<noteq> EOF" "is_digit b \<Longrightarrow> b \<noteq> EOF" "is_ascii_hexdigit b \<Longrightarrow> b \<noteq> EOF"
  "is_bin_digit_or_uscore b \<Longrightarrow> b \<noteq> EOF" "is_whitespace b \<Longrightarrow> b \<noteq> EOF"
  using NUL_class by (auto simp: is_ascii_hexdigit_def in_range_def)

section \<open>Operator states\<close>

lemma op_state_facts:
  assumes "st \<in> set op_states"
  shows "st \<noteq> S0" and "lex_measure st c = 2 * (len c + 1 - offset c)" and "state_inv st c \<longleftrightarrow> kind c \<noteq> Eof"
  using assms by (auto simp: op_states_def lex_measure_def state_inv_def)

definition op_arm_ok :: "byte \<times> token_kind \<times> lex_state option \<Rightarrow> bool" where
  "op_arm_ok a \<longleftrightarrow> (case a of (b, k, next) \<Rightarrow> b \<noteq> EOF \<and> k \<noteq> Eof \<and> (\<forall>st. next = Some st \<longrightarrow> st \<in> set op_states))"

lemma op_invD:
  assumes "lex_inv lo st c" and "st \<in> set op_states"
  shows "lex_base c" "lo \<le> tok_start c" "tok_start c < offset c" "offset c \<le> len c" "kind c \<noteq> Eof" "lo \<le> offset c"
  using assms op_state_facts(1) [OF assms(2)] op_state_facts(3) [OF assms(2), of c] by (auto simp: lex_inv_def)

lemma goto_op_ok:
  assumes "lex_base c" "lo \<le> tok_start c" "tok_start c < offset c" "offset c \<le> len c" "kind c \<noteq> Eof"
    and "st' \<in> set op_states" and "bytes c = bs" and "2 * (len c + 1 - offset c) < m"
  shows "ctl_ok lo bs m (Inr (Goto st' c))"
  using assms op_state_facts(2,3) [OF assms(6), of c] by (auto simp: lex_inv_def)

lemma put_back_ok:
  assumes "lex_inv lo st c" and "st \<in> set op_states"
  shows "ctl_ok lo (bytes c) m (bindr (unread 1 (c\<lparr>offset := Suc (offset c)\<rparr>)) (\<lambda>c. Inr (Done c)))"
  using op_invD [OF assms] by (simp add: unread_def lex_post_def)

lemma match_op_ok:
  assumes "lex_inv lo st c" and "st \<in> set op_states" and "list_all op_arm_ok arms"
  shows "ctl_ok lo (bytes c) (lex_measure st c) (match_op arms c)"
proof -
  note I = op_invD [OF assms(1,2)]
  note b = bump_ok [OF I(1,4)]
  show ?thesis
  proof (cases "map_of arms (bytes c ! offset c)")
    case None
    then show ?thesis using put_back_ok [OF assms(1,2)] by (simp add: match_op_def b)
  next
    case (Some p)
    obtain k nx where p: "p = (k, nx)" by fastforce
    have "(bytes c ! offset c, k, nx) \<in> set arms" using Some p by (auto dest: map_of_SomeD)
    with assms(3) have a: "bytes c ! offset c \<noteq> EOF" "k \<noteq> Eof" "\<forall>st. nx = Some st \<longrightarrow> st \<in> set op_states"
      by (auto simp: op_arm_ok_def list_all_iff)
    have lt: "offset c < len c" using not_eof_less [OF I(1,4) a(1)] .
    show ?thesis
    proof (cases nx)
      case None
      with Some p a lt I show ?thesis by (simp add: match_op_def b lex_post_def)
    next
      case st': (Some st')
      have "ctl_ok lo (bytes c) (lex_measure st c) (Inr (Goto st' (c\<lparr>offset := Suc (offset c), kind := k\<rparr>)))"
        using a st' lt I op_state_facts(2) [OF assms(2)] by (intro goto_op_ok) auto
      with Some p st' show ?thesis by (simp add: match_op_def b)
    qed
  qed
qed

lemmas match_op_states =
  on_Minus_def on_MinusPipe_def on_Plus_def on_PlusPipe_def on_Star_def on_StarPipe_def on_Percent_def on_Caret_def
  on_Amp_def on_AmpAmp_def on_Pipe_def on_PipePipe_def on_Bang_def on_Tilde_def on_Eq_def on_Lt_def on_LtLt_def
  on_LtLtPipe_def on_LtLtPercent_def on_Gt_def on_GtGt_def on_GtGtPipe_def on_GtGtPercent_def on_DotDot_def

lemma op_arms_ok:
  "lex_inv lo S_Minus c \<Longrightarrow> ctl_ok lo (bytes c) (lex_measure S_Minus c) (on_Minus c)"
  "lex_inv lo S_MinusPipe c \<Longrightarrow> ctl_ok lo (bytes c) (lex_measure S_MinusPipe c) (on_MinusPipe c)"
  "lex_inv lo S_Plus c \<Longrightarrow> ctl_ok lo (bytes c) (lex_measure S_Plus c) (on_Plus c)"
  "lex_inv lo S_PlusPipe c \<Longrightarrow> ctl_ok lo (bytes c) (lex_measure S_PlusPipe c) (on_PlusPipe c)"
  "lex_inv lo S_Star c \<Longrightarrow> ctl_ok lo (bytes c) (lex_measure S_Star c) (on_Star c)"
  "lex_inv lo S_StarPipe c \<Longrightarrow> ctl_ok lo (bytes c) (lex_measure S_StarPipe c) (on_StarPipe c)"
  "lex_inv lo S_Percent c \<Longrightarrow> ctl_ok lo (bytes c) (lex_measure S_Percent c) (on_Percent c)"
  "lex_inv lo S_Caret c \<Longrightarrow> ctl_ok lo (bytes c) (lex_measure S_Caret c) (on_Caret c)"
  "lex_inv lo S_Amp c \<Longrightarrow> ctl_ok lo (bytes c) (lex_measure S_Amp c) (on_Amp c)"
  "lex_inv lo S_AmpAmp c \<Longrightarrow> ctl_ok lo (bytes c) (lex_measure S_AmpAmp c) (on_AmpAmp c)"
  "lex_inv lo S_Pipe c \<Longrightarrow> ctl_ok lo (bytes c) (lex_measure S_Pipe c) (on_Pipe c)"
  "lex_inv lo S_PipePipe c \<Longrightarrow> ctl_ok lo (bytes c) (lex_measure S_PipePipe c) (on_PipePipe c)"
  "lex_inv lo S_Bang c \<Longrightarrow> ctl_ok lo (bytes c) (lex_measure S_Bang c) (on_Bang c)"
  "lex_inv lo S_Tilde c \<Longrightarrow> ctl_ok lo (bytes c) (lex_measure S_Tilde c) (on_Tilde c)"
  "lex_inv lo S_Eq c \<Longrightarrow> ctl_ok lo (bytes c) (lex_measure S_Eq c) (on_Eq c)"
  "lex_inv lo S_Lt c \<Longrightarrow> ctl_ok lo (bytes c) (lex_measure S_Lt c) (on_Lt c)"
  "lex_inv lo S_LtLt c \<Longrightarrow> ctl_ok lo (bytes c) (lex_measure S_LtLt c) (on_LtLt c)"
  "lex_inv lo S_LtLtPipe c \<Longrightarrow> ctl_ok lo (bytes c) (lex_measure S_LtLtPipe c) (on_LtLtPipe c)"
  "lex_inv lo S_LtLtPercent c \<Longrightarrow> ctl_ok lo (bytes c) (lex_measure S_LtLtPercent c) (on_LtLtPercent c)"
  "lex_inv lo S_Gt c \<Longrightarrow> ctl_ok lo (bytes c) (lex_measure S_Gt c) (on_Gt c)"
  "lex_inv lo S_GtGt c \<Longrightarrow> ctl_ok lo (bytes c) (lex_measure S_GtGt c) (on_GtGt c)"
  "lex_inv lo S_GtGtPipe c \<Longrightarrow> ctl_ok lo (bytes c) (lex_measure S_GtGtPipe c) (on_GtGtPipe c)"
  "lex_inv lo S_GtGtPercent c \<Longrightarrow> ctl_ok lo (bytes c) (lex_measure S_GtGtPercent c) (on_GtGtPercent c)"
  "lex_inv lo S_DotDot c \<Longrightarrow> ctl_ok lo (bytes c) (lex_measure S_DotDot c) (on_DotDot c)"
  unfolding match_op_states by (rule match_op_ok, assumption, simp add: op_states_def, simp add: op_arm_ok_def op_states_def)+

lemma on_StarStar_ok: "lex_inv lo S_StarStar c \<Longrightarrow> ctl_ok lo (bytes c) m (on_StarStar c)"
  using put_back_ok [of lo S_StarStar c m] bump_ok [of c]
  by (simp add: on_StarStar_def op_states_def lex_inv_def)

lemma on_Slash_ok:
  assumes "lex_inv lo S_Slash c"
  shows "ctl_ok lo (bytes c) (lex_measure S_Slash c) (on_Slash c)"
proof -
  have s: "S_Slash \<in> set op_states" by (simp add: op_states_def)
  note I = op_invD [OF assms s]
  have "offset c < len c" if "bytes c ! offset c \<in> {CHR ''='', CHR ''/''}"
    by (rule not_eof_less [OF I(1,4)]) (use that class_not_NUL in auto)
  then show ?thesis using I put_back_ok [OF assms s]
    by (auto simp: on_Slash_def bump_ok [OF I(1,4)] inv_defs)
qed

lemma on_Dot_ok:
  assumes "lex_inv lo S_Dot c"
  shows "ctl_ok lo (bytes c) (lex_measure S_Dot c) (on_Dot c)"
proof -
  have s: "S_Dot \<in> set op_states" by (simp add: op_states_def)
  note I = op_invD [OF assms s]
  have "offset c < len c" if "bytes c ! offset c \<in> {CHR ''.'', CHR ''*'', CHR ''?''} \<or> is_digit (bytes c ! offset c)"
    by (rule not_eof_less [OF I(1,4)]) (use that class_not_NUL in auto)
  then show ?thesis using I put_back_ok [OF assms s]
    by (auto simp: on_Dot_def bump_ok [OF I(1,4)] inv_defs)
qed

lemma on_Underscore_ok:
  assumes "lex_inv lo S_Underscore c"
  shows "ctl_ok lo (bytes c) (lex_measure S_Underscore c) (on_Underscore c)"
proof -
  have s: "S_Underscore \<in> set op_states" by (simp add: op_states_def)
  note I = op_invD [OF assms s]
  have "offset c < len c" if "is_ident_start (bytes c ! offset c)"
    by (rule not_eof_less [OF I(1,4)]) (use that class_not_NUL in auto)
  then show ?thesis using I put_back_ok [OF assms s]
    by (auto simp: on_Underscore_def bump_ok [OF I(1,4)] inv_defs)
qed

section \<open>Directives, sigils, comments\<close>

lemma directive_not_Eof: "map_of directive_table s \<noteq> Some Eof"
  by (auto simp: directive_table_def dest!: map_of_SomeD)

lemma on_Hash_ok:
  assumes "lex_inv lo S_Hash c"
  shows "ctl_ok lo (bytes c) m (on_Hash c)"
proof -
  have s: "S_Hash \<in> set op_states" by (simp add: op_states_def)
  note I = op_invD [OF assms s]
  show ?thesis
  proof (cases "is_ident_start (bytes c ! offset c)")
    case True
    let ?c = "c\<lparr>offset := Suc (offset c)\<rparr>"
    have "offset c < len c" by (rule not_eof_less [OF I(1,4)]) (use True class_not_NUL in auto)
    then obtain n where n: "eat_while is_ident_cont ?c = Inr (?c\<lparr>offset := n\<rparr>)" "Suc (offset c) \<le> n" "n \<le> len c"
      using eat_while_ok [of ?c is_ident_cont] I(1) by auto
    then have "slice_of (c\<lparr>offset := n\<rparr>) (Suc (tok_start c)) n = Inr (drop (Suc (tok_start c)) (take n (bytes c)))"
      using slice_of_ok [of "c\<lparr>offset := n\<rparr>" "Suc (tok_start c)" n] I by simp
    moreover have "(case map_of directive_table t of None \<Rightarrow> DirectiveIdent t | Some k \<Rightarrow> k) \<noteq> Eof" for t
      using directive_not_Eof [of t] by (auto split: option.splits)
    ultimately show ?thesis using True n I by (simp add: on_Hash_def bump_ok [OF I(1,4)] lex_post_def)
  next
    case False
    then show ?thesis using put_back_ok [OF assms s] by (simp add: on_Hash_def bump_ok [OF I(1,4)])
  qed
qed

text \<open>What a state past the start state may rely on.\<close>

lemma invD:
  assumes "lex_inv lo st c" and "st \<noteq> S0"
  shows "lex_base c" "lo \<le> tok_start c" "tok_start c < offset c" "offset c \<le> len c" "lo \<le> offset c"
  using assms by (auto simp: lex_inv_def)

lemma done_invalid_ok:
  "lex_base c \<Longrightarrow> lo \<le> tok_start c \<Longrightarrow> tok_start c < offset c \<Longrightarrow> offset c \<le> len c \<Longrightarrow> bytes c = bs \<Longrightarrow>
   ctl_ok lo bs m (done_invalid c)"
  by (simp add: done_invalid_def lex_post_def)

lemma reject_char_ok:
  assumes "lex_base c" "lo \<le> tok_start c" "tok_start c < offset c" "offset c \<le> len c"
  shows "ctl_ok lo (bytes c) m (reject_char X (bytes c ! offset c) (c\<lparr>offset := Suc (offset c)\<rparr>))"
proof -
  let ?c = "c\<lparr>offset := Suc (offset c)\<rparr>"
  obtain e where "diag_unexpected_character X (bytes c ! offset c) ?c = Inr (?c\<lparr>errors := e\<rparr>)"
    unfolding diag_unexpected_character_def using push_error_ok [of ?c] assms by fastforce
  moreover have "offset c < len c" if "bytes c ! offset c \<noteq> EOF" using not_eof_less [OF assms(1,4) that] .
  ultimately show ?thesis using assms by (auto simp: reject_char_def intro!: done_invalid_ok)
qed

lemma on_At_ok:
  assumes "lex_inv lo S_At c"
  shows "ctl_ok lo (bytes c) (lex_measure S_At c) (on_At X c)"
proof -
  note I = invD [OF assms]
  have "offset c < len c" if "is_ident_start (bytes c ! offset c) \<or> bytes c ! offset c = QUOTE"
    by (rule not_eof_less [OF I(1,4)]) (use that class_not_NUL in auto)
  then show ?thesis using I reject_char_ok [OF I(1-4)] by (auto simp: on_At_def bump_ok [OF I(1,4)] inv_defs)
qed

lemma on_Dollar_ok:
  assumes "lex_inv lo S_Dollar c"
  shows "ctl_ok lo (bytes c) (lex_measure S_Dollar c) (on_Dollar X c)"
proof -
  note I = invD [OF assms]
  have "offset c < len c" if "is_ident_start (bytes c ! offset c)"
    by (rule not_eof_less [OF I(1,4)]) (use that class_not_NUL in auto)
  then show ?thesis using I reject_char_ok [OF I(1-4)] by (auto simp: on_Dollar_def bump_ok [OF I(1,4)] inv_defs)
qed

text \<open>
  \<^verbatim>\<open>eat_until_newline\<close> never faults; if it returns, the offset has not gone back and is still inside the
  text. It returns when every carriage return is followed by a newline.
\<close>

definition no_lone_cr :: "byte list \<Rightarrow> bool" where
  "no_lone_cr bs \<longleftrightarrow> (\<forall>i < length bs. bs ! i = CR \<longrightarrow> Suc i < length bs - 1 \<and> bs ! Suc i = LF)"

definition newline_ok :: "lex_ctx \<Rightarrow> lex_fault + lex_ctx \<Rightarrow> bool" where
  "newline_ok c r \<longleftrightarrow> (\<exists>n. r = Inr (c\<lparr>offset := n\<rparr>) \<and> offset c \<le> n \<and> n \<le> len c)"

lemma find_newline:
  assumes "crates_ok X" and "lex_base c" and "offset c \<le> len c"
    and "memchr_dbl (mx X) (drop (offset c) (bytes c)) LF CR = Some off"
  shows "offset c + off < len c" and "bytes c ! (offset c + off) = LF \<or> bytes c ! (offset c + off) = CR"
proof -
  have f: "find_index (\<lambda>x. x = LF \<or> x = CR) (drop (offset c) (bytes c)) = Some off"
    using assms(1,4) by (simp add: crates_ok_def memx_ok_def)
  note d = find_index_dropD [OF f] base_len [OF assms(2)] assms(3)
  show "bytes c ! (offset c + off) = LF \<or> bytes c ! (offset c + off) = CR" using d by auto
  then show "offset c + off < len c" using d by (intro not_eof_less' [OF assms(2)]) auto
qed

lemma newline_okI: "offset c \<le> n \<Longrightarrow> n \<le> len c \<Longrightarrow> newline_ok c (Inr (c\<lparr>offset := n\<rparr>))"
  by (auto simp: newline_ok_def)

lemma newline_ok_later: "newline_ok (c\<lparr>offset := k\<rparr>) r \<Longrightarrow> offset c \<le> k \<Longrightarrow> newline_ok c r"
  by (auto simp: newline_ok_def)

text \<open>One round of the loop, over an arbitrary continuation: it ends, or goes on at a later offset.\<close>

definition newline_round :: "(crates \<Rightarrow> lex_ctx \<Rightarrow> (lex_fault + lex_ctx) option) \<Rightarrow> crates \<Rightarrow> lex_ctx \<Rightarrow> (lex_fault + lex_ctx) option" where
  "newline_round f X lx =
     (case rest_of lx of
        Inl e \<Rightarrow> Some (Inl e)
      | Inr rest \<Rightarrow>
          (case memchr_dbl (mx X) rest LF CR of
             None \<Rightarrow> Some (Inr lx)
           | Some off \<Rightarrow>
               (case byte_at lx (offset lx + off) of
                  Inl e \<Rightarrow> Some (Inl e)
                | Inr b \<Rightarrow>
                    if b = LF then Some (Inr (lx\<lparr>offset := offset lx + off\<rparr>))
                    else if offset lx + off + 1 < len lx \<and> byte_at lx (offset lx + off + 1) = Inr LF
                    then f X (lx\<lparr>offset := offset lx + off + 1\<rparr>)
                    else f X (lx\<lparr>offset := offset lx + off\<rparr>))))"

lemma newline_round_cases:
  assumes "crates_ok X" and "lex_base c" and "offset c \<le> len c"
  obtains n where "newline_round f X c = Some (Inr (c\<lparr>offset := n\<rparr>))" and "offset c \<le> n" and "n \<le> len c"
  | n where "newline_round f X c = f X (c\<lparr>offset := n\<rparr>)" and "offset c \<le> n" and "n < len c"
      and "no_lone_cr (bytes c) \<Longrightarrow> bytes c ! n = LF" and "bytes c ! offset c \<noteq> LF"
proof (cases "memchr_dbl (mx X) (drop (offset c) (bytes c)) LF CR")
  case None
  then have "newline_round f X c = Some (Inr c)" by (simp add: newline_round_def rest_of_ok assms(2,3))
  then show ?thesis using that(1) [of "offset c"] assms(3) by simp
next
  case (Some off)
  note n = find_newline [OF assms Some]
  have b: "byte_at c (offset c + off) = Inr (bytes c ! (offset c + off))" using byte_at_ok [OF assms(2)] n(1) by simp
  show ?thesis
  proof (cases "bytes c ! (offset c + off) = LF")
    case True
    then show ?thesis using that(1) [of "offset c + off"] Some b n(1) by (simp add: newline_round_def rest_of_ok assms(2,3))
  next
    case cr: False
    have nl: "bytes c ! offset c \<noteq> LF"
    proof
      assume a: "bytes c ! offset c = LF"
      have f: "find_index (\<lambda>x. x = LF \<or> x = CR) (drop (offset c) (bytes c)) = Some off"
        using assms(1) Some by (simp add: crates_ok_def memx_ok_def)
      have "off = 0" using find_index_dropD [OF f] a assms(3) base_len [OF assms(2)] by (cases off) auto
      with a cr show False by simp
    qed
    show ?thesis
    proof (cases "Suc (offset c + off) < len c \<and> byte_at c (Suc (offset c + off)) = Inr LF")
      case True
      then have "bytes c ! Suc (offset c + off) = LF" using byte_at_ok [OF assms(2), of "Suc (offset c + off)"] by auto
      then show ?thesis using that(2) [of "Suc (offset c + off)"] True cr Some b nl
        by (simp add: newline_round_def rest_of_ok assms(2,3))
    next
      case False
      have "\<not> no_lone_cr (bytes c)"
      proof
        assume "no_lone_cr (bytes c)"
        then have "Suc (offset c + off) < length (bytes c) - 1 \<and> bytes c ! Suc (offset c + off) = LF"
          using cr n base_len [OF assms(2)] unfolding no_lone_cr_def by auto
        then have "Suc (offset c + off) < len c" "bytes c ! Suc (offset c + off) = LF" using base_len(3) [OF assms(2)] by auto
        then show False using False byte_at_ok [OF assms(2), of "Suc (offset c + off)"] by simp
      qed
      then show ?thesis using that(2) [of "offset c + off"] False cr Some b n(1) nl
        by (simp add: newline_round_def rest_of_ok assms(2,3))
    qed
  qed
qed

lemma eat_until_newline_round: "eat_until_newline X c = newline_round eat_until_newline X c"
  by (subst eat_until_newline.simps) (simp only: newline_round_def)

lemma eat_until_newline_safe:
  assumes "crates_ok X" and "lex_base c" and "offset c \<le> len c" and ret: "eat_until_newline X c = Some r"
  shows "newline_ok c r"
proof -
  have "crates_ok X \<longrightarrow> lex_base c \<longrightarrow> offset c \<le> len c \<longrightarrow> newline_ok c r"
  proof (rule eat_until_newline.raw_induct [where P = "\<lambda>X c r. crates_ok X \<longrightarrow> lex_base c \<longrightarrow> offset c \<le> len c \<longrightarrow> newline_ok c r", OF _ ret, folded newline_round_def], intro impI)
    fix f X c r
    assume IH: "\<And>X c r. f X c = Some r \<Longrightarrow> crates_ok X \<longrightarrow> lex_base c \<longrightarrow> offset c \<le> len c \<longrightarrow> newline_ok c r"
      and eq: "newline_round f X c = Some r" and a: "crates_ok X" "lex_base c" "offset c \<le> len c"
    show "newline_ok c r"
    proof (rule newline_round_cases [OF a, of f])
      fix n assume "newline_round f X c = Some (Inr (c\<lparr>offset := n\<rparr>))" "offset c \<le> n" "n \<le> len c"
      with eq show ?thesis by (auto intro: newline_okI)
    next
      fix n assume "newline_round f X c = f X (c\<lparr>offset := n\<rparr>)" "offset c \<le> n" "n < len c"
      with eq a IH [of X "c\<lparr>offset := n\<rparr>" r] show ?thesis by (auto intro: newline_ok_later)
    qed
  qed
  with assms show ?thesis by blast
qed

lemma eat_until_newline_returns:
  assumes "crates_ok X" and "lex_base c" and "offset c \<le> len c" and "no_lone_cr (bytes c)"
  shows "\<exists>r. eat_until_newline X c = Some r"
proof (rule newline_round_cases [OF assms(1-3), of eat_until_newline])
  fix n assume "newline_round eat_until_newline X c = Some (Inr (c\<lparr>offset := n\<rparr>))"
  then show ?thesis using eat_until_newline_round [of X c] by simp
next
  fix n assume e: "newline_round eat_until_newline X c = eat_until_newline X (c\<lparr>offset := n\<rparr>)" and n: "n < len c"
    and "no_lone_cr (bytes c) \<Longrightarrow> bytes c ! n = LF"
  then have lf: "bytes (c\<lparr>offset := n\<rparr>) ! offset (c\<lparr>offset := n\<rparr>) = LF" using assms(4) by simp
  have "lex_base (c\<lparr>offset := n\<rparr>)" "offset (c\<lparr>offset := n\<rparr>) \<le> len (c\<lparr>offset := n\<rparr>)" using assms(2) n by simp_all
  then obtain k where "newline_round eat_until_newline X (c\<lparr>offset := n\<rparr>) = Some (Inr (c\<lparr>offset := n\<rparr>\<lparr>offset := k\<rparr>))"
    using newline_round_cases [OF assms(1), of "c\<lparr>offset := n\<rparr>" eat_until_newline] lf by metis
  then show ?thesis using e eat_until_newline_round [of X c] eat_until_newline_round [of X "c\<lparr>offset := n\<rparr>"] by simp
qed

lemma on_Backslash_ok:
  assumes "crates_ok X" and "lex_inv lo S_Backslash c" and "on_Backslash X c = Some r"
  shows "ctl_ok lo (bytes c) m r"
proof -
  have "S_Backslash \<noteq> S0" by simp
  note I = invD [OF assms(2) this]
  let ?c = "c\<lparr>offset := Suc (offset c)\<rparr>"
  show ?thesis
  proof (cases "bytes c ! offset c = BACKSLASH")
    case True
    then have lt: "offset c < len c" using not_eof_less [OF I(1,4)] by simp
    from True assms(3) obtain r' where e: "eat_until_newline X ?c = Some r'"
      and r: "r = bindr r' (\<lambda>c. bindr (slice_of c (tok_start c + 2) (offset c)) (\<lambda>s. Inr (Done (c\<lparr>kind := LitMultiLineStr s\<rparr>))))"
      by (auto simp: on_Backslash_def bump_ok [OF I(1,4)])
    obtain n where n: "r' = Inr (?c\<lparr>offset := n\<rparr>)" "Suc (offset c) \<le> n" "n \<le> len c"
      using eat_until_newline_safe [OF assms(1) _ _ e] I(1) lt by (auto simp: newline_ok_def)
    have "slice_of (c\<lparr>offset := n\<rparr>) (Suc (Suc (tok_start c))) n = Inr (drop (Suc (Suc (tok_start c))) (take n (bytes c)))"
      using slice_of_ok [of "c\<lparr>offset := n\<rparr>" "Suc (Suc (tok_start c))" n] n I by simp
    then show ?thesis using n I by (simp add: r lex_post_def)
  next
    case False
    then show ?thesis using assms(3) I by (auto simp: on_Backslash_def bump_ok [OF I(1,4)] unread_def lex_post_def)
  qed
qed

lemma on_LineComment_ok:
  assumes "crates_ok X" and "lex_inv lo S_LineComment c" and "on_LineComment X c = Some r"
  shows "ctl_ok lo (bytes c) (lex_measure S_LineComment c) r"
proof -
  have "S_LineComment \<noteq> S0" by simp
  note I = invD [OF assms(2) this]
  from assms(3) obtain r' where e: "eat_until_newline X c = Some r'" and r: "r = bindr r' (\<lambda>c. Inr (Goto S0 c))"
    by (auto simp: on_LineComment_def)
  obtain n where "r' = Inr (c\<lparr>offset := n\<rparr>)" "offset c \<le> n" "n \<le> len c"
    using eat_until_newline_safe [OF assms(1) I(1,4) e] by (auto simp: newline_ok_def)
  then show ?thesis using I by (simp add: r inv_defs)
qed

lemma newline_arms_return:
  assumes "crates_ok X" and "no_lone_cr (bytes c)"
  shows "lex_inv lo S_Backslash c \<Longrightarrow> \<exists>r. on_Backslash X c = Some r"
    and "lex_inv lo S_LineComment c \<Longrightarrow> \<exists>r. on_LineComment X c = Some r"
proof -
  let ?c = "c\<lparr>offset := Suc (offset c)\<rparr>"
  show "\<exists>r. on_LineComment X c = Some r" if "lex_inv lo S_LineComment c"
    using eat_until_newline_returns [OF assms(1) _ _ assms(2)] invD [OF that] by (auto simp: on_LineComment_def)
  show "\<exists>r. on_Backslash X c = Some r" if i: "lex_inv lo S_Backslash c"
  proof (cases "bytes c ! offset c = BACKSLASH")
    case True
    note I = invD [OF i]
    have "offset c < len c" using not_eof_less [OF I(1,4)] True by simp
    then obtain r where "eat_until_newline X ?c = Some r"
      using eat_until_newline_returns [OF assms(1), of ?c] I(1) assms(2) by auto
    then show ?thesis using True by (simp add: on_Backslash_def bump_ok I(1,4))
  next
    case False
    then show ?thesis using invD [OF i] by (simp add: on_Backslash_def bump_ok)
  qed
qed

section \<open>Identifiers\<close>

lemma keyword_not_Eof: "map_of keyword_table s \<noteq> Some Eof"
proof
  assume "map_of keyword_table s = Some Eof"
  then have "(s, Eof) \<in> set keyword_table" by (rule map_of_SomeD)
  moreover have "list_all (\<lambda>(_, k). k \<noteq> Eof) keyword_table" by (simp add: keyword_table_def)
  ultimately show False by (auto simp: list_all_iff)
qed

lemma plain_ident_ok:
  assumes "crates_ok X" and "lex_base c" "lo \<le> tok_start c" "tok_start c < offset c" "offset c \<le> len c" and "str \<noteq> []"
  shows "ctl_ok lo (bytes c) m (plain_ident X str c)"
proof -
  have k: "keyword_candidate X str \<noteq> Some Eof"
    using keyword_not_Eof assms(1) by (simp add: keyword_candidate_def crates_ok_def)
  obtain e where e: "diag_invalid_integer_bit_width X c = Inr (c\<lparr>errors := e\<rparr>)"
    unfolding diag_invalid_integer_bit_width_def using push_error_ok [of c] assms(2-5) by fastforce
  have inv: "ctl_ok lo (bytes c) m (done_invalid (c\<lparr>errors := e\<rparr>))" using assms by (intro done_invalid_ok) simp_all
  have kd: "ctl_ok lo (bytes c) m (Inr (Done (c\<lparr>kind := k\<rparr>)))" if "k \<noteq> Eof" for k
    using that assms by (simp add: lex_post_def)
  show ?thesis
  proof (cases "keyword_candidate X str")
    case None
    then show ?thesis using inv kd assms(6) e by (simp add: plain_ident_def Let_def)
  next
    case (Some k')
    then show ?thesis using k kd [of k'] by (simp add: plain_ident_def)
  qed
qed

lemma on_Ident_ok:
  assumes "crates_ok X" and "lex_inv lo S_Ident c"
  shows "ctl_ok lo (bytes c) m (on_Ident X c)"
proof -
  have "S_Ident \<noteq> S0" by simp
  note I = invD [OF assms(2) this]
  obtain s ik where k: "kind c = Ident s ik" "ik \<noteq> UserEscaped" using assms(2) by (auto simp: lex_inv_def state_inv_def)
  obtain n where n: "eat_while is_ident_cont c = Inr (c\<lparr>offset := n\<rparr>)" "offset c \<le> n" "n \<le> len c"
    using eat_while_ok [OF I(1,4), of is_ident_cont] by auto
  let ?str = "drop (tok_start c) (take n (bytes c))"
  have l: "lexeme (c\<lparr>offset := n\<rparr>) = Inr ?str" using lexeme_ok [of "c\<lparr>offset := n\<rparr>"] I n by simp
  have "?str \<noteq> []" using n I base_len(1) [OF I(1)] by simp
  then have "ctl_ok lo (bytes c) m (plain_ident X ?str (c\<lparr>offset := n\<rparr>))"
    using plain_ident_ok [OF assms(1), of "c\<lparr>offset := n\<rparr>"] I n by simp
  then show ?thesis using n l k I by (cases ik) (simp_all add: on_Ident_def lex_post_def)
qed

section \<open>Strings\<close>

lemmas diag_defs = diag_unexpected_eof_def diag_unexpected_character_def diag_invalid_escape_sequence_def
  diag_invalid_unicode_escape_def diag_invalid_float_literal_def diag_invalid_integer_literal_def

lemma push_error_bind:
  assumes "lex_base c" and "tok_start c \<le> offset c" and "offset c \<le> Suc (len c)"
    and "\<And>e. ctl_ok lo bs m (f (c\<lparr>errors := e\<rparr>))"
  shows "ctl_ok lo bs m (bindr (push_error X msg c) f)"
  using push_error_ok [OF assms(1-3), of X msg] assms(4) by auto

lemma search3_ok:
  assumes "crates_ok X" and "lex_base c" and "offset c \<le> len c" and "a \<noteq> EOF" "b \<noteq> EOF" "d \<noteq> EOF"
    and "memchr_tpl (mx X) (drop (offset c) (bytes c)) a b d = Some off"
  shows "offset c + off < len c"
proof -
  have f: "find_index (\<lambda>x. x = a \<or> x = b \<or> x = d) (drop (offset c) (bytes c)) = Some off"
    using assms(1,7) by (simp add: crates_ok_def memx_ok_def)
  note d = find_index_dropD [OF f] base_len [OF assms(2)] assms(3)
  then have "bytes c ! (offset c + off) \<noteq> EOF" using assms(4-6) by auto
  then show ?thesis using d by (intro not_eof_less' [OF assms(2)]) auto
qed

lemma eat_until3_ok:
  assumes "crates_ok X" and "lex_base c" and "offset c \<le> len c" and "a \<noteq> EOF" "b \<noteq> EOF" "d \<noteq> EOF"
  shows "\<exists>n. eat_until3 X a b d c = Inr (c\<lparr>offset := n\<rparr>) \<and> offset c \<le> n \<and> n \<le> len c"
proof (cases "memchr_tpl (mx X) (drop (offset c) (bytes c)) a b d")
  case None
  then show ?thesis using assms(2,3) by (intro exI [of _ "len c"]) (simp add: eat_until3_def rest_of_ok)
next
  case (Some off)
  then show ?thesis using search3_ok [OF assms Some] assms(2,3)
    by (intro exI [of _ "offset c + off"]) (simp add: eat_until3_def rest_of_ok)
qed

lemma recover_ok:
  assumes "crates_ok X" and "lex_base c" and "offset c \<le> len c"
  shows "\<exists>n. recover_invalid_string X c = Inr (c\<lparr>scratch_pad := [], offset := n\<rparr>) \<and> offset c \<le> n \<and> n \<le> len c"
proof (cases "offset c < len c")
  case False
  then show ?thesis using assms(3) by (auto simp: recover_invalid_string_def)
next
  case True
  let ?c = "c\<lparr>scratch_pad := []\<rparr>"
  have r: "rest_of ?c = Inr (drop (offset c) (bytes c))" using rest_of_ok [of ?c] assms by simp
  show ?thesis
  proof (cases "memchr_tpl (mx X) (drop (offset c) (bytes c)) QUOTE LF CR")
    case None
    then show ?thesis using True r by (auto simp: recover_invalid_string_def)
  next
    case (Some off)
    have lt: "offset c + off < len c" using search3_ok [OF assms _ _ _ Some] by simp
    have "byte_at (?c\<lparr>offset := offset c + off\<rparr>) (offset c + off) = Inr (bytes c ! (offset c + off))"
      using byte_at_ok [of "?c\<lparr>offset := offset c + off\<rparr>"] assms(2) lt by simp
    then show ?thesis using True Some lt r
      by (auto simp: recover_invalid_string_def Let_def intro!: exI)
  qed
qed

lemma invalid_string_ok:
  assumes "crates_ok X" and "lex_base c" "lo \<le> tok_start c" "tok_start c < offset c" "offset c \<le> len c" and "bytes c = bs"
  shows "ctl_ok lo bs m (invalid_string X c)"
  using recover_ok [OF assms(1,2,5)] assms by (auto simp: invalid_string_def intro!: done_invalid_ok)

lemma str_goto_ok:
  assumes "lex_base c" "lo \<le> tok_start c" "tok_start c < offset c" "offset c \<le> len c" "bytes c = bs"
    and "(\<exists>s. kind c = LitStr s) \<or> (\<exists>s ik. kind c = Ident s ik)" and "2 * (len c + 1 - offset c) < m"
  shows "ctl_ok lo bs m (Inr (Goto S_Str c))" and "ctl_ok lo bs m (Inr (Goto S_EscapeStr c))"
  using assms by (simp_all add: inv_defs)

lemma str_invD:
  assumes "lex_inv lo st c" and "st = S_Str \<or> st = S_EscapeStr"
  shows "(\<exists>s. kind c = LitStr s) \<or> (\<exists>s ik. kind c = Ident s ik)" and "lex_measure st c = 2 * (len c + 1 - offset c)"
    and "st \<noteq> S0"
  using assms by (auto simp: lex_inv_def state_inv_def lex_measure_def)

lemma on_Str_ok:
  assumes "crates_ok X" and "lex_inv lo S_Str c"
  shows "ctl_ok lo (bytes c) (lex_measure S_Str c) (on_Str X c)"
proof -
  have st: "S_Str = S_Str \<or> S_Str = S_EscapeStr" by simp
  note K = str_invD [OF assms(2) st]
  note I = invD [OF assms(2) K(3)]
  let ?b = "bytes c ! offset c" and ?c = "c\<lparr>offset := Suc (offset c)\<rparr>"
  have lt: "offset c < len c" if "?b \<noteq> EOF" using not_eof_less [OF I(1,4) that] .
  consider "?b = EOF" | "?b = LF" | "?b = QUOTE" | "?b = BACKSLASH" | "?b \<notin> {EOF, LF, QUOTE, BACKSLASH}" by auto
  then show ?thesis
  proof cases
    case 1
    then show ?thesis using I
      by (auto simp: on_Str_def bump_ok [OF I(1,4)] diag_defs intro!: push_error_bind invalid_string_ok [OF assms(1)])
  next
    case 2
    then show ?thesis using I lt
      by (auto simp: on_Str_def bump_ok [OF I(1,4)] diag_defs intro!: push_error_bind done_invalid_ok)
  next
    case 3
    then show ?thesis using I K(1) lt by (auto simp: on_Str_def bump_ok [OF I(1,4)] lex_post_def)
  next
    case 4
    then show ?thesis using I K(1,2) lt by (simp add: on_Str_def bump_ok [OF I(1,4)] str_goto_ok del: ctl_ok.simps)
  next
    case 5
    with lt obtain n where n: "eat_until3 X QUOTE BACKSLASH LF ?c = Inr (?c\<lparr>offset := n\<rparr>)" "Suc (offset c) \<le> n" "n \<le> len c"
      using eat_until3_ok [OF assms(1), of ?c QUOTE BACKSLASH LF] I by auto
    have "slice_of (c\<lparr>offset := n\<rparr>) (offset c) n = Inr (drop (offset c) (take n (bytes c)))"
      using slice_of_ok [of "c\<lparr>offset := n\<rparr>" "offset c" n] I n by simp
    with 5 n I K(1,2) show ?thesis
      by (simp add: on_Str_def bump_ok [OF I(1,4)] str_goto_ok Let_def del: ctl_ok.simps)
  qed
qed

lemma hex_value_ok: "is_ascii_hexdigit b \<Longrightarrow> \<exists>n. hex_value b = Inr n \<and> n < 16"
  by (auto simp: hex_value_def is_ascii_hexdigit_def in_range_def)

lemma push_scratch_ok:
  assumes "lex_base c" "lo \<le> tok_start c" "tok_start c < offset c" "offset c \<le> len c" "bytes c = bs"
    and "(\<exists>s. kind c = LitStr s) \<or> (\<exists>s ik. kind c = Ident s ik)" and "2 * (len c + 1 - offset c) < m"
  shows "ctl_ok lo bs m (push_scratch s c)"
  using assms unfolding push_scratch_def by (intro str_goto_ok) simp_all

lemma escape_hex_ok:
  assumes "crates_ok X" and "lex_base c" "lo \<le> tok_start c" "tok_start c + 1 < offset c" "offset c \<le> len c"
    and "(\<exists>s. kind c = LitStr s) \<or> (\<exists>s ik. kind c = Ident s ik)" and "2 * (len c + 1 - offset c) \<le> m"
  shows "ctl_ok lo (bytes c) m (escape_hex X c)"
proof (cases "bytes c ! offset c = EOF")
  case True
  then show ?thesis using assms
    by (auto simp: escape_hex_def bump_ok diag_defs intro!: push_error_bind invalid_string_ok)
next
  case False
  let ?c1 = "c\<lparr>offset := Suc (offset c)\<rparr>" and ?c2 = "c\<lparr>offset := Suc (Suc (offset c))\<rparr>"
  let ?hi = "bytes c ! offset c" and ?lo = "bytes c ! Suc (offset c)"
  have lt: "offset c < len c" using not_eof_less [OF assms(2,5) False] .
  then have b2: "bump ?c1 = Inr (?lo, ?c2)" using bump_ok [of ?c1] assms(2) by simp
  have lt2: "Suc (offset c) < len c" if "?lo \<noteq> EOF" using not_eof_less [OF assms(2) _ that] lt by simp
  show ?thesis
  proof (cases "is_ascii_hexdigit ?hi \<and> is_ascii_hexdigit ?lo")
    case True
    then obtain h l where hl: "hex_value ?hi = Inr h" "hex_value ?lo = Inr l" using hex_value_ok by blast
    have "Suc (offset c) < len c" using lt2 True class_not_NUL by blast
    then show ?thesis using True False hl assms b2
      by (simp add: escape_hex_def bump_ok push_scratch_ok)
  next
    case no: False
    then show ?thesis using False assms b2 lt lt2
      by (auto simp: escape_hex_def bump_ok diag_defs unread_def intro!: push_error_bind invalid_string_ok)
  qed
qed

text \<open>Reading the digits of a Unicode escape: an early end of the token, or the offset of the brace.\<close>

lemma unicode_digits_ok:
  assumes "crates_ok X" and "lex_base c" "lo \<le> tok_start c" "tok_start c < offset c" "offset c \<le> len c"
  shows "(\<exists>ctl. unicode_digits X cp c = Inr (Inl ctl) \<and> ctl_ok lo (bytes c) m (Inr ctl)) \<or>
    (\<exists>cp' n. unicode_digits X cp c = Inr (Inr (cp', c\<lparr>offset := n\<rparr>)) \<and> offset c \<le> n \<and> n < len c)"
  using assms(2-5)
proof (induction "len c - offset c" arbitrary: c cp rule: less_induct)
  case less
  note P = less.prems
  let ?b = "bytes c ! offset c" and ?c1 = "c\<lparr>offset := Suc (offset c)\<rparr>"
  have in_range: "offset c < length (bytes c)" using base_len(1) [OF P(1)] P(4) by simp
  note un = unicode_digits.simps [of X cp c]
  have inv: "\<exists>ctl. bindr (push_error X msg d) (\<lambda>c2. bindr (if b then unread 1 c2 else Inr c2) (\<lambda>c3. bindr (invalid_string X c3) (\<lambda>r. Inr (Inl r)))) = Inr (Inl ctl)
      \<and> ctl_ok lo (bytes c) m (Inr ctl)"
    if d: "lex_base d" "lo \<le> tok_start d" "tok_start d < offset d" "offset d \<le> len d" "bytes d = bytes c"
      "b \<Longrightarrow> tok_start d + 1 < offset d" for d b msg
  proof -
    obtain e where e: "push_error X msg d = Inr (d\<lparr>errors := e\<rparr>)" using push_error_ok [of d X msg] d by fastforce
    let ?d = "if b then d\<lparr>errors := e, offset := offset d - 1\<rparr> else d\<lparr>errors := e\<rparr>"
    have "ctl_ok lo (bytes c) m (invalid_string X ?d)" using d assms(1) by (intro invalid_string_ok) auto
    then obtain ctl where "invalid_string X ?d = Inr ctl" "ctl_ok lo (bytes c) m (Inr ctl)"
      by (cases "invalid_string X ?d") auto
    with e d(3) show ?thesis by (cases b) (auto simp: unread_def)
  qed
  consider "?b = CHR ''}''" | "?b \<noteq> CHR ''}''" "is_eof c" | "?b \<noteq> CHR ''}''" "\<not> is_eof c" "is_ascii_hexdigit ?b"
    | "?b \<noteq> CHR ''}''" "\<not> is_eof c" "\<not> is_ascii_hexdigit ?b" by blast
  then show ?case
  proof cases
    case 1
    then have "offset c < len c" using not_eof_less [OF P(1,4)] by simp
    with 1 in_range show ?thesis by (intro disjI2 exI [of _ cp] exI [of _ "offset c"]) (simp add: un)
  next
    case 2
    then show ?thesis using in_range inv [of c False] P by (intro disjI1) (simp add: un diag_defs)
  next
    case 3
    then obtain d where d: "hex_value ?b = Inr d" using hex_value_ok by blast
    have lt: "offset c < len c" using 3(2) by (simp add: is_eof_def)
    let ?cp = "push_bit 4 cp OR of_nat d"
    have e: "unicode_digits X cp c = unicode_digits X ?cp ?c1" using 3 d in_range by (simp add: un Let_def)
    have "len ?c1 - offset ?c1 < len c - offset c" using lt by simp
    from less.hyps [OF this, of ?cp] P lt show ?thesis unfolding e by force
  next
    case 4
    have lt: "offset c < len c" using 4(2) by (simp add: is_eof_def)
    then show ?thesis using 4 in_range inv [of ?c1 "is_line_end ?b"] P by (intro disjI1) (simp add: un diag_defs Let_def)
  qed
qed

lemma escape_unicode_ok:
  assumes "crates_ok X" and "lex_base c" "lo \<le> tok_start c" "tok_start c + 1 < offset c" "offset c \<le> len c"
    and "(\<exists>s. kind c = LitStr s) \<or> (\<exists>s ik. kind c = Ident s ik)" and "2 * (len c + 1 - offset c) \<le> m"
  shows "ctl_ok lo (bytes c) m (escape_unicode X c)"
proof (cases "bytes c ! offset c = CHR ''{''")
  case False
  have "byte_at (c\<lparr>offset := Suc (offset c), errors := e\<rparr>) (offset c) = Inr (bytes c ! offset c)" for e
    using byte_at_ok [of "c\<lparr>offset := Suc (offset c), errors := e\<rparr>"] assms(2,5) by simp
  with False assms show ?thesis
    by (auto simp: escape_unicode_def bump_ok diag_defs unread_def not_less intro!: push_error_bind invalid_string_ok)
next
  case True
  let ?c1 = "c\<lparr>offset := Suc (offset c)\<rparr>"
  have lt: "offset c < len c" using not_eof_less [OF assms(2,5)] True by simp
  note ud = unicode_digits_ok [OF assms(1), of ?c1 lo 0 m]
  then consider ctl where "unicode_digits X 0 ?c1 = Inr (Inl ctl)" "ctl_ok lo (bytes c) m (Inr ctl)"
    | cp n where "unicode_digits X 0 ?c1 = Inr (Inr (cp, c\<lparr>offset := n\<rparr>))" "Suc (offset c) \<le> n" "n < len c"
    using assms lt by auto
  then show ?thesis
  proof cases
    case 1
    then show ?thesis using True assms by (simp add: escape_unicode_def bump_ok)
  next
    case 2
    let ?c2 = "c\<lparr>offset := Suc n\<rparr>"
    have s: "ctl_ok lo (bytes c) m (push_scratch t ?c2)" for t using assms 2 by (intro push_scratch_ok) simp_all
    have e: "ctl_ok lo (bytes c) m (bindr (push_error X msg ?c2) (invalid_string X))" for msg
      using assms 2 by (intro push_error_bind invalid_string_ok) simp_all
    show ?thesis using True assms 2 s e
      by (simp add: escape_unicode_def bump_ok diag_defs Let_def split: option.splits)
  qed
qed

lemma on_EscapeStr_ok:
  assumes "crates_ok X" and "lex_inv lo S_EscapeStr c"
  shows "ctl_ok lo (bytes c) (lex_measure S_EscapeStr c) (on_EscapeStr X c)"
proof -
  have st: "S_EscapeStr = S_Str \<or> S_EscapeStr = S_EscapeStr" by simp
  note K = str_invD [OF assms(2) st]
  note I = invD [OF assms(2) K(3)]
  let ?b = "bytes c ! offset c" and ?c = "c\<lparr>offset := Suc (offset c)\<rparr>"
  show ?thesis
  proof (cases "?b = EOF")
    case True
    then show ?thesis using I
      by (auto simp: on_EscapeStr_def bump_ok [OF I(1,4)] diag_defs intro!: push_error_bind invalid_string_ok [OF assms(1)])
  next
    case False
    have lt: "offset c < len c" using not_eof_less [OF I(1,4) False] .
    have s: "ctl_ok lo (bytes c) (lex_measure S_EscapeStr c) (push_scratch t ?c)" for t
      using I K lt by (intro push_scratch_ok) simp_all
    have x: "ctl_ok lo (bytes c) (lex_measure S_EscapeStr c) (escape_hex X ?c)"
      using escape_hex_ok [OF assms(1), of ?c lo "lex_measure S_EscapeStr c"] I K lt by simp
    have u: "ctl_ok lo (bytes c) (lex_measure S_EscapeStr c) (escape_unicode X ?c)"
      using escape_unicode_ok [OF assms(1), of ?c lo "lex_measure S_EscapeStr c"] I K lt by simp
    have "byte_at (c\<lparr>offset := Suc (offset c), errors := e\<rparr>) (offset c) = Inr ?b" for e
      using byte_at_ok [of "c\<lparr>offset := Suc (offset c), errors := e\<rparr>"] I by simp
    then have d: "ctl_ok lo (bytes c) m (bindr (push_error X msg ?c) (\<lambda>c. bindr (byte_at c (offset c - 1)) (\<lambda>b.
        bindr (if is_line_end b then unread 1 c else Inr c) (invalid_string X))))" for m msg
      using I lt by (auto simp: unread_def intro!: push_error_bind invalid_string_ok [OF assms(1)])
    show ?thesis using False s x u d
      by (simp add: on_EscapeStr_def bump_ok [OF I(1,4)] diag_defs split: option.split)
  qed
qed

section \<open>Numbers\<close>

lemma on_IntZero_ok:
  assumes "lex_inv lo S_IntZero c"
  shows "ctl_ok lo (bytes c) (lex_measure S_IntZero c) (on_IntZero c)"
proof -
  have "S_IntZero \<noteq> S0" by simp
  note I = invD [OF assms this]
  let ?b = "bytes c ! offset c"
  have d: "is_ascii_digit (bytes c ! tok_start c)" using assms by (simp add: lex_inv_def state_inv_def)
  have "offset c < len c" if "?b \<in> {CHR ''b'', CHR ''o'', CHR ''x'', CHR ''.'', CHR ''e'', CHR ''E''} \<or> is_bin_digit_or_uscore ?b"
    by (rule not_eof_less [OF I(1,4)]) (use that class_not_NUL in auto)
  then show ?thesis using I d by (auto simp: on_IntZero_def bump_ok [OF I(1,4)] unread_def inv_defs)
qed

lemma digits_then:
  assumes "lex_base c" "offset c \<le> len c" and "\<not> P EOF"
    and "\<And>n b. offset c \<le> n \<Longrightarrow> n \<le> len c \<Longrightarrow> \<not> P (bytes c ! n) \<Longrightarrow>
      (\<And>i. offset c \<le> i \<Longrightarrow> i < n \<Longrightarrow> P (bytes c ! i)) \<Longrightarrow> ctl_ok lo bs m (f (c\<lparr>offset := n, seen_digit := b\<rparr>))"
  shows "ctl_ok lo bs m (bindr (eat_digits P c) f)"
  using eat_digits_ok [of c P] assms by auto

lemma literal_done:
  assumes "lex_base c" "lo \<le> tok_start c" "tok_start c < offset c" "offset c \<le> len c" "bytes c = bs" and "\<And>s. g s \<noteq> Eof"
  shows "ctl_ok lo bs m (bindr (lexeme c) (\<lambda>s. Inr (Done (c\<lparr>kind := g s\<rparr>))))"
  using assms by (simp add: lexeme_ok lex_post_def)

lemma radix_literal_ok:
  assumes "lex_base c" "lo \<le> tok_start c" "tok_start c < offset c" "offset c \<le> len c" and "\<not> P EOF"
  shows "ctl_ok lo (bytes c) m (radix_literal X P r c)"
  unfolding radix_literal_def diag_defs
  using assms by (intro digits_then) (auto intro!: push_error_bind done_invalid_ok literal_done)

lemma radix_arms_ok:
  "lex_inv lo S_IntBin c \<Longrightarrow> ctl_ok lo (bytes c) m (on_IntBin X c)"
  "lex_inv lo S_IntOct c \<Longrightarrow> ctl_ok lo (bytes c) m (on_IntOct X c)"
  "lex_inv lo S_IntHex c \<Longrightarrow> ctl_ok lo (bytes c) m (on_IntHex X c)"
  unfolding on_IntBin_def on_IntOct_def on_IntHex_def
  by (rule radix_literal_ok; simp add: lex_inv_def)+

lemma on_IntDec_ok:
  assumes "lex_inv lo S_IntDec c"
  shows "ctl_ok lo (bytes c) (lex_measure S_IntDec c) (on_IntDec c)"
proof -
  have "S_IntDec \<noteq> S0" by simp
  note I = invD [OF assms this]
  have d: "is_ascii_digit (bytes c ! tok_start c)" using assms by (simp add: lex_inv_def state_inv_def)
  show ?thesis unfolding on_IntDec_def
  proof (rule digits_then [OF I(1,4)])
    fix n b assume n: "offset c \<le> n" "n \<le> len c"
    let ?c = "c\<lparr>offset := n, seen_digit := b\<rparr>" and ?b = "bytes c ! n"
    have p: "peek ?c = Inr ?b" using peek_ok [of ?c] I n by simp
    have lt: "n < len c" if "?b \<in> {CHR ''.'', CHR ''e'', CHR ''E''}"
      by (rule not_eof_less [OF I(1) n(2)]) (use that in auto)
    have at: "byte_at ?c (tok_start c) = Inr (bytes c ! tok_start c)" using byte_at_ok [of ?c] I n by simp
    have lit: "ctl_ok lo (bytes c) m (bindr (lexeme ?c) (\<lambda>s. Inr (Done (?c\<lparr>kind := LitInt s Decimal\<rparr>))))" for m
      using I n by (intro literal_done) simp_all
    show "ctl_ok lo (bytes c) (lex_measure S_IntDec c) (bindr (peek ?c) (\<lambda>b.
         if b = CHR ''.'' then Inr (Goto S_FloatDot1 (?c\<lparr>offset := offset ?c + 1, seen_digit := False\<rparr>))
         else if is_exp_mark b then Inr (Goto S_FloatExp1 (?c\<lparr>offset := offset ?c + 1, seen_digit := False\<rparr>))
         else if offset ?c < tok_start ?c then Inl Underflow
         else if offset ?c - tok_start ?c = 1
         then bindr (byte_at ?c (tok_start ?c)) (\<lambda>d.
                if \<not> is_ascii_digit d then Inl AssumeFailed
                else Inr (Done (?c\<lparr>kind := LitInt (int_digits ! (of_char d - 48)) Decimal\<rparr>)))
         else bindr (lexeme ?c) (\<lambda>s. Inr (Done (?c\<lparr>kind := LitInt s Decimal\<rparr>)))))"
      using I n p lt at d lit by (auto simp: inv_defs)
  qed simp
qed

lemma on_FloatDot1_ok:
  assumes "lex_inv lo S_FloatDot1 c"
  shows "ctl_ok lo (bytes c) (lex_measure S_FloatDot1 c) (on_FloatDot1 X c)"
proof -
  have "S_FloatDot1 \<noteq> S0" by simp
  note I = invD [OF assms this]
  let ?b = "bytes c ! offset c"
  have two: "tok_start c + 2 \<le> offset c" using assms by (simp add: lex_inv_def state_inv_def)
  have lt: "offset c < len c" if "?b \<in> {CHR ''e'', CHR ''E'', CHR ''.''} \<or> is_digit ?b"
    by (rule not_eof_less [OF I(1,4)]) (use that class_not_NUL in auto)
  show ?thesis using I two lt
    by (auto simp: on_FloatDot1_def bump_ok [OF I(1,4)] unread_def diag_defs inv_defs lexeme_ok
        intro!: push_error_bind done_invalid_ok)
qed

lemma on_FloatDot2_ok:
  assumes "lex_inv lo S_FloatDot2 c"
  shows "ctl_ok lo (bytes c) (lex_measure S_FloatDot2 c) (on_FloatDot2 c)"
proof -
  have "S_FloatDot2 \<noteq> S0" by simp
  note I = invD [OF assms this]
  show ?thesis unfolding on_FloatDot2_def
  proof (rule digits_then [OF I(1,4)])
    fix n b assume n: "offset c \<le> n" "n \<le> len c"
    let ?c = "c\<lparr>offset := n, seen_digit := b\<rparr>" and ?b = "bytes c ! n"
    have p: "peek ?c = Inr ?b" using peek_ok [of ?c] I n by simp
    have lt: "n < len c" if "is_exp_mark ?b" by (rule not_eof_less [OF I(1) n(2)]) (use that in auto)
    have lit: "ctl_ok lo (bytes c) m (bindr (lexeme ?c) (\<lambda>s. Inr (Done (?c\<lparr>kind := LitFloat s\<rparr>))))" for m
      using I n by (intro literal_done) simp_all
    show "ctl_ok lo (bytes c) (lex_measure S_FloatDot2 c) (bindr (peek ?c) (\<lambda>b.
         if is_exp_mark b
         then Inr (Goto S_FloatExp1 (?c\<lparr>offset := offset ?c + 1, seen_digit := False, kind := LitFloat ''''\<rparr>))
         else bindr (lexeme ?c) (\<lambda>s. Inr (Done (?c\<lparr>kind := LitFloat s\<rparr>)))))"
      using I n p lt lit by (auto simp: inv_defs)
  qed simp
qed

lemma on_FloatExp1_ok:
  assumes "lex_inv lo S_FloatExp1 c"
  shows "ctl_ok lo (bytes c) (lex_measure S_FloatExp1 c) (on_FloatExp1 X c)"
proof -
  have "S_FloatExp1 \<noteq> S0" by simp
  note I = invD [OF assms this]
  let ?b = "bytes c ! offset c"
  have "offset c < len c" if "?b \<in> {CHR ''+'', CHR ''-''} \<or> is_digit ?b"
    by (rule not_eof_less [OF I(1,4)]) (use that class_not_NUL in auto)
  then show ?thesis using I
    by (auto simp: on_FloatExp1_def peek_ok [OF I(1,4)] inv_defs diag_defs intro!: push_error_bind done_invalid_ok)
qed

lemma on_FloatExp2_ok:
  assumes "lex_inv lo S_FloatExp2 c"
  shows "ctl_ok lo (bytes c) m (on_FloatExp2 X c)"
proof -
  have "S_FloatExp2 \<noteq> S0" by simp
  note I = invD [OF assms this]
  show ?thesis unfolding on_FloatExp2_def diag_defs
    using I by (intro digits_then) (auto intro!: push_error_bind done_invalid_ok literal_done)
qed

section \<open>The start state\<close>

lemma skip_whitespace_ok:
  assumes "crates_ok X" and "lex_base c" and "offset c \<le> len c"
  shows "\<exists>n. skip_whitespace X c = Inr (c\<lparr>offset := n\<rparr>) \<and> offset c \<le> n \<and> n \<le> len c \<and> \<not> is_whitespace (bytes c ! n)"
proof (cases "is_whitespace (bytes c ! offset c)")
  case False
  then show ?thesis using assms by (intro exI [of _ "offset c"]) (simp add: skip_whitespace_def peek_ok)
next
  case True
  note bl = base_len [OF assms(2)]
  let ?W = "\<lambda>x. \<not> (x = CHR '' '' \<or> x = CHR 0x09 \<or> x = LF \<or> x = CR)"
  have m: "memnechr_qpl (mx X) bs (CHR '' '') (CHR 0x09) LF CR = find_index ?W bs" for bs
    using assms(1) by (simp add: crates_ok_def memx_ok_def)
  obtain k where k: "find_index ?W (drop (offset c) (bytes c)) = Some k" "offset c + k \<le> len c"
    using find_index_drop_exists [of "len c" "bytes c" ?W "offset c"] bl assms(3) by auto
  have "?W (bytes c ! (offset c + k))" using find_index_dropD [OF k(1)] assms(3) bl by auto
  then have "\<not> is_whitespace (bytes c ! (offset c + k))" by (simp add: char_class_spec)
  with k True assms show ?thesis
    by (intro exI [of _ "offset c + k"]) (simp add: skip_whitespace_def peek_ok rest_of_ok m)
qed

lemma single_chars_Eof: "map_of single_chars b = Some k \<Longrightarrow> k = Eof \<longleftrightarrow> b = EOF"
  by (auto simp: single_chars_def split: if_splits)

lemma single_chars_EOF: "map_of single_chars EOF = Some Eof"
  by (simp add: single_chars_def)

lemma op_starts_ok: "map_of op_starts b = Some (k, st) \<Longrightarrow> k \<noteq> Eof \<and> b \<noteq> EOF \<and> (st \<in> set op_states \<or> st = S_Str \<and> k = LitStr [])"
  by (auto simp: op_starts_def op_states_def split: if_splits)

lemma on_S0_ok:
  assumes "crates_ok X" and "lex_inv lo S0 c"
  shows "ctl_ok lo (bytes c) (lex_measure S0 c) (on_S0 X c)"
proof -
  have I: "lex_base c" "lo \<le> offset c" "offset c \<le> len c" using assms(2) by (auto simp: lex_inv_def)
  obtain n where n: "skip_whitespace X c = Inr (c\<lparr>offset := n\<rparr>)" "offset c \<le> n" "n \<le> len c"
    using skip_whitespace_ok [OF assms(1) I(1,3)] by blast
  let ?b = "bytes c ! n" and ?c = "c\<lparr>tok_start := n, offset := Suc n\<rparr>"
  have b: "bump (c\<lparr>offset := n, tok_start := n\<rparr>) = Inr (?b, ?c)"
    using bump_ok [of "c\<lparr>offset := n, tok_start := n\<rparr>"] I n by simp
  have lt: "n < len c" if "?b \<noteq> EOF" using not_eof_less [OF I(1) n(3) that] .
  show ?thesis
  proof (cases "map_of single_chars ?b")
    case (Some k)
    then show ?thesis using I n b lt single_chars_Eof [OF Some] by (auto simp: on_S0_def lex_post_def)
  next
    case None
    then have ne: "?b \<noteq> EOF" using single_chars_EOF by auto
    note lt = lt [OF ne]
    show ?thesis
    proof (cases "map_of op_starts ?b")
      case (Some p)
      obtain k st where p: "p = (k, st)" by fastforce
      note o = op_starts_ok [OF Some [unfolded p]]
      have "ctl_ok lo (bytes c) (lex_measure S0 c) (Inr (Goto st (?c\<lparr>kind := k\<rparr>)))"
      proof (cases "st \<in> set op_states")
        case True
        then show ?thesis using o I n lt by (intro goto_op_ok) (auto simp: lex_measure_def)
      next
        case False
        then show ?thesis using o I n lt by (auto simp: inv_defs)
      qed
      with None Some p n b show ?thesis by (simp add: on_S0_def)
    next
      case no: None
      have e: "ctl_ok lo (bytes c) m (bindr (diag_unexpected_character X ch ?c) done_invalid)" for m ch
        using I n lt by (auto simp: diag_defs intro!: push_error_bind done_invalid_ok)
      have "is_ascii_digit ?b" if "has_class ?b DIGIT" using that char_class_spec(2) [of ?b] by (simp add: is_digit_def)
      moreover have "is_ascii_digit (CHR ''0'')" by (simp add: is_ascii_digit_def in_range_def)
      ultimately show ?thesis using None no n b I lt e by (auto simp: on_S0_def inv_defs)
    qed
  qed
qed

section \<open>The machine\<close>

lemma lex_step_ok:
  assumes "crates_ok X" and "lex_inv lo st c" and "lex_step X st c = Some r"
  shows "ctl_ok lo (bytes c) (lex_measure st c) r"
  using assms
  by (cases st) (auto intro: on_S0_ok op_arms_ok on_StarStar_ok on_Slash_ok on_Dot_ok on_Underscore_ok on_Hash_ok on_At_ok
      on_Dollar_ok on_Backslash_ok on_LineComment_ok on_Ident_ok on_Str_ok on_EscapeStr_ok on_IntZero_ok radix_arms_ok
      on_IntDec_ok on_FloatDot1_ok on_FloatDot2_ok on_FloatExp1_ok on_FloatExp2_ok)

lemma lex_step_returns:
  "crates_ok X \<Longrightarrow> lex_inv lo st c \<Longrightarrow> no_lone_cr (bytes c) \<Longrightarrow> \<exists>r. lex_step X st c = Some r"
  using newline_arms_return [of X c lo] by (cases st) auto

lemma lex_loop_safe:
  assumes "crates_ok X" and "lex_inv lo st c" and ret: "lex_loop X st c = Some r"
  shows "\<exists>c'. r = Inr c' \<and> bytes c' = bytes c \<and> lex_post lo c'"
proof -
  let ?P = "\<lambda>X st c r. crates_ok X \<longrightarrow> lex_inv lo st c \<longrightarrow> (\<exists>c'. r = Inr c' \<and> bytes c' = bytes c \<and> lex_post lo c')"
  have "?P X st c r"
  proof (rule lex_loop.raw_induct [where P = ?P, OF _ ret], intro impI)
    fix f X st c r
    assume IH: "\<And>X st c r. f X st c = Some r \<Longrightarrow> ?P X st c r" and a: "crates_ok X" "lex_inv lo st c"
      and eq: "Option.bind (lex_step X st c) (\<lambda>r. case r of Inl e \<Rightarrow> Some (Inl e) | Inr (Goto st' c') \<Rightarrow> f X st' c'
         | Inr (Done c') \<Rightarrow> Some (Inr c')) = Some r"
    from eq obtain s where s: "lex_step X st c = Some s" by (cases "lex_step X st c") auto
    note ok = lex_step_ok [OF a s]
    show "\<exists>c'. r = Inr c' \<and> bytes c' = bytes c \<and> lex_post lo c'"
    proof (cases s)
      case (Inl e)
      with ok show ?thesis by simp
    next
      case (Inr ctl)
      show ?thesis
      proof (cases ctl)
        case (Goto st' c')
        then show ?thesis using IH [of X st' c' r] a(1) eq ok s Inr by auto
      next
        case (Done c')
        then show ?thesis using eq ok s Inr by auto
      qed
    qed
  qed
  with assms show ?thesis by blast
qed

lemma lex_loop_returns:
  assumes "crates_ok X" and "lex_inv lo st c" and "no_lone_cr (bytes c)"
  shows "\<exists>r. lex_loop X st c = Some r"
  using assms(2,3)
proof (induction "lex_measure st c" arbitrary: st c rule: less_induct)
  case less
  obtain s where s: "lex_step X st c = Some s" using lex_step_returns [OF assms(1) less.prems] by blast
  note ok = lex_step_ok [OF assms(1) less.prems(1) s]
  show ?case
  proof (cases s)
    case (Inl e)
    with ok show ?thesis by simp
  next
    case (Inr ctl)
    show ?thesis
    proof (cases ctl)
      case (Goto st' c')
      then show ?thesis using less.hyps [of st' c'] ok s Inr less.prems(2) by (subst lex_loop.simps) simp
    next
      case (Done c')
      then show ?thesis using s Inr by (subst lex_loop.simps) simp
    qed
  qed
qed

section \<open>\<^verbatim>\<open>Lexer::next\<close>\<close>

lemma lex_enter_sel [simp]:
  "bytes (lex_enter lx) = bytes lx" "len (lex_enter lx) = len lx" "offset (lex_enter lx) = offset lx"
  "tok_start (lex_enter lx) = tok_start lx" "errors (lex_enter lx) = errors lx" "lex_module (lex_enter lx) = lex_module lx"
  "scratch_pad (lex_enter lx) = scratch_pad lx" "kind (lex_enter lx) = Eof" "seen_digit (lex_enter lx) = False"
  by (simp_all add: lex_enter_def lexer.defs lex_ctx.defs)

lemma truncate_sel [simp]:
  "bytes (lexer.truncate c) = bytes c" "len (lexer.truncate c) = len c" "offset (lexer.truncate c) = offset c"
  "tok_start (lexer.truncate c) = tok_start c" "errors (lexer.truncate c) = errors c"
  by (simp_all add: lexer.defs)

text \<open>A lexer from which a token can be read: not past the end of a terminated text.\<close>

definition lexer_ready :: "lexer \<Rightarrow> bool" where
  "lexer_ready lx \<longleftrightarrow> lex_base lx \<and> offset lx \<le> len lx"

text \<open>What a call of \<^verbatim>\<open>next\<close> gives.\<close>

definition next_ok :: "lexer \<Rightarrow> token \<Rightarrow> lexer \<Rightarrow> bool" where
  "next_ok lx t lx' \<longleftrightarrow> bytes lx' = bytes lx \<and> len lx' = len lx \<and>
     offset lx \<le> span_start (tok_span t) \<and> span_start (tok_span t) < span_end (tok_span t) \<and>
     span_end (tok_span t) = offset lx' \<and>
     (if tok_kind t = Eof then bytes lx ! span_start (tok_span t) = EOF \<and> span_end (tok_span t) = span_start (tok_span t) + 1
        \<and> span_start (tok_span t) \<le> len lx
      else lexer_ready lx')"

lemma lex_inv_enter: "lexer_ready lx \<Longrightarrow> lex_inv (offset lx) S0 (lex_enter lx)"
  by (simp add: lexer_ready_def lex_inv_def state_inv_def op_states_def lex_base_def)

lemma lex_next_safe:
  assumes "crates_ok X" and "lexer_ready lx" and "lex_next X lx = Some r"
  shows "\<exists>t lx'. r = Inr (t, lx') \<and> next_ok lx t lx'"
proof -
  obtain s where s: "lex_loop X S0 (lex_enter lx) = Some s" "r = bindr s lex_token"
    using assms(3) by (auto simp: lex_next_def)
  obtain c where c: "s = Inr c" "bytes c = bytes lx" "lex_post (offset lx) c"
    using lex_loop_safe [OF assms(1) lex_inv_enter [OF assms(2)] s(1)] by auto
  have P: "lex_base c" "offset lx \<le> tok_start c" "tok_start c < offset c" using c(3) by (simp_all add: lex_post_def)
  have lens: "len c = len lx" using P(1) assms(2) c(2) by (simp add: lexer_ready_def lex_base_def)
  have "offset c \<le> Suc (len c)" using c(3) by (auto simp: lex_post_def split: if_splits)
  then have "offset c < 2 ^ 32 - 1" using base_len(3) [OF P(1)] P(1) by (simp add: lex_base_def src_ok_def)
  moreover from this have "tok_start c < 2 ^ 32 - 1" using P(3) by linarith
  ultimately obtain sp where sp: "span_new (tok_start c) (offset c) = Returns sp" "span_start sp = tok_start c" "span_end sp = offset c"
    using span_new_exact [of "tok_start c" "offset c" thesis] by blast
  have "lexer_ready (lexer.truncate c)" if "kind c \<noteq> Eof"
    using that c(3) by (simp add: lex_post_def lexer_ready_def lex_base_def)
  then have "next_ok lx \<lparr>tok_kind = kind c, tok_span = sp\<rparr> (lexer.truncate c)"
    using sp c lens P by (auto simp: next_ok_def lex_post_def)
  with s(2) c(1) sp(1) show ?thesis by (simp add: lex_token_def lexer_span_def)
qed

lemma lex_next_returns:
  "crates_ok X \<Longrightarrow> lexer_ready lx \<Longrightarrow> no_lone_cr (bytes lx) \<Longrightarrow> \<exists>r. lex_next X lx = Some r"
  using lex_loop_returns [OF _ lex_inv_enter, of X lx] by (auto simp: lex_next_def)

end
