(* ===== verification/Vif_Tokens.thy ===== *)
theory Vif_Tokens
  imports Vif_Lexer_Safety
begin

text \<open>
  The token stream the parser works on: the loop in \<^verbatim>\<open>Parser::new\<close> (\<^verbatim>\<open>src/frontend/parser.rs\<close>) that
  drains the lexer, and the properties of the lexer as its client sees them: no fault on any text that
  ends in a zero byte, termination, order and shape of the stream, and the inputs on which the lexer
  does not do what it means to.
\<close>

section \<open>Draining the lexer\<close>

partial_function (option) collect_tokens :: "crates \<Rightarrow> lexer \<Rightarrow> token list \<Rightarrow> (lex_fault + token list \<times> lexer) option" where
  "collect_tokens X lx tokens =
     Option.bind (lex_next X lx) (\<lambda>r.
       case r of
         Inl e \<Rightarrow> Some (Inl e)
       | Inr (t, lx') \<Rightarrow>
           (let tokens' = (if \<not> is_invalid_token t then tokens @ [t] else tokens)
            in if is_eof_token t then Some (Inr (tokens', lx')) else collect_tokens X lx' tokens'))"

definition lex_source :: "crates \<Rightarrow> byte list \<Rightarrow> module_id \<Rightarrow> (lex_fault + token list \<times> diagnostic list) option" where
  "lex_source X src m =
     (case lexer_new src m of
        Panics \<Rightarrow> Some (Inl SlicePanic)
      | Returns lx \<Rightarrow> map_option (\<lambda>r. bindr r (\<lambda>(ts, lx). Inr (ts, fst (take_errors lx)))) (collect_tokens X lx []))"

section \<open>The stream\<close>

text \<open>
  A stream of tokens from an offset on: the spans follow each other inside the text, no token is
  invalid, and exactly the last one is the end of file.
\<close>

fun stream_ok :: "nat \<Rightarrow> nat \<Rightarrow> token list \<Rightarrow> bool" where
  "stream_ok from bound [] \<longleftrightarrow> False"
| "stream_ok from bound (t # ts) \<longleftrightarrow>
     from \<le> span_start (tok_span t) \<and> span_start (tok_span t) < span_end (tok_span t) \<and>
     span_end (tok_span t) \<le> bound \<and> tok_kind t \<noteq> Invalid \<and>
     (if ts = [] then tok_kind t = Eof else tok_kind t \<noteq> Eof \<and> stream_ok (span_end (tok_span t)) bound ts)"

lemma stream_ok_mono: "stream_ok from bound ts \<Longrightarrow> from' \<le> from \<Longrightarrow> stream_ok from' bound ts"
  by (cases ts) auto

lemma next_ok_progress: "next_ok lx t lx' \<Longrightarrow> tok_kind t \<noteq> Eof \<Longrightarrow> len lx' - offset lx' < len lx - offset lx"
  by (auto simp: next_ok_def lexer_ready_def)

lemma collect_tokens_safe:
  assumes "crates_ok X" and "lexer_ready lx" and ret: "collect_tokens X lx acc = Some r"
  shows "\<exists>ts lx'. r = Inr (acc @ ts, lx') \<and> stream_ok (offset lx) (Suc (len lx)) ts"
proof -
  let ?P = "\<lambda>X lx acc r. crates_ok X \<longrightarrow> lexer_ready lx \<longrightarrow> (\<exists>ts lx'. r = Inr (acc @ ts, lx') \<and> stream_ok (offset lx) (Suc (len lx)) ts)"
  have "?P X lx acc r"
  proof (rule collect_tokens.raw_induct [where P = ?P, OF _ ret], intro impI)
    fix f X lx acc r
    assume IH: "\<And>X lx acc r. f X lx acc = Some r \<Longrightarrow> ?P X lx acc r" and a: "crates_ok X" "lexer_ready lx"
      and eq: "Option.bind (lex_next X lx) (\<lambda>r. case r of Inl e \<Rightarrow> Some (Inl e)
         | Inr (t, lx') \<Rightarrow> (let tokens' = (if \<not> is_invalid_token t then acc @ [t] else acc)
            in if is_eof_token t then Some (Inr (tokens', lx')) else f X lx' tokens')) = Some r"
    from eq obtain s where s: "lex_next X lx = Some s" by (cases "lex_next X lx") auto
    obtain t lx' where t: "s = Inr (t, lx')" "next_ok lx t lx'" using lex_next_safe [OF a s] by blast
    let ?acc = "if \<not> is_invalid_token t then acc @ [t] else acc"
    show "\<exists>ts lx'. r = Inr (acc @ ts, lx') \<and> stream_ok (offset lx) (Suc (len lx)) ts"
    proof (cases "tok_kind t = Eof")
      case True
      then show ?thesis using eq s t
        by (auto simp: is_eof_token_def is_invalid_token_def next_ok_def Let_def)
    next
      case False
      then have "f X lx' ?acc = Some r" using eq s t(1) by (simp add: is_eof_token_def Let_def)
      moreover have "lexer_ready lx'" "len lx' = len lx" using t(2) False by (simp_all add: next_ok_def)
      ultimately obtain ts lx'' where r: "r = Inr (?acc @ ts, lx'')" "stream_ok (offset lx') (Suc (len lx)) ts"
        using IH [of X lx' ?acc r] a(1) by auto
      then have ne: "ts \<noteq> []" by auto
      have b: "offset lx \<le> span_start (tok_span t)" "span_start (tok_span t) < span_end (tok_span t)"
        "span_end (tok_span t) = offset lx'" "offset lx' \<le> len lx"
        using t(2) False by (simp_all add: next_ok_def lexer_ready_def)
      show ?thesis
      proof (cases "tok_kind t = Invalid")
        case True
        then show ?thesis using r b stream_ok_mono [of "offset lx'" _ ts "offset lx"] by (auto simp: is_invalid_token_def)
      next
        case valid: False
        then have "stream_ok (offset lx) (Suc (len lx)) (t # ts)" using r(2) ne b False by auto
        with r(1) valid show ?thesis by (auto simp: is_invalid_token_def)
      qed
    qed
  qed
  with assms show ?thesis by blast
qed

lemma collect_tokens_returns:
  assumes "crates_ok X" and "lexer_ready lx" and "no_lone_cr (bytes lx)"
  shows "\<exists>r. collect_tokens X lx acc = Some r"
  using assms(2,3)
proof (induction "len lx - offset lx" arbitrary: lx acc rule: less_induct)
  case less
  obtain s where s: "lex_next X lx = Some s" using lex_next_returns [OF assms(1) less.prems] by blast
  obtain t lx' where t: "s = Inr (t, lx')" "next_ok lx t lx'" using lex_next_safe [OF assms(1) less.prems(1) s] by blast
  show ?case
  proof (cases "tok_kind t = Eof")
    case True
    then show ?thesis using s t(1) by (subst collect_tokens.simps) (simp add: is_eof_token_def Let_def)
  next
    case False
    have "\<exists>r. collect_tokens X lx' (if \<not> is_invalid_token t then acc @ [t] else acc) = Some r"
      using less.hyps [OF next_ok_progress [OF t(2) False]] t(2) False less.prems(2) by (simp add: next_ok_def)
    then show ?thesis using False s t(1) by (subst collect_tokens.simps) (simp add: is_eof_token_def Let_def)
  qed
qed

lemma lexer_new_ready: "src_ok src \<Longrightarrow> \<exists>lx. lexer_new src m = Returns lx \<and> lexer_ready lx \<and> bytes lx = src \<and> offset lx = 0 \<and> len lx = length src - 1"
  by (simp add: lexer_new_def src_ok_def lexer_ready_def lex_base_def)

section \<open>A carriage return of its own\<close>

definition at_lone_cr :: "lex_ctx \<Rightarrow> bool" where
  "at_lone_cr c \<longleftrightarrow> lex_base c \<and> offset c < len c \<and> bytes c ! offset c = CR \<and> bytes c ! Suc (offset c) \<noteq> LF"

lemma newline_round_stuck:
  assumes "crates_ok X" and "at_lone_cr c"
  shows "newline_round f X c = f X c"
proof -
  have A: "lex_base c" "offset c < len c" "bytes c ! offset c = CR" "bytes c ! Suc (offset c) \<noteq> LF"
    using assms(2) by (auto simp: at_lone_cr_def)
  have "drop (offset c) (bytes c) = CR # drop (Suc (offset c)) (bytes c)"
    using A base_len(1) [OF A(1)] by (metis Cons_nth_drop_Suc dual_order.strict_trans)
  then have m: "memchr_dbl (mx X) (drop (offset c) (bytes c)) LF CR = Some 0"
    using assms(1) by (simp add: crates_ok_def memx_ok_def)
  show ?thesis
    using m A byte_at_ok [OF A(1), of "offset c"] byte_at_ok [OF A(1), of "Suc (offset c)"]
    by (simp add: newline_round_def rest_of_ok)
qed

lemma eat_until_newline_stuck:
  assumes "crates_ok X" and "at_lone_cr c"
  shows "eat_until_newline X c = None"
proof (rule ccontr)
  assume "eat_until_newline X c \<noteq> None"
  then obtain r where ret: "eat_until_newline X c = Some r" by blast
  have "\<not> (crates_ok X \<and> at_lone_cr c)"
  proof (rule eat_until_newline.raw_induct [where P = "\<lambda>X c r. \<not> (crates_ok X \<and> at_lone_cr c)", OF _ ret, folded newline_round_def])
    fix f X c r
    assume "\<And>X c r. f X c = Some r \<Longrightarrow> \<not> (crates_ok X \<and> at_lone_cr c)" and "newline_round f X c = Some r"
    then show "\<not> (crates_ok X \<and> at_lone_cr c)" using newline_round_stuck [of X c f] by metis
  qed
  with assms show False by blast
qed

end
