(* ===== verification/Vif_Lexer_Text.thy ===== *)
theory Vif_Lexer_Text
  imports Vif_Tokens
begin

text \<open>
  What the tokens say about the text: the kind of a token determines, or is determined by, the bytes of
  its span. The proof carries an invariant on the text read so far through the arms of the state machine,
  next to the invariant of \<open>Vif_Lexer_Safety\<close>.
\<close>

section \<open>Specification\<close>

definition text_between :: "byte list \<Rightarrow> nat \<Rightarrow> nat \<Rightarrow> byte list" where
  "text_between bs a b = drop a (take b bs)"

definition ctx_text :: "'a lexer_scheme \<Rightarrow> byte list" where
  "ctx_text c = text_between (bytes c) (tok_start c) (offset c)"

definition ident_text :: "byte list \<Rightarrow> bool" where
  "ident_text s \<longleftrightarrow> (\<exists>b bs. s = b # bs \<and> is_ident_start b \<and> list_all is_ident_cont bs)"

text \<open>The text of an integer literal in each radix: the prefix, and digits with at least one that is not an underscore.\<close>

definition radix_text :: "byte list \<Rightarrow> (byte \<Rightarrow> bool) \<Rightarrow> byte list \<Rightarrow> bool" where
  "radix_text prefix P s \<longleftrightarrow> (\<exists>ds. s = prefix @ ds \<and> list_all P ds \<and> (\<exists>d \<in> set ds. d \<noteq> CHR ''_''))"

definition decimal_text :: "byte list \<Rightarrow> bool" where
  "decimal_text s \<longleftrightarrow> (\<exists>d ds. s = d # ds \<and> is_digit d \<and> list_all is_digit_or_uscore ds)"

fun int_text :: "radix \<Rightarrow> byte list \<Rightarrow> bool" where
  "int_text Binary s \<longleftrightarrow> radix_text ''0b'' is_bin_digit_or_uscore s"
| "int_text Octal s \<longleftrightarrow> radix_text ''0o'' is_oct_digit_or_uscore s"
| "int_text Decimal s \<longleftrightarrow> decimal_text s"
| "int_text Hexadecimal s \<longleftrightarrow> radix_text ''0x'' is_hex_digit_or_uscore s"

definition sized_int_text :: "byte \<Rightarrow> u16 \<Rightarrow> byte list \<Rightarrow> bool" where
  "sized_int_text p n s \<longleftrightarrow> (\<exists>ds. s = p # ds \<and> list_all is_digit ds \<and> decimal_value ds = unat n \<and> 0 < n)"

text \<open>
  The text a token of a given kind stands for. A string literal and an escaped identifier are decoded,
  so their text is not constrained here; \<^verbatim>\<open>*=\<close> and three more kinds are never produced.
\<close>

fun ident_faithful :: "ident_kind \<Rightarrow> string \<Rightarrow> byte list \<Rightarrow> bool" where
  "ident_faithful User sy s \<longleftrightarrow> sy = s \<and> ident_text s"
| "ident_faithful Builtin sy s \<longleftrightarrow> sy = s \<and> (\<exists>r. s = CHR ''@'' # r \<and> ident_text r)"
| "ident_faithful UserComptime sy s \<longleftrightarrow> sy = s \<and> (\<exists>r. s = CHR ''$'' # r \<and> ident_text r)"
| "ident_faithful UserEscaped sy s \<longleftrightarrow> True"

primrec faithful :: "token_kind \<Rightarrow> byte list \<Rightarrow> bool" where
  "faithful (Op1 x) s \<longleftrightarrow> s = op1_display x"
| "faithful (Op2 x) s \<longleftrightarrow> s = op2_display x \<and> x \<noteq> StarEq"
| "faithful (Op3 x) s \<longleftrightarrow> s = op3_display x"
| "faithful (Op4 x) s \<longleftrightarrow> s = op4_display x"
| "faithful (Ident sy ik) s \<longleftrightarrow> ident_faithful ik sy s"
| "faithful (DirectiveIdent sy) s \<longleftrightarrow> s = CHR ''#'' # sy \<and> ident_text sy"
| "faithful (LitInt sy r) s \<longleftrightarrow> sy = s \<and> int_text r s"
| "faithful (LitFloat sy) s \<longleftrightarrow> sy = s"
| "faithful (LitBool b) s \<longleftrightarrow> s = (if b then ''true'' else ''false'')"
| "faithful (LitStr _) s \<longleftrightarrow> True"
| "faithful (LitMultiLineStr t) s \<longleftrightarrow> s = BACKSLASH # BACKSLASH # t"
| "faithful (LitChar _) s \<longleftrightarrow> False"
| "faithful LitNull s \<longleftrightarrow> s = ''null''"
| "faithful DocComment s \<longleftrightarrow> False"
| "faithful ModComment s \<longleftrightarrow> False"
| "faithful (Ty t) s \<longleftrightarrow> s = ty_display t"
| "faithful (TyU n) s \<longleftrightarrow> sized_int_text (CHR ''u'') n s"
| "faithful (TyI n) s \<longleftrightarrow> sized_int_text (CHR ''i'') n s"
| "faithful (Kw k) s \<longleftrightarrow> s = keyword_display k"
| "faithful (Dir d) s \<longleftrightarrow> s = directive_display d"
| "faithful Invalid s \<longleftrightarrow> True"
| "faithful Eof s \<longleftrightarrow> s = [EOF]"

section \<open>Invariant\<close>

primrec state_kind :: "lex_state \<Rightarrow> token_kind" where
  "state_kind S0 = Eof"
| "state_kind S_Minus = Op1 Minus"
| "state_kind S_MinusPipe = Op2 MinusPipe"
| "state_kind S_Plus = Op1 Plus"
| "state_kind S_PlusPipe = Op2 PlusPipe"
| "state_kind S_Star = Op1 Star"
| "state_kind S_StarPipe = Op2 StarPipe"
| "state_kind S_StarStar = Op2 StarStar"
| "state_kind S_Slash = Op1 Slash"
| "state_kind S_Percent = Op1 Percent"
| "state_kind S_Caret = Op1 Caret"
| "state_kind S_Amp = Op1 Amp"
| "state_kind S_Pipe = Op1 Pipe"
| "state_kind S_Bang = Op1 Bang"
| "state_kind S_Tilde = Op1 Tilde"
| "state_kind S_Eq = Op1 Eq"
| "state_kind S_Hash = Op1 Hash"
| "state_kind S_At = Eof"
| "state_kind S_Dollar = Eof"
| "state_kind S_Lt = Op1 Lt"
| "state_kind S_LtLt = Op2 LtLt"
| "state_kind S_LtLtPipe = Op3 LtLtPipe"
| "state_kind S_LtLtPercent = Op3 LtLtPercent"
| "state_kind S_Gt = Op1 Gt"
| "state_kind S_GtGt = Op2 GtGt"
| "state_kind S_GtGtPipe = Op3 GtGtPipe"
| "state_kind S_GtGtPercent = Op3 GtGtPercent"
| "state_kind S_AmpAmp = Op2 AmpAmp"
| "state_kind S_PipePipe = Op2 PipePipe"
| "state_kind S_Dot = Op1 Dot"
| "state_kind S_DotDot = Op2 DotDot"
| "state_kind S_Underscore = Op1 Underscore"
| "state_kind S_Backslash = Eof"
| "state_kind S_LineComment = Eof"
| "state_kind S_Ident = Eof"
| "state_kind S_Str = Eof"
| "state_kind S_EscapeStr = Eof"
| "state_kind S_IntZero = Eof"
| "state_kind S_IntBin = Eof"
| "state_kind S_IntOct = Eof"
| "state_kind S_IntHex = Eof"
| "state_kind S_IntDec = Eof"
| "state_kind S_FloatDot1 = Eof"
| "state_kind S_FloatDot2 = Eof"
| "state_kind S_FloatExp1 = Eof"
| "state_kind S_FloatExp2 = Eof"

definition ident_so_far :: "token_kind \<Rightarrow> byte list \<Rightarrow> bool" where
  "ident_so_far k s \<longleftrightarrow> (\<exists>sy ik. k = Ident sy ik \<and> ik \<noteq> UserEscaped \<and> ident_faithful ik s s)"

definition text_inv :: "lex_state \<Rightarrow> lex_ctx \<Rightarrow> bool" where
  "text_inv st c \<longleftrightarrow>
     (st \<in> set op_states \<longrightarrow> kind c = state_kind st \<and> ctx_text c = kind_display (kind c)) \<and>
     (st = S_At \<longrightarrow> ctx_text c = ''@'') \<and> (st = S_Dollar \<longrightarrow> ctx_text c = ''$'') \<and>
     (st = S_Backslash \<longrightarrow> ctx_text c = [BACKSLASH]) \<and>
     (st = S_Ident \<longrightarrow> ident_so_far (kind c) (ctx_text c)) \<and>
     (st = S_Str \<or> st = S_EscapeStr \<longrightarrow> (\<exists>s. kind c = LitStr s) \<or> (\<exists>s. kind c = Ident s UserEscaped)) \<and>
     (st = S_IntZero \<longrightarrow> ctx_text c = ''0'') \<and>
     (st = S_IntBin \<longrightarrow> ctx_text c = ''0b'' \<and> \<not> seen_digit c) \<and>
     (st = S_IntOct \<longrightarrow> ctx_text c = ''0o'' \<and> \<not> seen_digit c) \<and>
     (st = S_IntHex \<longrightarrow> ctx_text c = ''0x'' \<and> \<not> seen_digit c) \<and>
     (st = S_IntDec \<longrightarrow> decimal_text (ctx_text c)) \<and>
     (st = S_FloatDot1 \<longrightarrow> (\<exists>s. ctx_text c = s @ ''.'' \<and> decimal_text s))"

fun ctl_text :: "lex_fault + control \<Rightarrow> bool" where
  "ctl_text (Inl e) \<longleftrightarrow> True"
| "ctl_text (Inr (Done c)) \<longleftrightarrow> faithful (kind c) (ctx_text c)"
| "ctl_text (Inr (Goto st c)) \<longleftrightarrow> text_inv st c"

lemma ctx_text_update [simp]:
  "ctx_text (c\<lparr>errors := e\<rparr>) = ctx_text c" "ctx_text (c\<lparr>scratch_pad := s\<rparr>) = ctx_text c"
  "ctx_text (d\<lparr>kind := k\<rparr>) = ctx_text d" "ctx_text (d\<lparr>seen_digit := b\<rparr>) = ctx_text d"
  by (simp_all add: ctx_text_def)

lemma ctx_text_bump:
  assumes "tok_start c \<le> offset c" and "offset c < length (bytes c)"
  shows "ctx_text (c\<lparr>offset := Suc (offset c)\<rparr>) = ctx_text c @ [bytes c ! offset c]"
  using assms by (simp add: ctx_text_def text_between_def take_Suc_conv_app_nth)

lemma ctx_text_extend:
  assumes "tok_start c \<le> offset c" and "offset c \<le> n" and "n \<le> length (bytes c)"
    and "\<forall>i. offset c \<le> i \<and> i < n \<longrightarrow> P (bytes c ! i)"
  shows "\<exists>ys. ctx_text (c\<lparr>offset := n\<rparr>) = ctx_text c @ ys \<and> list_all P ys \<and> ys = text_between (bytes c) (offset c) n"
proof -
  have "take (offset c) (take n (bytes c)) = take (offset c) (bytes c)" using assms(2) by (simp add: min_absorb1)
  then have e: "take n (bytes c) = take (offset c) (bytes c) @ drop (offset c) (take n (bytes c))"
    using append_take_drop_id [of "offset c" "take n (bytes c)"] by simp
  have "length (take (offset c) (bytes c)) = offset c" using assms(2,3) by simp
  then have "drop (tok_start c) (take n (bytes c)) = drop (tok_start c) (take (offset c) (bytes c)) @ drop (offset c) (take n (bytes c))"
    using assms(1) by (subst e) simp
  moreover have "list_all P (drop (offset c) (take n (bytes c)))"
    unfolding list_all_iff using assms(3,4) by (auto simp: in_set_conv_nth)
  ultimately show ?thesis by (simp add: ctx_text_def text_between_def)
qed

lemma ctx_text_unread: "0 < offset c \<Longrightarrow> unread 1 (c\<lparr>offset := Suc (offset c)\<rparr>) = Inr c"
  by (simp add: unread_def)

section \<open>Operators\<close>

lemma state_kind_faithful: "st \<in> set op_states \<Longrightarrow> faithful (state_kind st) (kind_display (state_kind st))"
  by (auto simp: op_states_def kind_display_def)

lemma op_textD:
  assumes "text_inv st c" and "st \<in> set op_states"
  shows "kind c = state_kind st" and "ctx_text c = kind_display (state_kind st)" and "faithful (kind c) (ctx_text c)"
  using assms state_kind_faithful [OF assms(2)] by (auto simp: text_inv_def)

lemma text_inv_op: "st \<in> set op_states \<Longrightarrow> text_inv st c \<longleftrightarrow> kind c = state_kind st \<and> ctx_text c = kind_display (kind c)"
proof -
  assume st: "st \<in> set op_states"
  then have "st \<noteq> S_At" "st \<noteq> S_Dollar" "st \<noteq> S_Backslash" "st \<noteq> S_Ident" "st \<noteq> S_Str" "st \<noteq> S_EscapeStr" "st \<noteq> S_IntZero"
    "st \<noteq> S_IntBin" "st \<noteq> S_IntOct" "st \<noteq> S_IntHex" "st \<noteq> S_IntDec" "st \<noteq> S_FloatDot1"
    by (auto simp: op_states_def)
  with st show ?thesis by (simp add: text_inv_def)
qed

definition op_arm_text :: "lex_state \<Rightarrow> byte \<times> token_kind \<times> lex_state option \<Rightarrow> bool" where
  "op_arm_text st a \<longleftrightarrow> (case a of (b, k, nx) \<Rightarrow>
     kind_display k = kind_display (state_kind st) @ [b] \<and> faithful k (kind_display k) \<and>
     (\<forall>st'. nx = Some st' \<longrightarrow> st' \<in> set op_states \<and> k = state_kind st'))"

lemma op_bump_text:
  assumes "lex_inv lo st c" and "st \<in> set op_states"
  shows "bump c = Inr (bytes c ! offset c, c\<lparr>offset := Suc (offset c)\<rparr>)"
    and "ctx_text (c\<lparr>offset := Suc (offset c)\<rparr>) = ctx_text c @ [bytes c ! offset c]"
    and "unread 1 (c\<lparr>offset := Suc (offset c)\<rparr>) = Inr c"
  using op_invD [OF assms] base_len(1) [of c] by (simp_all add: bump_ok ctx_text_bump unread_def)

lemma match_op_text:
  assumes "lex_inv lo st c" and "text_inv st c" and "st \<in> set op_states" and "list_all (op_arm_text st) arms"
  shows "ctl_text (match_op arms c)"
proof (cases "map_of arms (bytes c ! offset c)")
  case None
  then show ?thesis using op_bump_text [OF assms(1,3)] op_textD [OF assms(2,3)] by (simp add: match_op_def)
next
  case (Some p)
  obtain k nx where p: "p = (k, nx)" by fastforce
  have "(bytes c ! offset c, k, nx) \<in> set arms" using Some p by (auto dest: map_of_SomeD)
  with assms(4) have "op_arm_text st (bytes c ! offset c, k, nx)" by (auto simp: list_all_iff)
  then show ?thesis using Some p op_bump_text [OF assms(1,3)] op_textD [OF assms(2,3)]
    by (auto simp: match_op_def op_arm_text_def text_inv_op split: option.split)
qed

lemma op_arms_text:
  "lex_inv lo S_Minus c \<Longrightarrow> text_inv S_Minus c \<Longrightarrow> ctl_text (on_Minus c)"
  "lex_inv lo S_MinusPipe c \<Longrightarrow> text_inv S_MinusPipe c \<Longrightarrow> ctl_text (on_MinusPipe c)"
  "lex_inv lo S_Plus c \<Longrightarrow> text_inv S_Plus c \<Longrightarrow> ctl_text (on_Plus c)"
  "lex_inv lo S_PlusPipe c \<Longrightarrow> text_inv S_PlusPipe c \<Longrightarrow> ctl_text (on_PlusPipe c)"
  "lex_inv lo S_Star c \<Longrightarrow> text_inv S_Star c \<Longrightarrow> ctl_text (on_Star c)"
  "lex_inv lo S_StarPipe c \<Longrightarrow> text_inv S_StarPipe c \<Longrightarrow> ctl_text (on_StarPipe c)"
  "lex_inv lo S_Percent c \<Longrightarrow> text_inv S_Percent c \<Longrightarrow> ctl_text (on_Percent c)"
  "lex_inv lo S_Caret c \<Longrightarrow> text_inv S_Caret c \<Longrightarrow> ctl_text (on_Caret c)"
  "lex_inv lo S_Amp c \<Longrightarrow> text_inv S_Amp c \<Longrightarrow> ctl_text (on_Amp c)"
  "lex_inv lo S_AmpAmp c \<Longrightarrow> text_inv S_AmpAmp c \<Longrightarrow> ctl_text (on_AmpAmp c)"
  "lex_inv lo S_Pipe c \<Longrightarrow> text_inv S_Pipe c \<Longrightarrow> ctl_text (on_Pipe c)"
  "lex_inv lo S_PipePipe c \<Longrightarrow> text_inv S_PipePipe c \<Longrightarrow> ctl_text (on_PipePipe c)"
  "lex_inv lo S_Bang c \<Longrightarrow> text_inv S_Bang c \<Longrightarrow> ctl_text (on_Bang c)"
  "lex_inv lo S_Tilde c \<Longrightarrow> text_inv S_Tilde c \<Longrightarrow> ctl_text (on_Tilde c)"
  "lex_inv lo S_Eq c \<Longrightarrow> text_inv S_Eq c \<Longrightarrow> ctl_text (on_Eq c)"
  "lex_inv lo S_Lt c \<Longrightarrow> text_inv S_Lt c \<Longrightarrow> ctl_text (on_Lt c)"
  "lex_inv lo S_LtLt c \<Longrightarrow> text_inv S_LtLt c \<Longrightarrow> ctl_text (on_LtLt c)"
  "lex_inv lo S_LtLtPipe c \<Longrightarrow> text_inv S_LtLtPipe c \<Longrightarrow> ctl_text (on_LtLtPipe c)"
  "lex_inv lo S_LtLtPercent c \<Longrightarrow> text_inv S_LtLtPercent c \<Longrightarrow> ctl_text (on_LtLtPercent c)"
  "lex_inv lo S_Gt c \<Longrightarrow> text_inv S_Gt c \<Longrightarrow> ctl_text (on_Gt c)"
  "lex_inv lo S_GtGt c \<Longrightarrow> text_inv S_GtGt c \<Longrightarrow> ctl_text (on_GtGt c)"
  "lex_inv lo S_GtGtPipe c \<Longrightarrow> text_inv S_GtGtPipe c \<Longrightarrow> ctl_text (on_GtGtPipe c)"
  "lex_inv lo S_GtGtPercent c \<Longrightarrow> text_inv S_GtGtPercent c \<Longrightarrow> ctl_text (on_GtGtPercent c)"
  "lex_inv lo S_DotDot c \<Longrightarrow> text_inv S_DotDot c \<Longrightarrow> ctl_text (on_DotDot c)"
  unfolding match_op_states
  by (rule match_op_text, assumption, assumption, simp add: op_states_def,
      simp add: op_arm_text_def kind_display_def op_states_def)+

lemma other_op_arms_text:
  "lex_inv lo S_StarStar c \<Longrightarrow> text_inv S_StarStar c \<Longrightarrow> ctl_text (on_StarStar c)"
  "lex_inv lo S_Slash c \<Longrightarrow> text_inv S_Slash c \<Longrightarrow> ctl_text (on_Slash c)"
  "lex_inv lo S_Dot c \<Longrightarrow> text_inv S_Dot c \<Longrightarrow> ctl_text (on_Dot c)"
proof -
  have ops: "S_StarStar \<in> set op_states" "S_Slash \<in> set op_states" "S_Dot \<in> set op_states" by (simp_all add: op_states_def)
  show "ctl_text (on_StarStar c)" if "lex_inv lo S_StarStar c" "text_inv S_StarStar c"
    using op_bump_text [OF that(1) ops(1)] op_textD [OF that(2) ops(1)] by (simp add: on_StarStar_def)
  show "ctl_text (on_Slash c)" if "lex_inv lo S_Slash c" "text_inv S_Slash c"
    using op_bump_text [OF that(1) ops(2)] op_textD [OF that(2) ops(2)]
    by (auto simp: on_Slash_def text_inv_def op_states_def kind_display_def)
  show "ctl_text (on_Dot c)" if "lex_inv lo S_Dot c" "text_inv S_Dot c"
    using op_bump_text [OF that(1) ops(3)] op_textD [OF that(2) ops(3)]
    by (auto simp: on_Dot_def text_inv_def op_states_def kind_display_def)
qed

section \<open>Identifiers, sigils and directives\<close>

lemma ident_text_extend: "ident_text s \<Longrightarrow> list_all is_ident_cont ys \<Longrightarrow> ident_text (s @ ys)"
  by (auto simp: ident_text_def)

lemma ident_text_one: "is_ident_start b \<Longrightarrow> ident_text [b]"
  by (simp add: ident_text_def)

lemma bump_text:
  assumes "lex_inv lo st c" and "st \<noteq> S0"
  shows "bump c = Inr (bytes c ! offset c, c\<lparr>offset := Suc (offset c)\<rparr>)"
    and "ctx_text (c\<lparr>offset := Suc (offset c)\<rparr>) = ctx_text c @ [bytes c ! offset c]"
    and "unread 1 (c\<lparr>offset := Suc (offset c)\<rparr>) = Inr c"
  using invD [OF assms] base_len(1) [of c] by (simp_all add: bump_ok ctx_text_bump unread_def)

lemma on_Underscore_text:
  assumes "lex_inv lo S_Underscore c" and "text_inv S_Underscore c"
  shows "ctl_text (on_Underscore c)"
proof -
  have op: "S_Underscore \<in> set op_states" by (simp add: op_states_def)
  have u: "is_ident_start (CHR ''_'')" by (simp add: char_class_spec)
  have c: "is_ident_cont b" if "is_ident_start b" for b using that by (simp add: char_class_spec(3))
  show ?thesis using op_bump_text [OF assms(1) op] op_textD [OF assms(2) op] u c
    by (auto simp: on_Underscore_def text_inv_def op_states_def kind_display_def ident_so_far_def ident_text_def)
qed

lemma reject_char_text: "ctl_text (reject_char X b c)"
  by (cases "push_error X (''unexpected character '' @ [CHR 0x27, b, CHR 0x27]) c")
    (simp_all add: reject_char_def diag_defs done_invalid_def)

lemma sigil_arms_text:
  "lex_inv lo S_At c \<Longrightarrow> text_inv S_At c \<Longrightarrow> ctl_text (on_At X c)"
  "lex_inv lo S_Dollar c \<Longrightarrow> text_inv S_Dollar c \<Longrightarrow> ctl_text (on_Dollar X c)"
proof -
  show "ctl_text (on_At X c)" if "lex_inv lo S_At c" "text_inv S_At c"
    using bump_text [OF that(1)] that(2) reject_char_text
    by (auto simp: on_At_def text_inv_def op_states_def ident_so_far_def ident_text_one)
  show "ctl_text (on_Dollar X c)" if "lex_inv lo S_Dollar c" "text_inv S_Dollar c"
    using bump_text [OF that(1)] that(2) reject_char_text
    by (auto simp: on_Dollar_def text_inv_def op_states_def ident_so_far_def ident_text_one)
qed

lemma directive_text: "map_of directive_table s = Some k \<Longrightarrow> faithful k (CHR ''#'' # s)"
  by (auto simp: directive_table_def split: if_splits)

lemma on_Hash_text:
  assumes "lex_inv lo S_Hash c" and "text_inv S_Hash c"
  shows "ctl_text (on_Hash c)"
proof -
  have op: "S_Hash \<in> set op_states" by (simp add: op_states_def)
  note I = op_invD [OF assms(1) op]
  note B = op_bump_text [OF assms(1) op]
  have t: "ctx_text c = ''#''" using op_textD [OF assms(2) op] by (simp add: kind_display_def)
  show ?thesis
  proof (cases "is_ident_start (bytes c ! offset c)")
    case False
    then show ?thesis using B op_textD [OF assms(2) op] by (simp add: on_Hash_def)
  next
    case True
    let ?c = "c\<lparr>offset := Suc (offset c)\<rparr>"
    have "offset c < len c" by (rule not_eof_less [OF I(1,4)]) (use True class_not_NUL in auto)
    then obtain n where n: "eat_while is_ident_cont ?c = Inr (?c\<lparr>offset := n\<rparr>)" "Suc (offset c) \<le> n" "n \<le> len c"
      "\<forall>i. Suc (offset c) \<le> i \<and> i < n \<longrightarrow> is_ident_cont (bytes c ! i)"
      using eat_while_ok [of ?c is_ident_cont] I(1) by auto
    obtain ys where ys: "ctx_text (?c\<lparr>offset := n\<rparr>) = ctx_text ?c @ ys" "list_all is_ident_cont ys"
      using ctx_text_extend [of ?c n is_ident_cont] n I base_len(1) [OF I(1)] by auto
    then have tx: "ctx_text (c\<lparr>offset := n\<rparr>) = CHR ''#'' # bytes c ! offset c # ys" using B(2) t by simp
    let ?s = "bytes c ! offset c # ys"
    have "slice_of (c\<lparr>offset := n\<rparr>) (Suc (tok_start c)) n = Inr (drop (Suc (tok_start c)) (take n (bytes c)))"
      using slice_of_ok [of "c\<lparr>offset := n\<rparr>" "Suc (tok_start c)" n] I n by simp
    also have "drop (Suc (tok_start c)) (take n (bytes c)) = tl (ctx_text (c\<lparr>offset := n\<rparr>))"
      by (simp add: ctx_text_def text_between_def drop_Suc tl_drop)
    finally have sl: "slice_of (c\<lparr>offset := n\<rparr>) (Suc (tok_start c)) n = Inr ?s" using tx by simp
    have "ident_text ?s" using ident_text_extend [OF ident_text_one [OF True] ys(2)] by simp
    then show ?thesis using True B(1) n(1) sl tx directive_text [of ?s]
      by (auto simp: on_Hash_def split: option.split)
  qed
qed

lemma on_Backslash_text:
  assumes "crates_ok X" and "lex_inv lo S_Backslash c" and "text_inv S_Backslash c" and "on_Backslash X c = Some r"
  shows "ctl_text r"
proof -
  have ns: "S_Backslash \<noteq> S0" by simp
  note I = invD [OF assms(2) ns]
  note B = bump_text [OF assms(2) ns]
  have t: "ctx_text c = [BACKSLASH]" using assms(3) by (simp add: text_inv_def)
  let ?c = "c\<lparr>offset := Suc (offset c)\<rparr>"
  show ?thesis
  proof (cases "bytes c ! offset c = BACKSLASH")
    case False
    then show ?thesis using assms(4) B t by (auto simp: on_Backslash_def)
  next
    case True
    then have lt: "offset c < len c" using not_eof_less [OF I(1,4)] by simp
    from True assms(4) obtain r' where e: "eat_until_newline X ?c = Some r'"
      and r: "r = bindr r' (\<lambda>c. bindr (slice_of c (tok_start c + 2) (offset c)) (\<lambda>s. Inr (Done (c\<lparr>kind := LitMultiLineStr s\<rparr>))))"
      by (auto simp: on_Backslash_def B(1))
    obtain n where n: "r' = Inr (?c\<lparr>offset := n\<rparr>)" "Suc (offset c) \<le> n" "n \<le> len c"
      using eat_until_newline_safe [OF assms(1) _ _ e] I(1) lt by (auto simp: newline_ok_def)
    obtain ys where ys: "ctx_text (?c\<lparr>offset := n\<rparr>) = ctx_text ?c @ ys"
      using ctx_text_extend [of ?c n "\<lambda>_. True"] n I base_len(1) [OF I(1)] by auto
    then have tx: "ctx_text (c\<lparr>offset := n\<rparr>) = BACKSLASH # BACKSLASH # ys" using B(2) t True by simp
    have "slice_of (c\<lparr>offset := n\<rparr>) (Suc (Suc (tok_start c))) n = Inr (drop (Suc (Suc (tok_start c))) (take n (bytes c)))"
      using slice_of_ok [of "c\<lparr>offset := n\<rparr>" "Suc (Suc (tok_start c))" n] I n by simp
    also have "drop (Suc (Suc (tok_start c))) (take n (bytes c)) = tl (tl (ctx_text (c\<lparr>offset := n\<rparr>)))"
      by (simp add: ctx_text_def text_between_def drop_Suc tl_drop)
    finally show ?thesis using tx n by (simp add: r)
  qed
qed

lemma text_inv_S0 [simp]: "text_inv S0 c"
  by (simp add: text_inv_def op_states_def)

lemma on_LineComment_text: "on_LineComment X c = Some r \<Longrightarrow> ctl_text r"
proof -
  assume "on_LineComment X c = Some r"
  then obtain r' where "r = bindr r' (\<lambda>c. Inr (Goto S0 c))" by (auto simp: on_LineComment_def)
  then show ?thesis by (cases r') simp_all
qed

lemma keyword_entry_faithful: "list_all (\<lambda>(s, k). faithful k s) keyword_table"
  by (simp add: keyword_table_def sized_int_text_def decimal_value_def char_class_spec is_ascii_digit_def in_range_def
      ident_text_def unat_numeral)

lemma keyword_faithful: "map_of keyword_table s = Some k \<Longrightarrow> faithful k s"
  using keyword_entry_faithful by (auto simp: list_all_iff dest!: map_of_SomeD)

lemma plain_ident_text:
  assumes "crates_ok X" and "ident_text (ctx_text c)"
  shows "ctl_text (plain_ident X (ctx_text c) c)"
proof -
  let ?s = "ctx_text c"
  have k: "faithful k ?s" if "keyword_candidate X ?s = Some k" for k
    using that keyword_faithful assms(1) by (simp add: keyword_candidate_def crates_ok_def split: if_splits)
  obtain b bs where s: "?s = b # bs" using assms(2) by (auto simp: ident_text_def)
  show ?thesis
  proof (cases "keyword_candidate X ?s")
    case (Some k')
    then show ?thesis using k by (simp add: plain_ident_def)
  next
    case none: None
    show ?thesis
    proof (cases "is_int_type_name ?s")
      case False
      then show ?thesis using none s assms(2) by (simp add: plain_ident_def)
    next
      case True
      define bits where "bits = (case u64_from_ascii bs of None \<Rightarrow> 0 | Some n \<Rightarrow> n)"
      have it: "b = CHR ''u'' \<or> b = CHR ''i''" "list_all is_digit bs" using True s by (auto simp: is_int_type_name_def)
      show ?thesis
      proof (cases "bits = 0 \<or> bits > 65535")
        case True
        then show ?thesis using none s \<open>is_int_type_name ?s\<close>
          by (cases "push_error X ''invalid integer bit width'' c")
            (auto simp: plain_ident_def Let_def bits_def [symmetric] diag_invalid_integer_bit_width_def done_invalid_def)
      next
        case False
        then have u: "unat (of_nat bits :: u16) = bits" by (simp add: unat_of_nat)
        then have "(0 :: u16) < of_nat bits" using False by (metis neq0_conv unsigned_0 word_gt_0)
        moreover have "decimal_value bs = bits"
          using False by (auto simp: bits_def u64_from_ascii_def split: if_splits option.splits)
        ultimately have "sized_int_text b (of_nat bits) ?s" using u it s by (auto simp: sized_int_text_def)
        then show ?thesis using none s \<open>is_int_type_name ?s\<close> False it
          by (auto simp: plain_ident_def Let_def bits_def [symmetric])
      qed
    qed
  qed
qed

lemma on_Ident_text:
  assumes "crates_ok X" and "lex_inv lo S_Ident c" and "text_inv S_Ident c"
  shows "ctl_text (on_Ident X c)"
proof -
  have ns: "S_Ident \<noteq> S0" by simp
  note I = invD [OF assms(2) ns]
  obtain s ik where k: "kind c = Ident s ik" "ik \<noteq> UserEscaped" "ident_faithful ik (ctx_text c) (ctx_text c)"
    using assms(3) by (auto simp: text_inv_def ident_so_far_def)
  obtain n where n: "eat_while is_ident_cont c = Inr (c\<lparr>offset := n\<rparr>)" "offset c \<le> n" "n \<le> len c"
    "\<forall>i. offset c \<le> i \<and> i < n \<longrightarrow> is_ident_cont (bytes c ! i)"
    using eat_while_ok [OF I(1,4), of is_ident_cont] by auto
  let ?c = "c\<lparr>offset := n\<rparr>"
  obtain ys where ys: "ctx_text ?c = ctx_text c @ ys" "list_all is_ident_cont ys"
    using ctx_text_extend [of c n is_ident_cont] n I base_len(1) [OF I(1)] by auto
  then have f: "ident_faithful ik (ctx_text ?c) (ctx_text ?c)"
    using k(2,3) by (cases ik) (auto intro: ident_text_extend)
  have l: "lexeme ?c = Inr (ctx_text ?c)"
    using lexeme_ok [of ?c] I n by (simp add: ctx_text_def text_between_def)
  then show ?thesis using n(1) k f plain_ident_text [OF assms(1), of ?c] by (cases ik) (simp_all add: on_Ident_def)
qed

section \<open>Strings\<close>

lemma done_invalid_text: "ctl_text (bindr m done_invalid)"
  by (cases m) (simp_all add: done_invalid_def)

lemma invalid_string_text: "ctl_text (invalid_string X c)"
  unfolding invalid_string_def by (rule done_invalid_text)

lemma bindr_invalid_text: "(\<And>c. ctl_text (f c)) \<Longrightarrow> ctl_text (bindr m f)"
  by (cases m) simp_all

lemma push_scratch_text:
  "(\<exists>s. kind c = LitStr s) \<or> (\<exists>s. kind c = Ident s UserEscaped) \<Longrightarrow> ctl_text (push_scratch s c)"
  by (simp add: push_scratch_def text_inv_def op_states_def)

lemmas invalid_text_intros = bindr_invalid_text invalid_string_text done_invalid_text

lemma bump_kind: "bump c = Inr (b, d) \<Longrightarrow> kind d = kind c"
  by (auto simp: bump_def bindr_Inr_iff)

lemma eat_until3_kind: "eat_until3 X n1 n2 n3 c = Inr d \<Longrightarrow> kind d = kind c"
  by (auto simp: eat_until3_def bindr_Inr_iff split: option.splits)

lemma on_Str_text:
  assumes "text_inv S_Str c"
  shows "ctl_text (on_Str X c)"
proof -
  have k: "(\<exists>s. kind c = LitStr s) \<or> (\<exists>s. kind c = Ident s UserEscaped)" using assms by (simp add: text_inv_def)
  show ?thesis
  proof (cases "bump c")
    case (Inl e)
    then show ?thesis by (simp add: on_Str_def)
  next
    case (Inr p)
    obtain b d where p: "p = (b, d)" by fastforce
    have kd: "(\<exists>s. kind d = LitStr s) \<or> (\<exists>s. kind d = Ident s UserEscaped)" using k bump_kind [of c b d] Inr p by auto
    consider "b = EOF \<or> b = LF" | "b = QUOTE" | "b = BACKSLASH" | "b \<notin> {EOF, LF, QUOTE, BACKSLASH}" by auto
    then show ?thesis
    proof cases
      case 1
      then show ?thesis using Inr p by (auto simp: on_Str_def done_invalid_def intro!: invalid_text_intros bindr_invalid_text)
    next
      case 2
      then show ?thesis using Inr p kd by (auto simp: on_Str_def)
    next
      case 3
      then show ?thesis using Inr p kd by (auto simp: on_Str_def text_inv_def op_states_def)
    next
      case 4
      then show ?thesis using Inr p kd eat_until3_kind [of X QUOTE BACKSLASH LF d]
        by (cases "eat_until3 X QUOTE BACKSLASH LF d")
          (auto simp: on_Str_def Let_def text_inv_def op_states_def intro!: bindr_invalid_text)
    qed
  qed
qed

abbreviation str_kind :: "lex_ctx \<Rightarrow> bool" where
  "str_kind c \<equiv> (\<exists>s. kind c = LitStr s) \<or> (\<exists>s. kind c = Ident s UserEscaped)"

lemma escape_hex_text:
  assumes "str_kind c"
  shows "ctl_text (escape_hex X c)"
proof (cases "bump c")
  case (Inl e)
  then show ?thesis by (simp add: escape_hex_def)
next
  case (Inr p)
  obtain h d where p: "p = (h, d)" by fastforce
  have kd: "str_kind d" using assms bump_kind [of c h d] Inr p by auto
  show ?thesis
  proof (cases "h = EOF")
    case True
    then show ?thesis using Inr p by (auto simp: escape_hex_def intro!: invalid_text_intros)
  next
    case False
    show ?thesis
    proof (cases "bump d")
      case Inl': (Inl e)
      then show ?thesis using Inr p False by (simp add: escape_hex_def)
    next
      case Inr': (Inr q)
      obtain l d2 where q: "q = (l, d2)" by fastforce
      have "str_kind d2" using kd bump_kind [of d l d2] Inr' q by auto
      then have "ctl_text (push_scratch t d2)" for t by (rule push_scratch_text)
      then show ?thesis using Inr p False Inr' q
        by (auto simp: escape_hex_def intro!: invalid_text_intros intro: bindr_invalid_text)
    qed
  qed
qed

lemma unicode_digits_text:
  "(\<forall>ctl. unicode_digits X cp c = Inr (Inl ctl) \<longrightarrow> ctl_text (Inr ctl)) \<and>
   (\<forall>cp' d. unicode_digits X cp c = Inr (Inr (cp', d)) \<longrightarrow> kind d = kind c)"
proof (induction X cp c rule: unicode_digits.induct)
  case (1 X cp c)
  note un = unicode_digits.simps [of X cp c]
  have inv: "ctl_text (Inr ctl)" if "invalid_string X c' = Inr ctl" for c' ctl
    using that invalid_string_text [of X c'] by simp
  consider "\<not> offset c < length (bytes c)" | "offset c < length (bytes c)" "bytes c ! offset c = CHR ''}''"
    | "offset c < length (bytes c)" "bytes c ! offset c \<noteq> CHR ''}''" "is_eof c"
    | "offset c < length (bytes c)" "bytes c ! offset c \<noteq> CHR ''}''" "\<not> is_eof c" "is_ascii_hexdigit (bytes c ! offset c)"
    | "offset c < length (bytes c)" "bytes c ! offset c \<noteq> CHR ''}''" "\<not> is_eof c" "\<not> is_ascii_hexdigit (bytes c ! offset c)"
    by blast
  then show ?case
  proof cases
    case 3
    then show ?thesis by (auto simp: un bindr_Inr_iff dest: inv)
  next
    case 4
    obtain d where d: "hex_value (bytes c ! offset c) = Inr d" using hex_value_ok 4(4) by blast
    let ?c1 = "c\<lparr>offset := offset c + 1\<rparr>"
    have "unicode_digits X cp c = unicode_digits X (push_bit 4 cp OR of_nat d) ?c1" using 4 d by (simp add: un Let_def)
    moreover have "kind ?c1 = kind c" by simp
    ultimately show ?thesis using 1(1) [OF _ 4(2,3) refl refl 4(4) d] 4(1) by simp
  next
    case 5
    then show ?thesis by (auto simp: un Let_def bindr_Inr_iff dest: inv)
  qed (simp_all add: un)
qed

lemma escape_unicode_text:
  assumes "str_kind c"
  shows "ctl_text (escape_unicode X c)"
proof (cases "bump c")
  case (Inl e)
  then show ?thesis by (simp add: escape_unicode_def)
next
  case (Inr p)
  obtain b d where p: "p = (b, d)" by fastforce
  have kd: "str_kind d" using assms bump_kind [of c b d] Inr p by auto
  show ?thesis
  proof (cases "b = CHR ''{''")
    case False
    then show ?thesis using Inr p by (auto simp: escape_unicode_def intro!: invalid_text_intros)
  next
    case True
    show ?thesis
    proof (cases "unicode_digits X 0 d")
      case Inl': (Inl e)
      then show ?thesis using Inr p True by (simp add: escape_unicode_def Let_def)
    next
      case Inr': (Inr r)
      show ?thesis
      proof (cases r)
        case (Inl ctl)
        then show ?thesis using Inr p True Inr' unicode_digits_text [of X 0 d] by (simp add: escape_unicode_def Let_def)
      next
        case r: (Inr q)
        obtain cp d2 where q: "q = (cp, d2)" by fastforce
        have "kind d2 = kind d" using unicode_digits_text [of X 0 d] Inr' r q by simp
        then have "ctl_text (push_scratch t (d2\<lparr>offset := n\<rparr>))" for t n using kd by (intro push_scratch_text) auto
        then show ?thesis using Inr p True Inr' r q
          by (auto simp: escape_unicode_def Let_def intro!: invalid_text_intros split: option.split)
      qed
    qed
  qed
qed

lemma on_EscapeStr_text:
  assumes "text_inv S_EscapeStr c"
  shows "ctl_text (on_EscapeStr X c)"
proof (cases "bump c")
  case (Inl e)
  then show ?thesis by (simp add: on_EscapeStr_def)
next
  case (Inr p)
  obtain b d where p: "p = (b, d)" by fastforce
  have "str_kind c" using assms by (simp add: text_inv_def)
  then have kd: "str_kind d" using bump_kind [of c b d] Inr p by auto
  show ?thesis using Inr p push_scratch_text [OF kd] escape_hex_text [OF kd] escape_unicode_text [OF kd]
    by (auto simp: on_EscapeStr_def intro!: invalid_text_intros split: option.split)
qed

section \<open>Numbers\<close>

lemma digits_text:
  assumes "lex_base c" and "tok_start c \<le> offset c" and "offset c \<le> len c" and "\<not> P EOF"
  obtains n b ys where "eat_digits P c = Inr (c\<lparr>offset := n, seen_digit := b\<rparr>)" and "offset c \<le> n" and "n \<le> len c"
    and "ctx_text (c\<lparr>offset := n\<rparr>) = ctx_text c @ ys" and "list_all P ys"
    and "b \<longleftrightarrow> seen_digit c \<or> (\<exists>y \<in> set ys. y \<noteq> CHR ''_'')"
proof -
  obtain n b where n: "eat_digits P c = Inr (c\<lparr>offset := n, seen_digit := b\<rparr>)" "offset c \<le> n" "n \<le> len c"
    "\<forall>i. offset c \<le> i \<and> i < n \<longrightarrow> P (bytes c ! i)"
    "b \<longleftrightarrow> seen_digit c \<or> (\<exists>i. offset c \<le> i \<and> i < n \<and> bytes c ! i \<noteq> CHR ''_'')"
    using eat_digits_ok [where P = P, OF assms(1,3,4)] by blast
  have lb: "n \<le> length (bytes c)" using n(3) base_len(1) [OF assms(1)] by simp
  obtain ys where ys: "ctx_text (c\<lparr>offset := n\<rparr>) = ctx_text c @ ys" "list_all P ys" "ys = text_between (bytes c) (offset c) n"
    using ctx_text_extend [OF assms(2) n(2) lb n(4)] by blast
  have "(\<exists>y \<in> set ys. y \<noteq> CHR ''_'') \<longleftrightarrow> (\<exists>i. offset c \<le> i \<and> i < n \<and> bytes c ! i \<noteq> CHR ''_'')"
  proof
    assume "\<exists>y \<in> set ys. y \<noteq> CHR ''_''"
    then obtain j where "j < length ys" "ys ! j \<noteq> CHR ''_''" by (auto simp: in_set_conv_nth)
    then show "\<exists>i. offset c \<le> i \<and> i < n \<and> bytes c ! i \<noteq> CHR ''_''"
      using lb by (intro exI [of _ "offset c + j"]) (auto simp: ys(3) text_between_def)
  next
    assume "\<exists>i. offset c \<le> i \<and> i < n \<and> bytes c ! i \<noteq> CHR ''_''"
    then obtain i where i: "offset c \<le> i" "i < n" "bytes c ! i \<noteq> CHR ''_''" by blast
    then have "ys ! (i - offset c) = bytes c ! i" "i - offset c < length ys"
      using lb by (auto simp: ys(3) text_between_def)
    with i(3) show "\<exists>y \<in> set ys. y \<noteq> CHR ''_''" by (metis nth_mem)
  qed
  then show ?thesis using n(5) by (intro that [OF n(1-3) ys(1,2)]) simp
qed

lemma lexeme_text:
  "lex_base c \<Longrightarrow> tok_start c \<le> offset c \<Longrightarrow> offset c \<le> len c \<Longrightarrow> lexeme c = Inr (ctx_text c)"
  by (simp add: lexeme_ok ctx_text_def text_between_def)

lemma radix_literal_text:
  assumes "lex_base c" "tok_start c \<le> offset c" "offset c \<le> len c" and "\<not> P EOF" and "\<not> seen_digit c"
    and "\<And>s. radix_text (ctx_text c) P s \<Longrightarrow> int_text r s"
  shows "ctl_text (radix_literal X P r c)"
proof -
  obtain n b ys where d: "eat_digits P c = Inr (c\<lparr>offset := n, seen_digit := b\<rparr>)" "offset c \<le> n" "n \<le> len c"
    "ctx_text (c\<lparr>offset := n\<rparr>) = ctx_text c @ ys" "list_all P ys" "b \<longleftrightarrow> seen_digit c \<or> (\<exists>y \<in> set ys. y \<noteq> CHR ''_'')"
    using digits_text [where P = P, OF assms(1-4)] by blast
  let ?c = "c\<lparr>offset := n, seen_digit := b\<rparr>"
  have t: "ctx_text ?c = ctx_text c @ ys" using d(4) by simp
  have "lexeme ?c = Inr (ctx_text ?c)" using assms d by (intro lexeme_text) simp_all
  moreover have "int_text r (ctx_text c @ ys)" if b using that assms(5,6) d(5,6) by (auto simp: radix_text_def)
  ultimately show ?thesis using d(1) t
    by (cases b) (auto simp: radix_literal_def intro!: invalid_text_intros)
qed

lemma radix_arms_text:
  "lex_inv lo S_IntBin c \<Longrightarrow> text_inv S_IntBin c \<Longrightarrow> ctl_text (on_IntBin X c)"
  "lex_inv lo S_IntOct c \<Longrightarrow> text_inv S_IntOct c \<Longrightarrow> ctl_text (on_IntOct X c)"
  "lex_inv lo S_IntHex c \<Longrightarrow> text_inv S_IntHex c \<Longrightarrow> ctl_text (on_IntHex X c)"
  unfolding on_IntBin_def on_IntOct_def on_IntHex_def
  by (rule radix_literal_text; simp add: lex_inv_def text_inv_def)+

lemma on_IntZero_text:
  assumes "lex_inv lo S_IntZero c" and "text_inv S_IntZero c"
  shows "ctl_text (on_IntZero c)"
proof -
  have ns: "S_IntZero \<noteq> S0" by simp
  note B = bump_text [OF assms(1) ns]
  have t: "ctx_text c = ''0''" using assms(2) by (simp add: text_inv_def)
  have z: "decimal_text ''0''" by (simp add: decimal_text_def char_class_spec is_ascii_digit_def in_range_def)
  have "unread 1 (c\<lparr>offset := Suc (offset c), kind := LitInt ''0'' Decimal\<rparr>) = Inr (c\<lparr>kind := LitInt ''0'' Decimal\<rparr>)"
    by (simp add: unread_def)
  moreover have "decimal_text [CHR ''0'', b]" if "is_bin_digit_or_uscore b" for b
    using that by (auto simp: decimal_text_def char_class_spec is_ascii_digit_def in_range_def)
  ultimately show ?thesis using B t z by (auto simp: on_IntZero_def text_inv_def op_states_def intro: exI [of _ "''0''"])
qed

lemma int_digits_single: "is_ascii_digit d \<Longrightarrow> int_digits ! (of_char d - 48) = [d]"
proof -
  assume "is_ascii_digit d"
  then have r: "48 \<le> (of_char d :: nat)" "(of_char d :: nat) \<le> 57" by (simp_all add: is_ascii_digit_def in_range_def)
  define n where "n = (of_char d :: nat)"
  have "n = 48 \<or> n = 49 \<or> n = 50 \<or> n = 51 \<or> n = 52 \<or> n = 53 \<or> n = 54 \<or> n = 55 \<or> n = 56 \<or> n = 57"
    using r unfolding n_def [symmetric] by presburger
  moreover have "d = char_of n" by (simp add: n_def)
  ultimately show ?thesis unfolding n_def [symmetric] by (elim disjE) (simp_all add: int_digits_def char_of_def bit_0)
qed

lemma decimal_text_extend: "decimal_text s \<Longrightarrow> list_all is_digit_or_uscore ys \<Longrightarrow> decimal_text (s @ ys)"
  by (auto simp: decimal_text_def)

lemma on_IntDec_text:
  assumes "lex_inv lo S_IntDec c" and "text_inv S_IntDec c"
  shows "ctl_text (on_IntDec c)"
proof -
  have ns: "S_IntDec \<noteq> S0" by simp
  note I = invD [OF assms(1) ns]
  have nz: "\<not> is_digit_or_uscore EOF" and le: "tok_start c \<le> offset c" using I by simp_all
  obtain n b ys where d: "eat_digits is_digit_or_uscore c = Inr (c\<lparr>offset := n, seen_digit := b\<rparr>)" "offset c \<le> n" "n \<le> len c"
    "ctx_text (c\<lparr>offset := n\<rparr>) = ctx_text c @ ys" "list_all is_digit_or_uscore ys"
    using digits_text [where P = is_digit_or_uscore, OF I(1) le I(4) nz] by blast
  let ?c = "c\<lparr>offset := n, seen_digit := b\<rparr>"
  have t: "decimal_text (ctx_text ?c)" using d assms(2) decimal_text_extend by (simp add: text_inv_def)
  have p: "peek ?c = Inr (bytes c ! n)" using peek_ok [of ?c] I d by simp
  have l: "lexeme ?c = Inr (ctx_text ?c)" using I d by (intro lexeme_text) simp_all
  have nb: "n < length (bytes c)" using d(3) base_len(1) [OF I(1)] by simp
  have dot: "ctx_text (c\<lparr>offset := Suc n\<rparr>) = ctx_text ?c @ [bytes c ! n]"
    using ctx_text_bump [of "c\<lparr>offset := n\<rparr>"] nb d I by (simp add: ctx_text_def)
  have one: "ctx_text ?c = [bytes c ! tok_start c]" if "n - tok_start c = 1" "\<not> n < tok_start c"
  proof -
    have "n = Suc (tok_start c)" using that by linarith
    then show ?thesis using nb by (simp add: ctx_text_def text_between_def take_Suc_conv_app_nth)
  qed
  have at: "byte_at ?c (tok_start c) = Inr (bytes c ! tok_start c)" using byte_at_ok [of ?c] I d by simp
  show ?thesis using d(1) p l t dot one at
    by (auto simp: on_IntDec_def text_inv_def op_states_def int_digits_single)
qed

lemma on_FloatDot1_text:
  assumes "lex_inv lo S_FloatDot1 c" and "text_inv S_FloatDot1 c"
  shows "ctl_text (on_FloatDot1 X c)"
proof -
  have ns: "S_FloatDot1 \<noteq> S0" by simp
  note I = invD [OF assms(1) ns]
  note B = bump_text [OF assms(1) ns]
  obtain s where s: "ctx_text c = s @ ''.''" "decimal_text s" using assms(2) by (auto simp: text_inv_def)
  have two: "tok_start c + 2 \<le> offset c" using assms(1) by (simp add: lex_inv_def state_inv_def)
  have ob: "offset c \<le> length (bytes c)" using I(4) base_len(1) [OF I(1)] by simp
  let ?c = "c\<lparr>offset := offset c - 1\<rparr>"
  have "ctx_text c = ctx_text ?c @ [bytes c ! (offset c - 1)]"
    using ctx_text_bump [of ?c] two ob by simp
  then have "ctx_text ?c = s" using s(1) by simp
  moreover have "lexeme ?c = Inr (ctx_text ?c)" "lexeme c = Inr (ctx_text c)" using I two by (auto intro!: lexeme_text)
  moreover have "unread 2 (c\<lparr>offset := Suc (offset c)\<rparr>) = Inr ?c" using two by (simp add: unread_def)
  ultimately show ?thesis using B s(2)
    by (auto simp: on_FloatDot1_def text_inv_def op_states_def intro!: invalid_text_intros)
qed

lemma float_arms_text:
  "lex_inv lo S_FloatDot2 c \<Longrightarrow> ctl_text (on_FloatDot2 c)"
  "ctl_text (on_FloatExp1 X c)"
  "lex_inv lo S_FloatExp2 c \<Longrightarrow> ctl_text (on_FloatExp2 X c)"
proof -
  have g: "text_inv st d" if "st = S_FloatExp1 \<or> st = S_FloatExp2" for st d using that by (auto simp: text_inv_def op_states_def)
  have nz: "\<not> is_digit_or_uscore EOF" by simp
  show "ctl_text (on_FloatDot2 c)" if i: "lex_inv lo S_FloatDot2 c"
  proof -
    have I: "lex_base c" "tok_start c \<le> offset c" "offset c \<le> len c" using invD [OF i] by simp_all
    obtain n b where d: "eat_digits is_digit_or_uscore c = Inr (c\<lparr>offset := n, seen_digit := b\<rparr>)" "offset c \<le> n" "n \<le> len c"
      using digits_text [where P = is_digit_or_uscore, OF I nz] by blast
    have "lexeme (c\<lparr>offset := n, seen_digit := b\<rparr>) = Inr (ctx_text (c\<lparr>offset := n, seen_digit := b\<rparr>))"
      using I d by (intro lexeme_text) simp_all
    then show ?thesis using d g peek_ok [of "c\<lparr>offset := n, seen_digit := b\<rparr>"] I by (simp add: on_FloatDot2_def)
  qed
  show "ctl_text (on_FloatExp1 X c)"
    by (cases "peek c") (auto simp: on_FloatExp1_def g intro!: invalid_text_intros)
  show "ctl_text (on_FloatExp2 X c)" if i: "lex_inv lo S_FloatExp2 c"
  proof -
    have I: "lex_base c" "tok_start c \<le> offset c" "offset c \<le> len c" using invD [OF i] by simp_all
    obtain n b where d: "eat_digits is_digit_or_uscore c = Inr (c\<lparr>offset := n, seen_digit := b\<rparr>)" "offset c \<le> n" "n \<le> len c"
      using digits_text [where P = is_digit_or_uscore, OF I nz] by blast
    have "lexeme (c\<lparr>offset := n, seen_digit := b\<rparr>) = Inr (ctx_text (c\<lparr>offset := n, seen_digit := b\<rparr>))"
      using I d by (intro lexeme_text) simp_all
    then show ?thesis using d by (cases b) (auto simp: on_FloatExp2_def intro!: invalid_text_intros)
  qed
qed

section \<open>The start state and the machine\<close>

lemma single_chars_faithful: "map_of single_chars b = Some k \<Longrightarrow> faithful k [b]"
  by (auto simp: single_chars_def split: if_splits)

lemma op_starts_text:
  "map_of op_starts b = Some (k, st) \<Longrightarrow> (st \<in> set op_states \<and> k = state_kind st \<and> kind_display k = [b]) \<or> (st = S_Str \<and> k = LitStr [])"
  by (auto simp: op_starts_def op_states_def kind_display_def split: if_splits)

lemma on_S0_text:
  assumes "crates_ok X" and "lex_inv lo S0 c"
  shows "ctl_text (on_S0 X c)"
proof -
  have I: "lex_base c" "lo \<le> offset c" "offset c \<le> len c" using assms(2) by (auto simp: lex_inv_def)
  obtain n where n: "skip_whitespace X c = Inr (c\<lparr>offset := n\<rparr>)" "n \<le> len c"
    using skip_whitespace_ok [OF assms(1) I(1,3)] by blast
  let ?b = "bytes c ! n" and ?c = "c\<lparr>tok_start := n, offset := Suc n\<rparr>"
  have b: "bump (c\<lparr>offset := n, tok_start := n\<rparr>) = Inr (?b, ?c)"
    using bump_ok [of "c\<lparr>offset := n, tok_start := n\<rparr>"] I n by simp
  have t: "ctx_text ?c = [?b]"
    using n(2) base_len(1) [OF I(1)] by (simp add: ctx_text_def text_between_def take_Suc_conv_app_nth)
  show ?thesis
  proof (cases "map_of single_chars ?b")
    case (Some k)
    then show ?thesis using n b t single_chars_faithful [OF Some] by (simp add: on_S0_def)
  next
    case none: None
    show ?thesis
    proof (cases "map_of op_starts ?b")
      case (Some p)
      obtain k st where p: "p = (k, st)" by fastforce
      have "text_inv st (?c\<lparr>kind := k\<rparr>)"
        using op_starts_text [OF Some [unfolded p]] t by (auto simp: text_inv_op) (simp add: text_inv_def op_states_def)
      with none Some p n b show ?thesis by (simp add: on_S0_def)
    next
      case None
      have "is_ident_start ?b" if "has_class ?b IDENT_START" using that by (simp add: is_ident_start_def)
      moreover have "is_digit ?b" if "has_class ?b DIGIT" using that by (simp add: is_digit_def)
      ultimately show ?thesis using none None n b t
        by (auto simp: on_S0_def text_inv_def op_states_def ident_so_far_def ident_text_def decimal_text_def
            intro!: invalid_text_intros)
    qed
  qed
qed

lemma lex_step_text:
  assumes "crates_ok X" and "lex_inv lo st c" and "text_inv st c" and "lex_step X st c = Some r"
  shows "ctl_text r"
  using assms
  by (cases st) (auto intro: on_S0_text op_arms_text other_op_arms_text on_Underscore_text sigil_arms_text on_Hash_text
      on_Backslash_text on_LineComment_text on_Ident_text on_Str_text on_EscapeStr_text on_IntZero_text radix_arms_text
      on_IntDec_text on_FloatDot1_text float_arms_text)

lemma lex_loop_text:
  assumes "crates_ok X" and "lex_inv lo st c" and "text_inv st c" and ret: "lex_loop X st c = Some r" and "r = Inr d"
  shows "faithful (kind d) (ctx_text d)"
proof -
  let ?P = "\<lambda>X st c r. crates_ok X \<longrightarrow> lex_inv lo st c \<longrightarrow> text_inv st c \<longrightarrow> (\<forall>d. r = Inr d \<longrightarrow> faithful (kind d) (ctx_text d))"
  have "?P X st c r"
  proof (rule lex_loop.raw_induct [where P = ?P, OF _ ret], intro impI allI)
    fix f X st c r d
    assume IH: "\<And>X st c r. f X st c = Some r \<Longrightarrow> ?P X st c r" and a: "crates_ok X" "lex_inv lo st c" "text_inv st c"
      and eq: "Option.bind (lex_step X st c) (\<lambda>r. case r of Inl e \<Rightarrow> Some (Inl e) | Inr (Goto st' c') \<Rightarrow> f X st' c'
         | Inr (Done c') \<Rightarrow> Some (Inr c')) = Some r" and r: "r = Inr d"
    from eq obtain s where s: "lex_step X st c = Some s" by (cases "lex_step X st c") auto
    note ok = lex_step_ok [OF a(1,2) s] and tx = lex_step_text [OF a s]
    show "faithful (kind d) (ctx_text d)"
    proof (cases s)
      case (Inl e)
      with ok show ?thesis by simp
    next
      case (Inr ctl)
      show ?thesis
      proof (cases ctl)
        case (Goto st' c')
        then show ?thesis using IH [of X st' c' r] a(1) eq ok tx s Inr r by auto
      next
        case (Done c')
        then show ?thesis using eq tx s Inr r by auto
      qed
    qed
  qed
  with assms show ?thesis by blast
qed

lemma lex_next_text:
  assumes "crates_ok X" and "lexer_ready lx" and "lex_next X lx = Some (Inr (t, lx'))"
  shows "faithful (tok_kind t) (text_between (bytes lx) (span_start (tok_span t)) (span_end (tok_span t)))"
proof -
  obtain s where s: "lex_loop X S0 (lex_enter lx) = Some s" "bindr s lex_token = Inr (t, lx')"
    using assms(3) by (auto simp: lex_next_def)
  then obtain c where c: "s = Inr c" "lex_token c = Inr (t, lx')" by (auto simp: bindr_Inr_iff)
  have "faithful (kind c) (ctx_text c)"
    using lex_loop_text [OF assms(1) lex_inv_enter [OF assms(2)] text_inv_S0 s(1) c(1)] .
  moreover have P: "bytes c = bytes lx" "lex_post (offset lx) c"
    using lex_loop_safe [OF assms(1) lex_inv_enter [OF assms(2)] s(1)] c(1) by auto
  moreover have "tok_kind t = kind c" "span_start (tok_span t) = tok_start c" "span_end (tok_span t) = offset c"
  proof -
    have B: "lex_base c" "tok_start c < offset c" "offset c \<le> Suc (len c)"
      using P(2) by (auto simp: lex_post_def split: if_splits)
    then have "offset c < 2 ^ 32 - 1" using base_len(3) [OF B(1)] by (simp add: lex_base_def src_ok_def)
    moreover from this have "tok_start c < 2 ^ 32 - 1" using B(2) by linarith
    ultimately obtain sp where "span_new (tok_start c) (offset c) = Returns sp" "span_start sp = tok_start c" "span_end sp = offset c"
      using span_new_exact [of "tok_start c" "offset c" thesis] by blast
    then show "tok_kind t = kind c" "span_start (tok_span t) = tok_start c" "span_end (tok_span t) = offset c"
      using c(2) by (auto simp: lex_token_def lexer_span_def)
  qed
  ultimately show ?thesis by (simp add: ctx_text_def)
qed

end
