(* ===== verification/Vif_Lexer_Props.thy ===== *)
theory Vif_Lexer_Props
  imports Vif_Lexer_Text
begin

text \<open>
  The properties of the lexer as its client, the parser, sees them: memory safety of every call,
  termination and the shape of the token stream, what a token says about its text, the exact behaviour of
  the scan to the end of a line, and the inputs on which the lexer does not do what it means to. The
  hypothesis \<open>crates_ok\<close> is the documented behaviour of the crates; \<open>scan_crates\<close> shows that it can hold.
\<close>

definition scan_crates :: crates where
  "scan_crates = \<lparr>mx = memx_scan, sorted_insert_by = (\<lambda>ls l le. l # ls), tiny_map = map_of\<rparr>"

lemma scan_crates_ok [simp]: "crates_ok scan_crates"
  by (simp add: scan_crates_def crates_ok_def)

definition sample_lexer :: "byte list \<Rightarrow> lexer" where
  "sample_lexer s = \<lparr>bytes = s @ [EOF], len = length s, offset = 0, tok_start = 0, lex_module = 0,
     errors = [], scratch_pad = []\<rparr>"

lemma sample_lexer_sel [simp]:
  "bytes (sample_lexer s) = s @ [EOF]" "offset (sample_lexer s) = 0" "len (sample_lexer s) = length s"
  by (simp_all add: sample_lexer_def)

lemma sample_lexer_ready [simp]: "length s < 2 ^ 32 - 2 \<Longrightarrow> lexer_ready (sample_lexer s)"
  by (simp add: lexer_ready_def lex_base_def src_ok_def)

lemma no_lone_crI: "CR \<notin> set bs \<Longrightarrow> no_lone_cr bs"
  by (auto simp: no_lone_cr_def dest: nth_mem)

section \<open>The stream\<close>

lemma collect_tokens_text:
  assumes "crates_ok X" and "lexer_ready lx" and ret: "collect_tokens X lx acc = Some r"
  shows "\<exists>ts lx'. r = Inr (acc @ ts, lx') \<and>
    list_all (\<lambda>t. faithful (tok_kind t) (text_between (bytes lx) (span_start (tok_span t)) (span_end (tok_span t)))) ts"
proof -
  let ?Q = "\<lambda>bs. list_all (\<lambda>t. faithful (tok_kind t) (text_between bs (span_start (tok_span t)) (span_end (tok_span t))))"
  let ?P = "\<lambda>X lx acc r. crates_ok X \<longrightarrow> lexer_ready lx \<longrightarrow> (\<exists>ts lx'. r = Inr (acc @ ts, lx') \<and> ?Q (bytes lx) ts)"
  have "?P X lx acc r"
  proof (rule collect_tokens.raw_induct [where P = ?P, OF _ ret], intro impI)
    fix f X lx acc r
    assume IH: "\<And>X lx acc r. f X lx acc = Some r \<Longrightarrow> ?P X lx acc r" and a: "crates_ok X" "lexer_ready lx"
      and eq: "Option.bind (lex_next X lx) (\<lambda>r. case r of Inl e \<Rightarrow> Some (Inl e)
         | Inr (t, lx') \<Rightarrow> (let tokens' = (if \<not> is_invalid_token t then acc @ [t] else acc)
            in if is_eof_token t then Some (Inr (tokens', lx')) else f X lx' tokens')) = Some r"
    from eq obtain s where s: "lex_next X lx = Some s" by (cases "lex_next X lx") auto
    obtain t lx' where t: "s = Inr (t, lx')" "next_ok lx t lx'" using lex_next_safe [OF a s] by blast
    let ?acc = "if \<not> is_invalid_token t then acc @ [t] else acc"
    have new: "?Q (bytes lx) [t]" using lex_next_text [OF a] s t(1) by simp
    show "\<exists>ts lx'. r = Inr (acc @ ts, lx') \<and> ?Q (bytes lx) ts"
    proof (cases "tok_kind t = Eof")
      case True
      then have "r = Inr (?acc, lx')" using eq s t(1) by (simp add: is_eof_token_def Let_def)
      with new show ?thesis by (cases "is_invalid_token t") auto
    next
      case False
      then have "f X lx' ?acc = Some r" using eq s t(1) by (simp add: is_eof_token_def Let_def)
      moreover have "lexer_ready lx'" "bytes lx' = bytes lx" using t(2) False by (simp_all add: next_ok_def)
      ultimately obtain ts lx'' where "r = Inr (?acc @ ts, lx'')" "?Q (bytes lx) ts"
        using IH [of X lx' ?acc r] a(1) by auto
      then show ?thesis using new by (cases "is_invalid_token t") auto
    qed
  qed
  with assms show ?thesis by blast
qed

text \<open>
  One call of \<^verbatim>\<open>Lexer::next\<close> on a zero-terminated text never faults: no read through
  \<^verbatim>\<open>get_unchecked\<close> is out of bounds, no slice or subtraction panics, no \<^verbatim>\<open>unreachable_unchecked\<close> or failing
  \<^verbatim>\<open>assume!\<close> is reached. The token it returns lies after the tokens before it, is not empty, and unless it
  is the end of file the lexer can be called again.
\<close>

theorem lex_next_memory_safe:
  assumes "crates_ok X" and "lexer_ready lx" and "lex_next X lx = Some r"
  shows "\<exists>t lx'. r = Inr (t, lx') \<and> next_ok lx t lx'"
  by (rule lex_next_safe [OF assms])

theorem lex_next_memory_safe_witness:
  "\<exists>r t lx'. lex_next scan_crates (sample_lexer ''a+=0x1F'') = Some r \<and> r = Inr (t, lx') \<and>
     next_ok (sample_lexer ''a+=0x1F'') t lx'"
proof -
  have ready: "lexer_ready (sample_lexer ''a+=0x1F'')" by simp
  obtain r where r: "lex_next scan_crates (sample_lexer ''a+=0x1F'') = Some r"
    using lex_next_returns [OF scan_crates_ok ready] no_lone_crI by auto
  with lex_next_memory_safe [OF scan_crates_ok ready r] show ?thesis by blast
qed

lemma lex_source_total:
  assumes "crates_ok X" and "src_ok src" and "no_lone_cr src"
  shows "\<exists>ts es. lex_source X src m = Some (Inr (ts, es)) \<and> stream_ok 0 (length src) ts"
proof -
  obtain lx where lx: "lexer_new src m = Returns lx" "lexer_ready lx" "bytes lx = src" "offset lx = 0" "len lx = length src - 1"
    using lexer_new_ready [OF assms(2)] by blast
  then obtain r where r: "collect_tokens X lx [] = Some r"
    using collect_tokens_returns [OF assms(1) lx(2), of "[]"] assms(3) by auto
  then obtain ts lx' where "r = Inr (ts, lx')" "stream_ok 0 (Suc (len lx)) ts"
    using collect_tokens_safe [OF assms(1) lx(2) r] lx(4) by auto
  then show ?thesis using lx assms(2) r by (auto simp: lex_source_def src_ok_def take_errors_def)
qed





section \<open>The end of a line\<close>

definition line_rest :: "lex_ctx \<Rightarrow> byte list" where
  "line_rest c = drop (offset c) (bytes c)"

text \<open>
  The scan to the end of a line, in full. It stops at the first line feed, also when a carriage return
  stands before it. Two cases are not what a comment needs: with no line end before the end of the
  text the offset does not move, and at a carriage return with no line feed after it the scan never returns.
\<close>

theorem eat_until_newline_spec:
  assumes "crates_ok X" and "lex_base c" and "offset c \<le> len c"
  shows "eat_until_newline X c =
    (case find_index is_line_end (line_rest c) of
       None \<Rightarrow> Some (Inr c)
     | Some k \<Rightarrow>
         if line_rest c ! k = LF then Some (Inr (c\<lparr>offset := offset c + k\<rparr>))
         else if Suc k < length (line_rest c) \<and> line_rest c ! Suc k = LF then Some (Inr (c\<lparr>offset := offset c + k + 1\<rparr>))
         else None)"
proof -
  have m: "memchr_dbl (mx X) bs LF CR = find_index is_line_end bs" for bs
    using assms(1) by (simp add: crates_ok_def memx_ok_def)
  have rest: "rest_of c = Inr (line_rest c)" using assms by (simp add: rest_of_ok line_rest_def)
  show ?thesis
  proof (cases "find_index is_line_end (line_rest c)")
    case None
    then show ?thesis using rest by (subst eat_until_newline.simps) (simp add: m)
  next
    case (Some k)
    have k: "offset c + k < len c" "bytes c ! (offset c + k) = LF \<or> bytes c ! (offset c + k) = CR"
      using find_newline [OF assms, of k] Some m by (simp_all add: line_rest_def)
    then have len: "offset c + k + 1 < length (bytes c)" using base_len(3) [OF assms(2)] by simp
    then have nth: "line_rest c ! k = bytes c ! (offset c + k)" "line_rest c ! Suc k = bytes c ! (offset c + k + 1)"
      "Suc k < length (line_rest c)" by (simp_all add: line_rest_def)
    have at: "byte_at c (offset c + k) = Inr (bytes c ! (offset c + k))"
      "byte_at c (offset c + k + 1) = Inr (bytes c ! (offset c + k + 1))" using len by (simp_all add: byte_at_def)
    consider (lf) "bytes c ! (offset c + k) = LF"
      | (crlf) "bytes c ! (offset c + k) = CR" "bytes c ! (offset c + k + 1) = LF"
      | (cr) "bytes c ! (offset c + k) = CR" "bytes c ! (offset c + k + 1) \<noteq> LF" using k(2) by blast
    then show ?thesis
    proof cases
      case lf
      then show ?thesis using rest Some at nth by (subst eat_until_newline.simps) (simp add: m)
    next
      case crlf
      let ?d = "c\<lparr>offset := offset c + k + 1\<rparr>"
      have lt: "offset c + k + 1 < len c" using not_eof_less' [OF assms(2) len] crlf by simp
      have "eat_until_newline X c = eat_until_newline X ?d"
        using rest Some at nth crlf lt by (subst eat_until_newline.simps) (simp add: m)
      also have "\<dots> = Some (Inr ?d)"
      proof -
        have "rest_of ?d = Inr (LF # drop (offset c + k + 2) (bytes c))"
          using assms(2) lt crlf(2) len Cons_nth_drop_Suc [OF len] by (subst rest_of_ok) simp_all
        then show ?thesis using crlf len by (subst eat_until_newline.simps) (simp add: m byte_at_def)
      qed
      finally show ?thesis using Some nth crlf by simp
    next
      case cr
      let ?d = "c\<lparr>offset := offset c + k\<rparr>"
      have "eat_until_newline X c = eat_until_newline X ?d"
        using rest Some at nth cr by (subst eat_until_newline.simps) (simp add: m)
      also have "\<dots> = None"
        by (rule eat_until_newline_stuck [OF assms(1)]) (use assms(2) k(1) cr in \<open>simp add: at_lone_cr_def\<close>)
      finally show ?thesis using Some nth cr by simp
    qed
  qed
qed

theorem eat_until_newline_spec_witness:
  "eat_until_newline scan_crates (lex_enter (sample_lexer [CHR ''a'', LF])) =
     Some (Inr ((lex_enter (sample_lexer [CHR ''a'', LF]))\<lparr>offset := 1\<rparr>))"
proof -
  have "lex_base (lex_enter (sample_lexer [CHR ''a'', LF]))" by (simp add: lex_base_def src_ok_def)
  from eat_until_newline_spec [OF scan_crates_ok this] show ?thesis by (simp add: line_rest_def)
qed

section \<open>Operators and comments\<close>

definition enter_op :: "lexer \<Rightarrow> token_kind \<Rightarrow> lex_ctx" where
  "enter_op lx k = (lex_enter lx)\<lparr>tok_start := offset lx, offset := offset lx + 1, kind := k\<rparr>"

lemma lex_loop_op:
  assumes "lexer_ready lx" and "bytes lx ! offset lx = b" and "map_of op_starts b = Some (k, st)"
  shows "lex_loop X S0 (lex_enter lx) = lex_loop X st (enter_op lx k)"
proof -
  have ns: "map_of single_chars b = None" "\<not> is_whitespace b"
    using assms(3) by (auto simp: op_starts_def single_chars_def char_class_spec split: if_splits)
  have "offset lx < length (bytes lx)" using assms(1) base_len(1) [of lx] by (simp add: lexer_ready_def)
  then have "on_S0 X (lex_enter lx) = Inr (Goto st (enter_op lx k))"
    using assms(2,3) ns by (simp add: on_S0_def skip_whitespace_def peek_def bump_def enter_op_def)
  then show ?thesis by (subst lex_loop.simps) simp
qed

text \<open>
  The text \<^verbatim>\<open>*=\<close> is never one token: the state after a star has no arm for the equals sign, so the
  call returns the token \<^verbatim>\<open>*\<close> and leaves the equals sign to the next call. With the theorem above no text at all
  gives the token \<^verbatim>\<open>*=\<close> that the parser accepts as a compound assignment.
\<close>

theorem star_eq_is_two_tokens:
  assumes "lexer_ready lx" and "bytes lx ! offset lx = CHR ''*''" and "bytes lx ! (offset lx + 1) = CHR ''=''"
  shows "\<exists>t lx'. lex_next X lx = Some (Inr (t, lx')) \<and> tok_kind t = Op1 Star \<and> offset lx' = offset lx + 1"
proof -
  have base: "lex_base lx" "offset lx \<le> len lx" using assms(1) by (auto simp: lexer_ready_def)
  have lt: "offset lx < len lx" using not_eof_less [OF base(1,2)] assms(2) by simp
  let ?c = "enter_op lx (Op1 Star)"
  have c: "bytes ?c = bytes lx" "offset ?c = Suc (offset lx)" "kind ?c = Op1 Star" "tok_start ?c = offset lx"
    by (simp_all add: enter_op_def)
  have "lex_loop X S0 (lex_enter lx) = lex_loop X S_Star ?c"
    using lex_loop_op [OF assms(1,2)] by (simp add: op_starts_def)
  also have "\<dots> = Some (Inr ?c)"
    using lt base_len(3) [OF base(1)] assms(3) c
    by (subst lex_loop.simps) (simp add: on_Star_def match_op_def bump_def peek_def unread_def)
  finally have loop: "lex_loop X S0 (lex_enter lx) = Some (Inr ?c)" .
  have "length (bytes lx) < 2 ^ 32 - 1" using base(1) by (simp add: lex_base_def src_ok_def)
  then have "Suc (offset lx) < 2 ^ 32 - 1" using lt base_len(3) [OF base(1)] by linarith
  then obtain sp where "span_new (offset lx) (Suc (offset lx)) = Returns sp"
    using span_new_exact [of "offset lx" "Suc (offset lx)" thesis] by (metis Suc_lessD less_or_eq_imp_le lessI)
  then show ?thesis using loop c by (simp add: lex_next_def lex_token_def lexer_span_def)
qed

theorem star_eq_is_two_tokens_witness:
  "\<exists>t lx'. lex_next scan_crates (sample_lexer ''*='') = Some (Inr (t, lx')) \<and> tok_kind t = Op1 Star \<and> offset lx' = 1"
  using star_eq_is_two_tokens [of "sample_lexer ''*=''" scan_crates] by simp

lemma lex_loop_comment:
  assumes "lexer_ready lx" and "bytes lx ! offset lx = CHR ''/''" and "bytes lx ! (offset lx + 1) = CHR ''/''"
  shows "lex_loop X S0 (lex_enter lx) = lex_loop X S_LineComment ((enter_op lx (Op1 Slash))\<lparr>offset := offset lx + 2\<rparr>)"
proof -
  have base: "lex_base lx" "offset lx \<le> len lx" using assms(1) by (auto simp: lexer_ready_def)
  have lt: "offset lx < len lx" using not_eof_less [OF base(1,2)] assms(2) by simp
  have "lex_loop X S0 (lex_enter lx) = lex_loop X S_Slash (enter_op lx (Op1 Slash))"
    using lex_loop_op [OF assms(1,2)] by (simp add: op_starts_def)
  moreover have "on_Slash (enter_op lx (Op1 Slash)) = Inr (Goto S_LineComment ((enter_op lx (Op1 Slash))\<lparr>offset := offset lx + 2\<rparr>))"
    using lt base_len(3) [OF base(1)] assms(3) by (simp add: on_Slash_def bump_def peek_def enter_op_def)
  ultimately show ?thesis by (subst (asm) (2) lex_loop.simps) simp
qed

text \<open>
  C30: A line comment that holds a carriage return which is not followed by a line feed, before the end of
  the line, makes \<^verbatim>\<open>Lexer::next\<close> run forever.
\<close>

theorem lone_cr_in_comment_hangs:
  assumes "crates_ok X" and "lexer_ready lx" and "bytes lx ! offset lx = CHR ''/''" and "bytes lx ! (offset lx + 1) = CHR ''/''"
    and "offset lx + 2 \<le> k" and "k < len lx" and "bytes lx ! k = CR" and "bytes lx ! (k + 1) \<noteq> LF"
    and "\<forall>i. offset lx + 2 \<le> i \<longrightarrow> i < k \<longrightarrow> \<not> is_line_end (bytes lx ! i)"
  shows "lex_next X lx = None"
proof -
  let ?c = "(enter_op lx (Op1 Slash))\<lparr>offset := offset lx + 2\<rparr>"
  have base: "lex_base lx" using assms(2) by (simp add: lexer_ready_def)
  then have c: "lex_base ?c" "offset ?c = offset lx + 2" "bytes ?c = bytes lx" "len ?c = len lx"
    by (simp_all add: enter_op_def lex_base_def)
  have stuck: "at_lone_cr (?c\<lparr>offset := k\<rparr>)" using c assms by (simp add: at_lone_cr_def)
  define d where "d = k - (offset lx + 2)"
  then have k: "k = offset lx + 2 + d" using assms(5) by simp
  have find: "memchr_dbl (mx X) (drop (offset lx + 2) (bytes lx)) LF CR = Some d"
  proof -
    obtain j where j: "find_index is_line_end (drop (offset lx + 2) (bytes lx)) = Some j" "offset lx + 2 + j \<le> k"
      using find_index_drop_exists [of k "bytes lx" is_line_end "offset lx + 2"] assms base_len(1) [OF base] by auto
    then have "is_line_end (bytes lx ! (offset lx + 2 + j))" using find_index_SomeD [OF j(1)] by auto
    with assms(9) j(2) have "offset lx + 2 + j = k" by (meson le_add1 le_neq_implies_less)
    with j(1) assms(1) k show ?thesis by (auto simp: crates_ok_def memx_ok_def)
  qed
  have "byte_at ?c k = Inr CR" "byte_at ?c (Suc k) \<noteq> Inr LF"
    using assms(6-8) base_len(1) [OF base] c by (simp_all add: byte_at_def)
  then have "eat_until_newline X ?c = eat_until_newline X (?c\<lparr>offset := k\<rparr>)"
    using find assms(6) c unfolding k by (subst eat_until_newline.simps) (simp add: rest_of_ok)
  also have "\<dots> = None" by (rule eat_until_newline_stuck [OF assms(1) stuck])
  finally have "lex_loop X S_LineComment ?c = None" by (subst lex_loop.simps) (simp add: on_LineComment_def)
  then show ?thesis using lex_loop_comment [OF assms(2-4)] by (simp add: lex_next_def)
qed

theorem lone_cr_in_comment_hangs_witness: "lex_next scan_crates (sample_lexer [CHR ''/'', CHR ''/'', CR, CHR ''x'']) = None"
  using lone_cr_in_comment_hangs [of scan_crates "sample_lexer [CHR ''/'', CHR ''/'', CR, CHR ''x'']" 2] by simp

text \<open>
  A comment on the last line of a file without a final newline is not skipped: after the scan the machine
  is back in its start state right behind the two slashes, so the text of the comment is read as code.
\<close>

theorem comment_at_end_is_code:
  assumes "crates_ok X" and "lexer_ready lx" and "bytes lx ! offset lx = CHR ''/''" and "bytes lx ! (offset lx + 1) = CHR ''/''"
    and "list_all (\<lambda>b. \<not> is_line_end b) (drop (offset lx + 2) (bytes lx))"
  shows "lex_loop X S0 (lex_enter lx) = lex_loop X S0 ((enter_op lx (Op1 Slash))\<lparr>offset := offset lx + 2\<rparr>)"
proof -
  let ?c = "(enter_op lx (Op1 Slash))\<lparr>offset := offset lx + 2\<rparr>"
  have base: "lex_base lx" "offset lx \<le> len lx" using assms(2) by (simp_all add: lexer_ready_def)
  have "offset lx < len lx" using not_eof_less [OF base(1,2)] assms(3) by simp
  then have "offset lx + 1 < len lx" using not_eof_less [OF base(1), of "offset lx + 1"] assms(4) by simp
  then have c: "lex_base ?c" "offset ?c = offset lx + 2" "bytes ?c = bytes lx" "offset ?c \<le> len ?c"
    using base by (simp_all add: enter_op_def lex_base_def)
  have "memchr_dbl (mx X) (drop (offset lx + 2) (bytes lx)) LF CR = None"
    using assms(1,5) by (simp add: crates_ok_def memx_ok_def find_index_None_iff list_all_iff)
  then have "eat_until_newline X ?c = Some (Inr ?c)"
    using c by (subst eat_until_newline.simps) (simp add: rest_of_ok)
  then have "lex_loop X S_LineComment ?c = lex_loop X S0 ?c"
    by (subst lex_loop.simps) (simp add: on_LineComment_def)
  with lex_loop_comment [OF assms(2-4)] show ?thesis by simp
qed

theorem comment_at_end_is_code_witness:
  "lex_loop scan_crates S0 (lex_enter (sample_lexer ''//x'')) =
   lex_loop scan_crates S0 ((enter_op (sample_lexer ''//x'') (Op1 Slash))\<lparr>offset := 2\<rparr>)"
  using comment_at_end_is_code [of scan_crates "sample_lexer ''//x''"] by (simp add: numeral_2_eq_2 [symmetric])

end
