(* ===== verification/Vif_Literals.thy ===== *)
theory Vif_Literals
  imports Vif_Int Vif_Lexer_Props
begin

text \<open>
  From the text of an integer literal to its value: \<^verbatim>\<open>lower_lit_int\<close> of \<^verbatim>\<open>src/ir/vuir/from_ast.rs\<close> strips the
  radix prefix the lexer left in the symbol, parses the digits, unwraps the result and negates it when a
  minus sign stands before the literal. Here the lexer and the integers meet: on a token of the lexer neither the
  slice nor the \<^verbatim>\<open>unwrap\<close> can panic. The type that the suffix selects is not part of the value.
\<close>

definition strip_prefix :: "radix \<Rightarrow> string \<Rightarrow> string outcome" where
  "strip_prefix r symbol = (if r = Decimal then Returns symbol else slice symbol 2 (length symbol))"

definition lower_lit_int :: "string \<Rightarrow> radix \<Rightarrow> bool \<Rightarrow> anyint outcome" where
  "lower_lit_int symbol r is_positive =
     (case strip_prefix r symbol of
        Panics \<Rightarrow> Panics
      | Returns digits \<Rightarrow>
          (case parse_radix (radix_base r) digits of
             Panics \<Rightarrow> Panics
           | Returns None \<Rightarrow> Panics
           | Returns (Some a) \<Rightarrow> Returns (if is_positive then a else neg a)))"

text \<open>The number the text of a literal denotes.\<close>

definition literal_digits :: "radix \<Rightarrow> byte list \<Rightarrow> byte list" where
  "literal_digits r s = (if r = Decimal then s else drop 2 s)"

definition literal_value :: "radix \<Rightarrow> byte list \<Rightarrow> nat option" where
  "literal_value r s = digits_meaning (radix_base r) (literal_digits r s) 0"

lemma digits_meaning_total:
  assumes "list_all (\<lambda>b. b = CHR ''_'' \<or> (\<exists>d. digit_of b = Some d \<and> d < r)) s"
  shows "\<exists>n. digits_meaning r s v = Some n"
  using assms by (induction s arbitrary: v) auto

lemma digit_classes:
  "is_bin_digit_or_uscore b \<Longrightarrow> b = CHR ''_'' \<or> (\<exists>d. digit_of b = Some d \<and> d < 2)"
  "is_oct_digit_or_uscore b \<Longrightarrow> b = CHR ''_'' \<or> (\<exists>d. digit_of b = Some d \<and> d < 8)"
  "is_digit_or_uscore b \<Longrightarrow> b = CHR ''_'' \<or> (\<exists>d. digit_of b = Some d \<and> d < 10)"
  "is_hex_digit_or_uscore b \<Longrightarrow> b = CHR ''_'' \<or> (\<exists>d. digit_of b = Some d \<and> d < 16)"
  by (auto simp: char_class_spec digit_of_def in_range_def is_ascii_digit_def is_ascii_hexdigit_def Let_def)

lemma int_text_digits:
  assumes "int_text r s"
  shows "list_all (\<lambda>b. b = CHR ''_'' \<or> (\<exists>d. digit_of b = Some d \<and> d < radix_base r)) (literal_digits r s)"
    and "strip_prefix r s = Returns (literal_digits r s)"
proof -
  have all: "list_all Q ds" if "list_all P ds" "\<And>b. P b \<Longrightarrow> Q b" for P Q and ds :: "byte list"
    using that by (simp add: list_all_iff)
  show "list_all (\<lambda>b. b = CHR ''_'' \<or> (\<exists>d. digit_of b = Some d \<and> d < radix_base r)) (literal_digits r s)"
  proof (cases r)
    case Binary
    then show ?thesis using assms all [OF _ digit_classes(1)] by (auto simp: radix_text_def literal_digits_def)
  next
    case Octal
    then show ?thesis using assms all [OF _ digit_classes(2)] by (auto simp: radix_text_def literal_digits_def)
  next
    case Decimal
    then have "list_all is_digit_or_uscore s"
      using assms by (auto simp: decimal_text_def char_class_spec(5))
    from all [OF this digit_classes(3)] Decimal show ?thesis by (simp add: literal_digits_def)
  next
    case Hexadecimal
    then show ?thesis using assms all [OF _ digit_classes(4)] by (auto simp: radix_text_def literal_digits_def)
  qed
  show "strip_prefix r s = Returns (literal_digits r s)"
    using assms by (cases r) (auto simp: radix_text_def literal_digits_def strip_prefix_def slice_def)
qed

lemma lower_int_text:
  assumes "int_text r s"
  shows "\<exists>a n. lower_lit_int s r pos = Returns a \<and> wf_anyint a \<and> literal_value r s = Some n \<and> to_int a = (if pos then int n else - int n)"
proof -
  obtain n where n: "literal_value r s = Some n"
    using digits_meaning_total [OF int_text_digits(1) [OF assms]] by (auto simp: literal_value_def)
  have "2 \<le> radix_base r" "radix_base r \<le> 36" by (cases r; simp)+
  then obtain q where q: "parse_radix (radix_base r) (literal_digits r s) = Returns q"
    and rel: "rel_option (\<lambda>a n. wf_anyint a \<and> to_int a = int n) q (literal_value r s)"
    unfolding literal_value_def by (rule parse_radix_meaning [of "radix_base r" "literal_digits r s"])
  from rel n obtain a where a: "q = Some a" "wf_anyint a" "to_int a = int n" by cases auto
  then have "lower_lit_int s r pos = Returns (if pos then a else neg a)"
    using int_text_digits(2) [OF assms] q by (simp add: lower_lit_int_def)
  then show ?thesis using a n by (auto simp: to_int_neg wf_neg)
qed

text \<open>
  C27: Every integer literal token the lexer returns is lowered without a panic, to a number in normal form
  that is the value of the literal's digits in its radix, with the sign applied.
\<close>

theorem int_literals_lower:
  assumes "crates_ok X" and "lexer_ready lx" and "lex_next X lx = Some (Inr (t, lx'))" and "tok_kind t = LitInt symbol r"
  shows "\<exists>a n. lower_lit_int symbol r is_positive = Returns a \<and> wf_anyint a
    \<and> literal_value r (text_between (bytes lx) (span_start (tok_span t)) (span_end (tok_span t))) = Some n
    \<and> to_int a = (if is_positive then int n else - int n)"
  using lex_next_text [OF assms(1-3)] lower_int_text [of r symbol is_positive] assms(4) by auto

theorem int_literals_lower_witness:
  "\<exists>t lx' a. lex_next scan_crates (sample_lexer ''7'') = Some (Inr (t, lx')) \<and> tok_kind t = LitInt ''7'' Decimal \<and>
     lower_lit_int ''7'' Decimal False = Returns a \<and> to_int a = - 7"
proof -
  let ?lx = "sample_lexer ''7''"
  let ?c = "(lex_enter ?lx)\<lparr>tok_start := 0, offset := 1, seen_digit := True\<rparr>"
  have cls: "\<not> is_whitespace (CHR ''7'')" "\<not> has_class (CHR ''7'') IDENT_START" "has_class (CHR ''7'') DIGIT"
    using char_class_spec(1,2,9) [of "CHR ''7''"]
    by (simp_all add: is_ident_start_def is_digit_def in_range_def is_ascii_digit_def)
  have "on_S0 scan_crates (lex_enter ?lx) = Inr (Goto S_IntDec ?c)"
    using cls by (simp add: on_S0_def skip_whitespace_def peek_def bump_def single_chars_def op_starts_def)
  moreover have "on_IntDec ?c = Inr (Done (?c\<lparr>kind := LitInt ''7'' Decimal\<rparr>))"
    by (simp add: on_IntDec_def eat_digits.simps peek_def byte_at_def is_ascii_digit_def in_range_def int_digits_def)
  ultimately have loop: "lex_loop scan_crates S0 (lex_enter ?lx) = Some (Inr (?c\<lparr>kind := LitInt ''7'' Decimal\<rparr>))"
    by (simp add: lex_loop.simps)
  obtain sp where sp: "span_new 0 1 = Returns sp" "span_start sp = 0" "span_end sp = 1"
    by (rule span_new_exact [of 0 1]) auto
  let ?t = "\<lparr>tok_kind = LitInt ''7'' Decimal, tok_span = sp\<rparr>"
  obtain lx' where nx: "lex_next scan_crates ?lx = Some (Inr (?t, lx'))"
    using loop sp(1) by (simp add: lex_next_def lex_token_def lexer_span_def)
  have "literal_value Decimal ''7'' = Some 7" by (simp add: literal_value_def literal_digits_def digit_of_def)
  with int_literals_lower [OF scan_crates_ok _ nx, of "''7''" Decimal False] nx sp show ?thesis
    by (auto simp: text_between_def)
qed

end
