(* ===== verification/Vif_Ast.thy ===== *)
theory Vif_Ast
  imports Vif_Token
begin

text \<open>
  The abstract syntax tree, \<^verbatim>\<open>src/frontend/ast.rs\<close>. A node holds its children as references into an
  arena; here they are the nodes themselves. Every node type takes the type of expressions as a parameter,
  and \<open>expr\<close> closes the recursion, so the types stand in the order of the file's dependencies. Constructors
  carry a prefix where the name of the variant is taken by a token or by HOL; the twenty-five binary
  variants of \<^verbatim>\<open>ExprKind\<close> are the one constructor \<open>E_Bin\<close> with the operator.
\<close>

section \<open>Leaves\<close>

type_synonym node_id = nat

record ident =
  id_symbol :: string
  id_kind :: ident_kind
  id_span :: span

datatype int_suffix = Suf_U u16 | Suf_I u16 | Suf_Usize | Suf_Isize
datatype float_suffix = Suf_F16 | Suf_F32 | Suf_F64 | Suf_F128

datatype lit =
    Lit_Null | Lit_Str "byte list" | Lit_Char byte | Lit_Bool bool
  | Lit_Integer string radix "int_suffix option"
  | Lit_Float string "float_suffix option"
  | Lit_EnumVariant string

datatype infix_op_kind =
    O_Add | O_AddSat | O_Sub | O_SubSat | O_Mul | O_MulSat | O_Div | O_Rem
  | O_Shl | O_ShlSat | O_ShlWrap | O_Shr | O_ShrSat | O_ShrWrap
  | O_BitAnd | O_BitOr | O_BitXor | O_Lt | O_Lte | O_Gt | O_Gte | O_BoolAnd | O_BoolOr | O_Eq | O_Neq

datatype assign_op =
    A_Assign | A_Add | A_AddSat | A_Sub | A_SubSat | A_Mul | A_MulSat | A_Div | A_Rem
  | A_BitAnd | A_BitOr | A_BitXor | A_Shl | A_ShlSat | A_ShlWrap | A_Shr | A_ShrSat | A_ShrWrap
  | A_BoolAnd | A_BoolOr

datatype inline = Inline_None | Inline_Always | Inline_Never
datatype extern = Extern_None | Extern_Implicit | Extern_Explicit string

section \<open>Statements and control flow\<close>

datatype (plugins only: code) 'e var_binding =
  VarBinding (vb_id: node_id) (vb_name: ident) (vb_ty: "'e option") (vb_val: 'e)

datatype (plugins only: code) 'e statement_kind =
    St_Expr 'e | St_Var "'e var_binding" | St_Const "'e var_binding" | St_ComptimeVarBinding "'e var_binding"
  | St_Return "'e option" | St_Defer 'e | St_Errdefer 'e
  | St_Assign 'e assign_op 'e
  | St_Break "ident option" "'e option" | St_Continue "ident option" "'e option"

datatype (plugins only: code) 'e statement =
  Statement (st_id: node_id) (st_kind: "'e statement_kind") (st_span: span)

datatype (plugins only: code) 'e block =
  Block (bl_id: node_id) (bl_is_const: bool) (bl_label: "ident option") (bl_stmts: "'e statement list") (bl_span: span)

datatype (plugins only: code) 'e if_body = IfBody_Block "'e block" | IfBody_Expr 'e

datatype (plugins only: code) 'e if_node =
  If_Node (if_id: node_id) (if_cond: 'e) (if_then: "'e if_body") (if_else: "'e else_block option") (if_span: span)
and 'e else_block = ElseBlock_If "'e if_node" | ElseBlock_Body "'e if_body"

datatype (plugins only: code) 'e while_node = While_Node node_id bool 'e "'e block" span
datatype (plugins only: code) 'e for_node = For_Node node_id bool 'e 'e "'e block" span

datatype (plugins only: code) 'e switch_body = SwitchBody_Block "'e block" | SwitchBody_Expr 'e
datatype (plugins only: code) 'e switch_case = SwitchCase node_id "'e list" "ident option" "'e switch_body" span
datatype (plugins only: code) 'e switch_node =
  Switch_Node node_id "ident option" 'e "'e switch_case list" "'e option" "'e switch_body option" span

section \<open>Declarations and types\<close>

datatype (plugins only: code) 'e fn_param = FnParam node_id bool ident 'e

datatype (plugins only: code) 'e fn_node =
  Fn_Node (fn_ident: ident) (fn_ext: extern) (fn_inline: inline) (fn_comptime: bool) (fn_callconv: "'e option")
    (fn_variadic: bool) (fn_params: "'e fn_param list") (fn_ret_ty: 'e) (fn_block: "'e block option")

datatype (plugins only: code) 'e associated_item_kind =
  Item_Fn "'e fn_node" | Item_Const "'e var_binding" | Item_Var "'e var_binding"

datatype (plugins only: code) 'e associated_item =
  AssociatedItem (ai_id: node_id) (ai_kind: "'e associated_item_kind") (ai_is_pub: bool) (ai_span: span)

datatype (plugins only: code) 'e field_def = FieldDef node_id ident bool 'e "'e option" span

datatype (plugins only: code) 'e struct_ty =
  StructTy (sty_fields: "'e field_def list") (sty_items: "'e associated_item list") (sty_packed: bool) (sty_linear: bool) (sty_span: span)

datatype (plugins only: code) 'e union_tag_kind = Tag_Bare | Tag_AutoEnum | Tag_Enum 'e
datatype (plugins only: code) 'e union_field_def = UnionFieldDef node_id ident "'e option" span
datatype (plugins only: code) 'e union_ty = UnionTy "'e union_tag_kind" "'e union_field_def list" "'e associated_item list" bool span

datatype (plugins only: code) 'e enum_variant_def = EnumVariantDef node_id ident "'e option" span
datatype (plugins only: code) 'e enum_ty = EnumTy "'e option" "'e enum_variant_def list" "'e associated_item list" bool span

datatype (plugins only: code) 'e ptr_modifiers = PtrModifiers (pm_const: bool) (pm_volatile: bool) (pm_addrspace: "'e option")
datatype (plugins only: code) 'e fn_sig = FnSig "'e list" bool 'e

datatype (plugins only: code) 'e type_node =
    T_Array 'e bool "'e option" "'e option"
  | T_Ptr 'e "'e ptr_modifiers"
  | T_ManyPtr 'e "'e option" "'e ptr_modifiers"
  | T_Slice 'e "'e option" "'e ptr_modifiers"
  | T_Fn "'e fn_sig"
  | T_Nullable 'e
  | T_Struct "'e struct_ty" | T_Union "'e union_ty" | T_Enum "'e enum_ty"
  | T_Bool | T_Int int_suffix | T_Float float_suffix
  | T_Void | T_Type | T_Anyptr | T_Anyint | T_Anyfloat | T_Never

section \<open>Expressions\<close>

datatype (plugins only: code) 'e index_kind = Index_At 'e | Index_Range "'e option" "'e option" | Index_RangeInclusive "'e option" 'e
datatype (plugins only: code) 'e index_node = Index_Node 'e "'e index_kind"
datatype (plugins only: code) 'e arg = Arg_Named ident 'e | Arg_Positional 'e
datatype (plugins only: code) 'e fn_call = FnCall 'e "'e arg list"
datatype (plugins only: code) 'e field_init = FieldInit ident 'e
datatype (plugins only: code) 'e struct_init = StructInit "'e option" "'e field_init list"
datatype (plugins only: code) 'e array_init = ArrayInit "'e option" "'e list"
datatype (plugins only: code) 'e field_access = FieldAccess 'e ident span

datatype (plugins only: code) 'e expr_kind =
    E_Bin infix_op_kind 'e 'e
  | E_Neg 'e | E_Pos 'e | E_Not 'e | E_BitNot 'e
  | E_Group 'e | E_Block "'e block" | E_If "'e if_node" | E_Loop "'e block" | E_While "'e while_node"
  | E_For "'e for_node" | E_Switch "'e switch_node"
  | E_Lit lit | E_Type "'e type_node" | E_Ident ident | E_FieldAccess "'e field_access"
  | E_Deref 'e | E_UnwrapNullable 'e | E_Index "'e index_node" | E_AddressOf 'e | E_Try 'e
  | E_Undefined | E_FnCall "'e fn_call" | E_StructInit "'e struct_init" | E_ArrayInit "'e array_init"
  | E_Discard

datatype (plugins only: code) expr =
  Expr (expr_id: node_id) (expr_kind: "expr expr_kind") (expr_span: span)

datatype (plugins only: code) module_kind = Module_StructDecl "expr struct_ty" | Module_None

primrec if_body_span :: "expr if_body \<Rightarrow> span" where
  "if_body_span (IfBody_Block b) = bl_span b"
| "if_body_span (IfBody_Expr e) = expr_span e"

definition ident_is_user :: "ident \<Rightarrow> bool" where "ident_is_user i = is_user (id_kind i)"
definition ident_is_generic :: "ident \<Rightarrow> bool" where "ident_is_generic i = is_generic (id_kind i)"
definition ident_is_builtin :: "ident \<Rightarrow> bool" where "ident_is_builtin i = is_builtin (id_kind i)"

end
