(* ===== verification/Vif_Parser.thy ===== *)
theory Vif_Parser
  imports Vif_Ast Vif_Diagnostic
begin

text \<open>
  The token cursor of the parser, \<^verbatim>\<open>src/frontend/parser.rs\<close>: the record \<open>parser\<close> is \<^verbatim>\<open>struct Parser\<close> without
  its arenas, and \<open>'a parse\<close> is a method that returns \<^verbatim>\<open>Result<T, Diagnostic>\<close> after changing \<^verbatim>\<open>self\<close>. Reads
  through \<^verbatim>\<open>get_unchecked\<close> out of range, failed \<^verbatim>\<open>assume!\<close>s, offsets below zero and an exhausted supply of node
  ids are faults. Loops and recursive calls run on fuel; \<open>NoFuel\<close> means that the fuel did not suffice.
\<close>

section \<open>State and results\<close>

datatype parse_fault = OutOfTokens | NoPrevious | OffsetUnderflow | IdOverflow | UnreachableToken | UnwrapNone

record parser =
  p_errors :: "diagnostic list"
  p_next_id :: nat
  p_tokens :: "token list"
  p_offset :: nat
  p_module :: module_id

datatype 'a parse_result = NoFuel | Fault parse_fault | Ok 'a parser | Err diagnostic parser

type_synonym 'a parse = "parser \<Rightarrow> 'a parse_result"

text \<open>The crate \<^verbatim>\<open>sorted_insert\<close> at the two types the parser uses it at.\<close>

record parser_env =
  label_insert :: sorted_insert
  diag_insert :: "diagnostic list \<Rightarrow> diagnostic \<Rightarrow> (diagnostic \<Rightarrow> diagnostic \<Rightarrow> bool) \<Rightarrow> diagnostic list"

definition p_ret :: "'a \<Rightarrow> 'a parse" where
  "p_ret x s = Ok x s"

text \<open>Sequencing: an error, a fault or the end of the fuel skips the rest, as \<^verbatim>\<open>?\<close> does.\<close>

definition p_bind :: "'a parse \<Rightarrow> ('a \<Rightarrow> 'b parse) \<Rightarrow> 'b parse" where
  "p_bind m f s =
     (case m s of NoFuel \<Rightarrow> NoFuel | Fault e \<Rightarrow> Fault e | Err d s' \<Rightarrow> Err d s' | Ok x s' \<Rightarrow> f x s')"

definition p_seq :: "'a parse \<Rightarrow> 'b parse \<Rightarrow> 'b parse" where
  "p_seq m n = p_bind m (\<lambda>_. n)"

definition p_map :: "('a \<Rightarrow> 'b) \<Rightarrow> 'a parse \<Rightarrow> 'b parse" where
  "p_map f m = p_bind m (\<lambda>x. p_ret (f x))"

text \<open>\<^verbatim>\<open>match m { Ok(x) => .., Err(err) => .. }\<close>\<close>

definition p_match :: "'a parse \<Rightarrow> ('a \<Rightarrow> 'b parse) \<Rightarrow> (diagnostic \<Rightarrow> 'b parse) \<Rightarrow> 'b parse" where
  "p_match m ok err s =
     (case m s of NoFuel \<Rightarrow> NoFuel | Fault e \<Rightarrow> Fault e | Ok x s' \<Rightarrow> ok x s' | Err d s' \<Rightarrow> err d s')"

text \<open>\<^verbatim>\<open>return Err(..)\<close> and a push to the errors, of a diagnostic that is built with the parser's module.\<close>

definition p_err :: "(module_id \<Rightarrow> diagnostic) \<Rightarrow> 'a parse" where
  "p_err f s = Err (f (p_module s)) s"

definition p_no_fuel :: "'a parse" where
  "p_no_fuel s = NoFuel"

definition p_fault :: "parse_fault \<Rightarrow> 'a parse" where
  "p_fault e s = Fault e"

section \<open>Diagnostics\<close>

definition p_diag :: "parser_env \<Rightarrow> string \<Rightarrow> span \<Rightarrow> module_id \<Rightarrow> diagnostic" where
  "p_diag E msg sp m =
     with_label (label_insert E) (with_message diag_error msg) (label_with_span label_primary \<lparr>ds_module = m, ds_span = sp\<rparr>)"

definition diag_first_label_le :: "diagnostic \<Rightarrow> diagnostic \<Rightarrow> bool" where
  "diag_first_label_le a b =
     (case (diag_labels a, diag_labels b) of
        (la # _, lb # _) \<Rightarrow> opt_span_le (label_span la) (label_span lb)
      | ([], _ # _) \<Rightarrow> False
      | _ \<Rightarrow> True)"

definition p_push_error :: "parser_env \<Rightarrow> diagnostic \<Rightarrow> unit parse" where
  "p_push_error E d s = Ok () (s\<lparr>p_errors := diag_insert E (p_errors s) d diag_first_label_le\<rparr>)"

definition p_report :: "parser_env \<Rightarrow> (module_id \<Rightarrow> diagnostic) \<Rightarrow> unit parse" where
  "p_report E f s = p_push_error E (f (p_module s)) s"

definition diag_unknown_directive :: "parser_env \<Rightarrow> token \<Rightarrow> module_id \<Rightarrow> diagnostic option" where
  "diag_unknown_directive E t m =
     (case tok_kind t of
        DirectiveIdent symbol \<Rightarrow>
          Some (with_note (p_diag E (''unknown directive `#'' @ symbol @ ''`'') (tok_span t) m)
            ''known directives are `#inline`, `#noinline`, `#callconv`, `#linear`, `#packed`, `#volatile`, and `#addrspace`'')
      | _ \<Rightarrow> None)"

definition quoted :: "string \<Rightarrow> string" where
  "quoted s = [CHR 0x27] @ s @ [CHR 0x27]"

definition diag_unexpected_token :: "parser_env \<Rightarrow> token \<Rightarrow> module_id \<Rightarrow> diagnostic" where
  "diag_unexpected_token E t m =
     (case diag_unknown_directive E t m of
        Some d \<Rightarrow> d
      | None \<Rightarrow> p_diag E (''unexpected token '' @ kind_display (tok_kind t)) (tok_span t) m)"

definition diag_expected_token :: "parser_env \<Rightarrow> token_tag \<Rightarrow> token \<Rightarrow> module_id \<Rightarrow> diagnostic" where
  "diag_expected_token E expected found m =
     (case diag_unknown_directive E found m of
        Some d \<Rightarrow> d
      | None \<Rightarrow> p_diag E (''expected '' @ quoted (tag_display expected) @ '' found '' @ quoted (kind_display (tok_kind found)))
                  (tok_span found) m)"

text \<open>The list of alternatives: \<^verbatim>\<open>'a'\<close>, \<^verbatim>\<open>'a' or 'b'\<close>, \<^verbatim>\<open>'a', 'b' or 'c'\<close>; an empty one panics.\<close>

fun one_of_display :: "token_tag list \<Rightarrow> string option" where
  "one_of_display [] = None"
| "one_of_display [a] = Some (quoted (tag_display a))"
| "one_of_display (a # b # ts) =
     Some (quoted (tag_display a) @ concat (map (\<lambda>t. '', '' @ quoted (tag_display t)) (butlast (b # ts)))
       @ '' or '' @ quoted (tag_display (last (b # ts))))"

definition diag_expected_one_of_token :: "parser_env \<Rightarrow> token_tag list \<Rightarrow> token \<Rightarrow> 'a parse" where
  "diag_expected_one_of_token E expected found s =
     (case diag_unknown_directive E found (p_module s) of
        Some d \<Rightarrow> Err d s
      | None \<Rightarrow>
          (case one_of_display expected of
             None \<Rightarrow> Fault UnwrapNone
           | Some e \<Rightarrow> Err (p_diag E (''expected '' @ e @ '' found '' @ quoted (kind_display (tok_kind found))) (tok_span found) (p_module s)) s))"

definition diag_redundant_qualifier :: "parser_env \<Rightarrow> string \<Rightarrow> span \<Rightarrow> module_id \<Rightarrow> diagnostic" where
  "diag_redundant_qualifier E qualifier sp m = p_diag E (''redundant qualifier '' @ quoted qualifier) sp m"

definition diag_expected_type_expr :: "parser_env \<Rightarrow> token \<Rightarrow> token \<Rightarrow> module_id \<Rightarrow> diagnostic" where
  "diag_expected_type_expr E prev t m =
     (case diag_unknown_directive E t m of
        Some d \<Rightarrow> d
      | None \<Rightarrow>
          with_label (label_insert E)
            (with_label (label_insert E) (with_message diag_error ''expected type expression'')
               (label_with_span label_secondary \<lparr>ds_module = m, ds_span = tok_span prev\<rparr>))
            (label_with_span label_primary \<lparr>ds_module = m, ds_span = tok_span t\<rparr>))"

definition diag_expected_expression :: "parser_env \<Rightarrow> token \<Rightarrow> module_id \<Rightarrow> diagnostic" where
  "diag_expected_expression E t m =
     (case diag_unknown_directive E t m of
        Some d \<Rightarrow> d
      | None \<Rightarrow> p_diag E ''expected expression'' (tok_span t) m)"

definition diag_expected_user_ident :: "parser_env \<Rightarrow> ident \<Rightarrow> module_id \<Rightarrow> diagnostic" where
  "diag_expected_user_ident E i m =
     p_diag E (''expected user identifier, found '' @ quoted (id_symbol i)) (id_span i) m"

text \<open>The last argument of the two is the label and note that \<^verbatim>\<open>parse_suffix_ty_op\<close> adds after a misplaced token.\<close>

definition diag_misplaced :: "parser_env \<Rightarrow> token \<Rightarrow> token \<Rightarrow> string \<Rightarrow> module_id \<Rightarrow> diagnostic" where
  "diag_misplaced E prev t note m =
     with_note
       (with_label (label_insert E) (diag_unexpected_token E t m)
          (label_with_span label_secondary \<lparr>ds_module = m, ds_span = span_join (tok_span prev) (tok_span t)\<rparr>)) note"

section \<open>Reading tokens\<close>

definition next_id :: "node_id parse" where
  "next_id s =
     (if p_next_id s < 2 ^ 32 - 1 then Ok (p_next_id s) (s\<lparr>p_next_id := p_next_id s + 1\<rparr>) else Fault IdOverflow)"

definition p_peek :: "token parse" where
  "p_peek s = (if p_offset s < length (p_tokens s) then Ok (p_tokens s ! p_offset s) s else Fault OutOfTokens)"

definition p_bump :: "token parse" where
  "p_bump s =
     (if p_offset s < length (p_tokens s)
      then let t = p_tokens s ! p_offset s
           in Ok t (if \<not> is_eof_token t then s\<lparr>p_offset := p_offset s + 1\<rparr> else s)
      else Fault OutOfTokens)"

definition p_prev :: "token parse" where
  "p_prev s =
     (if 0 < p_offset s
      then if p_offset s - 1 < length (p_tokens s) then Ok (p_tokens s ! (p_offset s - 1)) s else Fault OutOfTokens
      else Fault NoPrevious)"

definition p_prev_nth :: "nat \<Rightarrow> token parse" where
  "p_prev_nth k s =
     (let idx = (if p_offset s > k then p_offset s - k - 1 else 0)
      in if idx < length (p_tokens s) then Ok (p_tokens s ! idx) s else Fault OutOfTokens)"

definition p_peek_nth :: "nat \<Rightarrow> token parse" where
  "p_peek_nth k s =
     (let n = length (p_tokens s)
      in if p_offset s + k < n then Ok (p_tokens s ! (p_offset s + k)) s
         else if n = 0 then Fault OffsetUnderflow else Ok (p_tokens s ! (n - 1)) s)"

text \<open>\<^verbatim>\<open>self.offset += 1\<close>, \<^verbatim>\<open>self.offset -= 1\<close> and the reads and writes of the offset.\<close>

definition p_advance :: "unit parse" where
  "p_advance s = Ok () (s\<lparr>p_offset := p_offset s + 1\<rparr>)"

definition p_retreat :: "unit parse" where
  "p_retreat s = (if p_offset s = 0 then Fault OffsetUnderflow else Ok () (s\<lparr>p_offset := p_offset s - 1\<rparr>))"

definition p_get_offset :: "nat parse" where
  "p_get_offset s = Ok (p_offset s) s"

definition p_set_offset :: "nat \<Rightarrow> unit parse" where
  "p_set_offset n s = Ok () (s\<lparr>p_offset := n\<rparr>)"

definition p_peek_expect :: "parser_env \<Rightarrow> token_tag \<Rightarrow> token_kind parse" where
  "p_peek_expect E t =
     p_bind p_peek (\<lambda>token.
       if tag (tok_kind token) \<noteq> t then p_err (diag_expected_token E t token) else p_ret (tok_kind token))"

definition p_eat_expect :: "parser_env \<Rightarrow> token_tag \<Rightarrow> token_kind parse" where
  "p_eat_expect E t =
     p_bind p_bump (\<lambda>token.
       if tag (tok_kind token) \<noteq> t then p_err (diag_expected_token E t token) else p_ret (tok_kind token))"

definition p_eat_if :: "token_tag \<Rightarrow> token option parse" where
  "p_eat_if t = p_bind p_peek (\<lambda>token. if tag (tok_kind token) = t then p_map Some p_bump else p_ret None)"

text \<open>\<^verbatim>\<open>self.eat_if(t).is_some()\<close>, and a part that is read only behind a token \<^verbatim>\<open>t\<close>.\<close>

definition p_eaten :: "token_tag \<Rightarrow> bool parse" where
  "p_eaten t = p_map (\<lambda>x. x \<noteq> None) (p_eat_if t)"

definition p_behind :: "token_tag \<Rightarrow> 'a parse \<Rightarrow> 'a option parse" where
  "p_behind t m = p_bind (p_eaten t) (\<lambda>b. if b then p_map Some m else p_ret None)"

text \<open>The three loops \<^verbatim>\<open>eat_until\<close>, \<^verbatim>\<open>eat_until2\<close> and \<^verbatim>\<open>eat_until3\<close>.\<close>

function p_eat_until_any :: "token_tag list \<Rightarrow> token_kind parse" where
  "p_eat_until_any ts s =
     (if p_offset s < length (p_tokens s)
      then let t = p_tokens s ! p_offset s
           in if tag (tok_kind t) \<in> set ts \<or> is_eof_token t then Ok (tok_kind t) s
              else p_eat_until_any ts (s\<lparr>p_offset := p_offset s + 1\<rparr>)
      else Fault OutOfTokens)"
  by pat_completeness auto
termination
  by (relation "measure (\<lambda>(_, s). length (p_tokens s) - p_offset s)") auto

declare p_eat_until_any.simps [simp del]

definition p_eat_until :: "token_tag \<Rightarrow> token_kind parse" where
  "p_eat_until t = p_eat_until_any [t]"

definition p_eat_until2 :: "token_tag \<Rightarrow> token_tag \<Rightarrow> token_kind parse" where
  "p_eat_until2 t1 t2 = p_eat_until_any [t1, t2]"

definition p_eat_until3 :: "token_tag \<Rightarrow> token_tag \<Rightarrow> token_tag \<Rightarrow> token_kind parse" where
  "p_eat_until3 t1 t2 t3 = p_eat_until_any [t1, t2, t3]"

section \<open>Groups and lists\<close>

text \<open>\<^verbatim>\<open>match self.eat_expect(t) { Ok(_) => {}, Err(err) => self.push_error(err) }\<close>\<close>

definition p_want :: "parser_env \<Rightarrow> token_tag \<Rightarrow> unit parse" where
  "p_want E t = p_match (p_eat_expect E t) (\<lambda>_. p_ret ()) (p_push_error E)"

fun eat_group_loop :: "nat \<Rightarrow> parser_env \<Rightarrow> token_tag \<Rightarrow> 'a parse \<Rightarrow> 'a list \<Rightarrow> 'a list parse" where
  "eat_group_loop 0 E closing producer items = p_no_fuel"
| "eat_group_loop (Suc n) E closing producer items =
     p_bind p_peek (\<lambda>t.
       if tag (tok_kind t) = closing \<or> is_eof_token t then p_ret items
       else p_bind p_get_offset (\<lambda>start.
              p_match producer
                (\<lambda>item. eat_group_loop n E closing producer (items @ [item]))
                (\<lambda>err. p_seq (p_push_error E err)
                   (p_bind p_get_offset (\<lambda>now.
                      p_seq (if now = start then p_advance else p_ret ())
                        (eat_group_loop n E closing producer items))))))"

definition eat_group :: "nat \<Rightarrow> parser_env \<Rightarrow> token_tag \<Rightarrow> token_tag \<Rightarrow> 'a parse \<Rightarrow> 'a list parse" where
  "eat_group n E opening closing producer =
     p_seq (p_want E opening)
       (p_bind (p_eaten closing) (\<lambda>closed.
          if closed then p_ret []
          else p_bind (eat_group_loop n E closing producer []) (\<lambda>items.
                 p_seq (p_eat_expect E closing) (p_ret items))))"

fun eat_delimited_group_loop :: "nat \<Rightarrow> parser_env \<Rightarrow> token_tag \<Rightarrow> token_tag \<Rightarrow> 'a parse \<Rightarrow> 'a list \<Rightarrow> 'a list parse" where
  "eat_delimited_group_loop 0 E closing delim producer items = p_no_fuel"
| "eat_delimited_group_loop (Suc n) E closing delim producer items =
     p_bind p_peek (\<lambda>t.
       if tag (tok_kind t) = closing \<or> is_eof_token t then p_ret items
       else p_bind p_get_offset (\<lambda>start.
              p_bind
                (p_match producer
                   (\<lambda>item. p_ret (items @ [item]))
                   (\<lambda>err. p_seq (p_push_error E err)
                      (p_bind p_get_offset (\<lambda>now.
                         if now = start
                         then p_seq p_advance
                                (p_bind (p_eat_until2 delim closing) (\<lambda>k.
                                   p_seq (if tag k = delim then p_advance else p_ret ()) (p_ret items)))
                         else p_ret items))))
                (\<lambda>items'.
                   p_bind (p_eaten delim) (\<lambda>more.
                     if more then eat_delimited_group_loop n E closing delim producer items' else p_ret items'))))"

definition eat_delimited_group :: "nat \<Rightarrow> parser_env \<Rightarrow> token_tag \<Rightarrow> token_tag \<Rightarrow> token_tag \<Rightarrow> 'a parse \<Rightarrow> 'a list parse" where
  "eat_delimited_group n E opening closing delim producer =
     p_seq (p_want E opening)
       (p_bind (p_eaten closing) (\<lambda>closed.
          if closed then p_ret []
          else p_bind (eat_delimited_group_loop n E closing delim producer []) (\<lambda>items.
                 p_seq (p_eat_expect E closing) (p_ret items))))"

fun eat_delimited_loop :: "nat \<Rightarrow> token_tag \<Rightarrow> (token \<Rightarrow> bool) \<Rightarrow> 'a parse \<Rightarrow> 'a list \<Rightarrow> 'a list parse" where
  "eat_delimited_loop 0 delim predicate producer items = p_no_fuel"
| "eat_delimited_loop (Suc n) delim predicate producer items =
     p_bind p_peek (\<lambda>t.
       if \<not> predicate t \<or> is_eof_token t then p_ret items
       else p_bind producer (\<lambda>item.
              p_bind (p_eaten delim) (\<lambda>more.
                if more then eat_delimited_loop n delim predicate producer (items @ [item]) else p_ret (items @ [item]))))"

definition eat_delimited :: "nat \<Rightarrow> token_tag \<Rightarrow> (token \<Rightarrow> bool) \<Rightarrow> 'a parse \<Rightarrow> ('a list \<times> bool) parse" where
  "eat_delimited n delim predicate producer =
     p_bind (eat_delimited_loop n delim predicate producer []) (\<lambda>items.
       p_bind (p_eaten delim) (\<lambda>trailing. p_ret (items, trailing)))"

end
