(* ===== verification/Vif_Grammar.thy ===== *)
theory Vif_Grammar
  imports Vif_Parser
begin

text \<open>
  The grammar of the parser, \<^verbatim>\<open>src/frontend/parser.rs\<close>: one definition per method. The methods call each
  other in a cycle; every cycle passes through \<^verbatim>\<open>parse_ty_expr\<close> or \<^verbatim>\<open>parse_expr_precedence\<close>, so the
  definitions take these two as arguments, in the record \<open>calls\<close>, and \<open>calls_at\<close> ties the knot to a given
  depth. Loops run on the same fuel.
\<close>

record calls =
  fuel :: nat
  ty_call :: "expr option parse"
  expr_call :: "nat \<Rightarrow> bool \<Rightarrow> expr option parse"

datatype ctx = Ctx_Ty | Ctx_Value

section \<open>Leaves\<close>

definition maybe_assign_op :: "assign_op option parse" where
  "maybe_assign_op =
     p_bind p_bump (\<lambda>t.
       case tok_kind t of
         Op1 Eq \<Rightarrow> p_ret (Some A_Assign)
       | Op2 PlusEq \<Rightarrow> p_ret (Some A_Add)
       | Op3 PlusPipeEq \<Rightarrow> p_ret (Some A_AddSat)
       | Op2 MinusEq \<Rightarrow> p_ret (Some A_Sub)
       | Op3 MinusPipeEq \<Rightarrow> p_ret (Some A_SubSat)
       | Op2 StarEq \<Rightarrow> p_ret (Some A_Mul)
       | Op3 StarPipeEq \<Rightarrow> p_ret (Some A_MulSat)
       | Op2 SlashEq \<Rightarrow> p_ret (Some A_Div)
       | Op3 LtLtEq \<Rightarrow> p_ret (Some A_Shl)
       | Op4 LtLtPipeEq \<Rightarrow> p_ret (Some A_ShlSat)
       | Op4 LtLtPercentEq \<Rightarrow> p_ret (Some A_ShlWrap)
       | Op3 GtGtEq \<Rightarrow> p_ret (Some A_Shr)
       | Op4 GtGtPipeEq \<Rightarrow> p_ret (Some A_ShrSat)
       | Op4 GtGtPercentEq \<Rightarrow> p_ret (Some A_ShrWrap)
       | Op2 PercentEq \<Rightarrow> p_ret (Some A_Rem)
       | Op2 AmpEq \<Rightarrow> p_ret (Some A_BitAnd)
       | Op2 PipeEq \<Rightarrow> p_ret (Some A_BitOr)
       | Op2 CaretEq \<Rightarrow> p_ret (Some A_BitXor)
       | Op3 AmpAmpEq \<Rightarrow> p_ret (Some A_BoolAnd)
       | Op3 PipePipeEq \<Rightarrow> p_ret (Some A_BoolOr)
       | _ \<Rightarrow> p_seq p_retreat (p_ret None))"

definition maybe_parse_int_suffix :: "int_suffix option parse" where
  "maybe_parse_int_suffix =
     p_bind p_bump (\<lambda>t.
       case tok_kind t of
         Ty TyUsize \<Rightarrow> p_ret (Some Suf_Usize)
       | Ty TyIsize \<Rightarrow> p_ret (Some Suf_Isize)
       | TyU bits \<Rightarrow> p_ret (Some (Suf_U bits))
       | TyI bits \<Rightarrow> p_ret (Some (Suf_I bits))
       | _ \<Rightarrow> p_seq p_retreat (p_ret None))"

definition maybe_parse_float_suffix :: "float_suffix option parse" where
  "maybe_parse_float_suffix =
     p_bind p_bump (\<lambda>t.
       case tok_kind t of
         Ty TyF16 \<Rightarrow> p_ret (Some Suf_F16)
       | Ty TyF32 \<Rightarrow> p_ret (Some Suf_F32)
       | Ty TyF64 \<Rightarrow> p_ret (Some Suf_F64)
       | Ty TyF128 \<Rightarrow> p_ret (Some Suf_F128)
       | _ \<Rightarrow> p_seq p_retreat (p_ret None))"

definition parse_ident :: "parser_env \<Rightarrow> ident parse" where
  "parse_ident E =
     p_bind (p_eat_expect E Tag_Ident) (\<lambda>k.
       case k of
         Ident symbol ik \<Rightarrow>
           p_bind p_prev (\<lambda>prev. p_ret \<lparr>id_symbol = symbol, id_kind = ik, id_span = tok_span prev\<rparr>)
       | _ \<Rightarrow> p_fault UnreachableToken)"

definition parse_user_ident :: "parser_env \<Rightarrow> ident parse" where
  "parse_user_ident E =
     p_bind (parse_ident E) (\<lambda>ident.
       if \<not> ident_is_user ident then p_err (diag_expected_user_ident E ident) else p_ret ident)"

text \<open>The identifier that stands in for one that is missing.\<close>

definition missing_ident :: "parser_env \<Rightarrow> token_tag \<Rightarrow> token_tag \<Rightarrow> diagnostic \<Rightarrow> ident parse" where
  "missing_ident E t1 t2 err =
     p_seq (p_eat_until2 t1 t2)
       (p_seq (p_push_error E err)
          (p_bind p_prev (\<lambda>prev. p_ret \<lparr>id_symbol = '''', id_kind = User, id_span = tok_span prev\<rparr>)))"

definition field_ident :: "parser_env \<Rightarrow> ident parse" where
  "field_ident E = p_match (parse_ident E) p_ret (missing_ident E (Tag_Op1 Colon) (Tag_Op1 Comma))"

text \<open>\<^verbatim>\<open>core::str::from_utf8\<close>: the well-formed UTF-8 sequences.\<close>

definition cont_byte :: "nat \<Rightarrow> bool" where "cont_byte b \<longleftrightarrow> 128 \<le> b \<and> b < 192"

fun utf8_ok :: "nat list \<Rightarrow> bool" where
  "utf8_ok [] = True"
| "utf8_ok (a # bs) =
     (if a < 128 then utf8_ok bs
      else if 194 \<le> a \<and> a < 224 then (case bs of b # r \<Rightarrow> cont_byte b \<and> utf8_ok r | _ \<Rightarrow> False)
      else if 224 \<le> a \<and> a < 240
      then (case bs of
              b # c # r \<Rightarrow>
                cont_byte b \<and> cont_byte c \<and> (a = 224 \<longrightarrow> 160 \<le> b) \<and> (a = 237 \<longrightarrow> b < 160) \<and> utf8_ok r
            | _ \<Rightarrow> False)
      else if 240 \<le> a \<and> a < 245
      then (case bs of
              b # c # d # r \<Rightarrow>
                cont_byte b \<and> cont_byte c \<and> cont_byte d \<and> (a = 240 \<longrightarrow> 144 \<le> b) \<and> (a = 244 \<longrightarrow> b < 144) \<and> utf8_ok r
            | _ \<Rightarrow> False)
      else False)"

definition from_utf8_or_empty :: "byte list \<Rightarrow> string" where
  "from_utf8_or_empty bs = (if utf8_ok (map of_char bs) then bs else '''')"

fun decl_modifiers_loop :: "nat \<Rightarrow> parser_env \<Rightarrow> extern \<Rightarrow> inline \<Rightarrow> (extern \<times> inline) parse" where
  "decl_modifiers_loop 0 E ext inl = p_no_fuel"
| "decl_modifiers_loop (Suc n) E ext inl =
     p_bind p_peek (\<lambda>t.
       case tok_kind t of
         Kw KwExtern \<Rightarrow>
           p_seq (if ext \<noteq> Extern_None then p_report E (p_diag E ''duplicate `extern` modifier'' (tok_span t)) else p_ret ())
             (p_seq p_bump
                (p_bind (p_match (p_peek_expect E Tag_LitStr) (\<lambda>k. p_ret (Some k)) (\<lambda>_. p_ret None)) (\<lambda>r.
                   case r of
                     Some (LitStr symbol) \<Rightarrow>
                       p_seq p_bump (decl_modifiers_loop n E (Extern_Explicit (from_utf8_or_empty symbol)) inl)
                   | _ \<Rightarrow> decl_modifiers_loop n E Extern_Implicit inl)))
       | Dir DirInline \<Rightarrow>
           p_seq (if inl \<noteq> Inline_None then p_report E (p_diag E ''duplicate inline modifier'' (tok_span t)) else p_ret ())
             (p_seq p_bump (decl_modifiers_loop n E ext Inline_Always))
       | Dir DirNoinline \<Rightarrow>
           p_seq (if inl \<noteq> Inline_None then p_report E (p_diag E ''duplicate inline modifier'' (tok_span t)) else p_ret ())
             (p_seq p_bump (decl_modifiers_loop n E ext Inline_Never))
       | _ \<Rightarrow> p_ret (ext, inl))"

definition parse_decl_modifiers :: "nat \<Rightarrow> parser_env \<Rightarrow> (extern \<times> inline) parse" where
  "parse_decl_modifiers n E = decl_modifiers_loop n E Extern_None Inline_None"

section \<open>Entry to expressions\<close>

definition expect_ty_expr :: "parser_env \<Rightarrow> calls \<Rightarrow> expr parse" where
  "expect_ty_expr E R =
     p_bind (ty_call R) (\<lambda>r.
       case r of
         Some e \<Rightarrow> p_ret e
       | None \<Rightarrow> p_bind p_prev (\<lambda>prev. p_bind p_peek (\<lambda>t. p_err (diag_expected_type_expr E prev t))))"

definition expect_some :: "parser_env \<Rightarrow> expr option parse \<Rightarrow> expr parse" where
  "expect_some E m =
     p_bind m (\<lambda>r. case r of Some e \<Rightarrow> p_ret e | None \<Rightarrow> p_bind p_peek (\<lambda>t. p_err (diag_expected_expression E t)))"

definition parse_expr :: "calls \<Rightarrow> expr option parse" where
  "parse_expr R = expr_call R 0 True"

definition expect_expr :: "parser_env \<Rightarrow> calls \<Rightarrow> expr parse" where
  "expect_expr E R = expect_some E (parse_expr R)"

definition expect_expr_no_init :: "parser_env \<Rightarrow> calls \<Rightarrow> expr parse" where
  "expect_expr_no_init E R = expect_some E (expr_call R 0 False)"

definition expect_expr_ctx :: "parser_env \<Rightarrow> calls \<Rightarrow> ctx \<Rightarrow> expr parse" where
  "expect_expr_ctx E R c = (case c of Ctx_Ty \<Rightarrow> expect_ty_expr E R | Ctx_Value \<Rightarrow> expect_expr E R)"

definition expect_expr_ctx_no_init :: "parser_env \<Rightarrow> calls \<Rightarrow> ctx \<Rightarrow> expr parse" where
  "expect_expr_ctx_no_init E R c = (case c of Ctx_Ty \<Rightarrow> expect_ty_expr E R | Ctx_Value \<Rightarrow> expect_expr_no_init E R)"

definition eat_delimited_ctx :: "parser_env \<Rightarrow> calls \<Rightarrow> token_tag \<Rightarrow> (token \<Rightarrow> bool) \<Rightarrow> ctx \<Rightarrow> (expr list \<times> bool) parse" where
  "eat_delimited_ctx E R delim predicate c =
     (case c of
        Ctx_Ty \<Rightarrow> eat_delimited (fuel R) delim predicate (expect_ty_expr E R)
      | Ctx_Value \<Rightarrow> eat_delimited (fuel R) delim predicate (expect_expr E R))"

text \<open>
  Building a node: the span from a start to the previous token. In some methods the span is computed before
  the id is taken (\<open>close_expr\<close>), in others after (\<open>make_expr\<close>).
\<close>

definition close_expr :: "span \<Rightarrow> expr expr_kind \<Rightarrow> expr parse" where
  "close_expr start k =
     p_bind p_prev (\<lambda>prev. p_bind next_id (\<lambda>i. p_ret (Expr i k (span_join start (tok_span prev)))))"

definition p_node :: "span \<Rightarrow> (node_id \<Rightarrow> span \<Rightarrow> 'a) \<Rightarrow> 'a parse" where
  "p_node start f =
     p_bind next_id (\<lambda>i. p_bind p_prev (\<lambda>prev. p_ret (f i (span_join start (tok_span prev)))))"

definition make_expr :: "span \<Rightarrow> expr expr_kind \<Rightarrow> expr parse" where
  "make_expr start k = p_node start (\<lambda>i sp. Expr i k sp)"

section \<open>Bindings, blocks and statements\<close>

definition parse_var_binding :: "parser_env \<Rightarrow> calls \<Rightarrow> expr var_binding parse" where
  "parse_var_binding E R =
     p_bind next_id (\<lambda>i.
     p_bind (p_match (parse_user_ident E) p_ret (missing_ident E (Tag_Op1 Colon) (Tag_Op1 Eq))) (\<lambda>name.
     p_bind (p_behind (Tag_Op1 Colon)
              (p_match (expect_ty_expr E R) p_ret (\<lambda>err.
                 p_seq (p_eat_until (Tag_Op1 Eq))
                   (p_seq (p_push_error E err)
                      (p_bind next_id (\<lambda>i.
                         p_bind p_prev (\<lambda>prev. p_ret (Expr i (E_Type T_Void) (tok_span prev))))))))) (\<lambda>ty.
     p_seq (p_eat_expect E (Tag_Op1 Eq))
       (p_bind (expect_expr E R) (\<lambda>val. p_ret (VarBinding i name ty val))))))"

definition ends_statement :: "token \<Rightarrow> bool" where
  "ends_statement t \<longleftrightarrow> tok_kind t = Op1 RBrace \<or> tok_kind t = Op1 Comma \<or> tok_kind t = Eof"

definition statement_label :: "parser_env \<Rightarrow> ident option parse" where
  "statement_label E = p_behind (Tag_Op1 Colon) (parse_ident E)"

definition statement_value :: "'a parse \<Rightarrow> 'a option parse" where
  "statement_value m = p_bind p_peek (\<lambda>t. if \<not> ends_statement t then p_map Some m else p_ret None)"

definition statement_kind :: "parser_env \<Rightarrow> calls \<Rightarrow> ctx \<Rightarrow> token_kind \<Rightarrow> expr statement_kind parse" where
  "statement_kind E R c k =
     (case k of
        Kw KwReturn \<Rightarrow> p_seq p_advance (p_map St_Return (statement_value (expect_expr_ctx E R c)))
      | Kw KwDefer \<Rightarrow> p_seq p_advance (p_map St_Defer (expect_expr_ctx E R c))
      | Kw KwErrdefer \<Rightarrow> p_seq p_advance (p_map St_Errdefer (expect_expr_ctx E R c))
      | Kw KwContinue \<Rightarrow>
          p_seq p_advance
            (p_bind (statement_label E) (\<lambda>label.
               p_map (St_Continue label) (statement_value (expect_expr E R))))
      | Kw KwBreak \<Rightarrow>
          p_seq p_advance
            (p_bind (statement_label E) (\<lambda>label.
               p_map (St_Break label) (statement_value (expect_expr E R))))
      | Kw KwVar \<Rightarrow> p_seq p_advance (p_map St_Var (parse_var_binding E R))
      | Kw KwConst \<Rightarrow> p_seq p_advance (p_map St_Const (parse_var_binding E R))
      | Kw KwComptime \<Rightarrow>
          p_seq p_advance
            (p_seq
               (p_bind p_peek (\<lambda>t.
                  if tok_kind t = Kw KwConst \<or> tok_kind t = Kw KwVar then p_advance
                  else diag_expected_one_of_token E [Tag_Kw KwConst, Tag_Kw KwVar] t))
               (p_map St_ComptimeVarBinding (parse_var_binding E R)))
      | _ \<Rightarrow>
          p_bind (expect_expr_ctx E R c) (\<lambda>expr.
            p_bind maybe_assign_op (\<lambda>op.
              case op of
                Some op \<Rightarrow> p_map (St_Assign expr op) (expect_expr_ctx E R c)
              | None \<Rightarrow> p_ret (St_Expr expr))))"

definition parse_statement_impl :: "parser_env \<Rightarrow> calls \<Rightarrow> ctx \<Rightarrow> expr statement parse" where
  "parse_statement_impl E R c =
     p_bind next_id (\<lambda>i.
     p_bind p_peek (\<lambda>t.
     p_bind (statement_kind E R c (tok_kind t)) (\<lambda>k.
     p_bind p_prev (\<lambda>prev. p_ret (Statement i k (span_join (tok_span t) (tok_span prev)))))))"

definition parse_block_impl :: "parser_env \<Rightarrow> calls \<Rightarrow> ident option \<Rightarrow> bool \<Rightarrow> span \<Rightarrow> ctx \<Rightarrow> expr block parse" where
  "parse_block_impl E R label is_const start c =
     p_bind (eat_group (fuel R) E (Tag_Op1 LBrace) (Tag_Op1 RBrace) (parse_statement_impl E R c)) (\<lambda>stmts.
     p_bind p_prev (\<lambda>prev.
     p_bind next_id (\<lambda>i. p_ret (Block i is_const label stmts (span_join start (tok_span prev))))))"

text \<open>A block that starts at the current token.\<close>

definition block_here :: "parser_env \<Rightarrow> calls \<Rightarrow> ident option \<Rightarrow> ctx \<Rightarrow> expr block parse" where
  "block_here E R label c = p_bind p_peek (\<lambda>t. parse_block_impl E R label False (tok_span t) c)"

section \<open>Control flow\<close>

definition parse_if_body :: "parser_env \<Rightarrow> calls \<Rightarrow> ctx \<Rightarrow> expr if_body parse" where
  "parse_if_body E R c =
     p_bind p_peek (\<lambda>t.
       if tok_kind t = Op1 LBrace then p_map IfBody_Block (parse_block_impl E R None False (tok_span t) c)
       else p_map IfBody_Expr (expect_expr_ctx E R c))"

type_synonym if_branch = "node_id \<times> expr option \<times> expr if_body \<times> span"

fun if_branches :: "nat \<Rightarrow> parser_env \<Rightarrow> calls \<Rightarrow> ctx \<Rightarrow> if_branch list \<Rightarrow> if_branch list parse" where
  "if_branches 0 E R c branches = p_no_fuel"
| "if_branches (Suc n) E R c branches =
     p_bind (p_eaten (Tag_Kw KwElse)) (\<lambda>has_else.
       if \<not> has_else then p_ret branches
       else p_bind (p_eaten (Tag_Kw KwIf)) (\<lambda>has_if.
         if has_if
         then p_bind (expect_expr_ctx_no_init E R c) (\<lambda>cond.
                p_bind (parse_if_body E R c) (\<lambda>body.
                p_bind next_id (\<lambda>i.
                  if_branches n E R c (branches @ [(i, Some cond, body, span_join (expr_span cond) (if_body_span body))]))))
         else p_bind (parse_if_body E R c) (\<lambda>body.
                p_bind next_id (\<lambda>i. p_ret (branches @ [(i, None, body, if_body_span body)])))))"

fun else_chain :: "if_branch list \<Rightarrow> expr else_block option" where
  "else_chain [] = None"
| "else_chain ((i, Some cond, body, sp) # rest) = Some (ElseBlock_If (If_Node i cond body (else_chain rest) sp))"
| "else_chain ((i, None, body, sp) # rest) = Some (ElseBlock_Body body)"

definition parse_if_impl :: "parser_env \<Rightarrow> calls \<Rightarrow> ctx \<Rightarrow> expr expr_kind parse" where
  "parse_if_impl E R c =
     p_bind p_peek (\<lambda>t.
     p_seq (p_eat_expect E (Tag_Kw KwIf))
       (p_bind (expect_expr_ctx_no_init E R c) (\<lambda>cond.
        p_bind (parse_if_body E R c) (\<lambda>then_body.
        p_bind (if_branches (fuel R) E R c []) (\<lambda>branches.
          if (case then_body of IfBody_Expr _ \<Rightarrow> True | _ \<Rightarrow> False) \<and> branches = []
          then p_bind p_prev (\<lambda>prev. p_err (diag_expected_token E (Tag_Kw KwElse) prev))
          else p_map E_If (p_node (tok_span t) (\<lambda>i sp. If_Node i cond then_body (else_chain branches) sp)))))))"

definition parse_while_impl :: "parser_env \<Rightarrow> calls \<Rightarrow> ident option \<Rightarrow> bool \<Rightarrow> ctx \<Rightarrow> expr expr_kind parse" where
  "parse_while_impl E R label inl c =
     p_bind p_peek (\<lambda>t.
     p_seq (p_eat_expect E (Tag_Kw KwWhile))
       (p_bind (expect_expr_ctx_no_init E R c) (\<lambda>cond.
        p_bind (block_here E R label c) (\<lambda>body.
        p_map E_While (p_node (tok_span t) (\<lambda>i sp. While_Node i inl cond body sp))))))"

definition parse_for_impl :: "parser_env \<Rightarrow> calls \<Rightarrow> ident option \<Rightarrow> bool \<Rightarrow> ctx \<Rightarrow> expr expr_kind parse" where
  "parse_for_impl E R label inl c =
     p_bind p_peek (\<lambda>t.
     p_seq (p_eat_expect E (Tag_Kw KwFor))
       (p_bind (expect_expr_ctx E R c) (\<lambda>iter_var.
        p_seq (p_eat_expect E (Tag_Kw KwIn))
          (p_bind (expect_expr_ctx_no_init E R c) (\<lambda>iterable.
           p_bind (block_here E R label c) (\<lambda>body.
           p_map E_For (p_node (tok_span t) (\<lambda>i sp. For_Node i inl iter_var iterable body sp))))))))"

definition parse_loop_impl :: "parser_env \<Rightarrow> calls \<Rightarrow> ident option \<Rightarrow> ctx \<Rightarrow> expr expr_kind parse" where
  "parse_loop_impl E R label c =
     p_seq (p_eat_expect E (Tag_Kw KwLoop)) (p_map E_Loop (block_here E R label c))"

definition parse_switch_body :: "parser_env \<Rightarrow> calls \<Rightarrow> ctx \<Rightarrow> expr switch_body parse" where
  "parse_switch_body E R c =
     p_bind p_peek (\<lambda>t.
       if tok_kind t = Op1 LBrace then p_map SwitchBody_Block (parse_block_impl E R None False (tok_span t) c)
       else p_map SwitchBody_Expr (expect_expr_ctx E R c))"

definition switch_capture :: "parser_env \<Rightarrow> ident option parse" where
  "switch_capture E =
     p_behind (Tag_Op1 Pipe)
       (p_bind (parse_ident E) (\<lambda>ident. p_seq (p_eat_expect E (Tag_Op1 Pipe)) (p_ret ident)))"

fun switch_cases :: "nat \<Rightarrow> parser_env \<Rightarrow> calls \<Rightarrow> ctx \<Rightarrow> expr switch_case list \<Rightarrow> expr switch_case list parse" where
  "switch_cases 0 E R c cases = p_no_fuel"
| "switch_cases (Suc n) E R c cases =
     p_bind p_peek (\<lambda>t.
       if tok_kind t = Op1 RBrace \<or> tok_kind t = Kw KwElse then p_ret cases
       else p_bind (eat_delimited_ctx E R (Tag_Op1 Comma) (\<lambda>t. tok_kind t \<noteq> Op2 FatArrow) c) (\<lambda>(patterns, _).
            p_seq (p_eat_expect E (Tag_Op2 FatArrow))
              (p_bind (switch_capture E) (\<lambda>capture.
               p_bind (parse_switch_body E R c) (\<lambda>body.
               p_bind p_prev (\<lambda>prev.
               p_bind next_id (\<lambda>i.
                 switch_cases n E R c
                   (cases @ [SwitchCase i patterns capture body (span_join (tok_span t) (tok_span prev))]))))))))"

definition switch_else :: "parser_env \<Rightarrow> calls \<Rightarrow> ctx \<Rightarrow> (expr option \<times> expr switch_body option) parse" where
  "switch_else E R c =
     p_bind (p_eaten (Tag_Kw KwElse)) (\<lambda>has_else.
       if \<not> has_else then p_ret (None, None)
       else p_bind (p_eaten (Tag_Op2 FatArrow)) (\<lambda>arrow.
         if arrow then p_map (\<lambda>body. (None, Some body)) (parse_switch_body E R c)
         else p_bind (expect_expr_ctx E R c) (\<lambda>capture.
                p_seq (p_eat_expect E (Tag_Op2 FatArrow))
                  (p_map (\<lambda>body. (Some capture, Some body)) (parse_switch_body E R c)))))"

definition parse_switch_impl :: "parser_env \<Rightarrow> calls \<Rightarrow> ident option \<Rightarrow> ctx \<Rightarrow> expr expr_kind parse" where
  "parse_switch_impl E R label c =
     p_bind p_peek (\<lambda>t.
     p_seq (p_eat_expect E (Tag_Kw KwSwitch))
       (p_bind (expect_expr_ctx_no_init E R c) (\<lambda>e.
        p_seq (p_eat_expect E (Tag_Op1 LBrace))
          (p_bind (switch_cases (fuel R) E R c []) (\<lambda>cases.
           p_bind (switch_else E R c) (\<lambda>(else_capture, else_body).
           p_seq (p_eat_expect E (Tag_Op1 RBrace))
             (p_map E_Switch (p_node (tok_span t) (\<lambda>i sp. Switch_Node i label e cases else_capture else_body sp)))))))))"

definition parse_inline_loop :: "parser_env \<Rightarrow> calls \<Rightarrow> ident option \<Rightarrow> ctx \<Rightarrow> expr expr_kind parse" where
  "parse_inline_loop E R label c =
     p_bind p_peek (\<lambda>t.
       case tok_kind t of
         Kw KwFor \<Rightarrow> parse_for_impl E R label True c
       | Kw KwWhile \<Rightarrow> parse_while_impl E R label True c
       | _ \<Rightarrow> p_bind p_prev (\<lambda>prev. diag_expected_one_of_token E [Tag_Kw KwWhile, Tag_Kw KwFor] prev))"

definition parse_labeled_control_flow :: "parser_env \<Rightarrow> calls \<Rightarrow> ident option \<Rightarrow> ctx \<Rightarrow> expr expr_kind parse" where
  "parse_labeled_control_flow E R label c =
     p_bind p_peek (\<lambda>t.
       case tok_kind t of
         Dir DirInline \<Rightarrow> p_seq p_advance (parse_inline_loop E R label c)
       | Kw KwFor \<Rightarrow> parse_for_impl E R label False c
       | Kw KwWhile \<Rightarrow> parse_while_impl E R label False c
       | Kw KwLoop \<Rightarrow> parse_loop_impl E R label c
       | Kw KwSwitch \<Rightarrow> parse_switch_impl E R label c
       | Op1 LBrace \<Rightarrow> p_map E_Block (parse_block_impl E R label False (tok_span t) c)
       | _ \<Rightarrow> diag_expected_one_of_token E
                [Tag_Kw KwFor, Tag_Kw KwWhile, Tag_Kw KwLoop, Tag_Kw KwSwitch, Tag_Op1 LBrace] t)"

text \<open>The arms for control flow that \<^verbatim>\<open>parse_primary_ty_expr\<close> and \<^verbatim>\<open>parse_primary_expr\<close> share.\<close>

definition labeled_control_flow :: "parser_env \<Rightarrow> calls \<Rightarrow> ctx \<Rightarrow> expr expr_kind parse" where
  "labeled_control_flow E R c =
     p_bind (parse_user_ident E) (\<lambda>ident.
       p_seq (p_eat_expect E (Tag_Op1 Colon)) (parse_labeled_control_flow E R (Some ident) c))"

section \<open>Initialisers and calls\<close>

definition parse_struct_field_init :: "parser_env \<Rightarrow> calls \<Rightarrow> expr field_init parse" where
  "parse_struct_field_init E R =
     p_seq (p_eat_expect E (Tag_Op1 Dot))
       (p_bind (parse_ident E) (\<lambda>ident.
        p_seq (p_eat_expect E (Tag_Op1 Eq))
          (p_bind (expect_expr E R) (\<lambda>value. p_ret (FieldInit ident value)))))"

definition parse_struct_init_expr :: "parser_env \<Rightarrow> calls \<Rightarrow> expr option \<Rightarrow> expr struct_init parse" where
  "parse_struct_init_expr E R struct_ty =
     p_map (StructInit struct_ty)
       (eat_delimited_group (fuel R) E (Tag_Op1 LBrace) (Tag_Op1 RBrace) (Tag_Op1 Comma) (parse_struct_field_init E R))"

definition parse_array_init_expr :: "parser_env \<Rightarrow> calls \<Rightarrow> expr option \<Rightarrow> expr array_init parse" where
  "parse_array_init_expr E R array_ty =
     p_map (ArrayInit array_ty)
       (eat_delimited_group (fuel R) E (Tag_Op1 LBrace) (Tag_Op1 RBrace) (Tag_Op1 Comma) (expect_expr E R))"

text \<open>\<^verbatim>\<open>next == TokenKind::Dot || next == TokenKind::RBrace\<close>: the braces hold named fields.\<close>

definition init_kind :: "parser_env \<Rightarrow> calls \<Rightarrow> expr option \<Rightarrow> expr expr_kind parse" where
  "init_kind E R lhs =
     p_bind (p_peek_nth 1) (\<lambda>nxt.
       if tok_kind nxt = Op1 Dot \<or> tok_kind nxt = Op1 RBrace
       then p_map E_StructInit (parse_struct_init_expr E R lhs)
       else p_map E_ArrayInit (parse_array_init_expr E R lhs))"

definition parse_init_expr :: "parser_env \<Rightarrow> calls \<Rightarrow> expr option parse" where
  "parse_init_expr E R =
     p_bind (ty_call R) (\<lambda>r.
       case r of
         None \<Rightarrow> p_ret None
       | Some lhs \<Rightarrow>
           p_bind p_peek (\<lambda>t.
             if tok_kind t \<noteq> Op1 LBrace then p_ret (Some lhs)
             else p_bind (init_kind E R (Some lhs)) (\<lambda>k. p_map Some (make_expr (expr_span lhs) k))))"

definition is_plain_ident :: "token_kind \<Rightarrow> bool" where
  "is_plain_ident k = (case k of Ident _ ik \<Rightarrow> is_user ik | _ \<Rightarrow> False)"

fun call_args :: "nat \<Rightarrow> parser_env \<Rightarrow> calls \<Rightarrow> expr arg list \<Rightarrow> expr arg list parse" where
  "call_args 0 E R args = p_no_fuel"
| "call_args (Suc n) E R args =
     p_bind p_peek (\<lambda>t.
       if tok_kind t = Op1 RParen \<or> is_eof_token t then p_ret args
       else p_bind (p_peek_nth 1) (\<lambda>nxt.
         p_bind
           (if is_plain_ident (tok_kind t) \<and> tok_kind nxt = Op1 Colon
            then p_bind (parse_ident E) (\<lambda>ident.
                 p_seq (p_eat_expect E (Tag_Op1 Colon))
                   (p_seq
                      (if ident_is_generic ident
                       then p_report E (\<lambda>m. with_note (p_diag E ''generic call arguments are no longer supported'' (id_span ident) m)
                              ''use a normal named argument, such as `T: i32`'')
                       else p_ret ())
                      (p_map (\<lambda>v. Some (Arg_Named ident v)) (expect_expr E R))))
            else p_map (map_option Arg_Positional) (parse_expr R))
           (\<lambda>arg.
              case arg of
                None \<Rightarrow> p_ret args
              | Some a \<Rightarrow>
                  p_bind (p_eaten (Tag_Op1 Comma)) (\<lambda>more.
                    if more then call_args n E R (args @ [a]) else p_ret (args @ [a])))))"

definition parse_fn_call :: "parser_env \<Rightarrow> calls \<Rightarrow> expr \<Rightarrow> expr fn_call parse" where
  "parse_fn_call E R callee =
     p_seq (p_want E (Tag_Op1 LParen))
       (p_bind (call_args (fuel R) E R []) (\<lambda>args.
          p_seq (p_eat_expect E (Tag_Op1 RParen)) (p_ret (FnCall callee args))))"

end
