(* ===== verification/Vif_Grammar_Decl.thy ===== *)
theory Vif_Grammar_Decl
  imports Vif_Grammar
begin

text \<open>
  Declarations of the parser, \<^verbatim>\<open>src/frontend/parser.rs\<close>: functions, fields, variants, associated items and the
  bodies of structs, enums and unions, whose three loops share the definition \<open>decl_items\<close>.
\<close>

section \<open>Functions\<close>

definition report_const_param :: "parser_env \<Rightarrow> token \<Rightarrow> unit parse" where
  "report_const_param E t =
     p_report E (\<lambda>m.
       with_note
         (with_label (label_insert E) (with_message diag_error ''function parameters are `const` by default'')
            (label_with_message (label_with_span label_primary \<lparr>ds_module = m, ds_span = tok_span t\<rparr>)
               ''remove the `const` modifier''))
         ''perhaps you meant `comptime` instead to have a comptime-known parameter'')"

fun fn_params_loop :: "nat \<Rightarrow> parser_env \<Rightarrow> calls \<Rightarrow> bool \<Rightarrow> expr fn_param list \<Rightarrow> expr fn_param list parse" where
  "fn_params_loop 0 E R is_type_decl params = p_no_fuel"
| "fn_params_loop (Suc n) E R is_type_decl params =
     p_bind p_peek (\<lambda>t.
       if tok_kind t = Op1 RParen \<or> tok_kind t = Op3 Ellipsis \<or> is_eof_token t then p_ret params
       else
         p_bind next_id (\<lambda>i.
         p_bind (p_eaten (Tag_Kw KwComptime)) (\<lambda>comptime.
         p_bind p_peek (\<lambda>t.
         p_seq (if tok_kind t = Kw KwConst then p_seq (report_const_param E t) (p_map (\<lambda>_. ()) p_bump) else p_ret ())
           (p_bind (parse_ident E) (\<lambda>ident.
            p_seq
              (if ident_is_generic ident
               then p_report E (\<lambda>m. with_note (p_diag E ''positional generic parameters are no longer supported'' (id_span ident) m)
                      ''use `comptime T: type` instead'')
               else p_ret ())
              (p_bind p_peek (\<lambda>t.
               p_seq
                 (if is_type_decl \<and> \<not> comptime
                  then p_report E (\<lambda>m. with_note (p_diag E ''type parameters must be comptime'' (tok_span t) m)
                         ''add the `const` modifier to the type parameter'')
                  else p_ret ())
                 (p_seq (p_eat_expect E (Tag_Op1 Colon))
                    (p_bind (expect_ty_expr E R) (\<lambda>ty.
                     p_bind (p_eaten (Tag_Op1 Comma)) (\<lambda>more.
                       let params' = params @ [FnParam i comptime ident ty]
                       in if more then fn_params_loop n E R is_type_decl params' else p_ret params'))))))))))))"

definition fn_callconv :: "parser_env \<Rightarrow> calls \<Rightarrow> bool \<Rightarrow> expr option parse" where
  "fn_callconv E R is_type_decl =
     (if is_type_decl then p_ret None
      else p_behind (Tag_Dir DirCallconv)
             (p_seq (p_eat_expect E (Tag_Op1 LParen))
                (p_bind (expect_expr E R) (\<lambda>e. p_seq (p_eat_expect E (Tag_Op1 RParen)) (p_ret e)))))"

text \<open>At the end an id is taken and put back.\<close>

definition parse_fn_decl ::
  "parser_env \<Rightarrow> calls \<Rightarrow> bool \<Rightarrow> (expr fn_param list \<times> expr option \<times> expr option \<times> bool) parse" where
  "parse_fn_decl E R is_type_decl =
     p_seq (p_want E (Tag_Op1 LParen))
       (p_bind (fn_params_loop (fuel R) E R is_type_decl []) (\<lambda>params.
        p_bind (p_eaten (Tag_Op3 Ellipsis)) (\<lambda>variadic.
        p_seq
          (if variadic \<and> is_type_decl
           then p_bind p_prev (\<lambda>prev.
                  p_report E (\<lambda>m. with_note (diag_unexpected_token E prev m) ''variadic parameters are not allowed here''))
           else p_ret ())
          (p_seq (p_want E (Tag_Op1 RParen))
             (p_bind (fn_callconv E R is_type_decl) (\<lambda>callconv.
              p_bind (if is_type_decl then p_ret None else p_map Some (expect_ty_expr E R)) (\<lambda>ret_ty.
              p_bind next_id (\<lambda>i s. Ok (params, callconv, ret_ty, variadic) (s\<lparr>p_next_id := i\<rparr>)))))))))"

definition parse_associated_function ::
  "parser_env \<Rightarrow> calls \<Rightarrow> bool \<Rightarrow> bool \<Rightarrow> extern \<Rightarrow> inline \<Rightarrow> span \<Rightarrow> bool \<Rightarrow> expr associated_item parse" where
  "parse_associated_function E R is_pub is_comptime ext inl start allow_bodyless =
     p_bind next_id (\<lambda>i.
     p_bind (parse_ident E) (\<lambda>ident.
       if ident_is_generic ident
       then p_err (p_diag E ''associated function name cannot be a generic identifier'' (id_span ident))
       else
         p_bind (parse_fn_decl E R False) (\<lambda>(params, callconv, ret_ty, variadic).
           case ret_ty of
             None \<Rightarrow> p_fault UnwrapNone
           | Some ret_ty \<Rightarrow>
               p_bind p_peek (\<lambda>t.
                 let has_body = (tok_kind t = Op1 LBrace)
                 in if \<not> has_body \<and> ext = Extern_None \<and> \<not> allow_bodyless
                    then p_bind p_prev (\<lambda>prev. p_err (diag_expected_token E (Tag_Op1 LBrace) prev))
                    else
                      p_seq
                        (if has_body \<and> ext \<noteq> Extern_None
                         then p_report E (\<lambda>m. with_note (p_diag E ''extern functions cannot have a body'' (id_span ident) m)
                                ''remove the body or remove the `extern` modifier'')
                         else p_ret ())
                        (p_bind (if has_body then p_map Some (block_here E R None Ctx_Value) else p_ret None) (\<lambda>block.
                         p_bind p_prev (\<lambda>prev.
                           p_ret (AssociatedItem i
                             (Item_Fn (Fn_Node ident ext inl is_comptime callconv variadic params ret_ty block))
                             is_pub (span_join start (tok_span prev)))))))))) "

definition parse_associated_binding :: "parser_env \<Rightarrow> calls \<Rightarrow> bool \<Rightarrow> span \<Rightarrow> bool \<Rightarrow> expr associated_item parse" where
  "parse_associated_binding E R is_pub start is_const =
     p_bind next_id (\<lambda>i.
     p_bind (parse_var_binding E R) (\<lambda>var_binding.
     p_bind p_prev (\<lambda>prev.
       p_ret (AssociatedItem i (if is_const then Item_Const var_binding else Item_Var var_binding) is_pub
         (span_join start (tok_span prev))))))"

section \<open>Fields and variants\<close>

definition parse_field_def :: "parser_env \<Rightarrow> calls \<Rightarrow> bool \<Rightarrow> span \<Rightarrow> (expr field_def \<times> bool) parse" where
  "parse_field_def E R is_pub start =
     p_bind next_id (\<lambda>i.
     p_bind (field_ident E) (\<lambda>ident.
     p_seq (p_match (p_eat_expect E (Tag_Op1 Colon)) (\<lambda>_. p_ret ())
              (\<lambda>err. p_seq (p_eat_until (Tag_Op1 Comma)) (p_err (\<lambda>_. err))))
       (p_bind (expect_ty_expr E R) (\<lambda>ty.
        p_bind (p_behind (Tag_Op1 Eq) (expect_expr E R)) (\<lambda>default.
        p_bind (p_eaten (Tag_Op1 Comma)) (\<lambda>comma.
        p_bind p_prev (\<lambda>prev.
          p_ret (FieldDef i ident is_pub ty default (span_join start (tok_span prev)), comma))))))))"

definition parse_enum_variant_def :: "parser_env \<Rightarrow> calls \<Rightarrow> span \<Rightarrow> (expr enum_variant_def \<times> bool) parse" where
  "parse_enum_variant_def E R start =
     p_bind next_id (\<lambda>i.
     p_bind (field_ident E) (\<lambda>ident.
     p_bind (p_behind (Tag_Op1 Eq) (expect_expr E R)) (\<lambda>value.
     p_bind (p_eaten (Tag_Op1 Comma)) (\<lambda>comma.
     p_bind p_prev (\<lambda>prev. p_ret (EnumVariantDef i ident value (span_join start (tok_span prev)), comma))))))"

definition parse_union_field_def :: "parser_env \<Rightarrow> calls \<Rightarrow> span \<Rightarrow> (expr union_field_def \<times> bool) parse" where
  "parse_union_field_def E R start =
     p_bind next_id (\<lambda>i.
     p_bind (field_ident E) (\<lambda>ident.
     p_bind (p_behind (Tag_Op1 Colon) (expect_ty_expr E R)) (\<lambda>ty.
     p_bind (p_eaten (Tag_Op1 Comma)) (\<lambda>comma.
     p_bind p_prev (\<lambda>prev. p_ret (UnionFieldDef i ident ty (span_join start (tok_span prev)), comma))))))"

section \<open>Bodies\<close>

text \<open>
  The loop over the members. The flag \<open>with_comptime\<close> is set for structs, where \<^verbatim>\<open>comptime\<close> marks a function
  as such; in enums and unions \<^verbatim>\<open>const\<close> does. The last argument is \<^verbatim>\<open>prev_field_have_comma\<close>.
\<close>

fun decl_items ::
  "nat \<Rightarrow> parser_env \<Rightarrow> calls \<Rightarrow> bool \<Rightarrow> bool \<Rightarrow> (bool \<Rightarrow> span \<Rightarrow> ('f \<times> bool) parse) \<Rightarrow> 'f list
     \<Rightarrow> expr associated_item list \<Rightarrow> bool \<Rightarrow> ('f list \<times> expr associated_item list) parse" where
  "decl_items 0 E R is_root with_comptime member fs items comma = p_no_fuel"
| "decl_items (Suc n) E R is_root with_comptime member fs items comma =
     p_bind p_peek (\<lambda>t.
       if \<not> ((is_root \<or> tok_kind t \<noteq> Op1 RBrace) \<and> tok_kind t \<noteq> Eof) then p_ret (fs, items)
       else
         p_seq (if \<not> comma then p_report E (diag_expected_token E (Tag_Op1 Comma) t) else p_ret ())
           (p_bind p_peek (\<lambda>t0. let start = tok_span t0 in
            p_bind (p_eaten (Tag_Kw KwPub)) (\<lambda>is_pub.
            p_bind (parse_decl_modifiers (fuel R) E) (\<lambda>(ext, inl).
            p_bind (if with_comptime then p_eaten (Tag_Kw KwComptime) else p_ret False) (\<lambda>is_comptime.
            p_bind (p_eaten (Tag_Kw KwConst)) (\<lambda>is_const.
            p_bind (if is_const then p_ret False else p_eaten (Tag_Kw KwVar)) (\<lambda>is_var.
            p_bind (p_eaten (Tag_Kw KwFn)) (\<lambda>is_fn.
              if is_fn
              then p_match
                     (parse_associated_function E R is_pub (if with_comptime then is_comptime else is_const) ext inl start False)
                     (\<lambda>item. decl_items n E R is_root with_comptime member fs (items @ [item]) True)
                     (\<lambda>err. p_seq (p_push_error E err) (decl_items n E R is_root with_comptime member fs items True))
              else if is_const \<or> is_var
              then p_match (parse_associated_binding E R is_pub start is_const)
                     (\<lambda>item. decl_items n E R is_root with_comptime member fs (items @ [item]) True)
                     (\<lambda>err. p_seq (p_push_error E err) (decl_items n E R is_root with_comptime member fs items True))
              else
                p_bind p_peek (\<lambda>t1.
                  if tag (tok_kind t1) = Tag_Ident
                  then p_match (member is_pub start)
                         (\<lambda>(f, have_comma). decl_items n E R is_root with_comptime member (fs @ [f]) items have_comma)
                         (\<lambda>err. p_seq (p_push_error E err) (decl_items n E R is_root with_comptime member fs items True))
                  else p_bind p_bump (\<lambda>tok.
                         p_seq (p_report E (diag_unexpected_token E tok))
                           (decl_items n E R is_root with_comptime member fs items True))))))))))))"

definition open_body :: "parser_env \<Rightarrow> bool \<Rightarrow> unit parse" where
  "open_body E is_root =
     (if is_root then p_ret ()
      else p_match (p_eat_expect E (Tag_Op1 LBrace)) (\<lambda>_. p_ret ())
             (\<lambda>err. p_seq (p_eat_until (Tag_Op1 RBrace)) (p_err (\<lambda>_. err))))"

definition decl_body ::
  "parser_env \<Rightarrow> calls \<Rightarrow> bool \<Rightarrow> bool \<Rightarrow> (bool \<Rightarrow> span \<Rightarrow> ('f \<times> bool) parse) \<Rightarrow> span
     \<Rightarrow> ('f list \<times> expr associated_item list \<times> span) parse" where
  "decl_body E R is_root with_comptime member start =
     p_seq (open_body E is_root)
       (p_bind (decl_items (fuel R) E R is_root with_comptime member [] [] True) (\<lambda>(fs, items).
        p_seq (if is_root then p_ret () else p_map (\<lambda>_. ()) (p_eat_expect E (Tag_Op1 RBrace)))
          (p_bind p_peek (\<lambda>t. p_ret (fs, items, span_join start (tok_span t))))))"

definition parse_struct_decl :: "parser_env \<Rightarrow> calls \<Rightarrow> bool \<Rightarrow> bool \<Rightarrow> bool \<Rightarrow> span \<Rightarrow> expr struct_ty parse" where
  "parse_struct_decl E R is_root is_packed is_linear start =
     p_bind (decl_body E R is_root True (parse_field_def E R) start) (\<lambda>(fs, items, sp).
       p_ret (StructTy fs items is_packed is_linear sp))"

definition parse_enum_decl :: "parser_env \<Rightarrow> calls \<Rightarrow> bool \<Rightarrow> bool \<Rightarrow> bool \<Rightarrow> span \<Rightarrow> expr enum_ty parse" where
  "parse_enum_decl E R is_root is_packed is_linear start =
     p_bind p_peek (\<lambda>t.
     p_bind
       (if tok_kind t = Op1 LParen
        then p_seq (p_eat_expect E (Tag_Op1 LParen))
               (p_bind (expect_expr E R) (\<lambda>e. p_seq (p_eat_expect E (Tag_Op1 RParen)) (p_ret (Some e))))
        else p_ret None) (\<lambda>tag_ty.
     p_bind (decl_body E R is_root False (\<lambda>_. parse_enum_variant_def E R) start) (\<lambda>(variants, items, sp).
       p_ret (EnumTy tag_ty variants items is_linear sp))))"

definition parse_union_decl :: "parser_env \<Rightarrow> calls \<Rightarrow> bool \<Rightarrow> bool \<Rightarrow> span \<Rightarrow> expr union_ty parse" where
  "parse_union_decl E R is_root is_linear start =
     p_bind p_peek (\<lambda>t.
     p_bind
       (if tok_kind t = Op1 LParen
        then p_seq (p_eat_expect E (Tag_Op1 LParen))
               (p_bind (p_eaten (Tag_Kw KwEnum)) (\<lambda>auto_enum.
                  if auto_enum then p_seq (p_eat_expect E (Tag_Op1 RParen)) (p_ret Tag_AutoEnum)
                  else p_bind (expect_expr E R) (\<lambda>e. p_seq (p_eat_expect E (Tag_Op1 RParen)) (p_ret (Tag_Enum e)))))
        else p_ret Tag_Bare) (\<lambda>tg.
     p_bind (decl_body E R is_root False (\<lambda>_. parse_union_field_def E R) start) (\<lambda>(fs, items, sp).
       p_ret (UnionTy tg fs items is_linear sp))))"

end
