(* ===== verification/Vif_Grammar_Expr.thy ===== *)
theory Vif_Grammar_Expr
  imports Vif_Grammar_Decl
begin

text \<open>
  Type expressions, value expressions and modules of the parser, \<^verbatim>\<open>src/frontend/parser.rs\<close>, and the knot that
  ties the recursion of its methods.
\<close>

section \<open>Type expressions with a prefix\<close>

definition p_errors_push :: "(module_id \<Rightarrow> diagnostic) \<Rightarrow> unit parse" where
  "p_errors_push f s = Ok () (s\<lparr>p_errors := p_errors s @ [f (p_module s)]\<rparr>)"

definition redundant :: "parser_env \<Rightarrow> bool \<Rightarrow> string \<Rightarrow> token \<Rightarrow> unit parse" where
  "redundant E saw qualifier t =
     (if saw then p_errors_push (diag_redundant_qualifier E qualifier (tok_span t)) else p_ret ())"

fun ptr_modifiers_loop :: "nat \<Rightarrow> parser_env \<Rightarrow> calls \<Rightarrow> bool \<Rightarrow> bool \<Rightarrow> bool \<Rightarrow> expr ptr_modifiers \<Rightarrow> expr ptr_modifiers parse" where
  "ptr_modifiers_loop 0 E R saw_const saw_volatile saw_addrspace mods = p_no_fuel"
| "ptr_modifiers_loop (Suc n) E R saw_const saw_volatile saw_addrspace mods =
     p_bind p_peek (\<lambda>t.
       case tok_kind t of
         Kw KwConst \<Rightarrow>
           p_seq (redundant E saw_const ''const'' t)
             (p_seq p_advance
                (ptr_modifiers_loop n E R True saw_volatile saw_addrspace (PtrModifiers True (pm_volatile mods) (pm_addrspace mods))))
       | Dir DirVolatile \<Rightarrow>
           p_seq (redundant E saw_volatile ''volatile'' t)
             (p_seq p_advance
                (ptr_modifiers_loop n E R saw_const True saw_addrspace (PtrModifiers (pm_const mods) True (pm_addrspace mods))))
       | Dir DirAddrspace \<Rightarrow>
           p_seq (redundant E saw_addrspace ''addrspace'' t)
             (p_seq p_advance
                (p_seq (p_eat_expect E (Tag_Op1 LParen))
                   (p_bind (expect_expr E R) (\<lambda>e.
                    p_seq (p_eat_expect E (Tag_Op1 RParen))
                      (ptr_modifiers_loop n E R saw_const saw_volatile True (PtrModifiers (pm_const mods) (pm_volatile mods) (Some e)))))))
       | _ \<Rightarrow> p_ret mods)"

definition parse_ptr_modifiers :: "parser_env \<Rightarrow> calls \<Rightarrow> expr ptr_modifiers parse" where
  "parse_ptr_modifiers E R = ptr_modifiers_loop (fuel R) E R False False False (PtrModifiers False False None)"

datatype prefix_ty_layer =
    Layer_Nullable span
  | Layer_Ptr span "expr ptr_modifiers"
  | Layer_ManyPtr span "expr option" "expr ptr_modifiers"
  | Layer_Slice span "expr option" "expr ptr_modifiers"
  | Layer_Array span "expr option" "expr option" bool

text \<open>The arm for an opening bracket, after the bracket.\<close>

definition bracket_layer :: "parser_env \<Rightarrow> calls \<Rightarrow> span \<Rightarrow> prefix_ty_layer parse" where
  "bracket_layer E R start =
     p_bind p_peek (\<lambda>t.
       case tok_kind t of
         Op1 Star \<Rightarrow>
           p_seq p_advance
             (p_bind (p_behind (Tag_Op1 Colon) (expect_expr E R)) (\<lambda>sentinel.
              p_seq (p_eat_expect E (Tag_Op1 RBracket)) (p_map (Layer_ManyPtr start sentinel) (parse_ptr_modifiers E R))))
       | Op1 RBracket \<Rightarrow> p_seq p_advance (p_map (Layer_Slice start None) (parse_ptr_modifiers E R))
       | Op1 Colon \<Rightarrow>
           p_seq p_advance
             (p_bind (expect_expr E R) (\<lambda>sentinel.
              p_seq (p_eat_expect E (Tag_Op1 RBracket)) (p_map (Layer_Slice start (Some sentinel)) (parse_ptr_modifiers E R))))
       | k \<Rightarrow>
           p_bind (if k = Ident ''_'' User then p_seq p_advance (p_ret None) else p_map Some (expect_expr E R)) (\<lambda>sz.
           p_bind (p_behind (Tag_Op1 Colon) (expect_expr E R)) (\<lambda>sentinel.
           p_seq (p_eat_expect E (Tag_Op1 RBracket)) (p_map (Layer_Array start sz sentinel) (p_eaten (Tag_Kw KwConst))))))"

fun prefix_ty_layers :: "nat \<Rightarrow> parser_env \<Rightarrow> calls \<Rightarrow> prefix_ty_layer list \<Rightarrow> prefix_ty_layer list parse" where
  "prefix_ty_layers 0 E R layers = p_no_fuel"
| "prefix_ty_layers (Suc n) E R layers =
     p_bind p_peek (\<lambda>t.
       case tok_kind t of
         Op1 QuestionMark \<Rightarrow> p_seq p_advance (prefix_ty_layers n E R (layers @ [Layer_Nullable (tok_span t)]))
       | Op1 Star \<Rightarrow>
           p_seq p_advance
             (p_bind (parse_ptr_modifiers E R) (\<lambda>mods. prefix_ty_layers n E R (layers @ [Layer_Ptr (tok_span t) mods])))
       | Op2 StarStar \<Rightarrow>
           p_seq p_advance
             (p_bind (parse_ptr_modifiers E R) (\<lambda>mods.
                prefix_ty_layers n E R (layers @ [Layer_Ptr (tok_span t) mods, Layer_Ptr (tok_span t) mods])))
       | Op1 LBracket \<Rightarrow>
           p_seq p_advance (p_bind (bracket_layer E R (tok_span t)) (\<lambda>l. prefix_ty_layers n E R (layers @ [l])))
       | _ \<Rightarrow> p_ret layers)"

fun layer_type :: "prefix_ty_layer \<Rightarrow> expr \<Rightarrow> expr type_node" where
  "layer_type (Layer_Nullable sp) ty = T_Nullable ty"
| "layer_type (Layer_Ptr sp mods) ty = T_Ptr ty mods"
| "layer_type (Layer_ManyPtr sp sentinel mods) ty = T_ManyPtr ty sentinel mods"
| "layer_type (Layer_Slice sp sentinel mods) ty = T_Slice ty sentinel mods"
| "layer_type (Layer_Array sp sz sentinel is_const) ty = T_Array ty is_const sz sentinel"

fun layer_span :: "prefix_ty_layer \<Rightarrow> span" where
  "layer_span (Layer_Nullable sp) = sp"
| "layer_span (Layer_Ptr sp _) = sp"
| "layer_span (Layer_ManyPtr sp _ _) = sp"
| "layer_span (Layer_Slice sp _ _) = sp"
| "layer_span (Layer_Array sp _ _ _) = sp"

text \<open>\<^verbatim>\<open>while let Some(layer) = layers.pop()\<close>: the argument is the stack with its top first.\<close>

fun wrap_layers :: "prefix_ty_layer list \<Rightarrow> expr \<Rightarrow> expr parse" where
  "wrap_layers [] e = p_ret e"
| "wrap_layers (l # ls) e =
     p_bind next_id (\<lambda>i. wrap_layers ls (Expr i (E_Type (layer_type l e)) (span_join (layer_span l) (expr_span e))))"

definition parse_prefixed_ty_expr :: "parser_env \<Rightarrow> calls \<Rightarrow> expr option parse" where
  "parse_prefixed_ty_expr E R =
     p_bind (prefix_ty_layers (fuel R) E R []) (\<lambda>layers.
     p_bind (expect_ty_expr E R) (\<lambda>e. p_map Some (wrap_layers (rev layers) e)))"

section \<open>Suffixes\<close>

definition index_expr :: "expr \<Rightarrow> expr index_kind \<Rightarrow> expr option parse" where
  "index_expr lhs k = p_map Some (make_expr (expr_span lhs) (E_Index (Index_Node lhs k)))"

text \<open>After \<^verbatim>\<open>..\<close>, with the start of the range if it has one.\<close>

definition range_end :: "parser_env \<Rightarrow> calls \<Rightarrow> expr \<Rightarrow> expr option \<Rightarrow> expr option parse" where
  "range_end E R lhs start =
     p_bind p_peek (\<lambda>t.
       if tok_kind t = Op1 RBracket then p_seq p_advance (index_expr lhs (Index_Range start None))
       else p_bind (expect_expr E R) (\<lambda>e.
              p_seq (p_eat_expect E (Tag_Op1 RBracket)) (index_expr lhs (Index_Range start (Some e)))))"

definition range_inclusive_end :: "parser_env \<Rightarrow> calls \<Rightarrow> expr \<Rightarrow> expr option \<Rightarrow> expr option parse" where
  "range_inclusive_end E R lhs start =
     p_bind (expect_expr E R) (\<lambda>e.
       p_seq (p_eat_expect E (Tag_Op1 RBracket)) (index_expr lhs (Index_RangeInclusive start e)))"

definition suffix_index :: "parser_env \<Rightarrow> calls \<Rightarrow> expr \<Rightarrow> expr option parse" where
  "suffix_index E R lhs =
     p_bind p_peek (\<lambda>t.
       case tok_kind t of
         Op2 DotDot \<Rightarrow> p_seq p_advance (range_end E R lhs None)
       | Op3 DotDotEq \<Rightarrow> p_seq p_advance (range_inclusive_end E R lhs None)
       | _ \<Rightarrow>
           p_bind (expect_expr E R) (\<lambda>e.
           p_bind p_peek (\<lambda>t.
             case tok_kind t of
               Op2 DotDot \<Rightarrow> p_seq p_advance (range_end E R lhs (Some e))
             | Op3 DotDotEq \<Rightarrow> p_seq p_advance (range_inclusive_end E R lhs (Some e))
             | Op1 RBracket \<Rightarrow> p_seq p_advance (index_expr lhs (Index_At e))
             | _ \<Rightarrow> diag_expected_one_of_token E [Tag_Op2 DotDot, Tag_Op3 DotDotEq, Tag_Op1 RBracket] t)))"

definition misplaced :: "parser_env \<Rightarrow> string \<Rightarrow> expr option parse" where
  "misplaced E hint =
     p_bind p_peek (\<lambda>t. p_bind p_prev (\<lambda>prev. p_seq (p_report E (diag_misplaced E prev t hint)) (p_ret None)))"

definition suffix_dot :: "parser_env \<Rightarrow> expr \<Rightarrow> expr option parse" where
  "suffix_dot E lhs =
     p_bind p_peek (\<lambda>t.
       if is_plain_ident (tok_kind t)
       then p_bind (parse_user_ident E) (\<lambda>ident.
            p_bind p_prev (\<lambda>prev.
              p_map Some (make_expr (expr_span lhs)
                (E_FieldAccess (FieldAccess lhs ident (span_join (expr_span lhs) (tok_span prev)))))))
       else
         case tok_kind t of
           Op1 QuestionMark \<Rightarrow> p_seq p_advance (misplaced E ''did you mean to use the nullable unwrap operator `.?`?'')
         | Op1 Star \<Rightarrow> p_seq p_advance (misplaced E ''did you mean to use the dereference operator `.*`?'')
         | Op1 LBrace \<Rightarrow> misplaced E ''did you mean to use a struct initialization expression?''
         | _ \<Rightarrow> p_err (diag_unexpected_token E t))"

definition parse_suffix_ty_op :: "parser_env \<Rightarrow> calls \<Rightarrow> expr \<Rightarrow> expr option parse" where
  "parse_suffix_ty_op E R lhs =
     p_bind p_peek (\<lambda>t.
       case tok_kind t of
         Op1 LBracket \<Rightarrow> p_seq p_advance (suffix_index E R lhs)
       | Op2 DotStar \<Rightarrow> p_seq p_advance (p_map Some (make_expr (expr_span lhs) (E_Deref lhs)))
       | Op2 DotQuestionMark \<Rightarrow> p_seq p_advance (p_map Some (make_expr (expr_span lhs) (E_UnwrapNullable lhs)))
       | Op1 Dot \<Rightarrow> p_seq p_advance (suffix_dot E lhs)
       | _ \<Rightarrow> p_ret None)"

fun suffix_loop :: "nat \<Rightarrow> parser_env \<Rightarrow> calls \<Rightarrow> span \<Rightarrow> expr \<Rightarrow> bool \<Rightarrow> expr option parse" where
  "suffix_loop 0 E R start e just_called = p_no_fuel"
| "suffix_loop (Suc n) E R start e just_called =
     p_bind (parse_suffix_ty_op E R e) (\<lambda>r.
       case r of
         Some e' \<Rightarrow> suffix_loop n E R start e' False
       | None \<Rightarrow>
           p_bind p_peek (\<lambda>t.
             if just_called \<or> tok_kind t \<noteq> Op1 LParen then p_ret (Some e)
             else p_bind (parse_fn_call E R e) (\<lambda>call.
                  p_bind (close_expr start (E_FnCall call)) (\<lambda>e'. suffix_loop n E R start e' True))))"

section \<open>Primary type expressions\<close>

fun multi_line_str :: "nat \<Rightarrow> byte list \<Rightarrow> byte list parse" where
  "multi_line_str 0 buffer = p_no_fuel"
| "multi_line_str (Suc n) buffer =
     p_bind p_peek (\<lambda>t.
       case tok_kind t of
         LitMultiLineStr symbol \<Rightarrow> p_seq p_advance (multi_line_str n (buffer @ [CHR 0x0A] @ symbol))
       | _ \<Rightarrow> p_ret buffer)"

primrec ty_name_node :: "ty_name \<Rightarrow> expr type_node" where
  "ty_name_node TyUsize = T_Int Suf_Usize"
| "ty_name_node TyIsize = T_Int Suf_Isize"
| "ty_name_node TyF16 = T_Float Suf_F16"
| "ty_name_node TyF32 = T_Float Suf_F32"
| "ty_name_node TyF64 = T_Float Suf_F64"
| "ty_name_node TyF128 = T_Float Suf_F128"
| "ty_name_node TyBool = T_Bool"
| "ty_name_node TyVoid = T_Void"
| "ty_name_node TyNever = T_Never"
| "ty_name_node TyAnyptr = T_Anyptr"
| "ty_name_node TyAnyint = T_Anyint"
| "ty_name_node TyAnyfloat = T_Anyfloat"
| "ty_name_node TyType = T_Type"

text \<open>The declarations of an anonymous struct, enum or union, after the keyword.\<close>

definition struct_type :: "parser_env \<Rightarrow> calls \<Rightarrow> bool \<Rightarrow> bool \<Rightarrow> span \<Rightarrow> expr expr_kind parse" where
  "struct_type E R packed linear start = p_map (\<lambda>d. E_Type (T_Struct d)) (parse_struct_decl E R False packed linear start)"

definition enum_type :: "parser_env \<Rightarrow> calls \<Rightarrow> bool \<Rightarrow> span \<Rightarrow> expr expr_kind parse" where
  "enum_type E R linear start = p_map (\<lambda>d. E_Type (T_Enum d)) (parse_enum_decl E R False False linear start)"

definition union_type :: "parser_env \<Rightarrow> calls \<Rightarrow> bool \<Rightarrow> span \<Rightarrow> expr expr_kind parse" where
  "union_type E R linear start = p_map (\<lambda>d. E_Type (T_Union d)) (parse_union_decl E R False linear start)"

definition linear_type :: "parser_env \<Rightarrow> calls \<Rightarrow> span \<Rightarrow> expr expr_kind parse" where
  "linear_type E R start =
     p_bind p_peek (\<lambda>t.
       case tok_kind t of
         Dir DirPacked \<Rightarrow> p_seq p_advance (p_seq (p_eat_expect E (Tag_Kw KwStruct)) (struct_type E R True True start))
       | Kw KwStruct \<Rightarrow> p_seq p_advance (struct_type E R False True start)
       | Kw KwEnum \<Rightarrow> p_seq p_advance (enum_type E R True start)
       | Kw KwUnion \<Rightarrow> p_seq p_advance (union_type E R True start)
       | _ \<Rightarrow> p_bind p_bump (\<lambda>tok. p_err (diag_expected_token E (Tag_Kw KwStruct) tok)))"

text \<open>\<^verbatim>\<open>.name\<close> and \<^verbatim>\<open>.{ .. }\<close>; every other token behind the dot goes to \<^verbatim>\<open>parse_init_expr\<close>, which starts at the dot again.\<close>

definition dot_literal :: "parser_env \<Rightarrow> calls \<Rightarrow> (expr expr_kind + expr option) parse" where
  "dot_literal E R =
     p_bind (p_peek_nth 1) (\<lambda>nxt.
       if is_plain_ident (tok_kind nxt)
       then p_seq p_advance
              (p_bind p_bump (\<lambda>t.
                 case tok_kind t of
                   Ident symbol _ \<Rightarrow> p_ret (Inl (E_Lit (Lit_EnumVariant symbol)))
                 | _ \<Rightarrow> p_fault UnreachableToken))
       else if tok_kind nxt = Op1 LBrace then p_seq p_advance (p_map Inl (init_kind E R None))
       else p_map Inr (parse_init_expr E R))"

fun group_starts :: "nat \<Rightarrow> span list \<Rightarrow> span list parse" where
  "group_starts 0 starts = p_no_fuel"
| "group_starts (Suc n) starts =
     p_bind p_peek (\<lambda>t.
       if tok_kind t = Op1 LParen then p_seq p_advance (group_starts n (starts @ [tok_span t])) else p_ret starts)"

fun close_groups :: "parser_env \<Rightarrow> span list \<Rightarrow> expr \<Rightarrow> expr parse" where
  "close_groups E [] e = p_ret e"
| "close_groups E (start # starts) e =
     p_seq (p_eat_expect E (Tag_Op1 RParen))
       (p_bind (close_expr start (E_Group e)) (close_groups E starts))"

definition parse_group_ty_expr :: "parser_env \<Rightarrow> calls \<Rightarrow> expr option parse" where
  "parse_group_ty_expr E R =
     p_bind (group_starts (fuel R) []) (\<lambda>starts.
     p_bind (expect_ty_expr E R) (\<lambda>e. p_map Some (close_groups E (rev starts) e)))"

text \<open>\<open>Inl k\<close> leads to the common end of the method, \<open>Inr r\<close> is an early return.\<close>

definition primary_ty_kind :: "parser_env \<Rightarrow> calls \<Rightarrow> token \<Rightarrow> (expr expr_kind + expr option) parse" where
  "primary_ty_kind E R t =
     (let start = tok_span t; adv = (\<lambda>k. p_seq p_advance (p_ret (Inl k))) in
      case tok_kind t of
        Ty n \<Rightarrow> adv (E_Type (ty_name_node n))
      | TyU bits \<Rightarrow> adv (E_Type (T_Int (Suf_U bits)))
      | TyI bits \<Rightarrow> adv (E_Type (T_Int (Suf_I bits)))
      | LitChar chr \<Rightarrow> adv (E_Lit (Lit_Char chr))
      | LitStr symbol \<Rightarrow> adv (E_Lit (Lit_Str symbol))
      | LitMultiLineStr bs \<Rightarrow> p_seq p_advance (p_map (\<lambda>b. Inl (E_Lit (Lit_Str b))) (multi_line_str (fuel R) bs))
      | LitInt symbol r \<Rightarrow> p_seq p_advance (p_map (\<lambda>suffix. Inl (E_Lit (Lit_Integer symbol r suffix))) maybe_parse_int_suffix)
      | LitFloat symbol \<Rightarrow> p_seq p_advance (p_map (\<lambda>suffix. Inl (E_Lit (Lit_Float symbol suffix))) maybe_parse_float_suffix)
      | LitBool v \<Rightarrow> adv (E_Lit (Lit_Bool v))
      | Kw KwUndefined \<Rightarrow> adv E_Undefined
      | Op1 Dot \<Rightarrow> dot_literal E R
      | Dir DirLinear \<Rightarrow> p_seq p_advance (p_map Inl (linear_type E R start))
      | Dir DirPacked \<Rightarrow>
          p_seq p_advance (p_seq (p_eat_expect E (Tag_Kw KwStruct)) (p_map Inl (struct_type E R True False start)))
      | Kw KwStruct \<Rightarrow> p_seq p_advance (p_map Inl (struct_type E R False False start))
      | Kw KwEnum \<Rightarrow> p_seq p_advance (p_map Inl (enum_type E R False start))
      | Kw KwUnion \<Rightarrow> p_seq p_advance (p_map Inl (union_type E R False start))
      | Op1 LParen \<Rightarrow> p_map Inr (parse_group_ty_expr E R)
      | Kw KwIf \<Rightarrow> p_map Inl (parse_if_impl E R Ctx_Ty)
      | Kw KwWhile \<Rightarrow> p_map Inl (parse_while_impl E R None False Ctx_Ty)
      | Kw KwFor \<Rightarrow> p_map Inl (parse_for_impl E R None False Ctx_Ty)
      | Kw KwLoop \<Rightarrow> p_map Inl (parse_loop_impl E R None Ctx_Ty)
      | Kw KwSwitch \<Rightarrow> p_map Inl (parse_switch_impl E R None Ctx_Ty)
      | Dir DirInline \<Rightarrow> p_seq p_advance (p_map Inl (parse_inline_loop E R None Ctx_Ty))
      | Ident _ ik \<Rightarrow>
          (case ik of
             Builtin \<Rightarrow>
               p_bind (parse_ident E) (\<lambda>ident.
               p_bind (make_expr start (E_Ident ident)) (\<lambda>callee.
               p_map (\<lambda>call. Inl (E_FnCall call)) (parse_fn_call E R callee)))
           | _ \<Rightarrow>
               p_bind (p_peek_nth 1) (\<lambda>nxt.
                 if ik = User \<and> tok_kind nxt = Op1 Colon then p_map Inl (labeled_control_flow E R Ctx_Ty)
                 else p_map (\<lambda>ident. Inl (E_Ident ident)) (parse_ident E)))
      | _ \<Rightarrow> p_ret (Inr None))"

definition finish_primary :: "span \<Rightarrow> expr expr_kind + expr option \<Rightarrow> expr option parse" where
  "finish_primary start r = (case r of Inl k \<Rightarrow> p_map Some (close_expr start k) | Inr e \<Rightarrow> p_ret e)"

definition parse_primary_ty_expr :: "parser_env \<Rightarrow> calls \<Rightarrow> expr option parse" where
  "parse_primary_ty_expr E R =
     p_bind p_peek (\<lambda>t. p_bind (primary_ty_kind E R t) (finish_primary (tok_span t)))"

definition parse_suffix_ty_expr :: "parser_env \<Rightarrow> calls \<Rightarrow> expr option parse" where
  "parse_suffix_ty_expr E R =
     p_bind p_peek (\<lambda>t.
     p_bind (parse_primary_ty_expr E R) (\<lambda>r.
       case r of
         None \<Rightarrow> p_ret None
       | Some e \<Rightarrow> suffix_loop (fuel R) E R (tok_span t) e False))"

definition starts_prefixed_type :: "token_kind \<Rightarrow> bool" where
  "starts_prefixed_type k \<longleftrightarrow> k = Op1 QuestionMark \<or> k = Op1 Star \<or> k = Op2 StarStar \<or> k = Op1 LBracket"

definition parse_ty_expr :: "parser_env \<Rightarrow> calls \<Rightarrow> expr option parse" where
  "parse_ty_expr E R =
     p_bind p_peek (\<lambda>t.
       if starts_prefixed_type (tok_kind t) then parse_prefixed_ty_expr E R else parse_suffix_ty_expr E R)"

section \<open>Value expressions\<close>

record infix_op =
  lbp :: nat
  rbp :: nat
  op_kind :: infix_op_kind

definition infix_left :: "nat \<Rightarrow> infix_op_kind \<Rightarrow> infix_op" where
  "infix_left l k = \<lparr>lbp = l, rbp = l + 1, op_kind = k\<rparr>"

definition infix_entry :: "token_kind \<Rightarrow> (nat \<times> infix_op_kind) option" where
  "infix_entry k =
     (case k of
        Op1 Plus \<Rightarrow> Some (50, O_Add)
      | Op2 PlusPipe \<Rightarrow> Some (50, O_AddSat)
      | Op1 Minus \<Rightarrow> Some (50, O_Sub)
      | Op2 MinusPipe \<Rightarrow> Some (50, O_SubSat)
      | Op1 Star \<Rightarrow> Some (60, O_Mul)
      | Op2 StarPipe \<Rightarrow> Some (60, O_MulSat)
      | Op1 Slash \<Rightarrow> Some (60, O_Div)
      | Op1 Percent \<Rightarrow> Some (60, O_Rem)
      | Op1 Amp \<Rightarrow> Some (30, O_BitAnd)
      | Op1 Pipe \<Rightarrow> Some (20, O_BitOr)
      | Op1 Caret \<Rightarrow> Some (25, O_BitXor)
      | Op1 Lt \<Rightarrow> Some (35, O_Lt)
      | Op2 LtEq \<Rightarrow> Some (35, O_Lte)
      | Op1 Gt \<Rightarrow> Some (35, O_Gt)
      | Op2 GtEq \<Rightarrow> Some (35, O_Gte)
      | Kw KwAnd \<Rightarrow> Some (15, O_BoolAnd)
      | Kw KwOr \<Rightarrow> Some (10, O_BoolOr)
      | Op2 EqEq \<Rightarrow> Some (30, O_Eq)
      | Op2 BangEq \<Rightarrow> Some (30, O_Neq)
      | Op2 LtLt \<Rightarrow> Some (40, O_Shl)
      | Op3 LtLtPipe \<Rightarrow> Some (40, O_ShlSat)
      | Op3 LtLtPercent \<Rightarrow> Some (40, O_ShlWrap)
      | Op2 GtGt \<Rightarrow> Some (40, O_Shr)
      | Op3 GtGtPipe \<Rightarrow> Some (40, O_ShrSat)
      | Op3 GtGtPercent \<Rightarrow> Some (40, O_ShrWrap)
      | _ \<Rightarrow> None)"

text \<open>The operator is consumed when there is one.\<close>

definition infix_op_of :: "token_kind \<Rightarrow> infix_op option parse" where
  "infix_op_of k =
     (case infix_entry k of
        None \<Rightarrow> p_ret None
      | Some (l, ok) \<Rightarrow> p_seq p_advance (p_ret (Some (infix_left l ok))))"

datatype prefix_expr_layer = Pre_Neg span | Pre_Pos span | Pre_Not span | Pre_BitNot span | Pre_AddressOf span | Pre_Try span

definition prefix_layer_of :: "token \<Rightarrow> prefix_expr_layer option" where
  "prefix_layer_of t =
     (case tok_kind t of
        Op1 Minus \<Rightarrow> Some (Pre_Neg (tok_span t))
      | Op1 Plus \<Rightarrow> Some (Pre_Pos (tok_span t))
      | Op1 Bang \<Rightarrow> Some (Pre_Not (tok_span t))
      | Op1 Tilde \<Rightarrow> Some (Pre_BitNot (tok_span t))
      | Op1 Amp \<Rightarrow> Some (Pre_AddressOf (tok_span t))
      | Kw KwTry \<Rightarrow> Some (Pre_Try (tok_span t))
      | _ \<Rightarrow> None)"

fun prefix_expr_layers :: "nat \<Rightarrow> prefix_expr_layer list \<Rightarrow> prefix_expr_layer list parse" where
  "prefix_expr_layers 0 layers = p_no_fuel"
| "prefix_expr_layers (Suc n) layers =
     p_bind p_peek (\<lambda>t.
       case prefix_layer_of t of
         Some l \<Rightarrow> p_seq p_advance (prefix_expr_layers n (layers @ [l]))
       | None \<Rightarrow> p_ret layers)"

fun wrap_prefix :: "prefix_expr_layer list \<Rightarrow> expr \<Rightarrow> expr parse" where
  "wrap_prefix [] e = p_ret e"
| "wrap_prefix (l # ls) e =
     (let (k, start) =
        (case l of
           Pre_Neg sp \<Rightarrow> (E_Neg e, sp)
         | Pre_Pos sp \<Rightarrow> (E_Pos e, sp)
         | Pre_Not sp \<Rightarrow> (E_Not e, sp)
         | Pre_BitNot sp \<Rightarrow> (E_BitNot e, sp)
         | Pre_AddressOf sp \<Rightarrow> (E_AddressOf e, sp)
         | Pre_Try sp \<Rightarrow> (E_Try e, sp))
      in p_bind next_id (\<lambda>i. wrap_prefix ls (Expr i k (span_join start (expr_span e)))))"

definition parse_group_expr :: "parser_env \<Rightarrow> calls \<Rightarrow> bool \<Rightarrow> expr option parse" where
  "parse_group_expr E R allow_init =
     p_bind (group_starts (fuel R) []) (\<lambda>starts.
     p_bind (if allow_init then expect_expr E R else expect_expr_no_init E R) (\<lambda>e.
       p_map Some (close_groups E (rev starts) e)))"

definition primary_kind :: "parser_env \<Rightarrow> calls \<Rightarrow> bool \<Rightarrow> token \<Rightarrow> (expr expr_kind + expr option) parse" where
  "primary_kind E R allow_init t =
     (let other = p_map Inr (if allow_init then parse_init_expr E R else ty_call R) in
      case tok_kind t of
        Op1 LParen \<Rightarrow> p_map Inr (parse_group_expr E R allow_init)
      | Op1 LBrace \<Rightarrow> p_map (\<lambda>b. Inl (E_Block b)) (parse_block_impl E R None False (tok_span t) Ctx_Value)
      | Ident _ ik \<Rightarrow>
          p_bind (p_peek_nth 1) (\<lambda>nxt.
            if ik = User \<and> tok_kind nxt = Op1 Colon then p_map Inl (labeled_control_flow E R Ctx_Value) else other)
      | Kw KwIf \<Rightarrow> p_map Inl (parse_if_impl E R Ctx_Value)
      | Kw KwWhile \<Rightarrow> p_map Inl (parse_while_impl E R None False Ctx_Value)
      | Kw KwFor \<Rightarrow> p_map Inl (parse_for_impl E R None False Ctx_Value)
      | Kw KwLoop \<Rightarrow> p_map Inl (parse_loop_impl E R None Ctx_Value)
      | Kw KwSwitch \<Rightarrow> p_map Inl (parse_switch_impl E R None Ctx_Value)
      | Dir DirInline \<Rightarrow> p_seq p_advance (p_map Inl (parse_inline_loop E R None Ctx_Value))
      | Op1 Underscore \<Rightarrow> p_seq p_advance (p_ret (Inl E_Discard))
      | _ \<Rightarrow> other)"

definition parse_primary_expr :: "parser_env \<Rightarrow> calls \<Rightarrow> bool \<Rightarrow> expr option parse" where
  "parse_primary_expr E R allow_init =
     p_bind p_peek (\<lambda>t. p_bind (primary_kind E R allow_init t) (finish_primary (tok_span t)))"

definition parse_prefix_expr :: "parser_env \<Rightarrow> calls \<Rightarrow> bool \<Rightarrow> expr option parse" where
  "parse_prefix_expr E R allow_init =
     p_bind (prefix_expr_layers (fuel R) []) (\<lambda>layers.
       if layers = [] then parse_primary_expr E R allow_init
       else p_bind (parse_primary_expr E R allow_init) (\<lambda>r.
              case r of
                None \<Rightarrow> p_bind p_peek (\<lambda>t. p_err (diag_expected_expression E t))
              | Some e \<Rightarrow> p_map Some (wrap_prefix (rev layers) e)))"

fun expr_loop :: "nat \<Rightarrow> parser_env \<Rightarrow> calls \<Rightarrow> nat \<Rightarrow> bool \<Rightarrow> expr \<Rightarrow> expr option parse" where
  "expr_loop 0 E R min_bp allow_init lhs = p_no_fuel"
| "expr_loop (Suc n) E R min_bp allow_init lhs =
     p_bind p_get_offset (\<lambda>start.
     p_bind p_peek (\<lambda>t.
     p_bind (infix_op_of (tok_kind t)) (\<lambda>op.
       case op of
         None \<Rightarrow> p_seq (p_set_offset start) (p_ret (Some lhs))
       | Some op \<Rightarrow>
           p_bind p_peek (\<lambda>t.
             if lbp op < min_bp \<or> tok_kind t = Op1 Eq then p_seq (p_set_offset start) (p_ret (Some lhs))
             else p_bind (expr_call R (rbp op) allow_init) (\<lambda>r.
               case r of
                 None \<Rightarrow> p_bind p_peek (\<lambda>t. p_err (diag_expected_expression E t))
               | Some rhs \<Rightarrow>
                   p_bind next_id (\<lambda>i.
                     expr_loop n E R min_bp allow_init
                       (Expr i (E_Bin (op_kind op) lhs rhs) (span_join (expr_span lhs) (expr_span rhs)))))))))"

definition parse_expr_precedence :: "parser_env \<Rightarrow> calls \<Rightarrow> nat \<Rightarrow> bool \<Rightarrow> expr option parse" where
  "parse_expr_precedence E R min_bp allow_init =
     p_bind (parse_prefix_expr E R allow_init) (\<lambda>r.
       case r of
         None \<Rightarrow> p_ret None
       | Some lhs \<Rightarrow> expr_loop (fuel R) E R min_bp allow_init lhs)"

section \<open>The knot and the module\<close>

text \<open>The methods with recursion to depth \<open>n\<close>.\<close>

primrec calls_at :: "parser_env \<Rightarrow> nat \<Rightarrow> calls" where
  "calls_at E 0 = \<lparr>fuel = 0, ty_call = p_no_fuel, expr_call = (\<lambda>_ _. p_no_fuel)\<rparr>"
| "calls_at E (Suc n) =
     \<lparr>fuel = Suc n, ty_call = parse_ty_expr E (calls_at E n), expr_call = parse_expr_precedence E (calls_at E n)\<rparr>"

definition parser_new :: "token list \<Rightarrow> diagnostic list \<Rightarrow> module_id \<Rightarrow> parser" where
  "parser_new ts lex_errors m = \<lparr>p_errors = lex_errors, p_next_id = 0, p_tokens = ts, p_offset = 0, p_module = m\<rparr>"

text \<open>\<^verbatim>\<open>Result<Module, Vec<Diagnostic>>\<close>: the errors are taken out of the parser.\<close>

definition take_parse_errors :: "(diagnostic list + module_kind) parse" where
  "take_parse_errors s = Ok (Inl (p_errors s)) (s\<lparr>p_errors := []\<rparr>)"

definition parse_module :: "nat \<Rightarrow> parser_env \<Rightarrow> (diagnostic list + module_kind) parse" where
  "parse_module n E =
     p_bind p_peek (\<lambda>t.
       if is_eof_token t then p_ret (Inr (Module_StructDecl (StructTy [] [] False False (tok_span t))))
       else
         p_match (parse_struct_decl E (calls_at E n) True False False (tok_span t))
           (\<lambda>decl s. if p_errors s \<noteq> [] then take_parse_errors s else Ok (Inr (Module_StructDecl decl)) s)
           (\<lambda>err. p_seq (p_push_error E err) take_parse_errors))"

end
