(* ===== verification/Vif_Parser_Safety.thy ===== *)
theory Vif_Parser_Safety
  imports Vif_Grammar_Expr
begin

text \<open>
  Memory safety of the parser. A state is \<open>at ts lo\<close> when it reads the token stream \<open>ts\<close> at an offset from
  \<open>lo\<close> up to the end-of-file token; \<open>safe C P m\<close> says that \<open>m\<close>, started in such a state that satisfies \<open>P\<close>,
  with \<open>C\<close> true of stream and lower bound, ends in such a state again, and never in a fault other than the
  one of an exhausted id supply. There is one rule per combinator and one lemma per method.
\<close>

section \<open>Judgement\<close>

definition stream :: "token list \<Rightarrow> bool" where
  "stream ts \<longleftrightarrow> ts \<noteq> [] \<and> tok_kind (last ts) = Eof \<and> (\<forall>i < length ts - 1. tok_kind (ts ! i) \<noteq> Eof)"

definition at :: "token list \<Rightarrow> nat \<Rightarrow> parser \<Rightarrow> bool" where
  "at ts lo s \<longleftrightarrow> stream ts \<and> p_tokens s = ts \<and> lo \<le> p_offset s \<and> p_offset s < length ts"

primrec good :: "token list \<Rightarrow> nat \<Rightarrow> 'a parse_result \<Rightarrow> bool" where
  "good ts lo NoFuel \<longleftrightarrow> True"
| "good ts lo (Fault e) \<longleftrightarrow> e = IdOverflow"
| "good ts lo (Ok x s) \<longleftrightarrow> at ts lo s"
| "good ts lo (Err d s) \<longleftrightarrow> at ts lo s"

definition cur :: "parser \<Rightarrow> token_kind" where
  "cur s = tok_kind (p_tokens s ! p_offset s)"

definition safe :: "(token list \<Rightarrow> nat \<Rightarrow> bool) \<Rightarrow> (parser \<Rightarrow> bool) \<Rightarrow> 'a parse \<Rightarrow> bool" where
  "safe C P m \<longleftrightarrow> (\<forall>ts lo s. at ts lo s \<longrightarrow> C ts lo \<longrightarrow> P s \<longrightarrow> good ts lo (m s))"

text \<open>Behind the first token, and strictly before the end of the stream.\<close>

abbreviation behind :: "token list \<Rightarrow> nat \<Rightarrow> bool" where "behind ts lo \<equiv> 1 \<le> lo"
abbreviation inner :: "token list \<Rightarrow> nat \<Rightarrow> bool" where "inner ts lo \<equiv> 1 \<le> lo \<and> Suc lo < length ts"
abbreviation anywhere :: "parser \<Rightarrow> bool" where "anywhere s \<equiv> True"

abbreviation keeps :: "'a parse \<Rightarrow> bool" where "keeps m \<equiv> safe behind anywhere m"

text \<open>Computations that do not move.\<close>

definition still :: "'a parse \<Rightarrow> bool" where
  "still m \<longleftrightarrow> (\<forall>s. case m s of NoFuel \<Rightarrow> True | Fault e \<Rightarrow> e = IdOverflow | Err d s' \<Rightarrow> False
     | Ok x s' \<Rightarrow> p_tokens s' = p_tokens s \<and> p_offset s' = p_offset s)"

lemma safeI: "(\<And>ts lo s. at ts lo s \<Longrightarrow> C ts lo \<Longrightarrow> P s \<Longrightarrow> good ts lo (m s)) \<Longrightarrow> safe C P m"
  by (simp add: safe_def)

lemma safeD: "safe C P m \<Longrightarrow> at ts lo s \<Longrightarrow> C ts lo \<Longrightarrow> P s \<Longrightarrow> good ts lo (m s)"
  by (simp add: safe_def)

lemma safe_weaken:
  "safe C P m \<Longrightarrow> (\<And>ts lo. C' ts lo \<Longrightarrow> C ts lo) \<Longrightarrow> (\<And>s. P' s \<Longrightarrow> P s) \<Longrightarrow> safe C' P' m"
  by (simp add: safe_def)

lemma keeps_safe: "keeps m \<Longrightarrow> (\<And>ts lo. C ts lo \<Longrightarrow> 1 \<le> lo) \<Longrightarrow> safe C P m"
  by (simp add: safe_def)

lemma stream_eof_last: "stream ts \<Longrightarrow> i < length ts \<Longrightarrow> tok_kind (ts ! i) = Eof \<longleftrightarrow> i = length ts - 1"
  unfolding stream_def by (metis One_nat_def Suc_leI Suc_pred diff_less last_conv_nth le_neq_implies_less length_greater_0_conv lessI less_Suc_eq_le)

lemma at_advance: "at ts lo s \<Longrightarrow> cur s \<noteq> Eof \<Longrightarrow> at ts lo (s\<lparr>p_offset := Suc (p_offset s)\<rparr>) \<and> Suc lo < length ts"
  using stream_eof_last [of ts "p_offset s"] by (auto simp: at_def cur_def)

lemma at_same: "at ts lo s \<Longrightarrow> p_tokens s' = p_tokens s \<Longrightarrow> p_offset s' = p_offset s \<Longrightarrow> at ts lo s'"
  by (simp add: at_def)

section \<open>Rules for the combinators\<close>

lemma safe_ret: "safe C P (p_ret x)"
  by (simp add: safe_def p_ret_def)

lemma safe_err: "safe C P (p_err f)"
  by (simp add: safe_def p_err_def)

lemma safe_no_fuel: "safe C P p_no_fuel"
  by (simp add: safe_def p_no_fuel_def)

lemma safe_bind:
  assumes "safe C P m" and "\<And>x. safe C anywhere (f x)"
  shows "safe C P (p_bind m f)"
proof (rule safeI)
  fix ts lo s
  assume "at ts lo s" "C ts lo" "P s"
  then have "good ts lo (m s)" and "\<And>x s'. at ts lo s' \<Longrightarrow> good ts lo (f x s')"
    using assms by (auto simp: safe_def)
  then show "good ts lo (p_bind m f s)" by (cases "m s") (simp_all add: p_bind_def)
qed

lemma safe_seq: "safe C P m \<Longrightarrow> safe C anywhere n \<Longrightarrow> safe C P (p_seq m n)"
  by (simp add: p_seq_def safe_bind)

lemma safe_map: "safe C P m \<Longrightarrow> safe C P (p_map f m)"
  by (simp add: p_map_def safe_bind safe_ret)

lemma safe_match:
  assumes "safe C P m" and "\<And>x. safe C anywhere (f x)" and "\<And>d. safe C anywhere (g d)"
  shows "safe C P (p_match m f g)"
proof (rule safeI)
  fix ts lo s
  assume "at ts lo s" "C ts lo" "P s"
  then have "good ts lo (m s)" and "\<And>x s'. at ts lo s' \<Longrightarrow> good ts lo (f x s')" and "\<And>d s'. at ts lo s' \<Longrightarrow> good ts lo (g d s')"
    using assms by (auto simp: safe_def)
  then show "good ts lo (p_match m f g s)" by (cases "m s") (simp_all add: p_match_def)
qed

lemma safe_bind_still:
  assumes "still m" and "\<And>x. safe C P (f x)" and "\<And>s s'. P s \<Longrightarrow> p_tokens s' = p_tokens s \<Longrightarrow> p_offset s' = p_offset s \<Longrightarrow> P s'"
  shows "safe C P (p_bind m f)"
proof (rule safeI)
  fix ts lo s
  assume a: "at ts lo s" "C ts lo" "P s"
  show "good ts lo (p_bind m f s)"
  proof (cases "m s")
    case (Ok x s')
    then have "p_tokens s' = p_tokens s" "p_offset s' = p_offset s"
      using assms(1) by (auto simp: still_def split: parse_result.splits dest: spec [of _ s])
    then show ?thesis using Ok a assms(2,3) at_same [OF a(1)] by (auto simp: p_bind_def safe_def)
  qed (use assms(1) in \<open>auto simp: p_bind_def still_def split: parse_result.splits dest: spec [of _ s]\<close>)
qed

lemma safe_if: "(b \<Longrightarrow> safe C P m) \<Longrightarrow> (\<not> b \<Longrightarrow> safe C P n) \<Longrightarrow> safe C P (if b then m else n)"
  by simp

lemma safe_Let: "(\<And>x. x = y \<Longrightarrow> safe C P (f x)) \<Longrightarrow> safe C P (let x = y in f x)"
  by simp

lemma safe_option: "(x = None \<Longrightarrow> safe C P m) \<Longrightarrow> (\<And>y. x = Some y \<Longrightarrow> safe C P (f y)) \<Longrightarrow> safe C P (case x of None \<Rightarrow> m | Some y \<Rightarrow> f y)"
  by (cases x) simp_all

lemma safe_prod: "(\<And>a b. x = (a, b) \<Longrightarrow> safe C P (f a b)) \<Longrightarrow> safe C P (case x of (a, b) \<Rightarrow> f a b)"
  by (cases x) simp

lemma safe_sum: "(\<And>a. x = Inl a \<Longrightarrow> safe C P (f a)) \<Longrightarrow> (\<And>b. x = Inr b \<Longrightarrow> safe C P (g b)) \<Longrightarrow> safe C P (case x of Inl a \<Rightarrow> f a | Inr b \<Rightarrow> g b)"
  by (cases x) simp_all

section \<open>Rules for the cursor\<close>

lemma safe_peek:
  assumes "\<And>t. safe C (\<lambda>s. P s \<and> cur s = tok_kind t) (f t)"
  shows "safe C P (p_bind p_peek f)"
  using assms by (auto simp: safe_def p_bind_def p_peek_def at_def cur_def)

lemma safe_get_offset:
  assumes "\<And>o'. safe (\<lambda>ts lo. C ts lo \<and> lo \<le> o' \<and> o' < length ts) P (f o')"
  shows "safe C P (p_bind p_get_offset f)"
  using assms by (auto simp: safe_def p_bind_def p_get_offset_def at_def)

lemma safe_set_offset: "(\<And>ts lo. C ts lo \<Longrightarrow> lo \<le> n \<and> n < length ts) \<Longrightarrow> safe C P (p_set_offset n)"
  by (auto simp: safe_def p_set_offset_def at_def)

lemma safe_inner:
  assumes "\<And>s. P s \<Longrightarrow> cur s \<noteq> Eof" and "safe (\<lambda>ts lo. C ts lo \<and> Suc lo < length ts) P m"
  shows "safe C P m"
  using assms at_advance by (fastforce simp: safe_def)

lemma safe_advance:
  assumes "\<And>s. P s \<Longrightarrow> cur s \<noteq> Eof" and "safe (\<lambda>ts lo. C ts lo \<and> Suc lo < length ts) anywhere n"
  shows "safe C P (p_seq p_advance n)"
  using assms at_advance by (fastforce simp: safe_def p_seq_def p_bind_def p_advance_def)

lemma safe_advance_end: "(\<And>s. P s \<Longrightarrow> cur s \<noteq> Eof) \<Longrightarrow> safe C P p_advance"
  using at_advance by (fastforce simp: safe_def p_advance_def)

lemma bump_at:
  assumes "at ts lo s"
  shows "cur s = Eof \<Longrightarrow> p_bump s = Ok (ts ! p_offset s) s"
    and "cur s \<noteq> Eof \<Longrightarrow> p_bump s = Ok (ts ! p_offset s) (s\<lparr>p_offset := Suc (p_offset s)\<rparr>)"
  using assms by (simp_all add: p_bump_def at_def Let_def is_eof_token_def cur_def)

lemma good_bump: "at ts lo s \<Longrightarrow> good ts lo (p_bump s)"
  using at_advance [of ts lo s] bump_at [of ts lo s] by (cases "cur s = Eof") simp_all

lemma safe_bump: "safe C P p_bump"
  by (auto intro: safeI good_bump)

lemma safe_prev: "(\<And>ts lo. C ts lo \<Longrightarrow> 1 \<le> lo) \<Longrightarrow> safe C P p_prev"
  by (fastforce simp: safe_def p_prev_def at_def)

lemma still_prims:
  "still next_id" "still (p_push_error E d)" "still (p_report E f)" "still p_get_offset" "still (p_ret x)"
  by (simp_all add: still_def next_id_def p_push_error_def p_report_def p_get_offset_def p_ret_def)

lemma still_safe:
  assumes "still m"
  shows "safe C P m"
proof (rule safeI)
  fix ts lo s
  assume "at ts lo s"
  moreover have "case m s of NoFuel \<Rightarrow> True | Fault e \<Rightarrow> e = IdOverflow | Err d s' \<Rightarrow> False
     | Ok x s' \<Rightarrow> p_tokens s' = p_tokens s \<and> p_offset s' = p_offset s"
    using assms by (simp add: still_def)
  ultimately show "good ts lo (m s)" by (cases "m s") (auto intro: at_same)
qed

lemma safe_prims:
  "safe C P next_id" "safe C P (p_push_error E d)" "safe C P (p_report E f)" "safe C P (diag_expected_one_of_token E (t # ts) tok)"
  by (simp_all add: still_safe still_prims)
    (cases ts; auto simp: safe_def diag_expected_one_of_token_def split: option.splits)+

lemma safe_peek_alone: "safe C P p_peek"
  by (auto simp: safe_def p_peek_def at_def)

lemma safe_peek_nth: "(\<And>t. safe C P (f t)) \<Longrightarrow> safe C P (p_bind (p_peek_nth k) f)"
  by (auto simp: safe_def p_bind_def p_peek_nth_def at_def stream_def Let_def)

text \<open>
  The three methods that read a token and put it back: at the end of the file \<^verbatim>\<open>bump\<close> does not move, so they
  go one token back instead. The bound holds because they are called behind a token that is not the last one.
\<close>

lemma safe_put_back:
  assumes "\<And>t. (\<exists>x. f t = p_ret x) \<and> tok_kind t \<noteq> Eof \<or> (\<exists>y. f t = p_seq p_retreat (p_ret y))"
    and C: "\<And>ts lo. C ts lo \<Longrightarrow> Suc lo < length ts"
  shows "safe C P (p_bind p_bump f)"
proof (rule safeI)
  fix ts lo s
  assume at: "at ts lo s" and "C ts lo"
  then have a: "at ts lo s" "Suc lo < length ts" using C by auto
  have k: "cur s = tok_kind (ts ! p_offset s)" using at by (simp add: at_def cur_def)
  from assms(1) [of "ts ! p_offset s"]
  consider (ret) x where "f (ts ! p_offset s) = p_ret x" "cur s \<noteq> Eof"
    | (undo) y where "f (ts ! p_offset s) = p_seq p_retreat (p_ret y)" "cur s \<noteq> Eof"
    | (eof) y where "f (ts ! p_offset s) = p_seq p_retreat (p_ret y)" "cur s = Eof" using k by auto
  then show "good ts lo (p_bind p_bump f s)"
  proof cases
    case ret
    then show ?thesis using at_advance [OF at] bump_at(2) [OF at] by (simp add: p_bind_def p_ret_def)
  next
    case undo
    then show ?thesis using at bump_at(2) [OF at] by (simp add: p_bind_def p_ret_def p_seq_def p_retreat_def at_def)
  next
    case eof
    have "p_offset s = length ts - 1" using at eof(2) k stream_eof_last [of ts "p_offset s"] by (simp add: at_def)
    then have "at ts lo (s\<lparr>p_offset := p_offset s - 1\<rparr>)" "p_offset s \<noteq> 0" using at a(2) by (auto simp: at_def)
    then show ?thesis using eof bump_at(1) [OF at] by (simp add: p_bind_def p_ret_def p_seq_def p_retreat_def)
  qed
qed

section \<open>Rules for case distinctions on a token\<close>

text \<open>One rule per datatype: every branch is safe under the equation that selects it.\<close>

lemma safe_token_kind:
  assumes "\<And>x. k = Op1 x \<Longrightarrow> safe C P (f1 x)" "\<And>x. k = Op2 x \<Longrightarrow> safe C P (f2 x)" "\<And>x. k = Op3 x \<Longrightarrow> safe C P (f3 x)"
    "\<And>x. k = Op4 x \<Longrightarrow> safe C P (f4 x)" "\<And>x y. k = Ident x y \<Longrightarrow> safe C P (f5 x y)" "\<And>x. k = DirectiveIdent x \<Longrightarrow> safe C P (f6 x)"
    "\<And>x y. k = LitInt x y \<Longrightarrow> safe C P (f7 x y)" "\<And>x. k = LitFloat x \<Longrightarrow> safe C P (f8 x)" "\<And>x. k = LitBool x \<Longrightarrow> safe C P (f9 x)"
    "\<And>x. k = LitStr x \<Longrightarrow> safe C P (f10 x)" "\<And>x. k = LitMultiLineStr x \<Longrightarrow> safe C P (f11 x)" "\<And>x. k = LitChar x \<Longrightarrow> safe C P (f12 x)"
    "k = LitNull \<Longrightarrow> safe C P f13" "k = DocComment \<Longrightarrow> safe C P f14" "k = ModComment \<Longrightarrow> safe C P f15"
    "\<And>x. k = Ty x \<Longrightarrow> safe C P (f16 x)" "\<And>x. k = TyU x \<Longrightarrow> safe C P (f17 x)" "\<And>x. k = TyI x \<Longrightarrow> safe C P (f18 x)"
    "\<And>x. k = Kw x \<Longrightarrow> safe C P (f19 x)" "\<And>x. k = Dir x \<Longrightarrow> safe C P (f20 x)" "k = Invalid \<Longrightarrow> safe C P f21" "k = Eof \<Longrightarrow> safe C P f22"
  shows "safe C P (case_token_kind f1 f2 f3 f4 f5 f6 f7 f8 f9 f10 f11 f12 f13 f14 f15 f16 f17 f18 f19 f20 f21 f22 k)"
  using assms by (cases k) simp_all

lemma safe_op1:
  assumes "safe C P f1" "safe C P f2" "safe C P f3" "safe C P f4" "safe C P f5" "safe C P f6" "safe C P f7" "safe C P f8" "safe C P f9"
    "safe C P f10" "safe C P f11" "safe C P f12" "safe C P f13" "safe C P f14" "safe C P f15" "safe C P f16" "safe C P f17" "safe C P f18"
    "safe C P f19" "safe C P f20" "safe C P f21" "safe C P f22" "safe C P f23" "safe C P f24" "safe C P f25" "k = Dot \<Longrightarrow> safe C P f26" "safe C P f27"
  shows "safe C P (case_op1 f1 f2 f3 f4 f5 f6 f7 f8 f9 f10 f11 f12 f13 f14 f15 f16 f17 f18 f19 f20 f21 f22 f23 f24 f25 f26 f27 k)"
  using assms by (cases k) simp_all

lemma safe_op2:
  assumes "safe C P f1" "safe C P f2" "safe C P f3" "safe C P f4" "safe C P f5" "safe C P f6" "safe C P f7" "safe C P f8" "safe C P f9"
    "safe C P f10" "safe C P f11" "safe C P f12" "safe C P f13" "safe C P f14" "safe C P f15" "safe C P f16" "safe C P f17" "safe C P f18"
    "safe C P f19" "safe C P f20" "safe C P f21" "safe C P f22" "safe C P f23" "safe C P f24" "safe C P f25"
  shows "safe C P (case_op2 f1 f2 f3 f4 f5 f6 f7 f8 f9 f10 f11 f12 f13 f14 f15 f16 f17 f18 f19 f20 f21 f22 f23 f24 f25 k)"
  using assms by (cases k) simp_all

lemma safe_op3:
  assumes "safe C P f1" "safe C P f2" "safe C P f3" "safe C P f4" "safe C P f5" "safe C P f6" "safe C P f7" "safe C P f8" "safe C P f9"
    "safe C P f10" "safe C P f11" "safe C P f12" "safe C P f13"
  shows "safe C P (case_op3 f1 f2 f3 f4 f5 f6 f7 f8 f9 f10 f11 f12 f13 k)"
  using assms by (cases k) simp_all

lemma safe_keyword:
  assumes "safe C P f1" "safe C P f2" "safe C P f3" "safe C P f4" "safe C P f5" "safe C P f6" "safe C P f7" "safe C P f8" "safe C P f9"
    "safe C P f10" "safe C P f11" "safe C P f12" "safe C P f13" "safe C P f14" "safe C P f15" "safe C P f16" "safe C P f17" "safe C P f18"
    "safe C P f19" "safe C P f20" "safe C P f21" "safe C P f22" "safe C P f23" "safe C P f24" "safe C P f25" "safe C P f26" "safe C P f27"
  shows "safe C P (case_keyword f1 f2 f3 f4 f5 f6 f7 f8 f9 f10 f11 f12 f13 f14 f15 f16 f17 f18 f19 f20 f21 f22 f23 f24 f25 f26 f27 k)"
  using assms by (cases k) simp_all

lemma safe_directive:
  assumes "safe C P f1" "safe C P f2" "safe C P f3" "safe C P f4" "safe C P f5" "safe C P f6" "safe C P f7"
  shows "safe C P (case_directive f1 f2 f3 f4 f5 f6 f7 k)"
  using assms by (cases k) simp_all

lemma safe_ident_kind:
  assumes "safe C P f1" "safe C P f2" "safe C P f3" "safe C P f4"
  shows "safe C P (case_ident_kind f1 f2 f3 f4 k)"
  using assms by (cases k) simp_all

lemma safe_ctx: "safe C P m \<Longrightarrow> safe C P n \<Longrightarrow> safe C P (case c of Ctx_Ty \<Rightarrow> m | Ctx_Value \<Rightarrow> n)"
  by (cases c) simp_all

lemmas safe_cases = safe_if safe_Let safe_option safe_prod safe_sum safe_token_kind safe_op1 safe_op2 safe_op3 safe_keyword
  safe_directive safe_ident_kind safe_ctx

section \<open>Cursor methods and leaves\<close>

named_theorems safe_method

lemmas safe_rules = safe_peek safe_get_offset safe_peek_nth safe_advance safe_advance_end safe_bind safe_seq safe_map
  safe_match safe_ret safe_err safe_no_fuel safe_cases safe_prims safe_prev safe_bump safe_peek_alone

lemma safe_eat_expect [safe_method]: "safe C P (p_eat_expect E t)" "safe C P (p_peek_expect E t)"
  unfolding p_eat_expect_def p_peek_expect_def by (rule safe_rules)+

lemma safe_eat_expect_bind:
  assumes "\<And>k. tag k = t \<Longrightarrow> safe C anywhere (f k)"
  shows "safe C P (p_bind (p_eat_expect E t) f)"
proof (rule safeI)
  fix ts lo s
  assume a: "at ts lo s" "C ts lo"
  show "good ts lo (p_bind (p_eat_expect E t) f s)"
    using good_bump [OF a(1)] a(2) assms
    by (cases "p_bump s") (auto simp: p_eat_expect_def p_bind_def p_err_def p_ret_def safe_def)
qed

lemma safe_eaten [safe_method]: "safe C P (p_eat_if t)" "safe C P (p_eaten t)"
  unfolding p_eaten_def p_eat_if_def by (rule safe_rules)+

lemma safe_behind [safe_method]: "safe C anywhere m \<Longrightarrow> safe C P (p_behind t m)"
  unfolding p_behind_def by (rule safe_rules safe_method | assumption)+

lemma safe_want [safe_method]: "safe C P (p_want E t)"
  unfolding p_want_def by (rule safe_rules safe_method)+

lemma good_eat_until: "at ts lo s \<Longrightarrow> good ts lo (p_eat_until_any tgs s)"
proof (induction tgs s rule: p_eat_until_any.induct)
  case (1 tgs s)
  show ?case
  proof (cases "tag (cur s) \<in> set tgs \<or> cur s = Eof")
    case True
    then show ?thesis using "1.prems" by (auto simp: p_eat_until_any.simps [of tgs s] at_def cur_def Let_def is_eof_token_def)
  next
    case False
    then have "at ts lo (s\<lparr>p_offset := p_offset s + 1\<rparr>)" using at_advance [OF "1.prems"] by simp
    then show ?thesis using 1 False by (auto simp: p_eat_until_any.simps [of tgs s] at_def cur_def Let_def is_eof_token_def)
  qed
qed

lemma safe_eat_until [safe_method]: "safe C P (p_eat_until t1)" "safe C P (p_eat_until2 t1 t2)" "safe C P (p_eat_until3 t1 t2 t3)"
  unfolding p_eat_until_def p_eat_until2_def p_eat_until3_def by (auto intro: safeI good_eat_until)

lemma safe_maybe [safe_method]:
  assumes "\<And>ts lo. C ts lo \<Longrightarrow> Suc lo < length ts"
  shows "safe C P maybe_assign_op" "safe C P maybe_parse_int_suffix" "safe C P maybe_parse_float_suffix"
  unfolding maybe_assign_op_def maybe_parse_int_suffix_def maybe_parse_float_suffix_def
  by (rule safe_put_back [OF _ assms]; auto split: token_kind.split op1.split op2.split op3.split op4.split ty_name.split)+

lemma safe_parse_ident [safe_method]:
  assumes "\<And>ts lo. C ts lo \<Longrightarrow> 1 \<le> lo"
  shows "safe C P (parse_ident E)"
  unfolding parse_ident_def
proof (rule safe_eat_expect_bind)
  fix k
  assume "tag k = Tag_Ident"
  then obtain x ik where "k = Ident x ik" by (cases k) auto
  then show "safe C anywhere (case k of Ident symbol ik \<Rightarrow>
      p_bind p_prev (\<lambda>prev. p_ret \<lparr>id_symbol = symbol, id_kind = ik, id_span = tok_span prev\<rparr>) | _ \<Rightarrow> p_fault UnreachableToken)"
    by (auto intro!: safe_bind safe_prev safe_ret assms)
qed

lemma parse_user_ident_keeps [THEN keeps_safe, safe_method]: "keeps (parse_user_ident E)"
  unfolding parse_user_ident_def by (rule safe_rules safe_method | simp)+

lemma missing_ident_keeps [THEN keeps_safe, safe_method]: "keeps (missing_ident E t1 t2 d)"
  unfolding missing_ident_def by (rule safe_rules safe_method | simp)+

lemma field_ident_keeps [THEN keeps_safe, safe_method]: "keeps (field_ident E)"
  unfolding field_ident_def by (rule safe_rules safe_method | simp)+

lemma decl_modifiers_safe: "safe C anywhere (decl_modifiers_loop n E ext inl)"
proof (induction n arbitrary: ext inl)
  case (Suc n)
  show ?case unfolding decl_modifiers_loop.simps by (rule safe_rules safe_method Suc.IH)+
qed (simp add: safe_no_fuel)

lemma parse_decl_modifiers_safe [safe_method]: "safe C P (parse_decl_modifiers n E)"
  unfolding parse_decl_modifiers_def by (rule safe_weaken [OF decl_modifiers_safe]) auto

section \<open>Groups and lists\<close>

text \<open>An offset that is remembered while the token there is not the end of the file, and the step over it.\<close>

lemma safe_mark:
  assumes "\<And>s. P s \<Longrightarrow> cur s \<noteq> Eof"
    and "\<And>o'. safe (\<lambda>ts lo. C ts lo \<and> tok_kind (ts ! o') \<noteq> Eof \<and> Suc lo < length ts) anywhere (f o')"
  shows "safe C P (p_bind p_get_offset f)"
proof (rule safeI)
  fix ts lo s
  assume a: "at ts lo s" "C ts lo" "P s"
  then have "tok_kind (ts ! p_offset s) \<noteq> Eof" "Suc lo < length ts" using at_advance [OF a(1) assms(1)] assms(1) by (auto simp: at_def cur_def)
  then show "good ts lo (p_bind p_get_offset f s)"
    using assms(2) [of "p_offset s"] a by (simp add: safe_def p_bind_def p_get_offset_def)
qed

lemma safe_skip:
  assumes "\<And>ts lo. C ts lo \<Longrightarrow> tok_kind (ts ! start) \<noteq> Eof" and "safe C anywhere m" and "safe C anywhere n"
  shows "safe C P (p_bind p_get_offset (\<lambda>now. if now = start then p_seq p_advance m else n))"
proof (rule safeI)
  fix ts lo s
  assume a: "at ts lo s" "C ts lo" "P s"
  show "good ts lo (p_bind p_get_offset (\<lambda>now. if now = start then p_seq p_advance m else n) s)"
  proof (cases "p_offset s = start")
    case True
    then have "cur s \<noteq> Eof" using assms(1) [OF a(2)] a(1) by (simp add: at_def cur_def)
    then have "at ts lo (s\<lparr>p_offset := Suc (p_offset s)\<rparr>)" using at_advance [OF a(1)] by simp
    then show ?thesis using True a(2) assms(2) by (simp add: safe_def p_bind_def p_get_offset_def p_seq_def p_advance_def)
  next
    case False
    then show ?thesis using a assms(3) by (simp add: safe_def p_bind_def p_get_offset_def)
  qed
qed

lemma skip_alt: "p_seq (if b then p_advance else p_ret ()) m = (if b then p_seq p_advance m else m)"
  by (auto simp: p_seq_def p_bind_def p_ret_def fun_eq_iff)

lemma eat_group_loop_keeps:
  assumes "safe inner anywhere producer"
  shows "keeps (eat_group_loop n E closing producer items)"
proof (induction n arbitrary: items)
  case (Suc n)
  note IH = keeps_safe [OF Suc.IH] and pr = safe_weaken [OF assms]
  show ?case unfolding eat_group_loop.simps skip_alt
    by (rule safe_peek safe_if safe_ret safe_mark safe_match pr safe_seq safe_prims safe_skip IH | simp add: is_eof_token_def; fail)+
qed (simp add: safe_no_fuel)

lemma eat_group_keeps [THEN keeps_safe]: "safe inner anywhere producer \<Longrightarrow> keeps (eat_group n E opening closing producer)"
  unfolding eat_group_def
  by (rule safe_rules safe_method keeps_safe [OF eat_group_loop_keeps] | assumption | simp; fail)+

lemma eat_until_cur: "p_eat_until_any tgs s = Ok k s' \<Longrightarrow> k = cur s'"
proof (induction tgs s rule: p_eat_until_any.induct)
  case (1 tgs s)
  then show ?case by (auto simp: p_eat_until_any.simps [of tgs s] Let_def cur_def split: if_splits)
qed

lemma safe_eat_until2_bind:
  assumes "\<And>k. safe C (\<lambda>s. cur s = k) (f k)"
  shows "safe C P (p_bind (p_eat_until2 a b) f)"
proof (rule safeI)
  fix ts lo s
  assume s: "at ts lo s" "C ts lo"
  show "good ts lo (p_bind (p_eat_until2 a b) f s)"
    using good_eat_until [OF s(1), of "[a, b]"] assms s(2) eat_until_cur [of "[a, b]" s]
    by (cases "p_eat_until_any [a, b] s") (auto simp: p_eat_until2_def p_bind_def safe_def)
qed

lemma eat_delimited_group_loop_keeps:
  assumes "keeps producer" and "delim \<noteq> Tag_Eof"
  shows "keeps (eat_delimited_group_loop n E closing delim producer items)"
proof (induction n arbitrary: items)
  case (Suc n)
  note IH = keeps_safe [OF Suc.IH] and pr = keeps_safe [OF assms(1)]
  have delim: "tag k = delim \<Longrightarrow> k \<noteq> Eof" for k using assms(2) by auto
  show ?case unfolding eat_delimited_group_loop.simps skip_alt
    by (rule safe_peek safe_if safe_ret safe_mark safe_bind safe_match pr safe_seq safe_prims safe_skip safe_eat_until2_bind
        safe_advance safe_eaten IH | simp add: is_eof_token_def; fail | simp add: delim; fail)+
qed (simp add: safe_no_fuel)

lemma eat_delimited_group_keeps [THEN keeps_safe]:
  "keeps producer \<Longrightarrow> delim \<noteq> Tag_Eof \<Longrightarrow> keeps (eat_delimited_group n E opening closing delim producer)"
  unfolding eat_delimited_group_def
  by (rule safe_rules safe_method keeps_safe [OF eat_delimited_group_loop_keeps] | assumption | simp; fail)+

lemma eat_delimited_loop_keeps: "keeps producer \<Longrightarrow> keeps (eat_delimited_loop n delim predicate producer items)"
proof (induction n arbitrary: items)
  case (Suc n)
  note IH = keeps_safe [OF Suc.IH] and pr = keeps_safe [OF Suc.prems]
  show ?case unfolding eat_delimited_loop.simps
    by (rule safe_peek safe_if safe_ret safe_bind pr safe_eaten IH Suc.prems | simp; fail)+
qed (simp add: safe_no_fuel)

lemma eat_delimited_keeps [THEN keeps_safe]: "keeps producer \<Longrightarrow> keeps (eat_delimited n delim predicate producer)"
  unfolding eat_delimited_def
  by (rule safe_rules safe_method keeps_safe [OF eat_delimited_loop_keeps] | assumption | simp; fail)+

section \<open>Methods\<close>

text \<open>What the bodies rely on: the recursive calls keep the cursor inside the stream.\<close>

definition calls_ok :: "calls \<Rightarrow> bool" where
  "calls_ok R \<longleftrightarrow> keeps (ty_call R) \<and> (\<forall>bp init. keeps (expr_call R bp init))"

lemma calls_keep [THEN keeps_safe, safe_method]:
  "calls_ok R \<Longrightarrow> keeps (ty_call R)"
  "calls_ok R \<Longrightarrow> keeps (expr_call R bp init)"
  by (simp_all add: calls_ok_def)

lemma expect_keeps [THEN keeps_safe, safe_method]:
  "calls_ok R \<Longrightarrow> keeps (expect_ty_expr E R)"
  "calls_ok R \<Longrightarrow> keeps (parse_expr R)"
  "calls_ok R \<Longrightarrow> keeps (expect_expr E R)"
  "calls_ok R \<Longrightarrow> keeps (expect_expr_no_init E R)"
  "calls_ok R \<Longrightarrow> keeps (expect_expr_ctx E R c)"
  "calls_ok R \<Longrightarrow> keeps (expect_expr_ctx_no_init E R c)"
  unfolding expect_ty_expr_def parse_expr_def expect_expr_def expect_expr_no_init_def expect_some_def expect_expr_ctx_def
    expect_expr_ctx_no_init_def
  by (rule safe_rules safe_method | assumption | simp; fail)+

lemma node_keeps [THEN keeps_safe, safe_method]: "keeps (p_node start f)" "keeps (make_expr start k)" "keeps (close_expr start k)"
  unfolding p_node_def make_expr_def close_expr_def by (rule safe_rules | simp; fail)+

lemma eat_delimited_ctx_keeps [THEN keeps_safe, safe_method]: "calls_ok R \<Longrightarrow> keeps (eat_delimited_ctx E R delim predicate c)"
  unfolding eat_delimited_ctx_def by (rule safe_cases eat_delimited_keeps safe_method | assumption | simp; fail)+

lemma parse_var_binding_keeps [THEN keeps_safe, safe_method]: "calls_ok R \<Longrightarrow> keeps (parse_var_binding E R)"
  unfolding parse_var_binding_def by (rule safe_rules safe_method | assumption | simp; fail)+

lemma statement_parts_keep [THEN keeps_safe, safe_method]:
  "keeps (statement_label E)"
  "keeps m \<Longrightarrow> keeps (statement_value m)"
  unfolding statement_label_def statement_value_def
  by (rule safe_rules safe_method | erule keeps_safe | simp; fail)+

lemma statement_kind_safe:
  assumes "calls_ok R"
  shows "safe inner (\<lambda>s. cur s = k) (statement_kind E R c k)"
  unfolding statement_kind_def
  by (rule safe_rules safe_method assms | simp; fail | auto; fail)+

lemma parse_statement_impl_safe:
  assumes "calls_ok R"
  shows "safe inner anywhere (parse_statement_impl E R c)"
  unfolding parse_statement_impl_def
  by (rule safe_peek safe_bind safe_prims safe_weaken [OF statement_kind_safe] assms safe_prev safe_ret | simp; fail)+

lemma block_keeps [THEN keeps_safe, safe_method]:
  "calls_ok R \<Longrightarrow> keeps (parse_block_impl E R label is_const start c)"
  "calls_ok R \<Longrightarrow> keeps (block_here E R label c)"
  unfolding parse_block_impl_def block_here_def
  by (rule safe_rules safe_method eat_group_keeps parse_statement_impl_safe | assumption | simp; fail)+

lemma if_keeps [THEN keeps_safe, safe_method]:
  "calls_ok R \<Longrightarrow> keeps (parse_if_body E R c)"
  unfolding parse_if_body_def by (rule safe_rules safe_method | assumption | simp; fail)+

lemma if_branches_keeps [THEN keeps_safe, safe_method]: "calls_ok R \<Longrightarrow> keeps (if_branches n E R c branches)"
proof (induction n arbitrary: branches)
  case (Suc n)
  show ?case unfolding if_branches.simps
    by (rule safe_rules safe_method keeps_safe [OF Suc.IH] Suc.prems | simp; fail)+
qed (simp add: safe_no_fuel)

lemma parse_if_impl_keeps [THEN keeps_safe, safe_method]: "calls_ok R \<Longrightarrow> keeps (parse_if_impl E R c)"
  unfolding parse_if_impl_def by (rule safe_rules safe_method | assumption | simp; fail)+

lemma loop_keeps [THEN keeps_safe, safe_method]:
  "calls_ok R \<Longrightarrow> keeps (parse_while_impl E R label inl c)"
  "calls_ok R \<Longrightarrow> keeps (parse_for_impl E R label inl c)"
  "calls_ok R \<Longrightarrow> keeps (parse_loop_impl E R label c)"
  unfolding parse_while_impl_def parse_for_impl_def parse_loop_impl_def
  by (rule safe_rules safe_method | assumption | simp; fail)+

lemma switch_parts_keep [THEN keeps_safe, safe_method]:
  "calls_ok R \<Longrightarrow> keeps (parse_switch_body E R c)"
  "keeps (switch_capture E)"
  unfolding parse_switch_body_def switch_capture_def
  by (rule safe_rules safe_method | assumption | simp; fail)+

lemma switch_cases_keeps [THEN keeps_safe, safe_method]: "calls_ok R \<Longrightarrow> keeps (switch_cases n E R c cases)"
proof (induction n arbitrary: cases)
  case (Suc n)
  show ?case unfolding switch_cases.simps
    by (rule safe_rules safe_method keeps_safe [OF Suc.IH] Suc.prems | simp; fail)+
qed (simp add: safe_no_fuel)

lemma switch_else_keeps [THEN keeps_safe, safe_method]: "calls_ok R \<Longrightarrow> keeps (switch_else E R c)"
  unfolding switch_else_def by (rule safe_rules safe_method | assumption | simp; fail)+

lemma parse_switch_impl_keeps [THEN keeps_safe, safe_method]: "calls_ok R \<Longrightarrow> keeps (parse_switch_impl E R label c)"
  unfolding parse_switch_impl_def by (rule safe_rules safe_method | assumption | simp; fail)+

lemma parse_inline_loop_keeps [THEN keeps_safe, safe_method]: "calls_ok R \<Longrightarrow> keeps (parse_inline_loop E R label c)"
  unfolding parse_inline_loop_def by (rule safe_rules safe_method | assumption | simp; fail)+

lemma labeled_keeps [THEN keeps_safe, safe_method]:
  "calls_ok R \<Longrightarrow> keeps (parse_labeled_control_flow E R label c)"
  "calls_ok R \<Longrightarrow> keeps (labeled_control_flow E R c)"
  unfolding parse_labeled_control_flow_def labeled_control_flow_def
  by (rule safe_rules safe_method | assumption | simp; fail)+

lemma init_keeps [THEN keeps_safe, safe_method]:
  "calls_ok R \<Longrightarrow> keeps (parse_struct_field_init E R)"
  "calls_ok R \<Longrightarrow> keeps (parse_struct_init_expr E R lhs)"
  "calls_ok R \<Longrightarrow> keeps (parse_array_init_expr E R lhs)"
  "calls_ok R \<Longrightarrow> keeps (init_kind E R lhs)"
  "calls_ok R \<Longrightarrow> keeps (parse_init_expr E R)"
  unfolding parse_struct_field_init_def parse_struct_init_expr_def parse_array_init_expr_def init_kind_def parse_init_expr_def
  by (rule safe_rules safe_method eat_delimited_group_keeps | assumption | simp; fail)+

lemma call_args_keeps [THEN keeps_safe, safe_method]: "calls_ok R \<Longrightarrow> keeps (call_args n E R args)"
proof (induction n arbitrary: args)
  case (Suc n)
  show ?case unfolding call_args.simps
    by (rule safe_rules safe_method keeps_safe [OF Suc.IH] Suc.prems | simp; fail)+
qed (simp add: safe_no_fuel)

lemma parse_fn_call_keeps [THEN keeps_safe, safe_method]: "calls_ok R \<Longrightarrow> keeps (parse_fn_call E R callee)"
  unfolding parse_fn_call_def by (rule safe_rules safe_method | assumption | simp; fail)+

section \<open>Declarations\<close>

lemma safe_put_id: "safe C P (\<lambda>s. Ok x (s\<lparr>p_next_id := i\<rparr>))"
  by (simp add: safe_def at_def)

lemma safe_report_const_param [safe_method]: "safe C P (report_const_param E t)"
  unfolding report_const_param_def by (rule safe_prims)

lemma fn_params_keeps [THEN keeps_safe, safe_method]: "calls_ok R \<Longrightarrow> keeps (fn_params_loop n E R is_type_decl params)"
proof (induction n arbitrary: params)
  case (Suc n)
  show ?case unfolding fn_params_loop.simps
    by (rule safe_rules safe_method keeps_safe [OF Suc.IH] Suc.prems | simp; fail)+
qed (simp add: safe_no_fuel)

lemma fn_callconv_keeps [THEN keeps_safe, safe_method]: "calls_ok R \<Longrightarrow> keeps (fn_callconv E R is_type_decl)"
  unfolding fn_callconv_def by (rule safe_rules safe_method | assumption | simp; fail)+

lemma parse_fn_decl_keeps [THEN keeps_safe, safe_method]: "calls_ok R \<Longrightarrow> keeps (parse_fn_decl E R is_type_decl)"
  unfolding parse_fn_decl_def by (rule safe_rules safe_method safe_put_id | assumption | simp; fail)+

text \<open>The \<^verbatim>\<open>unwrap\<close> of the return type: outside type declarations there always is one.\<close>

lemma bind_OkE:
  assumes "p_bind m f s = Ok y s'"
  obtains x s1 where "m s = Ok x s1" and "f x s1 = Ok y s'"
  using assms by (auto simp: p_bind_def split: parse_result.splits)

lemma parse_fn_decl_ret_ty: "parse_fn_decl E R False s = Ok (params, callconv, ret_ty, variadic) s' \<Longrightarrow> ret_ty \<noteq> None"
  unfolding parse_fn_decl_def p_seq_def p_map_def by (auto elim!: bind_OkE simp: p_ret_def)

lemma safe_bind_value:
  assumes "safe C P m" and "\<And>s x s'. m s = Ok x s' \<Longrightarrow> Q x" and "\<And>x. Q x \<Longrightarrow> safe C anywhere (f x)"
  shows "safe C P (p_bind m f)"
proof (rule safeI)
  fix ts lo s
  assume a: "at ts lo s" "C ts lo" "P s"
  then have "good ts lo (m s)" using assms(1) by (simp add: safe_def)
  then show "good ts lo (p_bind m f s)" using a(2) assms(2) [of s] assms(3) by (cases "m s") (auto simp: p_bind_def safe_def)
qed

lemma parse_associated_function_keeps [THEN keeps_safe, safe_method]:
  assumes "calls_ok R"
  shows "keeps (parse_associated_function E R is_pub is_comptime ext inl start allow_bodyless)"
proof -
  have val: "case x of (params, callconv, ret_ty, variadic) \<Rightarrow> ret_ty \<noteq> None" if "parse_fn_decl E R False s = Ok x s'" for s x s'
    using that parse_fn_decl_ret_ty by (auto split: prod.splits)
  show ?thesis unfolding parse_associated_function_def
    by (rule safe_bind_value [OF parse_fn_decl_keeps [OF assms] val] safe_rules safe_method assms | simp; fail | auto; fail)+
qed

lemma parse_associated_binding_keeps [THEN keeps_safe, safe_method]:
  "calls_ok R \<Longrightarrow> keeps (parse_associated_binding E R is_pub start is_const)"
  unfolding parse_associated_binding_def by (rule safe_rules safe_method | assumption | simp; fail)+

lemma member_keeps [THEN keeps_safe, safe_method]:
  "calls_ok R \<Longrightarrow> keeps (parse_field_def E R is_pub start)"
  "calls_ok R \<Longrightarrow> keeps (parse_enum_variant_def E R start)"
  "calls_ok R \<Longrightarrow> keeps (parse_union_field_def E R start)"
  unfolding parse_field_def_def parse_enum_variant_def_def parse_union_field_def_def
  by (rule safe_rules safe_method | assumption | simp; fail)+

lemma decl_items_keeps [THEN keeps_safe]:
  assumes "calls_ok R" and "\<And>b sp. keeps (member b sp)"
  shows "keeps (decl_items n E R is_root with_comptime member fs items comma)"
proof (induction n arbitrary: fs items comma)
  case (Suc n)
  show ?case unfolding decl_items.simps
    by (rule safe_rules safe_method keeps_safe [OF Suc.IH] keeps_safe [OF assms(2)] assms(1) | simp; fail)+
qed (simp add: safe_no_fuel)

lemma open_body_safe [safe_method]: "safe C P (open_body E is_root)"
  unfolding open_body_def by (rule safe_rules safe_method)+

lemma decl_body_keeps [THEN keeps_safe]:
  "calls_ok R \<Longrightarrow> (\<And>b sp. keeps (member b sp)) \<Longrightarrow> keeps (decl_body E R is_root with_comptime member start)"
  unfolding decl_body_def
  by (rule safe_rules safe_method decl_items_keeps | assumption | simp; fail)+

lemma decl_keeps [THEN keeps_safe, safe_method]:
  "calls_ok R \<Longrightarrow> keeps (parse_struct_decl E R is_root is_packed is_linear start)"
  "calls_ok R \<Longrightarrow> keeps (parse_enum_decl E R is_root is_packed is_linear start)"
  "calls_ok R \<Longrightarrow> keeps (parse_union_decl E R is_root is_linear start)"
  unfolding parse_struct_decl_def parse_enum_decl_def parse_union_decl_def
  by (rule safe_rules safe_method decl_body_keeps | assumption | simp; fail)+

end
