(* ===== verification/Vif_Parser_Memory.thy ===== *)
theory Vif_Parser_Memory
  imports Vif_Parser_Safety Vif_Lexer_Props
begin

text \<open>
  Memory safety of the parser, continued: type and value expressions, the knot of the recursion, the module, and
  the composition with the lexer.
\<close>

section \<open>Type expressions\<close>

lemma safe_errors_push [safe_method]: "safe C P (p_errors_push f)"
  by (simp add: safe_def p_errors_push_def at_def)

lemma still_redundant: "still (redundant E saw qualifier t)"
  by (simp add: still_def redundant_def p_errors_push_def p_ret_def)

lemma safe_redundant_advance:
  assumes "\<And>s. P s \<Longrightarrow> cur s = k" and "k \<noteq> Eof" and "safe C anywhere m"
  shows "safe C P (p_seq (redundant E saw qualifier t) (p_seq p_advance m))"
proof (rule safe_weaken)
  show "safe C (\<lambda>s. cur s = k) (p_seq (redundant E saw qualifier t) (p_seq p_advance m))"
    unfolding p_seq_def [of "redundant _ _ _ _"]
    by (rule safe_bind_still [OF still_redundant] safe_advance safe_weaken [OF assms(3)] | use assms(2) in \<open>simp add: cur_def\<close>; fail)+
qed (use assms(1) in auto)

lemma ptr_modifiers_loop_keeps: "calls_ok R \<Longrightarrow> keeps (ptr_modifiers_loop n E R saw_const saw_volatile saw_addrspace mods)"
proof (induction n arbitrary: saw_const saw_volatile saw_addrspace mods)
  case (Suc n)
  show ?case unfolding ptr_modifiers_loop.simps
    by (rule safe_redundant_advance safe_rules safe_method keeps_safe [OF Suc.IH] Suc.prems | simp; fail | auto; fail)+
qed (simp add: safe_no_fuel)

lemma parse_ptr_modifiers_keeps [THEN keeps_safe, safe_method]: "calls_ok R \<Longrightarrow> keeps (parse_ptr_modifiers E R)"
  unfolding parse_ptr_modifiers_def by (rule ptr_modifiers_loop_keeps)

lemma bracket_layer_keeps [THEN keeps_safe, safe_method]: "calls_ok R \<Longrightarrow> keeps (bracket_layer E R start)"
  unfolding bracket_layer_def by (rule safe_rules safe_method | assumption | simp; fail)+

lemma prefix_ty_layers_keeps [THEN keeps_safe, safe_method]: "calls_ok R \<Longrightarrow> keeps (prefix_ty_layers n E R layers)"
proof (induction n arbitrary: layers)
  case (Suc n)
  show ?case unfolding prefix_ty_layers.simps
    by (rule safe_rules safe_method keeps_safe [OF Suc.IH] Suc.prems | simp; fail)+
qed (simp add: safe_no_fuel)

lemma wrap_layers_safe [safe_method]: "safe C anywhere (wrap_layers layers e)"
proof (induction layers arbitrary: e)
  case (Cons l layers)
  show ?case unfolding wrap_layers.simps by (rule safe_rules Cons.IH)+
qed (simp add: safe_ret)

lemma parse_prefixed_ty_expr_keeps [THEN keeps_safe, safe_method]: "calls_ok R \<Longrightarrow> keeps (parse_prefixed_ty_expr E R)"
  unfolding parse_prefixed_ty_expr_def by (rule safe_rules safe_method | assumption | simp; fail)+

lemma suffix_keeps [THEN keeps_safe, safe_method]:
  "keeps (index_expr lhs k)"
  "calls_ok R \<Longrightarrow> keeps (range_end E R lhs start)"
  "calls_ok R \<Longrightarrow> keeps (range_inclusive_end E R lhs start)"
  "calls_ok R \<Longrightarrow> keeps (suffix_index E R lhs)"
  "keeps (misplaced E hint)"
  "keeps (suffix_dot E lhs)"
  "calls_ok R \<Longrightarrow> keeps (parse_suffix_ty_op E R lhs)"
  unfolding parse_suffix_ty_op_def suffix_index_def range_end_def range_inclusive_end_def index_expr_def suffix_dot_def misplaced_def
  by (rule safe_rules safe_method | assumption | simp; fail)+

lemma suffix_loop_keeps [THEN keeps_safe, safe_method]: "calls_ok R \<Longrightarrow> keeps (suffix_loop n E R start e just_called)"
proof (induction n arbitrary: e just_called)
  case (Suc n)
  show ?case unfolding suffix_loop.simps
    by (rule safe_rules safe_method keeps_safe [OF Suc.IH] Suc.prems | simp; fail)+
qed (simp add: safe_no_fuel)

lemma multi_line_str_keeps [THEN keeps_safe, safe_method]: "keeps (multi_line_str n buffer)"
proof (induction n arbitrary: buffer)
  case (Suc n)
  show ?case unfolding multi_line_str.simps
    by (rule safe_rules safe_method keeps_safe [OF Suc.IH] | simp; fail)+
qed (simp add: safe_no_fuel)

lemma anonymous_keeps [THEN keeps_safe, safe_method]:
  "calls_ok R \<Longrightarrow> keeps (struct_type E R packed linear start)"
  "calls_ok R \<Longrightarrow> keeps (enum_type E R linear start)"
  "calls_ok R \<Longrightarrow> keeps (union_type E R linear start)"
  "calls_ok R \<Longrightarrow> keeps (linear_type E R start)"
  unfolding struct_type_def enum_type_def union_type_def linear_type_def
  by (rule safe_rules safe_method | assumption | simp; fail)+

text \<open>The name behind a dot was seen by \<^verbatim>\<open>peek_nth(1)\<close>, so the token taken after the dot is that name.\<close>

lemma safe_dot_name:
  assumes "\<And>t. safe C (\<lambda>s. cur s = Op1 Dot) (m t)"
  shows "safe C (\<lambda>s. cur s = Op1 Dot)
    (p_bind (p_peek_nth 1) (\<lambda>nxt.
       if is_plain_ident (tok_kind nxt)
       then p_seq p_advance (p_bind p_bump (\<lambda>t. case tok_kind t of Ident symbol _ \<Rightarrow> p_ret (g symbol) | _ \<Rightarrow> p_fault UnreachableToken))
       else m nxt))" (is "safe C _ ?m")
proof (rule safeI)
  fix ts lo s
  assume a: "at ts lo s" "C ts lo" "cur s = Op1 Dot"
  let ?s = "s\<lparr>p_offset := Suc (p_offset s)\<rparr>"
  have s: "at ts lo ?s" using at_advance [OF a(1)] a(3) by simp
  have nth: "p_peek_nth 1 s = Ok (ts ! Suc (p_offset s)) s" using s a(1) by (simp add: p_peek_nth_def at_def Let_def)
  show "good ts lo (?m s)"
  proof (cases "is_plain_ident (cur ?s)")
    case True
    then obtain x ik where k: "cur ?s = Ident x ik" by (cases "cur ?s") (auto simp: is_plain_ident_def)
    have c: "cur ?s = tok_kind (ts ! Suc (p_offset s))" using s by (simp add: at_def cur_def)
    have "?m s = Ok (g x) (?s\<lparr>p_offset := Suc (p_offset ?s)\<rparr>)"
      using True k c nth bump_at(2) [OF s] by (simp add: p_bind_def p_seq_def p_advance_def p_ret_def)
    then show ?thesis using at_advance [OF s] k by simp
  next
    case False
    moreover have "cur ?s = tok_kind (ts ! Suc (p_offset s))" using s by (simp add: at_def cur_def)
    ultimately have "?m s = m (ts ! Suc (p_offset s)) s" using nth by (simp add: p_bind_def)
    then show ?thesis using assms a by (simp add: safe_def)
  qed
qed

lemma dot_literal_safe:
  assumes "calls_ok R"
  shows "safe behind (\<lambda>s. cur s = Op1 Dot) (dot_literal E R)"
  unfolding dot_literal_def
  by (rule safe_dot_name safe_rules safe_method assms | simp; fail)+

lemma group_starts_safe [safe_method]: "safe C anywhere (group_starts n starts)"
proof (induction n arbitrary: starts C)
  case (Suc n)
  show ?case unfolding group_starts.simps by (rule safe_rules Suc.IH | simp; fail)+
qed (simp add: safe_no_fuel)

lemma close_groups_keeps [THEN keeps_safe, safe_method]: "keeps (close_groups E starts e)"
proof (induction starts arbitrary: e)
  case (Cons st starts)
  show ?case unfolding close_groups.simps
    by (rule safe_rules safe_method keeps_safe [OF Cons.IH] | simp; fail)+
qed (simp add: safe_ret)

lemma parse_group_ty_expr_keeps [THEN keeps_safe, safe_method]: "calls_ok R \<Longrightarrow> keeps (parse_group_ty_expr E R)"
  unfolding parse_group_ty_expr_def by (rule safe_rules safe_method | assumption | simp; fail)+

lemma primary_ty_kind_safe:
  assumes "calls_ok R"
  shows "safe behind (\<lambda>s. cur s = tok_kind t) (primary_ty_kind E R t)"
  unfolding primary_ty_kind_def Let_def
  by (rule safe_rules safe_method safe_weaken [OF dot_literal_safe] assms | simp; fail)+

lemma finish_primary_keeps [THEN keeps_safe, safe_method]: "keeps (finish_primary start r)"
  unfolding finish_primary_def by (rule safe_rules safe_method | simp; fail)+

lemma parse_primary_ty_expr_keeps [THEN keeps_safe, safe_method]:
  assumes "calls_ok R"
  shows "keeps (parse_primary_ty_expr E R)"
  unfolding parse_primary_ty_expr_def
  by (rule safe_peek safe_bind safe_weaken [OF primary_ty_kind_safe] safe_method assms | simp; fail)+

lemma ty_expr_keeps [THEN keeps_safe, safe_method]:
  "calls_ok R \<Longrightarrow> keeps (parse_suffix_ty_expr E R)"
  "calls_ok R \<Longrightarrow> keeps (parse_ty_expr E R)"
  unfolding parse_ty_expr_def parse_suffix_ty_expr_def by (rule safe_rules safe_method | assumption | simp; fail)+

section \<open>Value expressions\<close>

lemma infix_op_of_safe: "(\<And>s. P s \<Longrightarrow> cur s = k) \<Longrightarrow> safe C P (infix_op_of k)"
  unfolding infix_op_of_def by (rule safe_rules | auto simp: infix_entry_def; fail)+

lemma prefix_layer_not_eof: "prefix_layer_of t = Some l \<Longrightarrow> tok_kind t \<noteq> Eof"
  by (auto simp: prefix_layer_of_def)

lemma prefix_expr_layers_safe [safe_method]: "safe C anywhere (prefix_expr_layers n layers)"
proof (induction n arbitrary: layers C)
  case (Suc n)
  show ?case unfolding prefix_expr_layers.simps
    by (rule safe_rules Suc.IH | simp; fail | simp add: prefix_layer_not_eof; fail)+
qed (simp add: safe_no_fuel)

lemma wrap_prefix_safe [safe_method]: "safe C anywhere (wrap_prefix layers e)"
proof (induction layers arbitrary: e)
  case (Cons l layers)
  show ?case unfolding wrap_prefix.simps by (rule safe_rules Cons.IH)+
qed (simp add: safe_ret)

lemma parse_group_expr_keeps [THEN keeps_safe, safe_method]: "calls_ok R \<Longrightarrow> keeps (parse_group_expr E R allow_init)"
  unfolding parse_group_expr_def by (rule safe_rules safe_method | assumption | simp; fail)+

lemma primary_kind_safe:
  assumes "calls_ok R"
  shows "safe behind (\<lambda>s. cur s = tok_kind t) (primary_kind E R allow_init t)"
  unfolding primary_kind_def Let_def by (rule safe_rules safe_method assms | simp; fail)+

lemma parse_primary_expr_keeps [THEN keeps_safe, safe_method]:
  assumes "calls_ok R"
  shows "keeps (parse_primary_expr E R allow_init)"
  unfolding parse_primary_expr_def
  by (rule safe_peek safe_bind safe_weaken [OF primary_kind_safe] safe_method assms | simp; fail)+

lemma parse_prefix_expr_keeps [THEN keeps_safe, safe_method]: "calls_ok R \<Longrightarrow> keeps (parse_prefix_expr E R allow_init)"
  unfolding parse_prefix_expr_def by (rule safe_rules safe_method | assumption | simp; fail)+

lemma expr_loop_keeps [THEN keeps_safe, safe_method]: "calls_ok R \<Longrightarrow> keeps (expr_loop n E R min_bp allow_init lhs)"
proof (induction n arbitrary: lhs)
  case (Suc n)
  show ?case unfolding expr_loop.simps
    by (rule safe_get_offset safe_peek safe_bind infix_op_of_safe safe_set_offset safe_rules safe_method keeps_safe [OF Suc.IH] Suc.prems
        | simp; fail)+
qed (simp add: safe_no_fuel)

lemma parse_expr_precedence_keeps: "calls_ok R \<Longrightarrow> keeps (parse_expr_precedence E R min_bp allow_init)"
  unfolding parse_expr_precedence_def by (rule safe_rules safe_method | assumption | simp; fail)+

section \<open>The recursion\<close>

lemma calls_at_ok: "calls_ok (calls_at E n)"
proof (induction n)
  case (Suc n)
  then show ?case using ty_expr_keeps(2) parse_expr_precedence_keeps by (auto simp: calls_ok_def)
qed (simp add: calls_ok_def safe_no_fuel)

section \<open>The first token of the module\<close>

text \<open>
  At offset zero there is no previous token. \<open>first m\<close> says that \<open>m\<close> is safe there as well: it reads the
  previous token only after it has consumed one.
\<close>

definition first :: "'a parse \<Rightarrow> bool" where
  "first m \<longleftrightarrow> (\<forall>ts s. at ts 0 s \<longrightarrow> cur s \<noteq> Eof \<longrightarrow> good ts 0 (m s))"

lemma good_mono: "good ts lo r \<Longrightarrow> lo' \<le> lo \<Longrightarrow> good ts lo' r"
  by (cases r) (auto simp: at_def)

lemma keeps_good_0: "keeps m \<Longrightarrow> at ts 1 s \<Longrightarrow> good ts 0 (m s)"
  using good_mono [of ts 1 "m s" 0] by (simp add: safe_def)

lemma advance_at_1: "at ts 0 s \<Longrightarrow> cur s \<noteq> Eof \<Longrightarrow> at ts 1 (s\<lparr>p_offset := Suc (p_offset s)\<rparr>)"
  using at_advance [of ts 0 s] by (auto simp: at_def)

lemma peek_at: "at ts lo s \<Longrightarrow> p_peek s = Ok (ts ! p_offset s) s \<and> tok_kind (ts ! p_offset s) = cur s"
  by (simp add: p_peek_def at_def cur_def)

lemma eaten_at:
  assumes "at ts lo s" and "cur s \<noteq> Eof"
  shows "p_eaten T s = (if tag (cur s) = T then Ok True (s\<lparr>p_offset := Suc (p_offset s)\<rparr>) else Ok False s)"
  using peek_at [OF assms(1)] bump_at(2) [OF assms]
  by (simp add: p_eaten_def p_eat_if_def p_map_def p_bind_def p_ret_def)

lemma first_eaten: "keeps (f True) \<Longrightarrow> first (f False) \<Longrightarrow> first (p_bind (p_eaten T) f)"
  by (auto simp: first_def p_bind_def eaten_at intro: keeps_good_0 advance_at_1)

lemma first_peek: "(\<And>t. first (f t)) \<Longrightarrow> first (p_bind p_peek f)"
  by (simp add: first_def p_bind_def peek_at)

lemma first_modifiers:
  assumes "\<And>x. keeps (f x)" and "first (f (Extern_None, Inline_None))"
  shows "first (p_bind (parse_decl_modifiers n E) f)"
  unfolding first_def
proof (intro allI impI)
  fix ts s
  assume a: "at ts 0 s" "cur s \<noteq> Eof"
  have "parse_decl_modifiers n E s = NoFuel \<or> parse_decl_modifiers n E s = Ok (Extern_None, Inline_None) s \<or> good ts 1 (parse_decl_modifiers n E s)"
  proof (cases n)
    case 0
    then show ?thesis by (simp add: parse_decl_modifiers_def p_no_fuel_def)
  next
    case (Suc k)
    have step: "good ts 1 (p_seq p_bump m s)" if "keeps m" for m :: "(extern \<times> inline) parse"
      using that advance_at_1 [OF a] bump_at(2) [OF a] by (simp add: p_seq_def p_bind_def safe_def)
    have rest: "keeps (decl_modifiers_loop k E ext inl)" for ext inl by (rule decl_modifiers_safe)
    have "keeps (p_bind (p_match (p_peek_expect E Tag_LitStr) (\<lambda>k. p_ret (Some k)) (\<lambda>_. p_ret None)) (\<lambda>r.
                   case r of
                     Some (LitStr symbol) \<Rightarrow>
                       p_seq p_bump (decl_modifiers_loop k E (Extern_Explicit (from_utf8_or_empty symbol)) Inline_None)
                   | _ \<Rightarrow> decl_modifiers_loop k E Extern_Implicit Inline_None))"
      by (rule safe_rules safe_method rest)+
    note steps = step [OF this] step [OF rest [of Extern_None Inline_Always]] step [OF rest [of Extern_None Inline_Never]]
    show ?thesis unfolding parse_decl_modifiers_def Suc using peek_at [OF a(1)] steps
      by (cases "cur s") (auto simp: p_bind_def [of p_peek] p_seq_def [of "p_ret ()"] p_bind_def [of "p_ret ()"] p_ret_def [of "()"]
        p_ret_def [of "(Extern_None, Inline_None)"] split: keyword.splits directive.splits)
  qed
  then show "good ts 0 (p_bind (parse_decl_modifiers n E) f s)"
    using a assms by (cases "parse_decl_modifiers n E s") (auto simp: p_bind_def first_def at_def [of _ "Suc 0"] at_def [of _ 0] intro: keeps_good_0)
qed

lemma first_bump: "(\<And>t. keeps (f t)) \<Longrightarrow> first (p_bind p_bump f)"
  by (auto simp: first_def p_bind_def bump_at(2) intro!: keeps_good_0 advance_at_1)

lemma parse_ident_first:
  assumes "at ts 0 s" and "tag (cur s) = Tag_Ident"
  shows "\<exists>ident. parse_ident E s = Ok ident (s\<lparr>p_offset := Suc (p_offset s)\<rparr>)"
proof -
  obtain x ik where k: "cur s = Ident x ik" using assms(2) by (cases "cur s") auto
  then have "tok_kind (ts ! p_offset s) = Ident x ik" "cur s \<noteq> Eof" using peek_at [OF assms(1)] by auto
  moreover from this(2) have "p_offset s < length (p_tokens s)" using assms(1) by (simp add: at_def)
  ultimately show ?thesis using bump_at(2) [OF assms(1)]
    by (simp add: parse_ident_def p_eat_expect_def p_bind_def p_ret_def p_prev_def)
qed

lemma parse_field_def_first:
  assumes "calls_ok R" and "at ts 0 s" and "tag (cur s) = Tag_Ident"
  shows "good ts 1 (parse_field_def E R is_pub start s)"
proof (cases "next_id s")
  case (Ok i s')
  then have s': "at ts 0 s'" "cur s' = cur s" using assms(2) by (auto simp: next_id_def at_def cur_def split: if_splits)
  then obtain ident where id: "parse_ident E s' = Ok ident (s'\<lparr>p_offset := Suc (p_offset s')\<rparr>)"
    using parse_ident_first assms(3) by metis
  have "at ts 1 (s'\<lparr>p_offset := Suc (p_offset s')\<rparr>)" using advance_at_1 [OF s'(1)] s'(2) assms(3) by (cases "cur s") auto
  moreover have "keeps (p_seq (p_match (p_eat_expect E (Tag_Op1 Colon)) (\<lambda>_. p_ret ())
              (\<lambda>err. p_seq (p_eat_until (Tag_Op1 Comma)) (p_err (\<lambda>_. err))))
       (p_bind (expect_ty_expr E R) (\<lambda>ty.
        p_bind (p_behind (Tag_Op1 Eq) (expect_expr E R)) (\<lambda>default.
        p_bind (p_eaten (Tag_Op1 Comma)) (\<lambda>comma.
        p_bind p_prev (\<lambda>prev.
          p_ret (FieldDef i ident is_pub ty default (span_join start (tok_span prev)), comma)))))))"
    by (rule safe_rules safe_method assms(1) | simp; fail)+
  ultimately show ?thesis using Ok id
    by (simp add: parse_field_def_def field_ident_def p_bind_def [of next_id] p_bind_def [of "p_match _ _ _"] p_match_def [of "parse_ident _"]
      p_ret_def [of ident] safe_def)
qed (simp_all add: parse_field_def_def p_bind_def next_id_def split: if_splits)

lemma first_member:
  assumes "calls_ok R" and "\<And>x. keeps (g x)" and "\<And>d. keeps (h d)" and "first m"
  shows "first (p_bind p_peek (\<lambda>t. if tag (tok_kind t) = Tag_Ident then p_match (parse_field_def E R is_pub start) g h else m))"
  unfolding first_def
proof (intro allI impI)
  fix ts s
  assume a: "at ts 0 s" "cur s \<noteq> Eof"
  show "good ts 0 (p_bind p_peek (\<lambda>t. if tag (tok_kind t) = Tag_Ident then p_match (parse_field_def E R is_pub start) g h else m) s)"
    using a assms parse_field_def_first [OF assms(1) a(1), of E is_pub start]
    by (cases "parse_field_def E R is_pub start s")
      (auto simp: p_bind_def peek_at first_def p_match_def intro: keeps_good_0)
qed

lemma first_simps:
  "first (p_ret x)"
  "first m \<Longrightarrow> first (p_seq (if \<not> True then n else p_ret ()) m)"
  "first (p_bind m1 f) \<Longrightarrow> first (p_bind (if True then m1 else n1) f)"
  "first (p_bind m1 f) \<Longrightarrow> first (p_bind (if False then n1 else m1) f)"
  "first (g a1 a2) \<Longrightarrow> first (case (a1, a2) of (a, b) \<Rightarrow> g a b)"
  "(\<And>x. x = y \<Longrightarrow> first (h x)) \<Longrightarrow> first (let x = y in h x)"
  "(b \<Longrightarrow> first m) \<Longrightarrow> (\<not> b \<Longrightarrow> first m') \<Longrightarrow> first (if b then m else m')"
  by (simp_all add: first_def p_ret_def p_seq_def p_bind_def)

lemma decl_items_first:
  assumes "calls_ok R"
  shows "first (decl_items n E R True True (parse_field_def E R) fs items True)"
proof (cases n)
  case (Suc k)
  note items = keeps_safe [OF decl_items_keeps [OF assms keeps_safe [OF member_keeps(1) [OF assms]]], of _ _ k E True True]
  show ?thesis unfolding Suc decl_items.simps
    by (rule first_peek first_eaten first_modifiers first_member first_bump first_simps items safe_rules safe_method assms | simp; fail)+
qed (simp add: first_def p_no_fuel_def)

section \<open>The module\<close>

lemma root_decl_first: "first (parse_struct_decl E (calls_at E n) True False False start)"
proof -
  let ?items = "decl_items (fuel (calls_at E n)) E (calls_at E n) True True (parse_field_def E (calls_at E n)) [] [] True"
  have items: "good ts 0 (?items s)" if "at ts 0 s" "cur s \<noteq> Eof" for ts s
    using decl_items_first [OF calls_at_ok] that by (simp add: first_def)
  have peek: "p_peek s = Ok (ts ! p_offset s) s" if "at ts 0 s" for ts s using peek_at [OF that] by simp
  show ?thesis unfolding first_def
  proof (intro allI impI)
    fix ts s
    assume "at ts 0 s" "cur s \<noteq> Eof"
    from items [OF this] show "good ts 0 (parse_struct_decl E (calls_at E n) True False False start s)"
      by (cases "?items s") (auto simp: parse_struct_decl_def decl_body_def open_body_def p_seq_def p_bind_def p_ret_def peek split: prod.splits)
  qed
qed

lemma parse_module_good:
  assumes "stream ts"
  shows "good ts 0 (parse_module n E (parser_new ts es m))" and "\<nexists>d s. parse_module n E (parser_new ts es m) = Err d s"
proof -
  have a: "at ts 0 (parser_new ts es m)" using assms by (simp add: at_def parser_new_def stream_def)
  let ?d = "parse_struct_decl E (calls_at E n) True False False (tok_span (ts ! 0)) (parser_new ts es m)"
  have o: "p_offset (parser_new ts es m) = 0" by (simp add: parser_new_def)
  have eof: "is_eof_token (ts ! 0) \<longleftrightarrow> cur (parser_new ts es m) = Eof" by (simp add: is_eof_token_def cur_def parser_new_def)
  have d: "cur (parser_new ts es m) \<noteq> Eof \<Longrightarrow> good ts 0 ?d" using root_decl_first [of E n] a by (simp add: first_def)
  have err: "\<exists>r s'. p_seq (p_push_error E e) take_parse_errors s = Ok r s' \<and> p_tokens s' = p_tokens s \<and> p_offset s' = p_offset s" for e s
    by (simp add: p_seq_def p_bind_def p_push_error_def take_parse_errors_def)
  show "good ts 0 (parse_module n E (parser_new ts es m))"
    using peek_at [OF a] a d eof
    by (cases ?d) (auto simp: parse_module_def p_bind_def [of p_peek] p_match_def p_ret_def o take_parse_errors_def p_seq_def p_bind_def
        p_push_error_def at_def split: if_splits)
  show "\<nexists>d s. parse_module n E (parser_new ts es m) = Err d s"
    using peek_at [OF a] a d eof
    by (cases ?d) (auto simp: parse_module_def p_bind_def [of p_peek] p_match_def p_ret_def o take_parse_errors_def p_seq_def p_bind_def
        p_push_error_def at_def split: if_splits)
qed

lemma stream_of_stream_ok: "stream_ok lo bound ts \<Longrightarrow> stream ts"
proof (induction lo bound ts rule: stream_ok.induct)
  case (2 lo bound t ts)
  show ?case
  proof (cases "ts = []")
    case True
    then show ?thesis using "2.prems" by (simp add: stream_def)
  next
    case False
    then have "stream ts" "tok_kind t \<noteq> Eof" using 2 by auto
    then show ?thesis using False by (auto simp: stream_def nth_Cons split: nat.split)
  qed
qed simp

text \<open>\<^verbatim>\<open>Parser::new(code, module_id).parse_module()\<close>\<close>

definition parse_source ::
  "nat \<Rightarrow> crates \<Rightarrow> parser_env \<Rightarrow> byte list \<Rightarrow> module_id \<Rightarrow> (lex_fault + (diagnostic list + module_kind) parse_result) option" where
  "parse_source n X E src m =
     map_option (\<lambda>r. bindr r (\<lambda>(ts, es). Inr (parse_module n E (parser_new ts es m)))) (lex_source X src m)"

definition parse_result_ok :: "'a parse_result \<Rightarrow> bool" where
  "parse_result_ok r \<longleftrightarrow>
     (case r of NoFuel \<Rightarrow> True | Fault e \<Rightarrow> e = IdOverflow | Ok x s \<Rightarrow> p_offset s < length (p_tokens s) | Err d s \<Rightarrow> False)"

lemma parse_module_ok: "stream ts \<Longrightarrow> parse_result_ok (parse_module n E (parser_new ts es m))"
  using parse_module_good [of ts n E es m] by (cases "parse_module n E (parser_new ts es m)") (auto simp: parse_result_ok_def at_def)

end
