(* ===== verification/Vif_Parser_Fuel.thy ===== *)
theory Vif_Parser_Fuel
  imports Vif_Parser_Memory "HOL-Library.Multiset"
begin

text \<open>
  Two facts about every method of the parser, proved together. More fuel does not change a result: \<open>approx m m'\<close>
  says that \<open>m\<close> runs out of fuel or does what \<open>m'\<close> does. And the state only grows: the tokens and the module
  stay, ids are handed out upwards, and no diagnostic is lost.
\<close>

section \<open>Judgement\<close>

text \<open>The crate \<^verbatim>\<open>sorted_insert\<close> adds the new element to the list and keeps the others.\<close>

definition env_ok :: "parser_env \<Rightarrow> bool" where
  "env_ok E \<longleftrightarrow> (\<forall>es d le. mset (diag_insert E es d le) = add_mset d (mset es))"

definition grown :: "parser_env \<Rightarrow> parser \<Rightarrow> parser \<Rightarrow> bool" where
  "grown E s s' \<longleftrightarrow> p_tokens s' = p_tokens s \<and> p_module s' = p_module s \<and> p_next_id s \<le> p_next_id s' \<and>
     (env_ok E \<longrightarrow> mset (p_errors s) \<subseteq># mset (p_errors s'))"

primrec evolves :: "parser_env \<Rightarrow> parser \<Rightarrow> 'a parse_result \<Rightarrow> bool" where
  "evolves E s NoFuel \<longleftrightarrow> True"
| "evolves E s (Fault e) \<longleftrightarrow> True"
| "evolves E s (Ok x s') \<longleftrightarrow> grown E s s'"
| "evolves E s (Err d s') \<longleftrightarrow> grown E s s'"

definition approx :: "parser_env \<Rightarrow> 'a parse \<Rightarrow> 'a parse \<Rightarrow> bool" where
  "approx E m m' \<longleftrightarrow> (\<forall>s. (m s = NoFuel \<or> m s = m' s) \<and> evolves E s (m s))"

lemma grown_refl [simp]: "grown E s s"
  by (simp add: grown_def)

lemma grown_trans: "grown E s s' \<Longrightarrow> grown E s' s'' \<Longrightarrow> grown E s s''"
  by (auto simp: grown_def intro: subset_mset.order_trans)

lemma evolves_trans: "grown E s s' \<Longrightarrow> evolves E s' r \<Longrightarrow> evolves E s r"
  by (cases r) (auto intro: grown_trans)

section \<open>Rules for the combinators\<close>

lemma approx_no_fuel: "approx E p_no_fuel m"
  by (simp add: approx_def p_no_fuel_def)

lemma approx_bind:
  assumes "approx E m m'" and "\<And>x. approx E (f x) (f' x)"
  shows "approx E (p_bind m f) (p_bind m' f')"
  unfolding approx_def
proof
  fix s
  have m: "m s \<noteq> NoFuel \<Longrightarrow> m' s = m s" "evolves E s (m s)" using assms(1) by (auto simp: approx_def dest: spec [of _ s])
  have f: "f x s' = NoFuel \<or> f x s' = f' x s'" "evolves E s' (f x s')" for x s' using assms(2) by (simp_all add: approx_def)
  show "(p_bind m f s = NoFuel \<or> p_bind m f s = p_bind m' f' s) \<and> evolves E s (p_bind m f s)"
    using m f by (cases "m s") (auto simp: p_bind_def intro: evolves_trans)
qed

lemma approx_match:
  assumes "approx E m m'" and "\<And>x. approx E (f x) (f' x)" and "\<And>d. approx E (g d) (g' d)"
  shows "approx E (p_match m f g) (p_match m' f' g')"
  unfolding approx_def
proof
  fix s
  have m: "m s \<noteq> NoFuel \<Longrightarrow> m' s = m s" "evolves E s (m s)" using assms(1) by (auto simp: approx_def dest: spec [of _ s])
  have f: "f x s' = NoFuel \<or> f x s' = f' x s'" "evolves E s' (f x s')" for x s' using assms(2) by (simp_all add: approx_def)
  have g: "g x s' = NoFuel \<or> g x s' = g' x s'" "evolves E s' (g x s')" for x s' using assms(3) by (simp_all add: approx_def)
  show "(p_match m f g s = NoFuel \<or> p_match m f g s = p_match m' f' g' s) \<and> evolves E s (p_match m f g s)"
    using m f g by (cases "m s") (auto simp: p_match_def intro: evolves_trans)
qed

lemma approx_ret: "approx E (p_ret x) (p_ret x)"
  by (simp add: approx_def p_ret_def)

lemma approx_seq: "approx E m m' \<Longrightarrow> approx E n n' \<Longrightarrow> approx E (p_seq m n) (p_seq m' n')"
  by (simp add: p_seq_def approx_bind)

lemma approx_map: "approx E m m' \<Longrightarrow> approx E (p_map f m) (p_map f m')"
  by (simp add: p_map_def approx_bind approx_ret)

lemma approx_if: "(b \<Longrightarrow> approx E m m') \<Longrightarrow> (\<not> b \<Longrightarrow> approx E n n') \<Longrightarrow> approx E (if b then m else n) (if b then m' else n')"
  by simp

lemma approx_Let: "(\<And>x. approx E (f x) (g x)) \<Longrightarrow> approx E (let x = y in f x) (let x = y in g x)"
  by simp

lemma approx_option:
  "approx E m m' \<Longrightarrow> (\<And>y. approx E (f y) (f' y)) \<Longrightarrow> approx E (case x of None \<Rightarrow> m | Some y \<Rightarrow> f y) (case x of None \<Rightarrow> m' | Some y \<Rightarrow> f' y)"
  by (cases x) simp_all

lemma approx_prod: "(\<And>a b. approx E (f a b) (f' a b)) \<Longrightarrow> approx E (case x of (a, b) \<Rightarrow> f a b) (case x of (a, b) \<Rightarrow> f' a b)"
  by (cases x) simp

lemma approx_sum:
  "(\<And>a. approx E (f a) (f' a)) \<Longrightarrow> (\<And>b. approx E (g b) (g' b)) \<Longrightarrow>
     approx E (case x of Inl a \<Rightarrow> f a | Inr b \<Rightarrow> g b) (case x of Inl a \<Rightarrow> f' a | Inr b \<Rightarrow> g' b)"
  by (cases x) simp_all

lemma approx_ctx: "approx E m m' \<Longrightarrow> approx E n n' \<Longrightarrow> approx E (case c of Ctx_Ty \<Rightarrow> m | Ctx_Value \<Rightarrow> n) (case c of Ctx_Ty \<Rightarrow> m' | Ctx_Value \<Rightarrow> n')"
  by (cases c) simp_all

lemma approx_token_kind:
  assumes
    "\<And>x. approx E (f1 x) (g1 x)" "\<And>x. approx E (f2 x) (g2 x)" "\<And>x. approx E (f3 x) (g3 x)" "\<And>x. approx E (f4 x) (g4 x)" "\<And>x y. approx E (f5 x y) (g5 x y)" "\<And>x. approx E (f6 x) (g6 x)"
    "\<And>x y. approx E (f7 x y) (g7 x y)" "\<And>x. approx E (f8 x) (g8 x)" "\<And>x. approx E (f9 x) (g9 x)" "\<And>x. approx E (f10 x) (g10 x)" "\<And>x. approx E (f11 x) (g11 x)" "\<And>x. approx E (f12 x) (g12 x)"
    "approx E f13 g13" "approx E f14 g14" "approx E f15 g15" "\<And>x. approx E (f16 x) (g16 x)" "\<And>x. approx E (f17 x) (g17 x)" "\<And>x. approx E (f18 x) (g18 x)"
    "\<And>x. approx E (f19 x) (g19 x)" "\<And>x. approx E (f20 x) (g20 x)" "approx E f21 g21" "approx E f22 g22"
  shows "approx E (case_token_kind f1 f2 f3 f4 f5 f6 f7 f8 f9 f10 f11 f12 f13 f14 f15 f16 f17 f18 f19 f20 f21 f22 k)
    (case_token_kind g1 g2 g3 g4 g5 g6 g7 g8 g9 g10 g11 g12 g13 g14 g15 g16 g17 g18 g19 g20 g21 g22 k)"
  using assms by (cases k) simp_all

lemma approx_op1:
  assumes
    "approx E f1 g1" "approx E f2 g2" "approx E f3 g3" "approx E f4 g4" "approx E f5 g5" "approx E f6 g6"
    "approx E f7 g7" "approx E f8 g8" "approx E f9 g9" "approx E f10 g10" "approx E f11 g11" "approx E f12 g12"
    "approx E f13 g13" "approx E f14 g14" "approx E f15 g15" "approx E f16 g16" "approx E f17 g17" "approx E f18 g18"
    "approx E f19 g19" "approx E f20 g20" "approx E f21 g21" "approx E f22 g22" "approx E f23 g23" "approx E f24 g24"
    "approx E f25 g25" "approx E f26 g26" "approx E f27 g27"
  shows "approx E (case_op1 f1 f2 f3 f4 f5 f6 f7 f8 f9 f10 f11 f12 f13 f14 f15 f16 f17 f18 f19 f20 f21 f22 f23 f24 f25 f26 f27 k)
    (case_op1 g1 g2 g3 g4 g5 g6 g7 g8 g9 g10 g11 g12 g13 g14 g15 g16 g17 g18 g19 g20 g21 g22 g23 g24 g25 g26 g27 k)"
  using assms by (cases k) simp_all

lemma approx_op2:
  assumes
    "approx E f1 g1" "approx E f2 g2" "approx E f3 g3" "approx E f4 g4" "approx E f5 g5" "approx E f6 g6"
    "approx E f7 g7" "approx E f8 g8" "approx E f9 g9" "approx E f10 g10" "approx E f11 g11" "approx E f12 g12"
    "approx E f13 g13" "approx E f14 g14" "approx E f15 g15" "approx E f16 g16" "approx E f17 g17" "approx E f18 g18"
    "approx E f19 g19" "approx E f20 g20" "approx E f21 g21" "approx E f22 g22" "approx E f23 g23" "approx E f24 g24"
    "approx E f25 g25"
  shows "approx E (case_op2 f1 f2 f3 f4 f5 f6 f7 f8 f9 f10 f11 f12 f13 f14 f15 f16 f17 f18 f19 f20 f21 f22 f23 f24 f25 k)
    (case_op2 g1 g2 g3 g4 g5 g6 g7 g8 g9 g10 g11 g12 g13 g14 g15 g16 g17 g18 g19 g20 g21 g22 g23 g24 g25 k)"
  using assms by (cases k) simp_all

lemma approx_op3:
  assumes
    "approx E f1 g1" "approx E f2 g2" "approx E f3 g3" "approx E f4 g4" "approx E f5 g5" "approx E f6 g6"
    "approx E f7 g7" "approx E f8 g8" "approx E f9 g9" "approx E f10 g10" "approx E f11 g11" "approx E f12 g12"
    "approx E f13 g13"
  shows "approx E (case_op3 f1 f2 f3 f4 f5 f6 f7 f8 f9 f10 f11 f12 f13 k)
    (case_op3 g1 g2 g3 g4 g5 g6 g7 g8 g9 g10 g11 g12 g13 k)"
  using assms by (cases k) simp_all

lemma approx_keyword:
  assumes
    "approx E f1 g1" "approx E f2 g2" "approx E f3 g3" "approx E f4 g4" "approx E f5 g5" "approx E f6 g6"
    "approx E f7 g7" "approx E f8 g8" "approx E f9 g9" "approx E f10 g10" "approx E f11 g11" "approx E f12 g12"
    "approx E f13 g13" "approx E f14 g14" "approx E f15 g15" "approx E f16 g16" "approx E f17 g17" "approx E f18 g18"
    "approx E f19 g19" "approx E f20 g20" "approx E f21 g21" "approx E f22 g22" "approx E f23 g23" "approx E f24 g24"
    "approx E f25 g25" "approx E f26 g26" "approx E f27 g27"
  shows "approx E (case_keyword f1 f2 f3 f4 f5 f6 f7 f8 f9 f10 f11 f12 f13 f14 f15 f16 f17 f18 f19 f20 f21 f22 f23 f24 f25 f26 f27 k)
    (case_keyword g1 g2 g3 g4 g5 g6 g7 g8 g9 g10 g11 g12 g13 g14 g15 g16 g17 g18 g19 g20 g21 g22 g23 g24 g25 g26 g27 k)"
  using assms by (cases k) simp_all

lemma approx_directive:
  assumes
    "approx E f1 g1" "approx E f2 g2" "approx E f3 g3" "approx E f4 g4" "approx E f5 g5" "approx E f6 g6"
    "approx E f7 g7"
  shows "approx E (case_directive f1 f2 f3 f4 f5 f6 f7 k)
    (case_directive g1 g2 g3 g4 g5 g6 g7 k)"
  using assms by (cases k) simp_all

lemma approx_ident_kind:
  assumes
    "approx E f1 g1" "approx E f2 g2" "approx E f3 g3" "approx E f4 g4"
  shows "approx E (case_ident_kind f1 f2 f3 f4 k)
    (case_ident_kind g1 g2 g3 g4 k)"
  using assms by (cases k) simp_all

lemmas approx_cases = approx_if approx_Let approx_option approx_prod approx_sum approx_token_kind approx_op1 approx_op2 approx_op3
  approx_keyword approx_directive approx_ident_kind approx_ctx

section \<open>Cursor methods and leaves\<close>

named_theorems approx_method

lemma approx_refl: "(\<And>s. evolves E s (m s)) \<Longrightarrow> approx E m m"
  by (simp add: approx_def)

lemma evolves_push_error: "evolves E s (p_push_error E d s)"
  by (simp add: p_push_error_def grown_def env_ok_def)

lemma evolves_eat_until: "evolves E s (p_eat_until_any tgs s)"
proof (induction tgs s rule: p_eat_until_any.induct)
  case (1 tgs s)
  then show ?case by (auto simp: p_eat_until_any.simps [of tgs s] Let_def grown_def intro: evolves_trans [rotated])
qed

lemma approx_prims:
  "approx E next_id next_id" "approx E p_peek p_peek" "approx E p_bump p_bump" "approx E p_prev p_prev"
  "approx E (p_peek_nth k) (p_peek_nth k)" "approx E p_advance p_advance" "approx E p_retreat p_retreat"
  "approx E p_get_offset p_get_offset" "approx E (p_set_offset k) (p_set_offset k)" "approx E (p_err f) (p_err f)"
  "approx E (p_fault e) (p_fault e)" "approx E (p_push_error E d) (p_push_error E d)" "approx E (p_report E f) (p_report E f)"
  "approx E (p_errors_push f) (p_errors_push f)"
  "approx E (diag_expected_one_of_token E tgs tok) (diag_expected_one_of_token E tgs tok)"
  by (rule approx_refl; auto simp: next_id_def p_peek_def p_bump_def p_prev_def p_peek_nth_def p_advance_def p_retreat_def p_get_offset_def
      p_set_offset_def p_err_def p_fault_def evolves_push_error p_report_def p_errors_push_def diag_expected_one_of_token_def
      grown_def Let_def split: option.splits)+

lemma approx_eat_until:
  "approx E (p_eat_until t1) (p_eat_until t1)" "approx E (p_eat_until2 t1 t2) (p_eat_until2 t1 t2)"
  by (simp_all add: approx_refl p_eat_until_def p_eat_until2_def evolves_eat_until)

lemmas approx_rules = approx_prims approx_eat_until approx_ret approx_no_fuel approx_bind approx_seq approx_map approx_match approx_cases

lemma approx_eat [approx_method]:
  "approx E (p_peek_expect E t) (p_peek_expect E t)"
  "approx E (p_eat_expect E t) (p_eat_expect E t)"
  "approx E (p_eat_if t) (p_eat_if t)"
  unfolding p_peek_expect_def p_eat_expect_def p_eat_if_def by (rule approx_rules)+

lemma approx_eaten [approx_method]: "approx E (p_eaten t) (p_eaten t)"
  unfolding p_eaten_def by (rule approx_rules approx_method)+

lemma approx_want [approx_method]: "approx E (p_want E t) (p_want E t)"
  unfolding p_want_def by (rule approx_rules approx_method)+

lemma approx_behind [approx_method]: "approx E m m' \<Longrightarrow> approx E (p_behind t m) (p_behind t m')"
  unfolding p_behind_def by (rule approx_rules approx_method | assumption)+

lemma approx_maybe [approx_method]:
  "approx E maybe_assign_op maybe_assign_op"
  "approx E maybe_parse_int_suffix maybe_parse_int_suffix"
  "approx E maybe_parse_float_suffix maybe_parse_float_suffix"
  unfolding maybe_assign_op_def maybe_parse_int_suffix_def maybe_parse_float_suffix_def
  by (rule approx_bind approx_prims; auto intro!: approx_rules split: token_kind.split op1.split op2.split op3.split op4.split ty_name.split)+

lemma approx_parse_ident [approx_method]: "approx E (parse_ident E) (parse_ident E)"
  unfolding parse_ident_def by (rule approx_rules approx_method)+

lemma approx_idents [approx_method]:
  "approx E (parse_user_ident E) (parse_user_ident E)"
  "approx E (missing_ident E t1 t2 d) (missing_ident E t1 t2 d)"
  unfolding parse_user_ident_def missing_ident_def by (rule approx_rules approx_method)+

lemma approx_field_ident [approx_method]: "approx E (field_ident E) (field_ident E)"
  unfolding field_ident_def by (rule approx_rules approx_method)+

lemma Suc_le_cases:
  assumes "Suc n \<le> n'"
  obtains k where "n' = Suc k" and "n \<le> k"
  using assms by (cases n') auto

lemma approx_decl_modifiers_loop: "n \<le> n' \<Longrightarrow> approx E (decl_modifiers_loop n E ext inl) (decl_modifiers_loop n' E ext inl)"
proof (induction n arbitrary: n' ext inl)
  case (Suc n)
  then obtain k where k: "n' = Suc k" "n \<le> k" by (elim Suc_le_cases)
  show ?case unfolding k(1) decl_modifiers_loop.simps by (rule approx_rules approx_method Suc.IH k(2))+
qed (simp add: approx_no_fuel)

lemma approx_parse_decl_modifiers [approx_method]: "n \<le> n' \<Longrightarrow> approx E (parse_decl_modifiers n E) (parse_decl_modifiers n' E)"
  unfolding parse_decl_modifiers_def by (rule approx_decl_modifiers_loop)

section \<open>Groups and lists\<close>

lemma approx_eat_group_loop:
  assumes "approx E pr pr'"
  shows "n \<le> n' \<Longrightarrow> approx E (eat_group_loop n E closing pr items) (eat_group_loop n' E closing pr' items)"
proof (induction n arbitrary: n' items)
  case (Suc n)
  then obtain k where k: "n' = Suc k" "n \<le> k" by (elim Suc_le_cases)
  show ?case unfolding k(1) eat_group_loop.simps by (rule approx_rules approx_method Suc.IH k(2) assms)+
qed (simp add: approx_no_fuel)

lemma approx_eat_group [approx_method]:
  "approx E pr pr' \<Longrightarrow> n \<le> n' \<Longrightarrow> approx E (eat_group n E opening closing pr) (eat_group n' E opening closing pr')"
  unfolding eat_group_def by (rule approx_rules approx_method approx_eat_group_loop | assumption)+

lemma approx_eat_delimited_group_loop:
  assumes "approx E pr pr'"
  shows "n \<le> n' \<Longrightarrow> approx E (eat_delimited_group_loop n E closing delim pr items) (eat_delimited_group_loop n' E closing delim pr' items)"
proof (induction n arbitrary: n' items)
  case (Suc n)
  then obtain k where k: "n' = Suc k" "n \<le> k" by (elim Suc_le_cases)
  show ?case unfolding k(1) eat_delimited_group_loop.simps by (rule approx_rules approx_method Suc.IH k(2) assms)+
qed (simp add: approx_no_fuel)

lemma approx_eat_delimited_group [approx_method]:
  "approx E pr pr' \<Longrightarrow> n \<le> n' \<Longrightarrow> approx E (eat_delimited_group n E opening closing delim pr) (eat_delimited_group n' E opening closing delim pr')"
  unfolding eat_delimited_group_def by (rule approx_rules approx_method approx_eat_delimited_group_loop | assumption)+

lemma approx_eat_delimited_loop:
  assumes "approx E pr pr'"
  shows "n \<le> n' \<Longrightarrow> approx E (eat_delimited_loop n delim predicate pr items) (eat_delimited_loop n' delim predicate pr' items)"
proof (induction n arbitrary: n' items)
  case (Suc n)
  then obtain k where k: "n' = Suc k" "n \<le> k" by (elim Suc_le_cases)
  show ?case unfolding k(1) eat_delimited_loop.simps by (rule approx_rules approx_method Suc.IH k(2) assms)+
qed (simp add: approx_no_fuel)

lemma approx_eat_delimited [approx_method]:
  "approx E pr pr' \<Longrightarrow> n \<le> n' \<Longrightarrow> approx E (eat_delimited n delim predicate pr) (eat_delimited n' delim predicate pr')"
  unfolding eat_delimited_def by (rule approx_rules approx_method approx_eat_delimited_loop | assumption)+

section \<open>Methods\<close>

definition calls_le :: "parser_env \<Rightarrow> calls \<Rightarrow> calls \<Rightarrow> bool" where
  "calls_le E R R' \<longleftrightarrow> fuel R \<le> fuel R' \<and> approx E (ty_call R) (ty_call R') \<and>
     (\<forall>bp init. approx E (expr_call R bp init) (expr_call R' bp init))"

lemma calls_leD [approx_method]:
  "calls_le E R R' \<Longrightarrow> fuel R \<le> fuel R'"
  "calls_le E R R' \<Longrightarrow> approx E (ty_call R) (ty_call R')"
  "calls_le E R R' \<Longrightarrow> approx E (expr_call R bp init) (expr_call R' bp init)"
  by (simp_all add: calls_le_def)

lemma approx_expect_some [approx_method]: "approx E m m' \<Longrightarrow> approx E (expect_some E m) (expect_some E m')"
  unfolding expect_some_def by (rule approx_rules approx_method | assumption)+

lemma approx_expect [approx_method]:
  "calls_le E R R' \<Longrightarrow> approx E (expect_ty_expr E R) (expect_ty_expr E R')"
  "calls_le E R R' \<Longrightarrow> approx E (parse_expr R) (parse_expr R')"
  "calls_le E R R' \<Longrightarrow> approx E (expect_expr E R) (expect_expr E R')"
  "calls_le E R R' \<Longrightarrow> approx E (expect_expr_no_init E R) (expect_expr_no_init E R')"
  "calls_le E R R' \<Longrightarrow> approx E (expect_expr_ctx E R c) (expect_expr_ctx E R' c)"
  "calls_le E R R' \<Longrightarrow> approx E (expect_expr_ctx_no_init E R c) (expect_expr_ctx_no_init E R' c)"
  unfolding expect_ty_expr_def parse_expr_def expect_expr_def expect_expr_no_init_def expect_expr_ctx_def expect_expr_ctx_no_init_def
  by (rule approx_rules approx_method | assumption)+

lemma approx_eat_delimited_ctx [approx_method]:
  "calls_le E R R' \<Longrightarrow> approx E (eat_delimited_ctx E R delim predicate c) (eat_delimited_ctx E R' delim predicate c)"
  unfolding eat_delimited_ctx_def by (rule approx_rules approx_method | assumption)+

lemma approx_nodes [approx_method]:
  "approx E (p_node start nd) (p_node start nd)"
  "approx E (close_expr start k) (close_expr start k)"
  "approx E (make_expr start k) (make_expr start k)"
  unfolding p_node_def close_expr_def make_expr_def by (rule approx_rules)+

lemma approx_var_binding [approx_method]: "calls_le E R R' \<Longrightarrow> approx E (parse_var_binding E R) (parse_var_binding E R')"
  unfolding parse_var_binding_def by (rule approx_rules approx_method | assumption)+

lemma approx_statement_parts [approx_method]:
  "approx E (statement_label E) (statement_label E)"
  "approx E m m' \<Longrightarrow> approx E (statement_value m) (statement_value m')"
  unfolding statement_label_def statement_value_def by (rule approx_rules approx_method | assumption)+

lemma approx_statement [approx_method]:
  "calls_le E R R' \<Longrightarrow> approx E (statement_kind E R c k) (statement_kind E R' c k)"
  unfolding statement_kind_def by (rule approx_rules approx_method | assumption)+

lemma approx_block [approx_method]:
  "calls_le E R R' \<Longrightarrow> approx E (parse_statement_impl E R c) (parse_statement_impl E R' c)"
  "calls_le E R R' \<Longrightarrow> approx E (parse_block_impl E R label is_const start c) (parse_block_impl E R' label is_const start c)"
  "calls_le E R R' \<Longrightarrow> approx E (block_here E R label c) (block_here E R' label c)"
  unfolding parse_statement_impl_def parse_block_impl_def block_here_def by (rule approx_rules approx_method | assumption)+

lemma approx_if_body [approx_method]:
  "calls_le E R R' \<Longrightarrow> approx E (parse_if_body E R c) (parse_if_body E R' c)"
  unfolding parse_if_body_def
  by (rule approx_rules approx_method | assumption)+

lemma approx_if_branches [approx_method]: "calls_le E R R' \<Longrightarrow> n \<le> n' \<Longrightarrow> approx E (if_branches n E R c branches) (if_branches n' E R' c branches)"
proof (induction n arbitrary: n' branches)
  case (Suc n)
  then obtain k where k: "n' = Suc k" "n \<le> k" by (elim Suc_le_cases)
  show ?case unfolding k(1) if_branches.simps by (rule approx_rules approx_method Suc.IH k(2) Suc.prems(1))+
qed (simp add: approx_no_fuel)

lemma approx_control [approx_method]:
  "calls_le E R R' \<Longrightarrow> approx E (parse_if_impl E R c) (parse_if_impl E R' c)"
  "calls_le E R R' \<Longrightarrow> approx E (parse_while_impl E R label inl c) (parse_while_impl E R' label inl c)"
  "calls_le E R R' \<Longrightarrow> approx E (parse_for_impl E R label inl c) (parse_for_impl E R' label inl c)"
  "calls_le E R R' \<Longrightarrow> approx E (parse_loop_impl E R label c) (parse_loop_impl E R' label c)"
  "calls_le E R R' \<Longrightarrow> approx E (parse_switch_body E R c) (parse_switch_body E R' c)"
  unfolding parse_if_impl_def parse_while_impl_def parse_for_impl_def parse_loop_impl_def parse_switch_body_def
  by (rule approx_rules approx_method | assumption)+

lemma approx_switch_capture [approx_method]:
  "approx E (switch_capture E) (switch_capture E)"
  unfolding switch_capture_def
  by (rule approx_rules approx_method | assumption)+

lemma approx_switch_cases [approx_method]: "calls_le E R R' \<Longrightarrow> n \<le> n' \<Longrightarrow> approx E (switch_cases n E R c cases) (switch_cases n' E R' c cases)"
proof (induction n arbitrary: n' cases)
  case (Suc n)
  then obtain k where k: "n' = Suc k" "n \<le> k" by (elim Suc_le_cases)
  show ?case unfolding k(1) switch_cases.simps by (rule approx_rules approx_method Suc.IH k(2) Suc.prems(1))+
qed (simp add: approx_no_fuel)

lemma approx_switch [approx_method]:
  "calls_le E R R' \<Longrightarrow> approx E (switch_else E R c) (switch_else E R' c)"
  unfolding switch_else_def
  by (rule approx_rules approx_method | assumption)+

lemma approx_parse_switch [approx_method]:
  "calls_le E R R' \<Longrightarrow> approx E (parse_switch_impl E R label c) (parse_switch_impl E R' label c)"
  "calls_le E R R' \<Longrightarrow> approx E (parse_inline_loop E R label c) (parse_inline_loop E R' label c)"
  unfolding parse_switch_impl_def parse_inline_loop_def
  by (rule approx_rules approx_method | assumption)+

lemma approx_labeled [approx_method]:
  "calls_le E R R' \<Longrightarrow> approx E (parse_labeled_control_flow E R label c) (parse_labeled_control_flow E R' label c)"
  "calls_le E R R' \<Longrightarrow> approx E (labeled_control_flow E R c) (labeled_control_flow E R' c)"
  unfolding parse_labeled_control_flow_def labeled_control_flow_def
  by (rule approx_rules approx_method | assumption)+

lemma approx_init [approx_method]:
  "calls_le E R R' \<Longrightarrow> approx E (parse_struct_field_init E R) (parse_struct_field_init E R')"
  "calls_le E R R' \<Longrightarrow> approx E (parse_struct_init_expr E R lhs) (parse_struct_init_expr E R' lhs)"
  "calls_le E R R' \<Longrightarrow> approx E (parse_array_init_expr E R lhs) (parse_array_init_expr E R' lhs)"
  "calls_le E R R' \<Longrightarrow> approx E (init_kind E R lhs) (init_kind E R' lhs)"
  "calls_le E R R' \<Longrightarrow> approx E (parse_init_expr E R) (parse_init_expr E R')"
  unfolding parse_struct_field_init_def parse_struct_init_expr_def parse_array_init_expr_def init_kind_def parse_init_expr_def
  by (rule approx_rules approx_method | assumption)+

lemma approx_call_args [approx_method]: "calls_le E R R' \<Longrightarrow> n \<le> n' \<Longrightarrow> approx E (call_args n E R args) (call_args n' E R' args)"
proof (induction n arbitrary: n' args)
  case (Suc n)
  then obtain k where k: "n' = Suc k" "n \<le> k" by (elim Suc_le_cases)
  show ?case unfolding k(1) call_args.simps by (rule approx_rules approx_method Suc.IH k(2) Suc.prems(1))+
qed (simp add: approx_no_fuel)

lemma approx_fn_call [approx_method]:
  "calls_le E R R' \<Longrightarrow> approx E (parse_fn_call E R callee) (parse_fn_call E R' callee)"
  unfolding parse_fn_call_def
  by (rule approx_rules approx_method | assumption)+

section \<open>Declarations\<close>

lemma approx_const_param [approx_method]:
  "approx E (report_const_param E t) (report_const_param E t)"
  unfolding report_const_param_def
  by (rule approx_rules approx_method | assumption)+

lemma approx_fn_params [approx_method]: "calls_le E R R' \<Longrightarrow> n \<le> n' \<Longrightarrow> approx E (fn_params_loop n E R is_type_decl params) (fn_params_loop n' E R' is_type_decl params)"
proof (induction n arbitrary: n' params)
  case (Suc n)
  then obtain k where k: "n' = Suc k" "n \<le> k" by (elim Suc_le_cases)
  show ?case unfolding k(1) fn_params_loop.simps by (rule approx_rules approx_method Suc.IH k(2) Suc.prems(1))+
qed (simp add: approx_no_fuel)

lemma approx_fn_callconv [approx_method]:
  "calls_le E R R' \<Longrightarrow> approx E (fn_callconv E R is_type_decl) (fn_callconv E R' is_type_decl)"
  unfolding fn_callconv_def
  by (rule approx_rules approx_method | assumption)+

lemma approx_peek_id: "approx E (p_bind next_id (\<lambda>i s. Ok x (s\<lparr>p_next_id := i\<rparr>))) (p_bind next_id (\<lambda>i s. Ok x (s\<lparr>p_next_id := i\<rparr>)))"
  by (rule approx_refl) (simp add: p_bind_def next_id_def grown_def)

lemma approx_fn_decl [approx_method]: "calls_le E R R' \<Longrightarrow> approx E (parse_fn_decl E R is_type_decl) (parse_fn_decl E R' is_type_decl)"
  unfolding parse_fn_decl_def by (rule approx_peek_id approx_rules approx_method | assumption)+

lemma approx_members [approx_method]:
  "calls_le E R R' \<Longrightarrow> approx E (parse_associated_function E R is_pub is_comptime ext inl start allow_bodyless) (parse_associated_function E R' is_pub is_comptime ext inl start allow_bodyless)"
  "calls_le E R R' \<Longrightarrow> approx E (parse_associated_binding E R is_pub start is_const) (parse_associated_binding E R' is_pub start is_const)"
  "calls_le E R R' \<Longrightarrow> approx E (parse_field_def E R is_pub start) (parse_field_def E R' is_pub start)"
  "calls_le E R R' \<Longrightarrow> approx E (parse_enum_variant_def E R start) (parse_enum_variant_def E R' start)"
  "calls_le E R R' \<Longrightarrow> approx E (parse_union_field_def E R start) (parse_union_field_def E R' start)"
  unfolding parse_associated_function_def parse_associated_binding_def parse_field_def_def parse_enum_variant_def_def parse_union_field_def_def
  by (rule approx_rules approx_method | assumption)+

lemma approx_decl_items:
  assumes "calls_le E R R'" and "\<And>b sp. approx E (member b sp) (member' b sp)"
  shows "n \<le> n' \<Longrightarrow> approx E (decl_items n E R is_root with_comptime member fs items comma) (decl_items n' E R' is_root with_comptime member' fs items comma)"
proof (induction n arbitrary: n' fs items comma)
  case (Suc n)
  then obtain k where k: "n' = Suc k" "n \<le> k" by (elim Suc_le_cases)
  show ?case unfolding k(1) decl_items.simps by (rule approx_rules approx_method Suc.IH k(2) assms)+
qed (simp add: approx_no_fuel)

lemma approx_open_body [approx_method]:
  "approx E (open_body E is_root) (open_body E is_root)"
  unfolding open_body_def
  by (rule approx_rules approx_method | assumption)+

lemma approx_decl_body:
  "calls_le E R R' \<Longrightarrow> (\<And>b sp. approx E (member b sp) (member' b sp)) \<Longrightarrow>
     approx E (decl_body E R is_root with_comptime member start) (decl_body E R' is_root with_comptime member' start)"
  unfolding decl_body_def by (rule approx_rules approx_method approx_decl_items | assumption)+

lemma approx_decls [approx_method]:
  "calls_le E R R' \<Longrightarrow> approx E (parse_struct_decl E R is_root is_packed is_linear start) (parse_struct_decl E R' is_root is_packed is_linear start)"
  "calls_le E R R' \<Longrightarrow> approx E (parse_enum_decl E R is_root is_packed is_linear start) (parse_enum_decl E R' is_root is_packed is_linear start)"
  "calls_le E R R' \<Longrightarrow> approx E (parse_union_decl E R is_root is_linear start) (parse_union_decl E R' is_root is_linear start)"
  unfolding parse_struct_decl_def parse_enum_decl_def parse_union_decl_def
  by (rule approx_rules approx_decl_body approx_method | assumption)+

section \<open>Expressions\<close>

lemma approx_redundant [approx_method]:
  "approx E (redundant E saw qualifier t) (redundant E saw qualifier t)"
  unfolding redundant_def
  by (rule approx_rules approx_method | assumption)+

lemma approx_ptr_modifiers_loop [approx_method]: "calls_le E R R' \<Longrightarrow> n \<le> n' \<Longrightarrow> approx E (ptr_modifiers_loop n E R saw_const saw_volatile saw_addrspace mods) (ptr_modifiers_loop n' E R' saw_const saw_volatile saw_addrspace mods)"
proof (induction n arbitrary: n' saw_const saw_volatile saw_addrspace mods)
  case (Suc n)
  then obtain k where k: "n' = Suc k" "n \<le> k" by (elim Suc_le_cases)
  show ?case unfolding k(1) ptr_modifiers_loop.simps by (rule approx_rules approx_method Suc.IH k(2) Suc.prems(1))+
qed (simp add: approx_no_fuel)

lemma approx_ptr_modifiers [approx_method]:
  "calls_le E R R' \<Longrightarrow> approx E (parse_ptr_modifiers E R) (parse_ptr_modifiers E R')"
  unfolding parse_ptr_modifiers_def
  by (rule approx_rules approx_method | assumption)+

lemma approx_bracket_layer [approx_method]:
  "calls_le E R R' \<Longrightarrow> approx E (bracket_layer E R start) (bracket_layer E R' start)"
  unfolding bracket_layer_def
  by (rule approx_rules approx_method | assumption)+

lemma approx_prefix_ty_layers [approx_method]: "calls_le E R R' \<Longrightarrow> n \<le> n' \<Longrightarrow> approx E (prefix_ty_layers n E R layers) (prefix_ty_layers n' E R' layers)"
proof (induction n arbitrary: n' layers)
  case (Suc n)
  then obtain k where k: "n' = Suc k" "n \<le> k" by (elim Suc_le_cases)
  show ?case unfolding k(1) prefix_ty_layers.simps by (rule approx_rules approx_method Suc.IH k(2) Suc.prems(1))+
qed (simp add: approx_no_fuel)

lemma approx_wrap_layers [approx_method]: "approx E (wrap_layers layers e) (wrap_layers layers e)"
proof (induction layers arbitrary: e)
  case (Cons l layers)
  show ?case unfolding wrap_layers.simps by (rule approx_rules Cons.IH)+
qed (simp add: approx_ret)

lemma approx_prefixed [approx_method]:
  "calls_le E R R' \<Longrightarrow> approx E (parse_prefixed_ty_expr E R) (parse_prefixed_ty_expr E R')"
  unfolding parse_prefixed_ty_expr_def
  by (rule approx_rules approx_method | assumption)+

lemma approx_suffix_parts [approx_method]:
  "approx E (index_expr lhs k) (index_expr lhs k)"
  "approx E (misplaced E hint) (misplaced E hint)"
  "approx E (suffix_dot E lhs) (suffix_dot E lhs)"
  unfolding suffix_dot_def misplaced_def index_expr_def
  by (rule approx_rules approx_method | assumption)+

lemma approx_suffix [approx_method]:
  "calls_le E R R' \<Longrightarrow> approx E (range_end E R lhs start) (range_end E R' lhs start)"
  "calls_le E R R' \<Longrightarrow> approx E (range_inclusive_end E R lhs start) (range_inclusive_end E R' lhs start)"
  "calls_le E R R' \<Longrightarrow> approx E (suffix_index E R lhs) (suffix_index E R' lhs)"
  "calls_le E R R' \<Longrightarrow> approx E (parse_suffix_ty_op E R lhs) (parse_suffix_ty_op E R' lhs)"
  unfolding parse_suffix_ty_op_def suffix_index_def range_end_def range_inclusive_end_def
  by (rule approx_rules approx_method | assumption)+

lemma approx_suffix_loop [approx_method]: "calls_le E R R' \<Longrightarrow> n \<le> n' \<Longrightarrow> approx E (suffix_loop n E R start e just_called) (suffix_loop n' E R' start e just_called)"
proof (induction n arbitrary: n' e just_called)
  case (Suc n)
  then obtain k where k: "n' = Suc k" "n \<le> k" by (elim Suc_le_cases)
  show ?case unfolding k(1) suffix_loop.simps by (rule approx_rules approx_method Suc.IH k(2) Suc.prems(1))+
qed (simp add: approx_no_fuel)

lemma approx_multi_line_str [approx_method]: "n \<le> n' \<Longrightarrow> approx E (multi_line_str n buffer) (multi_line_str n' buffer)"
proof (induction n arbitrary: n' buffer)
  case (Suc n)
  then obtain k where k: "n' = Suc k" "n \<le> k" by (elim Suc_le_cases)
  show ?case unfolding k(1) multi_line_str.simps by (rule approx_rules approx_method Suc.IH k(2))+
qed (simp add: approx_no_fuel)

lemma approx_group_starts [approx_method]: "n \<le> n' \<Longrightarrow> approx E (group_starts n starts) (group_starts n' starts)"
proof (induction n arbitrary: n' starts)
  case (Suc n)
  then obtain k where k: "n' = Suc k" "n \<le> k" by (elim Suc_le_cases)
  show ?case unfolding k(1) group_starts.simps by (rule approx_rules approx_method Suc.IH k(2))+
qed (simp add: approx_no_fuel)

lemma approx_anonymous [approx_method]:
  "calls_le E R R' \<Longrightarrow> approx E (struct_type E R packed linear start) (struct_type E R' packed linear start)"
  "calls_le E R R' \<Longrightarrow> approx E (enum_type E R linear start) (enum_type E R' linear start)"
  "calls_le E R R' \<Longrightarrow> approx E (union_type E R linear start) (union_type E R' linear start)"
  "calls_le E R R' \<Longrightarrow> approx E (linear_type E R start) (linear_type E R' start)"
  unfolding linear_type_def struct_type_def enum_type_def union_type_def
  by (rule approx_rules approx_method | assumption)+

lemma approx_dot_literal [approx_method]:
  "calls_le E R R' \<Longrightarrow> approx E (dot_literal E R) (dot_literal E R')"
  unfolding dot_literal_def
  by (rule approx_rules approx_method | assumption)+

lemma approx_close_groups [approx_method]: "approx E (close_groups E starts e) (close_groups E starts e)"
proof (induction starts arbitrary: e)
  case (Cons st starts)
  show ?case unfolding close_groups.simps by (rule approx_rules approx_method Cons.IH)+
qed (simp add: approx_ret)

lemma approx_groups [approx_method]:
  "calls_le E R R' \<Longrightarrow> approx E (parse_group_ty_expr E R) (parse_group_ty_expr E R')"
  "calls_le E R R' \<Longrightarrow> approx E (parse_group_expr E R allow_init) (parse_group_expr E R' allow_init)"
  unfolding parse_group_ty_expr_def parse_group_expr_def
  by (rule approx_rules approx_method | assumption)+

lemma approx_finish_primary [approx_method]:
  "approx E (finish_primary start r) (finish_primary start r)"
  unfolding finish_primary_def
  by (rule approx_rules approx_method | assumption)+

lemma approx_primary_ty_kind [approx_method]:
  "calls_le E R R' \<Longrightarrow> approx E (primary_ty_kind E R t) (primary_ty_kind E R' t)"
  unfolding primary_ty_kind_def Let_def
  by (rule approx_rules approx_method | assumption)+

lemma approx_ty_expr [approx_method]:
  "calls_le E R R' \<Longrightarrow> approx E (parse_primary_ty_expr E R) (parse_primary_ty_expr E R')"
  "calls_le E R R' \<Longrightarrow> approx E (parse_suffix_ty_expr E R) (parse_suffix_ty_expr E R')"
  "calls_le E R R' \<Longrightarrow> approx E (parse_ty_expr E R) (parse_ty_expr E R')"
  unfolding parse_ty_expr_def parse_suffix_ty_expr_def parse_primary_ty_expr_def
  by (rule approx_rules approx_method | assumption)+

lemma approx_infix_op_of [approx_method]:
  "approx E (infix_op_of k) (infix_op_of k)"
  unfolding infix_op_of_def
  by (rule approx_rules approx_method | assumption)+

lemma approx_prefix_expr_layers [approx_method]: "n \<le> n' \<Longrightarrow> approx E (prefix_expr_layers n layers) (prefix_expr_layers n' layers)"
proof (induction n arbitrary: n' layers)
  case (Suc n)
  then obtain k where k: "n' = Suc k" "n \<le> k" by (elim Suc_le_cases)
  show ?case unfolding k(1) prefix_expr_layers.simps by (rule approx_rules approx_method Suc.IH k(2))+
qed (simp add: approx_no_fuel)

lemma approx_wrap_prefix [approx_method]: "approx E (wrap_prefix layers e) (wrap_prefix layers e)"
proof (induction layers arbitrary: e)
  case (Cons l layers)
  show ?case unfolding wrap_prefix.simps by (rule approx_rules Cons.IH)+
qed (simp add: approx_ret)

lemma approx_primary_kind [approx_method]:
  "calls_le E R R' \<Longrightarrow> approx E (primary_kind E R allow_init t) (primary_kind E R' allow_init t)"
  unfolding primary_kind_def Let_def
  by (rule approx_rules approx_method | assumption)+

lemma approx_prefix_expr [approx_method]:
  "calls_le E R R' \<Longrightarrow> approx E (parse_primary_expr E R allow_init) (parse_primary_expr E R' allow_init)"
  "calls_le E R R' \<Longrightarrow> approx E (parse_prefix_expr E R allow_init) (parse_prefix_expr E R' allow_init)"
  unfolding parse_prefix_expr_def parse_primary_expr_def
  by (rule approx_rules approx_method | assumption)+

lemma approx_expr_loop [approx_method]: "calls_le E R R' \<Longrightarrow> n \<le> n' \<Longrightarrow> approx E (expr_loop n E R min_bp allow_init lhs) (expr_loop n' E R' min_bp allow_init lhs)"
proof (induction n arbitrary: n' lhs)
  case (Suc n)
  then obtain k where k: "n' = Suc k" "n \<le> k" by (elim Suc_le_cases)
  show ?case unfolding k(1) expr_loop.simps by (rule approx_rules approx_method Suc.IH k(2) Suc.prems(1))+
qed (simp add: approx_no_fuel)

lemma approx_precedence [approx_method]:
  "calls_le E R R' \<Longrightarrow> approx E (parse_expr_precedence E R min_bp allow_init) (parse_expr_precedence E R' min_bp allow_init)"
  unfolding parse_expr_precedence_def
  by (rule approx_rules approx_method | assumption)+

lemma calls_at_le: "n \<le> n' \<Longrightarrow> calls_le E (calls_at E n) (calls_at E n')"
proof (induction n arbitrary: n')
  case (Suc n)
  then obtain k where k: "n' = Suc k" "n \<le> k" by (elim Suc_le_cases)
  then have "calls_le E (calls_at E n) (calls_at E k)" by (intro Suc.IH)
  then show ?case using k by (auto simp: calls_le_def intro: approx_ty_expr approx_precedence)
qed (simp add: calls_le_def approx_no_fuel)

end
