(* ===== verification/Vif_Parser_Eval.thy ===== *)
theory Vif_Parser_Eval
  imports Vif_Parser_Fuel
begin

text \<open>
  Evaluation of the parser model by the simplifier: the equations of the methods applied to a state, so that
  only the path a given token stream takes is unfolded, and token streams for examples.
\<close>

definition sample_env :: parser_env where
  "sample_env = \<lparr>label_insert = (\<lambda>ls l le. l # ls), diag_insert = (\<lambda>es d le. d # es)\<rparr>"

lemma sample_env_ok [simp]: "env_ok sample_env"
  by (simp add: env_ok_def sample_env_def)

text \<open>The tokens of the given kinds, each one byte long.\<close>

definition tokens_of :: "token_kind list \<Rightarrow> token list" where
  "tokens_of ks = map (\<lambda>(i, k). \<lparr>tok_kind = k, tok_span = \<lparr>span_start_at = of_nat i, span_end_at = of_nat (Suc i)\<rparr>\<rparr>) (enumerate 0 ks)"

lemmas run =
  p_ret_def p_bind_def p_seq_def [THEN fun_cong] p_map_def [THEN fun_cong] p_match_def p_err_def p_no_fuel_def p_fault_def
  p_push_error_def p_report_def diag_expected_one_of_token_def p_peek_def p_bump_def p_prev_def p_prev_nth_def
  p_peek_nth_def p_advance_def p_retreat_def p_get_offset_def p_set_offset_def p_peek_expect_def [THEN fun_cong]
  p_eat_expect_def [THEN fun_cong] p_eat_if_def [THEN fun_cong] p_eaten_def [THEN fun_cong] p_behind_def [THEN fun_cong]
  p_eat_until_def [THEN fun_cong] p_eat_until2_def [THEN fun_cong] p_eat_until3_def [THEN fun_cong]
  p_want_def [THEN fun_cong] eat_group_def [THEN fun_cong] eat_delimited_group_def [THEN fun_cong]
  eat_delimited_def [THEN fun_cong] maybe_assign_op_def [THEN fun_cong] maybe_parse_int_suffix_def [THEN fun_cong]
  maybe_parse_float_suffix_def [THEN fun_cong] parse_ident_def [THEN fun_cong] parse_user_ident_def [THEN fun_cong]
  missing_ident_def [THEN fun_cong] field_ident_def [THEN fun_cong] parse_decl_modifiers_def [THEN fun_cong]
  expect_ty_expr_def [THEN fun_cong] expect_some_def [THEN fun_cong] parse_expr_def [THEN fun_cong]
  expect_expr_def [THEN fun_cong] expect_expr_no_init_def [THEN fun_cong] expect_expr_ctx_def [THEN fun_cong]
  expect_expr_ctx_no_init_def [THEN fun_cong] eat_delimited_ctx_def [THEN fun_cong] close_expr_def [THEN fun_cong]
  p_node_def [THEN fun_cong] make_expr_def [THEN fun_cong] parse_var_binding_def [THEN fun_cong]
  statement_label_def [THEN fun_cong] statement_value_def [THEN fun_cong] statement_kind_def [THEN fun_cong]
  parse_statement_impl_def [THEN fun_cong] parse_block_impl_def [THEN fun_cong] block_here_def [THEN fun_cong]
  parse_if_body_def [THEN fun_cong] parse_if_impl_def [THEN fun_cong] parse_while_impl_def [THEN fun_cong]
  parse_for_impl_def [THEN fun_cong] parse_loop_impl_def [THEN fun_cong] parse_switch_body_def [THEN fun_cong]
  switch_capture_def [THEN fun_cong] switch_else_def [THEN fun_cong] parse_switch_impl_def [THEN fun_cong]
  parse_inline_loop_def [THEN fun_cong] parse_labeled_control_flow_def [THEN fun_cong]
  labeled_control_flow_def [THEN fun_cong] parse_struct_field_init_def [THEN fun_cong]
  parse_struct_init_expr_def [THEN fun_cong] parse_array_init_expr_def [THEN fun_cong] init_kind_def [THEN fun_cong]
  parse_init_expr_def [THEN fun_cong] parse_fn_call_def [THEN fun_cong] report_const_param_def [THEN fun_cong]
  fn_callconv_def [THEN fun_cong] parse_fn_decl_def [THEN fun_cong] parse_associated_function_def [THEN fun_cong]
  parse_associated_binding_def [THEN fun_cong] parse_field_def_def [THEN fun_cong] parse_enum_variant_def_def [THEN fun_cong]
  parse_union_field_def_def [THEN fun_cong] open_body_def [THEN fun_cong] decl_body_def [THEN fun_cong]
  parse_struct_decl_def [THEN fun_cong] parse_enum_decl_def [THEN fun_cong] parse_union_decl_def [THEN fun_cong]
  p_errors_push_def redundant_def [THEN fun_cong] parse_ptr_modifiers_def [THEN fun_cong] bracket_layer_def [THEN fun_cong]
  parse_prefixed_ty_expr_def [THEN fun_cong] index_expr_def [THEN fun_cong] range_end_def [THEN fun_cong]
  range_inclusive_end_def [THEN fun_cong] suffix_index_def [THEN fun_cong] misplaced_def [THEN fun_cong]
  suffix_dot_def [THEN fun_cong] parse_suffix_ty_op_def [THEN fun_cong] struct_type_def [THEN fun_cong]
  enum_type_def [THEN fun_cong] union_type_def [THEN fun_cong] linear_type_def [THEN fun_cong]
  dot_literal_def [THEN fun_cong] parse_group_ty_expr_def [THEN fun_cong] primary_ty_kind_def [THEN fun_cong]
  finish_primary_def [THEN fun_cong] parse_primary_ty_expr_def [THEN fun_cong] parse_suffix_ty_expr_def [THEN fun_cong]
  parse_ty_expr_def [THEN fun_cong] infix_op_of_def [THEN fun_cong] parse_group_expr_def [THEN fun_cong]
  primary_kind_def [THEN fun_cong] parse_primary_expr_def [THEN fun_cong] parse_prefix_expr_def [THEN fun_cong]
  parse_expr_precedence_def [THEN fun_cong] take_parse_errors_def parse_module_def [THEN fun_cong] p_eat_until_any.simps
  eat_group_loop.simps [THEN fun_cong] eat_delimited_group_loop.simps [THEN fun_cong]
  eat_delimited_loop.simps [THEN fun_cong] decl_modifiers_loop.simps [THEN fun_cong] if_branches.simps [THEN fun_cong]
  switch_cases.simps [THEN fun_cong] call_args.simps [THEN fun_cong] fn_params_loop.simps [THEN fun_cong]
  decl_items.simps [THEN fun_cong] ptr_modifiers_loop.simps [THEN fun_cong] prefix_ty_layers.simps [THEN fun_cong]
  wrap_layers.simps [THEN fun_cong] suffix_loop.simps [THEN fun_cong] multi_line_str.simps [THEN fun_cong]
  group_starts.simps [THEN fun_cong] close_groups.simps [THEN fun_cong] prefix_expr_layers.simps [THEN fun_cong]
  wrap_prefix.simps [THEN fun_cong] expr_loop.simps [THEN fun_cong]

declare
  eat_group_loop.simps [simp del] eat_delimited_group_loop.simps [simp del] eat_delimited_loop.simps [simp del]
  decl_modifiers_loop.simps [simp del] if_branches.simps [simp del] switch_cases.simps [simp del] call_args.simps [simp del]
  fn_params_loop.simps [simp del] decl_items.simps [simp del] ptr_modifiers_loop.simps [simp del]
  prefix_ty_layers.simps [simp del] wrap_layers.simps [simp del] suffix_loop.simps [simp del] multi_line_str.simps [simp del]
  group_starts.simps [simp del] close_groups.simps [simp del] prefix_expr_layers.simps [simp del]
  wrap_prefix.simps [simp del] expr_loop.simps [simp del] calls_at.simps [simp del]

lemma calls_at_select [simp]:
  "fuel (calls_at E n) = n"
  "ty_call (calls_at E (Suc n)) = parse_ty_expr E (calls_at E n)"
  "expr_call (calls_at E (Suc n)) = parse_expr_precedence E (calls_at E n)"
  "ty_call (calls_at E 0) = p_no_fuel"
  "expr_call (calls_at E 0) bp init = p_no_fuel"
  by (cases n; simp add: calls_at.simps)+

lemma next_id_small: "p_next_id s < 1000 \<Longrightarrow> next_id s = Ok (p_next_id s) (s\<lparr>p_next_id := p_next_id s + 1\<rparr>)"
  by (simp add: next_id_def)

lemmas run_simps = run Let_def parser_new_def is_eof_token_def ident_is_user_def ident_is_generic_def prefix_layer_of_def infix_entry_def
  infix_left_def starts_prefixed_type_def is_plain_ident_def ends_statement_def is_user_def is_generic_def

lemmas run_sample = run_simps next_id_small tokens_of_def sample_env_def

end
