(* ===== verification/Vif_Parser_Props.thy ===== *)
theory Vif_Parser_Props
  imports Vif_Parser_Eval
begin

text \<open>
  What the parser does: memory safety together with the lexer, independence of the fuel, what becomes of the
  errors, and its behaviour at the end of the file, where reading a token does not move but putting it back does.
\<close>

section \<open>Safety, fuel, errors\<close>

text \<open>
  C1: Memory safety of lexer and parser together, for every recursion depth: on a zero-terminated text whose
  carriage returns are all followed by a newline, no token is read outside the token vector, no failed
  assumption is reached, the offset never falls below zero, and the only abnormal end is an exhausted supply of
  node ids. All errors of the parser are returned through its list.
\<close>

theorem parse_source_memory_safe:
  assumes "crates_ok X" and "src_ok src" and "no_lone_cr src"
  shows "\<exists>r. parse_source n X E src m = Some (Inr r) \<and> parse_result_ok r"
proof -
  obtain ts es where lex: "lex_source X src m = Some (Inr (ts, es))" "stream_ok 0 (length src) ts"
    using lex_source_total [OF assms] by blast
  then show ?thesis using parse_module_ok [OF stream_of_stream_ok [OF lex(2)]] by (simp add: parse_source_def)
qed

theorem parse_source_memory_safe_witness:
  "\<exists>r. parse_source 9 scan_crates sample_env (''const a = .5'' @ [EOF]) 0 = Some (Inr r) \<and> parse_result_ok r"
proof -
  have "src_ok (''const a = .5'' @ [EOF])" "no_lone_cr (''const a = .5'' @ [EOF])"
    by (simp_all add: src_ok_def no_lone_crI)
  from parse_source_memory_safe [OF scan_crates_ok this] show ?thesis .
qed

lemma p_match_approx: "approx E m m' \<Longrightarrow> p_match m f g s \<noteq> NoFuel \<Longrightarrow> p_match m' f g s = p_match m f g s"
  by (cases "m s = NoFuel") (auto simp: approx_def p_match_def dest: spec [of _ s])

lemma parse_module_approx:
  assumes "n \<le> n'" and "parse_module n E s \<noteq> NoFuel"
  shows "parse_module n' E s = parse_module n E s"
proof (cases "p_offset s < length (p_tokens s) \<and> \<not> is_eof_token (p_tokens s ! p_offset s)")
  case True
  then show ?thesis using assms(2) p_match_approx [OF approx_decls(1) [OF calls_at_le [OF assms(1)]]]
    by (simp add: parse_module_def p_bind_def p_peek_def)
qed (auto simp: parse_module_def p_bind_def p_peek_def)

text \<open>
  The recursion depth of the model is only a bound on how long the parser may run: whatever result a depth
  gives, every greater depth gives the same.
\<close>

theorem parse_source_depth_irrelevant:
  assumes "n \<le> n'" and "parse_source n X E src m = Some (Inr r)" and "r \<noteq> NoFuel"
  shows "parse_source n' X E src m = Some (Inr r)"
proof -
  obtain ts es where ts: "lex_source X src m = Some (Inr (ts, es))" "parse_module n E (parser_new ts es m) = r"
    using assms(2) by (auto simp: parse_source_def elim!: bindr.elims)
  then show ?thesis using parse_module_approx [OF assms(1)] assms(3) by (simp add: parse_source_def)
qed

theorem parse_source_depth_irrelevant_witness:
  "\<exists>r. parse_source 3 scan_crates sample_env [EOF] 0 = Some (Inr r) \<and> (r \<noteq> NoFuel \<longrightarrow> parse_source 9 scan_crates sample_env [EOF] 0 = Some (Inr r))"
proof -
  have "src_ok [EOF]" "no_lone_cr [EOF]" by (simp_all add: src_ok_def no_lone_crI)
  then obtain r where "parse_source 3 scan_crates sample_env [EOF] 0 = Some (Inr r)"
    using lex_source_total [OF scan_crates_ok] by (fastforce simp: parse_source_def)
  with parse_source_depth_irrelevant [OF _ this, of 9] show ?thesis by auto
qed

section \<open>Errors\<close>

lemma parse_module_errors:
  assumes "env_ok E" and "\<not> is_eof_token (hd ts)" and "ts \<noteq> []" and "parse_module n E (parser_new ts es m) = Ok r s"
  shows "(\<forall>md. r = Inr md \<longrightarrow> es = [] \<and> p_errors s = []) \<and> (\<forall>es'. r = Inl es' \<longrightarrow> es' \<noteq> [] \<and> mset es \<subseteq># mset es')"
proof -
  let ?s = "parser_new ts es m"
  let ?d = "parse_struct_decl E (calls_at E n) True False False (tok_span (hd ts))"
  have "evolves E ?s (?d ?s)" using approx_decls(1) [OF calls_at_le [OF order_refl]] by (simp add: approx_def)
  moreover have "parse_module n E ?s = p_match ?d
           (\<lambda>decl s. if p_errors s \<noteq> [] then take_parse_errors s else Ok (Inr (Module_StructDecl decl)) s)
           (\<lambda>err. p_seq (p_push_error E err) take_parse_errors) ?s"
    using assms(2,3) by (simp add: parse_module_def p_bind_def [of p_peek] p_peek_def parser_new_def hd_conv_nth)
  moreover have "mset es \<subseteq># mset (diag_insert E es' d le)" "diag_insert E es' d le \<noteq> []" if "mset es \<subseteq># mset es'" for es' d le
    using that assms(1) by (auto simp: env_ok_def intro: subset_mset.order_trans dest!: spec [of _ es'] simp flip: mset_zero_iff)
  moreover have "p_errors ?s = es" by (simp add: parser_new_def)
  ultimately show ?thesis using assms(1,4)
    by (cases "?d ?s") (auto simp: p_match_def p_seq_def p_bind_def p_push_error_def take_parse_errors_def grown_def split: if_splits)
qed



text \<open>
  A file without a token is accepted whatever the lexer reported about it: its errors are dropped.
\<close>

theorem empty_file_drops_errors:
  assumes "tok_kind t = Eof"
  shows "parse_module n E (parser_new [t] es m) =
    Ok (Inr (Module_StructDecl (StructTy [] [] False False (tok_span t)))) (parser_new [t] es m)"
  using assms by (simp add: run_simps)

theorem empty_file_drops_errors_witness:
  "let t = hd (tokens_of [Eof]) in
     parse_module 5 sample_env (parser_new [t] [with_message diag_error ''unexpected character''] 0) =
       Ok (Inr (Module_StructDecl (StructTy [] [] False False (tok_span t)))) (parser_new [t] [with_message diag_error ''unexpected character''] 0)"
proof -
  have "tok_kind (hd (tokens_of [Eof])) = Eof" by (simp add: tokens_of_def)
  from empty_file_drops_errors [OF this] show ?thesis by (simp add: Let_def)
qed

section \<open>The end of the file\<close>

text \<open>What it means that an optional token was looked for.\<close>

definition looked :: "parser \<Rightarrow> 'a option parse_result \<Rightarrow> bool" where
  "looked s res \<longleftrightarrow>
     (if cur s = Eof then res = Ok None (s\<lparr>p_offset := p_offset s - 1\<rparr>)
      else res = Ok None s \<or> (\<exists>x. res = Ok (Some x) (s\<lparr>p_offset := p_offset s + 1\<rparr>)))"

lemma looked_put_back:
  assumes "at ts 1 s" and "\<And>t. (\<exists>x. f t = p_ret (Some x)) \<and> tok_kind t \<noteq> Eof \<or> f t = p_seq p_retreat (p_ret None)"
  shows "looked s (p_bind p_bump f s)"
proof -
  have o: "p_offset s \<noteq> 0" using assms(1) by (simp add: at_def)
  have c: "cur s = tok_kind (ts ! p_offset s)" using assms(1) by (simp add: at_def cur_def)
  show ?thesis using bump_at [OF assms(1)] assms(2) [of "ts ! p_offset s"] o c
    by (cases "cur s = Eof") (auto simp: looked_def p_bind_def p_ret_def p_seq_def p_retreat_def)
qed

text \<open>
  The three methods that look for an optional token. Elsewhere they consume a token only if it is one that
  they look for and do not move otherwise; at the end of the file they step back over the token before it.
\<close>

theorem optional_token_unreads_at_eof:
  assumes "at ts 1 s"
  shows "looked s (maybe_assign_op s) \<and> looked s (maybe_parse_int_suffix s) \<and> looked s (maybe_parse_float_suffix s)"
proof (intro conjI)
  note table = token_kind.split op1.split op2.split op3.split op4.split ty_name.split
  show "looked s (maybe_assign_op s)" unfolding maybe_assign_op_def by (rule looked_put_back [OF assms]) (auto split: table)
  show "looked s (maybe_parse_int_suffix s)" unfolding maybe_parse_int_suffix_def by (rule looked_put_back [OF assms]) (auto split: table)
  show "looked s (maybe_parse_float_suffix s)" unfolding maybe_parse_float_suffix_def by (rule looked_put_back [OF assms]) (auto split: table)
qed

lemma stream_tokens_of [simp]: "Eof \<notin> set ks \<Longrightarrow> stream (tokens_of (ks @ [Eof]))"
proof -
  assume "Eof \<notin> set ks"
  then have "\<forall>i < length ks. ks ! i \<noteq> Eof" by (metis nth_mem)
  then show ?thesis by (simp add: stream_def tokens_of_def enumerate_append_eq nth_append nth_enumerate_eq)
qed

theorem optional_token_unreads_at_eof_witness:
  "let s = (parser_new (tokens_of [LitInt ''5'' Decimal, Eof]) [] 0)\<lparr>p_offset := 1\<rparr> in
     looked s (maybe_assign_op s) \<and> looked s (maybe_parse_int_suffix s) \<and> looked s (maybe_parse_float_suffix s)"
proof -
  have "stream (tokens_of [LitInt ''5'' Decimal, Eof])" using stream_tokens_of [of "[LitInt ''5'' Decimal]"] by simp
  then have "at (tokens_of [LitInt ''5'' Decimal, Eof]) 1 ((parser_new (tokens_of [LitInt ''5'' Decimal, Eof]) [] 0)\<lparr>p_offset := 1\<rparr>)"
    by (simp add: at_def parser_new_def tokens_of_def)
  from optional_token_unreads_at_eof [OF this] show ?thesis by (simp add: Let_def)
qed

section \<open>Inputs on which the parser does not return\<close>

text \<open>A dot at which neither a name nor a brace follows.\<close>

definition stray_dot :: "parser \<Rightarrow> bool" where
  "stray_dot s \<longleftrightarrow> p_offset s + 1 < length (p_tokens s) \<and> tok_kind (p_tokens s ! p_offset s) = Op1 Dot \<and>
     \<not> is_plain_ident (tok_kind (p_tokens s ! (p_offset s + 1))) \<and> tok_kind (p_tokens s ! (p_offset s + 1)) \<noteq> Op1 LBrace"

lemma stray_dot_ty: "stray_dot s \<Longrightarrow> ty_call (calls_at E n) s = NoFuel"
  by (induction n) (auto simp: run_simps stray_dot_def)

lemma stray_dot_expr: "stray_dot s \<Longrightarrow> expr_call (calls_at E n) bp init s = NoFuel"
proof (cases n)
  case (Suc k)
  assume "stray_dot s"
  then show ?thesis using stray_dot_ty [OF \<open>stray_dot s\<close>, of E k] unfolding Suc
    by (cases k) (auto simp: run_simps stray_dot_def)
qed (simp add: run_simps)



text \<open>A name that is the last token of the file.\<close>

definition last_name :: "parser \<Rightarrow> bool" where
  "last_name s \<longleftrightarrow> p_offset s \<noteq> 0 \<and> length (p_tokens s) = p_offset s + 2 \<and> (\<exists>x. tok_kind (p_tokens s ! p_offset s) = Ident x User) \<and>
     tok_kind (p_tokens s ! (p_offset s + 1)) = Eof"

definition stays :: "parser \<Rightarrow> 'a parse_result \<Rightarrow> bool" where
  "stays s r \<longleftrightarrow> (case r of NoFuel \<Rightarrow> True | Fault e \<Rightarrow> e = IdOverflow | Err d s' \<Rightarrow> False
     | Ok x s' \<Rightarrow> p_tokens s' = p_tokens s \<and> p_offset s' = p_offset s)"

lemma statement_last_name:
  assumes "last_name s"
  shows "stays s (parse_statement_impl E (calls_at E n) Ctx_Value s)"
proof -
  obtain x where x: "tok_kind (p_tokens s ! p_offset s) = Ident x User" using assms by (auto simp: last_name_def)
  have t: "tok_kind (p_tokens s ! Suc (p_offset s)) = Eof" "length (p_tokens s) = Suc (Suc (p_offset s))" "p_offset s \<noteq> 0"
    using assms by (auto simp: last_name_def)
  consider "n = 0" | "n = 1" | "n = 2" | k where "n = Suc (Suc (Suc k))" by (metis One_nat_def numeral_2_eq_2 not0_implies_Suc)
  then show ?thesis
    by cases (auto simp: stays_def run_simps next_id_def x t numeral_2_eq_2)
qed

lemma last_name_cong: "p_tokens s' = p_tokens s \<Longrightarrow> p_offset s' = p_offset s \<Longrightarrow> last_name s \<Longrightarrow> last_name s'"
  by (simp add: last_name_def)

lemma block_loop_last_name:
  "last_name s \<Longrightarrow>
     (case eat_group_loop n E (Tag_Op1 RBrace) (parse_statement_impl E (calls_at E k) Ctx_Value) items s of
        NoFuel \<Rightarrow> True | Fault e \<Rightarrow> e = IdOverflow | _ \<Rightarrow> False)"
proof (induction n arbitrary: items s)
  case (Suc n)
  have peek: "p_peek s = Ok (p_tokens s ! p_offset s) s" "tag (tok_kind (p_tokens s ! p_offset s)) \<noteq> Tag_Op1 RBrace"
    "\<not> is_eof_token (p_tokens s ! p_offset s)"
    using Suc.prems by (auto simp: last_name_def p_peek_def is_eof_token_def)
  show ?case
  proof (cases "parse_statement_impl E (calls_at E k) Ctx_Value s")
    case (Ok x s')
    then have "last_name s'" using statement_last_name [OF Suc.prems, of E k] Suc.prems last_name_cong [of s' s] by (simp add: stays_def)
    then show ?thesis using Suc.IH [of s'] peek Ok
      by (simp add: eat_group_loop.simps p_bind_def p_get_offset_def p_match_def)
  qed (use statement_last_name [OF Suc.prems, of E k] peek
      in \<open>simp_all add: stays_def eat_group_loop.simps p_bind_def p_get_offset_def p_match_def\<close>)
qed (simp add: eat_group_loop.simps p_no_fuel_def)



section \<open>Files that end too early\<close>

text \<open>
  The function \<^verbatim>\<open>fn f() void { {}\<close> lacks its last brace. The search for an assignment operator steps back
  over the brace of the inner block, and the same brace then closes the outer one: the file is accepted.
\<close>

theorem missing_brace_accepted:
  "\<exists>fn sp sp' i s. parse_module 6 sample_env
      (parser_new (tokens_of [Kw KwFn, Ident ''f'' User, Op1 LParen, Op1 RParen, Ty TyVoid, Op1 LBrace, Op1 LBrace, Op1 RBrace, Eof]) [] m) =
    Ok (Inr (Module_StructDecl (StructTy [] [AssociatedItem i (Item_Fn fn) False sp] False False sp'))) s"
proof -
  have six: "(6::nat) = Suc (Suc (Suc (Suc (Suc (Suc 0)))))" by simp
  show ?thesis unfolding six by (simp add: run_sample span_join_def)
qed

text \<open>
  The file \<^verbatim>\<open>const a = 5\<close> with nothing behind the literal is rejected: the search for a suffix steps back over
  the literal, which is then an unexpected token of the module.
\<close>

theorem literal_at_end_rejected:
  "\<exists>s. parse_module 6 sample_env (parser_new (tokens_of [Kw KwConst, Ident ''a'' User, Op1 Eq, LitInt ''5'' Decimal, Eof]) [] m) =
    Ok (Inl [diag_unexpected_token sample_env (tokens_of [Kw KwConst, Ident ''a'' User, Op1 Eq, LitInt ''5'' Decimal, Eof] ! 3) m]) s"
proof -
  have six: "(6::nat) = Suc (Suc (Suc (Suc (Suc (Suc 0)))))" by simp
  show ?thesis unfolding six by (simp add: run_sample)
qed

end
