(* ===== verification/Vif_Parser_Prec.thy ===== *)
theory Vif_Parser_Prec
  imports Vif_Parser_Eval
begin

text \<open>
  Operator precedence: the binary expressions that the parser builds are exactly those of the grammar in which a
  left operand binds at least as tightly as its operator and a right operand more tightly.
\<close>

section \<open>Postconditions\<close>

definition ends_in :: "(parser \<Rightarrow> bool) \<Rightarrow> 'a parse \<Rightarrow> ('a \<Rightarrow> parser \<Rightarrow> bool) \<Rightarrow> bool" where
  "ends_in P m Q \<longleftrightarrow> (\<forall>s x s'. P s \<longrightarrow> m s = Ok x s' \<longrightarrow> Q x s')"

lemma ends_inD: "ends_in P m Q \<Longrightarrow> P s \<Longrightarrow> m s = Ok x s' \<Longrightarrow> Q x s'"
  by (auto simp: ends_in_def)

lemma ends_bind: "ends_in P m Q \<Longrightarrow> (\<And>x. ends_in (Q x) (f x) Q') \<Longrightarrow> ends_in P (p_bind m f) Q'"
  unfolding ends_in_def by (auto elim!: bind_OkE)

lemma ends_last: "(\<And>x. ends_in anywhere (f x) Q) \<Longrightarrow> ends_in P (p_bind m f) Q"
  unfolding ends_in_def by (auto elim!: bind_OkE)

lemma ends_seq: "ends_in anywhere n Q \<Longrightarrow> ends_in P (p_seq m n) Q"
  by (simp add: p_seq_def ends_last)

lemma ends_ret: "(\<And>s. P s \<Longrightarrow> Q x s) \<Longrightarrow> ends_in P (p_ret x) Q"
  by (simp add: ends_in_def p_ret_def)

lemma ends_map: "ends_in P m (\<lambda>x. Q (f x)) \<Longrightarrow> ends_in P (p_map f m) Q"
  unfolding ends_in_def p_map_def by (auto elim!: bind_OkE simp: p_ret_def)

lemma ends_any: "(\<And>x s. Q x s) \<Longrightarrow> ends_in P m Q"
  by (simp add: ends_in_def)

lemma ends_no_result: "ends_in P (p_err g) Q" "ends_in P p_no_fuel Q" "ends_in P (p_fault e) Q" "ends_in P (diag_expected_one_of_token E tgs t) Q"
  by (auto simp: ends_in_def p_err_def p_no_fuel_def p_fault_def diag_expected_one_of_token_def split: option.splits)

lemma ends_weaken: "ends_in P' m Q' \<Longrightarrow> (\<And>s. P s \<Longrightarrow> P' s) \<Longrightarrow> (\<And>x s. Q' x s \<Longrightarrow> Q x s) \<Longrightarrow> ends_in P m Q"
  unfolding ends_in_def by blast

lemma ends_if: "(b \<Longrightarrow> ends_in P m Q) \<Longrightarrow> (\<not> b \<Longrightarrow> ends_in P n Q) \<Longrightarrow> ends_in P (if b then m else n) Q"
  by simp

lemma ends_option:
  "(x = None \<Longrightarrow> ends_in P m Q) \<Longrightarrow> (\<And>y. x = Some y \<Longrightarrow> ends_in P (f y) Q) \<Longrightarrow> ends_in P (case x of None \<Rightarrow> m | Some y \<Rightarrow> f y) Q"
  by (cases x) simp_all

lemma ends_peek: "(\<And>t. ends_in (\<lambda>s. P s \<and> cur s = tok_kind t) (f t) Q) \<Longrightarrow> ends_in P (p_bind p_peek f) Q"
  by (auto simp: ends_in_def p_bind_def p_peek_def cur_def split: if_splits)

lemma ends_prod: "(\<And>a b. ends_in P (f a b) Q) \<Longrightarrow> ends_in P (case x of (a, b) \<Rightarrow> f a b) Q"
  by (cases x) simp

lemma ends_token_kind:
  assumes
    "\<And>x. k = Op1 x \<Longrightarrow> ends_in P (f1 x) Q" "\<And>x. ends_in P (f2 x) Q" "\<And>x. ends_in P (f3 x) Q" "\<And>x. ends_in P (f4 x) Q" "\<And>x y. ends_in P (f5 x y) Q" "\<And>x. ends_in P (f6 x) Q"
    "\<And>x y. ends_in P (f7 x y) Q" "\<And>x. ends_in P (f8 x) Q" "\<And>x. ends_in P (f9 x) Q" "\<And>x. ends_in P (f10 x) Q" "\<And>x. ends_in P (f11 x) Q" "\<And>x. ends_in P (f12 x) Q"
    "ends_in P f13 Q" "ends_in P f14 Q" "ends_in P f15 Q" "\<And>x. ends_in P (f16 x) Q" "\<And>x. ends_in P (f17 x) Q" "\<And>x. ends_in P (f18 x) Q"
    "\<And>x. ends_in P (f19 x) Q" "\<And>x. ends_in P (f20 x) Q" "ends_in P f21 Q" "ends_in P f22 Q"
  shows "ends_in P (case_token_kind f1 f2 f3 f4 f5 f6 f7 f8 f9 f10 f11 f12 f13 f14 f15 f16 f17 f18 f19 f20 f21 f22 k) Q"
  using assms by (cases k) simp_all

lemma ends_op1:
  assumes
    "ends_in P f1 Q" "ends_in P f2 Q" "ends_in P f3 Q" "ends_in P f4 Q" "ends_in P f5 Q" "ends_in P f6 Q"
    "ends_in P f7 Q" "ends_in P f8 Q" "ends_in P f9 Q" "ends_in P f10 Q" "ends_in P f11 Q" "ends_in P f12 Q"
    "ends_in P f13 Q" "ends_in P f14 Q" "ends_in P f15 Q" "ends_in P f16 Q" "ends_in P f17 Q" "ends_in P f18 Q"
    "k = LParen \<Longrightarrow> ends_in P f19 Q" "ends_in P f20 Q" "ends_in P f21 Q" "ends_in P f22 Q" "ends_in P f23 Q" "ends_in P f24 Q"
    "ends_in P f25 Q" "ends_in P f26 Q" "ends_in P f27 Q"
  shows "ends_in P (case_op1 f1 f2 f3 f4 f5 f6 f7 f8 f9 f10 f11 f12 f13 f14 f15 f16 f17 f18 f19 f20 f21 f22 f23 f24 f25 f26 f27 k) Q"
  using assms by (cases k) simp_all

lemma ends_op2:
  assumes
    "ends_in P f1 Q" "ends_in P f2 Q" "ends_in P f3 Q" "ends_in P f4 Q" "ends_in P f5 Q" "ends_in P f6 Q"
    "ends_in P f7 Q" "ends_in P f8 Q" "ends_in P f9 Q" "ends_in P f10 Q" "ends_in P f11 Q" "ends_in P f12 Q"
    "ends_in P f13 Q" "ends_in P f14 Q" "ends_in P f15 Q" "ends_in P f16 Q" "ends_in P f17 Q" "ends_in P f18 Q"
    "ends_in P f19 Q" "ends_in P f20 Q" "ends_in P f21 Q" "ends_in P f22 Q" "ends_in P f23 Q" "ends_in P f24 Q"
    "ends_in P f25 Q"
  shows "ends_in P (case_op2 f1 f2 f3 f4 f5 f6 f7 f8 f9 f10 f11 f12 f13 f14 f15 f16 f17 f18 f19 f20 f21 f22 f23 f24 f25 k) Q"
  using assms by (cases k) simp_all

lemma ends_keyword:
  assumes
    "ends_in P f1 Q" "ends_in P f2 Q" "ends_in P f3 Q" "ends_in P f4 Q" "ends_in P f5 Q" "ends_in P f6 Q"
    "ends_in P f7 Q" "ends_in P f8 Q" "ends_in P f9 Q" "ends_in P f10 Q" "ends_in P f11 Q" "ends_in P f12 Q"
    "ends_in P f13 Q" "ends_in P f14 Q" "ends_in P f15 Q" "ends_in P f16 Q" "ends_in P f17 Q" "ends_in P f18 Q"
    "ends_in P f19 Q" "ends_in P f20 Q" "ends_in P f21 Q" "ends_in P f22 Q" "ends_in P f23 Q" "ends_in P f24 Q"
    "ends_in P f25 Q" "ends_in P f26 Q" "ends_in P f27 Q"
  shows "ends_in P (case_keyword f1 f2 f3 f4 f5 f6 f7 f8 f9 f10 f11 f12 f13 f14 f15 f16 f17 f18 f19 f20 f21 f22 f23 f24 f25 f26 f27 k) Q"
  using assms by (cases k) simp_all

lemma ends_directive:
  assumes
    "ends_in P f1 Q" "ends_in P f2 Q" "ends_in P f3 Q" "ends_in P f4 Q" "ends_in P f5 Q" "ends_in P f6 Q"
    "ends_in P f7 Q"
  shows "ends_in P (case_directive f1 f2 f3 f4 f5 f6 f7 k) Q"
  using assms by (cases k) simp_all

lemma ends_ident_kind:
  assumes
    "ends_in P f1 Q" "ends_in P f2 Q" "ends_in P f3 Q" "ends_in P f4 Q"
  shows "ends_in P (case_ident_kind f1 f2 f3 f4 k) Q"
  using assms by (cases k) simp_all

lemma ends_op3:
  assumes
    "ends_in P f1 Q" "ends_in P f2 Q" "ends_in P f3 Q" "ends_in P f4 Q" "ends_in P f5 Q" "ends_in P f6 Q"
    "ends_in P f7 Q" "ends_in P f8 Q" "ends_in P f9 Q" "ends_in P f10 Q" "ends_in P f11 Q" "ends_in P f12 Q"
    "ends_in P f13 Q"
  shows "ends_in P (case_op3 f1 f2 f3 f4 f5 f6 f7 f8 f9 f10 f11 f12 f13 k) Q"
  using assms by (cases k) simp_all

lemmas ends_cases = ends_op3 ends_if ends_option ends_prod ends_token_kind ends_op1 ends_op2 ends_keyword ends_directive ends_ident_kind

lemmas ends_rules = ends_last ends_seq ends_ret ends_map ends_no_result ends_cases

section \<open>Expressions without a binary operator on top\<close>

definition not_bin :: "expr \<Rightarrow> bool" where
  "not_bin e \<longleftrightarrow> (\<forall>op l r. expr_kind e \<noteq> E_Bin op l r)"

definition no_bin :: "expr option \<Rightarrow> parser \<Rightarrow> bool" where
  "no_bin r s \<longleftrightarrow> (\<forall>e. r = Some e \<longrightarrow> not_bin e)"

definition no_bin_kind :: "expr expr_kind \<Rightarrow> parser \<Rightarrow> bool" where
  "no_bin_kind k s \<longleftrightarrow> (\<forall>op l r. k \<noteq> E_Bin op l r)"

abbreviation ty_calls_plain :: "calls \<Rightarrow> bool" where
  "ty_calls_plain R \<equiv> ends_in anywhere (ty_call R) no_bin"

lemma no_bin_Some: "no_bin (Some e) = (\<lambda>s. not_bin e)"
  by (simp add: no_bin_def fun_eq_iff)

lemma ty_call_plain: "ty_calls_plain R \<Longrightarrow> ends_in P (ty_call R) no_bin"
  by (auto simp: ends_in_def)

lemma ends_make:
  assumes "\<And>s op l r. P s \<Longrightarrow> k \<noteq> E_Bin op l r"
  shows "ends_in P (make_expr start k) (\<lambda>e s. not_bin e)" "ends_in P (close_expr start k) (\<lambda>e s. not_bin e)"
  using assms by (auto simp: ends_in_def make_expr_def close_expr_def p_node_def not_bin_def p_ret_def elim!: bind_OkE)

lemma ends_some: "ends_in P m (\<lambda>e s. not_bin e) \<Longrightarrow> ends_in P (p_map Some m) no_bin"
  by (rule ends_map, erule ends_weaken) (simp_all add: no_bin_def)

lemma expect_ty_plain: "ty_calls_plain R \<Longrightarrow> ends_in P (expect_ty_expr E R) (\<lambda>e s. not_bin e)"
  unfolding expect_ty_expr_def
  by (rule ends_bind [of _ _ no_bin] | erule ends_weaken | rule ends_rules | auto simp: no_bin_def; fail)+

lemma init_plain: "ends_in P (init_kind E R lhs) no_bin_kind"
  unfolding init_kind_def by (rule ends_rules ends_any | simp add: no_bin_kind_def; fail)+

lemma parse_init_plain: "ty_calls_plain R \<Longrightarrow> ends_in P (parse_init_expr E R) no_bin"
  unfolding parse_init_expr_def
  by (rule ends_bind [of _ _ no_bin] ends_bind [OF init_plain] ends_some ends_make ends_peek ends_if ends_option ends_ret | erule ends_weaken
      | auto simp: no_bin_def no_bin_kind_def; fail)+

definition no_bin_part :: "expr expr_kind + expr option \<Rightarrow> parser \<Rightarrow> bool" where
  "no_bin_part r s = (case r of Inl k \<Rightarrow> no_bin_kind k s | Inr e \<Rightarrow> no_bin e s)"

lemma control_flow_plain:
  "ends_in P (parse_if_impl E R c) no_bin_kind"
  "ends_in P (parse_while_impl E R label inl c) no_bin_kind"
  "ends_in P (parse_for_impl E R label inl c) no_bin_kind"
  "ends_in P (parse_loop_impl E R label c) no_bin_kind"
  "ends_in P (parse_switch_impl E R label c) no_bin_kind"
  unfolding parse_if_impl_def parse_while_impl_def parse_for_impl_def parse_loop_impl_def parse_switch_impl_def
  by (rule ends_rules ends_any | simp add: no_bin_kind_def; fail)+

lemma labeled_plain:
  "ends_in P (parse_inline_loop E R label c) no_bin_kind"
  "ends_in P (parse_labeled_control_flow E R label c) no_bin_kind"
  "ends_in P (labeled_control_flow E R c) no_bin_kind"
  unfolding labeled_control_flow_def parse_labeled_control_flow_def parse_inline_loop_def
  by (rule control_flow_plain ends_rules ends_any | simp add: no_bin_kind_def; fail)+

lemma ends_Inl: "ends_in P m no_bin_kind \<Longrightarrow> ends_in P (p_map Inl m) no_bin_part"
  by (rule ends_map, erule ends_weaken) (simp_all add: no_bin_part_def)

lemma ends_Inr: "ends_in P m no_bin \<Longrightarrow> ends_in P (p_map Inr m) no_bin_part"
  by (rule ends_map, erule ends_weaken) (simp_all add: no_bin_part_def)

lemma close_groups_plain: "close_groups E starts e s = Ok e' s' \<Longrightarrow> starts \<noteq> [] \<or> not_bin e \<Longrightarrow> not_bin e'"
proof (induction starts arbitrary: e s)
  case (Cons st starts)
  from Cons.prems(1) obtain x s1 s2 where x: "close_expr st (E_Group e) s1 = Ok x s2" "close_groups E starts x s2 = Ok e' s'"
    by (auto simp: close_groups.simps p_seq_def elim!: bind_OkE)
  have "not_bin x" using ends_inD [OF ends_make(2) _ x(1), of anywhere] by simp
  then show ?case using Cons.IH [OF x(2)] by simp
qed (simp add: close_groups.simps p_ret_def)

lemma parse_group_ty_plain: "ty_calls_plain R \<Longrightarrow> ends_in P (parse_group_ty_expr E R) no_bin"
  unfolding parse_group_ty_expr_def
  by (rule ends_last, rule ends_bind, erule expect_ty_plain, rule ends_some) (auto simp: ends_in_def dest: close_groups_plain)

lemma struct_types_plain:
  "ends_in P (struct_type E R packed linear start) no_bin_kind"
  "ends_in P (enum_type E R linear start) no_bin_kind"
  "ends_in P (union_type E R linear start) no_bin_kind"
  "ends_in P (linear_type E R start) no_bin_kind"
  unfolding linear_type_def struct_type_def enum_type_def union_type_def
  by (rule ends_rules ends_any | simp add: no_bin_kind_def; fail)+

lemma dot_literal_plain: "ty_calls_plain R \<Longrightarrow> ends_in P (dot_literal E R) no_bin_part"
  unfolding dot_literal_def
  by (rule ends_Inl ends_Inr init_plain parse_init_plain ends_rules | assumption | simp add: no_bin_part_def no_bin_kind_def; fail)+

lemma primary_ty_kind_plain: "ty_calls_plain R \<Longrightarrow> ends_in P (primary_ty_kind E R t) no_bin_part"
  unfolding primary_ty_kind_def Let_def
  by (assumption | rule ends_Inl ends_Inr dot_literal_plain parse_group_ty_plain control_flow_plain labeled_plain struct_types_plain ends_rules ends_any
      | simp add: no_bin_part_def no_bin_kind_def no_bin_def; fail)+

lemma finish_primary_plain: "ends_in (no_bin_part r) (finish_primary start r) no_bin"
  unfolding finish_primary_def
  by (cases r) (auto intro!: ends_some ends_make ends_ret simp: no_bin_part_def no_bin_kind_def)

lemma parse_primary_ty_plain: "ty_calls_plain R \<Longrightarrow> ends_in P (parse_primary_ty_expr E R) no_bin"
  unfolding parse_primary_ty_expr_def by (rule ends_last, rule ends_bind, erule primary_ty_kind_plain, rule finish_primary_plain)

lemma suffix_op_plain: "ends_in P (parse_suffix_ty_op E R lhs) no_bin"
  unfolding parse_suffix_ty_op_def suffix_index_def range_end_def range_inclusive_end_def index_expr_def suffix_dot_def misplaced_def
  by (rule ends_some ends_make ends_rules | simp add: no_bin_def; fail)+

lemma suffix_loop_plain: "not_bin e \<Longrightarrow> ends_in P (suffix_loop n E R start e just_called) no_bin"
proof (induction n arbitrary: e just_called P)
  case (Suc n)
  have nxt: "ends_in (\<lambda>s. not_bin e') (suffix_loop n E R start e' b) no_bin" for e' b
    using Suc.IH [of e' anywhere b] by (auto simp: ends_in_def)
  show ?case unfolding suffix_loop.simps
  proof (rule ends_bind [OF suffix_op_plain], rule ends_option)
    fix r and e' :: expr
    assume "r = Some e'"
    then show "ends_in (no_bin r) (suffix_loop n E R start e' False) no_bin" using nxt [of e' False] by (simp add: no_bin_Some)
  next
    show "ends_in (no_bin r) (p_bind p_peek (\<lambda>t. if just_called \<or> tok_kind t \<noteq> Op1 LParen then p_ret (Some e)
       else p_bind (parse_fn_call E R e) (\<lambda>call. p_bind (close_expr start (E_FnCall call)) (\<lambda>e'. suffix_loop n E R start e' True)))) no_bin" for r
      by (rule ends_bind [OF ends_make(2) nxt] ends_last ends_if ends_ret | simp add: no_bin_def Suc.prems; fail)+
  qed
qed (simp add: suffix_loop.simps ends_no_result)

lemma wrap_layers_plain: "not_bin e \<Longrightarrow> ends_in P (wrap_layers layers e) (\<lambda>e s. not_bin e)"
proof (induction layers arbitrary: e P)
  case (Cons l layers)
  show ?case unfolding wrap_layers.simps by (rule ends_last, rule Cons.IH) (simp add: not_bin_def)
qed (simp add: wrap_layers.simps ends_ret)

lemma parse_ty_expr_plain:
  assumes "ty_calls_plain R"
  shows "ends_in P (parse_ty_expr E R) no_bin"
proof -
  have "ends_in (\<lambda>s. not_bin e) (p_map Some (wrap_layers layers e)) no_bin" for layers e
    using wrap_layers_plain [of e anywhere layers] by (intro ends_some) (auto simp: ends_in_def)
  then have "ends_in P (parse_prefixed_ty_expr E R) no_bin" for P unfolding parse_prefixed_ty_expr_def
    by (intro ends_last ends_bind [OF expect_ty_plain [OF assms]])
  moreover have "ends_in (no_bin r) (case r of None \<Rightarrow> p_ret None | Some e \<Rightarrow> suffix_loop (fuel R) E R sp e False) no_bin" for r sp
    using suffix_loop_plain by (fastforce simp: ends_in_def no_bin_def p_ret_def split: option.splits)
  then have "ends_in P (parse_suffix_ty_expr E R) no_bin" for P unfolding parse_suffix_ty_expr_def
    by (intro ends_last ends_bind [OF parse_primary_ty_plain [OF assms]])
  ultimately show ?thesis unfolding parse_ty_expr_def by (intro ends_last ends_if)
qed

section \<open>Value expressions\<close>

lemma group_starts_nonempty: "group_starts n starts s = Ok x s' \<Longrightarrow> starts \<noteq> [] \<Longrightarrow> x \<noteq> []"
proof (induction n arbitrary: starts s)
  case (Suc n)
  from Suc.prems show ?case
    using Suc.IH by (fastforce simp: group_starts.simps p_seq_def p_ret_def elim!: bind_OkE split: if_splits)
qed (simp add: group_starts.simps p_no_fuel_def)

lemma group_starts_first: "ends_in (\<lambda>s. cur s = Op1 LParen) (group_starts n []) (\<lambda>starts s. starts \<noteq> [])"
  by (cases n) (auto simp: ends_in_def group_starts.simps p_no_fuel_def p_seq_def p_peek_def cur_def elim!: bind_OkE dest: group_starts_nonempty split: if_splits)

lemma parse_group_plain: "ends_in (\<lambda>s. cur s = Op1 LParen) (parse_group_expr E R allow_init) no_bin"
proof -
  have "ends_in (\<lambda>s. starts \<noteq> []) (p_bind m (\<lambda>e. p_map Some (close_groups E (rev starts) e))) no_bin" for starts and m :: "expr parse"
    by (auto simp: ends_in_def p_map_def no_bin_def p_ret_def elim!: bind_OkE dest: close_groups_plain)
  then show ?thesis unfolding parse_group_expr_def by (intro ends_bind [OF group_starts_first])
qed

lemma primary_kind_plain: "ty_calls_plain R \<Longrightarrow> ends_in (\<lambda>s. cur s = tok_kind t) (primary_kind E R allow_init t) no_bin_part"
  unfolding primary_kind_def Let_def
  by (assumption | rule ends_Inl ends_Inr ends_weaken [OF parse_group_plain] parse_init_plain ty_call_plain control_flow_plain labeled_plain
      ends_rules ends_any | simp add: no_bin_part_def no_bin_kind_def no_bin_def; fail)+

lemma parse_primary_plain: "ty_calls_plain R \<Longrightarrow> ends_in P (parse_primary_expr E R allow_init) no_bin"
  unfolding parse_primary_expr_def
  by (rule ends_peek, rule ends_bind [OF _ finish_primary_plain], rule ends_weaken [OF primary_kind_plain]) auto

lemma wrap_prefix_plain: "not_bin e \<Longrightarrow> ends_in P (wrap_prefix layers e) (\<lambda>e s. not_bin e)"
proof (induction layers arbitrary: e P)
  case (Cons l layers)
  show ?case unfolding wrap_prefix.simps
    by (simp add: split_beta Let_def, rule ends_last, rule Cons.IH) (auto simp: not_bin_def split: prefix_expr_layer.splits)
qed (simp add: wrap_prefix.simps ends_ret)

lemma parse_prefix_plain:
  assumes "ty_calls_plain R"
  shows "ends_in P (parse_prefix_expr E R allow_init) no_bin"
proof -
  have "ends_in (no_bin r) (case r of None \<Rightarrow> p_bind p_peek (\<lambda>t. p_err (diag_expected_expression E t))
      | Some e \<Rightarrow> p_map Some (wrap_prefix layers e)) no_bin" for r layers
  proof (cases r)
    case (Some e)
    have "ends_in (\<lambda>s. not_bin e) (wrap_prefix layers e) (\<lambda>e s. not_bin e)"
      using wrap_prefix_plain [of e anywhere layers] by (auto simp: ends_in_def)
    then show ?thesis using Some by (auto simp: no_bin_Some intro: ends_some)
  qed (auto intro: ends_last ends_no_result)
  then show ?thesis unfolding parse_prefix_expr_def
    by (intro ends_last ends_if ends_bind [OF parse_primary_plain [OF assms]] parse_primary_plain [OF assms])
qed

section \<open>Precedence\<close>

text \<open>How tightly an operator binds; all operators associate to the left.\<close>

fun bp :: "infix_op_kind \<Rightarrow> nat" where
  "bp O_BoolOr = 10"
| "bp O_BoolAnd = 15"
| "bp O_BitOr = 20"
| "bp O_BitXor = 25"
| "bp O_BitAnd = 30" | "bp O_Eq = 30" | "bp O_Neq = 30"
| "bp O_Lt = 35" | "bp O_Lte = 35" | "bp O_Gt = 35" | "bp O_Gte = 35"
| "bp O_Shl = 40" | "bp O_ShlSat = 40" | "bp O_ShlWrap = 40" | "bp O_Shr = 40" | "bp O_ShrSat = 40" | "bp O_ShrWrap = 40"
| "bp O_Add = 50" | "bp O_AddSat = 50" | "bp O_Sub = 50" | "bp O_SubSat = 50"
| "bp O_Mul = 60" | "bp O_MulSat = 60" | "bp O_Div = 60" | "bp O_Rem = 60"

inductive prec_ok :: "nat \<Rightarrow> expr \<Rightarrow> bool" where
  prec_atom: "not_bin e \<Longrightarrow> prec_ok m e"
| prec_bin: "m \<le> bp op \<Longrightarrow> prec_ok (bp op) l \<Longrightarrow> prec_ok (bp op + 1) r \<Longrightarrow> prec_ok m (Expr i (E_Bin op l r) sp)"

inductive_cases prec_binE: "prec_ok m (Expr i (E_Bin op l r) sp)"

lemma infix_entry_bp: "infix_entry k = Some (l, op) \<Longrightarrow> l = bp op"
  by (auto simp: infix_entry_def split: token_kind.splits op1.splits op2.splits op3.splits keyword.splits)

text \<open>No operator that binds at least as tightly as \<open>m\<close> follows, except one written directly before an equals sign.\<close>

definition stopped :: "nat \<Rightarrow> parser \<Rightarrow> bool" where
  "stopped m s \<longleftrightarrow>
     (case infix_entry (cur s) of
        None \<Rightarrow> True
      | Some (l, op) \<Rightarrow> l < m \<or> tok_kind (p_tokens s ! (p_offset s + 1)) = Op1 Eq)"

lemma stopped_cong: "p_tokens s' = p_tokens s \<Longrightarrow> p_offset s' = p_offset s \<Longrightarrow> stopped m s \<Longrightarrow> stopped m s'"
  by (auto simp: stopped_def cur_def split: option.splits)

lemma infix_op_of_apply:
  "infix_op_of k s =
     (case infix_entry k of None \<Rightarrow> Ok None s | Some (l, op) \<Rightarrow> Ok (Some (infix_left l op)) (s\<lparr>p_offset := p_offset s + 1\<rparr>))"
  by (simp add: infix_op_of_def p_ret_def p_seq_def p_bind_def p_advance_def split: option.split)

text \<open>What holds of the left operand while the loop runs.\<close>

definition tight :: "nat \<Rightarrow> expr \<Rightarrow> parser \<Rightarrow> bool" where
  "tight m lhs s \<longleftrightarrow> prec_ok m lhs \<and> (\<forall>op l r. expr_kind lhs = E_Bin op l r \<longrightarrow> stopped (bp op + 1) s)"

definition prec_result :: "nat \<Rightarrow> expr option \<Rightarrow> parser \<Rightarrow> bool" where
  "prec_result m r s \<longleftrightarrow> (\<forall>e. r = Some e \<longrightarrow> prec_ok m e \<and> stopped m s)"

definition calls_prec :: "calls \<Rightarrow> bool" where
  "calls_prec R \<longleftrightarrow> ty_calls_plain R \<and> (\<forall>m init. ends_in anywhere (expr_call R m init) (prec_result m))"

lemma tight_operand:
  assumes "tight m lhs s" and "infix_entry (cur s) = Some (l, op)" and "tok_kind (p_tokens s ! (p_offset s + 1)) \<noteq> Op1 Eq"
  shows "prec_ok (bp op) lhs"
proof (cases "not_bin lhs")
  case True
  then show ?thesis by (rule prec_atom)
next
  case False
  then obtain op' x y where k: "expr_kind lhs = E_Bin op' x y" by (auto simp: not_bin_def)
  then have "stopped (bp op' + 1) s" "prec_ok m lhs" using assms(1) by (auto simp: tight_def)
  moreover have "l = bp op" using infix_entry_bp [OF assms(2)] .
  ultimately show ?thesis using assms(2,3) k
    by (cases lhs) (auto simp: stopped_def elim!: prec_binE intro: prec_bin simp: not_bin_def elim: prec_ok.cases)
qed

text \<open>One round of the loop: it stops, or it takes an operator and its right operand.\<close>

definition take_operand :: "nat \<Rightarrow> parser_env \<Rightarrow> calls \<Rightarrow> nat \<Rightarrow> bool \<Rightarrow> expr \<Rightarrow> infix_op_kind \<Rightarrow> expr option \<Rightarrow> expr option parse" where
  "take_operand n E R m init lhs op r =
     (case r of
        None \<Rightarrow> p_bind p_peek (\<lambda>t. p_err (diag_expected_expression E t))
      | Some rhs \<Rightarrow> p_bind next_id (\<lambda>i. expr_loop n E R m init (Expr i (E_Bin op lhs rhs) (span_join (expr_span lhs) (expr_span rhs)))))"

definition readable :: "parser \<Rightarrow> bool" where
  "readable s \<longleftrightarrow> p_offset s < length (p_tokens s) \<and> (infix_entry (cur s) \<noteq> None \<longrightarrow> p_offset s + 1 < length (p_tokens s))"

lemma expr_loop_stop: "readable s \<Longrightarrow> stopped m s \<Longrightarrow> expr_loop (Suc n) E R m init lhs s = Ok (Some lhs) s"
  by (auto simp: expr_loop.simps readable_def stopped_def cur_def p_bind_def p_get_offset_def p_peek_def infix_op_of_apply p_ret_def p_seq_def
      p_set_offset_def infix_left_def split: option.splits)

lemma expr_loop_take:
  assumes "readable s" and "\<not> stopped m s"
  obtains op where "infix_entry (cur s) = Some (bp op, op)" and "m \<le> bp op" and "tok_kind (p_tokens s ! (p_offset s + 1)) \<noteq> Op1 Eq"
    and "expr_loop (Suc n) E R m init lhs s =
      p_bind (expr_call R (bp op + 1) init) (take_operand n E R m init lhs op) (s\<lparr>p_offset := p_offset s + 1\<rparr>)"
proof -
  obtain op where e: "infix_entry (cur s) = Some (bp op, op)"
    using assms(2) infix_entry_bp by (fastforce simp: stopped_def split: option.splits)
  show thesis
  proof (rule that [OF e])
    show m: "m \<le> bp op" "tok_kind (p_tokens s ! (p_offset s + 1)) \<noteq> Op1 Eq" using assms(2) e by (auto simp: stopped_def)
    then show "expr_loop (Suc n) E R m init lhs s =
      p_bind (expr_call R (bp op + 1) init) (take_operand n E R m init lhs op) (s\<lparr>p_offset := p_offset s + 1\<rparr>)"
      using assms(1) e
      by (simp add: expr_loop.simps readable_def cur_def p_bind_def [of p_get_offset] p_bind_def [of p_peek] p_bind_def [of "infix_op_of _"]
          p_get_offset_def p_peek_def infix_op_of_apply infix_left_def take_operand_def [abs_def])
  qed
qed

lemma expr_loop_readable: "expr_loop n E R m init lhs s = Ok r s' \<Longrightarrow> readable s"
  by (cases n) (auto simp: expr_loop.simps readable_def cur_def p_no_fuel_def p_bind_def p_get_offset_def p_peek_def infix_op_of_apply split: if_splits)

lemma expr_loop_prec:
  assumes "calls_prec R"
  shows "expr_loop n E R m init lhs s = Ok r s' \<Longrightarrow> tight m lhs s \<Longrightarrow> prec_result m r s'"
proof (induction n arbitrary: lhs s)
  case (Suc n)
  have rd: "readable s" by (rule expr_loop_readable [OF Suc.prems(1)])
  show ?case
  proof (cases "stopped m s")
    case True
    then show ?thesis using Suc.prems expr_loop_stop [OF rd True] by (auto simp: prec_result_def tight_def)
  next
    case False
    then obtain op where op: "infix_entry (cur s) = Some (bp op, op)" "m \<le> bp op" "tok_kind (p_tokens s ! (p_offset s + 1)) \<noteq> Op1 Eq"
      and "p_bind (expr_call R (bp op + 1) init) (take_operand n E R m init lhs op) (s\<lparr>p_offset := p_offset s + 1\<rparr>) = Ok r s'"
      using expr_loop_take [OF rd False, of n E R init lhs] Suc.prems(1) by metis
    from this(4) obtain r1 s1 where r1: "expr_call R (bp op + 1) init (s\<lparr>p_offset := p_offset s + 1\<rparr>) = Ok r1 s1"
      and k: "take_operand n E R m init lhs op r1 s1 = Ok r s'" by (rule bind_OkE)
    from k obtain rhs i s2 where rhs: "r1 = Some rhs" and i: "next_id s1 = Ok i s2"
      and nxt: "expr_loop n E R m init (Expr i (E_Bin op lhs rhs) (span_join (expr_span lhs) (expr_span rhs))) s2 = Ok r s'"
      by (cases r1) (auto simp: take_operand_def p_err_def elim!: bind_OkE)
    have s2: "p_tokens s2 = p_tokens s1" "p_offset s2 = p_offset s1" using i by (auto simp: next_id_def split: if_splits)
    have "prec_result (bp op + 1) r1 s1" using assms r1 by (auto simp: calls_prec_def ends_in_def)
    moreover have "prec_ok (bp op) lhs" using tight_operand [OF Suc.prems(2) op(1,3)] .
    ultimately have "tight m (Expr i (E_Bin op lhs rhs) (span_join (expr_span lhs) (expr_span rhs))) s2"
      using op(2) rhs stopped_cong [OF s2] by (auto simp: tight_def prec_result_def intro: prec_bin)
    then show ?thesis by (rule Suc.IH [OF nxt])
  qed
qed (simp add: expr_loop.simps p_no_fuel_def)

lemma parse_expr_precedence_prec:
  assumes "calls_prec R"
  shows "ends_in anywhere (parse_expr_precedence E R m init) (prec_result m)"
proof -
  have tight: "tight m lhs s" if "not_bin lhs" for lhs s using that by (auto simp: tight_def not_bin_def intro: prec_atom)
  have "ends_in (no_bin r) (case r of None \<Rightarrow> p_ret None | Some lhs \<Rightarrow> expr_loop (fuel R) E R m init lhs) (prec_result m)" for r
    using expr_loop_prec [OF assms _ tight] by (cases r) (auto simp: ends_in_def p_ret_def no_bin_Some prec_result_def [of _ None])
  then show ?thesis using assms unfolding parse_expr_precedence_def
    by (intro ends_bind [OF parse_prefix_plain]) (auto simp: calls_prec_def)
qed

lemma calls_at_prec: "calls_prec (calls_at E n)"
proof (induction n)
  case (Suc n)
  then show ?case using parse_ty_expr_plain parse_expr_precedence_prec by (auto simp: calls_prec_def)
qed (auto simp: calls_prec_def intro: ends_no_result)

text \<open>
  C3: Precedence and associativity. In the expression the parser returns for a minimum binding power, every binary
  operator binds at least that tightly, its left operand is no looser than the operator and its right operand is
  tighter; and the parser stopped because no further operator of that strength follows.
\<close>

theorem parse_expr_respects_precedence:
  assumes "expr_call (calls_at E n) m init s = Ok (Some e) s'"
  shows "prec_ok m e \<and> stopped m s'"
  using calls_at_prec [of E n] assms by (auto simp: calls_prec_def ends_in_def prec_result_def)

theorem parse_expr_respects_precedence_witness:
  "\<exists>e s'. expr_call (calls_at sample_env 6) 0 True
      (parser_new (tokens_of [Op1 LParen, Ident ''a'' User, Op1 Plus, Ident ''b'' User, Op1 Star, Ident ''c'' User, Op1 RParen, Eof]) [] 0\<lparr>p_offset := 1\<rparr>)
       = Ok (Some e) s' \<and> prec_ok 0 e \<and> stopped 0 s'"
proof -
  have six: "(6::nat) = Suc (Suc (Suc (Suc (Suc (Suc 0)))))" by simp
  have "\<exists>e s'. expr_call (calls_at sample_env 6) 0 True
      (parser_new (tokens_of [Op1 LParen, Ident ''a'' User, Op1 Plus, Ident ''b'' User, Op1 Star, Ident ''c'' User, Op1 RParen, Eof]) [] 0\<lparr>p_offset := 1\<rparr>)
       = Ok (Some e) s'" unfolding six by (simp add: run_sample)
  then show ?thesis using parse_expr_respects_precedence by blast
qed

end
