(* ===== verification/Vif_Parser_Roundtrip.thy ===== *)
theory Vif_Parser_Roundtrip
  imports Vif_Parser_Prec
begin

text \<open>
  Completeness of the operator parser: the tokens of every expression over names and binary operators, written
  without parentheses in the order of the grammar, are parsed back to that expression, and the depth the parser
  needs is bounded by the size of the expression.
\<close>

datatype opx = Name string | BinOp infix_op_kind opx opx

fun op_token :: "infix_op_kind \<Rightarrow> token_kind" where
  "op_token O_Add = Op1 Plus" | "op_token O_AddSat = Op2 PlusPipe" | "op_token O_Sub = Op1 Minus" | "op_token O_SubSat = Op2 MinusPipe"
| "op_token O_Mul = Op1 Star" | "op_token O_MulSat = Op2 StarPipe" | "op_token O_Div = Op1 Slash" | "op_token O_Rem = Op1 Percent"
| "op_token O_Shl = Op2 LtLt" | "op_token O_ShlSat = Op3 LtLtPipe" | "op_token O_ShlWrap = Op3 LtLtPercent"
| "op_token O_Shr = Op2 GtGt" | "op_token O_ShrSat = Op3 GtGtPipe" | "op_token O_ShrWrap = Op3 GtGtPercent"
| "op_token O_BitAnd = Op1 Amp" | "op_token O_BitOr = Op1 Pipe" | "op_token O_BitXor = Op1 Caret"
| "op_token O_Lt = Op1 Lt" | "op_token O_Lte = Op2 LtEq" | "op_token O_Gt = Op1 Gt" | "op_token O_Gte = Op2 GtEq"
| "op_token O_BoolAnd = Kw KwAnd" | "op_token O_BoolOr = Kw KwOr" | "op_token O_Eq = Op2 EqEq" | "op_token O_Neq = Op2 BangEq"

fun print :: "opx \<Rightarrow> token_kind list" where
  "print (Name x) = [Ident x User]"
| "print (BinOp op l r) = print l @ op_token op # print r"

fun shape :: "opx \<Rightarrow> expr \<Rightarrow> bool" where
  "shape (Name x) e \<longleftrightarrow> (\<exists>i sp sp'. e = Expr i (E_Ident \<lparr>id_symbol = x, id_kind = User, id_span = sp'\<rparr>) sp)"
| "shape (BinOp op l r) e \<longleftrightarrow> (\<exists>i a b sp. e = Expr i (E_Bin op a b) sp \<and> shape l a \<and> shape r b)"

fun opx_ok :: "nat \<Rightarrow> opx \<Rightarrow> bool" where
  "opx_ok m (Name x) \<longleftrightarrow> True"
| "opx_ok m (BinOp op l r) \<longleftrightarrow> m \<le> bp op \<and> opx_ok (bp op) l \<and> opx_ok (bp op + 1) r"

fun nodes :: "opx \<Rightarrow> nat" where
  "nodes (Name x) = 1"
| "nodes (BinOp op l r) = nodes l + nodes r + 1"

lemma nodes_pos: "0 < nodes t"
  by (cases t) simp_all

lemma opx_ok_mono: "opx_ok m t \<Longrightarrow> m' \<le> m \<Longrightarrow> opx_ok m' t"
  by (cases t) auto

lemma op_token_entry: "infix_entry (op_token op) = Some (bp op, op)"
  by (cases op) (simp_all add: infix_entry_def)

text \<open>The tokens that do not continue a name: no label, initialiser, call, index or member access.\<close>

definition follows :: "token_kind \<Rightarrow> bool" where
  "follows k \<longleftrightarrow> k \<notin> {Op1 Colon, Op1 LBrace, Op1 LParen, Op1 LBracket, Op1 Dot, Op2 DotStar, Op2 DotQuestionMark}"

lemma op_token_follows: "follows (op_token op)"
  by (cases op) (simp_all add: follows_def)

definition kinds :: "parser \<Rightarrow> token_kind list" where
  "kinds s = map tok_kind (drop (p_offset s) (p_tokens s))"

abbreviation moved :: "parser \<Rightarrow> nat \<Rightarrow> nat \<Rightarrow> parser" where
  "moved s k i \<equiv> s\<lparr>p_offset := p_offset s + k, p_next_id := p_next_id s + i\<rparr>"

lemma kinds_Cons:
  assumes "kinds s = k # ks"
  shows "p_offset s < length (p_tokens s)" and "cur s = k" and "tok_kind (p_tokens s ! p_offset s) = k"
proof -
  show l: "p_offset s < length (p_tokens s)" using assms by (cases "p_offset s < length (p_tokens s)") (simp_all add: kinds_def)
  show "tok_kind (p_tokens s ! p_offset s) = k" using assms by (simp add: kinds_def flip: Cons_nth_drop_Suc [OF l])
  then show "cur s = k" by (simp add: cur_def)
qed

lemma kinds_moved: "kinds s = ks @ ks' \<Longrightarrow> kinds (moved s (length ks) i) = ks'"
  by (auto simp: kinds_def map_eq_append_conv add.commute simp flip: drop_drop drop_map)

section \<open>Names\<close>

lemma no_suffix:
  assumes "follows k"
  shows "(case k of Op1 LBracket \<Rightarrow> a | Op2 DotStar \<Rightarrow> b | Op2 DotQuestionMark \<Rightarrow> c | Op1 Dot \<Rightarrow> d | _ \<Rightarrow> e) = e"
  using assms by (auto simp: follows_def split: token_kind.split op1.split op2.split)

lemma parse_name:
  assumes "kinds s = Ident x User # k # ks" and "follows k" and "p_next_id s < 2 ^ 32 - 1"
  shows "\<exists>e. parse_prefix_expr E (calls_at E (Suc (Suc n))) init s = Ok (Some e) (moved s 1 1) \<and> shape (Name x) e"
proof -
  have "kinds (moved s 1 0) = k # ks" using kinds_moved [of s "[Ident x User]" "k # ks" 0] assms(1) by simp
  note cur = kinds_Cons [OF assms(1)] kinds_Cons [OF this, simplified]
  have "k \<noteq> Op1 Colon" "k \<noteq> Op1 LBrace" "k \<noteq> Op1 LParen" using assms(2) by (auto simp: follows_def)
  then show ?thesis using cur assms(2,3) by (simp add: run_simps next_id_def no_suffix)
qed

section \<open>Operators\<close>

text \<open>What must follow a printed expression: nothing that binds more tightly than its top operator.\<close>

definition loose :: "token_kind \<Rightarrow> nat \<Rightarrow> bool" where
  "loose k b \<longleftrightarrow> (\<forall>l op. infix_entry k = Some (l, op) \<longrightarrow> l < b)"

definition bounded_by :: "opx \<Rightarrow> token_kind \<Rightarrow> bool" where
  "bounded_by t k \<longleftrightarrow> (\<forall>op l r. t = BinOp op l r \<longrightarrow> loose k (bp op + 1))"

lemma loose_stops:
  assumes "kinds s = k # k' # ks" and "loose k b"
  shows "readable s \<and> stopped b s"
proof -
  have "length (kinds s) = length ks + 2" using assms(1) by simp
  then have "p_offset s + 1 < length (p_tokens s)" by (simp add: kinds_def)
  then show ?thesis using kinds_Cons(2) [OF assms(1)] assms(2) by (auto simp: readable_def stopped_def loose_def split: option.splits)
qed

lemma print_first: "\<exists>x ks. print t = Ident x User # ks"
  by (induction t) auto

text \<open>The parser runs over a printed expression and goes on with it as the left operand.\<close>

lemma parse_print:
  assumes "opx_ok m t" and "kinds s = print t @ k # k' # rest" and "follows k" and "bounded_by t k"
    and "p_next_id s + nodes t \<le> 2 ^ 32 - 1" and "nodes t < n"
  shows "\<exists>e j. parse_expr_precedence E (calls_at E n) m init s = expr_loop j E (calls_at E n) m init e (moved s (length (print t)) (nodes t))
     \<and> shape t e \<and> n < j + nodes t"
  using assms
proof (induction t arbitrary: m s k k' rest n)
  case (Name x)
  obtain n' where n: "n = Suc (Suc n')" using Name.prems(6) by (cases n; cases "n - 1") auto
  obtain e where e: "parse_prefix_expr E (calls_at E n) init s = Ok (Some e) (moved s 1 1)" "shape (Name x) e"
    using parse_name [of s x k "k' # rest" E n' init] Name.prems n by auto
  then show ?case by (intro exI [of _ e] exI [of _ n]) (simp add: parse_expr_precedence_def p_bind_def)
next
  case (BinOp op l r)
  let ?sl = "moved s (length (print l)) (nodes l)"
  let ?s1 = "?sl\<lparr>p_offset := p_offset ?sl + 1\<rparr>"
  let ?sr = "moved ?s1 (length (print r)) (nodes r)"
  obtain y ys where y: "print r = Ident y User # ys" using print_first by blast
  have l_kinds: "kinds s = print l @ op_token op # Ident y User # (ys @ k # k' # rest)" using BinOp.prems(2) y by simp
  have "bounded_by l (op_token op)" using BinOp.prems(1) by (auto simp: bounded_by_def loose_def op_token_entry)
  then obtain el jl where l: "parse_expr_precedence E (calls_at E n) m init s = expr_loop jl E (calls_at E n) m init el ?sl"
      "shape l el" "n < jl + nodes l"
    using BinOp.IH(1) [OF _ l_kinds op_token_follows, of m n] BinOp.prems opx_ok_mono [of "bp op" l m] by auto
  have sl: "kinds ?sl = op_token op # Ident y User # (ys @ k # k' # rest)" by (rule kinds_moved [OF l_kinds])
  have r_kinds: "kinds ?s1 = print r @ k # k' # rest"
    using kinds_moved [of s "print l @ [op_token op]" "print r @ k # k' # rest" 0] BinOp.prems(2) by (simp add: kinds_def)
  obtain n' jl' where n: "n = Suc n'" "jl = Suc jl'" using BinOp.prems(6) l(3) by (cases n; cases jl) auto
  have "bounded_by r k" using BinOp.prems(1,4) by (auto simp: bounded_by_def loose_def)
  then obtain er jr where r: "parse_expr_precedence E (calls_at E n') (bp op + 1) init ?s1 = expr_loop jr E (calls_at E n') (bp op + 1) init er ?sr"
      "shape r er" "n' < jr + nodes r"
    using BinOp.IH(2) [OF _ r_kinds BinOp.prems(3), of "bp op + 1" n'] BinOp.prems n nodes_pos [of l] by auto
  have "kinds ?sr = k # k' # rest" by (rule kinds_moved [OF r_kinds])
  then have "readable ?sr \<and> stopped (bp op + 1) ?sr" using BinOp.prems(4) by (intro loose_stops) (auto simp: bounded_by_def)
  then have rhs: "expr_call (calls_at E n) (bp op + 1) init ?s1 = Ok (Some er) ?sr"
    using r n BinOp.prems(6) by (cases jr) (simp_all add: expr_loop_stop)
  have "\<not> stopped m ?sl" using kinds_Cons [OF sl] BinOp.prems(1) kinds_Cons(3) [OF r_kinds [unfolded y append_Cons]]
    by (simp add: stopped_def op_token_entry)
  moreover have "readable ?sl" using loose_stops [OF sl, of "bp op + 1"] by (simp add: loose_def op_token_entry)
  ultimately have "expr_loop jl E (calls_at E n) m init el ?sl =
      p_bind (expr_call (calls_at E n) (bp op + 1) init) (take_operand jl' E (calls_at E n) m init el op) ?s1"
    using kinds_Cons(2) [OF sl] unfolding n(2) by (auto elim!: expr_loop_take simp: op_token_entry)
  also have "\<dots> = expr_loop jl' E (calls_at E n) m init (Expr (p_next_id ?sr) (E_Bin op el er) (span_join (expr_span el) (expr_span er)))
      (moved s (length (print (BinOp op l r))) (nodes (BinOp op l r)))"
    using BinOp.prems(5) rhs by (simp add: p_bind_def take_operand_def next_id_def add.assoc)
  finally show ?case using l r(2) n nodes_pos [of r] by (intro exI) (auto simp del: length_append)
qed

text \<open>
  C2: Round trip. The tokens of an expression over names and binary operators that is written without parentheses in
  the order of the grammar are parsed back to an expression of the same shape, up to the token behind it, without
  an error, taking one id per node, at every depth greater than the number of nodes.
\<close>

theorem print_parse_roundtrip:
  assumes "opx_ok 0 t" and "kinds s = print t @ k # k' # rest" and "follows k" and "infix_entry k = None"
    and "p_next_id s + nodes t \<le> 2 ^ 32 - 1" and "nodes t < n"
  shows "\<exists>e. parse_expr (calls_at E (Suc n)) s =
      Ok (Some e) (s\<lparr>p_offset := p_offset s + length (print t), p_next_id := p_next_id s + nodes t\<rparr>) \<and> shape t e"
proof -
  have k: "bounded_by t k" "loose k 0" using assms(4) by (simp_all add: bounded_by_def loose_def)
  obtain e j where e: "parse_expr_precedence E (calls_at E n) 0 True s = expr_loop j E (calls_at E n) 0 True e (moved s (length (print t)) (nodes t))"
      "shape t e" "n < j + nodes t"
    using parse_print [OF assms(1-3) k(1) assms(5,6)] by blast
  have "readable (moved s (length (print t)) (nodes t)) \<and> stopped 0 (moved s (length (print t)) (nodes t))"
    using loose_stops [OF kinds_moved [OF assms(2)] k(2)] .
  then show ?thesis using e assms(6) by (cases j) (simp_all add: parse_expr_def expr_loop_stop)
qed

theorem print_parse_roundtrip_witness:
  "let t = BinOp O_Sub (BinOp O_Add (Name ''a'') (BinOp O_Mul (Name ''b'') (Name ''c''))) (Name ''d'');
       s = parser_new (tokens_of (print t @ [Op1 Comma, Eof])) [] 0 in
   \<exists>e. parse_expr (calls_at sample_env 10) s = Ok (Some e) (s\<lparr>p_offset := length (print t), p_next_id := nodes t\<rparr>) \<and> shape t e"
proof -
  let ?t = "BinOp O_Sub (BinOp O_Add (Name ''a'') (BinOp O_Mul (Name ''b'') (Name ''c''))) (Name ''d'')"
  let ?s = "parser_new (tokens_of (print ?t @ [Op1 Comma, Eof])) [] 0"
  have "opx_ok 0 ?t" "kinds ?s = print ?t @ Op1 Comma # Eof # []" "follows (Op1 Comma)" "infix_entry (Op1 Comma) = None"
    "p_next_id ?s + nodes ?t \<le> 2 ^ 32 - 1" "nodes ?t < 9"
    by (simp_all add: kinds_def parser_new_def tokens_of_def follows_def infix_entry_def)
  from print_parse_roundtrip [OF this, of sample_env] show ?thesis by (simp add: parser_new_def)
qed

end
