(* ===== verification/Vif_Ast_Methods.thy ===== *)
theory Vif_Ast_Methods
  imports Vif_Parser_Eval
begin

text \<open>
  The methods of the nodes of \<^verbatim>\<open>src/frontend/ast.rs\<close>: classification, equality (by node id or by variant) and
  printing.
\<close>

section \<open>Classification\<close>

definition ident_eq :: "ident \<Rightarrow> ident \<Rightarrow> bool" where
  "ident_eq a b \<longleftrightarrow> id_symbol a = id_symbol b"

definition is_control_flow :: "expr \<Rightarrow> bool" where
  "is_control_flow e =
     (case expr_kind e of E_If _ \<Rightarrow> True | E_Loop _ \<Rightarrow> True | E_While _ \<Rightarrow> True | E_For _ \<Rightarrow> True | E_Switch _ \<Rightarrow> True | _ \<Rightarrow> False)"

definition is_user_ident :: "expr \<Rightarrow> bool" where
  "is_user_ident e = (case expr_kind e of E_Ident i \<Rightarrow> ident_is_user i | _ \<Rightarrow> False)"

definition is_builtin_ident :: "expr \<Rightarrow> bool" where
  "is_builtin_ident e = (case expr_kind e of E_Ident i \<Rightarrow> ident_is_builtin i | _ \<Rightarrow> False)"

definition is_generic_ident :: "expr \<Rightarrow> bool" where
  "is_generic_ident e = (case expr_kind e of E_Ident i \<Rightarrow> ident_is_generic i | _ \<Rightarrow> False)"

definition as_generic_ident :: "expr \<Rightarrow> ident option" where
  "as_generic_ident e = (case expr_kind e of E_Ident i \<Rightarrow> if ident_is_generic i then Some i else None | _ \<Rightarrow> None)"

definition as_user_ident :: "expr \<Rightarrow> ident option" where
  "as_user_ident e = (case expr_kind e of E_Ident i \<Rightarrow> if ident_is_user i then Some i else None | _ \<Rightarrow> None)"

definition else_as_if :: "expr else_block \<Rightarrow> expr if_node option" where
  "else_as_if b = (case b of ElseBlock_If i \<Rightarrow> Some i | _ \<Rightarrow> None)"

definition else_as_block :: "expr else_block \<Rightarrow> expr block option" where
  "else_as_block b = (case b of ElseBlock_Body (IfBody_Block b) \<Rightarrow> Some b | _ \<Rightarrow> None)"

definition switch_body_span :: "expr switch_body \<Rightarrow> span" where
  "switch_body_span b = (case b of SwitchBody_Block b \<Rightarrow> bl_span b | SwitchBody_Expr e \<Rightarrow> expr_span e)"

section \<open>Equality\<close>

definition expr_eq :: "expr \<Rightarrow> expr \<Rightarrow> bool" where "expr_eq a b \<longleftrightarrow> expr_id a = expr_id b"
definition block_eq :: "expr block \<Rightarrow> expr block \<Rightarrow> bool" where "block_eq a b \<longleftrightarrow> bl_id a = bl_id b"
definition if_eq :: "expr if_node \<Rightarrow> expr if_node \<Rightarrow> bool" where "if_eq a b \<longleftrightarrow> if_id a = if_id b"
definition item_eq :: "expr associated_item \<Rightarrow> expr associated_item \<Rightarrow> bool" where "item_eq a b \<longleftrightarrow> ai_id a = ai_id b"
definition var_binding_eq :: "expr var_binding \<Rightarrow> expr var_binding \<Rightarrow> bool" where "var_binding_eq a b \<longleftrightarrow> vb_id a = vb_id b"

fun while_eq :: "expr while_node \<Rightarrow> expr while_node \<Rightarrow> bool" where
  "while_eq (While_Node i _ _ _ _) (While_Node j _ _ _ _) \<longleftrightarrow> i = j"

fun for_eq :: "expr for_node \<Rightarrow> expr for_node \<Rightarrow> bool" where
  "for_eq (For_Node i _ _ _ _ _) (For_Node j _ _ _ _ _) \<longleftrightarrow> i = j"

fun fn_param_eq :: "expr fn_param \<Rightarrow> expr fn_param \<Rightarrow> bool" where
  "fn_param_eq (FnParam i _ _ _) (FnParam j _ _ _) \<longleftrightarrow> i = j"

section \<open>Printing\<close>

primrec statement_kind_display :: "expr statement_kind \<Rightarrow> string" where
  "statement_kind_display (St_Expr _) = ''Expr''"
| "statement_kind_display (St_Var _) = ''Var''"
| "statement_kind_display (St_Const _) = ''Const''"
| "statement_kind_display (St_ComptimeVarBinding _) = ''Comptime Binding''"
| "statement_kind_display (St_Return _) = ''Return''"
| "statement_kind_display (St_Defer _) = ''Defer''"
| "statement_kind_display (St_Errdefer _) = ''Errdefer''"
| "statement_kind_display (St_Assign _ _ _) = ''Assign''"
| "statement_kind_display (St_Break _ _) = ''Break''"
| "statement_kind_display (St_Continue _ _) = ''Continue''"

primrec assign_op_display :: "assign_op \<Rightarrow> string" where
  "assign_op_display A_Assign = ''=''"
| "assign_op_display A_Add = ''+=''"
| "assign_op_display A_AddSat = ''+|=''"
| "assign_op_display A_Sub = ''-=''"
| "assign_op_display A_SubSat = ''-|=''"
| "assign_op_display A_Mul = ''*=''"
| "assign_op_display A_MulSat = ''*|=''"
| "assign_op_display A_Div = ''/=''"
| "assign_op_display A_Rem = ''%=''"
| "assign_op_display A_BitAnd = ''&=''"
| "assign_op_display A_BitOr = ''|=''"
| "assign_op_display A_BitXor = ''^=''"
| "assign_op_display A_Shl = ''<<=''"
| "assign_op_display A_ShlSat = ''<<|=''"
| "assign_op_display A_ShlWrap = ''<<%=''"
| "assign_op_display A_Shr = ''>>=''"
| "assign_op_display A_ShrSat = ''>>|=''"
| "assign_op_display A_ShrWrap = ''>>%=''"
| "assign_op_display A_BoolAnd = ''&&=''"
| "assign_op_display A_BoolOr = ''||=''"

primrec inline_display :: "inline \<Rightarrow> string" where
  "inline_display Inline_None = ''mayinline''"
| "inline_display Inline_Always = ''#inline''"
| "inline_display Inline_Never = ''#noinline''"

primrec extern_display :: "extern \<Rightarrow> string" where
  "extern_display Extern_None = ''''"
| "extern_display Extern_Implicit = ''extern''"
| "extern_display (Extern_Explicit name) = ''extern '' @ [CHR 0x22] @ name @ [CHR 0x22]"

text \<open>The loop that collects the fields up to the start of a path; its termination follows the tree.\<close>

definition field_step :: "(expr \<times> expr) set" where
  "field_step = {(lhs, e). \<exists>field sp. expr_kind e = E_FieldAccess (FieldAccess lhs field sp)}"

lemma wf_field_step: "wf field_step"
proof (rule wfUNIVI)
  fix P and x :: expr
  assume "\<forall>x. (\<forall>y. (y, x) \<in> field_step \<longrightarrow> P y) \<longrightarrow> P x"
  then show "P x" by (induction x) (force simp: field_step_def)
qed

function field_path :: "expr \<Rightarrow> ident list \<Rightarrow> expr \<times> ident list" where
  "field_path e parts =
     (case expr_kind e of
        E_FieldAccess fa \<Rightarrow> (case fa of FieldAccess lhs field sp \<Rightarrow> field_path lhs (parts @ [field]))
      | _ \<Rightarrow> (e, parts))"
  by pat_completeness auto
termination
  by (relation "inv_image field_step fst") (rule wf_inv_image [OF wf_field_step], simp add: field_step_def)

declare field_path.simps [simp del]

fun field_access_display :: "expr field_access \<Rightarrow> string" where
  "field_access_display (FieldAccess lhs field sp) =
     (case field_path lhs [] of (root, parts) \<Rightarrow>
        (case expr_kind root of E_Ident i \<Rightarrow> id_symbol i | _ \<Rightarrow> ''<expr>'')
        @ concat (map (\<lambda>f. ''.'' @ id_symbol f) (rev parts)) @ ''.'' @ id_symbol field)"

text \<open>
  The assignment operator that \<^verbatim>\<open>maybe_assign_op\<close> returns prints as the token it was read from.
\<close>

theorem assign_op_prints_its_token:
  assumes "maybe_assign_op s = Ok (Some op) s'"
  shows "assign_op_display op = kind_display (cur s)"
proof -
  note table = token_kind.splits op1.splits op2.splits op3.splits op4.splits
  let ?t = "p_tokens s ! p_offset s"
  have "p_offset s < length (p_tokens s)" using assms by (auto simp: maybe_assign_op_def p_bind_def p_bump_def split: if_splits)
  then show ?thesis using assms
    by (simp add: maybe_assign_op_def p_bind_def [of p_bump] p_bump_def Let_def cur_def kind_display_def)
      (auto simp: p_ret_def p_seq_def p_bind_def p_retreat_def split: table if_splits)
qed

theorem assign_op_prints_its_token_witness:
  "maybe_assign_op (parser_new (tokens_of [Op4 LtLtPipeEq, Eof]) [] 0) =
     Ok (Some A_ShlSat) ((parser_new (tokens_of [Op4 LtLtPipeEq, Eof]) [] 0)\<lparr>p_offset := 1\<rparr>)
   \<and> assign_op_display A_ShlSat = kind_display (cur (parser_new (tokens_of [Op4 LtLtPipeEq, Eof]) [] 0))"
proof -
  have "maybe_assign_op (parser_new (tokens_of [Op4 LtLtPipeEq, Eof]) [] 0) =
      Ok (Some A_ShlSat) ((parser_new (tokens_of [Op4 LtLtPipeEq, Eof]) [] 0)\<lparr>p_offset := 1\<rparr>)"
    by (simp add: run_simps tokens_of_def)
  with assign_op_prints_its_token [OF this] show ?thesis by blast
qed

end
