(* ===== verification/Vif_Vuir.thy ===== *)
theory Vif_Vuir
  imports Vif_Ast Vif_Int
begin

text \<open>
  The untyped intermediate representation: instruction ids and references (\<^verbatim>\<open>src/ir/id.rs\<close>) and the opcodes
  (\<^verbatim>\<open>src/ir/vuir/opcodes.rs\<close>), with the ids that an opcode mentions and the well-formedness of an instruction vector.

  A reference is an instruction or an interned value. Interning maps a key to an index and back
  (\<^verbatim>\<open>ValueStore\<close> of \<^verbatim>\<open>src/value.rs\<close>); here the index is the key itself, and of the keys and types only those that lowering
  interns appear. A float is the text it is parsed from. Slices in the payload allocator are lists.
  The twenty-five binary opcodes are one constructor with the operator, as in the syntax tree.
\<close>

section \<open>Ids and references\<close>

datatype value_type =
    Ty_Int bool u16 | Ty_Anyint | Ty_Anyfloat | Ty_Usize | Ty_Isize | Ty_F16 | Ty_F32 | Ty_F64 | Ty_F128
  | Ty_Bool | Ty_Void | Ty_Slice value_type | Ty_Anyptr | Ty_Type | Ty_Never

datatype value_key =
    Key_Str value_type "byte list" | Key_Int value_type anyint | Key_Float value_type string | Key_Bool bool
  | Key_Void | Key_Unreachable | Key_Type value_type | Key_EnumLiteral string

type_synonym instruction_id = nat

text \<open>\<^verbatim>\<open>InstructionId::from_usize\<close> truncates to 32 bits and excludes the greatest number.\<close>

definition instruction_id_from_usize :: "nat \<Rightarrow> instruction_id outcome" where
  "instruction_id_from_usize value = bind_outcome (from_usize value) (\<lambda>x. Returns (as_usize x))"

definition FILE_MODULE :: instruction_id where
  "FILE_MODULE = 0"

datatype instruction_ref = Instruction instruction_id | Interned value_key

definition as_id :: "instruction_ref \<Rightarrow> instruction_id option" where
  "as_id r = (case r of Instruction i \<Rightarrow> Some i | Interned _ \<Rightarrow> None)"

section \<open>Payloads\<close>

datatype builtin_kind =
    Bi_UnsafeIntCast | Bi_SizeOf | Bi_BitSizeOf | Bi_Zeroed | Bi_IntFromEnum | Bi_IntToFloat | Bi_Import | Bi_Nullptr
  | Bi_SliceFromRawParts | Bi_SlicePtr | Bi_SliceLen | Bi_Abort | Bi_Unreachable | Bi_PtrToInt | Bi_IntToPtr | Bi_Forget
  | Bi_Bitcast | Bi_SliceCopyNonoverlapping | Bi_AnyptrIs | Bi_AnyptrAs | Bi_AnyptrPtr | Bi_AnyptrFromRaw
  | Bi_AnyptrTypeInfo | Bi_TypeInfo

datatype field_ty = FieldTy_Ref instruction_ref | FieldTy_Body "instruction_id list"

record field =
  fld_name :: ident
  fld_ty :: field_ty

record union_field =
  uf_name :: ident
  uf_ty :: "field_ty option"
  uf_span :: span

record enum_variant =
  ev_ident :: ident
  ev_value :: "(instruction_ref \<times> span) option"
  ev_span :: span

datatype naming_kind = Nm_Anonymous | Nm_FromDecl | Nm_FromPreviousStackAlloc | Nm_Named string

record adt_init_field =
  aif_name :: ident
  aif_value :: instruction_ref
  aif_span :: span

record fn_call_arg =
  fca_name :: "string option"
  fca_body :: "instruction_id list"
  fca_span :: span

datatype capture = Cap_FromParent nat | Cap_Id instruction_id

datatype aggregate_init_kind =
    Agg_Empty | Agg_Array "instruction_ref list" | Agg_Adt "adt_init_field list"

record switch_single_case =
  ssc_pattern :: instruction_ref
  ssc_capture :: "ident option"
  ssc_body :: "instruction_id list"
  ssc_span :: span
  ssc_pattern_span :: span

record switch_multi_case =
  smc_items :: "instruction_ref list"
  smc_body :: "instruction_id list"
  smc_span :: span
  smc_patterns_span :: span

record decl =
  decl_name :: string
  decl_value :: "instruction_id list"
  decl_is_const :: bool
  decl_span :: span

record decl_fn =
  df_ret_ty :: instruction_id
  df_ret_ty_is_generic :: bool
  df_params :: "instruction_id list"
  df_var_args :: bool
  df_body :: "instruction_id list"
  df_external :: bool
  df_callconv :: "instruction_id option"
  df_builtin :: "builtin_kind option"
  df_inline :: inline
  df_span :: span

section \<open>Opcodes\<close>

datatype (plugins only: code) opcode =
    Op_Invalid
  | Op_TypeOfCurFnRet
  | Op_StructInitTypeOfField instruction_ref string span
  | Op_TypeBuiltinCallingConvention
  | Op_TypeOfPtrPointee instruction_ref span
  | Op_TypeOf instruction_ref
  | Op_TypePtr instruction_ref bool bool span
  | Op_TypeSlice instruction_ref bool "instruction_ref option"
  | Op_TypeArray instruction_ref bool instruction_ref "instruction_ref option" span span span
  | Op_Declaration decl
  | Op_DeclFn decl_fn
  | Op_CaptureGet nat span
  | Op_DeclFnParam ident "instruction_id list" bool bool span
  | Op_DeclStruct naming_kind "field list" bool bool "instruction_id list" "capture list"
  | Op_DeclEnum "(instruction_ref \<times> span) option" naming_kind bool "enum_variant list" "instruction_id list" "capture list"
  | Op_DeclUnion "(instruction_ref \<times> span) option option" naming_kind bool "union_field list" "instruction_id list" "capture list"
  | Op_StackAlloc ident instruction_ref span
  | Op_StackAllocMut ident instruction_ref span
  | Op_StackAllocComptime ident instruction_ref span
  | Op_StackAllocComptimeMut ident instruction_ref span
  | Op_StackAllocInferred ident span
  | Op_StackAllocInferredMut ident span
  | Op_StackAllocInferredComptime ident span
  | Op_StackAllocInferredComptimeMut ident span
  | Op_FreezeStackAlloc instruction_id span
  | Op_ReifyInferredAlloc instruction_ref span
  | Op_Block "instruction_id list" span
  | Op_BlockComptime "instruction_id list"
  | Op_Break instruction_id instruction_ref span
  | Op_BreakComptime instruction_id instruction_ref
  | Op_Return "instruction_ref option" span
  | Op_Loop "instruction_id list" span
  | Op_Repeat instruction_id
  | Op_DeclVal ident
  | Op_DeclRef ident
  | Op_FieldValFromPtr instruction_ref string span
  | Op_FieldPtrFromPtr instruction_ref string span
  | Op_FieldValFromVal instruction_ref string span
  | Op_ArrayIndexElemVal instruction_ref instruction_ref span
  | Op_ArrayIndexElemPtr instruction_ref instruction_ref span
  | Op_Undefined "instruction_ref option" span
  | Op_AggregateInit instruction_ref aggregate_init_kind span
  | Op_Coerce instruction_ref instruction_ref span
  | Op_FnCall instruction_ref "fn_call_arg list" "instruction_ref option" span
  | Op_FnCallWithFieldPtrReceiver instruction_ref ident "fn_call_arg list" "instruction_ref option" span
  | Op_Load instruction_ref span
  | Op_Store instruction_ref instruction_ref span
  | Op_StoreToInferredAlloc instruction_ref instruction_ref span
  | Op_Bin infix_op_kind instruction_ref instruction_ref span
  | Op_Negate instruction_ref span
  | Op_BoolNot instruction_ref span
  | Op_BitNot instruction_ref span
  | Op_DbgSrcLoc nat nat
  | Op_Branch "instruction_ref \<times> span" "instruction_id list" "instruction_id list" span
  | Op_Switch instruction_ref "switch_single_case list" "switch_multi_case list" "instruction_id list option" span
  | Op_Defer "instruction_id list" span
  | Op_SwitchCapture instruction_ref instruction_ref span
  | Op_RvalueToLvalue instruction_ref

definition returns_never :: "opcode \<Rightarrow> bool" where
  "returns_never p = (case p of Op_Break _ _ _ \<Rightarrow> True | Op_Return _ _ \<Rightarrow> True | Op_Repeat _ \<Rightarrow> True | _ \<Rightarrow> False)"

record import =
  imp_path :: "byte list"
  imp_span :: span

record vuir =
  vuir_instructions :: "opcode list"
  vuir_imports :: "import list"

section \<open>Well-formed instructions\<close>

text \<open>The instructions that an opcode mentions: operands, targets of jumps, bodies, declarations and captured values.\<close>

definition ref_ids :: "instruction_ref \<Rightarrow> instruction_id list" where
  "ref_ids r = (case r of Instruction i \<Rightarrow> [i] | Interned _ \<Rightarrow> [])"

definition opt_ids :: "instruction_ref option \<Rightarrow> instruction_id list" where
  "opt_ids r = (case r of Some r \<Rightarrow> ref_ids r | None \<Rightarrow> [])"

definition field_ty_ids :: "field_ty \<Rightarrow> instruction_id list" where
  "field_ty_ids t = (case t of FieldTy_Ref r \<Rightarrow> ref_ids r | FieldTy_Body is \<Rightarrow> is)"

definition capture_ids :: "capture \<Rightarrow> instruction_id list" where
  "capture_ids c = (case c of Cap_FromParent _ \<Rightarrow> [] | Cap_Id i \<Rightarrow> [i])"

definition spanned_ids :: "(instruction_ref \<times> span) option \<Rightarrow> instruction_id list" where
  "spanned_ids r = opt_ids (map_option fst r)"

definition aggregate_ids :: "aggregate_init_kind \<Rightarrow> instruction_id list" where
  "aggregate_ids k =
     (case k of Agg_Empty \<Rightarrow> [] | Agg_Array rs \<Rightarrow> concat (map ref_ids rs) | Agg_Adt fs \<Rightarrow> concat (map (\<lambda>f. ref_ids (aif_value f)) fs))"

definition optl :: "'a list option \<Rightarrow> 'a list" where
  "optl x = (case x of Some xs \<Rightarrow> xs | None \<Rightarrow> [])"

primrec opcode_ids :: "opcode \<Rightarrow> instruction_id list" where
  "opcode_ids Op_Invalid = []"
| "opcode_ids Op_TypeOfCurFnRet = []"
| "opcode_ids (Op_StructInitTypeOfField r _ _) = ref_ids r"
| "opcode_ids Op_TypeBuiltinCallingConvention = []"
| "opcode_ids (Op_TypeOfPtrPointee r _) = ref_ids r"
| "opcode_ids (Op_TypeOf r) = ref_ids r"
| "opcode_ids (Op_TypePtr r _ _ _) = ref_ids r"
| "opcode_ids (Op_TypeSlice r _ s) = ref_ids r @ opt_ids s"
| "opcode_ids (Op_TypeArray r _ l s _ _ _) = ref_ids r @ ref_ids l @ opt_ids s"
| "opcode_ids (Op_Declaration d) = decl_value d"
| "opcode_ids (Op_DeclFn f) = df_ret_ty f # df_params f @ df_body f @ (case df_callconv f of Some c \<Rightarrow> [c] | None \<Rightarrow> [])"
| "opcode_ids (Op_CaptureGet _ _) = []"
| "opcode_ids (Op_DeclFnParam _ is _ _ _) = is"
| "opcode_ids (Op_DeclStruct _ fs _ _ ds cs) = concat (map (\<lambda>f. field_ty_ids (fld_ty f)) fs) @ ds @ concat (map capture_ids cs)"
| "opcode_ids (Op_DeclEnum t _ _ vs ds cs) = spanned_ids t @ concat (map (\<lambda>v. spanned_ids (ev_value v)) vs) @ ds @ concat (map capture_ids cs)"
| "opcode_ids (Op_DeclUnion t _ _ fs ds cs) =
     optl (map_option spanned_ids t) @ concat (map (\<lambda>f. optl (map_option field_ty_ids (uf_ty f))) fs) @ ds @ concat (map capture_ids cs)"
| "opcode_ids (Op_StackAlloc _ r _) = ref_ids r"
| "opcode_ids (Op_StackAllocMut _ r _) = ref_ids r"
| "opcode_ids (Op_StackAllocComptime _ r _) = ref_ids r"
| "opcode_ids (Op_StackAllocComptimeMut _ r _) = ref_ids r"
| "opcode_ids (Op_StackAllocInferred _ _) = []"
| "opcode_ids (Op_StackAllocInferredMut _ _) = []"
| "opcode_ids (Op_StackAllocInferredComptime _ _) = []"
| "opcode_ids (Op_StackAllocInferredComptimeMut _ _) = []"
| "opcode_ids (Op_FreezeStackAlloc i _) = [i]"
| "opcode_ids (Op_ReifyInferredAlloc r _) = ref_ids r"
| "opcode_ids (Op_Block is _) = is"
| "opcode_ids (Op_BlockComptime is) = is"
| "opcode_ids (Op_Break i r _) = i # ref_ids r"
| "opcode_ids (Op_BreakComptime i r) = i # ref_ids r"
| "opcode_ids (Op_Return r _) = opt_ids r"
| "opcode_ids (Op_Loop is _) = is"
| "opcode_ids (Op_Repeat i) = [i]"
| "opcode_ids (Op_DeclVal _) = []"
| "opcode_ids (Op_DeclRef _) = []"
| "opcode_ids (Op_FieldValFromPtr r _ _) = ref_ids r"
| "opcode_ids (Op_FieldPtrFromPtr r _ _) = ref_ids r"
| "opcode_ids (Op_FieldValFromVal r _ _) = ref_ids r"
| "opcode_ids (Op_ArrayIndexElemVal a r _) = ref_ids a @ ref_ids r"
| "opcode_ids (Op_ArrayIndexElemPtr a r _) = ref_ids a @ ref_ids r"
| "opcode_ids (Op_Undefined r _) = opt_ids r"
| "opcode_ids (Op_AggregateInit r k _) = ref_ids r @ aggregate_ids k"
| "opcode_ids (Op_Coerce v t _) = ref_ids v @ ref_ids t"
| "opcode_ids (Op_FnCall r as t _) = ref_ids r @ concat (map fca_body as) @ opt_ids t"
| "opcode_ids (Op_FnCallWithFieldPtrReceiver r _ as t _) = ref_ids r @ concat (map fca_body as) @ opt_ids t"
| "opcode_ids (Op_Load r _) = ref_ids r"
| "opcode_ids (Op_Store d r _) = ref_ids d @ ref_ids r"
| "opcode_ids (Op_StoreToInferredAlloc d r _) = ref_ids d @ ref_ids r"
| "opcode_ids (Op_Bin _ l r _) = ref_ids l @ ref_ids r"
| "opcode_ids (Op_Negate r _) = ref_ids r"
| "opcode_ids (Op_BoolNot r _) = ref_ids r"
| "opcode_ids (Op_BitNot r _) = ref_ids r"
| "opcode_ids (Op_DbgSrcLoc _ _) = []"
| "opcode_ids (Op_Branch c t e _) = ref_ids (fst c) @ t @ e"
| "opcode_ids (Op_Switch r ss ms e _) =
     ref_ids r @ concat (map (\<lambda>c. ref_ids (ssc_pattern c) @ ssc_body c) ss)
       @ concat (map (\<lambda>c. concat (map ref_ids (smc_items c)) @ smc_body c) ms) @ optl e"
| "opcode_ids (Op_Defer is _) = is"
| "opcode_ids (Op_SwitchCapture r p _) = ref_ids r @ ref_ids p"
| "opcode_ids (Op_RvalueToLvalue r) = ref_ids r"

definition below :: "nat \<Rightarrow> instruction_id list \<Rightarrow> bool" where
  "below n is \<longleftrightarrow> list_all (\<lambda>i. i < n) is"

definition opcodes_ok :: "opcode list \<Rightarrow> bool" where
  "opcodes_ok ops \<longleftrightarrow> list_all (\<lambda>p. below (length ops) (opcode_ids p)) ops"

definition vuir_ok :: "vuir \<Rightarrow> bool" where
  "vuir_ok v \<longleftrightarrow> opcodes_ok (vuir_instructions v) \<and> Op_Invalid \<notin> set (vuir_instructions v)"

lemma below_simps [simp]:
  "below n []" "below n (i # is) \<longleftrightarrow> i < n \<and> below n is" "below n (is @ js) \<longleftrightarrow> below n is \<and> below n js"
  by (simp_all add: below_def)

lemma below_concat [simp]: "below n (concat (map f xs)) \<longleftrightarrow> list_all (\<lambda>x. below n (f x)) xs"
  by (induction xs) simp_all

lemma below_mono: "below n is \<Longrightarrow> n \<le> m \<Longrightarrow> below m is"
  by (auto simp: below_def list_all_iff)

lemma instruction_id_exact: "instruction_id_from_usize n = Returns i \<Longrightarrow> n < 2 ^ 32 \<Longrightarrow> i = n"
  by (simp add: instruction_id_from_usize_def from_usize_def from_u32_def as_usize_def unat_of_nat split: if_splits)

end
