(* ===== verification/Vif_Lower.thy ===== *)
theory Vif_Lower
  imports Vif_Vuir Vif_Literals
begin

text \<open>
  The state of the lowering from the syntax tree to VUIR, \<^verbatim>\<open>src/ir/vuir/from_ast.rs\<close>, and the operations on its stack of
  scopes. The record \<open>lowerer\<close> is \<^verbatim>\<open>struct Lowerer\<close>; a method is a state transformer whose result is a value, a
  panic with its reason, or \<open>LowDepth\<close> when the depth allowed to the recursion did not suffice. An index out of range, a
  slice out of range, \<^verbatim>\<open>unreachable!\<close>, \<^verbatim>\<open>set_len\<close> past the length and a write through a dangling pointer are panics.

  \<^verbatim>\<open>was_resolved_atleast_once\<close> is a raw pointer to a local variable of \<^verbatim>\<open>lower_associated_fn\<close>. \<open>lw_flags\<close> holds these variables,
  one per active call, and a pointer is an index into it. \<^verbatim>\<open>resolve_cache\<close> is never read and left out.
\<close>

section \<open>State\<close>

type_synonym scope_id = nat

datatype block_kind =
    BK_Body
  | BK_Block instruction_ref "ident option"
  | BK_Branch instruction_ref
  | BK_Loop instruction_ref "ident option"

datatype scope =
    Scope_Namespace "scope_id option" "string \<Rightarrow> (node_id \<times> span) option" "capture list"
  | Scope_LocalStackAllocated scope_id string node_id instruction_ref
  | Scope_LocalValue scope_id string node_id instruction_ref "nat option"
  | Scope_Block "scope_id option" nat block_kind
  | Scope_Defer scope_id "instruction_id list" span

primrec scope_parent :: "scope \<Rightarrow> scope_id option" where
  "scope_parent (Scope_LocalStackAllocated p _ _ _) = Some p"
| "scope_parent (Scope_LocalValue p _ _ _ _) = Some p"
| "scope_parent (Scope_Namespace p _ _) = p"
| "scope_parent (Scope_Block p _ _) = p"
| "scope_parent (Scope_Defer p _ _) = Some p"

datatype resolve_result =
    FoundAndIsLocalStackAllocated instruction_ref
  | FoundAndIsLocalValue instruction_ref
  | FoundAndIsDecl
  | Found_Capture instruction_ref nat

datatype expr_result_location =
    RL_None
  | RL_CoerceToTy instruction_ref
  | RL_StoreToPtr instruction_ref span
  | RL_StoreToInferredPtr instruction_ref span
  | RL_GetAddressOf

text \<open>\<^verbatim>\<open>ExprContextKind\<close> is \<^verbatim>\<open>None\<close> in every context that is built, so a context is its result location.\<close>

type_synonym expr_context = expr_result_location

record lowerer =
  lw_module_id :: module_id
  lw_uir_scopes_instructions :: "instruction_id list"
  lw_instructions :: "opcode list"
  lw_scopes :: "scope list"
  lw_errors :: "diagnostic list"
  lw_line_starts :: "nat list"
  lw_imports :: "import list"
  lw_fn_body_root_scope :: "scope_id option"
  lw_flags :: "bool list"

datatype low_fault =
    Lf_Unreachable | Lf_OutOfRange | Lf_WrongBlock | Lf_SetLen | Lf_Dangling | Lf_NoRootNamespace | Lf_NotAnInstruction
  | Lf_Underflow
  | Lf_Todo | Lf_Errdefer | Lf_ReturnOutsideFunction | Lf_NoArrayLen | Lf_BadInt | Lf_BadFloat | Lf_NoPatterns
  | Lf_IdsExhausted

datatype 'a low_result = LowDepth | LowPanic low_fault | LowDone 'a lowerer

type_synonym 'a low = "lowerer \<Rightarrow> 'a low_result"

definition l_ret :: "'a \<Rightarrow> 'a low" where
  "l_ret x s = LowDone x s"

definition l_bind :: "'a low \<Rightarrow> ('a \<Rightarrow> 'b low) \<Rightarrow> 'b low" where
  "l_bind m f s = (case m s of LowDepth \<Rightarrow> LowDepth | LowPanic e \<Rightarrow> LowPanic e | LowDone x s' \<Rightarrow> f x s')"

definition l_seq :: "'a low \<Rightarrow> 'b low \<Rightarrow> 'b low" where
  "l_seq m n = l_bind m (\<lambda>_. n)"

definition l_panic :: "low_fault \<Rightarrow> 'a low" where
  "l_panic e s = LowPanic e"

definition l_depth :: "'a low" where
  "l_depth s = LowDepth"

definition l_gets :: "(lowerer \<Rightarrow> 'a) \<Rightarrow> 'a low" where
  "l_gets f s = LowDone (f s) s"

primrec l_map :: "('a \<Rightarrow> 'b low) \<Rightarrow> 'a list \<Rightarrow> 'b list low" where
  "l_map f [] = l_ret []"
| "l_map f (x # xs) = l_bind (f x) (\<lambda>y. l_bind (l_map f xs) (\<lambda>ys. l_ret (y # ys)))"

definition l_opt :: "('a \<Rightarrow> 'b low) \<Rightarrow> 'a option \<Rightarrow> 'b option low" where
  "l_opt f x = (case x of Some a \<Rightarrow> l_bind (f a) (\<lambda>b. l_ret (Some b)) | None \<Rightarrow> l_ret None)"

definition l_when :: "bool \<Rightarrow> 'a low \<Rightarrow> unit low" where
  "l_when c m = (if c then l_seq m (l_ret ()) else l_ret ())"

definition l_nth :: "'a list \<Rightarrow> nat \<Rightarrow> 'a low" where
  "l_nth xs i = (if i < length xs then l_ret (xs ! i) else l_panic Lf_OutOfRange)"

definition l_slice :: "'a list \<Rightarrow> nat \<Rightarrow> nat \<Rightarrow> 'a list low" where
  "l_slice xs a b = (case slice xs a b of Returns ys \<Rightarrow> l_ret ys | Panics \<Rightarrow> l_panic Lf_OutOfRange)"

section \<open>Diagnostics\<close>

definition diag_at :: "sorted_insert \<Rightarrow> string \<Rightarrow> span \<Rightarrow> module_id \<Rightarrow> diagnostic" where
  "diag_at I msg sp m = with_label I (with_message diag_error msg) (label_with_span label_primary \<lparr>ds_module = m, ds_span = sp\<rparr>)"

text \<open>A primary label with a text, and a second label.\<close>

definition diag_two :: "sorted_insert \<Rightarrow> string \<Rightarrow> span \<Rightarrow> string \<Rightarrow> label \<Rightarrow> span \<Rightarrow> string \<Rightarrow> module_id \<Rightarrow> diagnostic" where
  "diag_two I msg sp1 m1 l2 sp2 m2 m =
     with_label I
       (with_label I (with_message diag_error msg)
         (label_with_message (label_with_span label_primary \<lparr>ds_module = m, ds_span = sp1\<rparr>) m1))
       (label_with_message (label_with_span l2 \<lparr>ds_module = m, ds_span = sp2\<rparr>) m2)"

definition l_error :: "(module_id \<Rightarrow> diagnostic) \<Rightarrow> unit low" where
  "l_error f s = LowDone () (s\<lparr>lw_errors := lw_errors s @ [f (lw_module_id s)]\<rparr>)"

section \<open>Scopes and instructions\<close>

definition scope_at :: "scope_id \<Rightarrow> scope low" where
  "scope_at i = l_bind (l_gets lw_scopes) (\<lambda>ss. l_nth ss i)"

definition as_block :: "scope \<Rightarrow> (scope_id option \<times> nat \<times> block_kind) low" where
  "as_block sc = (case sc of Scope_Block p st k \<Rightarrow> l_ret (p, st, k) | _ \<Rightarrow> l_panic Lf_Unreachable)"

text \<open>\<^verbatim>\<open>scopes.push(..)\<close>, \<^verbatim>\<open>scopes.pop()\<close> and \<^verbatim>\<open>self.instructions[id] = ..\<close>\<close>

definition push_scope :: "scope \<Rightarrow> scope_id low" where
  "push_scope sc s = LowDone (length (lw_scopes s)) (s\<lparr>lw_scopes := lw_scopes s @ [sc]\<rparr>)"

definition pop_scope :: "unit low" where
  "pop_scope s = LowDone () (s\<lparr>lw_scopes := butlast (lw_scopes s)\<rparr>)"

definition set_inst :: "instruction_id \<Rightarrow> opcode \<Rightarrow> unit low" where
  "set_inst i p s =
     (if i < length (lw_instructions s) then LowDone () (s\<lparr>lw_instructions := (lw_instructions s)[i := p]\<rparr>)
      else LowPanic Lf_OutOfRange)"

text \<open>\<^verbatim>\<open>binary_search\<close> of a sorted slice: the index of the element, or the place where it would be inserted.\<close>

definition binary_search :: "nat list \<Rightarrow> nat \<Rightarrow> nat + nat" where
  "binary_search xs x =
     (case find_index (\<lambda>y. y = x) xs of Some i \<Rightarrow> Inr i | None \<Rightarrow> Inl (length (takeWhile (\<lambda>y. y < x) xs)))"

definition lower_start_line_col :: "span \<Rightarrow> (nat \<times> nat) low" where
  "lower_start_line_col sp =
     l_bind (l_gets lw_line_starts) (\<lambda>starts.
       let offset = span_start sp;
           idx = (case binary_search starts offset of Inr i \<Rightarrow> i | Inl i \<Rightarrow> i - 1)
       in l_bind (l_nth starts idx) (\<lambda>start.
            if start \<le> offset then l_ret (idx + 1, offset - start) else l_panic Lf_Underflow))"

definition inst_id :: "scope_id \<Rightarrow> opcode \<Rightarrow> instruction_id low" where
  "inst_id block_scope p s =
     (case instruction_id_from_usize (length (lw_instructions s)) of
        Panics \<Rightarrow> LowPanic Lf_IdsExhausted
      | Returns i \<Rightarrow>
          LowDone i (s\<lparr>lw_instructions := lw_instructions s @ [p],
            lw_uir_scopes_instructions := lw_uir_scopes_instructions s @ [i]\<rparr>))"

definition inst :: "scope_id \<Rightarrow> opcode \<Rightarrow> instruction_ref low" where
  "inst block_scope p = l_bind (inst_id block_scope p) (\<lambda>i. l_ret (Instruction i))"

definition inst_invalid :: "scope_id \<Rightarrow> instruction_ref low" where
  "inst_invalid block_scope = inst block_scope Op_Invalid"

definition last_instruction :: "scope \<Rightarrow> opcode option low" where
  "last_instruction sc =
     l_bind (as_block sc) (\<lambda>(_, inst_start, _).
     l_bind (l_gets lw_uir_scopes_instructions) (\<lambda>uir.
     l_bind (l_slice uir inst_start (length uir)) (\<lambda>is.
     l_bind (l_gets lw_instructions) (\<lambda>ops.
       if is = [] then l_ret None else l_bind (l_nth ops (last is)) (\<lambda>p. l_ret (Some p))))))"

definition ends_with_never :: "scope_id \<Rightarrow> bool low" where
  "ends_with_never block =
     l_bind (scope_at block) (\<lambda>sc. l_bind (last_instruction sc) (\<lambda>p.
       l_ret (case p of Some p \<Rightarrow> returns_never p | None \<Rightarrow> False)))"

definition stack_block :: "scope_id \<Rightarrow> block_kind \<Rightarrow> scope_id low" where
  "stack_block parent k =
     l_bind (l_gets lw_uir_scopes_instructions) (\<lambda>uir. push_scope (Scope_Block (Some parent) (length uir) k))"

text \<open>The loop that pops scopes until it meets the block; the list is the stack from the top.\<close>

fun unstack_scopes :: "scope_id \<Rightarrow> scope list \<Rightarrow> low_fault + nat \<times> scope list" where
  "unstack_scopes block [] = Inl Lf_Unreachable"
| "unstack_scopes block (Scope_Block p st k # rest) =
     (if length rest = block then Inr (st, rest) else Inl Lf_WrongBlock)"
| "unstack_scopes block (sc # rest) = unstack_scopes block rest"

definition unstack_block :: "scope_id \<Rightarrow> unit low" where
  "unstack_block block s =
     (case unstack_scopes block (rev (lw_scopes s)) of
        Inl e \<Rightarrow> LowPanic e
      | Inr (st, rest) \<Rightarrow>
          if st \<le> length (lw_uir_scopes_instructions s)
          then LowDone () (s\<lparr>lw_scopes := rev rest, lw_uir_scopes_instructions := take st (lw_uir_scopes_instructions s)\<rparr>)
          else LowPanic Lf_SetLen)"

definition collect_instructions_and_unstack_block :: "scope_id \<Rightarrow> instruction_id list low" where
  "collect_instructions_and_unstack_block block =
     l_bind (scope_at block) (\<lambda>sc. l_bind (as_block sc) (\<lambda>(_, inst_start, _).
     l_bind (l_gets lw_uir_scopes_instructions) (\<lambda>uir.
     l_bind (l_slice uir inst_start (length uir)) (\<lambda>is.
       l_seq (unstack_block block) (l_ret is)))))"

text \<open>
  The walk from a scope to the root: the callback continues, with the value of the variables it changes, or breaks. A
  chain of parents without a cycle has at most as many scopes as there are, which bounds the loop.
\<close>

datatype ('c, 'b) control_flow = CF_Continue 'c | CF_Break 'b

primrec traverse_loop :: "nat \<Rightarrow> scope_id \<Rightarrow> 'c \<Rightarrow> ('c \<Rightarrow> scope_id \<Rightarrow> scope \<Rightarrow> ('c, 'b) control_flow low) \<Rightarrow> 'b option low" where
  "traverse_loop 0 scope c f = l_depth"
| "traverse_loop (Suc n) scope c f =
     l_bind (scope_at scope) (\<lambda>sc. l_bind (f c scope sc) (\<lambda>flow.
       (case flow of
          CF_Break b \<Rightarrow> l_ret (Some b)
        | CF_Continue c' \<Rightarrow>
            l_bind (scope_at scope) (\<lambda>sc.
              (case scope_parent sc of Some parent \<Rightarrow> traverse_loop n parent c' f | None \<Rightarrow> l_ret None)))))"

definition traverse_scopes_from :: "scope_id \<Rightarrow> 'c \<Rightarrow> ('c \<Rightarrow> scope_id \<Rightarrow> scope \<Rightarrow> ('c, 'b) control_flow low) \<Rightarrow> 'b option low" where
  "traverse_scopes_from scope c f = l_bind (l_gets (\<lambda>s. length (lw_scopes s))) (\<lambda>n. traverse_loop (Suc n) scope c f)"

definition append_defer :: "scope_id \<Rightarrow> unit \<Rightarrow> scope_id \<Rightarrow> scope \<Rightarrow> (unit, unit) control_flow low" where
  "append_defer stop_scope u scope sc =
     (case sc of
        Scope_Defer _ body sp \<Rightarrow> l_seq (inst scope (Op_Defer body sp)) (l_ret (CF_Continue ()))
      | _ \<Rightarrow> l_ret (if scope = stop_scope then CF_Break () else CF_Continue ()))"

definition append_defers :: "scope_id \<Rightarrow> scope_id \<Rightarrow> unit low" where
  "append_defers start_scope stop_scope = l_seq (traverse_scopes_from start_scope () (append_defer stop_scope)) (l_ret ())"

section \<open>Results and names\<close>

definition rvalue :: "scope_id \<Rightarrow> instruction_ref \<Rightarrow> expr_context \<Rightarrow> span \<Rightarrow> instruction_ref low" where
  "rvalue block_scope r ctx sp =
     (case ctx of
        RL_StoreToPtr p psp \<Rightarrow> inst block_scope (Op_Store p r (span_join sp psp))
      | RL_StoreToInferredPtr p psp \<Rightarrow>
          l_seq (inst block_scope (Op_StoreToInferredAlloc p r (span_join sp psp))) (l_ret (Interned Key_Void))
      | RL_GetAddressOf \<Rightarrow> inst block_scope (Op_RvalueToLvalue r)
      | RL_CoerceToTy ty \<Rightarrow> inst block_scope (Op_Coerce r ty sp)
      | RL_None \<Rightarrow> l_ret r)"

definition try_lower_coerce_into_result_loc_expected_ty :: "scope_id \<Rightarrow> expr_context \<Rightarrow> instruction_ref option low" where
  "try_lower_coerce_into_result_loc_expected_ty block_scope ctx =
     (case ctx of
        RL_CoerceToTy ty \<Rightarrow> l_ret (Some ty)
      | RL_StoreToPtr p sp \<Rightarrow> l_bind (inst block_scope (Op_TypeOfPtrPointee p sp)) (\<lambda>ty. l_ret (Some ty))
      | _ \<Rightarrow> l_ret None)"

text \<open>A write through the pointer, when it is not null.\<close>

definition write_flag :: "nat option \<Rightarrow> unit low" where
  "write_flag p s =
     (case p of
        None \<Rightarrow> LowDone () s
      | Some i \<Rightarrow>
          if i < length (lw_flags s) then LowDone () (s\<lparr>lw_flags := (lw_flags s)[i := True]\<rparr>) else LowPanic Lf_Dangling)"

definition self_ty_symbol :: string where
  "self_ty_symbol = ''Self''"

definition resolve_in_scope :: "string \<Rightarrow> nat \<Rightarrow> scope_id \<Rightarrow> scope \<Rightarrow> (nat, resolve_result) control_flow low" where
  "resolve_in_scope symbol n scope sc =
     (case sc of
        Scope_LocalValue _ name _ vuir_inst flag \<Rightarrow>
          if name = symbol
          then l_seq (write_flag flag)
                 (l_ret (CF_Break (if n > 0 then Found_Capture vuir_inst n else FoundAndIsLocalValue vuir_inst)))
          else l_ret (CF_Continue n)
      | Scope_LocalStackAllocated _ name _ vuir_inst \<Rightarrow>
          if name = symbol
          then l_ret (CF_Break (if n > 0 then Found_Capture vuir_inst n else FoundAndIsLocalStackAllocated vuir_inst))
          else l_ret (CF_Continue n)
      | Scope_Namespace _ decls _ \<Rightarrow>
          if symbol = self_ty_symbol \<or> decls symbol \<noteq> None then l_ret (CF_Break FoundAndIsDecl) else l_ret (CF_Continue (n + 1))
      | _ \<Rightarrow> l_ret (CF_Continue n))"

definition resolve_symbol :: "scope_id \<Rightarrow> string \<Rightarrow> resolve_result option low" where
  "resolve_symbol block_scope symbol =
     (if symbol \<noteq> [] \<and> hd symbol = CHR 0x40 then l_ret (Some FoundAndIsDecl)
      else traverse_scopes_from block_scope 0 (resolve_in_scope symbol))"

text \<open>The namespaces above a scope, from the inside out.\<close>

primrec namespaces_loop :: "nat \<Rightarrow> scope_id option \<Rightarrow> scope_id list low" where
  "namespaces_loop 0 p = l_depth"
| "namespaces_loop (Suc n) p =
     (case p of
        None \<Rightarrow> l_ret []
      | Some i \<Rightarrow>
          l_bind (scope_at i) (\<lambda>sc. l_bind (namespaces_loop n (scope_parent sc)) (\<lambda>is.
            l_ret (case sc of Scope_Namespace _ _ _ \<Rightarrow> i # is | _ \<Rightarrow> is))))"

definition namespaces_above :: "scope_id \<Rightarrow> scope_id list low" where
  "namespaces_above scope =
     l_bind (l_gets (\<lambda>s. length (lw_scopes s))) (\<lambda>n. l_bind (scope_at scope) (\<lambda>sc. namespaces_loop (Suc n) (scope_parent sc)))"

text \<open>\<^verbatim>\<open>captures.entry(&key).or_insert_with(|| ())\<close>: the index of the key, which is appended when it is new.\<close>

definition capture_entry :: "scope_id \<Rightarrow> capture \<Rightarrow> nat low" where
  "capture_entry ns key =
     l_bind (scope_at ns) (\<lambda>sc.
       (case sc of
          Scope_Namespace p decls captures \<Rightarrow>
            (case find_index (\<lambda>c. c = key) captures of
               Some i \<Rightarrow> l_ret i
             | None \<Rightarrow> (\<lambda>s. LowDone (length captures)
                 (s\<lparr>lw_scopes := (lw_scopes s)[ns := Scope_Namespace p decls (captures @ [key])]\<rparr>)))
        | _ \<Rightarrow> l_panic Lf_Unreachable))"

primrec capture_through :: "nat \<Rightarrow> scope_id list \<Rightarrow> nat low" where
  "capture_through idx [] = l_ret idx"
| "capture_through idx (ns # nss) = l_bind (capture_entry ns (Cap_FromParent idx)) (\<lambda>i. capture_through i nss)"

definition capture_outer_scope_inst :: "scope_id \<Rightarrow> instruction_ref \<Rightarrow> nat \<Rightarrow> span \<Rightarrow> instruction_ref low" where
  "capture_outer_scope_inst block_scope outer_ref traversed_namespace_count sp =
     (case outer_ref of
        Interned v \<Rightarrow> l_ret (Interned v)
      | Instruction outer \<Rightarrow>
          l_bind (namespaces_above block_scope) (\<lambda>nss.
            let intermediate = rev (take (traversed_namespace_count - 1) nss) in
            if traversed_namespace_count - 1 < length nss
            then l_bind (capture_entry (nss ! (traversed_namespace_count - 1)) (Cap_Id outer)) (\<lambda>i.
                 l_bind (capture_through i intermediate) (\<lambda>idx. inst block_scope (Op_CaptureGet idx sp)))
            else l_panic Lf_NoRootNamespace))"

definition block_label :: "block_kind \<Rightarrow> ident option" where
  "block_label k = (case k of BK_Loop _ l \<Rightarrow> l | BK_Block _ l \<Rightarrow> l | _ \<Rightarrow> None)"

definition check_label_already_defined :: "sorted_insert \<Rightarrow> scope_id \<Rightarrow> ident \<Rightarrow> bool low" where
  "check_label_already_defined I scope label =
     l_bind
       (traverse_scopes_from scope () (\<lambda>_ _ sc.
          (case sc of
             Scope_Block _ _ k \<Rightarrow>
               (case block_label k of
                  Some l \<Rightarrow> l_ret (if id_symbol l = id_symbol label then CF_Break l else CF_Continue ())
                | None \<Rightarrow> l_ret (CF_Continue ()))
           | _ \<Rightarrow> l_ret (CF_Continue ()))))
       (\<lambda>existing.
          (case existing of
             Some l \<Rightarrow>
               l_seq (l_error (diag_two I (''label `:'' @ id_symbol label @ ''` already defined'') (id_span label) ''redefinition here''
                        label_primary (id_span l) ''first defined here''))
                 (l_ret True)
           | None \<Rightarrow> l_ret False))"

definition lower_ident :: "sorted_insert \<Rightarrow> scope_id \<Rightarrow> ident \<Rightarrow> expr_context \<Rightarrow> span \<Rightarrow> instruction_ref option low" where
  "lower_ident I block_scope ident ctx sp =
     l_bind (resolve_symbol block_scope (id_symbol ident)) (\<lambda>resolved.
       (case resolved of
          Some (FoundAndIsLocalStackAllocated v) \<Rightarrow>
            if ctx = RL_GetAddressOf then l_ret (Some v)
            else l_bind (inst block_scope (Op_Load v sp)) (\<lambda>loaded.
                 l_bind (rvalue block_scope loaded ctx sp) (\<lambda>r. l_ret (Some r)))
        | Some (FoundAndIsLocalValue v) \<Rightarrow> l_bind (rvalue block_scope v ctx sp) (\<lambda>r. l_ret (Some r))
        | Some FoundAndIsDecl \<Rightarrow>
            if ctx = RL_GetAddressOf then l_bind (inst block_scope (Op_DeclRef ident)) (\<lambda>r. l_ret (Some r))
            else l_bind (inst block_scope (Op_DeclVal ident)) (\<lambda>v.
                 l_bind (rvalue block_scope v ctx sp) (\<lambda>r. l_ret (Some r)))
        | Some (Found_Capture v n) \<Rightarrow> l_bind (capture_outer_scope_inst block_scope v n sp) (\<lambda>r. l_ret (Some r))
        | None \<Rightarrow>
            l_seq (l_error (\<lambda>m. with_note (diag_at I (''unknown name '' @ [CHR 0x27] @ id_symbol ident @ [CHR 0x27]) sp m)
                     ''ensure name is visible in the current scope''))
              (l_ret None)))"

end
