(* ===== verification/Vif_Lower_Stmt.thy ===== *)
theory Vif_Lower_Stmt
  imports Vif_Lower
begin

text \<open>
  Lowering of bindings, control flow, statements, functions and type declarations, \<^verbatim>\<open>src/ir/vuir/from_ast.rs\<close>: one
  definition per method. Expressions and types are lowered by methods that call back into these; here they are fields of the
  record \<open>lower_methods\<close>, the argument \<open>M\<close>, and \<open>Vif_Lower_Expr\<close> ties the knot. \<open>I\<close> is the insertion of the crate
  \<^verbatim>\<open>sorted_insert\<close>, with which labels enter a diagnostic.
\<close>

record lower_methods =
  lk_expr :: "scope_id \<Rightarrow> expr \<Rightarrow> expr_context \<Rightarrow> instruction_ref low"
  lk_type :: "scope_id \<Rightarrow> expr type_node \<Rightarrow> naming_kind \<Rightarrow> span \<Rightarrow> instruction_ref low"
  lk_struct :: "scope_id \<Rightarrow> expr struct_ty \<Rightarrow> naming_kind \<Rightarrow> instruction_id low"
  lk_enum :: "scope_id \<Rightarrow> expr enum_ty \<Rightarrow> naming_kind \<Rightarrow> instruction_id low"

section \<open>Bindings\<close>

definition lower_expr_named :: "lower_methods \<Rightarrow> scope_id \<Rightarrow> expr \<Rightarrow> expr_context \<Rightarrow> naming_kind \<Rightarrow> instruction_ref low" where
  "lower_expr_named M block_scope e ctx naming =
     (case expr_kind e of
        E_Type ty \<Rightarrow> l_bind (lk_type M block_scope ty naming (expr_span e)) (\<lambda>r. rvalue block_scope r ctx (expr_span e))
      | _ \<Rightarrow> lk_expr M block_scope e ctx)"

definition wrap_in_comptime_block :: "scope_id \<Rightarrow> (scope_id \<Rightarrow> instruction_ref low) \<Rightarrow> instruction_ref low" where
  "wrap_in_comptime_block block_scope f =
     l_bind (inst_id block_scope Op_Invalid) (\<lambda>i.
     l_bind (stack_block block_scope BK_Body) (\<lambda>block.
     l_bind (f block) (\<lambda>e.
     l_bind (ends_with_never block) (\<lambda>never.
     l_seq (l_when (\<not> never) (inst block (Op_BreakComptime i e)))
     (l_bind (collect_instructions_and_unstack_block block) (\<lambda>instructions.
     l_seq (set_inst i (Op_BlockComptime instructions)) (l_ret (Instruction i))))))))"

definition stack_alloc_op :: "bool \<Rightarrow> bool \<Rightarrow> ident \<Rightarrow> instruction_ref \<Rightarrow> span \<Rightarrow> opcode" where
  "stack_alloc_op is_comptime is_mutable =
     (case (is_comptime, is_mutable) of
        (False, False) \<Rightarrow> Op_StackAlloc | (False, True) \<Rightarrow> Op_StackAllocMut
      | (True, False) \<Rightarrow> Op_StackAllocComptime | (True, True) \<Rightarrow> Op_StackAllocComptimeMut)"

definition stack_alloc_inferred_op :: "bool \<Rightarrow> bool \<Rightarrow> ident \<Rightarrow> span \<Rightarrow> opcode" where
  "stack_alloc_inferred_op is_comptime is_mutable =
     (case (is_comptime, is_mutable) of
        (False, False) \<Rightarrow> Op_StackAllocInferred | (False, True) \<Rightarrow> Op_StackAllocInferredMut
      | (True, False) \<Rightarrow> Op_StackAllocInferredComptime | (True, True) \<Rightarrow> Op_StackAllocInferredComptimeMut)"

definition lower_var_binding :: "lower_methods \<Rightarrow> scope_id \<Rightarrow> expr var_binding \<Rightarrow> bool \<Rightarrow> bool \<Rightarrow> (instruction_ref \<times> scope_id) low" where
  "lower_var_binding M block_scope binding is_comptime is_mutable =
     (let name = vb_name binding; sp = id_span name; val = vb_val binding in
      l_bind
        (case vb_ty binding of
           Some ty \<Rightarrow>
             l_bind (wrap_in_comptime_block block_scope (\<lambda>block. lk_expr M block_scope ty RL_None)) (\<lambda>ty.
             l_bind (inst_id block_scope (stack_alloc_op is_comptime is_mutable name ty sp)) (\<lambda>var.
               l_ret (var, RL_StoreToPtr (Instruction var) (expr_span val))))
         | None \<Rightarrow>
             l_bind (inst_id block_scope (stack_alloc_inferred_op is_comptime is_mutable name sp)) (\<lambda>var.
               l_ret (var, RL_StoreToInferredPtr (Instruction var) (expr_span val))))
        (\<lambda>(var, ctx).
           l_seq
             (if is_comptime
              then wrap_in_comptime_block block_scope (\<lambda>block. lower_expr_named M block val ctx (Nm_Named (id_symbol name)))
              else lower_expr_named M block_scope val ctx Nm_FromPreviousStackAlloc)
           (l_bind
             (case ctx of
                RL_StoreToInferredPtr p _ \<Rightarrow> inst_id block_scope (Op_ReifyInferredAlloc p sp)
              | _ \<Rightarrow> if is_mutable then inst_id block_scope (Op_FreezeStackAlloc var sp) else l_ret var)
             (\<lambda>var.
                l_bind (push_scope (Scope_LocalStackAllocated block_scope (id_symbol name) (vb_id binding) (Instruction var))) (\<lambda>scope.
                  l_ret (Instruction var, scope))))))"

definition lower_decl_init_expr :: "lower_methods \<Rightarrow> scope_id \<Rightarrow> expr \<Rightarrow> expr_context \<Rightarrow> instruction_ref low" where
  "lower_decl_init_expr M block_scope e ctx =
     (case expr_kind e of
        E_Type (T_Struct st) \<Rightarrow> l_bind (lk_struct M block_scope st Nm_FromDecl) (\<lambda>i. l_ret (Instruction i))
      | E_Type (T_Enum en) \<Rightarrow> l_bind (lk_enum M block_scope en Nm_FromDecl) (\<lambda>i. l_ret (Instruction i))
      | _ \<Rightarrow> lk_expr M block_scope e ctx)"

definition lower_item_var_binding :: "lower_methods \<Rightarrow> scope_id \<Rightarrow> expr var_binding \<Rightarrow> bool \<Rightarrow> instruction_id low" where
  "lower_item_var_binding M block_scope binding is_const =
     l_bind (inst_id block_scope Op_Invalid) (\<lambda>decl.
     l_bind (stack_block block_scope BK_Body) (\<lambda>scope.
     l_bind (case vb_ty binding of
               Some ty \<Rightarrow> l_bind (lk_expr M block_scope ty RL_None) (\<lambda>ty. l_ret (RL_CoerceToTy ty))
             | None \<Rightarrow> l_ret RL_None) (\<lambda>init_ctx.
     l_bind (lower_decl_init_expr M scope (vb_val binding) init_ctx) (\<lambda>init.
     l_seq (inst block_scope (Op_BreakComptime decl init))
     (l_bind (collect_instructions_and_unstack_block scope) (\<lambda>value.
     l_seq (set_inst decl (Op_Declaration \<lparr>decl_name = id_symbol (vb_name binding), decl_value = value,
              decl_is_const = is_const, decl_span = id_span (vb_name binding)\<rparr>))
       (l_ret decl)))))))"

section \<open>Statements\<close>

text \<open>The block that a \<^verbatim>\<open>break\<close> leaves: the innermost loop, or the loop or block with its label.\<close>

definition same_label :: "ident option \<Rightarrow> ident option \<Rightarrow> bool" where
  "same_label a b = (case (a, b) of (Some a, Some b) \<Rightarrow> id_symbol a = id_symbol b | _ \<Rightarrow> False)"

definition break_target :: "ident option \<Rightarrow> unit \<Rightarrow> scope_id \<Rightarrow> scope \<Rightarrow> (unit, scope_id \<times> instruction_ref) control_flow low" where
  "break_target label u scope sc =
     l_ret (case sc of
       Scope_Block _ _ (BK_Block i bl) \<Rightarrow> if same_label label bl then CF_Break (scope, i) else CF_Continue ()
     | Scope_Block _ _ (BK_Loop i bl) \<Rightarrow>
         if label = None \<or> same_label label bl then CF_Break (scope, i) else CF_Continue ()
     | _ \<Rightarrow> CF_Continue ())"

datatype find_loop_result = FL_Loop scope_id instruction_ref | FL_LabeledBlock ident

definition continue_target :: "ident option \<Rightarrow> unit \<Rightarrow> scope_id \<Rightarrow> scope \<Rightarrow> (unit, find_loop_result) control_flow low" where
  "continue_target label u scope sc =
     l_ret (case sc of
       Scope_Block _ _ (BK_Loop i bl) \<Rightarrow>
         if label = None \<or> same_label label bl then CF_Break (FL_Loop scope i) else CF_Continue ()
     | Scope_Block _ _ (BK_Block i (Some bl)) \<Rightarrow>
         if same_label label (Some bl) then CF_Break (FL_LabeledBlock bl) else CF_Continue ()
     | _ \<Rightarrow> CF_Continue ())"

definition unwrap_id :: "instruction_ref \<Rightarrow> instruction_id low" where
  "unwrap_id r = (case as_id r of Some i \<Rightarrow> l_ret i | None \<Rightarrow> l_panic Lf_NotAnInstruction)"

definition lower_break :: "sorted_insert \<Rightarrow> lower_methods \<Rightarrow> scope_id \<Rightarrow> ident option \<Rightarrow> expr option \<Rightarrow> span \<Rightarrow> (instruction_ref \<times> scope_id) low" where
  "lower_break I M block_scope label value sp =
     l_bind (traverse_scopes_from block_scope () (break_target label)) (\<lambda>found.
       (case found of
          Some (_, block_inst) \<Rightarrow>
            l_bind (case value of
                      Some e \<Rightarrow> l_bind (lk_expr M block_scope e RL_None) (\<lambda>r. l_ret (r, expr_span e))
                    | None \<Rightarrow> l_ret (Interned Key_Void, sp)) (\<lambda>(r, value_span).
            l_bind (unwrap_id block_inst) (\<lambda>block.
            l_bind (inst block_scope (Op_Break block r value_span)) (\<lambda>i. l_ret (i, block_scope))))
        | None \<Rightarrow>
            l_seq (case label of
                     Some l \<Rightarrow> l_error (diag_at I (''cannot find labeled block or loop `:'' @ id_symbol l @ ''`'') sp)
                   | None \<Rightarrow> l_error (diag_at I ''cannot break outside of loop or labeled block'' sp))
            (l_bind (inst block_scope Op_Invalid) (\<lambda>i. l_ret (i, block_scope)))))"

definition lower_continue :: "sorted_insert \<Rightarrow> scope_id \<Rightarrow> ident option \<Rightarrow> span \<Rightarrow> (instruction_ref \<times> scope_id) low" where
  "lower_continue I block_scope label sp =
     l_bind (traverse_scopes_from block_scope () (continue_target label)) (\<lambda>found.
     l_bind
       (case found of
          Some (FL_Loop scope block_inst) \<Rightarrow> l_bind (unwrap_id block_inst) (\<lambda>block. inst scope (Op_Repeat block))
        | Some (FL_LabeledBlock l) \<Rightarrow>
            l_seq (l_error (\<lambda>m. with_label I (diag_at I (''cannot continue label `:'' @ id_symbol l @ ''` which is not a loop'') sp m)
                     (label_with_message (label_with_span label_primary \<lparr>ds_module = m, ds_span = id_span l\<rparr>) ''label defined here'')))
              (inst block_scope Op_Invalid)
        | None \<Rightarrow>
            l_seq (case label of
                     Some l \<Rightarrow> l_error (diag_at I (''cannot find labeled loop `:'' @ id_symbol l @ ''`'') sp)
                   | None \<Rightarrow> l_error (diag_at I ''cannot continue outside of a loop'' sp))
              (inst block_scope Op_Invalid))
       (\<lambda>i. l_ret (i, block_scope)))"

text \<open>The opcode of a compound assignment; the arm for an operator that has none cannot be reached.\<close>

definition compound_op :: "assign_op \<Rightarrow> infix_op_kind option" where
  "compound_op a =
     (case a of
        A_Assign \<Rightarrow> None
      | A_Add \<Rightarrow> Some O_Add | A_AddSat \<Rightarrow> Some O_AddSat | A_Sub \<Rightarrow> Some O_Sub | A_SubSat \<Rightarrow> Some O_SubSat
      | A_Mul \<Rightarrow> Some O_Mul | A_MulSat \<Rightarrow> Some O_MulSat | A_Div \<Rightarrow> Some O_Div | A_Rem \<Rightarrow> Some O_Rem
      | A_BoolAnd \<Rightarrow> Some O_BoolAnd | A_BoolOr \<Rightarrow> Some O_BoolOr
      | A_Shl \<Rightarrow> Some O_Shl | A_ShlSat \<Rightarrow> Some O_ShlSat | A_ShlWrap \<Rightarrow> Some O_ShlWrap
      | A_Shr \<Rightarrow> Some O_Shr | A_ShrSat \<Rightarrow> Some O_ShrSat | A_ShrWrap \<Rightarrow> Some O_ShrWrap
      | A_BitAnd \<Rightarrow> Some O_BitAnd | A_BitOr \<Rightarrow> Some O_BitOr | A_BitXor \<Rightarrow> Some O_BitXor)"

definition lower_assign :: "lower_methods \<Rightarrow> scope_id \<Rightarrow> expr \<Rightarrow> assign_op \<Rightarrow> expr \<Rightarrow> span \<Rightarrow> instruction_ref low" where
  "lower_assign M block_scope lhs a rhs sp =
     l_bind (lk_expr M block_scope lhs RL_GetAddressOf) (\<lambda>lhs_addr.
       (case compound_op a of
          None \<Rightarrow> lk_expr M block_scope rhs (RL_StoreToPtr lhs_addr (expr_span lhs))
        | Some bop \<Rightarrow>
            l_bind (inst block_scope (Op_Load lhs_addr (expr_span lhs))) (\<lambda>lhs_val.
            l_bind (lk_expr M block_scope rhs RL_None) (\<lambda>rhs_val.
            l_bind (inst block_scope (Op_Bin bop lhs_val rhs_val sp)) (\<lambda>result.
              inst block_scope (Op_Store lhs_addr result sp))))))"

definition lower_return :: "lower_methods \<Rightarrow> scope_id \<Rightarrow> expr option \<Rightarrow> span \<Rightarrow> (instruction_ref \<times> scope_id) low" where
  "lower_return M block_scope value sp =
     l_bind
       (l_opt (\<lambda>e.
          l_bind (inst block_scope Op_TypeOfCurFnRet) (\<lambda>ret_type.
          l_bind (lk_expr M block_scope e (RL_CoerceToTy ret_type)) (\<lambda>r.
            inst block_scope (Op_Coerce r ret_type (expr_span e))))) value)
       (\<lambda>r.
          l_bind (l_gets lw_fn_body_root_scope) (\<lambda>root.
            (case root of
               None \<Rightarrow> l_panic Lf_ReturnOutsideFunction
             | Some root \<Rightarrow>
                 l_seq (append_defers block_scope root)
                 (l_bind (inst block_scope (Op_Return r sp)) (\<lambda>i. l_ret (i, block_scope))))))"

definition lower_stmt :: "sorted_insert \<Rightarrow> lower_methods \<Rightarrow> scope_id \<Rightarrow> expr statement \<Rightarrow> (instruction_ref \<times> scope_id) low" where
  "lower_stmt I M block_scope stmt =
     l_bind (lower_start_line_col (st_span stmt)) (\<lambda>(line, col).
     l_seq (inst block_scope (Op_DbgSrcLoc line col))
       (case st_kind stmt of
          St_Const binding \<Rightarrow> lower_var_binding M block_scope binding False False
        | St_Var binding \<Rightarrow> lower_var_binding M block_scope binding False True
        | St_ComptimeVarBinding binding \<Rightarrow> lower_var_binding M block_scope binding True True
        | St_Expr e \<Rightarrow> l_bind (lk_expr M block_scope e RL_None) (\<lambda>r. l_ret (r, block_scope))
        | St_Return value \<Rightarrow> lower_return M block_scope value (st_span stmt)
        | St_Break label value \<Rightarrow> lower_break I M block_scope label value (st_span stmt)
        | St_Continue label _ \<Rightarrow> lower_continue I block_scope label (st_span stmt)
        | St_Assign lhs a rhs \<Rightarrow> l_bind (lower_assign M block_scope lhs a rhs (st_span stmt)) (\<lambda>r. l_ret (r, block_scope))
        | St_Defer e \<Rightarrow>
            l_bind (stack_block block_scope BK_Body) (\<lambda>defer_body_scope.
            l_seq (lk_expr M defer_body_scope e RL_None)
            (l_bind (collect_instructions_and_unstack_block defer_body_scope) (\<lambda>defer_body.
             l_bind (push_scope (Scope_Defer block_scope defer_body (st_span stmt))) (\<lambda>defer_scope.
               l_ret (Interned Key_Void, defer_scope)))))
        | St_Errdefer _ \<Rightarrow> l_panic Lf_Errdefer))"

primrec lower_stmts :: "sorted_insert \<Rightarrow> lower_methods \<Rightarrow> scope_id \<Rightarrow> expr statement list \<Rightarrow> scope_id low" where
  "lower_stmts I M scope [] = l_ret scope"
| "lower_stmts I M scope (stmt # stmts) = l_bind (lower_stmt I M scope stmt) (\<lambda>(_, stmt_scope). lower_stmts I M stmt_scope stmts)"

definition lower_block :: "sorted_insert \<Rightarrow> lower_methods \<Rightarrow> scope_id \<Rightarrow> expr block \<Rightarrow> unit low" where
  "lower_block I M block_scope block =
     l_bind (lower_stmts I M block_scope (bl_stmts block)) (\<lambda>scope. append_defers scope block_scope)"

section \<open>Branches\<close>

definition break_unless_never :: "scope_id \<Rightarrow> instruction_id \<Rightarrow> instruction_ref \<Rightarrow> span \<Rightarrow> unit low" where
  "break_unless_never scope block value value_span =
     l_bind (ends_with_never scope) (\<lambda>never. l_when (\<not> never) (inst scope (Op_Break block value value_span)))"

definition lower_if_body :: "sorted_insert \<Rightarrow> lower_methods \<Rightarrow> scope_id \<Rightarrow> expr if_body \<Rightarrow> instruction_id \<Rightarrow> expr_context \<Rightarrow> unit low" where
  "lower_if_body I M block_scope body branch_block ctx =
     (case body of
        IfBody_Block block \<Rightarrow>
          l_seq (lower_block I M block_scope block) (break_unless_never block_scope branch_block (Interned Key_Void) (bl_span block))
      | IfBody_Expr e \<Rightarrow>
          l_bind (lk_expr M block_scope e ctx) (\<lambda>value. break_unless_never block_scope branch_block value (expr_span e)))"

definition coerce_ctx :: "scope_id \<Rightarrow> expr_context \<Rightarrow> expr_context low" where
  "coerce_ctx block_scope ctx =
     l_bind (try_lower_coerce_into_result_loc_expected_ty block_scope ctx) (\<lambda>ty.
       l_ret (case ty of Some ty \<Rightarrow> RL_CoerceToTy ty | None \<Rightarrow> RL_None))"

primrec lower_expr_if :: "sorted_insert \<Rightarrow> lower_methods \<Rightarrow> expr if_node \<Rightarrow> scope_id \<Rightarrow> expr_context \<Rightarrow> instruction_ref low"
  and lower_else :: "sorted_insert \<Rightarrow> lower_methods \<Rightarrow> expr else_block \<Rightarrow> scope_id \<Rightarrow> instruction_id \<Rightarrow> expr_context \<Rightarrow> unit low" where
  "lower_expr_if I M (If_Node i c then_b else_b sp) =
     (\<lambda>block_scope ctx.
        l_bind (lk_expr M block_scope c RL_None) (\<lambda>cond.
        l_bind (coerce_ctx block_scope ctx) (\<lambda>branch_ctx.
        l_bind (inst_id block_scope Op_Invalid) (\<lambda>branch_block.
        l_bind (stack_block block_scope (BK_Branch (Instruction branch_block))) (\<lambda>then_scope.
        l_seq (lower_if_body I M then_scope then_b branch_block branch_ctx)
        (l_bind (collect_instructions_and_unstack_block then_scope) (\<lambda>then_body.
        l_bind (stack_block block_scope (BK_Branch (Instruction branch_block))) (\<lambda>else_scope.
        l_seq (case map_option (lower_else I M) else_b of Some f \<Rightarrow> f else_scope branch_block branch_ctx | None \<Rightarrow> l_ret ())
        (l_seq (break_unless_never else_scope branch_block (Interned Key_Void) sp)
        (l_bind (collect_instructions_and_unstack_block else_scope) (\<lambda>else_body.
        l_bind (stack_block block_scope BK_Body) (\<lambda>branch_block_scope.
        l_seq (inst_id branch_block_scope (Op_Branch (cond, expr_span c) then_body else_body sp))
        (l_bind (collect_instructions_and_unstack_block branch_block_scope) (\<lambda>instructions.
        l_seq (set_inst branch_block (Op_Block instructions sp)) (l_ret (Instruction branch_block))))))))))))))))"
| "lower_else I M (ElseBlock_If i) =
     (\<lambda>scope branch_block branch_ctx.
        l_bind (lower_expr_if I M i scope branch_ctx) (\<lambda>value.
          l_seq (inst scope (Op_Break branch_block value (if_span i))) (l_ret ())))"
| "lower_else I M (ElseBlock_Body body) = (\<lambda>scope branch_block branch_ctx. lower_if_body I M scope body branch_block branch_ctx)"

definition lower_switch_body :: "sorted_insert \<Rightarrow> lower_methods \<Rightarrow> scope_id \<Rightarrow> expr switch_body \<Rightarrow> expr_context \<Rightarrow> (instruction_ref \<times> span) low" where
  "lower_switch_body I M block_scope body ctx =
     (case body of
        SwitchBody_Block block \<Rightarrow> l_seq (lower_block I M block_scope block) (l_ret (Interned Key_Void, bl_span block))
      | SwitchBody_Expr e \<Rightarrow> l_bind (lk_expr M block_scope e ctx) (\<lambda>r. l_ret (r, expr_span e)))"

end
