(* ===== verification/Vif_Lower_Decl.thy ===== *)
theory Vif_Lower_Decl
  imports Vif_Lower_Stmt
begin

text \<open>
  Lowering of functions, structs, enums and unions, \<^verbatim>\<open>src/ir/vuir/from_ast.rs\<close>.
\<close>

section \<open>Functions\<close>

text \<open>The local variable \<^verbatim>\<open>any_param_resolved_atleast_once\<close>: declared, assigned, read, and dead at the end of its block.\<close>

definition alloc_flag :: "nat low" where
  "alloc_flag s = LowDone (length (lw_flags s)) (s\<lparr>lw_flags := lw_flags s @ [False]\<rparr>)"

definition clear_flag :: "nat \<Rightarrow> unit low" where
  "clear_flag i s = LowDone () (s\<lparr>lw_flags := (lw_flags s)[i := False]\<rparr>)"

definition read_flag :: "nat \<Rightarrow> bool low" where
  "read_flag i = l_bind (l_gets lw_flags) (\<lambda>fs. l_nth fs i)"

definition free_flag :: "unit low" where
  "free_flag s = LowDone () (s\<lparr>lw_flags := butlast (lw_flags s)\<rparr>)"

primrec lower_fn_params :: "lower_methods \<Rightarrow> nat \<Rightarrow> scope_id \<Rightarrow> expr fn_param list \<Rightarrow> scope_id low" where
  "lower_fn_params M flag params_scope [] = l_ret params_scope"
| "lower_fn_params M flag params_scope (param # params) =
     (case param of FnParam i is_comptime name ty \<Rightarrow>
        l_seq (clear_flag flag)
        (l_bind (inst_id params_scope Op_Invalid) (\<lambda>p.
         l_bind (stack_block params_scope BK_Body) (\<lambda>type_scope.
         l_bind (lk_expr M type_scope ty RL_None) (\<lambda>t.
         l_seq (inst type_scope (Op_BreakComptime p t))
         (l_bind (collect_instructions_and_unstack_block type_scope) (\<lambda>type_body.
         l_bind (read_flag flag) (\<lambda>generic.
         l_seq (set_inst p (Op_DeclFnParam name type_body is_comptime generic (expr_span ty)))
         (l_bind (push_scope (Scope_LocalValue params_scope (id_symbol name) i (Instruction p) (Some flag))) (\<lambda>params_scope.
            lower_fn_params M flag params_scope params))))))))))"

text \<open>An expression in a block of its own, coerced to a type: the return type and the calling convention.\<close>

definition lower_ret_ty :: "lower_methods \<Rightarrow> nat \<Rightarrow> scope_id \<Rightarrow> expr \<Rightarrow> (instruction_id \<times> bool) low" where
  "lower_ret_ty M flag params_scope e =
     l_seq (clear_flag flag)
     (l_bind (inst_id params_scope Op_Invalid) (\<lambda>block_inst.
      l_bind (stack_block params_scope (BK_Block (Instruction block_inst) None)) (\<lambda>block_scope.
      l_bind (lk_expr M block_scope e (RL_CoerceToTy (Interned (Key_Type Ty_Type)))) (\<lambda>ret_ty.
      l_seq (inst block_scope (Op_BreakComptime block_inst ret_ty))
      (l_bind (collect_instructions_and_unstack_block block_scope) (\<lambda>body.
      l_seq (set_inst block_inst (Op_BlockComptime body))
      (l_bind (read_flag flag) (\<lambda>generic. l_ret (block_inst, generic)))))))))"

definition lower_callconv :: "lower_methods \<Rightarrow> scope_id \<Rightarrow> expr \<Rightarrow> instruction_id low" where
  "lower_callconv M params_scope e =
     l_bind (inst_id params_scope Op_Invalid) (\<lambda>block_inst.
     l_bind (stack_block params_scope (BK_Block (Instruction block_inst) None)) (\<lambda>block_scope.
     l_bind (inst block_scope Op_TypeBuiltinCallingConvention) (\<lambda>ty.
     l_bind (lk_expr M block_scope e (RL_CoerceToTy ty)) (\<lambda>r.
     l_seq (inst block_scope (Op_BreakComptime block_inst r))
     (l_bind (collect_instructions_and_unstack_block block_scope) (\<lambda>body.
     l_seq (set_inst block_inst (Op_BlockComptime body)) (l_ret block_inst)))))))"

definition set_fn_body_root_scope :: "scope_id option \<Rightarrow> unit low" where
  "set_fn_body_root_scope r s = LowDone () (s\<lparr>lw_fn_body_root_scope := r\<rparr>)"

definition lower_fn_block :: "sorted_insert \<Rightarrow> lower_methods \<Rightarrow> scope_id \<Rightarrow> expr block \<Rightarrow> unit low" where
  "lower_fn_block I M params_scope block =
     l_bind (l_gets lw_fn_body_root_scope) (\<lambda>prev.
     l_seq (set_fn_body_root_scope (Some params_scope))
     (l_seq (lower_block I M params_scope block) (set_fn_body_root_scope prev)))"

definition uir_len :: "nat low" where
  "uir_len = l_gets (\<lambda>s. length (lw_uir_scopes_instructions s))"

definition lower_fn_parts ::
  "sorted_insert \<Rightarrow> lower_methods \<Rightarrow> scope_id \<Rightarrow> expr fn_node
    \<Rightarrow> (instruction_id list \<times> instruction_id list \<times> instruction_id \<times> bool \<times> instruction_id option) low" where
  "lower_fn_parts I M block_scope fun_node =
     l_bind (stack_block block_scope BK_Body) (\<lambda>fn_scope.
     l_bind uir_len (\<lambda>params_start.
     l_bind alloc_flag (\<lambda>flag.
     l_bind (lower_fn_params M flag fn_scope (fn_params fun_node)) (\<lambda>params_scope.
     l_bind uir_len (\<lambda>params_end.
     l_bind (lower_ret_ty M flag params_scope (fn_ret_ty fun_node)) (\<lambda>(ret_ty, ret_ty_is_generic).
     l_bind (l_opt (lower_callconv M params_scope) (fn_callconv fun_node)) (\<lambda>callconv.
     l_bind uir_len (\<lambda>body_start.
     l_seq (case fn_block fun_node of Some block \<Rightarrow> lower_fn_block I M params_scope block | None \<Rightarrow> l_ret ())
     (l_bind uir_len (\<lambda>body_end.
     l_bind (l_gets lw_uir_scopes_instructions) (\<lambda>uir.
     l_bind (l_slice uir params_start params_end) (\<lambda>params.
     l_bind (l_slice uir body_start body_end) (\<lambda>body.
     l_seq (unstack_block fn_scope)
     (l_seq free_flag (l_ret (params, body, ret_ty, ret_ty_is_generic, callconv))))))))))))))))"

definition builtin_of :: "string \<Rightarrow> builtin_kind option" where
  "builtin_of = map_of
     [(''@unsafe_int_cast'', Bi_UnsafeIntCast), (''@size_of'', Bi_SizeOf), (''@bit_size_of'', Bi_BitSizeOf),
      (''@zeroed'', Bi_Zeroed), (''@int_from_enum'', Bi_IntFromEnum), (''@int_to_float'', Bi_IntToFloat),
      (''@import'', Bi_Import), (''@nullptr'', Bi_Nullptr), (''@slice_from_raw_parts'', Bi_SliceFromRawParts),
      (''@slice_ptr'', Bi_SlicePtr), (''@slice_len'', Bi_SliceLen), (''@abort'', Bi_Abort),
      (''@unreachable'', Bi_Unreachable), (''@ptr_to_int'', Bi_PtrToInt), (''@int_to_ptr'', Bi_IntToPtr),
      (''@forget'', Bi_Forget), (''@bitcast'', Bi_Bitcast), (''@slice_copy_nonoverlapping'', Bi_SliceCopyNonoverlapping),
      (''@anyptr_is'', Bi_AnyptrIs), (''@anyptr_as'', Bi_AnyptrAs), (''@anyptr_ptr'', Bi_AnyptrPtr),
      (''@anyptr_from_raw'', Bi_AnyptrFromRaw), (''@anyptr_type_info'', Bi_AnyptrTypeInfo), (''@type_info'', Bi_TypeInfo)]"

definition lower_builtin :: "sorted_insert \<Rightarrow> ident \<Rightarrow> builtin_kind option low" where
  "lower_builtin I name =
     (let symbol = id_symbol name in
      case builtin_of symbol of
        Some b \<Rightarrow> l_ret (Some b)
      | None \<Rightarrow>
          if symbol \<noteq> [] \<and> hd symbol = CHR 0x40
          then l_seq (l_error (\<lambda>m. with_note (diag_at I (''unknown builtin `'' @ symbol @ ''`'') (id_span name) m)
                        ''@ prefix is reserved for compiler builtins''))
                 (l_ret None)
          else l_ret None)"

definition lower_associated_fn :: "sorted_insert \<Rightarrow> lower_methods \<Rightarrow> scope_id \<Rightarrow> expr fn_node \<Rightarrow> instruction_id low" where
  "lower_associated_fn I M block_scope fun_node =
     (let name = fn_ident fun_node in
      l_bind (inst_id block_scope Op_Invalid) (\<lambda>decl.
      l_bind (lower_fn_parts I M block_scope fun_node) (\<lambda>(params, body, ret_ty, ret_ty_is_generic, callconv).
      l_bind (lower_builtin I name) (\<lambda>builtin.
      l_bind (stack_block block_scope BK_Body) (\<lambda>scope.
      l_bind (inst scope (Op_DeclFn \<lparr>df_ret_ty = ret_ty, df_ret_ty_is_generic = ret_ty_is_generic, df_params = params,
                df_var_args = fn_variadic fun_node, df_body = body,
                df_external = (fn_block fun_node = None \<and> builtin = None),
                df_callconv = callconv, df_builtin = builtin,
                df_inline = (if builtin \<noteq> None then Inline_Always else fn_inline fun_node), df_span = id_span name\<rparr>)) (\<lambda>fun_inst.
      l_seq (inst scope (Op_BreakComptime decl fun_inst))
      (l_bind (collect_instructions_and_unstack_block scope) (\<lambda>value.
      l_seq (set_inst decl (Op_Declaration \<lparr>decl_name = id_symbol name, decl_value = value, decl_is_const = True,
               decl_span = id_span name\<rparr>))
        (l_ret decl)))))))))"

definition lower_associated_item :: "sorted_insert \<Rightarrow> lower_methods \<Rightarrow> scope_id \<Rightarrow> expr associated_item \<Rightarrow> instruction_id low" where
  "lower_associated_item I M block_scope item =
     (case ai_kind item of
        Item_Fn f \<Rightarrow> lower_associated_fn I M block_scope f
      | Item_Const binding \<Rightarrow> lower_item_var_binding M block_scope binding True
      | Item_Var binding \<Rightarrow> lower_item_var_binding M block_scope binding False)"

section \<open>Namespaces\<close>

definition item_ident :: "expr associated_item \<Rightarrow> ident" where
  "item_ident item =
     (case ai_kind item of Item_Fn f \<Rightarrow> fn_ident f | Item_Const b \<Rightarrow> vb_name b | Item_Var b \<Rightarrow> vb_name b)"

primrec collect_namespace_items ::
  "sorted_insert \<Rightarrow> (string \<Rightarrow> (node_id \<times> span) option) \<Rightarrow> expr associated_item list \<Rightarrow> (string \<Rightarrow> (node_id \<times> span) option) low" where
  "collect_namespace_items I decls [] = l_ret decls"
| "collect_namespace_items I decls (item # items) =
     (let name = item_ident item in
      l_seq
        (case decls (id_symbol name) of
           Some (_, existing_span) \<Rightarrow>
             l_error (\<lambda>m. with_note (diag_two I (''name `'' @ id_symbol name @ ''` already defined'') (id_span name) ''redefinition here''
                            label_secondary existing_span ''first defined here'' m)
                       ''a name can only appear once in a namespace'')
         | None \<Rightarrow> l_ret ())
        (collect_namespace_items I (decls(id_symbol name \<mapsto> (ai_id item, id_span name))) items))"

definition push_namespace :: "sorted_insert \<Rightarrow> scope_id option \<Rightarrow> expr associated_item list \<Rightarrow> scope_id low" where
  "push_namespace I parent items =
     l_bind (collect_namespace_items I (\<lambda>_. None) items) (\<lambda>decls. push_scope (Scope_Namespace parent decls []))"

definition lower_namespace_items :: "sorted_insert \<Rightarrow> lower_methods \<Rightarrow> scope_id \<Rightarrow> expr associated_item list \<Rightarrow> instruction_id list low" where
  "lower_namespace_items I M namespace_scope items =
     l_bind (stack_block namespace_scope BK_Body) (\<lambda>decls_scope.
     l_bind (l_map (lower_associated_item I M decls_scope) items) (\<lambda>decls.
     l_seq (unstack_block decls_scope) (l_ret decls)))"

definition namespace_captures :: "scope_id \<Rightarrow> capture list low" where
  "namespace_captures i =
     l_bind (scope_at i) (\<lambda>sc. case sc of Scope_Namespace _ _ cs \<Rightarrow> l_ret cs | _ \<Rightarrow> l_panic Lf_Unreachable)"

text \<open>The type of a field: the instructions of its own block, or the reference when there are none.\<close>

definition lower_field_ty :: "lower_methods \<Rightarrow> scope_id \<Rightarrow> instruction_id \<Rightarrow> expr \<Rightarrow> field_ty low" where
  "lower_field_ty M namespace_scope owner ty =
     l_bind (stack_block namespace_scope BK_Body) (\<lambda>ty_block.
     l_bind (lk_expr M ty_block ty RL_None) (\<lambda>ty_ref.
     l_bind (ends_with_never ty_block) (\<lambda>never.
     l_seq (l_when (\<not> never) (inst ty_block (Op_BreakComptime owner ty_ref)))
     (l_bind (collect_instructions_and_unstack_block ty_block) (\<lambda>is.
        l_ret (if is = [] then FieldTy_Ref ty_ref else FieldTy_Body is))))))"

definition lower_field :: "lower_methods \<Rightarrow> scope_id \<Rightarrow> instruction_id \<Rightarrow> expr field_def \<Rightarrow> field low" where
  "lower_field M struct_scope struct_inst f =
     (case f of FieldDef _ name _ ty _ _ \<Rightarrow>
        l_bind (lower_field_ty M struct_scope struct_inst ty) (\<lambda>t. l_ret \<lparr>fld_name = name, fld_ty = t\<rparr>))"

definition lower_struct :: "sorted_insert \<Rightarrow> lower_methods \<Rightarrow> scope_id \<Rightarrow> expr struct_ty \<Rightarrow> naming_kind \<Rightarrow> instruction_id low" where
  "lower_struct I M block_scope st naming =
     l_bind (inst_id block_scope Op_Invalid) (\<lambda>struct_inst.
     l_bind (push_namespace I (Some block_scope) (sty_items st)) (\<lambda>struct_scope.
     l_bind (l_map (lower_field M struct_scope struct_inst) (sty_fields st)) (\<lambda>fs.
     l_bind (lower_namespace_items I M struct_scope (sty_items st)) (\<lambda>decls.
     l_bind (namespace_captures struct_scope) (\<lambda>captures.
     l_seq (set_inst struct_inst (Op_DeclStruct naming fs (sty_packed st) (sty_linear st) decls captures))
     (l_seq pop_scope (l_ret struct_inst)))))))"

primrec lower_variants ::
  "sorted_insert \<Rightarrow> lower_methods \<Rightarrow> scope_id \<Rightarrow> scope_id \<Rightarrow> (string \<Rightarrow> span option) \<Rightarrow> expr enum_variant_def list \<Rightarrow> enum_variant list low" where
  "lower_variants I M block_scope enum_scope seen [] = l_ret []"
| "lower_variants I M block_scope enum_scope seen (v # vs) =
     (case v of EnumVariantDef _ name val sp \<Rightarrow>
        l_bind (l_opt (\<lambda>e. l_bind (lk_expr M block_scope e RL_None) (\<lambda>r. l_ret (r, expr_span e))) val) (\<lambda>value.
        l_bind (scope_at enum_scope) (\<lambda>sc.
        l_seq
          (case sc of
             Scope_Namespace _ decls _ \<Rightarrow>
               (case decls (id_symbol name) of
                  Some (_, existing) \<Rightarrow>
                    l_error (\<lambda>m. with_note (diag_two I (''enum variant `'' @ id_symbol name @ ''` conflicts with an associated declaration'')
                              (id_span name) ''variant defined here'' label_secondary existing ''associated declaration defined here'' m)
                            ''a name can only appear once in an enum namespace'')
                | None \<Rightarrow> l_ret ())
           | _ \<Rightarrow> l_panic Lf_Unreachable)
        (l_seq
          (case seen (id_symbol name) of
             Some existing \<Rightarrow>
               l_error (diag_two I (''enum variant `'' @ id_symbol name @ ''` already defined'') (id_span name) ''redefinition here''
                         label_secondary existing ''first defined here'')
           | None \<Rightarrow> l_ret ())
        (l_bind (lower_variants I M block_scope enum_scope
                  (if seen (id_symbol name) = None then seen(id_symbol name \<mapsto> sp) else seen) vs) (\<lambda>rest.
           l_ret (\<lparr>ev_ident = name, ev_value = value, ev_span = sp\<rparr> # rest)))))))"

definition lower_enum :: "sorted_insert \<Rightarrow> lower_methods \<Rightarrow> scope_id \<Rightarrow> expr enum_ty \<Rightarrow> naming_kind \<Rightarrow> instruction_id low" where
  "lower_enum I M block_scope en naming =
     (case en of EnumTy tg variants items is_linear sp \<Rightarrow>
        l_bind (l_opt (\<lambda>e. l_bind (lk_expr M block_scope e RL_None) (\<lambda>r. l_ret (r, expr_span e))) tg) (\<lambda>tag_ty.
        l_bind (inst_id block_scope Op_Invalid) (\<lambda>enum_inst.
        l_bind (l_gets lw_scopes) (\<lambda>ss.
        l_bind (push_namespace I (if ss = [] then None else Some block_scope) items) (\<lambda>enum_scope.
        l_bind (lower_variants I M block_scope enum_scope (\<lambda>_. None) variants) (\<lambda>vs.
        l_bind (lower_namespace_items I M enum_scope items) (\<lambda>decls.
        l_bind (namespace_captures enum_scope) (\<lambda>captures.
        l_seq (set_inst enum_inst (Op_DeclEnum tag_ty naming is_linear vs decls captures))
        (l_seq pop_scope (l_ret enum_inst))))))))))"

primrec lower_union_fields ::
  "sorted_insert \<Rightarrow> lower_methods \<Rightarrow> scope_id \<Rightarrow> instruction_id \<Rightarrow> (string \<Rightarrow> span option) \<Rightarrow> expr union_field_def list \<Rightarrow> union_field list low" where
  "lower_union_fields I M union_scope union_inst seen [] = l_ret []"
| "lower_union_fields I M union_scope union_inst seen (f # fs) =
     (case f of UnionFieldDef _ name ty sp \<Rightarrow>
        l_seq
          (case seen (id_symbol name) of
             Some existing \<Rightarrow>
               l_error (diag_two I (''union field `'' @ id_symbol name @ ''` already defined'') (id_span name) ''redefinition here''
                         label_secondary existing ''first defined here'')
           | None \<Rightarrow> l_ret ())
        (l_bind (l_opt (lower_field_ty M union_scope union_inst) ty) (\<lambda>t.
         l_bind (lower_union_fields I M union_scope union_inst
                  (if seen (id_symbol name) = None then seen(id_symbol name \<mapsto> sp) else seen) fs) (\<lambda>rest.
           l_ret (\<lparr>uf_name = name, uf_ty = t, uf_span = sp\<rparr> # rest)))))"

definition lower_union :: "sorted_insert \<Rightarrow> lower_methods \<Rightarrow> scope_id \<Rightarrow> expr union_ty \<Rightarrow> naming_kind \<Rightarrow> instruction_id low" where
  "lower_union I M block_scope un naming =
     (case un of UnionTy tg fs items is_linear sp \<Rightarrow>
        l_bind
          (case tg of
             Tag_Bare \<Rightarrow> l_ret None
           | Tag_AutoEnum \<Rightarrow> l_ret (Some None)
           | Tag_Enum e \<Rightarrow> l_bind (lk_expr M block_scope e RL_None) (\<lambda>r. l_ret (Some (Some (r, expr_span e))))) (\<lambda>utag.
        l_bind (inst_id block_scope Op_Invalid) (\<lambda>union_inst.
        l_bind (push_namespace I (Some block_scope) items) (\<lambda>union_scope.
        l_bind (lower_union_fields I M union_scope union_inst (\<lambda>_. None) fs) (\<lambda>fields.
        l_bind (lower_namespace_items I M union_scope items) (\<lambda>decls.
        l_bind (namespace_captures union_scope) (\<lambda>captures.
        l_seq (set_inst union_inst (Op_DeclUnion utag naming is_linear fields decls captures))
        (l_seq pop_scope (l_ret union_inst)))))))))"

end
