(* ===== verification/Vif_Lower_Expr.thy ===== *)
theory Vif_Lower_Expr
  imports Vif_Lower_Decl
begin

text \<open>
  Lowering of types and expressions, \<^verbatim>\<open>src/ir/vuir/from_ast.rs\<close>, the knot that closes the recursion, and the entry
  point \<^verbatim>\<open>to_vuir\<close>. An arm of \<^verbatim>\<open>lower_expr\<close> either returns from the method or gives the value to which
  the result location of the context is applied at its end.
\<close>

section \<open>Types and literals\<close>

definition int_suffix_type :: "int_suffix \<Rightarrow> value_type" where
  "int_suffix_type i =
     (case i of Suf_U bits \<Rightarrow> Ty_Int False bits | Suf_I bits \<Rightarrow> Ty_Int True bits | Suf_Usize \<Rightarrow> Ty_Usize | Suf_Isize \<Rightarrow> Ty_Isize)"

definition float_suffix_type :: "float_suffix \<Rightarrow> value_type" where
  "float_suffix_type f = (case f of Suf_F16 \<Rightarrow> Ty_F16 | Suf_F32 \<Rightarrow> Ty_F32 | Suf_F64 \<Rightarrow> Ty_F64 | Suf_F128 \<Rightarrow> Ty_F128)"

definition lower_type ::
  "sorted_insert \<Rightarrow> lower_methods \<Rightarrow> scope_id \<Rightarrow> expr type_node \<Rightarrow> naming_kind \<Rightarrow> span \<Rightarrow> instruction_ref low" where
  "lower_type I M block_scope ty naming sp =
     (case ty of
        T_Void \<Rightarrow> l_ret (Interned (Key_Type Ty_Void))
      | T_Int i \<Rightarrow> l_ret (Interned (Key_Type (int_suffix_type i)))
      | T_Float f \<Rightarrow> l_ret (Interned (Key_Type (float_suffix_type f)))
      | T_Bool \<Rightarrow> l_ret (Interned (Key_Type Ty_Bool))
      | T_Anyptr \<Rightarrow> l_ret (Interned (Key_Type Ty_Anyptr))
      | T_Type \<Rightarrow> l_ret (Interned (Key_Type Ty_Type))
      | T_Anyint \<Rightarrow> l_ret (Interned (Key_Type Ty_Anyint))
      | T_Anyfloat \<Rightarrow> l_ret (Interned (Key_Type Ty_Anyfloat))
      | T_Never \<Rightarrow> l_ret (Interned (Key_Type Ty_Never))
      | T_Ptr t modifiers \<Rightarrow>
          l_bind (lk_expr M block_scope t RL_None) (\<lambda>pointee.
            inst block_scope (Op_TypePtr pointee (pm_const modifiers) (pm_volatile modifiers) sp))
      | T_ManyPtr _ _ _ \<Rightarrow> l_panic Lf_Todo
      | T_Slice t sentinel modifiers \<Rightarrow>
          l_bind (lk_expr M block_scope t RL_None) (\<lambda>elem.
          l_bind (l_opt (\<lambda>e. lk_expr M block_scope e RL_None) sentinel) (\<lambda>sentinel.
            inst block_scope (Op_TypeSlice elem (pm_const modifiers) sentinel)))
      | T_Array t is_const size_opt sentinel \<Rightarrow>
          l_bind (lk_expr M block_scope t RL_None) (\<lambda>elem.
            (case size_opt of
               None \<Rightarrow> l_panic Lf_NoArrayLen
             | Some n \<Rightarrow>
                 l_bind (lk_expr M block_scope n RL_None) (\<lambda>len.
                 l_bind (l_opt (\<lambda>e. lk_expr M block_scope e RL_None) sentinel) (\<lambda>sentinel.
                   inst block_scope (Op_TypeArray elem is_const len sentinel (expr_span t) (expr_span n) sp)))))
      | T_Nullable _ \<Rightarrow> l_panic Lf_Todo
      | T_Fn _ \<Rightarrow> l_panic Lf_Todo
      | T_Struct st \<Rightarrow> l_bind (lower_struct I M block_scope st naming) (\<lambda>i. l_ret (Instruction i))
      | T_Enum en \<Rightarrow> l_bind (lower_enum I M block_scope en naming) (\<lambda>i. l_ret (Instruction i))
      | T_Union un \<Rightarrow> l_bind (lower_union I M block_scope un naming) (\<lambda>i. l_ret (Instruction i)))"

definition lower_lit_int_inst :: "string \<Rightarrow> radix \<Rightarrow> int_suffix option \<Rightarrow> bool \<Rightarrow> instruction_ref low" where
  "lower_lit_int_inst symbol r suffix is_positive =
     (case lower_lit_int symbol r is_positive of
        Panics \<Rightarrow> l_panic Lf_BadInt
      | Returns v \<Rightarrow>
          l_ret (Interned (Key_Int (case suffix of Some i \<Rightarrow> int_suffix_type i | None \<Rightarrow> Ty_Anyint) v)))"

text \<open>The texts that \<^verbatim>\<open>str::parse::<f64>\<close> accepts.\<close>

definition strip_sign :: "string \<Rightarrow> string" where
  "strip_sign s = (case s of c # r \<Rightarrow> if c = CHR ''+'' \<or> c = CHR ''-'' then r else s | [] \<Rightarrow> [])"

definition f64_exponent :: "string \<Rightarrow> bool" where
  "f64_exponent s =
     (case s of
        [] \<Rightarrow> True
      | c # r \<Rightarrow> (c = CHR ''e'' \<or> c = CHR ''E'') \<and> strip_sign r \<noteq> [] \<and> list_all is_ascii_digit (strip_sign r))"

definition f64_number :: "string \<Rightarrow> bool" where
  "f64_number s =
     (let whole = takeWhile is_ascii_digit s; rest = dropWhile is_ascii_digit s in
      case rest of
        c # r \<Rightarrow>
          if c = CHR ''.''
          then (whole \<noteq> [] \<or> takeWhile is_ascii_digit r \<noteq> []) \<and> f64_exponent (dropWhile is_ascii_digit r)
          else whole \<noteq> [] \<and> f64_exponent rest
      | [] \<Rightarrow> whole \<noteq> [])"

definition to_ascii_lowercase :: "char \<Rightarrow> char" where
  "to_ascii_lowercase c = (if 65 \<le> (of_char c :: nat) \<and> (of_char c :: nat) \<le> 90 then char_of ((of_char c :: nat) + 32) else c)"

definition f64_text :: "string \<Rightarrow> bool" where
  "f64_text s \<longleftrightarrow>
     f64_number (strip_sign s) \<or> map to_ascii_lowercase (strip_sign s) \<in> {''inf'', ''infinity'', ''nan''}"

definition lower_lit :: "lit \<Rightarrow> instruction_ref low" where
  "lower_lit l =
     (case l of
        Lit_Integer symbol r suffix \<Rightarrow> lower_lit_int_inst symbol r suffix True
      | Lit_Str s \<Rightarrow> l_ret (Interned (Key_Str (Ty_Slice (Ty_Int False 8)) s))
      | Lit_Float symbol suffix \<Rightarrow>
          if f64_text symbol
          then l_ret (Interned (Key_Float (case suffix of Some f \<Rightarrow> float_suffix_type f | None \<Rightarrow> Ty_Anyfloat) symbol))
          else l_panic Lf_BadFloat
      | Lit_Bool b \<Rightarrow> l_ret (Interned (Key_Bool b))
      | Lit_EnumVariant v \<Rightarrow> l_ret (Interned (Key_EnumLiteral v))
      | Lit_Null \<Rightarrow> l_panic Lf_Todo
      | Lit_Char _ \<Rightarrow> l_panic Lf_Todo)"

section \<open>Fields, calls and aggregates\<close>

datatype arm = Arm_Return instruction_ref | Arm_Value instruction_ref

definition arm_return :: "instruction_ref low \<Rightarrow> arm low" where
  "arm_return m = l_bind m (\<lambda>r. l_ret (Arm_Return r))"

definition arm_value :: "instruction_ref low \<Rightarrow> arm low" where
  "arm_value m = l_bind m (\<lambda>r. l_ret (Arm_Value r))"

definition lower_field_access_no_ctx_handling :: "lower_methods \<Rightarrow> scope_id \<Rightarrow> expr field_access \<Rightarrow> expr_context \<Rightarrow> bool \<Rightarrow> instruction_ref low" where
  "lower_field_access_no_ctx_handling M block_scope fa ctx loads_field =
     (case fa of FieldAccess lhs fld sp \<Rightarrow>
        l_bind (lk_expr M block_scope lhs ctx) (\<lambda>l.
          inst block_scope
            (if loads_field then Op_FieldValFromPtr l (id_symbol fld) (id_span fld) else Op_FieldPtrFromPtr l (id_symbol fld) (id_span fld))))"

definition lower_field_access :: "lower_methods \<Rightarrow> scope_id \<Rightarrow> expr field_access \<Rightarrow> expr_context \<Rightarrow> instruction_ref low" where
  "lower_field_access M block_scope fa ctx =
     (if ctx = RL_GetAddressOf then lower_field_access_no_ctx_handling M block_scope fa RL_GetAddressOf False
      else l_bind (lower_field_access_no_ctx_handling M block_scope fa RL_GetAddressOf True) (\<lambda>v.
             rvalue block_scope v ctx (case fa of FieldAccess _ _ sp \<Rightarrow> sp)))"

definition arg_value :: "expr arg \<Rightarrow> expr" where
  "arg_value a = (case a of Arg_Named _ e \<Rightarrow> e | Arg_Positional e \<Rightarrow> e)"

definition lower_arg :: "lower_methods \<Rightarrow> scope_id \<Rightarrow> instruction_id \<Rightarrow> expr arg \<Rightarrow> fn_call_arg low" where
  "lower_arg M block_scope call_inst a =
     (let e = arg_value a;
          arg_ctx = (case expr_kind e of
                       E_StructInit (StructInit None _) \<Rightarrow> RL_CoerceToTy (Instruction call_inst)
                     | E_ArrayInit (ArrayInit None _) \<Rightarrow> RL_CoerceToTy (Instruction call_inst)
                     | _ \<Rightarrow> RL_None)
      in l_bind (stack_block block_scope BK_Body) (\<lambda>arg_scope.
         l_bind (lk_expr M arg_scope e arg_ctx) (\<lambda>lowered.
         l_seq (inst arg_scope (Op_BreakComptime call_inst lowered))
         (l_bind (collect_instructions_and_unstack_block arg_scope) (\<lambda>body.
            l_ret \<lparr>fca_name = (case a of Arg_Named name _ \<Rightarrow> Some (id_symbol name) | Arg_Positional _ \<Rightarrow> None),
                   fca_body = body,
                   fca_span = (case a of Arg_Named name _ \<Rightarrow> id_span name | Arg_Positional e \<Rightarrow> expr_span e)\<rparr>)))))"

definition push_import :: "import \<Rightarrow> unit low" where
  "push_import i s = LowDone () (s\<lparr>lw_imports := lw_imports s @ [i]\<rparr>)"

definition discover_import :: "sorted_insert \<Rightarrow> expr \<Rightarrow> expr arg list \<Rightarrow> span \<Rightarrow> unit low" where
  "discover_import I callee as sp =
     (case expr_kind callee of
        E_Ident name \<Rightarrow>
          if ident_is_builtin name \<and> id_symbol name = ''@import''
          then (case as of
                  Arg_Positional path_expr # _ \<Rightarrow>
                    (case expr_kind path_expr of
                       E_Lit (Lit_Str p) \<Rightarrow> push_import \<lparr>imp_path = p, imp_span = expr_span path_expr\<rparr>
                     | _ \<Rightarrow> l_error (diag_at I (''@import takes a positional string path as its sole argument: `@import('' @ [CHR 0x22] @ ''module.vif'' @ [CHR 0x22] @ '')`'') sp))
                | _ \<Rightarrow> l_error (diag_at I (''@import takes a positional string path as its sole argument: `@import('' @ [CHR 0x22] @ ''module.vif'' @ [CHR 0x22] @ '')`'') sp))
          else l_ret ()
      | _ \<Rightarrow> l_ret ())"

definition is_type_of_call :: "expr \<Rightarrow> bool" where
  "is_type_of_call callee = (case expr_kind callee of E_Ident name \<Rightarrow> id_symbol name = ''@type_of'' | _ \<Rightarrow> False)"

definition lower_type_of_call :: "sorted_insert \<Rightarrow> lower_methods \<Rightarrow> scope_id \<Rightarrow> expr arg list \<Rightarrow> span \<Rightarrow> expr_context \<Rightarrow> instruction_ref low" where
  "lower_type_of_call I M block_scope as sp ctx =
     (case as of
        [Arg_Positional value] \<Rightarrow>
          l_bind (lk_expr M block_scope value RL_None) (\<lambda>r.
          l_bind (inst block_scope (Op_TypeOf r)) (\<lambda>ty. rvalue block_scope ty ctx sp))
      | _ \<Rightarrow> l_seq (l_error (diag_at I ''@type_of expects exactly one positional argument'' sp)) (inst_invalid block_scope))"

definition lower_fn_call :: "sorted_insert \<Rightarrow> lower_methods \<Rightarrow> scope_id \<Rightarrow> expr fn_call \<Rightarrow> span \<Rightarrow> expr_context \<Rightarrow> arm low" where
  "lower_fn_call I M block_scope call sp ctx =
     (case call of FnCall callee as \<Rightarrow>
        if is_type_of_call callee then arm_return (lower_type_of_call I M block_scope as sp ctx)
        else
          l_bind (case expr_kind callee of
                    E_FieldAccess (FieldAccess lhs fld _) \<Rightarrow>
                      l_bind (lk_expr M block_scope lhs RL_GetAddressOf) (\<lambda>receiver. l_ret (receiver, Some fld))
                  | _ \<Rightarrow> l_bind (lk_expr M block_scope callee RL_None) (\<lambda>f. l_ret (f, None))) (\<lambda>(target, fld).
          l_bind (try_lower_coerce_into_result_loc_expected_ty block_scope ctx) (\<lambda>ret_ty.
          l_bind (inst_id block_scope Op_Invalid) (\<lambda>call_inst.
          l_bind (l_map (lower_arg M block_scope call_inst) as) (\<lambda>fn_args.
          l_seq (discover_import I callee as sp)
          (l_seq (set_inst call_inst
                    (case fld of
                       None \<Rightarrow> Op_FnCall target fn_args ret_ty sp
                     | Some f \<Rightarrow> Op_FnCallWithFieldPtrReceiver target f fn_args ret_ty sp))
            (l_ret (Arm_Value (Instruction call_inst)))))))))"

definition aggregate_ty :: "sorted_insert \<Rightarrow> lower_methods \<Rightarrow> scope_id \<Rightarrow> expr option \<Rightarrow> expr_context \<Rightarrow> string \<Rightarrow> span \<Rightarrow> instruction_ref low" where
  "aggregate_ty I M block_scope ty ctx msg sp =
     (case ty of
        Some explicit \<Rightarrow> lk_expr M block_scope explicit RL_None
      | None \<Rightarrow>
          l_bind (try_lower_coerce_into_result_loc_expected_ty block_scope ctx) (\<lambda>ty.
            (case ty of
               Some ty \<Rightarrow> l_ret ty
             | None \<Rightarrow> l_seq (l_error (diag_at I msg sp)) (inst block_scope Op_Invalid))))"

definition lower_field_init :: "lower_methods \<Rightarrow> scope_id \<Rightarrow> instruction_ref \<Rightarrow> expr field_init \<Rightarrow> adt_init_field low" where
  "lower_field_init M block_scope struct_ty f =
     (case f of FieldInit name value \<Rightarrow>
        l_bind (inst block_scope (Op_StructInitTypeOfField struct_ty (id_symbol name) (id_span name))) (\<lambda>ty.
        l_bind (lk_expr M block_scope value (RL_CoerceToTy ty)) (\<lambda>r.
          l_ret \<lparr>aif_name = name, aif_value = r, aif_span = expr_span value\<rparr>)))"

definition lower_struct_init :: "sorted_insert \<Rightarrow> lower_methods \<Rightarrow> scope_id \<Rightarrow> expr struct_init \<Rightarrow> span \<Rightarrow> expr_context \<Rightarrow> instruction_ref low" where
  "lower_struct_init I M block_scope si sp ctx =
     (case si of StructInit ty fs \<Rightarrow>
        l_bind (aggregate_ty I M block_scope ty ctx ''cannot infer type of struct initializer'' sp) (\<lambda>struct_ty.
        l_bind (l_map (lower_field_init M block_scope struct_ty) fs) (\<lambda>fields.
          inst block_scope (Op_AggregateInit struct_ty (if fields = [] then Agg_Empty else Agg_Adt fields) sp))))"

definition lower_array_init :: "sorted_insert \<Rightarrow> lower_methods \<Rightarrow> scope_id \<Rightarrow> expr array_init \<Rightarrow> span \<Rightarrow> expr_context \<Rightarrow> instruction_ref low" where
  "lower_array_init I M block_scope ai sp ctx =
     (case ai of ArrayInit ty es \<Rightarrow>
        l_bind (aggregate_ty I M block_scope ty ctx ''cannot infer type of array initializer'' sp) (\<lambda>array_ty.
        l_bind (l_map (\<lambda>e. lk_expr M block_scope e RL_None) es) (\<lambda>elements.
          inst block_scope (Op_AggregateInit array_ty (if elements = [] then Agg_Empty else Agg_Array elements) sp))))"

section \<open>Blocks, loops and switches\<close>

definition check_label :: "sorted_insert \<Rightarrow> scope_id \<Rightarrow> ident option \<Rightarrow> unit low" where
  "check_label I block_scope label =
     (case label of Some l \<Rightarrow> l_seq (check_label_already_defined I block_scope l) (l_ret ()) | None \<Rightarrow> l_ret ())"

definition lower_block_expr :: "sorted_insert \<Rightarrow> lower_methods \<Rightarrow> scope_id \<Rightarrow> bool \<Rightarrow> expr block \<Rightarrow> instruction_ref low" where
  "lower_block_expr I M block_scope is_loop b =
     l_seq (check_label I block_scope (bl_label b))
     (l_bind (inst_id block_scope Op_Invalid) (\<lambda>block.
      l_bind (stack_block block_scope (if is_loop then BK_Loop (Instruction block) (bl_label b) else BK_Block (Instruction block) (bl_label b))) (\<lambda>scope.
      l_seq (lower_block I M scope b)
      (l_seq (if is_loop then l_bind (ends_with_never scope) (\<lambda>never. l_when (\<not> never) (inst scope (Op_Repeat block))) else l_ret ())
      (l_bind (collect_instructions_and_unstack_block scope) (\<lambda>instructions.
      l_seq (set_inst block (if is_loop then Op_Loop instructions (bl_span b) else Op_Block instructions (bl_span b)))
        (l_ret (Instruction block))))))))"

text \<open>The exit of a \<^verbatim>\<open>while\<close>: a branch on the negated condition that breaks from the loop.\<close>

definition lower_while_exit :: "lower_methods \<Rightarrow> scope_id \<Rightarrow> scope_id \<Rightarrow> instruction_id \<Rightarrow> expr \<Rightarrow> span \<Rightarrow> unit low" where
  "lower_while_exit M block_scope loop_scope loop_block c sp =
     l_bind (lk_expr M loop_scope c RL_None) (\<lambda>cond.
     l_bind (inst loop_scope (Op_BitNot cond (expr_span c))) (\<lambda>cond.
     l_bind (inst_id loop_scope Op_Invalid) (\<lambda>branch_block.
     l_bind (stack_block block_scope (BK_Branch (Instruction branch_block))) (\<lambda>scope.
     l_seq (inst scope (Op_Break loop_block (Interned Key_Void) sp))
     (l_bind (collect_instructions_and_unstack_block scope) (\<lambda>then_body.
     l_bind (stack_block block_scope (BK_Branch (Instruction branch_block))) (\<lambda>scope.
     l_seq (inst scope (Op_Break branch_block (Interned Key_Void) sp))
     (l_bind (collect_instructions_and_unstack_block scope) (\<lambda>else_body.
     l_bind (stack_block block_scope BK_Body) (\<lambda>branch_block_scope.
     l_seq (inst branch_block_scope (Op_Branch (cond, expr_span c) then_body else_body sp))
     (l_bind (collect_instructions_and_unstack_block branch_block_scope) (\<lambda>instructions.
       set_inst branch_block (Op_Block instructions (expr_span c))))))))))))))"

definition lower_while :: "sorted_insert \<Rightarrow> lower_methods \<Rightarrow> scope_id \<Rightarrow> expr while_node \<Rightarrow> instruction_ref low" where
  "lower_while I M block_scope w =
     (case w of While_Node _ _ c body sp \<Rightarrow>
        l_seq (check_label I block_scope (bl_label body))
        (l_bind (inst_id block_scope Op_Invalid) (\<lambda>loop_block.
         l_bind (stack_block block_scope (BK_Loop (Instruction loop_block) (bl_label body))) (\<lambda>loop_scope.
         l_seq (lower_while_exit M block_scope loop_scope loop_block c sp)
         (l_seq (lower_block I M loop_scope body)
         (l_seq (l_bind (ends_with_never loop_scope) (\<lambda>never. l_when (\<not> never) (inst loop_scope (Op_Repeat loop_block))))
         (l_bind (collect_instructions_and_unstack_block loop_scope) (\<lambda>instructions.
         l_seq (set_inst loop_block (Op_Loop instructions sp)) (l_ret (Instruction loop_block)))))))))) "

text \<open>The body of a case, in a scope that has just been stacked, and the break that ends it.\<close>

definition lower_case_body ::
  "sorted_insert \<Rightarrow> lower_methods \<Rightarrow> scope_id \<Rightarrow> scope_id \<Rightarrow> instruction_id \<Rightarrow> expr switch_body \<Rightarrow> expr_context \<Rightarrow> instruction_id list low" where
  "lower_case_body I M scope body_scope switch_block body ctx =
     l_bind (lower_switch_body I M body_scope body ctx) (\<lambda>(val, value_span).
     l_seq (break_unless_never scope switch_block val value_span) (collect_instructions_and_unstack_block scope))"

definition lower_single_case ::
  "sorted_insert \<Rightarrow> lower_methods \<Rightarrow> scope_id \<Rightarrow> scope_id \<Rightarrow> instruction_id \<Rightarrow> instruction_ref \<Rightarrow> expr_context \<Rightarrow>
    node_id \<Rightarrow> expr \<Rightarrow> ident option \<Rightarrow> expr switch_body \<Rightarrow> span \<Rightarrow> switch_single_case low" where
  "lower_single_case I M block_scope switch_scope switch_block operand ctx case_id pat capture body sp =
     l_bind (lk_expr M switch_scope pat RL_None) (\<lambda>pattern.
     l_bind (stack_block block_scope (BK_Branch (Instruction switch_block))) (\<lambda>scope.
     l_bind (case capture of
               Some c \<Rightarrow>
                 l_bind (inst scope (Op_SwitchCapture operand pattern (id_span c))) (\<lambda>capture_ref.
                   push_scope (Scope_LocalValue scope (id_symbol c) case_id capture_ref None))
             | None \<Rightarrow> l_ret scope) (\<lambda>body_scope.
     l_bind (lower_case_body I M scope body_scope switch_block body ctx) (\<lambda>body.
       l_ret \<lparr>ssc_pattern = pattern, ssc_capture = capture, ssc_body = body, ssc_span = sp, ssc_pattern_span = expr_span pat\<rparr>))))"

definition lower_multi_case ::
  "sorted_insert \<Rightarrow> lower_methods \<Rightarrow> scope_id \<Rightarrow> scope_id \<Rightarrow> instruction_id \<Rightarrow> expr_context \<Rightarrow>
    expr list \<Rightarrow> ident option \<Rightarrow> expr switch_body \<Rightarrow> span \<Rightarrow> switch_multi_case low" where
  "lower_multi_case I M block_scope switch_scope switch_block ctx patterns capture body sp =
     l_seq (case capture of
              Some c \<Rightarrow> l_error (diag_at I ''captures are not supported on multi-pattern switch cases'' (id_span c))
            | None \<Rightarrow> l_ret ())
     (l_bind (stack_block block_scope (BK_Branch (Instruction switch_block))) (\<lambda>scope.
      l_bind (lower_case_body I M scope scope switch_block body ctx) (\<lambda>body.
      l_bind (l_map (\<lambda>p. lk_expr M switch_scope p RL_None) patterns) (\<lambda>items.
        l_ret \<lparr>smc_items = items, smc_body = body, smc_span = sp,
               smc_patterns_span = foldl (\<lambda>a p. span_join a (expr_span p)) (expr_span (hd patterns)) patterns\<rparr>))))"

definition lower_switch_case ::
  "sorted_insert \<Rightarrow> lower_methods \<Rightarrow> scope_id \<Rightarrow> scope_id \<Rightarrow> instruction_id \<Rightarrow> instruction_ref \<Rightarrow> expr_context \<Rightarrow>
    expr switch_case \<Rightarrow> (switch_single_case + switch_multi_case) low" where
  "lower_switch_case I M block_scope switch_scope switch_block operand ctx c =
     (case c of SwitchCase case_id patterns capture body sp \<Rightarrow>
        (case patterns of
           [] \<Rightarrow> l_panic Lf_NoPatterns
         | [pat] \<Rightarrow>
             l_bind (lower_single_case I M block_scope switch_scope switch_block operand ctx case_id pat capture body sp) (\<lambda>x. l_ret (Inl x))
         | _ \<Rightarrow>
             l_bind (lower_multi_case I M block_scope switch_scope switch_block ctx patterns capture body sp) (\<lambda>x. l_ret (Inr x))))"

definition lower_switch :: "sorted_insert \<Rightarrow> lower_methods \<Rightarrow> scope_id \<Rightarrow> expr switch_node \<Rightarrow> expr_context \<Rightarrow> instruction_ref low" where
  "lower_switch I M block_scope sw ctx =
     (case sw of Switch_Node _ label e cases _ else_body sp \<Rightarrow>
        l_seq (check_label I block_scope label)
        (l_bind (inst_id block_scope Op_Invalid) (\<lambda>switch_block.
         l_bind (stack_block block_scope (BK_Block (Instruction switch_block) label)) (\<lambda>switch_scope.
         l_bind (lk_expr M switch_scope e RL_None) (\<lambda>operand.
         l_seq (inst switch_scope (Op_TypeOf operand))
         (l_bind (coerce_ctx block_scope ctx) (\<lambda>case_ctx.
         l_bind (l_map (lower_switch_case I M block_scope switch_scope switch_block operand case_ctx) cases) (\<lambda>lowered.
         l_bind (l_opt (\<lambda>body.
                   l_bind (stack_block block_scope (BK_Branch (Instruction switch_block))) (\<lambda>scope.
                     lower_case_body I M scope scope switch_block body case_ctx)) else_body) (\<lambda>else_instructions.
         l_seq (inst switch_scope (Op_Switch operand [x. Inl x \<leftarrow> lowered] [x. Inr x \<leftarrow> lowered] else_instructions sp))
         (l_seq (if else_body = None then break_unless_never switch_scope switch_block (Interned Key_Void) sp else l_ret ())
         (l_bind (collect_instructions_and_unstack_block switch_scope) (\<lambda>instructions.
         l_seq (set_inst switch_block (Op_Block instructions sp)) (l_ret (Instruction switch_block)))))))))))))) "

definition lower_index :: "lower_methods \<Rightarrow> scope_id \<Rightarrow> expr index_node \<Rightarrow> span \<Rightarrow> expr_context \<Rightarrow> instruction_ref low" where
  "lower_index M block_scope ix sp ctx =
     (case ix of Index_Node collection k \<Rightarrow>
        l_bind (lk_expr M block_scope collection RL_GetAddressOf) (\<lambda>array.
        l_bind (case k of
                  Index_At e \<Rightarrow> lk_expr M block_scope e (RL_CoerceToTy (Interned (Key_Type Ty_Usize)))
                | _ \<Rightarrow> l_panic Lf_Todo) (\<lambda>index.
          if ctx = RL_GetAddressOf then inst block_scope (Op_ArrayIndexElemPtr array index sp)
          else l_bind (inst block_scope (Op_ArrayIndexElemVal array index sp)) (\<lambda>r. rvalue block_scope r ctx sp))))"

section \<open>Expressions\<close>

text \<open>The subexpressions of an expression; the order in which loops follow them downwards is well-founded.\<close>

definition expr_child :: "(expr \<times> expr) set" where
  "expr_child = {(c, e). c \<in> set_expr_kind (expr_kind e)}"

lemma wf_expr_child: "wf expr_child"
proof (rule wfUNIVI)
  fix P and x :: expr
  assume "\<forall>x. (\<forall>y. (y, x) \<in> expr_child \<longrightarrow> P y) \<longrightarrow> P x"
  then show "P x" by (induction x) (simp add: expr_child_def)
qed

function ungroup :: "expr \<Rightarrow> expr" where
  "ungroup e = (case expr_kind e of E_Group g \<Rightarrow> ungroup g | _ \<Rightarrow> e)"
  by pat_completeness auto
termination
  by (relation expr_child) (rule wf_expr_child, simp add: expr_child_def)

declare ungroup.simps [simp del]

datatype unary_layer = Layer_Pos span | Layer_Neg span | Layer_Not span | Layer_BitNot span

text \<open>The unary operators and groups around an expression, the innermost operator first, and the expression inside.\<close>

function unary_layers :: "expr \<Rightarrow> unary_layer list \<Rightarrow> expr \<times> unary_layer list" where
  "unary_layers e layers =
     (case expr_kind e of
        E_Group g \<Rightarrow> unary_layers g layers
      | E_Pos x \<Rightarrow> unary_layers x (Layer_Pos (expr_span e) # layers)
      | E_Neg x \<Rightarrow> unary_layers x (Layer_Neg (expr_span e) # layers)
      | E_Not x \<Rightarrow> unary_layers x (Layer_Not (expr_span e) # layers)
      | E_BitNot x \<Rightarrow> unary_layers x (Layer_BitNot (expr_span e) # layers)
      | _ \<Rightarrow> (e, layers))"
  by pat_completeness auto
termination
  by (relation "inv_image expr_child fst") (rule wf_inv_image [OF wf_expr_child], simp_all add: expr_child_def)

declare unary_layers.simps [simp del]

primrec apply_layers :: "scope_id \<Rightarrow> instruction_ref \<Rightarrow> unary_layer list \<Rightarrow> instruction_ref low" where
  "apply_layers block_scope r [] = l_ret r"
| "apply_layers block_scope r (layer # layers) =
     l_bind (case layer of
               Layer_Pos _ \<Rightarrow> l_ret r
             | Layer_Neg sp \<Rightarrow> inst block_scope (Op_Negate r sp)
             | Layer_Not sp \<Rightarrow> inst block_scope (Op_BoolNot r sp)
             | Layer_BitNot sp \<Rightarrow> inst block_scope (Op_BitNot r sp))
       (\<lambda>r. apply_layers block_scope r layers)"

definition try_lower_linear_unary_expr :: "lower_methods \<Rightarrow> scope_id \<Rightarrow> expr \<Rightarrow> expr_context \<Rightarrow> instruction_ref option low" where
  "try_lower_linear_unary_expr M block_scope e ctx =
     (case unary_layers e [] of (current, layers) \<Rightarrow>
        if layers = [] then l_ret None
        else l_bind (lk_expr M block_scope current RL_None) (\<lambda>r.
             l_bind (apply_layers block_scope r layers) (\<lambda>r.
             l_bind (rvalue block_scope r ctx (expr_span e)) (\<lambda>r. l_ret (Some r)))))"

definition lower_expr_arm :: "sorted_insert \<Rightarrow> lower_methods \<Rightarrow> scope_id \<Rightarrow> expr \<Rightarrow> expr_context \<Rightarrow> arm low" where
  "lower_expr_arm I M block_scope e ctx =
     (let sp = expr_span e in
      case expr_kind e of
        E_FnCall call \<Rightarrow> lower_fn_call I M block_scope call sp ctx
      | E_FieldAccess fa \<Rightarrow> arm_return (lower_field_access M block_scope fa ctx)
      | E_Ident name \<Rightarrow>
          l_bind (lower_ident I block_scope name ctx sp) (\<lambda>r.
            (case r of Some r \<Rightarrow> l_ret (Arm_Return r) | None \<Rightarrow> arm_return (inst_invalid block_scope)))
      | E_Lit l \<Rightarrow> arm_value (lower_lit l)
      | E_Undefined \<Rightarrow>
          l_bind (try_lower_coerce_into_result_loc_expected_ty block_scope ctx) (\<lambda>ty.
            arm_value (inst block_scope (Op_Undefined ty sp)))
      | E_Bin bop lhs rhs \<Rightarrow>
          l_bind (lk_expr M block_scope lhs RL_None) (\<lambda>l.
          l_bind (lk_expr M block_scope rhs RL_None) (\<lambda>r.
            arm_value (inst block_scope (Op_Bin bop l r sp))))
      | E_Type ty \<Rightarrow> arm_value (lower_type I M block_scope ty Nm_Anonymous sp)
      | E_StructInit si \<Rightarrow> arm_value (lower_struct_init I M block_scope si sp ctx)
      | E_ArrayInit ai \<Rightarrow> arm_value (lower_array_init I M block_scope ai sp ctx)
      | E_If i \<Rightarrow> arm_value (lower_expr_if I M i block_scope ctx)
      | E_Block b \<Rightarrow> arm_value (lower_block_expr I M block_scope False b)
      | E_Loop b \<Rightarrow> arm_value (lower_block_expr I M block_scope True b)
      | E_While w \<Rightarrow> arm_value (lower_while I M block_scope w)
      | E_AddressOf x \<Rightarrow> arm_return (lk_expr M block_scope x RL_GetAddressOf)
      | E_Deref x \<Rightarrow>
          if ctx = RL_GetAddressOf then arm_return (lk_expr M block_scope x RL_None)
          else l_bind (lk_expr M block_scope x RL_None) (\<lambda>r. arm_value (inst block_scope (Op_Load r (expr_span x))))
      | E_BitNot x \<Rightarrow> l_bind (lk_expr M block_scope x RL_None) (\<lambda>r. arm_value (inst block_scope (Op_BitNot r sp)))
      | E_Neg x \<Rightarrow>
          (case expr_kind x of
             E_Lit (Lit_Integer symbol r suffix) \<Rightarrow> arm_value (lower_lit_int_inst symbol r suffix False)
           | _ \<Rightarrow> l_bind (lk_expr M block_scope x RL_None) (\<lambda>r. arm_value (inst block_scope (Op_Negate r sp))))
      | E_Not x \<Rightarrow> l_bind (lk_expr M block_scope x RL_None) (\<lambda>r. arm_value (inst block_scope (Op_BoolNot r sp)))
      | E_Switch sw \<Rightarrow> arm_value (lower_switch I M block_scope sw ctx)
      | E_Index ix \<Rightarrow> arm_return (lower_index M block_scope ix sp ctx)
      | E_Discard \<Rightarrow> l_seq (l_error (diag_at I ''unexpected discard'' sp)) (l_ret (Arm_Return (Interned Key_Unreachable)))
      | _ \<Rightarrow> l_panic Lf_Todo)"

definition lower_expr :: "sorted_insert \<Rightarrow> lower_methods \<Rightarrow> scope_id \<Rightarrow> expr \<Rightarrow> expr_context \<Rightarrow> instruction_ref low" where
  "lower_expr I M block_scope e ctx =
     l_bind (try_lower_linear_unary_expr M block_scope e ctx) (\<lambda>r.
       (case r of
          Some r \<Rightarrow> l_ret r
        | None \<Rightarrow>
            l_bind (lower_expr_arm I M block_scope (ungroup e) ctx) (\<lambda>a.
              (case a of Arm_Return r \<Rightarrow> l_ret r | Arm_Value r \<Rightarrow> rvalue block_scope r ctx (expr_span (ungroup e))))))"

section \<open>The knot and the module\<close>

primrec lower_methods :: "sorted_insert \<Rightarrow> nat \<Rightarrow> lower_methods" where
  "lower_methods I 0 =
     \<lparr>lk_expr = \<lambda>_ _ _. l_depth, lk_type = \<lambda>_ _ _ _. l_depth, lk_struct = \<lambda>_ _ _. l_depth, lk_enum = \<lambda>_ _ _. l_depth\<rparr>"
| "lower_methods I (Suc n) =
     \<lparr>lk_expr = lower_expr I (lower_methods I n), lk_type = lower_type I (lower_methods I n),
      lk_struct = lower_struct I (lower_methods I n), lk_enum = lower_enum I (lower_methods I n)\<rparr>"

datatype lower_outcome = Vuir_Depth | Vuir_Panic low_fault | Vuir_Ok vuir | Vuir_Err "diagnostic list"

definition lower_module :: "sorted_insert \<Rightarrow> nat \<Rightarrow> module_kind \<Rightarrow> unit low" where
  "lower_module I depth ast =
     l_bind (l_gets lw_uir_scopes_instructions) (\<lambda>uir.
     l_bind (push_scope (Scope_Block None (length uir) BK_Body)) (\<lambda>scope.
     l_seq (case ast of
              Module_StructDecl st \<Rightarrow> l_seq (lower_struct I (lower_methods I depth) scope st Nm_FromDecl) (l_ret ())
            | _ \<Rightarrow> l_panic Lf_Todo)
       (unstack_block scope)))"

function compute_line_starts_loop :: "memx \<Rightarrow> byte list \<Rightarrow> nat \<Rightarrow> nat list" where
  "compute_line_starts_loop M src off =
     (if off < length src
      then (case memchr M (drop off src) (CHR 0x0A) of
              Some pos \<Rightarrow> (off + (pos + 1)) # compute_line_starts_loop M src (off + (pos + 1))
            | None \<Rightarrow> [])
      else [])"
  by pat_completeness auto
termination
  by (relation "measure (\<lambda>(_, src, off). length src - off)") auto

declare compute_line_starts_loop.simps [simp del]

definition compute_line_starts :: "memx \<Rightarrow> byte list \<Rightarrow> nat list" where
  "compute_line_starts M src = 0 # compute_line_starts_loop M src 0"

definition lowerer_new :: "memx \<Rightarrow> byte list \<Rightarrow> module_id \<Rightarrow> lowerer" where
  "lowerer_new X src m =
     \<lparr>lw_module_id = m, lw_uir_scopes_instructions = [], lw_instructions = [], lw_scopes = [], lw_errors = [],
      lw_line_starts = compute_line_starts X src, lw_imports = [], lw_fn_body_root_scope = None, lw_flags = []\<rparr>"

definition to_vuir :: "sorted_insert \<Rightarrow> memx \<Rightarrow> nat \<Rightarrow> byte list \<Rightarrow> module_id \<Rightarrow> module_kind \<Rightarrow> lower_outcome" where
  "to_vuir I X depth src m ast =
     (case lower_module I depth ast (lowerer_new X src m) of
        LowDepth \<Rightarrow> Vuir_Depth
      | LowPanic e \<Rightarrow> Vuir_Panic e
      | LowDone _ s \<Rightarrow>
          if lw_errors s = [] then Vuir_Ok \<lparr>vuir_instructions = lw_instructions s, vuir_imports = lw_imports s\<rparr>
          else Vuir_Err (lw_errors s))"

end
