(* ===== verification/Vif_Lower_Rules.thy ===== *)
theory Vif_Lower_Rules
  imports Vif_Lower_Expr
begin

text \<open>
  A program logic for lowering. \<open>lowers m s Q\<close> says that \<open>m\<close> does not run out of depth from \<open>s\<close>, panics only for a reason
  that lies in the input, and returns only what satisfies \<open>Q\<close>. The assertion \<open>at P R sh u k s\<close> describes a state: the
  scope stack is \<open>sh\<close> up to captures, the ids in \<open>R\<close> are instructions, only the ids in \<open>P\<close> may still be placeholders unless an
  error was reported, at least \<open>u\<close> instructions are stacked, and \<open>k\<close> flags are alive. Every rule states the next assertion
  explicitly, so the proofs of the methods follow the code.
\<close>

named_theorems low_rules \<open>rules for the operations of the lowerer\<close>

section \<open>Assertions\<close>

definition input_fault :: "low_fault \<Rightarrow> bool" where
  "input_fault f \<longleftrightarrow>
     f \<in> {Lf_Todo, Lf_Errdefer, Lf_ReturnOutsideFunction, Lf_NoArrayLen, Lf_BadInt, Lf_BadFloat, Lf_NoPatterns, Lf_IdsExhausted}"

definition lowers :: "'a low \<Rightarrow> lowerer \<Rightarrow> ('a \<Rightarrow> lowerer \<Rightarrow> bool) \<Rightarrow> bool" where
  "lowers m s Q = (case m s of LowDepth \<Rightarrow> False | LowPanic f \<Rightarrow> input_fault f | LowDone x s' \<Rightarrow> Q x s')"

text \<open>A scope without its captures, and the instructions it mentions.\<close>

definition bare :: "scope \<Rightarrow> scope" where
  "bare sc = (case sc of Scope_Namespace p d _ \<Rightarrow> Scope_Namespace p d [] | _ \<Rightarrow> sc)"

definition kind_ids :: "block_kind \<Rightarrow> instruction_id set" where
  "kind_ids bk = (case bk of BK_Body \<Rightarrow> {} | BK_Block r _ \<Rightarrow> set (ref_ids r) | BK_Branch r \<Rightarrow> set (ref_ids r) | BK_Loop r _ \<Rightarrow> set (ref_ids r))"

definition scope_ids :: "scope \<Rightarrow> instruction_id set" where
  "scope_ids sc =
     (case sc of
        Scope_Namespace _ _ _ \<Rightarrow> {}
      | Scope_LocalStackAllocated _ _ _ r \<Rightarrow> set (ref_ids r)
      | Scope_LocalValue _ _ _ r _ \<Rightarrow> set (ref_ids r)
      | Scope_Block _ _ bk \<Rightarrow> kind_ids bk
      | Scope_Defer _ is _ \<Rightarrow> set is)"

definition shape_ids :: "scope list \<Rightarrow> instruction_id set" where
  "shape_ids sh = (\<Union>sc \<in> set sh. scope_ids sc)"

definition caps_ids :: "scope \<Rightarrow> instruction_id set" where
  "caps_ids sc = (case sc of Scope_Namespace _ _ cs \<Rightarrow> (\<Union>c \<in> set cs. set (capture_ids c)) | _ \<Rightarrow> {})"

definition block_starts :: "scope list \<Rightarrow> nat list" where
  "block_starts sh = [st. Scope_Block _ st _ \<leftarrow> sh]"

definition is_ns :: "scope \<Rightarrow> bool" where
  "is_ns sc = (case sc of Scope_Namespace _ _ _ \<Rightarrow> True | _ \<Rightarrow> False)"

definition is_blk :: "scope \<Rightarrow> bool" where
  "is_blk sc = (case sc of Scope_Block _ _ _ \<Rightarrow> True | _ \<Rightarrow> False)"

text \<open>The targets of jumps are instructions, and pointers point to live flags.\<close>

definition scope_ok :: "nat \<Rightarrow> scope \<Rightarrow> bool" where
  "scope_ok k sc =
     (case sc of
        Scope_LocalValue _ _ _ _ (Some f) \<Rightarrow> f < k
      | Scope_Block _ _ (BK_Block r _) \<Rightarrow> as_id r \<noteq> None
      | Scope_Block _ _ (BK_Loop r _) \<Rightarrow> as_id r \<noteq> None
      | _ \<Rightarrow> True)"

text \<open>Parents stand below their children, and blocks start in the order in which they are stacked.\<close>

definition parents_ok :: "scope list \<Rightarrow> bool" where
  "parents_ok sh \<longleftrightarrow> (\<forall>i < length sh. \<forall>p. scope_parent (sh ! i) = Some p \<longrightarrow> p < i)"

definition tree_ok :: "nat \<Rightarrow> scope list \<Rightarrow> bool" where
  "tree_ok k sh \<longleftrightarrow> parents_ok sh \<and> list_all (scope_ok k) sh \<and> sorted (block_starts sh)"

definition at :: "nat set \<Rightarrow> nat set \<Rightarrow> scope list \<Rightarrow> nat \<Rightarrow> nat \<Rightarrow> lowerer \<Rightarrow> bool" where
  "at P R sh u k s \<longleftrightarrow>
     map bare (lw_scopes s) = sh \<and> tree_ok k sh \<and> shape_ids sh \<subseteq> R \<and> R \<subseteq> {..<length (lw_instructions s)} \<and>
     length (lw_instructions s) < 2 ^ 32 \<and> opcodes_ok (lw_instructions s) \<and>
     u \<le> length (lw_uir_scopes_instructions s) \<and> (\<forall>st \<in> set (block_starts sh). st \<le> length (lw_uir_scopes_instructions s)) \<and>
     below (length (lw_instructions s)) (lw_uir_scopes_instructions s) \<and>
     (\<forall>sc \<in> set (lw_scopes s). caps_ids sc \<subseteq> {..<length (lw_instructions s)}) \<and>
     length (lw_flags s) = k \<and> (\<exists>rest. lw_line_starts s = 0 # rest) \<and>
     (lw_errors s = [] \<longrightarrow> (\<forall>i < length (lw_instructions s). lw_instructions s ! i = Op_Invalid \<longrightarrow> i \<in> P))"

definition usable :: "scope list \<Rightarrow> scope_id \<Rightarrow> bool" where
  "usable sh b \<longleftrightarrow> b < length sh \<and> \<not> is_ns (sh ! b)"

definition block_at :: "scope list \<Rightarrow> scope_id \<Rightarrow> bool" where
  "block_at sh b \<longleftrightarrow> b < length sh \<and> is_blk (sh ! b)"

definition local_scope :: "scope \<Rightarrow> bool" where
  "local_scope sc \<longleftrightarrow> \<not> is_ns sc \<and> \<not> is_blk sc"

definition ctx_ids :: "expr_context \<Rightarrow> instruction_id set" where
  "ctx_ids ctx =
     (case ctx of
        RL_CoerceToTy r \<Rightarrow> set (ref_ids r) | RL_StoreToPtr r _ \<Rightarrow> set (ref_ids r) | RL_StoreToInferredPtr r _ \<Rightarrow> set (ref_ids r)
      | _ \<Rightarrow> {})"

section \<open>Laws of assertions\<close>

lemma below_set: "below n is \<longleftrightarrow> set is \<subseteq> {..<n}"
  by (auto simp: below_def list_all_iff)

lemma ref_ids_simps [simp]: "ref_ids (Instruction i) = [i]" "ref_ids (Interned v) = []"
  by (simp_all add: ref_ids_def)

lemma ctx_ids_simps [simp]:
  "ctx_ids RL_None = {}" "ctx_ids RL_GetAddressOf = {}" "ctx_ids (RL_CoerceToTy r) = set (ref_ids r)"
  "ctx_ids (RL_StoreToPtr r sp) = set (ref_ids r)" "ctx_ids (RL_StoreToInferredPtr r sp) = set (ref_ids r)"
  by (simp_all add: ctx_ids_def)

lemma shape_ids_simps [simp]:
  "shape_ids [] = {}" "shape_ids (x # xs) = scope_ids x \<union> shape_ids xs" "shape_ids (xs @ ys) = shape_ids xs \<union> shape_ids ys"
  by (auto simp: shape_ids_def)

lemma scope_ids_simps [simp]:
  "scope_ids (Scope_Namespace p d cs) = {}" "scope_ids (Scope_LocalStackAllocated q n i r) = set (ref_ids r)"
  "scope_ids (Scope_LocalValue q n i r f) = set (ref_ids r)" "scope_ids (Scope_Block p st bk) = kind_ids bk"
  "scope_ids (Scope_Defer q is sp) = set is"
  by (simp_all add: scope_ids_def)

lemma kind_ids_simps [simp]:
  "kind_ids BK_Body = {}" "kind_ids (BK_Block r l) = set (ref_ids r)" "kind_ids (BK_Branch r) = set (ref_ids r)"
  "kind_ids (BK_Loop r l) = set (ref_ids r)"
  by (simp_all add: kind_ids_def)

lemma is_simps [simp]:
  "is_ns (Scope_Namespace p d cs)" "\<not> is_ns (Scope_LocalStackAllocated q n i r)" "\<not> is_ns (Scope_LocalValue q n i r f)"
  "\<not> is_ns (Scope_Block p st bk)" "\<not> is_ns (Scope_Defer q is sp)"
  "\<not> is_blk (Scope_Namespace p d cs)" "\<not> is_blk (Scope_LocalStackAllocated q n i r)" "\<not> is_blk (Scope_LocalValue q n i r f)"
  "is_blk (Scope_Block p st bk)" "\<not> is_blk (Scope_Defer q is sp)"
  by (simp_all add: is_ns_def is_blk_def)

lemma usable_simps [simp]:
  "usable sh b \<Longrightarrow> usable (sh @ xs) b" "usable (sh @ [x]) (length sh) \<longleftrightarrow> \<not> is_ns x"
  "block_at sh b \<Longrightarrow> block_at (sh @ xs) b" "block_at (sh @ [x]) (length sh) \<longleftrightarrow> is_blk x"
  "block_at (sh @ x # ys) (length sh) \<longleftrightarrow> is_blk x" "usable (sh @ x # ys) (length sh) \<longleftrightarrow> \<not> is_ns x"
  by (auto simp: usable_def block_at_def nth_append)

lemma block_usable: "block_at sh b \<Longrightarrow> usable sh b"
  by (auto simp: usable_def block_at_def is_ns_def is_blk_def split: scope.splits)

lemma usable_less: "usable sh b \<Longrightarrow> b < length sh" "block_at sh b \<Longrightarrow> b < length sh"
  by (auto simp: usable_def block_at_def)

lemma block_starts_simps [simp]:
  "block_starts [] = []" "block_starts (xs @ ys) = block_starts xs @ block_starts ys"
  "block_starts (Scope_Block p st bk # xs) = st # block_starts xs" "\<not> is_blk x \<Longrightarrow> block_starts (x # xs) = block_starts xs"
  by (auto simp: block_starts_def is_blk_def split: scope.splits)

lemma parents_ok_append: "parents_ok (xs @ ys) \<Longrightarrow> parents_ok xs"
  by (fastforce simp: parents_ok_def nth_append)

lemma parents_ok_snoc: "parents_ok (xs @ [x]) \<longleftrightarrow> parents_ok xs \<and> (\<forall>p. scope_parent x = Some p \<longrightarrow> p < length xs)"
  by (fastforce simp: parents_ok_def nth_append less_Suc_eq)

lemma tree_ok_append: "tree_ok k (xs @ ys) \<Longrightarrow> tree_ok k xs"
  using parents_ok_append by (auto simp: tree_ok_def sorted_append)

lemma bare_simps [simp]:
  "scope_parent (bare sc) = scope_parent sc" "scope_ids (bare sc) = scope_ids sc" "is_ns (bare sc) = is_ns sc" "is_blk (bare sc) = is_blk sc"
  "bare (Scope_Block p st bk) = Scope_Block p st bk" "bare (Scope_Namespace p d cs) = Scope_Namespace p d []"
  "bare (Scope_LocalStackAllocated q n i r) = Scope_LocalStackAllocated q n i r"
  "bare (Scope_LocalValue q n i r f) = Scope_LocalValue q n i r f" "bare (Scope_Defer q is sp) = Scope_Defer q is sp"
  by (auto simp: bare_def split: scope.splits)

lemma at_shape: "at P R sh u k s \<Longrightarrow> shape_ids sh \<subseteq> R"
  by (simp add: at_def)

lemma at_tree: "at P R sh u k s \<Longrightarrow> tree_ok k sh"
  by (simp add: at_def)

lemma at_scope: "at P R sh u k s \<Longrightarrow> i < length sh \<Longrightarrow> i < length (lw_scopes s) \<and> bare (lw_scopes s ! i) = sh ! i"
  by (auto simp: at_def)

lemma at_weaken: "at P R' sh u' k s \<Longrightarrow> R \<subseteq> R' \<Longrightarrow> shape_ids sh \<subseteq> R \<Longrightarrow> u \<le> u' \<Longrightarrow> at P R sh u k s"
  by (auto simp: at_def)

section \<open>Sequencing\<close>

lemma lowers_bind [low_rules]: "lowers m s (\<lambda>x s'. lowers (f x) s' Q) \<Longrightarrow> lowers (l_bind m f) s Q"
  by (auto simp: lowers_def l_bind_def split: low_result.splits)

lemma lowers_seq [low_rules]: "lowers m s (\<lambda>x s'. lowers n s' Q) \<Longrightarrow> lowers (l_seq m n) s Q"
  by (auto simp: lowers_def l_seq_def l_bind_def split: low_result.splits)

lemma lowers_ret [low_rules]: "Q x s \<Longrightarrow> lowers (l_ret x) s Q"
  by (simp add: lowers_def l_ret_def)

lemma lowers_panic [low_rules]: "input_fault f \<Longrightarrow> lowers (l_panic f) s Q"
  by (simp add: lowers_def l_panic_def)

lemma input_faults [simp]:
  "input_fault Lf_Todo" "input_fault Lf_Errdefer" "input_fault Lf_ReturnOutsideFunction" "input_fault Lf_NoArrayLen"
  "input_fault Lf_BadInt" "input_fault Lf_BadFloat" "input_fault Lf_NoPatterns" "input_fault Lf_IdsExhausted"
  by (simp_all add: input_fault_def)

lemma lowers_gets: "Q (f s) s \<Longrightarrow> lowers (l_gets f) s Q"
  by (simp add: lowers_def l_gets_def)

lemma lowers_when [low_rules]: "(c \<Longrightarrow> lowers m s (\<lambda>_ s'. Q () s')) \<Longrightarrow> (\<not> c \<Longrightarrow> Q () s) \<Longrightarrow> lowers (l_when c m) s Q"
  by (auto simp: l_when_def lowers_def l_seq_def l_bind_def l_ret_def split: low_result.splits)

lemma lowers_opt:
  assumes "\<And>a. x = Some a \<Longrightarrow> lowers (f a) s (\<lambda>b s'. Q (Some b) s')" and "x = None \<Longrightarrow> Q None s"
  shows "lowers (l_opt f x) s Q"
  using assms by (auto simp: l_opt_def lowers_def l_bind_def l_ret_def split: option.splits low_result.splits)

lemma lowers_map:
  assumes "at P R sh u k s"
    and "\<And>x R' s Q. x \<in> set xs \<Longrightarrow> at P R' sh u k s \<Longrightarrow> R \<subseteq> R' \<Longrightarrow> (\<And>y s'. at P (R' \<union> ids y) sh u k s' \<Longrightarrow> Q y s') \<Longrightarrow> lowers (f x) s Q"
    and "\<And>ys s'. at P (R \<union> (\<Union>y \<in> set ys. ids y)) sh u k s' \<Longrightarrow> Q ys s'"
  shows "lowers (l_map f xs) s Q"
  using assms
proof (induction xs arbitrary: s R Q)
  case Nil
  then show ?case by (auto intro!: low_rules)
next
  case (Cons x xs)
  show ?case unfolding l_map.simps
  proof (rule lowers_bind, rule Cons.prems(2) [of x R])
    fix y s' assume y: "at P (R \<union> ids y) sh u k s'"
    show "lowers (l_bind (l_map f xs) (\<lambda>ys. l_ret (y # ys))) s' Q"
    proof (rule lowers_bind, rule Cons.IH [OF y])
      fix ys s'' assume "at P (R \<union> ids y \<union> (\<Union>y \<in> set ys. ids y)) sh u k s''"
      then show "lowers (l_ret (y # ys)) s'' Q" by (intro lowers_ret Cons.prems(3)) (simp add: Un_assoc)
    qed (rule Cons.prems(2); auto)
  qed (use Cons.prems in auto)
qed

end
