(* ===== verification/Vif_Lower_Prims.thy ===== *)
theory Vif_Lower_Prims
  imports Vif_Lower_Rules
begin

text \<open>
  The rules of the logic for the operations on instructions and scopes.
\<close>

section \<open>Instructions\<close>

lemma id_step: "n < 2 ^ 32 \<Longrightarrow> instruction_id_from_usize n = Panics \<or> (instruction_id_from_usize n = Returns n \<and> Suc n < 2 ^ 32)"
proof -
  assume n: "n < 2 ^ 32"
  then have u: "unat (of_nat n :: u32) = n" by (simp add: unat_of_nat)
  show ?thesis
  proof (cases "(of_nat n :: u32) \<le> 0xfffffffe")
    case True
    then have "n \<le> 0xfffffffe" using u by (simp add: word_le_nat_alt)
    then show ?thesis using True u by (simp add: instruction_id_from_usize_def from_usize_def from_u32_def as_usize_def)
  next
    case False
    then show ?thesis by (simp add: instruction_id_from_usize_def from_usize_def from_u32_def)
  qed
qed

lemma opcodes_ok_snoc: "opcodes_ok ops \<Longrightarrow> below (Suc (length ops)) (opcode_ids p) \<Longrightarrow> opcodes_ok (ops @ [p])"
  by (auto simp: opcodes_ok_def list_all_iff intro: below_mono)

lemma opcodes_ok_update: "opcodes_ok ops \<Longrightarrow> below (length ops) (opcode_ids p) \<Longrightarrow> opcodes_ok (ops[i := p])"
  using set_update_subset_insert [of ops i p] by (auto simp: opcodes_ok_def list_all_iff)

lemma inst_id_at:
  assumes "at P R sh u k s" and "set (opcode_ids p) \<subseteq> R" and "P \<subseteq> P'"
    and "p = Op_Invalid \<Longrightarrow> length (lw_instructions s) \<in> P' \<or> lw_errors s \<noteq> []" and "Suc (length (lw_instructions s)) < 2 ^ 32"
  shows "at P' (insert (length (lw_instructions s)) R) sh u k (s\<lparr>lw_instructions := lw_instructions s @ [p],
            lw_uir_scopes_instructions := lw_uir_scopes_instructions s @ [length (lw_instructions s)]\<rparr>)"
proof -
  let ?n = "length (lw_instructions s)"
  have "below (Suc ?n) (opcode_ids p)" using assms(1,2) by (force simp: at_def below_set)
  then have "opcodes_ok (lw_instructions s @ [p])" using assms(1) opcodes_ok_snoc by (auto simp: at_def)
  moreover have "below (Suc ?n) (lw_uir_scopes_instructions s @ [?n])" using assms(1) below_mono by (fastforce simp: at_def)
  moreover have "\<forall>sc \<in> set (lw_scopes s). caps_ids sc \<subseteq> {..<Suc ?n}" using assms(1) by (force simp: at_def)
  moreover have "lw_errors s = [] \<longrightarrow> (\<forall>i < Suc ?n. (lw_instructions s @ [p]) ! i = Op_Invalid \<longrightarrow> i \<in> P')"
    using assms(1,3,4) by (auto simp: at_def nth_append less_Suc_eq)
  moreover have "insert ?n R \<subseteq> {..<Suc ?n}" using assms(1) by (force simp: at_def)
  moreover have "\<forall>st \<in> set (block_starts sh). st \<le> Suc (length (lw_uir_scopes_instructions s))" using assms(1) by (force simp: at_def)
  ultimately show ?thesis using assms(1,5) by (simp add: at_def subset_insertI2)
qed

lemma lowers_new_inst:
  assumes "at P R sh u k s" and "set (opcode_ids p) \<subseteq> R" and "P \<subseteq> P'"
    and "p = Op_Invalid \<Longrightarrow> length (lw_instructions s) \<in> P' \<or> lw_errors s \<noteq> []"
    and "\<And>s'. at P' (insert (length (lw_instructions s)) R) sh u k s' \<Longrightarrow> Q (length (lw_instructions s)) s'"
  shows "lowers (inst_id b p) s Q"
proof -
  have "length (lw_instructions s) < 2 ^ 32" using assms(1) by (simp add: at_def)
  from id_step [OF this] show ?thesis
    using assms(5) [OF inst_id_at [OF assms(1-4)]] by (auto simp: lowers_def inst_id_def)
qed

lemma lowers_inst_id:
  assumes "at P R sh u k s" and "set (opcode_ids p) \<subseteq> R" and "p \<noteq> Op_Invalid"
    and "\<And>i s'. at P (insert i R) sh u k s' \<Longrightarrow> Q i s'"
  shows "lowers (inst_id b p) s Q"
  by (rule lowers_new_inst [OF assms(1,2) order_refl]) (use assms in auto)

lemma lowers_placeholder [low_rules]:
  assumes "at P R sh u k s" and "\<And>i s'. at (insert i P) (insert i R) sh u k s' \<Longrightarrow> Q i s'"
  shows "lowers (inst_id b Op_Invalid) s Q"
  by (rule lowers_new_inst [OF assms(1), of _ "insert (length (lw_instructions s)) P"]) (use assms in auto)

lemma lowers_inst [low_rules]:
  assumes "at P R sh u k s" and "set (opcode_ids p) \<subseteq> R" and "p \<noteq> Op_Invalid"
    and "\<And>i s'. at P (insert i R) sh u k s' \<Longrightarrow> Q (Instruction i) s'"
  shows "lowers (inst b p) s Q"
  unfolding inst_def by (rule lowers_bind, rule lowers_inst_id [OF assms(1-3)], rule lowers_ret, rule assms(4))

lemma lowers_inst_invalid:
  assumes "at P R sh u k s" and "lw_errors s \<noteq> []" and "\<And>i s'. at P (insert i R) sh u k s' \<Longrightarrow> Q (Instruction i) s'"
  shows "lowers (inst b Op_Invalid) s Q"
  unfolding inst_def by (rule lowers_bind, rule lowers_new_inst [OF assms(1) _ order_refl]) (use assms in \<open>auto intro: lowers_ret\<close>)

lemma lowers_set_inst [low_rules]:
  assumes "at (insert i P) R sh u k s" and "i \<in> R" and "set (opcode_ids p) \<subseteq> R" and "p \<noteq> Op_Invalid"
    and "\<And>s'. at P R sh u k s' \<Longrightarrow> Q () s'"
  shows "lowers (set_inst i p) s Q"
proof -
  have i: "i < length (lw_instructions s)" "below (length (lw_instructions s)) (opcode_ids p)"
    using assms(1-3) by (auto simp: at_def below_set)
  have "lw_errors s = [] \<longrightarrow> (\<forall>j < length (lw_instructions s). (lw_instructions s)[i := p] ! j = Op_Invalid \<longrightarrow> j \<in> P)"
  proof (intro impI allI)
    fix j assume j: "lw_errors s = []" "j < length (lw_instructions s)" "(lw_instructions s)[i := p] ! j = Op_Invalid"
    then have "j \<noteq> i" using assms(4) by auto
    moreover have "\<forall>j < length (lw_instructions s). lw_instructions s ! j = Op_Invalid \<longrightarrow> j \<in> insert i P"
      using assms(1) j(1) by (simp add: at_def)
    ultimately show "j \<in> P" using j by auto
  qed
  then have "at P R sh u k (s\<lparr>lw_instructions := (lw_instructions s)[i := p]\<rparr>)"
    using assms(1) opcodes_ok_update [OF _ i(2), of i] by (simp add: at_def)
  then show ?thesis using i(1) assms(5) by (simp add: lowers_def set_inst_def)
qed

lemma lowers_error [low_rules]:
  assumes "at P R sh u k s" and "\<And>s'. at P R sh u k s' \<Longrightarrow> lw_errors s' \<noteq> [] \<Longrightarrow> Q () s'"
  shows "lowers (l_error f) s Q"
proof -
  have "at P R sh u k (s\<lparr>lw_errors := lw_errors s @ [f (lw_module_id s)]\<rparr>)" using assms(1) by (simp add: at_def)
  then show ?thesis using assms(2) by (simp add: lowers_def l_error_def)
qed

section \<open>Scopes\<close>

lemma lowers_scope_at:
  assumes "at P R sh u k s" and "i < length sh" and "\<And>sc. bare sc = sh ! i \<Longrightarrow> sc \<in> set (lw_scopes s) \<Longrightarrow> Q sc s"
  shows "lowers (scope_at i) s Q"
  using at_scope [OF assms(1,2)] assms(3)
  by (simp add: lowers_def scope_at_def l_bind_def l_gets_def l_nth_def l_ret_def)

lemma at_push:
  assumes "at P R sh u k s" and "scope_ids sc \<subseteq> R" and "scope_ok k sc" and "\<And>p. scope_parent sc = Some p \<Longrightarrow> p < length sh"
    and "\<not> is_blk sc" and "caps_ids sc = {}"
  shows "at P R (sh @ [bare sc]) u k (s\<lparr>lw_scopes := lw_scopes s @ [sc]\<rparr>)"
proof -
  have "scope_ok k (bare sc)" using assms(3) by (auto simp: scope_ok_def bare_def split: scope.splits)
  then have "tree_ok k (sh @ [bare sc])"
    using assms(1,4,5) by (auto simp: at_def tree_ok_def parents_ok_snoc)
  then show ?thesis using assms by (auto simp: at_def)
qed

lemma lowers_push_scope [low_rules]:
  assumes "at P R sh u k s" and "scope_ids sc \<subseteq> R" and "scope_ok k sc" and "\<forall>p. scope_parent sc = Some p \<longrightarrow> p < length sh"
    and "\<not> is_blk sc" and "caps_ids sc = {}"
    and "\<And>s'. at P R (sh @ [bare sc]) u k s' \<Longrightarrow> Q (length sh) s'"
  shows "lowers (push_scope sc) s Q"
proof -
  have "length (lw_scopes s) = length sh" using assms(1) by (auto simp: at_def)
  then show ?thesis using at_push [OF assms(1-3)] assms by (simp add: lowers_def push_scope_def)
qed

lemma lowers_pop_scope [low_rules]:
  assumes "at P R (sh @ [x]) u k s" and "\<And>s'. at P R sh u k s' \<Longrightarrow> Q () s'"
  shows "lowers pop_scope s Q"
proof -
  have "map bare (butlast (lw_scopes s)) = sh" using assms(1) by (simp add: at_def map_butlast)
  then have "at P R sh u k (s\<lparr>lw_scopes := butlast (lw_scopes s)\<rparr>)"
    using assms(1) tree_ok_append by (auto simp: at_def dest: in_set_butlastD)
  then show ?thesis using assms(2) by (simp add: lowers_def pop_scope_def)
qed

lemma lowers_stack_block [low_rules]:
  assumes "at P R sh u k s" and "b < length sh" and "kind_ids bk \<subseteq> R" and "scope_ok k (Scope_Block (Some b) 0 bk)"
    and "\<And>st s'. u \<le> st \<Longrightarrow> at P R (sh @ [Scope_Block (Some b) st bk]) st k s' \<Longrightarrow> Q (length sh) s'"
  shows "lowers (stack_block b bk) s Q"
proof -
  let ?st = "length (lw_uir_scopes_instructions s)"
  have "scope_ok k (Scope_Block (Some b) ?st bk)" using assms(4) by (auto simp: scope_ok_def split: block_kind.splits)
  then have "tree_ok k (sh @ [Scope_Block (Some b) ?st bk])"
    using assms(1,2) by (auto simp: at_def tree_ok_def parents_ok_snoc sorted_append)
  then have "at P R (sh @ [Scope_Block (Some b) ?st bk]) ?st k (s\<lparr>lw_scopes := lw_scopes s @ [Scope_Block (Some b) ?st bk]\<rparr>)"
    using assms(1,3) by (auto simp: at_def caps_ids_def)
  moreover have "u \<le> ?st" "length (lw_scopes s) = length sh" using assms(1) by (auto simp: at_def)
  ultimately show ?thesis using assms(5)
    by (simp add: lowers_def stack_block_def push_scope_def l_bind_def l_gets_def)
qed

lemma unstack_scopes_locals: "list_all (\<lambda>sc. \<not> is_blk sc) xs \<Longrightarrow> unstack_scopes b (xs @ ys) = unstack_scopes b ys"
proof (induction xs)
  case (Cons x xs)
  then show ?case by (cases x) simp_all
qed simp

lemma at_split:
  assumes "at P R (sh @ x # ext) u k s"
  obtains ss y ys where "lw_scopes s = ss @ y # ys" "map bare ss = sh" "bare y = x" "map bare ys = ext"
  using assms by (auto simp: at_def map_eq_append_conv map_eq_Cons_conv)

lemma bare_block: "bare y = Scope_Block p st bk \<longleftrightarrow> y = Scope_Block p st bk"
  by (auto simp: bare_def split: scope.splits)

lemma lowers_unstack_block:
  assumes "at P R (sh @ Scope_Block p st bk # ext) u k s" and "list_all local_scope ext"
    and "\<And>s'. at P R sh st k s' \<Longrightarrow> Q () s'"
  shows "lowers (unstack_block (length sh)) s Q"
proof -
  obtain ss ys where ss: "lw_scopes s = ss @ Scope_Block p st bk # ys" "map bare ss = sh" "map bare ys = ext"
    using at_split [OF assms(1)] bare_block by metis
  have st: "st \<le> length (lw_uir_scopes_instructions s)" "\<forall>t \<in> set (block_starts sh). t \<le> st"
    using assms(1) by (auto simp: at_def tree_ok_def sorted_append)
  have "list_all (\<lambda>sc. \<not> is_blk sc) (rev ys)"
    using assms(2) ss(3) by (auto simp: list_all_iff local_scope_def)
  then have "unstack_scopes (length sh) (rev (lw_scopes s)) = Inr (st, rev ss)"
    using ss by (auto simp: unstack_scopes_locals)
  moreover have "at P R sh st k (s\<lparr>lw_scopes := ss, lw_uir_scopes_instructions := take st (lw_uir_scopes_instructions s)\<rparr>)"
    using assms(1) ss st tree_ok_append [of k sh] by (auto simp: at_def below_set dest: in_set_takeD)
  ultimately show ?thesis using st assms(3) by (simp add: lowers_def unstack_block_def)
qed

lemma lowers_block_instructions:
  assumes "at P R sh u k s" and "block_at sh b"
    and "\<And>p st bk is. sh ! b = Scope_Block p st bk \<Longrightarrow> set is \<subseteq> {..<length (lw_instructions s)} \<Longrightarrow>
      lw_scopes s ! b = Scope_Block p st bk \<Longrightarrow> slice (lw_uir_scopes_instructions s) st (length (lw_uir_scopes_instructions s)) = Returns is \<Longrightarrow> thesis"
  shows thesis
proof -
  obtain p st bk where sc: "sh ! b = Scope_Block p st bk" "lw_scopes s ! b = Scope_Block p st bk"
    using assms(1,2) at_scope [OF assms(1), of b] bare_block
    by (auto simp: block_at_def is_blk_def split: scope.splits)
  have b: "b < length sh" using assms(2) by (simp add: block_at_def)
  have "st \<in> set (block_starts sh)"
    using sc b nth_mem [OF b] by (force simp: block_starts_def)
  then have "st \<le> length (lw_uir_scopes_instructions s)" using assms(1) by (auto simp: at_def)
  then have "slice (lw_uir_scopes_instructions s) st (length (lw_uir_scopes_instructions s)) = Returns (drop st (lw_uir_scopes_instructions s))"
    by (simp add: slice_def)
  moreover have "set (drop st (lw_uir_scopes_instructions s)) \<subseteq> {..<length (lw_instructions s)}"
    using assms(1) set_drop_subset [of st "lw_uir_scopes_instructions s"] by (auto simp: at_def below_set)
  ultimately show ?thesis using assms(3) sc by blast
qed

lemma lowers_ends_with_never [low_rules]:
  assumes "at P R sh u k s" and "block_at sh b" and "\<And>never. Q never s"
  shows "lowers (ends_with_never b) s Q"
proof -
  obtain p st bk "is" where b: "set is \<subseteq> {..<length (lw_instructions s)}" "lw_scopes s ! b = Scope_Block p st bk"
    "slice (lw_uir_scopes_instructions s) st (length (lw_uir_scopes_instructions s)) = Returns is"
    using lowers_block_instructions [OF assms(1,2)] by metis
  have "b < length (lw_scopes s)" using at_scope [OF assms(1)] assms(2) by (simp add: block_at_def)
  moreover have "is \<noteq> [] \<Longrightarrow> last is < length (lw_instructions s)" using b(1) last_in_set by blast
  ultimately show ?thesis using b assms(3)
    by (simp add: lowers_def ends_with_never_def last_instruction_def scope_at_def l_bind_def l_gets_def l_nth_def l_ret_def
        as_block_def l_slice_def split: outcome.splits)
qed

lemma lowers_collect:
  assumes "at P R (sh @ Scope_Block p st bk # ext) u k s" and "list_all local_scope ext"
    and "\<And>is s'. at P (R \<union> set is) sh st k s' \<Longrightarrow> Q is s'"
  shows "lowers (collect_instructions_and_unstack_block (length sh)) s Q"
proof -
  have "block_at (sh @ Scope_Block p st bk # ext) (length sh)" by (simp add: block_at_def)
  from lowers_block_instructions [OF assms(1) this] obtain p' st' bk' "is" where
    b: "set is \<subseteq> {..<length (lw_instructions s)}" "lw_scopes s ! length sh = Scope_Block p' st' bk'"
    "slice (lw_uir_scopes_instructions s) st' (length (lw_uir_scopes_instructions s)) = Returns is" by metis
  have l: "length sh < length (lw_scopes s)" using at_scope [OF assms(1), of "length sh"] by simp
  have "at P (R \<union> set is) (sh @ Scope_Block p st bk # ext) u k s" using assms(1) b(1) by (auto simp: at_def)
  from lowers_unstack_block [OF this assms(2), of "\<lambda>_. Q is"] assms(3)
  have "lowers (l_seq (unstack_block (length sh)) (l_ret is)) s Q" by (intro lowers_seq) (auto simp: lowers_def l_ret_def split: low_result.splits)
  then show ?thesis using b(2,3) l
    by (simp add: lowers_def collect_instructions_and_unstack_block_def scope_at_def l_bind_def l_gets_def l_nth_def l_ret_def
        as_block_def l_slice_def)
qed

lemma lowers_collect_simple [low_rules]:
  assumes "at P R (sh @ [Scope_Block p st bk]) u k s" and "\<And>is s'. at P (R \<union> set is) sh st k s' \<Longrightarrow> Q is s'"
  shows "lowers (collect_instructions_and_unstack_block (length sh)) s Q"
  using lowers_collect [of P R sh p st bk "[]"] assms by simp

lemma lowers_collect_locals:
  assumes "at P R ((sh @ [Scope_Block p st bk]) @ ext) u k s" and "list_all local_scope ext"
    and "\<And>is s'. at P (R \<union> set is) sh st k s' \<Longrightarrow> Q is s'"
  shows "lowers (collect_instructions_and_unstack_block (length sh)) s Q"
  using lowers_collect [of P R sh p st bk ext] assms by simp

section \<open>Flags\<close>

lemma at_flags: "at P R sh u k s \<Longrightarrow> length fs = k \<Longrightarrow> at P R sh u k (s\<lparr>lw_flags := fs\<rparr>)"
  by (simp add: at_def)

lemma lowers_write_flag:
  assumes "at P R sh u k s" and "\<And>i. p = Some i \<Longrightarrow> i < k" and "\<And>s'. at P R sh u k s' \<Longrightarrow> Q () s'"
  shows "lowers (write_flag p) s Q"
proof -
  have "length (lw_flags s) = k" using assms(1) by (simp add: at_def)
  then show ?thesis using assms at_flags [OF assms(1)] by (auto simp: lowers_def write_flag_def split: option.splits)
qed

lemma scope_ok_mono: "scope_ok k sc \<Longrightarrow> k \<le> k' \<Longrightarrow> scope_ok k' sc"
  by (auto simp: scope_ok_def split: scope.splits option.splits)

lemma lowers_alloc_flag [low_rules]:
  assumes "at P R sh u k s" and "\<And>s'. at P R sh u (Suc k) s' \<Longrightarrow> Q k s'"
  shows "lowers alloc_flag s Q"
proof -
  have "tree_ok (Suc k) sh" using assms(1) scope_ok_mono [of k _ "Suc k"] by (auto simp: at_def tree_ok_def list_all_iff)
  then have "at P R sh u (Suc k) (s\<lparr>lw_flags := lw_flags s @ [False]\<rparr>)" using assms(1) by (simp add: at_def)
  then show ?thesis using assms by (simp add: lowers_def alloc_flag_def at_def [of P R sh u k])
qed

lemma lowers_clear_flag [low_rules]:
  assumes "at P R sh u k s" and "\<And>s'. at P R sh u k s' \<Longrightarrow> Q () s'"
  shows "lowers (clear_flag i) s Q"
  using assms at_flags [OF assms(1), of "(lw_flags s)[i := False]"] by (simp add: lowers_def clear_flag_def at_def [of P R sh u k])

lemma lowers_read_flag [low_rules]:
  assumes "at P R sh u k s" and "i < k" and "\<And>b. Q b s"
  shows "lowers (read_flag i) s Q"
  using assms by (simp add: lowers_def read_flag_def l_bind_def l_gets_def l_nth_def l_ret_def at_def)

lemma lowers_free_flag [low_rules]:
  assumes "at P R sh u (Suc k) s" and "tree_ok k sh" and "\<And>s'. at P R sh u k s' \<Longrightarrow> Q () s'"
  shows "lowers free_flag s Q"
proof -
  have "at P R sh u k (s\<lparr>lw_flags := butlast (lw_flags s)\<rparr>)" using assms(1,2) by (simp add: at_def)
  then show ?thesis using assms(3) by (simp add: lowers_def free_flag_def)
qed

section \<open>Walking the scopes\<close>

text \<open>The callback keeps the state and an invariant of its variables.\<close>

lemma lowers_traverse_loop:
  assumes "at P R sh u k s" and "i < length sh" and "i < n" and "J c i"
    and step: "\<And>c i sc R' s Q. i < length sh \<Longrightarrow> J c i \<Longrightarrow> bare sc = sh ! i \<Longrightarrow> R \<subseteq> R' \<Longrightarrow> at P R' sh u k s \<Longrightarrow>
      (\<And>b s' R'. R \<subseteq> R' \<Longrightarrow> at P R' sh u k s' \<Longrightarrow> B b \<Longrightarrow> Q (CF_Break b) s') \<Longrightarrow>
      (\<And>c' s' R'. R \<subseteq> R' \<Longrightarrow> at P R' sh u k s' \<Longrightarrow> (\<And>p. scope_parent (sh ! i) = Some p \<Longrightarrow> J c' p) \<Longrightarrow> Q (CF_Continue c') s') \<Longrightarrow>
      lowers (f c i sc) s Q"
    and "\<And>r s'. at P R sh u k s' \<Longrightarrow> pred_option B r \<Longrightarrow> Q r s'"
  shows "lowers (traverse_loop n i c f) s Q"
proof -
  have "lowers (traverse_loop n i c f) s Q" if "at P R' sh u k s" "R \<subseteq> R'" for R'
    using that assms(2,3,4)
  proof (induction n arbitrary: i c s R')
    case (Suc n)
    have sub: "shape_ids sh \<subseteq> R" using at_shape [OF assms(1)] .
    have par: "p < i" if "scope_parent (sh ! i) = Some p" for p
      using at_tree [OF assms(1)] Suc.prems(3) that by (auto simp: tree_ok_def parents_ok_def)
    show ?case unfolding traverse_loop.simps
    proof (rule lowers_bind, rule lowers_scope_at [OF Suc.prems(1,3)], rule lowers_bind)
      fix sc assume sc: "bare sc = sh ! i" "sc \<in> set (lw_scopes s)"
      show "lowers (f c i sc) s (\<lambda>x s'. lowers (case x of CF_Continue c' \<Rightarrow> l_bind (scope_at i) (\<lambda>sc.
              case scope_parent sc of None \<Rightarrow> l_ret None | Some parent \<Rightarrow> traverse_loop n parent c' f) | CF_Break b \<Rightarrow> l_ret (Some b)) s' Q)"
      proof (rule step [OF Suc.prems(3,5) sc(1) Suc.prems(2,1)])
        fix b s' R'' assume "R \<subseteq> R''" "at P R'' sh u k s'" "B b"
        then show "lowers (case CF_Break b of CF_Continue c' \<Rightarrow> l_bind (scope_at i) (\<lambda>sc.
              case scope_parent sc of None \<Rightarrow> l_ret None | Some parent \<Rightarrow> traverse_loop n parent c' f) | CF_Break b \<Rightarrow> l_ret (Some b)) s' Q"
          using at_weaken [OF _ _ sub order_refl, of P R'' u k s'] assms(6) by (auto intro!: lowers_ret)
      next
        fix c' s' R'' assume c: "R \<subseteq> R''" "at P R'' sh u k s'" "\<And>p. scope_parent (sh ! i) = Some p \<Longrightarrow> J c' p"
        have "lowers (l_bind (scope_at i) (\<lambda>sc.
              case scope_parent sc of None \<Rightarrow> l_ret None | Some parent \<Rightarrow> traverse_loop n parent c' f)) s' Q"
        proof (rule lowers_bind, rule lowers_scope_at [OF c(2) Suc.prems(3)])
          fix sc assume "bare sc = sh ! i"
          then have "scope_parent sc = scope_parent (sh ! i)" by (metis bare_simps(1))
          then show "lowers (case scope_parent sc of None \<Rightarrow> l_ret None | Some parent \<Rightarrow> traverse_loop n parent c' f) s' Q"
            using c Suc.IH [OF c(2,1)] par Suc.prems(3,4) at_weaken [OF c(2,1) sub] assms(6)
            by (auto intro!: lowers_ret split: option.splits)
        qed
        then show "lowers (case CF_Continue c' of CF_Continue c' \<Rightarrow> l_bind (scope_at i) (\<lambda>sc.
              case scope_parent sc of None \<Rightarrow> l_ret None | Some parent \<Rightarrow> traverse_loop n parent c' f) | CF_Break b \<Rightarrow> l_ret (Some b)) s' Q"
          by simp
      qed
    qed
  qed simp
  then show ?thesis using assms(1) by blast
qed

lemma lowers_traverse:
  assumes "at P R sh u k s" and "i < length sh" and "J c i"
    and "\<And>c i sc R' s Q. i < length sh \<Longrightarrow> J c i \<Longrightarrow> bare sc = sh ! i \<Longrightarrow> R \<subseteq> R' \<Longrightarrow> at P R' sh u k s \<Longrightarrow>
      (\<And>b s' R'. R \<subseteq> R' \<Longrightarrow> at P R' sh u k s' \<Longrightarrow> B b \<Longrightarrow> Q (CF_Break b) s') \<Longrightarrow>
      (\<And>c' s' R'. R \<subseteq> R' \<Longrightarrow> at P R' sh u k s' \<Longrightarrow> (\<And>p. scope_parent (sh ! i) = Some p \<Longrightarrow> J c' p) \<Longrightarrow> Q (CF_Continue c') s') \<Longrightarrow>
      lowers (f c i sc) s Q"
    and "\<And>r s'. at P R sh u k s' \<Longrightarrow> pred_option B r \<Longrightarrow> Q r s'"
  shows "lowers (traverse_scopes_from i c f) s Q"
proof -
  have "length (lw_scopes s) = length sh" using assms(1) by (auto simp: at_def)
  then show ?thesis unfolding traverse_scopes_from_def
  proof (intro lowers_bind lowers_gets)
    show "lowers (traverse_loop (Suc (length (lw_scopes s))) i c f) s Q"
    proof (rule lowers_traverse_loop [where J = J and B = B, OF assms(1,2)])
      show "i < Suc (length (lw_scopes s))" using \<open>length (lw_scopes s) = length sh\<close> assms(2) by simp
    qed (fact assms(3), fact assms(4), fact assms(5))
  qed
qed

lemma lowers_unstack_simple:
  assumes "at P R (sh @ [Scope_Block p st bk]) u k s" and "\<And>s'. at P R sh st k s' \<Longrightarrow> Q () s'"
  shows "lowers (unstack_block (length sh)) s Q"
  using lowers_unstack_block [of P R sh p st bk "[]"] assms by simp

lemma lowers_unstack_locals:
  assumes "at P R ((sh @ [Scope_Block p st bk]) @ ext) u k s" and "list_all local_scope ext"
    and "\<And>s'. at P R sh st k s' \<Longrightarrow> Q () s'"
  shows "lowers (unstack_block (length sh)) s Q"
  using lowers_unstack_block [of P R sh p st bk ext] assms by simp

lemma lowers_unstack_locals2:
  assumes "at P R (((sh @ [Scope_Block p st bk]) @ ext) @ ext') u k s" and "list_all local_scope ext" and "list_all local_scope ext'"
    and "\<And>s'. at P R sh st k s' \<Longrightarrow> Q () s'"
  shows "lowers (unstack_block (length sh)) s Q"
  using lowers_unstack_block [of P R sh p st bk "ext @ ext'"] assms by simp

lemma lowers_slice_uir:
  assumes "at P R sh u k s" and "a \<le> b" and "b \<le> u" and "\<And>is. at P (R \<union> set is) sh u k s \<Longrightarrow> Q is s"
  shows "lowers (l_slice (lw_uir_scopes_instructions s) a b) s Q"
proof -
  let ?is = "drop a (take b (lw_uir_scopes_instructions s))"
  have "set ?is \<subseteq> set (lw_uir_scopes_instructions s)" by (meson in_set_dropD in_set_takeD subsetI)
  then have "set ?is \<subseteq> {..<length (lw_instructions s)}" using assms(1) by (auto simp: at_def below_set)
  then have "at P (R \<union> set ?is) sh u k s" using assms(1) by (auto simp: at_def)
  moreover have "b \<le> length (lw_uir_scopes_instructions s)" using assms(1,3) by (auto simp: at_def)
  ultimately show ?thesis using assms(2,4) by (simp add: lowers_def l_slice_def slice_def l_ret_def)
qed

lemma lowers_set_root: "at P R sh u k s \<Longrightarrow> (\<And>s'. at P R sh u k s' \<Longrightarrow> Q () s') \<Longrightarrow> lowers (set_fn_body_root_scope r) s Q"
  by (simp add: lowers_def set_fn_body_root_scope_def at_def)

end
