(* ===== verification/Vif_Lower_Names.thy ===== *)
theory Vif_Lower_Names
  imports Vif_Lower_Prims
begin

text \<open>
  The rules of the logic for result locations, defers, and the resolution and capture of names.
\<close>

lemma scope_ids_shape: "i < length sh \<Longrightarrow> scope_ids (sh ! i) \<subseteq> shape_ids sh"
  unfolding shape_ids_def using nth_mem by blast

lemma opt_ids_simps [simp]: "opt_ids None = []" "opt_ids (Some r) = ref_ids r"
  by (simp_all add: opt_ids_def)

lemma bare_ids: "bare sc = x \<Longrightarrow> scope_ids sc = scope_ids x"
  by auto

lemma lowers_append_defers [low_rules]:
  assumes "at P R sh u k s" and "start < length sh" and "\<And>s'. at P R sh u k s' \<Longrightarrow> Q () s'"
  shows "lowers (append_defers start stop) s Q"
  unfolding append_defers_def
proof (rule lowers_seq, rule lowers_traverse [where J = "\<lambda>_ _. True" and B = "\<lambda>_. True", OF assms(1,2)], rule TrueI)
  fix c :: unit and i sc R' s and Q :: "(unit, unit) control_flow \<Rightarrow> lowerer \<Rightarrow> bool"
  assume i: "i < length sh" "bare sc = sh ! i" "R \<subseteq> R'" and s: "at P R' sh u k s"
    and brk: "\<And>b s' R'. R \<subseteq> R' \<Longrightarrow> at P R' sh u k s' \<Longrightarrow> True \<Longrightarrow> Q (CF_Break b) s'"
    and cont: "\<And>c' s' R'. R \<subseteq> R' \<Longrightarrow> at P R' sh u k s' \<Longrightarrow> (\<And>p. scope_parent (sh ! i) = Some p \<Longrightarrow> True) \<Longrightarrow> Q (CF_Continue c') s'"
  have ids: "scope_ids sc \<subseteq> R'" using bare_ids [OF i(2)] scope_ids_shape [OF i(1)] at_shape [OF s] by auto
  show "lowers (append_defer stop c i sc) s Q"
  proof (cases "\<exists>p body sp. sc = Scope_Defer p body sp")
    case True
    then obtain p body sp where sc: "sc = Scope_Defer p body sp" by auto
    have go: "Q (CF_Continue ()) s'" if "at P (insert j R') sh u k s'" for j s'
      using cont [OF _ that] i(3) by blast
    have "lowers (l_seq (inst i (Op_Defer body sp)) (l_ret (CF_Continue ()))) s Q"
      by (rule lowers_seq, rule lowers_inst [OF s], use ids sc in simp, simp, rule lowers_ret, rule go)
    with sc show ?thesis by (simp add: append_defer_def)
  next
    case False
    have "lowers (l_ret (if i = stop then CF_Break () else CF_Continue ())) s Q"
      by (rule lowers_ret, cases "i = stop") (use brk [OF i(3) s] cont [OF i(3) s] in auto)
    with False show ?thesis by (cases sc) (auto simp: append_defer_def)
  qed
qed (rule lowers_ret, rule assms(3))

section \<open>Result locations\<close>

lemma lowers_rvalue [low_rules]:
  assumes "at P R sh u k s" and "set (ref_ids r) \<subseteq> R" and "ctx_ids ctx \<subseteq> R"
    and "\<And>r' s'. at P (R \<union> set (ref_ids r')) sh u k s' \<Longrightarrow> Q r' s'"
  shows "lowers (rvalue b r ctx sp) s Q"
proof (cases ctx)
  case RL_None
  then show ?thesis using assms by (auto simp: rvalue_def Un_absorb2 intro!: lowers_ret)
next
  case (RL_StoreToInferredPtr p psp)
  have "lowers (l_seq (inst b (Op_StoreToInferredAlloc p r (span_join sp psp))) (l_ret (Interned Key_Void))) s Q"
  proof (rule lowers_seq, rule lowers_inst [OF assms(1)], goal_cases)
    case (3 i s')
    then have "at P R sh u k s'" by (rule at_weaken) (use at_shape [OF assms(1)] in auto)
    then show ?case using assms(4) [of "Interned Key_Void"] by (auto intro: lowers_ret)
  qed (use assms RL_StoreToInferredPtr in auto)
  with RL_StoreToInferredPtr show ?thesis by (simp add: rvalue_def)
qed (auto simp: rvalue_def intro!: lowers_inst [OF assms(1)] assms(4), use assms in auto)

lemma lowers_try_coerce [low_rules]:
  assumes "at P R sh u k s" and "ctx_ids ctx \<subseteq> R" and "\<And>ty s'. at P (R \<union> set (opt_ids ty)) sh u k s' \<Longrightarrow> Q ty s'"
  shows "lowers (try_lower_coerce_into_result_loc_expected_ty b ctx) s Q"
proof (cases ctx)
  case (RL_StoreToPtr p sp)
  then have "lowers (l_bind (inst b (Op_TypeOfPtrPointee p sp)) (\<lambda>ty. l_ret (Some ty))) s Q"
    using assms by (intro lowers_bind lowers_inst [OF assms(1)]) (auto intro!: lowers_ret assms(3))
  with RL_StoreToPtr show ?thesis by (simp add: try_lower_coerce_into_result_loc_expected_ty_def)
qed (use assms(1,2) assms(3) [of None] assms(3) [of "Some _"] in
    \<open>auto simp: try_lower_coerce_into_result_loc_expected_ty_def opt_ids_def Un_absorb2 intro!: lowers_ret\<close>)

lemma lowers_coerce_ctx [low_rules]:
  assumes "at P R sh u k s" and "ctx_ids ctx \<subseteq> R" and "\<And>ctx' s'. at P (R \<union> ctx_ids ctx') sh u k s' \<Longrightarrow> Q ctx' s'"
  shows "lowers (coerce_ctx b ctx) s Q"
  unfolding coerce_ctx_def
  by (rule lowers_bind, rule lowers_try_coerce [OF assms(1,2)], rule lowers_ret, rule assms(3)) (auto split: option.splits)

section \<open>Names\<close>

text \<open>The namespaces on the way from a scope to the root, from the inside out.\<close>

primrec nss_from :: "scope list \<Rightarrow> nat \<Rightarrow> scope_id option \<Rightarrow> scope_id list" where
  "nss_from sh 0 p = []"
| "nss_from sh (Suc n) p =
     (case p of None \<Rightarrow> [] | Some i \<Rightarrow> (if is_ns (sh ! i) then [i] else []) @ nss_from sh n (scope_parent (sh ! i)))"

definition nss :: "scope list \<Rightarrow> scope_id \<Rightarrow> scope_id list" where
  "nss sh i = nss_from sh (Suc i) (Some i)"

lemma nss_fuel: "parents_ok sh \<Longrightarrow> i < length sh \<Longrightarrow> i < n \<Longrightarrow> nss_from sh n (Some i) = nss sh i"
proof (induction i arbitrary: n rule: less_induct)
  case (less i)
  obtain m where m: "n = Suc m" using less.prems(3) by (cases n) auto
  show ?case
  proof (cases "scope_parent (sh ! i)")
    case None
    then show ?thesis using m by (cases m; cases i) (simp_all add: nss_def)
  next
    case (Some p)
    then have p: "p < i" using less.prems(1,2) by (auto simp: parents_ok_def)
    then have "nss_from sh m (Some p) = nss_from sh i (Some p)"
      using less.IH [of p m] less.IH [of p i] less.prems m by simp
    then show ?thesis using Some m by (simp add: nss_def)
  qed
qed

lemma nss_step:
  assumes "parents_ok sh" and "i < length sh"
  shows "nss sh i = (if is_ns (sh ! i) then [i] else []) @ (case scope_parent (sh ! i) of None \<Rightarrow> [] | Some p \<Rightarrow> nss sh p)"
proof (cases "scope_parent (sh ! i)")
  case None
  then show ?thesis by (cases i) (simp_all add: nss_def)
next
  case (Some p)
  then have "p < i" using assms by (auto simp: parents_ok_def)
  then show ?thesis using Some nss_fuel [OF assms(1), of p i] assms(2) by (simp add: nss_def)
qed

lemma nss_ns: "parents_ok sh \<Longrightarrow> i < length sh \<Longrightarrow> j \<in> set (nss sh i) \<Longrightarrow> j < length sh \<and> is_ns (sh ! j)"
proof (induction i rule: less_induct)
  case (less i)
  have "\<And>p. scope_parent (sh ! i) = Some p \<Longrightarrow> p < i" using less.prems by (auto simp: parents_ok_def)
  then show ?case using less nss_step [OF less.prems(1,2)] by (auto split: if_splits option.splits)
qed

definition found_ok :: "nat set \<Rightarrow> nat \<Rightarrow> resolve_result \<Rightarrow> bool" where
  "found_ok R m r =
     (case r of
        FoundAndIsLocalStackAllocated v \<Rightarrow> set (ref_ids v) \<subseteq> R
      | FoundAndIsLocalValue v \<Rightarrow> set (ref_ids v) \<subseteq> R
      | FoundAndIsDecl \<Rightarrow> True
      | Found_Capture v n \<Rightarrow> set (ref_ids v) \<subseteq> R \<and> 0 < n \<and> n \<le> m)"

lemma lowers_resolve_in_scope:
  assumes "at P R' sh u k s" and "i < length sh" and "bare sc = sh ! i" and "shape_ids sh \<subseteq> R" and "c + length (nss sh i) = m"
    and "\<And>b s'. at P R' sh u k s' \<Longrightarrow> found_ok R m b \<Longrightarrow> Q (CF_Break b) s'"
    and "\<And>c' s'. at P R' sh u k s' \<Longrightarrow> (\<And>p. scope_parent (sh ! i) = Some p \<Longrightarrow> c' + length (nss sh p) = m) \<Longrightarrow> Q (CF_Continue c') s'"
  shows "lowers (resolve_in_scope symbol c i sc) s Q"
proof -
  have ids: "scope_ids sc \<subseteq> R" using bare_ids [OF assms(3)] scope_ids_shape [OF assms(2)] assms(4) by auto
  have tree: "parents_ok sh" "scope_ok k (sh ! i)"
    using at_tree [OF assms(1)] assms(2) by (auto simp: tree_ok_def list_all_length)
  have up: "length (nss sh i) = (if is_ns sc then 1 else 0) + (case scope_parent (sh ! i) of None \<Rightarrow> 0 | Some p \<Rightarrow> length (nss sh p))"
    using nss_step [OF tree(1) assms(2)] bare_simps(3) [of sc] assms(3) by (auto split: option.splits)
  have cont: "lowers (l_ret (CF_Continue (c + (if is_ns sc then 1 else 0)))) s Q"
    by (rule lowers_ret, rule assms(7) [OF assms(1)]) (use up assms(5) in auto)
  have brk: "lowers (l_ret (CF_Break b)) s' Q" if "found_ok R m b" "at P R' sh u k s'" for b s'
    using that assms(6) by (auto intro: lowers_ret)
  show ?thesis
  proof (cases sc)
    case (Scope_LocalValue p name nd v flag)
    have "sh ! i = Scope_LocalValue p name nd v flag" using assms(3) Scope_LocalValue by simp
    then have "\<And>f. flag = Some f \<Longrightarrow> f < k" using tree(2) by (simp add: scope_ok_def)
    then have "lowers (l_seq (write_flag flag) (l_ret (CF_Break (if 0 < c then Found_Capture v c else FoundAndIsLocalValue v)))) s Q"
      by (intro lowers_seq, rule lowers_write_flag [OF assms(1)])
        (use ids assms(5) Scope_LocalValue in \<open>auto intro!: brk simp: found_ok_def\<close>)
    then show ?thesis using cont Scope_LocalValue by (simp add: resolve_in_scope_def)
  next
    case (Scope_LocalStackAllocated p name nd v)
    then have "lowers (l_ret (CF_Break (if 0 < c then Found_Capture v c else FoundAndIsLocalStackAllocated v))) s Q"
      by (intro brk assms(1)) (use ids assms(5) Scope_LocalStackAllocated in \<open>auto simp: found_ok_def\<close>)
    then show ?thesis using cont Scope_LocalStackAllocated by (simp add: resolve_in_scope_def)
  next
    case (Scope_Namespace p d cs)
    then show ?thesis using cont brk [OF _ assms(1), of FoundAndIsDecl] by (simp add: resolve_in_scope_def found_ok_def)
  qed (use cont in \<open>simp_all add: resolve_in_scope_def\<close>)
qed

lemma lowers_resolve_symbol:
  assumes "at P R sh u k s" and "b < length sh"
    and "\<And>r s'. at P R sh u k s' \<Longrightarrow> pred_option (found_ok R (length (nss sh b))) r \<Longrightarrow> Q r s'"
  shows "lowers (resolve_symbol b symbol) s Q"
proof (cases "symbol \<noteq> [] \<and> hd symbol = CHR 0x40")
  case True
  then show ?thesis using assms by (auto simp: resolve_symbol_def found_ok_def intro!: lowers_ret)
next
  case False
  have "lowers (traverse_scopes_from b 0 (resolve_in_scope symbol)) s Q"
  proof (rule lowers_traverse [where J = "\<lambda>c i. c + length (nss sh i) = length (nss sh b)", OF assms(1,2)])
    fix c i sc R' s Q
    assume "i < length sh" "c + length (nss sh i) = length (nss sh b)" "bare sc = sh ! i" "R \<subseteq> R'" "at P R' sh u k s"
      and "\<And>r s' R'. R \<subseteq> R' \<Longrightarrow> at P R' sh u k s' \<Longrightarrow> found_ok R (length (nss sh b)) r \<Longrightarrow> Q (CF_Break r) s'"
      and "\<And>c' s' R'. R \<subseteq> R' \<Longrightarrow> at P R' sh u k s' \<Longrightarrow>
        (\<And>p. scope_parent (sh ! i) = Some p \<Longrightarrow> c' + length (nss sh p) = length (nss sh b)) \<Longrightarrow> Q (CF_Continue c') s'"
    then show "lowers (resolve_in_scope symbol c i sc) s Q"
      using lowers_resolve_in_scope [OF _ _ _ at_shape [OF assms(1)], of P R' u k s i sc] by metis
  qed (use assms(3) in simp_all)
  with False show ?thesis by (auto simp: resolve_symbol_def)
qed

lemma namespaces_loop_eq:
  assumes "at P R sh u k s" and "i < length sh" and "Suc i < n"
  shows "namespaces_loop n (Some i) s = LowDone (nss sh i) s"
  using assms(2,3)
proof (induction i arbitrary: n rule: less_induct)
  case (less i)
  have par: "parents_ok sh" using at_tree [OF assms(1)] by (simp add: tree_ok_def)
  note sc = at_scope [OF assms(1) less.prems(1)]
  have eqs: "scope_parent (lw_scopes s ! i) = scope_parent (sh ! i)" "is_ns (lw_scopes s ! i) = is_ns (sh ! i)"
    using sc bare_simps(1,3) by metis+
  obtain m where m: "n = Suc m" "0 < m" using less.prems(2) by (cases n) auto
  have "namespaces_loop m (scope_parent (sh ! i)) s = LowDone (case scope_parent (sh ! i) of None \<Rightarrow> [] | Some p \<Rightarrow> nss sh p) s"
  proof (cases "scope_parent (sh ! i)")
    case None
    then show ?thesis using m(2) by (cases m) (simp_all add: l_ret_def)
  next
    case (Some p)
    then have "p < i" using par less.prems(1) by (auto simp: parents_ok_def)
    then show ?thesis using less.IH [of p m] less.prems m Some by simp
  qed
  then show ?case using sc m nss_step [OF par less.prems(1)] eqs
    by (simp add: scope_at_def l_bind_def l_gets_def l_nth_def l_ret_def is_ns_def split: scope.splits)
qed

lemma lowers_namespaces_above:
  assumes "at P R sh u k s" and "usable sh b" and "Q (nss sh b) s"
  shows "lowers (namespaces_above b) s Q"
proof -
  have b: "b < length sh" using assms(2) by (simp add: usable_def)
  have par: "parents_ok sh" using at_tree [OF assms(1)] by (simp add: tree_ok_def)
  have len: "length (lw_scopes s) = length sh" using assms(1) by (auto simp: at_def)
  have "scope_parent (lw_scopes s ! b) = scope_parent (sh ! b)" using at_scope [OF assms(1) b] bare_simps(1) by metis
  moreover have "namespaces_loop (Suc (length sh)) (scope_parent (sh ! b)) s = LowDone (nss sh b) s"
  proof (cases "scope_parent (sh ! b)")
    case None
    then show ?thesis using nss_step [OF par b] assms(2) by (simp add: usable_def l_ret_def)
  next
    case (Some p)
    then have "p < b" using par b by (auto simp: parents_ok_def)
    then show ?thesis using namespaces_loop_eq [OF assms(1), of p "Suc (length sh)"] Some b nss_step [OF par b] assms(2)
      by (simp add: usable_def)
  qed
  ultimately show ?thesis using len b assms(3)
    by (simp add: lowers_def namespaces_above_def scope_at_def l_bind_def l_gets_def l_nth_def l_ret_def)
qed

lemma lowers_capture_entry:
  assumes "at P R sh u k s" and "ns < length sh" and "is_ns (sh ! ns)" and "set (capture_ids key) \<subseteq> R"
    and "\<And>i s'. at P R sh u k s' \<Longrightarrow> Q i s'"
  shows "lowers (capture_entry ns key) s Q"
proof -
  note sc = at_scope [OF assms(1,2)]
  obtain p d cs where ns: "lw_scopes s ! ns = Scope_Namespace p d cs"
    using sc assms(3) bare_simps(3) [of "lw_scopes s ! ns"] by (auto simp: is_ns_def split: scope.splits)
  let ?ss = "(lw_scopes s)[ns := Scope_Namespace p d (cs @ [key])]"
  have "map bare ?ss = sh" using assms(1) ns sc by (metis at_def bare_simps(6) list_update_id map_update)
  moreover have "\<forall>sc \<in> set ?ss. caps_ids sc \<subseteq> {..<length (lw_instructions s)}"
  proof
    fix sc' assume "sc' \<in> set ?ss"
    then consider "sc' \<in> set (lw_scopes s)" | "sc' = Scope_Namespace p d (cs @ [key])"
      using set_update_subset_insert by fast
    then show "caps_ids sc' \<subseteq> {..<length (lw_instructions s)}"
    proof cases
      case 1
      then show ?thesis using assms(1) by (simp add: at_def)
    next
      case 2
      have "caps_ids (Scope_Namespace p d cs) \<subseteq> {..<length (lw_instructions s)}"
        using assms(1) ns sc nth_mem [of ns "lw_scopes s"] by (fastforce simp: at_def)
      moreover have "set (capture_ids key) \<subseteq> {..<length (lw_instructions s)}" using assms(1,4) by (auto simp: at_def)
      ultimately show ?thesis using 2 by (simp add: caps_ids_def)
    qed
  qed
  ultimately have "at P R sh u k (s\<lparr>lw_scopes := ?ss\<rparr>)" using assms(1) by (simp add: at_def)
  then show ?thesis using ns sc assms(1,5)
    by (auto simp: lowers_def capture_entry_def scope_at_def l_bind_def l_gets_def l_nth_def l_ret_def split: option.splits)
qed

lemma lowers_capture_through:
  assumes "at P R sh u k s" and "\<And>ns. ns \<in> set nsl \<Longrightarrow> ns < length sh \<and> is_ns (sh ! ns)"
    and "\<And>i s'. at P R sh u k s' \<Longrightarrow> Q i s'"
  shows "lowers (capture_through idx nsl) s Q"
  using assms(1,2)
proof (induction nsl arbitrary: idx s)
  case Nil
  then show ?case using assms(3) by (auto intro: lowers_ret)
next
  case (Cons ns rest)
  show ?case unfolding capture_through.simps
    by (rule lowers_bind, rule lowers_capture_entry [OF Cons.prems(1)])
      (use Cons.IH Cons.prems(2) in \<open>auto simp: capture_ids_def\<close>)
qed

lemma lowers_capture_outer:
  assumes "at P R sh u k s" and "usable sh b" and "set (ref_ids v) \<subseteq> R" and "0 < n" and "n \<le> length (nss sh b)"
    and "\<And>r s'. at P (R \<union> set (ref_ids r)) sh u k s' \<Longrightarrow> Q r s'"
  shows "lowers (capture_outer_scope_inst b v n sp) s Q"
proof (cases v)
  case (Interned x)
  then show ?thesis using assms(1,6) by (auto simp: capture_outer_scope_inst_def intro!: lowers_ret)
next
  case (Instruction outer)
  have b: "b < length sh" "parents_ok sh" using assms(2) at_tree [OF assms(1)] by (auto simp: usable_def tree_ok_def)
  have n: "n - 1 < length (nss sh b)" using assms(4,5) by simp
  have ns: "ns < length sh \<and> is_ns (sh ! ns)" if "ns \<in> set (nss sh b)" for ns using nss_ns [OF b(2,1) that] .
  have "lowers (l_bind (capture_entry (nss sh b ! (n - 1)) (Cap_Id outer)) (\<lambda>i.
      l_bind (capture_through i (rev (take (n - 1) (nss sh b)))) (\<lambda>idx. inst b (Op_CaptureGet idx sp)))) s Q"
    by (rule lowers_bind, rule lowers_capture_entry [OF assms(1)], use ns n in simp, use ns n in simp,
        use assms(3) Instruction in \<open>simp add: capture_ids_def\<close>, rule lowers_bind, rule lowers_capture_through, assumption)
      (use ns assms(6) in \<open>auto dest: in_set_takeD intro!: lowers_inst\<close>)
  then have "lowers (namespaces_above b) s (\<lambda>nss s'. lowers (let intermediate = rev (take (n - 1) nss) in
       if n - 1 < length nss then l_bind (capture_entry (nss ! (n - 1)) (Cap_Id outer)) (\<lambda>i.
         l_bind (capture_through i intermediate) (\<lambda>idx. inst b (Op_CaptureGet idx sp))) else l_panic Lf_NoRootNamespace) s' Q)"
    by (intro lowers_namespaces_above [OF assms(1,2)]) (use n in \<open>simp add: Let_def\<close>)
  then show ?thesis using Instruction by (auto simp: capture_outer_scope_inst_def intro!: lowers_bind)
qed

lemma lowers_check_label_already_defined:
  assumes "at P R sh u k s" and "b < length sh" and "\<And>r s'. at P R sh u k s' \<Longrightarrow> Q r s'"
  shows "lowers (check_label_already_defined I b label) s Q"
  unfolding check_label_already_defined_def
proof (rule lowers_bind, rule lowers_traverse [where J = "\<lambda>_ _. True" and B = "\<lambda>_. True", OF assms(1,2)], rule TrueI)
  fix c i sc R' s and Q :: "(unit, ident) control_flow \<Rightarrow> lowerer \<Rightarrow> bool"
  assume "R \<subseteq> R'" and s: "at P R' sh u k s"
    and "\<And>b s' R'. R \<subseteq> R' \<Longrightarrow> at P R' sh u k s' \<Longrightarrow> True \<Longrightarrow> Q (CF_Break b) s'"
    and "\<And>c' s' R'. R \<subseteq> R' \<Longrightarrow> at P R' sh u k s' \<Longrightarrow> (\<And>p. scope_parent (sh ! i) = Some p \<Longrightarrow> True) \<Longrightarrow> Q (CF_Continue c') s'"
  then show "lowers (case sc of Scope_Block _ _ bk \<Rightarrow> (case block_label bk of
        Some l \<Rightarrow> l_ret (if id_symbol l = id_symbol label then CF_Break l else CF_Continue ()) | None \<Rightarrow> l_ret (CF_Continue ()))
      | _ \<Rightarrow> l_ret (CF_Continue ())) s Q"
    by (auto split: scope.splits option.splits intro!: lowers_ret)
next
  fix r s' assume s': "at P R sh u k s'"
  show "lowers (case r of Some l \<Rightarrow> l_seq (l_error (diag_two I (''label `:'' @ id_symbol label @ ''` already defined'') (id_span label) ''redefinition here''
                        label_primary (id_span l) ''first defined here'')) (l_ret True) | None \<Rightarrow> l_ret False) s' Q"
    using assms(3) s' by (auto split: option.splits intro!: lowers_ret lowers_seq lowers_error [OF s'])
qed

lemma lowers_check_label [low_rules]:
  assumes "at P R sh u k s" and "b < length sh" and "\<And>s'. at P R sh u k s' \<Longrightarrow> Q () s'"
  shows "lowers (check_label I b label) s Q"
  using assms unfolding check_label_def
  by (cases label) (auto intro!: lowers_ret lowers_seq lowers_check_label_already_defined [OF assms(1,2)])

lemma lowers_lower_ident:
  assumes "at P R sh u k s" and "usable sh b" and "ctx_ids ctx \<subseteq> R"
    and "\<And>r s'. at P (R \<union> set (opt_ids r)) sh u k s' \<Longrightarrow> (r = None \<Longrightarrow> lw_errors s' \<noteq> []) \<Longrightarrow> Q r s'"
  shows "lowers (lower_ident I b i ctx sp) s Q"
proof -
  have some: "Q (Some r) s'" if "at P (R \<union> set (ref_ids r)) sh u k s'" for r s'
    using assms(4) [of "Some r"] that by (simp add: opt_ids_def)
  have rv: "lowers (l_bind (rvalue b r ctx sp) (\<lambda>r. l_ret (Some r))) s' Q" if "at P R' sh u k s'" "R \<subseteq> R'" "set (ref_ids r) \<subseteq> R'" for r s' R'
    by (rule lowers_bind, rule lowers_rvalue [OF that(1,3)]) (use that assms(3) at_shape [OF assms(1)] in \<open>auto intro!: lowers_ret some elim: at_weaken\<close>)
  have new: "lowers (l_bind (inst b p) (\<lambda>v. l_bind (rvalue b v ctx sp) (\<lambda>r. l_ret (Some r)))) s' Q"
    if "at P R sh u k s'" "set (opcode_ids p) \<subseteq> R" "p \<noteq> Op_Invalid" for p s'
    by (rule lowers_bind, rule lowers_inst [OF that], rule rv) auto
  show ?thesis unfolding lower_ident_def
  proof (rule lowers_bind, rule lowers_resolve_symbol [OF assms(1) usable_less(1) [OF assms(2)]])
    fix r s' assume s': "at P R sh u k s'" and r: "pred_option (found_ok R (length (nss sh b))) r"
    show "lowers (case r of
          Some (FoundAndIsLocalStackAllocated v) \<Rightarrow>
            if ctx = RL_GetAddressOf then l_ret (Some v)
            else l_bind (inst b (Op_Load v sp)) (\<lambda>loaded. l_bind (rvalue b loaded ctx sp) (\<lambda>r. l_ret (Some r)))
        | Some (FoundAndIsLocalValue v) \<Rightarrow> l_bind (rvalue b v ctx sp) (\<lambda>r. l_ret (Some r))
        | Some FoundAndIsDecl \<Rightarrow>
            if ctx = RL_GetAddressOf then l_bind (inst b (Op_DeclRef i)) (\<lambda>r. l_ret (Some r))
            else l_bind (inst b (Op_DeclVal i)) (\<lambda>v. l_bind (rvalue b v ctx sp) (\<lambda>r. l_ret (Some r)))
        | Some (Found_Capture v n) \<Rightarrow> l_bind (capture_outer_scope_inst b v n sp) (\<lambda>r. l_ret (Some r))
        | None \<Rightarrow>
            l_seq (l_error (\<lambda>m. with_note (diag_at I (''unknown name '' @ [CHR 0x27] @ id_symbol i @ [CHR 0x27]) sp m)
                     ''ensure name is visible in the current scope''))
              (l_ret None)) s' Q"
    proof (cases r)
      case None
      then show ?thesis using s' assms(4) [of None] by (auto intro!: lowers_seq lowers_ret lowers_error [OF s'])
    next
      case (Some f)
      show ?thesis
      proof (cases f)
        case (Found_Capture v n)
        then show ?thesis using Some r some
          by (auto simp: found_ok_def intro!: lowers_bind lowers_capture_outer [OF s' assms(2)] lowers_ret)
      next
        case (FoundAndIsLocalStackAllocated v)
        then show ?thesis using Some r new [OF s', of "Op_Load v sp"] some [of v s'] s'
          by (auto simp: found_ok_def Un_absorb2 intro!: lowers_ret)
      next
        case (FoundAndIsLocalValue v)
        then show ?thesis using Some r rv [OF s'] by (auto simp: found_ok_def)
      next
        case FoundAndIsDecl
        then show ?thesis using Some new [OF s', of "Op_DeclVal i"] some
          by (auto intro!: lowers_bind lowers_inst [OF s'] lowers_ret)
      qed
    qed
  qed
qed

end
