(* ===== verification/Vif_Lower_Calls.thy ===== *)
theory Vif_Lower_Calls
  imports Vif_Lower_Names
begin

text \<open>
  The methods of the lowerer in the logic. The locale \<open>lower_calls\<close> is what the methods rely on when they call each other: an
  expression whose depth does not exceed \<open>n\<close>, and a type whose expressions are less deep, is lowered within the scope it was
  given. Its lemmas show that a method that relies on this for \<open>n\<close> provides it for \<open>Suc n\<close>.
\<close>

section \<open>Depth of an expression\<close>

lemmas finite_nodes = block.set_bd while_node.set_bd for_node.set_bd switch_node.set_bd type_node.set_bd field_access.set_bd
  index_node.set_bd fn_call.set_bd struct_init.set_bd array_init.set_bd if_body.set_bd

lemma finite_if: "finite (set_if_node i)" "finite (set_else_block b)"
  for i :: "'a if_node" and b :: "'a else_block"
  by (induction i and b) (auto simp: finite_iff_ordLess_natLeq [THEN iffD2, OF if_body.set_bd])

lemma finite_children: "finite (set_expr_kind e)"
  by (cases e) (simp_all add: finite_if finite_nodes [THEN finite_iff_ordLess_natLeq [THEN iffD2]])

primrec expr_depth :: "expr \<Rightarrow> nat" where
  "expr_depth (Expr i e sp) = Suc (Max (insert 0 (set_expr_kind (map_expr_kind expr_depth e))))"

lemma child_depth: "c \<in> set_expr_kind (expr_kind e) \<Longrightarrow> expr_depth c < expr_depth e"
  by (cases e) (auto simp: expr_kind.set_map finite_children less_Suc_eq_le)

lemma depth_pos: "0 < expr_depth e"
  by (cases e) simp

lemma lowers_uir_len:
  assumes "at P R sh u k s" and "\<And>l. u \<le> l \<Longrightarrow> at P R sh l k s \<Longrightarrow> Q l s"
  shows "lowers uir_len s Q"
  using assms by (auto simp: lowers_def uir_len_def l_gets_def at_def)

lemma scope_ok_simps [simp]:
  "scope_ok k (Scope_Block p st BK_Body)" "scope_ok k (Scope_Block p st (BK_Branch r))"
  "scope_ok k (Scope_Block p st (BK_Block (Instruction i) l))" "scope_ok k (Scope_Block p st (BK_Loop (Instruction i) l))"
  "scope_ok k (Scope_Defer q is sp)" "scope_ok k (Scope_LocalStackAllocated q nm nd r)" "scope_ok k (Scope_LocalValue q nm nd r None)"
  "scope_ok k (Scope_LocalValue q nm nd r (Some f)) \<longleftrightarrow> f < k" "scope_ok k (Scope_Namespace p d cs)"
  by (simp_all add: scope_ok_def as_id_def)

lemma caps_ids_simps [simp]:
  "caps_ids (Scope_Block p st bk) = {}" "caps_ids (Scope_Defer q is sp) = {}" "caps_ids (Scope_LocalStackAllocated q nm nd r) = {}"
  "caps_ids (Scope_LocalValue q nm nd r f) = {}" "caps_ids (Scope_Namespace p d []) = {}"
  by (simp_all add: caps_ids_def)

lemma local_scope_simps [simp]:
  "local_scope (Scope_Defer q is sp)" "local_scope (Scope_LocalStackAllocated q nm nd r)" "local_scope (Scope_LocalValue q nm nd r f)"
  by (simp_all add: local_scope_def)

text \<open>Leaving a method: the assertion it promises is weaker than the one it reached.\<close>

lemma done_at: "(\<And>r s'. at P (R \<union> set (ref_ids r)) sh u k s' \<Longrightarrow> Q r s') \<Longrightarrow> at P R' sh u' k s' \<Longrightarrow> R \<union> set (ref_ids r) \<subseteq> R' \<Longrightarrow>
    shape_ids sh \<subseteq> R \<Longrightarrow> u \<le> u' \<Longrightarrow> Q r s'"
  by (meson at_weaken le_supI1)

lemma lowers_wrap_in_comptime_block:
  assumes "at P R sh u k s" and "usable sh b"
    and f: "\<And>P' R' u' st s Q. at P' R' (sh @ [Scope_Block (Some b) st BK_Body]) u' k s \<Longrightarrow> R \<subseteq> R' \<Longrightarrow>
      (\<And>r s'. at P' (R' \<union> set (ref_ids r)) (sh @ [Scope_Block (Some b) st BK_Body]) u' k s' \<Longrightarrow> Q r s') \<Longrightarrow>
      lowers (f (length sh)) s Q"
    and ret: "\<And>r s'. at P (R \<union> set (ref_ids r)) sh u k s' \<Longrightarrow> Q r s'"
  shows "lowers (wrap_in_comptime_block b f) s Q"
  unfolding wrap_in_comptime_block_def
  by (insert assms(1,2) at_shape [OF assms(1)] usable_less(1) [OF assms(2)],
      (rule low_rules f | assumption | rule ret | (rule at_weaken, assumption) | simp; fail | auto; fail)+)

section \<open>Targets of jumps\<close>

lemma lowers_pure_traverse:
  assumes "at P R sh u k s" and "b < length sh"
    and "\<And>i sc x. i < length sh \<Longrightarrow> bare sc = sh ! i \<Longrightarrow> scope_ok k sc \<Longrightarrow> scope_ids sc \<subseteq> R \<Longrightarrow> g i sc = CF_Break x \<Longrightarrow> B x"
    and "\<And>r s'. at P R sh u k s' \<Longrightarrow> pred_option B r \<Longrightarrow> Q r s'"
  shows "lowers (traverse_scopes_from b () (\<lambda>_ i sc. l_ret (g i sc))) s Q"
proof (rule lowers_traverse [where J = "\<lambda>_ _. True" and B = B, OF assms(1,2)], rule TrueI)
  fix c :: unit and i sc R' s and Q :: "(unit, 'a) control_flow \<Rightarrow> lowerer \<Rightarrow> bool"
  assume i: "i < length sh" "bare sc = sh ! i" "R \<subseteq> R'" and s: "at P R' sh u k s"
    and brk: "\<And>b s' R'. R \<subseteq> R' \<Longrightarrow> at P R' sh u k s' \<Longrightarrow> B b \<Longrightarrow> Q (CF_Break b) s'"
    and cont: "\<And>c' s' R'. R \<subseteq> R' \<Longrightarrow> at P R' sh u k s' \<Longrightarrow> (\<And>p. scope_parent (sh ! i) = Some p \<Longrightarrow> True) \<Longrightarrow> Q (CF_Continue c') s'"
  have "scope_ids sc \<subseteq> R" using bare_ids [OF i(2)] scope_ids_shape [OF i(1)] at_shape [OF assms(1)] by auto
  moreover have "scope_ok k (sh ! i)" using at_tree [OF s] i(1) by (auto simp: tree_ok_def list_all_length)
  then have "scope_ok k sc" using i(2) by (cases sc) (auto simp: scope_ok_def bare_def)
  ultimately show "lowers (l_ret (g i sc)) s Q"
    using assms(3) [OF i(1,2)] brk [OF i(3) s] cont [OF i(3) s] by (cases "g i sc") (auto intro!: lowers_ret)
qed (rule assms(4))

lemma lowers_break_target:
  assumes "at P R sh u k s" and "b < length sh"
    and "\<And>r s'. at P R sh u k s' \<Longrightarrow> pred_option (\<lambda>(_, r). \<exists>i \<in> R. r = Instruction i) r \<Longrightarrow> Q r s'"
  shows "lowers (traverse_scopes_from b () (break_target label)) s Q"
proof -
  let ?g = "\<lambda>scope sc. case sc of
       Scope_Block _ _ (BK_Block i bl) \<Rightarrow> if same_label label bl then CF_Break (scope, i) else CF_Continue ()
     | Scope_Block _ _ (BK_Loop i bl) \<Rightarrow> if label = None \<or> same_label label bl then CF_Break (scope, i) else CF_Continue ()
     | _ \<Rightarrow> CF_Continue ()"
  have eq: "break_target label = (\<lambda>_ i sc. l_ret (?g i sc))" by (simp add: break_target_def fun_eq_iff)
  have "lowers (traverse_scopes_from b () (\<lambda>_ i sc. l_ret (?g i sc))) s Q"
    by (rule lowers_pure_traverse [OF assms(1,2) _ assms(3)])
      (auto simp: scope_ok_def as_id_def split: scope.splits block_kind.splits if_splits instruction_ref.splits)
  then show ?thesis unfolding eq .
qed

lemma lowers_continue_target:
  assumes "at P R sh u k s" and "b < length sh"
    and "\<And>r s'. at P R sh u k s' \<Longrightarrow> pred_option (\<lambda>f. case f of FL_Loop _ r \<Rightarrow> \<exists>i \<in> R. r = Instruction i | _ \<Rightarrow> True) r \<Longrightarrow> Q r s'"
  shows "lowers (traverse_scopes_from b () (continue_target label)) s Q"
proof -
  let ?g = "\<lambda>scope sc. case sc of
       Scope_Block _ _ (BK_Loop i bl) \<Rightarrow> if label = None \<or> same_label label bl then CF_Break (FL_Loop scope i) else CF_Continue ()
     | Scope_Block _ _ (BK_Block i (Some bl)) \<Rightarrow> if same_label label (Some bl) then CF_Break (FL_LabeledBlock bl) else CF_Continue ()
     | _ \<Rightarrow> CF_Continue ()"
  have eq: "continue_target label = (\<lambda>_ i sc. l_ret (?g i sc))" by (simp add: continue_target_def fun_eq_iff)
  have "lowers (traverse_scopes_from b () (\<lambda>_ i sc. l_ret (?g i sc))) s Q"
    by (rule lowers_pure_traverse [OF assms(1,2) _ assms(3)])
      (auto simp: scope_ok_def as_id_def split: scope.splits block_kind.splits if_splits instruction_ref.splits option.splits)
  then show ?thesis unfolding eq .
qed

lemma lowers_unwrap_id: "Q i s \<Longrightarrow> lowers (unwrap_id (Instruction i)) s Q"
  by (simp add: unwrap_id_def as_id_def lowers_ret)

lemma lowers_start_line_col:
  assumes "at P R sh u k s" and "\<And>line col. Q (line, col) s"
  shows "lowers (lower_start_line_col sp) s Q"
proof -
  obtain rest where st: "lw_line_starts s = 0 # rest" using assms(1) by (auto simp: at_def)
  define idx where "idx = (case binary_search (0 # rest) (span_start sp) of Inr i \<Rightarrow> i | Inl i \<Rightarrow> i - 1)"
  have "idx < length (0 # rest) \<and> (0 # rest) ! idx \<le> span_start sp"
  proof (cases "find_index (\<lambda>y. y = span_start sp) (0 # rest)")
    case None
    let ?w = "takeWhile (\<lambda>y. y < span_start sp) (0 # rest)"
    have "0 < span_start sp" using None by (auto split: if_splits)
    then have w: "?w \<noteq> []" by simp
    have "length ?w \<le> length (0 # rest)" by (rule length_takeWhile_le)
    moreover have "(0 # rest) ! (length ?w - 1) < span_start sp"
      using nth_mem [of "length ?w - 1" ?w] w takeWhile_nth [of "length ?w - 1" "\<lambda>y. y < span_start sp" "0 # rest"]
      by (metis (no_types, lifting) diff_less length_greater_0_conv set_takeWhileD zero_less_one)
    moreover have "idx = length ?w - 1" using None by (simp only: idx_def binary_search_def option.case sum.case)
    ultimately show ?thesis using w by (metis diff_less length_greater_0_conv less_imp_le less_le_trans zero_less_one)
  next
    case (Some i)
    then have "idx = i" by (simp only: idx_def binary_search_def option.case sum.case)
    then show ?thesis using find_index_SomeD [OF Some] by auto
  qed
  then show ?thesis using st assms(2)
    by (simp add: lowers_def lower_start_line_col_def l_bind_def l_gets_def l_nth_def l_ret_def Let_def idx_def)
qed

section \<open>The interface of the methods\<close>

locale lower_calls =
  fixes M :: lower_methods and n :: nat
  assumes expr_law: "at P R sh u k s \<Longrightarrow> expr_depth e \<le> n \<Longrightarrow> usable sh b \<Longrightarrow> ctx_ids ctx \<subseteq> R \<Longrightarrow>
      (\<And>r s'. at P (R \<union> set (ref_ids r)) sh u k s' \<Longrightarrow> Q r s') \<Longrightarrow> lowers (lk_expr M b e ctx) s Q"
    and type_law: "at P R sh u k s \<Longrightarrow> \<forall>c \<in> set_type_node ty. expr_depth c < n \<Longrightarrow> 0 < n \<Longrightarrow> usable sh b \<Longrightarrow>
      (\<And>r s'. at P (R \<union> set (ref_ids r)) sh u k s' \<Longrightarrow> Q r s') \<Longrightarrow> lowers (lk_type M b ty naming sp) s Q"
    and struct_law: "at P R sh u k s \<Longrightarrow> \<forall>c \<in> set_struct_ty st. expr_depth c < n \<Longrightarrow> 0 < n \<Longrightarrow> usable sh b \<Longrightarrow>
      (\<And>i s'. at P (insert i R) sh u k s' \<Longrightarrow> Q' i s') \<Longrightarrow> lowers (lk_struct M b st naming) s Q'"
    and enum_law: "at P R sh u k s \<Longrightarrow> \<forall>c \<in> set_enum_ty en. expr_depth c < n \<Longrightarrow> 0 < n \<Longrightarrow> usable sh b \<Longrightarrow>
      (\<And>i s'. at P (insert i R) sh u k s' \<Longrightarrow> Q' i s') \<Longrightarrow> lowers (lk_enum M b en naming) s Q'"
begin

lemma lowers_expr_named:
  assumes "at P R sh u k s" and "usable sh b" and "expr_depth e \<le> n" and "ctx_ids ctx \<subseteq> R"
    and ret: "\<And>r s'. at P (R \<union> set (ref_ids r)) sh u k s' \<Longrightarrow> Q r s'"
  shows "lowers (lower_expr_named M b e ctx naming) s Q"
proof (cases "\<exists>ty. expr_kind e = E_Type ty")
  case True
  then obtain ty where ty: "expr_kind e = E_Type ty" by auto
  have d: "\<forall>c \<in> set_type_node ty. expr_depth c < n" "0 < n"
    using child_depth [of _ e] assms(3) depth_pos [of e] ty by (fastforce, linarith)
  have "lowers (l_bind (lk_type M b ty naming (expr_span e)) (\<lambda>r. rvalue b r ctx (expr_span e))) s Q"
    by (insert assms(1,2,4) d at_shape [OF assms(1)],
        (rule low_rules type_law | assumption | rule ret | (rule at_weaken, assumption) | simp; fail | auto; fail)+)
  with ty show ?thesis by (simp add: lower_expr_named_def)
next
  case False
  then show ?thesis using expr_law [OF assms(1,3,2,4) ret] by (auto simp: lower_expr_named_def split: expr_kind.splits)
qed

lemma stack_alloc_ops [simp]:
  "opcode_ids (stack_alloc_op c m name r sp) = ref_ids r" "stack_alloc_op c m name r sp \<noteq> Op_Invalid"
  "opcode_ids (stack_alloc_inferred_op c m name sp) = []" "stack_alloc_inferred_op c m name sp \<noteq> Op_Invalid"
  by (auto simp: stack_alloc_op_def stack_alloc_inferred_op_def split: bool.splits)

lemma lowers_var_init:
  assumes "at P R sh u k s" and "usable sh b" and "ctx_ids ctx \<subseteq> R" and "expr_depth val \<le> n"
    and ret: "\<And>r s'. at P (R \<union> set (ref_ids r)) sh u k s' \<Longrightarrow> Q r s'"
  shows "lowers (if is_comptime
      then wrap_in_comptime_block b (\<lambda>block. lower_expr_named M block val ctx (Nm_Named name))
      else lower_expr_named M b val ctx Nm_FromPreviousStackAlloc) s Q"
  using assms(1-4) at_shape [OF assms(1)]
  by (cases is_comptime; simp only: if_True if_False)
    ((rule lowers_wrap_in_comptime_block lowers_expr_named | assumption | rule ret | simp; fail | auto; fail)+)

lemma lowers_var_binding:
  assumes "at P R sh u k s" and "usable sh b" and "\<forall>e \<in> set_var_binding vb. expr_depth e \<le> n"
    and ret: "\<And>r x s'. at P (R \<union> set (ref_ids r) \<union> scope_ids x) (sh @ [x]) u k s' \<Longrightarrow> local_scope x \<Longrightarrow> Q (r, length sh) s'"
  shows "lowers (lower_var_binding M b vb is_comptime is_mutable) s Q"
proof -
  obtain i name ty val where vb: "vb = VarBinding i name ty val" by (cases vb)
  have d: "expr_depth val \<le> n" "\<And>t. ty = Some t \<Longrightarrow> expr_depth t \<le> n" using assms(3) vb by auto
  have "lowers (lower_var_binding M b (VarBinding i name ty val) is_comptime is_mutable) s Q"
    unfolding lower_var_binding_def var_binding.sel Let_def
    by (insert assms(1,2) d at_shape [OF assms(1)] usable_less(1) [OF assms(2)],
        cases ty; cases is_mutable; simp only: option.case if_True if_False)
      ((rule low_rules lowers_inst_id lowers_var_init lowers_wrap_in_comptime_block expr_law | assumption | rule ret | (rule at_weaken, assumption)
        | simp only: prod.case expr_result_location.case bare_simps | simp; fail | auto; fail)+)
  with vb show ?thesis by simp
qed

lemma lowers_decl_init_expr:
  assumes "at P R sh u k s" and "usable sh b" and "expr_depth e \<le> n" and "ctx_ids ctx \<subseteq> R"
    and ret: "\<And>r s'. at P (R \<union> set (ref_ids r)) sh u k s' \<Longrightarrow> Q r s'"
  shows "lowers (lower_decl_init_expr M b e ctx) s Q"
proof -
  have d: "0 < n" "\<And>c. c \<in> set_expr_kind (expr_kind e) \<Longrightarrow> expr_depth c < n"
    using assms(3) depth_pos [of e] child_depth [of _ e] by (linarith, fastforce)
  have st: "lowers (l_bind (lk_struct M b st Nm_FromDecl) (\<lambda>i. l_ret (Instruction i))) s Q" if "expr_kind e = E_Type (T_Struct st)" for st
    using that d assms(1,2) at_shape [OF assms(1)]
    by - ((rule low_rules struct_law | assumption | rule ret | (rule at_weaken, assumption) | simp; fail | auto; fail)+)
  have en: "lowers (l_bind (lk_enum M b en Nm_FromDecl) (\<lambda>i. l_ret (Instruction i))) s Q" if "expr_kind e = E_Type (T_Enum en)" for en
    using that d assms(1,2) at_shape [OF assms(1)]
    by - ((rule low_rules enum_law | assumption | rule ret | (rule at_weaken, assumption) | simp; fail | auto; fail)+)
  show ?thesis using st en expr_law [OF assms(1,3,2,4) ret]
    by (auto simp: lower_decl_init_expr_def split: expr_kind.splits type_node.splits)
qed

lemma lowers_item_var_binding:
  assumes "at P R sh u k s" and "usable sh b" and "\<forall>e \<in> set_var_binding vb. expr_depth e \<le> n"
    and ret: "\<And>i s'. at P (insert i R) sh u k s' \<Longrightarrow> Q i s'"
  shows "lowers (lower_item_var_binding M b vb is_const) s Q"
proof -
  obtain i name ty val where vb: "vb = VarBinding i name ty val" by (cases vb)
  have d: "expr_depth val \<le> n" "\<And>t. ty = Some t \<Longrightarrow> expr_depth t \<le> n" using assms(3) vb by auto
  have "lowers (lower_item_var_binding M b (VarBinding i name ty val) is_const) s Q"
    unfolding lower_item_var_binding_def var_binding.sel Let_def
    by (insert assms(1,2) d at_shape [OF assms(1)] usable_less(1) [OF assms(2)], cases ty; simp only: option.case)
      ((rule low_rules lowers_decl_init_expr expr_law | assumption | rule ret | (rule at_weaken, assumption) | simp; fail | auto; fail)+)
  with vb show ?thesis by simp
qed

section \<open>Statements\<close>

lemma lowers_break:
  assumes "at P R sh u k s" and "usable sh b" and "\<And>e. value = Some e \<Longrightarrow> expr_depth e \<le> n"
    and ret: "\<And>r s'. at P (R \<union> set (ref_ids r)) sh u k s' \<Longrightarrow> Q (r, b) s'"
  shows "lowers (lower_break I M b label value sp) s Q"
  unfolding lower_break_def
proof (rule lowers_bind, rule lowers_break_target [OF assms(1) usable_less(1) [OF assms(2)]])
  fix r s' assume s': "at P R sh u k s'" and r: "pred_option (\<lambda>(_, r). \<exists>i \<in> R. r = Instruction i) r"
  note facts = s' assms(2,3) at_shape [OF assms(1)] usable_less(1) [OF assms(2)]
  show "lowers (case r of
          Some (_, block_inst) \<Rightarrow>
            l_bind (case value of
                      Some e \<Rightarrow> l_bind (lk_expr M b e RL_None) (\<lambda>r. l_ret (r, expr_span e))
                    | None \<Rightarrow> l_ret (Interned Key_Void, sp)) (\<lambda>(r, value_span).
            l_bind (unwrap_id block_inst) (\<lambda>block.
            l_bind (inst b (Op_Break block r value_span)) (\<lambda>i. l_ret (i, b))))
        | None \<Rightarrow>
            l_seq (case label of
                     Some l \<Rightarrow> l_error (diag_at I (''cannot find labeled block or loop `:'' @ id_symbol l @ ''`'') sp)
                   | None \<Rightarrow> l_error (diag_at I ''cannot break outside of loop or labeled block'' sp))
            (l_bind (inst b Op_Invalid) (\<lambda>i. l_ret (i, b)))) s' Q"
  proof (cases r)
    case None
    show ?thesis unfolding None option.case
      by (insert facts, cases label; simp only: option.case)
        ((rule lowers_inst_invalid low_rules | assumption | rule ret | (rule at_weaken, assumption) | simp; fail | auto; fail)+)
  next
    case (Some x)
    then obtain y i where x: "r = Some (y, Instruction i)" "i \<in> R" using r by (cases x) auto
    show ?thesis unfolding x(1) option.case prod.case
      by (insert facts x(2), cases "value"; simp only: option.case)
        ((rule low_rules lowers_unwrap_id expr_law | assumption | rule ret | (rule at_weaken, assumption) | simp only: prod.case | simp; fail | auto; fail)+)
  qed
qed

lemma lowers_continue:
  assumes "at P R sh u k s" and "usable sh b" and ret: "\<And>r s'. at P (R \<union> set (ref_ids r)) sh u k s' \<Longrightarrow> Q (r, b) s'"
  shows "lowers (lower_continue I b label sp) s Q"
  unfolding lower_continue_def
proof (rule lowers_bind, rule lowers_continue_target [OF assms(1) usable_less(1) [OF assms(2)]])
  fix r s' assume s': "at P R sh u k s'"
    and r: "pred_option (\<lambda>f. case f of FL_Loop _ r \<Rightarrow> \<exists>i \<in> R. r = Instruction i | _ \<Rightarrow> True) r"
  note facts = s' assms(2) at_shape [OF assms(1)] usable_less(1) [OF assms(2)]
  show "lowers (l_bind
       (case r of
          Some (FL_Loop scope block_inst) \<Rightarrow> l_bind (unwrap_id block_inst) (\<lambda>block. inst scope (Op_Repeat block))
        | Some (FL_LabeledBlock l) \<Rightarrow>
            l_seq (l_error (\<lambda>m. with_label I (diag_at I (''cannot continue label `:'' @ id_symbol l @ ''` which is not a loop'') sp m)
                     (label_with_message (label_with_span label_primary \<lparr>ds_module = m, ds_span = id_span l\<rparr>) ''label defined here'')))
              (inst b Op_Invalid)
        | None \<Rightarrow>
            l_seq (case label of
                     Some l \<Rightarrow> l_error (diag_at I (''cannot find labeled loop `:'' @ id_symbol l @ ''`'') sp)
                   | None \<Rightarrow> l_error (diag_at I ''cannot continue outside of a loop'' sp))
              (inst b Op_Invalid))
       (\<lambda>i. l_ret (i, b))) s' Q"
  proof (cases r)
    case None
    show ?thesis unfolding None option.case
      by (insert facts, cases label; simp only: option.case)
        ((rule lowers_inst_invalid low_rules | assumption | rule ret | (rule at_weaken, assumption) | simp; fail | auto; fail)+)
  next
    case (Some f)
    show ?thesis
    proof (cases f)
      case (FL_Loop y z)
      then obtain i where z: "z = Instruction i" "i \<in> R" using r Some by auto
      show ?thesis unfolding Some FL_Loop z(1) option.case find_loop_result.case
        by (insert facts z(2),
            (rule low_rules lowers_unwrap_id | assumption | rule ret | (rule at_weaken, assumption) | simp; fail | auto; fail)+)
    next
      case (FL_LabeledBlock l)
      show ?thesis unfolding Some FL_LabeledBlock option.case find_loop_result.case
        by (insert facts, (rule lowers_inst_invalid low_rules | assumption | rule ret | (rule at_weaken, assumption) | simp; fail | auto; fail)+)
    qed
  qed
qed

lemma lowers_assign:
  assumes "at P R sh u k s" and "usable sh b" and "expr_depth lhs \<le> n" and "expr_depth rhs \<le> n"
    and ret: "\<And>r s'. at P (R \<union> set (ref_ids r)) sh u k s' \<Longrightarrow> Q r s'"
  shows "lowers (lower_assign M b lhs a rhs sp) s Q"
  unfolding lower_assign_def
  by (insert assms(1-4) at_shape [OF assms(1)], cases "compound_op a"; simp only: option.case)
    ((rule low_rules expr_law | assumption | rule ret | (rule at_weaken, assumption) | simp; fail | auto; fail)+)

lemma lowers_return:
  assumes "at P R sh u k s" and "usable sh b" and "\<And>e. value = Some e \<Longrightarrow> expr_depth e \<le> n"
    and ret: "\<And>r s'. at P (R \<union> set (ref_ids r)) sh u k s' \<Longrightarrow> Q (r, b) s'"
  shows "lowers (lower_return M b value sp) s Q"
proof -
  have tail: "lowers (l_bind (l_gets lw_fn_body_root_scope) (\<lambda>root.
            (case root of
               None \<Rightarrow> l_panic Lf_ReturnOutsideFunction
             | Some root \<Rightarrow>
                 l_seq (append_defers b root)
                 (l_bind (inst b (Op_Return r sp)) (\<lambda>i. l_ret (i, b)))))) s' Q"
    if s': "at P R' sh u k s'" and r: "set (opt_ids r) \<subseteq> R'" "R \<subseteq> R'" for r R' s'
    by (rule lowers_bind, rule lowers_gets, insert s' r assms(2) at_shape [OF assms(1)] usable_less(1) [OF assms(2)],
        cases "lw_fn_body_root_scope s'"; simp only: option.case)
      ((rule low_rules | assumption | rule ret | (rule at_weaken, assumption) | simp; fail | auto; fail)+)
  show ?thesis unfolding lower_return_def
    by (insert assms(1-3) at_shape [OF assms(1)], rule lowers_bind, rule lowers_opt)
      ((rule low_rules expr_law tail | assumption | simp; fail | auto; fail)+)
qed

lemma lowers_stmt:
  assumes "at P R sh u k s" and "usable sh b" and "\<forall>e \<in> set_statement stmt. expr_depth e \<le> n"
    and ret: "\<And>r sc ext s'. at P (R \<union> set (ref_ids r) \<union> shape_ids ext) (sh @ ext) u k s' \<Longrightarrow> usable (sh @ ext) sc \<Longrightarrow>
      list_all local_scope ext \<Longrightarrow> Q (r, sc) s'"
  shows "lowers (lower_stmt I M b stmt) s Q"
proof -
  obtain i kd sp where st: "stmt = Statement i kd sp" by (cases stmt)
  have ret0: "Q (r, b) s'" if "at P (R \<union> set (ref_ids r)) sh u k s'" for r s'
    using ret [of r "[]"] that assms(2) by simp
  have ret1: "Q (r, length sh) s'" if "at P (R \<union> set (ref_ids r) \<union> scope_ids x) (sh @ [x]) u k s'" "local_scope x" for r x s'
    using ret [of r "[x]" s' "length sh"] that by (simp add: local_scope_def)
  have d: "\<forall>e \<in> set_statement_kind kd. expr_depth e \<le> n" using assms(3) st by simp
  have s1: "lowers (case kd of
          St_Const binding \<Rightarrow> lower_var_binding M b binding False False
        | St_Var binding \<Rightarrow> lower_var_binding M b binding False True
        | St_ComptimeVarBinding binding \<Rightarrow> lower_var_binding M b binding True True
        | St_Expr e \<Rightarrow> l_bind (lk_expr M b e RL_None) (\<lambda>r. l_ret (r, b))
        | St_Return value \<Rightarrow> lower_return M b value sp
        | St_Break label value \<Rightarrow> lower_break I M b label value sp
        | St_Continue label _ \<Rightarrow> lower_continue I b label sp
        | St_Assign lhs a rhs \<Rightarrow> l_bind (lower_assign M b lhs a rhs sp) (\<lambda>r. l_ret (r, b))
        | St_Defer e \<Rightarrow>
            l_bind (stack_block b BK_Body) (\<lambda>defer_body_scope.
            l_seq (lk_expr M defer_body_scope e RL_None)
            (l_bind (collect_instructions_and_unstack_block defer_body_scope) (\<lambda>defer_body.
             l_bind (push_scope (Scope_Defer b defer_body sp)) (\<lambda>defer_scope.
               l_ret (Interned Key_Void, defer_scope)))))
        | St_Errdefer _ \<Rightarrow> l_panic Lf_Errdefer) s' Q" if s': "at P R' sh u k s'" "R \<subseteq> R'" for s' R'
    by (insert s' assms(2) d at_shape [OF assms(1)] usable_less(1) [OF assms(2)], cases kd; simp only: statement_kind.case)
      ((rule low_rules lowers_var_binding lowers_return lowers_break lowers_continue lowers_assign expr_law
        | assumption | rule ret0 | rule ret1 | (rule at_weaken, assumption) | simp only: bare_simps | simp; fail | auto; fail)+)
  show ?thesis unfolding lower_stmt_def st statement.sel
    by (rule lowers_bind, rule lowers_start_line_col [OF assms(1)], simp only: prod.case, rule lowers_seq, rule lowers_inst [OF assms(1)])
      (auto intro!: s1)
qed

end
end
