(* ===== verification/Vif_Lower_Bodies.thy ===== *)
theory Vif_Lower_Bodies
  imports Vif_Lower_Calls
begin

text \<open>
  The methods of the lowerer in the logic, continued: blocks, branches, functions and type declarations.
\<close>

context lower_calls
begin

lemma lowers_stmts:
  assumes "at P R sh u k s" and "usable sh b" and "\<forall>stmt \<in> set stmts. \<forall>e \<in> set_statement stmt. expr_depth e \<le> n"
    and ret: "\<And>sc ext s'. at P (R \<union> shape_ids ext) (sh @ ext) u k s' \<Longrightarrow> usable (sh @ ext) sc \<Longrightarrow> list_all local_scope ext \<Longrightarrow> Q sc s'"
  shows "lowers (lower_stmts I M b stmts) s Q"
  using assms
proof (induction stmts arbitrary: s b sh R Q)
  case Nil
  show ?case using Nil(4) [of "[]" s b] Nil(1,2) by (auto intro!: lowers_ret)
next
  case (Cons stmt stmts)
  show ?case unfolding lower_stmts.simps
  proof (rule lowers_bind, rule lowers_stmt [OF Cons.prems(1,2)])
    fix r sc ext s'
    assume s': "at P (R \<union> set (ref_ids r) \<union> shape_ids ext) (sh @ ext) u k s'" "usable (sh @ ext) sc" "list_all local_scope ext"
    show "lowers (case (r, sc) of (_, stmt_scope) \<Rightarrow> lower_stmts I M stmt_scope stmts) s' Q"
      unfolding prod.case
    proof (rule Cons.IH [OF s'(1,2)])
      fix sc' ext' s''
      assume "at P (R \<union> set (ref_ids r) \<union> shape_ids ext \<union> shape_ids ext') ((sh @ ext) @ ext') u k s''"
        "usable ((sh @ ext) @ ext') sc'" "list_all local_scope ext'"
      then show "Q sc' s''"
        using Cons.prems(4) [of "ext @ ext'" s'' sc'] s'(3) at_shape [OF Cons.prems(1)] at_weaken [of P "R \<union> set (ref_ids r) \<union> shape_ids ext \<union> shape_ids ext'" "(sh @ ext) @ ext'" u k s'' "R \<union> (shape_ids ext \<union> shape_ids ext')" u] by auto
    qed (use Cons.prems(3) in simp)
  qed (use Cons.prems(3) in simp)
qed

lemma lowers_block:
  assumes "at P R sh u k s" and "usable sh b" and "\<forall>e \<in> set_block blk. expr_depth e \<le> n"
    and ret: "\<And>ext s'. at P (R \<union> shape_ids ext) (sh @ ext) u k s' \<Longrightarrow> list_all local_scope ext \<Longrightarrow> Q () s'"
  shows "lowers (lower_block I M b blk) s Q"
  unfolding lower_block_def
  by (rule lowers_bind, rule lowers_stmts [OF assms(1,2)], use assms(3) in \<open>cases blk; auto\<close>, rule lowers_append_defers)
    (auto intro: ret usable_less)

lemma lowers_break_unless_never:
  assumes "at P R sh u k s" and "block_at sh b" and "i \<in> R" and "set (ref_ids r) \<subseteq> R" and "\<And>s'. at P R sh u k s' \<Longrightarrow> Q () s'"
  shows "lowers (break_unless_never b i r sp) s Q"
  unfolding break_unless_never_def
  by (insert assms(1-4) at_shape [OF assms(1)],
      (rule low_rules | assumption | rule assms(5) | (rule at_weaken, assumption) | simp; fail | auto; fail)+)

lemma lowers_if_body:
  assumes "at P R sh u k s" and "block_at sh b" and "\<forall>e \<in> set_if_body body. expr_depth e \<le> n" and "i \<in> R" and "ctx_ids ctx \<subseteq> R"
    and ret: "\<And>ext s'. at P (R \<union> shape_ids ext) (sh @ ext) u k s' \<Longrightarrow> list_all local_scope ext \<Longrightarrow> Q () s'"
  shows "lowers (lower_if_body I M b body i ctx) s Q"
proof -
  have ret0: "Q () s'" if "at P R sh u k s'" for s' using ret [of "[]"] that by simp
  show ?thesis unfolding lower_if_body_def
    by (insert assms(1-5) at_shape [OF assms(1)] block_usable [OF assms(2)], cases body; simp only: if_body.case)
      ((rule low_rules lowers_block lowers_break_unless_never expr_law | assumption | (rule ret0, rule at_weaken, assumption) | (rule ret, rule at_weaken, assumption) | (rule at_weaken, assumption)
        | simp; fail | auto; fail)+)
qed

lemma lowers_expr_if:
  fixes i :: "expr if_node" and eb :: "expr else_block"
  shows "at P R sh u k s \<Longrightarrow> usable sh b \<Longrightarrow> \<forall>e \<in> set_if_node i. expr_depth e \<le> n \<Longrightarrow> ctx_ids ctx \<subseteq> R \<Longrightarrow>
      (\<And>r s'. at P (R \<union> set (ref_ids r)) sh u k s' \<Longrightarrow> Q r s') \<Longrightarrow> lowers (lower_expr_if I M i b ctx) s Q"
    and "at P R sh u k s \<Longrightarrow> block_at sh b \<Longrightarrow> \<forall>e \<in> set_else_block eb. expr_depth e \<le> n \<Longrightarrow> j \<in> R \<Longrightarrow> ctx_ids ctx \<subseteq> R \<Longrightarrow>
      (\<And>ext s'. at P (R \<union> shape_ids ext) (sh @ ext) u k s' \<Longrightarrow> list_all local_scope ext \<Longrightarrow> Q' () s') \<Longrightarrow>
      lowers (lower_else I M eb b j ctx) s Q'"
proof (induction i and eb arbitrary: P R sh u k s b ctx Q and P R sh u k s b j ctx Q')
  case (If_Node i c then_b else_b sp)
  note prems = If_Node.prems(1-4) at_shape [OF If_Node.prems(1)] usable_less(1) [OF If_Node.prems(2)]
  show ?case
  proof (cases else_b)
    case None
    show ?thesis unfolding lower_expr_if.simps None option.map option.case
      by (insert prems,
          ((rule lowers_collect_locals, assumption) | rule low_rules lowers_inst_id lowers_if_body lowers_break_unless_never expr_law
            | assumption | rule If_Node.prems(5) | (rule at_weaken, assumption) | simp; fail | auto; fail)+)
  next
    case (Some eb)
    have el: "\<And>P R sh u k s b j ctx Q'. at P R sh u k s \<Longrightarrow> block_at sh b \<Longrightarrow> \<forall>e \<in> set_else_block eb. expr_depth e \<le> n \<Longrightarrow> j \<in> R \<Longrightarrow> ctx_ids ctx \<subseteq> R \<Longrightarrow>
      (\<And>ext s'. at P (R \<union> shape_ids ext) (sh @ ext) u k s' \<Longrightarrow> list_all local_scope ext \<Longrightarrow> Q' () s') \<Longrightarrow>
      lowers (lower_else I M eb b j ctx) s Q'"
      using If_Node.IH Some by simp
    have d: "\<forall>e \<in> set_else_block eb. expr_depth e \<le> n" using If_Node.prems(3) Some by simp
    show ?thesis unfolding lower_expr_if.simps Some option.map option.case
      by (insert prems d,
          ((rule lowers_collect_locals, assumption) | rule low_rules lowers_inst_id lowers_if_body lowers_break_unless_never expr_law el
            | assumption | rule If_Node.prems(5) | (rule at_weaken, assumption) | simp; fail | auto; fail)+)
  qed
next
  case (ElseBlock_If i)
  have ret0: "Q' () s'" if "at P R sh u k s'" for s' using ElseBlock_If.prems(6) [of "[]"] that by simp
  show ?case unfolding lower_else.simps
    by (insert ElseBlock_If.prems(1-5) at_shape [OF ElseBlock_If.prems(1)] block_usable [OF ElseBlock_If.prems(2)],
        (rule low_rules ElseBlock_If.IH | assumption | rule ret0 | (rule at_weaken, assumption) | simp; fail | auto; fail)+)
next
  case (ElseBlock_Body body)
  then show ?case using lowers_if_body [of P R sh u k s b body j ctx Q'] by simp
qed

lemma lowers_switch_body:
  assumes "at P R sh u k s" and "usable sh b" and "\<forall>e \<in> set_switch_body body. expr_depth e \<le> n" and "ctx_ids ctx \<subseteq> R"
    and ret: "\<And>r sp ext s'. at P (R \<union> set (ref_ids r) \<union> shape_ids ext) (sh @ ext) u k s' \<Longrightarrow> list_all local_scope ext \<Longrightarrow> Q (r, sp) s'"
  shows "lowers (lower_switch_body I M b body ctx) s Q"
proof -
  have ret0: "Q (r, sp) s'" if "at P (R \<union> set (ref_ids r)) sh u k s'" for r sp s' using ret [of r "[]"] that by simp
  show ?thesis unfolding lower_switch_body_def
    by (insert assms(1-4) at_shape [OF assms(1)], cases body; simp only: switch_body.case)
      ((rule low_rules lowers_block expr_law | assumption | (rule ret0, rule at_weaken, assumption) | (rule ret, rule at_weaken, assumption) | (rule at_weaken, assumption) | simp; fail | auto; fail)+)
qed

end

end
