(* ===== verification/Vif_Lower_Items.thy ===== *)
theory Vif_Lower_Items
  imports Vif_Lower_Bodies
begin

text \<open>
  The methods of the lowerer in the logic, continued: functions, namespaces and the declarations of types.
\<close>

section \<open>Namespaces\<close>

lemma lowers_collect_namespace_items:
  assumes "at P R sh u k s" and "\<And>decls s'. at P R sh u k s' \<Longrightarrow> Q decls s'"
  shows "lowers (collect_namespace_items I decls items) s Q"
  using assms(1)
proof (induction items arbitrary: s decls)
  case Nil
  then show ?case using assms(2) by (auto intro: lowers_ret)
next
  case (Cons item items)
  show ?case unfolding collect_namespace_items.simps Let_def
    by (rule lowers_seq, insert Cons.prems, cases "decls (id_symbol (item_ident item))"; simp only: option.case case_prod_unfold)
      ((rule low_rules Cons.IH | assumption)+)
qed

lemma lowers_push_namespace:
  assumes "at P R sh u k s" and "\<And>p. parent = Some p \<Longrightarrow> p < length sh"
    and "\<And>d s'. at P R (sh @ [Scope_Namespace parent d []]) u k s' \<Longrightarrow> Q (length sh) s'"
  shows "lowers (push_namespace I parent items) s Q"
  unfolding push_namespace_def
  by (rule lowers_bind, rule lowers_collect_namespace_items [OF assms(1)], rule lowers_push_scope, assumption)
    (use assms(2,3) in \<open>auto simp: scope_ok_def caps_ids_def\<close>)

lemma lowers_namespace_captures:
  assumes "at P R sh u k s" and "i < length sh" and "is_ns (sh ! i)"
    and "\<And>cs. at P (R \<union> (\<Union>c \<in> set cs. set (capture_ids c))) sh u k s \<Longrightarrow> Q cs s"
  shows "lowers (namespace_captures i) s Q"
  unfolding namespace_captures_def
proof (rule lowers_bind, rule lowers_scope_at [OF assms(1,2)])
  fix sc assume sc: "bare sc = sh ! i" "sc \<in> set (lw_scopes s)"
  then have "is_ns sc" using assms(3) bare_simps(3) [of sc] by simp
  then obtain p d cs where ns: "sc = Scope_Namespace p d cs" by (cases sc) auto
  have "caps_ids sc \<subseteq> {..<length (lw_instructions s)}" using assms(1) sc(2) by (auto simp: at_def)
  then have "at P (R \<union> (\<Union>c \<in> set cs. set (capture_ids c))) sh u k s" using assms(1) ns by (auto simp: at_def caps_ids_def)
  then show "lowers (case sc of Scope_Namespace _ _ cs \<Rightarrow> l_ret cs | _ \<Rightarrow> l_panic Lf_Unreachable) s Q"
    using ns assms(4) by (auto intro: lowers_ret)
qed

lemma lowers_builtin:
  assumes "at P R sh u k s" and "\<And>b s'. at P R sh u k s' \<Longrightarrow> Q b s'"
  shows "lowers (lower_builtin I name) s Q"
  unfolding lower_builtin_def Let_def
  by (cases "builtin_of (id_symbol name)"; simp only: option.case)
    (auto intro!: lowers_ret lowers_seq lowers_error [OF assms(1)] assms)

context lower_calls
begin

section \<open>Functions\<close>

lemma lowers_fn_params:
  assumes "at P R sh u k s" and "usable sh b" and "\<forall>p \<in> set params. \<forall>e \<in> set_fn_param p. expr_depth e \<le> n" and "flag < k"
    and "\<And>sc ext s'. at P (R \<union> shape_ids ext) (sh @ ext) u k s' \<Longrightarrow> list_all local_scope ext \<Longrightarrow> usable (sh @ ext) sc \<Longrightarrow> Q sc s'"
  shows "lowers (lower_fn_params M flag b params) s Q"
  using assms
proof (induction params arbitrary: s b sh R u Q)
  case Nil
  show ?case using Nil(5) [of "[]" s b] Nil(1,2) by (auto intro!: lowers_ret)
next
  case (Cons param params)
  obtain i c name ty where p: "param = FnParam i c name ty" by (cases param)
  have step: "lowers (lower_fn_params M flag (length sh) params) s' Q"
    if s': "at P R' (sh @ [Scope_LocalValue b nm i (Instruction j) (Some flag)]) u' k s'" "R \<subseteq> R'" "u \<le> u'" for s' R' u' nm j
  proof (rule Cons.IH [OF s'(1)])
    fix sc ext s'' assume "at P (R' \<union> shape_ids ext) ((sh @ [Scope_LocalValue b nm i (Instruction j) (Some flag)]) @ ext) u' k s''"
      and "list_all local_scope ext" and "usable ((sh @ [Scope_LocalValue b nm i (Instruction j) (Some flag)]) @ ext) sc"
    moreover from this(1) have "j \<in> R' \<union> shape_ids ext" by (auto simp: at_def)
    ultimately show "Q sc s''"
      using Cons.prems(5) [of "Scope_LocalValue b nm i (Instruction j) (Some flag) # ext" s'' sc] s'(2,3) at_shape [OF Cons.prems(1)]
        at_weaken [of P "R' \<union> shape_ids ext" "(sh @ [Scope_LocalValue b nm i (Instruction j) (Some flag)]) @ ext" u' k s''
          "R \<union> (insert j (shape_ids ext))" u] by auto
  qed (use Cons.prems in auto)
  have d: "expr_depth ty \<le> n" using Cons.prems(3) p by simp
  show ?case unfolding p lower_fn_params.simps fn_param.case
    by (insert Cons.prems(1,2,4) d usable_less(1) [OF Cons.prems(2)],
        (rule step | rule low_rules expr_law | assumption | simp only: bare_simps | simp; fail | auto; fail)+)
qed

lemma lowers_ret_ty:
  assumes "at P R sh u k s" and "usable sh b" and "expr_depth e \<le> n" and "flag < k"
    and ret: "\<And>i g s'. at P (insert i R) sh u k s' \<Longrightarrow> Q (i, g) s'"
  shows "lowers (lower_ret_ty M flag b e) s Q"
  unfolding lower_ret_ty_def
  by (insert assms(1-4) at_shape [OF assms(1)] usable_less(1) [OF assms(2)],
      (rule low_rules expr_law | assumption | rule ret | (rule at_weaken, assumption) | simp; fail | auto; fail)+)

lemma lowers_callconv:
  assumes "at P R sh u k s" and "usable sh b" and "expr_depth e \<le> n" and ret: "\<And>i s'. at P (insert i R) sh u k s' \<Longrightarrow> Q i s'"
  shows "lowers (lower_callconv M b e) s Q"
  unfolding lower_callconv_def
  by (insert assms(1-3) at_shape [OF assms(1)] usable_less(1) [OF assms(2)],
      (rule low_rules expr_law | assumption | rule ret | (rule at_weaken, assumption) | simp; fail | auto; fail)+)

lemma lowers_fn_block:
  assumes "at P R sh u k s" and "usable sh b" and "\<forall>e \<in> set_block blk. expr_depth e \<le> n"
    and ret: "\<And>ext s'. at P (R \<union> shape_ids ext) (sh @ ext) u k s' \<Longrightarrow> list_all local_scope ext \<Longrightarrow> Q () s'"
  shows "lowers (lower_fn_block I M b blk) s Q"
  unfolding lower_fn_block_def
  by (rule lowers_bind, rule lowers_gets, insert assms(1-3),
      (rule low_rules lowers_set_root lowers_block | assumption | rule ret)+)

lemma lowers_callconv_opt:
  assumes "at P R sh u k s" and "usable sh b" and "\<And>e. cc = Some e \<Longrightarrow> expr_depth e \<le> n"
    and ret: "\<And>c s'. at P (R \<union> set_option c) sh u k s' \<Longrightarrow> Q c s'"
  shows "lowers (l_opt (lower_callconv M b) cc) s Q"
  by (rule lowers_opt, rule lowers_callconv [OF assms(1,2)]) (use assms in auto)

lemma lowers_fn_body_opt:
  assumes "at P R sh u k s" and "usable sh b" and "\<And>blk. body = Some blk \<Longrightarrow> \<forall>e \<in> set_block blk. expr_depth e \<le> n"
    and ret: "\<And>ext s'. at P (R \<union> shape_ids ext) (sh @ ext) u k s' \<Longrightarrow> list_all local_scope ext \<Longrightarrow> Q () s'"
  shows "lowers (case body of Some block \<Rightarrow> lower_fn_block I M b block | None \<Rightarrow> l_ret ()) s Q"
proof (cases body)
  case None
  then show ?thesis using ret [of "[]" s] assms(1) by (auto intro: lowers_ret)
next
  case (Some blk)
  have "lowers (lower_fn_block I M b blk) s Q" by (rule lowers_fn_block [OF assms(1,2) assms(3) [OF Some]]) (rule ret)
  with Some show ?thesis by simp
qed

lemma lowers_fn_parts:
  assumes "at P R sh u k s" and "usable sh b" and "\<forall>e \<in> set_fn_node f. expr_depth e \<le> n"
    and ret: "\<And>ps body rt g cc s'. at P (R \<union> set ps \<union> set body \<union> {rt} \<union> set_option cc) sh u k s' \<Longrightarrow> Q (ps, body, rt, g, cc) s'"
  shows "lowers (lower_fn_parts I M b f) s Q"
proof -
  have d: "\<forall>p \<in> set (fn_params f). \<forall>e \<in> set_fn_param p. expr_depth e \<le> n" "expr_depth (fn_ret_ty f) \<le> n"
    "\<And>e. fn_callconv f = Some e \<Longrightarrow> expr_depth e \<le> n" "\<And>blk. fn_block f = Some blk \<Longrightarrow> \<forall>e \<in> set_block blk. expr_depth e \<le> n"
    using assms(3) by (cases f; auto)+
  show ?thesis unfolding lower_fn_parts_def
    by (insert assms(1,2) d at_shape [OF assms(1)] at_tree [OF assms(1)] usable_less(1) [OF assms(2)],
        ((rule lowers_unstack_locals2, assumption) | rule low_rules lowers_uir_len lowers_fn_params lowers_ret_ty lowers_callconv_opt lowers_fn_body_opt lowers_gets lowers_slice_uir
          | assumption | rule ret | (rule at_weaken, assumption) | simp only: prod.case | simp; fail | auto; fail)+)
qed

lemma lowers_associated_fn:
  assumes "at P R sh u k s" and "usable sh b" and "\<forall>e \<in> set_fn_node f. expr_depth e \<le> n"
    and ret: "\<And>i s'. at P (insert i R) sh u k s' \<Longrightarrow> Q i s'"
  shows "lowers (lower_associated_fn I M b f) s Q"
  unfolding lower_associated_fn_def Let_def
  by (insert assms(1-3) at_shape [OF assms(1)] usable_less(1) [OF assms(2)],
      (rule low_rules lowers_fn_parts lowers_builtin | assumption | rule ret | (rule at_weaken, assumption) | simp only: prod.case
        | simp; fail | (auto split: option.splits; fail))+)

lemma lowers_associated_item:
  assumes "at P R sh u k s" and "usable sh b" and "\<forall>e \<in> set_associated_item item. expr_depth e \<le> n"
    and ret: "\<And>i s'. at P (insert i R) sh u k s' \<Longrightarrow> Q i s'"
  shows "lowers (lower_associated_item I M b item) s Q"
proof -
  have "\<forall>e \<in> set_associated_item_kind (ai_kind item). expr_depth e \<le> n" using assms(3) by (cases item) simp
  then show ?thesis unfolding lower_associated_item_def
    by (cases "ai_kind item") (auto intro!: lowers_associated_fn [OF assms(1,2)] lowers_item_var_binding [OF assms(1,2)] ret)
qed

lemma lowers_namespace_items:
  assumes "at P R sh u k s" and "b < length sh" and "\<forall>item \<in> set items. \<forall>e \<in> set_associated_item item. expr_depth e \<le> n"
    and ret: "\<And>ds s'. at P (R \<union> set ds) sh u k s' \<Longrightarrow> Q ds s'"
  shows "lowers (lower_namespace_items I M b items) s Q"
  unfolding lower_namespace_items_def
proof (rule lowers_bind, rule lowers_stack_block [OF assms(1,2)])
  fix st s' assume st: "u \<le> st" "at P R (sh @ [Scope_Block (Some b) st BK_Body]) st k s'"
  show "lowers (l_bind (l_map (lower_associated_item I M (length sh)) items) (\<lambda>decls. l_seq (unstack_block (length sh)) (l_ret decls))) s' Q"
  proof (rule lowers_bind, rule lowers_map [where ids = "\<lambda>i. {i}", OF st(2)])
    fix x R' s Q assume "x \<in> set items" "at P R' (sh @ [Scope_Block (Some b) st BK_Body]) st k s"
      "\<And>y s'. at P (R' \<union> {y}) (sh @ [Scope_Block (Some b) st BK_Body]) st k s' \<Longrightarrow> Q y s'"
    then show "lowers (lower_associated_item I M (length sh) x) s Q"
      using assms(3) by (intro lowers_associated_item) auto
  next
    fix ds s' assume s': "at P (R \<union> (\<Union>y \<in> set ds. {y})) (sh @ [Scope_Block (Some b) st BK_Body]) st k s'"
    show "lowers (l_seq (unstack_block (length sh)) (l_ret ds)) s' Q"
      by (rule lowers_seq, rule lowers_unstack_simple [OF s'], rule lowers_ret, rule ret, rule at_weaken, assumption)
        (use st(1) at_shape [OF assms(1)] in auto)
  qed
qed simp_all

section \<open>Declarations of types\<close>

lemma lowers_field_ty:
  assumes "at P R sh u k s" and "b < length sh" and "expr_depth ty \<le> n" and "i \<in> R"
    and ret: "\<And>t s'. at P (R \<union> set (field_ty_ids t)) sh u k s' \<Longrightarrow> Q t s'"
  shows "lowers (lower_field_ty M b i ty) s Q"
  unfolding lower_field_ty_def
  by (insert assms(1-4) at_shape [OF assms(1)],
      (rule low_rules expr_law | assumption | rule ret | (rule at_weaken, assumption) | simp; fail | (auto simp: field_ty_ids_def; fail))+)

lemma lowers_fields:
  assumes "at P R sh u k s" and "b < length sh" and "\<forall>f \<in> set fs. \<forall>e \<in> set_field_def f. expr_depth e \<le> n" and "i \<in> R"
    and ret: "\<And>ys s'. at P (R \<union> (\<Union>f \<in> set ys. set (field_ty_ids (fld_ty f)))) sh u k s' \<Longrightarrow> Q ys s'"
  shows "lowers (l_map (lower_field M b i) fs) s Q"
proof (rule lowers_map [where ids = "\<lambda>f. set (field_ty_ids (fld_ty f))", OF assms(1)])
  fix f R' s and Q :: "field \<Rightarrow> lowerer \<Rightarrow> bool" assume f: "f \<in> set fs" "at P R' sh u k s" "R \<subseteq> R'"
    and ret': "\<And>y s'. at P (R' \<union> set (field_ty_ids (fld_ty y))) sh u k s' \<Longrightarrow> Q y s'"
  obtain nd name pu ty df sp where fd: "f = FieldDef nd name pu ty df sp" by (cases f)
  show "lowers (lower_field M b i f) s Q" unfolding lower_field_def fd field_def.case
    by (rule lowers_bind, rule lowers_field_ty [OF f(2) assms(2)]) (use assms(3,4) f fd ret' in \<open>auto intro!: lowers_ret\<close>)
qed (rule ret)

lemma lowers_struct:
  assumes "at P R sh u k s" and "usable sh b" and "\<forall>e \<in> set_struct_ty st. expr_depth e \<le> n"
    and ret: "\<And>i s'. at P (insert i R) sh u k s' \<Longrightarrow> Q i s'"
  shows "lowers (lower_struct I M b st naming) s Q"
proof -
  have d: "\<forall>f \<in> set (sty_fields st). \<forall>e \<in> set_field_def f. expr_depth e \<le> n"
    "\<forall>item \<in> set (sty_items st). \<forall>e \<in> set_associated_item item. expr_depth e \<le> n" using assms(3) by (cases st; auto)+
  show ?thesis unfolding lower_struct_def
    by (insert assms(1,2) d at_shape [OF assms(1)] usable_less(1) [OF assms(2)],
        (rule low_rules lowers_push_namespace lowers_fields lowers_namespace_items lowers_namespace_captures
          | assumption | rule ret | (rule at_weaken, assumption) | simp; fail | auto; fail)+)
qed

end

end
