(* ===== verification/Vif_Lower_Total.thy ===== *)
theory Vif_Lower_Total
  imports Vif_Lower_Items
begin

text \<open>
  The methods of the lowerer in the logic, concluded: enums, unions, types and expressions, and the interpretation of
  the interface on the methods of the code.
\<close>

lemma optl_simps [simp]: "optl None = []" "optl (Some xs) = xs"
  by (simp_all add: optl_def)

lemma spanned_ids_simps [simp]: "spanned_ids None = []" "spanned_ids (Some (r, sp)) = ref_ids r"
  by (simp_all add: spanned_ids_def)

context lower_calls
begin

section \<open>Enums and unions\<close>

lemma lowers_spanned:
  assumes "at P R sh u k s" and "usable sh b" and "\<And>e. x = Some e \<Longrightarrow> expr_depth e \<le> n"
    and ret: "\<And>r s'. at P (R \<union> set (spanned_ids r)) sh u k s' \<Longrightarrow> Q r s'"
  shows "lowers (l_opt (\<lambda>e. l_bind (lk_expr M b e RL_None) (\<lambda>r. l_ret (r, expr_span e))) x) s Q"
  by (rule lowers_opt, rule lowers_bind, rule expr_law [OF assms(1) _ assms(2)])
    (use assms(1,3) ret [of None] ret [of "Some (_, _)"] in \<open>auto intro!: lowers_ret\<close>)

lemma lowers_variants:
  assumes "at P R sh u k s" and "usable sh b" and "i < length sh" and "is_ns (sh ! i)"
    and "\<forall>v \<in> set vs. \<forall>e \<in> set_enum_variant_def v. expr_depth e \<le> n"
    and "\<And>ys s'. at P (R \<union> (\<Union>v \<in> set ys. set (spanned_ids (ev_value v)))) sh u k s' \<Longrightarrow> Q ys s'"
  shows "lowers (lower_variants I M b i seen vs) s Q"
  using assms(1,5,6)
proof (induction vs arbitrary: s R seen Q)
  case Nil
  then show ?case by (auto intro!: lowers_ret)
next
  case (Cons v vs)
  obtain nd name val sp where v: "v = EnumVariantDef nd name val sp" by (cases v)
  have d: "\<And>e. val = Some e \<Longrightarrow> expr_depth e \<le> n" using Cons.prems(2) v by auto
  have rest: "lowers (l_bind (lower_variants I M b i seen' vs) (\<lambda>rest. l_ret (\<lparr>ev_ident = name, ev_value = r, ev_span = sp\<rparr> # rest))) s' Q"
    if s': "at P (R \<union> set (spanned_ids r)) sh u k s'" for r s' seen'
    by (rule lowers_bind, rule Cons.IH [OF s']) (use Cons.prems(2,3) in \<open>auto intro!: lowers_ret simp: Un_assoc\<close>)
  have dup: "lowers (l_seq (case seen (id_symbol name) of Some existing \<Rightarrow> l_error (f existing) | None \<Rightarrow> l_ret ())
      (l_bind (lower_variants I M b i seen' vs) (\<lambda>rest. l_ret (\<lparr>ev_ident = name, ev_value = r, ev_span = sp\<rparr> # rest)))) s' Q"
    if s': "at P (R \<union> set (spanned_ids r)) sh u k s'" for r s' seen' f
    by (rule lowers_seq, insert s', cases "seen (id_symbol name)"; simp only: option.case)
      ((rule low_rules rest | assumption)+)
  show ?case unfolding v lower_variants.simps enum_variant_def.case
  proof (rule lowers_bind, rule lowers_spanned [OF Cons.prems(1) assms(2) d], assumption, rule lowers_bind,
      rule lowers_scope_at [OF _ assms(3)], assumption, rule lowers_seq)
    fix r s' sc assume s': "at P (R \<union> set (spanned_ids r)) sh u k s'" and "bare sc = sh ! i"
    then have "is_ns sc" using assms(4) bare_simps(3) [of sc] by simp
    then obtain p decls cs where sc: "sc = Scope_Namespace p decls cs" by (cases sc) auto
    show "lowers (case sc of
             Scope_Namespace _ decls _ \<Rightarrow>
               (case decls (id_symbol name) of
                  Some (_, existing) \<Rightarrow>
                    l_error (\<lambda>m. with_note (diag_two I (''enum variant `'' @ id_symbol name @ ''` conflicts with an associated declaration'')
                              (id_span name) ''variant defined here'' label_secondary existing ''associated declaration defined here'' m)
                            ''a name can only appear once in an enum namespace'')
                | None \<Rightarrow> l_ret ())
           | _ \<Rightarrow> l_panic Lf_Unreachable) s' (\<lambda>x s'. lowers (l_seq
          (case seen (id_symbol name) of
             Some existing \<Rightarrow>
               l_error (diag_two I (''enum variant `'' @ id_symbol name @ ''` already defined'') (id_span name) ''redefinition here''
                         label_secondary existing ''first defined here'')
           | None \<Rightarrow> l_ret ())
        (l_bind (lower_variants I M b i (if seen (id_symbol name) = None then seen(id_symbol name \<mapsto> sp) else seen) vs) (\<lambda>rest.
           l_ret (\<lparr>ev_ident = name, ev_value = r, ev_span = sp\<rparr> # rest)))) s' Q)"
      unfolding sc scope.case
      by (insert s', cases "decls (id_symbol name)"; simp only: option.case case_prod_unfold) ((rule low_rules(3) lowers_error lowers_ret dup | assumption)+)
  qed
qed

lemma lowers_enum:
  assumes "at P R sh u k s" and "usable sh b" and "\<forall>e \<in> set_enum_ty en. expr_depth e \<le> n"
    and ret: "\<And>i s'. at P (insert i R) sh u k s' \<Longrightarrow> Q i s'"
  shows "lowers (lower_enum I M b en naming) s Q"
proof -
  obtain tg vs items lin sp where en: "en = EnumTy tg vs items lin sp" by (cases en)
  have d: "\<And>e. tg = Some e \<Longrightarrow> expr_depth e \<le> n" "\<forall>v \<in> set vs. \<forall>e \<in> set_enum_variant_def v. expr_depth e \<le> n"
    "\<forall>item \<in> set items. \<forall>e \<in> set_associated_item item. expr_depth e \<le> n" using assms(3) en by auto
  show ?thesis unfolding lower_enum_def en enum_ty.case
    by (insert assms(1,2) d at_shape [OF assms(1)] usable_less(1) [OF assms(2)],
        (rule low_rules lowers_spanned lowers_push_namespace lowers_variants lowers_namespace_items lowers_namespace_captures lowers_gets
          | assumption | rule ret | (rule at_weaken, assumption) | simp; fail | (auto split: if_splits; fail))+)
qed

lemma lowers_field_ty_opt:
  assumes "at P R sh u k s" and "b < length sh" and "\<And>e. ty = Some e \<Longrightarrow> expr_depth e \<le> n" and "i \<in> R"
    and ret: "\<And>t s'. at P (R \<union> set (optl (map_option field_ty_ids t))) sh u k s' \<Longrightarrow> Q t s'"
  shows "lowers (l_opt (lower_field_ty M b i) ty) s Q"
  by (rule lowers_opt, rule lowers_field_ty [OF assms(1,2) _ assms(4)])
    (use assms(1,3) ret [of None] ret [of "Some _"] in auto)

lemma lowers_union_fields:
  assumes "at P R sh u k s" and "b < length sh" and "\<forall>f \<in> set fs. \<forall>e \<in> set_union_field_def f. expr_depth e \<le> n" and "i \<in> R"
    and "\<And>ys s'. at P (R \<union> (\<Union>f \<in> set ys. set (optl (map_option field_ty_ids (uf_ty f))))) sh u k s' \<Longrightarrow> Q ys s'"
  shows "lowers (lower_union_fields I M b i seen fs) s Q"
  using assms(1,3,4,5)
proof (induction fs arbitrary: s R seen Q)
  case Nil
  then show ?case by (auto intro!: lowers_ret)
next
  case (Cons f fs)
  obtain nd name ty sp where f: "f = UnionFieldDef nd name ty sp" by (cases f)
  have d: "\<And>e. ty = Some e \<Longrightarrow> expr_depth e \<le> n" using Cons.prems(2) f by auto
  have rest: "lowers (l_bind (lower_union_fields I M b i seen' fs) (\<lambda>rest. l_ret (\<lparr>uf_name = name, uf_ty = t, uf_span = sp\<rparr> # rest))) s' Q"
    if s': "at P (R \<union> set (optl (map_option field_ty_ids t))) sh u k s'" for t s' seen'
    by (rule lowers_bind, rule Cons.IH [OF s']) (use Cons.prems(2-4) in \<open>auto intro!: lowers_ret simp: Un_assoc\<close>)
  show ?case unfolding f lower_union_fields.simps union_field_def.case
    by (rule lowers_seq, insert Cons.prems(1,3) assms(2) d, cases "seen (id_symbol name)"; simp only: option.case)
      ((rule rest lowers_field_ty_opt low_rules | assumption)+)
qed

lemma lowers_union_tag:
  assumes "at P R sh u k s" and "usable sh b" and "\<forall>e \<in> set_union_tag_kind tg. expr_depth e \<le> n"
    and ret: "\<And>t s'. at P (R \<union> set (optl (map_option spanned_ids t))) sh u k s' \<Longrightarrow> Q t s'"
  shows "lowers (case tg of Tag_Bare \<Rightarrow> l_ret None | Tag_AutoEnum \<Rightarrow> l_ret (Some None)
           | Tag_Enum e \<Rightarrow> l_bind (lk_expr M b e RL_None) (\<lambda>r. l_ret (Some (Some (r, expr_span e))))) s Q"
  using assms(1-3) ret [of None] ret [of "Some None"] ret [of "Some (Some (_, _))"]
  by (cases tg) (auto intro!: lowers_ret lowers_bind expr_law [OF assms(1) _ assms(2)])

lemma lowers_union:
  assumes "at P R sh u k s" and "usable sh b" and "\<forall>e \<in> set_union_ty un. expr_depth e \<le> n"
    and ret: "\<And>i s'. at P (insert i R) sh u k s' \<Longrightarrow> Q i s'"
  shows "lowers (lower_union I M b un naming) s Q"
proof -
  obtain tg fs items lin sp where un: "un = UnionTy tg fs items lin sp" by (cases un)
  have d: "\<forall>e \<in> set_union_tag_kind tg. expr_depth e \<le> n" "\<forall>f \<in> set fs. \<forall>e \<in> set_union_field_def f. expr_depth e \<le> n"
    "\<forall>item \<in> set items. \<forall>e \<in> set_associated_item item. expr_depth e \<le> n" using assms(3) un by auto
  show ?thesis unfolding lower_union_def un union_ty.case
    by (insert assms(1,2) d at_shape [OF assms(1)] usable_less(1) [OF assms(2)],
        (rule low_rules lowers_union_tag lowers_push_namespace lowers_union_fields lowers_namespace_items lowers_namespace_captures
          | assumption | rule ret | (rule at_weaken, assumption) | simp; fail | auto; fail)+)
qed

section \<open>Types\<close>

lemma lowers_expr_opt:
  assumes "at P R sh u k s" and "usable sh b" and "\<And>e. x = Some e \<Longrightarrow> expr_depth e \<le> n"
    and ret: "\<And>r s'. at P (R \<union> set (opt_ids r)) sh u k s' \<Longrightarrow> Q r s'"
  shows "lowers (l_opt (\<lambda>e. lk_expr M b e RL_None) x) s Q"
  by (rule lowers_opt, rule expr_law [OF assms(1) _ assms(2)])
    (use assms(1,3) ret [of None] ret [of "Some _"] in auto)

lemma lowers_type:
  assumes "at P R sh u k s" and "usable sh b" and "\<forall>e \<in> set_type_node ty. expr_depth e \<le> n"
    and ret: "\<And>r s'. at P (R \<union> set (ref_ids r)) sh u k s' \<Longrightarrow> Q r s'"
  shows "lowers (lower_type I M b ty naming sp) s Q"
  unfolding lower_type_def
proof (cases ty, simp_all only: type_node.case, goal_cases)
  case (1 t c size_opt sentinel)
  then show ?case using assms(1-3) at_shape [OF assms(1)]
    by (cases size_opt; simp only: option.case)
      ((rule low_rules lowers_expr_opt expr_law | assumption | rule ret | (rule at_weaken, assumption) | simp; fail | auto; fail)+)
qed (insert assms(1-3) at_shape [OF assms(1)],
    (rule low_rules lowers_expr_opt lowers_struct lowers_enum lowers_union expr_law | assumption | rule ret | (rule at_weaken, assumption)
      | simp; fail | auto; fail)+)

end

end
