(* ===== verification/Vif_Lower_Exprs.thy ===== *)
theory Vif_Lower_Exprs
  imports Vif_Lower_Total
begin

text \<open>
  The methods of the lowerer in the logic: expressions, except those that contain blocks of statements.
\<close>

lemma lowers_lit_int: "(\<And>v. Q (Interned v) s) \<Longrightarrow> lowers (lower_lit_int_inst symbol r suffix p) s Q"
  by (auto simp: lower_lit_int_inst_def intro!: lowers_panic lowers_ret split: outcome.splits)

lemma lowers_lit: "(\<And>v. Q (Interned v) s) \<Longrightarrow> lowers (lower_lit l) s Q"
  by (cases l) (auto simp: lower_lit_def intro!: lowers_panic lowers_ret lowers_lit_int)

lemma lowers_arm_value: "lowers m s (\<lambda>r. Q (Arm_Value r)) \<Longrightarrow> lowers (arm_value m) s Q"
  by (auto simp: arm_value_def lowers_def l_bind_def l_ret_def split: low_result.splits)

lemma lowers_arm_return: "lowers m s (\<lambda>r. Q (Arm_Return r)) \<Longrightarrow> lowers (arm_return m) s Q"
  by (auto simp: arm_return_def lowers_def l_bind_def l_ret_def split: low_result.splits)

lemma lowers_if: "(c \<Longrightarrow> lowers m s Q) \<Longrightarrow> (\<not> c \<Longrightarrow> lowers m' s Q) \<Longrightarrow> lowers (if c then m else m') s Q"
  by simp

lemma lowers_push_import: "at P R sh u k s \<Longrightarrow> (\<And>s'. at P R sh u k s' \<Longrightarrow> Q () s') \<Longrightarrow> lowers (push_import i) s Q"
  by (simp add: lowers_def push_import_def at_def)

lemma lowers_discover_import:
  assumes "at P R sh u k s" and "\<And>s'. at P R sh u k s' \<Longrightarrow> Q () s'"
  shows "lowers (discover_import I callee as sp) s Q"
  using assms(1) unfolding discover_import_def
  by (auto intro!: lowers_ret lowers_push_import lowers_error assms(2) split: expr_kind.splits list.splits arg.splits lit.splits if_splits)

lemma aggregate_ids_simps [simp]:
  "aggregate_ids Agg_Empty = []" "aggregate_ids (Agg_Array rs) = concat (map ref_ids rs)"
  "aggregate_ids (Agg_Adt fs) = concat (map (\<lambda>f. ref_ids (aif_value f)) fs)"
  by (simp_all add: aggregate_ids_def)

lemma arm_cases:
  obtains r where "a = Arm_Return r" | r where "a = Arm_Value r"
  by (cases a)

context lower_calls
begin

section \<open>Fields and calls\<close>

lemma lowers_field_access_no_ctx:
  assumes "at P R sh u k s" and "usable sh b" and "\<forall>e \<in> set_field_access fa. expr_depth e \<le> n" and "ctx_ids ctx \<subseteq> R"
    and ret: "\<And>r s'. at P (R \<union> set (ref_ids r)) sh u k s' \<Longrightarrow> Q r s'"
  shows "lowers (lower_field_access_no_ctx_handling M b fa ctx loads) s Q"
  unfolding lower_field_access_no_ctx_handling_def
  by (insert assms(1-4) at_shape [OF assms(1)], cases fa; simp only: field_access.case)
    ((rule low_rules expr_law | assumption | rule ret | (rule at_weaken, assumption) | simp; fail | auto; fail)+)

lemma lowers_field_access:
  assumes "at P R sh u k s" and "usable sh b" and "\<forall>e \<in> set_field_access fa. expr_depth e \<le> n" and "ctx_ids ctx \<subseteq> R"
    and ret: "\<And>r s'. at P (R \<union> set (ref_ids r)) sh u k s' \<Longrightarrow> Q r s'"
  shows "lowers (lower_field_access M b fa ctx) s Q"
  unfolding lower_field_access_def
  by (insert assms(1-4) at_shape [OF assms(1)],
      (rule low_rules lowers_if lowers_field_access_no_ctx | assumption | rule ret | (rule at_weaken, assumption) | simp; fail | auto; fail)+)

lemma lowers_arg:
  assumes "at P R sh u k s" and "usable sh b" and "\<forall>e \<in> set_arg a. expr_depth e \<le> n" and "i \<in> R"
    and ret: "\<And>y s'. at P (R \<union> set (fca_body y)) sh u k s' \<Longrightarrow> Q y s'"
  shows "lowers (lower_arg M b i a) s Q"
proof -
  have d: "expr_depth (arg_value a) \<le> n" using assms(3) by (cases a) (auto simp: arg_value_def)
  have c: "ctx_ids (case expr_kind (arg_value a) of E_StructInit (StructInit None _) \<Rightarrow> RL_CoerceToTy (Instruction i)
      | E_ArrayInit (ArrayInit None _) \<Rightarrow> RL_CoerceToTy (Instruction i) | _ \<Rightarrow> RL_None) \<subseteq> R"
    using assms(4) by (auto split: expr_kind.splits struct_init.splits array_init.splits option.splits)
  show ?thesis unfolding lower_arg_def Let_def
    by (insert assms(1,2,4) d c at_shape [OF assms(1)] usable_less(1) [OF assms(2)],
        (rule low_rules expr_law | assumption | rule ret | (rule at_weaken, assumption) | simp; fail | blast; fail | auto; fail)+)
qed

lemma lowers_args:
  assumes "at P R sh u k s" and "usable sh b" and "\<forall>a \<in> set as. \<forall>e \<in> set_arg a. expr_depth e \<le> n" and "i \<in> R"
    and ret: "\<And>ys s'. at P (R \<union> (\<Union>y \<in> set ys. set (fca_body y))) sh u k s' \<Longrightarrow> Q ys s'"
  shows "lowers (l_map (lower_arg M b i) as) s Q"
  by (rule lowers_map [where ids = "\<lambda>y. set (fca_body y)", OF assms(1) _ ret])
    (rule lowers_arg, assumption, rule assms(2), use assms(3,4) in auto)

lemma lowers_type_of_call:
  assumes "at P R sh u k s" and "usable sh b" and "\<forall>a \<in> set as. \<forall>e \<in> set_arg a. expr_depth e \<le> n" and "ctx_ids ctx \<subseteq> R"
    and ret: "\<And>r s'. at P (R \<union> set (ref_ids r)) sh u k s' \<Longrightarrow> Q r s'"
  shows "lowers (lower_type_of_call I M b as sp ctx) s Q"
proof (cases "\<exists>e. as = [Arg_Positional e]")
  case True
  then obtain e where e: "as = [Arg_Positional e]" by auto
  show ?thesis unfolding lower_type_of_call_def e list.case arg.case
    by (insert assms(1-4) at_shape [OF assms(1)] e,
        (rule low_rules expr_law | assumption | rule ret | (rule at_weaken, assumption) | simp; fail | auto; fail)+)
next
  case False
  have "lowers (l_seq (l_error (diag_at I ''@type_of expects exactly one positional argument'' sp)) (inst_invalid b)) s Q"
    unfolding inst_invalid_def
    by (insert assms(1) at_shape [OF assms(1)],
        (rule lowers_inst_invalid low_rules | assumption | rule ret | (rule at_weaken, assumption) | simp; fail | auto; fail)+)
  then show ?thesis using False by (auto simp: lower_type_of_call_def split: list.splits arg.splits)
qed

lemma lowers_callee:
  assumes "at P R sh u k s" and "usable sh b" and "expr_depth callee \<le> n"
    and ret: "\<And>r fld s'. at P (R \<union> set (ref_ids r)) sh u k s' \<Longrightarrow> Q (r, fld) s'"
  shows "lowers (case expr_kind callee of
                    E_FieldAccess (FieldAccess lhs fld _) \<Rightarrow>
                      l_bind (lk_expr M b lhs RL_GetAddressOf) (\<lambda>receiver. l_ret (receiver, Some fld))
                  | _ \<Rightarrow> l_bind (lk_expr M b callee RL_None) (\<lambda>f. l_ret (f, None))) s Q"
proof -
  have callee: "lowers (l_bind (lk_expr M b callee RL_None) (\<lambda>f. l_ret (f, None))) s Q"
    by (rule lowers_bind, rule expr_law [OF assms(1,3,2)]) (auto intro!: lowers_ret ret)
  have "lowers (l_bind (lk_expr M b lhs RL_GetAddressOf) (\<lambda>receiver. l_ret (receiver, Some fld))) s Q"
    if "expr_kind callee = E_FieldAccess (FieldAccess lhs fld fsp)" for lhs fld fsp
  proof -
    have "expr_depth lhs \<le> n" using child_depth [of lhs callee] assms(3) that by simp
    then show ?thesis by (intro lowers_bind expr_law [OF assms(1) _ assms(2)]) (auto intro!: lowers_ret ret)
  qed
  then show ?thesis using callee by (auto split: expr_kind.splits field_access.splits)
qed

lemma lowers_fn_call:
  assumes "at P R sh u k s" and "usable sh b" and "\<forall>e \<in> set_fn_call call. expr_depth e \<le> n" and "ctx_ids ctx \<subseteq> R"
    and ret: "\<And>r s'. at P (R \<union> set (ref_ids r)) sh u k s' \<Longrightarrow> Q (Arm_Return r) s'"
      "\<And>r s'. at P (R \<union> set (ref_ids r)) sh u k s' \<Longrightarrow> Q (Arm_Value r) s'"
  shows "lowers (lower_fn_call I M b call sp ctx) s Q"
proof -
  obtain callee as where call: "call = FnCall callee as" by (cases call)
  have d: "expr_depth callee \<le> n" "\<forall>a \<in> set as. \<forall>e \<in> set_arg a. expr_depth e \<le> n" using assms(3) call by auto
  note facts = assms(1,2,4) d at_shape [OF assms(1)] usable_less(1) [OF assms(2)]
  show ?thesis
  proof (cases "is_type_of_call callee")
    case True
    then show ?thesis using facts
      by (simp add: lower_fn_call_def call) (rule lowers_arm_return, rule lowers_type_of_call, assumption+, rule ret(1))
  next
    case False
    have tail: "lowers (set_inst i (case fld of None \<Rightarrow> Op_FnCall t as' rt sp | Some f \<Rightarrow> Op_FnCallWithFieldPtrReceiver t f as' rt sp)) s' Q'"
      if "at (insert i P) R' sh u k s'" "i \<in> R'" "set (ref_ids t) \<union> set (opt_ids rt) \<union> (\<Union>y \<in> set as'. set (fca_body y)) \<subseteq> R'"
        "\<And>s'. at P R' sh u k s' \<Longrightarrow> Q' () s'" for i R' s' t as' rt fld Q'
      using that by (intro lowers_set_inst [OF that(1,2)]) (auto split: option.splits)
    show ?thesis unfolding lower_fn_call_def call fn_call.case
      using False by (simp only: if_False)
        (insert facts, (rule tail lowers_bind lowers_seq lowers_ret lowers_callee lowers_try_coerce lowers_placeholder lowers_args lowers_discover_import
          | assumption | rule ret(2) | (rule at_weaken, assumption) | simp only: prod.case | simp; fail | auto; fail)+)
  qed
qed

section \<open>Aggregates and indices\<close>

lemma lowers_aggregate_ty:
  assumes "at P R sh u k s" and "usable sh b" and "\<And>e. ty = Some e \<Longrightarrow> expr_depth e \<le> n" and "ctx_ids ctx \<subseteq> R"
    and ret: "\<And>r s'. at P (R \<union> set (ref_ids r)) sh u k s' \<Longrightarrow> Q r s'"
  shows "lowers (aggregate_ty I M b ty ctx msg sp) s Q"
proof (cases ty)
  case None
  show ?thesis unfolding aggregate_ty_def None option.case
  proof (rule lowers_bind, rule lowers_try_coerce [OF assms(1,4)])
    fix t s' assume s': "at P (R \<union> set (opt_ids t)) sh u k s'"
    show "lowers (case t of Some ty \<Rightarrow> l_ret ty | None \<Rightarrow> l_seq (l_error (diag_at I msg sp)) (inst b Op_Invalid)) s' Q"
      by (insert s' at_shape [OF assms(1)], cases t; simp only: option.case opt_ids_simps)
        ((rule lowers_inst_invalid lowers_seq lowers_error lowers_ret | assumption | rule ret | (rule at_weaken, assumption) | simp; fail | auto; fail)+)
  qed
next
  case (Some e)
  then show ?thesis using assms by (auto simp: aggregate_ty_def intro!: expr_law [OF assms(1) _ assms(2)])
qed

lemma lowers_field_init:
  assumes "at P R sh u k s" and "usable sh b" and "\<forall>e \<in> set_field_init f. expr_depth e \<le> n" and "set (ref_ids t) \<subseteq> R"
    and ret: "\<And>y s'. at P (R \<union> set (ref_ids (aif_value y))) sh u k s' \<Longrightarrow> Q y s'"
  shows "lowers (lower_field_init M b t f) s Q"
  unfolding lower_field_init_def
  by (insert assms(1-4) at_shape [OF assms(1)], cases f; simp only: field_init.case)
    ((rule low_rules expr_law | assumption | rule ret | (rule at_weaken, assumption) | simp; fail | auto; fail)+)

lemma lowers_struct_init:
  assumes "at P R sh u k s" and "usable sh b" and "\<forall>e \<in> set_struct_init si. expr_depth e \<le> n" and "ctx_ids ctx \<subseteq> R"
    and ret: "\<And>r s'. at P (R \<union> set (ref_ids r)) sh u k s' \<Longrightarrow> Q r s'"
  shows "lowers (lower_struct_init I M b si sp ctx) s Q"
proof -
  obtain ty fs where si: "si = StructInit ty fs" by (cases si)
  have d: "\<And>e. ty = Some e \<Longrightarrow> expr_depth e \<le> n" "\<forall>f \<in> set fs. \<forall>e \<in> set_field_init f. expr_depth e \<le> n" using assms(3) si by auto
  have fields: "lowers (l_map (lower_field_init M b t) fs) s' Q'"
    if "at P R' sh u k s'" "set (ref_ids t) \<subseteq> R'" "\<And>ys s'. at P (R' \<union> (\<Union>y \<in> set ys. set (ref_ids (aif_value y)))) sh u k s' \<Longrightarrow> Q' ys s'" for R' s' t Q'
    by (rule lowers_map [where ids = "\<lambda>y. set (ref_ids (aif_value y))", OF that(1) _ that(3)])
      (rule lowers_field_init, assumption, rule assms(2), use d(2) that(2) in auto)
  show ?thesis unfolding lower_struct_init_def si struct_init.case
    by (insert assms(1,2,4) d at_shape [OF assms(1)],
        (rule low_rules lowers_aggregate_ty fields | assumption | rule ret | (rule at_weaken, assumption) | simp; fail | auto; fail)+)
qed

lemma lowers_exprs:
  assumes "at P R sh u k s" and "usable sh b" and "\<forall>e \<in> set es. expr_depth e \<le> n"
    and ret: "\<And>rs s'. at P (R \<union> (\<Union>r \<in> set rs. set (ref_ids r))) sh u k s' \<Longrightarrow> Q rs s'"
  shows "lowers (l_map (\<lambda>e. lk_expr M b e RL_None) es) s Q"
  by (rule lowers_map [where ids = "\<lambda>r. set (ref_ids r)", OF assms(1) _ ret])
    (rule expr_law, assumption, use assms(2,3) in auto)

lemma lowers_array_init:
  assumes "at P R sh u k s" and "usable sh b" and "\<forall>e \<in> set_array_init ai. expr_depth e \<le> n" and "ctx_ids ctx \<subseteq> R"
    and ret: "\<And>r s'. at P (R \<union> set (ref_ids r)) sh u k s' \<Longrightarrow> Q r s'"
  shows "lowers (lower_array_init I M b ai sp ctx) s Q"
proof -
  obtain ty es where ai: "ai = ArrayInit ty es" by (cases ai)
  have d: "\<And>e. ty = Some e \<Longrightarrow> expr_depth e \<le> n" "\<forall>e \<in> set es. expr_depth e \<le> n" using assms(3) ai by auto
  show ?thesis unfolding lower_array_init_def ai array_init.case
    by (insert assms(1,2,4) d at_shape [OF assms(1)],
        (rule low_rules lowers_aggregate_ty lowers_exprs | assumption | rule ret | (rule at_weaken, assumption) | simp; fail | auto; fail)+)
qed

lemma lowers_index:
  assumes "at P R sh u k s" and "usable sh b" and "\<forall>e \<in> set_index_node ix. expr_depth e \<le> n" and "ctx_ids ctx \<subseteq> R"
    and ret: "\<And>r s'. at P (R \<union> set (ref_ids r)) sh u k s' \<Longrightarrow> Q r s'"
  shows "lowers (lower_index M b ix sp ctx) s Q"
proof -
  obtain c kd where ix: "ix = Index_Node c kd" by (cases ix)
  have d: "expr_depth c \<le> n" "\<And>e. kd = Index_At e \<Longrightarrow> expr_depth e \<le> n" using assms(3) ix by auto
  show ?thesis unfolding lower_index_def ix index_node.case
    by (insert assms(1,2,4) d at_shape [OF assms(1)], cases kd; simp only: index_kind.case)
      ((rule low_rules lowers_if expr_law | assumption | rule ret | (rule at_weaken, assumption) | simp; fail | auto; fail)+)
qed

end

end
