(* ===== verification/Vif_Lower_Knot.thy ===== *)
theory Vif_Lower_Knot
  imports Vif_Lower_Exprs
begin

text \<open>
  The methods of the lowerer in the logic: loops and switches, the method of expressions, and the interpretation of the
  interface on the methods of the code.
\<close>

text \<open>The instructions that a lowered case of a switch mentions.\<close>

definition case_ids :: "switch_single_case + switch_multi_case \<Rightarrow> instruction_id set" where
  "case_ids c =
     (case c of
        Inl x \<Rightarrow> set (ref_ids (ssc_pattern x)) \<union> set (ssc_body x)
      | Inr x \<Rightarrow> (\<Union>r \<in> set (smc_items x). set (ref_ids r)) \<union> set (smc_body x))"

lemma case_ids_simps [simp]:
  "case_ids (Inl x) = set (ref_ids (ssc_pattern x)) \<union> set (ssc_body x)"
  "case_ids (Inr y) = (\<Union>r \<in> set (smc_items y). set (ref_ids r)) \<union> set (smc_body y)"
  by (simp_all add: case_ids_def)

lemma switch_cases_ids:
  "(\<Union>c \<in> set cs. case_ids c) = (\<Union>x \<in> {x. Inl x \<in> set cs}. case_ids (Inl x)) \<union> (\<Union>y \<in> {y. Inr y \<in> set cs}. case_ids (Inr y))"
proof -
  have "case_ids c \<subseteq> (\<Union>x \<in> {x. Inl x \<in> set cs}. case_ids (Inl x)) \<union> (\<Union>y \<in> {y. Inr y \<in> set cs}. case_ids (Inr y))" if "c \<in> set cs" for c
  proof (cases c)
    case (Inl x)
    then show ?thesis using that by (intro le_supI1 SUP_upper2 [of x]) simp_all
  next
    case (Inr y)
    then show ?thesis using that by (intro le_supI2 SUP_upper2 [of y]) simp_all
  qed
  moreover have "(\<Union>x \<in> {x. Inl x \<in> set cs}. case_ids (Inl x)) \<union> (\<Union>y \<in> {y. Inr y \<in> set cs}. case_ids (Inr y)) \<subseteq> (\<Union>c \<in> set cs. case_ids c)"
    by (intro Un_least UN_least UN_upper) simp_all
  ultimately show ?thesis by (intro antisym UN_least)
qed

lemma switch_ids:
  "set (opcode_ids (Op_Switch r [x. Inl x \<leftarrow> cs] [x. Inr x \<leftarrow> cs] e sp)) = set (ref_ids r) \<union> (\<Union>c \<in> set cs. case_ids c) \<union> set (optl e)"
  unfolding switch_cases_ids by auto

lemma ungroup_depth: "expr_depth (ungroup e) \<le> expr_depth e"
proof (induction e rule: ungroup.induct)
  case (1 e)
  show ?case
  proof (cases "\<exists>g. expr_kind e = E_Group g")
    case True
    then obtain g where g: "expr_kind e = E_Group g" by auto
    then have "expr_depth (ungroup g) \<le> expr_depth g" "expr_depth g < expr_depth e" using 1 child_depth [of g e] by auto
    then show ?thesis using g by (simp add: ungroup.simps [of e])
  next
    case False
    then show ?thesis by (subst ungroup.simps) (auto split: expr_kind.splits)
  qed
qed

lemma unary_layers_depth: "unary_layers e ls = (c, ls') \<Longrightarrow> expr_depth c < expr_depth e \<or> (expr_depth c = expr_depth e \<and> ls' = ls)"
proof (induction e ls rule: unary_layers.induct)
  case (1 e ls)
  note ih = "1.IH" and eq = "1.prems" [unfolded unary_layers.simps [of e ls]]
  have d: "c' \<in> set_expr_kind (expr_kind e) \<Longrightarrow> expr_depth c < expr_depth c' \<or> expr_depth c = expr_depth c' \<Longrightarrow> expr_depth c < expr_depth e" for c'
    using child_depth [of c' e] by linarith
  show ?case
  proof (cases "expr_kind e")
    case (E_Group x)
    then show ?thesis using ih(5) [OF E_Group] eq d [of x] child_depth [of x e] by auto
  next
    case (E_Pos x)
    then show ?thesis using ih(2) [OF E_Pos] eq d [of x] by auto
  next
    case (E_Neg x)
    then show ?thesis using ih(1) [OF E_Neg] eq d [of x] by auto
  next
    case (E_Not x)
    then show ?thesis using ih(3) [OF E_Not] eq d [of x] by auto
  next
    case (E_BitNot x)
    then show ?thesis using ih(4) [OF E_BitNot] eq d [of x] by auto
  qed (use eq in simp_all)
qed

context lower_calls
begin

section \<open>Blocks and loops\<close>

lemma lowers_block_expr:
  assumes "at P R sh u k s" and "usable sh b" and "\<forall>e \<in> set_block blk. expr_depth e \<le> n"
    and ret: "\<And>r s'. at P (R \<union> set (ref_ids r)) sh u k s' \<Longrightarrow> Q r s'"
  shows "lowers (lower_block_expr I M b is_loop blk) s Q"
  unfolding lower_block_expr_def
  by (insert assms(1-3) at_shape [OF assms(1)] usable_less(1) [OF assms(2)], cases is_loop; simp only: if_True if_False)
    (((rule lowers_collect_locals, assumption) | rule low_rules lowers_block | assumption | rule ret | (rule at_weaken, assumption) | simp; fail | auto; fail)+)

lemma lowers_while_exit:
  assumes "at P R sh u k s" and "usable sh b" and "block_at sh l" and "expr_depth c \<le> n" and "i \<in> R"
    and ret: "\<And>s'. at P R sh u k s' \<Longrightarrow> Q () s'"
  shows "lowers (lower_while_exit M b l i c sp) s Q"
  unfolding lower_while_exit_def
  by (insert assms(1-5) at_shape [OF assms(1)] usable_less(1) [OF assms(2)] block_usable [OF assms(3)],
      (rule low_rules expr_law | assumption | rule ret | (rule at_weaken, assumption) | simp; fail | auto; fail)+)

lemma lowers_while:
  assumes "at P R sh u k s" and "usable sh b" and "\<forall>e \<in> set_while_node w. expr_depth e \<le> n"
    and ret: "\<And>r s'. at P (R \<union> set (ref_ids r)) sh u k s' \<Longrightarrow> Q r s'"
  shows "lowers (lower_while I M b w) s Q"
proof -
  obtain nd lb c body sp where w: "w = While_Node nd lb c body sp" by (cases w)
  have d: "expr_depth c \<le> n" "\<forall>e \<in> set_block body. expr_depth e \<le> n" using assms(3) w by auto
  show ?thesis unfolding lower_while_def w while_node.case
    by (insert assms(1,2) d at_shape [OF assms(1)] usable_less(1) [OF assms(2)],
        ((rule lowers_collect_locals, assumption) | rule low_rules lowers_block lowers_while_exit | assumption | rule ret | (rule at_weaken, assumption)
          | simp; fail | auto; fail)+)
qed

section \<open>Switches\<close>

lemma lowers_case_body:
  assumes "at P R (sh @ [Scope_Block p st bk]) u k s" and "\<forall>e \<in> set_switch_body body. expr_depth e \<le> n" and "ctx_ids ctx \<subseteq> R" and "i \<in> R"
    and ret: "\<And>is s'. at P (R \<union> set is) sh st k s' \<Longrightarrow> Q is s'"
  shows "lowers (lower_case_body I M (length sh) (length sh) i body ctx) s Q"
  unfolding lower_case_body_def
  by (insert assms(1-4) at_shape [OF assms(1)],
      ((rule lowers_collect_locals, assumption) | rule low_rules lowers_switch_body lowers_break_unless_never | assumption | (rule ret, rule at_weaken, assumption)
        | simp only: prod.case | simp; fail | auto; fail)+)

lemma lowers_case_body_captured:
  assumes "at P R ((sh @ [Scope_Block p st bk]) @ [x]) u k s" and "local_scope x"
    and "\<forall>e \<in> set_switch_body body. expr_depth e \<le> n" and "ctx_ids ctx \<subseteq> R" and "i \<in> R"
    and ret: "\<And>is s'. at P (R \<union> set is) sh st k s' \<Longrightarrow> Q is s'"
  shows "lowers (lower_case_body I M (length sh) (Suc (length sh)) i body ctx) s Q"
proof -
  have us: "usable ((sh @ [Scope_Block p st bk]) @ [x]) (Suc (length sh))"
    using assms(2) by (auto simp: usable_def nth_append local_scope_def)
  have bl: "block_at (((sh @ [Scope_Block p st bk]) @ [x]) @ ext) (length sh)" for ext by simp
  show ?thesis unfolding lower_case_body_def
  proof (rule lowers_bind, rule lowers_switch_body [OF assms(1) us assms(3,4)], unfold prod.case, rule lowers_seq)
    fix r sp ext s'
    assume s': "at P (R \<union> set (ref_ids r) \<union> shape_ids ext) (((sh @ [Scope_Block p st bk]) @ [x]) @ ext) u k s'" "list_all local_scope ext"
    show "lowers (break_unless_never (length sh) i r sp) s' (\<lambda>_ s'. lowers (collect_instructions_and_unstack_block (length sh)) s' Q)"
    proof (rule lowers_break_unless_never [OF s'(1) bl])
      fix s'' assume "at P (R \<union> set (ref_ids r) \<union> shape_ids ext) (((sh @ [Scope_Block p st bk]) @ [x]) @ ext) u k s''"
      then show "lowers (collect_instructions_and_unstack_block (length sh)) s'' Q"
        using s'(2) assms(2) at_shape [OF assms(1)]
        by (intro lowers_collect_locals [of P _ sh p st bk "x # ext" u k s'']) (auto intro!: ret elim: at_weaken)
    qed (use assms(5) in auto)
  qed
qed

lemma lowers_single_case:
  assumes "at P R sh u k s" and "usable sh b" and "usable sh w" and "expr_depth pat \<le> n" and "\<forall>e \<in> set_switch_body body. expr_depth e \<le> n"
    and "ctx_ids ctx \<subseteq> R" and "i \<in> R" and "set (ref_ids operand) \<subseteq> R"
    and ret: "\<And>x s'. at P (R \<union> case_ids (Inl x)) sh u k s' \<Longrightarrow> Q x s'"
  shows "lowers (lower_single_case I M b w i operand ctx nd pat cap body sp) s Q"
  unfolding lower_single_case_def
  by (insert assms(1-8) at_shape [OF assms(1)] usable_less(1) [OF assms(2)], cases cap; simp only: option.case)
    ((rule low_rules expr_law lowers_case_body lowers_case_body_captured | assumption | rule ret | (rule at_weaken, assumption)
      | simp only: length_append_singleton bare_simps | simp; fail | auto; fail)+)

lemma lowers_multi_case:
  assumes "at P R sh u k s" and "usable sh b" and "usable sh w" and "\<forall>e \<in> set pats. expr_depth e \<le> n" and "\<forall>e \<in> set_switch_body body. expr_depth e \<le> n"
    and "ctx_ids ctx \<subseteq> R" and "i \<in> R"
    and ret: "\<And>x s'. at P (R \<union> case_ids (Inr x)) sh u k s' \<Longrightarrow> Q x s'"
  shows "lowers (lower_multi_case I M b w i ctx pats cap body sp) s Q"
  unfolding lower_multi_case_def
  by (insert assms(1-7) at_shape [OF assms(1)] usable_less(1) [OF assms(2)], cases cap; simp only: option.case)
    ((rule low_rules lowers_exprs lowers_case_body | assumption | rule ret | (rule at_weaken, assumption) | simp; fail | auto; fail)+)

lemma lowers_switch_case:
  assumes "at P R sh u k s" and "usable sh b" and "usable sh w" and "\<forall>e \<in> set_switch_case c. expr_depth e \<le> n"
    and "ctx_ids ctx \<subseteq> R" and "i \<in> R" and "set (ref_ids operand) \<subseteq> R"
    and ret: "\<And>x s'. at P (R \<union> case_ids x) sh u k s' \<Longrightarrow> Q x s'"
  shows "lowers (lower_switch_case I M b w i operand ctx c) s Q"
proof -
  obtain nd pats cap body sp where c: "c = SwitchCase nd pats cap body sp" by (cases c)
  have d: "\<forall>e \<in> set pats. expr_depth e \<le> n" "\<forall>e \<in> set_switch_body body. expr_depth e \<le> n" using assms(4) c by auto
  consider "pats = []" | pat where "pats = [pat]" | p q ps where "pats = p # q # ps" by (cases pats; cases "tl pats") auto
  then show ?thesis unfolding lower_switch_case_def c switch_case.case
    by cases (insert assms(1-3,5-7) d, simp_all only: list.case,
      (rule lowers_panic lowers_bind lowers_single_case lowers_multi_case lowers_ret | assumption | rule ret | simp; fail)+)
qed

lemma lowers_switch:
  assumes "at P R sh u k s" and "usable sh b" and "\<forall>e \<in> set_switch_node sw. expr_depth e \<le> n" and "ctx_ids ctx \<subseteq> R"
    and ret: "\<And>r s'. at P (R \<union> set (ref_ids r)) sh u k s' \<Longrightarrow> Q r s'"
  shows "lowers (lower_switch I M b sw ctx) s Q"
proof -
  obtain nd lb e cs es eb sp where sw: "sw = Switch_Node nd lb e cs es eb sp" by (cases sw)
  have d: "expr_depth e \<le> n" "\<forall>c \<in> set cs. \<forall>e \<in> set_switch_case c. expr_depth e \<le> n"
    "\<And>body. eb = Some body \<Longrightarrow> \<forall>e \<in> set_switch_body body. expr_depth e \<le> n" using assms(3) sw by auto
  have cases: "lowers (l_map (lower_switch_case I M b (length sh) i operand ctx') cs) s' Q'"
    if "at P' R' (sh @ [Scope_Block p st bk]) u' k s'" "ctx_ids ctx' \<subseteq> R'" "i \<in> R'" "set (ref_ids operand) \<subseteq> R'"
      "\<And>ys s'. at P' (R' \<union> (\<Union>y \<in> set ys. case_ids y)) (sh @ [Scope_Block p st bk]) u' k s' \<Longrightarrow> Q' ys s'" for P' R' p st bk u' s' i operand ctx' Q'
    by (rule lowers_map [where ids = case_ids, OF that(1) _ that(5)])
      (rule lowers_switch_case, assumption, use assms(2) d(2) that in auto)
  have els: "lowers (l_opt (\<lambda>body.
                   l_bind (stack_block b (BK_Branch (Instruction i))) (\<lambda>scope. lower_case_body I M scope scope i body ctx')) eb) s' Q'"
    if "at P' R' (sh @ [Scope_Block p st bk]) u' k s'" "ctx_ids ctx' \<subseteq> R'" "i \<in> R'"
      "\<And>y s'. at P' (R' \<union> set (optl y)) (sh @ [Scope_Block p st bk]) u' k s' \<Longrightarrow> Q' y s'" for P' R' p st bk u' s' i ctx' Q'
    by (rule lowers_opt, insert that(1-3) d(3) at_shape [OF that(1)] usable_less(1) [OF assms(2)])
      (rule lowers_bind lowers_stack_block lowers_case_body | assumption | (rule that(4), rule at_weaken, assumption) | simp; fail | auto; fail)+
  have sw_inst: "lowers (inst b' (Op_Switch operand [x. Inl x \<leftarrow> ys] [x. Inr x \<leftarrow> ys] y sp)) s' Q'"
    if "at P' R' sh' u' k s'" "set (ref_ids operand) \<union> (\<Union>c \<in> set ys. case_ids c) \<union> set (optl y) \<subseteq> R'"
      "\<And>i s'. at P' (insert i R') sh' u' k s' \<Longrightarrow> Q' (Instruction i) s'" for b' P' R' sh' u' s' operand ys y Q'
    by (rule lowers_inst [OF that(1)]) (use that(2,3) in \<open>simp_all only: switch_ids, simp_all\<close>)
  show ?thesis unfolding lower_switch_def sw switch_node.case
    by (insert assms(1,2,4) d at_shape [OF assms(1)] usable_less(1) [OF assms(2)],
        (rule sw_inst cases els low_rules lowers_if lowers_break_unless_never expr_law | assumption | rule ret | (rule at_weaken, assumption)
          | simp; fail | auto; fail)+)
qed

end

context lower_calls
begin

section \<open>Expressions\<close>

lemma lowers_apply_layers:
  assumes "at P R sh u k s" and "set (ref_ids r) \<subseteq> R" and ret: "\<And>r s'. at P (R \<union> set (ref_ids r)) sh u k s' \<Longrightarrow> Q r s'"
  shows "lowers (apply_layers b r layers) s Q"
proof -
  have "lowers (apply_layers b r layers) s Q" if "at P R' sh u k s" "set (ref_ids r) \<subseteq> R'" "R \<subseteq> R'" for R'
    using that
  proof (induction layers arbitrary: r s R')
    case Nil
    then show ?case using at_shape [OF assms(1)] by (auto intro!: lowers_ret ret elim: at_weaken)
  next
    case (Cons l ls)
    show ?case unfolding apply_layers.simps
      by (insert Cons.prems, cases l; simp only: unary_layer.case)
        ((rule lowers_bind lowers_inst lowers_ret Cons.IH | assumption | simp; fail | auto; fail)+)
  qed
  with assms show ?thesis by simp
qed

lemma lowers_linear_unary:
  assumes "at P R sh u k s" and "usable sh b" and "expr_depth e \<le> Suc n" and "ctx_ids ctx \<subseteq> R"
    and ret: "\<And>r s'. at P (R \<union> set (opt_ids r)) sh u k s' \<Longrightarrow> Q r s'"
  shows "lowers (try_lower_linear_unary_expr M b e ctx) s Q"
proof -
  obtain c ls where l: "unary_layers e [] = (c, ls)" by (cases "unary_layers e []")
  have d: "ls \<noteq> [] \<Longrightarrow> expr_depth c \<le> n" using unary_layers_depth [OF l] assms(3) by auto
  have ret': "Q (Some r) s'" if "at P (R \<union> set (ref_ids r)) sh u k s'" for r s' using ret [of "Some r"] that by simp
  show ?thesis unfolding try_lower_linear_unary_expr_def l prod.case
    by (insert assms(1,2,4) d ret [of None s] at_shape [OF assms(1)],
        (rule lowers_if low_rules lowers_apply_layers expr_law | assumption | rule ret' | (rule at_weaken, assumption) | simp; fail | auto; fail)+)
qed

lemma lowers_ident_arm:
  assumes "at P R sh u k s" and "usable sh b" and "ctx_ids ctx \<subseteq> R"
    and ret: "\<And>r s'. at P (R \<union> set (ref_ids r)) sh u k s' \<Longrightarrow> Q (Arm_Return r) s'"
  shows "lowers (l_bind (lower_ident I b name ctx sp) (\<lambda>r.
            (case r of Some r \<Rightarrow> l_ret (Arm_Return r) | None \<Rightarrow> arm_return (inst_invalid b)))) s Q"
proof (rule lowers_bind, rule lowers_lower_ident [OF assms(1-3)])
  fix r s' assume "at P (R \<union> set (opt_ids r)) sh u k s'" "r = None \<Longrightarrow> lw_errors s' \<noteq> []"
  then show "lowers (case r of Some r \<Rightarrow> l_ret (Arm_Return r) | None \<Rightarrow> arm_return (inst_invalid b)) s' Q"
    by (cases r) (auto simp: inst_invalid_def intro!: lowers_ret ret lowers_arm_return lowers_inst_invalid)
qed

lemma lowers_neg:
  assumes "at P R sh u k s" and "usable sh b" and "expr_depth x \<le> n" and "ctx_ids ctx \<subseteq> R"
    and ret: "\<And>r s'. at P (R \<union> set (ref_ids r)) sh u k s' \<Longrightarrow> Q (Arm_Value r) s'"
  shows "lowers (case expr_kind x of
             E_Lit (Lit_Integer symbol r suffix) \<Rightarrow> arm_value (lower_lit_int_inst symbol r suffix False)
           | _ \<Rightarrow> l_bind (lk_expr M b x RL_None) (\<lambda>r. arm_value (inst b (Op_Negate r sp)))) s Q"
proof -
  have "lowers (arm_value (lower_lit_int_inst symbol r suffix False)) s Q" for symbol r suffix
    using assms(1) ret [of "Interned _"] by (intro lowers_arm_value lowers_lit_int) auto
  moreover have "lowers (l_bind (lk_expr M b x RL_None) (\<lambda>r. arm_value (inst b (Op_Negate r sp)))) s Q"
    by (insert assms(1-4) at_shape [OF assms(1)],
        (rule lowers_arm_value low_rules expr_law | assumption | rule ret | (rule at_weaken, assumption) | simp; fail | auto; fail)+)
  ultimately show ?thesis by (auto split: expr_kind.splits lit.splits)
qed

lemma lowers_expr_arm:
  assumes "at P R sh u k s" and "usable sh b" and "\<forall>c \<in> set_expr_kind (expr_kind e). expr_depth c \<le> n" and "ctx_ids ctx \<subseteq> R"
    and ret: "\<And>r s'. at P (R \<union> set (ref_ids r)) sh u k s' \<Longrightarrow> Q (Arm_Return r) s'"
      "\<And>r s'. at P (R \<union> set (ref_ids r)) sh u k s' \<Longrightarrow> Q (Arm_Value r) s'"
  shows "lowers (lower_expr_arm I M b e ctx) s Q"
proof -
  have lit: "Q (Arm_Value (Interned v)) s'" if "at P R' sh u k s'" "R \<subseteq> R'" for v s' R'
    using ret(2) [of "Interned v" s'] that at_weaken [OF that(1), of R u] at_shape [OF assms(1)] by simp
  show ?thesis unfolding lower_expr_arm_def Let_def
    by (insert assms(1-4) at_shape [OF assms(1)], cases "expr_kind e"; simp only: expr_kind.case)
      ((rule lowers_ident_arm lowers_neg lowers_arm_value lowers_arm_return lowers_if low_rules lowers_fn_call lowers_field_access lowers_lit lowers_type
          lowers_struct_init lowers_array_init lowers_expr_if(1) lowers_block_expr lowers_while lowers_switch lowers_index expr_law
        | assumption | rule ret | (rule lit, assumption) | (rule at_weaken, assumption) | simp; fail | auto; fail)+)
qed

lemma lowers_expr:
  assumes "at P R sh u k s" and "expr_depth e \<le> Suc n" and "usable sh b" and "ctx_ids ctx \<subseteq> R"
    and ret: "\<And>r s'. at P (R \<union> set (ref_ids r)) sh u k s' \<Longrightarrow> Q r s'"
  shows "lowers (lower_expr I M b e ctx) s Q"
  unfolding lower_expr_def
proof (rule lowers_bind, rule lowers_linear_unary [OF assms(1,3,2,4)])
  fix r s' assume s': "at P (R \<union> set (opt_ids r)) sh u k s'"
  have d: "\<forall>c \<in> set_expr_kind (expr_kind (ungroup e)). expr_depth c \<le> n"
    using child_depth [of _ "ungroup e"] ungroup_depth [of e] assms(2) by fastforce
  show "lowers (case r of Some r \<Rightarrow> l_ret r | None \<Rightarrow>
            l_bind (lower_expr_arm I M b (ungroup e) ctx) (\<lambda>a.
              (case a of Arm_Return r \<Rightarrow> l_ret r | Arm_Value r \<Rightarrow> rvalue b r ctx (expr_span (ungroup e))))) s' Q"
  proof (cases r)
    case None
    then have s': "at P R sh u k s'" using s' by simp
    show ?thesis unfolding None option.case
      by (rule lowers_bind, rule lowers_expr_arm [OF s' assms(3) d assms(4)], unfold arm.case)
        (insert assms(4) at_shape [OF assms(1)],
          (rule lowers_ret lowers_rvalue | assumption | rule ret | (rule at_weaken, assumption) | simp; fail | auto; fail)+)
  qed (use s' in \<open>auto intro!: lowers_ret ret\<close>)
qed

end

section \<open>The methods of the code\<close>

lemma lower_calls_0: "lower_calls M 0"
  by unfold_locales (simp_all add: depth_pos [THEN gr_implies_not0])

lemma lower_methods_calls: "lower_calls (lower_methods I n) n"
proof (induction n)
  case (Suc n)
  show ?case
    by unfold_locales
      (simp_all add: less_Suc_eq_le lower_calls.lowers_expr [OF Suc] lower_calls.lowers_type [OF Suc] lower_calls.lowers_struct [OF Suc]
        lower_calls.lowers_enum [OF Suc])
qed (rule lower_calls_0)

interpretation code: lower_calls "lower_methods I n" n for I n
  by (rule lower_methods_calls)

end
