(* ===== verification/Vif_Lower_Props.thy ===== *)
theory Vif_Lower_Props
  imports Vif_Lower_Knot
begin

text \<open>
  What the lowering of a module guarantees, and the positions it records.
\<close>

section \<open>Modules\<close>

text \<open>A bound on the recursion of the lowering: the depth of the deepest expression of a struct.\<close>

definition struct_depth :: "expr struct_ty \<Rightarrow> nat" where
  "struct_depth st = Max (insert 0 (expr_depth ` set_struct_ty st))"

lemma finite_struct: "finite (set_struct_ty st)"
  by (rule finite_iff_ordLess_natLeq [THEN iffD2, OF struct_ty.set_bd])

lemma struct_depth_bound: "e \<in> set_struct_ty st \<Longrightarrow> expr_depth e \<le> struct_depth st"
  by (simp add: struct_depth_def finite_struct)

lemma at_new: "at {} {} [] 0 0 (lowerer_new X src m)"
  by (simp add: at_def lowerer_new_def tree_ok_def parents_ok_def opcodes_ok_def compute_line_starts_def)

lemma lowers_push_root:
  assumes "at P R [] u k s" and "\<And>s'. at P R [Scope_Block None (length (lw_uir_scopes_instructions s)) BK_Body] u k s' \<Longrightarrow> Q 0 s'"
  shows "lowers (push_scope (Scope_Block None (length (lw_uir_scopes_instructions s)) BK_Body)) s Q"
  using assms by (auto simp: lowers_def push_scope_def at_def tree_ok_def parents_ok_def)

lemma lowers_module:
  assumes "struct_depth st \<le> depth"
  shows "lowers (lower_module I depth (Module_StructDecl st)) (lowerer_new X src m) (\<lambda>_. at {} {} [] 0 0)"
proof -
  have d: "\<forall>e \<in> set_struct_ty st. expr_depth e \<le> depth" using struct_depth_bound assms by fastforce
  have us: "usable [Scope_Block None st BK_Body] 0" for st by (simp add: usable_def)
  have un: "lowers (unstack_block 0) s Q" if "at {} R [Scope_Block None st BK_Body] u 0 s" "\<And>s'. at {} R [] st 0 s' \<Longrightarrow> Q () s'" for R st u s Q
    using lowers_unstack_simple [of "{}" R "[]" None st BK_Body u 0 s Q] that by simp
  show ?thesis unfolding lower_module_def module_kind.case
    by (rule lowers_bind, rule lowers_gets, rule lowers_bind, rule lowers_push_root [OF at_new],
        rule lowers_seq, rule lowers_seq, rule code.lowers_struct, assumption, rule us, rule d, rule lowers_ret, rule un, assumption)
      (rule at_weaken, assumption, simp_all)
qed

lemma l_bindE:
  assumes "l_bind m f s = LowDone y s'"
  obtains x s1 where "m s = LowDone x s1" and "f x s1 = LowDone y s'"
  using assms by (auto simp: l_bind_def split: low_result.splits)

lemma l_seqE:
  assumes "l_seq m n s = LowDone y s'"
  obtains x s1 where "m s = LowDone x s1" and "n s1 = LowDone y s'"
  using assms by (auto simp: l_seq_def elim: l_bindE)

lemma l_map_length: "l_map f xs s = LowDone ys s' \<Longrightarrow> length ys = length xs"
  by (induction xs arbitrary: s ys) (auto simp: l_ret_def elim!: l_bindE)

lemma unstack_block_keeps: "unstack_block b s = LowDone x s' \<Longrightarrow> lw_instructions s' = lw_instructions s"
  by (auto simp: unstack_block_def split: sum.splits if_splits)

text \<open>What the instruction of a struct is when its lowering returns: it has one entry per field and per item.\<close>

lemma lower_struct_inst:
  assumes "lower_struct I M b st naming s = LowDone i s'"
  shows "instruction_id_from_usize (length (lw_instructions s)) = Returns i"
    and "\<exists>fs ds cs. i < length (lw_instructions s') \<and> length fs = length (sty_fields st) \<and> length ds = length (sty_items st) \<and>
      lw_instructions s' ! i = Op_DeclStruct naming fs (sty_packed st) (sty_linear st) ds cs"
proof -
  obtain i' s1 sc s2 fs s3 ds s4 cs s5 where i': "inst_id b Op_Invalid s = LowDone i' s1"
    and fs: "l_map (lower_field M sc i') (sty_fields st) s2 = LowDone fs s3" and ds: "lower_namespace_items I M sc (sty_items st) s3 = LowDone ds s4"
    and fin: "l_seq (set_inst i' (Op_DeclStruct naming fs (sty_packed st) (sty_linear st) ds cs)) (l_seq pop_scope (l_ret i')) s5 = LowDone i s'"
    using assms unfolding lower_struct_def by (elim l_bindE)
  show "instruction_id_from_usize (length (lw_instructions s)) = Returns i"
    using i' fin by (auto simp: inst_id_def l_ret_def split: outcome.splits elim!: l_seqE)
  have "length ds = length (sty_items st)"
    using ds by (auto simp: lower_namespace_items_def l_ret_def dest: l_map_length elim!: l_bindE l_seqE)
  with fin l_map_length [OF fs]
  show "\<exists>fs ds cs. i < length (lw_instructions s') \<and> length fs = length (sty_fields st) \<and> length ds = length (sty_items st) \<and>
      lw_instructions s' ! i = Op_DeclStruct naming fs (sty_packed st) (sty_linear st) ds cs"
    by (auto simp: set_inst_def pop_scope_def l_ret_def split: if_splits elim!: l_seqE)
qed

lemma file_module_id: "instruction_id_from_usize 0 = Returns FILE_MODULE"
  by (simp add: instruction_id_from_usize_def from_usize_def from_u32_def as_usize_def FILE_MODULE_def)

section \<open>Positions\<close>

lemma line_starts_step:
  assumes "x \<in> set (compute_line_starts_loop X src off)"
  obtains p where "off < length src" "memchr X (drop off src) (CHR 0x0A) = Some p"
    "x = off + (p + 1) \<or> x \<in> set (compute_line_starts_loop X src (off + (p + 1)))"
proof (cases "off < length src")
  case True
  show thesis
  proof (cases "memchr X (drop off src) (CHR 0x0A)")
    case None
    then show thesis using assms True by (simp add: compute_line_starts_loop.simps [of X src off])
  next
    case (Some p)
    then show thesis using assms True that [of p] by (simp add: compute_line_starts_loop.simps [of X src off])
  qed
next
  case False
  then show thesis using assms by (simp add: compute_line_starts_loop.simps [of X src off])
qed

lemma line_starts_above: "x \<in> set (compute_line_starts_loop X src off) \<Longrightarrow> off < x"
proof (induction X src off rule: compute_line_starts_loop.induct)
  case (1 X src off)
  obtain p where p: "off < length src" "memchr X (drop off src) (CHR 0x0A) = Some p"
    "x = off + (p + 1) \<or> x \<in> set (compute_line_starts_loop X src (off + (p + 1)))" using line_starts_step [OF "1.prems"] .
  show ?case using "1.IH" [OF p(1,2)] p(3) by linarith
qed

text \<open>The search in the table of line starts finds the last line that starts at or before the offset.\<close>

lemma binary_search_line:
  assumes "\<forall>x \<in> set pre. x < so" and "so \<le> ofs" and "\<forall>x \<in> set rest. ofs < x"
  shows "(case binary_search (pre @ so # rest) ofs of Inr i \<Rightarrow> i | Inl i \<Rightarrow> i - 1) = length pre"
proof (cases "ofs = so")
  case True
  then obtain j where j: "j \<le> length pre" "find_index (\<lambda>y. y = ofs) (pre @ so # rest) = Some j"
    using find_index_exists [of "length pre" "pre @ so # rest" "\<lambda>y. y = ofs"] by auto
  moreover have "\<not> j < length pre"
    using find_index_SomeD [OF j(2)] assms(1) True by (auto simp: nth_append split: if_splits)
  ultimately show ?thesis by (simp add: binary_search_def)
next
  case False
  then have "so < ofs" using assms(2) by simp
  then have pre: "\<forall>x \<in> set pre. x < ofs" using assms(1) by fastforce
  have "find_index (\<lambda>y. y = ofs) (pre @ so # rest) = None" using pre assms(3) False by (auto simp: find_index_None_iff)
  moreover have "takeWhile (\<lambda>y. y < ofs) (pre @ so # rest) = pre @ [so]"
    using pre assms(3) \<open>so < ofs\<close> by (cases rest) (auto simp: takeWhile_append2)
  ultimately show ?thesis by (simp add: binary_search_def)
qed

lemma line_col_line_starts:
  assumes "memx_ok X" and "ofs \<le> length src"
  shows "so \<le> ofs \<Longrightarrow> \<forall>x \<in> set pre. x < so \<Longrightarrow> starts = pre @ so # compute_line_starts_loop X src so \<Longrightarrow>
    \<exists>idx. (case binary_search starts ofs of Inr i \<Rightarrow> i | Inl i \<Rightarrow> i - 1) = idx \<and> idx < length starts \<and> starts ! idx \<le> ofs \<and>
      line_col_loop X src ofs so (length pre + 1) = Returns (idx + 1, ofs - starts ! idx)"
proof (induction "ofs - so" arbitrary: so pre rule: less_induct)
  case less
  let ?nl = "CHR 0x0A"
  have mc: "memchr X xs ?nl = find_index (\<lambda>x. x = ?nl) xs" for xs using assms(1) by (simp add: memx_ok_def)
  show ?case
  proof (cases "find_index (\<lambda>x. x = ?nl) (drop so (take ofs src))")
    case None
    then have no: "\<forall>x \<in> set (drop so (take ofs src)). x \<noteq> ?nl" by (simp add: find_index_None_iff)
    have rest: "\<forall>x \<in> set (compute_line_starts_loop X src so). ofs < x"
    proof
      fix x assume x: "x \<in> set (compute_line_starts_loop X src so)"
      obtain p where p: "find_index (\<lambda>x. x = ?nl) (drop so src) = Some p" "x = so + (p + 1) \<or> x \<in> set (compute_line_starts_loop X src (so + (p + 1)))"
        using line_starts_step [OF x] unfolding mc by metis
      have "ofs \<le> so + p"
      proof (rule ccontr)
        assume "\<not> ofs \<le> so + p"
        then have "src ! (so + p) \<in> set (drop so (take ofs src))"
          using assms(2) by (auto simp: in_set_conv_nth intro!: exI [of _ p])
        then show False using no find_index_SomeD [OF p(1)] less.prems(1) assms(2) by (auto simp: nth_drop)
      qed
      then show "ofs < x" using p(2) line_starts_above [of x X src "so + (p + 1)"] by auto
    qed
    then show ?thesis using binary_search_line [OF less.prems(2,1) rest] less.prems(1,3) None assms(2)
      by (simp add: line_col_loop.simps [of X src ofs so] mc)
  next
    case (Some p)
    have p: "so + p < ofs" "src ! (so + p) = ?nl" using find_index_SomeD [OF Some] assms(2) by (auto simp: nth_drop)
    have "find_index (\<lambda>x. x = ?nl) (drop so src) = Some p"
    proof -
      have "so + p < length src" using p(1) assms(2) by simp
      then have "p < length (drop so src)" "drop so src ! p = ?nl" using p(2) by (simp_all add: nth_drop)
      then obtain j where j: "j \<le> p" "find_index (\<lambda>x. x = ?nl) (drop so src) = Some j"
        using find_index_exists [of p "drop so src" "\<lambda>x. x = ?nl"] by blast
      moreover have "\<not> j < p"
        using find_index_SomeD [OF j(2)] find_index_SomeD [OF Some] p(1) assms(2) by (auto simp: nth_drop)
      ultimately show ?thesis by simp
    qed
    then have "starts = (pre @ [so]) @ (so + p + 1) # compute_line_starts_loop X src (so + p + 1)"
      using less.prems(1,3) p(1) assms(2) by (simp add: compute_line_starts_loop.simps [of X src so] mc)
    note starts = this
    have "ofs - (so + p + 1) < ofs - so" "so + p + 1 \<le> ofs" "\<forall>x \<in> set (pre @ [so]). x < so + p + 1"
      using p(1) less.prems(2) by auto
    moreover have "line_col_loop X src ofs so (length pre + 1) = line_col_loop X src ofs (so + p + 1) (length (pre @ [so]) + 1)"
      using Some less.prems(1) assms(2) by (simp add: line_col_loop.simps [of X src ofs so] mc)
    ultimately show ?thesis using less.hyps [of "so + p + 1" "pre @ [so]"] starts by metis
  qed
qed

section \<open>Defers\<close>

text \<open>The scopes above a block when each was opened inside the one below it, and the defers among them.\<close>

definition chained :: "nat \<Rightarrow> scope list \<Rightarrow> bool" where
  "chained b xs \<longleftrightarrow> (\<forall>i < length xs. scope_parent (xs ! i) = Some (b + i))"

definition defers_of :: "scope list \<Rightarrow> opcode list" where
  "defers_of xs = [Op_Defer body sp. Scope_Defer _ body sp \<leftarrow> xs]"

lemma defers_of_snoc: "defers_of (xs @ [x]) = defers_of xs @ (case x of Scope_Defer _ body sp \<Rightarrow> [Op_Defer body sp] | _ \<Rightarrow> [])"
  by (cases x) (simp_all add: defers_of_def)

lemma append_defer_simps [simp]:
  "append_defer stop u i (Scope_Defer p body sp) = l_seq (inst i (Op_Defer body sp)) (l_ret (CF_Continue ()))"
  "append_defer stop u i (Scope_Block q st bk) = l_ret (if i = stop then CF_Break () else CF_Continue ())"
  "append_defer stop u i (Scope_Namespace q d cs) = l_ret (if i = stop then CF_Break () else CF_Continue ())"
  "append_defer stop u i (Scope_LocalValue p nm nd r f) = l_ret (if i = stop then CF_Break () else CF_Continue ())"
  "append_defer stop u i (Scope_LocalStackAllocated p nm nd r) = l_ret (if i = stop then CF_Break () else CF_Continue ())"
  by (simp_all add: append_defer_def)

lemma inst_returns:
  assumes "length (lw_instructions s) < 2 ^ 32 - 1"
  shows "inst b p s = LowDone (Instruction (length (lw_instructions s)))
    (s\<lparr>lw_instructions := lw_instructions s @ [p], lw_uir_scopes_instructions := lw_uir_scopes_instructions s @ [length (lw_instructions s)]\<rparr>)"
proof -
  have "instruction_id_from_usize (length (lw_instructions s)) = Returns (length (lw_instructions s))"
    using assms id_step [of "length (lw_instructions s)"]
    by (auto simp: instruction_id_from_usize_def from_usize_def from_u32_def word_le_nat_alt unat_of_nat)
  then show ?thesis by (simp add: inst_def inst_id_def l_bind_def l_ret_def)
qed

lemma append_defers_loop:
  assumes "lw_scopes s = ss @ blk # xs @ ys" and "chained (length ss) xs" and "is_blk blk" and "length xs < n"
    and "length (lw_instructions s) + length (defers_of xs) < 2 ^ 32"
  shows "\<exists>s'. traverse_loop n (length ss + length xs) () (append_defer (length ss)) s = LowDone (Some ()) s'
      \<and> lw_instructions s' = lw_instructions s @ rev (defers_of xs) \<and> lw_scopes s' = lw_scopes s"
  using assms
proof (induction xs arbitrary: s n ys rule: rev_induct)
  case Nil
  obtain m where m: "n = Suc m" using Nil.prems(4) by (cases n) auto
  show ?case using Nil.prems(1,3)
    by (cases blk) (simp_all add: m scope_at_def l_bind_def l_gets_def l_nth_def l_ret_def defers_of_def)
next
  case (snoc x xs)
  obtain m where m: "n = Suc m" using snoc.prems(4) by (cases n) auto
  have par: "scope_parent x = Some (length ss + length xs)" and ch: "chained (length ss) xs"
    using snoc.prems(2) by (auto simp: chained_def nth_append split: if_splits)
  have at: "lw_scopes s ! (length ss + length (xs @ [x])) = x" "length ss + length (xs @ [x]) < length (lw_scopes s)"
    using snoc.prems(1) by (simp_all add: nth_append)
  let ?s = "case x of Scope_Defer _ body sp \<Rightarrow> s\<lparr>lw_instructions := lw_instructions s @ [Op_Defer body sp],
      lw_uir_scopes_instructions := lw_uir_scopes_instructions s @ [length (lw_instructions s)]\<rparr> | _ \<Rightarrow> s"
  have "lw_scopes ?s = ss @ blk # xs @ ([x] @ ys)" using snoc.prems(1) by (cases x) simp_all
  moreover have "length (lw_instructions ?s) + length (defers_of xs) < 2 ^ 32"
    using snoc.prems(5) by (cases x) (simp_all add: defers_of_snoc)
  ultimately obtain s' where s': "traverse_loop m (length ss + length xs) () (append_defer (length ss)) ?s = LowDone (Some ()) s'"
      "lw_instructions s' = lw_instructions ?s @ rev (defers_of xs)" "lw_scopes s' = lw_scopes ?s"
    using snoc.IH [of ?s "[x] @ ys" m] ch snoc.prems(3,4) m by auto
  show ?case
  proof (cases x)
    case (Scope_Defer p body sp)
    then have "length (lw_instructions s) < 2 ^ 32 - 1" using snoc.prems(5) by (simp add: defers_of_snoc)
    then show ?thesis using s' at par Scope_Defer
      by (intro exI [of _ s']) (simp add: m scope_at_def l_bind_def l_seq_def l_gets_def l_nth_def l_ret_def inst_returns defers_of_snoc)
  qed (use s' at par in \<open>simp_all add: m scope_at_def l_bind_def l_gets_def l_nth_def l_ret_def defers_of_snoc\<close>)
qed

section \<open>A module\<close>

text \<open>The module \<^verbatim>\<open>const x = 1; fn f() void { loop { break; } return x; }\<close>, with all spans empty.\<close>

definition demo_span :: span where
  "demo_span = \<lparr>span_start_at = 0, span_end_at = 0\<rparr>"

definition demo_ident :: "string \<Rightarrow> ident" where
  "demo_ident x = \<lparr>id_symbol = x, id_kind = User, id_span = demo_span\<rparr>"

definition demo_expr :: "expr expr_kind \<Rightarrow> expr" where
  "demo_expr k = Expr 0 k demo_span"

definition demo_stmt :: "expr statement_kind \<Rightarrow> expr statement" where
  "demo_stmt k = Statement 0 k demo_span"

definition demo_loop :: expr where
  "demo_loop = demo_expr (E_Loop (Block 0 False None [demo_stmt (St_Break None None)] demo_span))"

definition demo_struct :: "expr struct_ty" where
  "demo_struct = StructTy []
     [AssociatedItem 0 (Item_Const (VarBinding 0 (demo_ident ''x'') None (demo_expr (E_Lit (Lit_Integer ''1'' Decimal None))))) False demo_span,
      AssociatedItem 0 (Item_Fn (Fn_Node (demo_ident ''f'') Extern_None Inline_None False None False [] (demo_expr (E_Type T_Void))
        (Some (Block 0 False None [demo_stmt (St_Expr demo_loop), demo_stmt (St_Return (Some (demo_expr (E_Ident (demo_ident ''x'')))))]
          demo_span)))) False demo_span]
     False False demo_span"

definition demo_vuir :: lower_outcome where
  "demo_vuir = to_vuir (\<lambda>ls l _. ls @ [l]) memx_scan 2 [] 0 (Module_StructDecl demo_struct)"

lemma demo_depth: "struct_depth demo_struct \<le> 2"
  by (simp add: struct_depth_def demo_struct_def demo_loop_def demo_stmt_def demo_expr_def)

lemma demo_lowers:
  obtains v where "to_vuir (\<lambda>ls l _. ls @ [l]) memx_scan 2 [] 0 (Module_StructDecl demo_struct) = Vuir_Ok v"
    and "demo_vuir = Vuir_Ok v" and "length (vuir_instructions v) = 19"
proof -
  have "case demo_vuir of Vuir_Ok v \<Rightarrow> length (vuir_instructions v) = 19 | _ \<Rightarrow> False" by code_simp
  then show thesis using that by (auto simp: demo_vuir_def split: lower_outcome.splits)
qed

section \<open>Properties\<close>

text \<open>
  C4: With a recursion bound that is at least the depth of the module's deepest expression, lowering a module returns: it never
  runs out of depth, and the stack of scopes, the stack of pending instructions, the pointers into function frames and the
  ids of instructions are always used within their bounds. A panic is one of those that the input provokes (a construct that
  the code marks as not implemented, \<^verbatim>\<open>errdefer\<close>, \<^verbatim>\<open>return\<close> outside a function, an array type without length, a
  number that does not parse, more than \<open>2 ^ 32 - 1\<close> instructions), and a failure comes with at least one diagnostic.
\<close>

theorem lowering_total:
  assumes "struct_depth st \<le> depth"
  shows "case to_vuir I X depth src m (Module_StructDecl st) of
      Vuir_Depth \<Rightarrow> False | Vuir_Panic f \<Rightarrow> input_fault f | Vuir_Err es \<Rightarrow> es \<noteq> [] | Vuir_Ok _ \<Rightarrow> True"
  using lowers_module [OF assms, of I X src m] by (auto simp: lowers_def to_vuir_def split: low_result.splits)

theorem lowering_total_witness:
  "case demo_vuir of Vuir_Depth \<Rightarrow> False | Vuir_Panic f \<Rightarrow> input_fault f | Vuir_Err es \<Rightarrow> es \<noteq> [] | Vuir_Ok _ \<Rightarrow> True"
  unfolding demo_vuir_def by (rule lowering_total [OF demo_depth])

text \<open>
  C5: The VUIR of a module that lowers without a diagnostic is well-formed: every instruction refers only to instructions of the
  module, and no placeholder that was reserved for a block, a loop, a branch, a call or a declaration is left unfilled.
\<close>

theorem lowered_vuir_well_formed:
  assumes "struct_depth st \<le> depth" and "to_vuir I X depth src m (Module_StructDecl st) = Vuir_Ok v"
  shows "vuir_ok v"
proof -
  obtain s where "at {} {} [] 0 0 s" "lw_errors s = []" "v = \<lparr>vuir_instructions = lw_instructions s, vuir_imports = lw_imports s\<rparr>"
    using lowers_module [OF assms(1), of I X src m] assms(2)
    by (auto simp: lowers_def to_vuir_def split: low_result.splits if_splits)
  then show ?thesis by (auto simp: at_def vuir_ok_def in_set_conv_nth)
qed

theorem lowered_vuir_well_formed_witness: "\<exists>v. demo_vuir = Vuir_Ok v \<and> length (vuir_instructions v) = 19 \<and> vuir_ok v"
  using demo_lowers lowered_vuir_well_formed [OF demo_depth] by metis



text \<open>
  C35: The lowering computes source positions from a table of line starts, with a binary search; diagnostics compute them by
  scanning the text. Both give the same line and column for every span of the text.
\<close>

theorem lowered_position_agrees:
  assumes "memx_ok X" and "span_start sp \<le> length src" and "lw_line_starts s = compute_line_starts X src"
  shows "\<exists>line col. start_line_col X sp src = Returns (line, col) \<and> lower_start_line_col sp s = LowDone (line, col) s"
  using line_col_line_starts [OF assms(1,2), of 0 "[]" "lw_line_starts s"] assms(3)
  by (auto simp: lower_start_line_col_def start_line_col_def line_col_def compute_line_starts_def l_bind_def l_gets_def l_nth_def l_ret_def Let_def)

theorem lowered_position_agrees_witness:
  "\<exists>line col. start_line_col memx_scan demo_span ''ab'' = Returns (line, col) \<and>
     lower_start_line_col demo_span (lowerer_new memx_scan ''ab'' 0) = LowDone (line, col) (lowerer_new memx_scan ''ab'' 0)"
  by (rule lowered_position_agrees [OF memx_scan_ok]) (simp_all add: demo_span_def span_start_def as_usize_def lowerer_new_def)



section \<open>Defects\<close>

text \<open>
  An address-of expression is lowered without the result location it was given: the pointer is returned, and an assignment
  \<^verbatim>\<open>p = x.&\<close> or a binding initialised with an address emits no store.
\<close>

theorem address_of_drops_result_location:
  "lower_expr I M b (Expr i (E_AddressOf x) sp) ctx s = lk_expr M b x RL_GetAddressOf s"
  by (simp add: lower_expr_def try_lower_linear_unary_expr_def unary_layers.simps ungroup.simps lower_expr_arm_def arm_return_def
      l_bind_def l_ret_def split: low_result.splits)

definition defer_struct :: "expr struct_ty" where
  "defer_struct = StructTy []
     [AssociatedItem 0 (Item_Fn (Fn_Node (demo_ident ''f'') Extern_None Inline_None False None False [] (demo_expr (E_Type T_Void))
        (Some (Block 0 False None [demo_stmt (St_Expr (demo_expr (E_Loop (Block 0 False None
          [demo_stmt (St_Defer (demo_expr (E_Block (Block 0 False None [] demo_span)))), demo_stmt (St_Break None None)] demo_span))))]
          demo_span)))) False demo_span]
     False False demo_span"

text \<open>
  The deferred bodies of a block are appended after its last statement. In the loop \<^verbatim>\<open>loop { defer {}; break; }\<close> the break comes
  before the deferred body, which is never reached; \<^verbatim>\<open>return\<close>, unlike \<^verbatim>\<open>break\<close>, appends the defers itself.
\<close>

theorem break_skips_defers:
  "case to_vuir (\<lambda>ls l _. ls @ [l]) memx_scan 3 [] 0 (Module_StructDecl defer_struct) of
     Vuir_Ok v \<Rightarrow> vuir_instructions v ! 6 = Op_Loop [7, 9, 10, 11, 12] demo_span \<and> vuir_instructions v ! 10 = Op_Break 6 (Interned Key_Void) demo_span
       \<and> vuir_instructions v ! 11 = Op_Defer [8] demo_span
   | _ \<Rightarrow> False"
  by code_simp

end
