(* ===== verification/Vif_Keyed_Map.thy ===== *)
theory Vif_Keyed_Map
  imports Vif_Prelude
begin

text \<open>
  What the two index maps of \<^verbatim>\<open>src/common/containers\<close> share: the hash table of the crate \<^verbatim>\<open>hashbrown\<close> that finds the slot of a key,
  which is a parameter, and the interface that both maps offer, a locale.
\<close>

section \<open>The hash table\<close>

text \<open>
  \<^verbatim>\<open>HashTable::default\<close>, \<^verbatim>\<open>find\<close> and \<^verbatim>\<open>insert_unique\<close>, and the elements that a table holds with the hashes they were inserted
  under. \<open>hash_table_ok\<close> is what its documentation says: a search gives an element under the hash that satisfies the predicate when
  there is one, and an insertion adds its element when the hash function it is given agrees with the hashes of the elements already there.
\<close>

record ('h, 'i) hash_table =
  ht_new :: 'h
  ht_find :: "'h \<Rightarrow> 64 word \<Rightarrow> ('i \<Rightarrow> bool) \<Rightarrow> 'i option"
  ht_insert_unique :: "'h \<Rightarrow> 64 word \<Rightarrow> 'i \<Rightarrow> ('i \<Rightarrow> 64 word) \<Rightarrow> 'h"
  ht_items :: "'h \<Rightarrow> (64 word \<times> 'i) set"

definition hash_table_ok :: "('h, 'i) hash_table \<Rightarrow> bool" where
  "hash_table_ok T \<longleftrightarrow>
     ht_items T (ht_new T) = {} \<and>
     (\<forall>t hash eq i. ht_find T t hash eq = Some i \<longrightarrow> (hash, i) \<in> ht_items T t \<and> eq i) \<and>
     (\<forall>t hash eq i. ht_find T t hash eq = None \<longrightarrow> (hash, i) \<in> ht_items T t \<longrightarrow> \<not> eq i) \<and>
     (\<forall>t hash i hasher. (\<forall>(h, j) \<in> ht_items T t. hasher j = h) \<longrightarrow>
        ht_items T (ht_insert_unique T t hash i hasher) = insert (hash, i) (ht_items T t))"

lemma hash_table_okD:
  assumes "hash_table_ok T"
  shows "ht_items T (ht_new T) = {}"
    and "ht_find T t hash eq = Some i \<Longrightarrow> (hash, i) \<in> ht_items T t" and "ht_find T t hash eq = Some i \<Longrightarrow> eq i"
    and "ht_find T t hash eq = None \<Longrightarrow> (hash, i) \<in> ht_items T t \<Longrightarrow> \<not> eq i"
    and "\<forall>(h, j) \<in> ht_items T t. hasher j = h \<Longrightarrow> ht_items T (ht_insert_unique T t hash i hasher) = insert (hash, i) (ht_items T t)"
proof -
  note laws = assms [unfolded hash_table_ok_def]
  show "ht_items T (ht_new T) = {}" by (rule laws [THEN conjunct1])
  note f = laws [THEN conjunct2, THEN conjunct1, rule_format] and n = laws [THEN conjunct2, THEN conjunct2, THEN conjunct1, rule_format]
  show "ht_find T t hash eq = Some i \<Longrightarrow> (hash, i) \<in> ht_items T t" by (rule f [THEN conjunct1])
  show "ht_find T t hash eq = Some i \<Longrightarrow> eq i" by (rule f [THEN conjunct2])
  show "ht_find T t hash eq = None \<Longrightarrow> (hash, i) \<in> ht_items T t \<Longrightarrow> \<not> eq i" by (rule n)
  show "\<forall>(h, j) \<in> ht_items T t. hasher j = h \<Longrightarrow> ht_items T (ht_insert_unique T t hash i hasher) = insert (hash, i) (ht_items T t)"
    using laws [THEN conjunct2, THEN conjunct2, THEN conjunct2] by simp
qed

text \<open>A table over slots with keys: it holds every slot under the hash of its key, and no two slots have the same key.\<close>

definition table_for :: "('h, 'i) hash_table \<Rightarrow> ('k \<Rightarrow> 64 word) \<Rightarrow> 'h \<Rightarrow> ('i \<rightharpoonup> 'k) \<Rightarrow> bool" where
  "table_for T hash_one t keys \<longleftrightarrow> ht_items T t = {(hash_one k, i) |k i. keys i = Some k} \<and> inj_on keys (dom keys)"

lemma table_for_new: "hash_table_ok T \<Longrightarrow> (\<And>i. keys i = None) \<Longrightarrow> table_for T hash_one (ht_new T) keys"
  by (simp add: hash_table_ok_def table_for_def dom_def)

lemma table_for_same_key: "table_for T hash_one t keys \<Longrightarrow> keys i = Some k \<Longrightarrow> keys j = Some k \<Longrightarrow> i = j"
  by (auto simp: table_for_def inj_on_def dom_def)

lemma table_for_upd:
  assumes "table_for T hash_one t keys" and "keys i = Some k \<or> keys i = None \<and> (\<forall>j. keys j \<noteq> Some k)"
  shows "(keys(i \<mapsto> k)) x = Some k' \<longleftrightarrow> (if k' = k then x = i else keys x = Some k')"
  using assms table_for_same_key [OF assms(1), of i k x] by auto

text \<open>A search for a key finds its slot.\<close>

lemma table_for_find:
  assumes "hash_table_ok T" and "table_for T hash_one t keys" and "\<And>i. eq i \<longleftrightarrow> keys i = Some k"
  shows "ht_find T t (hash_one k) eq = Some i \<longleftrightarrow> keys i = Some k"
proof
  assume "ht_find T t (hash_one k) eq = Some i"
  then show "keys i = Some k" using hash_table_okD(3) [OF assms(1)] assms(3) by metis
next
  assume i: "keys i = Some k"
  then have "(hash_one k, i) \<in> ht_items T t" using assms(2) by (auto simp: table_for_def)
  moreover have "eq i" using i assms(3) by simp
  ultimately obtain j where j: "ht_find T t (hash_one k) eq = Some j"
    using hash_table_okD(4) [OF assms(1)] by (cases "ht_find T t (hash_one k) eq") metis+
  then have "keys j = Some k" using hash_table_okD(3) [OF assms(1)] assms(3) by metis
  then show "ht_find T t (hash_one k) eq = Some i" using j table_for_same_key [OF assms(2) i] by simp
qed

lemma table_for_insert:
  assumes "hash_table_ok T" and "table_for T hash_one t keys" and "keys i = None" and "\<And>j. keys j \<noteq> Some k"
    and "\<And>j k'. keys j = Some k' \<Longrightarrow> hasher j = hash_one k'"
  shows "table_for T hash_one (ht_insert_unique T t (hash_one k) i hasher) (keys(i \<mapsto> k))"
proof -
  have "\<forall>(h, j) \<in> ht_items T t. hasher j = h" using assms(2,5) by (auto simp: table_for_def)
  then have "ht_items T (ht_insert_unique T t (hash_one k) i hasher) = insert (hash_one k, i) (ht_items T t)"
    by (rule hash_table_okD(5) [OF assms(1)])
  also have "\<dots> = {(hash_one k', j) |k' j. (keys(i \<mapsto> k)) j = Some k'}"
    unfolding assms(2) [unfolded table_for_def, THEN conjunct1]
  proof (intro set_eqI iffI)
    fix x assume "x \<in> insert (hash_one k, i) {(hash_one k, i) |k i. keys i = Some k}"
    then consider "x = (hash_one k, i)" | k' j where "x = (hash_one k', j)" "keys j = Some k'" by blast
    then show "x \<in> {(hash_one k', j) |k' j. (keys(i \<mapsto> k)) j = Some k'}"
    proof cases
      case (2 k' j)
      then have "(keys(i \<mapsto> k)) j = Some k'" using assms(3) by auto
      then show ?thesis using 2(1) by blast
    qed auto
  next
    fix x assume "x \<in> {(hash_one k', j) |k' j. (keys(i \<mapsto> k)) j = Some k'}"
    then show "x \<in> insert (hash_one k, i) {(hash_one k, i) |k i. keys i = Some k}" by (auto split: if_splits)
  qed
  finally have "ht_items T (ht_insert_unique T t (hash_one k) i hasher) = {(hash_one k', j) |k' j. (keys(i \<mapsto> k)) j = Some k'}" .
  moreover have "inj_on (keys(i \<mapsto> k)) (dom (keys(i \<mapsto> k)))"
  proof (rule inj_onI)
    fix x y assume "x \<in> dom (keys(i \<mapsto> k))" and "(keys(i \<mapsto> k)) x = (keys(i \<mapsto> k)) y"
    then show "x = y" using table_for_same_key [OF assms(2), of x _ y] assms(4) [of x] assms(4) [of y]
      by (cases "x = i"; cases "y = i"; cases "keys y") auto
  qed
  ultimately show ?thesis by (simp only: table_for_def)
qed

text \<open>A table that satisfies the hypothesis: the list of its elements.\<close>

definition list_table :: "((64 word \<times> 'i) list, 'i) hash_table" where
  "list_table =
     \<lparr>ht_new = [],
      ht_find = (\<lambda>t hash eq. map_option snd (find (\<lambda>(h, i). h = hash \<and> eq i) t)),
      ht_insert_unique = (\<lambda>t hash i _. (hash, i) # t),
      ht_items = set\<rparr>"

lemma list_table_find:
  "(case find (\<lambda>(h, i). h = hash \<and> eq i) t of
      Some (_, i) \<Rightarrow> (hash, i) \<in> set t \<and> eq i | None \<Rightarrow> (\<forall>i. (hash, i) \<in> set t \<longrightarrow> \<not> eq i))"
  by (induction t) (auto split: option.splits)

lemma list_table_ok: "hash_table_ok list_table"
  unfolding hash_table_ok_def
proof (intro conjI allI impI)
  fix t :: "(64 word \<times> 'a) list" and hash eq i
  note f = list_table_find [where hash = hash and eq = eq and t = t]
  show "(hash, i) \<in> ht_items list_table t" "eq i" if "ht_find list_table t hash eq = Some i"
    using f that by (auto simp: list_table_def)
  show "\<not> eq i" if "ht_find list_table t hash eq = None" "(hash, i) \<in> ht_items list_table t"
    using f that by (auto simp: list_table_def split: option.splits)
qed (simp_all add: list_table_def)

section \<open>The interface of an index map\<close>

text \<open>\<^verbatim>\<open>find\<close>, \<^verbatim>\<open>insert\<close> with the index of the entry and the value it had, \<^verbatim>\<open>or_insert_with\<close> and \<^verbatim>\<open>kv\<close>.\<close>

type_synonym ('m, 'k, 'v, 'i) insert_op = "'m \<Rightarrow> 'k \<Rightarrow> 'v \<Rightarrow> ('m \<times> 'i \<times> 'v option) outcome"

definition lookup_with :: "('m \<Rightarrow> 'k \<Rightarrow> 'i option outcome) \<Rightarrow> ('m \<Rightarrow> 'i \<Rightarrow> ('k \<times> 'v) outcome) \<Rightarrow> 'm \<Rightarrow> 'k \<rightharpoonup> 'v" where
  "lookup_with seek kv m k =
     (case seek m k of
        Returns (Some i) \<Rightarrow> (case kv m i of Returns (_, v) \<Rightarrow> Some v | Panics \<Rightarrow> None)
      | _ \<Rightarrow> None)"

fun insert_all :: "('m, 'k, 'v, 'i) insert_op \<Rightarrow> 'm \<Rightarrow> ('k \<times> 'v) list \<Rightarrow> 'm outcome" where
  "insert_all ins m [] = Returns m"
| "insert_all ins m ((k, v) # kvs) = bind_outcome (ins m k v) (\<lambda>(m', _). insert_all ins m' kvs)"

locale keyed_map =
  fixes inv :: "'m \<Rightarrow> bool" and seek :: "'m \<Rightarrow> 'k \<Rightarrow> 'i option outcome" and ins :: "('m, 'k, 'v, 'i) insert_op"
    and or_insert :: "'m \<Rightarrow> 'k \<Rightarrow> 'v \<Rightarrow> ('m \<times> 'i) outcome" and kv :: "'m \<Rightarrow> 'i \<Rightarrow> ('k \<times> 'v) outcome"
  assumes find_returns: "inv m \<Longrightarrow> \<exists>r. seek m k = Returns r"
    and find_kv: "inv m \<Longrightarrow> seek m k = Returns (Some i) \<Longrightarrow> \<exists>v. kv m i = Returns (k, v)"
    and ins_old: "inv m \<Longrightarrow> seek m k = Returns (Some i) \<Longrightarrow> kv m i = Returns (k, w) \<Longrightarrow> \<exists>m'. ins m k v = Returns (m', i, Some w)"
    and ins_new: "inv m \<Longrightarrow> seek m k = Returns None \<Longrightarrow> ins m k v = Returns (m', i, p) \<Longrightarrow> p = None"
    and ins_inv: "inv m \<Longrightarrow> ins m k v = Returns (m', i, p) \<Longrightarrow> inv m'"
    and ins_find: "inv m \<Longrightarrow> ins m k v = Returns (m', i, p) \<Longrightarrow> seek m' k' = (if k' = k then Returns (Some i) else seek m k')"
    and ins_kv: "inv m \<Longrightarrow> ins m k v = Returns (m', i, p) \<Longrightarrow> kv m' i = Returns (k, v)"
    and ins_kv_other: "inv m \<Longrightarrow> ins m k v = Returns (m', i, p) \<Longrightarrow> kv m j = Returns (k', w) \<Longrightarrow> k' \<noteq> k \<Longrightarrow> kv m' j = Returns (k', w)"
    and or_insert_old: "inv m \<Longrightarrow> seek m k = Returns (Some i) \<Longrightarrow> or_insert m k v = Returns (m, i)"
    and or_insert_new: "inv m \<Longrightarrow> seek m k = Returns None \<Longrightarrow> or_insert m k v = bind_outcome (ins m k v) (\<lambda>(m', i, _). Returns (m', i))"
begin

text \<open>Two keys have two indices, and an index is for ever.\<close>

lemma find_inj: "inv m \<Longrightarrow> seek m k = Returns (Some i) \<Longrightarrow> seek m k' = Returns (Some i) \<Longrightarrow> k = k'"
  using find_kv [of m k i] find_kv [of m k' i] by auto

lemma ins_stable:
  assumes "inv m" and "seek m k' = Returns (Some j)" and "ins m k v = Returns (m', i, p)"
  shows "seek m' k' = Returns (Some j)"
  using assms find_kv [OF assms(1,2)] ins_find [OF assms(1,3), of k'] ins_old [OF assms(1), of k j _ v] by (cases "k' = k") fastforce+

text \<open>Insertion is the update of the map that the keys and values form.\<close>

lemma ins_lookup:
  assumes "inv m" and "ins m k v = Returns (m', i, p)"
  shows "lookup_with seek kv m' = (lookup_with seek kv m)(k \<mapsto> v)" and "p = lookup_with seek kv m k"
proof -
  have "lookup_with seek kv m' k' = lookup_with seek kv m k'" if "k' \<noteq> k" for k'
  proof (cases "seek m k'")
    case (Returns r)
    then show ?thesis using that ins_find [OF assms, of k'] find_kv [OF assms(1), of k'] ins_kv_other [OF assms]
      by (cases r) (fastforce simp: lookup_with_def)+
  qed (use that ins_find [OF assms, of k'] in \<open>simp add: lookup_with_def\<close>)
  then show "lookup_with seek kv m' = (lookup_with seek kv m)(k \<mapsto> v)"
    using ins_find [OF assms, of k] ins_kv [OF assms] by (auto simp: lookup_with_def)
  obtain r where r: "seek m k = Returns r" using find_returns [OF assms(1)] by blast
  show "p = lookup_with seek kv m k"
  proof (cases r)
    case None
    then show ?thesis using r ins_new [OF assms(1) _ assms(2)] by (simp add: lookup_with_def)
  next
    case (Some j)
    obtain w where "kv m j = Returns (k, w)" using find_kv [OF assms(1)] r Some by blast
    then show ?thesis using r Some ins_old [OF assms(1), of k j w v] assms(2) by (auto simp: lookup_with_def)
  qed
qed

lemma insert_all_ok:
  assumes "inv m" and "insert_all ins m kvs = Returns m'"
  shows "inv m' \<and> lookup_with seek kv m' = lookup_with seek kv m ++ map_of (rev kvs)
    \<and> (\<forall>k i. seek m k = Returns (Some i) \<longrightarrow> seek m' k = Returns (Some i))"
  using assms
proof (induction kvs arbitrary: m)
  case (Cons x kvs)
  obtain k v where x: "x = (k, v)" by fastforce
  obtain m1 i p where i: "ins m k v = Returns (m1, i, p)" "insert_all ins m1 kvs = Returns m'"
    using Cons.prems(2) x by (auto simp: bind_outcome_Returns_iff)
  note IH = Cons.IH [OF ins_inv [OF Cons.prems(1) i(1)] i(2)]
  have "lookup_with seek kv m' = (lookup_with seek kv m)(k \<mapsto> v) ++ map_of (rev kvs)" using IH ins_lookup(1) [OF Cons.prems(1) i(1)] by (simp only:)
  also have "\<dots> = lookup_with seek kv m ++ map_of (rev (x # kvs))"
    by (auto simp: x map_add_def fun_eq_iff map_of_append split: option.splits)
  finally show ?case using IH ins_stable [OF Cons.prems(1) _ i(1)] by blast
qed simp

text \<open>\<^verbatim>\<open>or_insert_with\<close> keeps the value of a key that is there.\<close>

lemma or_insert_ok:
  assumes "inv m" and "or_insert m k v = Returns (m', i)"
  shows "inv m'" and "seek m' k = Returns (Some i)"
    and "lookup_with seek kv m' = (if lookup_with seek kv m k = None then (lookup_with seek kv m)(k \<mapsto> v) else lookup_with seek kv m)"
proof -
  obtain r where r: "seek m k = Returns r" using find_returns [OF assms(1)] by blast
  have "inv m' \<and> seek m' k = Returns (Some i) \<and> lookup_with seek kv m' =
      (if lookup_with seek kv m k = None then (lookup_with seek kv m)(k \<mapsto> v) else lookup_with seek kv m)"
  proof (cases r)
    case None
    then obtain p where p: "ins m k v = Returns (m', i, p)" using assms(2) or_insert_new [OF assms(1), of k v] r
      by (auto simp: bind_outcome_Returns_iff)
    have "lookup_with seek kv m k = None" using r None by (simp add: lookup_with_def)
    then show ?thesis using ins_inv [OF assms(1) p] ins_find [OF assms(1) p, of k] ins_lookup(1) [OF assms(1) p] by simp
  next
    case (Some j)
    obtain w where "kv m j = Returns (k, w)" using find_kv [OF assms(1)] r Some by blast
    then show ?thesis using or_insert_old [OF assms(1), of k j v] r Some assms by (auto simp: lookup_with_def)
  qed
  then show "inv m'" "seek m' k = Returns (Some i)"
    "lookup_with seek kv m' = (if lookup_with seek kv m k = None then (lookup_with seek kv m)(k \<mapsto> v) else lookup_with seek kv m)"
    by blast+
qed

end

end
