(* ===== verification/Vif_Index_Map.thy ===== *)
theory Vif_Index_Map
  imports Vif_Keyed_Map
begin

text \<open>
  \<^verbatim>\<open>IndexMap\<close> of \<^verbatim>\<open>src/common/containers/index_map.rs\<close> with its entries of \<^verbatim>\<open>index_map/entry.rs\<close>: a map that numbers its keys in the
  order of their insertion. The hash table \<open>T\<close> and the hash function are parameters. The functions given to the table read the
  slots; they are only called for indices that the table holds, all of which are in range, and are false elsewhere.
\<close>

section \<open>Indexed vectors\<close>

text \<open>\<^verbatim>\<open>IndexVec\<close> of \<^verbatim>\<open>src/common/containers.rs\<close>: a vector whose positions have a type of their own. Out of range, indexing and removal panic.\<close>

type_synonym 'a index_vec = "'a list"

definition iv_get :: "'a index_vec \<Rightarrow> nat \<Rightarrow> 'a option" where
  "iv_get v index = (if index < length v then Some (v ! index) else None)"

definition iv_index :: "'a index_vec \<Rightarrow> nat \<Rightarrow> 'a outcome" where
  "iv_index v index = (if index < length v then Returns (v ! index) else Panics)"

definition iv_index_range :: "'a index_vec \<Rightarrow> nat \<Rightarrow> nat \<Rightarrow> 'a list outcome" where
  "iv_index_range v s e = (if s \<le> e \<and> e \<le> length v then Returns (take (e - s) (drop s v)) else Panics)"

definition iv_push :: "'a index_vec \<Rightarrow> 'a \<Rightarrow> 'a index_vec \<times> nat" where
  "iv_push v elem = (let v' = v @ [elem] in (v', length v' - 1))"

definition iv_pop :: "'a index_vec \<Rightarrow> 'a index_vec \<times> 'a option" where
  "iv_pop v = (if v = [] then (v, None) else (butlast v, Some (last v)))"

definition iv_remove :: "'a index_vec \<Rightarrow> nat \<Rightarrow> ('a index_vec \<times> 'a) outcome" where
  "iv_remove v index = (if index < length v then Returns (take index v @ drop (Suc index) v, v ! index) else Panics)"

declare iv_index_def [simp] iv_push_def [simp]

text \<open>The last element pushed is the one that is popped or removed, and the others keep their positions.\<close>

lemma iv_push_pop:
  assumes "iv_push v elem = (v', i)"
  shows "iv_index v' i = Returns elem" and "iv_pop v' = (v, Some elem)" and "iv_remove v' i = Returns (v, elem)"
    and "j < length v \<Longrightarrow> iv_get v' j = iv_get v j"
  using assms by (auto simp: iv_pop_def iv_remove_def iv_get_def nth_append)

section \<open>The map\<close>

record ('k, 'v, 'h) index_map =
  im_hash_table :: 'h
  im_slots :: "('k \<times> 'v) index_vec"

datatype 'k im_entry_kind = Im_Occupied nat | Im_Vacant 'k "64 word"

definition im_new :: "('h, nat) hash_table \<Rightarrow> ('k, 'v, 'h) index_map" where
  "im_new T = \<lparr>im_hash_table = ht_new T, im_slots = []\<rparr>"

definition im_slot_has_key :: "('k, 'v, 'h) index_map \<Rightarrow> 'k \<Rightarrow> nat \<Rightarrow> bool" where
  "im_slot_has_key m key idx \<longleftrightarrow> idx < length (im_slots m) \<and> fst (im_slots m ! idx) = key"

definition im_find :: "('h, nat) hash_table \<Rightarrow> ('k \<Rightarrow> 64 word) \<Rightarrow> ('k, 'v, 'h) index_map \<Rightarrow> 'k \<Rightarrow> nat option" where
  "im_find T hash_one m key = ht_find T (im_hash_table m) (hash_one key) (im_slot_has_key m key)"

definition im_entry :: "('h, nat) hash_table \<Rightarrow> ('k \<Rightarrow> 64 word) \<Rightarrow> ('k, 'v, 'h) index_map \<Rightarrow> 'k \<Rightarrow> 'k im_entry_kind" where
  "im_entry T hash_one m key =
     (let hash = hash_one key in
      case ht_find T (im_hash_table m) hash (im_slot_has_key m key) of
        Some index \<Rightarrow> Im_Occupied index
      | None \<Rightarrow> Im_Vacant key hash)"

definition im_kv :: "('k, 'v, 'h) index_map \<Rightarrow> nat \<Rightarrow> ('k \<times> 'v) outcome" where
  "im_kv m index = iv_index (im_slots m) index"

definition im_key :: "('k, 'v, 'h) index_map \<Rightarrow> nat \<Rightarrow> 'k outcome" where
  "im_key m index = bind_outcome (iv_index (im_slots m) index) (\<lambda>(k, _). Returns k)"

definition im_insert_by_ref ::
  "('h, nat) hash_table \<Rightarrow> ('k \<Rightarrow> 64 word) \<Rightarrow> ('k, 'v, 'h) index_map \<Rightarrow> 'k \<Rightarrow> 64 word \<Rightarrow> 'v \<Rightarrow> ('k, 'v, 'h) index_map \<times> nat" where
  "im_insert_by_ref T hash_one m key hash value =
     (case iv_push (im_slots m) (key, value) of (slots, index) \<Rightarrow>
      (\<lparr>im_hash_table = ht_insert_unique T (im_hash_table m) hash index (\<lambda>i. hash_one (fst (slots ! i))), im_slots = slots\<rparr>, index))"

definition im_insert_entry ::
  "('h, nat) hash_table \<Rightarrow> ('k \<Rightarrow> 64 word) \<Rightarrow> ('k, 'v, 'h) index_map \<Rightarrow> 'k im_entry_kind \<Rightarrow> 'v \<Rightarrow> (('k, 'v, 'h) index_map \<times> nat \<times> 'v option) outcome" where
  "im_insert_entry T hash_one m e value =
     (case e of
        Im_Occupied index \<Rightarrow>
          bind_outcome (im_kv m index) (\<lambda>(key, prev). Returns (m\<lparr>im_slots := (im_slots m)[index := (key, value)]\<rparr>, index, Some prev))
      | Im_Vacant key hash \<Rightarrow> (case im_insert_by_ref T hash_one m key hash value of (m', index) \<Rightarrow> Returns (m', index, None)))"

text \<open>\<^verbatim>\<open>or_insert_with\<close>; \<^verbatim>\<open>OccupiedEntry::insert\<close> is not implemented and panics.\<close>

definition im_or_insert_with ::
  "('h, nat) hash_table \<Rightarrow> ('k \<Rightarrow> 64 word) \<Rightarrow> ('k, 'v, 'h) index_map \<Rightarrow> 'k im_entry_kind \<Rightarrow> (unit \<Rightarrow> 'v) \<Rightarrow> ('k, 'v, 'h) index_map \<times> nat" where
  "im_or_insert_with T hash_one m e f =
     (case e of Im_Occupied index \<Rightarrow> (m, index) | Im_Vacant key hash \<Rightarrow> im_insert_by_ref T hash_one m key hash (f ()))"

definition im_occupied_insert :: "('k, 'v, 'h) index_map \<Rightarrow> nat \<Rightarrow> 'v \<Rightarrow> (('k, 'v, 'h) index_map \<times> nat \<times> 'v option) outcome" where
  "im_occupied_insert m index value = Panics"

definition im_insert ::
  "('h, nat) hash_table \<Rightarrow> ('k \<Rightarrow> 64 word) \<Rightarrow> ('k, 'v, 'h) index_map \<Rightarrow> 'k \<Rightarrow> 'v \<Rightarrow> (('k, 'v, 'h) index_map \<times> nat \<times> 'v option) outcome" where
  "im_insert T hash_one m key value = im_insert_entry T hash_one m (im_entry T hash_one m key) value"

section \<open>The invariant\<close>

definition im_keys :: "('k, 'v, 'h) index_map \<Rightarrow> nat \<rightharpoonup> 'k" where
  "im_keys m i = (if i < length (im_slots m) then Some (fst (im_slots m ! i)) else None)"

definition im_inv :: "('h, nat) hash_table \<Rightarrow> ('k \<Rightarrow> 64 word) \<Rightarrow> ('k, 'v, 'h) index_map \<Rightarrow> bool" where
  "im_inv T hash_one m \<longleftrightarrow> hash_table_ok T \<and> table_for T hash_one (im_hash_table m) (im_keys m)"

lemma im_inv_new: "hash_table_ok T \<Longrightarrow> im_inv T hash_one (im_new T)"
  by (simp add: im_inv_def im_new_def im_keys_def table_for_new)

lemma im_keys_Some: "im_keys m i = Some k \<longleftrightarrow> i < length (im_slots m) \<and> fst (im_slots m ! i) = k"
  by (simp add: im_keys_def)

lemma im_find_iff: "im_inv T hash_one m \<Longrightarrow> im_find T hash_one m k = Some i \<longleftrightarrow> im_keys m i = Some k"
  unfolding im_find_def im_inv_def by (rule table_for_find) (auto simp: im_slot_has_key_def im_keys_Some)

lemma im_find_None: "im_inv T hash_one m \<Longrightarrow> im_find T hash_one m k = None \<longleftrightarrow> (\<forall>i. im_keys m i \<noteq> Some k)"
  using im_find_iff [of T hash_one m k] by (cases "im_find T hash_one m k") auto

lemma im_entry_find:
  "im_entry T hash_one m key = (case im_find T hash_one m key of Some i \<Rightarrow> Im_Occupied i | None \<Rightarrow> Im_Vacant key (hash_one key))"
  by (simp add: im_entry_def im_find_def Let_def)

text \<open>An insertion overwrites the slot of a key that is there, and appends a slot otherwise.\<close>

lemma im_insert_old:
  assumes "im_inv T hash_one m" and "im_keys m i = Some k"
  shows "im_insert T hash_one m k v = Returns (m\<lparr>im_slots := (im_slots m)[i := (k, v)]\<rparr>, i, Some (snd (im_slots m ! i)))"
    and "im_inv T hash_one (m\<lparr>im_slots := (im_slots m)[i := (k, v)]\<rparr>)"
proof -
  have i: "im_find T hash_one m k = Some i" using assms im_find_iff [OF assms(1)] by simp
  show "im_insert T hash_one m k v = Returns (m\<lparr>im_slots := (im_slots m)[i := (k, v)]\<rparr>, i, Some (snd (im_slots m ! i)))"
    using i assms(2) by (auto simp: im_insert_def im_entry_find im_insert_entry_def im_kv_def im_keys_Some split: prod.splits)
  have "im_keys (m\<lparr>im_slots := (im_slots m)[i := (k, v)]\<rparr>) = im_keys m" using assms(2) by (auto simp: im_keys_def nth_list_update fun_eq_iff split: if_splits)
  then show "im_inv T hash_one (m\<lparr>im_slots := (im_slots m)[i := (k, v)]\<rparr>)" using assms(1) by (simp add: im_inv_def)
qed

lemma im_insert_by_ref_inv:
  assumes "im_inv T hash_one m" and "im_find T hash_one m k = None" and "im_insert_by_ref T hash_one m k (hash_one k) v = (m', i)"
  shows "i = length (im_slots m)" and "im_slots m' = im_slots m @ [(k, v)]" and "im_inv T hash_one m'"
proof -
  show "i = length (im_slots m)" and s: "im_slots m' = im_slots m @ [(k, v)]" using assms(3) by (auto simp: im_insert_by_ref_def Let_def)
  have keys: "im_keys m' = (im_keys m)(length (im_slots m) \<mapsto> k)" using s by (auto simp: im_keys_def nth_append fun_eq_iff)
  have "table_for T hash_one (ht_insert_unique T (im_hash_table m) (hash_one k) (length (im_slots m))
      (\<lambda>i. hash_one (fst ((im_slots m @ [(k, v)]) ! i)))) ((im_keys m)(length (im_slots m) \<mapsto> k))"
    by (rule table_for_insert) (use assms(1,2) in \<open>auto simp: im_inv_def im_find_None [OF assms(1)] im_keys_def nth_append split: if_splits\<close>)
  then show "im_inv T hash_one m'" using assms(1,3) keys by (auto simp: im_inv_def im_insert_by_ref_def Let_def)
qed

lemma im_insert_new:
  assumes "im_inv T hash_one m" and "im_find T hash_one m k = None"
  shows "\<exists>m'. im_insert T hash_one m k v = Returns (m', length (im_slots m), None) \<and> im_slots m' = im_slots m @ [(k, v)] \<and> im_inv T hash_one m'"
proof -
  obtain m' i where m': "im_insert_by_ref T hash_one m k (hash_one k) v = (m', i)" by fastforce
  then show ?thesis using im_insert_by_ref_inv [OF assms m'] assms(2)
    by (simp add: im_insert_def im_entry_find im_insert_entry_def)
qed

section \<open>The interface\<close>

definition im_seek :: "('h, nat) hash_table \<Rightarrow> ('k \<Rightarrow> 64 word) \<Rightarrow> ('k, 'v, 'h) index_map \<Rightarrow> 'k \<Rightarrow> nat option outcome" where
  "im_seek T hash_one m key = Returns (im_find T hash_one m key)"

definition im_or_insert :: "('h, nat) hash_table \<Rightarrow> ('k \<Rightarrow> 64 word) \<Rightarrow> ('k, 'v, 'h) index_map \<Rightarrow> 'k \<Rightarrow> 'v \<Rightarrow> (('k, 'v, 'h) index_map \<times> nat) outcome" where
  "im_or_insert T hash_one m key value = Returns (im_or_insert_with T hash_one m (im_entry T hash_one m key) (\<lambda>_. value))"

lemma im_insert_cases:
  assumes "im_inv T hash_one m" and "im_insert T hash_one m k v = Returns (m', i, p)"
  obtains (old) "im_keys m i = Some k" and "m' = m\<lparr>im_slots := (im_slots m)[i := (k, v)]\<rparr>" and "p = Some (snd (im_slots m ! i))" and "im_inv T hash_one m'"
  | (new) "\<And>j. im_keys m j \<noteq> Some k" and "i = length (im_slots m)" and "im_slots m' = im_slots m @ [(k, v)]" and "p = None" and "im_inv T hash_one m'"
proof (cases "im_find T hash_one m k")
  case None
  then show thesis using new im_insert_new [OF assms(1) None, of v] assms(2) im_find_None [OF assms(1), of k] by auto
next
  case (Some j)
  then have "im_keys m j = Some k" using im_find_iff [OF assms(1)] by simp
  then show thesis using old im_insert_old [OF assms(1), of j k v] assms(2) by auto
qed

interpretation im: keyed_map "im_inv T hash_one" "im_seek T hash_one" "im_insert T hash_one" "im_or_insert T hash_one" im_kv
  for T hash_one
proof
  fix m :: "('b, 'c, 'a) index_map" and k i
  assume inv: "im_inv T hash_one m"
  note iff = im_find_iff [OF inv]
  show "\<exists>r. im_seek T hash_one m k = Returns r" by (simp add: im_seek_def)
  show "\<exists>v. im_kv m i = Returns (k, v)" if "im_seek T hash_one m k = Returns (Some i)"
    using that iff by (cases "im_slots m ! i") (auto simp: im_seek_def im_kv_def im_keys_Some)
  fix v w
  show "\<exists>m'. im_insert T hash_one m k v = Returns (m', i, Some w)" if "im_seek T hash_one m k = Returns (Some i)" "im_kv m i = Returns (k, w)"
    using that iff im_insert_old [OF inv, of i k v] by (auto simp: im_seek_def im_kv_def split: if_splits)
  show "im_or_insert T hash_one m k v = Returns (m, i)" if "im_seek T hash_one m k = Returns (Some i)"
    using that by (simp add: im_or_insert_def im_or_insert_with_def im_entry_find im_seek_def)
  show "im_or_insert T hash_one m k v = bind_outcome (im_insert T hash_one m k v) (\<lambda>(m', i, _). Returns (m', i))" if "im_seek T hash_one m k = Returns None"
    using that by (auto simp: im_or_insert_def im_or_insert_with_def im_entry_find im_seek_def im_insert_def im_insert_entry_def split: prod.splits)
  fix m' p k' j
  assume ins: "im_insert T hash_one m k v = Returns (m', i, p)"
  show "p = None" if "im_seek T hash_one m k = Returns None"
    using im_insert_cases [OF inv ins] by cases (use that iff [of k i] in \<open>auto simp: im_seek_def\<close>)
  show inv': "im_inv T hash_one m'" using im_insert_cases [OF inv ins] by cases auto
  have keys: "im_keys m' = (im_keys m)(i \<mapsto> k)"
    using im_insert_cases [OF inv ins] by cases (auto simp: im_keys_def fun_eq_iff nth_append split: if_splits)
  have "im_keys m i = Some k \<or> im_keys m i = None \<and> (\<forall>j. im_keys m j \<noteq> Some k)"
    using im_insert_cases [OF inv ins] by cases (auto simp: im_keys_def)
  note upd = table_for_upd [OF inv [unfolded im_inv_def, THEN conjunct2] this, of _ k']
  have "im_find T hash_one m' k' = Some x \<longleftrightarrow> (if k' = k then Some i else im_find T hash_one m k') = Some x" for x
    using upd [of x] by (auto simp: im_find_iff [OF inv'] iff keys)
  then show "im_seek T hash_one m' k' = (if k' = k then Returns (Some i) else im_seek T hash_one m k')"
    by (metis im_seek_def not_Some_eq)
  show "im_kv m' i = Returns (k, v)" using im_insert_cases [OF inv ins] by cases (auto simp: im_kv_def im_keys_Some)
  show "im_kv m' j = Returns (k', w)" if "im_kv m j = Returns (k', w)" "k' \<noteq> k"
    using im_insert_cases [OF inv ins] by cases (use that in \<open>auto simp: im_kv_def im_keys_Some nth_list_update nth_append split: if_splits\<close>)
qed

section \<open>Properties\<close>

text \<open>The keys of a sequence in the order in which they first occur.\<close>

definition add_key :: "'k \<Rightarrow> 'k list \<Rightarrow> 'k list" where
  "add_key k ks = (if k \<in> set ks then ks else ks @ [k])"

lemma im_find_index:
  assumes "im_inv T hash_one m"
  shows "im_find T hash_one m k = find_index (\<lambda>c. c = k) (map fst (im_slots m))"
proof (cases "find_index (\<lambda>c. c = k) (map fst (im_slots m))")
  case None
  then have "\<forall>i. im_keys m i \<noteq> Some k" by (auto simp: find_index_None_iff im_keys_Some)
  then show ?thesis using im_find_None [OF assms] None by simp
next
  case (Some i)
  then have "im_keys m i = Some k" using find_index_SomeD [OF Some] by (auto simp: im_keys_Some)
  then show ?thesis using im_find_iff [OF assms] Some by simp
qed

lemma im_insert_keys:
  assumes "im_inv T hash_one m"
  shows "\<exists>m' i p. im_insert T hash_one m k v = Returns (m', i, p) \<and> im_inv T hash_one m' \<and> map fst (im_slots m') = add_key k (map fst (im_slots m))"
proof (cases "im_find T hash_one m k")
  case None
  then have "k \<notin> set (map fst (im_slots m))" using im_find_index [OF assms] by (auto simp: find_index_None_iff)
  then show ?thesis using im_insert_new [OF assms None, of v] by (auto simp: add_key_def)
next
  case (Some i)
  have i: "im_keys m i = Some k" using Some im_find_iff [OF assms] by simp
  then have "map fst ((im_slots m)[i := (k, v)]) = map fst (im_slots m)" "k \<in> set (map fst (im_slots m))"
    by (auto simp: im_keys_Some map_update list_update_same_conv)
  then show ?thesis using im_insert_old [OF assms i, of v] by (simp add: add_key_def)
qed

lemma im_insert_all_keys:
  assumes "im_inv T hash_one m"
  shows "\<exists>m'. insert_all (im_insert T hash_one) m kvs = Returns m' \<and> map fst (im_slots m') = fold add_key (map fst kvs) (map fst (im_slots m))"
  using assms
proof (induction kvs arbitrary: m)
  case (Cons x kvs)
  obtain m' i p where "im_insert T hash_one m (fst x) (snd x) = Returns (m', i, p)" "im_inv T hash_one m'"
      "map fst (im_slots m') = add_key (fst x) (map fst (im_slots m))"
    using im_insert_keys [OF Cons.prems] by blast
  then show ?case using Cons.IH [of m'] by (cases x) simp
qed simp

text \<open>
  C28: With a hash table that does what \<^verbatim>\<open>hashbrown\<close> documents and any hash function, an \<^verbatim>\<open>IndexMap\<close> is the finite map of the
  insertions made to it. No insertion panics; a search gives the number of the key in the order of the first insertions, and the last
  value inserted under a key is the value at that number.
\<close>

theorem index_map_refines_map:
  fixes kvs :: "('k \<times> 'v) list" and T :: "('h, nat) hash_table"
  assumes "hash_table_ok T"
  shows "\<exists>m. insert_all (im_insert T hash_one) (im_new T) kvs = Returns m
    \<and> lookup_with (im_seek T hash_one) im_kv m = map_of (rev kvs)
    \<and> (\<forall>k. im_find T hash_one m k = find_index (\<lambda>c. c = k) (fold add_key (map fst kvs) []))"
proof -
  have inv: "im_inv T hash_one (im_new T :: ('k, 'v, 'h) index_map)" by (rule im_inv_new [OF assms])
  obtain m where m: "insert_all (im_insert T hash_one) (im_new T) kvs = Returns m" "map fst (im_slots m) = fold add_key (map fst kvs) []"
    using im_insert_all_keys [OF inv, of kvs] by (auto simp: im_new_def)
  note ok = im.insert_all_ok [OF inv m(1)]
  have "im_find T hash_one (im_new T :: ('k, 'v, 'h) index_map) k = None" for k using im_find_index [OF inv] by (simp add: im_new_def)
  then have "lookup_with (im_seek T hash_one) im_kv (im_new T :: ('k, 'v, 'h) index_map) = Map.empty" by (simp add: lookup_with_def im_seek_def fun_eq_iff)
  then show ?thesis using ok m im_find_index by (metis empty_map_add)
qed

lemma index_map_refines_map_witness:
  "hash_table_ok list_table \<and> (\<exists>m. insert_all (im_insert list_table (\<lambda>_. 0)) (im_new list_table) [(CHR ''a'', 1 :: nat), (CHR ''b'', 2), (CHR ''a'', 3)] = Returns m
    \<and> im_find list_table (\<lambda>_. 0) m (CHR ''b'') = Some 1 \<and> lookup_with (im_seek list_table (\<lambda>_. 0)) im_kv m (CHR ''a'') = Some 3)"
  using index_map_refines_map [OF list_table_ok, where hash_one = "\<lambda>_. 0" and kvs = "[(CHR ''a'', 1 :: nat), (CHR ''b'', 2), (CHR ''a'', 3)]"] list_table_ok
  by (auto simp: add_key_def)

end
