(* ===== verification/Vif_Captures.thy ===== *)
theory Vif_Captures
  imports Vif_Index_Map Vif_Lower
begin

text \<open>
  The captures of a namespace. \<^verbatim>\<open>src/ir/vuir/from_ast.rs\<close> keeps them in an \<^verbatim>\<open>IndexMap\<close> with no values; the lowering of this development keeps the
  list of the keys. The two agree.
\<close>

text \<open>
  The list of captures that the lowering keeps for a namespace implements the \<^verbatim>\<open>IndexMap\<close> of the code: when the list is the keys of the
  map, looking a capture up or adding it gives the same number on both sides, and the list is again the keys of the map.
\<close>

theorem captures_are_index_map:
  assumes "im_inv T hash_one m" and "ns < length (lw_scopes s)"
    and "lw_scopes s ! ns = Scope_Namespace p decls (map fst (im_slots m))"
  shows "\<exists>m' i. im_or_insert T hash_one m key () = Returns (m', i) \<and> im_inv T hash_one m'
    \<and> capture_entry ns key s = LowDone i (s\<lparr>lw_scopes := (lw_scopes s)[ns := Scope_Namespace p decls (map fst (im_slots m'))]\<rparr>)"
proof (cases "im_find T hash_one m key")
  case None
  obtain m' i where m': "im_insert_by_ref T hash_one m key (hash_one key) () = (m', i)" by fastforce
  note new = im_insert_by_ref_inv [OF assms(1) None m']
  have "im_or_insert T hash_one m key () = Returns (m', i)" using None m' by (simp add: im_or_insert_def im_or_insert_with_def im_entry_find)
  moreover have "find_index (\<lambda>c. c = key) (map fst (im_slots m)) = None" using None im_find_index [OF assms(1)] by simp
  then have "capture_entry ns key s = LowDone i (s\<lparr>lw_scopes := (lw_scopes s)[ns := Scope_Namespace p decls (map fst (im_slots m'))]\<rparr>)"
    using assms(2,3) new(1,2) by (simp add: capture_entry_def scope_at_def l_bind_def l_gets_def l_nth_def l_ret_def)
  ultimately show ?thesis using new(3) by blast
next
  case (Some i)
  have "im_or_insert T hash_one m key () = Returns (m, i)" using Some by (simp add: im_or_insert_def im_or_insert_with_def im_entry_find)
  moreover have "find_index (\<lambda>c. c = key) (map fst (im_slots m)) = Some i" using Some im_find_index [OF assms(1)] by simp
  then have "capture_entry ns key s = LowDone i (s\<lparr>lw_scopes := (lw_scopes s)[ns := Scope_Namespace p decls (map fst (im_slots m))]\<rparr>)"
    using assms(2,3) list_update_id [of "lw_scopes s" ns] by (simp add: capture_entry_def scope_at_def l_bind_def l_gets_def l_nth_def l_ret_def)
  ultimately show ?thesis using assms(1) by blast
qed

lemma captures_are_index_map_witness:
  "im_inv list_table (\<lambda>_. 0) (im_new list_table :: (capture, unit, _) index_map) \<and>
   (\<exists>m' i. im_or_insert list_table (\<lambda>_. 0) (im_new list_table) (Cap_Id 3) () = Returns (m', i) \<and> im_inv list_table (\<lambda>_. 0) m'
    \<and> capture_entry 0 (Cap_Id 3) \<lparr>lw_module_id = 0, lw_uir_scopes_instructions = [], lw_instructions = [],
        lw_scopes = [Scope_Namespace None (\<lambda>_. None) []], lw_errors = [], lw_line_starts = [0], lw_imports = [], lw_fn_body_root_scope = None, lw_flags = []\<rparr> =
      LowDone i \<lparr>lw_module_id = 0, lw_uir_scopes_instructions = [], lw_instructions = [],
        lw_scopes = [Scope_Namespace None (\<lambda>_. None) (map fst (im_slots m'))], lw_errors = [], lw_line_starts = [0], lw_imports = [], lw_fn_body_root_scope = None, lw_flags = []\<rparr>)"
  (is "_ \<and> (\<exists>m' i. _ \<and> _ \<and> capture_entry 0 _ ?s = _)")
proof -
  have inv: "im_inv list_table (\<lambda>_. 0) (im_new list_table :: (capture, unit, _) index_map)" by (rule im_inv_new [OF list_table_ok])
  show ?thesis using captures_are_index_map [OF inv, of 0 ?s None "\<lambda>_. None" "Cap_Id 3"] inv by (auto simp: im_new_def)
qed

end
