(* ===== verification/Vif_Arena.thy ===== *)
theory Vif_Arena
  imports Vif_Prelude
begin

text \<open>
  The growing array that threads share, \<^verbatim>\<open>VirtMemArenaDynArray\<close> of \<^verbatim>\<open>src/common/containers/virtual_dyn_array.rs\<close>, over the functions of
  \<^verbatim>\<open>src/common/os/alloc/unix.rs\<close>. A push is a sequence of atomic actions on the shared state; a thread stands at one of the program
  points \<open>push_pc\<close>, and the threads take their steps in any order. Memory is sequentially consistent.

  \<^verbatim>\<open>mprotect\<close> belongs to the operating system and is a parameter: whether it succeeds for an address and a length in bytes. When
  it does, the elements of the range become accessible. A write to an element that is not accessible is a memory fault.
\<close>

section \<open>The array\<close>

type_synonym mprotect = "nat \<Rightarrow> nat \<Rightarrow> bool"

record 'v arena =
  ar_base :: nat
  ar_capacity :: nat
  ar_len :: nat
  ar_initialized :: nat
  ar_committed_elements :: nat
  ar_accessible :: "(nat \<times> nat) list"
  ar_slots :: "nat \<Rightarrow> 'v option"

definition COMMIT_GRANULARITY_IN_BYTES :: nat where
  "COMMIT_GRANULARITY_IN_BYTES = 65536"

definition commit_granularity_in_elements :: "nat \<Rightarrow> nat" where
  "commit_granularity_in_elements elem_size = (COMMIT_GRANULARITY_IN_BYTES + elem_size - 1) div elem_size"

text \<open>\<^verbatim>\<open>with_capacity\<close>; \<open>base\<close> is the address that \<^verbatim>\<open>virtmem_reserve\<close> returned. A size that overflows and an empty range panic.\<close>

definition arena_new :: "nat \<Rightarrow> nat \<Rightarrow> 'v arena" where
  "arena_new base capacity =
     \<lparr>ar_base = base, ar_capacity = capacity, ar_len = 0, ar_initialized = 0, ar_committed_elements = 0,
      ar_accessible = [], ar_slots = (\<lambda>_. None)\<rparr>"

definition arena_with_capacity :: "nat \<Rightarrow> nat \<Rightarrow> nat \<Rightarrow> 'v arena outcome" where
  "arena_with_capacity base elem_size capacity =
     (if capacity * elem_size < 2 ^ 64 \<and> 0 < capacity * elem_size then Returns (arena_new base capacity) else Panics)"

definition is_accessible :: "'v arena \<Rightarrow> nat \<Rightarrow> bool" where
  "is_accessible a i \<longleftrightarrow> list_ex (\<lambda>(lo, hi). lo \<le> i \<and> i < hi) (ar_accessible a)"

text \<open>\<^verbatim>\<open>virtmem_commit\<close> of the elements from \<open>lo\<close> to \<open>hi\<close>: an empty range and a failure of \<^verbatim>\<open>mprotect\<close> panic.\<close>

definition virtmem_commit :: "mprotect \<Rightarrow> nat \<Rightarrow> 'v arena \<Rightarrow> nat \<Rightarrow> nat \<Rightarrow> 'v arena outcome" where
  "virtmem_commit mprotect elem_size a lo hi =
     (if 0 < (hi - lo) * elem_size \<and> mprotect (ar_base a + lo * elem_size) ((hi - lo) * elem_size)
      then Returns (a\<lparr>ar_accessible := (lo, hi) # ar_accessible a\<rparr>)
      else Panics)"

section \<open>A push\<close>

datatype 'v push_pc =
    Pc_Idle
  | Pc_FetchAdd 'v
  | Pc_CheckCommitted nat 'v
  | Pc_LoadCommitted nat 'v nat
  | Pc_Commit nat 'v nat nat
  | Pc_StoreCommitted nat 'v nat
  | Pc_Write nat 'v
  | Pc_Publish nat 'v
  | Pc_Returned nat 'v
  | Pc_Panicked
  | Pc_MemoryFault

text \<open>One atomic action of \<^verbatim>\<open>ensure_committed_for_index\<close>. The subtraction of the committed elements panics when it underflows.\<close>

fun ensure_committed_for_index :: "mprotect \<Rightarrow> nat \<Rightarrow> 'v arena \<Rightarrow> 'v push_pc \<Rightarrow> 'v arena \<times> 'v push_pc" where
  "ensure_committed_for_index mprotect elem_size a (Pc_CheckCommitted i v) =
     (a, if i < ar_committed_elements a then Pc_Write i v
         else let g = commit_granularity_in_elements elem_size; n = (i div g + 1) * g in
              if n < 2 ^ 64 then Pc_LoadCommitted i v (min n (ar_capacity a)) else Pc_Panicked)"
| "ensure_committed_for_index mprotect elem_size a (Pc_LoadCommitted i v new_committed) =
     (a, if ar_committed_elements a \<le> new_committed then Pc_Commit i v (ar_committed_elements a) new_committed else Pc_Panicked)"
| "ensure_committed_for_index mprotect elem_size a (Pc_Commit i v current_committed new_committed) =
     (case virtmem_commit mprotect elem_size a current_committed new_committed of
        Returns a' \<Rightarrow> (a', Pc_StoreCommitted i v new_committed)
      | Panics \<Rightarrow> (a, Pc_Panicked))"
| "ensure_committed_for_index mprotect elem_size a (Pc_StoreCommitted i v new_committed) =
     (a\<lparr>ar_committed_elements := new_committed\<rparr>, Pc_Write i v)"
| "ensure_committed_for_index mprotect elem_size a pc = (a, pc)"

text \<open>One atomic action of \<^verbatim>\<open>push\<close>. A \<^verbatim>\<open>compare_exchange_weak\<close> that fails is tried again.\<close>

fun push_step :: "mprotect \<Rightarrow> nat \<Rightarrow> 'v arena \<Rightarrow> 'v push_pc \<Rightarrow> 'v arena \<times> 'v push_pc" where
  "push_step mprotect elem_size a (Pc_FetchAdd v) =
     (a\<lparr>ar_len := ar_len a + 1\<rparr>, if ar_len a < ar_capacity a then Pc_CheckCommitted (ar_len a) v else Pc_Panicked)"
| "push_step mprotect elem_size a (Pc_Write i v) =
     (if is_accessible a i then (a\<lparr>ar_slots := (ar_slots a)(i := Some v)\<rparr>, Pc_Publish i v) else (a, Pc_MemoryFault))"
| "push_step mprotect elem_size a (Pc_Publish i v) =
     (if ar_initialized a = i then (a\<lparr>ar_initialized := i + 1\<rparr>, Pc_Returned i v) else (a, Pc_Publish i v))"
| "push_step mprotect elem_size a pc = ensure_committed_for_index mprotect elem_size a pc"

definition is_running :: "'v push_pc \<Rightarrow> bool" where
  "is_running pc = (case pc of Pc_Idle \<Rightarrow> False | Pc_Returned _ _ \<Rightarrow> False | Pc_Panicked \<Rightarrow> False | Pc_MemoryFault \<Rightarrow> False | _ \<Rightarrow> True)"

text \<open>\<^verbatim>\<open>get\<close>, \<^verbatim>\<open>len\<close> and \<^verbatim>\<open>replace\<close>: an index past the initialized elements panics.\<close>

definition arena_get :: "'v arena \<Rightarrow> nat \<Rightarrow> 'v outcome" where
  "arena_get a i = (if i < ar_initialized a then (case ar_slots a i of Some v \<Rightarrow> Returns v | None \<Rightarrow> Panics) else Panics)"

definition arena_len :: "'v arena \<Rightarrow> nat" where
  "arena_len a = ar_initialized a"

definition arena_replace :: "'v arena \<Rightarrow> nat \<Rightarrow> 'v \<Rightarrow> ('v \<times> 'v arena) outcome" where
  "arena_replace a i v =
     (case arena_get a i of Panics \<Rightarrow> Panics | Returns old \<Rightarrow> Returns (old, a\<lparr>ar_slots := (ar_slots a)(i := Some v)\<rparr>))"

text \<open>A push by a thread that runs alone, whose \<^verbatim>\<open>compare_exchange_weak\<close> does not fail for no reason: seven actions at most.\<close>

fun push_run :: "nat \<Rightarrow> mprotect \<Rightarrow> nat \<Rightarrow> 'v arena \<Rightarrow> 'v push_pc \<Rightarrow> 'v arena \<times> 'v push_pc" where
  "push_run 0 mprotect elem_size a pc = (a, pc)"
| "push_run (Suc n) mprotect elem_size a pc = (case push_step mprotect elem_size a pc of (a', pc') \<Rightarrow> push_run n mprotect elem_size a' pc')"

definition arena_push :: "mprotect \<Rightarrow> nat \<Rightarrow> 'v arena \<Rightarrow> 'v \<Rightarrow> (nat \<times> 'v arena) outcome" where
  "arena_push mprotect elem_size a v =
     (case push_run 7 mprotect elem_size a (Pc_FetchAdd v) of
        (a', pc) \<Rightarrow> (case pc of Pc_Returned i _ \<Rightarrow> Returns (i, a') | _ \<Rightarrow> Panics))"

fun arena_push_all :: "mprotect \<Rightarrow> nat \<Rightarrow> 'v arena \<Rightarrow> 'v list \<Rightarrow> 'v arena outcome" where
  "arena_push_all mprotect elem_size a [] = Returns a"
| "arena_push_all mprotect elem_size a (v # vs) =
     (case arena_push mprotect elem_size a v of Panics \<Rightarrow> Panics | Returns (_, a') \<Rightarrow> arena_push_all mprotect elem_size a' vs)"

section \<open>Threads\<close>

type_synonym 'v arena_sys = "'v arena \<times> (nat \<Rightarrow> 'v push_pc)"

text \<open>
  A thread that is not pushing calls \<^verbatim>\<open>push\<close>, a thread that is takes its next action, its \<^verbatim>\<open>compare_exchange_weak\<close> fails for no
  reason, or the thread that pushed an element, which has exclusive access to it, replaces it.
\<close>

inductive arena_step :: "mprotect \<Rightarrow> nat \<Rightarrow> 'v arena_sys \<Rightarrow> 'v arena_sys \<Rightarrow> bool" for mprotect elem_size where
  call: "ps t = Pc_Idle \<or> (\<exists>i v. ps t = Pc_Returned i v) \<Longrightarrow> arena_step mprotect elem_size (a, ps) (a, ps(t := Pc_FetchAdd v'))"
| act: "is_running (ps t) \<Longrightarrow> push_step mprotect elem_size a (ps t) = (a', pc) \<Longrightarrow> arena_step mprotect elem_size (a, ps) (a', ps(t := pc))"
| spurious: "ps t = Pc_Publish i v \<Longrightarrow> arena_step mprotect elem_size (a, ps) (a, ps)"
| replace: "ps t = Pc_Returned i v \<Longrightarrow> arena_replace a i v' = Returns (old, a') \<Longrightarrow>
    arena_step mprotect elem_size (a, ps) (a', ps(t := Pc_Returned i v'))"

inductive_cases arena_stepE: "arena_step mprotect elem_size s s'"

section \<open>Simulation\<close>

text \<open>An implementation whose steps are, under an invariant, steps of a specification.\<close>

locale simulation =
  fixes step :: "'s \<Rightarrow> 's \<Rightarrow> bool" and start :: 's and inv :: "'s \<Rightarrow> bool"
    and abs :: "'s \<Rightarrow> 'a" and spec_step :: "'a \<Rightarrow> 'a \<Rightarrow> bool"
  assumes start_inv: "inv start" and step_inv: "inv s \<Longrightarrow> step s s' \<Longrightarrow> inv s'"
    and step_spec: "inv s \<Longrightarrow> step s s' \<Longrightarrow> spec_step (abs s) (abs s')"
begin

lemma run_inv: "step\<^sup>*\<^sup>* start s \<Longrightarrow> inv s"
  by (induction rule: rtranclp_induct) (auto intro: start_inv step_inv)

lemma run_spec:
  assumes "step\<^sup>*\<^sup>* start s" and "step\<^sup>*\<^sup>* s s'"
  shows "spec_step\<^sup>*\<^sup>* (abs s) (abs s')"
  using assms(2)
proof (induction rule: rtranclp_induct)
  case (step y z)
  have "step\<^sup>*\<^sup>* start y" using assms(1) step.hyps(1) by (rule rtranclp_trans)
  then show ?case using step.IH step_spec [OF run_inv step.hyps(2)] by auto
qed simp

end

section \<open>The specification\<close>

text \<open>A vector: its elements, to which one is appended or of which one is replaced.\<close>

definition vec_step :: "'v list \<Rightarrow> 'v list \<Rightarrow> bool" where
  "vec_step xs ys \<longleftrightarrow> ys = xs \<or> (\<exists>v. ys = xs @ [v]) \<or> (\<exists>i v. i < length xs \<and> ys = xs[i := v])"

definition arena_abs :: "'v arena_sys \<Rightarrow> 'v list" where
  "arena_abs s = map (\<lambda>i. the (ar_slots (fst s) i)) [0..<ar_initialized (fst s)]"

section \<open>The invariant\<close>

definition accessible_upto :: "'v arena \<Rightarrow> nat \<Rightarrow> bool" where
  "accessible_upto a n \<longleftrightarrow> (\<forall>i < n. is_accessible a i)"

text \<open>An index that was handed out and is not yet published.\<close>

definition claimed :: "'v arena \<Rightarrow> nat \<Rightarrow> bool" where
  "claimed a i \<longleftrightarrow> ar_initialized a \<le> i \<and> i < ar_len a \<and> i < ar_capacity a"

definition pc_index :: "'v push_pc \<Rightarrow> nat option" where
  "pc_index pc =
     (case pc of
        Pc_CheckCommitted i _ \<Rightarrow> Some i | Pc_LoadCommitted i _ _ \<Rightarrow> Some i | Pc_Commit i _ _ _ \<Rightarrow> Some i | Pc_StoreCommitted i _ _ \<Rightarrow> Some i
      | Pc_Write i _ \<Rightarrow> Some i | Pc_Publish i _ \<Rightarrow> Some i | Pc_Returned i _ \<Rightarrow> Some i | _ \<Rightarrow> None)"

definition pc_ok :: "'v arena \<Rightarrow> 'v push_pc \<Rightarrow> bool" where
  "pc_ok a pc =
     (case pc of
        Pc_CheckCommitted i _ \<Rightarrow> claimed a i
      | Pc_LoadCommitted i _ n \<Rightarrow> claimed a i \<and> i < n \<and> n \<le> ar_capacity a
      | Pc_Commit i _ c n \<Rightarrow> claimed a i \<and> i < n \<and> n \<le> ar_capacity a \<and> accessible_upto a c
      | Pc_StoreCommitted i _ n \<Rightarrow> claimed a i \<and> i < n \<and> n \<le> ar_capacity a \<and> accessible_upto a n
      | Pc_Write i _ \<Rightarrow> claimed a i \<and> is_accessible a i
      | Pc_Publish i v \<Rightarrow> claimed a i \<and> ar_slots a i = Some v
      | Pc_Returned i v \<Rightarrow> i < ar_initialized a \<and> ar_slots a i = Some v
      | Pc_MemoryFault \<Rightarrow> False
      | _ \<Rightarrow> True)"

definition arena_inv :: "'v arena_sys \<Rightarrow> bool" where
  "arena_inv s \<longleftrightarrow>
     (\<forall>t. pc_ok (fst s) (snd s t)) \<and> (\<forall>t u i. t \<noteq> u \<longrightarrow> pc_index (snd s t) = Some i \<longrightarrow> pc_index (snd s u) \<noteq> Some i) \<and>
     ar_initialized (fst s) \<le> ar_len (fst s) \<and> (\<forall>i < ar_initialized (fst s). ar_slots (fst s) i \<noteq> None) \<and>
     accessible_upto (fst s) (ar_committed_elements (fst s))"

lemma pc_index_simps [simp]:
  "pc_index Pc_Idle = None" "pc_index (Pc_FetchAdd v) = None" "pc_index (Pc_CheckCommitted i v) = Some i"
  "pc_index (Pc_LoadCommitted i v n) = Some i" "pc_index (Pc_Commit i v c n) = Some i" "pc_index (Pc_StoreCommitted i v n) = Some i"
  "pc_index (Pc_Write i v) = Some i" "pc_index (Pc_Publish i v) = Some i" "pc_index (Pc_Returned i v) = Some i"
  "pc_index Pc_Panicked = None" "pc_index Pc_MemoryFault = None"
  by (simp_all add: pc_index_def)

lemma pc_ok_simps [simp]:
  "pc_ok a Pc_Idle" "pc_ok a (Pc_FetchAdd v)" "pc_ok a Pc_Panicked" "\<not> pc_ok a Pc_MemoryFault"
  "pc_ok a (Pc_CheckCommitted i v) \<longleftrightarrow> claimed a i"
  "pc_ok a (Pc_LoadCommitted i v n) \<longleftrightarrow> claimed a i \<and> i < n \<and> n \<le> ar_capacity a"
  "pc_ok a (Pc_Commit i v c n) \<longleftrightarrow> claimed a i \<and> i < n \<and> n \<le> ar_capacity a \<and> accessible_upto a c"
  "pc_ok a (Pc_StoreCommitted i v n) \<longleftrightarrow> claimed a i \<and> i < n \<and> n \<le> ar_capacity a \<and> accessible_upto a n"
  "pc_ok a (Pc_Write i v) \<longleftrightarrow> claimed a i \<and> is_accessible a i"
  "pc_ok a (Pc_Publish i v) \<longleftrightarrow> claimed a i \<and> ar_slots a i = Some v"
  "pc_ok a (Pc_Returned i v) \<longleftrightarrow> i < ar_initialized a \<and> ar_slots a i = Some v"
  by (simp_all add: pc_ok_def)

text \<open>What the action of one thread must leave alone for the others.\<close>

definition leaves :: "'v arena \<Rightarrow> 'v arena \<Rightarrow> 'v push_pc \<Rightarrow> bool" where
  "leaves a a' pc \<longleftrightarrow>
     ar_capacity a' = ar_capacity a \<and> ar_initialized a \<le> ar_initialized a' \<and> (\<forall>i. is_accessible a i \<longrightarrow> is_accessible a' i) \<and>
     (\<forall>i. pc_index pc = Some i \<longrightarrow> ar_slots a' i = ar_slots a i \<and> (claimed a i \<longrightarrow> claimed a' i))"

lemma pc_ok_leaves: "pc_ok a pc \<Longrightarrow> leaves a a' pc \<Longrightarrow> pc_ok a' pc"
  by (cases pc) (auto simp: leaves_def accessible_upto_def)

text \<open>The action of a thread keeps the invariant when it does for that thread and leaves the others alone.\<close>

lemma arena_inv_upd:
  assumes "arena_inv (a, ps)" and "pc_ok a' pc" and "\<And>u. u \<noteq> t \<Longrightarrow> leaves a a' (ps u)"
    and "\<And>u i. u \<noteq> t \<Longrightarrow> pc_index pc = Some i \<Longrightarrow> pc_index (ps u) \<noteq> Some i" and "ar_initialized a' \<le> ar_len a'"
    and "\<And>i. i < ar_initialized a' \<Longrightarrow> ar_slots a' i \<noteq> None" and "accessible_upto a' (ar_committed_elements a')"
  shows "arena_inv (a', ps(t := pc))"
proof -
  have "pc_ok a' ((ps(t := pc)) u)" for u
    using assms(1,2) pc_ok_leaves [OF _ assms(3)] by (cases "u = t") (auto simp: arena_inv_def)
  moreover have "pc_index ((ps(t := pc)) x) = Some i \<Longrightarrow> x \<noteq> u \<Longrightarrow> pc_index ((ps(t := pc)) u) \<noteq> Some i" for x u i
    using assms(1) assms(4) [of u i] assms(4) [of x i] by (auto simp: arena_inv_def split: if_splits)
  ultimately show ?thesis using assms(5-7) by (simp add: arena_inv_def)
qed


lemma granularity_pos: "0 < commit_granularity_in_elements (Suc e)"
  by (simp add: commit_granularity_in_elements_def COMMIT_GRANULARITY_IN_BYTES_def div_greater_zero_iff)

lemma below_next_commit: "i < (i div g + 1) * g" if "0 < g" for i g :: nat
  using that by (metis Suc_eq_plus1 dividend_less_div_times mult.commute mult_Suc_right add.commute)

lemma is_accessible_simps [simp]:
  "is_accessible (a\<lparr>ar_accessible := (lo, hi) # ar_accessible a\<rparr>) i \<longleftrightarrow> (lo \<le> i \<and> i < hi) \<or> is_accessible a i"
  "is_accessible (a\<lparr>ar_len := n\<rparr>) = is_accessible a" "is_accessible (a\<lparr>ar_initialized := n\<rparr>) = is_accessible a"
  "is_accessible (a\<lparr>ar_committed_elements := n\<rparr>) = is_accessible a" "is_accessible (a\<lparr>ar_slots := f\<rparr>) = is_accessible a"
  by (auto simp: is_accessible_def fun_eq_iff)

text \<open>What one action does to the invariant and to the elements.\<close>

lemma push_step_ok:
  assumes "arena_inv (a, ps)" and "push_step mp (Suc e) a (ps t) = (a', pc)"
  shows "arena_inv (a', ps(t := pc))"
proof -
  have ok: "pc_ok a (ps t)" and dist: "\<And>u i. u \<noteq> t \<Longrightarrow> pc_index (ps t) = Some i \<Longrightarrow> pc_index (ps u) \<noteq> Some i"
    and all: "\<And>u. pc_ok a (ps u)" and il: "ar_initialized a \<le> ar_len a"
    and sl: "\<And>i. i < ar_initialized a \<Longrightarrow> ar_slots a i \<noteq> None" and acc: "accessible_upto a (ar_committed_elements a)"
    using assms(1) by (auto simp: arena_inv_def)
  have below: "pc_index (ps u) = Some i \<Longrightarrow> i < ar_len a" for u i
    using all [of u] il by (cases "ps u") (auto simp: claimed_def)
  show ?thesis
  proof (cases "ps t")
    case (Pc_FetchAdd v)
    then show ?thesis using assms il sl acc below
      by (intro arena_inv_upd [OF assms(1)]) (fastforce simp: leaves_def claimed_def accessible_upto_def split: if_splits)+
  next
    case (Pc_CheckCommitted i v)
    have "i < (i div commit_granularity_in_elements (Suc e) + 1) * commit_granularity_in_elements (Suc e)"
      by (rule below_next_commit [OF granularity_pos])
    then show ?thesis using Pc_CheckCommitted assms il sl acc ok dist
      by (intro arena_inv_upd [OF assms(1)]) (auto simp: leaves_def claimed_def accessible_upto_def Let_def split: if_splits)
  next
    case (Pc_LoadCommitted i v n)
    then show ?thesis using assms il sl acc ok dist
      by (intro arena_inv_upd [OF assms(1)]) (auto simp: leaves_def accessible_upto_def split: if_splits)
  next
    case (Pc_Commit i v c n)
    have "\<not> is_accessible a j \<Longrightarrow> c \<le> j" "j < ar_committed_elements a \<Longrightarrow> is_accessible a j" for j
      using ok acc Pc_Commit by (auto simp: accessible_upto_def not_le [symmetric])
    then show ?thesis using Pc_Commit assms il sl ok dist
      by (intro arena_inv_upd [OF assms(1)])
        (auto simp: leaves_def claimed_def accessible_upto_def virtmem_commit_def split: outcome.splits if_splits)
  next
    case (Pc_StoreCommitted i v n)
    then show ?thesis using assms il sl acc ok dist
      by (intro arena_inv_upd [OF assms(1)]) (auto simp: leaves_def claimed_def accessible_upto_def)
  next
    case (Pc_Write i v)
    then show ?thesis using assms il sl acc ok dist
      by (intro arena_inv_upd [OF assms(1)]) (auto simp: leaves_def claimed_def accessible_upto_def)
  next
    case (Pc_Publish i v)
    show ?thesis
    proof (cases "ar_initialized a = i")
      case True
      then show ?thesis using Pc_Publish assms il sl acc ok dist
        by (intro arena_inv_upd [OF assms(1)]) (auto simp: leaves_def claimed_def accessible_upto_def less_Suc_eq le_less)
    next
      case False
      then have "pc = ps t" "a' = a" using Pc_Publish assms(2) by auto
      then show ?thesis using assms(1) by simp
    qed
  qed (use assms all in \<open>auto simp: fun_upd_idem\<close>)
qed

lemma arena_replace_cases:
  assumes "arena_replace a i v = Returns (old, a')"
  shows "i < ar_initialized a" and "a' = a\<lparr>ar_slots := (ar_slots a)(i := Some v)\<rparr>"
  using assms by (auto simp: arena_replace_def arena_get_def split: outcome.splits option.splits if_splits)

lemma arena_step_inv:
  assumes "arena_inv s" and "arena_step mp (Suc e) s s'"
  shows "arena_inv s'"
  using assms(2,1)
proof cases
  case (call ps t a v')
  then show ?thesis using assms(1) arena_inv_upd [of a ps a "Pc_FetchAdd v'" t] by (auto simp: leaves_def arena_inv_def)
next
  case (act ps t a a' pc)
  then show ?thesis using assms(1) push_step_ok by simp
next
  case (replace ps t i v a v' old a')
  note r = arena_replace_cases [OF replace(4)]
  have dist: "\<And>u. u \<noteq> t \<Longrightarrow> pc_index (ps u) \<noteq> Some i" using assms(1) replace by (fastforce simp: arena_inv_def)
  show ?thesis unfolding replace(2)
    by (rule arena_inv_upd [of a ps]) (use assms(1) replace(1) r dist in \<open>auto simp: leaves_def arena_inv_def claimed_def accessible_upto_def\<close>)
qed (use assms in simp)

end
