(* ===== verification/Vif_Arena_Props.thy ===== *)
theory Vif_Arena_Props
  imports Vif_Arena
begin

text \<open>
  What the threads that share a \<^verbatim>\<open>VirtMemArenaDynArray\<close> can rely on, and the two ways in which growing it fails.
\<close>

section \<open>Simulation of a vector\<close>

lemma arena_abs_length [simp]: "length (arena_abs s) = ar_initialized (fst s)"
  by (simp add: arena_abs_def)

lemma arena_abs_get: "arena_inv s \<Longrightarrow> i < ar_initialized (fst s) \<Longrightarrow> arena_get (fst s) i = Returns (arena_abs s ! i)"
  by (auto simp: arena_inv_def arena_get_def arena_abs_def)

lemma arena_abs_same:
  "ar_initialized a' = ar_initialized a \<Longrightarrow> (\<And>i. i < ar_initialized a \<Longrightarrow> ar_slots a' i = ar_slots a i) \<Longrightarrow> arena_abs (a', ps') = arena_abs (a, ps)"
  by (simp add: arena_abs_def)

text \<open>How a step changes the elements: the thread that appends one learns its index, and only its owner replaces one.\<close>

definition arena_effect :: "'v arena_sys \<Rightarrow> 'v arena_sys \<Rightarrow> bool" where
  "arena_effect s s' \<longleftrightarrow>
     arena_abs s' = arena_abs s
     \<or> (\<exists>t i v. snd s' t = Pc_Returned i v \<and> i = length (arena_abs s) \<and> arena_abs s' = arena_abs s @ [v])
     \<or> (\<exists>t i v. snd s' t = Pc_Returned i v \<and> i < length (arena_abs s) \<and> arena_abs s' = (arena_abs s)[i := v])"

lemma push_step_effect:
  assumes "arena_inv (a, ps)" and "push_step mp e a (ps t) = (a', pc)"
  shows "arena_effect (a, ps) (a', ps(t := pc))"
proof (cases "ps t")
  case (Pc_Write i v)
  have "ar_initialized a \<le> i" using assms(1) Pc_Write by (fastforce simp: arena_inv_def claimed_def dest: spec [of _ t])
  then show ?thesis using Pc_Write assms(2) unfolding arena_effect_def by (intro disjI1 arena_abs_same) (auto split: if_splits)
next
  case (Pc_Publish i v)
  have v: "ar_slots a i = Some v" using assms(1) Pc_Publish by (auto simp: arena_inv_def dest: spec [of _ t])
  show ?thesis
  proof (cases "ar_initialized a = i")
    case True
    then show ?thesis using Pc_Publish assms(2) v unfolding arena_effect_def
      by (intro disjI2 disjI1 exI [of _ t] exI [of _ i] exI [of _ v]) (auto simp: arena_abs_def)
  next
    case False
    then show ?thesis using Pc_Publish assms(2) unfolding arena_effect_def by (intro disjI1 arena_abs_same) auto
  qed
next
  case (Pc_Commit i v c n)
  then show ?thesis using assms(2) unfolding arena_effect_def
    by (intro disjI1 arena_abs_same) (auto simp: virtmem_commit_def split: if_splits outcome.splits)
qed (use assms(2) in \<open>auto simp: arena_effect_def intro: arena_abs_same\<close>)

lemma arena_step_effect:
  assumes "arena_inv s" and "arena_step mp e s s'"
  shows "arena_effect s s'"
  using assms(2,1)
proof cases
  case (act ps t a a' pc)
  then show ?thesis using assms(1) push_step_effect by simp
next
  case (replace ps t i v a v' old a')
  note r = arena_replace_cases [OF replace(4)]
  have "arena_abs s' = (arena_abs s)[i := v']" using r replace(1,2) by (auto simp: arena_abs_def list_eq_iff_nth_eq nth_list_update)
  then show ?thesis using r replace(1,2) unfolding arena_effect_def by (intro disjI2 exI [of _ t] exI [of _ i] exI [of _ v']) auto
qed (auto simp: arena_effect_def arena_abs_def)

lemma arena_effect_spec: "arena_effect s s' \<Longrightarrow> vec_step (arena_abs s) (arena_abs s')"
  by (auto simp: arena_effect_def vec_step_def)

interpretation arena_sim: simulation "arena_step mp (Suc e)" "(arena_new base cap, \<lambda>_. Pc_Idle)" arena_inv arena_abs vec_step
  for mp e base cap
proof
  show "arena_inv (arena_new base cap, \<lambda>_. Pc_Idle)" by (simp add: arena_inv_def arena_new_def accessible_upto_def)
qed (auto intro: arena_step_inv arena_effect_spec arena_step_effect)

section \<open>A lost index\<close>

text \<open>When the thread that holds the next index to publish is gone, no push ends any more.\<close>

definition stuck_at :: "nat \<Rightarrow> 'v arena_sys \<Rightarrow> bool" where
  "stuck_at k s \<longleftrightarrow> ar_initialized (fst s) = k \<and> k < ar_len (fst s) \<and> (\<forall>t. pc_index (snd s t) \<noteq> Some k)"

lemma stuck_at_step:
  assumes "stuck_at k s" and "arena_step mp e s s'"
  shows "stuck_at k s'"
  using assms(2,1)
proof cases
  case (act ps t a a' pc)
  have "ar_initialized a' = k \<and> k < ar_len a' \<and> pc_index pc \<noteq> Some k"
  proof -
    have "ar_initialized a = k" "k < ar_len a" "pc_index (ps t) \<noteq> Some k" using act(1) assms(1) by (simp_all add: stuck_at_def)
    then show ?thesis using act(4)
      by (cases "ps t") (auto simp: virtmem_commit_def Let_def split: if_splits outcome.splits dest: sym [of "Pc_Publish _ _"] sym [of "Pc_Returned _ _"])
  qed
  then show ?thesis using act assms(1) by (simp add: stuck_at_def)
next
  case (replace ps t i v a v' old a')
  then show ?thesis using assms(1) arena_replace_cases [OF replace(4)] by (auto simp: stuck_at_def dest: spec [of _ t])
qed (use assms(1) in \<open>auto simp: stuck_at_def\<close>)

lemma stuck_at_run: "stuck_at k s \<Longrightarrow> (arena_step mp e)\<^sup>*\<^sup>* s s' \<Longrightarrow> stuck_at k s'"
  by (rotate_tac 1, induction rule: rtranclp_induct) (auto intro: stuck_at_step)

section \<open>Schedules\<close>

text \<open>A schedule: the threads in the order in which they act.\<close>

definition act_thread :: "mprotect \<Rightarrow> nat \<Rightarrow> nat \<Rightarrow> 'v arena_sys \<Rightarrow> 'v arena_sys" where
  "act_thread mp e t s = (case push_step mp e (fst s) (snd s t) of (a, pc) \<Rightarrow> (a, (snd s)(t := pc)))"

lemma act_thread_run: "(arena_step mp e)\<^sup>*\<^sup>* s (act_thread mp e t s)"
proof (cases s)
  case (Pair a ps)
  show ?thesis
  proof (cases "is_running (ps t)")
    case True
    obtain a' pc where "push_step mp e a (ps t) = (a', pc)" by fastforce
    then show ?thesis using Pair arena_step.act [of ps t mp e a a' pc] True by (auto simp: act_thread_def)
  next
    case False
    then have "act_thread mp e t s = s" using Pair by (cases "ps t") (auto simp: is_running_def act_thread_def fun_upd_idem)
    then show ?thesis by simp
  qed
qed

lemma schedule_run: "(arena_step mp e)\<^sup>*\<^sup>* s (fold (act_thread mp e) ts s)"
proof (induction ts arbitrary: s)
  case (Cons t ts)
  show ?case using rtranclp_trans [OF act_thread_run Cons.IH] by simp
qed simp

lemma call_run: "snd s t = Pc_Idle \<Longrightarrow> (arena_step mp e)\<^sup>*\<^sup>* s (fst s, (snd s)(t := Pc_FetchAdd v))"
  using arena_step.call [of "snd s" t mp e "fst s" v] by auto

lemma granularity_bounds:
  assumes "0 < e" and "e \<le> 32768"
  shows "2 \<le> commit_granularity_in_elements e" and "commit_granularity_in_elements e < 2 ^ 64"
proof -
  have "2 * e \<le> 65536 + e - 1" using assms by linarith
  then show "2 \<le> commit_granularity_in_elements e"
    using assms(1) by (simp add: commit_granularity_in_elements_def COMMIT_GRANULARITY_IN_BYTES_def less_eq_div_iff_mult_less_eq)
  have "commit_granularity_in_elements e \<le> 65535 + e"
    by (simp add: commit_granularity_in_elements_def COMMIT_GRANULARITY_IN_BYTES_def)
  also have "\<dots> < 2 ^ 64" using assms(2) by simp
  finally show "commit_granularity_in_elements e < 2 ^ 64" .
qed

text \<open>The race of two threads: both find nothing committed, and the second commits before the first looks again.\<close>

definition commit_race :: "nat list" where
  "commit_race = [0, 1, 0, 1, 1, 1, 1, 0, 0, 1]"

lemma commit_race_end:
  assumes "0 < e" and "e \<le> 32768" and "2 \<le> cap" and "\<And>x l. mp x l"
  shows "\<exists>a. fold (act_thread mp e) commit_race (arena_new base cap, (\<lambda>_. Pc_Idle)(0 := Pc_FetchAdd v, 1 := Pc_FetchAdd w)) =
      (a, (\<lambda>_. Pc_Idle)(0 := Pc_Panicked, 1 := Pc_Publish 1 w)) \<and> ar_initialized a = 0 \<and> ar_len a = 2"
proof -
  define g where "g = commit_granularity_in_elements e"
  have g: "2 \<le> g" "g < 2 ^ 64" using granularity_bounds [OF assms(1,2)] by (simp_all add: g_def)
  define m where "m = min g cap"
  have m: "0 < m" "Suc 0 < m" using g assms(3) by (auto simp: m_def)
  have d: "Suc 0 div g = 0" using g(1) by auto
  show ?thesis
    using assms m d g(2) by (simp add: commit_race_def act_thread_def arena_new_def virtmem_commit_def is_accessible_def
        Let_def flip: g_def m_def)
qed

section \<open>Properties\<close>

text \<open>
  C18: Threads that share an array may rely on it whatever the order of their steps: from a new array of elements of some size, no thread
  writes to memory that is not committed, an element whose index was returned is the one that \<^verbatim>\<open>get\<close> returns, no index is returned
  to two threads, and each step appends one element, replaces one at the owner's index or leaves the elements as they are.
\<close>

theorem arena_refines_vector:
  assumes "0 < elem_size" and "(arena_step mprotect elem_size)\<^sup>*\<^sup>* (arena_new base capacity, \<lambda>_. Pc_Idle) (a, ps)"
  shows "vec_step\<^sup>*\<^sup>* [] (arena_abs (a, ps)) \<and> (\<forall>i < arena_len a. arena_get a i = Returns (arena_abs (a, ps) ! i))
    \<and> (\<forall>t. ps t \<noteq> Pc_MemoryFault) \<and> (\<forall>t i v. ps t = Pc_Returned i v \<longrightarrow> arena_get a i = Returns v)
    \<and> (\<forall>t u i v w. ps t = Pc_Returned i v \<longrightarrow> ps u = Pc_Returned i w \<longrightarrow> t = u)
    \<and> (\<forall>s'. arena_step mprotect elem_size (a, ps) s' \<longrightarrow> arena_effect (a, ps) s')"
proof -
  obtain e where e: "elem_size = Suc e" using assms(1) by (cases elem_size) auto
  note run = assms(2) [unfolded e]
  have inv: "arena_inv (a, ps)" by (rule arena_sim.run_inv [OF run])
  then have ok: "pc_ok a (ps t)" and dist: "t \<noteq> u \<Longrightarrow> pc_index (ps t) = Some i \<Longrightarrow> pc_index (ps u) \<noteq> Some i" for t u i
    by (auto simp: arena_inv_def)
  have "vec_step\<^sup>*\<^sup>* [] (arena_abs (a, ps))"
    using arena_sim.run_spec [OF rtranclp.rtrancl_refl run] by (simp add: arena_abs_def arena_new_def)
  moreover have "i < arena_len a \<Longrightarrow> arena_get a i = Returns (arena_abs (a, ps) ! i)" for i
    using arena_abs_get [OF inv, of i] by (simp add: arena_len_def)
  moreover have "ps t \<noteq> Pc_MemoryFault" for t using ok [of t] by auto
  moreover have "ps t = Pc_Returned i v \<Longrightarrow> arena_get a i = Returns v" for t i v using ok [of t] by (simp add: arena_get_def)
  moreover have "ps t = Pc_Returned i v \<Longrightarrow> ps u = Pc_Returned i w \<Longrightarrow> t = u" for t u i v w using dist [of t u i] by auto
  moreover have "arena_step mprotect elem_size (a, ps) s' \<Longrightarrow> arena_effect (a, ps) s'" for s' by (rule arena_step_effect [OF inv])
  ultimately show ?thesis by blast
qed

lemma arena_refines_vector_witness:
  "\<exists>a ps. (arena_step (\<lambda>_ _. True) 8)\<^sup>*\<^sup>* (arena_new 0 16, \<lambda>_. Pc_Idle) (a, ps) \<and> ps 0 = Pc_Returned 0 True \<and> arena_get a 0 = Returns True"
proof -
  let ?s = "(arena_new 0 16, \<lambda>_. Pc_Idle) :: bool arena_sys"
  obtain a ps where s: "fold (act_thread (\<lambda>_ _. True) 8) [0, 0, 0, 0, 0, 0, 0] (fst ?s, (snd ?s)(0 := Pc_FetchAdd True)) = (a, ps)" by fastforce
  have "ps 0 = Pc_Returned 0 True"
    using s by (auto simp: arena_new_def act_thread_def virtmem_commit_def is_accessible_def Let_def
        commit_granularity_in_elements_def COMMIT_GRANULARITY_IN_BYTES_def)
  moreover have run: "(arena_step (\<lambda>_ _. True) 8)\<^sup>*\<^sup>* ?s (a, ps)"
    using rtranclp_trans [OF call_run [of ?s 0 "\<lambda>_ _. True" 8 True] schedule_run [of "\<lambda>_ _. True" 8 _ "[0, 0, 0, 0, 0, 0, 0]"]] s by simp
  ultimately show ?thesis using arena_refines_vector [OF _ run] by (intro exI [of _ a] exI [of _ ps]) simp
qed

text \<open>
  C29: A race of two pushes on an empty array loses an element and blocks every later push: one thread panics after it was handed index 0,
  and from then on the length stays 0 and no push of any thread returns. The comment of \<^verbatim>\<open>ensure_committed_for_index\<close> relies on
  the commit being idempotent, but the range is computed from a second read of the number of committed elements and is empty by then.
\<close>

theorem arena_commit_race:
  fixes v w :: 'v
  assumes "0 < elem_size" and "elem_size \<le> 32768" and "2 \<le> capacity" and "\<And>x l. mprotect x l"
  shows "\<exists>a ps. (arena_step mprotect elem_size)\<^sup>*\<^sup>* (arena_new base capacity, \<lambda>_. Pc_Idle) (a, ps)
    \<and> ps 0 = Pc_Panicked \<and> ps 1 = Pc_Publish 1 w
    \<and> (\<forall>a' ps'. (arena_step mprotect elem_size)\<^sup>*\<^sup>* (a, ps) (a', ps') \<longrightarrow> arena_len a' = 0 \<and> (\<forall>t i u. ps' t \<noteq> Pc_Returned i u))"
proof -
  let ?s = "(arena_new base capacity, \<lambda>_. Pc_Idle) :: 'v arena_sys"
  let ?ps = "(\<lambda>_. Pc_Idle)(0 := Pc_Panicked, 1 := Pc_Publish 1 w)"
  obtain e where e: "elem_size = Suc e" using assms(1) by (cases elem_size) auto
  obtain a where a: "fold (act_thread mprotect elem_size) commit_race (arena_new base capacity, (\<lambda>_. Pc_Idle)(0 := Pc_FetchAdd v, 1 := Pc_FetchAdd w)) = (a, ?ps)"
      "ar_initialized a = 0" "ar_len a = 2"
    using commit_race_end [of elem_size capacity mprotect base v w] assms by blast
  have "(arena_step mprotect elem_size)\<^sup>*\<^sup>* ?s (arena_new base capacity, (\<lambda>_. Pc_Idle)(0 := Pc_FetchAdd v, 1 := Pc_FetchAdd w))"
    using rtranclp_trans [OF call_run [of ?s 0 mprotect elem_size v] call_run [of _ 1 mprotect elem_size w]] by simp
  then have run: "(arena_step mprotect elem_size)\<^sup>*\<^sup>* ?s (a, ?ps)" using rtranclp_trans [OF _ schedule_run] a(1) by metis
  have "arena_len a' = 0 \<and> ps' t \<noteq> Pc_Returned i u" if r: "(arena_step mprotect elem_size)\<^sup>*\<^sup>* (a, ?ps) (a', ps')" for a' ps' t i u
  proof -
    have "stuck_at 0 (a', ps')" by (rule stuck_at_run [OF _ r]) (simp add: stuck_at_def a)
    moreover have "arena_inv (a', ps')" using arena_sim.run_inv rtranclp_trans [OF run r] e by blast
    ultimately show ?thesis by (auto simp: stuck_at_def arena_len_def arena_inv_def dest: spec [of _ t])
  qed
  then show ?thesis using run by (intro exI [of _ a] exI [of _ ?ps]) auto
qed

lemma arena_commit_race_witness:
  "\<exists>a ps. (arena_step (\<lambda>_ _. True) 4)\<^sup>*\<^sup>* (arena_new 0 8192, \<lambda>_. Pc_Idle) (a, ps)
    \<and> ps 0 = Pc_Panicked \<and> ps 1 = Pc_Publish 1 True
    \<and> (\<forall>a' ps'. (arena_step (\<lambda>_ _. True) 4)\<^sup>*\<^sup>* (a, ps) (a', ps') \<longrightarrow> arena_len a' = 0 \<and> (\<forall>t i u. ps' t \<noteq> Pc_Returned i u))"
  by (rule arena_commit_race) simp_all

end
