(* ===== verification/Vif_Arena_Seq.thy ===== *)
theory Vif_Arena_Seq
  imports Vif_Arena_Props
begin

text \<open>
  A \<^verbatim>\<open>VirtMemArenaDynArray\<close> that one thread fills. The array commits its memory in steps of a whole number of elements; \<^verbatim>\<open>mprotect\<close>
  accepts the start of a page only, so the second step fails unless the first one ends at the end of a page.
\<close>

section \<open>The array after a number of pushes\<close>

definition committed_after :: "nat \<Rightarrow> nat \<Rightarrow> nat \<Rightarrow> nat" where
  "committed_after g capacity k = min ((k + g - 1) div g * g) capacity"

definition pushed :: "nat \<Rightarrow> nat \<Rightarrow> nat \<Rightarrow> 'v list \<Rightarrow> 'v arena \<Rightarrow> bool" where
  "pushed elem_size base capacity vs a \<longleftrightarrow>
     ar_base a = base \<and> ar_capacity a = capacity \<and> ar_len a = length vs \<and> ar_initialized a = length vs \<and>
     ar_committed_elements a = committed_after (commit_granularity_in_elements elem_size) capacity (length vs) \<and>
     accessible_upto a (ar_committed_elements a) \<and> (\<forall>i < length vs. ar_slots a i = Some (vs ! i))"

lemma committed_after_0: "0 < g \<Longrightarrow> committed_after g capacity 0 = 0"
  by (simp add: committed_after_def)

lemma ceil_div_inside:
  fixes k g :: nat
  assumes "0 < g" and "k mod g \<noteq> 0"
  shows "(k + g - 1) div g = k div g + 1" and "(Suc k + g - 1) div g = k div g + 1"
proof -
  define q r where "q = k div g" and "r = k mod g"
  have k: "k = g * q + r" "r < g" "0 < r" using assms by (simp_all add: q_def r_def)
  have "(k + g - 1) div g = q + 1" by (rule div_nat_eqI) (use k in simp_all)
  then show "(k + g - 1) div g = k div g + 1" by (simp add: q_def)
  show "(Suc k + g - 1) div g = k div g + 1" using assms(1) div_add_self2 [of g k] by simp
qed

lemma ceil_div_at:
  fixes k g :: nat
  assumes "0 < g" and "k mod g = 0"
  shows "(k + g - 1) div g * g = k" and "(Suc k + g - 1) div g = k div g + 1"
proof -
  obtain q where q: "k = g * q" using assms(2) by auto
  have "(k + g - 1) div g = q" by (rule div_nat_eqI) (use assms(1) q in auto)
  then show "(k + g - 1) div g * g = k" using q by simp
  show "(Suc k + g - 1) div g = k div g + 1" using assms(1) div_add_self2 [of g k] by simp
qed

text \<open>The next push commits memory exactly when the number of elements is a multiple of the step.\<close>

lemma committed_after_inside:
  assumes "0 < g" and "k mod g \<noteq> 0" and "k < capacity"
  shows "k < committed_after g capacity k" and "committed_after g capacity (Suc k) = committed_after g capacity k"
  using assms ceil_div_inside [OF assms(1,2)] below_next_commit [OF assms(1), of k] by (simp_all add: committed_after_def)

lemma committed_after_at:
  assumes "0 < g" and "k mod g = 0" and "k < capacity"
  shows "committed_after g capacity k = k" and "committed_after g capacity (Suc k) = min ((k div g + 1) * g) capacity"
  using assms ceil_div_at [OF assms(1,2)] by (simp_all add: committed_after_def)

section \<open>One push\<close>

lemma seven_actions: "(7 :: nat) = Suc (Suc (Suc (Suc (Suc (Suc (Suc 0))))))"
  by simp

lemma arena_push_committed:
  assumes "ar_len a < ar_capacity a" and "ar_initialized a = ar_len a" and "ar_len a < ar_committed_elements a" and "is_accessible a (ar_len a)"
  shows "arena_push mp e a v =
    Returns (ar_len a, a\<lparr>ar_len := ar_len a + 1, ar_initialized := ar_len a + 1, ar_slots := (ar_slots a)(ar_len a := Some v)\<rparr>)"
  using assms unfolding arena_push_def seven_actions by simp

lemma arena_push_commit:
  assumes "ar_len a < ar_capacity a" and "ar_initialized a = ar_len a" and "ar_committed_elements a = ar_len a"
    and g: "g = commit_granularity_in_elements e" and n: "n = min ((ar_len a div g + 1) * g) (ar_capacity a)"
    and "(ar_len a div g + 1) * g < 2 ^ 64" and "ar_len a < n" and "0 < e"
  shows "arena_push mp e a v =
    (if mp (ar_base a + ar_len a * e) ((n - ar_len a) * e)
     then Returns (ar_len a, a\<lparr>ar_len := ar_len a + 1, ar_initialized := ar_len a + 1, ar_committed_elements := n,
       ar_accessible := (ar_len a, n) # ar_accessible a, ar_slots := (ar_slots a)(ar_len a := Some v)\<rparr>)
     else Panics)"
proof -
  have m: "min (g + ar_len a div g * g) (ar_capacity a) = n" by (simp add: n)
  show ?thesis using assms(1-3,6-8) less_imp_le [OF assms(7)] unfolding arena_push_def seven_actions
    by (simp add: virtmem_commit_def is_accessible_def Let_def m flip: g)
qed

lemma pushed_step:
  fixes vs :: "'v list"
  assumes "0 < elem_size" and p: "pushed elem_size base capacity vs a" and "length vs < capacity"
    and "capacity + commit_granularity_in_elements elem_size < 2 ^ 64"
    and g: "g = commit_granularity_in_elements elem_size" and n: "n = min ((length vs div g + 1) * g) capacity"
  shows "if length vs mod g = 0 \<longrightarrow> mprotect (base + length vs * elem_size) ((n - length vs) * elem_size)
    then \<exists>a'. arena_push mprotect elem_size a v = Returns (length vs, a') \<and> pushed elem_size base capacity (vs @ [v]) a'
    else arena_push mprotect elem_size a v = Panics"
proof -
  have gp: "0 < g" using assms(1) g granularity_pos [of "elem_size - 1"] by simp
  have "(length vs div g + 1) * g \<le> length vs + g" by simp
  also have "\<dots> < 2 ^ 64" using assms(3,4) g by simp
  finally have nb: "(length vs div g + 1) * g < 2 ^ 64" .
  have ln: "length vs < n" using below_next_commit [OF gp, of "length vs"] assms(3) n by simp
  note a = p [unfolded pushed_def g [symmetric]]
  show ?thesis
  proof (cases "length vs mod g = 0")
    case False
    note c = committed_after_inside [OF gp False assms(3)]
    have "arena_push mprotect elem_size a v = Returns (length vs, a\<lparr>ar_len := length vs + 1, ar_initialized := length vs + 1,
        ar_slots := (ar_slots a)(length vs := Some v)\<rparr>)"
      using arena_push_committed [of a mprotect elem_size v] a c(1) assms(3) by (simp add: accessible_upto_def)
    moreover have "pushed elem_size base capacity (vs @ [v]) (a\<lparr>ar_len := length vs + 1, ar_initialized := length vs + 1,
        ar_slots := (ar_slots a)(length vs := Some v)\<rparr>)"
      unfolding pushed_def g [symmetric] using a c(2) by (simp add: accessible_upto_def nth_append)
    ultimately show ?thesis using False by auto
  next
    case True
    note c = committed_after_at [OF gp True assms(3)]
    let ?a = "a\<lparr>ar_len := length vs + 1, ar_initialized := length vs + 1, ar_committed_elements := n,
        ar_accessible := (length vs, n) # ar_accessible a, ar_slots := (ar_slots a)(length vs := Some v)\<rparr>"
    have "arena_push mprotect elem_size a v =
        (if mprotect (base + length vs * elem_size) ((n - length vs) * elem_size) then Returns (length vs, ?a) else Panics)"
      using arena_push_commit [of a g elem_size n mprotect v] a c(1) assms(1,3) g n nb ln by simp
    moreover have "is_accessible ?a i" if "i < n" for i
      using a c(1) that by (cases "i < length vs") (auto simp: accessible_upto_def is_accessible_def)
    then have "pushed elem_size base capacity (vs @ [v]) ?a"
      unfolding pushed_def g [symmetric] using a c(2) n by (simp add: accessible_upto_def nth_append)
    ultimately show ?thesis using True by auto
  qed
qed

section \<open>Many pushes\<close>

lemma pushed_all:
  fixes vs ws :: "'v list"
  assumes "0 < elem_size" and "pushed elem_size base capacity vs a" and "length vs + length ws \<le> capacity"
    and "capacity + commit_granularity_in_elements elem_size < 2 ^ 64"
    and g: "g = commit_granularity_in_elements elem_size" and "0 < g" and page: "0 < page" "page dvd base"
    and mp: "\<And>x l. mprotect x l \<longleftrightarrow> page dvd x" and "length vs \<le> g \<or> page dvd g * elem_size"
  shows "if length vs + length ws \<le> g \<or> page dvd g * elem_size
    then \<exists>a'. arena_push_all mprotect elem_size a ws = Returns a' \<and> pushed elem_size base capacity (vs @ ws) a'
    else arena_push_all mprotect elem_size a ws = Panics"
  using assms(2,3,10)
proof (induction ws arbitrary: vs a)
  case (Cons w ws)
  let ?n = "min ((length vs div g + 1) * g) capacity"
  have l: "length vs < capacity" using Cons.prems(2) by simp
  have m: "mprotect (base + length vs * elem_size) x \<longleftrightarrow> page dvd length vs * elem_size" for x
    using mp page(2) by (simp add: dvd_add_right_iff)
  note step = pushed_step [OF assms(1) Cons.prems(1) l assms(4) g refl, of mprotect w, unfolded m]
  show ?case
  proof (cases "length vs = g \<and> \<not> page dvd g * elem_size")
    case True
    then have "arena_push mprotect elem_size a w = Panics" using step by simp
    then show ?thesis using True by simp
  next
    case False
    have "length vs mod g = 0 \<Longrightarrow> page dvd length vs * elem_size"
    proof -
      assume "length vs mod g = 0"
      then obtain q where q: "length vs = g * q" by auto
      show "page dvd length vs * elem_size"
      proof (cases "page dvd g * elem_size")
        case True
        then show ?thesis using q by (simp add: mult.assoc mult.left_commute [of g] dvd_mult)
      next
        case nd: False
        then have "g * q < g" using q False Cons.prems(3) by (simp add: le_less)
        then show ?thesis using q by simp
      qed
    qed
    then obtain a' where "arena_push mprotect elem_size a w = Returns (length vs, a')" "pushed elem_size base capacity (vs @ [w]) a'"
      using step by auto
    moreover have "Suc (length vs) \<le> g \<or> page dvd g * elem_size" using False Cons.prems(3) by auto
    ultimately show ?thesis using Cons.IH [of "vs @ [w]" a'] Cons.prems(2) by (simp split: if_splits)
  qed
qed auto

section \<open>Properties\<close>

text \<open>
  On a system whose \<^verbatim>\<open>mprotect\<close> accepts exactly the starts of pages, a thread that fills a new array alone gets back every element it
  pushed when the elements fit in the first commit or a commit ends at the end of a page. Otherwise the push of the first element
  past the first commit panics, though the array has room: the range that it commits does not start at a page.
\<close>

theorem sequential_pushes:
  assumes "arena_with_capacity base elem_size capacity = Returns a" and "length vs \<le> capacity"
    and "capacity + commit_granularity_in_elements elem_size < 2 ^ 64" and "0 < page" and "page dvd base"
    and "\<And>x l. mprotect x l \<longleftrightarrow> page dvd x"
  shows "if length vs \<le> commit_granularity_in_elements elem_size \<or> page dvd commit_granularity_in_elements elem_size * elem_size
    then \<exists>a'. arena_push_all mprotect elem_size a vs = Returns a' \<and> arena_len a' = length vs \<and> (\<forall>i < length vs. arena_get a' i = Returns (vs ! i))
    else arena_push_all mprotect elem_size a vs = Panics"
proof -
  let ?g = "commit_granularity_in_elements elem_size"
  have a: "0 < elem_size" "a = arena_new base capacity" using assms(1) by (auto simp: arena_with_capacity_def split: if_splits)
  have gp: "0 < ?g" using a(1) granularity_pos [of "elem_size - 1"] by simp
  have "pushed elem_size base capacity [] a" using a(2) gp by (simp add: pushed_def arena_new_def accessible_upto_def committed_after_0)
  note all = pushed_all [where mprotect = mprotect and ws = vs, OF a(1) this _ assms(3) refl gp assms(4,5,6), simplified]
  show ?thesis using all assms(2) by (auto simp: pushed_def arena_len_def arena_get_def split: if_splits)
qed

lemma sequential_pushes_witness:
  "arena_with_capacity 8192 24 5000 = Returns (arena_new 8192 5000 :: bool arena)
   \<and> arena_push_all (\<lambda>x _. 4096 dvd x) 24 (arena_new 8192 5000) (replicate 2732 True) = Panics
   \<and> (\<exists>a'. arena_push_all (\<lambda>x _. 4096 dvd x) 8 (arena_new 8192 20000) (replicate 9000 True) = Returns a' \<and> arena_len a' = 9000)"
proof -
  have w: "arena_with_capacity 8192 24 5000 = Returns (arena_new 8192 5000 :: bool arena)" by (simp add: arena_with_capacity_def)
  have g: "commit_granularity_in_elements 24 = 2731" "commit_granularity_in_elements 8 = 8192"
    by (simp_all add: commit_granularity_in_elements_def COMMIT_GRANULARITY_IN_BYTES_def)
  have p: "arena_push_all (\<lambda>x _. 4096 dvd x) 24 (arena_new 8192 5000) (replicate 2732 True) = Panics"
    using sequential_pushes [OF w, of "replicate 2732 True" 4096 "\<lambda>x _. 4096 dvd x"] by (simp add: g)
  have w8: "arena_with_capacity 8192 8 20000 = Returns (arena_new 8192 20000 :: bool arena)" by (simp add: arena_with_capacity_def)
  have "\<exists>a'. arena_push_all (\<lambda>x _. 4096 dvd x) 8 (arena_new 8192 20000) (replicate 9000 True) = Returns a' \<and> arena_len a' = 9000"
    using sequential_pushes [OF w8, of "replicate 9000 True" 4096 "\<lambda>x _. 4096 dvd x"] by (auto simp: g)
  then show ?thesis using w p by blast
qed

end
