(* ===== verification/Vif_Sharded_Map.thy ===== *)
theory Vif_Sharded_Map
  imports Vif_Keyed_Map Vif_Arena_Seq
begin

unbundle bit_operations_syntax

text \<open>
  \<^verbatim>\<open>ShardedIndexMap\<close> of \<^verbatim>\<open>src/common/containers/sharded_index_map.rs\<close> with its entries of \<^verbatim>\<open>sharded_index_map/entry.rs\<close>: an index map cut into
  shards, each a hash table behind a lock over an array \<open>arena\<close> of keys and values. An operation holds the lock of the only shard it
  touches from its start to its end, so that the operations are modelled one after the other. The hash table, the hash function, \<^verbatim>\<open>mprotect\<close> and
  the size of a slot are parameters. The assertions that \<^verbatim>\<open>debug_assert\<close> makes are part of the model.
\<close>

section \<open>Indices\<close>

type_synonym sm_index = "32 word"

definition SHARD_BITS :: nat where
  "SHARD_BITS = 6"

definition SHARD_SHIFT :: nat where
  "SHARD_SHIFT = 32 - SHARD_BITS"

definition LOCAL_MASK :: "32 word" where
  "LOCAL_MASK = push_bit SHARD_SHIFT 1 - 1"

definition index_NONE :: sm_index where
  "index_NONE = 0xFFFFFFFF"

text \<open>\<^verbatim>\<open>Index::new\<close>; \<open>index_bits\<close> is what it computes when the assertions are compiled out.\<close>

definition index_bits :: "nat \<Rightarrow> 32 word \<Rightarrow> sm_index" where
  "index_bits shard local_index = push_bit SHARD_SHIFT (word_of_nat shard) OR local_index"

definition index_new :: "nat \<Rightarrow> 32 word \<Rightarrow> sm_index outcome" where
  "index_new shard local_index =
     (if shard < 2 ^ SHARD_BITS \<and> local_index \<le> LOCAL_MASK then Returns (index_bits shard local_index) else Panics)"

definition index_shard :: "sm_index \<Rightarrow> nat" where
  "index_shard i = unat (drop_bit SHARD_SHIFT i)"

definition index_local_index :: "sm_index \<Rightarrow> 32 word" where
  "index_local_index i = i AND LOCAL_MASK"

definition index_is_none :: "sm_index \<Rightarrow> bool" where
  "index_is_none i \<longleftrightarrow> i = 0xFFFFFFFF"

definition shard_local_index_from :: "nat \<Rightarrow> 32 word outcome" where
  "shard_local_index_from v = (if v \<le> 0xFFFFFFFF then Returns (word_of_nat v) else Panics)"

lemma LOCAL_MASK_eq: "LOCAL_MASK = mask 26"
  by (simp add: LOCAL_MASK_def SHARD_SHIFT_def SHARD_BITS_def mask_eq_exp_minus_1)

lemma le_LOCAL_MASK: "l \<le> LOCAL_MASK \<longleftrightarrow> unat l < 2 ^ 26"
  by (simp add: LOCAL_MASK_def SHARD_SHIFT_def SHARD_BITS_def word_le_nat_alt) arith

lemma not_bit_above_nat: "v < 2 ^ k \<Longrightarrow> k \<le> n \<Longrightarrow> \<not> bit v n" for v :: nat
proof -
  assume v: "v < 2 ^ k" "k \<le> n"
  have "v < 2 ^ n" using v(1) power_increasing [OF v(2), of "2 :: nat"] by linarith
  then show ?thesis by (simp add: bit_iff_odd)
qed

lemma not_bit_above: "unat w < 2 ^ k \<Longrightarrow> k \<le> n \<Longrightarrow> \<not> bit w n" for w :: "'a :: len word"
  using not_bit_above_nat [of "unat w" k n] by (simp add: bit_unsigned_iff)

text \<open>The shard and the local index of an index are the ones it was made from.\<close>

lemma index_parts:
  assumes "s < 64" and "unat l < 2 ^ 26"
  shows "index_shard (index_bits s l) = s" and "index_local_index (index_bits s l) = l"
proof -
  have s: "unat (word_of_nat s :: 32 word) = s" using assms(1) by (simp add: unat_of_nat take_bit_nat_eq_self)
  have sb: "\<not> bit s n" if "6 \<le> n" for n using not_bit_above_nat [of s 6] assms(1) that by simp
  have lb: "\<not> bit l n" if "26 \<le> n" for n using not_bit_above [OF assms(2) that] .
  have "drop_bit 26 (push_bit 26 (word_of_nat s) OR l) = (word_of_nat s :: 32 word)"
    by (rule bit_word_eqI) (use sb lb in \<open>auto simp: bit_simps not_less linorder_not_le [symmetric]\<close>)
  then show "index_shard (index_bits s l) = s" using s by (simp add: index_shard_def index_bits_def SHARD_SHIFT_def SHARD_BITS_def)
  have "(push_bit 26 (word_of_nat s) OR l) AND mask 26 = l"
    by (rule bit_word_eqI) (use lb in \<open>auto simp: bit_simps not_less linorder_not_le [symmetric]\<close>)
  then show "index_local_index (index_bits s l) = l"
    by (simp add: index_local_index_def index_bits_def LOCAL_MASK_eq SHARD_SHIFT_def SHARD_BITS_def)
qed

section \<open>The map\<close>

record ('k, 'h) sharded_env =
  se_table :: "('h, 32 word) hash_table"
  se_hash_one :: "'k \<Rightarrow> 64 word"
  se_mprotect :: mprotect
  se_slot_size :: nat

record ('k, 'v, 'h) shard =
  sh_key_to_index :: 'h
  sh_slots :: "('k \<times> 'v) arena"

record ('k, 'v, 'h) sharded_index_map =
  sm_shards :: "('k, 'v, 'h) shard list"

datatype 'k sm_entry_kind = Sm_Occupied sm_index | Sm_Vacant nat "64 word" 'k

definition is_power_of_two :: "nat \<Rightarrow> bool" where
  "is_power_of_two n \<longleftrightarrow> list_ex (\<lambda>k. n = 2 ^ k) [0..<64]"

text \<open>\<open>bases\<close> are the addresses that the reservations of the shards return.\<close>

fun new_shards :: "('k, 'h) sharded_env \<Rightarrow> nat \<Rightarrow> nat list \<Rightarrow> ('k, 'v, 'h) shard list outcome" where
  "new_shards E capacity [] = Returns []"
| "new_shards E capacity (base # bases) =
     bind_outcome (arena_with_capacity base (se_slot_size E) capacity) (\<lambda>slots.
     bind_outcome (new_shards E capacity bases) (\<lambda>shards.
       Returns (\<lparr>sh_key_to_index = ht_new (se_table E), sh_slots = slots\<rparr> # shards)))"

definition sm_new :: "('k, 'h) sharded_env \<Rightarrow> nat list \<Rightarrow> nat \<Rightarrow> ('k, 'v, 'h) sharded_index_map outcome" where
  "sm_new E bases key_value_pair_capacity =
     (if is_power_of_two (length bases)
      then bind_outcome (new_shards E key_value_pair_capacity bases) (\<lambda>shards. Returns \<lparr>sm_shards = shards\<rparr>)
      else Panics)"

definition hash_and_shard :: "('k, 'h) sharded_env \<Rightarrow> ('k, 'v, 'h) sharded_index_map \<Rightarrow> 'k \<Rightarrow> 64 word \<times> nat" where
  "hash_and_shard E m key =
     (let hash = se_hash_one E key in (hash, unat (hash AND (word_of_nat (length (sm_shards m)) - 1))))"

definition sm_shard :: "('k, 'v, 'h) sharded_index_map \<Rightarrow> nat \<Rightarrow> ('k, 'v, 'h) shard outcome" where
  "sm_shard m s = (if s < length (sm_shards m) then Returns (sm_shards m ! s) else Panics)"

text \<open>The functions given to the table: they read the slot of an index that it holds.\<close>

definition slot_has_key :: "('k \<times> 'v) arena \<Rightarrow> 'k \<Rightarrow> 32 word \<Rightarrow> bool" where
  "slot_has_key slots key idx = (case arena_get slots (unat idx) of Returns (k, _) \<Rightarrow> k = key | Panics \<Rightarrow> False)"

definition slot_hash :: "('k, 'h) sharded_env \<Rightarrow> ('k \<times> 'v) arena \<Rightarrow> 32 word \<Rightarrow> 64 word" where
  "slot_hash E slots idx = (case arena_get slots (unat idx) of Returns (k, _) \<Rightarrow> se_hash_one E k | Panics \<Rightarrow> 0)"

definition sm_find :: "('k, 'h) sharded_env \<Rightarrow> ('k, 'v, 'h) sharded_index_map \<Rightarrow> 'k \<Rightarrow> sm_index option outcome" where
  "sm_find E m key =
     (case hash_and_shard E m key of (hash, shard_idx) \<Rightarrow>
      bind_outcome (sm_shard m shard_idx) (\<lambda>shard.
        case ht_find (se_table E) (sh_key_to_index shard) hash (slot_has_key (sh_slots shard) key) of
          None \<Rightarrow> Returns None
        | Some local_idx \<Rightarrow> bind_outcome (index_new shard_idx local_idx) (\<lambda>i. Returns (Some i))))"

definition sm_entry :: "('k, 'h) sharded_env \<Rightarrow> ('k, 'v, 'h) sharded_index_map \<Rightarrow> 'k \<Rightarrow> 'k sm_entry_kind outcome" where
  "sm_entry E m key =
     (case hash_and_shard E m key of (hash, shard_idx) \<Rightarrow>
      bind_outcome (sm_shard m shard_idx) (\<lambda>shard.
        case ht_find (se_table E) (sh_key_to_index shard) hash (slot_has_key (sh_slots shard) key) of
          None \<Rightarrow> Returns (Sm_Vacant shard_idx hash key)
        | Some local_idx \<Rightarrow> bind_outcome (index_new shard_idx local_idx) (\<lambda>i. Returns (Sm_Occupied i))))"

text \<open>\<^verbatim>\<open>kv\<close> and \<^verbatim>\<open>key\<close>; with its assertion, \<^verbatim>\<open>get_unchecked\<close> is \<^verbatim>\<open>get\<close>.\<close>

definition sm_kv :: "('k, 'v, 'h) sharded_index_map \<Rightarrow> sm_index \<Rightarrow> ('k \<times> 'v) outcome" where
  "sm_kv m index = bind_outcome (sm_shard m (index_shard index)) (\<lambda>shard. arena_get (sh_slots shard) (unat (index_local_index index)))"

definition sm_key :: "('k, 'v, 'h) sharded_index_map \<Rightarrow> sm_index \<Rightarrow> 'k outcome" where
  "sm_key m index = bind_outcome (sm_kv m index) (\<lambda>(k, _). Returns k)"

text \<open>The swap of the value in a slot.\<close>

definition sm_swap :: "('k, 'v, 'h) sharded_index_map \<Rightarrow> sm_index \<Rightarrow> 'v \<Rightarrow> (('k, 'v, 'h) sharded_index_map \<times> 'v) outcome" where
  "sm_swap m index value =
     bind_outcome (sm_shard m (index_shard index)) (\<lambda>shard.
     bind_outcome (arena_get (sh_slots shard) (unat (index_local_index index))) (\<lambda>(k, old).
       let slots = (sh_slots shard)\<lparr>ar_slots := (ar_slots (sh_slots shard))(unat (index_local_index index) := Some (k, value))\<rparr> in
       Returns (m\<lparr>sm_shards := (sm_shards m)[index_shard index := shard\<lparr>sh_slots := slots\<rparr>]\<rparr>, old)))"

definition sm_insert_by_ref ::
  "('k, 'h) sharded_env \<Rightarrow> ('k, 'v, 'h) sharded_index_map \<Rightarrow> nat \<Rightarrow> 64 word \<Rightarrow> 'k \<Rightarrow> 'v \<Rightarrow> (('k, 'v, 'h) sharded_index_map \<times> sm_index) outcome" where
  "sm_insert_by_ref E m shard_idx hash key value =
     bind_outcome (sm_shard m shard_idx) (\<lambda>shard.
     bind_outcome (arena_push (se_mprotect E) (se_slot_size E) (sh_slots shard) (key, value)) (\<lambda>(i, slots).
     bind_outcome (shard_local_index_from i) (\<lambda>local_index.
       let table = ht_insert_unique (se_table E) (sh_key_to_index shard) hash local_index (slot_hash E slots);
           m' = m\<lparr>sm_shards := (sm_shards m)[shard_idx := \<lparr>sh_key_to_index = table, sh_slots = slots\<rparr>]\<rparr> in
       bind_outcome (index_new shard_idx local_index) (\<lambda>index. Returns (m', index)))))"

definition sm_insert_entry ::
  "('k, 'h) sharded_env \<Rightarrow> ('k, 'v, 'h) sharded_index_map \<Rightarrow> 'k sm_entry_kind \<Rightarrow> 'v \<Rightarrow> (('k, 'v, 'h) sharded_index_map \<times> sm_index \<times> 'v option) outcome" where
  "sm_insert_entry E m e value =
     (case e of
        Sm_Occupied index \<Rightarrow> bind_outcome (sm_swap m index value) (\<lambda>(m', prev). Returns (m', index, Some prev))
      | Sm_Vacant shard_idx hash key \<Rightarrow> bind_outcome (sm_insert_by_ref E m shard_idx hash key value) (\<lambda>(m', index). Returns (m', index, None)))"

definition sm_or_insert_with ::
  "('k, 'h) sharded_env \<Rightarrow> ('k, 'v, 'h) sharded_index_map \<Rightarrow> 'k sm_entry_kind \<Rightarrow> (unit \<Rightarrow> 'v) \<Rightarrow> (('k, 'v, 'h) sharded_index_map \<times> sm_index) outcome" where
  "sm_or_insert_with E m e f =
     (case e of
        Sm_Occupied index \<Rightarrow> Returns (m, index)
      | Sm_Vacant shard_idx hash key \<Rightarrow> sm_insert_by_ref E m shard_idx hash key (f ()))"

definition sm_occupied_insert :: "('k, 'v, 'h) sharded_index_map \<Rightarrow> sm_index \<Rightarrow> 'v \<Rightarrow> (('k, 'v, 'h) sharded_index_map \<times> sm_index \<times> 'v) outcome" where
  "sm_occupied_insert m index value = bind_outcome (sm_swap m index value) (\<lambda>(m', old). Returns (m', index, old))"

definition sm_insert ::
  "('k, 'h) sharded_env \<Rightarrow> ('k, 'v, 'h) sharded_index_map \<Rightarrow> 'k \<Rightarrow> 'v \<Rightarrow> (('k, 'v, 'h) sharded_index_map \<times> sm_index \<times> 'v option) outcome" where
  "sm_insert E m key value = bind_outcome (sm_entry E m key) (\<lambda>e. sm_insert_entry E m e value)"

section \<open>The invariant\<close>

definition shard_of :: "('k, 'h) sharded_env \<Rightarrow> nat \<Rightarrow> 'k \<Rightarrow> nat" where
  "shard_of E n key = unat (se_hash_one E key AND (word_of_nat n - 1))"

definition sh_keys :: "('k, 'v, 'h) shard \<Rightarrow> 32 word \<rightharpoonup> 'k" where
  "sh_keys sh l = (case arena_get (sh_slots sh) (unat l) of Returns (k, _) \<Rightarrow> Some k | Panics \<Rightarrow> None)"

definition shard_inv :: "('k, 'h) sharded_env \<Rightarrow> nat \<Rightarrow> nat \<Rightarrow> ('k, 'v, 'h) shard \<Rightarrow> bool" where
  "shard_inv E n s sh \<longleftrightarrow>
     table_for (se_table E) (se_hash_one E) (sh_key_to_index sh) (sh_keys sh) \<and>
     ar_len (sh_slots sh) = ar_initialized (sh_slots sh) \<and> ar_initialized (sh_slots sh) \<le> 2 ^ 26 \<and>
     (\<forall>l k. sh_keys sh l = Some k \<longrightarrow> shard_of E n k = s)"

definition sm_inv :: "('k, 'h) sharded_env \<Rightarrow> ('k, 'v, 'h) sharded_index_map \<Rightarrow> bool" where
  "sm_inv E m \<longleftrightarrow>
     hash_table_ok (se_table E) \<and> 0 < length (sm_shards m) \<and> length (sm_shards m) \<le> 64 \<and>
     (\<forall>s < length (sm_shards m). shard_inv E (length (sm_shards m)) s (sm_shards m ! s))"

lemma shard_of_less: "0 < n \<Longrightarrow> n \<le> 64 \<Longrightarrow> shard_of E n k < n"
proof -
  assume n: "0 < n" "n \<le> 64"
  obtain q where q: "n = Suc q" using n(1) by (cases n) auto
  have "unat (word_of_nat n - (1 :: 64 word)) = q" using n(2) q by (simp add: unat_of_nat take_bit_nat_eq_self)
  moreover have "unat (se_hash_one E k AND (word_of_nat n - 1)) \<le> unat (word_of_nat n - (1 :: 64 word))"
    by (metis word_and_le1 word_le_nat_alt)
  ultimately show ?thesis using q by (simp add: shard_of_def)
qed

lemma arena_push_Returns:
  assumes "ar_initialized a = ar_len a" and "arena_push mp e a v = Returns (i, a')"
  shows "i = ar_len a \<and> ar_len a' = Suc i \<and> ar_initialized a' = Suc i \<and> ar_slots a' = (ar_slots a)(i \<mapsto> v)"
  using assms unfolding arena_push_def seven_actions
  by (auto simp: Let_def virtmem_commit_def split: if_splits)

section \<open>Keys of a map\<close>

definition sm_keys :: "('k, 'v, 'h) sharded_index_map \<Rightarrow> sm_index \<rightharpoonup> 'k" where
  "sm_keys m i = (case sm_kv m i of Returns (k, _) \<Rightarrow> Some k | Panics \<Rightarrow> None)"

lemma index_join: "index_bits (index_shard i) (index_local_index i) = i"
proof -
  have "push_bit 26 (drop_bit 26 i) OR (i AND mask 26) = i" by (rule bit_word_eqI) (auto simp: bit_simps)
  then show ?thesis by (simp add: index_bits_def index_shard_def index_local_index_def LOCAL_MASK_eq SHARD_SHIFT_def SHARD_BITS_def)
qed

lemma index_ranges: "index_shard i < 64" "unat (index_local_index i) < 2 ^ 26"
proof -
  have "unat i < 2 ^ 32" using unsigned_less [of i] by simp
  then have "unat i div 2 ^ 26 < 64" by (simp add: less_mult_imp_div_less)
  then show "index_shard i < 64" by (simp add: index_shard_def SHARD_SHIFT_def SHARD_BITS_def drop_bit_eq_div unat_div)
  show "unat (index_local_index i) < 2 ^ 26" unfolding le_LOCAL_MASK [symmetric] index_local_index_def by (rule word_and_le1)
qed

lemma index_eq_iff: "s < 64 \<Longrightarrow> unat l < 2 ^ 26 \<Longrightarrow> i = index_bits s l \<longleftrightarrow> index_shard i = s \<and> index_local_index i = l"
  using index_join [of i] index_parts by auto

lemma index_new_ok: "s < 64 \<Longrightarrow> unat l < 2 ^ 26 \<Longrightarrow> index_new s l = Returns (index_bits s l)"
  by (simp add: index_new_def le_LOCAL_MASK SHARD_BITS_def)

lemma sm_keys_shard:
  "sm_keys m i = (if index_shard i < length (sm_shards m) then sh_keys (sm_shards m ! index_shard i) (index_local_index i) else None)"
  by (simp add: sm_keys_def sm_kv_def sm_shard_def sh_keys_def)

lemma sh_keys_bound: "sh_keys sh l = Some k \<Longrightarrow> unat l < ar_initialized (sh_slots sh)"
  by (auto simp: sh_keys_def arena_get_def split: if_splits)

lemma sm_invD:
  assumes "sm_inv E m" and "s < length (sm_shards m)"
  shows "hash_table_ok (se_table E)" and "s < 64" and "table_for (se_table E) (se_hash_one E) (sh_key_to_index (sm_shards m ! s)) (sh_keys (sm_shards m ! s))"
    and "ar_initialized (sh_slots (sm_shards m ! s)) = ar_len (sh_slots (sm_shards m ! s))"
    and "sh_keys (sm_shards m ! s) l = Some k \<Longrightarrow> shard_of E (length (sm_shards m)) k = s \<and> unat l < 2 ^ 26"
  using assms sh_keys_bound [of "sm_shards m ! s" l k] by (auto simp: sm_inv_def shard_inv_def)

text \<open>A search gives the index of the slot with the key, in the only shard where it can be.\<close>

lemma sm_find_table:
  assumes "sm_inv E m" and s: "s = shard_of E (length (sm_shards m)) k"
  shows "s < length (sm_shards m)"
    and "ht_find (se_table E) (sh_key_to_index (sm_shards m ! s)) (se_hash_one E k) (slot_has_key (sh_slots (sm_shards m ! s)) k) = Some l
      \<longleftrightarrow> sm_keys m (index_bits s l) = Some k \<and> unat l < 2 ^ 26"
proof -
  show s': "s < length (sm_shards m)" using assms by (auto simp: sm_inv_def intro: shard_of_less)
  note inv = sm_invD [OF assms(1) s']
  have "ht_find (se_table E) (sh_key_to_index (sm_shards m ! s)) (se_hash_one E k) (slot_has_key (sh_slots (sm_shards m ! s)) k) = Some l
      \<longleftrightarrow> sh_keys (sm_shards m ! s) l = Some k"
    by (rule table_for_find [OF inv(1,3)]) (auto simp: slot_has_key_def sh_keys_def split: outcome.splits)
  also have "\<dots> \<longleftrightarrow> sm_keys m (index_bits s l) = Some k \<and> unat l < 2 ^ 26"
    using inv(2) inv(5) [of l k] s' index_parts [OF inv(2), of l] by (auto simp: sm_keys_shard)
  finally show "ht_find (se_table E) (sh_key_to_index (sm_shards m ! s)) (se_hash_one E k) (slot_has_key (sh_slots (sm_shards m ! s)) k) = Some l
      \<longleftrightarrow> sm_keys m (index_bits s l) = Some k \<and> unat l < 2 ^ 26" .
qed

lemma sm_keys_index:
  assumes "sm_inv E m" and "sm_keys m i = Some k" and s: "s = shard_of E (length (sm_shards m)) k"
  shows "i = index_bits s (index_local_index i)"
  using assms sm_invD(5) [OF assms(1), of "index_shard i" "index_local_index i" k] index_join [of i] by (auto simp: sm_keys_shard split: if_splits)

lemma sm_find_cases:
  assumes "sm_inv E m" and s: "s = shard_of E (length (sm_shards m)) k"
  obtains (found) i where "sm_find E m k = Returns (Some i)" and "sm_entry E m k = Returns (Sm_Occupied i)" and "sm_keys m i = Some k"
  | (missing) "sm_find E m k = Returns None" and "sm_entry E m k = Returns (Sm_Vacant s (se_hash_one E k) k)" and "\<And>i. sm_keys m i \<noteq> Some k"
proof (cases "ht_find (se_table E) (sh_key_to_index (sm_shards m ! s)) (se_hash_one E k) (slot_has_key (sh_slots (sm_shards m ! s)) k)")
  case None
  have "sm_keys m i \<noteq> Some k" for i
    using sm_keys_index [OF assms(1) _ s, of i] sm_find_table(2) [OF assms, of "index_local_index i"] None index_ranges(2) [of i] by auto
  then show thesis using missing None sm_find_table(1) [OF assms] s
    by (simp add: sm_find_def sm_entry_def hash_and_shard_def shard_of_def sm_shard_def Let_def)
next
  case (Some l)
  note t = sm_find_table [OF assms]
  have l: "sm_keys m (index_bits s l) = Some k" "unat l < 2 ^ 26" using t(2) Some by auto
  have "index_new s l = Returns (index_bits s l)" by (rule index_new_ok [OF sm_invD(2) [OF assms(1) t(1)] l(2)])
  then show thesis using found [OF _ _ l(1)] Some t(1) s
    by (simp add: sm_find_def sm_entry_def hash_and_shard_def shard_of_def sm_shard_def Let_def)
qed

section \<open>Insertion\<close>

text \<open>A shard is replaced by one with the slot \<open>l\<close> set.\<close>

lemma sm_kv_upd:
  assumes "s < length (sm_shards m)" and "s < 64" and "unat l < 2 ^ 26"
    and "\<And>l'. arena_get (sh_slots sh') (unat l') = (if l' = l then Returns x else arena_get (sh_slots (sm_shards m ! s)) (unat l'))"
  shows "sm_kv (m\<lparr>sm_shards := (sm_shards m)[s := sh']\<rparr>) = (sm_kv m)(index_bits s l := Returns x)"
proof
  fix j
  show "sm_kv (m\<lparr>sm_shards := (sm_shards m)[s := sh']\<rparr>) j = ((sm_kv m)(index_bits s l := Returns x)) j"
    using assms index_eq_iff [OF assms(2,3), of j] by (cases "index_shard j = s") (auto simp: sm_kv_def sm_shard_def)
qed

lemma sm_inv_upd:
  assumes "sm_inv E m" and "s < length (sm_shards m)" and "shard_inv E (length (sm_shards m)) s sh'"
  shows "sm_inv E (m\<lparr>sm_shards := (sm_shards m)[s := sh']\<rparr>)"
  using assms by (auto simp: sm_inv_def nth_list_update)

text \<open>The swap of a value.\<close>

lemma sm_swap_ok:
  assumes "sm_inv E m" and "sm_kv m i = Returns (k, w)"
  shows "\<exists>m'. sm_swap m i v = Returns (m', w) \<and> sm_inv E m' \<and> sm_kv m' = (sm_kv m)(i := Returns (k, v))"
proof -
  let ?s = "index_shard i" and ?l = "index_local_index i"
  let ?sh = "sm_shards m ! ?s"
  have s: "?s < length (sm_shards m)" and g: "arena_get (sh_slots ?sh) (unat ?l) = Returns (k, w)"
    using assms(2) by (auto simp: sm_kv_def sm_shard_def split: if_splits)
  let ?slots = "(sh_slots ?sh)\<lparr>ar_slots := (ar_slots (sh_slots ?sh))(unat ?l := Some (k, v))\<rparr>"
  let ?sh' = "?sh\<lparr>sh_slots := ?slots\<rparr>"
  have get: "arena_get (sh_slots ?sh') (unat l) = (if l = ?l then Returns (k, v) else arena_get (sh_slots ?sh) (unat l))" for l
    using g by (auto simp: arena_get_def split: if_splits dest: unsigned_word_eqI)
  then have "sh_keys ?sh' = sh_keys ?sh" using g by (auto simp: sh_keys_def fun_eq_iff split: outcome.splits)
  then have "shard_inv E (length (sm_shards m)) ?s ?sh'" using assms(1) s by (auto simp: sm_inv_def shard_inv_def)
  then have "sm_inv E (m\<lparr>sm_shards := (sm_shards m)[?s := ?sh']\<rparr>)" by (rule sm_inv_upd [OF assms(1) s])
  moreover have "sm_kv (m\<lparr>sm_shards := (sm_shards m)[?s := ?sh']\<rparr>) = (sm_kv m)(i := Returns (k, v))"
    using sm_kv_upd [OF s index_ranges get] by (simp add: index_join)
  moreover have "sm_swap m i v = Returns (m\<lparr>sm_shards := (sm_shards m)[?s := ?sh']\<rparr>, w)"
    using s g by (simp add: sm_swap_def sm_shard_def Let_def)
  ultimately show ?thesis by blast
qed

text \<open>The insertion of a key that is not there.\<close>

lemma sm_insert_by_ref_ok:
  assumes "sm_inv E m" and s: "s = shard_of E (length (sm_shards m)) k" and new: "\<And>i. sm_keys m i \<noteq> Some k"
    and ins: "sm_insert_by_ref E m s (se_hash_one E k) k v = Returns (m', i)"
  shows "sm_inv E m' \<and> sm_keys m i = None \<and> sm_kv m' = (sm_kv m)(i := Returns (k, v))"
proof -
  have s': "s < length (sm_shards m)" by (rule sm_find_table(1) [OF assms(1) s])
  let ?sh = "sm_shards m ! s"
  note inv = sm_invD [OF assms(1) s']
  obtain n slots l where n: "arena_push (se_mprotect E) (se_slot_size E) (sh_slots ?sh) (k, v) = Returns (n, slots)" "shard_local_index_from n = Returns l" "index_new s l = Returns i"
      and m': "m' = m\<lparr>sm_shards := (sm_shards m)[s := \<lparr>sh_key_to_index = ht_insert_unique (se_table E) (sh_key_to_index ?sh) (se_hash_one E k) l (slot_hash E slots), sh_slots = slots\<rparr>]\<rparr>"
    using ins s' by (auto simp: sm_insert_by_ref_def sm_shard_def bind_outcome_Returns_iff Let_def)
  have l: "unat l < 2 ^ 26" "i = index_bits s l" using n(3) by (auto simp: index_new_def le_LOCAL_MASK split: if_splits)
  have nl: "unat l = n" using n(2) by (auto simp: shard_local_index_from_def unat_of_nat take_bit_nat_eq_self split: if_splits)
  note p = arena_push_Returns [OF inv(4) n(1)]
  let ?sh' = "\<lparr>sh_key_to_index = ht_insert_unique (se_table E) (sh_key_to_index ?sh) (se_hash_one E k) l (slot_hash E slots), sh_slots = slots\<rparr>"
  have get: "arena_get slots (unat l') = (if l' = l then Returns (k, v) else arena_get (sh_slots ?sh) (unat l'))" for l'
  proof -
    have "unat l' = unat l \<longleftrightarrow> l' = l" by (auto intro: unsigned_word_eqI)
    then show ?thesis using p nl inv(4) by (auto simp: arena_get_def less_Suc_eq)
  qed
  have none: "sh_keys ?sh l = None" using p nl inv(4) by (simp add: sh_keys_def arena_get_def)
  have keys: "sh_keys ?sh' = (sh_keys ?sh)(l \<mapsto> k)" using get by (auto simp: sh_keys_def fun_eq_iff)
  have nk: "sh_keys ?sh j \<noteq> Some k" for j
    using new [of "index_bits s j"] inv(5) [of j k] index_parts [OF inv(2), of j] s' by (auto simp: sm_keys_shard)
  have owner: "shard_of E (length (sm_shards m)) k' = s" if "sh_keys ?sh' j = Some k'" for j k'
    using that inv(5) [of j k'] s unfolding keys by (auto split: if_splits)
  have "table_for (se_table E) (se_hash_one E) (sh_key_to_index ?sh') (sh_keys ?sh')"
    unfolding keys shard.select_convs
    by (rule table_for_insert [OF inv(1,3) none nk]) (use get none in \<open>auto simp: slot_hash_def sh_keys_def split: outcome.splits\<close>)
  then have "shard_inv E (length (sm_shards m)) s ?sh'"
    using p nl l(1) owner by (simp add: shard_inv_def)
  then have "sm_inv E m'" unfolding m' by (rule sm_inv_upd [OF assms(1) s'])
  moreover have "sm_kv m' = (sm_kv m)(i := Returns (k, v))" unfolding m' l(2) by (rule sm_kv_upd [OF s' inv(2) l(1)]) (simp add: get)
  moreover have "sm_keys m i = None" using none index_parts [OF inv(2) l(1)] s' l(2) by (simp add: sm_keys_shard)
  ultimately show ?thesis by blast
qed

section \<open>The interface\<close>

definition sm_or_insert :: "('k, 'h) sharded_env \<Rightarrow> ('k, 'v, 'h) sharded_index_map \<Rightarrow> 'k \<Rightarrow> 'v \<Rightarrow> (('k, 'v, 'h) sharded_index_map \<times> sm_index) outcome" where
  "sm_or_insert E m key value = bind_outcome (sm_entry E m key) (\<lambda>e. sm_or_insert_with E m e (\<lambda>_. value))"

lemma sm_keys_Some: "sm_keys m i = Some k \<longleftrightarrow> (\<exists>v. sm_kv m i = Returns (k, v))"
  by (auto simp: sm_keys_def split: outcome.splits)

lemma sm_keys_unique: "sm_inv E m \<Longrightarrow> sm_keys m i = Some k \<Longrightarrow> sm_keys m j = Some k \<Longrightarrow> i = j"
proof -
  assume a: "sm_inv E m" "sm_keys m i = Some k" "sm_keys m j = Some k"
  let ?s = "shard_of E (length (sm_shards m)) k"
  note i = sm_keys_index [OF a(1,2) refl] and j = sm_keys_index [OF a(1,3) refl]
  have "ht_find (se_table E) (sh_key_to_index (sm_shards m ! ?s)) (se_hash_one E k) (slot_has_key (sh_slots (sm_shards m ! ?s)) k) = Some (index_local_index x)"
    if "sm_keys m x = Some k" for x
    using sm_find_table(2) [OF a(1) refl] sm_keys_index [OF a(1) that refl] that index_ranges(2) by metis
  then show "i = j" using i j a(2,3) by (metis option.inject)
qed

lemma sm_find_iff: "sm_inv E m \<Longrightarrow> sm_find E m k = Returns (Some i) \<longleftrightarrow> sm_keys m i = Some k"
  by (rule sm_find_cases [of E m _ k]) (auto dest: sm_keys_unique)

lemma sm_insert_found:
  assumes "sm_inv E m" and "sm_keys m i = Some k"
  shows "\<exists>m' w. sm_kv m i = Returns (k, w) \<and> sm_insert E m k v = Returns (m', i, Some w) \<and> sm_inv E m' \<and> sm_kv m' = (sm_kv m)(i := Returns (k, v))"
proof -
  obtain w where w: "sm_kv m i = Returns (k, w)" using assms(2) sm_keys_Some by metis
  have "sm_entry E m k = Returns (Sm_Occupied i)"
    by (rule sm_find_cases [OF assms(1) refl, of k]) (use assms(2) sm_keys_unique [OF assms(1,2)] in auto)
  moreover obtain m' where "sm_swap m i v = Returns (m', w)" "sm_inv E m'" "sm_kv m' = (sm_kv m)(i := Returns (k, v))"
    using sm_swap_ok [OF assms(1) w] by metis
  ultimately have "sm_insert E m k v = Returns (m', i, Some w)" "sm_inv E m'" "sm_kv m' = (sm_kv m)(i := Returns (k, v))"
    by (simp_all add: sm_insert_def sm_insert_entry_def)
  then show ?thesis using w by metis
qed

lemma sm_insert_missing:
  assumes "sm_inv E m" and "\<And>i. sm_keys m i \<noteq> Some k"
  shows "sm_insert E m k v =
      bind_outcome (sm_insert_by_ref E m (shard_of E (length (sm_shards m)) k) (se_hash_one E k) k v) (\<lambda>(m', i). Returns (m', i, None))"
    and "sm_or_insert E m k v = sm_insert_by_ref E m (shard_of E (length (sm_shards m)) k) (se_hash_one E k) k v"
  by (rule sm_find_cases [OF assms(1) refl, of k];
      use assms(2) in \<open>simp add: sm_insert_def sm_insert_entry_def sm_or_insert_def sm_or_insert_with_def\<close>)+

lemma sm_insert_cases:
  assumes "sm_inv E m" and "sm_insert E m k v = Returns (m', i, p)"
  obtains (old) w where "sm_keys m i = Some k" and "p = Some w" and "sm_kv m i = Returns (k, w)"
    and "sm_inv E m'" and "sm_kv m' = (sm_kv m)(i := Returns (k, v))"
  | (new) "sm_keys m i = None" and "\<And>j. sm_keys m j \<noteq> Some k" and "p = None"
    and "sm_inv E m'" and "sm_kv m' = (sm_kv m)(i := Returns (k, v))"
proof (cases "\<exists>j. sm_keys m j = Some k")
  case True
  then obtain j where j: "sm_keys m j = Some k" by blast
  obtain m1 w where m1: "sm_kv m j = Returns (k, w)" "sm_insert E m k v = Returns (m1, j, Some w)" "sm_inv E m1" "sm_kv m1 = (sm_kv m)(j := Returns (k, v))"
    using sm_insert_found [OF assms(1) j] by metis
  then have "m' = m1" "i = j" "p = Some w" using assms(2) by simp_all
  then show thesis using old j m1 by simp
next
  case False
  then have new': "sm_keys m j \<noteq> Some k" for j by blast
  have "sm_insert_by_ref E m (shard_of E (length (sm_shards m)) k) (se_hash_one E k) k v = Returns (m', i) \<and> p = None"
    using assms(2) sm_insert_missing(1) [OF assms(1) new', of v] by (auto simp: bind_outcome_Returns_iff)
  then show thesis using new new' sm_insert_by_ref_ok [OF assms(1) refl new', of v m' i] by simp
qed

lemma sm_insert_keys:
  assumes "sm_inv E m" and "sm_insert E m k v = Returns (m', i, p)"
  shows "sm_keys m' x = Some k' \<longleftrightarrow> (if k' = k then x = i else sm_keys m x = Some k')"
proof -
  have kv: "sm_kv m' = (sm_kv m)(i := Returns (k, v))" and i: "sm_keys m i = Some k \<or> sm_keys m i = None \<and> sm_keys m x \<noteq> Some k"
    by (rule sm_insert_cases [OF assms]; simp)+
  then show ?thesis using sm_keys_unique [OF assms(1), of i k x] by (auto simp: sm_keys_def)
qed

interpretation sm: keyed_map "sm_inv E" "sm_find E" "sm_insert E" "sm_or_insert E" sm_kv
  for E
proof
  fix m :: "('a, 'c, 'b) sharded_index_map" and k i
  assume inv: "sm_inv E m"
  note iff = sm_find_iff [OF inv]
  have ret: "\<exists>r. sm_find E m k = Returns r" if "sm_inv E m" for m :: "('a, 'c, 'b) sharded_index_map" and k
    by (rule sm_find_cases [OF that refl, of k]) auto
  show "\<exists>r. sm_find E m k = Returns r" by (rule ret [OF inv])
  show "\<exists>v. sm_kv m i = Returns (k, v)" if "sm_find E m k = Returns (Some i)" using that iff sm_keys_Some by metis
  have none: "sm_keys m j \<noteq> Some k" if "sm_find E m k = Returns None" for j using that iff [of k j] by auto
  fix v w
  show "\<exists>m'. sm_insert E m k v = Returns (m', i, Some w)" if "sm_find E m k = Returns (Some i)" "sm_kv m i = Returns (k, w)"
    using sm_insert_found [OF inv, of i k v] that iff by auto
  show "sm_or_insert E m k v = Returns (m, i)" if "sm_find E m k = Returns (Some i)"
    by (rule sm_find_cases [OF inv refl, of k]) (use that in \<open>simp_all add: sm_or_insert_def sm_or_insert_with_def\<close>)
  show "sm_or_insert E m k v = bind_outcome (sm_insert E m k v) (\<lambda>(m', i, _). Returns (m', i))" if "sm_find E m k = Returns None"
    using sm_insert_missing [OF inv none [OF that], of v]
    by (cases "sm_insert_by_ref E m (shard_of E (length (sm_shards m)) k) (se_hash_one E k) k v") auto
  fix m' p k' j
  assume ins: "sm_insert E m k v = Returns (m', i, p)"
  have kv: "sm_kv m' = (sm_kv m)(i := Returns (k, v))" by (rule sm_insert_cases [OF inv ins]; simp)
  show "p = None" if "sm_find E m k = Returns None" by (rule sm_insert_cases [OF inv ins]) (use none [OF that] in simp_all)
  show inv': "sm_inv E m'" by (rule sm_insert_cases [OF inv ins]; simp)
  show "sm_find E m' k' = (if k' = k then Returns (Some i) else sm_find E m k')"
  proof -
    obtain r r' where r: "sm_find E m k' = Returns r" "sm_find E m' k' = Returns r'" using ret [OF inv] ret [OF inv'] by metis
    have "r' = Some x \<longleftrightarrow> (if k' = k then Some i else r) = Some x" for x
      using sm_insert_keys [OF inv ins, of x k'] sm_find_iff [OF inv', of k' x] iff [of k' x] r by auto
    then have "r' = (if k' = k then Some i else r)" by (metis not_Some_eq)
    then show ?thesis using r by simp
  qed
  show "sm_kv m' i = Returns (k, v)" using kv by simp
  show "sm_kv m' j = Returns (k', w)" if "sm_kv m j = Returns (k', w)" "k' \<noteq> k"
  proof -
    have "j \<noteq> i" by (rule sm_insert_cases [OF inv ins]) (use that in \<open>auto simp: sm_keys_def\<close>)
    then show ?thesis using kv that(1) by simp
  qed
qed

text \<open>When an insertion panics.\<close>

lemma sm_insert_panics:
  assumes "sm_inv E m"
  shows "sm_insert E m k v = Panics \<longleftrightarrow> sm_find E m k = Returns None \<and>
    (let slots = sh_slots (sm_shards m ! snd (hash_and_shard E m k)) in
     arena_push (se_mprotect E) (se_slot_size E) slots (k, v) = Panics \<or> 2 ^ 26 \<le> arena_len slots)"
proof (cases "\<exists>i. sm_keys m i = Some k")
  case True
  then obtain i where i: "sm_keys m i = Some k" by blast
  then show ?thesis using sm_insert_found [OF assms i, of v] sm_find_iff [OF assms, of k i] by auto
next
  case False
  then have new: "sm_keys m i \<noteq> Some k" for i by blast
  define s where "s = shard_of E (length (sm_shards m)) k"
  have s: "s < length (sm_shards m)" by (rule sm_find_table(1) [OF assms s_def])
  note inv = sm_invD [OF assms s]
  have hs: "snd (hash_and_shard E m k) = s" by (simp add: hash_and_shard_def shard_of_def s_def Let_def)
  have f: "sm_find E m k = Returns None" by (rule sm_find_cases [OF assms refl, of k]) (use new in simp_all)
  have "sm_insert_by_ref E m s (se_hash_one E k) k v = Panics \<longleftrightarrow>
      arena_push (se_mprotect E) (se_slot_size E) (sh_slots (sm_shards m ! s)) (k, v) = Panics \<or> 2 ^ 26 \<le> arena_len (sh_slots (sm_shards m ! s))"
  proof (cases "arena_push (se_mprotect E) (se_slot_size E) (sh_slots (sm_shards m ! s)) (k, v)")
    case (Returns r)
    obtain n slots where r: "r = (n, slots)" by fastforce
    have n: "n = arena_len (sh_slots (sm_shards m ! s))" using arena_push_Returns [OF inv(4)] Returns r inv(4) by (simp add: arena_len_def)
    have "n \<le> 2 ^ 26" using assms s n by (simp add: sm_inv_def shard_inv_def arena_len_def)
    then have l: "shard_local_index_from n = Returns (word_of_nat n)" "unat (word_of_nat n :: 32 word) = n"
      by (simp_all add: shard_local_index_from_def unat_of_nat take_bit_nat_eq_self)
    show ?thesis using s Returns r l inv(2) n
      by (simp add: sm_insert_by_ref_def sm_shard_def Let_def index_new_def le_LOCAL_MASK SHARD_BITS_def not_less)
  qed (use s in \<open>simp add: sm_insert_by_ref_def sm_shard_def\<close>)
  then show ?thesis using sm_insert_missing(1) [OF assms new, of v] f hs
    by (cases "sm_insert_by_ref E m s (se_hash_one E k) k v") (auto simp: Let_def s_def)
qed

end
