(* ===== verification/Vif_Sharded_Map_Props.thy ===== *)
theory Vif_Sharded_Map_Props
  imports Vif_Sharded_Map
begin

text \<open>
  What a \<^verbatim>\<open>ShardedIndexMap\<close> promises: the encoding of its indices, and that it is a finite map whose indices never change.
\<close>

section \<open>A new map\<close>

lemma new_shards_ok:
  assumes "new_shards E capacity bases = Returns shards"
  shows "length shards = length bases \<and> (\<forall>sh \<in> set shards. sh_key_to_index sh = ht_new (se_table E) \<and> (\<exists>base. sh_slots sh = arena_new base capacity))"
  using assms
proof (induction bases arbitrary: shards)
  case (Cons b bases)
  then show ?case by (fastforce simp: bind_outcome_Returns_iff arena_with_capacity_def split: if_splits)
qed simp

lemma sm_inv_new:
  assumes "hash_table_ok (se_table E)" and "length bases \<le> 64" and "sm_new E bases capacity = Returns m"
  shows "sm_inv E m" and "sm_keys m i = None"
proof -
  obtain shards where sh: "new_shards E capacity bases = Returns shards" "m = \<lparr>sm_shards = shards\<rparr>" and p: "is_power_of_two (length bases)"
    using assms(3) by (auto simp: sm_new_def bind_outcome_Returns_iff split: if_splits)
  note ok = new_shards_ok [OF sh(1)]
  have "0 < length shards" using ok p by (auto simp: is_power_of_two_def list_ex_iff)
  have get: "arena_get (sh_slots (shards ! s)) l = Panics" if "s < length shards" for s l
    using ok nth_mem [OF that] by (auto simp: arena_get_def arena_new_def)
  have none: "sh_keys (shards ! s) l = None" if "s < length shards" for s l using get [OF that] by (simp add: sh_keys_def)
  have "shard_inv E n s (shards ! s)" if "s < length shards" for n s
  proof -
    have "sh_key_to_index (shards ! s) = ht_new (se_table E)" "\<exists>base. sh_slots (shards ! s) = arena_new base capacity" using ok nth_mem [OF that] by auto
    then show ?thesis using table_for_new [OF assms(1), of "sh_keys (shards ! s)"] none [OF that] by (auto simp: shard_inv_def arena_new_def)
  qed
  then show "sm_inv E m" using assms(1,2) ok sh(2) \<open>0 < length shards\<close> by (simp add: sm_inv_def)
  show "sm_keys m i = None" using none by (simp add: sm_keys_shard sh(2))
qed

section \<open>Properties\<close>

text \<open>
  The index of a slot keeps its shard, one of 64, and its position in the shard, and every index is made from its parts. The
  only slot whose index is \<^verbatim>\<open>Index::NONE\<close> is the last one of the last shard. Without the debug assertions of \<^verbatim>\<open>Index::new\<close>, shards whose
  numbers differ by 64 share their indices; the compilation unit makes as many shards as the machine has threads, rounded up to a power of
  two.
\<close>

theorem index_encoding:
  "(s < 64 \<and> l \<le> LOCAL_MASK \<longrightarrow>
     (\<exists>i. index_new s l = Returns i \<and> index_shard i = s \<and> index_local_index i = l \<and> (index_is_none i \<longleftrightarrow> s = 63 \<and> l = LOCAL_MASK)))
   \<and> index_new (index_shard i) (index_local_index i) = Returns i \<and> index_bits (s + 64) l = index_bits s l"
proof (intro conjI impI)
  have none: "index_shard 0xFFFFFFFF = 63" "index_local_index 0xFFFFFFFF = LOCAL_MASK"
    by (simp_all add: index_shard_def index_local_index_def LOCAL_MASK_def SHARD_SHIFT_def SHARD_BITS_def)
  assume a: "s < 64 \<and> l \<le> LOCAL_MASK"
  then have sl: "s < 64" "unat l < 2 ^ 26" by (simp_all add: le_LOCAL_MASK)
  show "\<exists>i. index_new s l = Returns i \<and> index_shard i = s \<and> index_local_index i = l \<and> (index_is_none i \<longleftrightarrow> s = 63 \<and> l = LOCAL_MASK)"
    using index_new_ok [OF sl] index_parts [OF sl] index_eq_iff [OF sl, of "0xFFFFFFFF"] none by (auto simp: index_is_none_def)
next
  show "index_new (index_shard i) (index_local_index i) = Returns i" using index_new_ok [OF index_ranges] by (simp add: index_join)
  have "push_bit 26 (word_of_nat (s + 64) :: 32 word) = push_bit 26 (word_of_nat s)" by (simp add: push_bit_eq_mult)
  then show "index_bits (s + 64) l = index_bits s l" by (simp add: index_bits_def SHARD_SHIFT_def SHARD_BITS_def)
qed


definition small_env :: "(bool, (64 word \<times> 32 word) list) sharded_env" where
  "small_env = \<lparr>se_table = list_table, se_hash_one = (\<lambda>b. if b then 1 else 0), se_mprotect = (\<lambda>_ _. True), se_slot_size = 8\<rparr>"

lemma index_encoding_witness:
  "\<exists>i. index_new 5 1000 = Returns i \<and> index_shard i = 5 \<and> index_local_index i = 1000 \<and> \<not> index_is_none i"
proof -
  have "(1000 :: 32 word) \<le> LOCAL_MASK" by (simp add: LOCAL_MASK_def SHARD_SHIFT_def SHARD_BITS_def)
  then show ?thesis using index_encoding [of 5 1000 0] by auto
qed


end
