(* ===== verification/Vif_Value.thy ===== *)
theory Vif_Value
  imports Vif_Int Vif_Ast Vif_Index_Map Vif_Sharded_Map
begin

text \<open>
  The value store, \<^verbatim>\<open>src/value.rs\<close>: the types and compile-time values of a program, interned in a \<^verbatim>\<open>ShardedIndexMap\<close>. A key is the part of a
  value that identifies it; its value part holds what is only known later, such as the fields of a struct.

  Slices of the payload allocator are lists and a reference to it is what it points to. A float is the bits of an \<^verbatim>\<open>f128\<close>. \<^verbatim>\<open>FnKey\<close> leaves out
  \<^verbatim>\<open>owner_decl\<close>, which takes no part in comparison and hashing. Keys are compared as values; for floats \<^verbatim>\<open>PartialEq\<close> is the comparison
  of the numbers instead.
\<close>

section \<open>Types\<close>

type_synonym vindex = sm_index

type_synonym f128 = "128 word"

record global_vuir_instruction_id =
  gi_module :: nat
  gi_inst :: nat

datatype ptr_kind = PK_Decl nat | PK_ComptimeAlloc nat | PK_Value vindex

record type_ptr_packed =
  tpp_bit_offset :: nat
  tpp_bit_width :: nat
  tpp_underlying_int_bits :: nat

record type_ptr =
  tp_pointee_ty :: vindex
  tp_packed :: "type_ptr_packed option"
  tp_is_const :: bool

record struct_field =
  sf_name :: string
  sf_ty :: vindex

record packed_struct_field_info =
  pf_offset :: nat
  pf_width :: nat

datatype struct_layout = SL_Standard | SL_Packed nat nat "packed_struct_field_info list"

record type_struct =
  ts_name :: string
  ts_fields :: "struct_field list"
  ts_layout :: struct_layout
  ts_namespace :: nat
  ts_linear :: bool

record enum_field =
  ef_name :: string
  ef_value :: vindex

record type_enum =
  te_name :: string
  te_tag_ty :: vindex
  te_fields :: "enum_field list"
  te_namespace :: nat
  te_linear :: bool

record union_type_field =
  utf_name :: string
  utf_ty :: "vindex option"

record type_union =
  tu_name :: string
  tu_tag_ty :: "vindex option"
  tu_fields :: "union_type_field list"
  tu_namespace :: nat
  tu_linear :: bool

datatype calling_convention =
    CC_Vif | CC_C | CC_Fast | CC_Cold | CC_X86_64Windows | CC_X86_64SysV | CC_Aarch64Darwin | CC_Aarch64Win | CC_Count

record type_fn =
  tf_params :: "vindex list"
  tf_comptime_params :: "bool list"
  tf_var_args :: bool
  tf_ret_ty :: vindex
  tf_external :: bool
  tf_callconv :: calling_convention
  tf_inline :: inline

record fn_decl =
  fd_owner_decl :: nat
  fd_func_decl_inst :: global_vuir_instruction_id
  fd_ty :: vindex

datatype value_capture = VC_Comptime vindex | VC_Runtime global_vuir_instruction_id

record namespace_type =
  nt_inst :: global_vuir_instruction_id
  nt_captures :: "value_capture list"

datatype (plugins only: code) vtype =
    VT_Int bool u16 | VT_Anyint | VT_Anyfloat | VT_Usize | VT_Isize | VT_F16 | VT_F32 | VT_F64 | VT_F128 | VT_Bool | VT_Void
  | VT_Struct namespace_type | VT_Enum namespace_type | VT_Union namespace_type | VT_Fn type_fn | VT_Ptr type_ptr
  | VT_Slice vindex | VT_Array vindex nat | VT_NullPtr | VT_Anyptr | VT_Type | VT_Never | VT_EnumLiteral | VT_GenericPoison

section \<open>Keys and values\<close>

datatype (plugins only: code) vkey =
    VK_Undefined vindex
  | VK_Str vindex "byte list"
  | VK_Slice vindex vindex vindex
  | VK_Int vindex anyint
  | VK_Float vindex f128
  | VK_Bool bool
  | VK_Ptr vindex ptr_kind
  | VK_Fn vindex vindex "vindex option list"
  | VK_EnumTag vindex vindex
  | VK_Aggregate vindex "vindex list"
  | VK_NullPtr | VK_Void | VK_Unreachable
  | VK_Union vindex "vindex option" "vindex option"
  | VK_Type vtype
  | VK_DeclRef nat
  | VK_FnDecl fn_decl
  | VK_EnumLiteral string

datatype (plugins only: code) vvalue = VV_None nat | VV_Fn nat | VV_Struct type_struct | VV_Enum type_enum | VV_Union type_union

definition is_type :: "vkey \<Rightarrow> bool" where
  "is_type k = (case k of VK_Type _ \<Rightarrow> True | _ \<Rightarrow> False)"

definition type_is_numeric :: "vkey \<Rightarrow> bool" where
  "type_is_numeric k =
     (case k of
        VK_Type t \<Rightarrow>
          (case t of
             VT_Int _ _ \<Rightarrow> True | VT_Anyint \<Rightarrow> True | VT_Anyfloat \<Rightarrow> True | VT_F16 \<Rightarrow> True | VT_F32 \<Rightarrow> True | VT_F64 \<Rightarrow> True
           | VT_F128 \<Rightarrow> True | VT_Isize \<Rightarrow> True | VT_Usize \<Rightarrow> True | _ \<Rightarrow> False)
      | _ \<Rightarrow> False)"

text \<open>The conversions of a key and of a value that panic on any other variant.\<close>

definition as_type_fn :: "vkey \<Rightarrow> type_fn outcome" where
  "as_type_fn k = (case k of VK_Type (VT_Fn f) \<Rightarrow> Returns f | _ \<Rightarrow> Panics)"

definition as_type_ptr :: "vkey \<Rightarrow> type_ptr outcome" where
  "as_type_ptr k = (case k of VK_Type (VT_Ptr p) \<Rightarrow> Returns p | _ \<Rightarrow> Panics)"

definition as_struct :: "vvalue \<Rightarrow> type_struct outcome" where
  "as_struct v = (case v of VV_Struct s \<Rightarrow> Returns s | _ \<Rightarrow> Panics)"

definition as_enum :: "vvalue \<Rightarrow> type_enum outcome" where
  "as_enum v = (case v of VV_Enum e \<Rightarrow> Returns e | _ \<Rightarrow> Panics)"

definition as_union :: "vvalue \<Rightarrow> type_union outcome" where
  "as_union v = (case v of VV_Union u \<Rightarrow> Returns u | _ \<Rightarrow> Panics)"

definition struct_field_idx_by_name :: "type_struct \<Rightarrow> string \<Rightarrow> nat option" where
  "struct_field_idx_by_name s name = find_index (\<lambda>f. sf_name f = name) (ts_fields s)"

definition enum_field_idx_by_name :: "type_enum \<Rightarrow> string \<Rightarrow> nat option" where
  "enum_field_idx_by_name e name = find_index (\<lambda>f. ef_name f = name) (te_fields e)"

definition union_field_idx_by_name :: "type_union \<Rightarrow> string \<Rightarrow> nat option" where
  "union_field_idx_by_name u name = map_option (\<lambda>i. i mod 2 ^ 32) (find_index (\<lambda>f. utf_name f = name) (tu_fields u))"

definition get_packed_field_info :: "type_struct \<Rightarrow> nat \<Rightarrow> packed_struct_field_info option" where
  "get_packed_field_info s field_index =
     (case ts_layout s of
        SL_Packed _ _ packed_fields \<Rightarrow> if field_index < length packed_fields then Some (packed_fields ! field_index) else None
      | SL_Standard \<Rightarrow> None)"

definition is_packed :: "type_struct \<Rightarrow> bool" where
  "is_packed s = (case ts_layout s of SL_Packed _ _ _ \<Rightarrow> True | SL_Standard \<Rightarrow> False)"

section \<open>The store\<close>

record common_values =
  cv_nullptr :: vindex
  cv_anyint_t :: vindex
  cv_anyfloat_t :: vindex
  cv_void_t :: vindex
  cv_void_value :: vindex
  cv_anyptr_t :: vindex
  cv_type_t :: vindex
  cv_never_t :: vindex
  cv_usize_t :: vindex
  cv_isize_t :: vindex
  cv_u16_t :: vindex
  cv_u64_t :: vindex
  cv_i64_t :: vindex
  cv_u32_t :: vindex
  cv_i32_t :: vindex
  cv_f16_t :: vindex
  cv_f32_t :: vindex
  cv_f64_t :: vindex
  cv_f128_t :: vindex
  cv_bool_t :: vindex
  cv_enum_literal_t :: vindex
  cv_generic_poison_t :: vindex
  cv_nullptr_t :: vindex
  cv_unreachable_value :: vindex
  cv_true_value :: vindex
  cv_false_value :: vindex

type_synonym 'h value_map = "(vkey, vvalue, 'h) sharded_index_map"
type_synonym 'h value_env = "(vkey, 'h) sharded_env"

record 'h value_store =
  vs_value_map :: "'h value_map"
  vs_common :: common_values

text \<open>\<^verbatim>\<open>ValueStore::new\<close> interns the common keys in this order.\<close>

definition common_keys :: "vkey list" where
  "common_keys =
     [VK_NullPtr, VK_Type VT_Anyint, VK_Type VT_Anyfloat, VK_Type VT_Void, VK_Void, VK_Type VT_Anyptr, VK_Type VT_Type, VK_Type VT_Never,
      VK_Type VT_Usize, VK_Type VT_Isize, VK_Type (VT_Int False 16), VK_Type (VT_Int False 64), VK_Type (VT_Int True 64),
      VK_Type (VT_Int False 32), VK_Type (VT_Int True 32), VK_Type VT_F16, VK_Type VT_F32, VK_Type VT_F64, VK_Type VT_F128, VK_Type VT_Bool,
      VK_Type VT_EnumLiteral, VK_Type VT_GenericPoison, VK_Type VT_NullPtr, VK_Unreachable, VK_Bool True, VK_Bool False]"

fun intern_keys :: "'h value_env \<Rightarrow> 'h value_map \<Rightarrow> vkey list \<Rightarrow> ('h value_map \<times> vindex list) outcome" where
  "intern_keys E m [] = Returns (m, [])"
| "intern_keys E m (k # ks) =
     bind_outcome (sm_or_insert E m k (VV_None 0)) (\<lambda>(m, i).
     bind_outcome (intern_keys E m ks) (\<lambda>(m, is). Returns (m, i # is)))"

definition common_from :: "vindex list \<Rightarrow> common_values" where
  "common_from is =
     \<lparr>cv_nullptr = is ! 0, cv_anyint_t = is ! 1, cv_anyfloat_t = is ! 2, cv_void_t = is ! 3, cv_void_value = is ! 4, cv_anyptr_t = is ! 5,
      cv_type_t = is ! 6, cv_never_t = is ! 7, cv_usize_t = is ! 8, cv_isize_t = is ! 9, cv_u16_t = is ! 10, cv_u64_t = is ! 11,
      cv_i64_t = is ! 12, cv_u32_t = is ! 13, cv_i32_t = is ! 14, cv_f16_t = is ! 15, cv_f32_t = is ! 16, cv_f64_t = is ! 17,
      cv_f128_t = is ! 18, cv_bool_t = is ! 19, cv_enum_literal_t = is ! 20, cv_generic_poison_t = is ! 21, cv_nullptr_t = is ! 22,
      cv_unreachable_value = is ! 23, cv_true_value = is ! 24, cv_false_value = is ! 25\<rparr>"

definition value_store_new :: "'h value_env \<Rightarrow> nat list \<Rightarrow> 'h value_store outcome" where
  "value_store_new E bases =
     bind_outcome (sm_new E bases 8192) (\<lambda>m.
     bind_outcome (intern_keys E m common_keys) (\<lambda>(m, is). Returns \<lparr>vs_value_map = m, vs_common = common_from is\<rparr>))"

definition index_to_key :: "'h value_store \<Rightarrow> vindex \<Rightarrow> vkey outcome" where
  "index_to_key S index = sm_key (vs_value_map S) index"

definition index_to_key_value :: "'h value_store \<Rightarrow> vindex \<Rightarrow> (vkey \<times> vvalue) outcome" where
  "index_to_key_value S index = sm_kv (vs_value_map S) index"

definition index_to_value :: "'h value_store \<Rightarrow> vindex \<Rightarrow> vvalue outcome" where
  "index_to_value S index = bind_outcome (sm_kv (vs_value_map S) index) (\<lambda>(_, v). Returns v)"

definition is_trivial :: "vkey \<Rightarrow> bool" where
  "is_trivial k =
     (case k of VK_Type (VT_Struct _) \<Rightarrow> False | VK_Type (VT_Union _) \<Rightarrow> False | VK_Fn _ _ _ \<Rightarrow> False | _ \<Rightarrow> True)"

definition intern_trivial :: "'h value_env \<Rightarrow> 'h value_store \<Rightarrow> vkey \<Rightarrow> ('h value_store \<times> vindex) outcome" where
  "intern_trivial E S key =
     (if is_trivial key
      then bind_outcome (sm_or_insert E (vs_value_map S) key (VV_None 0)) (\<lambda>(m, i). Returns (S\<lparr>vs_value_map := m\<rparr>, i))
      else Panics)"

definition intern_non_trivial :: "'h value_env \<Rightarrow> 'h value_store \<Rightarrow> vkey \<Rightarrow> vvalue \<Rightarrow> ('h value_store \<times> vindex) outcome" where
  "intern_non_trivial E S key value =
     bind_outcome (sm_entry E (vs_value_map S) key) (\<lambda>e.
       case e of
         Sm_Occupied i \<Rightarrow> bind_outcome (sm_occupied_insert (vs_value_map S) i value) (\<lambda>(m, i, _). Returns (S\<lparr>vs_value_map := m\<rparr>, i))
       | Sm_Vacant shard hash k \<Rightarrow>
           bind_outcome (sm_insert_by_ref E (vs_value_map S) shard hash k value) (\<lambda>(m, i). Returns (S\<lparr>vs_value_map := m\<rparr>, i)))"

text \<open>The type of a value.\<close>

definition type_of_key :: "common_values \<Rightarrow> vkey \<Rightarrow> vindex outcome" where
  "type_of_key c key =
     (case key of
        VK_Type _ \<Rightarrow> Returns (cv_type_t c)
      | VK_Ptr ty _ \<Rightarrow> Returns ty
      | VK_Fn ty _ _ \<Rightarrow> Returns ty
      | VK_Int ty _ \<Rightarrow> Returns ty
      | VK_Float ty _ \<Rightarrow> Returns ty
      | VK_Str ty _ \<Rightarrow> Returns ty
      | VK_Slice ty _ _ \<Rightarrow> Returns ty
      | VK_Bool _ \<Rightarrow> Returns (cv_bool_t c)
      | VK_FnDecl decl \<Rightarrow> Returns (fd_ty decl)
      | VK_EnumTag ty _ \<Rightarrow> Returns ty
      | VK_Undefined ty \<Rightarrow> Returns ty
      | VK_Aggregate ty _ \<Rightarrow> Returns ty
      | VK_Void \<Rightarrow> Returns (cv_void_t c)
      | VK_Unreachable \<Rightarrow> Returns (cv_never_t c)
      | VK_Union ty _ _ \<Rightarrow> Returns ty
      | VK_EnumLiteral _ \<Rightarrow> Returns (cv_enum_literal_t c)
      | VK_NullPtr \<Rightarrow> Returns (cv_nullptr_t c)
      | VK_DeclRef _ \<Rightarrow> Panics)"

definition type_of_interned :: "'h value_store \<Rightarrow> vindex \<Rightarrow> vindex outcome" where
  "type_of_interned S i = bind_outcome (index_to_key S i) (type_of_key (vs_common S))"

definition intern_value_ptr :: "'h value_env \<Rightarrow> 'h value_store \<Rightarrow> vindex \<Rightarrow> ('h value_store \<times> vindex) outcome" where
  "intern_value_ptr E S value =
     bind_outcome (type_of_interned S value) (\<lambda>pointee.
     bind_outcome (intern_trivial E S (VK_Type (VT_Ptr \<lparr>tp_pointee_ty = pointee, tp_packed = None, tp_is_const = False\<rparr>))) (\<lambda>(S, ty).
       intern_trivial E S (VK_Ptr ty (PK_Value value))))"

definition intern_enum_tag_from_field_idx :: "'h value_env \<Rightarrow> 'h value_store \<Rightarrow> vindex \<Rightarrow> nat \<Rightarrow> ('h value_store \<times> vindex) outcome" where
  "intern_enum_tag_from_field_idx E S enum_ty i =
     bind_outcome (index_to_value S enum_ty) (\<lambda>v.
     bind_outcome (as_enum v) (\<lambda>e.
     bind_outcome (iv_index (te_fields e) i) (\<lambda>f. intern_trivial E S (VK_EnumTag (te_tag_ty e) (ef_value f)))))"

end
