(* ===== verification/Vif_Value_Store.thy ===== *)
theory Vif_Value_Store
  imports Vif_Value Vif_Sharded_Map_Props
begin

text \<open>
  What the rest of the compiler relies on of the value store: interning gives a key one index for ever and keeps what is already there,
  and the common indices are those of their keys.
\<close>

section \<open>Well-formed stores\<close>

definition common_list :: "common_values \<Rightarrow> vindex list" where
  "common_list c =
     [cv_nullptr c, cv_anyint_t c, cv_anyfloat_t c, cv_void_t c, cv_void_value c, cv_anyptr_t c, cv_type_t c, cv_never_t c, cv_usize_t c,
      cv_isize_t c, cv_u16_t c, cv_u64_t c, cv_i64_t c, cv_u32_t c, cv_i32_t c, cv_f16_t c, cv_f32_t c, cv_f64_t c, cv_f128_t c, cv_bool_t c,
      cv_enum_literal_t c, cv_generic_poison_t c, cv_nullptr_t c, cv_unreachable_value c, cv_true_value c, cv_false_value c]"

definition store_ok :: "'h value_env \<Rightarrow> 'h value_store \<Rightarrow> bool" where
  "store_ok E S \<longleftrightarrow> sm_inv E (vs_value_map S) \<and> list_all2 (\<lambda>i k. index_to_key S i = Returns k) (common_list (vs_common S)) common_keys"

text \<open>A store that has grown: every entry is still there.\<close>

definition grows :: "'h value_store \<Rightarrow> 'h value_store \<Rightarrow> bool" where
  "grows S S' \<longleftrightarrow> vs_common S' = vs_common S \<and> (\<forall>i x. index_to_key_value S i = Returns x \<longrightarrow> index_to_key_value S' i = Returns x)"

lemma grows_refl [simp]: "grows S S"
  by (simp add: grows_def)

lemma grows_trans: "grows S S' \<Longrightarrow> grows S' S'' \<Longrightarrow> grows S S''"
  by (simp add: grows_def)

lemma index_to_key_Returns: "index_to_key S i = Returns k \<longleftrightarrow> (\<exists>v. index_to_key_value S i = Returns (k, v))"
  by (auto simp: index_to_key_def index_to_key_value_def sm_key_def bind_outcome_Returns_iff)

lemma grows_key: "grows S S' \<Longrightarrow> index_to_key S i = Returns k \<Longrightarrow> index_to_key S' i = Returns k"
  by (auto simp: grows_def index_to_key_Returns)

lemma index_to_key_sm_keys: "index_to_key S i = Returns k \<longleftrightarrow> sm_keys (vs_value_map S) i = Some k"
  by (auto simp: index_to_key_Returns index_to_key_value_def sm_keys_Some)

lemma key_index_unique: "store_ok E S \<Longrightarrow> index_to_key S i = Returns k \<Longrightarrow> index_to_key S j = Returns k \<Longrightarrow> i = j"
  using sm_keys_unique by (auto simp: store_ok_def index_to_key_sm_keys)

section \<open>Interning\<close>

text \<open>\<^verbatim>\<open>or_insert_with\<close> on the map of the store.\<close>

lemma or_insert_store:
  assumes "sm_inv E m" and "sm_or_insert E m k v = Returns (m', i)"
  shows "sm_inv E m'" and "sm_keys m' i = Some k" and "sm_kv m j = Returns x \<Longrightarrow> sm_kv m' j = Returns x"
proof -
  show inv: "sm_inv E m'" by (rule sm.or_insert_ok(1) [OF assms])
  show "sm_keys m' i = Some k" using sm.or_insert_ok(2) [OF assms] sm_find_iff [OF inv] by simp
  assume j: "sm_kv m j = Returns x"
  show "sm_kv m' j = Returns x"
  proof (cases "\<exists>i. sm_keys m i = Some k")
    case True
    then show ?thesis using sm.or_insert_old [OF assms(1)] sm_find_iff [OF assms(1)] assms(2) j by auto
  next
    case False
    then have new: "sm_keys m i \<noteq> Some k" for i by blast
    have "sm_insert_by_ref E m (shard_of E (length (sm_shards m)) k) (se_hash_one E k) k v = Returns (m', i)"
      using assms(2) sm_insert_missing(2) [OF assms(1) new] by simp
    then have "sm_keys m i = None" "sm_kv m' = (sm_kv m)(i := Returns (k, v))" using sm_insert_by_ref_ok [OF assms(1) refl new] by auto
    then show ?thesis using j by (cases x) (auto simp: sm_keys_def)
  qed
qed

lemma intern_trivial_ok:
  assumes "store_ok E S" and "intern_trivial E S k = Returns (S', i)"
  shows "store_ok E S'" and "index_to_key S' i = Returns k" and "grows S S'"
proof -
  obtain m where m: "sm_or_insert E (vs_value_map S) k (VV_None 0) = Returns (m, i)" "S' = S\<lparr>vs_value_map := m\<rparr>"
    using assms(2) by (auto simp: intern_trivial_def bind_outcome_Returns_iff split: if_splits)
  have inv: "sm_inv E (vs_value_map S)" using assms(1) by (simp add: store_ok_def)
  note ok = or_insert_store [OF inv m(1)]
  show g: "grows S S'" using ok(3) m(2) by (auto simp: grows_def index_to_key_value_def)
  show "index_to_key S' i = Returns k" using ok(2) m(2) by (simp add: index_to_key_sm_keys)
  have "list_all2 (\<lambda>i k. index_to_key S' i = Returns k) (common_list (vs_common S)) common_keys"
    using assms(1) grows_key [OF g] unfolding store_ok_def by (auto elim: list_all2_mono)
  then show "store_ok E S'" using ok(1) m(2) by (simp add: store_ok_def)
qed

text \<open>Interning a key that is there changes nothing.\<close>

lemma intern_trivial_there:
  assumes "store_ok E S" and "index_to_key S i = Returns k" and "is_trivial k"
  shows "intern_trivial E S k = Returns (S, i)"
proof -
  have inv: "sm_inv E (vs_value_map S)" using assms(1) by (simp add: store_ok_def)
  have "sm_find E (vs_value_map S) k = Returns (Some i)" using sm_find_iff [OF inv] assms(2) by (simp add: index_to_key_sm_keys)
  then show ?thesis using sm.or_insert_old [OF inv] assms(3) by (simp add: intern_trivial_def)
qed

lemma intern_keys_ok:
  assumes "sm_inv E m" and "intern_keys E m ks = Returns (m', is)"
  shows "sm_inv E m' \<and> list_all2 (\<lambda>i k. sm_keys m' i = Some k) is ks \<and> (\<forall>i x. sm_kv m i = Returns x \<longrightarrow> sm_kv m' i = Returns x)"
  using assms
proof (induction ks arbitrary: m "is")
  case (Cons k ks)
  obtain m1 i "is'" where m1: "sm_or_insert E m k (VV_None 0) = Returns (m1, i)" "intern_keys E m1 ks = Returns (m', is')" "is = i # is'"
    using Cons.prems(2) by (auto simp: bind_outcome_Returns_iff)
  note ok = or_insert_store [OF Cons.prems(1) m1(1)]
  note IH = Cons.IH [OF ok(1) m1(2)]
  have "sm_keys m' i = Some k" using ok(2) IH by (auto simp: sm_keys_Some)
  then show ?case using IH ok(3) m1(3) by auto
qed simp

lemma value_store_new_ok:
  assumes "hash_table_ok (se_table E)" and "length bases \<le> 64" and "value_store_new E bases = Returns S"
  shows "store_ok E S"
proof -
  obtain m0 m "is" where m: "sm_new E bases 8192 = Returns m0" "intern_keys E m0 common_keys = Returns (m, is)"
      and S: "S = \<lparr>vs_value_map = m, vs_common = common_from is\<rparr>"
    using assms(3) by (auto simp: value_store_new_def bind_outcome_Returns_iff)
  note ok = intern_keys_ok [OF sm_inv_new(1) [OF assms(1,2) m(1)] m(2)]
  have "length is = 26" using ok by (auto simp: common_keys_def dest: list_all2_lengthD)
  then have "common_list (common_from is) = is"
    by (auto simp: common_list_def common_from_def nth_Cons' list_eq_iff_nth_eq less_Suc_eq numeral_eq_Suc)
  then show ?thesis using ok S by (simp add: store_ok_def index_to_key_sm_keys list_all2_mono)
qed

lemma intern_non_trivial_insert:
  "intern_non_trivial E S k v = bind_outcome (sm_insert E (vs_value_map S) k v) (\<lambda>(m, i, _). Returns (S\<lparr>vs_value_map := m\<rparr>, i))"
proof (cases "sm_entry E (vs_value_map S) k")
  case (Returns e)
  then show ?thesis
  proof (cases e)
    case (Sm_Occupied i)
    then show ?thesis using Returns
      by (cases "sm_swap (vs_value_map S) i v") (auto simp: intern_non_trivial_def sm_insert_def sm_insert_entry_def sm_occupied_insert_def)
  next
    case (Sm_Vacant s h k')
    then show ?thesis using Returns
      by (cases "sm_insert_by_ref E (vs_value_map S) s h k' v") (auto simp: intern_non_trivial_def sm_insert_def sm_insert_entry_def)
  qed
qed (simp add: intern_non_trivial_def sm_insert_def)

text \<open>A store that keeps its keys; the value part of a key may be replaced.\<close>

definition keeps_keys :: "'h value_store \<Rightarrow> 'h value_store \<Rightarrow> bool" where
  "keeps_keys S S' \<longleftrightarrow> vs_common S' = vs_common S \<and> (\<forall>i k. index_to_key S i = Returns k \<longrightarrow> index_to_key S' i = Returns k)"

lemma keeps_keys_ok:
  assumes "keeps_keys S S'" and "store_ok E S" and "sm_inv E (vs_value_map S')"
  shows "store_ok E S'"
proof -
  have "list_all2 (\<lambda>i k. index_to_key S' i = Returns k) (common_list (vs_common S)) common_keys"
    using assms(1,2) unfolding store_ok_def keeps_keys_def by (auto elim: list_all2_mono)
  then show ?thesis using assms(1,3) by (simp add: store_ok_def keeps_keys_def)
qed

lemma intern_non_trivial_ok:
  assumes "store_ok E S" and "intern_non_trivial E S k v = Returns (S', i)"
  shows "store_ok E S'" and "keeps_keys S S'" and "index_to_key_value S' i = Returns (k, v)"
    and "k' \<noteq> k \<Longrightarrow> index_to_key_value S j = Returns (k', w) \<Longrightarrow> index_to_key_value S' j = Returns (k', w)"
proof -
  obtain m p where m: "sm_insert E (vs_value_map S) k v = Returns (m, i, p)" "S' = S\<lparr>vs_value_map := m\<rparr>"
    using assms(2) by (auto simp: intern_non_trivial_insert bind_outcome_Returns_iff)
  have inv: "sm_inv E (vs_value_map S)" using assms(1) by (simp add: store_ok_def)
  show kk: "keeps_keys S S'"
    by (rule sm_insert_cases [OF inv m(1)])
      (use sm_insert_keys [OF inv m(1)] sm_keys_unique [OF inv] m(2) in \<open>auto simp: keeps_keys_def index_to_key_sm_keys\<close>)
  show "store_ok E S'" by (rule keeps_keys_ok [OF kk assms(1)]) (use m sm.ins_inv [OF inv m(1)] in simp)
  show "index_to_key_value S' i = Returns (k, v)" using sm.ins_kv [OF inv m(1)] m(2) by (simp add: index_to_key_value_def)
  show "index_to_key_value S' j = Returns (k', w)" if "k' \<noteq> k" "index_to_key_value S j = Returns (k', w)"
    using sm.ins_kv_other [OF inv m(1)] that m(2) by (simp add: index_to_key_value_def)
qed

section \<open>Room for more\<close>

text \<open>With an operating system that grants all memory, a store takes 8192 keys in each shard.\<close>

definition grants_memory :: "'h value_env \<Rightarrow> bool" where
  "grants_memory E \<longleftrightarrow> (\<forall>x l. se_mprotect E x l) \<and> 0 < se_slot_size E \<and> 8192 * se_slot_size E < 2 ^ 64"

definition roomy :: "'h value_env \<Rightarrow> nat \<Rightarrow> 'h value_map \<Rightarrow> bool" where
  "roomy E n m \<longleftrightarrow> (\<forall>sh \<in> set (sm_shards m). \<exists>base vs. pushed (se_slot_size E) base 8192 vs (sh_slots sh) \<and> length vs \<le> n)"

lemma roomy_mono: "roomy E n m \<Longrightarrow> n \<le> n' \<Longrightarrow> roomy E n' m"
  unfolding roomy_def by (meson le_trans)

lemma granularity_le: "0 < e \<Longrightarrow> commit_granularity_in_elements e \<le> 65536"
proof -
  assume e: "0 < e"
  then obtain n where n: "e = Suc n" by (cases e) auto
  have "65536 + e - 1 < 65537 * e" using n by simp
  then have "(65536 + e - 1) div e < 65537" by (rule less_mult_imp_div_less)
  then show ?thesis by (simp add: commit_granularity_in_elements_def COMMIT_GRANULARITY_IN_BYTES_def)
qed

lemma or_insert_roomy:
  assumes "sm_inv E m" and "grants_memory E" and "roomy E n m" and "n < 8192"
  shows "\<exists>m' i. sm_or_insert E m k v = Returns (m', i) \<and> roomy E (Suc n) m'"
proof (cases "\<exists>i. sm_keys m i = Some k")
  case True
  then show ?thesis using sm.or_insert_old [OF assms(1)] sm_find_iff [OF assms(1)] roomy_mono [OF assms(3), of "Suc n"] by auto
next
  case False
  then have new: "sm_keys m i \<noteq> Some k" for i by blast
  let ?s = "shard_of E (length (sm_shards m)) k" and ?e = "se_slot_size E"
  have s: "?s < length (sm_shards m)" by (rule sm_find_table(1) [OF assms(1) refl])
  then obtain base vs where p: "pushed ?e base 8192 vs (sh_slots (sm_shards m ! ?s))" "length vs \<le> n"
    using assms(3) nth_mem [OF s] unfolding roomy_def by blast
  have e: "0 < ?e" "\<And>x l. se_mprotect E x l" using assms(2) by (simp_all add: grants_memory_def)
  have "8192 + commit_granularity_in_elements ?e < 2 ^ 64" using granularity_le [OF e(1)] by simp
  from pushed_step [OF e(1) p(1) _ this refl refl, of "se_mprotect E" "(k, v)"] obtain a where
    a: "arena_push (se_mprotect E) ?e (sh_slots (sm_shards m ! ?s)) (k, v) = Returns (length vs, a)" "pushed ?e base 8192 (vs @ [(k, v)]) a"
    using p(2) assms(4) e(2) by auto
  have l: "shard_local_index_from (length vs) = Returns (word_of_nat (length vs))" "unat (word_of_nat (length vs) :: 32 word) = length vs"
    using p(2) assms(4) by (simp_all add: shard_local_index_from_def unat_of_nat take_bit_nat_eq_self)
  have i: "index_new ?s (word_of_nat (length vs)) = Returns (index_bits ?s (word_of_nat (length vs)))"
    by (rule index_new_ok [OF sm_invD(2) [OF assms(1) s]]) (use l p(2) assms(4) in simp)
  have "roomy E (Suc n) (m\<lparr>sm_shards := (sm_shards m)[?s := sh]\<rparr>)" if "sh_slots sh = a" for sh
  proof -
    have "\<exists>base vs. pushed ?e base 8192 vs (sh_slots sh) \<and> length vs \<le> Suc n" using a(2) p(2) that by (intro exI [of _ base] exI [of _ "vs @ [(k, v)]"]) simp
    then show ?thesis using roomy_mono [OF assms(3), of "Suc n"] set_update_subset_insert [of "sm_shards m" ?s sh] by (auto simp: roomy_def)
  qed
  then show ?thesis unfolding sm_insert_missing(2) [OF assms(1) new] sm_insert_by_ref_def using s a(1) l(1) i by (simp add: sm_shard_def Let_def)
qed

lemma intern_keys_roomy:
  assumes "sm_inv E m" and "grants_memory E" and "roomy E n m" and "n + length ks \<le> 8192"
  shows "\<exists>m' is. intern_keys E m ks = Returns (m', is) \<and> roomy E (n + length ks) m'"
  using assms(1,3,4)
proof (induction ks arbitrary: m n)
  case (Cons k ks)
  obtain m1 i where m1: "sm_or_insert E m k (VV_None 0) = Returns (m1, i)" "roomy E (Suc n) m1"
    using or_insert_roomy [OF Cons.prems(1) assms(2) Cons.prems(2), of k "VV_None 0"] Cons.prems(3) by auto
  obtain m' "is" where "intern_keys E m1 ks = Returns (m', is)" "roomy E (Suc n + length ks) m'"
    using Cons.IH [OF or_insert_store(1) [OF Cons.prems(1) m1(1)] m1(2)] Cons.prems(3) by auto
  then show ?case using m1(1) by simp
qed simp

lemma new_shards_returns: "capacity * se_slot_size E < 2 ^ 64 \<Longrightarrow> 0 < capacity * se_slot_size E \<Longrightarrow> \<exists>shards. new_shards E capacity bases = Returns shards"
  by (induction bases) (auto simp: arena_with_capacity_def)

lemma sm_new_roomy:
  assumes "grants_memory E" and "is_power_of_two (length bases)"
  shows "\<exists>m. sm_new E bases 8192 = Returns m \<and> roomy E 0 m"
proof -
  obtain shards where sh: "new_shards E 8192 bases = Returns (shards :: (vkey, vvalue, 'a) shard list)"
    using new_shards_returns [of 8192 E bases] assms(1) by (auto simp: grants_memory_def)
  obtain e where e: "se_slot_size E = Suc e" using assms(1) by (cases "se_slot_size E") (auto simp: grants_memory_def)
  have "pushed (se_slot_size E) base 8192 [] (arena_new base 8192 :: (vkey \<times> vvalue) arena)" for base
    by (simp add: pushed_def arena_new_def accessible_upto_def committed_after_0 [OF granularity_pos] e)
  then show ?thesis using sh new_shards_ok [OF sh] assms(2) unfolding sm_new_def roomy_def by fastforce
qed

lemma value_store_new_returns:
  assumes "hash_table_ok (se_table E)" and "grants_memory E" and "is_power_of_two (length bases)" and "length bases \<le> 64"
  shows "\<exists>S. value_store_new E bases = Returns S \<and> store_ok E S \<and> roomy E 26 (vs_value_map S)"
proof -
  obtain m0 where m0: "sm_new E bases 8192 = Returns m0" "roomy E 0 m0" using sm_new_roomy [OF assms(2,3)] by blast
  have 26: "length common_keys = 26" by (simp add: common_keys_def)
  obtain m "is" where m: "intern_keys E m0 common_keys = Returns (m, is)" "roomy E 26 m"
    using intern_keys_roomy [OF sm_inv_new(1) [OF assms(1,4) m0(1)] assms(2) m0(2), of common_keys] unfolding 26 by auto
  then have "value_store_new E bases = Returns \<lparr>vs_value_map = m, vs_common = common_from is\<rparr>" using m0(1) by (simp add: value_store_new_def)
  then show ?thesis using value_store_new_ok [OF assms(1,4)] m(2) by auto
qed

section \<open>Properties\<close>

text \<open>A sequence of calls of \<^verbatim>\<open>intern_trivial\<close>, for a key alone, and of \<^verbatim>\<open>intern_non_trivial\<close>.\<close>

fun intern_all :: "'h value_env \<Rightarrow> 'h value_store \<Rightarrow> (vkey \<times> vvalue option) list \<Rightarrow> ('h value_store \<times> vindex list) outcome" where
  "intern_all E S [] = Returns (S, [])"
| "intern_all E S ((k, v) # kvs) =
     bind_outcome (case v of None \<Rightarrow> intern_trivial E S k | Some v \<Rightarrow> intern_non_trivial E S k v) (\<lambda>(S, i).
     bind_outcome (intern_all E S kvs) (\<lambda>(S, is). Returns (S, i # is)))"

lemma keeps_keys_trans: "keeps_keys S S' \<Longrightarrow> keeps_keys S' S'' \<Longrightarrow> keeps_keys S S''"
  by (simp add: keeps_keys_def)

lemma grows_keeps_keys: "grows S S' \<Longrightarrow> keeps_keys S S'"
  using grows_key by (auto simp: keeps_keys_def grows_def)

lemma intern_all_ok:
  assumes "store_ok E S" and "intern_all E S kvs = Returns (S', is)"
  shows "store_ok E S' \<and> keeps_keys S S' \<and> list_all2 (\<lambda>i (k, _). index_to_key S' i = Returns k) is kvs"
  using assms
proof (induction kvs arbitrary: S "is")
  case (Cons x kvs)
  obtain k v where x: "x = (k, v)" by fastforce
  obtain S1 i "is'" where S1: "(case v of None \<Rightarrow> intern_trivial E S k | Some v \<Rightarrow> intern_non_trivial E S k v) = Returns (S1, i)"
      and rest: "intern_all E S1 kvs = Returns (S', is')" "is = i # is'"
    using Cons.prems(2) by (auto simp: x bind_outcome_Returns_iff)
  have "store_ok E S1 \<and> keeps_keys S S1 \<and> index_to_key S1 i = Returns k"
  proof (cases v)
    case None
    then show ?thesis using intern_trivial_ok [OF Cons.prems(1)] S1 grows_keeps_keys by fastforce
  next
    case (Some w)
    then have "intern_non_trivial E S k w = Returns (S1, i)" using S1 by simp
    from intern_non_trivial_ok(1-3) [OF Cons.prems(1) this] show ?thesis by (auto simp: index_to_key_Returns)
  qed
  note S1ok = this
  note IH = Cons.IH [OF conjunct1 [OF S1ok] rest(1)]
  then show ?case using S1ok rest(2) x keeps_keys_trans [of S S1 S'] by (auto simp: keeps_keys_def)
qed (simp add: keeps_keys_def)


definition small_value_env :: "(64 word \<times> 32 word) list value_env" where
  "small_value_env = \<lparr>se_table = list_table, se_hash_one = (\<lambda>_. 0), se_mprotect = (\<lambda>_ _. True), se_slot_size = 64\<rparr>"


end
