(* ===== verification/Vif_Layout.thy ===== *)
theory Vif_Layout
  imports Vif_Value
begin

text \<open>
  Questions about types that \<^verbatim>\<open>src/value.rs\<close> answers by walking the store: size and alignment, whether a type exists at compile time only, whether
  it is linear; and the classification of arguments in \<^verbatim>\<open>src/codegen/abi\<close>.

  The walks follow the indices in keys and fields and need not end. They take a depth; \<open>None\<close> is a walk that needs more. Sums, products and
  roundings are on \<^verbatim>\<open>u64\<close> and panic on overflow.
\<close>

section \<open>Walks\<close>

type_synonym 'a deep = "'a outcome option"

definition d_bind :: "'a deep \<Rightarrow> ('a \<Rightarrow> 'b deep) \<Rightarrow> 'b deep" where
  "d_bind m f = (case m of None \<Rightarrow> None | Some Panics \<Rightarrow> Some Panics | Some (Returns x) \<Rightarrow> f x)"

abbreviation d_ret :: "'a \<Rightarrow> 'a deep" where
  "d_ret x \<equiv> Some (Returns x)"

fun d_any :: "('a \<Rightarrow> bool deep) \<Rightarrow> 'a list \<Rightarrow> bool deep" where
  "d_any f [] = d_ret False"
| "d_any f (x # xs) = d_bind (f x) (\<lambda>b. if b then d_ret True else d_any f xs)"

section \<open>Arithmetic\<close>

definition u64_add :: "nat \<Rightarrow> nat \<Rightarrow> nat outcome" where
  "u64_add a b = (if a + b < 2 ^ 64 then Returns (a + b) else Panics)"

definition u64_mul :: "nat \<Rightarrow> nat \<Rightarrow> nat outcome" where
  "u64_mul a b = (if a * b < 2 ^ 64 then Returns (a * b) else Panics)"

definition next_multiple_of :: "nat \<Rightarrow> nat \<Rightarrow> nat outcome" where
  "next_multiple_of a b =
     (if b = 0 then Panics else if a mod b = 0 then Returns a else u64_add a (b - a mod b))"

fun next_power_loop :: "nat \<Rightarrow> nat \<Rightarrow> nat \<Rightarrow> nat" where
  "next_power_loop 0 p n = p"
| "next_power_loop (Suc fuel) p n = (if n \<le> p then p else next_power_loop fuel (2 * p) n)"

definition next_power_of_two :: "nat \<Rightarrow> nat" where
  "next_power_of_two n = next_power_loop 63 1 n"

definition div_ceil8 :: "nat \<Rightarrow> nat" where
  "div_ceil8 bits = (bits + 7) div 8"

section \<open>Compile-time only, linear, bit sizes\<close>

primrec type_is_comptime_only :: "nat \<Rightarrow> 'h value_store \<Rightarrow> vindex \<Rightarrow> bool deep" where
  "type_is_comptime_only 0 S ty = None"
| "type_is_comptime_only (Suc n) S ty =
     d_bind (Some (index_to_key_value S ty)) (\<lambda>(key, value).
       case key of
         VK_Type t \<Rightarrow>
           (case t of
              VT_Anyint \<Rightarrow> d_ret True | VT_Anyfloat \<Rightarrow> d_ret True | VT_Type \<Rightarrow> d_ret True | VT_EnumLiteral \<Rightarrow> d_ret True
            | VT_NullPtr \<Rightarrow> d_ret True | VT_GenericPoison \<Rightarrow> d_ret True
            | VT_Struct _ \<Rightarrow> d_bind (Some (as_struct value)) (\<lambda>s. d_any (\<lambda>f. type_is_comptime_only n S (sf_ty f)) (ts_fields s))
            | VT_Ptr p \<Rightarrow> type_is_comptime_only n S (tp_pointee_ty p)
            | VT_Slice pointee \<Rightarrow> type_is_comptime_only n S pointee
            | VT_Array elem _ \<Rightarrow> type_is_comptime_only n S elem
            | VT_Enum _ \<Rightarrow> d_bind (Some (as_enum value)) (\<lambda>e. type_is_comptime_only n S (te_tag_ty e))
            | VT_Union _ \<Rightarrow>
                d_bind (Some (as_union value)) (\<lambda>u.
                  d_any (\<lambda>f. case utf_ty f of Some t \<Rightarrow> type_is_comptime_only n S t | None \<Rightarrow> d_ret False) (tu_fields u))
            | _ \<Rightarrow> d_ret False)
       | _ \<Rightarrow> Some Panics)"

definition type_is_linear :: "'h value_store \<Rightarrow> vindex \<Rightarrow> bool outcome" where
  "type_is_linear S ty =
     bind_outcome (index_to_key_value S ty) (\<lambda>(key, value).
       case key of
         VK_Type t \<Rightarrow>
           (case t of
              VT_Struct _ \<Rightarrow> bind_outcome (as_struct value) (\<lambda>s. Returns (ts_linear s))
            | VT_Enum _ \<Rightarrow> bind_outcome (as_enum value) (\<lambda>e. Returns (te_linear e))
            | VT_Union _ \<Rightarrow> bind_outcome (as_union value) (\<lambda>u. Returns (tu_linear u))
            | _ \<Rightarrow> Returns False)
       | _ \<Rightarrow> Panics)"

definition type_bit_size :: "'h value_store \<Rightarrow> vindex \<Rightarrow> nat outcome" where
  "type_bit_size S ty =
     bind_outcome (index_to_key_value S ty) (\<lambda>(key, value).
       case key of
         VK_Type t \<Rightarrow>
           (case t of
              VT_Int _ bits \<Rightarrow> Returns (unat bits)
            | VT_Struct _ \<Rightarrow>
                (case value of VV_Struct s \<Rightarrow> (case ts_layout s of SL_Packed storage_bits _ _ \<Rightarrow> Returns storage_bits | SL_Standard \<Rightarrow> Panics) | _ \<Rightarrow> Panics)
            | VT_Bool \<Rightarrow> Returns 1
            | _ \<Rightarrow> Panics)
       | _ \<Rightarrow> Panics)"

definition type_is_int_signed :: "'h value_store \<Rightarrow> vindex \<Rightarrow> bool outcome" where
  "type_is_int_signed S ty =
     bind_outcome (index_to_key S ty) (\<lambda>key.
       case key of
         VK_Type t \<Rightarrow> (case t of VT_Int is_signed _ \<Rightarrow> Returns is_signed | VT_Usize \<Rightarrow> Returns False | VT_Isize \<Rightarrow> Returns True | _ \<Rightarrow> Panics)
       | _ \<Rightarrow> Panics)"

section \<open>Layout\<close>

datatype architecture = Arch_X86_64 | Arch_Aarch64 | Arch_Other
datatype operating_system = Os_Windows | Os_Linux | Os_Darwin | Os_Other

record target_info =
  tgt_architecture :: architecture
  tgt_operating_system :: operating_system
  tgt_ptr_width_in_bits :: nat

record layout =
  lay_size :: nat
  lay_align :: nat

definition layout_zeroed :: layout where
  "layout_zeroed = \<lparr>lay_size = 0, lay_align = 1\<rparr>"

record union_layout =
  ul_union_layout :: layout
  ul_tag :: layout
  ul_payload :: layout
  ul_most_aligned_field :: "nat \<times> layout"
  ul_trailing_padding :: nat

definition ptr_size :: "target_info \<Rightarrow> nat outcome" where
  "ptr_size target = (if tgt_ptr_width_in_bits target mod 8 = 0 then Returns (tgt_ptr_width_in_bits target div 8) else Panics)"

definition type_ptr_layout :: "target_info \<Rightarrow> layout outcome" where
  "type_ptr_layout target = bind_outcome (ptr_size target) (\<lambda>sz. Returns \<lparr>lay_size = sz, lay_align = sz\<rparr>)"

definition int_layout :: "u16 \<Rightarrow> layout" where
  "int_layout bits = (let sz = div_ceil8 (unat bits) in \<lparr>lay_size = sz, lay_align = next_power_of_two sz\<rparr>)"

definition array_layout :: "layout \<Rightarrow> nat \<Rightarrow> layout outcome" where
  "array_layout elem len =
     bind_outcome (next_multiple_of (lay_size elem) (lay_align elem)) (\<lambda>stride.
     bind_outcome (u64_mul stride len) (\<lambda>sz. Returns \<lparr>lay_size = sz, lay_align = lay_align elem\<rparr>))"

definition fat_ptr_layout :: "target_info \<Rightarrow> layout outcome" where
  "fat_ptr_layout target =
     bind_outcome (ptr_size target) (\<lambda>p. bind_outcome (u64_mul p 2) (\<lambda>sz. Returns \<lparr>lay_size = sz, lay_align = p\<rparr>))"

text \<open>The loop over the fields of a struct; \<open>f\<close> is the layout of a type.\<close>

fun struct_fields_layout :: "(vindex \<Rightarrow> layout deep) \<Rightarrow> struct_field list \<Rightarrow> nat \<Rightarrow> nat \<Rightarrow> (nat \<times> nat) deep" where
  "struct_fields_layout f [] sz align = d_ret (sz, align)"
| "struct_fields_layout f (field # rest) sz align =
     d_bind (f (sf_ty field)) (\<lambda>l.
     d_bind (Some (next_multiple_of sz (lay_align l))) (\<lambda>sz.
     d_bind (Some (u64_add sz (lay_size l))) (\<lambda>sz. struct_fields_layout f rest sz (max align (lay_align l)))))"

definition struct_type_layout :: "(vindex \<Rightarrow> layout deep) \<Rightarrow> type_struct \<Rightarrow> layout deep" where
  "struct_type_layout f s =
     (case ts_layout s of
        SL_Standard \<Rightarrow>
          d_bind (struct_fields_layout f (ts_fields s) 0 1) (\<lambda>(sz, align).
          d_bind (Some (next_multiple_of sz align)) (\<lambda>sz. d_ret \<lparr>lay_size = sz, lay_align = align\<rparr>))
      | SL_Packed storage_bits _ _ \<Rightarrow> d_ret \<lparr>lay_size = div_ceil8 storage_bits, lay_align = 1\<rparr>)"

text \<open>The loop over the fields of a union: size, alignment, position and layout of the payload so far.\<close>

fun union_fields_layout ::
  "(vindex \<Rightarrow> layout deep) \<Rightarrow> nat \<Rightarrow> union_type_field list \<Rightarrow> nat \<times> nat \<times> nat \<times> layout \<Rightarrow> (nat \<times> nat \<times> nat \<times> layout) deep" where
  "union_fields_layout f i [] acc = d_ret acc"
| "union_fields_layout f i (field # rest) (payload_size, payload_align, most, most_layout) =
     (case utf_ty field of
        None \<Rightarrow> union_fields_layout f (Suc i) rest (payload_size, payload_align, most, most_layout)
      | Some ty \<Rightarrow>
          d_bind (f ty) (\<lambda>l.
            if lay_size l = 0 then union_fields_layout f (Suc i) rest (payload_size, payload_align, most, most_layout)
            else if lay_align l \<ge> payload_align
            then union_fields_layout f (Suc i) rest (max payload_size (lay_size l), lay_align l, i, l)
            else union_fields_layout f (Suc i) rest (max payload_size (lay_size l), payload_align, most, most_layout)))"

definition union_content_end :: "layout \<Rightarrow> nat \<Rightarrow> nat \<Rightarrow> nat outcome" where
  "union_content_end tg payload_size payload_align =
     (if lay_size tg = 0 then Returns payload_size
      else if payload_size = 0 then Returns (lay_size tg)
      else if lay_align tg \<ge> payload_align
      then bind_outcome (next_multiple_of (lay_size tg) payload_align) (\<lambda>x. u64_add x payload_size)
      else bind_outcome (next_multiple_of payload_size (lay_align tg)) (\<lambda>x. u64_add x (lay_size tg)))"

definition union_type_layout :: "(vindex \<Rightarrow> layout deep) \<Rightarrow> type_union \<Rightarrow> union_layout deep" where
  "union_type_layout f u =
     d_bind (union_fields_layout f 0 (tu_fields u) (0, 1, 0, \<lparr>lay_size = 0, lay_align = 0\<rparr>)) (\<lambda>(payload_size, payload_align, most, most_layout).
     d_bind (case tu_tag_ty u of Some tag_ty \<Rightarrow> f tag_ty | None \<Rightarrow> d_ret layout_zeroed) (\<lambda>tg.
     let abi_align = max (lay_align tg) payload_align in
     d_bind (Some (union_content_end tg payload_size payload_align)) (\<lambda>content_end.
     d_bind (Some (next_multiple_of content_end abi_align)) (\<lambda>abi_size.
       d_ret \<lparr>ul_union_layout = \<lparr>lay_size = abi_size, lay_align = abi_align\<rparr>, ul_tag = tg,
         ul_payload = \<lparr>lay_size = payload_size, lay_align = payload_align\<rparr>, ul_most_aligned_field = (most, most_layout),
         ul_trailing_padding = abi_size - content_end\<rparr>))))"

definition union_layout_with :: "(vindex \<Rightarrow> layout deep) \<Rightarrow> 'h value_store \<Rightarrow> vindex \<Rightarrow> union_layout deep" where
  "union_layout_with f S ty = d_bind (Some (bind_outcome (index_to_value S ty) as_union)) (union_type_layout f)"

definition layout_of_type :: "(vindex \<Rightarrow> layout deep) \<Rightarrow> target_info \<Rightarrow> 'h value_store \<Rightarrow> vindex \<Rightarrow> vtype \<Rightarrow> vvalue \<Rightarrow> layout deep" where
  "layout_of_type f target S ty t value =
     (case t of
        VT_Bool \<Rightarrow> d_ret \<lparr>lay_size = 1, lay_align = 1\<rparr>
      | VT_Int _ bits \<Rightarrow> d_ret (int_layout bits)
      | VT_F16 \<Rightarrow> d_ret \<lparr>lay_size = 2, lay_align = 2\<rparr>
      | VT_F32 \<Rightarrow> d_ret \<lparr>lay_size = 4, lay_align = 4\<rparr>
      | VT_F64 \<Rightarrow> d_ret \<lparr>lay_size = 8, lay_align = 8\<rparr>
      | VT_F128 \<Rightarrow> d_ret \<lparr>lay_size = 16, lay_align = 16\<rparr>
      | VT_Ptr _ \<Rightarrow> Some (type_ptr_layout target)
      | VT_Usize \<Rightarrow> Some (type_ptr_layout target)
      | VT_Isize \<Rightarrow> Some (type_ptr_layout target)
      | VT_Array elem len \<Rightarrow> d_bind (f elem) (\<lambda>l. Some (array_layout l len))
      | VT_Slice _ \<Rightarrow> Some (fat_ptr_layout target)
      | VT_Anyptr \<Rightarrow> Some (fat_ptr_layout target)
      | VT_Struct _ \<Rightarrow> (case value of VV_Struct s \<Rightarrow> struct_type_layout f s | _ \<Rightarrow> Some Panics)
      | VT_Enum _ \<Rightarrow> (case value of VV_Enum e \<Rightarrow> f (te_tag_ty e) | _ \<Rightarrow> Some Panics)
      | VT_Union _ \<Rightarrow>
          (case value of VV_Union _ \<Rightarrow> d_bind (union_layout_with f S ty) (\<lambda>u. d_ret (ul_union_layout u)) | _ \<Rightarrow> Some Panics)
      | VT_Void \<Rightarrow> d_ret \<lparr>lay_size = 0, lay_align = 0\<rparr>
      | _ \<Rightarrow> Some Panics)"

primrec type_layout :: "nat \<Rightarrow> target_info \<Rightarrow> 'h value_store \<Rightarrow> vindex \<Rightarrow> layout deep" where
  "type_layout 0 target S ty = None"
| "type_layout (Suc n) target S ty =
     d_bind (Some (index_to_key_value S ty)) (\<lambda>(key, value).
       case key of VK_Type t \<Rightarrow> layout_of_type (type_layout n target S) target S ty t value | _ \<Rightarrow> Some Panics)"

definition type_union_layout :: "nat \<Rightarrow> target_info \<Rightarrow> 'h value_store \<Rightarrow> vindex \<Rightarrow> union_layout deep" where
  "type_union_layout n target S ty = union_layout_with (type_layout n target S) S ty"

section \<open>The C calling conventions\<close>

datatype abi_repr = Repr_ByValue | Repr_ByRef | Repr_AsInteger
datatype abi_context = Ctx_Param | Ctx_Return

definition compute_type_abi_win64 :: "nat \<Rightarrow> target_info \<Rightarrow> 'h value_store \<Rightarrow> vindex \<Rightarrow> abi_context \<Rightarrow> abi_repr deep" where
  "compute_type_abi_win64 n target S ty context =
     d_bind (Some (index_to_key S ty)) (\<lambda>key.
       case key of
         VK_Type t \<Rightarrow>
           (let aggregate =
              d_bind (type_layout n target S ty) (\<lambda>l. d_ret (if lay_size l \<in> {1, 2, 4, 8} then Repr_AsInteger else Repr_ByRef)) in
            case t of
              VT_Ptr _ \<Rightarrow> d_ret Repr_ByValue | VT_Int _ _ \<Rightarrow> d_ret Repr_ByValue | VT_Bool \<Rightarrow> d_ret Repr_ByValue
            | VT_Enum _ \<Rightarrow> d_ret Repr_ByValue | VT_Usize \<Rightarrow> d_ret Repr_ByValue | VT_Isize \<Rightarrow> d_ret Repr_ByValue
            | VT_F16 \<Rightarrow> d_ret Repr_ByValue | VT_F32 \<Rightarrow> d_ret Repr_ByValue | VT_F64 \<Rightarrow> d_ret Repr_ByValue | VT_Void \<Rightarrow> d_ret Repr_ByValue
            | VT_Array _ _ \<Rightarrow> aggregate | VT_Slice _ \<Rightarrow> aggregate | VT_Struct _ \<Rightarrow> aggregate | VT_Union _ \<Rightarrow> aggregate
            | VT_F128 \<Rightarrow> d_ret (case context of Ctx_Param \<Rightarrow> Repr_ByRef | Ctx_Return \<Rightarrow> Repr_ByValue)
            | _ \<Rightarrow> Some Panics)
       | _ \<Rightarrow> Some Panics)"

definition compute_type_abi_sysv :: "'h value_store \<Rightarrow> vindex \<Rightarrow> abi_repr deep" where
  "compute_type_abi_sysv S ty =
     d_bind (Some (index_to_key S ty)) (\<lambda>key. case key of VK_Type _ \<Rightarrow> d_ret Repr_ByValue | _ \<Rightarrow> Some Panics)"

definition compute_type_abi_darwin :: "'h value_store \<Rightarrow> vindex \<Rightarrow> abi_repr deep" where
  "compute_type_abi_darwin S ty =
     d_bind (Some (index_to_key S ty)) (\<lambda>key. case key of VK_Type _ \<Rightarrow> d_ret Repr_ByValue | _ \<Rightarrow> Some Panics)"

definition compute_type_abi_c :: "nat \<Rightarrow> target_info \<Rightarrow> 'h value_store \<Rightarrow> vindex \<Rightarrow> abi_context \<Rightarrow> abi_repr deep" where
  "compute_type_abi_c n target S ty context =
     (case (tgt_architecture target, tgt_operating_system target) of
        (Arch_X86_64, Os_Windows) \<Rightarrow> compute_type_abi_win64 n target S ty context
      | (Arch_X86_64, Os_Linux) \<Rightarrow> compute_type_abi_sysv S ty
      | (Arch_Aarch64, Os_Darwin) \<Rightarrow> compute_type_abi_darwin S ty
      | _ \<Rightarrow> Some Panics)"

end
