(* ===== verification/Vif_Layout_Props.thy ===== *)
theory Vif_Layout_Props
  imports Vif_Layout
begin

text \<open>
  Sizes and alignments: alignments are powers of two, the fields of a struct and the parts of a union are placed without overlap, and the
  walk over a type ends when types do not contain themselves. Two types on which the walks fail.
\<close>

section \<open>Walks\<close>

lemma d_bind_simps [simp]: "d_bind None f = None" "d_bind (Some Panics) f = Some Panics" "d_bind (Some (Returns x)) f = f x"
  by (simp_all add: d_bind_def)

lemma d_bind_ret: "d_bind m f = d_ret y \<longleftrightarrow> (\<exists>x. m = d_ret x \<and> f x = d_ret y)"
  by (auto simp: d_bind_def split: option.splits outcome.splits)

lemma d_bind_None: "d_bind m f = None \<longleftrightarrow> m = None \<or> (\<exists>x. m = d_ret x \<and> f x = None)"
  by (auto simp: d_bind_def split: option.splits outcome.splits)

section \<open>Rounding\<close>

definition pow2 :: "nat \<Rightarrow> bool" where
  "pow2 n \<longleftrightarrow> (\<exists>k. n = 2 ^ k)"

lemma pow2_pos: "pow2 n \<Longrightarrow> 0 < n"
  by (auto simp: pow2_def)

lemma pow2_dvd: "pow2 a \<Longrightarrow> pow2 b \<Longrightarrow> a \<le> b \<Longrightarrow> a dvd b"
  by (auto simp: pow2_def intro: le_imp_power_dvd)

lemma pow2_max: "pow2 a \<Longrightarrow> pow2 b \<Longrightarrow> pow2 (max a b)"
  by (simp add: max_def)

lemma pow2_numerals [simp]: "pow2 1" "pow2 (Suc 0)" "pow2 2" "pow2 4" "pow2 8" "pow2 16"
  unfolding pow2_def by (rule exI [of _ 0], simp, rule exI [of _ 0], simp, rule exI [of _ 1], simp, rule exI [of _ 2], simp, rule exI [of _ 3], simp,
      rule exI [of _ 4], simp)

lemma next_power_loop_pow2: "pow2 p \<Longrightarrow> pow2 (next_power_loop n p k)"
proof (induction n p k rule: next_power_loop.induct)
  case (2 fuel p n)
  then have "pow2 (2 * p)" by (auto simp: pow2_def intro: exI [of _ "Suc _"])
  then show ?case using 2 by simp
qed simp

lemma next_power_of_two_pow2: "pow2 (next_power_of_two n)"
  unfolding next_power_of_two_def by (rule next_power_loop_pow2) simp

lemma next_multiple_of_Returns:
  assumes "next_multiple_of a b = Returns c"
  shows "0 < b" and "a \<le> c" and "c < a + b" and "b dvd c"
proof -
  show b: "0 < b" using assms by (cases "b = 0") (auto simp: next_multiple_of_def)
  have c: "c = a \<and> a mod b = 0 \<or> c = a + (b - a mod b) \<and> a mod b \<noteq> 0"
    using assms b by (auto simp: next_multiple_of_def u64_add_def split: if_splits)
  have m: "a mod b < b" using b by simp
  show "a \<le> c" "c < a + b" using c m b by linarith+
  have "b dvd a + (b - a mod b)"
  proof -
    have "a + (b - a mod b) = a div b * b + b" using m div_mult_mod_eq [of a b] by linarith
    then show ?thesis by simp
  qed
  then show "b dvd c" using c by auto
qed

section \<open>Well-formed layouts\<close>

definition layout_ok :: "layout \<Rightarrow> bool" where
  "layout_ok l \<longleftrightarrow> pow2 (lay_align l) \<or> lay_align l = 0 \<and> lay_size l = 0"

definition layouts_ok :: "(vindex \<Rightarrow> layout deep) \<Rightarrow> bool" where
  "layouts_ok f \<longleftrightarrow> (\<forall>ty l. f ty = d_ret l \<longrightarrow> layout_ok l)"

lemma layouts_okD: "layouts_ok f \<Longrightarrow> f ty = d_ret l \<Longrightarrow> layout_ok l"
  by (simp add: layouts_ok_def)

definition target_ok :: "target_info \<Rightarrow> bool" where
  "target_ok target \<longleftrightarrow> (\<exists>k. tgt_ptr_width_in_bits target = 8 * 2 ^ k)"

text \<open>Positions of fields with given layouts, one behind the other from \<open>e\<close>: aligned and as low as possible; the last one ends at \<open>e'\<close>.\<close>

fun placed :: "nat \<Rightarrow> layout list \<Rightarrow> nat list \<Rightarrow> nat \<Rightarrow> bool" where
  "placed e [] [] e' \<longleftrightarrow> e' = e"
| "placed e (l # ls) (p # ps) e' \<longleftrightarrow> e \<le> p \<and> p < e + lay_align l \<and> lay_align l dvd p \<and> placed (p + lay_size l) ls ps e'"
| "placed _ _ _ _ \<longleftrightarrow> False"

lemma struct_fields_layout_ok:
  assumes "struct_fields_layout f fs e a = d_ret (e', a')" and "pow2 a" and "layouts_ok f"
  shows "\<exists>ls ps. list_all2 (\<lambda>fld l. f (sf_ty fld) = d_ret l) fs ls \<and> placed e ls ps e' \<and> pow2 a' \<and> a \<le> a'
    \<and> (\<forall>l \<in> set ls. lay_align l dvd a') \<and> (a' = a \<or> a' \<in> lay_align ` set ls)"
  using assms(1,2)
proof (induction fs arbitrary: e a)
  case (Cons fld fs)
  obtain l p e1 where l: "f (sf_ty fld) = d_ret l" "next_multiple_of e (lay_align l) = Returns p" "u64_add p (lay_size l) = Returns e1"
      and rest: "struct_fields_layout f fs e1 (max a (lay_align l)) = d_ret (e', a')"
    using Cons.prems(1) by (auto simp: d_bind_ret)
  note p = next_multiple_of_Returns [OF l(2)]
  have pl: "pow2 (lay_align l)" using layouts_okD [OF assms(3) l(1)] p(1) by (auto simp: layout_ok_def)
  obtain ls ps where ls: "list_all2 (\<lambda>fld l. f (sf_ty fld) = d_ret l) fs ls" "placed e1 ls ps e'" "pow2 a'" "max a (lay_align l) \<le> a'"
      "\<forall>l \<in> set ls. lay_align l dvd a'" "a' = max a (lay_align l) \<or> a' \<in> lay_align ` set ls"
    using Cons.IH [OF rest pow2_max [OF Cons.prems(2) pl]] by blast
  have "e1 = p + lay_size l" using l(3) by (auto simp: u64_add_def split: if_splits)
  moreover have "lay_align l dvd a'" using pow2_dvd [OF pl ls(3)] ls(4) by simp
  ultimately show ?case using l(1) ls p by (intro exI [of _ "l # ls"] exI [of _ "p # ps"]) (auto simp: max_def split: if_splits)
qed (intro exI [of _ "[]"], simp)

lemma struct_type_layout_ok:
  assumes "struct_type_layout f s = d_ret l" and "layouts_ok f" and "ts_layout s = SL_Standard"
  shows "\<exists>ls ps e. list_all2 (\<lambda>fld l. f (sf_ty fld) = d_ret l) (ts_fields s) ls \<and> placed 0 ls ps e \<and> e \<le> lay_size l \<and> lay_size l < e + lay_align l
    \<and> pow2 (lay_align l) \<and> lay_align l dvd lay_size l \<and> (\<forall>l' \<in> set ls. lay_align l' dvd lay_align l) \<and> (lay_align l = 1 \<or> lay_align l \<in> lay_align ` set ls)"
proof -
  obtain e a sz where e: "struct_fields_layout f (ts_fields s) 0 1 = d_ret (e, a)" "next_multiple_of e a = Returns sz" "l = \<lparr>lay_size = sz, lay_align = a\<rparr>"
    using assms(1,3) by (auto simp: struct_type_layout_def d_bind_ret)
  note n = next_multiple_of_Returns [OF e(2)]
  obtain ls ps where "list_all2 (\<lambda>fld l. f (sf_ty fld) = d_ret l) (ts_fields s) ls" "placed 0 ls ps e" "pow2 a"
      "\<forall>l \<in> set ls. lay_align l dvd a" "a = 1 \<or> a \<in> lay_align ` set ls"
    using struct_fields_layout_ok [OF e(1) _ assms(2)] by auto
  then show ?thesis using n e(3) by (intro exI [of _ ls] exI [of _ ps] exI [of _ e]) simp
qed

section \<open>Unions\<close>

lemma union_fields_layout_ok:
  assumes "union_fields_layout f i fs (ps, pa, m, ml) = d_ret (ps', pa', m', ml')" and "pow2 pa" and "layouts_ok f"
  shows "pow2 pa' \<and> pa dvd pa' \<and> ps \<le> ps' \<and>
    (\<forall>fld ty. fld \<in> set fs \<longrightarrow> utf_ty fld = Some ty \<longrightarrow> (\<exists>l. f ty = d_ret l \<and> lay_size l \<le> ps' \<and> (lay_size l \<noteq> 0 \<longrightarrow> lay_align l dvd pa')))"
  using assms(1,2)
proof (induction fs arbitrary: i ps pa m ml)
  case (Cons fld fs)
  show ?case
  proof (cases "utf_ty fld")
    case None
    then show ?thesis using Cons.IH [of "Suc i" ps pa m ml] Cons.prems by auto
  next
    case (Some ty)
    obtain l where l: "f ty = d_ret l" using Cons.prems(1) Some by (auto simp: d_bind_ret)
    note rest = Cons.prems(1) [simplified, unfolded Some option.case l d_bind_simps]
    consider "lay_size l = 0" | "lay_size l \<noteq> 0" "pa \<le> lay_align l" | "lay_size l \<noteq> 0" "\<not> pa \<le> lay_align l" by blast
    then show ?thesis
    proof cases
      case 1
      then show ?thesis using Cons.IH [of "Suc i" ps pa m ml] Cons.prems(2) rest l Some by auto
    next
      case 2
      have p: "pow2 (lay_align l)" using layouts_okD [OF assms(3) l] 2(1) by (auto simp: layout_ok_def)
      then have d: "pa dvd lay_align l" using pow2_dvd Cons.prems(2) 2(2) by blast
      have "union_fields_layout f (Suc i) fs (max ps (lay_size l), lay_align l, i, l) = d_ret (ps', pa', m', ml')" using rest 2 by simp
      from Cons.IH [OF this p] show ?thesis using l Some d by (auto intro: dvd_trans)
    next
      case 3
      have p: "pow2 (lay_align l)" using layouts_okD [OF assms(3) l] 3(1) by (auto simp: layout_ok_def)
      then have d: "lay_align l dvd pa" using pow2_dvd Cons.prems(2) 3(2) by auto
      have "union_fields_layout f (Suc i) fs (max ps (lay_size l), pa, m, ml) = d_ret (ps', pa', m', ml')" using rest 3 by simp
      from Cons.IH [OF this Cons.prems(2)] show ?thesis using l Some d by (auto intro: dvd_trans)
    qed
  qed
qed simp

text \<open>Positions of the tag and of the payload of a union.\<close>

definition union_parts :: "union_layout \<Rightarrow> nat \<Rightarrow> nat \<Rightarrow> bool" where
  "union_parts u tg pl \<longleftrightarrow>
     (let t = ul_tag u; p = ul_payload u; content = lay_size (ul_union_layout u) - ul_trailing_padding u in
      tg + lay_size t \<le> content \<and> pl + lay_size p \<le> content \<and> lay_align t dvd tg \<and> lay_align p dvd pl \<and>
      (lay_size t = 0 \<or> lay_size p = 0 \<or> tg + lay_size t \<le> pl \<or> pl + lay_size p \<le> tg))"

lemma union_content_end_ok:
  assumes "union_content_end t ps pa = Returns c"
  shows "\<exists>tg pl. tg + lay_size t \<le> c \<and> pl + ps \<le> c \<and> lay_align t dvd tg \<and> pa dvd pl \<and> (lay_size t = 0 \<or> ps = 0 \<or> tg + lay_size t \<le> pl \<or> pl + ps \<le> tg)"
proof -
  consider "lay_size t = 0" "c = ps" | "ps = 0" "c = lay_size t"
    | x where "next_multiple_of (lay_size t) pa = Returns x" "c = x + ps"
    | x where "next_multiple_of ps (lay_align t) = Returns x" "c = x + lay_size t"
    using assms by (auto simp: union_content_end_def bind_outcome_Returns_iff u64_add_def split: if_splits)
  then show ?thesis
  proof cases
    case (3 x)
    then show ?thesis using next_multiple_of_Returns [OF 3(1)] by (intro exI [of _ 0] exI [of _ x]) auto
  next
    case (4 x)
    then show ?thesis using next_multiple_of_Returns [OF 4(1)] by (intro exI [of _ x] exI [of _ 0]) auto
  qed (auto intro: exI [of _ 0])
qed

lemma union_type_layout_ok:
  assumes "union_type_layout f u = d_ret ul" and "layouts_ok f"
  shows "pow2 (lay_align (ul_union_layout ul)) \<and> lay_align (ul_union_layout ul) dvd lay_size (ul_union_layout ul)
    \<and> ul_trailing_padding ul < lay_align (ul_union_layout ul) \<and> (\<exists>tg pl. union_parts ul tg pl)
    \<and> lay_align (ul_payload ul) dvd lay_align (ul_union_layout ul) \<and> (lay_size (ul_tag ul) \<noteq> 0 \<longrightarrow> lay_align (ul_tag ul) dvd lay_align (ul_union_layout ul))
    \<and> (\<forall>fld ty. fld \<in> set (tu_fields u) \<longrightarrow> utf_ty fld = Some ty \<longrightarrow>
        (\<exists>l. f ty = d_ret l \<and> lay_size l \<le> lay_size (ul_payload ul) \<and> (lay_size l \<noteq> 0 \<longrightarrow> lay_align l dvd lay_align (ul_payload ul))))"
proof -
  obtain ps pa m ml t c sz where f: "union_fields_layout f 0 (tu_fields u) (0, 1, 0, \<lparr>lay_size = 0, lay_align = 0\<rparr>) = d_ret (ps, pa, m, ml)"
      and t: "(case tu_tag_ty u of Some tag_ty \<Rightarrow> f tag_ty | None \<Rightarrow> d_ret layout_zeroed) = d_ret t"
      and c: "union_content_end t ps pa = Returns c" and sz: "next_multiple_of c (max (lay_align t) pa) = Returns sz"
      and ul: "ul = \<lparr>ul_union_layout = \<lparr>lay_size = sz, lay_align = max (lay_align t) pa\<rparr>, ul_tag = t, ul_payload = \<lparr>lay_size = ps, lay_align = pa\<rparr>,
        ul_most_aligned_field = (m, ml), ul_trailing_padding = sz - c\<rparr>"
    using assms(1) by (auto simp: union_type_layout_def d_bind_ret Let_def)
  note fo = union_fields_layout_ok [OF f _ assms(2)] and n = next_multiple_of_Returns [OF sz]
  have pa: "pow2 pa" using fo by simp
  have tok: "layout_ok t" using t layouts_okD [OF assms(2)] by (auto simp: layout_zeroed_def layout_ok_def split: option.splits)
  have a: "pow2 (max (lay_align t) pa)" using tok pa pow2_max [of "lay_align t" pa] by (auto simp: layout_ok_def)
  obtain tg pl where "tg + lay_size t \<le> c" "pl + ps \<le> c" "lay_align t dvd tg" "pa dvd pl" "lay_size t = 0 \<or> ps = 0 \<or> tg + lay_size t \<le> pl \<or> pl + ps \<le> tg"
    using union_content_end_ok [OF c] by blast
  then have "union_parts ul tg pl" using n(2) by (simp add: union_parts_def ul Let_def)
  moreover have "pa dvd max (lay_align t) pa" using pow2_dvd [OF pa a] by simp
  moreover have "lay_size t \<noteq> 0 \<longrightarrow> lay_align t dvd max (lay_align t) pa" using tok pow2_dvd [OF _ a, of "lay_align t"] by (auto simp: layout_ok_def)
  moreover have "sz - c < max (lay_align t) pa" using n by simp
  ultimately show ?thesis using a n(4) fo by (auto simp: ul)
qed

section \<open>All types\<close>

lemma ptr_size_pow2: "target_ok target \<Longrightarrow> ptr_size target = Returns p \<Longrightarrow> pow2 p"
  by (auto simp: target_ok_def ptr_size_def pow2_def split: if_splits)

lemma layout_of_type_ok:
  assumes "layout_of_type f target S ty t v = d_ret l" and "target_ok target" and f: "layouts_ok f"
  shows "layout_ok l"
proof (cases t)
  case (VT_Struct ns)
  then obtain s where s: "v = VV_Struct s" "struct_type_layout f s = d_ret l" using assms(1) by (auto simp: layout_of_type_def split: vvalue.splits)
  show ?thesis
  proof (cases "ts_layout s")
    case SL_Standard
    then show ?thesis using struct_type_layout_ok [OF s(2) f] by (auto simp: layout_ok_def)
  next
    case (SL_Packed a b c)
    then show ?thesis using s(2) by (auto simp: struct_type_layout_def layout_ok_def)
  qed
next
  case (VT_Union ns)
  then obtain u ul where "union_type_layout f u = d_ret ul" "l = ul_union_layout ul"
    using assms(1) by (auto simp: layout_of_type_def union_layout_with_def d_bind_ret split: vvalue.splits)
  then show ?thesis using union_type_layout_ok [OF _ f] by (auto simp: layout_ok_def)
next
  case (VT_Array e n)
  then obtain l' where l': "f e = d_ret l'" "array_layout l' n = Returns l" using assms(1) by (auto simp: layout_of_type_def d_bind_ret)
  then have "0 < lay_align l'" "lay_align l = lay_align l'" using next_multiple_of_Returns(1) by (auto simp: array_layout_def bind_outcome_Returns_iff)
  then show ?thesis using layouts_okD [OF f l'(1)] by (auto simp: layout_ok_def)
next
  case (VT_Enum ns)
  then show ?thesis using assms(1) layouts_okD [OF f] by (auto simp: layout_of_type_def split: vvalue.splits)
qed (use assms(1) ptr_size_pow2 [OF assms(2)] in \<open>auto simp: layout_of_type_def layout_ok_def int_layout_def Let_def next_power_of_two_pow2
    type_ptr_layout_def fat_ptr_layout_def bind_outcome_Returns_iff\<close>)

lemma type_layout_Suc:
  "type_layout (Suc n) target S ty = d_ret l \<longleftrightarrow>
     (\<exists>t v. index_to_key_value S ty = Returns (VK_Type t, v) \<and> layout_of_type (type_layout n target S) target S ty t v = d_ret l)"
proof (cases "index_to_key_value S ty")
  case (Returns x)
  then show ?thesis by (cases x; cases "fst x") auto
qed simp

lemma type_layout_ok: "target_ok target \<Longrightarrow> layouts_ok (type_layout n target S)"
proof (induction n)
  case (Suc n)
  then show ?case using layout_of_type_ok [OF _ Suc.prems Suc.IH] unfolding layouts_ok_def type_layout_Suc by blast
qed (simp add: layouts_ok_def)

section \<open>Termination\<close>

text \<open>The types whose layout the layout of a type needs.\<close>

definition layout_children :: "'h value_store \<Rightarrow> vindex \<Rightarrow> vindex list" where
  "layout_children S ty =
     (case index_to_key_value S ty of
        Returns (VK_Type (VT_Array e _), _) \<Rightarrow> [e]
      | Returns (VK_Type (VT_Struct _), VV_Struct s) \<Rightarrow> (case ts_layout s of SL_Standard \<Rightarrow> map sf_ty (ts_fields s) | SL_Packed _ _ _ \<Rightarrow> [])
      | Returns (VK_Type (VT_Enum _), VV_Enum e) \<Rightarrow> [te_tag_ty e]
      | Returns (VK_Type (VT_Union _), VV_Union u) \<Rightarrow> (case tu_tag_ty u of Some t \<Rightarrow> [t] | None \<Rightarrow> []) @ List.map_filter utf_ty (tu_fields u)
      | _ \<Rightarrow> [])"

lemma struct_fields_layout_ends: "\<forall>fld \<in> set fs. f (sf_ty fld) \<noteq> None \<Longrightarrow> struct_fields_layout f fs e a \<noteq> None"
  by (induction fs arbitrary: e a) (auto simp: d_bind_None)

lemma union_fields_layout_ends:
  "\<forall>fld \<in> set fs. \<forall>ty. utf_ty fld = Some ty \<longrightarrow> f ty \<noteq> None \<Longrightarrow> union_fields_layout f i fs acc \<noteq> None"
proof (induction fs arbitrary: i acc)
  case (Cons fld fs)
  obtain a b c d where acc: "acc = (a, b, c, d)" by (cases acc) auto
  have IH: "union_fields_layout f i' fs acc' \<noteq> None" for i' acc' by (rule Cons.IH) (use Cons.prems in simp)
  have "utf_ty fld = Some ty \<Longrightarrow> f ty \<noteq> None" for ty using Cons.prems by simp
  then show ?case using IH by (cases "utf_ty fld") (auto simp: acc d_bind_None split: if_splits)
qed simp

lemma struct_type_layout_ends:
  "(ts_layout s = SL_Standard \<Longrightarrow> \<forall>fld \<in> set (ts_fields s). f (sf_ty fld) \<noteq> None) \<Longrightarrow> struct_type_layout f s \<noteq> None"
  using struct_fields_layout_ends [of "ts_fields s" f 0 1] by (cases "ts_layout s") (auto simp: struct_type_layout_def d_bind_None)

lemma union_type_layout_ends:
  assumes "\<forall>fld \<in> set (tu_fields u). \<forall>ty. utf_ty fld = Some ty \<longrightarrow> f ty \<noteq> None" and "\<And>ty. tu_tag_ty u = Some ty \<Longrightarrow> f ty \<noteq> None"
  shows "union_type_layout f u \<noteq> None"
  using union_fields_layout_ends [OF assms(1), of 0 "(0, 1, 0, \<lparr>lay_size = 0, lay_align = 0\<rparr>)"] assms(2)
  by (auto simp: union_type_layout_def d_bind_None Let_def split: option.splits)

lemma layout_of_type_ends:
  assumes "index_to_key_value S ty = Returns (VK_Type t, v)" and "\<forall>c \<in> set (layout_children S ty). f c \<noteq> None"
  shows "layout_of_type f target S ty t v \<noteq> None"
proof (cases t)
  case (VT_Struct ns)
  show ?thesis
  proof (cases v)
    case (VV_Struct s)
    have "struct_type_layout f s \<noteq> None" by (rule struct_type_layout_ends) (use assms VT_Struct VV_Struct in \<open>auto simp: layout_children_def\<close>)
    then show ?thesis by (simp add: layout_of_type_def VT_Struct VV_Struct)
  qed (simp_all add: layout_of_type_def VT_Struct)
next
  case (VT_Union ns)
  show ?thesis
  proof (cases v)
    case (VV_Union u)
    have "union_type_layout f u \<noteq> None"
      by (rule union_type_layout_ends) (use assms VT_Union VV_Union in \<open>fastforce simp: layout_children_def List.map_filter_def image_iff\<close>)+
    then show ?thesis using assms(1) VT_Union VV_Union
      by (auto simp: layout_of_type_def union_layout_with_def index_to_value_def index_to_key_value_def as_union_def d_bind_None)
  qed (simp_all add: layout_of_type_def VT_Union)
next
  case (VT_Enum ns)
  then show ?thesis using assms by (cases v) (auto simp: layout_of_type_def layout_children_def)
next
  case (VT_Array e k)
  then show ?thesis using assms by (auto simp: layout_of_type_def layout_children_def d_bind_None)
qed (simp_all add: layout_of_type_def)

section \<open>Properties\<close>

text \<open>
  C17: Computing the layout of a type ends when no type contains itself: with a rank that falls from every type to the types it holds by
  value, the rank of a type bounds the depth of the recursion. Pointers and slices do not count, so recursive types behind a pointer have a layout.
\<close>

theorem type_layout_terminates:
  assumes "\<And>t c. c \<in> set (layout_children S t) \<Longrightarrow> rank c < rank t" and "rank ty < n"
  shows "type_layout n target S ty \<noteq> None"
  using assms(2)
proof (induction n arbitrary: ty)
  case (Suc n)
  have ch: "type_layout n target S c \<noteq> None" if "c \<in> set (layout_children S ty)" for c using Suc.IH assms(1) [OF that] Suc.prems by simp
  show ?case
  proof (cases "index_to_key_value S ty")
    case (Returns x)
    obtain k v where x: "x = (k, v)" by fastforce
    show ?thesis
    proof (cases k)
      case (VK_Type t)
      then show ?thesis using layout_of_type_ends [of S ty t v] ch Returns x by simp
    qed (simp_all add: Returns x)
  qed simp
qed simp


text \<open>
  C16: The layout of a union has room for its tag and its payload side by side, both aligned, and the payload has room for every field.
  The size is a multiple of the alignment, and less than one alignment of padding follows the content.
\<close>

theorem union_layout_holds_parts:
  assumes "target_ok target" and "type_union_layout n target S ty = d_ret ul"
    and "index_to_key_value S ty = Returns (VK_Type (VT_Union ns), VV_Union u)"
  shows "pow2 (lay_align (ul_union_layout ul)) \<and> lay_align (ul_union_layout ul) dvd lay_size (ul_union_layout ul)
    \<and> ul_trailing_padding ul < lay_align (ul_union_layout ul) \<and> (\<exists>tg pl. union_parts ul tg pl)
    \<and> (\<forall>fld ty. fld \<in> set (tu_fields u) \<longrightarrow> utf_ty fld = Some ty \<longrightarrow>
        (\<exists>l. type_layout n target S ty = d_ret l \<and> lay_size l \<le> lay_size (ul_payload ul) \<and> (lay_size l \<noteq> 0 \<longrightarrow> lay_align l dvd lay_align (ul_payload ul))))"
proof -
  have "union_type_layout (type_layout n target S) u = d_ret ul"
    using assms(2,3) by (simp add: type_union_layout_def union_layout_with_def index_to_value_def index_to_key_value_def as_union_def)
  from union_type_layout_ok [OF this type_layout_ok [OF assms(1)]] show ?thesis by blast
qed

text \<open>
  A struct with a field of type \<^verbatim>\<open>void\<close> has no layout: the alignment of \<^verbatim>\<open>void\<close> is zero, and rounding up to it panics. An array of
  \<^verbatim>\<open>void\<close> panics likewise.
\<close>

theorem void_field_panics:
  assumes "index_to_key_value S void_ty = Returns (VK_Type VT_Void, v)"
  shows "(index_to_key_value S ty = Returns (VK_Type (VT_Struct ns), VV_Struct s) \<and> ts_layout s = SL_Standard
      \<and> ts_fields s = f # fs \<and> sf_ty f = void_ty \<longrightarrow> type_layout (Suc (Suc n)) target S ty = Some Panics)
    \<and> (index_to_key_value S ty = Returns (VK_Type (VT_Array void_ty len), w) \<longrightarrow> type_layout (Suc (Suc n)) target S ty = Some Panics)"
  using assms by (simp add: layout_of_type_def struct_type_layout_def next_multiple_of_def array_layout_def)


section \<open>Examples\<close>

text \<open>A store with one shard and the given entries.\<close>

definition store_of :: "(vkey \<times> vvalue) list \<Rightarrow> unit value_store" where
  "store_of xs =
     \<lparr>vs_value_map = \<lparr>sm_shards = [\<lparr>sh_key_to_index = (), sh_slots = \<lparr>ar_base = 0, ar_capacity = 64, ar_len = length xs, ar_initialized = length xs,
        ar_committed_elements = 64, ar_accessible = [(0, 64)], ar_slots = (\<lambda>i. if i < length xs then Some (xs ! i) else None)\<rparr>\<rparr>]\<rparr>,
      vs_common = common_from (replicate 26 0)\<rparr>"

lemma store_of_entry: "unat i < length xs \<Longrightarrow> length xs \<le> 64 \<Longrightarrow> index_to_key_value (store_of xs) i = Returns (xs ! unat i)"
proof -
  assume a: "unat i < length xs" "length xs \<le> 64"
  have "i = index_bits 0 i" by (simp add: index_bits_def)
  then have "index_shard i = 0" "index_local_index i = i" using index_parts [of 0 i] a by simp_all
  then show ?thesis using a(1) by (simp add: index_to_key_value_def sm_kv_def sm_shard_def store_of_def arena_get_def)
qed

lemma store_of_entries:
  "length xs \<le> 64 \<Longrightarrow> index_to_key_value (store_of xs) i = (if unat i < length xs then Returns (xs ! unat i) else index_to_key_value (store_of xs) i)"
  by (simp add: store_of_entry)

abbreviation int_field :: "string \<Rightarrow> vindex \<Rightarrow> struct_field" where
  "int_field name ty \<equiv> \<lparr>sf_name = name, sf_ty = ty\<rparr>"

definition some_namespace :: namespace_type where
  "some_namespace = \<lparr>nt_inst = \<lparr>gi_module = 0, gi_inst = 0\<rparr>, nt_captures = []\<rparr>"

definition some_struct :: "struct_field list \<Rightarrow> vkey \<times> vvalue" where
  "some_struct fs = (VK_Type (VT_Struct some_namespace), VV_Struct \<lparr>ts_name = ''S'', ts_fields = fs, ts_layout = SL_Standard, ts_namespace = 0, ts_linear = False\<rparr>)"

text \<open>\<^verbatim>\<open>u8\<close>, \<^verbatim>\<open>u32\<close>, a struct of the two and a union of the two with a tag.\<close>

definition store1 :: "unit value_store" where
  "store1 = store_of [(VK_Type (VT_Int False 8), VV_None 0), (VK_Type (VT_Int False 32), VV_None 0), some_struct [int_field ''a'' 0, int_field ''b'' 1],
     (VK_Type (VT_Union some_namespace), VV_Union \<lparr>tu_name = ''U'', tu_tag_ty = Some 0,
        tu_fields = [\<lparr>utf_name = ''a'', utf_ty = Some 0\<rparr>, \<lparr>utf_name = ''b'', utf_ty = Some 1\<rparr>], tu_namespace = 0, tu_linear = False\<rparr>)]"

lemma store1_entries:
  "index_to_key_value store1 0 = Returns (VK_Type (VT_Int False 8), VV_None 0)" "index_to_key_value store1 1 = Returns (VK_Type (VT_Int False 32), VV_None 0)"
  "index_to_key_value store1 2 = Returns (some_struct [int_field ''a'' 0, int_field ''b'' 1])"
  "index_to_key_value store1 3 = Returns (VK_Type (VT_Union some_namespace), VV_Union \<lparr>tu_name = ''U'', tu_tag_ty = Some 0,
        tu_fields = [\<lparr>utf_name = ''a'', utf_ty = Some 0\<rparr>, \<lparr>utf_name = ''b'', utf_ty = Some 1\<rparr>], tu_namespace = 0, tu_linear = False\<rparr>)"
  by (simp_all add: store1_def store_of_entry)

lemma store1_other: "4 \<le> unat i \<Longrightarrow> index_to_key_value store1 i = Panics"
proof -
  assume i: "4 \<le> unat i"
  have "unat (index_local_index i) = unat i \<or> 0 < index_shard i"
  proof (rule disjCI)
    assume "\<not> 0 < index_shard i"
    then have "i = index_bits 0 (index_local_index i)" using index_join [of i] by simp
    then show "unat (index_local_index i) = unat i" by (simp add: index_bits_def)
  qed
  then show ?thesis using i by (auto simp: index_to_key_value_def sm_kv_def sm_shard_def store1_def store_of_def arena_get_def)
qed

definition target64 :: target_info where
  "target64 = \<lparr>tgt_architecture = Arch_X86_64, tgt_operating_system = Os_Linux, tgt_ptr_width_in_bits = 64\<rparr>"

lemma target64_ok: "target_ok target64"
  unfolding target_ok_def target64_def by (intro exI [of _ 3]) simp

lemma next_power_small: "next_power_of_two 1 = 1" "next_power_of_two (Suc 0) = 1" "next_power_of_two 4 = 4"
  by (simp_all add: next_power_of_two_def numeral_eq_Suc)

lemma store1_struct: "type_layout (Suc 1) target64 store1 2 = d_ret \<lparr>lay_size = 8, lay_align = 4\<rparr>"
  by (simp add: store1_entries some_struct_def layout_of_type_def struct_type_layout_def int_layout_def div_ceil8_def next_power_small
      next_multiple_of_def u64_add_def)


lemma union_layout_holds_parts_witness:
  "\<exists>ul. type_union_layout 1 target64 store1 3 = d_ret ul \<and> lay_size (ul_union_layout ul) = 8 \<and> ul_trailing_padding ul < 4 \<and> (\<exists>tg pl. union_parts ul tg pl)"
proof -
  let ?ul = "\<lparr>ul_union_layout = \<lparr>lay_size = 8, lay_align = 4\<rparr>, ul_tag = \<lparr>lay_size = 1, lay_align = 1\<rparr>, ul_payload = \<lparr>lay_size = 4, lay_align = 4\<rparr>,
    ul_most_aligned_field = (1, \<lparr>lay_size = 4, lay_align = 4\<rparr>), ul_trailing_padding = 3\<rparr>"
  have u: "type_union_layout 1 target64 store1 3 = d_ret ?ul"
    using store1_entries(4)
    by (simp add: type_union_layout_def union_layout_with_def index_to_value_def index_to_key_value_def [symmetric] as_union_def union_type_layout_def
        store1_entries layout_of_type_def int_layout_def div_ceil8_def next_power_small Let_def union_content_end_def next_multiple_of_def u64_add_def)
  show ?thesis using union_layout_holds_parts [OF target64_ok u store1_entries(4)] u by (intro exI [of _ ?ul]) simp
qed

lemma type_layout_terminates_witness: "type_layout 5 target64 store1 3 \<noteq> None"
proof (rule type_layout_terminates [where rank = unat])
  fix t c :: vindex
  assume c: "c \<in> set (layout_children store1 t)"
  then have "unat t < 4" using store1_other [of t] by (cases "4 \<le> unat t") (simp_all add: layout_children_def)
  then have "unat t \<in> {0, 1, 2, 3}" by auto
  then have "word_of_nat (unat t) \<in> (word_of_nat ` {0, 1, 2, 3} :: vindex set)" by blast
  then consider "t = 0" | "t = 1" | "t = 2" | "t = 3" by auto
  then show "unat c < unat t" using c by cases (auto simp: layout_children_def store1_entries some_struct_def List.map_filter_def)
qed simp

text \<open>\<^verbatim>\<open>void\<close>, a struct with a field of type \<^verbatim>\<open>void\<close>, an array of \<^verbatim>\<open>void\<close>, a pointer and a struct that holds a pointer to itself.\<close>

definition store2 :: "unit value_store" where
  "store2 = store_of [(VK_Type VT_Void, VV_None 0), some_struct [int_field ''a'' 0], (VK_Type (VT_Array 0 7), VV_None 0),
     (VK_Type (VT_Ptr \<lparr>tp_pointee_ty = 4, tp_packed = None, tp_is_const = False\<rparr>), VV_None 0), some_struct [int_field ''next'' 3]]"

lemma void_field_panics_witness: "type_layout (Suc (Suc 0)) target64 store2 1 = Some Panics \<and> type_layout (Suc (Suc 0)) target64 store2 2 = Some Panics"
proof
  have v: "index_to_key_value store2 0 = Returns (VK_Type VT_Void, VV_None 0)" by (simp add: store2_def store_of_entry)
  have "index_to_key_value store2 1 = Returns (some_struct [int_field ''a'' 0])" by (simp add: store2_def store_of_entry)
  then show "type_layout (Suc (Suc 0)) target64 store2 1 = Some Panics"
    using conjunct1 [OF void_field_panics [OF v, of 1 some_namespace "\<lparr>ts_name = ''S'', ts_fields = [int_field ''a'' 0],
      ts_layout = SL_Standard, ts_namespace = 0, ts_linear = False\<rparr>" "int_field ''a'' 0" "[]" 0 target64]]
    unfolding some_struct_def by (simp del: type_layout.simps)
  have "index_to_key_value store2 2 = Returns (VK_Type (VT_Array 0 7), VV_None 0)" by (simp add: store2_def store_of_entry)
  then show "type_layout (Suc (Suc 0)) target64 store2 2 = Some Panics"
    using conjunct2 [OF void_field_panics [OF v, of 2]] by blast
qed


end
