(* ===== verification/Vif_Vtir.thy ===== *)
theory Vif_Vtir
  imports Vif_Value
begin

text \<open>
  The typed intermediate representation: its opcodes and the type of an instruction, \<^verbatim>\<open>src/ir/vtir/opcodes.rs\<close>, and references, \<^verbatim>\<open>src/ir/id.rs\<close>. The
  binary opcodes are one constructor with the operator, as in the untyped representation. Slices of the payload allocator are lists.
\<close>

section \<open>References\<close>

text \<open>\<^verbatim>\<open>InstructionRef<IR>\<close>, of both representations: an instruction or the index of an interned value.\<close>

datatype inst_ref = R_Instruction nat | R_Interned vindex

definition is_interned :: "inst_ref \<Rightarrow> bool" where
  "is_interned r = (case r of R_Instruction _ \<Rightarrow> False | R_Interned _ \<Rightarrow> True)"

definition as_interned :: "inst_ref \<Rightarrow> vindex outcome" where
  "as_interned r = (case r of R_Instruction _ \<Rightarrow> Panics | R_Interned i \<Rightarrow> Returns i)"

definition as_interned_opt :: "inst_ref \<Rightarrow> vindex option" where
  "as_interned_opt r = (case r of R_Instruction _ \<Rightarrow> None | R_Interned i \<Rightarrow> Some i)"

section \<open>Opcodes\<close>

record switch_case =
  sc_items :: "inst_ref list"
  sc_body :: "inst_ref list"

datatype (plugins only: code) topcode =
    T_Invalid | T_Noop
  | T_Block "inst_ref list" vindex
  | T_Break nat inst_ref
  | T_Loop "inst_ref list" vindex
  | T_Repeat nat
  | T_FnArg string vindex
  | T_StackAlloc vindex
  | T_StackAllocInferred bool
  | T_Load inst_ref
  | T_Store inst_ref inst_ref
  | T_Return "inst_ref option"
  | T_FnCall inst_ref "inst_ref list"
  | T_StructInit vindex "inst_ref list"
  | T_ArrayInit vindex "inst_ref list"
  | T_SliceInit vindex "inst_ref list"
  | T_AnyptrInit inst_ref vindex
  | T_StructFieldValue inst_ref nat vindex
  | T_StructFieldPtr inst_ref nat vindex
  | T_UnionInit vindex nat "inst_ref option"
  | T_UnionTag inst_ref vindex
  | T_UnionFieldValue inst_ref nat vindex
  | T_BoolNot inst_ref
  | T_Bin infix_op_kind inst_ref inst_ref
  | T_BitNot inst_ref
  | T_UnsafeIntCast inst_ref vindex
  | T_UnsafeFloatCast inst_ref vindex
  | T_IntToFloat inst_ref vindex
  | T_Zeroed vindex
  | T_Undefined vindex
  | T_BitCast inst_ref vindex
  | T_AnyptrIs inst_ref vindex
  | T_AnyptrAs inst_ref vindex
  | T_AnyptrPtr inst_ref vindex
  | T_AnyptrFromRaw inst_ref inst_ref
  | T_AnyptrTypeInfo inst_ref vindex
  | T_SliceFromRawParts vindex inst_ref inst_ref
  | T_SlicePtr inst_ref vindex
  | T_SliceLen inst_ref
  | T_PtrToInt inst_ref vindex
  | T_IntToPtr inst_ref vindex
  | T_SliceCopyNonoverlapping vindex inst_ref inst_ref
  | T_SliceElemPtr inst_ref inst_ref vindex
  | T_PtrElemPtr inst_ref inst_ref vindex
  | T_DbgSrcLoc nat nat
  | T_Branch inst_ref "inst_ref list" "inst_ref list"
  | T_Switch inst_ref "switch_case list" "inst_ref list"
  | T_Abort | T_Unreachable

record vtir =
  vtir_instructions :: "topcode list"
  vtir_main_body :: "inst_ref list"

section \<open>The type of an instruction\<close>

definition is_comparison :: "infix_op_kind \<Rightarrow> bool" where
  "is_comparison k \<longleftrightarrow> k \<in> {O_Lt, O_Lte, O_Gt, O_Gte, O_BoolAnd, O_BoolOr, O_Eq, O_Neq}"

text \<open>The answer that an opcode gives alone, or the operand whose type decides, with what is made of it.\<close>

datatype type_source = TS_Type vindex | TS_Same inst_ref | TS_ReturnOf inst_ref | TS_PointeeOf inst_ref | TS_Unreachable

primrec opcode_type :: "common_values \<Rightarrow> topcode \<Rightarrow> type_source" where
  "opcode_type c T_Invalid = TS_Unreachable"
| "opcode_type c T_Noop = TS_Type (cv_void_t c)"
| "opcode_type c (T_Block _ ret_ty) = TS_Type ret_ty"
| "opcode_type c (T_Break _ _) = TS_Type (cv_void_t c)"
| "opcode_type c (T_Loop _ ret_ty) = TS_Type ret_ty"
| "opcode_type c (T_Repeat _) = TS_Type (cv_void_t c)"
| "opcode_type c (T_FnArg _ ty) = TS_Type ty"
| "opcode_type c (T_StackAlloc ty) = TS_Type ty"
| "opcode_type c (T_StackAllocInferred _) = TS_Unreachable"
| "opcode_type c (T_Load ptr) = TS_PointeeOf ptr"
| "opcode_type c (T_Store _ _) = TS_Type (cv_void_t c)"
| "opcode_type c (T_Return _) = TS_Type (cv_void_t c)"
| "opcode_type c (T_FnCall callee _) = TS_ReturnOf callee"
| "opcode_type c (T_StructInit struct_ty _) = TS_Type struct_ty"
| "opcode_type c (T_ArrayInit array_ty _) = TS_Type array_ty"
| "opcode_type c (T_SliceInit slice_ty _) = TS_Type slice_ty"
| "opcode_type c (T_AnyptrInit _ _) = TS_Type (cv_anyptr_t c)"
| "opcode_type c (T_StructFieldValue _ _ ret_ty) = TS_Type ret_ty"
| "opcode_type c (T_StructFieldPtr _ _ ret_ty) = TS_Type ret_ty"
| "opcode_type c (T_UnionInit union_ty _ _) = TS_Type union_ty"
| "opcode_type c (T_UnionTag _ tag_ty) = TS_Type tag_ty"
| "opcode_type c (T_UnionFieldValue _ _ ret_ty) = TS_Type ret_ty"
| "opcode_type c (T_BoolNot _) = TS_Type (cv_bool_t c)"
| "opcode_type c (T_Bin k lhs _) = (if is_comparison k then TS_Type (cv_bool_t c) else TS_Same lhs)"
| "opcode_type c (T_BitNot op) = TS_Same op"
| "opcode_type c (T_UnsafeIntCast _ dst_ty) = TS_Type dst_ty"
| "opcode_type c (T_UnsafeFloatCast _ dst_ty) = TS_Type dst_ty"
| "opcode_type c (T_IntToFloat _ dst_ty) = TS_Type dst_ty"
| "opcode_type c (T_Zeroed ty) = TS_Type ty"
| "opcode_type c (T_Undefined ty) = TS_Type ty"
| "opcode_type c (T_BitCast _ dst_ty) = TS_Type dst_ty"
| "opcode_type c (T_AnyptrIs _ _) = TS_Type (cv_bool_t c)"
| "opcode_type c (T_AnyptrAs _ target_ty) = TS_Type target_ty"
| "opcode_type c (T_AnyptrPtr _ ptr_ty) = TS_Type ptr_ty"
| "opcode_type c (T_AnyptrFromRaw _ _) = TS_Type (cv_anyptr_t c)"
| "opcode_type c (T_AnyptrTypeInfo _ ty) = TS_Type ty"
| "opcode_type c (T_SliceFromRawParts slice_ty _ _) = TS_Type slice_ty"
| "opcode_type c (T_SlicePtr _ ptr_ty) = TS_Type ptr_ty"
| "opcode_type c (T_SliceLen _) = TS_Type (cv_usize_t c)"
| "opcode_type c (T_PtrToInt _ dst_ty) = TS_Type dst_ty"
| "opcode_type c (T_IntToPtr _ dst_ty) = TS_Type dst_ty"
| "opcode_type c (T_SliceCopyNonoverlapping _ _ _) = TS_Type (cv_void_t c)"
| "opcode_type c (T_SliceElemPtr _ _ elem_ptr_ty) = TS_Type elem_ptr_ty"
| "opcode_type c (T_PtrElemPtr _ _ elem_ptr_ty) = TS_Type elem_ptr_ty"
| "opcode_type c (T_DbgSrcLoc _ _) = TS_Type (cv_void_t c)"
| "opcode_type c (T_Branch _ _ _) = TS_Type (cv_void_t c)"
| "opcode_type c (T_Switch _ _ _) = TS_Type (cv_void_t c)"
| "opcode_type c T_Abort = TS_Type (cv_never_t c)"
| "opcode_type c T_Unreachable = TS_Type (cv_never_t c)"

text \<open>
  The recursion follows operands, which are earlier instructions: only the instructions before the one it is at are kept, and an operand that is not
  earlier, on which \<^verbatim>\<open>type_of\<close> need not end, is \<open>None\<close>.
\<close>

function type_of_ref :: "'h value_store \<Rightarrow> topcode list \<Rightarrow> nat \<Rightarrow> inst_ref \<Rightarrow> vindex outcome option" where
  "type_of_ref S insts bound (R_Interned i) = Some (type_of_interned S i)"
| "type_of_ref S insts bound (R_Instruction n) =
     (if \<not> n < length insts then Some Panics
      else if \<not> n < bound then None
      else case opcode_type (vs_common S) (insts ! n) of
             TS_Type ty \<Rightarrow> Some (Returns ty)
           | TS_Same r \<Rightarrow> type_of_ref S insts n r
           | TS_ReturnOf r \<Rightarrow>
               map_option (\<lambda>m. bind_outcome m (\<lambda>ty. bind_outcome (index_to_key S ty) (\<lambda>k. bind_outcome (as_type_fn k) (\<lambda>f. Returns (tf_ret_ty f)))))
                 (type_of_ref S insts n r)
           | TS_PointeeOf r \<Rightarrow>
               map_option (\<lambda>m. bind_outcome m (\<lambda>ty. bind_outcome (index_to_key S ty) (\<lambda>k. bind_outcome (as_type_ptr k) (\<lambda>p. Returns (tp_pointee_ty p)))))
                 (type_of_ref S insts n r)
           | TS_Unreachable \<Rightarrow> Some Panics)"
  by pat_completeness auto
termination by (relation "measure (\<lambda>(_, _, bound, r). 2 * bound + (case r of R_Instruction _ \<Rightarrow> 1 | R_Interned _ \<Rightarrow> 0))") (auto split: inst_ref.splits)

definition vtir_type_of :: "'h value_store \<Rightarrow> topcode list \<Rightarrow> inst_ref \<Rightarrow> vindex outcome option" where
  "vtir_type_of S insts r = type_of_ref S insts (length insts) r"

end
