(* ===== verification/Vif_Sema.thy ===== *)
theory Vif_Sema
  imports Vif_Vtir Vif_Layout Vif_Vuir
begin

text \<open>
  Semantic analysis, \<^verbatim>\<open>src/compile_unit/sema.rs\<close>: its state, blocks and the bookkeeping around them. Analysis turns untyped instructions into typed ones
  and into interned values; a value that is interned is known at compile time.

  A call returns, fails with an \<^verbatim>\<open>AnalyzeError\<close>, panics, or descends deeper than the depth it is given (\<open>S_Deep\<close>). The state holds the value store and
  the parts of the compilation unit that analysis reads and writes. A diagnostic is the kind of its message with what the message names; its spans
  are those of the primary label. The calls back into the compilation unit (analysis of another declaration or module, run-time type information) and
  the arithmetic of \<^verbatim>\<open>f128\<close> are fields of the environment. A hash map whose order is observed is a list of its entries in that order.
\<close>

section \<open>State\<close>

datatype analyze_error = AE_AnalysisFailed | AE_ComptimeBreak nat inst_ref | AE_InlineReturn "inst_ref option"

datatype control_flow = CF_Always | CF_May | CF_Never

definition control_flow_join :: "control_flow \<Rightarrow> control_flow \<Rightarrow> control_flow" where
  "control_flow_join a b =
     (case (a, b) of (CF_Always, CF_Always) \<Rightarrow> CF_Always | (CF_Never, CF_Never) \<Rightarrow> CF_Never | _ \<Rightarrow> CF_May)"

record decl_fn_param =
  dfp_name :: string
  dfp_ty :: vindex
  dfp_vuir_id :: nat
  dfp_comptime :: bool
  dfp_span :: span

record vuir_block_analysis_data =
  vb_block_inst :: inst_ref
  vb_breaks :: "inst_ref list"

record runtime_capture_env =
  rce_ptr :: inst_ref
  rce_ty :: vindex
  rce_fields :: "(global_vuir_instruction_id \<times> nat) list"

record block =
  bk_namespace :: nat
  bk_parent :: "nat option"
  bk_instructions :: "inst_ref list"
  bk_vuir_block :: "vuir_block_analysis_data option"
  bk_comptime :: bool
  bk_inlined :: bool
  bk_base_type_name :: string
  bk_decl_fn_params :: "decl_fn_param list"
  bk_capture_context :: "runtime_capture_env option"

record comptime_alloc =
  ca_ty :: vindex
  ca_value :: vindex
  ca_span :: span

record linear_slot =
  ls_ty :: vindex
  ls_span :: span
  ls_consumed :: bool
  ls_consumed_at :: "span option"
  ls_name :: string

datatype decl_analysis_state = DS_Unanalysed nat nat | DS_Failed analyze_error | DS_TypeKnown vindex | DS_Analysed vindex

record cu_decl =
  cd_name :: string
  cd_is_const :: bool
  cd_module :: nat
  cd_namespace :: nat
  cd_analysis_state :: decl_analysis_state

record namespace =
  ns_parent :: "nat option"
  ns_decls :: "string \<rightharpoonup> nat"
  ns_owner_type :: vindex

text \<open>The messages of diagnostics.\<close>

datatype (plugins only: code) sema_msg =
    M_NotArithmetic vindex | M_NotArithmeticRhs vindex | M_ArithmeticTypes vindex vindex
  | M_NotBitwiseLhs vindex | M_NotBitwiseRhs vindex | M_BitwiseTypes vindex vindex | M_NegativeShift | M_ShiftTooLarge nat nat
  | M_ShiftOnBool | M_NotBitNot vindex | M_CompareTypes vindex vindex
  | M_ComptimeOnlyToAnyptr vindex | M_IntTooLarge anyint vindex | M_NoComptimeValue | M_FloatTooLarge f128 vindex | M_PrecisionLoss f128 vindex
  | M_PointeeTypes vindex vindex | M_ConstToMut | M_ExpectedType vindex vindex
  | M_BareUnionSwitch | M_SwitchNeedsElse | M_NotExhaustive nat string | M_TypeNotComptime
  | M_VariadicInt | M_Variadic vindex | M_NotInRuntime vindex
  | M_FieldNotFound string vindex | M_DeclNotFound string vindex | M_MovedLinear string span "span option" | M_LoadNotPtr vindex
  | M_BareUnionField | M_NoFields vindex | M_NoFieldOrDecl vindex | M_ExpectedPointer vindex | M_IndexNotPtr vindex | M_NotIndexable vindex
  | M_UnionInitOneField | M_NotInitializable vindex | M_FieldNotInitialized string | M_ArrayElements nat nat | M_NotArrayInit vindex
  | M_MissingReturn | M_UnconsumedLinear string vindex | M_CaptureForwarding
  | M_ExpectedEnum vindex | M_ModuleNotFound string | M_ReturnNotPtr vindex | M_AbortInComptime | M_UnreachableInComptime
  | M_BitcastSize vindex nat vindex nat | M_ExpectedAnyptr vindex
  | M_ArgumentTwice nat | M_NoParameterNamed string | M_NamedNeedsStaticCallee string | M_TooManyArguments nat | M_MissingArgument nat

record 'h sema =
  sa_values :: "'h value_store"
  sa_instructions :: "topcode list"
  sa_vuir_map :: "nat \<rightharpoonup> inst_ref"
  sa_blocks :: "block list"
  sa_potential_comptime_allocs :: "inst_ref \<rightharpoonup> (inst_ref \<times> span) list"
  sa_comptime_allocs :: "comptime_alloc list"
  sa_linear_slots :: "(inst_ref \<times> linear_slot) list"
  sa_errors :: "(sema_msg \<times> span option) list"
  sa_decls :: "cu_decl list"
  sa_namespaces :: "namespace list"

section \<open>Calls\<close>

datatype ('a, 's) sema_result = S_Ok 'a 's | S_Err analyze_error 's | S_Panics | S_Deep

type_synonym ('a, 'h) sema_m = "'h sema \<Rightarrow> ('a, 'h sema) sema_result"

definition s_ret :: "'a \<Rightarrow> ('a, 'h) sema_m" where
  "s_ret x st = S_Ok x st"

definition s_bind :: "('a, 'h) sema_m \<Rightarrow> ('a \<Rightarrow> ('b, 'h) sema_m) \<Rightarrow> ('b, 'h) sema_m" where
  "s_bind m f st = (case m st of S_Ok x st' \<Rightarrow> f x st' | S_Err e st' \<Rightarrow> S_Err e st' | S_Panics \<Rightarrow> S_Panics | S_Deep \<Rightarrow> S_Deep)"

definition s_lift :: "'a outcome \<Rightarrow> ('a, 'h) sema_m" where
  "s_lift m st = (case m of Returns x \<Rightarrow> S_Ok x st | Panics \<Rightarrow> S_Panics)"

definition s_deep :: "'a deep \<Rightarrow> ('a, 'h) sema_m" where
  "s_deep m st = (case m of Some m \<Rightarrow> s_lift m st | None \<Rightarrow> S_Deep)"

definition s_get :: "('h sema \<Rightarrow> 'a) \<Rightarrow> ('a, 'h) sema_m" where
  "s_get f st = S_Ok (f st) st"

definition s_panic :: "('a, 'h) sema_m" where
  "s_panic st = S_Panics"

definition s_throw :: "analyze_error \<Rightarrow> ('a, 'h) sema_m" where
  "s_throw e st = S_Err e st"

definition push_error :: "sema_msg \<Rightarrow> span option \<Rightarrow> (unit, 'h) sema_m" where
  "push_error msg span st = S_Ok () (st\<lparr>sa_errors := sa_errors st @ [(msg, span)]\<rparr>)"

text \<open>The two lines that end most failures: a diagnostic and \<^verbatim>\<open>Err(AnalysisFailed)\<close>.\<close>

definition s_fail :: "sema_msg \<Rightarrow> span \<Rightarrow> ('a, 'h) sema_m" where
  "s_fail msg span = s_bind (push_error msg (Some span)) (\<lambda>_. s_throw AE_AnalysisFailed)"

fun s_map :: "('a \<Rightarrow> ('b, 'h) sema_m) \<Rightarrow> 'a list \<Rightarrow> ('b list, 'h) sema_m" where
  "s_map f [] = s_ret []"
| "s_map f (x # xs) = s_bind (f x) (\<lambda>y. s_bind (s_map f xs) (\<lambda>ys. s_ret (y # ys)))"

lemma s_simps [simp]:
  "s_ret x st = S_Ok x st" "s_get g st = S_Ok (g st) st" "s_throw e st = S_Err e st" "s_panic st = S_Panics"
  "s_lift (Returns x) st = S_Ok x st" "s_lift Panics st = S_Panics" "s_deep (Some o1) st = s_lift o1 st" "s_deep None st = S_Deep"
  "push_error msg span st = S_Ok () (st\<lparr>sa_errors := sa_errors st @ [(msg, span)]\<rparr>)"
  "s_fail msg s st = S_Err AE_AnalysisFailed (st\<lparr>sa_errors := sa_errors st @ [(msg, Some s)]\<rparr>)"
  by (simp_all add: s_ret_def s_get_def s_throw_def s_panic_def s_lift_def s_deep_def push_error_def s_fail_def s_bind_def)

lemma s_bind_simps [simp]:
  "m st = S_Ok x st' \<Longrightarrow> s_bind m f st = f x st'" "m st = S_Err e st' \<Longrightarrow> s_bind m f st = S_Err e st'"
  "m st = S_Panics \<Longrightarrow> s_bind m f st = S_Panics" "m st = S_Deep \<Longrightarrow> s_bind m f st = S_Deep"
  by (simp_all add: s_bind_def)

lemma s_bind_Ok: "s_bind m f st = S_Ok y st'' \<longleftrightarrow> (\<exists>x st'. m st = S_Ok x st' \<and> f x st' = S_Ok y st'')"
  by (auto simp: s_bind_def split: sema_result.splits)

lemma s_lift_Ok: "s_lift m st = S_Ok x st' \<longleftrightarrow> m = Returns x \<and> st' = st"
  by (auto simp: s_lift_def split: outcome.splits)

lemma s_deep_Ok: "s_deep m st = S_Ok x st' \<longleftrightarrow> m = d_ret x \<and> st' = st"
  by (auto simp: s_deep_def s_lift_def split: outcome.splits option.splits)

section \<open>The environment\<close>

record float_ops =
  fl_add :: "f128 \<Rightarrow> f128 \<Rightarrow> f128"
  fl_sub :: "f128 \<Rightarrow> f128 \<Rightarrow> f128"
  fl_mul :: "f128 \<Rightarrow> f128 \<Rightarrow> f128"
  fl_div :: "f128 \<Rightarrow> f128 \<Rightarrow> f128"
  fl_lt :: "f128 \<Rightarrow> f128 \<Rightarrow> bool"
  fl_le :: "f128 \<Rightarrow> f128 \<Rightarrow> bool"
  fl_eq :: "f128 \<Rightarrow> f128 \<Rightarrow> bool"
  fl_round :: "vtype \<Rightarrow> f128 \<Rightarrow> f128"
  fl_max :: "vtype \<Rightarrow> f128"

record 'h sema_env =
  en_values :: "'h value_env"
  en_target :: target_info
  en_depth :: nat
  en_floats :: float_ops
  en_module :: nat
  en_owner_decl :: nat
  en_get_or_analyze_decl_value :: "nat \<Rightarrow> (vindex option, 'h) sema_m"
  en_analyze_type_info :: "vindex \<Rightarrow> (nat, 'h) sema_m"
  en_type_info_entry :: "nat \<Rightarrow> vindex"
  en_builtin_type_info :: "(vindex, 'h) sema_m"
  en_root_module :: nat
  en_std_module :: nat
  en_builtin_module :: nat
  en_module_at :: "nat \<Rightarrow> string \<Rightarrow> nat option"
  en_get_or_analyze_module :: "nat \<Rightarrow> (vindex, 'h) sema_m"

section \<open>The value store\<close>

definition s_key :: "vindex \<Rightarrow> (vkey, 'h) sema_m" where
  "s_key i = s_bind (s_get sa_values) (\<lambda>S. s_lift (index_to_key S i))"

definition s_key_value :: "vindex \<Rightarrow> (vkey \<times> vvalue, 'h) sema_m" where
  "s_key_value i = s_bind (s_get sa_values) (\<lambda>S. s_lift (index_to_key_value S i))"

definition s_value :: "vindex \<Rightarrow> (vvalue, 'h) sema_m" where
  "s_value i = s_bind (s_get sa_values) (\<lambda>S. s_lift (index_to_value S i))"

definition s_common :: "(common_values \<Rightarrow> 'a) \<Rightarrow> ('a, 'h) sema_m" where
  "s_common f = s_get (\<lambda>st. f (vs_common (sa_values st)))"

definition s_stored :: "('h value_store \<Rightarrow> ('h value_store \<times> 'a) outcome) \<Rightarrow> ('a, 'h) sema_m" where
  "s_stored f st = (case f (sa_values st) of Returns (S, x) \<Rightarrow> S_Ok x (st\<lparr>sa_values := S\<rparr>) | Panics \<Rightarrow> S_Panics)"

definition s_intern :: "'h sema_env \<Rightarrow> vkey \<Rightarrow> (vindex, 'h) sema_m" where
  "s_intern E k = s_stored (\<lambda>S. intern_trivial (en_values E) S k)"

definition s_intern_ref :: "'h sema_env \<Rightarrow> vkey \<Rightarrow> (inst_ref, 'h) sema_m" where
  "s_intern_ref E k = s_bind (s_intern E k) (\<lambda>i. s_ret (R_Interned i))"

definition s_intern_ptr_type :: "'h sema_env \<Rightarrow> vindex \<Rightarrow> bool \<Rightarrow> (vindex, 'h) sema_m" where
  "s_intern_ptr_type E pointee is_const = s_intern E (VK_Type (VT_Ptr \<lparr>tp_pointee_ty = pointee, tp_packed = None, tp_is_const = is_const\<rparr>))"

definition sema_type_of :: "inst_ref \<Rightarrow> (vindex, 'h) sema_m" where
  "sema_type_of r = s_bind (s_get (\<lambda>st. vtir_type_of (sa_values st) (sa_instructions st) r)) s_deep"

definition type_key :: "inst_ref \<Rightarrow> (vkey, 'h) sema_m" where
  "type_key r = s_bind (sema_type_of r) s_key"

abbreviation try_resolve_comptime_value :: "inst_ref \<Rightarrow> vindex option" where
  "try_resolve_comptime_value \<equiv> as_interned_opt"

text \<open>The key of a value that is known at compile time.\<close>

definition comptime_key :: "inst_ref \<Rightarrow> (vkey option, 'h) sema_m" where
  "comptime_key r =
     (case try_resolve_comptime_value r of None \<Rightarrow> s_ret None | Some i \<Rightarrow> s_bind (s_key i) (\<lambda>k. s_ret (Some k)))"

definition resolve_inst :: "inst_ref \<Rightarrow> (inst_ref, 'h) sema_m" where
  "resolve_inst r =
     (case r of
        R_Instruction i \<Rightarrow> s_bind (s_get (\<lambda>st. sa_vuir_map st i)) (\<lambda>x. case x of Some t \<Rightarrow> s_ret t | None \<Rightarrow> s_panic)
      | R_Interned i \<Rightarrow> s_ret (R_Interned i))"

definition vuir_map_insert :: "nat \<Rightarrow> inst_ref \<Rightarrow> (unit, 'h) sema_m" where
  "vuir_map_insert i r st = S_Ok () (st\<lparr>sa_vuir_map := (sa_vuir_map st)(i \<mapsto> r)\<rparr>)"

section \<open>Blocks and instructions\<close>

definition get_block :: "nat \<Rightarrow> (block, 'h) sema_m" where
  "get_block b = s_bind (s_get sa_blocks) (\<lambda>bs. if b < length bs then s_ret (bs ! b) else s_panic)"

definition inst_id :: "nat \<Rightarrow> topcode \<Rightarrow> (nat, 'h) sema_m" where
  "inst_id block opcode st =
     (let n = length (sa_instructions st) in
      s_bind (s_lift (instruction_id_from_usize n)) (\<lambda>i.
      s_bind (get_block block) (\<lambda>b st. S_Ok i (st\<lparr>sa_blocks := (sa_blocks st)[block := b\<lparr>bk_instructions := bk_instructions b @ [R_Instruction i]\<rparr>]\<rparr>)))
        (st\<lparr>sa_instructions := sa_instructions st @ [opcode]\<rparr>))"

definition inst :: "nat \<Rightarrow> topcode \<Rightarrow> (inst_ref, 'h) sema_m" where
  "inst block opcode = s_bind (inst_id block opcode) (\<lambda>i. s_ret (R_Instruction i))"

definition push_child_block :: "(block \<Rightarrow> block) \<Rightarrow> nat \<Rightarrow> (nat, 'h) sema_m" where
  "push_child_block f parent =
     s_bind (get_block parent) (\<lambda>p st.
       S_Ok (length (sa_blocks st)) (st\<lparr>sa_blocks := sa_blocks st @
         [f \<lparr>bk_namespace = bk_namespace p, bk_parent = Some parent, bk_instructions = [], bk_vuir_block = None, bk_comptime = False,
           bk_inlined = bk_inlined p, bk_base_type_name = bk_base_type_name p, bk_decl_fn_params = [], bk_capture_context = bk_capture_context p\<rparr>]\<rparr>))"

definition child_block :: "nat \<Rightarrow> (nat, 'h) sema_m" where
  "child_block parent = push_child_block (\<lambda>b. b) parent"

definition child_block_from_vuir_block :: "nat \<Rightarrow> vuir_block_analysis_data \<Rightarrow> (nat, 'h) sema_m" where
  "child_block_from_vuir_block parent vuir_block =
     s_bind (get_block parent) (\<lambda>p. push_child_block (\<lambda>b. b\<lparr>bk_vuir_block := Some vuir_block, bk_comptime := bk_comptime p\<rparr>) parent)"

definition unstack_block :: "nat \<Rightarrow> (block, 'h) sema_m" where
  "unstack_block block =
     s_bind (get_block block) (\<lambda>b st.
       if block = length (sa_blocks st) - 1 then S_Ok b (st\<lparr>sa_blocks := butlast (sa_blocks st)\<rparr>) else S_Panics)"

definition finish :: "nat \<Rightarrow> (vtir, 'h) sema_m" where
  "finish main_block =
     s_bind (get_block main_block) (\<lambda>b.
       s_get (\<lambda>st. \<lparr>vtir_instructions = sa_instructions st, vtir_main_body = bk_instructions b\<rparr>))"

definition with_different_block_namespace :: "nat \<Rightarrow> nat \<Rightarrow> ('a, 'h) sema_m \<Rightarrow> ('a, 'h) sema_m" where
  "with_different_block_namespace block namespace f st =
     s_bind (get_block block) (\<lambda>b st.
       let restore = (\<lambda>st. st\<lparr>sa_blocks := (sa_blocks st)[block := ((sa_blocks st) ! block)\<lparr>bk_namespace := bk_namespace b\<rparr>]\<rparr>) in
       case f (st\<lparr>sa_blocks := (sa_blocks st)[block := b\<lparr>bk_namespace := namespace\<rparr>]\<rparr>) of
         S_Ok x st' \<Rightarrow> if block < length (sa_blocks st') then S_Ok x (restore st') else S_Panics
       | S_Err e st' \<Rightarrow> if block < length (sa_blocks st') then S_Err e (restore st') else S_Panics
       | S_Panics \<Rightarrow> S_Panics | S_Deep \<Rightarrow> S_Deep) st"

section \<open>Namespaces and captures\<close>

definition lookup_decl_in_namespace :: "nat \<Rightarrow> string \<Rightarrow> (nat option, 'h) sema_m" where
  "lookup_decl_in_namespace namespace name =
     s_bind (s_get sa_namespaces) (\<lambda>ns. if namespace < length ns then s_ret (ns_decls (ns ! namespace) name) else s_panic)"

text \<open>The loop over the parents; a cycle of parents would not end.\<close>

fun lookup_up :: "nat \<Rightarrow> namespace list \<Rightarrow> nat \<Rightarrow> string \<Rightarrow> nat option deep" where
  "lookup_up 0 ns namespace name = None"
| "lookup_up (Suc n) ns namespace name =
     (if namespace < length ns
      then case ns_decls (ns ! namespace) name of
             Some d \<Rightarrow> d_ret (Some d)
           | None \<Rightarrow> (case ns_parent (ns ! namespace) of None \<Rightarrow> d_ret None | Some p \<Rightarrow> lookup_up n ns p name)
      else Some Panics)"

definition lookup_decl_in_namespace_recursively :: "nat \<Rightarrow> string \<Rightarrow> (nat option, 'h) sema_m" where
  "lookup_decl_in_namespace_recursively namespace name =
     s_bind (s_get sa_namespaces) (\<lambda>ns. s_deep (lookup_up (Suc (length ns)) ns namespace name))"

definition namespace_captures :: "vindex \<Rightarrow> (value_capture list option, 'h) sema_m" where
  "namespace_captures owner_type =
     s_bind (s_key owner_type) (\<lambda>k. s_ret
       (case k of
          VK_Type (VT_Struct ns) \<Rightarrow> Some (nt_captures ns) | VK_Type (VT_Enum ns) \<Rightarrow> Some (nt_captures ns)
        | VK_Type (VT_Union ns) \<Rightarrow> Some (nt_captures ns) | _ \<Rightarrow> None))"

datatype vuir_capture = VCap_FromParent nat | VCap_Id nat

definition resolve_vuir_capture :: "'h sema_env \<Rightarrow> nat \<Rightarrow> vuir_capture \<Rightarrow> (value_capture, 'h) sema_m" where
  "resolve_vuir_capture E block capture =
     (case capture of
        VCap_Id i \<Rightarrow>
          s_bind (resolve_inst (R_Instruction i)) (\<lambda>r.
            case as_interned_opt r of
              Some index \<Rightarrow> s_ret (VC_Comptime index)
            | None \<Rightarrow> s_ret (VC_Runtime \<lparr>gi_module = en_module E, gi_inst = i\<rparr>))
      | VCap_FromParent parent \<Rightarrow>
          s_bind (get_block block) (\<lambda>b.
          s_bind (s_get sa_namespaces) (\<lambda>ns.
          s_bind (if bk_namespace b < length ns then s_ret (ns_owner_type (ns ! bk_namespace b)) else s_panic) (\<lambda>owner_type.
          s_bind (namespace_captures owner_type) (\<lambda>cs.
            case cs of
              None \<Rightarrow> s_bind (push_error M_CaptureForwarding None) (\<lambda>_. s_throw AE_AnalysisFailed)
            | Some cs \<Rightarrow> if parent < length cs then s_ret (cs ! parent) else s_panic)))))"

definition resolve_vuir_captures :: "'h sema_env \<Rightarrow> nat \<Rightarrow> vuir_capture list \<Rightarrow> (value_capture list, 'h) sema_m" where
  "resolve_vuir_captures E block captures = s_map (resolve_vuir_capture E block) captures"

section \<open>Compile-time memory\<close>

definition comptime_memory_allocate :: "'h sema_env \<Rightarrow> vindex \<Rightarrow> span \<Rightarrow> (nat, 'h) sema_m" where
  "comptime_memory_allocate E ty span =
     s_bind (s_intern E (VK_Undefined ty)) (\<lambda>value st.
       S_Ok (length (sa_comptime_allocs st)) (st\<lparr>sa_comptime_allocs := sa_comptime_allocs st @ [\<lparr>ca_ty = ty, ca_value = value, ca_span = span\<rparr>]\<rparr>))"

definition link_store_to_potential_comptime_alloc :: "inst_ref \<Rightarrow> inst_ref \<Rightarrow> span \<Rightarrow> (unit, 'h) sema_m" where
  "link_store_to_potential_comptime_alloc alloc_inst store_inst span st =
     S_Ok () (case sa_potential_comptime_allocs st alloc_inst of
       None \<Rightarrow> st
     | Some stores \<Rightarrow> st\<lparr>sa_potential_comptime_allocs := (sa_potential_comptime_allocs st)(alloc_inst \<mapsto> stores @ [(store_inst, span)])\<rparr>)"

section \<open>Linear values\<close>

fun set_slot :: "inst_ref \<Rightarrow> linear_slot \<Rightarrow> (inst_ref \<times> linear_slot) list \<Rightarrow> (inst_ref \<times> linear_slot) list" where
  "set_slot r s [] = [(r, s)]"
| "set_slot r s ((r', s') # xs) = (if r' = r then (r, s) # xs else (r', s') # set_slot r s xs)"

definition register_linear_param :: "inst_ref \<Rightarrow> string \<Rightarrow> vindex \<Rightarrow> span \<Rightarrow> (unit, 'h) sema_m" where
  "register_linear_param r name ty span st =
     S_Ok () (st\<lparr>sa_linear_slots :=
       set_slot r \<lparr>ls_ty = ty, ls_span = span, ls_consumed = False, ls_consumed_at = None, ls_name = name\<rparr> (sa_linear_slots st)\<rparr>)"

text \<open>The move out of a slot: the lines that \<^verbatim>\<open>analyze_load\<close> and \<^verbatim>\<open>try_consume_linear_value\<close> share.\<close>

definition consume_slot :: "inst_ref \<Rightarrow> span \<Rightarrow> (unit, 'h) sema_m" where
  "consume_slot r span st =
     (case map_of (sa_linear_slots st) r of
        None \<Rightarrow> S_Ok () st
      | Some slot \<Rightarrow>
          if ls_consumed slot then s_fail (M_MovedLinear (ls_name slot) (ls_span slot) (ls_consumed_at slot)) span st
          else S_Ok () (st\<lparr>sa_linear_slots := set_slot r (slot\<lparr>ls_consumed := True, ls_consumed_at := Some span\<rparr>) (sa_linear_slots st)\<rparr>))"

definition try_consume_linear_value :: "inst_ref \<Rightarrow> span \<Rightarrow> (unit, 'h) sema_m" where
  "try_consume_linear_value value span =
     s_bind (sema_type_of value) (\<lambda>ty.
     s_bind (s_get sa_values) (\<lambda>S.
     s_bind (s_lift (type_is_linear S ty)) (\<lambda>linear. if linear then consume_slot value span else s_ret ())))"

fun push_unconsumed :: "(inst_ref \<times> linear_slot) list \<Rightarrow> (unit, 'h) sema_m" where
  "push_unconsumed [] = s_ret ()"
| "push_unconsumed ((_, slot) # rest) =
     (if ls_consumed slot then push_unconsumed rest
      else s_bind (push_error (M_UnconsumedLinear (ls_name slot) (ls_ty slot)) (Some (ls_span slot))) (\<lambda>_. push_unconsumed rest))"

section \<open>Questions about types\<close>

primrec known_bit_size :: "nat \<Rightarrow> 'h value_store \<Rightarrow> vindex \<Rightarrow> nat option deep" where
  "known_bit_size 0 S ty = None"
| "known_bit_size (Suc n) S ty =
     d_bind (Some (index_to_key_value S ty)) (\<lambda>(key, value).
       case key of
         VK_Type t \<Rightarrow>
           (case t of
              VT_Int _ bits \<Rightarrow> d_ret (Some (unat bits))
            | VT_Bool \<Rightarrow> d_ret (Some 1) | VT_F16 \<Rightarrow> d_ret (Some 16) | VT_F32 \<Rightarrow> d_ret (Some 32)
            | VT_F64 \<Rightarrow> d_ret (Some 64) | VT_F128 \<Rightarrow> d_ret (Some 128) | VT_Void \<Rightarrow> d_ret (Some 0)
            | VT_Struct _ \<Rightarrow>
                (case value of
                   VV_Struct s \<Rightarrow> d_ret (case ts_layout s of SL_Packed _ fields_bits _ \<Rightarrow> Some fields_bits | SL_Standard \<Rightarrow> None)
                 | _ \<Rightarrow> Some Panics)
            | VT_Enum _ \<Rightarrow> (case value of VV_Enum e \<Rightarrow> known_bit_size n S (te_tag_ty e) | _ \<Rightarrow> Some Panics)
            | _ \<Rightarrow> d_ret None)
       | _ \<Rightarrow> d_ret None)"

definition ensure_type_exist_in_runtime :: "'h sema_env \<Rightarrow> vindex \<Rightarrow> span \<Rightarrow> (unit, 'h) sema_m" where
  "ensure_type_exist_in_runtime E ty span =
     s_bind (s_get sa_values) (\<lambda>S.
     s_bind (s_deep (type_is_comptime_only (en_depth E) S ty)) (\<lambda>b. if b then s_fail (M_NotInRuntime ty) span else s_ret ()))"

end
