(* ===== verification/Vif_Sema_Ops.thy ===== *)
theory Vif_Sema_Ops
  imports Vif_Sema
begin

text \<open>
  Loads, fields, coercions and operators of semantic analysis, \<^verbatim>\<open>src/compile_unit/sema.rs\<close>. Operands that are known at compile time are computed,
  others become an instruction.
\<close>

section \<open>Loads and declarations\<close>

definition get_decl :: "nat \<Rightarrow> (cu_decl, 'h) sema_m" where
  "get_decl d = s_bind (s_get sa_decls) (\<lambda>ds. if d < length ds then s_ret (ds ! d) else s_panic)"

definition analysed_value :: "nat \<Rightarrow> (vindex, 'h) sema_m" where
  "analysed_value d = s_bind (get_decl d) (\<lambda>x. case cd_analysis_state x of DS_Analysed value \<Rightarrow> s_ret value | _ \<Rightarrow> s_panic)"

definition as_ptr_kind :: "vkey \<Rightarrow> ptr_kind outcome" where
  "as_ptr_kind k = (case k of VK_Ptr _ kind \<Rightarrow> Returns kind | _ \<Rightarrow> Panics)"

definition comptime_pointee :: "ptr_kind \<Rightarrow> (vindex, 'h) sema_m" where
  "comptime_pointee kind =
     (case kind of
        PK_Value value \<Rightarrow> s_ret value
      | PK_Decl decl \<Rightarrow> analysed_value decl
      | PK_ComptimeAlloc alloc \<Rightarrow>
          s_bind (s_get sa_comptime_allocs) (\<lambda>as. if alloc < length as then s_ret (ca_value (as ! alloc)) else s_panic))"

text \<open>A pointer to a declaration that is not constant is not read at compile time.\<close>

definition readable_at_comptime :: "vkey \<Rightarrow> (bool, 'h) sema_m" where
  "readable_at_comptime k =
     (case k of VK_Ptr _ (PK_Decl decl) \<Rightarrow> s_bind (get_decl decl) (\<lambda>d. s_ret (cd_is_const d)) | _ \<Rightarrow> s_ret True)"

definition analyze_load :: "nat \<Rightarrow> inst_ref \<Rightarrow> span \<Rightarrow> (inst_ref, 'h) sema_m" where
  "analyze_load block src span =
     s_bind (sema_type_of src) (\<lambda>src_ty.
     s_bind (s_key src_ty) (\<lambda>src_key.
     s_bind (case src_key of
               VK_Type (VT_Ptr ptr) \<Rightarrow>
                 s_bind (s_get sa_values) (\<lambda>S. s_bind (s_lift (type_is_linear S (tp_pointee_ty ptr))) (\<lambda>linear.
                   if linear then consume_slot src span else s_ret ()))
             | _ \<Rightarrow> s_ret ()) (\<lambda>_.
     s_bind (case src_key of VK_Type (VT_Ptr _) \<Rightarrow> s_ret () | _ \<Rightarrow> s_fail (M_LoadNotPtr src_ty) span) (\<lambda>_.
       case try_resolve_comptime_value src of
         None \<Rightarrow> inst block (T_Load src)
       | Some value \<Rightarrow>
           s_bind (s_key value) (\<lambda>k.
           s_bind (readable_at_comptime k) (\<lambda>readable.
             if readable then s_bind (s_lift (as_ptr_kind k)) (\<lambda>kind. s_bind (comptime_pointee kind) (\<lambda>v. s_ret (R_Interned v)))
             else inst block (T_Load src)))))))"

text \<open>\<^verbatim>\<open>self.cu.get_or_analyze_decl_value(decl)?.unwrap()\<close>\<close>

definition decl_value_unwrap :: "'h sema_env \<Rightarrow> nat \<Rightarrow> (vindex, 'h) sema_m" where
  "decl_value_unwrap E decl = s_bind (en_get_or_analyze_decl_value E decl) (\<lambda>v. case v of Some v \<Rightarrow> s_ret v | None \<Rightarrow> s_panic)"

definition decl_value_ref :: "'h sema_env \<Rightarrow> nat \<Rightarrow> (inst_ref, 'h) sema_m" where
  "decl_value_ref E decl = s_bind (decl_value_unwrap E decl) (\<lambda>v. s_ret (R_Interned v))"

definition intern_decl_ptr :: "'h sema_env \<Rightarrow> nat \<Rightarrow> vindex \<Rightarrow> (inst_ref, 'h) sema_m" where
  "intern_decl_ptr E decl value =
     s_bind (get_decl decl) (\<lambda>d.
     s_bind (s_get sa_values) (\<lambda>S.
     s_bind (s_lift (type_of_interned S value)) (\<lambda>pointee.
     s_bind (s_intern_ptr_type E pointee (cd_is_const d)) (\<lambda>ptr_ty. s_intern_ref E (VK_Ptr ptr_ty (PK_Decl decl))))))"

definition analyze_decl_ptr :: "'h sema_env \<Rightarrow> nat \<Rightarrow> (inst_ref, 'h) sema_m" where
  "analyze_decl_ptr E decl =
     s_bind (en_get_or_analyze_decl_value E decl) (\<lambda>v.
       case v of None \<Rightarrow> s_throw AE_AnalysisFailed | Some value \<Rightarrow> intern_decl_ptr E decl value)"

definition analyze_decl_val :: "'h sema_env \<Rightarrow> nat \<Rightarrow> nat \<Rightarrow> span \<Rightarrow> (inst_ref, 'h) sema_m" where
  "analyze_decl_val E block decl span = s_bind (analyze_decl_ptr E decl) (\<lambda>ptr. analyze_load block ptr span)"

section \<open>Fields\<close>

definition s_intern_enum_tag :: "'h sema_env \<Rightarrow> vindex \<Rightarrow> nat \<Rightarrow> (vindex, 'h) sema_m" where
  "s_intern_enum_tag E enum_ty i = s_stored (\<lambda>S. intern_enum_tag_from_field_idx (en_values E) S enum_ty i)"

definition s_intern_value_ptr :: "'h sema_env \<Rightarrow> vindex \<Rightarrow> (inst_ref, 'h) sema_m" where
  "s_intern_value_ptr E value = s_bind (s_stored (\<lambda>S. intern_value_ptr (en_values E) S value)) (\<lambda>i. s_ret (R_Interned i))"

text \<open>The element of a slice at an index that the source reads with \<^verbatim>\<open>[]\<close>.\<close>

definition s_nth :: "'a list \<Rightarrow> nat \<Rightarrow> ('a, 'h) sema_m" where
  "s_nth xs i = (if i < length xs then s_ret (xs ! i) else s_panic)"

text \<open>A name in a type: \<^verbatim>\<open>T.name\<close>.\<close>

definition type_field_val :: "'h sema_env \<Rightarrow> vindex \<Rightarrow> string \<Rightarrow> span \<Rightarrow> span \<Rightarrow> (inst_ref, 'h) sema_m" where
  "type_field_val E lhs field field_span span =
     s_bind (s_key_value lhs) (\<lambda>kv.
       case kv of
         (VK_Type (VT_Struct _), VV_Struct s) \<Rightarrow>
           s_bind (lookup_decl_in_namespace (ts_namespace s) field) (\<lambda>d.
             case d of None \<Rightarrow> s_fail (M_DeclNotFound field lhs) field_span | Some decl \<Rightarrow> decl_value_ref E decl)
       | (VK_Type (VT_Enum _), VV_Enum e) \<Rightarrow>
           s_bind (lookup_decl_in_namespace (te_namespace e) field) (\<lambda>d.
             case d of
               Some decl \<Rightarrow> decl_value_ref E decl
             | None \<Rightarrow>
                 (case enum_field_idx_by_name e field of
                    None \<Rightarrow> s_fail (M_FieldNotFound field lhs) field_span
                  | Some i \<Rightarrow> s_bind (s_nth (te_fields e) i) (\<lambda>f. s_intern_ref E (VK_EnumTag lhs (ef_value f)))))
       | (VK_Type (VT_Union _), VV_Union u) \<Rightarrow>
           (case union_field_idx_by_name u field of
              Some i \<Rightarrow>
                (case tu_tag_ty u of
                   Some tag_ty \<Rightarrow> s_bind (s_intern_enum_tag E tag_ty i) (\<lambda>t. s_ret (R_Interned t))
                 | None \<Rightarrow> s_fail M_BareUnionField span)
            | None \<Rightarrow>
                s_bind (lookup_decl_in_namespace (tu_namespace u) field) (\<lambda>d.
                  case d of Some decl \<Rightarrow> decl_value_ref E decl | None \<Rightarrow> s_fail (M_DeclNotFound field lhs) span))
       | _ \<Rightarrow> s_panic)"

definition s_comptime :: "inst_ref \<Rightarrow> (vindex, 'h) sema_m" where
  "s_comptime r = (case try_resolve_comptime_value r of Some i \<Rightarrow> s_ret i | None \<Rightarrow> s_panic)"

text \<open>A name that is not a field: a declaration in the namespace of the struct.\<close>

definition struct_decl_val :: "'h sema_env \<Rightarrow> type_struct \<Rightarrow> string \<Rightarrow> vindex \<Rightarrow> span \<Rightarrow> (inst_ref, 'h) sema_m" where
  "struct_decl_val E s field ty field_span =
     s_bind (lookup_decl_in_namespace (ts_namespace s) field) (\<lambda>d.
       case d of Some decl \<Rightarrow> decl_value_ref E decl | None \<Rightarrow> s_fail (M_FieldNotFound field ty) field_span)"

definition struct_field_val :: "nat \<Rightarrow> inst_ref \<Rightarrow> bool \<Rightarrow> type_struct \<Rightarrow> nat \<Rightarrow> span \<Rightarrow> (inst_ref, 'h) sema_m" where
  "struct_field_val block lhs lhs_is_pointer_to s i span =
     s_bind (s_nth (ts_fields s) i) (\<lambda>f.
     s_bind (if lhs_is_pointer_to then analyze_load block lhs span else s_ret lhs) (\<lambda>lhs.
     s_bind (comptime_key lhs) (\<lambda>k.
       case k of
         Some (VK_Aggregate _ values) \<Rightarrow> s_bind (s_nth values i) (\<lambda>v. s_ret (R_Interned v))
       | _ \<Rightarrow> inst block (T_StructFieldValue lhs i (sf_ty f)))))"

text \<open>The match on the type of the left-hand side, or of what it points to.\<close>

definition field_val_by_type ::
  "'h sema_env \<Rightarrow> nat \<Rightarrow> inst_ref \<Rightarrow> vindex \<Rightarrow> bool \<Rightarrow> string \<Rightarrow> span \<Rightarrow> span \<Rightarrow> vkey \<times> vvalue \<Rightarrow> (inst_ref, 'h) sema_m" where
  "field_val_by_type E block lhs lhs_ty lhs_is_pointer_to field field_span span kv =
     (case kv of
         (VK_Type VT_Type, _) \<Rightarrow>
           s_bind (if lhs_is_pointer_to then analyze_load block lhs span else s_ret lhs) (\<lambda>lhs.
           s_bind (s_comptime lhs) (\<lambda>lhs. type_field_val E lhs field field_span span))
       | (VK_Type (VT_Struct _), VV_Struct s) \<Rightarrow>
           (case struct_field_idx_by_name s field of
              Some i \<Rightarrow> struct_field_val block lhs lhs_is_pointer_to s i span
            | None \<Rightarrow> struct_decl_val E s field lhs_ty field_span)
       | (VK_Type (VT_Ptr ptr), _) \<Rightarrow>
           s_bind (s_value (tp_pointee_ty ptr)) (\<lambda>v.
             case v of
               VV_Struct s \<Rightarrow>
                 (case struct_field_idx_by_name s field of
                    Some i \<Rightarrow>
                      s_bind (inst block (T_Load lhs)) (\<lambda>loaded_struct.
                      s_bind (s_nth (ts_fields s) i) (\<lambda>f. inst block (T_StructFieldValue loaded_struct i (sf_ty f))))
                  | None \<Rightarrow> struct_decl_val E s field (tp_pointee_ty ptr) field_span)
             | _ \<Rightarrow> s_fail (M_NoFields (tp_pointee_ty ptr)) span)
       | _ \<Rightarrow> s_fail (M_NoFieldOrDecl lhs_ty) span)"

definition auto_deref :: "vindex \<Rightarrow> vkey \<Rightarrow> vindex \<times> bool" where
  "auto_deref lhs_ty lhs_key = (case lhs_key of VK_Type (VT_Ptr ptr) \<Rightarrow> (tp_pointee_ty ptr, True) | _ \<Rightarrow> (lhs_ty, False))"

definition analyze_field_val :: "'h sema_env \<Rightarrow> nat \<Rightarrow> inst_ref \<Rightarrow> string \<Rightarrow> span \<Rightarrow> span \<Rightarrow> (inst_ref, 'h) sema_m" where
  "analyze_field_val E block lhs field field_span span =
     s_bind (sema_type_of lhs) (\<lambda>lhs_ty.
     s_bind (s_key lhs_ty) (\<lambda>lhs_key.
     s_bind (s_key_value (fst (auto_deref lhs_ty lhs_key)))
       (field_val_by_type E block lhs lhs_ty (snd (auto_deref lhs_ty lhs_key)) field field_span span)))"

definition type_field_ptr :: "'h sema_env \<Rightarrow> vindex \<Rightarrow> string \<Rightarrow> span \<Rightarrow> (inst_ref, 'h) sema_m" where
  "type_field_ptr E lhs field span =
     s_bind (s_key_value lhs) (\<lambda>kv.
       let decl_or_fail = (\<lambda>namespace. s_bind (lookup_decl_in_namespace namespace field) (\<lambda>d.
             case d of
               Some decl \<Rightarrow> s_bind (decl_value_unwrap E decl) (s_intern_value_ptr E)
             | None \<Rightarrow> s_fail (M_DeclNotFound field lhs) span)) in
       case kv of
         (VK_Type (VT_Struct _), VV_Struct s) \<Rightarrow>
           s_bind (lookup_decl_in_namespace (ts_namespace s) field) (\<lambda>d.
             case d of
               None \<Rightarrow> s_fail (M_DeclNotFound field lhs) span
             | Some decl \<Rightarrow> s_bind (decl_value_unwrap E decl) (intern_decl_ptr E decl))
       | (VK_Type (VT_Enum _), VV_Enum e) \<Rightarrow>
           (case enum_field_idx_by_name e field of
              Some i \<Rightarrow> s_bind (s_nth (te_fields e) i) (\<lambda>f. s_bind (s_intern E (VK_EnumTag lhs (ef_value f))) (s_intern_value_ptr E))
            | None \<Rightarrow> decl_or_fail (te_namespace e))
       | (VK_Type (VT_Union _), VV_Union u) \<Rightarrow>
           (case union_field_idx_by_name u field of
              Some i \<Rightarrow>
                (case tu_tag_ty u of
                   Some tag_ty \<Rightarrow> s_bind (s_intern_enum_tag E tag_ty i) (s_intern_value_ptr E)
                 | None \<Rightarrow> s_fail M_BareUnionField span)
            | None \<Rightarrow> decl_or_fail (tu_namespace u))
       | _ \<Rightarrow> s_panic)"

text \<open>The value behind a pointer that is known at compile time and points to an aggregate.\<close>

definition aggregate_behind :: "inst_ref \<Rightarrow> (vindex list option, 'h) sema_m" where
  "aggregate_behind ptr =
     s_bind (comptime_key ptr) (\<lambda>k.
       case k of
         Some (VK_Ptr _ (PK_Value v)) \<Rightarrow> s_bind (s_key v) (\<lambda>k. s_ret (case k of VK_Aggregate _ values \<Rightarrow> Some values | _ \<Rightarrow> None))
       | _ \<Rightarrow> s_ret None)"

definition analyze_field_ptr :: "'h sema_env \<Rightarrow> nat \<Rightarrow> inst_ref \<Rightarrow> string \<Rightarrow> span \<Rightarrow> (inst_ref, 'h) sema_m" where
  "analyze_field_ptr E block lhs field span =
     s_bind (sema_type_of lhs) (\<lambda>lhs_ty.
     s_bind (s_key lhs_ty) (\<lambda>lhs_key.
     s_bind (case lhs_key of
               VK_Type (VT_Ptr ptr) \<Rightarrow> s_ret ptr
             | _ \<Rightarrow> s_bind (s_lift (as_interned lhs)) (\<lambda>i. s_bind (s_key_value i) (\<lambda>_. s_fail (M_ExpectedPointer lhs_ty) span))) (\<lambda>lhs_ptr_ty.
     s_bind (s_key (tp_pointee_ty lhs_ptr_ty)) (\<lambda>pointee_key.
     let (lhs_pointee_ty, lhs_is_ptr) = auto_deref (tp_pointee_ty lhs_ptr_ty) pointee_key in
     s_bind (s_key_value lhs_pointee_ty) (\<lambda>kv.
       case kv of
         (VK_Type VT_Type, _) \<Rightarrow>
           s_bind (analyze_load block lhs span) (\<lambda>lhs.
           s_bind (if lhs_is_ptr then analyze_load block lhs span else s_ret lhs) (\<lambda>lhs.
           s_bind (s_comptime lhs) (\<lambda>lhs. type_field_ptr E lhs field span)))
       | (VK_Type (VT_Struct _), VV_Struct s) \<Rightarrow>
           (case struct_field_idx_by_name s field of
              None \<Rightarrow> s_fail (M_FieldNotFound field lhs_pointee_ty) span
            | Some i \<Rightarrow>
                s_bind (s_nth (ts_fields s) i) (\<lambda>f.
                s_bind (s_intern_ptr_type E (sf_ty f) (tp_is_const lhs_ptr_ty)) (\<lambda>ptr_to_field_ty.
                s_bind (if lhs_is_ptr then analyze_load block lhs span else s_ret lhs) (\<lambda>struct_ptr.
                s_bind (aggregate_behind struct_ptr) (\<lambda>values.
                  case values of
                    Some values \<Rightarrow> s_bind (s_nth values i) (s_intern_value_ptr E)
                  | None \<Rightarrow> inst block (T_StructFieldPtr struct_ptr i ptr_to_field_ty))))))
       | _ \<Rightarrow> s_fail (M_NoFields lhs_pointee_ty) span)))))"

section \<open>Coercion\<close>

definition coerce_int :: "'h sema_env \<Rightarrow> nat \<Rightarrow> vindex \<Rightarrow> bool \<Rightarrow> u16 \<Rightarrow> inst_ref \<Rightarrow> span \<Rightarrow> (inst_ref, 'h) sema_m" where
  "coerce_int E block dst_ty is_signed bits r span =
     s_bind (comptime_key r) (\<lambda>k.
       case k of
         Some (VK_Int _ value) \<Rightarrow>
           s_bind (if is_signed then s_lift (fits_signed_bits value bits) else s_ret (fits_unsigned_bits value bits)) (\<lambda>fits.
             if fits then s_intern_ref E (VK_Int dst_ty value) else s_fail (M_IntTooLarge value dst_ty) span)
       | Some _ \<Rightarrow> s_panic
       | None \<Rightarrow>
           s_bind (s_common cv_anyint_t) (\<lambda>anyint_t.
             if dst_ty = anyint_t then s_fail M_NoComptimeValue span else inst block (T_UnsafeIntCast r dst_ty)))"

definition coerce_float :: "'h sema_env \<Rightarrow> vindex \<Rightarrow> vtype \<Rightarrow> inst_ref \<Rightarrow> span \<Rightarrow> (inst_ref, 'h) sema_m" where
  "coerce_float E dst_ty dst r span =
     s_bind (s_lift (as_interned r)) (\<lambda>i.
     s_bind (s_key i) (\<lambda>k.
       case k of
         VK_Float _ value \<Rightarrow>
           (let fl = en_floats E in
            if fl_lt fl (fl_max fl dst) value then s_fail (M_FloatTooLarge value dst_ty) span
            else if \<not> fl_eq fl value (if dst = VT_F128 then value else fl_round fl dst value) then s_fail (M_PrecisionLoss value dst_ty) span
            else s_intern_ref E (VK_Float dst_ty value))
       | _ \<Rightarrow> s_panic))"

definition coerce_ptr :: "nat \<Rightarrow> vindex \<Rightarrow> type_ptr \<Rightarrow> type_ptr \<Rightarrow> inst_ref \<Rightarrow> span \<Rightarrow> (inst_ref, 'h) sema_m" where
  "coerce_ptr block dst_ty ptr_src ptr_dst r span =
     (if tp_pointee_ty ptr_src \<noteq> tp_pointee_ty ptr_dst then s_fail (M_PointeeTypes (tp_pointee_ty ptr_src) (tp_pointee_ty ptr_dst)) span
      else if tp_is_const ptr_src \<and> \<not> tp_is_const ptr_dst then s_fail M_ConstToMut span
      else inst block (T_BitCast r dst_ty))"

definition coerce_size :: "'h sema_env \<Rightarrow> vindex \<Rightarrow> inst_ref \<Rightarrow> (inst_ref, 'h) sema_m" where
  "coerce_size E dst_ty r =
     s_bind (s_lift (as_interned r)) (\<lambda>i.
     s_bind (s_key i) (\<lambda>k. case k of VK_Int _ value \<Rightarrow> s_intern_ref E (VK_Int dst_ty value) | _ \<Rightarrow> s_panic))"

definition coerce_enum_literal :: "'h sema_env \<Rightarrow> nat \<Rightarrow> vindex \<Rightarrow> inst_ref \<Rightarrow> span \<Rightarrow> (inst_ref, 'h) sema_m" where
  "coerce_enum_literal E block dst_ty r span =
     s_bind (s_lift (as_interned r)) (\<lambda>i.
     s_bind (s_key i) (\<lambda>k.
       case k of
         VK_EnumLiteral enum_lit \<Rightarrow>
           s_bind (s_value dst_ty) (\<lambda>v. s_bind (s_lift (as_enum v)) (\<lambda>_. analyze_field_val E block (R_Interned dst_ty) enum_lit span span))
       | _ \<Rightarrow> s_panic))"

definition coerce_anyptr :: "'h sema_env \<Rightarrow> nat \<Rightarrow> vindex \<Rightarrow> inst_ref \<Rightarrow> span \<Rightarrow> (inst_ref, 'h) sema_m" where
  "coerce_anyptr E block inst_ty r span =
     s_bind (s_get sa_values) (\<lambda>S.
     s_bind (s_deep (type_is_comptime_only (en_depth E) S inst_ty)) (\<lambda>comptime_only.
       if comptime_only then s_fail (M_ComptimeOnlyToAnyptr inst_ty) span
       else s_bind (en_analyze_type_info E inst_ty) (\<lambda>_. inst block (T_AnyptrInit r inst_ty))))"

text \<open>
  The match of \<^verbatim>\<open>coerce\<close> on the type of the instruction and the type it must have; \<open>again\<close> is the recursive call to \<^verbatim>\<open>i32\<close>, which the conversion of an untyped
  integer to \<^verbatim>\<open>anyptr\<close> makes.
\<close>

definition coerce_types ::
  "'h sema_env \<Rightarrow> (vindex \<Rightarrow> (inst_ref, 'h) sema_m) \<Rightarrow> nat \<Rightarrow> vindex \<Rightarrow> vindex \<Rightarrow> inst_ref \<Rightarrow> span \<Rightarrow> vkey \<Rightarrow> vkey \<Rightarrow> (inst_ref, 'h) sema_m" where
  "coerce_types E again block dst_ty inst_ty r span src_key dst_key =
     (let mismatch = s_fail (M_ExpectedType dst_ty inst_ty) span in
      case dst_key of
        VK_Type dst \<Rightarrow>
          (case dst of
             VT_Type \<Rightarrow> if is_type src_key then s_ret r else mismatch
           | VT_Anyptr \<Rightarrow>
               if src_key = VK_Type VT_Anyint
               then s_bind (get_block block) (\<lambda>b.
                    if bk_comptime b then coerce_anyptr E block inst_ty r span
                    else s_bind (s_common cv_i32_t) (\<lambda>i32_t.
                         s_bind (again i32_t) (\<lambda>concrete.
                         s_bind (en_analyze_type_info E i32_t) (\<lambda>_. inst block (T_AnyptrInit concrete i32_t)))))
               else coerce_anyptr E block inst_ty r span
           | VT_Usize \<Rightarrow> if src_key = VK_Type VT_Anyint then coerce_size E dst_ty r else mismatch
           | VT_Isize \<Rightarrow> if src_key = VK_Type VT_Anyint then coerce_size E dst_ty r else mismatch
           | VT_Int is_signed bits \<Rightarrow> if src_key = VK_Type VT_Anyint then coerce_int E block dst_ty is_signed bits r span else mismatch
           | VT_F16 \<Rightarrow> if src_key = VK_Type VT_Anyfloat then coerce_float E dst_ty dst r span else mismatch
           | VT_F32 \<Rightarrow> if src_key = VK_Type VT_Anyfloat then coerce_float E dst_ty dst r span else mismatch
           | VT_F64 \<Rightarrow> if src_key = VK_Type VT_Anyfloat then coerce_float E dst_ty dst r span else mismatch
           | VT_F128 \<Rightarrow> if src_key = VK_Type VT_Anyfloat then coerce_float E dst_ty dst r span else mismatch
           | VT_Ptr ptr_dst \<Rightarrow> (case src_key of VK_Type (VT_Ptr ptr_src) \<Rightarrow> coerce_ptr block dst_ty ptr_src ptr_dst r span | _ \<Rightarrow> mismatch)
           | VT_Enum _ \<Rightarrow> if src_key = VK_Type VT_EnumLiteral then coerce_enum_literal E block dst_ty r span else mismatch
           | _ \<Rightarrow> mismatch)
      | _ \<Rightarrow> mismatch)"

text \<open>The type of what is coerced; a type that stands for a value is taken itself.\<close>

definition coerced_type :: "inst_ref \<Rightarrow> (vindex, 'h) sema_m" where
  "coerced_type r =
     s_bind (comptime_key r) (\<lambda>k.
       case (k, r) of (Some (VK_Type _), R_Interned i) \<Rightarrow> s_ret i | _ \<Rightarrow> sema_type_of r)"

primrec coerce_at :: "nat \<Rightarrow> 'h sema_env \<Rightarrow> nat \<Rightarrow> vindex \<Rightarrow> inst_ref \<Rightarrow> span \<Rightarrow> (inst_ref, 'h) sema_m" where
  "coerce_at 0 E block dst_ty r span = (\<lambda>_. S_Deep)"
| "coerce_at (Suc n) E block dst_ty r span =
     s_bind (coerced_type r) (\<lambda>inst_ty.
     s_bind (s_common cv_generic_poison_t) (\<lambda>poison.
       if dst_ty = poison \<or> dst_ty = inst_ty then s_ret r
       else s_bind (s_key inst_ty) (\<lambda>src_key.
            s_bind (s_key dst_ty) (\<lambda>dst_key.
              coerce_types E (\<lambda>ty. coerce_at n E block ty r span) block dst_ty inst_ty r span src_key dst_key))))"

definition coerce :: "'h sema_env \<Rightarrow> nat \<Rightarrow> vindex \<Rightarrow> inst_ref \<Rightarrow> span \<Rightarrow> (inst_ref, 'h) sema_m" where
  "coerce E block dst_ty r span = coerce_at 2 E block dst_ty r span"

definition resolve_type :: "'h sema_env \<Rightarrow> nat \<Rightarrow> inst_ref \<Rightarrow> span \<Rightarrow> (vindex, 'h) sema_m" where
  "resolve_type E block r span =
     (case r of
        R_Interned i \<Rightarrow> s_ret i
      | R_Instruction _ \<Rightarrow>
          s_bind (resolve_inst r) (\<lambda>opcode.
          s_bind (s_common cv_type_t) (\<lambda>type_t.
          s_bind (coerce E block type_t opcode span) (\<lambda>coerced.
            case try_resolve_comptime_value coerced of Some i \<Rightarrow> s_ret i | None \<Rightarrow> s_fail M_TypeNotComptime span))))"

section \<open>Arithmetic\<close>

definition type_width :: "target_info \<Rightarrow> vtype \<Rightarrow> (bool \<times> nat) option" where
  "type_width target t =
     (case t of
        VT_Int is_signed bits \<Rightarrow> Some (is_signed, unat bits)
      | VT_Isize \<Rightarrow> Some (True, tgt_ptr_width_in_bits target)
      | VT_Usize \<Rightarrow> Some (False, tgt_ptr_width_in_bits target)
      | _ \<Rightarrow> None)"

text \<open>The wrapping of a value to a width; for a signed type of no bits \<^verbatim>\<open>bits - 1\<close> overflows.\<close>

definition wrap_to :: "bool \<Rightarrow> nat \<Rightarrow> anyint \<Rightarrow> anyint outcome" where
  "wrap_to is_signed bits value =
     (let one = from_u64 1; modulus = shl one bits in
      bind_outcome (anyint_rem value modulus) (\<lambda>wrapped.
      let wrapped = (if is_negative wrapped then add wrapped modulus else wrapped) in
      if \<not> is_signed then Returns wrapped
      else if bits = 0 then Panics
      else Returns (if anyint_cmp wrapped (shl one (bits - 1)) \<noteq> Less then sub wrapped modulus else wrapped)))"

definition wrap_int_value :: "'h sema_env \<Rightarrow> 'h value_store \<Rightarrow> vindex \<Rightarrow> anyint \<Rightarrow> anyint outcome" where
  "wrap_int_value E S ty value =
     bind_outcome (index_to_key S ty) (\<lambda>k.
       case k of
         VK_Type t \<Rightarrow> (case type_width (en_target E) t of Some (is_signed, bits) \<Rightarrow> wrap_to is_signed bits value | None \<Rightarrow> Returns value)
       | _ \<Rightarrow> Returns value)"

definition comptime_int_op :: "'h sema_env \<Rightarrow> 'h value_store \<Rightarrow> infix_op_kind \<Rightarrow> vindex \<Rightarrow> anyint \<Rightarrow> anyint \<Rightarrow> anyint outcome" where
  "comptime_int_op E S op ty lhs rhs =
     (case op of
        O_Add \<Rightarrow> wrap_int_value E S ty (add lhs rhs)
      | O_AddSat \<Rightarrow> Returns (add lhs rhs)
      | O_Sub \<Rightarrow> wrap_int_value E S ty (sub lhs rhs)
      | O_SubSat \<Rightarrow> Returns (sub lhs rhs)
      | O_Mul \<Rightarrow> bind_outcome (mul lhs rhs) (wrap_int_value E S ty)
      | O_MulSat \<Rightarrow> mul lhs rhs
      | O_Div \<Rightarrow> anyint_div lhs rhs
      | O_Rem \<Rightarrow> anyint_rem lhs rhs
      | _ \<Rightarrow> Panics)"

definition comptime_float_op :: "'h sema_env \<Rightarrow> infix_op_kind \<Rightarrow> vindex \<Rightarrow> f128 \<Rightarrow> f128 \<Rightarrow> (inst_ref, 'h) sema_m" where
  "comptime_float_op E op ty lhs rhs =
     (let fl = en_floats E; num = (\<lambda>x. s_intern_ref E (VK_Float ty x)); truth = (\<lambda>b. s_intern_ref E (VK_Bool b)) in
      case op of
        O_Add \<Rightarrow> num (fl_add fl lhs rhs) | O_Sub \<Rightarrow> num (fl_sub fl lhs rhs) | O_Mul \<Rightarrow> num (fl_mul fl lhs rhs) | O_Div \<Rightarrow> num (fl_div fl lhs rhs)
      | O_AddSat \<Rightarrow> s_throw AE_AnalysisFailed | O_SubSat \<Rightarrow> s_throw AE_AnalysisFailed | O_MulSat \<Rightarrow> s_throw AE_AnalysisFailed
      | O_Lt \<Rightarrow> truth (fl_lt fl lhs rhs) | O_Lte \<Rightarrow> truth (fl_le fl lhs rhs) | O_Gt \<Rightarrow> truth (fl_lt fl rhs lhs) | O_Gte \<Rightarrow> truth (fl_le fl rhs lhs)
      | _ \<Rightarrow> s_panic)"

text \<open>The types of the operands: equal, or one is an untyped integer that is coerced; \<open>sizes\<close> says whether to \<^verbatim>\<open>usize\<close> and \<^verbatim>\<open>isize\<close> too.\<close>

definition concrete_int :: "bool \<Rightarrow> vkey \<Rightarrow> bool" where
  "concrete_int sizes k = (case k of VK_Type (VT_Int _ _) \<Rightarrow> True | VK_Type VT_Usize \<Rightarrow> sizes | VK_Type VT_Isize \<Rightarrow> sizes | _ \<Rightarrow> False)"

definition unify_operands ::
  "'h sema_env \<Rightarrow> bool \<Rightarrow> (vindex \<Rightarrow> vindex \<Rightarrow> sema_msg) \<Rightarrow> nat \<Rightarrow> vindex \<Rightarrow> vindex \<Rightarrow> inst_ref \<Rightarrow> inst_ref \<Rightarrow> span
    \<Rightarrow> (vindex \<times> inst_ref \<times> inst_ref, 'h) sema_m" where
  "unify_operands E sizes msg block lhs_ty rhs_ty lhs rhs span =
     s_bind (s_key lhs_ty) (\<lambda>l.
     s_bind (s_key rhs_ty) (\<lambda>r.
       if l = r then s_ret (lhs_ty, lhs, rhs)
       else if l = VK_Type VT_Anyint \<and> concrete_int sizes r
       then s_bind (coerce E block rhs_ty lhs span) (\<lambda>lhs. s_ret (rhs_ty, lhs, rhs))
       else if concrete_int sizes l \<and> r = VK_Type VT_Anyint
       then s_bind (coerce E block lhs_ty rhs span) (\<lambda>rhs. s_ret (lhs_ty, lhs, rhs))
       else s_fail (msg lhs_ty rhs_ty) span))"

definition is_arithmetic_op :: "infix_op_kind \<Rightarrow> bool" where
  "is_arithmetic_op op \<longleftrightarrow> op \<in> {O_Add, O_AddSat, O_Sub, O_SubSat, O_Mul, O_MulSat, O_Div, O_Rem, O_BoolAnd, O_BoolOr}"

text \<open>The operands have one type; \<open>lk\<close> and \<open>rk\<close> are the keys of those that are known.\<close>

definition arithmetic_on_keys ::
  "'h sema_env \<Rightarrow> nat \<Rightarrow> infix_op_kind \<Rightarrow> vindex \<Rightarrow> inst_ref \<Rightarrow> inst_ref \<Rightarrow> vkey option \<Rightarrow> vkey option \<Rightarrow> (inst_ref, 'h) sema_m" where
  "arithmetic_on_keys E block op ty lhs rhs lk rk =
     (case (lk, rk) of
        (Some (VK_Int _ x), Some (VK_Int _ y)) \<Rightarrow>
          s_bind (s_get sa_values) (\<lambda>S. s_bind (s_lift (comptime_int_op E S op ty x y)) (\<lambda>res. s_intern_ref E (VK_Int ty res)))
      | (Some (VK_Float _ x), Some (VK_Float _ y)) \<Rightarrow> comptime_float_op E op ty x y
      | (Some (VK_Bool x), Some (VK_Bool y)) \<Rightarrow>
          (case op of O_BoolAnd \<Rightarrow> s_intern_ref E (VK_Bool (x \<and> y)) | O_BoolOr \<Rightarrow> s_intern_ref E (VK_Bool (x \<or> y)) | _ \<Rightarrow> s_panic)
      | _ \<Rightarrow> if is_arithmetic_op op then inst block (T_Bin op lhs rhs) else s_panic)"

definition on_operand_keys :: "inst_ref \<Rightarrow> inst_ref \<Rightarrow> (vkey option \<Rightarrow> vkey option \<Rightarrow> (inst_ref, 'h) sema_m) \<Rightarrow> (inst_ref, 'h) sema_m" where
  "on_operand_keys lhs rhs f = s_bind (comptime_key lhs) (\<lambda>lk. s_bind (comptime_key rhs) (f lk))"

definition analyze_arithmetic_op :: "'h sema_env \<Rightarrow> nat \<Rightarrow> infix_op_kind \<Rightarrow> inst_ref \<Rightarrow> inst_ref \<Rightarrow> span \<Rightarrow> (inst_ref, 'h) sema_m" where
  "analyze_arithmetic_op E block op lhs rhs span =
     s_bind (sema_type_of lhs) (\<lambda>lhs_ty.
     s_bind (sema_type_of rhs) (\<lambda>rhs_ty.
     s_bind (s_key lhs_ty) (\<lambda>l.
       if \<not> type_is_numeric l then s_fail (M_NotArithmetic lhs_ty) span
       else s_bind (s_key rhs_ty) (\<lambda>r.
         if \<not> type_is_numeric r then s_fail (M_NotArithmeticRhs rhs_ty) span
         else s_bind (unify_operands E False M_ArithmeticTypes block lhs_ty rhs_ty lhs rhs span) (\<lambda>(ty, lhs, rhs).
              on_operand_keys lhs rhs (arithmetic_on_keys E block op ty lhs rhs))))))"

section \<open>Bitwise operators\<close>

definition is_bitwise_type :: "vkey \<Rightarrow> bool" where
  "is_bitwise_type k =
     (case k of
        VK_Type (VT_Int _ _) \<Rightarrow> True | VK_Type VT_Anyint \<Rightarrow> True | VK_Type VT_Isize \<Rightarrow> True | VK_Type VT_Usize \<Rightarrow> True | VK_Type VT_Bool \<Rightarrow> True
      | _ \<Rightarrow> False)"

text \<open>The checks on the amount of a shift; \<open>wraps\<close> for the operators that may shift by the width or more.\<close>

definition shift_amount :: "bool \<Rightarrow> vindex \<Rightarrow> anyint \<Rightarrow> span \<Rightarrow> (nat, 'h) sema_m" where
  "shift_amount wraps ty rhs span =
     (if is_negative rhs then s_fail M_NegativeShift span
      else let shift = (case to_u64 rhs of Some w \<Rightarrow> unat w | None \<Rightarrow> 2 ^ 64 - 1) in
        s_bind (s_key ty) (\<lambda>k.
          if k = VK_Type VT_Anyint then s_ret shift
          else s_bind (s_get sa_values) (\<lambda>S.
               s_bind (s_lift (type_bit_size S ty)) (\<lambda>bit_width.
                 if bit_width \<le> shift \<and> \<not> wraps then s_fail (M_ShiftTooLarge shift bit_width) span else s_ret shift))))"

definition comptime_bitwise_op :: "infix_op_kind \<Rightarrow> vindex \<Rightarrow> anyint \<Rightarrow> anyint \<Rightarrow> span \<Rightarrow> (anyint, 'h) sema_m" where
  "comptime_bitwise_op op ty lhs rhs span =
     (case op of
        O_BitAnd \<Rightarrow> s_ret (bitand lhs rhs) | O_BitOr \<Rightarrow> s_ret (bitor lhs rhs) | O_BitXor \<Rightarrow> s_ret (bitxor lhs rhs)
      | O_Shl \<Rightarrow> s_bind (shift_amount False ty rhs span) (\<lambda>n. s_ret (shl lhs n))
      | O_ShlSat \<Rightarrow> s_bind (shift_amount False ty rhs span) (\<lambda>n. s_ret (shl lhs n))
      | O_ShlWrap \<Rightarrow> s_bind (shift_amount True ty rhs span) (\<lambda>n. s_ret (shl lhs n))
      | O_Shr \<Rightarrow> s_bind (shift_amount False ty rhs span) (\<lambda>n. s_ret (shr lhs n))
      | O_ShrSat \<Rightarrow> s_bind (shift_amount False ty rhs span) (\<lambda>n. s_ret (shr lhs n))
      | O_ShrWrap \<Rightarrow> s_bind (shift_amount True ty rhs span) (\<lambda>n. s_ret (shr lhs n))
      | _ \<Rightarrow> s_panic)"

definition is_bitwise_op :: "infix_op_kind \<Rightarrow> bool" where
  "is_bitwise_op op \<longleftrightarrow> op \<in> {O_Shl, O_ShlSat, O_ShlWrap, O_Shr, O_ShrSat, O_ShrWrap, O_BitAnd, O_BitOr, O_BitXor}"

definition bitwise_on_keys ::
  "'h sema_env \<Rightarrow> nat \<Rightarrow> infix_op_kind \<Rightarrow> vindex \<Rightarrow> inst_ref \<Rightarrow> inst_ref \<Rightarrow> span \<Rightarrow> vkey option \<Rightarrow> vkey option \<Rightarrow> (inst_ref, 'h) sema_m" where
  "bitwise_on_keys E block op ty lhs rhs span lk rk =
     (case (lk, rk) of
        (Some (VK_Int _ x), Some (VK_Int _ y)) \<Rightarrow> s_bind (comptime_bitwise_op op ty x y span) (\<lambda>res. s_intern_ref E (VK_Int ty res))
      | (Some (VK_Bool x), Some (VK_Bool y)) \<Rightarrow>
          (case op of
             O_BitAnd \<Rightarrow> s_intern_ref E (VK_Bool (x \<and> y)) | O_BitOr \<Rightarrow> s_intern_ref E (VK_Bool (x \<or> y)) | O_BitXor \<Rightarrow> s_intern_ref E (VK_Bool (x \<noteq> y))
           | _ \<Rightarrow> s_fail M_ShiftOnBool span)
      | _ \<Rightarrow> if is_bitwise_op op then inst block (T_Bin op lhs rhs) else s_panic)"

definition analyze_bitwise_op :: "'h sema_env \<Rightarrow> nat \<Rightarrow> infix_op_kind \<Rightarrow> inst_ref \<Rightarrow> inst_ref \<Rightarrow> span \<Rightarrow> (inst_ref, 'h) sema_m" where
  "analyze_bitwise_op E block op lhs rhs span =
     s_bind (sema_type_of lhs) (\<lambda>lhs_ty.
     s_bind (sema_type_of rhs) (\<lambda>rhs_ty.
     s_bind (s_key lhs_ty) (\<lambda>l.
     s_bind (s_key rhs_ty) (\<lambda>r.
       if \<not> is_bitwise_type l then s_fail (M_NotBitwiseLhs lhs_ty) span
       else if \<not> is_bitwise_type r then s_fail (M_NotBitwiseRhs rhs_ty) span
       else s_bind (unify_operands E True M_BitwiseTypes block lhs_ty rhs_ty lhs rhs span) (\<lambda>(ty, lhs, rhs).
            on_operand_keys lhs rhs (bitwise_on_keys E block op ty lhs rhs span))))))"

definition analyze_bitwise_not_op :: "'h sema_env \<Rightarrow> nat \<Rightarrow> inst_ref \<Rightarrow> span \<Rightarrow> (inst_ref, 'h) sema_m" where
  "analyze_bitwise_not_op E block r span =
     s_bind (sema_type_of r) (\<lambda>op_ty.
     s_bind (s_key op_ty) (\<lambda>op_key.
       if \<not> is_bitwise_type op_key then s_fail (M_NotBitNot op_ty) span
       else s_bind (comptime_key r) (\<lambda>k.
         case k of
           Some (VK_Int _ value) \<Rightarrow> s_intern_ref E (VK_Int op_ty (anyint_not value))
         | Some (VK_Bool b) \<Rightarrow> s_intern_ref E (VK_Bool (\<not> b))
         | _ \<Rightarrow> inst block (T_BitNot r))))"

section \<open>Comparisons\<close>

text \<open>\<^verbatim>\<open>cmp_comptime\<close> of a type with the given order.\<close>

definition cmp_comptime :: "('a \<Rightarrow> 'a \<Rightarrow> bool) \<Rightarrow> ('a \<Rightarrow> 'a \<Rightarrow> bool) \<Rightarrow> infix_op_kind \<Rightarrow> 'a \<Rightarrow> 'a \<Rightarrow> bool outcome" where
  "cmp_comptime lt le op lhs rhs =
     (case op of
        O_Eq \<Rightarrow> Returns (le rhs lhs)
      | O_Neq \<Rightarrow> Returns (le rhs lhs)
      | O_Lt \<Rightarrow> Returns (lt lhs rhs)
      | O_Lte \<Rightarrow> Returns (le lhs rhs)
      | O_Gt \<Rightarrow> Returns (lt rhs lhs)
      | O_Gte \<Rightarrow> Returns (le rhs lhs)
      | _ \<Rightarrow> Panics)"

definition anyint_lt :: "anyint \<Rightarrow> anyint \<Rightarrow> bool" where
  "anyint_lt a b \<longleftrightarrow> anyint_cmp a b = Less"

definition anyint_le :: "anyint \<Rightarrow> anyint \<Rightarrow> bool" where
  "anyint_le a b \<longleftrightarrow> anyint_cmp a b \<noteq> Greater"

definition is_comparison_op :: "infix_op_kind \<Rightarrow> bool" where
  "is_comparison_op op \<longleftrightarrow> op \<in> {O_Eq, O_Neq, O_Lt, O_Lte, O_Gt, O_Gte, O_BoolAnd, O_BoolOr}"

definition comparison_on_keys ::
  "'h sema_env \<Rightarrow> nat \<Rightarrow> infix_op_kind \<Rightarrow> inst_ref \<Rightarrow> inst_ref \<Rightarrow> vkey option \<Rightarrow> vkey option \<Rightarrow> (inst_ref, 'h) sema_m" where
  "comparison_on_keys E block op lhs rhs lk rk =
     (let truth = (\<lambda>m. s_bind (s_lift m) (\<lambda>b. s_intern_ref E (VK_Bool b)));
          runtime = (if is_comparison_op op then inst block (T_Bin op lhs rhs) else s_panic) in
      case (lk, rk) of
        (Some (VK_Int _ x), Some (VK_Int _ y)) \<Rightarrow> truth (cmp_comptime anyint_lt anyint_le op x y)
      | (Some (VK_Float _ x), Some (VK_Float _ y)) \<Rightarrow> truth (cmp_comptime (fl_lt (en_floats E)) (fl_le (en_floats E)) op x y)
      | (Some (VK_Bool x), Some (VK_Bool y)) \<Rightarrow> truth (cmp_comptime (\<lambda>x y. \<not> x \<and> y) (\<lambda>x y. \<not> x \<or> y) op x y)
      | (Some (VK_EnumTag lhs_ty x), Some (VK_EnumTag rhs_ty y)) \<Rightarrow>
          if lhs_ty = rhs_ty
          then truth (case op of O_Eq \<Rightarrow> Returns (x = y) | O_Neq \<Rightarrow> Returns (x \<noteq> y) | _ \<Rightarrow> Panics)
          else runtime
      | _ \<Rightarrow> runtime)"

definition analyze_comparaison_op :: "'h sema_env \<Rightarrow> nat \<Rightarrow> infix_op_kind \<Rightarrow> inst_ref \<Rightarrow> inst_ref \<Rightarrow> span \<Rightarrow> (inst_ref, 'h) sema_m" where
  "analyze_comparaison_op E block op lhs rhs span =
     s_bind (sema_type_of lhs) (\<lambda>lhs_ty.
     s_bind (sema_type_of rhs) (\<lambda>rhs_ty.
     s_bind (unify_operands E False M_CompareTypes block lhs_ty rhs_ty lhs rhs span) (\<lambda>(ty, lhs, rhs).
       on_operand_keys lhs rhs (comparison_on_keys E block op lhs rhs))))"

end
