(* ===== verification/Vif_Sema_Init.thy ===== *)
theory Vif_Sema_Init
  imports Vif_Sema_Ops
begin

text \<open>
  Indexing, initializers, exhaustiveness of switches, default values, variadic arguments, bodies and builtin functions of semantic analysis,
  \<^verbatim>\<open>src/compile_unit/sema.rs\<close>. Bodies take the analysis of an instruction as an argument.
\<close>

section \<open>Indexing\<close>

definition const_ptr_target :: "ptr_kind \<Rightarrow> (vindex option, 'h) sema_m" where
  "const_ptr_target kind =
     (case kind of
        PK_Value value \<Rightarrow> s_ret (Some value)
      | PK_Decl decl \<Rightarrow> s_bind (analysed_value decl) (\<lambda>v. s_ret (Some v))
      | PK_ComptimeAlloc _ \<Rightarrow> s_ret None)"

definition nth_opt :: "'a list \<Rightarrow> nat \<Rightarrow> 'a option" where
  "nth_opt xs i = (if i < length xs then Some (xs ! i) else None)"

text \<open>The element of the aggregate that a constant pointer points to.\<close>

definition backing_element :: "vindex option \<Rightarrow> nat \<Rightarrow> (vindex option, 'h) sema_m" where
  "backing_element backing i =
     (case backing of
        None \<Rightarrow> s_ret None
      | Some b \<Rightarrow> s_bind (s_key b) (\<lambda>k. s_ret (case k of VK_Aggregate _ values \<Rightarrow> nth_opt values i | _ \<Rightarrow> None)))"

definition unwrap_u64 :: "anyint \<Rightarrow> (nat, 'h) sema_m" where
  "unwrap_u64 a = (case to_u64 a of Some w \<Rightarrow> s_ret (unat w) | None \<Rightarrow> s_panic)"

definition const_slice_element :: "'h sema_env \<Rightarrow> vkey option \<Rightarrow> nat \<Rightarrow> (vindex option, 'h) sema_m" where
  "const_slice_element E sl i =
     (case sl of
        Some (VK_Str _ bytes) \<Rightarrow>
          (case nth_opt bytes i of
             None \<Rightarrow> s_ret None
           | Some byte \<Rightarrow>
               s_bind (s_intern E (VK_Type (VT_Int False 8))) (\<lambda>u8_ty.
               s_bind (s_intern E (VK_Int u8_ty (from_u64 (word_of_nat (of_char byte))))) (\<lambda>v. s_ret (Some v))))
      | Some (VK_Slice _ ptr len) \<Rightarrow>
          s_bind (s_key len) (\<lambda>lk.
          s_bind (case lk of VK_Int _ value \<Rightarrow> unwrap_u64 value | _ \<Rightarrow> s_panic) (\<lambda>len.
            if len \<le> i then s_ret None
            else s_bind (s_key ptr) (\<lambda>pk.
                 s_bind (s_lift (as_ptr_kind pk)) (\<lambda>kind. s_bind (const_ptr_target kind) (\<lambda>backing. backing_element backing i)))))
      | _ \<Rightarrow> s_ret None)"

definition const_element :: "'h sema_env \<Rightarrow> nat \<Rightarrow> inst_ref \<Rightarrow> vkey \<Rightarrow> nat \<Rightarrow> span \<Rightarrow> (vindex option, 'h) sema_m" where
  "const_element E block array_ptr pointee_key i span =
     (case pointee_key of
        VK_Type (VT_Slice _) \<Rightarrow>
          s_bind (analyze_load block array_ptr span) (\<lambda>sl. s_bind (comptime_key sl) (\<lambda>k. const_slice_element E k i))
      | VK_Type (VT_Array _ _) \<Rightarrow>
          s_bind (comptime_key array_ptr) (\<lambda>k.
            case k of
              None \<Rightarrow> s_ret None
            | Some pk \<Rightarrow> s_bind (s_lift (as_ptr_kind pk)) (\<lambda>kind. s_bind (const_ptr_target kind) (\<lambda>backing. backing_element backing i)))
      | _ \<Rightarrow> s_ret None)"

definition constant_index :: "inst_ref \<Rightarrow> (nat option, 'h) sema_m" where
  "constant_index index =
     s_bind (comptime_key index) (\<lambda>k. s_ret (case k of Some (VK_Int _ value) \<Rightarrow> map_option unat (to_u64 value) | _ \<Rightarrow> None))"

definition runtime_index_ptr :: "'h sema_env \<Rightarrow> nat \<Rightarrow> inst_ref \<Rightarrow> inst_ref \<Rightarrow> vindex \<Rightarrow> vkey \<Rightarrow> span \<Rightarrow> (inst_ref, 'h) sema_m" where
  "runtime_index_ptr E block array_ptr index pointee_ty pointee_key span =
     (case pointee_key of
        VK_Type (VT_Slice pointee) \<Rightarrow>
          s_bind (s_intern_ptr_type E pointee False) (\<lambda>elem_ptr_ty.
          s_bind (analyze_load block array_ptr span) (\<lambda>sl. inst block (T_SliceElemPtr sl index elem_ptr_ty)))
      | VK_Type (VT_Array elem _) \<Rightarrow>
          s_bind (s_intern_ptr_type E elem False) (\<lambda>elem_ptr_ty. inst block (T_PtrElemPtr array_ptr index elem_ptr_ty))
      | _ \<Rightarrow> s_fail (M_NotIndexable pointee_ty) span)"

definition analyze_array_index_ptr :: "'h sema_env \<Rightarrow> nat \<Rightarrow> inst_ref \<Rightarrow> inst_ref \<Rightarrow> span \<Rightarrow> (inst_ref, 'h) sema_m" where
  "analyze_array_index_ptr E block array_ptr index span =
     s_bind (resolve_inst array_ptr) (\<lambda>array_ptr.
     s_bind (resolve_inst index) (\<lambda>index.
     s_bind (sema_type_of array_ptr) (\<lambda>array_ptr_ty.
     s_bind (s_key array_ptr_ty) (\<lambda>ptr_key.
       case ptr_key of
         VK_Type (VT_Ptr ptr) \<Rightarrow>
           s_bind (constant_index index) (\<lambda>const_index.
           s_bind (s_key (tp_pointee_ty ptr)) (\<lambda>pointee_key.
           s_bind (case const_index of None \<Rightarrow> s_ret None | Some i \<Rightarrow> const_element E block array_ptr pointee_key i span) (\<lambda>const_elem.
             case const_elem of
               None \<Rightarrow> runtime_index_ptr E block array_ptr index (tp_pointee_ty ptr) pointee_key span
             | Some value \<Rightarrow>
                 s_bind (case pointee_key of VK_Type (VT_Slice pointee) \<Rightarrow> s_ret pointee | VK_Type (VT_Array elem _) \<Rightarrow> s_ret elem | _ \<Rightarrow> s_panic) (\<lambda>elem.
                 s_bind (s_intern_ptr_type E elem True) (\<lambda>elem_ptr_ty. s_intern_ref E (VK_Ptr elem_ptr_ty (PK_Value value)))))))
       | _ \<Rightarrow> s_fail (M_IndexNotPtr array_ptr_ty) span))))"

section \<open>Initializers\<close>

record init_field =
  if_name :: string
  if_name_span :: span
  if_value :: inst_ref
  if_span :: span

definition analyze_union_init :: "'h sema_env \<Rightarrow> nat \<Rightarrow> nat \<Rightarrow> vindex \<Rightarrow> init_field list \<Rightarrow> span \<Rightarrow> (inst_ref \<times> control_flow, 'h) sema_m" where
  "analyze_union_init E vuir_id block ty inits span =
     s_bind (s_value ty) (\<lambda>v.
     s_bind (s_lift (as_union v)) (\<lambda>u.
       case inits of
         [field] \<Rightarrow>
           (case union_field_idx_by_name u (if_name field) of
              None \<Rightarrow> s_fail (M_FieldNotFound (if_name field) ty) (if_name_span field)
            | Some i \<Rightarrow>
                s_bind (s_nth (tu_fields u) i) (\<lambda>union_field.
                s_bind (case utf_ty union_field of
                          None \<Rightarrow> s_ret None
                        | Some field_ty \<Rightarrow>
                            s_bind (resolve_inst (if_value field)) (\<lambda>value.
                            s_bind (coerce E block field_ty value (if_span field)) (\<lambda>value. s_ret (Some value)))) (\<lambda>value.
                let interned = (\<lambda>payload.
                      s_bind (case tu_tag_ty u of None \<Rightarrow> s_ret None | Some tag_ty \<Rightarrow> s_bind (s_intern_enum_tag E tag_ty i) (\<lambda>t. s_ret (Some t))) (\<lambda>tg.
                        s_intern_ref E (VK_Union ty tg payload))) in
                s_bind (case value of
                          None \<Rightarrow> interned None
                        | Some r \<Rightarrow>
                            (case try_resolve_comptime_value r of
                               Some payload \<Rightarrow> interned (Some payload)
                             | None \<Rightarrow> inst block (T_UnionInit ty i (Some r)))) (\<lambda>r.
                s_bind (vuir_map_insert vuir_id r) (\<lambda>_. s_ret (r, CF_May))))))
       | _ \<Rightarrow> s_fail M_UnionInitOneField span))"

text \<open>
  The loop over the given fields of a struct: the values so far, whether one failed and whether all are known. A coercion that fails does not end the
  loop; it leaves its diagnostic.
\<close>

fun struct_init_fields ::
  "'h sema_env \<Rightarrow> nat \<Rightarrow> vindex \<Rightarrow> type_struct \<Rightarrow> init_field list \<Rightarrow> inst_ref option list \<times> bool \<times> bool
    \<Rightarrow> (inst_ref option list \<times> bool \<times> bool, 'h) sema_m" where
  "struct_init_fields E block ty s [] acc = s_ret acc"
| "struct_init_fields E block ty s (field # rest) (out_fields, failed, known) =
     (case struct_field_idx_by_name s (if_name field) of
        None \<Rightarrow>
          s_bind (push_error (M_FieldNotFound (if_name field) ty) (Some (if_name_span field))) (\<lambda>_.
            struct_init_fields E block ty s rest (out_fields, True, known))
      | Some i \<Rightarrow>
          s_bind (s_nth (ts_fields s) i) (\<lambda>f.
          s_bind (resolve_inst (if_value field)) (\<lambda>value st.
            case coerce E block (sf_ty f) value (if_span field) st of
              S_Ok r st' \<Rightarrow> struct_init_fields E block ty s rest (out_fields[i := Some r], failed, known \<and> is_interned r) st'
            | S_Err _ st' \<Rightarrow> struct_init_fields E block ty s rest (out_fields[i := None], True, known) st'
            | S_Panics \<Rightarrow> S_Panics
            | S_Deep \<Rightarrow> S_Deep)))"

fun push_uninitialized :: "(struct_field \<times> inst_ref option) list \<Rightarrow> span \<Rightarrow> (unit, 'h) sema_m" where
  "push_uninitialized [] span = s_ret ()"
| "push_uninitialized ((f, v) # rest) span =
     (case v of
        Some _ \<Rightarrow> push_uninitialized rest span
      | None \<Rightarrow> s_bind (push_error (M_FieldNotInitialized (sf_name f)) (Some span)) (\<lambda>_. push_uninitialized rest span))"

definition analyze_struct_init :: "'h sema_env \<Rightarrow> nat \<Rightarrow> nat \<Rightarrow> vindex \<Rightarrow> init_field list \<Rightarrow> span \<Rightarrow> (inst_ref \<times> control_flow, 'h) sema_m" where
  "analyze_struct_init E vuir_id block ty inits span =
     s_bind (s_key ty) (\<lambda>k.
       case k of
         VK_Type (VT_Struct _) \<Rightarrow>
           s_bind (s_value ty) (\<lambda>v.
           s_bind (s_lift (as_struct v)) (\<lambda>s.
           s_bind (struct_init_fields E block ty s inits (replicate (length (ts_fields s)) None, False, True)) (\<lambda>(out_fields, failed, known).
           s_bind (push_uninitialized (zip (ts_fields s) out_fields) span) (\<lambda>_.
             if failed \<or> None \<in> set out_fields then s_throw AE_AnalysisFailed
             else s_bind (if known
                          then s_bind (s_map s_comptime (map the out_fields)) (\<lambda>values. s_intern_ref E (VK_Aggregate ty values))
                          else inst block (T_StructInit ty (map the out_fields))) (\<lambda>r.
                  s_bind (vuir_map_insert vuir_id r) (\<lambda>_. s_ret (r, CF_May)))))))
       | _ \<Rightarrow> s_fail (M_NotInitializable ty) span)"

definition coerce_elements :: "'h sema_env \<Rightarrow> nat \<Rightarrow> vindex \<Rightarrow> inst_ref list \<Rightarrow> span \<Rightarrow> (inst_ref list, 'h) sema_m" where
  "coerce_elements E block elem_ty elements span =
     s_map (\<lambda>element. s_bind (resolve_inst element) (\<lambda>value. coerce E block elem_ty value span)) elements"

definition analyze_array_init :: "'h sema_env \<Rightarrow> nat \<Rightarrow> nat \<Rightarrow> vindex \<Rightarrow> inst_ref list \<Rightarrow> span \<Rightarrow> (inst_ref \<times> control_flow, 'h) sema_m" where
  "analyze_array_init E vuir_id block ty elements span =
     s_bind (s_key ty) (\<lambda>k.
     s_bind (s_common cv_anyptr_t) (\<lambda>anyptr_t.
     s_bind (case k of
               VK_Type (VT_Slice pointee) \<Rightarrow>
                 if pointee = anyptr_t
                 then s_bind (coerce_elements E block anyptr_t elements span) (\<lambda>coerced. inst block (T_SliceInit ty coerced))
                 else s_fail (M_NotArrayInit ty) span
             | VK_Type (VT_Array elem_ty len) \<Rightarrow>
                 if length elements \<noteq> len then s_fail (M_ArrayElements len (length elements)) span
                 else s_bind (coerce_elements E block elem_ty elements span) (\<lambda>coerced.
                        if list_all is_interned coerced
                        then s_bind (s_map s_comptime coerced) (\<lambda>values. s_intern_ref E (VK_Aggregate ty values))
                        else inst block (T_ArrayInit ty coerced))
             | _ \<Rightarrow> s_fail (M_NotArrayInit ty) span) (\<lambda>value.
     s_bind (vuir_map_insert vuir_id value) (\<lambda>_. s_ret (value, CF_May)))))"

section \<open>Exhaustive switches\<close>

text \<open>The values that the patterns cover: the value of an enum tag, or the pattern itself.\<close>

fun covered_tags :: "'h value_store \<Rightarrow> inst_ref list \<Rightarrow> vindex list outcome" where
  "covered_tags S [] = Returns []"
| "covered_tags S (item # items) =
     bind_outcome (as_interned item) (\<lambda>value.
     bind_outcome (index_to_key S value) (\<lambda>k.
     bind_outcome (covered_tags S items) (\<lambda>tags. Returns ((case k of VK_EnumTag _ v \<Rightarrow> v | _ \<Rightarrow> value) # tags))))"

fun join_names :: "string list \<Rightarrow> string" where
  "join_names [] = ''''"
| "join_names [x] = x"
| "join_names (x # y # xs) = x @ ''`, `'' @ join_names (y # xs)"

definition missing_variants :: "enum_field list \<Rightarrow> string list \<Rightarrow> vindex list \<Rightarrow> string list" where
  "missing_variants tag_fields names covered = map snd (filter (\<lambda>(f, _). ef_value f \<notin> set covered) (zip tag_fields names))"

definition check_covered :: "enum_field list \<Rightarrow> string list \<Rightarrow> switch_case list \<Rightarrow> span \<Rightarrow> (bool, 'h) sema_m" where
  "check_covered tag_fields names cases span =
     s_bind (s_get sa_values) (\<lambda>S.
     s_bind (s_lift (covered_tags S (concat (map sc_items cases)))) (\<lambda>covered.
       let missing = missing_variants tag_fields names covered in
       if missing = [] then s_ret True
       else s_bind (push_error (M_NotExhaustive (length missing) (join_names missing)) (Some span)) (\<lambda>_. s_ret False)))"

definition check_switch_exhaustive :: "vindex \<Rightarrow> switch_case list \<Rightarrow> span \<Rightarrow> (bool, 'h) sema_m" where
  "check_switch_exhaustive operand_ty cases span =
     s_bind (s_key_value operand_ty) (\<lambda>kv.
       case kv of
         (VK_Type (VT_Enum _), value) \<Rightarrow>
           s_bind (s_lift (as_enum value)) (\<lambda>e. check_covered (te_fields e) (map ef_name (te_fields e)) cases span)
       | (VK_Type (VT_Union _), value) \<Rightarrow>
           s_bind (s_lift (as_union value)) (\<lambda>u.
             case tu_tag_ty u of
               None \<Rightarrow> s_bind (push_error M_BareUnionSwitch (Some span)) (\<lambda>_. s_ret False)
             | Some tag_ty \<Rightarrow>
                 s_bind (s_key_value tag_ty) (\<lambda>tkv.
                   case tkv of
                     (VK_Type (VT_Enum _), VV_Enum e) \<Rightarrow>
                       if length (tu_fields u) = length (te_fields e) then check_covered (te_fields e) (map utf_name (tu_fields u)) cases span else s_panic
                   | _ \<Rightarrow> s_panic))
       | (VK_Type _, _) \<Rightarrow> s_bind (push_error M_SwitchNeedsElse (Some span)) (\<lambda>_. s_ret False)
       | _ \<Rightarrow> s_panic)"

section \<open>Default values\<close>

definition s_intern_opt :: "'h sema_env \<Rightarrow> vkey \<Rightarrow> (vindex option, 'h) sema_m" where
  "s_intern_opt E k = s_bind (s_intern E k) (\<lambda>i. s_ret (Some i))"

definition intern_zero_int :: "'h sema_env \<Rightarrow> vindex \<Rightarrow> (vindex, 'h) sema_m" where
  "intern_zero_int E ty = s_intern E (VK_Int ty (from_u64 0))"

text \<open>The fields of a struct in their order, up to the first that has no default value.\<close>

fun zeroed_fields :: "(vindex \<Rightarrow> (vindex option, 'h) sema_m) \<Rightarrow> struct_field list \<Rightarrow> (vindex list option, 'h) sema_m" where
  "zeroed_fields f [] = s_ret (Some [])"
| "zeroed_fields f (x # xs) =
     s_bind (f (sf_ty x)) (\<lambda>v.
       case v of
         None \<Rightarrow> s_ret None
       | Some i \<Rightarrow> s_bind (zeroed_fields f xs) (\<lambda>rest. s_ret (map_option ((#) i) rest)))"

text \<open>The match on the type; \<open>f\<close> is the default value of a part.\<close>

definition zeroed_of_key :: "'h sema_env \<Rightarrow> (vindex \<Rightarrow> (vindex option, 'h) sema_m) \<Rightarrow> vindex \<Rightarrow> common_values \<Rightarrow> vkey \<Rightarrow> (vindex option, 'h) sema_m" where
  "zeroed_of_key E f ty c k =
     (let int = s_bind (intern_zero_int E ty) (\<lambda>i. s_ret (Some i)); float = s_intern_opt E (VK_Float ty 0) in
       case k of
         VK_Type (VT_Int _ _) \<Rightarrow> int | VK_Type VT_Anyint \<Rightarrow> int | VK_Type VT_Usize \<Rightarrow> int | VK_Type VT_Isize \<Rightarrow> int
       | VK_Type VT_F16 \<Rightarrow> float | VK_Type VT_F32 \<Rightarrow> float | VK_Type VT_F64 \<Rightarrow> float | VK_Type VT_F128 \<Rightarrow> float | VK_Type VT_Anyfloat \<Rightarrow> float
       | VK_Type VT_Bool \<Rightarrow> s_intern_opt E (VK_Bool False)
       | VK_Type VT_Void \<Rightarrow> s_ret (Some (cv_void_value c))
       | VK_Type (VT_Ptr _) \<Rightarrow> s_intern_opt E (VK_Ptr ty (PK_Value (cv_nullptr c)))
       | VK_Type (VT_Slice pointee) \<Rightarrow>
           s_bind (s_intern_ptr_type E pointee True) (\<lambda>ptr_ty.
           s_bind (s_intern E (VK_Ptr ptr_ty (PK_Value (cv_nullptr c)))) (\<lambda>ptr.
           s_bind (intern_zero_int E (cv_usize_t c)) (\<lambda>len. s_intern_opt E (VK_Slice ty ptr len))))
       | VK_Type (VT_Array elem len) \<Rightarrow>
           s_bind (f elem) (\<lambda>element.
             case element of None \<Rightarrow> s_ret None | Some i \<Rightarrow> s_intern_opt E (VK_Aggregate ty (replicate len i)))
       | VK_Type (VT_Struct _) \<Rightarrow>
           s_bind (s_value ty) (\<lambda>v.
           s_bind (s_lift (as_struct v)) (\<lambda>s.
           s_bind (zeroed_fields f (ts_fields s)) (\<lambda>values.
             case values of None \<Rightarrow> s_ret None | Some values \<Rightarrow> s_intern_opt E (VK_Aggregate ty values))))
       | VK_Type (VT_Enum _) \<Rightarrow>
           s_bind (s_value ty) (\<lambda>v.
           s_bind (s_lift (as_enum v)) (\<lambda>e. s_bind (intern_zero_int E (te_tag_ty e)) (\<lambda>z. s_intern_opt E (VK_EnumTag ty z))))
       | VK_Type VT_NullPtr \<Rightarrow> s_ret (Some (cv_nullptr c))
       | _ \<Rightarrow> s_ret None)"

primrec intern_zeroed_value :: "nat \<Rightarrow> 'h sema_env \<Rightarrow> vindex \<Rightarrow> (vindex option, 'h) sema_m" where
  "intern_zeroed_value 0 E ty = (\<lambda>_. S_Deep)"
| "intern_zeroed_value (Suc n) E ty =
     s_bind (s_key ty) (\<lambda>k.
     s_bind (s_get (\<lambda>st. vs_common (sa_values st))) (\<lambda>c. zeroed_of_key E (intern_zeroed_value n E) ty c k))"

section \<open>Variadic arguments\<close>

text \<open>A promotion: the value with a new type when it is known, a cast otherwise; \<open>rekey\<close> is the key of the promoted value.\<close>

definition promote_to ::
  "'h sema_env \<Rightarrow> nat \<Rightarrow> inst_ref \<Rightarrow> (vkey \<Rightarrow> vkey option) \<Rightarrow> topcode \<Rightarrow> (inst_ref \<times> vindex, 'h) sema_m" where
  "promote_to E block value rekey cast =
     s_bind (s_bind (comptime_key value) (\<lambda>k.
               case k of
                 Some k \<Rightarrow> (case rekey k of Some k' \<Rightarrow> s_intern_ref E k' | None \<Rightarrow> s_panic)
               | None \<Rightarrow> inst block cast)) (\<lambda>promoted.
     s_bind (sema_type_of promoted) (\<lambda>ty. s_ret (promoted, ty)))"

definition promote_variadic_arg :: "'h sema_env \<Rightarrow> nat \<Rightarrow> inst_ref \<Rightarrow> vindex \<Rightarrow> span \<Rightarrow> (inst_ref \<times> vindex, 'h) sema_m" where
  "promote_variadic_arg E block value arg_ty span =
     s_bind (s_key arg_ty) (\<lambda>k.
     s_bind (s_get (\<lambda>st. vs_common (sa_values st))) (\<lambda>c.
     let i32_t = cv_i32_t c; f64_t = cv_f64_t c;
         float = promote_to E block value (\<lambda>k. case k of VK_Float _ x \<Rightarrow> Some (VK_Float f64_t x) | _ \<Rightarrow> None) (T_UnsafeFloatCast value f64_t) in
       case k of
         VK_Type t \<Rightarrow>
           (case t of
              VT_F64 \<Rightarrow> s_ret (value, arg_ty) | VT_Ptr _ \<Rightarrow> s_ret (value, arg_ty) | VT_Isize \<Rightarrow> s_ret (value, arg_ty) | VT_Usize \<Rightarrow> s_ret (value, arg_ty)
            | VT_Int _ bits \<Rightarrow>
                if 32 \<le> unat bits \<and> unat bits \<le> 64 then s_ret (value, arg_ty)
                else if 64 < unat bits then s_fail M_VariadicInt span
                else promote_to E block value (\<lambda>k. case k of VK_Int _ x \<Rightarrow> Some (VK_Int i32_t x) | _ \<Rightarrow> None) (T_UnsafeIntCast value i32_t)
            | VT_Bool \<Rightarrow>
                promote_to E block value (\<lambda>k. case k of VK_Bool b \<Rightarrow> Some (VK_Int i32_t (from_u64 (if b then 1 else 0))) | _ \<Rightarrow> None)
                  (T_UnsafeIntCast value i32_t)
            | VT_F16 \<Rightarrow> float | VT_F32 \<Rightarrow> float
            | _ \<Rightarrow> s_fail (M_Variadic arg_ty) span)
       | _ \<Rightarrow> s_panic))"

section \<open>Bodies\<close>

type_synonym 'h analyze_inst = "nat \<Rightarrow> nat \<Rightarrow> (inst_ref \<times> control_flow, 'h) sema_m"

text \<open>The instructions of a body are analyzed up to the first after which control does not go on.\<close>

fun analyze_instructions :: "'h analyze_inst \<Rightarrow> nat \<Rightarrow> nat list \<Rightarrow> control_flow \<Rightarrow> (control_flow, 'h) sema_m" where
  "analyze_instructions f block [] flow = s_ret flow"
| "analyze_instructions f block (i # is) flow =
     s_bind (f block i) (\<lambda>(r, inst_flow).
     s_bind (s_common cv_unreachable_value) (\<lambda>unreachable_value.
       if r = R_Interned unreachable_value \<or> inst_flow = CF_Always then s_ret CF_Always
       else analyze_instructions f block is (control_flow_join flow inst_flow)))"

definition analyze_instruction_block :: "'h analyze_inst \<Rightarrow> nat \<Rightarrow> nat list \<Rightarrow> (control_flow, 'h) sema_m" where
  "analyze_instruction_block f block is = analyze_instructions f block is CF_May"

definition check_linear_slots :: "(unit, 'h) sema_m" where
  "check_linear_slots = s_bind (s_get sa_linear_slots) push_unconsumed"

definition analyze_fn_body :: "'h analyze_inst \<Rightarrow> nat \<Rightarrow> nat list \<Rightarrow> vindex \<Rightarrow> (unit, 'h) sema_m" where
  "analyze_fn_body f block body ret_ty =
     s_bind (analyze_instruction_block f block body) (\<lambda>body_flow.
     s_bind (s_common cv_void_t) (\<lambda>void_t.
     s_bind (if body_flow = CF_Always then s_ret ()
             else if ret_ty = void_t then s_bind (inst block (T_Return None)) (\<lambda>_. s_ret ())
             else push_error M_MissingReturn None) (\<lambda>_. check_linear_slots)))"

definition analyze_fn_body_at_comptime :: "'h analyze_inst \<Rightarrow> nat \<Rightarrow> nat list \<Rightarrow> vindex \<Rightarrow> span \<Rightarrow> (inst_ref option, 'h) sema_m" where
  "analyze_fn_body_at_comptime f block body ret_ty caller_span st =
     (case analyze_instruction_block f block body st of
        S_Ok _ st \<Rightarrow>
          if ret_ty = cv_void_t (vs_common (sa_values st))
          then s_bind check_linear_slots (\<lambda>_. s_ret (Some (R_Interned (cv_void_t (vs_common (sa_values st)))))) st
          else s_bind (push_error M_MissingReturn (Some caller_span)) (\<lambda>_. s_bind check_linear_slots (\<lambda>_. s_throw AE_AnalysisFailed)) st
      | S_Err (AE_InlineReturn value) st \<Rightarrow> s_bind check_linear_slots (\<lambda>_. s_ret value) st
      | S_Err e st \<Rightarrow> s_bind check_linear_slots (\<lambda>_. s_throw e) st
      | S_Panics \<Rightarrow> S_Panics
      | S_Deep \<Rightarrow> S_Deep)"

definition analyze_comptime_block :: "'h analyze_inst \<Rightarrow> nat \<Rightarrow> nat list \<Rightarrow> (inst_ref option, 'h) sema_m" where
  "analyze_comptime_block f block instructions st =
     (case analyze_instruction_block f block instructions st of
        S_Ok _ st \<Rightarrow> S_Ok None st
      | S_Err (AE_ComptimeBreak _ value) st \<Rightarrow> S_Ok (Some value) st
      | S_Err (AE_InlineReturn value) st \<Rightarrow> S_Ok value st
      | S_Err e st \<Rightarrow> S_Err e st
      | S_Panics \<Rightarrow> S_Panics
      | S_Deep \<Rightarrow> S_Deep)"

end
