(* ===== verification/Vif_Sema_Calls.thy ===== *)
theory Vif_Sema_Calls
  imports Vif_Sema_Init Vif_Grammar
begin

text \<open>
  Builtin functions, \<^verbatim>\<open>analyze_fn_builtin_body\<close> of \<^verbatim>\<open>src/compile_unit/sema.rs\<close>, and the assignment of arguments to parameters at the start of
  \<^verbatim>\<open>analyze_fn_call\<close> in \<^verbatim>\<open>src/compile_unit/sema/call.rs\<close>. What \<^verbatim>\<open>get_vuir_fn_info\<close> reads of the module that declares the function, the ids and
  names of its parameters, are arguments.
\<close>

section \<open>Builtins\<close>

definition builtin_param :: "nat list \<Rightarrow> nat \<Rightarrow> (inst_ref, 'h) sema_m" where
  "builtin_param params n = s_bind (s_nth params n) (\<lambda>i. resolve_inst (R_Instruction i))"

definition builtin_type_param :: "'h sema_env \<Rightarrow> nat \<Rightarrow> nat list \<Rightarrow> nat \<Rightarrow> span \<Rightarrow> (vindex, 'h) sema_m" where
  "builtin_type_param E block params n span = s_bind (s_nth params n) (\<lambda>i. resolve_type E block (R_Instruction i) span)"

definition s_layout :: "'h sema_env \<Rightarrow> vindex \<Rightarrow> (layout, 'h) sema_m" where
  "s_layout E ty = s_bind (s_get sa_values) (\<lambda>S. s_deep (type_layout (en_depth E) (en_target E) S ty))"

definition intern_usize :: "'h sema_env \<Rightarrow> nat \<Rightarrow> (inst_ref, 'h) sema_m" where
  "intern_usize E n = s_bind (s_common cv_usize_t) (\<lambda>usize_t. s_intern_ref E (VK_Int usize_t (from_u64 (word_of_nat n))))"

definition builtin_unsafe_int_cast :: "'h sema_env \<Rightarrow> nat \<Rightarrow> vindex \<Rightarrow> nat list \<Rightarrow> span \<Rightarrow> (inst_ref, 'h) sema_m" where
  "builtin_unsafe_int_cast E block ret_ty params span =
     s_bind (builtin_param params 2) (\<lambda>src.
     s_bind (type_key src) (\<lambda>k.
     s_bind (if k = VK_Type VT_Anyint then coerce E block ret_ty src span else s_ret src) (\<lambda>src. inst block (T_UnsafeIntCast src ret_ty))))"

definition builtin_size_of :: "'h sema_env \<Rightarrow> nat \<Rightarrow> nat list \<Rightarrow> span \<Rightarrow> (inst_ref, 'h) sema_m" where
  "builtin_size_of E block params span =
     s_bind (builtin_type_param E block params 0 span) (\<lambda>ty. s_bind (s_layout E ty) (\<lambda>l. intern_usize E (lay_size l)))"

definition builtin_bit_size_of :: "'h sema_env \<Rightarrow> nat \<Rightarrow> nat list \<Rightarrow> span \<Rightarrow> (inst_ref, 'h) sema_m" where
  "builtin_bit_size_of E block params span =
     s_bind (builtin_type_param E block params 0 span) (\<lambda>ty.
     s_bind (s_get sa_values) (\<lambda>S.
     s_bind (s_deep (known_bit_size (en_depth E) S ty)) (\<lambda>known.
       case known of
         Some bits \<Rightarrow> intern_usize E bits
       | None \<Rightarrow> s_bind (s_layout E ty) (\<lambda>l. s_bind (s_lift (u64_mul 8 (lay_size l))) (intern_usize E)))))"

definition builtin_zeroed :: "'h sema_env \<Rightarrow> nat \<Rightarrow> vindex \<Rightarrow> (inst_ref, 'h) sema_m" where
  "builtin_zeroed E block ret_ty =
     s_bind (get_block block) (\<lambda>b.
       if bk_comptime b
       then s_bind (intern_zeroed_value (en_depth E) E ret_ty) (\<lambda>v. case v of Some i \<Rightarrow> s_ret (R_Interned i) | None \<Rightarrow> inst block (T_Zeroed ret_ty))
       else inst block (T_Zeroed ret_ty))"

definition builtin_int_from_enum :: "'h sema_env \<Rightarrow> nat \<Rightarrow> vindex \<Rightarrow> nat list \<Rightarrow> span \<Rightarrow> (inst_ref, 'h) sema_m" where
  "builtin_int_from_enum E block ret_ty params span =
     s_bind (builtin_param params 2) (\<lambda>value.
     s_bind (sema_type_of value) (\<lambda>value_ty.
     s_bind (s_key value_ty) (\<lambda>_.
     s_bind (s_value value_ty) (\<lambda>v.
       case v of
         VV_Enum e \<Rightarrow> s_bind (coerce E block (te_tag_ty e) (R_Interned ret_ty) span) (\<lambda>_. inst block (T_BitCast value ret_ty))
       | _ \<Rightarrow> s_fail (M_ExpectedEnum value_ty) span))))"

definition builtin_import :: "'h sema_env \<Rightarrow> nat list \<Rightarrow> nat \<Rightarrow> span \<Rightarrow> (inst_ref, 'h) sema_m" where
  "builtin_import E params caller_module span =
     s_bind (builtin_param params 0) (\<lambda>r.
     s_bind (s_lift (as_interned r)) (\<lambda>i.
     s_bind (s_key i) (\<lambda>k.
       case k of
         VK_Str _ str \<Rightarrow>
           if \<not> utf8_ok (map of_char str) then s_panic else
           (case (if str = ''root'' then Some (en_root_module E) else if str = ''std'' then Some (en_std_module E)
                  else if str = ''builtin'' then Some (en_builtin_module E) else en_module_at E caller_module str) of
              None \<Rightarrow> s_fail (M_ModuleNotFound str) span
            | Some m \<Rightarrow> s_bind (en_get_or_analyze_module E m) (\<lambda>v. s_ret (R_Interned v)))
       | _ \<Rightarrow> s_panic)))"

definition builtin_nullptr :: "'h sema_env \<Rightarrow> vindex \<Rightarrow> span \<Rightarrow> (inst_ref, 'h) sema_m" where
  "builtin_nullptr E ptr_ty span =
     s_bind (s_key ptr_ty) (\<lambda>k.
       case k of
         VK_Type (VT_Ptr _) \<Rightarrow> s_bind (s_common cv_nullptr) (\<lambda>nullptr. s_intern_ref E (VK_Ptr ptr_ty (PK_Value nullptr)))
       | _ \<Rightarrow> s_fail (M_ReturnNotPtr ptr_ty) span)"

definition builtin_slice_from_raw_parts :: "'h sema_env \<Rightarrow> nat \<Rightarrow> nat list \<Rightarrow> (inst_ref, 'h) sema_m" where
  "builtin_slice_from_raw_parts E block params =
     s_bind (builtin_param params 0) (\<lambda>pointee_ty.
     s_bind (builtin_param params 1) (\<lambda>ptr.
     s_bind (builtin_param params 2) (\<lambda>len.
     s_bind (s_lift (as_interned pointee_ty)) (\<lambda>pointee_ty.
     s_bind (s_intern E (VK_Type (VT_Slice pointee_ty))) (\<lambda>slice_ty. inst block (T_SliceFromRawParts slice_ty ptr len))))))"

definition builtin_slice_ptr :: "'h sema_env \<Rightarrow> nat \<Rightarrow> nat list \<Rightarrow> (inst_ref, 'h) sema_m" where
  "builtin_slice_ptr E block params =
     s_bind (builtin_param params 0) (\<lambda>r.
     s_bind (s_lift (as_interned r)) (\<lambda>pointee_ty.
     s_bind (builtin_param params 1) (\<lambda>sl.
     s_bind (s_intern_ptr_type E pointee_ty True) (\<lambda>ptr_ty. inst block (T_SlicePtr sl ptr_ty)))))"

text \<open>\<^verbatim>\<open>@abort\<close> and \<^verbatim>\<open>@unreachable\<close>.\<close>

definition builtin_ends :: "nat \<Rightarrow> topcode list \<Rightarrow> sema_msg \<Rightarrow> span \<Rightarrow> (inst_ref, 'h) sema_m" where
  "builtin_ends block opcodes msg span =
     s_bind (get_block block) (\<lambda>b.
       if bk_comptime b then s_fail msg span
       else s_bind (s_map (inst block) opcodes) (\<lambda>_. s_bind (s_common cv_unreachable_value) (\<lambda>u. s_ret (R_Interned u))))"

definition builtin_bitcast :: "'h sema_env \<Rightarrow> nat \<Rightarrow> vindex \<Rightarrow> nat list \<Rightarrow> span \<Rightarrow> (inst_ref, 'h) sema_m" where
  "builtin_bitcast E block ret_ty params span =
     s_bind (builtin_param params 2) (\<lambda>value.
     s_bind (sema_type_of value) (\<lambda>src_ty.
     s_bind (s_layout E src_ty) (\<lambda>src.
     s_bind (s_layout E ret_ty) (\<lambda>dst.
       if lay_size src \<noteq> lay_size dst then s_fail (M_BitcastSize src_ty (lay_size src) ret_ty (lay_size dst)) span
       else inst block (T_BitCast value ret_ty)))))"

text \<open>A parameter that must be an \<^verbatim>\<open>anyptr\<close>.\<close>

definition anyptr_param :: "nat list \<Rightarrow> nat \<Rightarrow> span \<Rightarrow> (inst_ref, 'h) sema_m" where
  "anyptr_param params n span =
     s_bind (builtin_param params n) (\<lambda>value.
     s_bind (sema_type_of value) (\<lambda>value_ty.
     s_bind (s_common cv_anyptr_t) (\<lambda>anyptr_t. if value_ty \<noteq> anyptr_t then s_fail (M_ExpectedAnyptr value_ty) span else s_ret value)))"

text \<open>The builtins on \<^verbatim>\<open>anyptr\<close> and \<^verbatim>\<open>@type_info\<close>.\<close>

definition builtin_anyptr :: "'h sema_env \<Rightarrow> nat \<Rightarrow> vindex \<Rightarrow> nat list \<Rightarrow> builtin_kind \<Rightarrow> span \<Rightarrow> (inst_ref, 'h) sema_m" where
  "builtin_anyptr E block ret_ty params kind span =
     (case kind of
        Bi_AnyptrIs \<Rightarrow>
          s_bind (builtin_type_param E block params 0 span) (\<lambda>target_ty.
          s_bind (en_analyze_type_info E target_ty) (\<lambda>_.
          s_bind (anyptr_param params 1 span) (\<lambda>value. inst block (T_AnyptrIs value target_ty))))
      | Bi_AnyptrAs \<Rightarrow>
          s_bind (builtin_type_param E block params 0 span) (\<lambda>target_ty.
          s_bind (anyptr_param params 1 span) (\<lambda>value. inst block (T_AnyptrAs value target_ty)))
      | Bi_AnyptrPtr \<Rightarrow> s_bind (anyptr_param params 0 span) (\<lambda>value. inst block (T_AnyptrPtr value ret_ty))
      | Bi_AnyptrFromRaw \<Rightarrow>
          s_bind (builtin_param params 0) (\<lambda>ptr. s_bind (builtin_param params 1) (\<lambda>type_id. inst block (T_AnyptrFromRaw ptr type_id)))
      | Bi_AnyptrTypeInfo \<Rightarrow>
          s_bind (anyptr_param params 0 span) (\<lambda>value.
          s_bind (en_builtin_type_info E) (\<lambda>ty. inst block (T_AnyptrTypeInfo value ty)))
      | Bi_TypeInfo \<Rightarrow>
          s_bind (builtin_type_param E block params 0 span) (\<lambda>ty.
          s_bind (en_analyze_type_info E ty) (\<lambda>type_info. s_ret (R_Interned (en_type_info_entry E type_info))))
      | _ \<Rightarrow> s_panic)"

definition analyze_fn_builtin_body ::
  "'h sema_env \<Rightarrow> nat \<Rightarrow> type_fn \<Rightarrow> nat list \<Rightarrow> builtin_kind \<Rightarrow> nat \<Rightarrow> span \<Rightarrow> (inst_ref, 'h) sema_m" where
  "analyze_fn_builtin_body E block fun_ty params kind caller_module span =
     (let ret_ty = tf_ret_ty fun_ty in
      case kind of
        Bi_UnsafeIntCast \<Rightarrow> builtin_unsafe_int_cast E block ret_ty params span
      | Bi_SizeOf \<Rightarrow> builtin_size_of E block params span
      | Bi_BitSizeOf \<Rightarrow> builtin_bit_size_of E block params span
      | Bi_Zeroed \<Rightarrow> builtin_zeroed E block ret_ty
      | Bi_IntFromEnum \<Rightarrow> builtin_int_from_enum E block ret_ty params span
      | Bi_IntToFloat \<Rightarrow> s_bind (builtin_param params 2) (\<lambda>src. inst block (T_IntToFloat src ret_ty))
      | Bi_Import \<Rightarrow> builtin_import E params caller_module span
      | Bi_Nullptr \<Rightarrow> builtin_nullptr E ret_ty span
      | Bi_SliceFromRawParts \<Rightarrow> builtin_slice_from_raw_parts E block params
      | Bi_SlicePtr \<Rightarrow> builtin_slice_ptr E block params
      | Bi_SliceLen \<Rightarrow> s_bind (builtin_param params 1) (\<lambda>sl. inst block (T_SliceLen sl))
      | Bi_Abort \<Rightarrow> builtin_ends block [T_Abort, T_Unreachable] M_AbortInComptime span
      | Bi_Unreachable \<Rightarrow> builtin_ends block [T_Unreachable] M_UnreachableInComptime span
      | Bi_PtrToInt \<Rightarrow> s_bind (builtin_param params 1) (\<lambda>src. inst block (T_PtrToInt src ret_ty))
      | Bi_IntToPtr \<Rightarrow> s_bind (builtin_param params 1) (\<lambda>src. inst block (T_IntToPtr src ret_ty))
      | Bi_Forget \<Rightarrow> s_bind (s_common cv_void_value) (\<lambda>v. s_ret (R_Interned v))
      | Bi_Bitcast \<Rightarrow> builtin_bitcast E block ret_ty params span
      | Bi_SliceCopyNonoverlapping \<Rightarrow>
          s_bind (builtin_param params 1) (\<lambda>src.
          s_bind (builtin_param params 2) (\<lambda>dst.
          s_bind (sema_type_of src) (\<lambda>slice_ty. inst block (T_SliceCopyNonoverlapping slice_ty src dst))))
      | _ \<Rightarrow> builtin_anyptr E block ret_ty params kind span)"

section \<open>Arguments of a call\<close>

record call_arg =
  arg_name :: "string option"
  arg_body :: "nat list"
  arg_span :: span

text \<open>
  The parameter of an argument: by name when the callee is known, by position otherwise. \<open>names\<close> are the names of the parameters of a callee that is
  known at compile time.
\<close>

definition param_idx_by_name :: "string list \<Rightarrow> string \<Rightarrow> nat option" where
  "param_idx_by_name names wanted = find_index (\<lambda>n. n = wanted) names"

definition param_of_arg :: "string list option \<Rightarrow> nat \<Rightarrow> nat \<Rightarrow> call_arg \<Rightarrow> nat option" where
  "param_of_arg names n i arg =
     (case arg_name arg of
        Some name \<Rightarrow> (case names of Some ns \<Rightarrow> param_idx_by_name ns name | None \<Rightarrow> None)
      | None \<Rightarrow> if i < n then Some i else None)"

fun assign_args ::
  "string list option \<Rightarrow> bool \<Rightarrow> nat \<Rightarrow> call_arg list \<Rightarrow> bool list \<Rightarrow> (nat option list \<times> bool list, 'h) sema_m" where
  "assign_args names var_args i [] valid = s_ret ([], valid)"
| "assign_args names var_args i (arg # rest) valid =
     s_bind (case param_of_arg names (length valid) i arg of
               Some idx \<Rightarrow>
                 s_bind (s_nth valid idx) (\<lambda>taken.
                   if taken then s_fail (M_ArgumentTwice idx) (arg_span arg) else s_ret (Some idx, valid[idx := True]))
             | None \<Rightarrow>
                 (case arg_name arg of
                    Some name \<Rightarrow>
                      s_fail (if names = None then M_NamedNeedsStaticCallee name else M_NoParameterNamed name) (arg_span arg)
                  | None \<Rightarrow> if var_args then s_ret (None, valid) else s_fail (M_TooManyArguments (length valid)) (arg_span arg))) (\<lambda>(p, valid).
     s_bind (assign_args names var_args (Suc i) rest valid) (\<lambda>(ps, valid). s_ret (p # ps, valid)))"

fun push_missing :: "nat \<Rightarrow> bool list \<Rightarrow> span \<Rightarrow> (unit, 'h) sema_m" where
  "push_missing i [] span = s_ret ()"
| "push_missing i (v # vs) span =
     (if v then push_missing (Suc i) vs span
      else s_bind (push_error (M_MissingArgument i) (Some span)) (\<lambda>_. push_missing (Suc i) vs span))"

definition match_args :: "string list option \<Rightarrow> bool \<Rightarrow> nat \<Rightarrow> call_arg list \<Rightarrow> span \<Rightarrow> ((nat option \<times> call_arg) list, 'h) sema_m" where
  "match_args names var_args n args span =
     s_bind (assign_args names var_args 0 args (replicate n False)) (\<lambda>(ps, valid).
     s_bind (push_missing 0 valid span) (\<lambda>_.
       if False \<in> set valid then s_throw AE_AnalysisFailed else s_ret (zip ps args)))"

end
