(* ===== verification/Vif_Sema_Consts.thy ===== *)
theory Vif_Sema_Consts
  imports Vif_Sema_Calls Vif_Layout_Props Vif_Value_Store
begin

text \<open>
  What semantic analysis computes at compile time: operators on integers, comparisons, coercions of untyped integers and of types. An operation on known
  operands ends with the interning of its result, which is how the properties state it.
\<close>

section \<open>Operands\<close>

definition int_operand :: "'h sema \<Rightarrow> inst_ref \<Rightarrow> vindex \<Rightarrow> anyint \<Rightarrow> bool" where
  "int_operand st r ty x \<longleftrightarrow> (\<exists>i. r = R_Interned i \<and> index_to_key (sa_values st) i = Returns (VK_Int ty x) \<and> wf_anyint x)"

lemma s_key_simp [simp]: "s_key i st = s_lift (index_to_key (sa_values st) i) st"
  by (simp add: s_key_def)

lemma s_key_value_simp [simp]: "s_key_value i st = s_lift (index_to_key_value (sa_values st) i) st"
  by (simp add: s_key_value_def)

lemma s_common_simp [simp]: "s_common f st = S_Ok (f (vs_common (sa_values st))) st"
  by (simp add: s_common_def)

lemma type_of_interned_simp [simp]: "sema_type_of (R_Interned i) st = s_lift (type_of_interned (sa_values st) i) st"
  by (simp add: sema_type_of_def vtir_type_of_def)

lemma comptime_key_simp [simp]:
  "index_to_key (sa_values st) i = Returns k \<Longrightarrow> comptime_key (R_Interned i) st = S_Ok (Some k) st"
  by (simp add: comptime_key_def as_interned_opt_def)

lemma int_operand_simps:
  assumes "int_operand st r ty x"
  shows "sema_type_of r st = S_Ok ty st" and "comptime_key r st = S_Ok (Some (VK_Int ty x)) st"
  using assms by (auto simp: int_operand_def type_of_interned_def type_of_key_def)

lemma unify_equal:
  assumes "index_to_key (sa_values st) ty = Returns k"
  shows "unify_operands E sizes msg block ty ty l r span st = S_Ok (ty, l, r) st"
  using assms by (simp add: unify_operands_def)

section \<open>Wrapping\<close>

definition wrapped :: "bool \<Rightarrow> nat \<Rightarrow> int \<Rightarrow> int" where
  "wrapped is_signed bits v = (if is_signed then signed_take_bit (bits - 1) v else take_bit bits v)"

definition in_range :: "bool \<Rightarrow> nat \<Rightarrow> int \<Rightarrow> bool" where
  "in_range is_signed bits v \<longleftrightarrow> (if is_signed then - (2 ^ (bits - 1)) \<le> v \<and> v < 2 ^ (bits - 1) else 0 \<le> v \<and> v < 2 ^ bits)"

lemma wrapped_in_range: "in_range is_signed bits (wrapped is_signed bits v)"
  by (simp add: in_range_def wrapped_def signed_take_bit_int_less_exp signed_take_bit_int_greater_eq_minus_exp)

lemma is_negative_iff: "wf_anyint a \<Longrightarrow> is_negative a \<longleftrightarrow> to_int a < 0"
  by (simp add: is_negative_def to_int_neg_iff)

lemma wrap_to_correct:
  assumes "wf_anyint a" and "is_signed \<Longrightarrow> 0 < bits"
  shows "\<exists>v. wrap_to is_signed bits a = Returns v \<and> wf_anyint v \<and> to_int v = wrapped is_signed bits (to_int a)"
proof -
  let ?m = "shl (from_u64 1) bits"
  have m: "wf_anyint ?m" "to_int ?m = 2 ^ bits" using ints.shift_left_law [of "from_u64 1" bits] ints.one_law by simp_all
  obtain w where w: "anyint_rem a ?m = Returns w" "wf_anyint w" using ints.rm_law [OF assms(1) m(1)] m(2) by auto
  let ?u = "if is_negative w then add w ?m else w"
  have u: "wf_anyint ?u" "to_int ?u = to_int a mod 2 ^ bits"
    using ints.unsigned_wrap [OF assms(1) w(1)] is_negative_iff [OF w(2)] by simp_all
  show ?thesis
  proof (cases is_signed)
    case True
    then show ?thesis using ints.signed_wrap [OF u assms(2) [OF True]] assms(2) w(1) by (simp add: wrap_to_def Let_def wrapped_def)
  next
    case False
    then show ?thesis using u w(1) by (simp add: wrap_to_def Let_def wrapped_def take_bit_eq_mod)
  qed
qed

section \<open>Arithmetic\<close>

text \<open>The exact result of an operator, and the operators by what they do with it.\<close>

definition exact_result :: "infix_op_kind \<Rightarrow> int \<Rightarrow> int \<Rightarrow> int" where
  "exact_result op x y =
     (if op \<in> {O_Add, O_AddSat} then x + y else if op \<in> {O_Sub, O_SubSat} then x - y else if op \<in> {O_Mul, O_MulSat} then x * y
      else if op = O_Div then x sdiv y else x smod y)"

lemma comptime_int_op_exact:
  assumes "wf_anyint x" and "wf_anyint y" and "op \<in> {O_Add, O_Sub, O_Mul}"
  shows "\<exists>v. wf_anyint v \<and> to_int v = exact_result op (to_int x) (to_int y) \<and> comptime_int_op E S op ty x y = wrap_int_value E S ty v"
  using assms ring.plus_law [OF assms(1,2)] ring.minus_law [OF assms(1,2)] ring.times_law [OF assms(1,2)]
  by (auto simp: comptime_int_op_def exact_result_def)

lemma comptime_int_op_plain:
  assumes "wf_anyint x" and "wf_anyint y" and "op \<in> {O_AddSat, O_SubSat, O_MulSat} \<or> op \<in> {O_Div, O_Rem} \<and> to_int y \<noteq> 0"
  shows "\<exists>v. comptime_int_op E S op ty x y = Returns v \<and> wf_anyint v \<and> to_int v = exact_result op (to_int x) (to_int y)"
  using assms ring.plus_law [OF assms(1,2)] ring.minus_law [OF assms(1,2)] ring.times_law [OF assms(1,2)]
    ints.quo_law [OF assms(1,2)] ints.rm_law [OF assms(1,2)]
  by (auto simp: comptime_int_op_def exact_result_def)

lemma arithmetic_on_ints:
  assumes "int_operand st l ty x" and "int_operand st r ty y" and "index_to_key (sa_values st) ty = Returns (VK_Type t)"
    and "type_width (en_target E) t = Some w"
  shows "analyze_arithmetic_op E block op l r span st =
    s_bind (s_lift (comptime_int_op E (sa_values st) op ty x y)) (\<lambda>res. s_intern_ref E (VK_Int ty res)) st"
proof -
  have "type_is_numeric (VK_Type t)" using assms(4) by (cases t) (simp_all add: type_is_numeric_def type_width_def)
  then show ?thesis
    using assms(3) unify_equal [OF assms(3)] int_operand_simps [OF assms(1)] int_operand_simps [OF assms(2)] by (simp add: analyze_arithmetic_op_def on_operand_keys_def arithmetic_on_keys_def)
qed

text \<open>
  C10: Arithmetic on two integers of the same sized type that are known at compile time. Addition, subtraction and multiplication wrap to the width of the type
  as two's complement, and the result is in its range. Division and remainder truncate; a zero divisor panics instead of being reported. The saturating
  operators do not saturate: their result is the exact one, which the type may not be able to hold.
\<close>

theorem comptime_arithmetic:
  assumes "int_operand st l ty x" and "int_operand st r ty y" and "index_to_key (sa_values st) ty = Returns (VK_Type t)"
    and "type_width (en_target E) t = Some (is_signed, bits)" and "0 < bits"
  shows "(op \<in> {O_Add, O_Sub, O_Mul} \<longrightarrow> (\<exists>v. wf_anyint v \<and> to_int v = wrapped is_signed bits (exact_result op (to_int x) (to_int y))
        \<and> in_range is_signed bits (to_int v) \<and> analyze_arithmetic_op E block op l r span st = s_intern_ref E (VK_Int ty v) st))
    \<and> (op \<in> {O_AddSat, O_SubSat, O_MulSat} \<or> op \<in> {O_Div, O_Rem} \<and> to_int y \<noteq> 0 \<longrightarrow>
        (\<exists>v. wf_anyint v \<and> to_int v = exact_result op (to_int x) (to_int y) \<and> analyze_arithmetic_op E block op l r span st = s_intern_ref E (VK_Int ty v) st))
    \<and> (op \<in> {O_Div, O_Rem} \<and> to_int y = 0 \<longrightarrow> analyze_arithmetic_op E block op l r span st = S_Panics)"
proof (intro conjI impI)
  note eq = arithmetic_on_ints [OF assms(1-4), where op = op and block = block and span = span]
  have wf: "wf_anyint x" "wf_anyint y" using assms(1,2) by (auto simp: int_operand_def)
  { assume "op \<in> {O_Add, O_Sub, O_Mul}"
    from comptime_int_op_exact [OF wf this, of E "sa_values st" ty] obtain v where
      v: "wf_anyint v" "to_int v = exact_result op (to_int x) (to_int y)" "comptime_int_op E (sa_values st) op ty x y = wrap_int_value E (sa_values st) ty v"
      by blast
    obtain u where "wrap_to is_signed bits v = Returns u" "wf_anyint u" "to_int u = wrapped is_signed bits (to_int v)"
      using wrap_to_correct [OF v(1)] assms(5) by blast
    then show "\<exists>v. wf_anyint v \<and> to_int v = wrapped is_signed bits (exact_result op (to_int x) (to_int y))
        \<and> in_range is_signed bits (to_int v) \<and> analyze_arithmetic_op E block op l r span st = s_intern_ref E (VK_Int ty v) st"
      using v assms(3,4) wrapped_in_range eq by (intro exI [of _ u]) (simp add: wrap_int_value_def) }
  { assume "op \<in> {O_AddSat, O_SubSat, O_MulSat} \<or> op \<in> {O_Div, O_Rem} \<and> to_int y \<noteq> 0"
    from comptime_int_op_plain [OF wf this, of E "sa_values st" ty]
    show "\<exists>v. wf_anyint v \<and> to_int v = exact_result op (to_int x) (to_int y) \<and> analyze_arithmetic_op E block op l r span st = s_intern_ref E (VK_Int ty v) st"
      using eq by auto }
  assume "op \<in> {O_Div, O_Rem} \<and> to_int y = 0"
  then have "comptime_int_op E (sa_values st) op ty x y = Panics" using ints.div_zero [OF wf] by (auto simp: comptime_int_op_def)
  then show "analyze_arithmetic_op E block op l r span st = S_Panics" using eq by simp
qed

section \<open>Bitwise operators\<close>

text \<open>
  The complement of a known integer is that of the unbounded integers, \<open>- x - 1\<close>. It keeps the range of a signed type; the complement of an unsigned number
  is negative and is interned with the unsigned type, which cannot hold it.
\<close>

theorem comptime_bit_not:
  assumes "int_operand st r ty x" and "index_to_key (sa_values st) ty = Returns (VK_Type (VT_Int is_signed bits))"
  shows "\<exists>v. wf_anyint v \<and> to_int v = - to_int x - 1 \<and> analyze_bitwise_not_op E block r span st = s_intern_ref E (VK_Int ty v) st
    \<and> (is_signed \<and> in_range True (unat bits) (to_int x) \<longrightarrow> in_range True (unat bits) (to_int v))
    \<and> (\<not> is_signed \<and> in_range False (unat bits) (to_int x) \<longrightarrow> \<not> in_range False (unat bits) (to_int v))"
proof -
  have wf: "wf_anyint x" using assms(1) by (auto simp: int_operand_def)
  have v: "wf_anyint (anyint_not x)" "to_int (anyint_not x) = - to_int x - 1" using anyint_not_correct [OF wf] by (simp_all add: not_int_def)
  have "analyze_bitwise_not_op E block r span st = s_intern_ref E (VK_Int ty (anyint_not x)) st"
    using int_operand_simps [OF assms(1)] assms(2) by (simp add: analyze_bitwise_not_op_def is_bitwise_type_def)
  then show ?thesis using v by (intro exI [of _ "anyint_not x"]) (auto simp: in_range_def)
qed

section \<open>Comparisons\<close>

lemma anyint_lt_le: "wf_anyint a \<Longrightarrow> wf_anyint b \<Longrightarrow> (anyint_lt a b \<longleftrightarrow> to_int a < to_int b) \<and> (anyint_le a b \<longleftrightarrow> to_int a \<le> to_int b)"
  by (simp add: anyint_lt_def anyint_le_def anyint_cmp_correct not_less)

text \<open>
  C37: Comparison of two known integers of the same type: the four order relations are those of the integers, but both \<^verbatim>\<open>==\<close> and \<^verbatim>\<open>!=\<close> compute
  \<^verbatim>\<open>>=\<close>. So \<^verbatim>\<open>3 == 2\<close> is true and \<^verbatim>\<open>2 != 3\<close> is false at compile time.
\<close>

theorem comptime_equality_is_ge:
  assumes "int_operand st l ty x" and "int_operand st r ty y" and "index_to_key (sa_values st) ty = Returns k"
  shows "op \<in> {O_Eq, O_Neq, O_Lt, O_Lte, O_Gt, O_Gte} \<longrightarrow> analyze_comparaison_op E block op l r span st = s_intern_ref E (VK_Bool
    (if op = O_Lt then to_int x < to_int y else if op = O_Lte then to_int x \<le> to_int y else if op = O_Gt then to_int x > to_int y
     else to_int x \<ge> to_int y)) st"
proof
  assume "op \<in> {O_Eq, O_Neq, O_Lt, O_Lte, O_Gt, O_Gte}"
  moreover have "wf_anyint x" "wf_anyint y" using assms(1,2) by (auto simp: int_operand_def)
  ultimately show "analyze_comparaison_op E block op l r span st = s_intern_ref E (VK_Bool
    (if op = O_Lt then to_int x < to_int y else if op = O_Lte then to_int x \<le> to_int y else if op = O_Gt then to_int x > to_int y
     else to_int x \<ge> to_int y)) st"
    using int_operand_simps [OF assms(1)] int_operand_simps [OF assms(2)] unify_equal [OF assms(3)] anyint_lt_le [of x y] anyint_lt_le [of y x]
    by (auto simp: analyze_comparaison_op_def on_operand_keys_def comparison_on_keys_def cmp_comptime_def Let_def)
qed

section \<open>Coercions\<close>

lemma int_operand_coerced_type: "int_operand st r ty x \<Longrightarrow> coerced_type r st = S_Ok ty st"
  using int_operand_simps [of st r ty x] by (simp add: coerced_type_def split: inst_ref.splits)

lemma coerce_by_types:
  assumes "coerced_type r st = S_Ok inst_ty st" and "dst_ty \<noteq> cv_generic_poison_t (vs_common (sa_values st))" and "dst_ty \<noteq> inst_ty"
    and "index_to_key (sa_values st) inst_ty = Returns src_key" and "index_to_key (sa_values st) dst_ty = Returns dst_key"
  shows "coerce E block dst_ty r span st = coerce_types E (\<lambda>ty. coerce_at 1 E block ty r span) block dst_ty inst_ty r span src_key dst_key st"
  using assms by (simp add: coerce_def numeral_2_eq_2)

lemma fits_in_range:
  assumes "wf_anyint x" and "is_signed \<Longrightarrow> bits \<noteq> 0"
  shows "(if is_signed then s_lift (fits_signed_bits x bits) else s_ret (fits_unsigned_bits x bits)) st = S_Ok (in_range is_signed (unat bits) (to_int x)) st"
  using assms fits_signed_bits_correct [OF assms(1), of bits] fits_unsigned_bits_correct [OF assms(1), of bits]
  by (auto simp: in_range_def word_neq_0_conv)

text \<open>
  C14: The coercion of a known untyped integer to a sized type keeps its value and succeeds exactly when the type can hold it; otherwise a diagnostic names
  the number and the type. To \<^verbatim>\<open>usize\<close> and \<^verbatim>\<open>isize\<close> there is no check: every number is accepted, negative ones too.
\<close>

theorem coerce_untyped_int:
  assumes "int_operand st r ty x" and "index_to_key (sa_values st) ty = Returns (VK_Type VT_Anyint)"
    and "index_to_key (sa_values st) dst_ty = Returns (VK_Type dst)" and "dst_ty \<noteq> cv_generic_poison_t (vs_common (sa_values st))"
  shows "(\<forall>is_signed bits. dst = VT_Int is_signed bits \<and> (is_signed \<longrightarrow> bits \<noteq> 0) \<longrightarrow> coerce E block dst_ty r span st =
      (if in_range is_signed (unat bits) (to_int x) then s_intern_ref E (VK_Int dst_ty x) st else s_fail (M_IntTooLarge x dst_ty) span st))
    \<and> (dst = VT_Usize \<or> dst = VT_Isize \<longrightarrow> coerce E block dst_ty r span st = s_intern_ref E (VK_Int dst_ty x) st)"
proof (intro conjI allI impI)
  note op = int_operand_coerced_type [OF assms(1)] int_operand_simps(2) [OF assms(1)]
  have wf: "wf_anyint x" using assms(1) by (auto simp: int_operand_def)
  { fix is_signed bits assume d: "dst = VT_Int is_signed bits \<and> (is_signed \<longrightarrow> bits \<noteq> 0)"
    have ne: "dst_ty \<noteq> ty" using assms(2,3) d by auto
    have "coerce E block dst_ty r span st = coerce_int E block dst_ty is_signed bits r span st"
      using coerce_by_types [OF op(1) assms(4) ne assms(2,3)] d by (simp add: coerce_types_def)
    also have "\<dots> = (if in_range is_signed (unat bits) (to_int x) then s_intern_ref E (VK_Int dst_ty x) st else s_fail (M_IntTooLarge x dst_ty) span st)"
      using op(2) fits_in_range [OF wf, of is_signed bits st] d by (simp add: coerce_int_def)
    finally show "coerce E block dst_ty r span st =
      (if in_range is_signed (unat bits) (to_int x) then s_intern_ref E (VK_Int dst_ty x) st else s_fail (M_IntTooLarge x dst_ty) span st)" . }
  assume d: "dst = VT_Usize \<or> dst = VT_Isize"
  have ne: "dst_ty \<noteq> ty" using assms(2,3) d by auto
  have "coerce E block dst_ty r span st = coerce_size E dst_ty r st"
    using coerce_by_types [OF op(1) assms(4) ne assms(2,3)] d by (auto simp: coerce_types_def)
  also have "\<dots> = s_intern_ref E (VK_Int dst_ty x) st" using assms(1) by (auto simp: coerce_size_def int_operand_def as_interned_def)
  finally show "coerce E block dst_ty r span st = s_intern_ref E (VK_Int dst_ty x) st" .
qed

lemma coerce_types_to_type: "coerce_types E again block dst_ty inst_ty r span (VK_Type t) (VK_Type VT_Type) st = S_Ok r st"
  by (simp add: coerce_types_def is_type_def)

text \<open>
  C38: A number is accepted where a type is expected: \<^verbatim>\<open>coerce\<close> to \<^verbatim>\<open>type\<close> asks whether the type of the value is a type, which every type is. So
  \<^verbatim>\<open>resolve_type\<close> gives the index of the number, and the next question about that type panics. Likewise a type is accepted as a value of itself.
\<close>

theorem number_resolves_to_type:
  assumes "int_operand st (R_Interned i) ty x" and "index_to_key (sa_values st) ty = Returns (VK_Type t)"
    and "index_to_key (sa_values st) (cv_type_t (vs_common (sa_values st))) = Returns (VK_Type VT_Type)"
    and "sa_vuir_map st n = Some (R_Interned i)"
  shows "resolve_type E block (R_Instruction n) span st = S_Ok i st \<and> type_layout (Suc d) target (sa_values st) i = Some Panics
    \<and> coerce E block ty (R_Interned ty) span st = S_Ok (R_Interned ty) st"
proof (intro conjI)
  let ?c = "vs_common (sa_values st)"
  have "coerce E block (cv_type_t ?c) (R_Interned i) span st = S_Ok (R_Interned i) st"
  proof (cases "cv_type_t ?c = cv_generic_poison_t ?c \<or> cv_type_t ?c = ty")
    case True
    then show ?thesis using int_operand_coerced_type [OF assms(1)] by (auto simp: coerce_def numeral_2_eq_2)
  next
    case False
    then show ?thesis using coerce_by_types [OF int_operand_coerced_type [OF assms(1)] _ _ assms(2,3)] by (simp add: coerce_types_to_type)
  qed
  then show "resolve_type E block (R_Instruction n) span st = S_Ok i st"
    using assms(4) by (simp add: resolve_type_def resolve_inst_def as_interned_opt_def)
  show "type_layout (Suc d) target (sa_values st) i = Some Panics"
    using assms(1) by (auto simp: int_operand_def index_to_key_Returns)
  show "coerce E block ty (R_Interned ty) span st = S_Ok (R_Interned ty) st"
    using assms(2) by (simp add: coerce_def numeral_2_eq_2 coerced_type_def)
qed

section \<open>Examples\<close>

text \<open>The type \<^verbatim>\<open>type\<close>, \<^verbatim>\<open>u8\<close>, the untyped integers, numbers of these types.\<close>

definition byte_of_int :: "nat \<Rightarrow> anyint" where
  "byte_of_int n = \<lparr>negative = False, limbs = [word_of_nat n]\<rparr>"

definition store3 :: "unit value_store" where
  "store3 = (store_of [(VK_Type VT_Type, VV_None 0), (VK_Type (VT_Int False 8), VV_None 0), (VK_Int 1 (byte_of_int 200), VV_None 0),
     (VK_Int 1 (byte_of_int 100), VV_None 0), (VK_Type VT_Anyint, VV_None 0), (VK_Int 4 (byte_of_int 300), VV_None 0)])
     \<lparr>vs_common := (common_from (replicate 26 0))\<lparr>cv_generic_poison_t := 63\<rparr>\<rparr>"

definition sema_of :: "'h value_store \<Rightarrow> 'h sema" where
  "sema_of S = \<lparr>sa_values = S, sa_instructions = [], sa_vuir_map = [0 \<mapsto> R_Interned 5], sa_blocks = [], sa_potential_comptime_allocs = Map.empty,
     sa_comptime_allocs = [], sa_linear_slots = [], sa_errors = [], sa_decls = [], sa_namespaces = []\<rparr>"

lemma store3_keys:
  "index_to_key store3 0 = Returns (VK_Type VT_Type)" "index_to_key store3 1 = Returns (VK_Type (VT_Int False 8))"
  "index_to_key store3 2 = Returns (VK_Int 1 (byte_of_int 200))" "index_to_key store3 3 = Returns (VK_Int 1 (byte_of_int 100))"
  "index_to_key store3 4 = Returns (VK_Type VT_Anyint)" "index_to_key store3 5 = Returns (VK_Int 4 (byte_of_int 300))"
  using store_of_entry [of _ "[(VK_Type VT_Type, VV_None 0), (VK_Type (VT_Int False 8), VV_None 0), (VK_Int 1 (byte_of_int 200), VV_None 0),
     (VK_Int 1 (byte_of_int 100), VV_None 0), (VK_Type VT_Anyint, VV_None 0), (VK_Int 4 (byte_of_int 300), VV_None 0)]"]
  unfolding index_to_key_Returns by (simp_all add: store3_def index_to_key_value_def)

lemma byte_of_int_ok: "wf_anyint (byte_of_int 200)" "wf_anyint (byte_of_int 100)" "wf_anyint (byte_of_int 300)"
  "to_int (byte_of_int 200) = 200" "to_int (byte_of_int 100) = 100" "to_int (byte_of_int 300) = 300"
  by (simp_all add: byte_of_int_def anyint_literal)

lemma sema3_operands:
  "int_operand (sema_of store3) (R_Interned 2) 1 (byte_of_int 200)" "int_operand (sema_of store3) (R_Interned 3) 1 (byte_of_int 100)"
  "int_operand (sema_of store3) (R_Interned 5) 4 (byte_of_int 300)"
  by (simp_all add: int_operand_def sema_of_def store3_keys byte_of_int_ok)

lemma sema3_types: "index_to_key (sa_values (sema_of store3)) 1 = Returns (VK_Type (VT_Int False 8))"
  "index_to_key (sa_values (sema_of store3)) 4 = Returns (VK_Type VT_Anyint)"
  by (simp_all add: sema_of_def store3_keys)

lemma comptime_arithmetic_witness:
  "\<forall>E block span. \<exists>v w. to_int v = 44 \<and> analyze_arithmetic_op E block O_Add (R_Interned 2) (R_Interned 3) span (sema_of store3) = s_intern_ref E (VK_Int 1 v) (sema_of store3)
    \<and> to_int w = 300 \<and> analyze_arithmetic_op E block O_AddSat (R_Interned 2) (R_Interned 3) span (sema_of store3) = s_intern_ref E (VK_Int 1 w) (sema_of store3)"
proof (intro allI)
  fix E :: "unit sema_env" and block span
  have w: "type_width (en_target E) (VT_Int False 8) = Some (False, 8)" by (simp add: type_width_def)
  note a = comptime_arithmetic [OF sema3_operands(1,2) sema3_types(1) w, of _ block span]
  have n: "wrapped False 8 300 = 44" by (simp add: wrapped_def take_bit_eq_mod)
  show "\<exists>v w. to_int v = 44 \<and> analyze_arithmetic_op E block O_Add (R_Interned 2) (R_Interned 3) span (sema_of store3) = s_intern_ref E (VK_Int 1 v) (sema_of store3)
    \<and> to_int w = 300 \<and> analyze_arithmetic_op E block O_AddSat (R_Interned 2) (R_Interned 3) span (sema_of store3) = s_intern_ref E (VK_Int 1 w) (sema_of store3)"
    using a [of O_Add] a [of O_AddSat] n by (simp add: exact_result_def byte_of_int_ok) blast
qed

lemma comptime_bit_not_witness:
  "\<forall>E block span. \<exists>v. to_int v = - 201 \<and> analyze_bitwise_not_op E block (R_Interned 2) span (sema_of store3) = s_intern_ref E (VK_Int 1 v) (sema_of store3)"
  using comptime_bit_not [OF sema3_operands(1) sema3_types(1)] by (fastforce simp: byte_of_int_ok)

lemma comptime_equality_is_ge_witness:
  "\<forall>E block span. analyze_comparaison_op E block O_Eq (R_Interned 2) (R_Interned 3) span (sema_of store3) = s_intern_ref E (VK_Bool True) (sema_of store3)
    \<and> analyze_comparaison_op E block O_Neq (R_Interned 3) (R_Interned 2) span (sema_of store3) = s_intern_ref E (VK_Bool False) (sema_of store3)"
  using comptime_equality_is_ge [OF sema3_operands(1,2) sema3_types(1)] comptime_equality_is_ge [OF sema3_operands(2,1) sema3_types(1)]
  by (simp add: byte_of_int_ok)

lemma coerce_untyped_int_witness:
  "\<forall>E block span. coerce E block 1 (R_Interned 5) span (sema_of store3) = s_fail (M_IntTooLarge (byte_of_int 300) 1) span (sema_of store3)"
proof (intro allI)
  fix E :: "unit sema_env" and block span
  have "(1 :: vindex) \<noteq> cv_generic_poison_t (vs_common (sa_values (sema_of store3)))" by (simp add: sema_of_def store3_def)
  from coerce_untyped_int [OF sema3_operands(3) sema3_types(2,1) this, of E block span]
  have "coerce E block 1 (R_Interned 5) span (sema_of store3) = (if in_range False 8 300 then s_intern_ref E (VK_Int 1 (byte_of_int 300)) (sema_of store3)
      else s_fail (M_IntTooLarge (byte_of_int 300) 1) span (sema_of store3))" by (fastforce simp: byte_of_int_ok)
  then show "coerce E block 1 (R_Interned 5) span (sema_of store3) = s_fail (M_IntTooLarge (byte_of_int 300) 1) span (sema_of store3)"
    by (simp add: in_range_def)
qed

lemma number_resolves_to_type_witness:
  "\<forall>E block span. resolve_type E block (R_Instruction 0) span (sema_of store3) = S_Ok 5 (sema_of store3)"
proof (intro allI)
  fix E :: "unit sema_env" and block span
  have c: "cv_type_t (vs_common store3) = 0" by (simp add: store3_def common_from_def)
  have "index_to_key (sa_values (sema_of store3)) (cv_type_t (vs_common (sa_values (sema_of store3)))) = Returns (VK_Type VT_Type)"
    "sa_vuir_map (sema_of store3) 0 = Some (R_Interned 5)"
    by (simp_all add: sema_of_def c store3_keys)
  from number_resolves_to_type [OF sema3_operands(3) sema3_types(2) this, of E block span]
  show "resolve_type E block (R_Instruction 0) span (sema_of store3) = S_Ok 5 (sema_of store3)" by simp
qed

text \<open>An environment whose callbacks do nothing, for examples that never call them.\<close>

definition quiet_env :: "'h value_env \<Rightarrow> 'h sema_env" where
  "quiet_env V = \<lparr>en_values = V, en_target = target64, en_depth = 8,
     en_floats = \<lparr>fl_add = (\<lambda>x _. x), fl_sub = (\<lambda>x _. x), fl_mul = (\<lambda>x _. x), fl_div = (\<lambda>x _. x), fl_lt = (\<lambda>_ _. False), fl_le = (\<lambda>_ _. True),
       fl_eq = (\<lambda>_ _. True), fl_round = (\<lambda>_ x. x), fl_max = (\<lambda>_. 0)\<rparr>,
     en_module = 0, en_owner_decl = 0, en_get_or_analyze_decl_value = (\<lambda>_. s_panic), en_analyze_type_info = (\<lambda>_. s_panic), en_type_info_entry = (\<lambda>_. 0),
     en_builtin_type_info = s_panic, en_root_module = 0, en_std_module = 0, en_builtin_module = 0, en_module_at = (\<lambda>_ _. None),
     en_get_or_analyze_module = (\<lambda>_. s_panic)\<rparr>"

end
