(* ===== verification/Vif_Sema_Props.thy ===== *)
theory Vif_Sema_Props
  imports Vif_Sema_Consts
begin

text \<open>
  Switches, arguments of calls, linear values and default values in semantic analysis: what is accepted, and what is reported otherwise.
\<close>

section \<open>Switches\<close>

lemma covered_tags_of_tags:
  assumes "list_all2 (\<lambda>r v. \<exists>i t. r = R_Interned i \<and> index_to_key S i = Returns (VK_EnumTag t v)) rs vs"
  shows "covered_tags S rs = Returns vs"
  using assms by (induction rule: list_all2_induct) (auto simp: as_interned_def)

lemma missing_variants_own: "missing_variants fs (map g fs) covered = map g (filter (\<lambda>f. ef_value f \<notin> set covered) fs)"
  by (induction fs) (auto simp: missing_variants_def)

text \<open>
  C11: A switch without an else branch on an enum whose patterns are tags is accepted exactly when every variant of the enum is covered. Otherwise one
  diagnostic names the variants that are not, in the order of their declaration, and how many they are.
\<close>

theorem switch_exhaustive:
  assumes "index_to_key_value (sa_values st) ty = Returns (VK_Type (VT_Enum ns), VV_Enum e)"
    and "list_all2 (\<lambda>r v. \<exists>i t. r = R_Interned i \<and> index_to_key (sa_values st) i = Returns (VK_EnumTag t v)) (concat (map sc_items cases)) vs"
  shows "let missing = filter (\<lambda>f. ef_value f \<notin> set vs) (te_fields e) in
    check_switch_exhaustive ty cases span st =
      (if missing = [] then S_Ok True st
       else S_Ok False (st\<lparr>sa_errors := sa_errors st @ [(M_NotExhaustive (length missing) (join_names (map ef_name missing)), Some span)]\<rparr>))"
  using assms(1) covered_tags_of_tags [OF assms(2)]
  by (simp add: check_switch_exhaustive_def as_enum_def check_covered_def missing_variants_own Let_def)

section \<open>Arguments\<close>

abbreviation taken :: "bool list \<Rightarrow> nat set" where
  "taken valid \<equiv> {p. p < length valid \<and> valid ! p}"

fun somes :: "'a option list \<Rightarrow> 'a list" where
  "somes [] = []"
| "somes (None # xs) = somes xs"
| "somes (Some x # xs) = x # somes xs"

text \<open>The parameter \<open>p\<close> is the right one for the argument at position \<open>i\<close>.\<close>

definition arg_matches :: "string list option \<Rightarrow> bool \<Rightarrow> nat \<Rightarrow> nat \<Rightarrow> nat option \<Rightarrow> call_arg \<Rightarrow> bool" where
  "arg_matches names var_args n i p arg =
     (case arg_name arg of
        None \<Rightarrow> p = (if i < n then Some i else None) \<and> (p = None \<longrightarrow> var_args)
      | Some name \<Rightarrow> (\<exists>ns q. names = Some ns \<and> p = Some q \<and> q < length ns \<and> ns ! q = name))"


lemma param_of_arg_matches:
  assumes "param_of_arg names n i arg = p" and "arg_name arg = None \<Longrightarrow> p = None \<Longrightarrow> var_args" and "arg_name arg \<noteq> None \<Longrightarrow> p \<noteq> None"
  shows "arg_matches names var_args n i p arg"
  using assms find_index_SomeD
  by (auto simp: param_of_arg_def arg_matches_def param_idx_by_name_def split: option.splits if_splits)

lemma assign_args_cases:
  assumes "\<And>ns. names = Some ns \<Longrightarrow> length ns \<le> length valid"
  shows "case assign_args names var_args i args valid st of
      S_Ok (ps, valid') st' \<Rightarrow> st' = st \<and> length valid' = length valid \<and> length ps = length args \<and> distinct (somes ps)
        \<and> set (somes ps) \<inter> taken valid = {} \<and> taken valid' = taken valid \<union> set (somes ps)
        \<and> (\<forall>k < length args. arg_matches names var_args (length valid) (i + k) (ps ! k) (args ! k))
    | S_Err e st' \<Rightarrow> e = AE_AnalysisFailed \<and> (\<exists>msg span. sa_errors st' = sa_errors st @ [(msg, Some span)])
    | _ \<Rightarrow> False"
  using assms
proof (induction args arbitrary: i valid)
  case (Cons arg args)
  let ?p = "param_of_arg names (length valid) i arg"
  show ?case
  proof (cases ?p)
    case None
    show ?thesis
    proof (cases "arg_name arg = None \<and> var_args")
      case True
      have m: "arg_matches names var_args (length valid) i None arg" by (rule param_of_arg_matches [OF None]) (use True in auto)
      show ?thesis
        using Cons.IH [of valid "Suc i"] Cons.prems None True m
        by (auto simp: s_bind_def All_less_Suc2 split: sema_result.splits prod.splits)
    next
      case False
      then show ?thesis using None by (cases "arg_name arg") (auto simp: s_bind_def)
    qed
  next
    case (Some p)
    have p: "p < length valid" using Some Cons.prems find_index_SomeD
      by (fastforce simp: param_of_arg_def param_idx_by_name_def split: option.splits if_splits)
    have m: "arg_matches names var_args (length valid) i (Some p) arg" by (rule param_of_arg_matches [OF Some]) simp_all
    show ?thesis
    proof (cases "valid ! p")
      case False
      let ?v = "valid[p := True]"
      have t: "taken ?v = insert p (taken valid)" using p by (auto simp: nth_list_update)
      have "p \<notin> taken valid" using False by simp
      then show ?thesis
        using Cons.IH [of ?v "Suc i"] Cons.prems Some False p m unfolding t
        by (auto simp: s_bind_def s_nth_def All_less_Suc2 split: sema_result.splits prod.splits)
    qed (use Some p in \<open>auto simp: s_bind_def s_nth_def\<close>)
  qed
qed simp

lemma push_missing_errors:
  "\<exists>errs. push_missing i valid span st = S_Ok () (st\<lparr>sa_errors := sa_errors st @ errs\<rparr>) \<and> length errs = length (filter Not valid)"
proof (induction valid arbitrary: i st)
  case (Cons v valid)
  show ?case
  proof (cases v)
    case False
    let ?st = "st\<lparr>sa_errors := sa_errors st @ [(M_MissingArgument i, Some span)]\<rparr>"
    obtain errs where "push_missing (Suc i) valid span ?st = S_Ok () (?st\<lparr>sa_errors := sa_errors ?st @ errs\<rparr>)" "length errs = length (filter Not valid)"
      using Cons.IH [of "Suc i" ?st] by blast
    then show ?thesis using False by (intro exI [of _ "(M_MissingArgument i, Some span) # errs"]) simp
  qed (use Cons.IH in simp)
qed (intro exI [of _ "[]"], simp)

lemma not_False_in: "False \<notin> set valid \<Longrightarrow> taken valid = {0..<length valid}"
  by (auto simp: in_set_conv_nth)

text \<open>
  C12: The arguments of a call are assigned to parameters without a panic. When the assignment succeeds, every parameter has exactly one argument; an argument
  without a name belongs to the parameter at its position or, past the last one and for a variadic function only, to none; a named one belongs to the
  parameter of that name. Otherwise the call fails with at least one diagnostic.
\<close>

theorem call_arguments_matched:
  assumes "\<And>ns. names = Some ns \<Longrightarrow> length ns \<le> n"
  shows "case match_args names var_args n args span st of
      S_Ok res st' \<Rightarrow> st' = st \<and> map snd res = args \<and> distinct (somes (map fst res)) \<and> set (somes (map fst res)) = {0..<n}
        \<and> (\<forall>i < length args. arg_matches names var_args n i (fst (res ! i)) (args ! i))
    | S_Err e st' \<Rightarrow> e = AE_AnalysisFailed \<and> length (sa_errors st) < length (sa_errors st')
    | _ \<Rightarrow> False"
proof -
  have none_taken: "taken (replicate n False) = {}" by auto
  note a = assign_args_cases [of names "replicate n False", where var_args = var_args and i = 0 and args = args and st = st, unfolded none_taken]
  show ?thesis
  proof (cases "assign_args names var_args 0 args (replicate n False) st")
    case (S_Ok x st1)
    obtain ps valid where x: "x = (ps, valid)" by fastforce
    have ok: "st1 = st" "length valid = n" "length ps = length args" "distinct (somes ps)" "taken valid = set (somes ps)"
      "\<forall>k < length args. arg_matches names var_args n k (ps ! k) (args ! k)"
      using a S_Ok x assms by auto
    obtain errs where e: "push_missing 0 valid span st = S_Ok () (st\<lparr>sa_errors := sa_errors st @ errs\<rparr>)" "length errs = length (filter Not valid)"
      using push_missing_errors by blast
    show ?thesis
    proof (cases "False \<in> set valid")
      case True
      then have "filter Not valid \<noteq> []" by (auto simp: filter_empty_conv)
      then have "0 < length errs" using e(2) by simp
      then show ?thesis using S_Ok x e(1) True ok(1) by (simp add: match_args_def)
    next
      case False
      then have "filter Not valid = []" unfolding filter_empty_conv by metis
      then have "errs = []" using e(2) by simp
      then show ?thesis using S_Ok x e(1) False ok not_False_in [OF False] by (simp add: match_args_def)
    qed
  next
    case (S_Err e st1)
    then show ?thesis using a assms by (auto simp: match_args_def)
  qed (use a assms in \<open>auto simp: match_args_def\<close>)
qed

section \<open>Linear values\<close>

lemma map_of_set_slot: "map_of (set_slot r s xs) = (map_of xs)(r \<mapsto> s)"
  by (induction r s xs rule: set_slot.induct) auto

lemma sema_type_of_slots: "sema_type_of r st = S_Ok ty st \<Longrightarrow> sema_type_of r (st\<lparr>sa_linear_slots := slots\<rparr>) = S_Ok ty (st\<lparr>sa_linear_slots := slots\<rparr>)"
  by (simp add: sema_type_of_def s_deep_Ok)

lemma push_unconsumed_errors:
  "push_unconsumed slots st = S_Ok () (st\<lparr>sa_errors := sa_errors st @
     map (\<lambda>(_, s). (M_UnconsumedLinear (ls_name s) (ls_ty s), Some (ls_span s))) (filter (\<lambda>(_, s). \<not> ls_consumed s) slots)\<rparr>)"
  by (induction slots arbitrary: st) auto

text \<open>
  C13: A linear value that is tracked is moved at most once: the first use marks its slot and touches no other, every later use before it is registered
  again fails with a diagnostic that gives the place of the first. At the end of a body there is one diagnostic for each slot that was not moved out of.
\<close>

theorem linear_value_moves_once:
  assumes "sema_type_of r st = S_Ok ty st" and "type_is_linear (sa_values st) ty = Returns True" and "map_of (sa_linear_slots st) r = Some slot"
  shows "(ls_consumed slot \<longrightarrow> try_consume_linear_value r span st = s_fail (M_MovedLinear (ls_name slot) (ls_span slot) (ls_consumed_at slot)) span st)
    \<and> (\<not> ls_consumed slot \<longrightarrow> (\<exists>slots. let st' = st\<lparr>sa_linear_slots := slots\<rparr> in
        try_consume_linear_value r span st = S_Ok () st'
        \<and> map_of slots = (map_of (sa_linear_slots st))(r \<mapsto> slot\<lparr>ls_consumed := True, ls_consumed_at := Some span\<rparr>)
        \<and> try_consume_linear_value r span' st' = s_fail (M_MovedLinear (ls_name slot) (ls_span slot) (Some span)) span' st'))
    \<and> check_linear_slots st = S_Ok () (st\<lparr>sa_errors := sa_errors st @
        map (\<lambda>(_, s). (M_UnconsumedLinear (ls_name s) (ls_ty s), Some (ls_span s))) (filter (\<lambda>(_, s). \<not> ls_consumed s) (sa_linear_slots st))\<rparr>)"
proof (intro conjI impI)
  note ty = sema_type_of_slots [OF assms(1)]
  show "try_consume_linear_value r span st = s_fail (M_MovedLinear (ls_name slot) (ls_span slot) (ls_consumed_at slot)) span st" if "ls_consumed slot"
    using assms that by (simp add: try_consume_linear_value_def consume_slot_def)
  show "check_linear_slots st = S_Ok () (st\<lparr>sa_errors := sa_errors st @
        map (\<lambda>(_, s). (M_UnconsumedLinear (ls_name s) (ls_ty s), Some (ls_span s))) (filter (\<lambda>(_, s). \<not> ls_consumed s) (sa_linear_slots st))\<rparr>)"
    by (simp add: check_linear_slots_def push_unconsumed_errors)
  assume "\<not> ls_consumed slot"
  then show "\<exists>slots. let st' = st\<lparr>sa_linear_slots := slots\<rparr> in try_consume_linear_value r span st = S_Ok () st'
        \<and> map_of slots = (map_of (sa_linear_slots st))(r \<mapsto> slot\<lparr>ls_consumed := True, ls_consumed_at := Some span\<rparr>)
        \<and> try_consume_linear_value r span' st' = s_fail (M_MovedLinear (ls_name slot) (ls_span slot) (Some span)) span' st'"
    using assms ty
    by (intro exI [of _ "set_slot r (slot\<lparr>ls_consumed := True, ls_consumed_at := Some span\<rparr>) (sa_linear_slots st)"])
      (simp add: try_consume_linear_value_def consume_slot_def map_of_set_slot Let_def)
qed

section \<open>Default values\<close>

lemma common_key:
  assumes "store_ok E S"
  shows "index_to_key S (cv_bool_t (vs_common S)) = Returns (VK_Type VT_Bool)" and "index_to_key S (cv_void_t (vs_common S)) = Returns (VK_Type VT_Void)"
    and "index_to_key S (cv_void_value (vs_common S)) = Returns VK_Void" and "index_to_key S (cv_nullptr (vs_common S)) = Returns VK_NullPtr"
    and "index_to_key S (cv_nullptr_t (vs_common S)) = Returns (VK_Type VT_NullPtr)"
  using assms by (simp_all add: store_ok_def common_list_def common_keys_def)

text \<open>A call that keeps the store well-formed and only adds to it; \<open>Q\<close> holds of what it returns.\<close>

definition store_call :: "'h sema_env \<Rightarrow> ('a, 'h) sema_m \<Rightarrow> ('a \<Rightarrow> 'h value_store \<Rightarrow> bool) \<Rightarrow> 'h sema \<Rightarrow> bool" where
  "store_call E m Q st \<longleftrightarrow> (\<forall>x st'. store_ok (en_values E) (sa_values st) \<longrightarrow> m st = S_Ok x st' \<longrightarrow>
     store_ok (en_values E) (sa_values st') \<and> grows (sa_values st) (sa_values st') \<and> Q x (sa_values st'))"

lemma store_call_bind:
  assumes "store_call E m Q st" and "\<And>x st'. store_ok (en_values E) (sa_values st') \<Longrightarrow> grows (sa_values st) (sa_values st') \<Longrightarrow> Q x (sa_values st') \<Longrightarrow>
    store_call E (f x) R st'"
  shows "store_call E (s_bind m f) R st"
  using assms unfolding store_call_def s_bind_Ok by (meson grows_trans)

lemma store_call_ret: "(store_ok (en_values E) (sa_values st) \<Longrightarrow> Q x (sa_values st)) \<Longrightarrow> store_call E (s_ret x) Q st"
  by (simp add: store_call_def)

lemma store_call_get: "store_call E (s_get g) (\<lambda>x S. S = sa_values st \<and> x = g st) st"
  by (simp add: store_call_def)

lemma store_call_key: "store_call E (s_key i) (\<lambda>k S. index_to_key S i = Returns k) st"
  by (simp add: store_call_def s_lift_Ok)

lemma store_call_intern: "store_call E (s_intern E k) (\<lambda>i S. index_to_key S i = Returns k) st"
proof -
  have "store_ok (en_values E) (sa_values st') \<and> grows (sa_values st) (sa_values st') \<and> index_to_key (sa_values st') i = Returns k"
    if ok: "store_ok (en_values E) (sa_values st)" and i: "s_intern E k st = S_Ok i st'" for i st'
  proof -
    obtain S where S: "intern_trivial (en_values E) (sa_values st) k = Returns (S, i)" "st' = st\<lparr>sa_values := S\<rparr>"
      using i by (auto simp: s_intern_def s_stored_def split: outcome.splits)
    then show ?thesis using intern_trivial_ok [OF ok S(1)] by simp
  qed
  then show ?thesis by (simp add: store_call_def)
qed

lemma store_call_weaken: "store_call E m Q st \<Longrightarrow> (\<And>x S. store_ok (en_values E) S \<Longrightarrow> grows (sa_values st) S \<Longrightarrow> Q x S \<Longrightarrow> R x S) \<Longrightarrow> store_call E m R st"
  by (simp add: store_call_def)

lemma store_call_value: "store_call E (s_value i) (\<lambda>_ _. True) st" "store_call E (s_lift m) (\<lambda>_ _. True) st"
  by (auto simp: store_call_def s_value_def s_lift_Ok)

lemma store_call_intern_opt: "store_call E (s_intern_opt E k) (\<lambda>v S. \<exists>i. v = Some i \<and> index_to_key S i = Returns k) st"
  unfolding s_intern_opt_def by (rule store_call_bind [OF store_call_intern]) (rule store_call_ret, blast)

text \<open>A value, if there is one, has the type.\<close>

definition opt_typed :: "vindex \<Rightarrow> vindex option \<Rightarrow> 'h value_store \<Rightarrow> bool" where
  "opt_typed ty v S \<longleftrightarrow> (\<forall>i. v = Some i \<longrightarrow> type_of_interned S i = Returns ty)"

lemma opt_typed_None [simp]: "opt_typed ty None S"
  by (simp add: opt_typed_def)

lemma intern_opt_typed:
  assumes "\<And>c. type_of_key c k = Returns ty"
  shows "store_call E (s_intern_opt E k) (opt_typed ty) st"
  by (rule store_call_weaken [OF store_call_intern_opt]) (use assms in \<open>auto simp: opt_typed_def type_of_interned_def\<close>)

lemma common_typed:
  assumes "store_ok (en_values E) S" and "index_to_key S ty = Returns (VK_Type t)"
  shows "t = VT_Bool \<Longrightarrow> ty = cv_bool_t (vs_common S)" and "t = VT_Void \<Longrightarrow> ty = cv_void_t (vs_common S)" and "t = VT_NullPtr \<Longrightarrow> ty = cv_nullptr_t (vs_common S)"
  using key_index_unique [OF assms(1)] common_key [OF assms(1)] assms(2) by blast+

lemma zeroed_fields_store:
  assumes "\<And>ty st. store_call E (f ty) (opt_typed ty) st"
  shows "store_call E (zeroed_fields f fs) (\<lambda>_ _. True) st"
proof (induction fs arbitrary: st)
  case (Cons x fs)
  show ?case unfolding zeroed_fields.simps
    by (rule store_call_bind [OF assms]) (auto split: option.split intro!: store_call_ret store_call_bind [OF Cons.IH])
qed (simp add: store_call_ret)

lemma zeroed_store: "store_call E (intern_zeroed_value n E ty) (opt_typed ty) st"
proof (induction n arbitrary: ty st)
  case (Suc n)
  have int: "store_call E (s_bind (intern_zero_int E ty) (\<lambda>i. s_ret (Some i))) (opt_typed ty) st" for st
    unfolding intern_zero_int_def
    by (rule store_call_bind [OF store_call_intern]) (rule store_call_ret, simp add: opt_typed_def type_of_interned_def type_of_key_def)
  have float: "store_call E (s_intern_opt E (VK_Float ty 0)) (opt_typed ty) st" for st by (rule intern_opt_typed) (simp add: type_of_key_def)
  have zero: "store_call E (intern_zero_int E ty') (\<lambda>_ _. True) st" for ty' st
    unfolding intern_zero_int_def by (rule store_call_weaken [OF store_call_intern]) simp
  have keyed: "store_call E (s_intern_opt E k) (opt_typed ty) st" if "k = VK_Ptr ty p \<or> k = VK_Slice ty a b \<or> k = VK_Aggregate ty xs \<or> k = VK_EnumTag ty a" for k st p a b xs
    by (rule intern_opt_typed) (use that in \<open>auto simp: type_of_key_def\<close>)
  have common: "store_call E (s_ret (Some i)) (opt_typed ty) st" if "index_to_key (sa_values st) i = Returns k" "type_of_key (vs_common (sa_values st)) k = Returns ty" for i k st
    by (rule store_call_ret) (use that in \<open>simp add: opt_typed_def type_of_interned_def\<close>)
  have typed: "store_call E (zeroed_of_key E (intern_zeroed_value n E) ty (vs_common (sa_values st)) k) (opt_typed ty) st"
    if ok: "store_ok (en_values E) (sa_values st)" and k: "index_to_key (sa_values st) ty = Returns k" for k and st :: "'a sema"
  proof -
    let ?c = "vs_common (sa_values st)"
    note ck = common_key [OF ok]
    show ?thesis
    proof (cases k)
      case (VK_Type t)
      note ct = common_typed [OF ok, of ty t]
      show ?thesis
      proof (cases t)
        case VT_Bool
        have "store_call E (s_intern_opt E (VK_Bool False)) (opt_typed ty) st"
          by (rule store_call_weaken [OF store_call_intern_opt])
            (use ct(1) k VK_Type VT_Bool in \<open>auto simp: opt_typed_def type_of_interned_def type_of_key_def grows_def\<close>)
        then show ?thesis by (simp add: zeroed_of_key_def VK_Type VT_Bool)
      next
        case VT_Void
        then show ?thesis using common [OF ck(3)] ct(2) k VK_Type by (simp add: zeroed_of_key_def type_of_key_def)
      next
        case VT_NullPtr
        then show ?thesis using common [OF ck(4)] ct(3) k VK_Type by (simp add: zeroed_of_key_def type_of_key_def)
      next
        case (VT_Slice p)
        have "store_call E (s_bind (s_intern_ptr_type E p True) (\<lambda>ptr_ty. s_bind (s_intern E (VK_Ptr ptr_ty (PK_Value (cv_nullptr ?c)))) (\<lambda>ptr.
           s_bind (intern_zero_int E (cv_usize_t ?c)) (\<lambda>len. s_intern_opt E (VK_Slice ty ptr len))))) (opt_typed ty) st"
          unfolding s_intern_ptr_type_def
          by (rule store_call_bind [OF store_call_intern], rule store_call_bind [OF store_call_intern], rule store_call_bind [OF zero], rule keyed) blast
        then show ?thesis by (simp add: zeroed_of_key_def VK_Type VT_Slice)
      next
        case (VT_Array e l)
        have "store_call E (s_bind (intern_zeroed_value n E e) (\<lambda>element.
             case element of None \<Rightarrow> s_ret None | Some i \<Rightarrow> s_intern_opt E (VK_Aggregate ty (replicate l i)))) (opt_typed ty) st"
          by (rule store_call_bind [OF Suc.IH]) (auto split: option.split intro!: store_call_ret keyed)
        then show ?thesis by (simp add: zeroed_of_key_def VK_Type VT_Array)
      next
        case (VT_Struct ns)
        have "store_call E (s_bind (s_value ty) (\<lambda>v. s_bind (s_lift (as_struct v)) (\<lambda>s.
           s_bind (zeroed_fields (intern_zeroed_value n E) (ts_fields s)) (\<lambda>values.
             case values of None \<Rightarrow> s_ret None | Some values \<Rightarrow> s_intern_opt E (VK_Aggregate ty values))))) (opt_typed ty) st"
          by (rule store_call_bind [OF store_call_value(1)], rule store_call_bind [OF store_call_value(2)],
              rule store_call_bind [OF zeroed_fields_store [OF Suc.IH]]) (auto split: option.split intro!: store_call_ret keyed)
        then show ?thesis by (simp add: zeroed_of_key_def VK_Type VT_Struct)
      next
        case (VT_Enum ns)
        have "store_call E (s_bind (s_value ty) (\<lambda>v. s_bind (s_lift (as_enum v)) (\<lambda>e.
            s_bind (intern_zero_int E (te_tag_ty e)) (\<lambda>z. s_intern_opt E (VK_EnumTag ty z))))) (opt_typed ty) st"
          by (rule store_call_bind [OF store_call_value(1)], rule store_call_bind [OF store_call_value(2)], rule store_call_bind [OF zero], rule keyed) blast
        then show ?thesis by (simp add: zeroed_of_key_def VK_Type VT_Enum)
      qed (simp_all add: zeroed_of_key_def VK_Type int float keyed store_call_ret)
    qed (simp_all add: zeroed_of_key_def store_call_ret)
  qed
  show ?case unfolding intern_zeroed_value.simps
  proof (rule store_call_bind [OF store_call_key], rule store_call_bind [OF store_call_get], elim conjE)
    fix k c and st1 st2 :: "'a sema"
    assume "store_ok (en_values E) (sa_values st2)" "index_to_key (sa_values st1) ty = Returns k" "sa_values st2 = sa_values st1" "c = vs_common (sa_values st1)"
    then show "store_call E (zeroed_of_key E (intern_zeroed_value n E) ty c k) (opt_typed ty) st2" using typed [of st2 k] by simp
  qed
qed (simp add: store_call_def)

text \<open>
  C15: A default value has the type it was asked for: on a well-formed store \<^verbatim>\<open>intern_zeroed_value\<close> keeps the store well-formed and everything in it, and the
  value it gives, if the type has one, is of exactly that type, structs, arrays, slices and enums included.
\<close>

theorem zeroed_value_has_type:
  assumes "store_ok (en_values E) (sa_values st)" and "intern_zeroed_value n E ty st = S_Ok v st'"
  shows "store_ok (en_values E) (sa_values st') \<and> grows (sa_values st) (sa_values st') \<and> (\<forall>i. v = Some i \<longrightarrow> type_of_interned (sa_values st') i = Returns ty)"
  using zeroed_store [of E n ty st] assms by (auto simp: store_call_def opt_typed_def)

section \<open>Tags of unions\<close>

lemma enum_tag_key:
  assumes "index_to_key_value (sa_values st) enum_ty = Returns (k, VV_Enum e)" and "i < length (te_fields e)"
  shows "s_intern_enum_tag E enum_ty i st = s_intern E (VK_EnumTag (te_tag_ty e) (ef_value (te_fields e ! i))) st"
  using assms
  by (simp add: s_intern_enum_tag_def s_intern_def s_stored_def intern_enum_tag_from_field_idx_def index_to_value_def index_to_key_value_def as_enum_def
      iv_index_def)


section \<open>Examples\<close>

text \<open>An enum with two variants, one of its tags, a union that it tags, and a linear struct.\<close>

definition store4 :: "unit value_store" where
  "store4 = store_of [(VK_Type (VT_Int False 8), VV_None 0),
     (VK_Type (VT_Enum some_namespace), VV_Enum \<lparr>te_name = ''E'', te_tag_ty = 0,
       te_fields = [\<lparr>ef_name = ''a'', ef_value = 3\<rparr>, \<lparr>ef_name = ''b'', ef_value = 4\<rparr>], te_namespace = 0, te_linear = False\<rparr>),
     (VK_EnumTag 1 3, VV_None 0), (VK_Int 0 (byte_of_int 1), VV_None 0), (VK_Int 0 (byte_of_int 2), VV_None 0),
     (VK_Type (VT_Union some_namespace), VV_Union \<lparr>tu_name = ''U'', tu_tag_ty = Some 1,
       tu_fields = [\<lparr>utf_name = ''a'', utf_ty = None\<rparr>, \<lparr>utf_name = ''b'', utf_ty = None\<rparr>], tu_namespace = 0, tu_linear = False\<rparr>),
     (VK_Type (VT_Struct some_namespace), VV_Struct \<lparr>ts_name = ''L'', ts_fields = [], ts_layout = SL_Standard, ts_namespace = 0, ts_linear = True\<rparr>),
     (VK_Undefined 6, VV_None 0)]"

lemma store4_entries:
  "index_to_key_value store4 1 = Returns (VK_Type (VT_Enum some_namespace), VV_Enum \<lparr>te_name = ''E'', te_tag_ty = 0,
     te_fields = [\<lparr>ef_name = ''a'', ef_value = 3\<rparr>, \<lparr>ef_name = ''b'', ef_value = 4\<rparr>], te_namespace = 0, te_linear = False\<rparr>)"
  "index_to_key_value store4 2 = Returns (VK_EnumTag 1 3, VV_None 0)"
  "index_to_key_value store4 5 = Returns (VK_Type (VT_Union some_namespace), VV_Union \<lparr>tu_name = ''U'', tu_tag_ty = Some 1,
       tu_fields = [\<lparr>utf_name = ''a'', utf_ty = None\<rparr>, \<lparr>utf_name = ''b'', utf_ty = None\<rparr>], tu_namespace = 0, tu_linear = False\<rparr>)"
  "index_to_key_value store4 6 = Returns (VK_Type (VT_Struct some_namespace), VV_Struct \<lparr>ts_name = ''L'', ts_fields = [], ts_layout = SL_Standard,
     ts_namespace = 0, ts_linear = True\<rparr>)"
  "index_to_key_value store4 7 = Returns (VK_Undefined 6, VV_None 0)"
  by (simp_all add: store4_def store_of_entry)

lemma store4_keys: "index_to_key store4 2 = Returns (VK_EnumTag 1 3)" "index_to_key store4 7 = Returns (VK_Undefined 6)"
  using store4_entries by (simp_all add: index_to_key_Returns)

definition sema4 :: "unit sema" where
  "sema4 = (sema_of store4)\<lparr>sa_namespaces := [\<lparr>ns_parent = None, ns_decls = Map.empty, ns_owner_type = 6\<rparr>]\<rparr>"

lemma switch_exhaustive_witness:
  "\<forall>span. check_switch_exhaustive 1 [\<lparr>sc_items = [R_Interned 2], sc_body = []\<rparr>] span sema4 = S_Ok False (sema4\<lparr>sa_errors := [(M_NotExhaustive 1 ''b'', Some span)]\<rparr>)"
proof
  fix span
  have e: "index_to_key_value (sa_values sema4) 1 = Returns (VK_Type (VT_Enum some_namespace), VV_Enum \<lparr>te_name = ''E'', te_tag_ty = 0,
     te_fields = [\<lparr>ef_name = ''a'', ef_value = 3\<rparr>, \<lparr>ef_name = ''b'', ef_value = 4\<rparr>], te_namespace = 0, te_linear = False\<rparr>)"
    by (simp add: sema4_def sema_of_def store4_entries)
  have "list_all2 (\<lambda>r v. \<exists>i t. r = R_Interned i \<and> index_to_key (sa_values sema4) i = Returns (VK_EnumTag t v))
      (concat (map sc_items [\<lparr>sc_items = [R_Interned 2], sc_body = []\<rparr>])) [3]"
    by (simp add: sema4_def sema_of_def store4_keys)
  from switch_exhaustive [OF e this, of span]
  show "check_switch_exhaustive 1 [\<lparr>sc_items = [R_Interned 2], sc_body = []\<rparr>] span sema4 = S_Ok False (sema4\<lparr>sa_errors := [(M_NotExhaustive 1 ''b'', Some span)]\<rparr>)"
    by (simp add: sema4_def sema_of_def)
qed

lemma call_arguments_matched_witness:
  "\<forall>span. \<exists>res. match_args (Some [''x'', ''y'']) True 2 [\<lparr>arg_name = None, arg_body = [], arg_span = span\<rparr>, \<lparr>arg_name = Some ''y'', arg_body = [], arg_span = span\<rparr>,
      \<lparr>arg_name = None, arg_body = [], arg_span = span\<rparr>] span sema4 = S_Ok res sema4 \<and> set (somes (map fst res)) = {0..<2}"
proof
  fix span
  let ?args = "[\<lparr>arg_name = None, arg_body = [], arg_span = span\<rparr>, \<lparr>arg_name = Some ''y'', arg_body = [], arg_span = span\<rparr>,
      \<lparr>arg_name = None, arg_body = [], arg_span = span\<rparr>]"
  have "match_args (Some [''x'', ''y'']) True 2 ?args span sema4 = S_Ok (zip [Some 0, Some 1, None] ?args) sema4"
    by (simp add: match_args_def numeral_2_eq_2 param_of_arg_def param_idx_by_name_def s_nth_def s_bind_def)
  then show "\<exists>res. match_args (Some [''x'', ''y'']) True 2 ?args span sema4 = S_Ok res sema4 \<and> set (somes (map fst res)) = {0..<2}"
    using call_arguments_matched [of "Some [''x'', ''y'']" 2, where var_args = True and args = ?args and span = span and st = sema4] by simp
qed

lemma linear_value_moves_once_witness:
  "\<forall>span span'. \<exists>slot slots. let st = sema4\<lparr>sa_linear_slots := [(R_Interned 7, slot)]\<rparr> in
    try_consume_linear_value (R_Interned 7) span st = S_Ok () (st\<lparr>sa_linear_slots := slots\<rparr>)
    \<and> try_consume_linear_value (R_Interned 7) span' (st\<lparr>sa_linear_slots := slots\<rparr>)
        = s_fail (M_MovedLinear ''v'' span (Some span)) span' (st\<lparr>sa_linear_slots := slots\<rparr>)"
proof (intro allI)
  fix span span'
  let ?slot = "\<lparr>ls_ty = 6, ls_span = span, ls_consumed = False, ls_consumed_at = None, ls_name = ''v''\<rparr>"
  let ?st = "sema4\<lparr>sa_linear_slots := [(R_Interned 7, ?slot)]\<rparr>"
  have "sema_type_of (R_Interned 7) ?st = S_Ok 6 ?st" "type_is_linear (sa_values ?st) 6 = Returns True"
    by (simp_all add: sema4_def sema_of_def type_of_interned_def store4_keys type_of_key_def type_is_linear_def store4_entries as_struct_def)
  from linear_value_moves_once [OF this, of ?slot span span']
  show "\<exists>slot slots. let st = sema4\<lparr>sa_linear_slots := [(R_Interned 7, slot)]\<rparr> in
    try_consume_linear_value (R_Interned 7) span st = S_Ok () (st\<lparr>sa_linear_slots := slots\<rparr>)
    \<and> try_consume_linear_value (R_Interned 7) span' (st\<lparr>sa_linear_slots := slots\<rparr>)
        = s_fail (M_MovedLinear ''v'' span (Some span)) span' (st\<lparr>sa_linear_slots := slots\<rparr>)"
    by (intro exI [of _ ?slot]) (auto simp: Let_def)
qed


lemma zeroed_value_has_type_witness:
  "\<exists>S i. value_store_new small_value_env [0] = Returns S \<and> (let st = sema_of S; bool = cv_bool_t (vs_common S) in
     intern_zeroed_value 1 (quiet_env small_value_env) bool st = S_Ok (Some i) st \<and> type_of_interned S i = Returns bool)"
proof -
  let ?E = small_value_env
  have h: "hash_table_ok (se_table ?E)" by (simp add: small_value_env_def list_table_ok)
  have g: "grants_memory ?E" by (simp add: grants_memory_def small_value_env_def)
  have p: "is_power_of_two (length [0 :: nat])" by (simp add: is_power_of_two_def upt_rec)
  obtain S where S: "value_store_new ?E [0] = Returns S" "store_ok ?E S" using value_store_new_returns [OF h g p] by auto
  have keys: "index_to_key S (cv_bool_t (vs_common S)) = Returns (VK_Type VT_Bool)" "index_to_key S (cv_false_value (vs_common S)) = Returns (VK_Bool False)"
    using S(2) by (simp_all add: store_ok_def common_list_def common_keys_def)
  have z: "intern_zeroed_value (Suc 0) (quiet_env ?E) (cv_bool_t (vs_common S)) (sema_of S) = S_Ok (Some (cv_false_value (vs_common S))) (sema_of S)"
    using intern_trivial_there [OF S(2) keys(2)]
    by (simp add: quiet_env_def sema_of_def s_key_def s_get_def s_bind_def s_lift_def keys zeroed_of_key_def s_intern_opt_def s_intern_def s_stored_def is_trivial_def s_ret_def)
  have e: "en_values (quiet_env ?E) = ?E" "sa_values (sema_of S) = S" by (simp_all add: quiet_env_def sema_of_def)
  from zeroed_value_has_type [OF _ z] e S(2) have "type_of_interned S (cv_false_value (vs_common S)) = Returns (cv_bool_t (vs_common S))" by simp
  then show ?thesis using S(1) z unfolding Let_def One_nat_def by blast
qed

end
