(* ===== verification/Vif_Sema_Order.thy ===== *)
theory Vif_Sema_Order
  imports Vif_Sema_Consts
begin

text \<open>
  The order of typed instructions: the operand that decides the type of an instruction comes before it. With it the question for the type of an instruction
  ends; loads, fields, coercions and operators keep it.
\<close>

named_theorems order_intros

section \<open>Ordered instructions\<close>

definition ref_below :: "nat \<Rightarrow> inst_ref \<Rightarrow> bool" where
  "ref_below n r \<longleftrightarrow> (case r of R_Instruction i \<Rightarrow> i < n | R_Interned _ \<Rightarrow> True)"

lemma ref_below_simps [simp]: "ref_below n (R_Interned v)" "ref_below n (R_Instruction i) \<longleftrightarrow> i < n"
  by (simp_all add: ref_below_def)

lemma ref_below_mono: "ref_below n r \<Longrightarrow> n \<le> m \<Longrightarrow> ref_below m r"
  by (cases r) simp_all

definition type_operands :: "topcode \<Rightarrow> inst_ref list" where
  "type_operands p =
     (case p of T_Load r \<Rightarrow> [r] | T_FnCall r _ \<Rightarrow> [r] | T_Bin k r _ \<Rightarrow> if is_comparison k then [] else [r] | T_BitNot r \<Rightarrow> [r] | _ \<Rightarrow> [])"

lemma opcode_type_operands:
  "opcode_type c p = TS_Same r \<Longrightarrow> type_operands p = [r]" "opcode_type c p = TS_ReturnOf r \<Longrightarrow> type_operands p = [r]"
  "opcode_type c p = TS_PointeeOf r \<Longrightarrow> type_operands p = [r]"
  by (cases p; auto simp: type_operands_def split: if_splits)+

definition ordered :: "topcode list \<Rightarrow> bool" where
  "ordered insts \<longleftrightarrow> (\<forall>i < length insts. \<forall>r \<in> set (type_operands (insts ! i)). ref_below i r)"

lemma ordered_snoc: "ordered insts \<Longrightarrow> (\<And>r. r \<in> set (type_operands p) \<Longrightarrow> ref_below (length insts) r) \<Longrightarrow> ordered (insts @ [p])"
  by (auto simp: ordered_def nth_append less_Suc_eq)

lemma type_of_ref_ends:
  assumes "ordered insts"
  shows "ref_below bound r \<or> (\<exists>i. r = R_Instruction i \<and> length insts \<le> i) \<Longrightarrow> type_of_ref S insts bound r \<noteq> None"
proof (induction bound arbitrary: r rule: less_induct)
  case (less bound)
  show ?case
  proof (cases r)
    case (R_Instruction n)
    show ?thesis
    proof (cases "n < length insts")
      case True
      then have n: "n < bound" using less.prems R_Instruction by auto
      have below: "ref_below n r'" if "type_operands (insts ! n) = [r']" for r' using assms True that by (auto simp: ordered_def)
      have IH: "type_of_ref S insts n r' \<noteq> None" if "type_operands (insts ! n) = [r']" for r' using less.IH [OF n] below [OF that] by blast
      show ?thesis
        using True n R_Instruction IH opcode_type_operands [of "vs_common S" "insts ! n"] by (auto split: type_source.splits)
    qed (simp add: R_Instruction)
  qed simp
qed

lemma vtir_type_of_ends: "ordered insts \<Longrightarrow> vtir_type_of S insts r \<noteq> None"
proof -
  assume o: "ordered insts"
  have "ref_below (length insts) r \<or> (\<exists>i. r = R_Instruction i \<and> length insts \<le> i)" by (cases r) (auto simp: leI)
  then show ?thesis unfolding vtir_type_of_def by (rule type_of_ref_ends [OF o])
qed

section \<open>Calls that keep the order\<close>

definition sema_ordered :: "'h sema \<Rightarrow> bool" where
  "sema_ordered st \<longleftrightarrow> ordered (sa_instructions st) \<and> (\<forall>b \<in> set (sa_blocks st). \<forall>r \<in> set (bk_instructions b). ref_below (length (sa_instructions st)) r)"

abbreviation ninsts :: "'h sema \<Rightarrow> nat" where
  "ninsts st \<equiv> length (sa_instructions st)"

definition order_call :: "('a, 'h) sema_m \<Rightarrow> ('a \<Rightarrow> nat \<Rightarrow> bool) \<Rightarrow> 'h sema \<Rightarrow> bool" where
  "order_call m Q st \<longleftrightarrow>
     (sema_ordered st \<longrightarrow>
      (case m st of
         S_Ok x st' \<Rightarrow> sema_ordered st' \<and> ninsts st \<le> ninsts st' \<and> Q x (ninsts st')
       | S_Err _ st' \<Rightarrow> sema_ordered st' \<and> ninsts st \<le> ninsts st'
       | _ \<Rightarrow> True))"

abbreviation any_result :: "'a \<Rightarrow> nat \<Rightarrow> bool" where
  "any_result \<equiv> \<lambda>_ _. True"

abbreviation ref_result :: "inst_ref \<Rightarrow> nat \<Rightarrow> bool" where
  "ref_result \<equiv> \<lambda>r n. ref_below n r"

lemma order_bind:
  assumes "order_call m Q st" and "\<And>x st'. ninsts st \<le> ninsts st' \<Longrightarrow> Q x (ninsts st') \<Longrightarrow> order_call (f x) R st'"
  shows "order_call (s_bind m f) R st"
proof (cases "m st")
  case (S_Ok x st')
  show ?thesis
  proof (cases "sema_ordered st")
    case True
    then have x: "sema_ordered st'" "ninsts st \<le> ninsts st'" "Q x (ninsts st')" using assms(1) S_Ok by (simp_all add: order_call_def)
    have "order_call (f x) R st'" by (rule assms(2) [OF x(2,3)])
    then show ?thesis using S_Ok x by (auto simp: order_call_def split: sema_result.splits)
  qed (simp add: order_call_def)
qed (use assms(1) in \<open>simp_all add: order_call_def\<close>)

lemma order_any: "order_call m Q st \<Longrightarrow> order_call m any_result st"
  by (auto simp: order_call_def split: sema_result.splits)

lemma order_bind_any:
  assumes "order_call m any_result st" and "\<And>x st'. ninsts st \<le> ninsts st' \<Longrightarrow> order_call (f x) R st'"
  shows "order_call (s_bind m f) R st"
  by (rule order_bind [OF assms(1)]) (rule assms(2))

lemma order_ret [order_intros]: "Q x (ninsts st) \<Longrightarrow> order_call (s_ret x) Q st"
  by (simp add: order_call_def)

lemma order_fail [order_intros]: "order_call (s_fail msg span) Q st" "order_call (s_throw e) Q st" "order_call s_panic Q st"
  by (simp_all add: order_call_def sema_ordered_def)

lemma order_reads [order_intros]:
  "order_call (s_get f) any_result st" "order_call (s_lift m) any_result st" "order_call (s_deep d) any_result st" "order_call (s_key i) any_result st"
  "order_call (s_key_value i) any_result st" "order_call (s_value i) any_result st" "order_call (s_common g) any_result st"
  "order_call (push_error msg sp) any_result st"
  by (auto simp: order_call_def s_lift_def s_deep_def s_value_def sema_ordered_def split: outcome.splits option.splits sema_result.splits)

lemma order_type_of [order_intros]: "order_call (sema_type_of r) any_result st"
  unfolding sema_type_of_def by (rule order_bind_any [OF order_reads(1)]) (rule order_reads(3))

lemma order_comptime_key [order_intros]: "order_call (comptime_key r) any_result st"
  unfolding comptime_key_def by (auto split: option.split intro!: order_intros order_bind_any)

lemma order_get_block [order_intros]: "order_call (get_block b) any_result st"
  unfolding get_block_def by (auto intro!: order_intros order_bind_any)

lemma order_stored [order_intros]: "order_call (s_stored f) any_result st"
  by (auto simp: order_call_def s_stored_def sema_ordered_def split: outcome.splits)

lemma order_intern [order_intros]: "order_call (s_intern E k) any_result st" "order_call (s_intern_ref E k) ref_result st" "order_call (s_intern_ptr_type E p c) any_result st"
  "order_call (s_intern_enum_tag E ty i) any_result st" "order_call (s_intern_value_ptr E v) ref_result st"
  unfolding s_intern_ref_def s_intern_def s_intern_ptr_type_def s_intern_enum_tag_def s_intern_value_ptr_def
  by (auto intro!: order_stored order_bind_any order_ret)

lemma from_usize_le: "instruction_id_from_usize n = Returns i \<Longrightarrow> i \<le> n"
  by (auto simp: instruction_id_from_usize_def from_usize_def from_u32_def as_usize_def unat_of_nat take_bit_nat_eq_self_iff split: if_splits intro: mod_less_eq_dividend)

lemma order_inst [order_intros]:
  assumes "\<And>r. r \<in> set (type_operands p) \<Longrightarrow> ref_below (ninsts st) r"
  shows "order_call (inst block p) ref_result st"
proof -
  have "sema_ordered st' \<and> ninsts st \<le> ninsts st' \<and> ref_below (ninsts st') r" if ord: "sema_ordered st" and r: "inst block p st = S_Ok r st'" for r st'
  proof -
    obtain i where i: "instruction_id_from_usize (ninsts st) = Returns i" "r = R_Instruction i" and b: "block < length (sa_blocks st)"
        and st': "st' = st\<lparr>sa_instructions := sa_instructions st @ [p], sa_blocks := (sa_blocks st)[block := (sa_blocks st ! block)\<lparr>bk_instructions :=
          bk_instructions (sa_blocks st ! block) @ [R_Instruction i]\<rparr>]\<rparr>"
      using r by (auto simp: inst_def inst_id_def Let_def s_bind_Ok s_lift_Ok get_block_def split: if_splits)
    have "\<forall>b \<in> set ((sa_blocks st)[block := (sa_blocks st ! block)\<lparr>bk_instructions := bk_instructions (sa_blocks st ! block) @ [R_Instruction i]\<rparr>]).
        \<forall>r \<in> set (bk_instructions b). ref_below (Suc (ninsts st)) r"
    proof (intro ballI)
      fix b r assume "b \<in> set ((sa_blocks st)[block := (sa_blocks st ! block)\<lparr>bk_instructions := bk_instructions (sa_blocks st ! block) @ [R_Instruction i]\<rparr>])"
        and r: "r \<in> set (bk_instructions b)"
      then consider "b \<in> set (sa_blocks st)" | "b = (sa_blocks st ! block)\<lparr>bk_instructions := bk_instructions (sa_blocks st ! block) @ [R_Instruction i]\<rparr>"
        using set_update_subset_insert [of "sa_blocks st" block] by blast
      then have "ref_below (ninsts st) r \<or> r = R_Instruction i"
        using r ord nth_mem [OF b] by cases (auto simp: sema_ordered_def)
      then show "ref_below (Suc (ninsts st)) r" using from_usize_le [OF i(1)] ref_below_mono [of "ninsts st" r "Suc (ninsts st)"] by auto
    qed
    then show ?thesis using st' i ord from_usize_le [OF i(1)] ordered_snoc [OF _ assms] by (simp add: sema_ordered_def)
  qed
  moreover have "inst block p st \<noteq> S_Err e st'" for e st'
    by (auto simp: inst_def inst_id_def Let_def s_bind_def s_lift_def get_block_def split: outcome.splits sema_result.splits if_splits)
  ultimately show ?thesis by (auto simp: order_call_def split: sema_result.splits)
qed

section \<open>Loads, fields and coercions\<close>

text \<open>The calls into the compilation unit keep the order too.\<close>

definition callees_ordered :: "'h sema_env \<Rightarrow> bool" where
  "callees_ordered E \<longleftrightarrow> (\<forall>d st. order_call (en_get_or_analyze_decl_value E d) any_result st) \<and> (\<forall>ty st. order_call (en_analyze_type_info E ty) any_result st)"

lemma type_operands_simps [simp]:
  "type_operands (T_Load r) = [r]" "type_operands (T_StructFieldValue r i ty) = []" "type_operands (T_UnsafeIntCast r ty) = []"
  "type_operands (T_BitCast r ty) = []" "type_operands (T_AnyptrInit r ty) = []" "type_operands (T_BitNot r) = [r]"
  by (simp_all add: type_operands_def)

lemma order_consume: "order_call (consume_slot r span) any_result st"
  by (auto simp: order_call_def consume_slot_def sema_ordered_def split: option.splits)

lemma order_get_decl: "order_call (get_decl d) any_result st"
  unfolding get_decl_def by (rule order_bind_any [OF order_reads(1)]) (auto intro!: order_intros)

lemma order_comptime_pointee: "order_call (comptime_pointee kind) any_result st"
  unfolding comptime_pointee_def analysed_value_def
  by (auto intro!: order_intros order_bind_any [OF order_get_decl] order_bind_any [OF order_reads(1)] split: ptr_kind.split decl_analysis_state.split)

lemma order_readable: "order_call (readable_at_comptime k) any_result st"
  unfolding readable_at_comptime_def
  by (auto intro!: order_intros order_bind_any [OF order_get_decl] split: vkey.split ptr_kind.split)

lemma order_load [order_intros]:
  assumes "ref_below (ninsts st) src"
  shows "order_call (analyze_load block src span) ref_result st"
  unfolding analyze_load_def
proof (rule order_bind_any [OF order_type_of], rule order_bind_any [OF order_reads(4)], rule order_bind_any)
  fix src_ty src_key and st1 st2 :: "'a sema"
  assume n: "ninsts st \<le> ninsts st1" "ninsts st1 \<le> ninsts st2"
  show "order_call (case src_key of VK_Type (VT_Ptr ptr) \<Rightarrow> s_bind (s_get sa_values) (\<lambda>S. s_bind (s_lift (type_is_linear S (tp_pointee_ty ptr))) (\<lambda>linear.
      if linear then consume_slot src span else s_ret ())) | _ \<Rightarrow> s_ret ()) any_result st2"
    by (auto intro!: order_intros order_consume order_bind_any [OF order_reads(1)] order_bind_any [OF order_reads(2)] split: vkey.split vtype.split)
  fix u and st3 :: "'a sema"
  assume n3: "ninsts st2 \<le> ninsts st3"
  show "order_call (s_bind (case src_key of VK_Type (VT_Ptr _) \<Rightarrow> s_ret () | _ \<Rightarrow> s_fail (M_LoadNotPtr src_ty) span) (\<lambda>_.
       case as_interned_opt src of None \<Rightarrow> inst block (T_Load src)
       | Some value \<Rightarrow> s_bind (s_key value) (\<lambda>k. s_bind (readable_at_comptime k) (\<lambda>readable.
             if readable then s_bind (s_lift (as_ptr_kind k)) (\<lambda>kind. s_bind (comptime_pointee kind) (\<lambda>v. s_ret (R_Interned v)))
             else inst block (T_Load src))))) ref_result st3"
  proof (rule order_bind_any)
    show "order_call (case src_key of VK_Type (VT_Ptr _) \<Rightarrow> s_ret () | _ \<Rightarrow> s_fail (M_LoadNotPtr src_ty) span) any_result st3"
      by (auto intro!: order_intros split: vkey.split vtype.split)
    fix v and st4 :: "'a sema"
    assume n4: "ninsts st3 \<le> ninsts st4"
    have b: "ref_below (ninsts st') src" if "ninsts st4 \<le> ninsts st'" for st' :: "'a sema"
      by (rule ref_below_mono [OF assms]) (use n n3 n4 that in linarith)
    show "order_call (case as_interned_opt src of None \<Rightarrow> inst block (T_Load src)
       | Some value \<Rightarrow> s_bind (s_key value) (\<lambda>k. s_bind (readable_at_comptime k) (\<lambda>readable.
             if readable then s_bind (s_lift (as_ptr_kind k)) (\<lambda>kind. s_bind (comptime_pointee kind) (\<lambda>v. s_ret (R_Interned v)))
             else inst block (T_Load src)))) ref_result st4"
      by (auto split: option.split intro!: order_inst order_ret order_bind_any [OF order_reads(4)] order_bind_any [OF order_readable]
          order_bind_any [OF order_reads(2)] order_bind_any [OF order_comptime_pointee] b)
  qed
qed

lemma order_nth [order_intros]: "order_call (s_nth xs i) any_result st"
  by (simp add: s_nth_def order_ret order_fail)

lemma order_lookup [order_intros]: "order_call (lookup_decl_in_namespace n name) any_result st"
  unfolding lookup_decl_in_namespace_def by (rule order_bind_any [OF order_reads(1)]) (auto intro!: order_intros)

lemma order_decl_value_ref: "callees_ordered E \<Longrightarrow> order_call (decl_value_ref E d) ref_result st"
  unfolding decl_value_ref_def decl_value_unwrap_def callees_ordered_def
  by (auto intro!: order_bind_any order_intros split: option.split)

lemmas order_binds = order_bind_any [OF order_type_of] order_bind_any [OF order_reads(1)] order_bind_any [OF order_reads(2)] order_bind_any [OF order_reads(3)]
  order_bind_any [OF order_reads(4)] order_bind_any [OF order_reads(5)] order_bind_any [OF order_reads(6)] order_bind_any [OF order_reads(7)]
  order_bind_any [OF order_nth] order_bind_any [OF order_lookup] order_bind_any [OF order_comptime_key] order_bind_any [OF order_get_block]
  order_bind_any [OF order_intern(1)] order_bind_any [OF order_intern(3)] order_bind_any [OF order_intern(4)]

lemma order_type_field_val:
  assumes "callees_ordered E"
  shows "order_call (type_field_val E lhs field s1 s2) ref_result st"
  unfolding type_field_val_def
  by (rule order_binds) (auto intro!: order_binds order_intros order_decl_value_ref [OF assms] split: vkey.split vtype.split vvalue.split option.split)

lemma order_struct_decl_val: "callees_ordered E \<Longrightarrow> order_call (struct_decl_val E s field ty sp) ref_result st"
  unfolding struct_decl_val_def by (rule order_binds) (auto intro!: order_intros order_decl_value_ref split: option.split)

lemma order_maybe_load:
  "ref_below (ninsts st) lhs \<Longrightarrow> order_call (if b then analyze_load block lhs span else s_ret lhs) ref_result st"
  by (auto intro!: order_load order_ret)

lemma order_struct_field_val:
  assumes "ref_below (ninsts st) lhs"
  shows "order_call (struct_field_val block lhs p s i span) ref_result st"
  unfolding struct_field_val_def
proof (rule order_binds, rule order_bind [OF order_maybe_load])
  fix st1 :: "'a sema"
  assume "ninsts st \<le> ninsts st1"
  then show "ref_below (ninsts st1) lhs" using ref_below_mono assms by blast
qed (auto intro!: order_binds order_intros split: option.split vkey.split)

lemma order_field_by_type:
  assumes "callees_ordered E" and "ref_below (ninsts st) lhs"
  shows "order_call (field_val_by_type E block lhs lhs_ty is_ptr field s1 span kv) ref_result st"
proof -
  have b: "ref_below (ninsts st') lhs" if "ninsts st \<le> ninsts st'" for st' :: "'a sema" by (rule ref_below_mono [OF assms(2) that])
  have comptime: "order_call (s_comptime r) any_result st'" for r and st' :: "'a sema"
    unfolding s_comptime_def by (auto intro!: order_intros split: option.split)
  obtain k v where kv: "kv = (k, v)" by fastforce
  show ?thesis
  proof (cases k)
    case (VK_Type t)
    show ?thesis
    proof (cases t)
      case VT_Type
      have "order_call (s_bind (if is_ptr then analyze_load block lhs span else s_ret lhs) (\<lambda>lhs. s_bind (s_comptime lhs) (\<lambda>lhs.
          type_field_val E lhs field s1 span))) ref_result st"
        by (rule order_bind [OF order_maybe_load [OF assms(2)]], rule order_bind_any [OF comptime], rule order_type_field_val [OF assms(1)])
      then show ?thesis by (simp add: field_val_by_type_def kv VK_Type VT_Type)
    next
      case (VT_Struct ns)
      then show ?thesis unfolding field_val_by_type_def kv VK_Type
        by (cases v) (auto intro!: order_fail order_struct_field_val [OF assms(2)] order_struct_decl_val [OF assms(1)] split: option.split)
    next
      case (VT_Ptr ptr)
      then show ?thesis unfolding field_val_by_type_def kv VK_Type
        by (auto intro!: order_binds order_intros order_bind [OF order_inst] order_struct_decl_val [OF assms(1)] b split: vvalue.split option.split)
    qed (simp_all add: field_val_by_type_def kv VK_Type order_fail)
  qed (simp_all add: field_val_by_type_def kv order_fail)
qed

lemma order_field_val:
  assumes "callees_ordered E" and "ref_below (ninsts st) lhs"
  shows "order_call (analyze_field_val E block lhs field s1 span) ref_result st"
  unfolding analyze_field_val_def
proof (rule order_binds, rule order_binds, rule order_binds)
  fix lhs_ty lhs_key kv and st1 st2 st3 :: "'a sema"
  assume "ninsts st \<le> ninsts st1" "ninsts st1 \<le> ninsts st2" "ninsts st2 \<le> ninsts st3"
  then have "ref_below (ninsts st3) lhs" by (intro ref_below_mono [OF assms(2)]) linarith
  then show "order_call (field_val_by_type E block lhs lhs_ty (snd (auto_deref lhs_ty lhs_key)) field s1 span kv) ref_result st3"
    by (rule order_field_by_type [OF assms(1)])
qed

lemma order_coerce_parts:
  assumes "callees_ordered E" and "ref_below (ninsts st) r"
  shows "order_call (coerce_int E block dst sg bits r span) ref_result st" and "order_call (coerce_float E dst t r span) ref_result st"
    and "order_call (coerce_ptr block dst p q r span) ref_result st" and "order_call (coerce_size E dst r) ref_result st"
    and "order_call (coerce_enum_literal E block dst r span) ref_result st" and "order_call (coerce_anyptr E block ty r span) ref_result st"
proof -
  show "order_call (coerce_int E block dst sg bits r span) ref_result st"
    unfolding coerce_int_def by (rule order_binds) (auto intro!: order_binds order_intros order_bind_any split: option.split vkey.split)
  show "order_call (coerce_float E dst t r span) ref_result st"
    unfolding coerce_float_def by (rule order_binds, rule order_binds) (auto simp: Let_def intro!: order_intros split: vkey.split)
  show "order_call (coerce_ptr block dst p q r span) ref_result st" unfolding coerce_ptr_def by (auto intro!: order_intros)
  show "order_call (coerce_size E dst r) ref_result st"
    unfolding coerce_size_def by (rule order_binds, rule order_binds) (auto intro!: order_intros split: vkey.split)
  show "order_call (coerce_enum_literal E block dst r span) ref_result st"
    unfolding coerce_enum_literal_def
    by (rule order_binds, rule order_binds) (auto intro!: order_binds order_intros order_field_val [OF assms(1)] split: vkey.split)
  have info: "order_call (en_analyze_type_info E ty) any_result st'" for st' using assms(1) by (simp add: callees_ordered_def)
  show "order_call (coerce_anyptr E block ty r span) ref_result st"
    unfolding coerce_anyptr_def by (rule order_binds, rule order_binds) (auto intro!: order_intros order_bind_any [OF info])
qed

lemma order_coerce_types:
  assumes "callees_ordered E" and "ref_below (ninsts st) r" and again: "\<And>ty st'. ref_below (ninsts st') r \<Longrightarrow> order_call (again ty) ref_result st'"
  shows "order_call (coerce_types E again block dst_ty inst_ty r span k k') ref_result st"
proof -
  have info: "order_call (en_analyze_type_info E ty) any_result st'" for ty st' using assms(1) by (simp add: callees_ordered_def)
  have b: "ref_below (ninsts st') r" if "ninsts st \<le> ninsts st'" for st' :: "'a sema" by (rule ref_below_mono [OF assms(2) that])
  have "order_call (s_bind (get_block block) (\<lambda>b. if bk_comptime b then coerce_anyptr E block inst_ty r span
        else s_bind (s_common cv_i32_t) (\<lambda>i32_t. s_bind (again i32_t) (\<lambda>concrete.
          s_bind (en_analyze_type_info E i32_t) (\<lambda>_. inst block (T_AnyptrInit concrete i32_t)))))) ref_result st"
    by (rule order_binds)
      (auto intro!: order_binds order_inst order_bind [OF again] order_bind_any [OF info] order_coerce_parts(6) [OF assms(1)] b)
  then show ?thesis
    using order_coerce_parts [OF assms(1,2)] assms(2)
    by (auto simp: coerce_types_def Let_def intro!: order_fail order_ret split: vkey.split vtype.split)
qed

lemma order_coerced_type: "order_call (coerced_type r) any_result st"
  unfolding coerced_type_def by (rule order_binds) (auto intro!: order_intros split: option.split vkey.split inst_ref.split)

lemma order_coerce_at:
  assumes "callees_ordered E"
  shows "ref_below (ninsts st) r \<Longrightarrow> order_call (coerce_at n E block dst_ty r span) ref_result st"
proof (induction n arbitrary: dst_ty st)
  case (Suc n)
  have b: "ref_below (ninsts st') r" if "ninsts st \<le> ninsts st'" for st' :: "'a sema" by (rule ref_below_mono [OF Suc.prems that])
  show ?case unfolding coerce_at.simps
    by (rule order_bind_any [OF order_coerced_type], rule order_binds)
      (auto intro!: order_binds order_ret order_coerce_types [OF assms] Suc.IH b)
qed (simp add: order_call_def)

lemma order_coerce: "callees_ordered E \<Longrightarrow> ref_below (ninsts st) r \<Longrightarrow> order_call (coerce E block dst_ty r span) ref_result st"
  unfolding coerce_def by (rule order_coerce_at)

section \<open>Operators\<close>

lemma order_unify:
  assumes "callees_ordered E" and "ref_below (ninsts st) l" and "ref_below (ninsts st) r"
  shows "order_call (unify_operands E sizes msg block lt rt l r span) (\<lambda>(_, l, r) n. ref_below n l \<and> ref_below n r) st"
proof -
  have l: "ref_below (ninsts st') l" and r: "ref_below (ninsts st') r" if "ninsts st \<le> ninsts st'" for st' :: "'a sema"
    using ref_below_mono [OF assms(2) that] ref_below_mono [OF assms(3) that] by blast+
  show ?thesis unfolding unify_operands_def
    by (rule order_binds, rule order_binds) (auto intro!: order_intros order_bind [OF order_coerce [OF assms(1)]] l r intro: ref_below_mono)
qed

lemma order_bin: "ref_below (ninsts st) l \<Longrightarrow> order_call (inst block (T_Bin op l r)) ref_result st"
  by (rule order_inst) (simp add: type_operands_def split: if_splits)

lemma order_float_op: "order_call (comptime_float_op E op ty x y) ref_result st"
  unfolding comptime_float_op_def Let_def by (auto intro!: order_intros split: infix_op_kind.split)

lemma order_shift: "order_call (shift_amount w ty x span) any_result st"
  unfolding shift_amount_def Let_def by (auto intro!: order_binds order_intros)

lemma order_bitwise_int: "order_call (comptime_bitwise_op op ty x y span) any_result st"
  unfolding comptime_bitwise_op_def by (auto intro!: order_bind_any [OF order_shift] order_intros split: infix_op_kind.split)

text \<open>What the operators do once the operands have one type and their keys are known.\<close>

lemma order_on_operands:
  assumes "\<And>st' lk rk. ninsts st \<le> ninsts st' \<Longrightarrow> order_call (f lk rk) ref_result st'"
  shows "order_call (on_operand_keys l r f) ref_result st"
  unfolding on_operand_keys_def by (rule order_binds, rule order_binds) (rule assms, linarith)

lemma order_after_unify:
  assumes "callees_ordered E" and "ref_below (ninsts st) l" and "ref_below (ninsts st) r"
    and "\<And>st' ty l' r'. ninsts st \<le> ninsts st' \<Longrightarrow> ref_below (ninsts st') l' \<Longrightarrow> ref_below (ninsts st') r' \<Longrightarrow> order_call (f (ty, l', r')) ref_result st'"
  shows "order_call (s_bind (unify_operands E sizes msg block lt rt l r span) f) ref_result st"
  by (rule order_bind [OF order_unify [OF assms(1-3)]]) (auto intro!: assms(4))

lemma order_two_types:
  assumes "ref_below (ninsts st) l" and "ref_below (ninsts st) r"
    and "\<And>st' lt rt. ninsts st \<le> ninsts st' \<Longrightarrow> ref_below (ninsts st') l \<Longrightarrow> ref_below (ninsts st') r \<Longrightarrow> order_call (f lt rt) ref_result st'"
  shows "order_call (s_bind (sema_type_of l) (\<lambda>lt. s_bind (sema_type_of r) (f lt))) ref_result st"
proof (rule order_binds, rule order_binds)
  fix lt rt and st1 st2 :: "'a sema"
  assume n: "ninsts st \<le> ninsts st1" "ninsts st1 \<le> ninsts st2"
  have n2: "ninsts st \<le> ninsts st2" using n by linarith
  show "order_call (f lt rt) ref_result st2" by (rule assms(3) [OF n2 ref_below_mono [OF assms(1) n2] ref_below_mono [OF assms(2) n2]])
qed

lemma order_on_keys:
  assumes "ref_below (ninsts st) l"
  shows "order_call (arithmetic_on_keys E block op ty l r lk rk) ref_result st" and "order_call (bitwise_on_keys E block op ty l r span lk rk) ref_result st"
    and "order_call (comparison_on_keys E block op l r lk rk) ref_result st"
proof -
  show "order_call (arithmetic_on_keys E block op ty l r lk rk) ref_result st"
    using assms unfolding arithmetic_on_keys_def
    by (auto intro!: order_binds order_intros order_bin order_float_op split: option.split vkey.split infix_op_kind.split)
  show "order_call (bitwise_on_keys E block op ty l r span lk rk) ref_result st"
    using assms unfolding bitwise_on_keys_def
    by (auto intro!: order_bind_any [OF order_bitwise_int] order_intros order_bin split: option.split vkey.split infix_op_kind.split)
  show "order_call (comparison_on_keys E block op l r lk rk) ref_result st"
    using assms unfolding comparison_on_keys_def Let_def
    by (auto intro!: order_binds order_intros order_bin split: option.split vkey.split)
qed

lemma order_operators:
  assumes "callees_ordered E" and "ref_below (ninsts st) l" and "ref_below (ninsts st) r"
  shows "order_call (analyze_arithmetic_op E block op l r span) ref_result st" and "order_call (analyze_bitwise_op E block op l r span) ref_result st"
    and "order_call (analyze_comparaison_op E block op l r span) ref_result st" and "order_call (analyze_bitwise_not_op E block l span) ref_result st"
proof -
  note rules = order_after_unify [OF assms(1)] order_on_operands order_on_keys
  show "order_call (analyze_arithmetic_op E block op l r span) ref_result st"
    unfolding analyze_arithmetic_op_def by (rule order_two_types [OF assms(2,3)]) (auto intro!: order_binds order_fail rules; meson ref_below_mono le_trans)
  show "order_call (analyze_bitwise_op E block op l r span) ref_result st"
    unfolding analyze_bitwise_op_def by (rule order_two_types [OF assms(2,3)]) (auto intro!: order_binds order_fail rules; meson ref_below_mono le_trans)
  show "order_call (analyze_comparaison_op E block op l r span) ref_result st"
    unfolding analyze_comparaison_op_def by (rule order_two_types [OF assms(2,3)]) (auto intro!: rules; meson ref_below_mono le_trans)
  show "order_call (analyze_bitwise_not_op E block l span) ref_result st"
    unfolding analyze_bitwise_not_op_def
    by (rule order_binds, rule order_binds) (auto intro!: order_binds order_intros split: option.split vkey.split; meson ref_below_mono [OF assms(2)] le_trans)
qed

section \<open>Properties\<close>



end
